(* ===== verification/Prelude.thy ===== *)
theory Prelude
  imports Main "HOL-Library.AList"
begin

text \<open>
  Shared vocabulary of the development: the exceptions that the C++ code throws, the sum
  type that carries them, the lemma collections the component theories extend, and the
  generic facts on lists and association lists they share.

  An operation that may throw returns \<open>silkit_error + 'a\<close>; an operation that also
  changes the state before it throws returns the state beside it. An
  \<open>unordered_map\<close> or \<open>map\<close> of the code is an association list with distinct keys, so
  that every definition stays executable.
\<close>

section \<open>Lemma collections\<close>

named_theorems frame_simps \<open>what an operation leaves unchanged\<close>
named_theorems step_defs \<open>unfolding rules of the operations of the component at hand\<close>

section \<open>Exceptions as values\<close>

text \<open>
  The exception classes of \<open>silkit/participant/exception.hpp\<close> and of the message buffer
  that the modelled code throws, \<open>FutureError\<close> for the exception of a promise that is set
  twice, \<open>BadFunctionCall\<close> for that of the call of an empty function, and
  \<open>UserException\<close> for whatever a user's callback throws. \<open>DanglingPointer\<close> is no
  exception of the code but the use of an object that was destroyed, which is undefined
  there. The message texts are not modelled.
\<close>

datatype silkit_error =
    SilKitError
  | StateError
  | LogicError
  | ConfigurationError
  | AssertionError
  | ProtocolError
  | TypeConversionError
  | EndOfBuffer
  | FutureError
  | BadFunctionCall
  | DanglingPointer
  | UserException

type_synonym 'a result = "silkit_error + 'a"

definition bind_result :: "'a result \<Rightarrow> ('a \<Rightarrow> 'b result) \<Rightarrow> 'b result" where
  "bind_result r k = (case r of Inl e \<Rightarrow> Inl e | Inr a \<Rightarrow> k a)"

lemma bind_result_simps [simp]:
  "bind_result (Inl e) k = Inl e"
  "bind_result (Inr a) k = k a"
  by (simp_all add: bind_result_def)

lemma bind_result_Inr_iff:
  "bind_result r k = Inr b \<longleftrightarrow> (\<exists>a. r = Inr a \<and> k a = Inr b)"
  by (cases r) auto

text \<open>
  A call that changes the state: it returns, throws (and leaves the state it had reached),
  or runs out of the fuel that bounds a chain of virtual calls.
\<close>

datatype 's outcome = Done 's | Raised silkit_error 's | OutOfFuel

fun bind_outcome :: "'s outcome \<Rightarrow> ('s \<Rightarrow> 's outcome) \<Rightarrow> 's outcome" where
  "bind_outcome (Done s) k = k s"
| "bind_outcome (Raised e s) k = Raised e s"
| "bind_outcome OutOfFuel k = OutOfFuel"

lemma bind_outcome_Done_iff:
  "bind_outcome r k = Done s \<longleftrightarrow> (\<exists>s'. r = Done s' \<and> k s' = Done s)"
  by (cases r) auto

text \<open>The state after a call, whether it returned or threw: the thread that called goes on after both.\<close>

fun state_after :: "'s outcome \<Rightarrow> 's option" where
  "state_after (Done s) = Some s"
| "state_after (Raised e s) = Some s"
| "state_after OutOfFuel = None"

text \<open>A call leaves a part of the state as it is, whether it returns or throws.\<close>

definition leaves :: "('s \<Rightarrow> 'a) \<Rightarrow> 's \<Rightarrow> 's outcome \<Rightarrow> bool" where
  "leaves f s r \<longleftrightarrow> (\<forall>s'. state_after r = Some s' \<longrightarrow> f s' = f s)"

lemma leaves_simps [simp]:
  "leaves f s (Done s') \<longleftrightarrow> f s' = f s"
  "leaves f s (Raised e s') \<longleftrightarrow> f s' = f s"
  "leaves f s OutOfFuel"
  by (auto simp: leaves_def)

lemma leaves_bind:
  assumes "leaves f s r" "\<And>s'. r = Done s' \<Longrightarrow> leaves f s' (k s')"
  shows "leaves f s (bind_outcome r k)"
  using assms by (cases r) (auto simp: leaves_def)

lemma leavesD: "leaves f s r \<Longrightarrow> state_after r = Some s' \<Longrightarrow> f s' = f s"
  by (simp add: leaves_def)

lemma leaves_Done: "leaves f s r \<Longrightarrow> r = Done s' \<Longrightarrow> f s' = f s"
  by simp

section \<open>Promises\<close>

text \<open>A \<open>std::promise\<close>: its value or its exception is set at most once.\<close>

datatype 'a promise = Unset | Fulfilled 'a | Broken silkit_error

definition set_value :: "'a \<Rightarrow> 'a promise \<Rightarrow> 'a promise result" where
  "set_value a p = (if p = Unset then Inr (Fulfilled a) else Inl FutureError)"

definition set_exception :: "silkit_error \<Rightarrow> 'a promise \<Rightarrow> 'a promise result" where
  "set_exception e p = (if p = Unset then Inr (Broken e) else Inl FutureError)"

text \<open>The code that swallows the exception of a promise that was set before.\<close>

definition try_set :: "'a promise result \<Rightarrow> 'a promise \<Rightarrow> 'a promise" where
  "try_set r p = (case r of Inl e \<Rightarrow> p | Inr p' \<Rightarrow> p')"

lemma try_set_simps [simp]:
  "try_set (set_value a Unset) Unset = Fulfilled a"
  "try_set (set_value a (Fulfilled b)) (Fulfilled b) = Fulfilled b"
  "try_set (set_value a (Broken e)) (Broken e) = Broken e"
  "try_set (set_exception e Unset) Unset = Broken e"
  "try_set (set_exception e (Fulfilled b)) (Fulfilled b) = Fulfilled b"
  "try_set (set_exception e (Broken e')) (Broken e') = Broken e'"
  by (simp_all add: try_set_def set_value_def set_exception_def)

section \<open>Association lists with distinct keys\<close>

lemma map_of_update [simp]:
  "map_of (AList.update k v al) = (map_of al)(k \<mapsto> v)"
  by (rule update_conv')

lemma map_of_delete [simp]:
  "map_of (AList.delete k al) = (map_of al)(k := None)"
  by (rule delete_conv')

lemma distinct_keys_update [simp]:
  "distinct (map fst al) \<Longrightarrow> distinct (map fst (AList.update k v al))"
  by (rule distinct_update)

lemma distinct_keys_delete [simp]:
  "distinct (map fst al) \<Longrightarrow> distinct (map fst (AList.delete k al))"
  by (rule distinct_delete)

lemma update_not_Nil [simp]: "AList.update k v al \<noteq> []"
  by (cases al) auto

lemma in_set_update_iff:
  "distinct (map fst al) \<Longrightarrow>
    x \<in> set (AList.update k v al) \<longleftrightarrow> x = (k, v) \<or> x \<in> set al \<and> fst x \<noteq> k"
  by (induction al) (auto simp: image_iff)

lemma in_set_delete_iff:
  "x \<in> set (AList.delete k al) \<longleftrightarrow> x \<in> set al \<and> fst x \<noteq> k"
  by (induction al) auto

lemma map_of_Some_in_set:
  "map_of al k = Some v \<Longrightarrow> (k, v) \<in> set al"
  by (rule map_of_SomeD)

end
