(* ===== verification/OrchestrationTypes.thy ===== *)
theory OrchestrationTypes
  imports Prelude
begin

text \<open>
  The data exchanged by the orchestration services: participant and system states, the
  operation mode, the participant status and the workflow configuration
  (\<open>silkit/services/orchestration/OrchestrationDatatypes.hpp\<close>), and the simulation task
  and system command of \<open>core/internal/OrchestrationDatatypes.hpp\<close>. Time points of the
  wall clock and durations of the virtual time are integers counting ticks.
\<close>

section \<open>Participant and system states\<close>

datatype participant_state =
    PS_Invalid
  | PS_ServicesCreated
  | PS_CommunicationInitializing
  | PS_CommunicationInitialized
  | PS_ReadyToRun
  | PS_Running
  | PS_Paused
  | PS_Stopping
  | PS_Stopped
  | PS_Error
  | PS_ShuttingDown
  | PS_Shutdown
  | PS_Aborting

datatype system_state =
    SS_Invalid
  | SS_ServicesCreated
  | SS_CommunicationInitializing
  | SS_CommunicationInitialized
  | SS_ReadyToRun
  | SS_Running
  | SS_Paused
  | SS_Stopping
  | SS_Stopped
  | SS_Error
  | SS_ShuttingDown
  | SS_Shutdown
  | SS_Aborting

datatype operation_mode = OM_Invalid | OM_Coordinated | OM_Autonomous

text \<open>
  The participant states are finitely many, so a statement over all of them can be
  evaluated.
\<close>

instantiation participant_state :: enum
begin

definition enum_participant_state :: "participant_state list" where
  "enum_participant_state =
     [PS_Invalid, PS_ServicesCreated, PS_CommunicationInitializing,
      PS_CommunicationInitialized, PS_ReadyToRun, PS_Running, PS_Paused, PS_Stopping,
      PS_Stopped, PS_Error, PS_ShuttingDown, PS_Shutdown, PS_Aborting]"

definition enum_all_participant_state :: "(participant_state \<Rightarrow> bool) \<Rightarrow> bool" where
  "enum_all_participant_state P \<longleftrightarrow> list_all P enum_class.enum"

definition enum_ex_participant_state :: "(participant_state \<Rightarrow> bool) \<Rightarrow> bool" where
  "enum_ex_participant_state P \<longleftrightarrow> list_ex P enum_class.enum"

instance
proof
  have all: "set (enum_class.enum :: participant_state list) = UNIV"
    by (auto simp: enum_participant_state_def intro: participant_state.exhaust)
  then show "(UNIV :: participant_state set) = set enum_class.enum" by simp
  show "distinct (enum_class.enum :: participant_state list)"
    by (simp add: enum_participant_state_def)
  show "enum_class.enum_all P \<longleftrightarrow> Ball UNIV P" for P :: "participant_state \<Rightarrow> bool"
    by (simp add: enum_all_participant_state_def list_all_iff all)
  show "enum_class.enum_ex P \<longleftrightarrow> Bex UNIV P" for P :: "participant_state \<Rightarrow> bool"
    by (simp add: enum_ex_participant_state_def list_ex_iff all)
qed

end

section \<open>Messages of the orchestration services\<close>

record participant_status =
  participantName :: string
  status_state :: participant_state
  enterReason :: string
  enterTime :: int
  refreshTime :: int

record workflow_configuration =
  requiredParticipantNames :: "string list"

record next_sim_task =
  timePoint :: int
  duration :: int

datatype system_command_kind = SystemCommand_Invalid | SystemCommand_AbortSimulation

record system_command =
  command_kind :: system_command_kind

end
