(* ===== verification/SystemStateTracker.thy ===== *)
theory SystemStateTracker
  imports OrchestrationTypes
begin

text \<open>
  The system state tracker (\<open>services/orchestration/SystemStateTracker.cpp\<close>): it keeps
  the last known status of every participant, the set of required participants, and the
  system state computed from them. Logging and the recursive mutex are not modelled.
\<close>

section \<open>State and operations\<close>

text \<open>
  The code keeps the required participants in an \<open>unordered_set\<close>. The list here holds
  its elements in the container's iteration order, which the standard leaves open:
  \<open>UpdateRequiredParticipants\<close> takes the order as an argument.
\<close>

record tracker =
  requiredParticipants :: "string list"
  systemState :: system_state
  participantStatusCache :: "(string \<times> participant_status) list"

record update_status_result =
  participantStateChanged :: bool
  systemStateChanged :: bool

definition init_tracker :: tracker where
  "init_tracker = \<lparr>requiredParticipants = [], systemState = SS_Invalid, participantStatusCache = []\<rparr>"

fun ValidateParticipantStateUpdate :: "participant_state \<Rightarrow> participant_state \<Rightarrow> bool result" where
  "ValidateParticipantStateUpdate old PS_ServicesCreated = Inr (old \<in> {PS_Invalid})"
| "ValidateParticipantStateUpdate old PS_CommunicationInitializing = Inr (old \<in> {PS_ServicesCreated})"
| "ValidateParticipantStateUpdate old PS_CommunicationInitialized =
     Inr (old \<in> {PS_CommunicationInitializing})"
| "ValidateParticipantStateUpdate old PS_ReadyToRun = Inr (old \<in> {PS_CommunicationInitialized})"
| "ValidateParticipantStateUpdate old PS_Running = Inr (old \<in> {PS_ReadyToRun, PS_Paused})"
| "ValidateParticipantStateUpdate old PS_Paused = Inr (old \<in> {PS_Running})"
| "ValidateParticipantStateUpdate old PS_Stopping = Inr (old \<in> {PS_Running, PS_Paused})"
| "ValidateParticipantStateUpdate old PS_Stopped = Inr (old \<in> {PS_Stopping})"
| "ValidateParticipantStateUpdate old PS_ShuttingDown = Inr (old \<in> {PS_Error, PS_Stopped})"
| "ValidateParticipantStateUpdate old PS_Shutdown = Inr (old \<in> {PS_ShuttingDown, PS_Aborting})"
| "ValidateParticipantStateUpdate old PS_Aborting = Inr True"
| "ValidateParticipantStateUpdate old PS_Error = Inr True"
| "ValidateParticipantStateUpdate old PS_Invalid = Inl AssertionError"

definition IsEmpty :: "tracker \<Rightarrow> bool" where
  "IsEmpty t \<longleftrightarrow> participantStatusCache t = []"

definition IsRequiredParticipant :: "string \<Rightarrow> tracker \<Rightarrow> bool" where
  "IsRequiredParticipant name t \<longleftrightarrow> name \<in> set (requiredParticipants t)"

definition GetParticipantStatus :: "string \<Rightarrow> tracker \<Rightarrow> participant_status option" where
  "GetParticipantStatus name t = map_of (participantStatusCache t) name"

definition default_status :: "string \<Rightarrow> participant_status" where
  "default_status name = \<lparr>participantName = name, status_state = PS_Invalid, enterReason = [],
     enterTime = 0, refreshTime = 0\<rparr>"

definition GetOrCreateParticipantStatus :: "string \<Rightarrow> tracker \<Rightarrow> participant_status \<times> tracker" where
  "GetOrCreateParticipantStatus name t =
     (case map_of (participantStatusCache t) name of
        Some st \<Rightarrow> (st, t)
      | None \<Rightarrow>
          let st = default_status name
          in (st, t\<lparr>participantStatusCache := AList.update name st (participantStatusCache t)\<rparr>))"

definition SetParticipantStatus :: "string \<Rightarrow> participant_status \<Rightarrow> tracker \<Rightarrow> tracker" where
  "SetParticipantStatus name st t =
     t\<lparr>participantStatusCache := AList.update name st (participantStatusCache t)\<rparr>"

definition GetAnyRequiredParticipantState :: "tracker \<Rightarrow> participant_state" where
  "GetAnyRequiredParticipantState t =
     (case requiredParticipants t of
        [] \<Rightarrow> PS_Invalid
      | name # _ \<Rightarrow>
          (case GetParticipantStatus name t of
             None \<Rightarrow> PS_Invalid
           | Some st \<Rightarrow> status_state st))"

text \<open>
  The local lambda \<open>ChangeToIfAllIn\<close> assigns \<open>newSystemState\<close> and reports success;
  \<open>AllRequiredIn\<close> is its loop, \<open>ChangeToFirst\<close> the chain of calls that stops at the
  first one that succeeds.
\<close>

definition AllRequiredIn :: "tracker \<Rightarrow> participant_state list \<Rightarrow> bool" where
  "AllRequiredIn t stateList \<longleftrightarrow>
     list_all (\<lambda>name. case GetParticipantStatus name t of
         None \<Rightarrow> False
       | Some st \<Rightarrow> list_ex (\<lambda>candidate. candidate = status_state st) stateList)
       (requiredParticipants t)"

fun ChangeToFirst :: "tracker \<Rightarrow> system_state \<Rightarrow> (system_state \<times> participant_state list) list
    \<Rightarrow> system_state" where
  "ChangeToFirst t new [] = new"
| "ChangeToFirst t new ((ss, stateList) # rest) =
     (if AllRequiredIn t stateList then ss else ChangeToFirst t new rest)"

text \<open>The calls of \<open>ChangeToIfAllIn\<close>, by the participant state that was reported.\<close>

fun change_table :: "participant_state \<Rightarrow> (system_state \<times> participant_state list) list" where
  "change_table PS_Invalid = []"
| "change_table PS_ServicesCreated =
     [(SS_ServicesCreated, [PS_ServicesCreated, PS_CommunicationInitializing,
                            PS_CommunicationInitialized, PS_ReadyToRun, PS_Running])]"
| "change_table PS_CommunicationInitializing =
     [(SS_CommunicationInitializing,
       [PS_CommunicationInitializing, PS_CommunicationInitialized, PS_ReadyToRun, PS_Running])]"
| "change_table PS_CommunicationInitialized =
     [(SS_CommunicationInitialized, [PS_CommunicationInitialized, PS_ReadyToRun, PS_Running])]"
| "change_table PS_ReadyToRun = [(SS_ReadyToRun, [PS_ReadyToRun, PS_Running])]"
| "change_table PS_Running =
     [(SS_Running, [PS_Running]),
      (SS_Stopping, [PS_Running, PS_Stopping]),
      (SS_Stopped, [PS_Running, PS_Stopped]),
      (SS_ShuttingDown, [PS_Running, PS_Stopped, PS_ShuttingDown]),
      (SS_Shutdown, [PS_Running, PS_Stopped, PS_ShuttingDown, PS_Shutdown])]"
| "change_table PS_Paused =
     [(SS_Paused, [PS_Running, PS_Paused]),
      (SS_Stopping, [PS_Running, PS_Paused, PS_Stopping]),
      (SS_Stopped, [PS_Running, PS_Paused, PS_Stopped]),
      (SS_ShuttingDown, [PS_Running, PS_Paused, PS_Stopped, PS_ShuttingDown]),
      (SS_Shutdown, [PS_Running, PS_Paused, PS_Stopped, PS_ShuttingDown, PS_Shutdown])]"
| "change_table PS_Stopping =
     [(SS_Stopping, [PS_Running, PS_Paused, PS_Stopping, PS_Stopped, PS_ShuttingDown, PS_Shutdown])]"
| "change_table PS_Stopped = [(SS_Stopped, [PS_Stopped, PS_ShuttingDown, PS_Shutdown])]"
| "change_table PS_ShuttingDown =
     [(SS_ShuttingDown, [PS_Stopped, PS_ShuttingDown, PS_Shutdown, PS_Error,
                         PS_ServicesCreated, PS_ReadyToRun])]"
| "change_table PS_Shutdown = [(SS_Shutdown, [PS_Shutdown])]"
| "change_table PS_Aborting = []"
| "change_table PS_Error = []"

definition ComputeSystemState :: "participant_state \<Rightarrow> tracker \<Rightarrow> system_state" where
  "ComputeSystemState newParticipantState t =
     (let oldSystemState = systemState t;
          newSystemState =
            (if IsEmpty t
             then (case oldSystemState of
                     SS_Error \<Rightarrow> oldSystemState
                   | SS_Shutdown \<Rightarrow> oldSystemState
                   | SS_ShuttingDown \<Rightarrow> SS_Shutdown
                   | _ \<Rightarrow> SS_Invalid)
             else oldSystemState)
      in case newParticipantState of
           PS_Aborting \<Rightarrow> SS_Aborting
         | PS_Error \<Rightarrow> SS_Error
         | _ \<Rightarrow> ChangeToFirst t newSystemState (change_table newParticipantState))"

definition UpdateRequiredParticipants ::
    "(string list \<Rightarrow> string list) \<Rightarrow> string list \<Rightarrow> tracker \<Rightarrow> bool \<times> tracker" where
  "UpdateRequiredParticipants iteration_order names t =
     (let t1 = t\<lparr>requiredParticipants := iteration_order (remdups names)\<rparr>;
          newSystemState = ComputeSystemState (GetAnyRequiredParticipantState t1) t1
      in if systemState t1 \<noteq> newSystemState
         then (True, t1\<lparr>systemState := newSystemState\<rparr>)
         else (False, t1))"

definition UpdateParticipantStatus ::
    "participant_status \<Rightarrow> tracker \<Rightarrow> update_status_result result \<times> tracker" where
  "UpdateParticipantStatus newStatus t =
     (let name = participantName newStatus;
          (oldStatus, t1) = GetOrCreateParticipantStatus name t;
          oldState = status_state oldStatus;
          newState = status_state newStatus
      in case ValidateParticipantStateUpdate oldState newState of
           Inl e \<Rightarrow> (Inl e, t1)
         | Inr _ \<Rightarrow>
             if oldState = PS_Shutdown
             then (Inr \<lparr>participantStateChanged = False, systemStateChanged = False\<rparr>, t1)
             else
               let t2 = SetParticipantStatus name newStatus t1
               in if oldState = newState
                  then (Inr \<lparr>participantStateChanged = False, systemStateChanged = False\<rparr>, t2)
                  else if \<not> IsRequiredParticipant name t2
                  then (Inr \<lparr>participantStateChanged = True, systemStateChanged = False\<rparr>, t2)
                  else
                    let newSystemState = ComputeSystemState newState t2
                    in if systemState t2 \<noteq> newSystemState
                       then (Inr \<lparr>participantStateChanged = True, systemStateChanged = True\<rparr>,
                             t2\<lparr>systemState := newSystemState\<rparr>)
                       else (Inr \<lparr>participantStateChanged = True, systemStateChanged = False\<rparr>, t2))"

definition RemoveParticipant :: "string \<Rightarrow> tracker \<Rightarrow> bool \<times> tracker" where
  "RemoveParticipant name t =
     (case map_of (participantStatusCache t) name of
        None \<Rightarrow> (False, t)
      | Some _ \<Rightarrow>
          let t1 = t\<lparr>participantStatusCache := AList.delete name (participantStatusCache t)\<rparr>;
              newSystemState = ComputeSystemState (GetAnyRequiredParticipantState t1) t1
          in if systemState t1 \<noteq> newSystemState
             then (True, t1\<lparr>systemState := newSystemState\<rparr>)
             else (False, t1))"


section \<open>The well-formedness invariant\<close>

definition tracker_inv :: "tracker \<Rightarrow> bool" where
  "tracker_inv t \<longleftrightarrow>
     distinct (map fst (participantStatusCache t)) \<and>
     (\<forall>x\<in>set (participantStatusCache t). participantName (snd x) = fst x) \<and>
     distinct (requiredParticipants t)"

lemma default_status_simps [simp]:
  "participantName (default_status n) = n"
  "status_state (default_status n) = PS_Invalid"
  by (simp_all add: default_status_def)

lemma GetOrCreate_frame [frame_simps]:
  "requiredParticipants (snd (GetOrCreateParticipantStatus n t)) = requiredParticipants t"
  "systemState (snd (GetOrCreateParticipantStatus n t)) = systemState t"
  by (simp_all add: GetOrCreateParticipantStatus_def Let_def split: option.split)

lemma SetParticipantStatus_frame [frame_simps]:
  "requiredParticipants (SetParticipantStatus n st t) = requiredParticipants t"
  "systemState (SetParticipantStatus n st t) = systemState t"
  by (simp_all add: SetParticipantStatus_def)

lemma IsRequiredParticipant_frame [frame_simps]:
  "IsRequiredParticipant m (SetParticipantStatus n st t) = IsRequiredParticipant m t"
  "IsRequiredParticipant m (snd (GetOrCreateParticipantStatus n t)) = IsRequiredParticipant m t"
  by (simp_all add: IsRequiredParticipant_def frame_simps)

lemma GetParticipantStatus_Set [simp]:
  "GetParticipantStatus m (SetParticipantStatus n st t) =
     (if m = n then Some st else GetParticipantStatus m t)"
  by (simp add: GetParticipantStatus_def SetParticipantStatus_def)

lemma GetParticipantStatus_Create:
  "m \<noteq> n \<Longrightarrow>
    GetParticipantStatus m (snd (GetOrCreateParticipantStatus n t)) = GetParticipantStatus m t"
  by (simp add: GetParticipantStatus_def GetOrCreateParticipantStatus_def Let_def split: option.split)

lemma fst_GetOrCreate:
  "fst (GetOrCreateParticipantStatus n t) =
     (case GetParticipantStatus n t of None \<Rightarrow> default_status n | Some st \<Rightarrow> st)"
  by (simp add: GetOrCreateParticipantStatus_def GetParticipantStatus_def Let_def split: option.split)

lemma IsEmpty_Set [simp]: "\<not> IsEmpty (SetParticipantStatus n st t)"
  by (simp add: IsEmpty_def SetParticipantStatus_def)

lemma GetParticipantStatus_systemState [simp]:
  "GetParticipantStatus n (t\<lparr>systemState := s\<rparr>) = GetParticipantStatus n t"
  by (simp add: GetParticipantStatus_def)

lemma tracker_inv_systemState [simp]: "tracker_inv (t\<lparr>systemState := s\<rparr>) = tracker_inv t"
  by (simp add: tracker_inv_def)

lemma tracker_inv_GetOrCreate:
  "tracker_inv t \<Longrightarrow> tracker_inv (snd (GetOrCreateParticipantStatus n t))"
  by (auto simp: tracker_inv_def GetOrCreateParticipantStatus_def Let_def in_set_update_iff
      split: option.split)

lemma tracker_inv_Set:
  "tracker_inv t \<Longrightarrow> participantName st = n \<Longrightarrow> tracker_inv (SetParticipantStatus n st t)"
  by (auto simp: tracker_inv_def SetParticipantStatus_def in_set_update_iff)

lemma UpdateParticipantStatus_cases:
  obtains
    (invalid) "status_state st = PS_Invalid"
      "UpdateParticipantStatus st t =
         (Inl AssertionError, snd (GetOrCreateParticipantStatus (participantName st) t))"
  | (shutdown) "status_state st \<noteq> PS_Invalid"
      "status_state (fst (GetOrCreateParticipantStatus (participantName st) t)) = PS_Shutdown"
      "UpdateParticipantStatus st t =
         (Inr \<lparr>participantStateChanged = False, systemStateChanged = False\<rparr>,
          snd (GetOrCreateParticipantStatus (participantName st) t))"
  | (stored) u where "status_state st \<noteq> PS_Invalid"
      "status_state (fst (GetOrCreateParticipantStatus (participantName st) t)) \<noteq> PS_Shutdown"
      "u = SetParticipantStatus (participantName st) st
             (snd (GetOrCreateParticipantStatus (participantName st) t))"
      "UpdateParticipantStatus st t =
         (let changed = status_state (fst (GetOrCreateParticipantStatus (participantName st) t))
                          \<noteq> status_state st;
              new = (if changed \<and> IsRequiredParticipant (participantName st) t
                     then ComputeSystemState (status_state st) u else systemState t)
          in (Inr \<lparr>participantStateChanged = changed, systemStateChanged = systemState t \<noteq> new\<rparr>,
              u\<lparr>systemState := new\<rparr>))"
proof (cases "status_state st = PS_Invalid")
  case True
  then show ?thesis
    by (intro invalid) (simp_all add: UpdateParticipantStatus_def Let_def split_beta)
next
  case False
  obtain ok where ok: "ValidateParticipantStateUpdate
      (status_state (fst (GetOrCreateParticipantStatus (participantName st) t))) (status_state st)
      = Inr ok"
    using False by (cases "status_state st") auto
  show ?thesis
  proof (cases "status_state (fst (GetOrCreateParticipantStatus (participantName st) t)) = PS_Shutdown")
    case True
    with False ok show ?thesis
      by (intro shutdown) (simp_all add: UpdateParticipantStatus_def Let_def split_beta)
  next
    case nsd: False
    have rec_upd: "x\<lparr>systemState := s\<rparr> = x" if "systemState x = s" for x :: tracker and s
      using that by (cases x) simp
    show ?thesis
      by (rule stored [OF False nsd refl])
        (use ok nsd in \<open>auto simp: UpdateParticipantStatus_def Let_def split_beta frame_simps rec_upd\<close>)
  qed
qed

lemma tracker_inv_UpdateParticipantStatus:
  assumes "tracker_inv t"
  shows "tracker_inv (snd (UpdateParticipantStatus st t))"
  using UpdateParticipantStatus_cases [of st t]
  by cases (use assms in \<open>simp_all add: tracker_inv_GetOrCreate tracker_inv_Set Let_def\<close>)

lemma tracker_inv_RemoveParticipant:
  "tracker_inv t \<Longrightarrow> tracker_inv (snd (RemoveParticipant n t))"
  by (auto simp: RemoveParticipant_def tracker_inv_def Let_def in_set_delete_iff split: option.split)

lemma tracker_inv_UpdateRequired:
  assumes "tracker_inv t" "distinct (order (remdups names))"
  shows "tracker_inv (snd (UpdateRequiredParticipants order names t))"
  using assms by (simp add: UpdateRequiredParticipants_def tracker_inv_def Let_def)


section \<open>Inputs of the tracker and its reachable states\<close>

text \<open>
  The tracker is driven by three kinds of calls. The required participants are inserted
  into the \<open>unordered_set\<close> in whatever order the container iterates.
\<close>

inductive tracker_reachable :: "tracker \<Rightarrow> bool" where
  initial: "tracker_reachable init_tracker"
| required: "tracker_reachable t \<Longrightarrow> distinct (order (remdups names)) \<Longrightarrow>
    tracker_reachable (snd (UpdateRequiredParticipants order names t))"
| status: "tracker_reachable t \<Longrightarrow> tracker_reachable (snd (UpdateParticipantStatus st t))"
| remove: "tracker_reachable t \<Longrightarrow> tracker_reachable (snd (RemoveParticipant name t))"

lemma reachable_tracker_inv: "tracker_reachable t \<Longrightarrow> tracker_inv t"
proof (induction rule: tracker_reachable.induct)
  case initial
  show ?case by (simp add: tracker_inv_def init_tracker_def)
qed (simp_all add: tracker_inv_UpdateRequired tracker_inv_UpdateParticipantStatus
      tracker_inv_RemoveParticipant)

section \<open>Which system states an update may enter\<close>

lemma AllRequiredIn_iff:
  "AllRequiredIn t ps \<longleftrightarrow>
     (\<forall>n\<in>set (requiredParticipants t).
        \<exists>st. GetParticipantStatus n t = Some st \<and> status_state st \<in> set ps)"
  by (auto simp: AllRequiredIn_def list_all_iff list_ex_iff split: option.splits)

lemma AllRequiredIn_systemState [simp]:
  "AllRequiredIn (t\<lparr>systemState := s\<rparr>) ps = AllRequiredIn t ps"
  by (simp add: AllRequiredIn_iff)

lemma ChangeToFirst_cases:
  "ChangeToFirst t new entries = new \<or>
     (\<exists>ps. (ChangeToFirst t new entries, ps) \<in> set entries \<and> AllRequiredIn t ps)"
  by (induction t new entries rule: ChangeToFirst.induct) auto

lemma ChangeToFirst_enters:
  assumes "ChangeToFirst t new entries \<noteq> new"
  obtains ps where "(ChangeToFirst t new entries, ps) \<in> set entries" "AllRequiredIn t ps"
  using assms ChangeToFirst_cases [of t new entries] by blast

text \<open>
  The declarative reading of the code's table: the participant states that every required
  participant may be in when the system enters a state.
\<close>

definition may_enter :: "system_state \<Rightarrow> participant_state \<Rightarrow> tracker \<Rightarrow> bool" where
  "may_enter ss reported t \<longleftrightarrow>
     (case reported of
        PS_Aborting \<Rightarrow> ss = SS_Aborting
      | PS_Error \<Rightarrow> ss = SS_Error
      | _ \<Rightarrow> \<exists>ps. (ss, ps) \<in> set (change_table reported) \<and> AllRequiredIn t ps)"

lemma ComputeSystemState_enters:
  assumes "\<not> IsEmpty t" "ComputeSystemState ps t \<noteq> systemState t"
  shows "may_enter (ComputeSystemState ps t) ps t"
proof -
  have *: "\<exists>qs. (ChangeToFirst t (systemState t) e, qs) \<in> set e \<and> AllRequiredIn t qs"
    if "ChangeToFirst t (systemState t) e \<noteq> systemState t" for e
    using that by (blast elim: ChangeToFirst_enters)
  show ?thesis
    using assms * by (cases ps) (simp_all add: may_enter_def ComputeSystemState_def Let_def del: change_table.simps)
qed

lemma may_enter_systemState [simp]: "may_enter ss p (t\<lparr>systemState := s\<rparr>) = may_enter ss p t"
  by (simp add: may_enter_def split: participant_state.split)

lemma UpdateParticipantStatus_enters:
  assumes upd: "UpdateParticipantStatus st t = (Inr r, t')"
    and ch: "systemState t' \<noteq> systemState t"
  shows "IsRequiredParticipant (participantName st) t'
    \<and> GetParticipantStatus (participantName st) t' = Some st
    \<and> may_enter (systemState t') (status_state st) t'"
  using UpdateParticipantStatus_cases [of st t]
proof cases
  case (stored u)
  then have t': "t' = u\<lparr>systemState := systemState t'\<rparr>"
    and ss: "systemState t' = ComputeSystemState (status_state st) u"
    and req: "IsRequiredParticipant (participantName st) t"
    using upd ch by (auto simp: Let_def split: if_splits)
  have u: "\<not> IsEmpty u" "systemState u = systemState t"
    "GetParticipantStatus (participantName st) u = Some st"
    "IsRequiredParticipant (participantName st) u"
    using stored(3) req by (simp_all add: frame_simps)
  have "may_enter (systemState t') (status_state st) u"
    using ComputeSystemState_enters [of u] u ch ss by simp
  moreover have "IsRequiredParticipant (participantName st) t' = IsRequiredParticipant (participantName st) u"
    by (subst t') (simp add: IsRequiredParticipant_def)
  ultimately show ?thesis
    using u t' by (metis GetParticipantStatus_systemState may_enter_systemState)
qed (use upd ch in \<open>auto simp: frame_simps\<close>)

text \<open>Ranks of the states a participant passes while the simulation starts.\<close>

fun startup_rank :: "participant_state \<Rightarrow> nat" where
  "startup_rank PS_ServicesCreated = 1"
| "startup_rank PS_CommunicationInitializing = 2"
| "startup_rank PS_CommunicationInitialized = 3"
| "startup_rank PS_ReadyToRun = 4"
| "startup_rank PS_Running = 5"
| "startup_rank _ = 0"

fun system_startup_rank :: "system_state \<Rightarrow> nat" where
  "system_startup_rank SS_ServicesCreated = 1"
| "system_startup_rank SS_CommunicationInitializing = 2"
| "system_startup_rank SS_CommunicationInitialized = 3"
| "system_startup_rank SS_ReadyToRun = 4"
| "system_startup_rank SS_Running = 5"
| "system_startup_rank _ = 0"

lemma change_table_startup:
  "(ss, ps) \<in> set (change_table p) \<Longrightarrow> 0 < system_startup_rank ss \<Longrightarrow> q \<in> set ps \<Longrightarrow>
    system_startup_rank ss \<le> startup_rank q"
  by (cases p) auto

lemma may_enter_startup:
  assumes "may_enter ss p t" "0 < system_startup_rank ss" "IsRequiredParticipant n t"
  shows "\<exists>st. GetParticipantStatus n t = Some st
    \<and> system_startup_rank ss \<le> startup_rank (status_state st)"
proof -
  obtain ps where ps: "(ss, ps) \<in> set (change_table p)" "AllRequiredIn t ps"
    using assms(1,2) by (cases p) (auto simp: may_enter_def simp del: change_table.simps)
  with assms(3) obtain st where "GetParticipantStatus n t = Some st" "status_state st \<in> set ps"
    by (auto simp: AllRequiredIn_iff IsRequiredParticipant_def)
  with ps(1) assms(2) show ?thesis by (auto intro: change_table_startup)
qed

text \<open>
  The state that a simulation is in when all its required participants report one and
  the same state.
\<close>

fun system_state_of :: "participant_state \<Rightarrow> system_state" where
  "system_state_of PS_Invalid = SS_Invalid"
| "system_state_of PS_ServicesCreated = SS_ServicesCreated"
| "system_state_of PS_CommunicationInitializing = SS_CommunicationInitializing"
| "system_state_of PS_CommunicationInitialized = SS_CommunicationInitialized"
| "system_state_of PS_ReadyToRun = SS_ReadyToRun"
| "system_state_of PS_Running = SS_Running"
| "system_state_of PS_Paused = SS_Paused"
| "system_state_of PS_Stopping = SS_Stopping"
| "system_state_of PS_Stopped = SS_Stopped"
| "system_state_of PS_Error = SS_Error"
| "system_state_of PS_ShuttingDown = SS_ShuttingDown"
| "system_state_of PS_Shutdown = SS_Shutdown"
| "system_state_of PS_Aborting = SS_Aborting"

lemma ComputeSystemState_unanimous:
  assumes "AllRequiredIn t [p]" "p \<noteq> PS_Invalid"
  shows "ComputeSystemState p t = system_state_of p"
proof -
  have mono: "AllRequiredIn t ps" if "p \<in> set ps" for ps
    using assms(1) that by (auto simp: AllRequiredIn_iff)
  then show ?thesis
    using assms by (cases p) (auto simp: ComputeSystemState_def Let_def)
qed


section \<open>Properties\<close>

text \<open>Claim C8. Start barrier: when a status update moves the system state into one of the
  start-up states (services created up to running), every required participant is known
  and has itself reached at least that state. No required participant is left behind.\<close>

theorem tracker_startup_barrier:
  assumes "UpdateParticipantStatus st t = (Inr r, t')"
    and "systemState t' \<noteq> systemState t"
    and "0 < system_startup_rank (systemState t')"
    and "IsRequiredParticipant n t'"
  shows "\<exists>s. GetParticipantStatus n t' = Some s
    \<and> system_startup_rank (systemState t') \<le> startup_rank (status_state s)"
  using may_enter_startup UpdateParticipantStatus_enters [OF assms(1,2)] assms(3,4) by blast

definition demo_status :: "string \<Rightarrow> participant_state \<Rightarrow> participant_status" where
  "demo_status n p = \<lparr>participantName = n, status_state = p, enterReason = [],
     enterTime = 0, refreshTime = 0\<rparr>"

definition demo_tracker :: "participant_state \<Rightarrow> participant_state \<Rightarrow> tracker" where
  "demo_tracker p q =
     \<lparr>requiredParticipants = [''A'', ''B''], systemState = SS_ServicesCreated,
      participantStatusCache = [(''A'', demo_status ''A'' p), (''B'', demo_status ''B'' q)]\<rparr>"

lemmas demo_tracker_defs = demo_tracker_def demo_status_def UpdateParticipantStatus_def
  GetOrCreateParticipantStatus_def SetParticipantStatus_def IsRequiredParticipant_def
  ComputeSystemState_def IsEmpty_def AllRequiredIn_def GetParticipantStatus_def
  GetAnyRequiredParticipantState_def RemoveParticipant_def Let_def

theorem tracker_startup_barrier_witness:
  "let (r, t') = UpdateParticipantStatus (demo_status ''B'' PS_CommunicationInitializing)
                   (demo_tracker PS_CommunicationInitializing PS_ServicesCreated)
   in systemState t' = SS_CommunicationInitializing \<and>
      (\<exists>s. GetParticipantStatus ''A'' t' = Some s \<and> 2 \<le> startup_rank (status_state s))"
proof -
  obtain r t' where u: "UpdateParticipantStatus (demo_status ''B'' PS_CommunicationInitializing)
      (demo_tracker PS_CommunicationInitializing PS_ServicesCreated) = (Inr r, t')"
    and ss: "systemState t' = SS_CommunicationInitializing"
    and req: "IsRequiredParticipant ''A'' t'"
    by (simp add: demo_tracker_defs)
  have "systemState t' \<noteq> systemState (demo_tracker PS_CommunicationInitializing PS_ServicesCreated)"
    by (simp add: ss demo_tracker_def)
  from tracker_startup_barrier [OF u this _ req] show ?thesis
    by (simp add: u ss)
qed

text \<open>Lockstep: when a required participant reports a new state and with it all
  required participants are in that state, the system state becomes the corresponding
  one, whatever it was before and in whatever order the participants reported.\<close>

theorem tracker_unanimous_report:
  assumes "UpdateParticipantStatus st t = (Inr r, t')"
    and "participantStateChanged r"
    and "IsRequiredParticipant (participantName st) t"
    and "\<forall>n\<in>set (requiredParticipants t').
           \<exists>s. GetParticipantStatus n t' = Some s \<and> status_state s = status_state st"
  shows "systemState t' = system_state_of (status_state st)"
  using UpdateParticipantStatus_cases [of st t]
proof cases
  case (stored u)
  then have t': "t' = u\<lparr>systemState := ComputeSystemState (status_state st) u\<rparr>"
    using assms(1-3) by (auto simp: Let_def)
  have "AllRequiredIn u [status_state st]"
    using assms(4) by (auto simp: AllRequiredIn_iff t')
  then show ?thesis
    using stored(1) by (simp add: t' ComputeSystemState_unanimous)
qed (use assms in auto)

theorem tracker_unanimous_report_witness:
  "systemState (snd (UpdateParticipantStatus (demo_status ''B'' PS_Running)
     (demo_tracker PS_Running PS_ReadyToRun))) = SS_Running"
proof -
  obtain r t' where u: "UpdateParticipantStatus (demo_status ''B'' PS_Running)
      (demo_tracker PS_Running PS_ReadyToRun) = (Inr r, t')"
    and r: "participantStateChanged r"
    and t': "requiredParticipants t' = [''A'', ''B'']"
      "GetParticipantStatus ''A'' t' = Some (demo_status ''A'' PS_Running)"
      "GetParticipantStatus ''B'' t' = Some (demo_status ''B'' PS_Running)"
    by (simp add: demo_tracker_defs)
  have "systemState t' = system_state_of (status_state (demo_status ''B'' PS_Running))"
    by (rule tracker_unanimous_report [OF u r])
      (simp_all add: t' demo_status_def demo_tracker_def IsRequiredParticipant_def)
  then show ?thesis using u by (simp add: demo_status_def)
qed

text \<open>Shutdown is final: a report from a participant whose last known state is
  \<open>Shutdown\<close> changes neither the cache nor the system state and is not announced to the
  handlers. A report of \<open>Invalid\<close> is the only one that throws.\<close>

theorem tracker_shutdown_is_final:
  assumes "GetParticipantStatus (participantName st) t = Some s"
    and "status_state s = PS_Shutdown"
  shows "UpdateParticipantStatus st t =
    (if status_state st = PS_Invalid then (Inl AssertionError, t)
     else (Inr \<lparr>participantStateChanged = False, systemStateChanged = False\<rparr>, t))"
proof -
  have known: "GetOrCreateParticipantStatus (participantName st) t = (s, t)"
    using assms(1) by (simp add: GetOrCreateParticipantStatus_def GetParticipantStatus_def)
  show ?thesis
    using UpdateParticipantStatus_cases [of st t] by cases (simp_all add: known assms(2))
qed

theorem tracker_shutdown_is_final_witness:
  "UpdateParticipantStatus (demo_status ''A'' PS_Running) (demo_tracker PS_Shutdown PS_Running)
     = (Inr \<lparr>participantStateChanged = False, systemStateChanged = False\<rparr>,
        demo_tracker PS_Shutdown PS_Running)"
  by (subst tracker_shutdown_is_final [of _ _ "demo_status ''A'' PS_Shutdown"])
    (simp_all add: demo_status_def demo_tracker_def GetParticipantStatus_def)

text \<open>The system state recomputed after a participant has left depends on the
  iteration order of the \<open>unordered_set\<close> of required participants: with A running, B
  paused and C gone, the simulation stays running if A is visited first and becomes
  paused if B is visited first.\<close>

theorem tracker_removal_order_dependent:
  "let t = (\<lambda>req. \<lparr>requiredParticipants = req, systemState = SS_Running,
              participantStatusCache = [(''A'', demo_status ''A'' PS_Running),
                (''B'', demo_status ''B'' PS_Paused), (''C'', demo_status ''C'' PS_Running)]\<rparr>)
   in systemState (snd (RemoveParticipant ''C'' (t [''A'', ''B'']))) = SS_Running \<and>
      systemState (snd (RemoveParticipant ''C'' (t [''B'', ''A'']))) = SS_Paused"
  by (simp add: demo_tracker_defs)

end
