(* ===== verification/Handlers.thy ===== *)
theory Handlers
  imports Prelude
begin

text \<open>
  Handler registries (\<open>util/SynchronizedHandlers.hpp\<close>): a map from handler identifiers to
  callables, filled with identifiers that only grow. A callable is a value of the type
  parameter; invoking all of them yields the calls in the order of the map's keys. The
  recursive mutex is not modelled.
\<close>

section \<open>State and operations\<close>

record 'c handlers =
  handler_entries :: "(nat \<times> 'c) list"
  nextHandlerId :: nat

definition no_handlers :: "'c handlers" where
  "no_handlers = \<lparr>handler_entries = [], nextHandlerId = 0\<rparr>"

definition AddHandler :: "'c \<Rightarrow> 'c handlers \<Rightarrow> nat \<times> 'c handlers" where
  "AddHandler c h =
     (let handlerId = nextHandlerId h
      in (handlerId, h\<lparr>handler_entries := handler_entries h @ [(handlerId, c)], nextHandlerId := Suc handlerId\<rparr>))"

definition RemoveHandler :: "nat \<Rightarrow> 'c handlers \<Rightarrow> bool \<times> 'c handlers" where
  "RemoveHandler handlerId h =
     (list_ex (\<lambda>e. fst e = handlerId) (handler_entries h),
      h\<lparr>handler_entries := filter (\<lambda>e. fst e \<noteq> handlerId) (handler_entries h)\<rparr>)"

definition InvokeAll :: "'c handlers \<Rightarrow> 'c list" where
  "InvokeAll h = map snd (handler_entries h)"

definition ClearHandlers :: "'c handlers \<Rightarrow> 'c handlers" where
  "ClearHandlers h = h\<lparr>handler_entries := []\<rparr>"

section \<open>The invariant: keys ascend and lie below the next identifier\<close>

definition handlers_inv :: "'c handlers \<Rightarrow> bool" where
  "handlers_inv h \<longleftrightarrow>
     sorted_wrt (<) (map fst (handler_entries h)) \<and> (\<forall>e\<in>set (handler_entries h). fst e < nextHandlerId h)"

lemma handlers_inv_empty [simp]: "handlers_inv no_handlers"
  by (simp add: handlers_inv_def no_handlers_def)

lemma handlers_inv_Add: "handlers_inv h \<Longrightarrow> handlers_inv (snd (AddHandler c h))"
  by (auto simp: handlers_inv_def AddHandler_def Let_def sorted_wrt_append)

lemma sorted_wrt_map_filter: "sorted_wrt R (map f xs) \<Longrightarrow> sorted_wrt R (map f (filter P xs))"
  by (induction xs) auto

lemma handlers_inv_Remove: "handlers_inv h \<Longrightarrow> handlers_inv (snd (RemoveHandler i h))"
  by (auto simp: handlers_inv_def RemoveHandler_def sorted_wrt_map_filter)

lemma handlers_inv_Clear: "handlers_inv h \<Longrightarrow> handlers_inv (ClearHandlers h)"
  by (simp add: handlers_inv_def ClearHandlers_def)

lemma InvokeAll_Add [simp]: "InvokeAll (snd (AddHandler c h)) = InvokeAll h @ [c]"
  by (simp add: InvokeAll_def AddHandler_def Let_def)

lemma InvokeAll_Clear [simp]: "InvokeAll (ClearHandlers h) = []"
  by (simp add: InvokeAll_def ClearHandlers_def)

lemma filter_fresh_id:
  "handlers_inv h \<Longrightarrow> filter (\<lambda>e. fst e \<noteq> nextHandlerId h) (handler_entries h) = handler_entries h"
  by (auto simp: handlers_inv_def intro!: filter_True)

lemma Remove_Add_inverse:
  "handlers_inv h \<Longrightarrow>
    InvokeAll (snd (RemoveHandler (fst (AddHandler c h)) (snd (AddHandler c h)))) = InvokeAll h
    \<and> fst (RemoveHandler (fst (AddHandler c h)) (snd (AddHandler c h)))"
  by (simp add: InvokeAll_def RemoveHandler_def AddHandler_def Let_def filter_fresh_id)

section \<open>The interface its clients rely on\<close>

text \<open>
  What the system monitor and the connection use of a handler registry: registering a
  handler appends it to the calls, and unregistering it with the identifier returned by
  the registration takes exactly it away again.
\<close>

locale handler_registry =
  fixes add :: "'c \<Rightarrow> 'h \<Rightarrow> nat \<times> 'h"
    and remove :: "nat \<Rightarrow> 'h \<Rightarrow> bool \<times> 'h"
    and invoke :: "'h \<Rightarrow> 'c list"
    and clear :: "'h \<Rightarrow> 'h"
    and inv :: "'h \<Rightarrow> bool"
  assumes invoke_add: "invoke (snd (add c h)) = invoke h @ [c]"
    and invoke_clear: "invoke (clear h) = []"
    and remove_added:
      "inv h \<Longrightarrow> invoke (snd (remove (fst (add c h)) (snd (add c h)))) = invoke h
        \<and> fst (remove (fst (add c h)) (snd (add c h)))"
    and inv_add: "inv h \<Longrightarrow> inv (snd (add c h))"
    and inv_remove: "inv h \<Longrightarrow> inv (snd (remove i h))"
begin

lemma add_all: "invoke (fold (\<lambda>c h. snd (add c h)) cs h) = invoke h @ cs"
  by (induction cs arbitrary: h) (simp_all add: invoke_add)

end

interpretation registry: handler_registry AddHandler RemoveHandler InvokeAll ClearHandlers handlers_inv
proof unfold_locales
qed (auto simp: Remove_Add_inverse handlers_inv_Add handlers_inv_Remove)

end
