(* ===== verification/SystemMonitor.thy ===== *)
theory SystemMonitor
  imports SystemStateTracker Handlers
begin

text \<open>
  The system monitor (\<open>services/orchestration/SystemMonitor.cpp\<close>): it feeds received
  participant statuses and workflow configurations to the tracker and calls the handlers
  registered by the user and by the lifecycle service. The calls are returned as a list
  of effects in the order in which they are made. Log output is not modelled; the wall
  clock is an argument.
\<close>

section \<open>State, effects and operations\<close>

datatype 'c monitor_call =
    CallSystemStateHandler 'c system_state
  | CallParticipantStatusHandler 'c participant_status
  | CallParticipantConnected 'c string
  | CallParticipantDisconnected 'c string
  | CallSetWorkflowConfiguration workflow_configuration

record 'c system_monitor =
  systemStateTracker :: tracker
  systemStateHandlers :: "'c handlers"
  participantStatusHandlers :: "'c handlers"
  connectedParticipants :: "string list"
  participantConnectedHandler :: "'c option"
  participantDisconnectedHandler :: "'c option"

definition SystemState :: "'c system_monitor \<Rightarrow> system_state" where
  "SystemState m = systemState (systemStateTracker m)"

definition InvokeSystemStateHandlers :: "'c system_monitor \<Rightarrow> 'c monitor_call list" where
  "InvokeSystemStateHandlers m =
     map (\<lambda>c. CallSystemStateHandler c (SystemState m)) (InvokeAll (systemStateHandlers m))"

definition UpdateRequiredParticipantNames ::
    "(string list \<Rightarrow> string list) \<Rightarrow> string list \<Rightarrow> 'c system_monitor
      \<Rightarrow> 'c monitor_call list \<times> 'c system_monitor" where
  "UpdateRequiredParticipantNames order names m =
     (let (changed, t) = UpdateRequiredParticipants order names (systemStateTracker m);
          m1 = m\<lparr>systemStateTracker := t\<rparr>
      in (if changed then InvokeSystemStateHandlers m1 else [], m1))"

definition ReceiveWorkflowConfiguration ::
    "(string list \<Rightarrow> string list) \<Rightarrow> workflow_configuration \<Rightarrow> 'c system_monitor
      \<Rightarrow> 'c monitor_call list \<times> 'c system_monitor" where
  "ReceiveWorkflowConfiguration order cfg m =
     (let (calls, m1) = UpdateRequiredParticipantNames order (requiredParticipantNames cfg) m
      in (calls @ [CallSetWorkflowConfiguration cfg], m1))"

definition AddSystemStateHandler ::
    "'c \<Rightarrow> 'c system_monitor \<Rightarrow> nat \<times> 'c monitor_call list \<times> 'c system_monitor" where
  "AddSystemStateHandler c m =
     (let call = CallSystemStateHandler c (SystemState m);
          (i, hs) = AddHandler c (systemStateHandlers m)
      in (i, [call], m\<lparr>systemStateHandlers := hs\<rparr>))"

definition RemoveSystemStateHandler :: "nat \<Rightarrow> 'c system_monitor \<Rightarrow> 'c system_monitor" where
  "RemoveSystemStateHandler i m =
     m\<lparr>systemStateHandlers := snd (RemoveHandler i (systemStateHandlers m))\<rparr>"

definition AddParticipantStatusHandler ::
    "'c \<Rightarrow> 'c system_monitor \<Rightarrow> nat \<times> 'c monitor_call list \<times> 'c system_monitor" where
  "AddParticipantStatusHandler c m =
     (let replay = concat (map (\<lambda>name.
            case GetParticipantStatus name (systemStateTracker m) of
              None \<Rightarrow> []
            | Some st \<Rightarrow> if status_state st = PS_Invalid then []
                         else [CallParticipantStatusHandler c st]) (connectedParticipants m));
          (i, hs) = AddHandler c (participantStatusHandlers m)
      in (i, replay, m\<lparr>participantStatusHandlers := hs\<rparr>))"

definition RemoveParticipantStatusHandler :: "nat \<Rightarrow> 'c system_monitor \<Rightarrow> 'c system_monitor" where
  "RemoveParticipantStatusHandler i m =
     m\<lparr>participantStatusHandlers := snd (RemoveHandler i (participantStatusHandlers m))\<rparr>"

definition ParticipantStatus :: "string \<Rightarrow> 'c system_monitor \<Rightarrow> participant_status result" where
  "ParticipantStatus name m =
     (case GetParticipantStatus name (systemStateTracker m) of
        None \<Rightarrow> Inl SilKitError
      | Some st \<Rightarrow> Inr st)"

definition ReceiveParticipantStatus ::
    "participant_status \<Rightarrow> 'c system_monitor
      \<Rightarrow> 'c monitor_call list result \<times> 'c system_monitor" where
  "ReceiveParticipantStatus st m =
     (case UpdateParticipantStatus st (systemStateTracker m) of
        (Inl e, t) \<Rightarrow> (Inl e, m\<lparr>systemStateTracker := t\<rparr>)
      | (Inr r, t) \<Rightarrow>
          let m1 = m\<lparr>systemStateTracker := t\<rparr>;
              statusCalls = (if participantStateChanged r
                then map (\<lambda>c. CallParticipantStatusHandler c st)
                       (InvokeAll (participantStatusHandlers m1))
                else []);
              systemCalls = (if systemStateChanged r then InvokeSystemStateHandlers m1 else [])
          in (Inr (statusCalls @ systemCalls), m1))"

definition SetParticipantConnectedHandler ::
    "'c \<Rightarrow> 'c system_monitor \<Rightarrow> 'c monitor_call list \<times> 'c system_monitor" where
  "SetParticipantConnectedHandler c m =
     (map (CallParticipantConnected c) (connectedParticipants m),
      m\<lparr>participantConnectedHandler := Some c\<rparr>)"

definition SetParticipantDisconnectedHandler :: "'c \<Rightarrow> 'c system_monitor \<Rightarrow> 'c system_monitor" where
  "SetParticipantDisconnectedHandler c m = m\<lparr>participantDisconnectedHandler := Some c\<rparr>"

definition IsParticipantConnected :: "string \<Rightarrow> 'c system_monitor \<Rightarrow> bool" where
  "IsParticipantConnected name m \<longleftrightarrow> name \<in> set (connectedParticipants m)"

definition OnParticipantConnected ::
    "string \<Rightarrow> 'c system_monitor \<Rightarrow> 'c monitor_call list \<times> 'c system_monitor" where
  "OnParticipantConnected name m =
     (let hasInserted = (name \<notin> set (connectedParticipants m));
          m1 = (if hasInserted
                then m\<lparr>connectedParticipants := connectedParticipants m @ [name]\<rparr> else m)
      in (case participantConnectedHandler m1 of
            Some c \<Rightarrow> if hasInserted then [CallParticipantConnected c name] else []
          | None \<Rightarrow> [], m1))"

definition connection_lost :: "int \<Rightarrow> string \<Rightarrow> participant_status" where
  "connection_lost now name =
     \<lparr>participantName = name, status_state = PS_Error, enterReason = ''Connection Lost'',
      enterTime = now, refreshTime = now\<rparr>"

text \<open>
  The \<open>Error\<close> status that the code makes up for a participant that vanished goes through
  the same \<open>ReceiveMsg\<close> as a received one; an exception there would skip the rest.
\<close>

definition OnParticipantDisconnected ::
    "int \<Rightarrow> string \<Rightarrow> 'c system_monitor \<Rightarrow> 'c monitor_call list result \<times> 'c system_monitor" where
  "OnParticipantDisconnected now name m =
     (let (lost, m1) =
        (case GetParticipantStatus name (systemStateTracker m) of
           None \<Rightarrow> (Inr [], m)
         | Some st \<Rightarrow>
             if status_state st = PS_Shutdown then (Inr [], m)
             else if status_state st \<noteq> PS_Invalid
             then ReceiveParticipantStatus (connection_lost now name) m
             else (Inr [], m))
      in case lost of
           Inl e \<Rightarrow> (Inl e, m1)
         | Inr calls \<Rightarrow>
             let m2 = m1\<lparr>connectedParticipants := removeAll name (connectedParticipants m1)\<rparr>;
                 (changed, t) = RemoveParticipant name (systemStateTracker m2);
                 m3 = m2\<lparr>systemStateTracker := t\<rparr>;
                 systemCalls = (if changed then InvokeSystemStateHandlers m3 else []);
                 last = (case participantDisconnectedHandler m3 of
                           None \<Rightarrow> [] | Some c \<Rightarrow> [CallParticipantDisconnected c name])
             in (Inr (calls @ systemCalls @ last), m3))"


section \<open>Runs of the monitor\<close>

text \<open>
  A run collects the handler calls of every operation, in order. Handlers may be added
  and removed, participants may connect, report and disconnect at any time.
\<close>

definition init_monitor :: "'c system_monitor" where
  "init_monitor = \<lparr>systemStateTracker = init_tracker, systemStateHandlers = no_handlers,
     participantStatusHandlers = no_handlers, connectedParticipants = [],
     participantConnectedHandler = None, participantDisconnectedHandler = None\<rparr>"

inductive monitor_run :: "'c monitor_call list \<Rightarrow> 'c system_monitor \<Rightarrow> bool" where
  start: "monitor_run [] init_monitor"
| workflow: "monitor_run tr m \<Longrightarrow> ReceiveWorkflowConfiguration order cfg m = (calls, m') \<Longrightarrow>
    monitor_run (tr @ calls) m'"
| addState: "monitor_run tr m \<Longrightarrow> AddSystemStateHandler c m = (i, calls, m') \<Longrightarrow>
    monitor_run (tr @ calls) m'"
| removeState: "monitor_run tr m \<Longrightarrow> monitor_run tr (RemoveSystemStateHandler i m)"
| addStatus: "monitor_run tr m \<Longrightarrow> AddParticipantStatusHandler c m = (i, calls, m') \<Longrightarrow>
    monitor_run (tr @ calls) m'"
| removeStatus: "monitor_run tr m \<Longrightarrow> monitor_run tr (RemoveParticipantStatusHandler i m)"
| status: "monitor_run tr m \<Longrightarrow> ReceiveParticipantStatus st m = (Inr calls, m') \<Longrightarrow>
    monitor_run (tr @ calls) m'"
| status_thrown: "monitor_run tr m \<Longrightarrow> ReceiveParticipantStatus st m = (Inl e, m') \<Longrightarrow>
    monitor_run tr m'"
| connected: "monitor_run tr m \<Longrightarrow> OnParticipantConnected name m = (calls, m') \<Longrightarrow>
    monitor_run (tr @ calls) m'"
| disconnected: "monitor_run tr m \<Longrightarrow> OnParticipantDisconnected now name m = (Inr calls, m') \<Longrightarrow>
    monitor_run (tr @ calls) m'"
| setConnected: "monitor_run tr m \<Longrightarrow> SetParticipantConnectedHandler c m = (calls, m') \<Longrightarrow>
    monitor_run (tr @ calls) m'"
| setDisconnected: "monitor_run tr m \<Longrightarrow> monitor_run tr (SetParticipantDisconnectedHandler c m)"

text \<open>The system state a handler has seen last, \<open>old\<close> before the calls.\<close>

fun last_seen :: "'c \<Rightarrow> system_state option \<Rightarrow> 'c monitor_call list \<Rightarrow> system_state option" where
  "last_seen c old [] = old"
| "last_seen c old (CallSystemStateHandler d s # calls) =
     last_seen c (if d = c then Some s else old) calls"
| "last_seen c old (_ # calls) = last_seen c old calls"

lemma last_seen_append [simp]:
  "last_seen c old (xs @ ys) = last_seen c (last_seen c old xs) ys"
  by (induction c old xs rule: last_seen.induct) auto

lemma last_seen_other:
  "(\<And>d s. CallSystemStateHandler d s \<notin> set calls) \<Longrightarrow> last_seen c old calls = old"
  by (induction c old calls rule: last_seen.induct) auto

lemma last_seen_system_calls:
  "last_seen c old (map (\<lambda>c. CallSystemStateHandler c s) cs) =
     (if c \<in> set cs then Some s else old)"
  by (induction cs arbitrary: old) auto

lemma last_seen_invoke:
  "last_seen c old (InvokeSystemStateHandlers m) =
     (if c \<in> set (InvokeAll (systemStateHandlers m)) then Some (SystemState m) else old)"
  by (simp add: InvokeSystemStateHandlers_def last_seen_system_calls)

lemma last_seen_status_calls [simp]:
  "last_seen c old (map (\<lambda>c. CallParticipantStatusHandler c st) cs) = old"
  by (rule last_seen_other) auto

lemma last_seen_connected_calls [simp]:
  "last_seen c old (map (CallParticipantConnected d) ns) = old"
  by (rule last_seen_other) auto

lemma set_InvokeAll_Remove:
  "set (InvokeAll (snd (RemoveHandler i h))) \<subseteq> set (InvokeAll h)"
  by (auto simp: InvokeAll_def RemoveHandler_def)

definition handlers_up_to_date :: "'c monitor_call list \<Rightarrow> 'c system_monitor \<Rightarrow> bool" where
  "handlers_up_to_date tr m \<longleftrightarrow>
     (\<forall>c\<in>set (InvokeAll (systemStateHandlers m)). last_seen c None tr = Some (SystemState m))"

text \<open>What the operations do to the system state and its handlers.\<close>

lemma UpdateRequired_unchanged:
  "UpdateRequiredParticipants order names t = (False, t') \<Longrightarrow> systemState t' = systemState t"
  by (auto simp: UpdateRequiredParticipants_def Let_def split: if_splits)

lemma RemoveParticipant_unchanged:
  "RemoveParticipant name t = (False, t') \<Longrightarrow> systemState t' = systemState t"
  by (auto simp: RemoveParticipant_def Let_def split: if_splits option.splits)

lemma UpdateParticipantStatus_unchanged:
  "UpdateParticipantStatus st t = (Inr r, t') \<Longrightarrow> \<not> systemStateChanged r \<Longrightarrow>
    systemState t' = systemState t"
  using UpdateParticipantStatus_cases [of st t]
  by cases (auto simp: frame_simps Let_def)

lemma UpdateParticipantStatus_thrown:
  "UpdateParticipantStatus st t = (Inl e, t') \<Longrightarrow> systemState t' = systemState t"
  using UpdateParticipantStatus_cases [of st t]
  by cases (auto simp: frame_simps Let_def)

lemma ReceiveParticipantStatus_handlers:
  "ReceiveParticipantStatus st m = (res, m') \<Longrightarrow> systemStateHandlers m' = systemStateHandlers m"
  by (auto simp: ReceiveParticipantStatus_def Let_def split: prod.splits sum.splits)

lemma up_to_date_status:
  assumes "ReceiveParticipantStatus st m = (Inr calls, m')" "handlers_up_to_date tr m"
  shows "handlers_up_to_date (tr @ calls) m'"
  using assms UpdateParticipantStatus_unchanged [of st "systemStateTracker m"]
  by (auto simp: ReceiveParticipantStatus_def handlers_up_to_date_def Let_def last_seen_invoke
      SystemState_def split: prod.splits sum.splits if_splits)

lemma up_to_date_thrown:
  assumes "ReceiveParticipantStatus st m = (Inl e, m')" "handlers_up_to_date tr m"
  shows "handlers_up_to_date tr m'"
  using assms UpdateParticipantStatus_thrown [of st "systemStateTracker m"]
  by (auto simp: ReceiveParticipantStatus_def handlers_up_to_date_def Let_def SystemState_def
      split: prod.splits sum.splits if_splits)

lemma up_to_date_remove:
  assumes "RemoveParticipant name (systemStateTracker m) = (changed, t)"
    and "handlers_up_to_date tr m"
    and "m' = m\<lparr>systemStateTracker := t\<rparr>"
  shows "handlers_up_to_date (tr @ (if changed then InvokeSystemStateHandlers m' else [])) m'"
  using assms RemoveParticipant_unchanged [of name "systemStateTracker m" t]
  by (auto simp: handlers_up_to_date_def last_seen_invoke SystemState_def)

lemma up_to_date_workflow:
  assumes "ReceiveWorkflowConfiguration order cfg m = (calls, m')" "handlers_up_to_date tr m"
  shows "handlers_up_to_date (tr @ calls) m'"
  using assms
  by (auto simp: ReceiveWorkflowConfiguration_def UpdateRequiredParticipantNames_def
      handlers_up_to_date_def last_seen_invoke SystemState_def Let_def
      split: prod.splits if_splits dest: UpdateRequired_unchanged)

lemma up_to_date_connected:
  "handlers_up_to_date tr (m\<lparr>connectedParticipants := ns\<rparr>) = handlers_up_to_date tr m"
  by (simp add: handlers_up_to_date_def SystemState_def)

lemma up_to_date_lost:
  assumes "(case GetParticipantStatus name (systemStateTracker m) of
           None \<Rightarrow> (Inr [], m)
         | Some st \<Rightarrow>
             if status_state st = PS_Shutdown then (Inr [], m)
             else if status_state st \<noteq> PS_Invalid
             then ReceiveParticipantStatus (connection_lost now name) m
             else (Inr [], m)) = (Inr calls, m1)"
    and "handlers_up_to_date tr m"
  shows "handlers_up_to_date (tr @ calls) m1"
  using assms up_to_date_status by (fastforce split: option.splits if_splits)

lemma up_to_date_disconnected:
  assumes "OnParticipantDisconnected now name m = (Inr calls, m')" "handlers_up_to_date tr m"
  shows "handlers_up_to_date (tr @ calls) m'"
proof -
  obtain lost m1 where first: "(case GetParticipantStatus name (systemStateTracker m) of
           None \<Rightarrow> (Inr [], m)
         | Some st \<Rightarrow>
             if status_state st = PS_Shutdown then (Inr [], m)
             else if status_state st \<noteq> PS_Invalid
             then ReceiveParticipantStatus (connection_lost now name) m
             else (Inr [], m)) = (Inr lost, m1)"
    using assms(1) by (auto simp: OnParticipantDisconnected_def split: prod.splits sum.splits)
  let ?m2 = "m1\<lparr>connectedParticipants := removeAll name (connectedParticipants m1)\<rparr>"
  obtain changed t where rem: "RemoveParticipant name (systemStateTracker ?m2) = (changed, t)"
    by fastforce
  let ?m3 = "?m2\<lparr>systemStateTracker := t\<rparr>"
  have "handlers_up_to_date (tr @ lost) ?m2"
    using up_to_date_lost [OF first assms(2)] by (simp only: up_to_date_connected)
  from up_to_date_remove [OF rem this refl]
  have "handlers_up_to_date (tr @ lost @ (if changed then InvokeSystemStateHandlers ?m3 else [])) ?m3"
    by simp
  moreover have "m' = ?m3" "calls = lost @ (if changed then InvokeSystemStateHandlers ?m3 else []) @
      (case participantDisconnectedHandler ?m3 of
                           None \<Rightarrow> [] | Some c \<Rightarrow> [CallParticipantDisconnected c name])"
    using assms(1) first rem by (auto simp: OnParticipantDisconnected_def Let_def)
  ultimately show ?thesis
    by (auto simp: handlers_up_to_date_def split: option.split)
qed

lemma up_to_date_addState:
  assumes "AddSystemStateHandler c m = (i, calls, m')" "handlers_up_to_date tr m"
  shows "handlers_up_to_date (tr @ calls) m'"
proof -
  have "calls = [CallSystemStateHandler c (SystemState m)]" "SystemState m' = SystemState m"
    "systemStateHandlers m' = snd (AddHandler c (systemStateHandlers m))"
    using assms(1) by (auto simp: AddSystemStateHandler_def SystemState_def Let_def split: prod.splits)
  with assms(2) show ?thesis
    by (auto simp: handlers_up_to_date_def)
qed

lemma up_to_date_addStatus:
  assumes "AddParticipantStatusHandler c m = (i, calls, m')" "handlers_up_to_date tr m"
  shows "handlers_up_to_date (tr @ calls) m'"
proof -
  have "last_seen d old calls = old" for d old
    by (rule last_seen_other)
      (use assms(1) in \<open>auto simp: AddParticipantStatusHandler_def Let_def
          split: prod.splits option.splits if_splits\<close>)
  with assms show ?thesis
    by (auto simp: handlers_up_to_date_def AddParticipantStatusHandler_def SystemState_def Let_def
        split: prod.splits)
qed

lemma up_to_date_onConnected:
  assumes "OnParticipantConnected name m = (calls, m')" "handlers_up_to_date tr m"
  shows "handlers_up_to_date (tr @ calls) m'"
proof -
  have "last_seen d old calls = old" for d old
    by (rule last_seen_other)
      (use assms(1) in \<open>auto simp: OnParticipantConnected_def Let_def split: option.splits if_splits\<close>)
  with assms show ?thesis
    by (auto simp: handlers_up_to_date_def OnParticipantConnected_def SystemState_def Let_def)
qed

lemma up_to_date_removed:
  "handlers_up_to_date tr m \<Longrightarrow> handlers_up_to_date tr (RemoveSystemStateHandler i m)"
  using set_InvokeAll_Remove [of i "systemStateHandlers m"]
  by (auto simp: handlers_up_to_date_def RemoveSystemStateHandler_def SystemState_def)

lemma up_to_date_setConnected:
  "SetParticipantConnectedHandler c m = (calls, m') \<Longrightarrow> handlers_up_to_date tr m \<Longrightarrow>
    handlers_up_to_date (tr @ calls) m'"
  by (auto simp: handlers_up_to_date_def SystemState_def SetParticipantConnectedHandler_def)

lemma up_to_date_others:
  "handlers_up_to_date tr (RemoveParticipantStatusHandler i m) = handlers_up_to_date tr m"
  "handlers_up_to_date tr (SetParticipantDisconnectedHandler c m) = handlers_up_to_date tr m"
  by (simp_all add: handlers_up_to_date_def SystemState_def RemoveParticipantStatusHandler_def
      SetParticipantDisconnectedHandler_def)

lemma up_to_date_init: "handlers_up_to_date [] init_monitor"
  by (simp add: handlers_up_to_date_def init_monitor_def InvokeAll_def no_handlers_def)

lemmas up_to_date_intros = up_to_date_workflow up_to_date_addState up_to_date_addStatus
  up_to_date_status up_to_date_thrown up_to_date_disconnected up_to_date_onConnected
  up_to_date_removed up_to_date_setConnected up_to_date_init

lemma run_up_to_date: "monitor_run tr m \<Longrightarrow> handlers_up_to_date tr m"
  by (induction rule: monitor_run.induct)
    (blast intro: up_to_date_intros, (simp only: up_to_date_others | blast intro: up_to_date_intros)+)

section \<open>Properties\<close>

text \<open>Claim C9. Handlers are never stale: in every run of the monitor, whatever the order of
  registrations, reports, workflow configurations and disconnects, the last system state
  that a registered handler was called with is the current system state.\<close>

theorem monitor_handlers_never_stale:
  assumes "monitor_run calls m"
    and "c \<in> set (InvokeAll (systemStateHandlers m))"
  shows "last_seen c None calls = Some (SystemState m)"
  using run_up_to_date [OF assms(1)] assms(2) by (simp add: handlers_up_to_date_def)

theorem monitor_handlers_never_stale_witness:
  "\<exists>calls m. monitor_run calls m \<and> last_seen (7::nat) None calls = Some SS_Running
     \<and> SystemState m = SS_Running"
proof -
  let ?m0 = "init_monitor :: nat system_monitor"
  let ?m1 = "snd (snd (AddSystemStateHandler 7 ?m0))"
  let ?c1 = "fst (snd (AddSystemStateHandler 7 ?m0))"
  let ?m2 = "snd (ReceiveWorkflowConfiguration id \<lparr>requiredParticipantNames = [''A'']\<rparr> ?m1)"
  let ?c2 = "fst (ReceiveWorkflowConfiguration id \<lparr>requiredParticipantNames = [''A'']\<rparr> ?m1)"
  let ?r = "ReceiveParticipantStatus (demo_status ''A'' PS_Running) ?m2"
  obtain c3 where c3: "?r = (Inr c3, snd ?r)" and ss: "SystemState (snd ?r) = SS_Running"
    and mem: "7 \<in> set (InvokeAll (systemStateHandlers (snd ?r)))"
    by (simp add: ReceiveParticipantStatus_def ReceiveWorkflowConfiguration_def SystemState_def
        UpdateRequiredParticipantNames_def UpdateRequiredParticipants_def AddSystemStateHandler_def
        init_monitor_def init_tracker_def AddHandler_def no_handlers_def demo_tracker_defs InvokeAll_def)
  have "monitor_run ([] @ ?c1) ?m1"
    by (rule monitor_run.addState [OF monitor_run.start, of 7 "fst (AddSystemStateHandler 7 ?m0)"]) simp
  then have "monitor_run (([] @ ?c1) @ ?c2) ?m2"
    by (rule monitor_run.workflow [where order = id]) simp
  from monitor_run.status [OF this c3] have run: "monitor_run ((([] @ ?c1) @ ?c2) @ c3) (snd ?r)" .
  have "last_seen 7 None ((([] @ ?c1) @ ?c2) @ c3) = Some SS_Running"
    using monitor_handlers_never_stale [OF run mem] by (simp only: ss)
  with run ss show ?thesis by blast
qed

lemma ChangeToFirst_none:
  "(\<And>ps. \<not> AllRequiredIn t ps) \<Longrightarrow> ChangeToFirst t new entries = new"
  by (induction t new entries rule: ChangeToFirst.induct) auto

lemma AllRequiredIn_unknown:
  "IsRequiredParticipant n t \<Longrightarrow> GetParticipantStatus n t = None \<Longrightarrow> \<not> AllRequiredIn t ps"
  by (force simp: AllRequiredIn_iff IsRequiredParticipant_def)

lemma ComputeSystemState_unknown_required:
  assumes "IsRequiredParticipant n t" "GetParticipantStatus n t = None" "systemState t = SS_Error"
  shows "ComputeSystemState p t \<in> {SS_Error, SS_Aborting}"
  using ChangeToFirst_none [of t] AllRequiredIn_unknown [OF assms(1,2)] assms(3)
  by (cases p) (simp_all add: ComputeSystemState_def Let_def del: change_table.simps)

lemma RemoveParticipant_required_error:
  assumes "IsRequiredParticipant n t" "systemState t = SS_Error"
  shows "systemState (snd (RemoveParticipant n t)) \<in> {SS_Error, SS_Aborting}"
proof -
  let ?u = "t\<lparr>participantStatusCache := AList.delete n (participantStatusCache t)\<rparr>"
  have "ComputeSystemState (GetAnyRequiredParticipantState ?u) ?u \<in> {SS_Error, SS_Aborting}"
    by (rule ComputeSystemState_unknown_required [of n])
      (use assms in \<open>simp_all add: IsRequiredParticipant_def GetParticipantStatus_def\<close>)
  with assms(2) show ?thesis
    by (auto simp: RemoveParticipant_def Let_def split: option.split)
qed

text \<open>Claim C10. Crash detection: when a required participant that is in a live state (not
  invalid, shut down or already in error) disconnects, the monitor announces its status
  as \<open>Error\<close> to every participant status handler and the simulation ends up in the system
  state \<open>Error\<close> (or \<open>Aborting\<close>), never in a regular one.\<close>

theorem monitor_detects_crash:
  assumes "OnParticipantDisconnected now name m = (res, m')"
    and "GetParticipantStatus name (systemStateTracker m) = Some st"
    and "status_state st \<notin> {PS_Invalid, PS_Shutdown, PS_Error}"
    and "IsRequiredParticipant name (systemStateTracker m)"
  shows "SystemState m' \<in> {SS_Error, SS_Aborting} \<and>
    (\<exists>calls. res = Inr calls \<and>
      (\<forall>c\<in>set (InvokeAll (participantStatusHandlers m)).
         CallParticipantStatusHandler c (connection_lost now name) \<in> set calls))"
proof -
  let ?t = "systemStateTracker m" and ?lost = "connection_lost now name"
  let ?u = "SetParticipantStatus name ?lost ?t"
  have known: "GetOrCreateParticipantStatus name ?t = (st, ?t)"
    using assms(2) by (simp add: GetOrCreateParticipantStatus_def GetParticipantStatus_def)
  have lost: "participantName ?lost = name" "status_state ?lost = PS_Error"
    by (simp_all add: connection_lost_def)
  have upd: "\<exists>r. UpdateParticipantStatus ?lost ?t = (Inr r, ?u\<lparr>systemState := SS_Error\<rparr>)
      \<and> participantStateChanged r"
    using UpdateParticipantStatus_cases [of ?lost ?t]
    by cases (use known lost assms(3,4) in \<open>auto simp: Let_def ComputeSystemState_def\<close>)
  have "SystemState m' = systemState (snd (RemoveParticipant name (?u\<lparr>systemState := SS_Error\<rparr>)))"
    using assms(1-3) upd
    by (auto simp: OnParticipantDisconnected_def ReceiveParticipantStatus_def Let_def SystemState_def
        split: prod.splits)
  moreover have "systemState (snd (RemoveParticipant name (?u\<lparr>systemState := SS_Error\<rparr>)))
      \<in> {SS_Error, SS_Aborting}"
    by (rule RemoveParticipant_required_error)
      (use assms(4) in \<open>simp_all add: IsRequiredParticipant_def frame_simps\<close>)
  moreover have "\<exists>calls. res = Inr calls \<and>
      (\<forall>c\<in>set (InvokeAll (participantStatusHandlers m)).
         CallParticipantStatusHandler c ?lost \<in> set calls)"
    using assms(1-3) upd
    by (auto simp: OnParticipantDisconnected_def ReceiveParticipantStatus_def Let_def
        split: prod.splits)
  ultimately show ?thesis by simp
qed

theorem monitor_detects_crash_witness:
  "SystemState (snd (OnParticipantDisconnected 9 ''A''
     ((init_monitor :: nat system_monitor)\<lparr>systemStateTracker := demo_tracker PS_Running PS_Running\<rparr>)))
   \<in> {SS_Error, SS_Aborting}"
proof -
  let ?m = "(init_monitor :: nat system_monitor)\<lparr>systemStateTracker := demo_tracker PS_Running PS_Running\<rparr>"
  obtain res m' where d: "OnParticipantDisconnected 9 ''A'' ?m = (res, m')" by fastforce
  have "SystemState m' \<in> {SS_Error, SS_Aborting}"
    using monitor_detects_crash [OF d, of "demo_status ''A'' PS_Running"]
    by (simp add: demo_tracker_def GetParticipantStatus_def IsRequiredParticipant_def demo_status_def)
  then show ?thesis by (simp add: d)
qed

end
