(* ===== verification/ParticipantReplies.thy ===== *)
theory ParticipantReplies
  imports Prelude
begin

text \<open>
  The barrier that the lifecycle waits at (\<open>core/requests/procs/ParticipantReplies.cpp\<close>):
  a completion function runs once every remote participant has answered a call. The
  completion function is a value of the type parameter; an operation returns the one that
  is to run now. The identifier of the call comes from the request-reply service.
\<close>

section \<open>State and operations\<close>

record 'k participant_replies =
  barrierActive :: bool
  expectedParticipantsToSendCallReturns :: "string list"
  completionFunction :: "'k option"
  activeUuid :: nat

definition init_replies :: "'k participant_replies" where
  "init_replies = \<lparr>barrierActive = False, expectedParticipantsToSendCallReturns = [],
     completionFunction = None, activeUuid = 0\<rparr>"

datatype 'k barrier_outcome =
    BarrierBusy            \<comment> \<open>a previous call is still waiting: the new action is dropped\<close>
  | BarrierRun 'k          \<comment> \<open>no remote participants: run the action at once\<close>
  | BarrierCall            \<comment> \<open>the call was sent to the remote participants\<close>

text \<open>
  The function that \<open>CallAfterAllParticipantsReplied\<close> defers to the IO thread, given the
  remote receivers at that time and the identifier that \<open>Call\<close> returns.
\<close>

definition CallAfterAllParticipantsReplied ::
    "string list \<Rightarrow> nat \<Rightarrow> 'k \<Rightarrow> 'k participant_replies
      \<Rightarrow> 'k barrier_outcome \<times> 'k participant_replies" where
  "CallAfterAllParticipantsReplied remoteReceivers uuid k p =
     (if barrierActive p then (BarrierBusy, p)
      else
        let p1 = p\<lparr>expectedParticipantsToSendCallReturns := remdups remoteReceivers\<rparr>
        in if expectedParticipantsToSendCallReturns p1 = [] then (BarrierRun k, p1)
           else (BarrierCall, p1\<lparr>barrierActive := True, completionFunction := Some k,
                                  activeUuid := uuid\<rparr>))"

text \<open>
  \<open>ReceiveCallReturn\<close> yields the completion function to run, if this was the last reply.
  The barrier is released after that function has returned (\<open>ReleaseBarrier\<close>).
\<close>

definition ReceiveCallReturn ::
    "string \<Rightarrow> nat \<Rightarrow> 'k participant_replies \<Rightarrow> 'k option \<times> bool \<times> 'k participant_replies" where
  "ReceiveCallReturn fromParticipant callUuid p =
     (if barrierActive p \<and> callUuid = activeUuid p
      then
        let p1 = p\<lparr>expectedParticipantsToSendCallReturns :=
                    removeAll fromParticipant (expectedParticipantsToSendCallReturns p)\<rparr>
        in if expectedParticipantsToSendCallReturns p1 = []
           then (completionFunction p1, True, p1)
           else (None, False, p1)
      else (None, False, p))"

definition ReleaseBarrier :: "'k participant_replies \<Rightarrow> 'k participant_replies" where
  "ReleaseBarrier p = p\<lparr>barrierActive := False\<rparr>"

text \<open>A sequence of call returns for the active call, each completion run at once.\<close>

fun receive_all :: "(string \<times> nat) list \<Rightarrow> 'k participant_replies
    \<Rightarrow> 'k list \<times> 'k participant_replies" where
  "receive_all [] p = ([], p)"
| "receive_all ((from, uuid) # rs) p =
     (let (k, complete, p1) = ReceiveCallReturn from uuid p;
          p2 = (if complete then ReleaseBarrier p1 else p1);
          (ks, p3) = receive_all rs p2
      in (case k of None \<Rightarrow> ks | Some c \<Rightarrow> c # ks, p3))"

section \<open>The barrier opens exactly once, with the last reply\<close>

definition waiting_for :: "string list \<Rightarrow> nat \<Rightarrow> 'k \<Rightarrow> 'k participant_replies \<Rightarrow> bool" where
  "waiting_for names uuid k p \<longleftrightarrow>
     barrierActive p \<and> completionFunction p = Some k \<and> activeUuid p = uuid \<and>
     expectedParticipantsToSendCallReturns p = names \<and> names \<noteq> []"

lemma CallAfter_waiting:
  "\<not> barrierActive p \<Longrightarrow> remoteReceivers \<noteq> [] \<Longrightarrow>
    \<exists>p'. CallAfterAllParticipantsReplied remoteReceivers uuid k p = (BarrierCall, p')
      \<and> waiting_for (remdups remoteReceivers) uuid k p'"
  by (simp add: CallAfterAllParticipantsReplied_def waiting_for_def Let_def)

lemma CallAfter_cases:
  "barrierActive p \<Longrightarrow> CallAfterAllParticipantsReplied rs uuid k p = (BarrierBusy, p)"
  "\<not> barrierActive p \<Longrightarrow> fst (CallAfterAllParticipantsReplied [] uuid k p) = BarrierRun k"
  "\<not> barrierActive p \<Longrightarrow> \<not> barrierActive (snd (CallAfterAllParticipantsReplied [] uuid k p))"
  by (simp_all add: CallAfterAllParticipantsReplied_def Let_def)

lemma receive_inactive:
  "\<not> barrierActive p \<Longrightarrow> receive_all rs p = ([], p)"
  by (induction rs) (auto simp: ReceiveCallReturn_def)

lemma ReceiveCallReturn_waiting:
  assumes "waiting_for names uuid k p"
  shows "uuid' \<noteq> uuid \<Longrightarrow> ReceiveCallReturn from uuid' p = (None, False, p)"
    and "removeAll from names \<noteq> [] \<Longrightarrow>
      \<exists>p'. ReceiveCallReturn from uuid p = (None, False, p') \<and> waiting_for (removeAll from names) uuid k p'"
    and "removeAll from names = [] \<Longrightarrow>
      \<exists>p'. ReceiveCallReturn from uuid p = (Some k, True, p')"
  using assms by (simp_all add: ReceiveCallReturn_def waiting_for_def Let_def)

lemma receive_all_waiting:
  assumes "waiting_for names uuid k p"
  shows "fst (receive_all rs p) =
    (if set names \<subseteq> {from. (from, uuid) \<in> set rs} then [k] else [])
    \<and> (barrierActive (snd (receive_all rs p)) \<longleftrightarrow> \<not> set names \<subseteq> {from. (from, uuid) \<in> set rs})"
  using assms
proof (induction rs arbitrary: names p)
  case Nil
  then show ?case by (auto simp: waiting_for_def)
next
  case (Cons r rs)
  obtain from' uuid' where r: "r = (from', uuid')" by (cases r)
  consider (other) "uuid' \<noteq> uuid" | (more) "uuid' = uuid" "removeAll from' names \<noteq> []"
    | (last) "uuid' = uuid" "removeAll from' names = []" by blast
  then show ?case
  proof cases
    case other
    with Cons show ?thesis
      by (simp add: r ReceiveCallReturn_waiting(1) [OF Cons.prems other])
  next
    case more
    obtain p' where p': "ReceiveCallReturn from' uuid p = (None, False, p')"
      "waiting_for (removeAll from' names) uuid k p'"
      using ReceiveCallReturn_waiting(2) [OF Cons.prems more(2)] by blast
    have "set (removeAll from' names) \<subseteq> {from. (from, uuid) \<in> set rs}
      \<longleftrightarrow> set names \<subseteq> {from. (from, uuid) \<in> set (r # rs)}"
      using more(1) by (auto simp: r)
    with Cons.IH [OF p'(2)] p'(1) more(1) show ?thesis by (simp add: r split_beta)
  next
    case last
    obtain p' where p': "ReceiveCallReturn from' uuid p = (Some k, True, p')"
      using ReceiveCallReturn_waiting(3) [OF Cons.prems last(2)] by blast
    have "set names \<subseteq> {from'}"
      using last(2) by (auto simp: removeAll_filter_not_eq filter_empty_conv)
    with last(1) p' show ?thesis
      by (auto simp: r receive_inactive ReleaseBarrier_def)
  qed
qed

section \<open>The interface of the lifecycle\<close>

text \<open>
  What the lifecycle relies on: while the barrier is closed nothing runs, a call made with
  remote receivers runs its action once all of them have replied to that very call, and
  only once.
\<close>

locale reply_barrier =
  fixes start :: "string list \<Rightarrow> nat \<Rightarrow> 'k \<Rightarrow> 'b \<Rightarrow> 'k barrier_outcome \<times> 'b"
    and receive :: "(string \<times> nat) list \<Rightarrow> 'b \<Rightarrow> 'k list \<times> 'b"
    and closed :: "'b \<Rightarrow> bool"
  assumes start_busy: "closed b \<Longrightarrow> start rs u k b = (BarrierBusy, b)"
    and start_alone: "\<not> closed b \<Longrightarrow> fst (start [] u k b) = BarrierRun k
      \<and> \<not> closed (snd (start [] u k b))"
    and start_call: "\<not> closed b \<Longrightarrow> rs \<noteq> [] \<Longrightarrow> fst (start rs u k b) = BarrierCall
      \<and> closed (snd (start rs u k b))"
    and opens_once: "\<not> closed b \<Longrightarrow> rs \<noteq> [] \<Longrightarrow>
      fst (receive replies (snd (start rs u k b))) =
        (if set rs \<subseteq> {n. (n, u) \<in> set replies} then [k] else [])"
begin

lemma runs_when_all_replied:
  assumes "\<not> closed b" "rs \<noteq> []" "\<And>n. n \<in> set rs \<Longrightarrow> (n, u) \<in> set replies"
  shows "fst (receive replies (snd (start rs u k b))) = [k]"
  using assms by (auto simp: opens_once)

lemma waits_for_missing:
  assumes "\<not> closed b" "n \<in> set rs" "(n, u) \<notin> set replies"
  shows "fst (receive replies (snd (start rs u k b))) = []"
  using assms by (cases rs) (auto simp: opens_once)

end

lemma CallAfter_opens_once:
  assumes "\<not> barrierActive b" "rs \<noteq> []"
  shows "fst (receive_all replies (snd (CallAfterAllParticipantsReplied rs u k b))) =
    (if set rs \<subseteq> {n. (n, u) \<in> set replies} then [k] else [])"
proof -
  obtain p' where p': "CallAfterAllParticipantsReplied rs u k b = (BarrierCall, p')"
    "waiting_for (remdups rs) u k p'"
    using CallAfter_waiting [OF assms] by blast
  from receive_all_waiting [OF p'(2)] show ?thesis by (simp add: p'(1))
qed

lemma CallAfter_call:
  assumes "\<not> barrierActive b" "rs \<noteq> []"
  shows "fst (CallAfterAllParticipantsReplied rs u k b) = BarrierCall
    \<and> barrierActive (snd (CallAfterAllParticipantsReplied rs u k b))"
  using CallAfter_waiting [OF assms, of u k] by (auto simp: waiting_for_def)

interpretation replies: reply_barrier CallAfterAllParticipantsReplied receive_all barrierActive
  by unfold_locales (simp_all add: CallAfter_cases CallAfter_call CallAfter_opens_once)

section \<open>Properties\<close>

text \<open>Claim C12. The barrier opens exactly once and exactly when every remote participant has
  replied to this very call: replies to other calls and replies of other participants do
  not count, and duplicates do no harm.\<close>

theorem barrier_opens_exactly_once:
  assumes "\<not> barrierActive p" and "remoteReceivers \<noteq> []"
  shows "fst (receive_all replies (snd (CallAfterAllParticipantsReplied remoteReceivers uuid k p))) =
    (if \<forall>n\<in>set remoteReceivers. (n, uuid) \<in> set replies then [k] else [])"
  using replies.opens_once [OF assms] by auto

theorem barrier_opens_exactly_once_witness:
  "fst (receive_all [(''B'', 6), (''B'', 7), (''B'', 7), (''C'', 7), (''C'', 7)]
     (snd (CallAfterAllParticipantsReplied [''B'', ''C''] 7 True init_replies))) = [True]"
  by (subst barrier_opens_exactly_once) (simp_all add: init_replies_def)

end
