(* ===== verification/LifecycleManagement.thy ===== *)
theory LifecycleManagement
  imports OrchestrationTypes ParticipantReplies
begin

text \<open>
  The state of a participant's lifecycle, shared by the lifecycle service
  (\<open>services/orchestration/LifecycleService.cpp\<close>), its manager
  (\<open>LifecycleManagement.cpp\<close>) and the state objects (\<open>LifecycleStates.cpp\<close>), and the
  operations of the manager that the state objects call.

  Everything the code defers to the IO thread with \<open>ExecuteDeferred\<close>, and every message it
  sends (\<open>SendMsg\<close> posts to the same thread), becomes a task at the end of \<open>ioQueue\<close>.
  User callbacks are parameters: whether the callback throws, and whether an abort command
  is handled by the manager while it executes. Log output is not modelled; what else the
  outside sees is recorded in \<open>effects\<close>.
\<close>

section \<open>The state\<close>

datatype lc_state =
    InvalidState
  | ServicesCreatedState
  | CommunicationInitializingState
  | CommunicationInitializedState
  | ReadyToRunState
  | RunningState
  | PausedState
  | StoppingState
  | StoppedState
  | ShuttingDownState
  | ShutdownState
  | AbortingState
  | ErrorState

text \<open>The virtual methods of \<open>ILifecycleState\<close>.\<close>

datatype intent =
    I_Initialize
  | I_ServicesCreated
  | I_CommunicationInitializing
  | I_CommunicationInitialized
  | I_CompleteCommunicationReadyHandler
  | I_ReadyToRun
  | I_RunSimulation
  | I_PauseSimulation
  | I_ContinueSimulation
  | I_StopSimulation
  | I_RestartParticipant
  | I_ShutdownParticipant
  | I_AbortSimulation
  | I_ResolveAbortSimulation
  | I_Error

text \<open>The closures that are run after all participants replied, or after all pending
  asynchronous subscriptions were acknowledged, with the reason they capture.\<close>

datatype completion =
    AfterServicesCreated string
  | AfterStopped string
  | AfterShutdown string

datatype async_completion = AfterCommunicationInitializing string

record user_handler =
  handler_throws :: bool
  handler_abort :: bool

datatype callback_result = CR_Error | CR_Completed | CR_Deferred

datatype io_task =
    T_SendStatus participant_status
  | T_CallAfterAllParticipantsReplied completion
  | T_Initialize
  | T_StartAutonomous
  | T_CompleteCommunicationReadyHandler
  | T_ReportError string
  | T_Pause string
  | T_Continue
  | T_Stop string
  | T_AbortSimulation string

datatype lc_effect =
    E_CommunicationReadyHandler
  | E_StartingHandler
  | E_StopHandler
  | E_ShutdownHandler
  | E_AbortHandler participant_state
  | E_StartTime
  | E_StopTime
  | E_NotifyShutdown
  | E_RequestReplyCall nat
  | E_EvaluateAggregationInfo bool
  | E_RequestNextStep
  | E_ConfigureTimeProvider bool
  | E_InitializeTimeSyncPolicy bool
  | E_LifecycleServiceCreated operation_mode
  | E_TimeSyncServiceCreated
  | E_AddMonitorHandlers
  | E_RegisterTimeSyncService
  | E_ConfigureDynamicStepSize
  | E_Status participant_status
  | E_Caught silkit_error

record lifecycle =
  ownName :: string
  currentState :: lc_state
  lastBeforeAbortingState :: "lc_state option"
  abortRequested :: "lc_state \<Rightarrow> bool"
  handlerExecuting :: "lc_state \<Rightarrow> bool"
  operationMode :: operation_mode
  status :: participant_status
  isLifecycleStarted :: bool
  abortedBeforeLifecycleStart :: bool
  timeSyncActive :: bool
  finalState :: "participant_state option"
  commReadyHandler :: "user_handler option"
  commReadyHandlerIsAsync :: bool
  commReadyHandlerInvoked :: bool
  commReadyHandlerCompleted :: bool
  startingHandler :: "user_handler option"
  stopHandler :: "user_handler option"
  shutdownHandler :: "user_handler option"
  abortHandler :: "user_handler option"
  lc_requiredParticipantNames :: "string list"
  stopRequested :: bool
  pauseRequested :: bool
  participantReplies :: "completion participant_replies"
  remoteReceivers :: "string list"
  nextUuid :: nat
  hasPendingAsyncSubscriptions :: bool
  asyncSubscriptionsCompletionHandlers :: "async_completion list"
  ioQueue :: "io_task list"
  systemClock :: int
  published :: "participant_state list"
  effects :: "lc_effect list"

text \<open>A lifecycle service that was just constructed, in a participant of the given name.\<close>

definition init_lifecycle :: "string \<Rightarrow> lifecycle" where
  "init_lifecycle name =
     \<lparr>ownName = name, currentState = InvalidState, lastBeforeAbortingState = None,
      abortRequested = (\<lambda>_. False), handlerExecuting = (\<lambda>_. False), operationMode = OM_Invalid,
      status = \<lparr>participantName = [], status_state = PS_Invalid, enterReason = [],
                enterTime = 0, refreshTime = 0\<rparr>,
      isLifecycleStarted = False, abortedBeforeLifecycleStart = False, timeSyncActive = False,
      finalState = None, commReadyHandler = None, commReadyHandlerIsAsync = False,
      commReadyHandlerInvoked = False, commReadyHandlerCompleted = False,
      startingHandler = None, stopHandler = None, shutdownHandler = None, abortHandler = None,
      lc_requiredParticipantNames = [], stopRequested = False, pauseRequested = False,
      participantReplies = init_replies, remoteReceivers = [], nextUuid = 1,
      hasPendingAsyncSubscriptions = False, asyncSubscriptionsCompletionHandlers = [],
      ioQueue = [], systemClock = 0, published = [], effects = []\<rparr>"

section \<open>Names of states and methods\<close>

fun toString :: "lc_state \<Rightarrow> string" where
  "toString InvalidState = ''Invalid''"
| "toString ServicesCreatedState = ''ServicesCreated''"
| "toString CommunicationInitializingState = ''CommunicationInitializing''"
| "toString CommunicationInitializedState = ''CommunicationInitialized''"
| "toString ReadyToRunState = ''ReadyToRun''"
| "toString RunningState = ''Running''"
| "toString PausedState = ''Paused''"
| "toString StoppingState = ''Stopping''"
| "toString StoppedState = ''Stopped''"
| "toString ShuttingDownState = ''ShuttingDown''"
| "toString ShutdownState = ''Shutdown''"
| "toString AbortingState = ''Aborting''"
| "toString ErrorState = ''Error''"

fun GetParticipantState :: "lc_state \<Rightarrow> participant_state" where
  "GetParticipantState InvalidState = PS_Invalid"
| "GetParticipantState ServicesCreatedState = PS_ServicesCreated"
| "GetParticipantState CommunicationInitializingState = PS_CommunicationInitializing"
| "GetParticipantState CommunicationInitializedState = PS_CommunicationInitialized"
| "GetParticipantState ReadyToRunState = PS_ReadyToRun"
| "GetParticipantState RunningState = PS_Running"
| "GetParticipantState PausedState = PS_Paused"
| "GetParticipantState StoppingState = PS_Stopping"
| "GetParticipantState StoppedState = PS_Stopped"
| "GetParticipantState ShuttingDownState = PS_ShuttingDown"
| "GetParticipantState ShutdownState = PS_Shutdown"
| "GetParticipantState AbortingState = PS_Aborting"
| "GetParticipantState ErrorState = PS_Error"

fun functionName :: "intent \<Rightarrow> string" where
  "functionName I_Initialize = ''Initialize''"
| "functionName I_ServicesCreated = ''ServicesCreated''"
| "functionName I_CommunicationInitializing = ''CommunicationInitializing''"
| "functionName I_CommunicationInitialized = ''CommunicationInitialized''"
| "functionName I_CompleteCommunicationReadyHandler = ''CompleteCommunicationReadyHandler''"
| "functionName I_ReadyToRun = ''ReadyToRun''"
| "functionName I_RunSimulation = ''RunSimulation''"
| "functionName I_PauseSimulation = ''PauseSimulation''"
| "functionName I_ContinueSimulation = ''ContinueSimulation''"
| "functionName I_StopSimulation = ''StopSimulation''"
| "functionName I_RestartParticipant = ''RestartParticipant''"
| "functionName I_ShutdownParticipant = ''ShutdownParticipant''"
| "functionName I_AbortSimulation = ''AbortSimulation''"
| "functionName I_ResolveAbortSimulation = ''ResolveAbortSimulation''"
| "functionName I_Error = ''Error''"

section \<open>Operations of the lifecycle service that the manager calls\<close>

definition post :: "io_task \<Rightarrow> lifecycle \<Rightarrow> lifecycle" where
  "post task s = s\<lparr>ioQueue := ioQueue s @ [task]\<rparr>"

definition emit :: "lc_effect \<Rightarrow> lifecycle \<Rightarrow> lifecycle" where
  "emit e s = s\<lparr>effects := effects s @ [e]\<rparr>"

definition ChangeParticipantState :: "participant_state \<Rightarrow> string \<Rightarrow> lifecycle \<Rightarrow> lifecycle" where
  "ChangeParticipantState newState reason s =
     (let st = \<lparr>participantName = ownName s, status_state = newState, enterReason = reason,
                enterTime = systemClock s, refreshTime = enterTime (status s)\<rparr>
      in post (T_SendStatus st)
           (s\<lparr>status := st, published := published s @ [newState]\<rparr>))"

definition State :: "lifecycle \<Rightarrow> participant_state" where
  "State s = status_state (status s)"

section \<open>Operations of the manager\<close>

text \<open>A virtual method call on a state object.\<close>

type_synonym virtual_call = "lc_state \<Rightarrow> intent \<Rightarrow> string \<Rightarrow> lifecycle \<Rightarrow> lifecycle outcome"

text \<open>\<open>_currentState->method(reason)\<close>: the one-line methods of the manager.\<close>

definition manager_call :: "virtual_call \<Rightarrow> intent \<Rightarrow> string \<Rightarrow> lifecycle \<Rightarrow> lifecycle outcome" where
  "manager_call call i reason s = call (currentState s) i reason s"

definition UpdateLifecycleState :: "lc_state \<Rightarrow> lifecycle \<Rightarrow> lifecycle" where
  "UpdateLifecycleState newState s =
     (let s1 = (if newState = AbortingState
                then s\<lparr>lastBeforeAbortingState := Some (currentState s)\<rparr> else s)
      in s1\<lparr>currentState := newState\<rparr>)"

definition UpdateParticipantState :: "string \<Rightarrow> lifecycle \<Rightarrow> lifecycle" where
  "UpdateParticipantState reason s =
     ChangeParticipantState (GetParticipantState (currentState s)) reason s"

definition SetState :: "lc_state \<Rightarrow> string \<Rightarrow> lifecycle \<Rightarrow> lifecycle" where
  "SetState newState reason s = UpdateParticipantState reason (UpdateLifecycleState newState s)"

definition SetStateAndForwardIntent ::
    "virtual_call \<Rightarrow> lc_state \<Rightarrow> intent \<Rightarrow> string \<Rightarrow> lifecycle \<Rightarrow> lifecycle outcome" where
  "SetStateAndForwardIntent call newState i reason s =
     (let s1 = UpdateParticipantState reason (UpdateLifecycleState newState s)
      in call (currentState s1) i reason s1)"

text \<open>
  The abort command of the manager only adds a log message to the call on the current
  state.
\<close>

definition manager_AbortSimulation :: "virtual_call \<Rightarrow> string \<Rightarrow> lifecycle \<Rightarrow> lifecycle outcome" where
  "manager_AbortSimulation call reason s = manager_call call I_AbortSimulation reason s"

definition manager_ResolveAbortSimulation ::
    "virtual_call \<Rightarrow> string \<Rightarrow> lifecycle \<Rightarrow> lifecycle outcome" where
  "manager_ResolveAbortSimulation call reason s =
     bind_outcome (manager_call call I_ResolveAbortSimulation reason s)
       (manager_call call I_ShutdownParticipant reason)"

section \<open>User callbacks\<close>

text \<open>The body of a user callback, as far as the lifecycle can tell.\<close>

definition run_handler :: "virtual_call \<Rightarrow> user_handler \<Rightarrow> lifecycle \<Rightarrow> lifecycle outcome" where
  "run_handler call h s =
     (if handler_abort h
      then manager_AbortSimulation call ''Received SystemCommand::AbortSimulation'' s
      else Done s)"

text \<open>
  \<open>HandleStarting\<close>, \<open>HandleStop\<close> and \<open>HandleShutdown\<close> with the \<open>Trigger...Handler\<close> methods
  they guard: a missing handler counts as success, an exception as failure.
\<close>

definition handle_callback ::
    "virtual_call \<Rightarrow> user_handler option \<Rightarrow> lc_effect \<Rightarrow> lifecycle \<Rightarrow> bool \<times> lifecycle outcome" where
  "handle_callback call handler invoked s =
     (case handler of
        None \<Rightarrow> (True, Done s)
      | Some h \<Rightarrow> (\<not> handler_throws h, run_handler call h (emit invoked s)))"

definition HandleStarting :: "virtual_call \<Rightarrow> lifecycle \<Rightarrow> bool \<times> lifecycle outcome" where
  "HandleStarting call s = handle_callback call (startingHandler s) E_StartingHandler s"

definition HandleStop :: "virtual_call \<Rightarrow> lifecycle \<Rightarrow> bool \<times> lifecycle outcome" where
  "HandleStop call s = handle_callback call (stopHandler s) E_StopHandler s"

definition HandleShutdown :: "virtual_call \<Rightarrow> lifecycle \<Rightarrow> bool \<times> lifecycle outcome" where
  "HandleShutdown call s = handle_callback call (shutdownHandler s) E_ShutdownHandler s"

definition HandleAbort :: "virtual_call \<Rightarrow> lifecycle \<Rightarrow> bool \<times> lifecycle outcome" where
  "HandleAbort call s =
     (case lastBeforeAbortingState s of
        None \<Rightarrow> (False, Raised StateError s)
      | Some before \<Rightarrow>
          handle_callback call (abortHandler s) (E_AbortHandler (GetParticipantState before)) s)"

definition HandleCommunicationReady ::
    "virtual_call \<Rightarrow> lifecycle \<Rightarrow> callback_result \<times> lifecycle outcome" where
  "HandleCommunicationReady call s =
     (case commReadyHandler s of
        None \<Rightarrow> (CR_Completed, Done s)
      | Some h \<Rightarrow>
          if commReadyHandlerIsAsync s
          then if \<not> commReadyHandlerInvoked s
               then (if handler_throws h then CR_Error else CR_Deferred,
                     run_handler call h (emit E_CommunicationReadyHandler
                       (s\<lparr>commReadyHandlerInvoked := True, commReadyHandlerCompleted := False\<rparr>)))
               else (CR_Deferred, Done s)
          else (if handler_throws h then CR_Error else CR_Completed,
                run_handler call h (emit E_CommunicationReadyHandler s)))"

definition StartTime :: "lifecycle \<Rightarrow> lifecycle" where
  "StartTime s = emit E_StartTime s"

definition StopTime :: "lifecycle \<Rightarrow> lifecycle" where
  "StopTime s = emit E_StopTime s"

definition SetFinalStatePromise :: "lifecycle \<Rightarrow> lifecycle" where
  "SetFinalStatePromise s =
     (case finalState s of
        None \<Rightarrow> s\<lparr>finalState := Some (State s)\<rparr>
      | Some _ \<Rightarrow> s)"

end
