(* ===== verification/LifecycleStates.thy ===== *)
theory LifecycleStates
  imports LifecycleManagement
begin

text \<open>
  The state objects of the lifecycle (\<open>services/orchestration/LifecycleStates.cpp\<close>): one
  function per class, with one equation per method it overrides and the base class
  \<open>State\<close> for the rest. A method receives the virtual call it may make (on itself or,
  through the manager, on the current state); \<open>invoke\<close> ties the knot, with fuel for the
  depth of nested calls.
\<close>

section \<open>The base class\<close>

definition newline :: string where
  "newline = [CHR 0x0A]"

text \<open>An invalid transition raises the error transition of the manager, or is only logged.\<close>

definition InvalidStateTransition ::
    "virtual_call \<Rightarrow> lc_state \<Rightarrow> string \<Rightarrow> bool \<Rightarrow> string \<Rightarrow> lifecycle \<Rightarrow> lifecycle outcome" where
  "InvalidStateTransition call this transitionName triggerErrorState originalReason s =
     (let message = ''Detected invalid state transition.'' @ newline
            @ ''Current state: '' @ toString this @ newline
            @ ''Requested transition: '' @ transitionName @ newline
            @ ''Original reason: '' @ originalReason
      in if triggerErrorState then manager_call call I_Error message s else Done s)"

definition ProcessAbortCommand ::
    "virtual_call \<Rightarrow> lc_state \<Rightarrow> string \<Rightarrow> lifecycle \<Rightarrow> lifecycle outcome" where
  "ProcessAbortCommand call this reason s =
     SetStateAndForwardIntent call AbortingState I_ResolveAbortSimulation reason
       (s\<lparr>abortRequested := (abortRequested s)(this := False)\<rparr>)"

definition ProcessAbortCommandInCallback ::
    "virtual_call \<Rightarrow> lc_state \<Rightarrow> lifecycle \<Rightarrow> lifecycle outcome" where
  "ProcessAbortCommandInCallback call this s =
     ProcessAbortCommand call this
       (''Received SystemCommand::AbortSimulation during '' @ toString this @ '' callback'') s"

text \<open>
  \<open>AbortSimulation\<close> and \<open>ResolveAbortSimulation\<close> are pure virtual in \<open>State\<close>; every class
  overrides them, so the last equation is never used.
\<close>

fun State_method :: "virtual_call \<Rightarrow> lc_state \<Rightarrow> intent \<Rightarrow> string \<Rightarrow> lifecycle \<Rightarrow> lifecycle outcome" where
  "State_method call this I_Error reason s = Done (SetState ErrorState reason s)"
| "State_method call this I_StopSimulation reason s =
     InvalidStateTransition call this (functionName I_StopSimulation) False reason s"
| "State_method call this I_AbortSimulation reason s = Raised LogicError s"
| "State_method call this I_ResolveAbortSimulation reason s = Raised LogicError s"
| "State_method call this i reason s =
     InvalidStateTransition call this (functionName i) True reason s"

section \<open>The states before the simulation runs\<close>

fun InvalidState_method :: "virtual_call \<Rightarrow> intent \<Rightarrow> string \<Rightarrow> lifecycle \<Rightarrow> lifecycle outcome" where
  "InvalidState_method call I_Initialize reason s = Done (SetState ServicesCreatedState reason s)"
| "InvalidState_method call I_AbortSimulation reason s =
     call InvalidState I_ResolveAbortSimulation reason s"
| "InvalidState_method call I_ResolveAbortSimulation reason s =
     SetStateAndForwardIntent call AbortingState I_ResolveAbortSimulation reason s"
| "InvalidState_method call i reason s = State_method call InvalidState i reason s"

fun ServicesCreatedState_method ::
    "virtual_call \<Rightarrow> intent \<Rightarrow> string \<Rightarrow> lifecycle \<Rightarrow> lifecycle outcome" where
  "ServicesCreatedState_method call I_ServicesCreated reason s =
     Done (post (T_CallAfterAllParticipantsReplied (AfterServicesCreated reason)) s)"
| "ServicesCreatedState_method call I_AbortSimulation reason s =
     call ServicesCreatedState I_ResolveAbortSimulation reason s"
| "ServicesCreatedState_method call I_ResolveAbortSimulation reason s =
     SetStateAndForwardIntent call AbortingState I_ResolveAbortSimulation reason s"
| "ServicesCreatedState_method call i reason s = State_method call ServicesCreatedState i reason s"

text \<open>The closure that runs when the pending asynchronous subscriptions are complete.\<close>

fun run_async_completion ::
    "virtual_call \<Rightarrow> async_completion \<Rightarrow> lifecycle \<Rightarrow> lifecycle outcome" where
  "run_async_completion call (AfterCommunicationInitializing reason) s =
     SetStateAndForwardIntent call CommunicationInitializedState I_CommunicationInitializing reason s"

text \<open>\<open>VAsioConnection::AddAsyncSubscriptionsCompletionHandler\<close>.\<close>

definition AddAsyncSubscriptionsCompletionHandler ::
    "virtual_call \<Rightarrow> async_completion \<Rightarrow> lifecycle \<Rightarrow> lifecycle outcome" where
  "AddAsyncSubscriptionsCompletionHandler call handler s =
     (if hasPendingAsyncSubscriptions s
      then Done (s\<lparr>asyncSubscriptionsCompletionHandlers :=
                    asyncSubscriptionsCompletionHandlers s @ [handler]\<rparr>)
      else run_async_completion call handler s)"

fun CommunicationInitializingState_method ::
    "virtual_call \<Rightarrow> intent \<Rightarrow> string \<Rightarrow> lifecycle \<Rightarrow> lifecycle outcome" where
  "CommunicationInitializingState_method call I_ServicesCreated reason s =
     manager_call call I_CommunicationInitializing reason s"
| "CommunicationInitializingState_method call I_CommunicationInitializing reason s =
     AddAsyncSubscriptionsCompletionHandler call (AfterCommunicationInitializing reason) s"
| "CommunicationInitializingState_method call I_AbortSimulation reason s =
     call CommunicationInitializingState I_ResolveAbortSimulation reason s"
| "CommunicationInitializingState_method call I_ResolveAbortSimulation reason s =
     SetStateAndForwardIntent call AbortingState I_ResolveAbortSimulation reason s"
| "CommunicationInitializingState_method call i reason s =
     State_method call CommunicationInitializingState i reason s"

definition set_executing :: "lc_state \<Rightarrow> bool \<Rightarrow> lifecycle \<Rightarrow> lifecycle" where
  "set_executing this b s = s\<lparr>handlerExecuting := (handlerExecuting s)(this := b)\<rparr>"

definition request_abort :: "lc_state \<Rightarrow> lifecycle \<Rightarrow> lifecycle" where
  "request_abort this s = s\<lparr>abortRequested := (abortRequested s)(this := True)\<rparr>"

fun CommunicationInitializedState_method ::
    "virtual_call \<Rightarrow> intent \<Rightarrow> string \<Rightarrow> lifecycle \<Rightarrow> lifecycle outcome" where
  "CommunicationInitializedState_method call I_CommunicationInitializing reason s =
     (if operationMode s = OM_Autonomous
      then manager_call call I_CommunicationInitialized
             ''CommunicationInitialized for autonomous participant.'' s
      else Done s)"
| "CommunicationInitializedState_method call I_CommunicationInitialized reason s =
     (let (callbackResult, handled) =
            HandleCommunicationReady call (set_executing CommunicationInitializedState True s)
      in bind_outcome (bind_outcome handled (\<lambda>s.
           case callbackResult of
             CR_Error \<Rightarrow>
               if abortRequested s CommunicationInitializedState
               then ProcessAbortCommandInCallback call CommunicationInitializedState s
               else Done (SetState ErrorState ''Exception during CommunicationReadyHandle execution.'' s)
           | CR_Completed \<Rightarrow>
               if abortRequested s CommunicationInitializedState
               then ProcessAbortCommandInCallback call CommunicationInitializedState s
               else call CommunicationInitializedState I_CompleteCommunicationReadyHandler reason s
           | CR_Deferred \<Rightarrow> Done s))
         (\<lambda>s. Done (set_executing CommunicationInitializedState False s)))"
| "CommunicationInitializedState_method call I_CompleteCommunicationReadyHandler reason s =
     SetStateAndForwardIntent call ReadyToRunState I_CommunicationInitialized reason s"
| "CommunicationInitializedState_method call I_AbortSimulation reason s =
     (if handlerExecuting s CommunicationInitializedState
      then Done (request_abort CommunicationInitializedState s)
      else call CommunicationInitializedState I_ResolveAbortSimulation
             ''Received SystemCommand::AbortSimulation.'' s)"
| "CommunicationInitializedState_method call I_ResolveAbortSimulation reason s =
     ProcessAbortCommand call CommunicationInitializedState reason s"
| "CommunicationInitializedState_method call i reason s =
     State_method call CommunicationInitializedState i reason s"

fun ReadyToRunState_method ::
    "virtual_call \<Rightarrow> intent \<Rightarrow> string \<Rightarrow> lifecycle \<Rightarrow> lifecycle outcome" where
  "ReadyToRunState_method call I_CommunicationInitializing reason s = Done s"
| "ReadyToRunState_method call I_CommunicationInitialized reason s =
     (if operationMode s = OM_Autonomous
      then manager_call call I_ReadyToRun ''ReadyToRun for autonomous participant.'' s
      else Done s)"
| "ReadyToRunState_method call I_ReadyToRun reason s =
     (if \<not> timeSyncActive s
      then
        let (success, handled) = HandleStarting call (set_executing ReadyToRunState True s)
        in bind_outcome (bind_outcome handled (\<lambda>s.
             if success
             then if abortRequested s ReadyToRunState
                  then ProcessAbortCommandInCallback call ReadyToRunState s
                  else Done (SetState RunningState ''Finished StartingHandler execution.'' s)
             else if abortRequested s ReadyToRunState
                  then ProcessAbortCommandInCallback call ReadyToRunState s
                  else Done (SetState ErrorState ''Exception during StartingHandler execution.'' s)))
           (\<lambda>s. Done (set_executing ReadyToRunState False s))
      else if abortRequested s ReadyToRunState
           then ProcessAbortCommandInCallback call ReadyToRunState s
           else SetStateAndForwardIntent call RunningState I_ReadyToRun reason s)"
| "ReadyToRunState_method call I_AbortSimulation reason s =
     (if handlerExecuting s ReadyToRunState
      then Done (request_abort ReadyToRunState s)
      else call ReadyToRunState I_ResolveAbortSimulation reason s)"
| "ReadyToRunState_method call I_ResolveAbortSimulation reason s =
     ProcessAbortCommand call ReadyToRunState reason s"
| "ReadyToRunState_method call i reason s = State_method call ReadyToRunState i reason s"

section \<open>The running simulation\<close>

fun RunningState_method :: "virtual_call \<Rightarrow> intent \<Rightarrow> string \<Rightarrow> lifecycle \<Rightarrow> lifecycle outcome" where
  "RunningState_method call I_CommunicationInitializing reason s = Done s"
| "RunningState_method call I_CommunicationInitialized reason s = Done s"
| "RunningState_method call I_ReadyToRun reason s = Done (StartTime s)"
| "RunningState_method call I_PauseSimulation reason s = Done (SetState PausedState reason s)"
| "RunningState_method call I_ContinueSimulation reason s =
     InvalidStateTransition call RunningState (functionName I_ContinueSimulation) False reason s"
| "RunningState_method call I_StopSimulation reason s =
     SetStateAndForwardIntent call StoppingState I_StopSimulation reason (StopTime s)"
| "RunningState_method call I_AbortSimulation reason s =
     call RunningState I_ResolveAbortSimulation reason (StopTime s)"
| "RunningState_method call I_ResolveAbortSimulation reason s =
     ProcessAbortCommand call RunningState reason s"
| "RunningState_method call i reason s = State_method call RunningState i reason s"

fun PausedState_method :: "virtual_call \<Rightarrow> intent \<Rightarrow> string \<Rightarrow> lifecycle \<Rightarrow> lifecycle outcome" where
  "PausedState_method call I_PauseSimulation reason s =
     InvalidStateTransition call PausedState (functionName I_PauseSimulation) True reason s"
| "PausedState_method call I_ContinueSimulation reason s = Done (SetState RunningState reason s)"
| "PausedState_method call I_StopSimulation reason s =
     SetStateAndForwardIntent call StoppingState I_StopSimulation reason s"
| "PausedState_method call I_AbortSimulation reason s =
     call PausedState I_ResolveAbortSimulation ''Received abort simulation.'' s"
| "PausedState_method call I_ResolveAbortSimulation reason s =
     ProcessAbortCommand call PausedState reason s"
| "PausedState_method call i reason s = State_method call PausedState i reason s"

section \<open>Stopping and shutting down\<close>

fun StoppingState_method :: "virtual_call \<Rightarrow> intent \<Rightarrow> string \<Rightarrow> lifecycle \<Rightarrow> lifecycle outcome" where
  "StoppingState_method call I_StopSimulation reason s =
     (let (success, handled) = HandleStop call s
      in bind_outcome handled (\<lambda>s.
           if success
           then if abortRequested s StoppingState
                then ProcessAbortCommandInCallback call StoppingState s
                else SetStateAndForwardIntent call StoppedState I_StopSimulation reason s
           else if abortRequested s StoppingState
                then ProcessAbortCommandInCallback call StoppingState s
                else Done (SetState ErrorState ''Exception during StopHandler execution.'' s)))"
| "StoppingState_method call I_AbortSimulation reason s = Done (request_abort StoppingState s)"
| "StoppingState_method call I_ResolveAbortSimulation reason s =
     ProcessAbortCommand call StoppingState reason s"
| "StoppingState_method call i reason s = State_method call StoppingState i reason s"

fun StoppedState_method :: "virtual_call \<Rightarrow> intent \<Rightarrow> string \<Rightarrow> lifecycle \<Rightarrow> lifecycle outcome" where
  "StoppedState_method call I_StopSimulation reason s =
     Done (post (T_CallAfterAllParticipantsReplied (AfterStopped reason)) s)"
| "StoppedState_method call I_RestartParticipant reason s = Raised SilKitError s"
| "StoppedState_method call I_ShutdownParticipant reason s =
     SetStateAndForwardIntent call ShuttingDownState I_ShutdownParticipant reason s"
| "StoppedState_method call I_AbortSimulation reason s =
     call StoppedState I_ResolveAbortSimulation reason s"
| "StoppedState_method call I_ResolveAbortSimulation reason s =
     ProcessAbortCommand call StoppedState reason s"
| "StoppedState_method call i reason s = State_method call StoppedState i reason s"

fun ShuttingDownState_method ::
    "virtual_call \<Rightarrow> intent \<Rightarrow> string \<Rightarrow> lifecycle \<Rightarrow> lifecycle outcome" where
  "ShuttingDownState_method call I_StopSimulation reason s = Done s"
| "ShuttingDownState_method call I_ShutdownParticipant reason s =
     (let (success, handled) = HandleShutdown call s
      in bind_outcome handled
           (SetStateAndForwardIntent call ShutdownState I_ShutdownParticipant reason))"
| "ShuttingDownState_method call I_AbortSimulation reason s =
     call ShuttingDownState I_ResolveAbortSimulation [] s"
| "ShuttingDownState_method call I_ResolveAbortSimulation reason s = Done s"
| "ShuttingDownState_method call i reason s = State_method call ShuttingDownState i reason s"

fun ShutdownState_method :: "virtual_call \<Rightarrow> intent \<Rightarrow> string \<Rightarrow> lifecycle \<Rightarrow> lifecycle outcome" where
  "ShutdownState_method call I_Initialize reason s = Done s"
| "ShutdownState_method call I_ReadyToRun reason s = Done s"
| "ShutdownState_method call I_CommunicationInitialized reason s = Done s"
| "ShutdownState_method call I_StopSimulation reason s = Done s"
| "ShutdownState_method call I_Error reason s = Done s"
| "ShutdownState_method call I_ShutdownParticipant reason s =
     Done (post (T_CallAfterAllParticipantsReplied (AfterShutdown reason)) s)"
| "ShutdownState_method call I_AbortSimulation reason s =
     call ShutdownState I_ResolveAbortSimulation [] s"
| "ShutdownState_method call I_ResolveAbortSimulation reason s = Done s"
| "ShutdownState_method call i reason s = State_method call ShutdownState i reason s"

section \<open>Aborting and error\<close>

text \<open>\<open>ShutdownAfterAbort\<close> of the manager is \<open>Shutdown\<close>, a call on the current state.\<close>

fun AbortingState_method :: "virtual_call \<Rightarrow> intent \<Rightarrow> string \<Rightarrow> lifecycle \<Rightarrow> lifecycle outcome" where
  "AbortingState_method call I_Initialize reason s = Done s"
| "AbortingState_method call I_ShutdownParticipant reason s =
     SetStateAndForwardIntent call ShutdownState I_ShutdownParticipant reason s"
| "AbortingState_method call I_AbortSimulation reason s = Done s"
| "AbortingState_method call I_ResolveAbortSimulation reason s =
     (let (success, handled) = HandleAbort call s
      in bind_outcome handled (manager_call call I_ShutdownParticipant reason))"
| "AbortingState_method call i reason s = State_method call AbortingState i reason s"

fun ErrorState_method :: "virtual_call \<Rightarrow> intent \<Rightarrow> string \<Rightarrow> lifecycle \<Rightarrow> lifecycle outcome" where
  "ErrorState_method call I_Initialize reason s = Done s"
| "ErrorState_method call I_RestartParticipant reason s = Raised SilKitError s"
| "ErrorState_method call I_StopSimulation reason s =
     manager_call call I_ShutdownParticipant reason s"
| "ErrorState_method call I_ShutdownParticipant reason s =
     SetStateAndForwardIntent call ShuttingDownState I_ShutdownParticipant reason s"
| "ErrorState_method call I_AbortSimulation reason s =
     call ErrorState I_ResolveAbortSimulation reason s"
| "ErrorState_method call I_ResolveAbortSimulation reason s =
     ProcessAbortCommand call ErrorState reason s"
| "ErrorState_method call I_Error reason s = Done s"
| "ErrorState_method call i reason s = State_method call ErrorState i reason s"

section \<open>Virtual dispatch\<close>

fun state_method :: "virtual_call \<Rightarrow> lc_state \<Rightarrow> intent \<Rightarrow> string \<Rightarrow> lifecycle \<Rightarrow> lifecycle outcome" where
  "state_method call InvalidState = InvalidState_method call"
| "state_method call ServicesCreatedState = ServicesCreatedState_method call"
| "state_method call CommunicationInitializingState = CommunicationInitializingState_method call"
| "state_method call CommunicationInitializedState = CommunicationInitializedState_method call"
| "state_method call ReadyToRunState = ReadyToRunState_method call"
| "state_method call RunningState = RunningState_method call"
| "state_method call PausedState = PausedState_method call"
| "state_method call StoppingState = StoppingState_method call"
| "state_method call StoppedState = StoppedState_method call"
| "state_method call ShuttingDownState = ShuttingDownState_method call"
| "state_method call ShutdownState = ShutdownState_method call"
| "state_method call AbortingState = AbortingState_method call"
| "state_method call ErrorState = ErrorState_method call"

fun invoke :: "nat \<Rightarrow> virtual_call" where
  "invoke 0 st i reason s = OutOfFuel"
| "invoke (Suc n) st i reason s = state_method (invoke n) st i reason s"

end
