(* ===== verification/LifecycleDispatch.thy ===== *)
theory LifecycleDispatch
  imports LifecycleStates SystemStateTracker
begin

text \<open>
  What a virtual call on the current state does, whatever the state, the method and the
  user's callbacks: it returns within a fixed depth of nested calls, keeps the lifecycle
  consistent, and publishes only participant states along edges that the system state
  tracker accepts as valid.
\<close>

section \<open>Outcomes\<close>

fun outcome_sat :: "('s \<Rightarrow> bool) \<Rightarrow> 's outcome \<Rightarrow> bool" where
  "outcome_sat P (Done s) = P s"
| "outcome_sat P (Raised e s) = (e = SilKitError \<and> P s)"
| "outcome_sat P OutOfFuel = False"

lemma outcome_sat_bind:
  "outcome_sat Q out \<Longrightarrow> (\<And>s. Q s \<Longrightarrow> P s) \<Longrightarrow> (\<And>s. Q s \<Longrightarrow> outcome_sat P (k s)) \<Longrightarrow>
    outcome_sat P (bind_outcome out k)"
  by (cases out) auto

lemma outcome_sat_mono: "outcome_sat Q out \<Longrightarrow> (\<And>s. Q s \<Longrightarrow> P s) \<Longrightarrow> outcome_sat P out"
  by (cases out) auto

section \<open>Edges of the published participant state\<close>

text \<open>
  The transitions a participant may publish: the ones the tracker's table accepts, except
  that nothing leaves \<open>Shutdown\<close>, no state is published twice in a row, and a
  participant that is shutting down is not aborted any more.
\<close>

definition lifecycle_edge :: "participant_state \<Rightarrow> participant_state \<Rightarrow> bool" where
  "lifecycle_edge p q \<longleftrightarrow>
     ValidateParticipantStateUpdate p q = Inr True \<and> p \<noteq> PS_Shutdown \<and> p \<noteq> q \<and>
     \<not> (p = PS_ShuttingDown \<and> q = PS_Aborting)"

fun lifecycle_path :: "participant_state \<Rightarrow> participant_state list \<Rightarrow> bool" where
  "lifecycle_path p [] = True"
| "lifecycle_path p (q # qs) = (lifecycle_edge p q \<and> lifecycle_path q qs)"

lemma lifecycle_path_append:
  "lifecycle_path p (xs @ ys) \<longleftrightarrow> lifecycle_path p xs \<and> lifecycle_path (last (p # xs)) ys"
  by (induction p xs rule: lifecycle_path.induct) auto

text \<open>The states that the status messages among the posted tasks announce.\<close>

fun sent_states :: "io_task list \<Rightarrow> participant_state list" where
  "sent_states [] = []"
| "sent_states (T_SendStatus st # ts) = status_state st # sent_states ts"
| "sent_states (_ # ts) = sent_states ts"

lemma sent_states_append [simp]: "sent_states (xs @ ys) = sent_states xs @ sent_states ys"
  by (induction xs rule: sent_states.induct) auto

section \<open>Consistency and the effect of a call\<close>

definition consistent :: "lifecycle \<Rightarrow> bool" where
  "consistent s \<longleftrightarrow>
     State s = GetParticipantState (currentState s) \<and>
     (currentState s = AbortingState \<longrightarrow> lastBeforeAbortingState s \<noteq> None)"

definition same_configuration :: "lifecycle \<Rightarrow> lifecycle \<Rightarrow> bool" where
  "same_configuration s s' \<longleftrightarrow>
     ownName s' = ownName s \<and> operationMode s' = operationMode s \<and>
     isLifecycleStarted s' = isLifecycleStarted s \<and> timeSyncActive s' = timeSyncActive s \<and>
     finalState s' = finalState s \<and> participantReplies s' = participantReplies s \<and>
     stopRequested s' = stopRequested s \<and> pauseRequested s' = pauseRequested s"

definition call_post :: "lifecycle \<Rightarrow> lifecycle \<Rightarrow> bool" where
  "call_post s s' \<longleftrightarrow>
     consistent s' \<and> same_configuration s s' \<and>
     (\<exists>ps ts es. published s' = published s @ ps \<and> lifecycle_path (State s) ps \<and>
        State s' = last (State s # ps) \<and>
        ioQueue s' = ioQueue s @ ts \<and> sent_states ts = ps \<and> effects s' = effects s @ es)"

lemma call_post_consistent: "call_post s s' \<Longrightarrow> consistent s'"
  by (simp add: call_post_def)

lemma call_post_trans [trans]:
  assumes "call_post s s'" "call_post s' s''"
  shows "call_post s s''"
proof -
  obtain ps ts es where 1: "published s' = published s @ ps" "lifecycle_path (State s) ps"
    "State s' = last (State s # ps)" "ioQueue s' = ioQueue s @ ts" "sent_states ts = ps"
    "effects s' = effects s @ es"
    using assms(1) by (auto simp: call_post_def)
  obtain qs us fs where 2: "published s'' = published s' @ qs" "lifecycle_path (State s') qs"
    "State s'' = last (State s' # qs)" "ioQueue s'' = ioQueue s' @ us" "sent_states us = qs"
    "effects s'' = effects s' @ fs"
    using assms(2) by (auto simp: call_post_def)
  have "published s'' = published s @ (ps @ qs) \<and> lifecycle_path (State s) (ps @ qs) \<and>
        State s'' = last (State s # ps @ qs) \<and>
        ioQueue s'' = ioQueue s @ (ts @ us) \<and> sent_states (ts @ us) = ps @ qs \<and>
        effects s'' = effects s @ (es @ fs)"
    using 1 2 by (auto simp: lifecycle_path_append)
  moreover have "same_configuration s s''"
    using assms by (simp add: call_post_def same_configuration_def)
  ultimately show ?thesis
    using assms(2) by (auto simp: call_post_def)
qed

lemma call_post_quiet:
  assumes "consistent s" "status s' = status s" "currentState s' = currentState s"
    "lastBeforeAbortingState s' = lastBeforeAbortingState s" "same_configuration s s'"
    "published s' = published s" "ioQueue s' = ioQueue s @ ts" "sent_states ts = []"
    "effects s' = effects s @ es"
  shows "call_post s s'"
proof -
  have "published s' = published s @ [] \<and> lifecycle_path (State s) [] \<and>
        State s' = last (State s # []) \<and>
        ioQueue s' = ioQueue s @ ts \<and> sent_states ts = [] \<and> effects s' = effects s @ es"
    using assms by (simp add: State_def)
  moreover have "consistent s'"
    using assms by (simp add: consistent_def State_def)
  ultimately show ?thesis
    using assms(5) unfolding call_post_def by blast
qed

lemma call_post_refl [simp]: "consistent s \<Longrightarrow> call_post s s"
  by (rule call_post_quiet [where ts = "[]" and es = "[]"]) (simp_all add: same_configuration_def)

lemmas quiet_defs = same_configuration_def set_executing_def request_abort_def post_def emit_def

lemma quiet_steps:
  assumes "consistent s"
  shows "call_post s (set_executing this b s)"
    and "call_post s (request_abort this s)"
    and "call_post s (post (T_CallAfterAllParticipantsReplied c) s)"
    and "call_post s (emit e s)"
    and "call_post s (s\<lparr>abortRequested := f\<rparr>)"
    and "call_post s (s\<lparr>commReadyHandlerInvoked := b1, commReadyHandlerCompleted := b2\<rparr>)"
    and "call_post s (s\<lparr>asyncSubscriptionsCompletionHandlers := hs\<rparr>)"
  by (rule call_post_quiet [OF assms, where ts = "[]" and es = "[]"]
      call_post_quiet [OF assms, where ts = "[T_CallAfterAllParticipantsReplied c]" and es = "[]"]
      call_post_quiet [OF assms, where ts = "[]" and es = "[e]"], simp_all add: quiet_defs)+

lemma SetState_simps [simp]:
  "currentState (SetState new reason s) = new"
  "State (SetState new reason s) = GetParticipantState new"
  "abortRequested (SetState new reason s) = abortRequested s"
  "handlerExecuting (SetState new reason s) = handlerExecuting s"
  by (simp_all add: SetState_def UpdateParticipantState_def UpdateLifecycleState_def
      ChangeParticipantState_def post_def State_def Let_def)

lemma SetState_last:
  "lastBeforeAbortingState (SetState AbortingState reason s) = Some (currentState s)"
  by (simp add: SetState_def UpdateParticipantState_def UpdateLifecycleState_def
      ChangeParticipantState_def post_def State_def Let_def)

lemma SetState_post:
  assumes "consistent s" "lifecycle_edge (State s) (GetParticipantState new)"
  shows "call_post s (SetState new reason s)"
proof -
  let ?s' = "SetState new reason s" and ?p = "GetParticipantState new"
  have "\<exists>st. status_state st = ?p \<and> ioQueue ?s' = ioQueue s @ [T_SendStatus st]"
    by (simp add: SetState_def UpdateParticipantState_def UpdateLifecycleState_def
        ChangeParticipantState_def post_def Let_def)
  then obtain st where "status_state st = ?p" "ioQueue ?s' = ioQueue s @ [T_SendStatus st]" by blast
  moreover have "published ?s' = published s @ [?p]" "effects ?s' = effects s @ []"
    "same_configuration s ?s'"
    by (simp_all add: SetState_def UpdateParticipantState_def UpdateLifecycleState_def
        ChangeParticipantState_def post_def Let_def same_configuration_def)
  moreover have "consistent ?s'"
    by (cases "new = AbortingState") (simp_all add: consistent_def SetState_last)
  moreover have "lifecycle_path (State s) [?p]" "State ?s' = last (State s # [?p])"
    using assms(2) by simp_all
  ultimately show ?thesis
    unfolding call_post_def by (metis sent_states.simps(1,2))
qed

lemma SetStateAndForwardIntent_eq:
  "SetStateAndForwardIntent call new i reason s = call new i reason (SetState new reason s)"
proof -
  have "currentState (UpdateParticipantState reason (UpdateLifecycleState new s)) = new"
    using SetState_simps(1) [of new reason s] by (simp add: SetState_def)
  then show ?thesis
    by (simp add: SetStateAndForwardIntent_def SetState_def Let_def)
qed

section \<open>Depth of nested calls\<close>

text \<open>
  A call either changes to a state of a higher rank or calls a method of a lower rank on
  the same state, so the depth of nested calls is bounded. The rank of \<open>Error\<close> as a method
  is the lowest: it is the last resort of an invalid transition.
\<close>

fun state_rank :: "lc_state \<Rightarrow> nat" where
  "state_rank InvalidState = 0"
| "state_rank ServicesCreatedState = 1"
| "state_rank CommunicationInitializingState = 2"
| "state_rank CommunicationInitializedState = 3"
| "state_rank ReadyToRunState = 4"
| "state_rank RunningState = 5"
| "state_rank PausedState = 6"
| "state_rank StoppingState = 7"
| "state_rank StoppedState = 8"
| "state_rank ErrorState = 9"
| "state_rank ShuttingDownState = 10"
| "state_rank AbortingState = 11"
| "state_rank ShutdownState = 12"

fun intent_rank :: "intent \<Rightarrow> nat" where
  "intent_rank I_Error = 0"
| "intent_rank I_ResolveAbortSimulation = 2"
| "intent_rank I_AbortSimulation = 3"
| "intent_rank I_StopSimulation = 4"
| "intent_rank I_ReadyToRun = 4"
| "intent_rank I_CommunicationInitialized = 5"
| "intent_rank I_CommunicationInitializing = 6"
| "intent_rank I_ServicesCreated = 7"
| "intent_rank i = 1"

definition depth :: "lc_state \<Rightarrow> intent \<Rightarrow> nat" where
  "depth st i = 8 * (12 - state_rank st) + intent_rank i"

lemma depth_bound: "depth st i < 104"
proof -
  have "intent_rank i \<le> 7" by (cases i) auto
  then show ?thesis by (simp add: depth_def)
qed

definition good_below :: "nat \<Rightarrow> virtual_call \<Rightarrow> bool" where
  "good_below d call \<longleftrightarrow>
     (\<forall>st i reason s. depth st i < d \<longrightarrow> consistent s \<longrightarrow> currentState s = st \<longrightarrow>
        outcome_sat (call_post s) (call st i reason s))"

lemma call_after:
  assumes "good_below d call" "depth st i < d" "call_post s s'" "currentState s' = st"
  shows "outcome_sat (call_post s) (call st i reason s')"
proof (rule outcome_sat_mono)
  show "outcome_sat (call_post s') (call st i reason s')"
    using assms by (simp add: good_below_def call_post_consistent)
  show "\<And>t. call_post s' t \<Longrightarrow> call_post s t" by (rule call_post_trans [OF assms(3)])
qed

lemma State_consistent: "consistent s \<Longrightarrow> State s = GetParticipantState (currentState s)"
  by (simp add: consistent_def)

lemma SetState_after:
  assumes "call_post s s'"
    "lifecycle_edge (GetParticipantState (currentState s')) (GetParticipantState new)"
  shows "call_post s (SetState new reason s')"
proof -
  have "consistent s'" using assms(1) by (rule call_post_consistent)
  then have "call_post s' (SetState new reason s')"
    using assms(2) by (intro SetState_post) (simp_all add: State_consistent)
  then show ?thesis by (rule call_post_trans [OF assms(1)])
qed

lemma forward_after:
  assumes "good_below d call" "depth new i < d" "call_post s s'"
    "lifecycle_edge (GetParticipantState (currentState s')) (GetParticipantState new)"
  shows "outcome_sat (call_post s) (SetStateAndForwardIntent call new i reason s')"
  unfolding SetStateAndForwardIntent_eq
  by (rule call_after [OF assms(1,2) SetState_after [OF assms(3,4)]]) simp

lemma quiet_after:
  assumes "call_post s0 s"
  shows "call_post s0 (set_executing this b s)"
    and "call_post s0 (request_abort this s)"
    and "call_post s0 (post (T_CallAfterAllParticipantsReplied c) s)"
    and "call_post s0 (emit e s)"
    and "call_post s0 (s\<lparr>abortRequested := f\<rparr>)"
    and "call_post s0 (s\<lparr>commReadyHandlerInvoked := b1, commReadyHandlerCompleted := b2\<rparr>)"
    and "call_post s0 (s\<lparr>asyncSubscriptionsCompletionHandlers := hs\<rparr>)"
  by (simp_all add: call_post_trans [OF assms] quiet_steps [OF call_post_consistent [OF assms]])

lemma abort_after:
  assumes "good_below d call" "depth AbortingState I_ResolveAbortSimulation < d" "call_post s s'"
    "lifecycle_edge (GetParticipantState (currentState s')) PS_Aborting"
  shows "outcome_sat (call_post s) (ProcessAbortCommand call this reason s')"
proof -
  have "call_post s (s'\<lparr>abortRequested := (abortRequested s')(this := False)\<rparr>)"
    by (rule quiet_after [OF assms(3)])
  then show ?thesis
    unfolding ProcessAbortCommand_def using assms
    by (intro forward_after [where d = d]) simp_all
qed

section \<open>User callbacks\<close>

text \<open>
  While a user callback executes, an abort command is either remembered by the state, which
  processes it when the callback has returned, or ignored.
\<close>

definition callback_state :: "lifecycle \<Rightarrow> bool" where
  "callback_state s \<longleftrightarrow>
     (currentState s \<in> {CommunicationInitializedState, ReadyToRunState} \<and>
        handlerExecuting s (currentState s)) \<or>
     currentState s \<in> {StoppingState, ShuttingDownState, AbortingState}"

lemma abort_in_callback:
  assumes "callback_state s" "1 < n"
  shows "manager_AbortSimulation (invoke n) reason s =
    Done (if currentState s \<in> {ShuttingDownState, AbortingState} then s
          else request_abort (currentState s) s)"
proof -
  obtain m where n: "n = Suc (Suc m)" using assms(2) by (cases n; cases "n - 1") auto
  show ?thesis
    using assms(1) unfolding n callback_state_def manager_AbortSimulation_def manager_call_def
    by (cases "currentState s") simp_all
qed

lemma handle_callback_Done:
  assumes "callback_state s" "1 < n" "call_post s0 s"
  obtains s' where "snd (handle_callback (invoke n) handler invoked s) = Done s'"
    "call_post s0 s'" "currentState s' = currentState s"
proof (cases handler)
  case None
  then show thesis using that [of s] assms by (simp add: handle_callback_def)
next
  case (Some h)
  let ?s = "emit invoked s"
  have 1: "call_post s0 ?s" "currentState ?s = currentState s" "callback_state ?s"
    using assms by (simp_all add: quiet_after) (simp_all add: emit_def callback_state_def)
  show thesis
  proof (cases "handler_abort h \<and> currentState s \<notin> {ShuttingDownState, AbortingState}")
    case True
    have "call_post s0 (request_abort (currentState s) ?s)"
      by (rule quiet_after [OF 1(1)])
    with True Some 1 assms(2) that [of "request_abort (currentState s) ?s"] show thesis
      by (simp add: handle_callback_def run_handler_def abort_in_callback request_abort_def)
  next
    case False
    with Some 1 assms(2) that [of ?s] show thesis
      by (auto simp: handle_callback_def run_handler_def abort_in_callback)
  qed
qed

section \<open>Every method of every state\<close>

lemma State_method_ok:
  assumes "good_below d call" "intent_rank i \<noteq> 0 \<Longrightarrow> depth this I_Error < d"
    "consistent s" "currentState s = this" "this \<notin> {ErrorState, ShutdownState}"
    "i \<noteq> I_AbortSimulation" "i \<noteq> I_ResolveAbortSimulation"
  shows "outcome_sat (call_post s) (State_method call this i reason s)"
proof -
  have edge: "lifecycle_edge (GetParticipantState this) PS_Error"
    using assms(5) by (cases this) (simp_all add: lifecycle_edge_def)
  note rules = call_after [OF assms(1)] SetState_after [OF call_post_refl]
  show ?thesis
    using assms(2-4,6,7) edge
    by (cases i) (simp_all add: InvalidStateTransition_def manager_call_def rules)
qed

lemma quiet_currentState [simp]:
  "currentState (emit e s) = currentState s"
  "currentState (post t s) = currentState s"
  "currentState (request_abort this s) = currentState s"
  "currentState (set_executing this b s) = currentState s"
  "handlerExecuting (emit e s) = handlerExecuting s"
  "handlerExecuting (request_abort this s) = handlerExecuting s"
  by (simp_all add: quiet_defs)

lemmas method_defs = AddAsyncSubscriptionsCompletionHandler_def InvalidStateTransition_def manager_call_def depth_def lifecycle_edge_def
  StartTime_def StopTime_def

lemma InvalidState_ok:
  assumes "good_below (depth InvalidState i) call" "consistent s" "currentState s = InvalidState"
  shows "outcome_sat (call_post s) (InvalidState_method call i reason s)"
proof -
  note rules = call_after [OF assms(1)] forward_after [OF assms(1)] abort_after [OF assms(1)]
    State_method_ok [OF assms(1)]
  show ?thesis using assms(2,3)
    by (cases i) (simp_all add: rules SetState_after quiet_after method_defs)
qed

lemma ServicesCreatedState_ok:
  assumes "good_below (depth ServicesCreatedState i) call" "consistent s" "currentState s = ServicesCreatedState"
  shows "outcome_sat (call_post s) (ServicesCreatedState_method call i reason s)"
proof -
  note rules = call_after [OF assms(1)] forward_after [OF assms(1)] abort_after [OF assms(1)]
    State_method_ok [OF assms(1)]
  show ?thesis using assms(2,3)
    by (cases i) (simp_all add: rules SetState_after quiet_after method_defs)
qed

lemma CommunicationInitializingState_ok:
  assumes "good_below (depth CommunicationInitializingState i) call" "consistent s" "currentState s = CommunicationInitializingState"
  shows "outcome_sat (call_post s) (CommunicationInitializingState_method call i reason s)"
proof -
  note rules = call_after [OF assms(1)] forward_after [OF assms(1)] abort_after [OF assms(1)]
    State_method_ok [OF assms(1)]
  show ?thesis using assms(2,3)
    by (cases i) (simp_all add: rules SetState_after quiet_after method_defs)
qed

lemma RunningState_ok:
  assumes "good_below (depth RunningState i) call" "consistent s" "currentState s = RunningState"
  shows "outcome_sat (call_post s) (RunningState_method call i reason s)"
proof -
  note rules = call_after [OF assms(1)] forward_after [OF assms(1)] abort_after [OF assms(1)]
    State_method_ok [OF assms(1)]
  show ?thesis using assms(2,3)
    by (cases i) (simp_all add: rules SetState_after quiet_after method_defs)
qed

lemma PausedState_ok:
  assumes "good_below (depth PausedState i) call" "consistent s" "currentState s = PausedState"
  shows "outcome_sat (call_post s) (PausedState_method call i reason s)"
proof -
  note rules = call_after [OF assms(1)] forward_after [OF assms(1)] abort_after [OF assms(1)]
    State_method_ok [OF assms(1)]
  show ?thesis using assms(2,3)
    by (cases i) (simp_all add: rules SetState_after quiet_after method_defs)
qed

lemma StoppedState_ok:
  assumes "good_below (depth StoppedState i) call" "consistent s" "currentState s = StoppedState"
  shows "outcome_sat (call_post s) (StoppedState_method call i reason s)"
proof -
  note rules = call_after [OF assms(1)] forward_after [OF assms(1)] abort_after [OF assms(1)]
    State_method_ok [OF assms(1)]
  show ?thesis using assms(2,3)
    by (cases i) (simp_all add: rules SetState_after quiet_after method_defs)
qed

lemma ShutdownState_ok:
  assumes "good_below (depth ShutdownState i) call" "consistent s" "currentState s = ShutdownState"
  shows "outcome_sat (call_post s) (ShutdownState_method call i reason s)"
proof -
  note rules = call_after [OF assms(1)] forward_after [OF assms(1)] abort_after [OF assms(1)]
    State_method_ok [OF assms(1)]
  show ?thesis using assms(2,3)
    by (cases i) (simp_all add: rules SetState_after quiet_after method_defs)
qed

lemma ErrorState_ok:
  assumes "good_below (depth ErrorState i) call" "consistent s" "currentState s = ErrorState"
  shows "outcome_sat (call_post s) (ErrorState_method call i reason s)"
proof -
  note rules = call_after [OF assms(1)] forward_after [OF assms(1)] abort_after [OF assms(1)]
    State_method_ok [OF assms(1)]
  show ?thesis using assms(2,3)
    by (cases i) (simp_all add: rules SetState_after quiet_after method_defs)
qed


lemma handler_Done:
  assumes "handle_callback (invoke n) handler invoked s = (b, out)" "callback_state s" "1 < n"
    "call_post s0 s"
  shows "\<exists>s'. out = Done s' \<and> call_post s0 s' \<and> currentState s' = currentState s"
  using handle_callback_Done [OF assms(2-4)] assms(1) by (metis snd_conv)

lemma invoke_fuel:
  assumes "depth st i \<le> n" "8 < depth st i"
  shows "1 < n"
  using assms by simp

lemma StoppingState_ok:
  assumes "good_below (depth StoppingState i) (invoke n)" "depth StoppingState i \<le> n"
    "consistent s" "currentState s = StoppingState"
  shows "outcome_sat (call_post s) (StoppingState_method (invoke n) i reason s)"
proof -
  note rules = call_after [OF assms(1)] forward_after [OF assms(1)] abort_after [OF assms(1)]
    State_method_ok [OF assms(1)]
  have n: "1 < n" using assms(2) by (simp add: depth_def)
  have "outcome_sat (call_post s) (StoppingState_method (invoke n) I_StopSimulation reason s)"
    if "i = I_StopSimulation"
  proof -
    obtain b out where H: "HandleStop (invoke n) s = (b, out)" by (cases "HandleStop (invoke n) s")
    then have C: "handle_callback (invoke n) (stopHandler s) E_StopHandler s = (b, out)"
      by (simp add: HandleStop_def)
    obtain s' where "out = Done s'" "call_post s s'" "currentState s' = StoppingState"
      using handler_Done [OF C _ n call_post_refl [OF assms(3)]] assms(4)
      by (auto simp: callback_state_def)
    then show ?thesis
      using H that by (simp add: ProcessAbortCommandInCallback_def rules SetState_after method_defs)
  qed
  then show ?thesis using assms(3,4)
    by (cases i) (simp_all add: rules SetState_after quiet_after method_defs)
qed

lemma ShuttingDownState_ok:
  assumes "good_below (depth ShuttingDownState i) (invoke n)" "depth ShuttingDownState i \<le> n"
    "consistent s" "currentState s = ShuttingDownState"
  shows "outcome_sat (call_post s) (ShuttingDownState_method (invoke n) i reason s)"
proof -
  note rules = call_after [OF assms(1)] forward_after [OF assms(1)] State_method_ok [OF assms(1)]
  have n: "1 < n" using assms(2) by (simp add: depth_def)
  have "outcome_sat (call_post s) (ShuttingDownState_method (invoke n) I_ShutdownParticipant reason s)"
    if "i = I_ShutdownParticipant"
  proof -
    obtain b out where H: "HandleShutdown (invoke n) s = (b, out)"
      by (cases "HandleShutdown (invoke n) s")
    then have C: "handle_callback (invoke n) (shutdownHandler s) E_ShutdownHandler s = (b, out)"
      by (simp add: HandleShutdown_def)
    obtain s' where "out = Done s'" "call_post s s'" "currentState s' = ShuttingDownState"
      using handler_Done [OF C _ n call_post_refl [OF assms(3)]] assms(4)
      by (auto simp: callback_state_def)
    then show ?thesis using H that by (simp add: rules method_defs)
  qed
  then show ?thesis using assms(3,4)
    by (cases i) (simp_all add: rules SetState_after quiet_after method_defs)
qed

lemma AbortingState_ok:
  assumes "good_below (depth AbortingState i) (invoke n)" "depth AbortingState i \<le> n"
    "consistent s" "currentState s = AbortingState"
  shows "outcome_sat (call_post s) (AbortingState_method (invoke n) i reason s)"
proof -
  note rules = call_after [OF assms(1)] forward_after [OF assms(1)] State_method_ok [OF assms(1)]
  have n: "1 < n" using assms(2) by (simp add: depth_def)
  have "outcome_sat (call_post s) (AbortingState_method (invoke n) I_ResolveAbortSimulation reason s)"
    if "i = I_ResolveAbortSimulation"
  proof -
    obtain before where B: "lastBeforeAbortingState s = Some before"
      using assms(3,4) by (auto simp: consistent_def)
    obtain b out where H: "HandleAbort (invoke n) s = (b, out)" by (cases "HandleAbort (invoke n) s")
    then have C: "handle_callback (invoke n) (abortHandler s)
        (E_AbortHandler (GetParticipantState before)) s = (b, out)"
      using B by (simp add: HandleAbort_def)
    obtain s' where "out = Done s'" "call_post s s'" "currentState s' = AbortingState"
      using handler_Done [OF C _ n call_post_refl [OF assms(3)]] assms(4)
      by (auto simp: callback_state_def)
    then show ?thesis using H that by (simp add: rules method_defs)
  qed
  then show ?thesis using assms(3,4)
    by (cases i) (simp_all add: rules SetState_after quiet_after method_defs)
qed

lemma ReadyToRunState_ok:
  assumes "good_below (depth ReadyToRunState i) (invoke n)" "depth ReadyToRunState i \<le> n"
    "consistent s" "currentState s = ReadyToRunState"
  shows "outcome_sat (call_post s) (ReadyToRunState_method (invoke n) i reason s)"
proof -
  note rules = call_after [OF assms(1)] forward_after [OF assms(1)] abort_after [OF assms(1)]
    State_method_ok [OF assms(1)]
  have n: "1 < n" using assms(2) by (simp add: depth_def)
  let ?s = "set_executing ReadyToRunState True s"
  have "outcome_sat (call_post s) (ReadyToRunState_method (invoke n) I_ReadyToRun reason s)"
    if "i = I_ReadyToRun"
  proof -
    obtain b out where H: "HandleStarting (invoke n) ?s = (b, out)"
      by (cases "HandleStarting (invoke n) ?s")
    then have C: "handle_callback (invoke n) (startingHandler ?s) E_StartingHandler ?s = (b, out)"
      by (simp add: HandleStarting_def)
    have "callback_state ?s" using assms(4) by (simp add: callback_state_def set_executing_def)
    from handler_Done [OF C this n quiet_steps(1) [OF assms(3)]] assms(4)
    obtain s' where S: "out = Done s'" "call_post s s'" "currentState s' = ReadyToRunState"
      by auto
    show ?thesis using H that S assms(3,4)
      by (auto simp: ProcessAbortCommandInCallback_def rules SetState_after method_defs quiet_after
          intro!: outcome_sat_bind [where Q = "call_post s"])
  qed
  then show ?thesis using assms(3,4)
    by (cases i) (simp_all add: rules SetState_after quiet_after method_defs)
qed

lemma HandleCommunicationReady_Done:
  assumes "HandleCommunicationReady (invoke n) s = (b, out)" "callback_state s" "1 < n"
    "call_post s0 s"
  shows "\<exists>s'. out = Done s' \<and> call_post s0 s' \<and> currentState s' = currentState s"
proof (cases "commReadyHandler s")
  case None
  then show ?thesis using assms by (auto simp: HandleCommunicationReady_def)
next
  case (Some h)
  let ?s = "if commReadyHandlerIsAsync s
    then s\<lparr>commReadyHandlerInvoked := True, commReadyHandlerCompleted := False\<rparr> else s"
  have pre: "call_post s0 ?s" "callback_state ?s" "currentState ?s = currentState s"
    using assms(2,4) by (simp_all add: quiet_after callback_state_def)
  obtain s' where S: "snd (handle_callback (invoke n) (Some h) E_CommunicationReadyHandler ?s) = Done s'"
    "call_post s0 s'" "currentState s' = currentState ?s"
    by (rule handle_callback_Done [OF pre(2) assms(3) pre(1)])
  then have run: "run_handler (invoke n) h (emit E_CommunicationReadyHandler ?s) = Done s'"
    by (simp add: handle_callback_def)
  show ?thesis
  proof (cases "commReadyHandlerIsAsync s \<and> commReadyHandlerInvoked s")
    case True
    then show ?thesis using assms Some by (auto simp: HandleCommunicationReady_def)
  next
    case False
    then have "out = Done s'"
      using run assms(1) Some by (auto simp: HandleCommunicationReady_def split: if_splits)
    then show ?thesis using S pre(3) by auto
  qed
qed

lemma CommunicationInitializedState_ok:
  assumes "good_below (depth CommunicationInitializedState i) (invoke n)"
    "depth CommunicationInitializedState i \<le> n"
    "consistent s" "currentState s = CommunicationInitializedState"
  shows "outcome_sat (call_post s) (CommunicationInitializedState_method (invoke n) i reason s)"
proof -
  note rules = call_after [OF assms(1)] forward_after [OF assms(1)] abort_after [OF assms(1)]
    State_method_ok [OF assms(1)]
  have n: "1 < n" using assms(2) by (simp add: depth_def)
  let ?s = "set_executing CommunicationInitializedState True s"
  have "outcome_sat (call_post s)
      (CommunicationInitializedState_method (invoke n) I_CommunicationInitialized reason s)"
    if "i = I_CommunicationInitialized"
  proof -
    obtain r out where H: "HandleCommunicationReady (invoke n) ?s = (r, out)"
      by (cases "HandleCommunicationReady (invoke n) ?s")
    have "callback_state ?s" using assms(4) by (simp add: callback_state_def set_executing_def)
    from HandleCommunicationReady_Done [OF H this n quiet_steps(1) [OF assms(3)]] assms(4)
    obtain s' where S: "out = Done s'" "call_post s s'"
      "currentState s' = CommunicationInitializedState" by auto
    show ?thesis using H that S assms(3,4)
      by (auto simp: ProcessAbortCommandInCallback_def rules SetState_after method_defs quiet_after
          intro!: outcome_sat_bind [where Q = "call_post s"] split: callback_result.split)
  qed
  then show ?thesis using assms(3,4)
    by (cases i) (simp_all add: rules SetState_after quiet_after method_defs)
qed

lemma good_below_mono: "good_below d call \<Longrightarrow> c \<le> d \<Longrightarrow> good_below c call"
  by (auto simp: good_below_def)

lemma state_method_ok:
  assumes "good_below (depth st i) (invoke n)" "depth st i \<le> n" "consistent s" "currentState s = st"
  shows "outcome_sat (call_post s) (state_method (invoke n) st i reason s)"
  using assms
  by (cases st)
    (simp_all add: InvalidState_ok ServicesCreatedState_ok CommunicationInitializingState_ok
      CommunicationInitializedState_ok ReadyToRunState_ok RunningState_ok PausedState_ok
      StoppingState_ok StoppedState_ok ShuttingDownState_ok ShutdownState_ok AbortingState_ok
      ErrorState_ok)

lemma invoke_good: "good_below n (invoke n)"
proof (induction n)
  case 0
  show ?case by (simp add: good_below_def)
next
  case (Suc n)
  show ?case
    unfolding good_below_def
  proof (intro allI impI)
    fix st i reason s
    assume "depth st i < Suc n" "consistent s" "currentState s = st"
    then show "outcome_sat (call_post s) (invoke (Suc n) st i reason s)"
      using good_below_mono [OF Suc.IH] by (simp add: state_method_ok)
  qed
qed

section \<open>The amount of fuel does not matter\<close>

text \<open>\<open>call_fuel\<close> exceeds every depth, so a call on the current state never runs out of it.\<close>

definition call_fuel :: nat where
  "call_fuel = 104"

definition lc_call :: virtual_call where
  "lc_call = invoke call_fuel"

lemma lc_call_ok:
  "consistent s \<Longrightarrow> currentState s = st \<Longrightarrow> outcome_sat (call_post s) (lc_call st i reason s)"
  using invoke_good [of call_fuel] depth_bound [of st i]
  by (simp add: good_below_def lc_call_def call_fuel_def)

definition fuel_le :: "'s outcome \<Rightarrow> 's outcome \<Rightarrow> bool" where
  "fuel_le out out' \<longleftrightarrow> out = OutOfFuel \<or> out = out'"

lemma fuel_le_refl [simp]: "fuel_le out out"
  by (simp add: fuel_le_def)

lemma fuel_le_bind:
  assumes "fuel_le out out'" "\<And>s. fuel_le (k s) (k' s)"
  shows "fuel_le (bind_outcome out k) (bind_outcome out' k')"
proof (cases out)
  case (Done s)
  moreover have "out' = Done s" using assms(1) Done by (auto simp: fuel_le_def)
  ultimately show ?thesis using assms(2) [of s] by (simp add: fuel_le_def)
qed (use assms in \<open>auto simp: fuel_le_def\<close>)

definition call_le :: "virtual_call \<Rightarrow> virtual_call \<Rightarrow> bool" where
  "call_le c c' \<longleftrightarrow> (\<forall>st i reason s. fuel_le (c st i reason s) (c' st i reason s))"

lemma call_leD: "call_le c c' \<Longrightarrow> fuel_le (c st i reason s) (c' st i reason s)"
  by (simp add: call_le_def)

lemma handle_callback_le:
  assumes "call_le c c'"
  shows "fst (handle_callback c h e s) = fst (handle_callback c' h e s)"
    "fuel_le (snd (handle_callback c h e s)) (snd (handle_callback c' h e s))"
  using assms
  by (auto simp: handle_callback_def run_handler_def manager_AbortSimulation_def manager_call_def
      call_leD split: option.split)

lemma handler_le:
  assumes "call_le c c'"
  shows "fst (HandleStarting c s) = fst (HandleStarting c' s)"
    "fuel_le (snd (HandleStarting c s)) (snd (HandleStarting c' s))"
    "fst (HandleStop c s) = fst (HandleStop c' s)"
    "fuel_le (snd (HandleStop c s)) (snd (HandleStop c' s))"
    "fst (HandleShutdown c s) = fst (HandleShutdown c' s)"
    "fuel_le (snd (HandleShutdown c s)) (snd (HandleShutdown c' s))"
    "fst (HandleAbort c s) = fst (HandleAbort c' s)"
    "fuel_le (snd (HandleAbort c s)) (snd (HandleAbort c' s))"
    "fst (HandleCommunicationReady c s) = fst (HandleCommunicationReady c' s)"
    "fuel_le (snd (HandleCommunicationReady c s)) (snd (HandleCommunicationReady c' s))"
  using handle_callback_le [OF assms] assms
  by (auto simp: HandleStarting_def HandleStop_def HandleShutdown_def HandleAbort_def
      HandleCommunicationReady_def run_handler_def manager_AbortSimulation_def manager_call_def
      call_leD split: option.split)

lemma state_method_le:
  assumes "call_le c c'"
  shows "fuel_le (state_method c st i reason s) (state_method c' st i reason s)"
proof -
  note hs = handler_le [OF assms]
  note le = call_leD [OF assms] InvalidStateTransition_def manager_call_def
    SetStateAndForwardIntent_eq ProcessAbortCommand_def ProcessAbortCommandInCallback_def
    AddAsyncSubscriptionsCompletionHandler_def
  show ?thesis
    using hs [of s]
    by (cases st; cases i)
      (auto simp: le hs case_prod_unfold Let_def intro!: fuel_le_bind split: callback_result.split)
qed

lemma invoke_le: "call_le (invoke n) (invoke (n + k))"
proof (induction n)
  case 0
  show ?case by (simp add: call_le_def fuel_le_def)
next
  case (Suc n)
  then show ?case by (simp add: call_le_def state_method_le)
qed

lemma lc_call_unfold:
  assumes "consistent s" "currentState s = st"
  shows "lc_call st i reason s = state_method lc_call st i reason s"
proof -
  have "fuel_le (lc_call st i reason s) (invoke (call_fuel + 1) st i reason s)"
    unfolding lc_call_def using invoke_le by (rule call_leD)
  moreover have "lc_call st i reason s \<noteq> OutOfFuel"
    using lc_call_ok [OF assms, of i reason] by auto
  ultimately show ?thesis by (simp add: fuel_le_def lc_call_def)
qed

section \<open>Aborting\<close>

definition abort_reported :: "lc_state \<Rightarrow> lifecycle \<Rightarrow> lifecycle" where
  "abort_reported before s =
     (case abortHandler s of
        None \<Rightarrow> s
      | Some h \<Rightarrow> emit (E_AbortHandler (GetParticipantState before)) s)"

text \<open>The state that an accepted abort command leads to, from \<open>this\<close>.\<close>

definition abort_result :: "lc_state \<Rightarrow> string \<Rightarrow> lifecycle \<Rightarrow> lifecycle" where
  "abort_result this reason s =
     post (T_CallAfterAllParticipantsReplied (AfterShutdown reason))
       (SetState ShutdownState reason (abort_reported this (SetState AbortingState reason s)))"

lemma edge_to_Aborting:
  "st \<notin> {ShuttingDownState, ShutdownState, AbortingState} \<Longrightarrow>
    lifecycle_edge (GetParticipantState st) PS_Aborting"
  by (cases st) (simp_all add: lifecycle_edge_def)

lemma edge_Aborting_Shutdown: "lifecycle_edge PS_Aborting PS_Shutdown"
  by (simp add: lifecycle_edge_def)

lemma lc_call_shutdown:
  assumes "consistent s" "currentState s = ShutdownState"
  shows "lc_call ShutdownState I_ShutdownParticipant reason s =
    Done (post (T_CallAfterAllParticipantsReplied (AfterShutdown reason)) s)"
  using assms by (simp add: lc_call_unfold)

lemma lc_call_abort_in_aborting:
  assumes "consistent s" "currentState s = AbortingState"
  shows "lc_call AbortingState I_AbortSimulation reason s = Done s"
  using assms by (simp add: lc_call_unfold)

lemma lc_call_resolve_abort:
  assumes "consistent s" "currentState s = AbortingState" "lastBeforeAbortingState s = Some before"
  shows "lc_call AbortingState I_ResolveAbortSimulation reason s =
    Done (post (T_CallAfterAllParticipantsReplied (AfterShutdown reason))
       (SetState ShutdownState reason (abort_reported before s)))"
proof -
  let ?e = "emit (E_AbortHandler (GetParticipantState before)) s"
  have e: "consistent ?e" "currentState ?e = AbortingState"
    using quiet_steps(4) [OF assms(1)] assms(2) call_post_consistent by auto
  have H: "snd (HandleAbort lc_call s) = Done (abort_reported before s)"
    using assms(3) e
    by (auto simp: HandleAbort_def handle_callback_def run_handler_def abort_reported_def
        manager_AbortSimulation_def manager_call_def lc_call_abort_in_aborting split: option.split)
  have r: "consistent (abort_reported before s)"
    "currentState (abort_reported before s) = AbortingState"
    using e assms by (simp_all add: abort_reported_def split: option.split)
  let ?t = "SetState ShutdownState reason (abort_reported before s)"
  have "call_post (abort_reported before s) ?t"
    using SetState_after [OF call_post_refl [OF r(1)]] r(2) edge_Aborting_Shutdown by simp
  then have t: "consistent ?t" by (rule call_post_consistent)
  have "lc_call AbortingState I_ShutdownParticipant reason (abort_reported before s)
    = lc_call ShutdownState I_ShutdownParticipant reason ?t"
    using r by (simp add: lc_call_unfold SetStateAndForwardIntent_eq)
  also have "\<dots> = Done (post (T_CallAfterAllParticipantsReplied (AfterShutdown reason)) ?t)"
    using t by (simp add: lc_call_shutdown)
  finally show ?thesis
    using assms(1,2) H r(2)
    by (simp add: lc_call_unfold [of s] manager_call_def case_prod_unfold Let_def)
qed

lemma forward_abort:
  assumes "consistent s" "currentState s \<notin> {ShuttingDownState, ShutdownState, AbortingState}"
  shows "SetStateAndForwardIntent lc_call AbortingState I_ResolveAbortSimulation reason s =
    Done (abort_result (currentState s) reason s)"
proof -
  let ?s = "SetState AbortingState reason s"
  have "call_post s ?s"
    using SetState_after [OF call_post_refl [OF assms(1)]] edge_to_Aborting [OF assms(2)] by simp
  then have "consistent ?s" by (rule call_post_consistent)
  then show ?thesis
    by (simp add: SetStateAndForwardIntent_eq lc_call_resolve_abort [OF _ _ SetState_last]
        abort_result_def)
qed

text \<open>The abort flag is cleared by all states that have one.\<close>

definition abort_prepared :: "lifecycle \<Rightarrow> lifecycle" where
  "abort_prepared s =
     (if currentState s \<in> {InvalidState, ServicesCreatedState, CommunicationInitializingState}
      then s
      else (if currentState s = RunningState then StopTime s else s)
             \<lparr>abortRequested := (abortRequested s)(currentState s := False)\<rparr>)"

lemma abort_accepted:
  assumes "consistent s"
    "currentState s \<notin> {StoppingState, ShuttingDownState, ShutdownState, AbortingState}"
    "currentState s \<in> {CommunicationInitializedState, ReadyToRunState} \<Longrightarrow>
       \<not> handlerExecuting s (currentState s)"
  shows "\<exists>r. manager_AbortSimulation lc_call reason s =
    Done (abort_result (currentState s) r (abort_prepared s))"
proof -
  let ?clear = "\<lambda>t. t\<lparr>abortRequested := (abortRequested s)(currentState s := False)\<rparr>"
  have c: "consistent (?clear s)" "consistent (StopTime s)" "consistent (?clear (StopTime s))"
    using assms(1) by (simp_all add: StopTime_def emit_def consistent_def State_def)
  let ?t = "if currentState s = RunningState then StopTime s else s"
  have st: "consistent ?t" "currentState ?t = currentState s" using assms(1) c
    by (simp_all add: StopTime_def)
  have prep: "consistent (abort_prepared s)" "currentState (abort_prepared s) = currentState s"
    using assms(1) by (simp_all add: abort_prepared_def StopTime_def emit_def consistent_def State_def)
  have fwd: "SetStateAndForwardIntent lc_call AbortingState I_ResolveAbortSimulation r
      (abort_prepared s) = Done (abort_result (currentState s) r (abort_prepared s))" for r
    using forward_abort [of "abort_prepared s" r] assms(2) prep by simp
  have resolve: "lc_call (currentState s) I_ResolveAbortSimulation r ?t =
      Done (abort_result (currentState s) r (abort_prepared s))" for r
    unfolding lc_call_unfold [OF st]
    using assms(2) fwd [of r]
    by (cases "currentState s")
      (simp_all add: abort_prepared_def ProcessAbortCommand_def StopTime_def emit_def)
  show ?thesis
    unfolding manager_AbortSimulation_def manager_call_def lc_call_unfold [OF assms(1) refl]
    using assms(2,3) resolve
    by (cases "currentState s") auto
qed

lemma abort_result_fields:
  "currentState (abort_result this r s) = ShutdownState"
  "published (abort_result this r s) = published s @ [PS_Aborting, PS_Shutdown]"
  "effects (abort_result this r s) = effects s @
     (if abortHandler s = None then [] else [E_AbortHandler (GetParticipantState this)])"
  "\<exists>ts. ioQueue (abort_result this r s) =
     ioQueue s @ ts @ [T_CallAfterAllParticipantsReplied (AfterShutdown r)] \<and>
     sent_states ts = [PS_Aborting, PS_Shutdown]"
  by (auto simp: abort_result_def abort_reported_def SetState_def UpdateParticipantState_def
      UpdateLifecycleState_def ChangeParticipantState_def post_def emit_def Let_def
      split: option.split)

lemma abort_prepared_fields:
  "published (abort_prepared s) = published s"
  "ioQueue (abort_prepared s) = ioQueue s"
  "abortHandler (abort_prepared s) = abortHandler s"
  "effects (abort_prepared s) =
     effects s @ (if currentState s = RunningState then [E_StopTime] else [])"
  by (auto simp: abort_prepared_def StopTime_def emit_def)

section \<open>Properties\<close>

text \<open>
  Claim C3. A call of any method of the lifecycle's current state terminates, whatever the
  user's callbacks do (throw, or receive an abort command while they run): the nesting of
  virtual calls is bounded, so it never runs out of \<open>call_fuel\<close>. It returns, or
  throws the \<open>SilKitError\<close> of the unimplemented restart; the states it publishes form a
  path of valid transitions from the current one, each of them is sent as a status message
  in the same order, and the state last published is the one the lifecycle is in.
\<close>

theorem lifecycle_call_contract:
  assumes "consistent s"
  shows "\<exists>s' ps ts. (manager_call lc_call i reason s = Done s' \<or>
             manager_call lc_call i reason s = Raised SilKitError s') \<and>
           consistent s' \<and> published s' = published s @ ps \<and>
           lifecycle_path (GetParticipantState (currentState s)) ps \<and>
           GetParticipantState (currentState s') =
             last (GetParticipantState (currentState s) # ps) \<and>
           ioQueue s' = ioQueue s @ ts \<and> sent_states ts = ps"
proof -
  let ?out = "lc_call (currentState s) i reason s"
  have "outcome_sat (call_post s) ?out" using assms by (intro lc_call_ok) simp_all
  then obtain s' where s': "?out = Done s' \<or> ?out = Raised SilKitError s'" "call_post s s'"
    by (cases ?out) auto
  then show ?thesis
    using assms unfolding call_post_def manager_call_def consistent_def by metis
qed

theorem lifecycle_call_contract_witness:
  "\<exists>s' ps ts. (manager_call lc_call I_Initialize [] (init_lifecycle ''P'') = Done s' \<or>
         manager_call lc_call I_Initialize [] (init_lifecycle ''P'') = Raised SilKitError s') \<and>
       consistent s' \<and> published s' = published (init_lifecycle ''P'') @ ps \<and>
       lifecycle_path (GetParticipantState (currentState (init_lifecycle ''P''))) ps \<and>
       GetParticipantState (currentState s') =
         last (GetParticipantState (currentState (init_lifecycle ''P'')) # ps) \<and>
       ioQueue s' = ioQueue (init_lifecycle ''P'') @ ts \<and> sent_states ts = ps"
  by (rule lifecycle_call_contract) (simp add: consistent_def init_lifecycle_def State_def)

text \<open>
  An abort command that reaches a lifecycle in any state but \<open>Stopping\<close>,
  \<open>ShuttingDown\<close>, \<open>Shutdown\<close> and \<open>Aborting\<close>, while no user callback executes,
  ends in \<open>Shutdown\<close>: it stops the time if the simulation was running, publishes
  \<open>Aborting\<close> and then \<open>Shutdown\<close>, reports the state it interrupted to the abort
  handler exactly once, if one is set, and finally asks all participants to reply before
  the final state is set.
\<close>

theorem abort_reaches_shutdown:
  assumes "consistent s"
    "currentState s \<notin> {StoppingState, ShuttingDownState, ShutdownState, AbortingState}"
    "\<not> handlerExecuting s (currentState s)"
  shows "\<exists>s' r ts. manager_AbortSimulation lc_call reason s = Done s' \<and>
           currentState s' = ShutdownState \<and>
           published s' = published s @ [PS_Aborting, PS_Shutdown] \<and>
           effects s' = effects s @ (if currentState s = RunningState then [E_StopTime] else [])
             @ (if abortHandler s = None then []
                else [E_AbortHandler (GetParticipantState (currentState s))]) \<and>
           ioQueue s' = ioQueue s @ ts @ [T_CallAfterAllParticipantsReplied (AfterShutdown r)] \<and>
           sent_states ts = [PS_Aborting, PS_Shutdown]"
proof -
  obtain r where r: "manager_AbortSimulation lc_call reason s =
      Done (abort_result (currentState s) r (abort_prepared s))"
    using abort_accepted assms by blast
  obtain ts where "ioQueue (abort_result (currentState s) r (abort_prepared s)) =
      ioQueue s @ ts @ [T_CallAfterAllParticipantsReplied (AfterShutdown r)]"
    "sent_states ts = [PS_Aborting, PS_Shutdown]"
    using abort_result_fields(4) abort_prepared_fields(2) by metis
  with r show ?thesis
    by (auto simp: abort_result_fields abort_prepared_fields)
qed

definition running_example :: lifecycle where
  "running_example = (init_lifecycle ''P'')
     \<lparr>currentState := RunningState,
      status := \<lparr>participantName = ''P'', status_state = PS_Running, enterReason = [],
                 enterTime = 0, refreshTime = 0\<rparr>,
      abortHandler := Some \<lparr>handler_throws = True, handler_abort = False\<rparr>\<rparr>"

theorem abort_reaches_shutdown_witness:
  "\<exists>s' r ts. manager_AbortSimulation lc_call [] running_example = Done s' \<and>
     currentState s' = ShutdownState \<and>
     published s' = [PS_Aborting, PS_Shutdown] \<and>
     effects s' = [E_StopTime, E_AbortHandler PS_Running] \<and>
     ioQueue s' = ts @ [T_CallAfterAllParticipantsReplied (AfterShutdown r)] \<and>
     sent_states ts = [PS_Aborting, PS_Shutdown]"
  using abort_reaches_shutdown [of running_example "[]"]
  by (simp add: running_example_def init_lifecycle_def consistent_def State_def)

end
