(* ===== verification/LifecycleService.thy ===== *)
theory LifecycleService
  imports LifecycleDispatch
begin

text \<open>
  The lifecycle service (\<open>services/orchestration/LifecycleService.cpp\<close>): the calls of the
  user, the messages it receives, and the tasks of the IO thread that the service, its
  manager and the barrier of \<open>ParticipantReplies\<close> defer.
\<close>

section \<open>Texts\<close>

fun ParticipantState_to_string :: "participant_state \<Rightarrow> string" where
  "ParticipantState_to_string PS_Invalid = ''Invalid''"
| "ParticipantState_to_string PS_ServicesCreated = ''ServicesCreated''"
| "ParticipantState_to_string PS_CommunicationInitializing = ''CommunicationInitializing''"
| "ParticipantState_to_string PS_CommunicationInitialized = ''CommunicationInitialized''"
| "ParticipantState_to_string PS_ReadyToRun = ''ReadyToRun''"
| "ParticipantState_to_string PS_Running = ''Running''"
| "ParticipantState_to_string PS_Paused = ''Paused''"
| "ParticipantState_to_string PS_Stopping = ''Stopping''"
| "ParticipantState_to_string PS_Stopped = ''Stopped''"
| "ParticipantState_to_string PS_Error = ''Error''"
| "ParticipantState_to_string PS_ShuttingDown = ''ShuttingDown''"
| "ParticipantState_to_string PS_Shutdown = ''Shutdown''"
| "ParticipantState_to_string PS_Aborting = ''Aborting''"

fun SystemState_to_string :: "system_state \<Rightarrow> string" where
  "SystemState_to_string SS_Invalid = ''Invalid''"
| "SystemState_to_string SS_ServicesCreated = ''ServicesCreated''"
| "SystemState_to_string SS_CommunicationInitializing = ''CommunicationInitializing''"
| "SystemState_to_string SS_CommunicationInitialized = ''CommunicationInitialized''"
| "SystemState_to_string SS_ReadyToRun = ''ReadyToRun''"
| "SystemState_to_string SS_Running = ''Running''"
| "SystemState_to_string SS_Paused = ''Paused''"
| "SystemState_to_string SS_Stopping = ''Stopping''"
| "SystemState_to_string SS_Stopped = ''Stopped''"
| "SystemState_to_string SS_Error = ''Error''"
| "SystemState_to_string SS_ShuttingDown = ''ShuttingDown''"
| "SystemState_to_string SS_Shutdown = ''Shutdown''"
| "SystemState_to_string SS_Aborting = ''Aborting''"

fun CommandKind_to_string :: "system_command_kind \<Rightarrow> string" where
  "CommandKind_to_string SystemCommand_Invalid = ''Invalid''"
| "CommandKind_to_string SystemCommand_AbortSimulation = ''AbortSimulation''"

section \<open>Calls of the user\<close>

definition SetCommunicationReadyHandler :: "user_handler \<Rightarrow> lifecycle \<Rightarrow> lifecycle" where
  "SetCommunicationReadyHandler h s =
     s\<lparr>commReadyHandlerIsAsync := False, commReadyHandler := Some h\<rparr>"

definition SetCommunicationReadyHandlerAsync :: "user_handler \<Rightarrow> lifecycle \<Rightarrow> lifecycle" where
  "SetCommunicationReadyHandlerAsync h s =
     s\<lparr>commReadyHandlerIsAsync := True, commReadyHandler := Some h\<rparr>"

definition CompleteCommunicationReadyHandlerAsync :: "lifecycle \<Rightarrow> lifecycle" where
  "CompleteCommunicationReadyHandlerAsync s =
     (if \<not> commReadyHandlerInvoked s then s
      else if commReadyHandlerCompleted s then s
      else post T_CompleteCommunicationReadyHandler (s\<lparr>commReadyHandlerCompleted := True\<rparr>))"

definition SetStartingHandler :: "user_handler \<Rightarrow> lifecycle \<Rightarrow> lifecycle" where
  "SetStartingHandler h s = s\<lparr>startingHandler := Some h\<rparr>"

definition SetStopHandler :: "user_handler \<Rightarrow> lifecycle \<Rightarrow> lifecycle" where
  "SetStopHandler h s = s\<lparr>stopHandler := Some h\<rparr>"

definition SetShutdownHandler :: "user_handler \<Rightarrow> lifecycle \<Rightarrow> lifecycle" where
  "SetShutdownHandler h s = s\<lparr>shutdownHandler := Some h\<rparr>"

definition SetAbortHandler :: "user_handler \<Rightarrow> lifecycle \<Rightarrow> lifecycle" where
  "SetAbortHandler h s = s\<lparr>abortHandler := Some h\<rparr>"

definition SetLifecycleConfiguration :: "operation_mode \<Rightarrow> lifecycle \<Rightarrow> lifecycle" where
  "SetLifecycleConfiguration mode s = s\<lparr>operationMode := mode\<rparr>"

definition SetTimeSyncActive :: "bool \<Rightarrow> lifecycle \<Rightarrow> lifecycle" where
  "SetTimeSyncActive active s = s\<lparr>timeSyncActive := active\<rparr>"

definition CreateTimeSyncService :: "lifecycle \<Rightarrow> lifecycle outcome" where
  "CreateTimeSyncService s =
     (if timeSyncActive s then Raised ConfigurationError s
      else Done (emit E_ConfigureDynamicStepSize
                  ((emit E_RegisterTimeSyncService s)\<lparr>timeSyncActive := True\<rparr>)))"

definition ReportError :: "string \<Rightarrow> lifecycle \<Rightarrow> lifecycle" where
  "ReportError errorMsg s = post (T_ReportError errorMsg) s"

definition Pause :: "string \<Rightarrow> lifecycle \<Rightarrow> lifecycle" where
  "Pause reason s = post (T_Pause reason) (s\<lparr>pauseRequested := True\<rparr>)"

definition Continue :: "lifecycle \<Rightarrow> lifecycle" where
  "Continue s = post T_Continue (s\<lparr>pauseRequested := False\<rparr>)"

definition Stop :: "string \<Rightarrow> lifecycle \<Rightarrow> lifecycle" where
  "Stop reason s = post (T_Stop reason) (s\<lparr>stopRequested := True\<rparr>)"

definition Restart :: "string \<Rightarrow> lifecycle \<Rightarrow> lifecycle outcome" where
  "Restart reason s = Raised SilKitError s"

definition AbortSimulation :: "string \<Rightarrow> lifecycle \<Rightarrow> lifecycle" where
  "AbortSimulation reason s =
     (if \<not> isLifecycleStarted s then s\<lparr>abortedBeforeLifecycleStart := True\<rparr>
      else post (T_AbortSimulation reason) s)"

definition HasRequiredParticipantNames :: "lifecycle \<Rightarrow> bool" where
  "HasRequiredParticipantNames s \<longleftrightarrow> lc_requiredParticipantNames s \<noteq> []"

definition CheckForValidConfiguration :: "lifecycle \<Rightarrow> bool \<times> lifecycle" where
  "CheckForValidConfiguration s =
     (if operationMode s = OM_Coordinated \<and>
         ownName s \<notin> set (lc_requiredParticipantNames s)
      then (False, ReportError
              (ownName s @ '': This participant is in OperationMode::Coordinated but it is not part of the '' @
               ''set of \"required\" participants declared by the system controller. '') s)
      else (True, s))"

text \<open>The handler for system states that \<open>StartLifecycle\<close> passes to the system monitor.\<close>

definition NewSystemState :: "system_state \<Rightarrow> lifecycle \<Rightarrow> lifecycle outcome" where
  "NewSystemState ss s =
     (case operationMode s of
        OM_Invalid \<Rightarrow> Done s
      | OM_Autonomous \<Rightarrow> Done s
      | OM_Coordinated \<Rightarrow>
          (let msg = ''Received new system state: '' @ SystemState_to_string ss
           in case ss of
                SS_ServicesCreated \<Rightarrow> manager_call lc_call I_ServicesCreated msg s
              | SS_CommunicationInitialized \<Rightarrow> manager_call lc_call I_CommunicationInitialized msg s
              | SS_ReadyToRun \<Rightarrow> manager_call lc_call I_ReadyToRun msg s
              | SS_Stopping \<Rightarrow>
                  (if currentState s = RunningState \<or> currentState s = PausedState
                   then manager_call lc_call I_StopSimulation msg s else Done s)
              | _ \<Rightarrow> Done s))"

text \<open>
  \<open>StartLifecycle\<close>. The promise is created by the constructor and never reset, so the
  check for a second call does not fire and is not part of the model. The system monitor calls
  a system state handler with the state \<open>ss\<close> it knows when the handler is added; of the participant
  states it then tells the other handler, none is the participant's own, so none has an effect.
\<close>

definition StartLifecycle :: "system_state \<Rightarrow> lifecycle \<Rightarrow> lifecycle outcome" where
  "StartLifecycle ss s0 =
     (let s = s0\<lparr>isLifecycleStarted := True\<rparr>
      in if abortedBeforeLifecycleStart s
         then Done (post (T_AbortSimulation
                      ''Lifecycle was aborted by SystemCommand::AbortSimulation'') s)
         else
           let (valid, s1) = (if HasRequiredParticipantNames s
                              then CheckForValidConfiguration s else (True, s))
           in if \<not> valid then Done s1
              else
                let s2 = emit (E_ConfigureTimeProvider (timeSyncActive s1)) s1;
                    s3 = emit (E_InitializeTimeSyncPolicy (timeSyncActive s2)) s2;
                    s4 = emit (E_LifecycleServiceCreated (operationMode s3)) s3;
                    s5 = emit E_TimeSyncServiceCreated s4
                in bind_outcome (NewSystemState ss s5)
                     (\<lambda>s5.
                        let s6 = emit E_AddMonitorHandlers s5;
                            s7 = post T_Initialize s6
                        in case operationMode s7 of
                             OM_Invalid \<Rightarrow> Raised ConfigurationError s7
                           | OM_Coordinated \<Rightarrow> Done s7
                           | OM_Autonomous \<Rightarrow> Done (post T_StartAutonomous s7)))"

section \<open>Received messages\<close>

definition ReceiveSystemCommand :: "system_command \<Rightarrow> lifecycle \<Rightarrow> lifecycle" where
  "ReceiveSystemCommand command s =
     (case command_kind command of
        SystemCommand_AbortSimulation \<Rightarrow> AbortSimulation ''Received SystemCommand::AbortSimulation'' s
      | SystemCommand_Invalid \<Rightarrow>
          ReportError (''Received SystemCommand::'' @ CommandKind_to_string (command_kind command) @
                       '' while in ParticipantState::'' @ ParticipantState_to_string (State s)) s)"

definition SetWorkflowConfiguration :: "workflow_configuration \<Rightarrow> lifecycle \<Rightarrow> lifecycle" where
  "SetWorkflowConfiguration configuration s =
     (let s1 = s\<lparr>lc_requiredParticipantNames := requiredParticipantNames configuration\<rparr>
      in if operationMode s1 \<noteq> OM_Invalid \<and> isLifecycleStarted s1
         then snd (CheckForValidConfiguration s1) else s1)"

text \<open>\<open>isBlocking\<close> stands for \<open>TimeSyncService::IsBlocking\<close>.\<close>

definition NewParticipantStatus :: "bool \<Rightarrow> participant_status \<Rightarrow> lifecycle \<Rightarrow> lifecycle" where
  "NewParticipantStatus isBlocking participantStatus s =
     (if participantName participantStatus = ownName s \<and>
         status_state participantStatus = PS_ReadyToRun \<and> timeSyncActive s
      then emit (E_EvaluateAggregationInfo isBlocking) s
      else s)"

section \<open>The IO thread\<close>

text \<open>The closures passed to \<open>CallAfterAllParticipantsReplied\<close>.\<close>

fun run_completion :: "virtual_call \<Rightarrow> completion \<Rightarrow> lifecycle \<Rightarrow> lifecycle outcome" where
  "run_completion call (AfterServicesCreated reason) s =
     SetStateAndForwardIntent call CommunicationInitializingState I_ServicesCreated reason s"
| "run_completion call (AfterStopped reason) s = manager_call call I_ShutdownParticipant reason s"
| "run_completion call (AfterShutdown reason) s =
     (if currentState s \<noteq> ErrorState
      then Done (SetFinalStatePromise (emit E_NotifyShutdown s))
      else Done s)"

text \<open>The deferred part of \<open>CallAfterAllParticipantsReplied\<close>.\<close>

definition run_barrier_call :: "virtual_call \<Rightarrow> completion \<Rightarrow> lifecycle \<Rightarrow> lifecycle outcome" where
  "run_barrier_call call c s =
     (case CallAfterAllParticipantsReplied (remoteReceivers s) (nextUuid s) c (participantReplies s) of
        (BarrierBusy, p) \<Rightarrow> Done (s\<lparr>participantReplies := p\<rparr>)
      | (BarrierRun k, p) \<Rightarrow> run_completion call k (s\<lparr>participantReplies := p\<rparr>)
      | (BarrierCall, p) \<Rightarrow>
          Done (emit (E_RequestReplyCall (nextUuid s))
                 (s\<lparr>participantReplies := p, nextUuid := nextUuid s + 1\<rparr>)))"

text \<open>A call return of a remote participant, in \<open>ParticipantReplies\<close>.\<close>

definition receive_reply ::
    "virtual_call \<Rightarrow> string \<Rightarrow> nat \<Rightarrow> lifecycle \<Rightarrow> lifecycle outcome" where
  "receive_reply call from uuid s =
     (let (k, complete, p) = ReceiveCallReturn from uuid (participantReplies s);
          s1 = s\<lparr>participantReplies := p\<rparr>
      in bind_outcome
           (case k of None \<Rightarrow> Done s1 | Some c \<Rightarrow> run_completion call c s1)
           (\<lambda>s. Done (if complete
                      then s\<lparr>participantReplies := ReleaseBarrier (participantReplies s)\<rparr> else s)))"

text \<open>
  \<open>VAsioConnection::AsyncSubscriptionsCompleted\<close>: the handlers that were waiting for the
  pending subscriptions are run and forgotten.
\<close>

fun run_async_handlers ::
    "virtual_call \<Rightarrow> async_completion list \<Rightarrow> lifecycle \<Rightarrow> lifecycle outcome" where
  "run_async_handlers call [] s = Done s"
| "run_async_handlers call (h # hs) s =
     bind_outcome (run_async_completion call h s) (run_async_handlers call hs)"

definition AsyncSubscriptionsCompleted :: "virtual_call \<Rightarrow> lifecycle \<Rightarrow> lifecycle outcome" where
  "AsyncSubscriptionsCompleted call s =
     bind_outcome (run_async_handlers call (asyncSubscriptionsCompletionHandlers s) s)
       (\<lambda>s. Done (s\<lparr>asyncSubscriptionsCompletionHandlers := [],
                    hasPendingAsyncSubscriptions := False\<rparr>))"

fun run_task :: "virtual_call \<Rightarrow> io_task \<Rightarrow> lifecycle \<Rightarrow> lifecycle outcome" where
  "run_task call (T_SendStatus st) s = Done (emit (E_Status st) s)"
| "run_task call (T_CallAfterAllParticipantsReplied c) s = run_barrier_call call c s"
| "run_task call T_Initialize s =
     manager_call call I_Initialize ''LifecycleService::StartLifecycle was called.'' s"
| "run_task call T_StartAutonomous s =
     manager_call call I_ServicesCreated
       ''LifecycleService::StartLifecycle was called without start coordination.'' s"
| "run_task call T_CompleteCommunicationReadyHandler s =
     manager_call call I_CompleteCommunicationReadyHandler
       ''LifecycleService::CompleteCommunicationReadyHandler: triggering communication ready transition.'' s"
| "run_task call (T_ReportError errorMsg) s =
     (if \<not> isLifecycleStarted s then Done s
      else if State s = PS_Shutdown then Done s
      else manager_call call I_Error errorMsg s)"
| "run_task call (T_Pause reason) s =
     (if State s \<noteq> PS_Running
      then Raised SilKitError (ReportError
             (''LifecycleService::Pause() was called in state ParticipantState::''
              @ ParticipantState_to_string (State s)) s)
      else manager_call call I_PauseSimulation reason s)"
| "run_task call T_Continue s =
     (if State s \<noteq> PS_Paused
      then Raised SilKitError (ReportError
             (''LifecycleService::Continue() was called in state ParticipantState::''
              @ ParticipantState_to_string (State s)) s)
      else bind_outcome (manager_call call I_ContinueSimulation ''Pause finished'' s)
             (\<lambda>s. Done (emit E_RequestNextStep s)))"
| "run_task call (T_Stop reason) s = manager_call call I_StopSimulation reason s"
| "run_task call (T_AbortSimulation reason) s = manager_AbortSimulation call reason s"

text \<open>
  One turn of the IO thread: the next task is taken from the queue and executed; an
  exception is caught and logged by the worker's loop, which goes on with the next task.
  The result is \<open>None\<close> only if the fuel ran out.
\<close>

definition caught :: "lifecycle outcome \<Rightarrow> lifecycle option" where
  "caught out =
     (case out of Done s \<Rightarrow> Some s | Raised e s \<Rightarrow> Some (emit (E_Caught e) s) | OutOfFuel \<Rightarrow> None)"

definition io_step :: "lifecycle \<Rightarrow> lifecycle option" where
  "io_step s =
     (case ioQueue s of
        [] \<Rightarrow> Some s
      | task # rest \<Rightarrow> caught (run_task lc_call task (s\<lparr>ioQueue := rest\<rparr>)))"

fun io_run :: "nat \<Rightarrow> lifecycle \<Rightarrow> lifecycle option" where
  "io_run 0 s = Some s"
| "io_run (Suc n) s = (case io_step s of None \<Rightarrow> None | Some s' \<Rightarrow> io_run n s')"

section \<open>Runs of the service\<close>

text \<open>Everything that can happen to the service, in any order.\<close>

datatype lc_input =
    In_StartLifecycle system_state
  | In_ReportError string
  | In_Pause string
  | In_Continue
  | In_Stop string
  | In_AbortSimulation string
  | In_CompleteCommunicationReadyHandlerAsync
  | In_CreateTimeSyncService
  | In_SetCommunicationReadyHandler user_handler
  | In_SetCommunicationReadyHandlerAsync user_handler
  | In_SetStartingHandler user_handler
  | In_SetStopHandler user_handler
  | In_SetShutdownHandler user_handler
  | In_SetAbortHandler user_handler
  | In_SetLifecycleConfiguration operation_mode
  | In_SystemCommand system_command
  | In_WorkflowConfiguration workflow_configuration
  | In_SystemState system_state
  | In_ParticipantStatus bool participant_status
  | In_Reply string nat
  | In_RemoteReceivers "string list"
  | In_AsyncSubscriptionsPending
  | In_AsyncSubscriptionsCompleted
  | In_Clock int
  | In_IoStep

fun lc_input_step :: "lc_input \<Rightarrow> lifecycle \<Rightarrow> lifecycle option" where
  "lc_input_step (In_StartLifecycle ss) s = caught (StartLifecycle ss s)"
| "lc_input_step (In_ReportError m) s = Some (ReportError m s)"
| "lc_input_step (In_Pause r) s = Some (Pause r s)"
| "lc_input_step In_Continue s = Some (Continue s)"
| "lc_input_step (In_Stop r) s = Some (Stop r s)"
| "lc_input_step (In_AbortSimulation r) s = Some (AbortSimulation r s)"
| "lc_input_step In_CompleteCommunicationReadyHandlerAsync s =
     Some (CompleteCommunicationReadyHandlerAsync s)"
| "lc_input_step In_CreateTimeSyncService s = caught (CreateTimeSyncService s)"
| "lc_input_step (In_SetCommunicationReadyHandler h) s = Some (SetCommunicationReadyHandler h s)"
| "lc_input_step (In_SetCommunicationReadyHandlerAsync h) s =
     Some (SetCommunicationReadyHandlerAsync h s)"
| "lc_input_step (In_SetStartingHandler h) s = Some (SetStartingHandler h s)"
| "lc_input_step (In_SetStopHandler h) s = Some (SetStopHandler h s)"
| "lc_input_step (In_SetShutdownHandler h) s = Some (SetShutdownHandler h s)"
| "lc_input_step (In_SetAbortHandler h) s = Some (SetAbortHandler h s)"
| "lc_input_step (In_SetLifecycleConfiguration m) s = Some (SetLifecycleConfiguration m s)"
| "lc_input_step (In_SystemCommand c) s = Some (ReceiveSystemCommand c s)"
| "lc_input_step (In_WorkflowConfiguration c) s = Some (SetWorkflowConfiguration c s)"
| "lc_input_step (In_SystemState ss) s = caught (NewSystemState ss s)"
| "lc_input_step (In_ParticipantStatus b st) s = Some (NewParticipantStatus b st s)"
| "lc_input_step (In_Reply from uuid) s = caught (receive_reply lc_call from uuid s)"
| "lc_input_step (In_RemoteReceivers names) s = Some (s\<lparr>remoteReceivers := names\<rparr>)"
| "lc_input_step In_AsyncSubscriptionsPending s = Some (s\<lparr>hasPendingAsyncSubscriptions := True\<rparr>)"
| "lc_input_step In_AsyncSubscriptionsCompleted s = caught (AsyncSubscriptionsCompleted lc_call s)"
| "lc_input_step (In_Clock t) s = Some (s\<lparr>systemClock := t\<rparr>)"
| "lc_input_step In_IoStep s = io_step s"

fun lc_inputs :: "lc_input list \<Rightarrow> lifecycle \<Rightarrow> lifecycle option" where
  "lc_inputs [] s = Some s"
| "lc_inputs (i # is) s = (case lc_input_step i s of None \<Rightarrow> None | Some s' \<Rightarrow> lc_inputs is s')"

section \<open>Consistency of every run\<close>

lemma consistent_cong:
  "consistent s \<Longrightarrow> currentState s' = currentState s \<Longrightarrow> status s' = status s \<Longrightarrow>
    lastBeforeAbortingState s' = lastBeforeAbortingState s \<Longrightarrow> consistent s'"
  by (simp add: consistent_def State_def)

lemma consistent_post [simp]: "consistent (post t s) = consistent s"
  by (simp add: consistent_def State_def post_def)

lemma consistent_emit [simp]: "consistent (emit e s) = consistent s"
  by (simp add: consistent_def State_def emit_def)

lemma consistent_updates [simp]:
  "consistent (s\<lparr>participantReplies := p\<rparr>) = consistent s"
  "consistent (s\<lparr>participantReplies := p, nextUuid := n\<rparr>) = consistent s"
  "consistent (s\<lparr>ioQueue := q\<rparr>) = consistent s"
  "consistent (s\<lparr>asyncSubscriptionsCompletionHandlers := hs, hasPendingAsyncSubscriptions := b\<rparr>)
     = consistent s"
  "consistent (s\<lparr>isLifecycleStarted := b\<rparr>) = consistent s"
  "consistent (s\<lparr>timeSyncActive := b\<rparr>) = consistent s"
  by (simp_all add: consistent_def State_def)

lemma SetState_consistent: "consistent (SetState new reason s)"
  by (cases "new = AbortingState") (simp_all add: consistent_def SetState_last)

lemma caught_consistent:
  "outcome_sat P out \<Longrightarrow> (\<And>s. P s \<Longrightarrow> consistent s) \<Longrightarrow> \<exists>s'. caught out = Some s' \<and> consistent s'"
  by (cases out) (auto simp: caught_def)

definition fine :: "lifecycle outcome \<Rightarrow> bool" where
  "fine out \<longleftrightarrow> outcome_sat consistent out"

lemma fine_Done [simp]: "fine (Done s) \<longleftrightarrow> consistent s"
  by (simp add: fine_def)

lemma fine_Raised [simp]: "fine (Raised SilKitError s) \<longleftrightarrow> consistent s"
  by (simp add: fine_def)

lemma fine_bind:
  "fine out \<Longrightarrow> (\<And>s. consistent s \<Longrightarrow> fine (k s)) \<Longrightarrow> fine (bind_outcome out k)"
  unfolding fine_def by (rule outcome_sat_bind)

lemma fine_manager_call: "consistent s \<Longrightarrow> fine (manager_call lc_call i reason s)"
  unfolding fine_def manager_call_def
  by (rule outcome_sat_mono [OF lc_call_ok]) (simp_all add: call_post_consistent)

lemma fine_forward: "fine (SetStateAndForwardIntent lc_call new i reason s)"
  unfolding fine_def SetStateAndForwardIntent_eq
  by (rule outcome_sat_mono [OF lc_call_ok]) (simp_all add: call_post_consistent SetState_consistent)

lemma fine_completion: "consistent s \<Longrightarrow> fine (run_completion lc_call c s)"
  by (cases c) (auto simp: fine_forward fine_manager_call SetFinalStatePromise_def
      consistent_def State_def emit_def split: option.split)

lemma fine_barrier_call: "consistent s \<Longrightarrow> fine (run_barrier_call lc_call c s)"
  by (auto simp: run_barrier_call_def fine_completion
      split: prod.split barrier_outcome.split)

lemma fine_reply: "consistent s \<Longrightarrow> fine (receive_reply lc_call from uuid s)"
  by (auto simp: receive_reply_def fine_completion Let_def intro!: fine_bind
      split: prod.split option.split)

lemma fine_async_handlers: "consistent s \<Longrightarrow> fine (run_async_handlers lc_call hs s)"
proof (induction hs arbitrary: s)
  case (Cons h hs)
  then show ?case by (cases h) (auto intro!: fine_bind simp: fine_forward)
qed simp

lemma fine_task: "consistent s \<Longrightarrow> fine (run_task lc_call task s)"
  by (cases task)
    (auto simp: fine_manager_call fine_barrier_call manager_AbortSimulation_def ReportError_def
      intro!: fine_bind)

lemma caught_fine: "fine out \<Longrightarrow> \<exists>s'. caught out = Some s' \<and> consistent s'"
  unfolding fine_def by (rule caught_consistent)

lemma io_step_fine: "consistent s \<Longrightarrow> \<exists>s'. io_step s = Some s' \<and> consistent s'"
  by (auto simp: io_step_def intro!: caught_fine fine_task split: list.split)

lemma NewSystemState_fine: "consistent s \<Longrightarrow> fine (NewSystemState ss s)"
  by (auto simp: NewSystemState_def Let_def fine_manager_call
      split: operation_mode.split system_state.split)

lemma caught_bind:
  assumes "fine out" and "\<And>s. consistent s \<Longrightarrow> \<exists>s'. caught (k s) = Some s' \<and> consistent s'"
  shows "\<exists>s'. caught (bind_outcome out k) = Some s' \<and> consistent s'"
proof (cases out)
  case (Raised e s)
  then show ?thesis using caught_fine [OF assms(1)] by simp
qed (use assms in \<open>auto simp: fine_def\<close>)

lemma StartLifecycle_fine: "consistent s \<Longrightarrow> \<exists>s'. caught (StartLifecycle ss s) = Some s' \<and> consistent s'"
  by (auto simp: StartLifecycle_def Let_def CheckForValidConfiguration_def ReportError_def
      intro!: caught_bind NewSystemState_fine)
    (auto simp: caught_def split: operation_mode.split)

lemma input_step_consistent:
  assumes "consistent s"
  shows "\<exists>s'. lc_input_step i s = Some s' \<and> consistent s'"
proof (cases i)
  case (In_StartLifecycle ss)
  then show ?thesis using StartLifecycle_fine [OF assms] by simp
next
  case In_CreateTimeSyncService
  then show ?thesis using assms by (simp add: CreateTimeSyncService_def caught_def)
next
  case (In_SystemState ss)
  then show ?thesis using assms by (simp add: caught_fine NewSystemState_fine)
next
  case (In_Reply from' uuid)
  then show ?thesis using assms by (simp add: caught_fine fine_reply)
next
  case In_AsyncSubscriptionsCompleted
  then show ?thesis
    using assms by (auto simp: AsyncSubscriptionsCompleted_def
        intro!: caught_fine fine_bind fine_async_handlers)
next
  case In_IoStep
  then show ?thesis using io_step_fine [OF assms] by simp
qed (auto intro: consistent_cong [OF assms] simp: ReportError_def Pause_def Continue_def Stop_def
    AbortSimulation_def CompleteCommunicationReadyHandlerAsync_def
    SetCommunicationReadyHandler_def SetCommunicationReadyHandlerAsync_def SetStartingHandler_def
    SetStopHandler_def SetShutdownHandler_def SetAbortHandler_def SetLifecycleConfiguration_def
    ReceiveSystemCommand_def SetWorkflowConfiguration_def CheckForValidConfiguration_def
    NewParticipantStatus_def post_def emit_def Let_def split: system_command_kind.split)

lemma inputs_consistent:
  "consistent s \<Longrightarrow> \<exists>s'. lc_inputs is s = Some s' \<and> consistent s'"
proof (induction "is" arbitrary: s)
  case (Cons i "is")
  then show ?case using input_step_consistent [OF Cons.prems, of i] by force
qed simp

lemma init_consistent: "consistent (init_lifecycle name)"
  by (simp add: consistent_def init_lifecycle_def State_def)

section \<open>The published states\<close>

text \<open>
  Two closures set the state without asking the state object for permission: the one that
  runs when all participants have replied to a participant in \<open>ServicesCreated\<close>, and the
  one that runs when the asynchronous subscriptions are complete. A step is \<open>stale\<close> if
  it runs such a closure although the lifecycle has left the state that passed it.
\<close>

fun stale_completion :: "completion \<Rightarrow> lifecycle \<Rightarrow> bool" where
  "stale_completion (AfterServicesCreated reason) s = (currentState s \<noteq> ServicesCreatedState)"
| "stale_completion _ s = False"

fun stale_step :: "lc_input \<Rightarrow> lifecycle \<Rightarrow> bool" where
  "stale_step In_IoStep s =
     (case ioQueue s of
        T_CallAfterAllParticipantsReplied c # _ \<Rightarrow>
          fst (CallAfterAllParticipantsReplied (remoteReceivers s) (nextUuid s) c
                 (participantReplies s)) = BarrierRun c \<and> stale_completion c s
      | _ \<Rightarrow> False)"
| "stale_step (In_Reply from uuid) s =
     (case fst (ReceiveCallReturn from uuid (participantReplies s)) of
        None \<Rightarrow> False
      | Some c \<Rightarrow> stale_completion c s)"
| "stale_step In_AsyncSubscriptionsCompleted s =
     (\<not> (asyncSubscriptionsCompletionHandlers s = [] \<or>
         length (asyncSubscriptionsCompletionHandlers s) = 1 \<and>
           currentState s = CommunicationInitializingState))"
| "stale_step _ s = False"

fun no_stale :: "lc_input list \<Rightarrow> lifecycle \<Rightarrow> bool" where
  "no_stale [] s = True"
| "no_stale (i # is) s =
     (\<not> stale_step i s \<and> (case lc_input_step i s of None \<Rightarrow> False | Some s' \<Rightarrow> no_stale is s'))"

lemma quiet_published [simp]:
  "published (emit e s) = published s" "status (emit e s) = status s"
  "published (post t s) = published s" "status (post t s) = status s"
  by (simp_all add: emit_def post_def)

definition path_post :: "lifecycle \<Rightarrow> lifecycle \<Rightarrow> bool" where
  "path_post s s' \<longleftrightarrow> consistent s' \<and>
     (\<exists>ps. published s' = published s @ ps \<and> lifecycle_path (State s) ps \<and>
           State s' = last (State s # ps))"

lemma path_post_quiet:
  assumes "consistent s'" "published s' = published s" "status s' = status s"
  shows "path_post s s'"
proof -
  have "published s' = published s @ [] \<and> lifecycle_path (State s) [] \<and> State s' = last [State s]"
    using assms by (simp add: State_def)
  then show ?thesis using assms(1) unfolding path_post_def by blast
qed

lemma path_post_trans:
  assumes "path_post s s'" "path_post s' s''"
  shows "path_post s s''"
proof -
  obtain ps qs where "published s'' = (published s @ ps) @ qs" "lifecycle_path (State s) ps"
    "lifecycle_path (last (State s # ps)) qs" "State s'' = last (last (State s # ps) # qs)"
    using assms unfolding path_post_def by metis
  then have "published s'' = published s @ (ps @ qs) \<and> lifecycle_path (State s) (ps @ qs) \<and>
      State s'' = last (State s # ps @ qs)"
    by (auto simp: lifecycle_path_append)
  then show ?thesis using assms(2) unfolding path_post_def by blast
qed

lemma path_post_call: "call_post s s' \<Longrightarrow> path_post s s'"
  unfolding call_post_def path_post_def by blast

lemma path_post_consistent: "path_post s s' \<Longrightarrow> consistent s'"
  by (simp add: path_post_def)

lemma path_post_left:
  "path_post t s' \<Longrightarrow> published t = published s \<Longrightarrow> status t = status s \<Longrightarrow> path_post s s'"
  by (simp add: path_post_def State_def)

definition valid :: "lifecycle \<Rightarrow> lifecycle outcome \<Rightarrow> bool" where
  "valid s out \<longleftrightarrow> outcome_sat (path_post s) out"

lemma valid_Done [simp]: "valid s (Done s') \<longleftrightarrow> path_post s s'"
  by (simp add: valid_def)

lemma valid_Raised [simp]: "valid s (Raised SilKitError s') \<longleftrightarrow> path_post s s'"
  by (simp add: valid_def)

lemma valid_left:
  "valid t out \<Longrightarrow> published t = published s \<Longrightarrow> status t = status s \<Longrightarrow> valid s out"
  unfolding valid_def by (erule outcome_sat_mono) (rule path_post_left)

lemma valid_bind:
  assumes "valid s out" "\<And>t. path_post s t \<Longrightarrow> valid t (k t)"
  shows "valid s (bind_outcome out k)"
proof (cases out)
  case (Done t)
  then have "path_post s t" using assms(1) by simp
  then show ?thesis
    using Done assms(2) [of t] path_post_trans [of s t]
    by (auto simp: valid_def elim: outcome_sat_mono)
qed (use assms(1) in \<open>auto simp: valid_def\<close>)

lemma valid_manager_call: "consistent s \<Longrightarrow> valid s (manager_call lc_call i reason s)"
  unfolding valid_def manager_call_def
  by (rule outcome_sat_mono [OF lc_call_ok]) (simp_all add: path_post_call)

lemma valid_forward:
  assumes "consistent s" "lifecycle_edge (State s) (GetParticipantState new)"
  shows "valid s (SetStateAndForwardIntent lc_call new i reason s)"
  unfolding valid_def SetStateAndForwardIntent_eq
proof (rule outcome_sat_mono [OF lc_call_ok])
  show "\<And>t. call_post (SetState new reason s) t \<Longrightarrow> path_post s t"
    using SetState_post [OF assms] call_post_trans path_post_call by blast
qed (simp_all add: SetState_consistent)

lemma valid_completion:
  assumes "consistent s" "\<not> stale_completion c s"
  shows "valid s (run_completion lc_call c s)"
proof (cases c)
  case (AfterServicesCreated r)
  then show ?thesis
    using assms State_consistent [OF assms(1)]
    by (auto intro!: valid_forward simp: lifecycle_edge_def)
next
  case (AfterShutdown r)
  have "consistent (SetFinalStatePromise (emit E_NotifyShutdown s))"
    using assms(1) by (auto simp: SetFinalStatePromise_def consistent_def State_def emit_def
        split: option.split)
  with AfterShutdown assms(1) show ?thesis
    by (auto intro!: path_post_quiet simp: SetFinalStatePromise_def emit_def split: option.split)
qed (simp add: valid_manager_call assms(1))

lemma valid_barrier_call:
  assumes "consistent s"
    "fst (CallAfterAllParticipantsReplied (remoteReceivers s) (nextUuid s) c
       (participantReplies s)) = BarrierRun c \<longrightarrow> \<not> stale_completion c s"
  shows "valid s (run_barrier_call lc_call c s)"
proof -
  obtain b p where B: "CallAfterAllParticipantsReplied (remoteReceivers s) (nextUuid s) c
       (participantReplies s) = (b, p)" by (cases "CallAfterAllParticipantsReplied (remoteReceivers s)
         (nextUuid s) c (participantReplies s)")
  have run: "b = BarrierRun k \<Longrightarrow> k = c" for k
    using B by (auto simp: CallAfterAllParticipantsReplied_def Let_def split: if_splits)
  have "\<not> stale_completion c (s\<lparr>participantReplies := p\<rparr>)" if "b = BarrierRun c"
    using that B assms(2) by (cases c) auto
  then have "valid s (run_completion lc_call c (s\<lparr>participantReplies := p\<rparr>))" if "b = BarrierRun c"
    using that valid_left [OF valid_completion [of "s\<lparr>participantReplies := p\<rparr>" c]] assms(1) by simp
  then show ?thesis
    using B run assms(1)
    by (cases b) (auto simp: run_barrier_call_def emit_def intro!: path_post_quiet
        intro: consistent_cong [OF assms(1)])
qed

lemma valid_reply:
  assumes "consistent s" "\<not> stale_step (In_Reply from uuid) s"
  shows "valid s (receive_reply lc_call from uuid s)"
proof -
  obtain k complete p where R: "ReceiveCallReturn from uuid (participantReplies s) = (k, complete, p)"
    by (metis prod_cases3)
  let ?s = "s\<lparr>participantReplies := p\<rparr>"
  have "valid s (case k of None \<Rightarrow> Done ?s | Some c \<Rightarrow> run_completion lc_call c ?s)"
  proof (cases k)
    case None
    then show ?thesis using assms(1) by (simp add: path_post_quiet)
  next
    case (Some c)
    then have "\<not> stale_completion c ?s" using assms(2) R by (cases c) auto
    then show ?thesis
      using Some assms(1) valid_left [OF valid_completion [of ?s c]] by simp
  qed
  then show ?thesis
    unfolding receive_reply_def R Let_def case_prod_conv
    by (rule valid_bind) (simp add: path_post_quiet path_post_consistent)
qed

lemma valid_async:
  assumes "consistent s" "\<not> stale_step In_AsyncSubscriptionsCompleted s"
  shows "valid s (AsyncSubscriptionsCompleted lc_call s)"
proof -
  have "valid s (run_async_handlers lc_call (asyncSubscriptionsCompletionHandlers s) s)"
  proof (cases "asyncSubscriptionsCompletionHandlers s")
    case Nil
    then show ?thesis using assms(1) by (simp add: path_post_quiet)
  next
    case (Cons h hs)
    then have C: "currentState s = CommunicationInitializingState" "hs = []" using assms(2) by auto
    obtain r where "h = AfterCommunicationInitializing r" by (cases h)
    then have "valid s (run_async_completion lc_call h s)"
      using assms(1) C(1) State_consistent [OF assms(1)]
      by (auto intro!: valid_forward simp: lifecycle_edge_def)
    then show ?thesis
      unfolding Cons C(2) run_async_handlers.simps
      by (rule valid_bind) (simp add: path_post_quiet path_post_consistent)
  qed
  then show ?thesis
    unfolding AsyncSubscriptionsCompleted_def
    by (rule valid_bind) (simp add: path_post_quiet path_post_consistent)
qed

lemma valid_task:
  assumes "consistent s"
    "\<And>c. task = T_CallAfterAllParticipantsReplied c \<Longrightarrow>
       fst (CallAfterAllParticipantsReplied (remoteReceivers s) (nextUuid s) c
         (participantReplies s)) = BarrierRun c \<Longrightarrow> \<not> stale_completion c s"
  shows "valid s (run_task lc_call task s)"
proof (cases task)
  case (T_CallAfterAllParticipantsReplied c)
  then show ?thesis using assms by (simp add: valid_barrier_call)
next
  case T_Continue
  then show ?thesis using assms(1)
    by (auto intro!: valid_bind valid_manager_call path_post_quiet
        simp: ReportError_def path_post_consistent)
next
  case (T_SendStatus st)
  then show ?thesis using assms(1) by (simp add: path_post_quiet)
next
  case (T_ReportError m)
  then show ?thesis using assms(1) by (simp add: path_post_quiet valid_manager_call)
next
  case (T_Pause r)
  then show ?thesis using assms(1)
    by (simp add: path_post_quiet valid_manager_call ReportError_def)
qed (simp_all add: assms(1) valid_manager_call manager_AbortSimulation_def)

lemma valid_NewSystemState: "consistent s \<Longrightarrow> valid s (NewSystemState ss s)"
  by (auto simp: NewSystemState_def Let_def valid_manager_call path_post_quiet
      split: operation_mode.split system_state.split)

lemma valid_caught: "valid s out \<Longrightarrow> \<exists>s'. caught out = Some s' \<and> path_post s s'"
  by (cases out) (auto simp: valid_def caught_def path_post_def State_def)

lemma valid_io_step:
  assumes "consistent s" "\<not> stale_step In_IoStep s"
  shows "\<exists>s'. io_step s = Some s' \<and> path_post s s'"
proof (cases "ioQueue s")
  case Nil
  then show ?thesis using assms(1) by (simp add: io_step_def path_post_quiet)
next
  case (Cons task rest)
  let ?s = "s\<lparr>ioQueue := rest\<rparr>"
  have "stale_completion c ?s = stale_completion c s" for c by (cases c) simp_all
  then have "valid ?s (run_task lc_call task ?s)"
    using assms Cons by (intro valid_task) auto
  then show ?thesis
    using Cons valid_caught [OF valid_left] by (simp add: io_step_def)
qed

lemma caught_bind_path:
  assumes "valid s out" and "\<And>t. path_post s t \<Longrightarrow> \<exists>s'. caught (k t) = Some s' \<and> path_post s s'"
  shows "\<exists>s'. caught (bind_outcome out k) = Some s' \<and> path_post s s'"
proof (cases out)
  case (Raised e t)
  then show ?thesis using valid_caught [OF assms(1)] by simp
qed (use assms in \<open>auto simp: valid_def\<close>)

lemma path_post_quiet_steps [simp]:
  "path_post s (post task t) \<longleftrightarrow> path_post s t"
  "path_post s (emit e t) \<longleftrightarrow> path_post s t"
  by (simp_all add: path_post_def State_def)

lemma valid_StartLifecycle:
  "consistent s \<Longrightarrow> \<exists>s'. caught (StartLifecycle ss s) = Some s' \<and> path_post s s'"
  by (auto simp: StartLifecycle_def Let_def CheckForValidConfiguration_def ReportError_def
      intro!: caught_bind_path valid_left [OF valid_NewSystemState])
    (auto simp: caught_def intro!: path_post_quiet split: operation_mode.split)

lemma input_step_path:
  assumes "consistent s" "\<not> stale_step i s"
  shows "\<exists>s'. lc_input_step i s = Some s' \<and> path_post s s'"
proof (cases i)
  case (In_StartLifecycle ss)
  then show ?thesis using valid_StartLifecycle [OF assms(1)] by simp
next
  case In_CreateTimeSyncService
  then show ?thesis using assms by (simp add: CreateTimeSyncService_def caught_def path_post_quiet)
next
  case (In_SystemState ss)
  then show ?thesis using assms by (simp add: valid_caught valid_NewSystemState)
next
  case (In_Reply from' uuid)
  then show ?thesis using assms valid_caught [OF valid_reply] by simp
next
  case In_AsyncSubscriptionsCompleted
  then show ?thesis using assms valid_caught [OF valid_async] by simp
next
  case In_IoStep
  then show ?thesis using valid_io_step assms by simp
qed (auto intro!: path_post_quiet intro: consistent_cong [OF assms(1)]
    simp: ReportError_def Pause_def Continue_def Stop_def
    AbortSimulation_def CompleteCommunicationReadyHandlerAsync_def
    SetCommunicationReadyHandler_def SetCommunicationReadyHandlerAsync_def SetStartingHandler_def
    SetStopHandler_def SetShutdownHandler_def SetAbortHandler_def SetLifecycleConfiguration_def
    ReceiveSystemCommand_def SetWorkflowConfiguration_def CheckForValidConfiguration_def
    NewParticipantStatus_def post_def emit_def Let_def split: system_command_kind.split)

lemma inputs_path:
  "consistent s \<Longrightarrow> no_stale is s \<Longrightarrow> \<exists>s'. lc_inputs is s = Some s' \<and> path_post s s'"
proof (induction "is" arbitrary: s)
  case Nil
  then show ?case by (simp add: path_post_quiet)
next
  case (Cons i "is")
  from input_step_path [OF Cons.prems(1), of i] Cons.prems(2)
  obtain t where t: "lc_input_step i s = Some t" "path_post s t" by auto
  from t Cons.prems(2) Cons.IH [OF path_post_consistent [OF t(2)]]
  obtain u where "lc_inputs is t = Some u" "path_post t u" by auto
  then show ?case using t path_post_trans by auto
qed

section \<open>An undisturbed start\<close>

text \<open>Tasks of the IO thread that only send the participant's status.\<close>

fun sends_status :: "io_task \<Rightarrow> bool" where
  "sends_status (T_SendStatus st) = True"
| "sends_status _ = False"

lemma SetState_frame [frame_simps]:
  "operationMode (SetState new reason s) = operationMode s"
  "timeSyncActive (SetState new reason s) = timeSyncActive s"
  "hasPendingAsyncSubscriptions (SetState new reason s) = hasPendingAsyncSubscriptions s"
  "commReadyHandler (SetState new reason s) = commReadyHandler s"
  "startingHandler (SetState new reason s) = startingHandler s"
  "participantReplies (SetState new reason s) = participantReplies s"
  "remoteReceivers (SetState new reason s) = remoteReceivers s"
  "published (SetState new reason s) = published s @ [GetParticipantState new]"
  "finalState (SetState new reason s) = finalState s"
  "list_all sends_status (ioQueue (SetState new reason s)) \<longleftrightarrow> list_all sends_status (ioQueue s)"
  by (simp_all add: SetState_def UpdateParticipantState_def UpdateLifecycleState_def
      ChangeParticipantState_def post_def State_def Let_def)

lemma set_executing_frame [frame_simps]:
  "operationMode (set_executing this b s) = operationMode s"
  "timeSyncActive (set_executing this b s) = timeSyncActive s"
  "hasPendingAsyncSubscriptions (set_executing this b s) = hasPendingAsyncSubscriptions s"
  "commReadyHandler (set_executing this b s) = commReadyHandler s"
  "startingHandler (set_executing this b s) = startingHandler s"
  "participantReplies (set_executing this b s) = participantReplies s"
  "remoteReceivers (set_executing this b s) = remoteReceivers s"
  "published (set_executing this b s) = published s"
  "finalState (set_executing this b s) = finalState s"
  "ioQueue (set_executing this b s) = ioQueue s"
  "abortRequested (set_executing this b s) = abortRequested s"
  "consistent (set_executing this b s) = consistent s"
  by (simp_all add: set_executing_def consistent_def State_def)

text \<open>An autonomous participant without user callbacks and time synchronization.\<close>

definition plain_autonomous :: "lifecycle \<Rightarrow> bool" where
  "plain_autonomous s \<longleftrightarrow>
     consistent s \<and> operationMode s = OM_Autonomous \<and> \<not> timeSyncActive s \<and>
     \<not> hasPendingAsyncSubscriptions s \<and> commReadyHandler s = None \<and> startingHandler s = None \<and>
     \<not> abortRequested s CommunicationInitializedState \<and> \<not> abortRequested s ReadyToRunState"

lemma plain_frame [simp]:
  "plain_autonomous s \<Longrightarrow> plain_autonomous (SetState new reason s)"
  "plain_autonomous s \<Longrightarrow> plain_autonomous (set_executing this b s)"
  "plain_autonomous s \<Longrightarrow> plain_autonomous (s\<lparr>participantReplies := p\<rparr>)"
  by (simp_all add: plain_autonomous_def frame_simps SetState_consistent)

definition started :: "lifecycle \<Rightarrow> participant_state list \<Rightarrow> lifecycle outcome \<Rightarrow> bool" where
  "started s ps out \<longleftrightarrow>
     (\<exists>s'. out = Done s' \<and> plain_autonomous s' \<and> currentState s' = RunningState \<and>
           published s' = published s @ ps \<and> participantReplies s' = participantReplies s \<and>
           finalState s' = finalState s \<and>
           list_all sends_status (ioQueue s') = list_all sends_status (ioQueue s))"

lemma plain_consistent: "plain_autonomous s \<Longrightarrow> consistent s"
  by (simp add: plain_autonomous_def)

lemma start_ReadyToRun:
  assumes "plain_autonomous s" "currentState s = ReadyToRunState"
  shows "started s [PS_Running] (lc_call ReadyToRunState I_CommunicationInitialized reason s)"
proof -
  have run: "lc_call ReadyToRunState I_ReadyToRun r s =
      Done (set_executing ReadyToRunState False (SetState RunningState
        ''Finished StartingHandler execution.'' (set_executing ReadyToRunState True s)))" for r
    unfolding lc_call_unfold [OF plain_consistent [OF assms(1)] assms(2)]
    using assms(1) by (simp add: plain_autonomous_def HandleStarting_def handle_callback_def frame_simps)
  have "lc_call ReadyToRunState I_CommunicationInitialized reason s =
      lc_call ReadyToRunState I_ReadyToRun ''ReadyToRun for autonomous participant.'' s"
    using lc_call_unfold [OF plain_consistent [OF assms(1)] assms(2),
        of I_CommunicationInitialized reason] assms
    by (simp add: manager_call_def plain_autonomous_def)
  then show ?thesis
    using assms(1) by (simp add: started_def run frame_simps)
qed

lemma start_CommunicationInitialized:
  assumes "plain_autonomous s" "currentState s = CommunicationInitializedState"
  shows "started s [PS_ReadyToRun, PS_Running]
    (lc_call CommunicationInitializedState I_CommunicationInitializing reason s)"
proof -
  let ?s = "set_executing CommunicationInitializedState True s"
  note unfold1 = lc_call_unfold [OF plain_consistent [OF assms(1)] assms(2)]
  have p: "plain_autonomous ?s" "currentState ?s = CommunicationInitializedState"
    using assms by simp_all
  note unfold2 = lc_call_unfold [OF plain_consistent [OF p(1)] p(2)]
  have init: "started s [PS_ReadyToRun, PS_Running]
      (lc_call CommunicationInitializedState I_CommunicationInitialized r s)" for r
  proof -
    have "started (SetState ReadyToRunState r ?s) [PS_Running]
        (lc_call CommunicationInitializedState I_CompleteCommunicationReadyHandler r ?s)"
      unfolding unfold2
      using start_ReadyToRun [of "SetState ReadyToRunState r ?s" r] p(1)
      by (simp add: SetStateAndForwardIntent_eq)
    then show ?thesis
      unfolding unfold1 started_def using assms(1)
      by (auto simp: HandleCommunicationReady_def frame_simps plain_autonomous_def)
  qed
  show ?thesis
    unfolding unfold1 using assms init by (simp add: plain_autonomous_def manager_call_def)
qed

lemma start_after_replies:
  assumes "plain_autonomous s"
  shows "started s [PS_CommunicationInitializing, PS_CommunicationInitialized, PS_ReadyToRun, PS_Running]
    (run_completion lc_call (AfterServicesCreated reason) s)"
proof -
  let ?s = "SetState CommunicationInitializingState reason s"
  have p: "plain_autonomous ?s" "currentState ?s = CommunicationInitializingState"
    using assms by simp_all
  note unfold = lc_call_unfold [OF plain_consistent [OF p(1)] p(2)]
  have q: "\<not> hasPendingAsyncSubscriptions ?s" using p(1) by (simp add: plain_autonomous_def)
  have next_call: "started ?s [PS_CommunicationInitialized, PS_ReadyToRun, PS_Running]
      (lc_call CommunicationInitializingState I_CommunicationInitializing reason ?s)"
    unfolding unfold
    using start_CommunicationInitialized [of "SetState CommunicationInitializedState reason ?s" reason] p q
    by (simp add: AddAsyncSubscriptionsCompletionHandler_def SetStateAndForwardIntent_eq
        frame_simps started_def)
  have "lc_call CommunicationInitializingState I_ServicesCreated reason ?s =
      lc_call CommunicationInitializingState I_CommunicationInitializing reason ?s"
    using unfold [of I_ServicesCreated reason] by (simp add: manager_call_def)
  then show ?thesis
    using next_call
    unfolding run_completion.simps SetStateAndForwardIntent_eq
    by (simp add: started_def frame_simps)
qed

text \<open>Call returns of the remote participants, in any order and number.\<close>

fun replies_in :: "(string \<times> nat) list \<Rightarrow> lc_input list" where
  "replies_in [] = []"
| "replies_in ((from, uuid) # rs) = In_Reply from uuid # replies_in rs"

definition start_inputs :: "system_state \<Rightarrow> string list \<Rightarrow> lc_input list" where
  "start_inputs ss names =
     [In_RemoteReceivers names, In_SetLifecycleConfiguration OM_Autonomous, In_StartLifecycle ss,
      In_IoStep, In_IoStep, In_IoStep, In_IoStep]"

lemma lc_inputs_append:
  "lc_inputs (xs @ ys) s = (case lc_inputs xs s of None \<Rightarrow> None | Some t \<Rightarrow> lc_inputs ys t)"
  by (induction xs arbitrary: s) (auto split: option.splits)

definition start_replies :: "string list \<Rightarrow> completion participant_replies" where
  "start_replies names =
     \<lparr>barrierActive = True, expectedParticipantsToSendCallReturns = remdups names,
      completionFunction = Some (AfterServicesCreated
        ''LifecycleService::StartLifecycle was called without start coordination.''),
      activeUuid = 1\<rparr>"

lemma run_start:
  assumes "names \<noteq> []"
  shows "\<exists>s. lc_inputs (start_inputs ss names) (init_lifecycle name) = Some s \<and> plain_autonomous s \<and>
    currentState s = ServicesCreatedState \<and> published s = [PS_ServicesCreated] \<and>
    participantReplies s = start_replies names"
proof -
  note step = io_step_def manager_call_def caught_def lc_call_def call_fuel_def numeral_eq_Suc
    SetState_def UpdateParticipantState_def UpdateLifecycleState_def ChangeParticipantState_def
    run_barrier_call_def CallAfterAllParticipantsReplied_def Let_def post_def emit_def
  show ?thesis
    using assms
    by (simp add: start_inputs_def init_lifecycle_def SetLifecycleConfiguration_def StartLifecycle_def NewSystemState_def
        HasRequiredParticipantNames_def step start_replies_def plain_autonomous_def consistent_def
        State_def init_replies_def)
qed

lemma replies_to_released:
  "\<not> barrierActive (participantReplies s) \<Longrightarrow> lc_inputs (replies_in rs) s = Some s"
proof (induction rs rule: replies_in.induct)
  case (2 from' uuid rs)
  then show ?case by (simp add: receive_reply_def ReceiveCallReturn_def caught_def)
qed simp

lemma path_Shutdown_last:
  "lifecycle_path p qs \<Longrightarrow> PS_Shutdown \<notin> set (butlast qs)"
proof (induction p qs rule: lifecycle_path.induct)
  case (2 p q qs)
  then show ?case by (cases qs) (auto simp: lifecycle_edge_def)
qed simp

lemma replies_to_waiting_start:
  assumes "plain_autonomous s" "waiting_for names 1 (AfterServicesCreated r) (participantReplies s)"
  shows "\<exists>s'. lc_inputs (replies_in rs) s = Some s' \<and> finalState s' = finalState s \<and>
    list_all sends_status (ioQueue s') = list_all sends_status (ioQueue s) \<and>
    (if set names \<subseteq> {from. (from, 1) \<in> set rs}
     then currentState s' = RunningState \<and> published s' = published s @
       [PS_CommunicationInitializing, PS_CommunicationInitialized, PS_ReadyToRun, PS_Running]
     else currentState s' = currentState s \<and> published s' = published s)"
  using assms
proof (induction rs arbitrary: s names)
  case Nil
  then show ?case by (auto simp: waiting_for_def)
next
  case (Cons x rs)
  obtain from' uuid where x: "x = (from', uuid)" by (cases x)
  let ?p = "participantReplies s"
  consider (other) "uuid \<noteq> 1" | (more) "uuid = 1" "removeAll from' names \<noteq> []"
    | (complete) "uuid = 1" "removeAll from' names = []" by blast
  then show ?case
  proof cases
    case other
    then have "lc_input_step (In_Reply from' uuid) s = Some s"
      using ReceiveCallReturn_waiting(1) [OF Cons.prems(2)]
      by (simp add: receive_reply_def caught_def)
    moreover have "{from. (from, 1) \<in> set (x # rs)} = {from. (from, 1) \<in> set rs}"
      using other x by auto
    ultimately show ?thesis using Cons.IH [OF Cons.prems] x by simp
  next
    case more
    from ReceiveCallReturn_waiting(2) [OF Cons.prems(2) more(2)] obtain p'
      where p': "ReceiveCallReturn from' 1 ?p = (None, False, p')"
        "waiting_for (removeAll from' names) 1 (AfterServicesCreated r) p'" by blast
    let ?s = "s\<lparr>participantReplies := p'\<rparr>"
    have "lc_input_step (In_Reply from' uuid) s = Some ?s"
      using p'(1) more(1) by (simp add: receive_reply_def caught_def)
    moreover have "set (removeAll from' names) \<subseteq> {from. (from, 1) \<in> set rs} \<longleftrightarrow>
        set names \<subseteq> {from. (from, 1) \<in> set (x # rs)}"
      using more(1) x by auto
    ultimately show ?thesis
      using Cons.IH [of ?s "removeAll from' names"] Cons.prems(1) p'(2) x
      by (simp cong: if_cong)
  next
    case complete
    from ReceiveCallReturn_waiting(3) [OF Cons.prems(2) complete(2)] obtain p'
      where p': "ReceiveCallReturn from' 1 ?p = (Some (AfterServicesCreated r), True, p')" by blast
    let ?s = "s\<lparr>participantReplies := p'\<rparr>"
    from start_after_replies [of ?s r] Cons.prems(1) obtain t where
      t: "run_completion lc_call (AfterServicesCreated r) ?s = Done t" "plain_autonomous t"
        "currentState t = RunningState" "participantReplies t = p'"
        "published t = published s @ [PS_CommunicationInitializing, PS_CommunicationInitialized,
           PS_ReadyToRun, PS_Running]"
        "finalState t = finalState s" "list_all sends_status (ioQueue t) = list_all sends_status (ioQueue s)"
      by (auto simp: started_def)
    let ?t = "t\<lparr>participantReplies := ReleaseBarrier p'\<rparr>"
    have "lc_input_step (In_Reply from' uuid) s = Some ?t"
      using p' complete(1) t(1,4) by (simp add: receive_reply_def caught_def)
    moreover have "lc_inputs (replies_in rs) ?t = Some ?t"
      using replies_to_released [of ?t] by (simp add: ReleaseBarrier_def)
    moreover have "set names \<subseteq> {from. (from, 1) \<in> set (x # rs)}"
      using complete x by (auto simp: removeAll_filter_not_eq filter_empty_conv)
    ultimately show ?thesis using t x by simp
  qed
qed

text \<open>The same start, with an abort while the participant waits for the answers.\<close>

definition aborted_start :: "system_state \<Rightarrow> string list \<Rightarrow> string \<Rightarrow> lc_input list" where
  "aborted_start ss names reason =
     start_inputs ss names @ In_AbortSimulation reason # replicate 5 In_IoStep"

lemma run_aborted_start:
  assumes "names \<noteq> []"
  shows "\<exists>s. lc_inputs (aborted_start ss names reason) (init_lifecycle name) = Some s \<and> plain_autonomous s \<and>
    currentState s = ShutdownState \<and> published s = [PS_ServicesCreated, PS_Aborting, PS_Shutdown] \<and>
    participantReplies s = start_replies names \<and> finalState s = None \<and> ioQueue s = []"
proof -
  note step = io_step_def manager_call_def caught_def lc_call_def call_fuel_def numeral_eq_Suc
    SetState_def UpdateParticipantState_def UpdateLifecycleState_def ChangeParticipantState_def
    run_barrier_call_def CallAfterAllParticipantsReplied_def Let_def post_def emit_def
    AbortSimulation_def manager_AbortSimulation_def SetStateAndForwardIntent_def HandleAbort_def handle_callback_def
    HandleShutdown_def
  show ?thesis
    using assms
    by (simp add: aborted_start_def start_inputs_def init_lifecycle_def SetLifecycleConfiguration_def
        StartLifecycle_def NewSystemState_def
        HasRequiredParticipantNames_def step start_replies_def plain_autonomous_def consistent_def
        State_def init_replies_def)
qed

lemma status_sends_change_nothing:
  "list_all sends_status (ioQueue s) \<Longrightarrow>
   \<exists>t. lc_inputs (replicate n In_IoStep) s = Some t \<and> currentState t = currentState s \<and>
     finalState t = finalState s \<and> published t = published s"
proof (induction n arbitrary: s)
  case (Suc n)
  show ?case
  proof (cases "ioQueue s")
    case Nil
    with Suc.IH [of s] show ?thesis by (simp add: io_step_def)
  next
    case (Cons a q)
    with Suc.prems obtain st where a: "a = T_SendStatus st" and q: "list_all sends_status q"
      by (cases a) auto
    let ?s = "emit (E_Status st) (s\<lparr>ioQueue := q\<rparr>)"
    have "io_step s = Some ?s" using Cons a by (simp add: io_step_def caught_def)
    with Suc.IH [of ?s] q show ?thesis by (simp add: emit_def)
  qed
qed simp

section \<open>Properties\<close>

text \<open>
  No interleaving of user calls, received messages, replies and turns of the IO
  thread gets the lifecycle service stuck or inconsistent: every input is processed, and
  the participant state it reports is always the one of its current state object (and it
  is \<open>consistent\<close>: when it is aborting it knows the state that the abort interrupted).
\<close>

theorem lifecycle_state_always_reported:
  "\<exists>s. lc_inputs is (init_lifecycle name) = Some s \<and>
       State s = GetParticipantState (currentState s) \<and> consistent s"
  using inputs_consistent [OF init_consistent, of "is" name] by (auto simp: consistent_def)

text \<open>
  Claim C4. In a run without stale completions, the states that the service publishes
  follow the transitions that the system state tracker of every other participant accepts,
  and \<open>Shutdown\<close> is only ever the last of them.
\<close>

theorem published_states_valid:
  assumes "no_stale is (init_lifecycle name)"
  shows "\<exists>s. lc_inputs is (init_lifecycle name) = Some s \<and>
    lifecycle_path PS_Invalid (published s) \<and>
    State s = last (PS_Invalid # published s) \<and>
    PS_Shutdown \<notin> set (butlast (published s))"
proof -
  obtain s where s: "lc_inputs is (init_lifecycle name) = Some s" "path_post (init_lifecycle name) s"
    using inputs_path [OF init_consistent assms] by blast
  have init: "State (init_lifecycle name) = PS_Invalid" "published (init_lifecycle name) = []"
    by (simp_all add: State_def init_lifecycle_def)
  with s(2) have path: "lifecycle_path PS_Invalid (published s)"
    "State s = last (PS_Invalid # published s)"
    by (auto simp: path_post_def)
  moreover have "PS_Shutdown \<notin> set (butlast (published s))"
    by (rule path_Shutdown_last [OF path(1)])
  ultimately show ?thesis using s(1) by blast
qed

theorem published_states_valid_witness:
  "\<exists>s. lc_inputs [In_SetLifecycleConfiguration OM_Autonomous, In_StartLifecycle SS_Invalid, In_IoStep,
          In_IoStep, In_IoStep, In_IoStep, In_Stop [], In_IoStep, In_IoStep, In_IoStep, In_IoStep,
          In_IoStep, In_IoStep, In_IoStep, In_IoStep, In_IoStep, In_IoStep] (init_lifecycle ''P'') = Some s \<and>
    lifecycle_path PS_Invalid (published s) \<and>
    State s = last (PS_Invalid # published s) \<and>
    PS_Shutdown \<notin> set (butlast (published s))"
  by (rule published_states_valid) code_simp

text \<open>
  Claim C5. An autonomous participant (without user callbacks and time synchronization)
  that starts its lifecycle among the remote participants \<open>names\<close> waits in
  \<open>ServicesCreated\<close>, whatever the state \<open>ss\<close> of the system is at the start, until each of
  them has answered its call, in whatever order, however often and mixed with whatever other
  call returns; then, and only then, it passes all the states up to \<open>Running\<close>.
\<close>

theorem autonomous_start_waits_for_all_replies:
  assumes "names \<noteq> []"
  shows "\<exists>s. lc_inputs (start_inputs ss names @ replies_in rs) (init_lifecycle name) = Some s \<and>
    (if set names \<subseteq> {from. (from, 1) \<in> set rs}
     then currentState s = RunningState \<and> published s = [PS_ServicesCreated,
       PS_CommunicationInitializing, PS_CommunicationInitialized, PS_ReadyToRun, PS_Running]
     else currentState s = ServicesCreatedState \<and> published s = [PS_ServicesCreated])"
proof -
  obtain s where s: "lc_inputs (start_inputs ss names) (init_lifecycle name) = Some s"
    "plain_autonomous s" "currentState s = ServicesCreatedState" "published s = [PS_ServicesCreated]"
    "participantReplies s = start_replies names"
    using run_start [OF assms] by blast
  have "waiting_for (remdups names) 1 (AfterServicesCreated
      ''LifecycleService::StartLifecycle was called without start coordination.'') (participantReplies s)"
    using s(5) assms by (simp add: start_replies_def waiting_for_def)
  from replies_to_waiting_start [OF s(2) this, of rs] obtain t where
    "lc_inputs (replies_in rs) s = Some t"
    "if set names \<subseteq> {from. (from, 1) \<in> set rs}
     then currentState t = RunningState \<and> published t = published s @
       [PS_CommunicationInitializing, PS_CommunicationInitialized, PS_ReadyToRun, PS_Running]
     else currentState t = currentState s \<and> published t = published s"
    by auto
  with s show ?thesis by (auto simp: lc_inputs_append split: if_splits)
qed

theorem autonomous_start_waits_for_all_replies_witness:
  "(\<exists>s. lc_inputs (start_inputs SS_Invalid [''Q'', ''R''] @ replies_in [(''R'', 1), (''R'', 7), (''Q'', 1)])
         (init_lifecycle ''P'') = Some s \<and>
      currentState s = RunningState) \<and>
   (\<exists>s. lc_inputs (start_inputs SS_Invalid [''Q'', ''R''] @ replies_in [(''R'', 1), (''R'', 7), (''Q'', 2)])
         (init_lifecycle ''P'') = Some s \<and>
      currentState s = ServicesCreatedState)"
proof
  show "\<exists>s. lc_inputs (start_inputs SS_Invalid [''Q'', ''R''] @ replies_in [(''R'', 1), (''R'', 7), (''Q'', 1)])
         (init_lifecycle ''P'') = Some s \<and> currentState s = RunningState"
    using autonomous_start_waits_for_all_replies [of "[''Q'', ''R'']"
        SS_Invalid "[(''R'', 1), (''R'', 7), (''Q'', 1)]" "''P''"] by auto
  show "\<exists>s. lc_inputs (start_inputs SS_Invalid [''Q'', ''R''] @ replies_in [(''R'', 1), (''R'', 7), (''Q'', 2)])
         (init_lifecycle ''P'') = Some s \<and> currentState s = ServicesCreatedState"
    using autonomous_start_waits_for_all_replies [of "[''Q'', ''R'']"
        SS_Invalid "[(''R'', 1), (''R'', 7), (''Q'', 2)]" "''P''"] by auto
qed

text \<open>
  Claim C15. The start-up barrier undoes an abort. An autonomous participant (without user
  callbacks and time synchronization) has started among the remote participants \<open>names\<close> and waits
  for their answers, when it executes an abort command: it publishes \<open>Aborting\<close> and
  \<open>Shutdown\<close>, as it should. But when all of them have answered, however their answers are mixed
  with other call returns, it leaves \<open>Shutdown\<close> and passes the states up to \<open>Running\<close>, because the
  completion of the barrier does not ask for the current state; and however long the IO thread
  goes on, the final state is not set, because the shutdown's own call was dropped at the
  busy barrier.
\<close>

theorem abort_overtaken_by_reply_barrier:
  assumes "names \<noteq> []" and "set names \<subseteq> {from. (from, 1) \<in> set rs}"
  shows "\<exists>s t. lc_inputs (aborted_start ss names reason) (init_lifecycle name) = Some s \<and>
      currentState s = ShutdownState \<and> published s = [PS_ServicesCreated, PS_Aborting, PS_Shutdown] \<and>
      lc_inputs (replies_in rs @ replicate n In_IoStep) s = Some t \<and>
      currentState t = RunningState \<and> finalState t = None \<and>
      published t = published s @ [PS_CommunicationInitializing, PS_CommunicationInitialized,
        PS_ReadyToRun, PS_Running]"
proof -
  obtain s where s: "lc_inputs (aborted_start ss names reason) (init_lifecycle name) = Some s"
    "plain_autonomous s" "currentState s = ShutdownState"
    "published s = [PS_ServicesCreated, PS_Aborting, PS_Shutdown]"
    "participantReplies s = start_replies names" "finalState s = None" "ioQueue s = []"
    using run_aborted_start [OF assms(1)] by blast
  have "waiting_for (remdups names) 1 (AfterServicesCreated
      ''LifecycleService::StartLifecycle was called without start coordination.'') (participantReplies s)"
    using s(5) assms(1) by (simp add: start_replies_def waiting_for_def)
  from replies_to_waiting_start [OF s(2) this, of rs] assms(2) s obtain t where
    t: "lc_inputs (replies_in rs) s = Some t" "finalState t = None" "list_all sends_status (ioQueue t)"
      "currentState t = RunningState" "published t = published s @
         [PS_CommunicationInitializing, PS_CommunicationInitialized, PS_ReadyToRun, PS_Running]"
    by auto
  from status_sends_change_nothing [OF t(3), of n] t s show ?thesis
    by (auto simp: lc_inputs_append)
qed

theorem abort_overtaken_by_reply_barrier_witness:
  "\<exists>s t. lc_inputs (aborted_start SS_Invalid [''Q'', ''R''] ''stop'') (init_lifecycle ''P'') = Some s \<and>
     currentState s = ShutdownState \<and>
     lc_inputs (replies_in [(''R'', 1), (''R'', 7), (''Q'', 1)] @ replicate 20 In_IoStep) s = Some t \<and>
     currentState t = RunningState \<and> finalState t = None"
  using abort_overtaken_by_reply_barrier [where names = "[''Q'', ''R'']" and
      rs = "[(''R'', 1), (''R'', 7), (''Q'', 1)]" and ss = SS_Invalid and reason = "''stop''" and
      name = "''P''" and n = 20] by auto

end
