(* ===== verification/TimeConfiguration.thy ===== *)
theory TimeConfiguration
  imports OrchestrationTypes
begin

text \<open>
  The virtual time of a participant and what it knows about the others
  (\<open>services/orchestration/TimeConfiguration.cpp\<close>). Time points and durations are counts of
  nanoseconds; the code keeps them in 64 bit signed integers whose overflow is undefined
  behaviour, here they are unbounded. \<open>nanoseconds_max\<close> is the sentinel
  \<open>std::chrono::nanoseconds::max()\<close>. Logging and the mutex are not modelled.
\<close>

section \<open>State and operations\<close>

record time_configuration =
  currentTask :: next_sim_task
  myNextTask :: next_sim_task
  otherNextTasks :: "(string \<times> next_sim_task) list"
  blocking :: bool
  hoppedOn :: bool
  dynamicStepSizeEnabled :: bool

definition nanoseconds_max :: int where
  "nanoseconds_max = 9223372036854775807"

definition Initialize :: "time_configuration \<Rightarrow> time_configuration" where
  "Initialize c =
     c\<lparr>currentTask := \<lparr>timePoint = - 1, duration = 0\<rparr>,
       myNextTask := (myNextTask c)\<lparr>timePoint := 0\<rparr>,
       hoppedOn := False\<rparr>"

definition init_configuration :: time_configuration where
  "init_configuration =
     Initialize \<lparr>currentTask = \<lparr>timePoint = 0, duration = 0\<rparr>,
                 myNextTask = \<lparr>timePoint = 0, duration = 1000000\<rparr>,
                 otherNextTasks = [], blocking = False, hoppedOn = False,
                 dynamicStepSizeEnabled = False\<rparr>"

definition SetDynamicStepSizeEnabled :: "bool \<Rightarrow> time_configuration \<Rightarrow> time_configuration" where
  "SetDynamicStepSizeEnabled enabled c = c\<lparr>dynamicStepSizeEnabled := enabled\<rparr>"

definition SetBlockingMode :: "bool \<Rightarrow> time_configuration \<Rightarrow> time_configuration" where
  "SetBlockingMode b c = c\<lparr>blocking := b\<rparr>"

definition AddSynchronizedParticipant :: "string \<Rightarrow> time_configuration \<Rightarrow> time_configuration" where
  "AddSynchronizedParticipant name c =
     (if map_of (otherNextTasks c) name \<noteq> None then c
      else c\<lparr>otherNextTasks :=
               AList.update name \<lparr>timePoint = - 1, duration = 0\<rparr> (otherNextTasks c)\<rparr>)"

definition RemoveSynchronizedParticipant ::
    "string \<Rightarrow> time_configuration \<Rightarrow> bool \<times> time_configuration" where
  "RemoveSynchronizedParticipant name c =
     (if map_of (otherNextTasks c) name \<noteq> None
      then (True, c\<lparr>otherNextTasks := AList.delete name (otherNextTasks c)\<rparr>)
      else (False, c))"

definition GetSynchronizedParticipantNames :: "time_configuration \<Rightarrow> string list" where
  "GetSynchronizedParticipantNames c = map fst (otherNextTasks c)"

text \<open>A task with a lower time point than the last one is logged, and stored all the same.\<close>

definition OnReceiveNextSimStep ::
    "string \<Rightarrow> next_sim_task \<Rightarrow> time_configuration \<Rightarrow> time_configuration" where
  "OnReceiveNextSimStep name nextStep c =
     (if map_of (otherNextTasks c) name = None then c
      else c\<lparr>otherNextTasks := AList.update name nextStep (otherNextTasks c)\<rparr>)"

definition SetStepDuration :: "int \<Rightarrow> time_configuration \<Rightarrow> time_configuration result" where
  "SetStepDuration d c =
     (if d = 0 then Inl SilKitError
      else Inr (c\<lparr>myNextTask := (myNextTask c)\<lparr>duration := d\<rparr>\<rparr>))"

text \<open>The loop over the other tasks; both the start and the end of a step count.\<close>

fun earliest_after :: "int \<Rightarrow> (string \<times> next_sim_task) list \<Rightarrow> int \<Rightarrow> int" where
  "earliest_after now [] earliest = earliest"
| "earliest_after now ((name, task) # rest) earliest =
     (let nextStepStart = timePoint task;
          nextStepEnd = timePoint task + duration task;
          e1 = (if nextStepStart > now then min earliest nextStepStart else earliest);
          e2 = (if nextStepEnd > now then min e1 nextStepEnd else e1)
      in earliest_after now rest e2)"

definition GetMinimalAlignedDuration :: "time_configuration \<Rightarrow> int" where
  "GetMinimalAlignedDuration c =
     (if otherNextTasks c = [] then nanoseconds_max
      else
        let earliest = earliest_after (timePoint (currentTask c)) (otherNextTasks c) nanoseconds_max;
            minAlignedDuration = earliest - timePoint (currentTask c)
        in if minAlignedDuration < 0 then nanoseconds_max else minAlignedDuration)"

definition AdvanceTimeStep :: "time_configuration \<Rightarrow> time_configuration" where
  "AdvanceTimeStep c =
     (let c1 = c\<lparr>currentTask := myNextTask c\<rparr>;
          c2 = (if dynamicStepSizeEnabled c1 \<and>
                   GetMinimalAlignedDuration c1 < duration (currentTask c1)
                then c1\<lparr>currentTask := (currentTask c1)\<lparr>duration := GetMinimalAlignedDuration c1\<rparr>\<rparr>
                else c1)
      in c2\<lparr>myNextTask := (myNextTask c2)
              \<lparr>timePoint := timePoint (currentTask c2) + duration (currentTask c2)\<rparr>\<rparr>)"

definition OtherParticipantHasLowerTimepoint :: "time_configuration \<Rightarrow> bool" where
  "OtherParticipantHasLowerTimepoint c \<longleftrightarrow>
     list_ex (\<lambda>(name, task). timePoint (myNextTask c) > timePoint task) (otherNextTasks c)"

text \<open>
  \<open>IsHopOn\<close>: whether another participant has advanced beyond its first step, and the
  least of those time points.
\<close>

definition advanced_tasks :: "time_configuration \<Rightarrow> next_sim_task list" where
  "advanced_tasks c =
     filter (\<lambda>task. timePoint task > duration task) (map snd (otherNextTasks c))"

definition IsHopOn :: "time_configuration \<Rightarrow> bool \<times> time_configuration" where
  "IsHopOn c =
     (if timePoint (currentTask c) = - 1
      then
        let c1 = c\<lparr>hoppedOn := hoppedOn c \<or> advanced_tasks c \<noteq> []\<rparr>;
            minimalOtherTime =
              fold (\<lambda>task m. if timePoint task < m then timePoint task else m)
                (advanced_tasks c) nanoseconds_max
        in if hoppedOn c1
           then (True, c1\<lparr>myNextTask := (myNextTask c1)\<lparr>timePoint := minimalOtherTime\<rparr>\<rparr>)
           else (False, c1)
      else (False, c))"

section \<open>The aligned duration\<close>

lemma earliest_after_le: "earliest_after now xs e \<le> e"
proof (induction xs arbitrary: e)
  case (Cons x xs)
  obtain name task where x: "x = (name, task)" by (cases x)
  show ?case unfolding x earliest_after.simps Let_def
    by (rule order_trans [OF Cons.IH]) auto
qed simp

lemma earliest_after_gt: "now < e \<Longrightarrow> now < earliest_after now xs e"
proof (induction xs arbitrary: e)
  case (Cons x xs)
  obtain name task where x: "x = (name, task)" by (cases x)
  show ?case unfolding x earliest_after.simps Let_def
    using Cons.prems by (intro Cons.IH) auto
qed simp

lemma earliest_after_ge: "now \<le> e \<Longrightarrow> now \<le> earliest_after now xs e"
proof (induction xs arbitrary: e)
  case (Cons x xs)
  obtain name task where x: "x = (name, task)" by (cases x)
  show ?case unfolding x earliest_after.simps Let_def
    using Cons.prems by (intro Cons.IH) auto
qed simp

lemma earliest_after_bound:
  assumes "(name, task) \<in> set xs"
  shows "timePoint task > now \<Longrightarrow> earliest_after now xs e \<le> timePoint task"
    and "timePoint task + duration task > now \<Longrightarrow>
      earliest_after now xs e \<le> timePoint task + duration task"
  using assms
proof (induction xs arbitrary: e)
  case (Cons x xs)
  obtain n t where x: "x = (n, t)" by (cases x)
  {
    case 1
    then show ?case unfolding x earliest_after.simps Let_def
      using Cons.IH(1) x by (auto intro: order_trans [OF earliest_after_le])
  next
    case 2
    then show ?case unfolding x earliest_after.simps Let_def
      using Cons.IH(2) x by (auto intro: order_trans [OF earliest_after_le])
  }
qed simp_all

lemma earliest_after_attained:
  "earliest_after now xs e = e \<or>
   (\<exists>(name, task) \<in> set xs. earliest_after now xs e \<in> {timePoint task, timePoint task + duration task})"
proof (induction xs arbitrary: e)
  case (Cons x xs)
  obtain name task where x: "x = (name, task)" by (cases x)
  let ?e1 = "if timePoint task > now then min e (timePoint task) else e"
  let ?e2 = "if timePoint task + duration task > now
             then min ?e1 (timePoint task + duration task) else ?e1"
  have "?e2 \<in> {e, timePoint task, timePoint task + duration task}" by (auto simp: min_def)
  then show ?case unfolding x earliest_after.simps Let_def using Cons.IH [of ?e2] by auto
qed simp

lemma aligned_positive:
  "timePoint (currentTask c) < nanoseconds_max \<Longrightarrow> 0 < nanoseconds_max \<Longrightarrow>
    0 < GetMinimalAlignedDuration c"
  using earliest_after_gt [of "timePoint (currentTask c)" nanoseconds_max "otherNextTasks c"]
  by (auto simp: GetMinimalAlignedDuration_def Let_def)

text \<open>
  The branch of \<open>GetMinimalAlignedDuration\<close> that reports a chronology error is not
  reachable: the earliest time point after the current one is not before it.
\<close>

lemma no_chronology_error:
  "timePoint (currentTask c) \<le> nanoseconds_max \<Longrightarrow>
    0 \<le> earliest_after (timePoint (currentTask c)) (otherNextTasks c) nanoseconds_max
        - timePoint (currentTask c)"
  using earliest_after_ge [of "timePoint (currentTask c)" nanoseconds_max "otherNextTasks c"] by simp

lemma GetMinimalAlignedDuration_eq:
  assumes "timePoint (currentTask c) \<le> nanoseconds_max" "otherNextTasks c \<noteq> []"
  shows "GetMinimalAlignedDuration c =
    earliest_after (timePoint (currentTask c)) (otherNextTasks c) nanoseconds_max
      - timePoint (currentTask c)"
  using assms no_chronology_error [OF assms(1)] by (simp add: GetMinimalAlignedDuration_def Let_def)

section \<open>Advancing the time\<close>

lemma AdvanceTimeStep_simps:
  "timePoint (currentTask (AdvanceTimeStep c)) = timePoint (myNextTask c)"
  "otherNextTasks (AdvanceTimeStep c) = otherNextTasks c"
  "duration (myNextTask (AdvanceTimeStep c)) = duration (myNextTask c)"
  "timePoint (myNextTask (AdvanceTimeStep c)) =
     timePoint (myNextTask c) + duration (currentTask (AdvanceTimeStep c))"
  "blocking (AdvanceTimeStep c) = blocking c"
  "hoppedOn (AdvanceTimeStep c) = hoppedOn c"
  "dynamicStepSizeEnabled (AdvanceTimeStep c) = dynamicStepSizeEnabled c"
  by (simp_all add: AdvanceTimeStep_def Let_def)

lemma AdvanceTimeStep_duration:
  "duration (currentTask (AdvanceTimeStep c)) =
     (if dynamicStepSizeEnabled c
      then min (duration (myNextTask c)) (GetMinimalAlignedDuration (c\<lparr>currentTask := myNextTask c\<rparr>))
      else duration (myNextTask c))"
  by (simp add: AdvanceTimeStep_def Let_def)

lemma AdvanceTimeStep_positive:
  assumes "0 < duration (myNextTask c)" "timePoint (myNextTask c) < nanoseconds_max"
  shows "0 < duration (currentTask (AdvanceTimeStep c))"
  using assms aligned_positive [of "c\<lparr>currentTask := myNextTask c\<rparr>"]
  by (simp add: AdvanceTimeStep_duration nanoseconds_max_def)

text \<open>
  Claim C13. With dynamic step sizes, the step that a participant takes from its next time
  point is positive and at most its configured duration; no announced step of another
  participant starts or ends strictly inside it; and it is as long as that allows: it has
  its configured duration, or ends where an announced step of another participant starts or
  ends. (The configured end of the step is assumed to be representable.)
\<close>

theorem dynamic_step_is_aligned:
  assumes "dynamicStepSizeEnabled c" "0 < duration (myNextTask c)"
    "0 \<le> timePoint (myNextTask c)"
    "timePoint (myNextTask c) + duration (myNextTask c) \<le> nanoseconds_max"
  shows "let c' = AdvanceTimeStep c; t = timePoint (currentTask c'); d = duration (currentTask c');
             bounds = concat (map (\<lambda>(name, task). [timePoint task, timePoint task + duration task])
                        (otherNextTasks c))
         in t = timePoint (myNextTask c) \<and> 0 < d \<and> d \<le> duration (myNextTask c) \<and>
            (\<forall>b \<in> set bounds. \<not> (t < b \<and> b < t + d)) \<and>
            (d = duration (myNextTask c) \<or> t + d \<in> set bounds) \<and>
            timePoint (myNextTask c') = t + d"
proof -
  let ?t = "timePoint (myNextTask c)" and ?d = "duration (currentTask (AdvanceTimeStep c))"
  let ?bounds = "concat (map (\<lambda>(name, task). [timePoint task, timePoint task + duration task])
                        (otherNextTasks c))"
  have d: "?d = min (duration (myNextTask c)) (GetMinimalAlignedDuration (c\<lparr>currentTask := myNextTask c\<rparr>))"
    using assms(1) by (simp add: AdvanceTimeStep_duration)
  have le: "timePoint (myNextTask c) \<le> nanoseconds_max" using assms(2,4) by linarith
  have aligned: "otherNextTasks c \<noteq> [] \<Longrightarrow>
      GetMinimalAlignedDuration (c\<lparr>currentTask := myNextTask c\<rparr>) =
      earliest_after ?t (otherNextTasks c) nanoseconds_max - ?t"
    using GetMinimalAlignedDuration_eq [of "c\<lparr>currentTask := myNextTask c\<rparr>"] le by simp
  have pos: "0 < ?d" using AdvanceTimeStep_positive [of c] assms(2,4) by linarith
  have inside: "\<not> (?t < b \<and> b < ?t + ?d)" if "b \<in> set ?bounds" for b
  proof -
    from that obtain name task where task: "(name, task) \<in> set (otherNextTasks c)"
      "b = timePoint task \<or> b = timePoint task + duration task" by fastforce
    then have "otherNextTasks c \<noteq> []" by auto
    with task earliest_after_bound [OF task(1), of ?t nanoseconds_max] d aligned
    show ?thesis by auto
  qed
  have ends: "?d = duration (myNextTask c) \<or> ?t + ?d \<in> set ?bounds"
  proof (cases "?d = duration (myNextTask c)")
    case False
    then have "otherNextTasks c \<noteq> []"
      using d pos assms by (auto simp: GetMinimalAlignedDuration_def min_def split: if_splits)
    with False have  "?t + ?d = earliest_after ?t (otherNextTasks c) nanoseconds_max"
      using d aligned by (auto simp: min_def split: if_splits)
    moreover have "?t + ?d < nanoseconds_max" using False d assms(4) by simp
    ultimately show ?thesis
      using earliest_after_attained [of ?t "otherNextTasks c" nanoseconds_max] by fastforce
  qed simp
  have "?d \<le> duration (myNextTask c)" using d by simp
  then show ?thesis
    unfolding Let_def AdvanceTimeStep_simps using inside ends pos by blast
qed

definition aligned_example :: time_configuration where
  "aligned_example = init_configuration
     \<lparr>myNextTask := \<lparr>timePoint = 10, duration = 5\<rparr>, dynamicStepSizeEnabled := True,
      otherNextTasks := [(''B'', \<lparr>timePoint = 12, duration = 9\<rparr>),
                         (''C'', \<lparr>timePoint = 10, duration = 3\<rparr>)]\<rparr>"

theorem dynamic_step_is_aligned_witness:
  "let c' = AdvanceTimeStep aligned_example;
       t = timePoint (currentTask c'); d = duration (currentTask c');
       bounds = concat (map (\<lambda>(name, task). [timePoint task, timePoint task + duration task])
                  (otherNextTasks aligned_example))
   in t = timePoint (myNextTask aligned_example) \<and> 0 < d \<and>
      d \<le> duration (myNextTask aligned_example) \<and>
      (\<forall>b \<in> set bounds. \<not> (t < b \<and> b < t + d)) \<and>
      (d = duration (myNextTask aligned_example) \<or> t + d \<in> set bounds) \<and>
      timePoint (myNextTask c') = t + d"
  by (rule dynamic_step_is_aligned) (simp_all add: aligned_example_def nanoseconds_max_def)

end
