(* ===== verification/TimeSync.thy ===== *)
theory TimeSync
  imports TimeConfiguration Handlers
begin

text \<open>
  The time synchronization of one participant
  (\<open>services/orchestration/TimeSyncService.cpp\<close>): the policies, the service with its
  deferred tasks, and the service discovery handler. What the lifecycle service and the
  system monitor report is read from \<open>view\<close>; the user's simulation step handler is a
  function from the step to what it does. Logging, metrics and the stop watches are not
  modelled, nor are the waits of the wall clock thread, whose loop body is
  \<open>wall_clock_reached\<close>.
\<close>

section \<open>State\<close>

text \<open>What the simulation step handler does before it returns or throws.\<close>

record step_reaction =
  reaction_stop :: bool
  reaction_pause :: bool
  reaction_complete :: bool
  reaction_throws :: bool

record lifecycle_view =
  view_state :: participant_state
  view_stopRequested :: bool
  view_pauseRequested :: bool
  view_operationMode :: operation_mode
  view_timeSyncActive :: bool
  view_systemState :: system_state

record synchronized_policy =
  isExecutingSimStep :: bool
  lastSentNextSimTask :: int
  hopOnEvaluated :: bool

datatype time_sync_policy = UnsynchronizedPolicy | SynchronizedPolicy synchronized_policy

datatype ts_task = TT_ProcessSimulationTimeUpdate | TT_RequestNextStep | TT_CompleteSimulationStep

datatype ts_effect =
    TE_SimStep int int
  | TE_AbortSimulation
  | TE_ReportError participant_state
  | TE_OtherSimulationStepsCompleted nat
  | TE_StartWallClockThread int
  | TE_StopWallClockThread

record time_sync =
  timeConfiguration :: time_configuration
  timeSyncPolicy :: "time_sync_policy option"
  isSynchronizingVirtualTime :: bool
  timeSyncConfigured :: bool
  simTask :: "(int \<Rightarrow> int \<Rightarrow> step_reaction) option"
  isCoupledToWallClock :: bool
  currentWallClockSyncPoint :: int
  wallClockCouplingThreadRunning :: bool
  wallClockReachedBeforeCompletion :: bool
  otherSimulationStepsCompletedHandlers :: "nat handlers"
  dynamicStepConfig :: "bool option"
  dynamicStepPeers :: "string list"
  advertisedTimeSync :: "(bool \<times> bool) option"
  providerTime :: int
  watchDogRunning :: bool
  incapableParticipants :: "string list"
  view :: lifecycle_view
  deferred :: "ts_task list"
  sentTasks :: "next_sim_task list"
  ts_effects :: "ts_effect list"

section \<open>What the service offers to its policy\<close>

definition defer_task :: "ts_task \<Rightarrow> time_sync \<Rightarrow> time_sync" where
  "defer_task task s = s\<lparr>deferred := deferred s @ [task]\<rparr>"

definition SendNextSimTask :: "next_sim_task \<Rightarrow> time_sync \<Rightarrow> time_sync" where
  "SendNextSimTask task s = s\<lparr>sentTasks := sentTasks s @ [task]\<rparr>"

definition record_effect :: "ts_effect \<Rightarrow> time_sync \<Rightarrow> time_sync" where
  "record_effect e s = s\<lparr>ts_effects := ts_effects s @ [e]\<rparr>"

definition set_policy :: "synchronized_policy \<Rightarrow> time_sync \<Rightarrow> time_sync" where
  "set_policy p s = s\<lparr>timeSyncPolicy := Some (SynchronizedPolicy p)\<rparr>"

definition ParticipantHasAutonomousSynchronousCapability :: "string \<Rightarrow> time_sync \<Rightarrow> bool" where
  "ParticipantHasAutonomousSynchronousCapability name s \<longleftrightarrow>
     \<not> (view_operationMode (view s) = OM_Autonomous \<and> view_timeSyncActive (view s) \<and>
        name \<in> set (incapableParticipants s))"

definition AbortHopOnForCoordinatedParticipants :: "time_sync \<Rightarrow> bool \<times> time_sync" where
  "AbortHopOnForCoordinatedParticipants s =
     (if view_operationMode (view s) = OM_Coordinated
      then (True, record_effect TE_AbortSimulation s) else (False, s))"

definition StartWallClockCouplingThread :: "int \<Rightarrow> time_sync \<Rightarrow> time_sync" where
  "StartWallClockCouplingThread startTimeOffset s =
     record_effect (TE_StartWallClockThread startTimeOffset)
       (s\<lparr>wallClockCouplingThreadRunning := True, currentWallClockSyncPoint := startTimeOffset\<rparr>)"

definition StopWallClockCouplingThread :: "time_sync \<Rightarrow> time_sync" where
  "StopWallClockCouplingThread s =
     (if wallClockCouplingThreadRunning s
      then record_effect TE_StopWallClockThread (s\<lparr>wallClockCouplingThreadRunning := False\<rparr>)
      else s)"

definition InvokeOtherSimulationStepsCompletedHandlers :: "time_sync \<Rightarrow> time_sync" where
  "InvokeOtherSimulationStepsCompletedHandlers s =
     s\<lparr>ts_effects := ts_effects s @
         map TE_OtherSimulationStepsCompleted (InvokeAll (otherSimulationStepsCompletedHandlers s))\<rparr>"

text \<open>
  \<open>ExecuteSimStep\<close>: the handler sets the stop and pause flags of the lifecycle service at
  once; \<open>CompleteSimulationStep\<close>, if it calls it, only defers a task.
\<close>

definition ExecuteSimStep :: "int \<Rightarrow> int \<Rightarrow> time_sync \<Rightarrow> time_sync outcome" where
  "ExecuteSimStep tp d s =
     (case simTask s of
        None \<Rightarrow> Raised AssertionError s
      | Some task \<Rightarrow>
          let s1 = s\<lparr>providerTime := tp, watchDogRunning := True\<rparr>;
              r = task tp d;
              s2 = record_effect (TE_SimStep tp d) s1;
              s3 = s2\<lparr>view := (view s2)
                     \<lparr>view_stopRequested := view_stopRequested (view s2) \<or> reaction_stop r,
                      view_pauseRequested := view_pauseRequested (view s2) \<or> reaction_pause r\<rparr>\<rparr>;
              s4 = (if reaction_complete r then defer_task TT_CompleteSimulationStep s3 else s3)
          in if reaction_throws r then Raised UserException s4
             else Done (s4\<lparr>watchDogRunning := False\<rparr>))"

section \<open>The synchronized policy\<close>

definition policy_RequestNextStep :: "synchronized_policy \<Rightarrow> time_sync \<Rightarrow> time_sync" where
  "policy_RequestNextStep p s =
     (if view_state (view s) = PS_Running \<and> \<not> view_stopRequested (view s) \<and>
         \<not> view_pauseRequested (view s)
      then
        let next = myNextTask (timeConfiguration s);
            s1 = (if lastSentNextSimTask p \<noteq> timePoint next
                  then SendNextSimTask next (set_policy (p\<lparr>lastSentNextSimTask := timePoint next\<rparr>) s)
                  else s)
        in defer_task TT_ProcessSimulationTimeUpdate s1
      else s)"

text \<open>
  The virtual call. It is only made once the policy is set up, when the lifecycle starts.
\<close>

definition TimeSyncPolicy_RequestNextStep :: "time_sync \<Rightarrow> time_sync" where
  "TimeSyncPolicy_RequestNextStep s =
     (case timeSyncPolicy s of
        Some (SynchronizedPolicy p) \<Rightarrow> policy_RequestNextStep p s
      | _ \<Rightarrow> s)"

definition IsTimeAdvancePossible :: "time_sync \<Rightarrow> bool" where
  "IsTimeAdvancePossible s =
     (if view_state (view s) \<noteq> PS_Running then False
      else if view_stopRequested (view s) \<or> view_pauseRequested (view s) then False
      else if view_operationMode (view s) = OM_Coordinated \<and> view_systemState (view s) = SS_Error
      then False
      else if OtherParticipantHasLowerTimepoint (timeConfiguration s) then False
      else if isCoupledToWallClock s \<and>
              timePoint (myNextTask (timeConfiguration s)) > currentWallClockSyncPoint s
      then False
      else True)"

text \<open>
  The first step: whether the participant hops on a running simulation, and whether that
  is refused. The result says whether to go on.
\<close>

definition evaluate_hop_on :: "synchronized_policy \<Rightarrow> time_sync \<Rightarrow> bool \<times> time_sync" where
  "evaluate_hop_on p s =
     (if hopOnEvaluated p then (True, s)
      else
        let s1 = set_policy (p\<lparr>hopOnEvaluated := True\<rparr>) s;
            (hop, c) = IsHopOn (timeConfiguration s1);
            s2 = s1\<lparr>timeConfiguration := c\<rparr>;
            (refused, s3) = (if hop then AbortHopOnForCoordinatedParticipants s2 else (False, s2))
        in if refused then (False, s3)
           else (True, if isCoupledToWallClock s3
                       then StartWallClockCouplingThread (timePoint (myNextTask (timeConfiguration s3))) s3
                       else s3))"

definition AdvanceTimeAndExecuteSimStep :: "synchronized_policy \<Rightarrow> time_sync \<Rightarrow> time_sync outcome" where
  "AdvanceTimeAndExecuteSimStep p s =
     (if view_state (view s) = PS_Paused \<or> view_state (view s) = PS_Running
      then
        let (go_on, s1) = evaluate_hop_on p s
        in if \<not> go_on then Done s1
           else
             let s2 = s1\<lparr>timeConfiguration := AdvanceTimeStep (timeConfiguration s1)\<rparr>;
                 currentStep = currentTask (timeConfiguration s2)
             in ExecuteSimStep (timePoint currentStep) (duration currentStep) s2
      else Done s)"

definition AdvanceTimeSimStepSync :: "synchronized_policy \<Rightarrow> time_sync \<Rightarrow> time_sync outcome" where
  "AdvanceTimeSimStepSync p s =
     bind_outcome (AdvanceTimeAndExecuteSimStep p s) (\<lambda>s.
       if \<not> view_pauseRequested (view s) \<and> \<not> isCoupledToWallClock s
       then Done (TimeSyncPolicy_RequestNextStep s)
       else Done s)"

definition AdvanceTimeSimStepAsync :: "synchronized_policy \<Rightarrow> time_sync \<Rightarrow> time_sync outcome" where
  "AdvanceTimeSimStepAsync p s =
     (if isExecutingSimStep p then Done (InvokeOtherSimulationStepsCompletedHandlers s)
      else
        let p1 = p\<lparr>isExecutingSimStep := True\<rparr>
        in AdvanceTimeAndExecuteSimStep p1 (set_policy p1 s))"

definition policy_ProcessSimulationTimeUpdate :: "synchronized_policy \<Rightarrow> time_sync \<Rightarrow> time_sync outcome" where
  "policy_ProcessSimulationTimeUpdate p s =
     (if IsTimeAdvancePossible s
      then if blocking (timeConfiguration s)
           then AdvanceTimeSimStepSync p s
           else AdvanceTimeSimStepAsync p s
      else Done s)"

definition TimeSyncPolicy_ProcessSimulationTimeUpdate :: "time_sync \<Rightarrow> time_sync outcome" where
  "TimeSyncPolicy_ProcessSimulationTimeUpdate s =
     (case timeSyncPolicy s of
        Some (SynchronizedPolicy p) \<Rightarrow> policy_ProcessSimulationTimeUpdate p s
      | _ \<Rightarrow> Done s)"

definition policy_ReceiveNextSimTask ::
    "synchronized_policy \<Rightarrow> string \<Rightarrow> next_sim_task \<Rightarrow> time_sync \<Rightarrow> time_sync outcome" where
  "policy_ReceiveNextSimTask p from task s =
     (let s1 = s\<lparr>timeConfiguration := OnReceiveNextSimStep from task (timeConfiguration s)\<rparr>
      in case view_state (view s1) of
           PS_Paused \<Rightarrow> policy_ProcessSimulationTimeUpdate p s1
         | PS_Running \<Rightarrow> policy_ProcessSimulationTimeUpdate p s1
         | PS_Aborting \<Rightarrow> Done (record_effect (TE_ReportError (view_state (view s1))) s1)
         | _ \<Rightarrow> Done s1)"

section \<open>The service\<close>

definition TimeSyncService_ReceiveMsg :: "string \<Rightarrow> next_sim_task \<Rightarrow> time_sync \<Rightarrow> time_sync outcome" where
  "TimeSyncService_ReceiveMsg from task s =
     (case timeSyncPolicy s of
        Some (SynchronizedPolicy p) \<Rightarrow> policy_ReceiveNextSimTask p from task s
      | _ \<Rightarrow> Done s)"

definition TimeSyncService_RequestNextStep :: "time_sync \<Rightarrow> time_sync" where
  "TimeSyncService_RequestNextStep s = defer_task TT_RequestNextStep s"

definition SetSimulationStepHandler ::
    "bool \<Rightarrow> (int \<Rightarrow> int \<Rightarrow> step_reaction) \<Rightarrow> int \<Rightarrow> time_sync \<Rightarrow> time_sync outcome" where
  "SetSimulationStepHandler blockingMode task initialStepSize s =
     (let s1 = s\<lparr>simTask := Some task,
                 timeConfiguration := SetBlockingMode blockingMode (timeConfiguration s)\<rparr>
      in case SetStepDuration initialStepSize (timeConfiguration s1) of
           Inl e \<Rightarrow> Raised e s1
         | Inr c \<Rightarrow> Done (s1\<lparr>timeConfiguration := c\<rparr>))"

definition SetupTimeSyncPolicy :: "bool \<Rightarrow> time_sync \<Rightarrow> bool \<times> time_sync" where
  "SetupTimeSyncPolicy synchronize s =
     (if timeSyncPolicy s \<noteq> None then (False, s)
      else (True, s\<lparr>timeSyncConfigured := True,
        timeSyncPolicy := Some (if synchronize
          then SynchronizedPolicy \<lparr>isExecutingSimStep = False, lastSentNextSimTask = - 1,
                                   hopOnEvaluated = False\<rparr>
          else UnsynchronizedPolicy)\<rparr>))"

definition ResetTime :: "time_sync \<Rightarrow> time_sync" where
  "ResetTime s =
     (case timeSyncPolicy s of
        Some (SynchronizedPolicy p) \<Rightarrow> s\<lparr>timeConfiguration := Initialize (timeConfiguration s)\<rparr>
      | _ \<Rightarrow> s)"

definition InitializeTimeSyncPolicy :: "bool \<Rightarrow> time_sync \<Rightarrow> time_sync" where
  "InitializeTimeSyncPolicy synchronize s =
     (let (created, s1) = SetupTimeSyncPolicy synchronize (s\<lparr>isSynchronizingVirtualTime := synchronize\<rparr>)
      in if \<not> created then s1
         else ResetTime (s1\<lparr>advertisedTimeSync :=
                            Some (synchronize, dynamicStepConfig s1 = Some True)\<rparr>))"

definition StartTime :: "time_sync \<Rightarrow> time_sync" where
  "StartTime s =
     (if timeSyncConfigured s
      then
        let missingCapability =
              isSynchronizingVirtualTime s \<and>
              list_ex (\<lambda>name. \<not> ParticipantHasAutonomousSynchronousCapability name s)
                (GetSynchronizedParticipantNames (timeConfiguration s));
            s1 = (if missingCapability then record_effect TE_AbortSimulation s else s)
        in TimeSyncPolicy_RequestNextStep s1
      else s)"

definition StopTime :: "time_sync \<Rightarrow> time_sync" where
  "StopTime s = (if isCoupledToWallClock s then StopWallClockCouplingThread s else s)"

definition CompleteSimulationStep :: "time_sync \<Rightarrow> time_sync" where
  "CompleteSimulationStep s = defer_task TT_CompleteSimulationStep s"

definition SetSimStepCompleted :: "time_sync \<Rightarrow> time_sync" where
  "SetSimStepCompleted s =
     (case timeSyncPolicy s of
        Some (SynchronizedPolicy p) \<Rightarrow> set_policy (p\<lparr>isExecutingSimStep := False\<rparr>) s
      | _ \<Rightarrow> s)"

definition IsExecutingSimStep :: "time_sync \<Rightarrow> bool" where
  "IsExecutingSimStep s =
     (case timeSyncPolicy s of
        Some (SynchronizedPolicy p) \<Rightarrow> isExecutingSimStep p
      | _ \<Rightarrow> False)"

text \<open>The deferred part of \<open>CompleteSimulationStep\<close>.\<close>

definition complete_step :: "time_sync \<Rightarrow> time_sync" where
  "complete_step s =
     (let s1 = SetSimStepCompleted s
      in if \<not> isCoupledToWallClock s1 \<or> wallClockReachedBeforeCompletion s1
         then TimeSyncPolicy_RequestNextStep (s1\<lparr>wallClockReachedBeforeCompletion := False\<rparr>)
         else s1)"

text \<open>
  The body of the wall clock thread's loop, after the wait: the next synchronization point
  is reached.
\<close>

definition wall_clock_reached :: "time_sync \<Rightarrow> time_sync" where
  "wall_clock_reached s =
     (if wallClockCouplingThreadRunning s \<and> view_state (view s) = PS_Running
      then
        let s1 = s\<lparr>currentWallClockSyncPoint :=
                    currentWallClockSyncPoint s + duration (myNextTask (timeConfiguration s))\<rparr>
        in if IsExecutingSimStep s1 then s1\<lparr>wallClockReachedBeforeCompletion := True\<rparr>
           else defer_task TT_RequestNextStep s1
      else s)"

definition AddOtherSimulationStepsCompletedHandler :: "nat \<Rightarrow> time_sync \<Rightarrow> nat \<times> time_sync" where
  "AddOtherSimulationStepsCompletedHandler handler s =
     (let (i, hs) = AddHandler handler (otherSimulationStepsCompletedHandlers s)
      in (i, s\<lparr>otherSimulationStepsCompletedHandlers := hs\<rparr>))"

definition RemoveOtherSimulationStepsCompletedHandler :: "nat \<Rightarrow> time_sync \<Rightarrow> time_sync" where
  "RemoveOtherSimulationStepsCompletedHandler handlerId s =
     s\<lparr>otherSimulationStepsCompletedHandlers :=
         snd (RemoveHandler handlerId (otherSimulationStepsCompletedHandlers s))\<rparr>"

section \<open>Dynamic step sizes and service discovery\<close>

definition RecomputeDynamicStepEnabled :: "time_sync \<Rightarrow> time_sync" where
  "RecomputeDynamicStepEnabled s =
     (let isDriver = (dynamicStepConfig s = Some True);
          isOptOut = (dynamicStepConfig s = Some False);
          enabledByRemote = (\<not> isDriver \<and> \<not> isOptOut \<and> dynamicStepPeers s \<noteq> []);
          enabled = (isDriver \<or> enabledByRemote)
      in s\<lparr>timeConfiguration := SetDynamicStepSizeEnabled enabled (timeConfiguration s)\<rparr>)"

definition ConfigureDynamicStepSize :: "bool option \<Rightarrow> time_sync \<Rightarrow> time_sync" where
  "ConfigureDynamicStepSize configured s =
     RecomputeDynamicStepEnabled (s\<lparr>dynamicStepConfig := configured\<rparr>)"

datatype discovery_event = ServiceCreated | ServiceRemoved

text \<open>
  What the handler reads of a service descriptor: whether it describes the time
  synchronization service of a participant, and the supplemental data.
\<close>

record time_sync_descriptor =
  descriptor_isTimeSyncService :: bool
  descriptor_participantName :: string
  descriptor_timeSyncActive :: string
  descriptor_timeSyncDynamicStepSize :: string

definition update_dynamic_peers ::
    "discovery_event \<Rightarrow> time_sync_descriptor \<Rightarrow> string list \<Rightarrow> string list" where
  "update_dynamic_peers event descriptor peers =
     (if event = ServiceCreated \<and> descriptor_timeSyncDynamicStepSize descriptor = ''1''
      then List.insert (descriptor_participantName descriptor) peers
      else if event = ServiceRemoved
      then removeAll (descriptor_participantName descriptor) peers
      else peers)"

definition participant_joined :: "string \<Rightarrow> time_sync \<Rightarrow> time_sync" where
  "participant_joined name s =
     (if \<not> ParticipantHasAutonomousSynchronousCapability name s
      then record_effect TE_AbortSimulation s
      else
        let s1 = s\<lparr>timeConfiguration := AddSynchronizedParticipant name (timeConfiguration s)\<rparr>
        in if timePoint (currentTask (timeConfiguration s1)) \<ge> 0
           then if IsExecutingSimStep s1
                then SendNextSimTask (currentTask (timeConfiguration s1)) s1
                else SendNextSimTask (myNextTask (timeConfiguration s1)) s1
           else s1)"

definition participant_left :: "string \<Rightarrow> time_sync \<Rightarrow> time_sync outcome" where
  "participant_left name s =
     (let (removed, c) = RemoveSynchronizedParticipant name (timeConfiguration s);
          s1 = s\<lparr>timeConfiguration := c\<rparr>
      in if removed then TimeSyncPolicy_ProcessSimulationTimeUpdate s1 else Done s1)"

definition OnServiceDiscovery ::
    "string \<Rightarrow> discovery_event \<Rightarrow> time_sync_descriptor \<Rightarrow> time_sync \<Rightarrow> time_sync outcome" where
  "OnServiceDiscovery ownName event descriptor s =
     (if \<not> descriptor_isTimeSyncService descriptor \<or>
         descriptor_participantName descriptor = ownName
      then Done s
      else
        let s1 = RecomputeDynamicStepEnabled
                   (s\<lparr>dynamicStepPeers := update_dynamic_peers event descriptor (dynamicStepPeers s)\<rparr>)
        in if descriptor_timeSyncActive descriptor = ''1''
           then case event of
                  ServiceCreated \<Rightarrow> Done (participant_joined (descriptor_participantName descriptor) s1)
                | ServiceRemoved \<Rightarrow> participant_left (descriptor_participantName descriptor) s1
           else Done s1)"

section \<open>The IO thread\<close>

fun run_ts_task :: "ts_task \<Rightarrow> time_sync \<Rightarrow> time_sync outcome" where
  "run_ts_task TT_ProcessSimulationTimeUpdate s = TimeSyncPolicy_ProcessSimulationTimeUpdate s"
| "run_ts_task TT_RequestNextStep s = Done (TimeSyncPolicy_RequestNextStep s)"
| "run_ts_task TT_CompleteSimulationStep s = Done (complete_step s)"

text \<open>An exception of a task is caught and logged by the worker's loop.\<close>

fun after_exception :: "time_sync outcome \<Rightarrow> time_sync \<Rightarrow> time_sync" where
  "after_exception (Done s) s0 = s"
| "after_exception (Raised e s) s0 = s"
| "after_exception OutOfFuel s0 = s0"

definition ts_io_step :: "time_sync \<Rightarrow> time_sync" where
  "ts_io_step s =
     (case deferred s of
        [] \<Rightarrow> s
      | task # rest \<Rightarrow> after_exception (run_ts_task task (s\<lparr>deferred := rest\<rparr>)) s)"

definition ts_receive :: "string \<Rightarrow> next_sim_task \<Rightarrow> time_sync \<Rightarrow> time_sync" where
  "ts_receive from task s = after_exception (TimeSyncService_ReceiveMsg from task s) s"

end
