(* ===== verification/TimeSyncNetwork.thy ===== *)
theory TimeSyncNetwork
  imports TimeSync
begin

text \<open>
  Virtual time synchronization between participants: every participant runs the policy of
  \<open>TimeSync\<close>, and the simulation tasks it sends reach the others over channels that keep
  their order. The steps interleave arbitrarily.
\<close>

section \<open>The network\<close>

record network =
  node :: "string \<Rightarrow> time_sync"
  channel :: "string \<Rightarrow> string \<Rightarrow> next_sim_task list"

text \<open>The tasks that the new state of \<open>p\<close> has sent go into its channels to all others.\<close>

definition update_node :: "string list \<Rightarrow> string \<Rightarrow> time_sync \<Rightarrow> network \<Rightarrow> network" where
  "update_node names p s net =
     net\<lparr>node := (node net)(p := s\<lparr>sentTasks := []\<rparr>),
         channel := (\<lambda>a b. if a = p \<and> b \<in> set names \<and> b \<noteq> p
                           then channel net a b @ sentTasks s else channel net a b)\<rparr>"

definition pop_channel :: "string \<Rightarrow> string \<Rightarrow> network \<Rightarrow> network" where
  "pop_channel q p net =
     net\<lparr>channel := (channel net)(q := (channel net q)(p := tl (channel net q p)))\<rparr>"

inductive net_step :: "string list \<Rightarrow> network \<Rightarrow> network \<Rightarrow> bool" for names where
  io: "p \<in> set names \<Longrightarrow> deferred (node net p) \<noteq> [] \<Longrightarrow>
    net_step names net (update_node names p (ts_io_step (node net p)) net)"
| deliver: "p \<in> set names \<Longrightarrow> q \<in> set names \<Longrightarrow> p \<noteq> q \<Longrightarrow> channel net q p = task # rest \<Longrightarrow>
    net_step names net (update_node names p (ts_receive q task (node net p)) (pop_channel q p net))"
| lifecycle: "p \<in> set names \<Longrightarrow>
    net_step names net (update_node names p ((node net p)\<lparr>view := v\<rparr>) net)"
| start: "p \<in> set names \<Longrightarrow> net_step names net (update_node names p (StartTime (node net p)) net)"
| stop: "p \<in> set names \<Longrightarrow> net_step names net (update_node names p (StopTime (node net p)) net)"
| request: "p \<in> set names \<Longrightarrow>
    net_step names net (update_node names p (TimeSyncService_RequestNextStep (node net p)) net)"
| complete: "p \<in> set names \<Longrightarrow>
    net_step names net (update_node names p (CompleteSimulationStep (node net p)) net)"
| wall_clock: "p \<in> set names \<Longrightarrow>
    net_step names net (update_node names p (wall_clock_reached (node net p)) net)"

inductive_simps net_step_iff: "net_step names net net'"

section \<open>What a participant may do to its time\<close>

definition last_sent :: "time_sync \<Rightarrow> int" where
  "last_sent s =
     (case timeSyncPolicy s of
        Some (SynchronizedPolicy p) \<Rightarrow> lastSentNextSimTask p
      | _ \<Rightarrow> - 1)"

definition hop_on_pending :: "time_sync \<Rightarrow> bool" where
  "hop_on_pending s =
     (case timeSyncPolicy s of
        Some (SynchronizedPolicy p) \<Rightarrow> \<not> hopOnEvaluated p
      | _ \<Rightarrow> False)"

definition synchronized :: "time_sync \<Rightarrow> bool" where
  "synchronized s \<longleftrightarrow> (\<exists>p. timeSyncPolicy s = Some (SynchronizedPolicy p))"

abbreviation current_time :: "time_sync \<Rightarrow> int" where
  "current_time s \<equiv> timePoint (currentTask (timeConfiguration s))"

abbreviation next_time :: "time_sync \<Rightarrow> int" where
  "next_time s \<equiv> timePoint (myNextTask (timeConfiguration s))"

abbreviation step_size :: "time_sync \<Rightarrow> int" where
  "step_size s \<equiv> duration (myNextTask (timeConfiguration s))"

abbreviation others :: "time_sync \<Rightarrow> (string \<times> next_sim_task) list" where
  "others s \<equiv> otherNextTasks (timeConfiguration s)"

definition node_ok :: "string list \<Rightarrow> int \<Rightarrow> string \<Rightarrow> time_sync \<Rightarrow> bool" where
  "node_ok names D p s \<longleftrightarrow>
     synchronized s \<and> distinct (map fst (others s)) \<and> set (map fst (others s)) = set names - {p} \<and>
     step_size s = D \<and> - 1 \<le> last_sent s \<and> last_sent s \<le> next_time s \<and>
     - 1 \<le> current_time s \<and> current_time s \<le> next_time s \<and>
     (current_time s \<le> 0 \<longrightarrow> next_time s \<le> D) \<and>
     (hop_on_pending s \<longrightarrow> current_time s = - 1 \<and> next_time s = 0 \<and>
        \<not> hoppedOn (timeConfiguration s))"

text \<open>
  A change of one participant's state that leaves what it knows about the others: it may
  announce its next step, and take that step if nobody it knows of is behind.
\<close>

definition time_moves :: "time_sync \<Rightarrow> time_sync \<Rightarrow> bool" where
  "time_moves s s' \<longleftrightarrow>
     synchronized s' \<and> others s' = others s \<and> step_size s' = step_size s \<and>
     last_sent s \<le> last_sent s' \<and> last_sent s' \<le> next_time s' \<and>
     (\<exists>ts. sentTasks s' = sentTasks s @ ts \<and>
        (\<forall>t\<in>set ts. timePoint t \<le> last_sent s' \<and> duration t = step_size s)) \<and>
     (current_time s' = current_time s \<and> next_time s' = next_time s \<and>
        hoppedOn (timeConfiguration s') = hoppedOn (timeConfiguration s) \<and>
        (hop_on_pending s' \<longrightarrow> hop_on_pending s)
      \<or> current_time s' = next_time s \<and> next_time s \<le> next_time s' \<and>
        next_time s' \<le> next_time s + step_size s \<and> \<not> hop_on_pending s' \<and>
        (\<forall>t\<in>snd ` set (others s). next_time s \<le> timePoint t))"

lemma time_moves_quiet:
  assumes "synchronized s" "last_sent s \<le> next_time s"
    "timeConfiguration s' = timeConfiguration s" "sentTasks s' = sentTasks s"
    "timeSyncPolicy s' = timeSyncPolicy s"
  shows "time_moves s s'"
  using assms by (auto simp: time_moves_def synchronized_def last_sent_def hop_on_pending_def)

lemma time_moves_cases:
  assumes "time_moves s s'"
  obtains (stay) "current_time s' = current_time s" "next_time s' = next_time s"
      "hoppedOn (timeConfiguration s') = hoppedOn (timeConfiguration s)"
      "hop_on_pending s' \<Longrightarrow> hop_on_pending s"
    | (advance) "current_time s' = next_time s" "next_time s \<le> next_time s'"
      "next_time s' \<le> next_time s + step_size s" "\<not> hop_on_pending s'"
      "\<forall>t\<in>snd ` set (others s). next_time s \<le> timePoint t"
  using assms unfolding time_moves_def by blast

lemma time_moves_frame:
  assumes "time_moves s s'"
  shows "synchronized s'" "others s' = others s" "step_size s' = step_size s"
    "last_sent s \<le> last_sent s'" "last_sent s' \<le> next_time s'"
  using assms unfolding time_moves_def by blast+

lemma time_moves_ok:
  assumes "node_ok names D p s" "time_moves s s'"
  shows "node_ok names D p s'"
proof -
  note ok = assms(1) [unfolded node_ok_def]
  note frame = time_moves_frame [OF assms(2)]
  from assms(2) show ?thesis
  proof (cases rule: time_moves_cases)
    case stay
    show ?thesis
      unfolding node_ok_def frame(2,3) stay(1,2,3) using ok frame(1,4,5) stay by linarith
  next
    case advance
    show ?thesis
      unfolding node_ok_def frame(2,3) advance(1) using ok frame(1,4,5) advance(2-4) by linarith
  qed
qed

lemma aligned_nonneg: "0 \<le> GetMinimalAlignedDuration c"
  by (auto simp: GetMinimalAlignedDuration_def Let_def nanoseconds_max_def)

lemma AdvanceTimeStep_bounds:
  assumes "0 \<le> duration (myNextTask c)"
  shows "timePoint (myNextTask c) \<le> timePoint (myNextTask (AdvanceTimeStep c))"
    "timePoint (myNextTask (AdvanceTimeStep c)) \<le> timePoint (myNextTask c) + duration (myNextTask c)"
  using assms aligned_nonneg [of "c\<lparr>currentTask := myNextTask c\<rparr>"]
  by (auto simp: AdvanceTimeStep_simps AdvanceTimeStep_duration)

lemma not_lower: "\<not> OtherParticipantHasLowerTimepoint c \<Longrightarrow>
    \<forall>t\<in>snd ` set (otherNextTasks c). timePoint (myNextTask c) \<le> timePoint t"
  by (auto simp: OtherParticipantHasLowerTimepoint_def list_ex_iff)

lemma IsHopOn_none:
  "advanced_tasks c = [] \<Longrightarrow> \<not> hoppedOn c \<Longrightarrow> IsHopOn c = (False, c)"
  by (simp add: IsHopOn_def)

lemma request_moves:
  assumes "synchronized s" "last_sent s \<le> next_time s"
  shows "time_moves s (TimeSyncPolicy_RequestNextStep s)"
proof -
  obtain p where p: "timeSyncPolicy s = Some (SynchronizedPolicy p)"
    using assms(1) by (auto simp: synchronized_def)
  then show ?thesis
    using assms
    by (auto simp: TimeSyncPolicy_RequestNextStep_def policy_RequestNextStep_def Let_def
        time_moves_def synchronized_def last_sent_def hop_on_pending_def defer_task_def
        SendNextSimTask_def set_policy_def)
qed

lemma evaluate_hop_on_no_hop:
  assumes "timeSyncPolicy s = Some (SynchronizedPolicy pol)"
    "\<not> hopOnEvaluated pol \<Longrightarrow> advanced_tasks (timeConfiguration s) = [] \<and> \<not> hoppedOn (timeConfiguration s)"
  shows "\<exists>s1. evaluate_hop_on pol s = (True, s1) \<and> timeConfiguration s1 = timeConfiguration s \<and>
    sentTasks s1 = sentTasks s \<and> isCoupledToWallClock s1 = isCoupledToWallClock s \<and>
    simTask s1 = simTask s \<and> view s1 = view s \<and> deferred s1 = deferred s \<and>
    timeSyncPolicy s1 = Some (SynchronizedPolicy (pol\<lparr>hopOnEvaluated := True\<rparr>))"
proof (cases "hopOnEvaluated pol")
  case True
  then show ?thesis using assms(1) by (simp add: evaluate_hop_on_def)
next
  case False
  then have "IsHopOn (timeConfiguration s) = (False, timeConfiguration s)"
    using assms(2) IsHopOn_none by blast
  then show ?thesis
    using False by (auto simp: evaluate_hop_on_def Let_def set_policy_def
        StartWallClockCouplingThread_def record_effect_def)
qed

definition no_hop_on :: "time_sync \<Rightarrow> bool" where
  "no_hop_on s \<longleftrightarrow> (hop_on_pending s \<longrightarrow> advanced_tasks (timeConfiguration s) = [])"

definition moved_by :: "time_sync \<Rightarrow> time_sync outcome \<Rightarrow> bool" where
  "moved_by s out \<longleftrightarrow>
     (case out of Done s' \<Rightarrow> time_moves s s' | Raised e s' \<Rightarrow> time_moves s s' | OutOfFuel \<Rightarrow> False)"

lemma ExecuteSimStep_frame:
  "\<exists>s'. (ExecuteSimStep tp d s = Done s' \<or> (\<exists>e. ExecuteSimStep tp d s = Raised e s')) \<and>
    timeConfiguration s' = timeConfiguration s \<and> timeSyncPolicy s' = timeSyncPolicy s \<and>
    sentTasks s' = sentTasks s \<and> isCoupledToWallClock s' = isCoupledToWallClock s"
  by (auto simp: ExecuteSimStep_def Let_def record_effect_def defer_task_def split: option.splits)

lemma advance_moves:
  assumes "node_ok names D p s" "no_hop_on s" "timeSyncPolicy s = Some (SynchronizedPolicy pol)"
    "IsTimeAdvancePossible s" "0 \<le> D"
  shows "\<exists>s'. (AdvanceTimeAndExecuteSimStep pol s = Done s' \<or>
      (\<exists>e. AdvanceTimeAndExecuteSimStep pol s = Raised e s')) \<and>
    time_moves s s' \<and> isCoupledToWallClock s' = isCoupledToWallClock s"
proof -
  have running: "view_state (view s) = PS_Running"
    and lower: "\<not> OtherParticipantHasLowerTimepoint (timeConfiguration s)"
    using assms(4) by (auto simp: IsTimeAdvancePossible_def split: if_splits)
  obtain s1 where s1: "evaluate_hop_on pol s = (True, s1)"
    "timeConfiguration s1 = timeConfiguration s" "sentTasks s1 = sentTasks s"
    "isCoupledToWallClock s1 = isCoupledToWallClock s"
    "timeSyncPolicy s1 = Some (SynchronizedPolicy (pol\<lparr>hopOnEvaluated := True\<rparr>))"
    using evaluate_hop_on_no_hop [OF assms(3)] assms(1-3)
    unfolding no_hop_on_def node_ok_def hop_on_pending_def by auto
  let ?c = "AdvanceTimeStep (timeConfiguration s)"
  let ?s2 = "s1\<lparr>timeConfiguration := ?c\<rparr>"
  obtain s' where out: "ExecuteSimStep (timePoint (currentTask ?c)) (duration (currentTask ?c)) ?s2 = Done s' \<or>
      (\<exists>e. ExecuteSimStep (timePoint (currentTask ?c)) (duration (currentTask ?c)) ?s2 = Raised e s')"
    and s': "timeConfiguration s' = ?c"
      "timeSyncPolicy s' = Some (SynchronizedPolicy (pol\<lparr>hopOnEvaluated := True\<rparr>))"
      "sentTasks s' = sentTasks s" "isCoupledToWallClock s' = isCoupledToWallClock s"
    using ExecuteSimStep_frame [of "timePoint (currentTask ?c)" "duration (currentTask ?c)" ?s2] s1
    by auto
  have D: "0 \<le> duration (myNextTask (timeConfiguration s))" "last_sent s \<le> next_time s"
    using assms(1,5) by (auto simp: node_ok_def)
  have ls: "last_sent s = lastSentNextSimTask pol" using assms(3) by (simp add: last_sent_def)
  have "time_moves s s'"
    unfolding time_moves_def
    using s' D ls not_lower [OF lower] AdvanceTimeStep_bounds [OF D(1)]
    by (simp add: AdvanceTimeStep_simps(1-3) synchronized_def last_sent_def hop_on_pending_def)
  moreover have "AdvanceTimeAndExecuteSimStep pol s =
      ExecuteSimStep (timePoint (currentTask ?c)) (duration (currentTask ?c)) ?s2"
    using running s1(1,2) by (simp add: AdvanceTimeAndExecuteSimStep_def Let_def)
  ultimately show ?thesis using out s'(4) by auto
qed

lemma time_moves_request:
  assumes "time_moves s s'"
  shows "time_moves s (TimeSyncPolicy_RequestNextStep s')"
proof -
  let ?r = "TimeSyncPolicy_RequestNextStep s'"
  note frame = time_moves_frame [OF assms]
  obtain p where p: "timeSyncPolicy s' = Some (SynchronizedPolicy p)"
    using frame(1) by (auto simp: synchronized_def)
  have conf: "timeConfiguration ?r = timeConfiguration s'"
    using p by (auto simp: TimeSyncPolicy_RequestNextStep_def policy_RequestNextStep_def Let_def
        defer_task_def SendNextSimTask_def set_policy_def)
  have r: "synchronized ?r" "hop_on_pending ?r = hop_on_pending s'"
    "last_sent s' \<le> last_sent ?r" "last_sent ?r \<le> next_time s'"
    "sentTasks ?r = sentTasks s' \<or>
     sentTasks ?r = sentTasks s' @ [myNextTask (timeConfiguration s')] \<and> last_sent ?r = next_time s'"
    using p frame(5)
    by (auto simp: TimeSyncPolicy_RequestNextStep_def policy_RequestNextStep_def Let_def
        defer_task_def SendNextSimTask_def set_policy_def synchronized_def last_sent_def
        hop_on_pending_def)
  obtain ts where ts: "sentTasks s' = sentTasks s @ ts"
    "\<forall>t\<in>set ts. timePoint t \<le> last_sent s' \<and> duration t = step_size s"
    using assms unfolding time_moves_def by blast
  let ?us = "if sentTasks ?r = sentTasks s' then ts else ts @ [myNextTask (timeConfiguration s')]"
  have sent: "sentTasks ?r = sentTasks s @ ?us \<and>
      (\<forall>t\<in>set ?us. timePoint t \<le> last_sent ?r \<and> duration t = step_size s)"
    using r ts frame(3) by (auto intro: order_trans)
  have r_frame: "others ?r = others s" "step_size ?r = step_size s" "last_sent s \<le> last_sent ?r"
    "last_sent ?r \<le> next_time ?r"
    using frame r(3,4) conf by auto
  from assms show ?thesis
  proof (cases rule: time_moves_cases)
    case stay
    then show ?thesis
      unfolding time_moves_def using r_frame r(1,2) sent unfolding conf by blast
  next
    case advance
    then show ?thesis
      unfolding time_moves_def using r_frame r(1,2) sent unfolding conf by blast
  qed
qed

lemma async_moves:
  assumes "timeSyncPolicy s = Some (SynchronizedPolicy pol)" "node_ok names D p s" "no_hop_on s"
  shows "node_ok names D p (set_policy (pol\<lparr>isExecutingSimStep := True\<rparr>) s)"
    "no_hop_on (set_policy (pol\<lparr>isExecutingSimStep := True\<rparr>) s)"
    "time_moves (set_policy (pol\<lparr>isExecutingSimStep := True\<rparr>) s) s' \<Longrightarrow> time_moves s s'"
  using assms
  by (auto simp: node_ok_def no_hop_on_def set_policy_def synchronized_def last_sent_def
      hop_on_pending_def time_moves_def)

lemma advance_set_policy: "IsTimeAdvancePossible (set_policy p s) = IsTimeAdvancePossible s"
  by (simp add: IsTimeAdvancePossible_def set_policy_def)

lemma process_moves:
  assumes "node_ok names D p s" "no_hop_on s" "0 \<le> D"
  shows "moved_by s (TimeSyncPolicy_ProcessSimulationTimeUpdate s)"
proof -
  obtain pol where pol: "timeSyncPolicy s = Some (SynchronizedPolicy pol)"
    using assms(1) by (auto simp: node_ok_def synchronized_def)
  have quiet: "time_moves s s" if "timeSyncPolicy s = Some (SynchronizedPolicy pol)"
    using assms(1) by (intro time_moves_quiet) (auto simp: node_ok_def)
  show ?thesis
  proof (cases "IsTimeAdvancePossible s")
    case False
    then show ?thesis
      using pol quiet by (simp add: TimeSyncPolicy_ProcessSimulationTimeUpdate_def
          policy_ProcessSimulationTimeUpdate_def moved_by_def)
  next
    case adv: True
    show ?thesis
    proof (cases "blocking (timeConfiguration s)")
      case True
      from advance_moves [OF assms(1,2) pol adv assms(3)] obtain s' where
        s': "AdvanceTimeAndExecuteSimStep pol s = Done s' \<or>
             (\<exists>e. AdvanceTimeAndExecuteSimStep pol s = Raised e s')" "time_moves s s'" by blast
      then show ?thesis
        using pol adv True time_moves_request [OF s'(2)]
        by (auto simp: TimeSyncPolicy_ProcessSimulationTimeUpdate_def
            policy_ProcessSimulationTimeUpdate_def AdvanceTimeSimStepSync_def moved_by_def)
    next
      case False
      let ?s = "set_policy (pol\<lparr>isExecutingSimStep := True\<rparr>) s"
      show ?thesis
      proof (cases "isExecutingSimStep pol")
        case True
        have "time_moves s (InvokeOtherSimulationStepsCompletedHandlers s)"
          using assms(1) by (intro time_moves_quiet)
            (auto simp: node_ok_def InvokeOtherSimulationStepsCompletedHandlers_def)
        then show ?thesis
          using True False pol adv by (simp add: TimeSyncPolicy_ProcessSimulationTimeUpdate_def
            policy_ProcessSimulationTimeUpdate_def AdvanceTimeSimStepAsync_def moved_by_def)
      next
        case idle: False
        have "timeSyncPolicy ?s = Some (SynchronizedPolicy (pol\<lparr>isExecutingSimStep := True\<rparr>))"
          "IsTimeAdvancePossible ?s"
          using adv by (simp_all add: advance_set_policy) (simp add: set_policy_def)
        from advance_moves [OF async_moves(1,2) [OF pol assms(1,2)] this assms(3)] obtain s' where
          s': "AdvanceTimeAndExecuteSimStep (pol\<lparr>isExecutingSimStep := True\<rparr>) ?s = Done s' \<or>
               (\<exists>e. AdvanceTimeAndExecuteSimStep (pol\<lparr>isExecutingSimStep := True\<rparr>) ?s = Raised e s')"
            "time_moves ?s s'" by blast
        then show ?thesis
          using pol adv False idle async_moves(3) [OF pol assms(1,2) s'(2)]
          by (auto simp: TimeSyncPolicy_ProcessSimulationTimeUpdate_def
              policy_ProcessSimulationTimeUpdate_def AdvanceTimeSimStepAsync_def moved_by_def)
      qed
    qed
  qed
qed

section \<open>The invariant of the network\<close>

definition announced :: "int \<Rightarrow> int \<Rightarrow> next_sim_task \<Rightarrow> bool" where
  "announced D bound t \<longleftrightarrow>
     timePoint t \<le> bound \<and> (duration t = D \<or> timePoint t = - 1 \<and> duration t = 0)"

lemma announced_mono: "announced D b t \<Longrightarrow> b \<le> b' \<Longrightarrow> announced D b' t"
  by (auto simp: announced_def)

definition pair_ok :: "int \<Rightarrow> string \<Rightarrow> time_sync \<Rightarrow> time_sync \<Rightarrow> next_sim_task list \<Rightarrow> bool" where
  "pair_ok D q sp sq ch \<longleftrightarrow>
     (\<forall>t \<in> set ch. announced D (last_sent sq) t) \<and>
     (\<forall>t. (q, t) \<in> set (others sp) \<longrightarrow> announced D (last_sent sq) t) \<and>
     current_time sp \<le> last_sent sq"

definition net_inv :: "string list \<Rightarrow> (string \<Rightarrow> int) \<Rightarrow> network \<Rightarrow> bool" where
  "net_inv names D net \<longleftrightarrow>
     (\<forall>p \<in> set names. node_ok names (D p) p (node net p) \<and> sentTasks (node net p) = [] \<and> 0 \<le> D p) \<and>
     (\<forall>p \<in> set names. \<forall>q \<in> set names. p \<noteq> q \<longrightarrow>
        pair_ok (D q) q (node net p) (node net q) (channel net q p))"

lemma net_invD:
  assumes "net_inv names D net" "p \<in> set names"
  shows "node_ok names (D p) p (node net p)" "sentTasks (node net p) = []" "0 \<le> D p"
    "q \<in> set names \<Longrightarrow> p \<noteq> q \<Longrightarrow> pair_ok (D q) q (node net p) (node net q) (channel net q p)"
  using assms by (auto simp: net_inv_def)

text \<open>Nobody can have advanced beyond its first step before everybody has announced more.\<close>

lemma net_inv_no_hop_on:
  assumes inv: "net_inv names D net" and p: "p \<in> set names"
  shows "no_hop_on (node net p)"
  unfolding no_hop_on_def
proof
  let ?s = "node net p"
  assume "hop_on_pending ?s"
  with net_invD(1) [OF inv p] have zero: "last_sent ?s \<le> 0" by (auto simp: node_ok_def)
  show "advanced_tasks (timeConfiguration ?s) = []"
    unfolding advanced_tasks_def filter_empty_conv
  proof
    fix t
    assume "t \<in> set (map snd (others ?s))"
    then obtain q where q: "(q, t) \<in> set (others ?s)" by auto
    then have "q \<in> fst ` set (others ?s)" by force
    then have names: "q \<in> set names" "q \<noteq> p" using net_invD(1) [OF inv p] by (auto simp: node_ok_def)
    have "current_time (node net q) \<le> 0"
      using net_invD(4) [OF inv names(1) p names(2)] zero by (auto simp: pair_ok_def)
    then have bound: "last_sent (node net q) \<le> D q"
      using net_invD(1) [OF inv names(1)] by (auto simp: node_ok_def)
    have "announced (D q) (last_sent (node net q)) t"
      using net_invD(4) [OF inv p names(1)] names(2) q by (auto simp: pair_ok_def)
    then show "\<not> duration t < timePoint t"
      using bound by (auto simp: announced_def)
  qed
qed

lemma others_bound:
  assumes "net_inv names D net" "p \<in> set names" "q \<in> set names" "p \<noteq> q"
    "\<forall>t\<in>snd ` set (others (node net p)). b \<le> timePoint t"
  shows "b \<le> last_sent (node net q)"
proof -
  have "q \<in> set (map fst (others (node net p)))"
    using net_invD(1) [OF assms(1,2)] assms(3,4) by (auto simp: node_ok_def)
  then obtain t where t: "(q, t) \<in> set (others (node net p))" by auto
  then have "b \<le> timePoint t" using assms(5) by force
  moreover have "announced (D q) (last_sent (node net q)) t"
    using net_invD(4) [OF assms(1-4)] t by (auto simp: pair_ok_def)
  ultimately show ?thesis by (auto simp: announced_def)
qed

lemma update_node_simps [simp]:
  "node (update_node names p s net) = (node net)(p := s\<lparr>sentTasks := []\<rparr>)"
  "channel (update_node names p s net) a b =
     (if a = p \<and> b \<in> set names \<and> b \<noteq> p then channel net a b @ sentTasks s else channel net a b)"
  by (simp_all add: update_node_def)

lemma sent_cleared [simp]:
  "last_sent (s\<lparr>sentTasks := ts\<rparr>) = last_sent s"
  "node_ok names D p (s\<lparr>sentTasks := ts\<rparr>) = node_ok names D p s"
  by (simp_all add: last_sent_def node_ok_def synchronized_def hop_on_pending_def)

lemma pair_ok_receiver:
  assumes "pair_ok D q sp sq ch" "time_moves sp sp'" "q_bound \<le> last_sent sq"
    "\<forall>t\<in>snd ` set (others sp). next_time sp \<le> timePoint t \<Longrightarrow> next_time sp \<le> last_sent sq"
  shows "pair_ok D q (sp'\<lparr>sentTasks := []\<rparr>) sq ch"
proof -
  have "current_time sp' \<le> last_sent sq"
    using assms(2)
  proof (cases rule: time_moves_cases)
    case stay
    then show ?thesis using assms(1) by (simp add: pair_ok_def)
  next
    case advance
    then show ?thesis using assms(4) by simp
  qed
  then show ?thesis
    using assms(1) time_moves_frame(2) [OF assms(2)] by (simp add: pair_ok_def)
qed

lemma pair_ok_sender:
  assumes "pair_ok D p sq sp ch" "time_moves sp sp'" "step_size sp = D" "sentTasks sp = []"
  shows "pair_ok D p sq (sp'\<lparr>sentTasks := []\<rparr>) (ch @ sentTasks sp')"
proof -
  note le = time_moves_frame(4) [OF assms(2)]
  have "\<forall>t\<in>set (sentTasks sp'). announced D (last_sent sp') t"
    using assms(2-4) unfolding time_moves_def announced_def by auto
  then show ?thesis
    using assms(1) le announced_mono [OF _ le] unfolding pair_ok_def by (auto intro: order_trans)
qed

lemma update_moves:
  assumes inv: "net_inv names D net" and p: "p \<in> set names"
    and moves: "time_moves (node net p) s'"
  shows "net_inv names D (update_node names p s' net)"
  unfolding net_inv_def
proof (intro conjI ballI impI)
  fix a
  assume a: "a \<in> set names"
  show "node_ok names (D a) a (node (update_node names p s' net) a)"
    using net_invD(1) [OF inv a] time_moves_ok [OF _ moves] by auto
  show "sentTasks (node (update_node names p s' net) a) = []" "0 \<le> D a"
    using net_invD(2,3) [OF inv a] by auto
next
  fix a b
  assume ab: "a \<in> set names" "b \<in> set names" "a \<noteq> b"
  note old = net_invD(4) [OF inv ab]
  consider "a = p" | "b = p" | "a \<noteq> p" "b \<noteq> p" by blast
  then show "pair_ok (D b) b (node (update_node names p s' net) a) (node (update_node names p s' net) b)
      (channel (update_node names p s' net) b a)"
  proof cases
    case 1
    then show ?thesis
      using ab old pair_ok_receiver [OF _ moves order_refl] others_bound [OF inv ab] by simp
  next
    case 2
    have "step_size (node net p) = D p" using net_invD(1) [OF inv p] by (simp add: node_ok_def)
    then show ?thesis
      using 2 ab old pair_ok_sender [OF _ moves _ net_invD(2) [OF inv p]] by simp
  next
    case 3
    then show ?thesis using ab old by simp
  qed
qed

section \<open>Every step keeps the invariant\<close>

lemma moves_from_same_time:
  assumes "time_moves t s'" "timeConfiguration t = timeConfiguration s"
    "timeSyncPolicy t = timeSyncPolicy s" "sentTasks t = sentTasks s"
  shows "time_moves s s'"
  using assms by (simp add: time_moves_def last_sent_def hop_on_pending_def)

lemma same_time_ok:
  assumes "timeConfiguration t = timeConfiguration s" "timeSyncPolicy t = timeSyncPolicy s"
  shows "node_ok names D p t = node_ok names D p s" "no_hop_on t = no_hop_on s"
    "synchronized t = synchronized s" "last_sent t = last_sent s"
  using assms by (simp_all add: node_ok_def no_hop_on_def last_sent_def hop_on_pending_def synchronized_def)

lemma node_ok_sync: "node_ok names D p s \<Longrightarrow> synchronized s \<and> last_sent s \<le> next_time s"
  by (simp add: node_ok_def)

lemma complete_step_moves:
  assumes "synchronized s" "last_sent s \<le> next_time s"
  shows "time_moves s (complete_step s)"
proof -
  let ?s = "SetSimStepCompleted s"
  have completed: "time_moves s ?s" "isCoupledToWallClock ?s = isCoupledToWallClock s"
    using assms by (auto simp: time_moves_def SetSimStepCompleted_def synchronized_def set_policy_def
        last_sent_def hop_on_pending_def)
  have "time_moves s (?s\<lparr>wallClockReachedBeforeCompletion := b\<rparr>)" for b
    using completed(1) by (simp add: time_moves_def last_sent_def hop_on_pending_def synchronized_def)
  then show ?thesis
    using completed(1) time_moves_request by (simp add: complete_step_def Let_def)
qed

lemma io_moves:
  assumes "node_ok names D p s" "no_hop_on s" "0 \<le> D" "deferred s \<noteq> []"
  shows "time_moves s (ts_io_step s)"
proof -
  obtain task rest where d: "deferred s = task # rest" using assms(4) by (cases "deferred s") auto
  let ?s = "s\<lparr>deferred := rest\<rparr>"
  have ok: "node_ok names D p ?s" "no_hop_on ?s" "synchronized ?s" "last_sent ?s \<le> next_time ?s"
    using assms(1,2) same_time_ok [of ?s s] node_ok_sync by simp_all
  have "moved_by ?s (run_ts_task task ?s)"
    using process_moves [OF ok(1,2) assms(3)] request_moves [OF ok(3,4)] complete_step_moves [OF ok(3,4)]
    by (cases task) (simp_all add: moved_by_def)
  then have "time_moves ?s (ts_io_step s)"
    using d by (cases "run_ts_task task ?s") (simp_all add: moved_by_def ts_io_step_def)
  then show ?thesis by (rule moves_from_same_time) simp_all
qed

lemma StartTime_moves:
  assumes "node_ok names D p s"
  shows "time_moves s (StartTime s)"
proof -
  have "time_moves s (record_effect TE_AbortSimulation s)" "time_moves s s"
    using node_ok_sync [OF assms] by (auto intro!: time_moves_quiet simp: record_effect_def)
  then show ?thesis
    by (auto simp: StartTime_def Let_def intro: time_moves_request)
qed

lemma receive_moves:
  assumes "node_ok names D p s" "no_hop_on s" "0 \<le> D"
    "s0 = s\<lparr>timeConfiguration := OnReceiveNextSimStep q task (timeConfiguration s)\<rparr>"
    "node_ok names D p s0" "no_hop_on s0"
  shows "time_moves s0 (ts_receive q task s)"
proof -
  obtain pol where pol: "timeSyncPolicy s = Some (SynchronizedPolicy pol)"
    using assms(1) by (auto simp: node_ok_def synchronized_def)
  have sync: "synchronized s0" "last_sent s0 \<le> next_time s0" using node_ok_sync [OF assms(5)] by simp_all
  have process: "moved_by s0 (policy_ProcessSimulationTimeUpdate pol s0)"
    using process_moves [OF assms(5,6,3)] pol assms(4)
    by (simp add: TimeSyncPolicy_ProcessSimulationTimeUpdate_def)
  have "time_moves s0 s0" "time_moves s0 (record_effect e s0)" for e
    using sync by (auto intro!: time_moves_quiet simp: record_effect_def)
  then have "moved_by s0 (TimeSyncService_ReceiveMsg q task s)"
    unfolding TimeSyncService_ReceiveMsg_def pol
    using process assms(4)
    by (cases "view_state (view s0)")
      (simp_all add: policy_ReceiveNextSimTask_def moved_by_def)
  then show ?thesis
    by (cases "TimeSyncService_ReceiveMsg q task s") (simp_all add: moved_by_def ts_receive_def)
qed

definition deliver_task :: "string \<Rightarrow> string \<Rightarrow> network \<Rightarrow> network" where
  "deliver_task q p net =
     (let s = node net p; task = hd (channel net q p)
      in (pop_channel q p net)\<lparr>node := (node net)
           (p := s\<lparr>timeConfiguration := OnReceiveNextSimStep q task (timeConfiguration s)\<rparr>)\<rparr>)"

lemma OnReceive_known:
  assumes "distinct (map fst (otherNextTasks c))" "q \<in> set (map fst (otherNextTasks c))"
  shows "OnReceiveNextSimStep q task c =
      c\<lparr>otherNextTasks := AList.update q task (otherNextTasks c)\<rparr>"
    "set (AList.update q task (otherNextTasks c)) =
      insert (q, task) {x \<in> set (otherNextTasks c). fst x \<noteq> q}"
    "set (map fst (AList.update q task (otherNextTasks c))) = set (map fst (otherNextTasks c))"
proof -
  show "OnReceiveNextSimStep q task c = c\<lparr>otherNextTasks := AList.update q task (otherNextTasks c)\<rparr>"
    using assms(2) by (auto simp: OnReceiveNextSimStep_def map_of_eq_None_iff)
  show set: "set (AList.update q task (otherNextTasks c)) =
      insert (q, task) {x \<in> set (otherNextTasks c). fst x \<noteq> q}"
    using in_set_update_iff [OF assms(1)] by auto
  show "set (map fst (AList.update q task (otherNextTasks c))) = set (map fst (otherNextTasks c))"
    using assms(2) unfolding set_map set by force
qed

lemma deliver_inv:
  assumes inv: "net_inv names D net" and pq: "p \<in> set names" "q \<in> set names" "p \<noteq> q"
    and ch: "channel net q p = task # rest"
  shows "net_inv names D (deliver_task q p net)"
proof -
  let ?s = "node net p"
  let ?rcv = "?s\<lparr>timeConfiguration := OnReceiveNextSimStep q task (timeConfiguration ?s)\<rparr>"
  note ok = net_invD(1) [OF inv pq(1)]
  have keys: "distinct (map fst (others ?s))" "q \<in> set (map fst (others ?s))"
    using ok pq unfolding node_ok_def by auto
  note known = OnReceive_known [OF keys, of task]
  have s0: "timeConfiguration ?rcv =
      (timeConfiguration ?s)\<lparr>otherNextTasks := AList.update q task (others ?s)\<rparr>"
    "synchronized ?rcv = synchronized ?s" "last_sent ?rcv = last_sent ?s"
    "hop_on_pending ?rcv = hop_on_pending ?s"
    by (simp_all add: known(1) last_sent_def hop_on_pending_def synchronized_def)
  have ok0: "node_ok names (D p) p ?rcv"
    using ok distinct_keys_update [OF keys(1)] known(3)
    unfolding node_ok_def s0 time_configuration.simps by simp
  have net: "node (deliver_task q p net) = (node net)(p := ?rcv)"
    "\<And>a b. channel (deliver_task q p net) a b = (if a = q \<and> b = p then rest else channel net a b)"
    using ch by (auto simp: deliver_task_def pop_channel_def Let_def)
  have same: "last_sent ?rcv = last_sent ?s" "current_time ?rcv = current_time ?s"
    "set (others ?rcv) = insert (q, task) {x \<in> set (others ?s). fst x \<noteq> q}"
    unfolding known(1) by (simp_all add: last_sent_def known(2))
  show ?thesis
    unfolding net_inv_def net
  proof (intro conjI ballI impI)
    fix a
    assume a: "a \<in> set names"
    show "node_ok names (D a) a (((node net)(p := ?rcv)) a)" "sentTasks (((node net)(p := ?rcv)) a) = []"
      "0 \<le> D a"
      using net_invD(1-3) [OF inv a] ok0 by auto
  next
    fix a b
    assume ab: "a \<in> set names" "b \<in> set names" "a \<noteq> b"
    note old = net_invD(4) [OF inv ab]
    show "pair_ok (D b) b (((node net)(p := ?rcv)) a) (((node net)(p := ?rcv)) b)
        (if b = q \<and> a = p then rest else channel net b a)"
    proof (cases "a = p")
      case True
      then show ?thesis
        using old ab ch same by (auto simp: pair_ok_def)
    next
      case False
      then show ?thesis using old same(1) by (auto simp: pair_ok_def)
    qed
  qed
qed

lemma net_step_inv:
  assumes "net_step names net net'" "net_inv names D net"
  shows "net_inv names D net'"
  using assms
proof (induction rule: net_step.induct)
  case (io p net)
  then show ?case
    using io_moves net_invD [OF io.prems io.hyps(1)] net_inv_no_hop_on [OF io.prems io.hyps(1)]
    by (blast intro: update_moves)
next
  case (deliver p q net task rest)
  let ?net = "deliver_task q p net"
  let ?s0 = "(node net p)\<lparr>timeConfiguration :=
    OnReceiveNextSimStep q task (timeConfiguration (node net p))\<rparr>"
  have inv: "net_inv names D ?net" using deliver_inv deliver by blast
  have s0: "node ?net p = ?s0" using deliver.hyps(4) by (simp add: deliver_task_def Let_def)
  have "time_moves (node ?net p) (ts_receive q task (node net p))"
    unfolding s0
    using receive_moves [OF net_invD(1) [OF deliver.prems deliver.hyps(1)]
        net_inv_no_hop_on [OF deliver.prems deliver.hyps(1)] net_invD(3) [OF deliver.prems deliver.hyps(1)]
        refl net_invD(1) [OF inv deliver.hyps(1), unfolded s0]
        net_inv_no_hop_on [OF inv deliver.hyps(1), unfolded s0]] .
  from update_moves [OF inv deliver.hyps(1) this] show ?case
    by (simp add: update_node_def deliver_task_def Let_def pop_channel_def cong: if_cong)
next
  case (lifecycle p net v)
  have "time_moves (node net p) ((node net p)\<lparr>view := v\<rparr>)"
    using node_ok_sync [OF net_invD(1) [OF lifecycle(2,1)]] by (intro time_moves_quiet) simp_all
  then show ?case using lifecycle by (blast intro: update_moves)
next
  case (start p net)
  then show ?case using StartTime_moves [OF net_invD(1) [OF start(2,1)]] by (blast intro: update_moves)
next
  case (stop p net)
  have "time_moves (node net p) (StopTime (node net p))"
    using node_ok_sync [OF net_invD(1) [OF stop(2,1)]]
    by (intro time_moves_quiet) (auto simp: StopTime_def StopWallClockCouplingThread_def record_effect_def)
  then show ?case using stop by (blast intro: update_moves)
next
  case (request p net)
  have "time_moves (node net p) (TimeSyncService_RequestNextStep (node net p))"
    using node_ok_sync [OF net_invD(1) [OF request(2,1)]]
    by (intro time_moves_quiet) (auto simp: TimeSyncService_RequestNextStep_def defer_task_def)
  then show ?case using request by (blast intro: update_moves)
next
  case (complete p net)
  have "time_moves (node net p) (CompleteSimulationStep (node net p))"
    using node_ok_sync [OF net_invD(1) [OF complete(2,1)]]
    by (intro time_moves_quiet) (auto simp: CompleteSimulationStep_def defer_task_def)
  then show ?case using complete by (blast intro: update_moves)
next
  case (wall_clock p net)
  have "time_moves (node net p) (wall_clock_reached (node net p))"
    using node_ok_sync [OF net_invD(1) [OF wall_clock(2,1)]]
    by (intro time_moves_quiet) (auto simp: wall_clock_reached_def defer_task_def Let_def)
  then show ?case using wall_clock by (blast intro: update_moves)
qed

section \<open>The start of a simulation\<close>

record node_setup =
  setup_handler :: "int \<Rightarrow> int \<Rightarrow> step_reaction"
  setup_blocking :: bool
  setup_step :: int
  setup_coupled :: bool
  setup_dynamic :: "bool option"
  setup_view :: lifecycle_view

text \<open>A service that was just constructed.\<close>

definition constructed :: "node_setup \<Rightarrow> time_sync" where
  "constructed cfg =
     \<lparr>timeConfiguration = init_configuration, timeSyncPolicy = None,
      isSynchronizingVirtualTime = False, timeSyncConfigured = False, simTask = None,
      isCoupledToWallClock = setup_coupled cfg, currentWallClockSyncPoint = 0,
      wallClockCouplingThreadRunning = False, wallClockReachedBeforeCompletion = False,
      otherSimulationStepsCompletedHandlers = no_handlers, dynamicStepConfig = None,
      dynamicStepPeers = [], advertisedTimeSync = None, providerTime = 0, watchDogRunning = False,
      incapableParticipants = [], view = setup_view cfg, deferred = [], sentTasks = [],
      ts_effects = []\<rparr>"

text \<open>
  The user sets the step handler, the lifecycle sets up the policy, and all other
  participants are discovered before any of them has sent a task.
\<close>

definition setup_node :: "string list \<Rightarrow> node_setup \<Rightarrow> string \<Rightarrow> time_sync" where
  "setup_node names cfg p =
     (let s1 = ConfigureDynamicStepSize (setup_dynamic cfg) (constructed cfg);
          s2 = after_exception (SetSimulationStepHandler (setup_blocking cfg) (setup_handler cfg)
                 (setup_step cfg) s1) s1;
          s3 = InitializeTimeSyncPolicy True s2
      in s3\<lparr>timeConfiguration :=
              fold AddSynchronizedParticipant (removeAll p names) (timeConfiguration s3)\<rparr>)"

definition setup_network :: "string list \<Rightarrow> (string \<Rightarrow> node_setup) \<Rightarrow> network" where
  "setup_network names cfg =
     \<lparr>node = (\<lambda>p. setup_node names (cfg p) p), channel = (\<lambda>_ _. [])\<rparr>"

inductive net_reachable :: "string list \<Rightarrow> (string \<Rightarrow> node_setup) \<Rightarrow> network \<Rightarrow> bool"
  for names cfg where
  "net_reachable names cfg (setup_network names cfg)"
| "net_reachable names cfg net \<Longrightarrow> net_step names net net' \<Longrightarrow> net_reachable names cfg net'"

lemma Add_cases:
  assumes "distinct (map fst (otherNextTasks c))"
    "\<forall>(n, t) \<in> set (otherNextTasks c). t = \<lparr>timePoint = - 1, duration = 0\<rparr>"
  obtains ots where "AddSynchronizedParticipant x c = c\<lparr>otherNextTasks := ots\<rparr>"
    "distinct (map fst ots)" "set (map fst ots) = insert x (set (map fst (otherNextTasks c)))"
    "\<forall>(n, t) \<in> set ots. t = \<lparr>timePoint = - 1, duration = 0\<rparr>"
proof (cases "map_of (otherNextTasks c) x")
  case None
  let ?new = "AList.update x \<lparr>timePoint = - 1, duration = 0\<rparr> (otherNextTasks c)"
  show thesis
  proof (rule that [of ?new])
    show "AddSynchronizedParticipant x c = c\<lparr>otherNextTasks := ?new\<rparr>"
      using None by (simp add: AddSynchronizedParticipant_def)
    show "distinct (map fst ?new)" by (rule distinct_keys_update [OF assms(1)])
    show "set (map fst ?new) = insert x (set (map fst (otherNextTasks c)))"
      by (simp add: dom_update)
    show "\<forall>(n, t) \<in> set ?new. t = \<lparr>timePoint = - 1, duration = 0\<rparr>"
      using assms(2) in_set_update_iff [OF assms(1)] by fastforce
  qed
next
  case (Some t)
  then have "x \<in> set (map fst (otherNextTasks c))" by (force dest: map_of_SomeD)
  then show thesis
    using that [of "otherNextTasks c"] Some assms by (auto simp: AddSynchronizedParticipant_def)
qed

lemma fold_Add:
  assumes "distinct (map fst (otherNextTasks c))"
    "\<forall>(n, t) \<in> set (otherNextTasks c). t = \<lparr>timePoint = - 1, duration = 0\<rparr>"
  shows "\<exists>ots. fold AddSynchronizedParticipant xs c = c\<lparr>otherNextTasks := ots\<rparr> \<and>
    distinct (map fst ots) \<and> set (map fst ots) = set (map fst (otherNextTasks c)) \<union> set xs \<and>
    (\<forall>(n, t) \<in> set ots. t = \<lparr>timePoint = - 1, duration = 0\<rparr>)"
  using assms
proof (induction xs arbitrary: c)
  case Nil
  then show ?case by (intro exI [of _ "otherNextTasks c"]) simp
next
  case (Cons x xs)
  obtain ots where ots: "AddSynchronizedParticipant x c = c\<lparr>otherNextTasks := ots\<rparr>"
    "distinct (map fst ots)" "set (map fst ots) = insert x (set (map fst (otherNextTasks c)))"
    "\<forall>(n, t) \<in> set ots. t = \<lparr>timePoint = - 1, duration = 0\<rparr>"
    by (rule Add_cases [OF Cons.prems])
  show ?case using Cons.IH [of "c\<lparr>otherNextTasks := ots\<rparr>"] ots by auto
qed

lemma setup_node_time:
  assumes "\<forall>p \<in> set names. 0 < setup_step (cfg p)" "p \<in> set names"
  shows "\<exists>ots. timeConfiguration (setup_node names (cfg p) p) =
        \<lparr>currentTask = \<lparr>timePoint = - 1, duration = 0\<rparr>,
         myNextTask = \<lparr>timePoint = 0, duration = setup_step (cfg p)\<rparr>, otherNextTasks = ots,
         blocking = setup_blocking (cfg p), hoppedOn = False,
         dynamicStepSizeEnabled = (setup_dynamic (cfg p) = Some True)\<rparr> \<and>
      distinct (map fst ots) \<and> set (map fst ots) = set names - {p} \<and>
      (\<forall>(n, t) \<in> set ots. t = \<lparr>timePoint = - 1, duration = 0\<rparr>) \<and>
      sentTasks (setup_node names (cfg p) p) = [] \<and>
      timeSyncPolicy (setup_node names (cfg p) p) = Some (SynchronizedPolicy
        \<lparr>isExecutingSimStep = False, lastSentNextSimTask = - 1, hopOnEvaluated = False\<rparr>)"
  proof -
    let ?s = "InitializeTimeSyncPolicy True (after_exception (SetSimulationStepHandler
      (setup_blocking (cfg p)) (setup_handler (cfg p)) (setup_step (cfg p))
      (ConfigureDynamicStepSize (setup_dynamic (cfg p)) (constructed (cfg p))))
      (ConfigureDynamicStepSize (setup_dynamic (cfg p)) (constructed (cfg p))))"
    have s: "timeConfiguration ?s =
        \<lparr>currentTask = \<lparr>timePoint = - 1, duration = 0\<rparr>,
         myNextTask = \<lparr>timePoint = 0, duration = setup_step (cfg p)\<rparr>, otherNextTasks = [],
         blocking = setup_blocking (cfg p), hoppedOn = False,
         dynamicStepSizeEnabled = (setup_dynamic (cfg p) = Some True)\<rparr>"
      "sentTasks ?s = []"
      "timeSyncPolicy ?s = Some (SynchronizedPolicy
        \<lparr>isExecutingSimStep = False, lastSentNextSimTask = - 1, hopOnEvaluated = False\<rparr>)"
      using assms
      by (auto simp: constructed_def ConfigureDynamicStepSize_def RecomputeDynamicStepEnabled_def
          Let_def SetSimulationStepHandler_def SetStepDuration_def SetBlockingMode_def
          SetDynamicStepSizeEnabled_def InitializeTimeSyncPolicy_def SetupTimeSyncPolicy_def
          ResetTime_def Initialize_def init_configuration_def)
    have "setup_node names (cfg p) p = ?s\<lparr>timeConfiguration :=
        fold AddSynchronizedParticipant (removeAll p names) (timeConfiguration ?s)\<rparr>"
      by (simp add: setup_node_def Let_def)
    then show ?thesis
      using fold_Add [of "timeConfiguration ?s" "removeAll p names"] s by auto
  qed

lemma setup_network_inv:
  assumes "\<forall>p \<in> set names. 0 < setup_step (cfg p)"
  shows "net_inv names (\<lambda>p. setup_step (cfg p)) (setup_network names cfg)"
proof -
  note node = setup_node_time [OF assms]
  have last: "last_sent (setup_node names (cfg p) p) = - 1" if "p \<in> set names" for p
    using node [OF that] by (auto simp: last_sent_def)
  show ?thesis
    unfolding net_inv_def setup_network_def network.simps
  proof (intro conjI ballI impI)
    fix p assume p: "p \<in> set names"
    show "node_ok names (setup_step (cfg p)) p (setup_node names (cfg p) p)"
    proof -
      obtain ots where "timeConfiguration (setup_node names (cfg p) p) =
        \<lparr>currentTask = \<lparr>timePoint = - 1, duration = 0\<rparr>,
         myNextTask = \<lparr>timePoint = 0, duration = setup_step (cfg p)\<rparr>, otherNextTasks = ots,
         blocking = setup_blocking (cfg p), hoppedOn = False,
         dynamicStepSizeEnabled = (setup_dynamic (cfg p) = Some True)\<rparr>"
        "distinct (map fst ots)" "set (map fst ots) = set names - {p}"
        "timeSyncPolicy (setup_node names (cfg p) p) = Some (SynchronizedPolicy
          \<lparr>isExecutingSimStep = False, lastSentNextSimTask = - 1, hopOnEvaluated = False\<rparr>)"
        using node [OF p] by blast
      moreover have "0 < setup_step (cfg p)" using assms p by blast
      ultimately show ?thesis
        by (simp add: node_ok_def last_sent_def synchronized_def hop_on_pending_def)
    qed
    show "sentTasks (setup_node names (cfg p) p) = []" "0 \<le> setup_step (cfg p)"
      using node [OF p] assms p by auto
    fix q assume "q \<in> set names"
    then show "pair_ok (setup_step (cfg q)) q (setup_node names (cfg p) p)
        (setup_node names (cfg q) q) []"
      using node [OF p] last by (force simp: pair_ok_def announced_def)
  qed
qed

lemma net_reachable_inv:
  assumes "net_reachable names cfg net" "\<forall>p \<in> set names. 0 < setup_step (cfg p)"
  shows "net_inv names (\<lambda>p. setup_step (cfg p)) net"
  using assms by (induction rule: net_reachable.induct) (auto intro: setup_network_inv net_step_inv)

text \<open>
  Claim C1. Conservative synchronization: whatever the interleaving of IO tasks, message
  deliveries, starts, stops, completions and lifecycle changes, and whatever the step
  handlers do, no participant executes a simulation step at a virtual time that another
  participant has not reached: the current step of each starts no later than the next time
  point that every other participant has announced, and so no later than its next step.
\<close>

theorem no_participant_runs_ahead:
  assumes "net_reachable names cfg net" "\<forall>p \<in> set names. 0 < setup_step (cfg p)"
    "p \<in> set names" "q \<in> set names" "p \<noteq> q"
  shows "timePoint (currentTask (timeConfiguration (node net p))) \<le> last_sent (node net q) \<and>
    last_sent (node net q) \<le> timePoint (myNextTask (timeConfiguration (node net q)))"
proof -
  note inv = net_reachable_inv [OF assms(1,2)]
  show ?thesis
    using net_invD(4) [OF inv assms(3-5)] net_invD(1) [OF inv assms(4)]
    by (simp add: pair_ok_def node_ok_def)
qed

definition demo_setup :: node_setup where
  "demo_setup =
     \<lparr>setup_handler = (\<lambda>_ _. \<lparr>reaction_stop = False, reaction_pause = False,
                              reaction_complete = False, reaction_throws = False\<rparr>),
      setup_blocking = True, setup_step = 10, setup_coupled = False, setup_dynamic = None,
      setup_view = \<lparr>view_state = PS_Running, view_stopRequested = False,
        view_pauseRequested = False, view_operationMode = OM_Coordinated,
        view_timeSyncActive = True, view_systemState = SS_Running\<rparr>\<rparr>"

definition demo_names :: "string list" where
  "demo_names = [''A'', ''B'']"

text \<open>\<open>A\<close> and \<open>B\<close> start; \<open>A\<close> receives the first task of \<open>B\<close> and executes its first step.\<close>

definition demo_started :: network where
  "demo_started =
     (let net = setup_network demo_names (\<lambda>_. demo_setup);
          net = update_node demo_names ''A'' (StartTime (node net ''A'')) net
      in update_node demo_names ''B'' (StartTime (node net ''B'')) net)"

definition demo_net :: network where
  "demo_net = update_node demo_names ''A''
     (ts_receive ''B'' (hd (channel demo_started ''B'' ''A'')) (node demo_started ''A''))
     (pop_channel ''B'' ''A'' demo_started)"

lemma demo_reachable: "net_reachable demo_names (\<lambda>_. demo_setup) demo_net"
proof -
  have names: "''A'' \<in> set demo_names" "''B'' \<in> set demo_names" by (simp_all add: demo_names_def)
  have started: "net_reachable demo_names (\<lambda>_. demo_setup) demo_started"
    unfolding demo_started_def Let_def
    by (rule net_reachable.intros(2) [OF net_reachable.intros(2) [OF net_reachable.intros(1)
        net_step.start [OF names(1)]] net_step.start [OF names(2)]])
  have "channel demo_started ''B'' ''A'' = [\<lparr>timePoint = 0, duration = 10\<rparr>]" by code_simp
  then have "channel demo_started ''B'' ''A'' = hd (channel demo_started ''B'' ''A'') # []" by simp
  from net_reachable.intros(2) [OF started net_step.deliver [OF names _ this]] show ?thesis
    by (simp add: demo_net_def)
qed

theorem no_participant_runs_ahead_witness:
  "timePoint (currentTask (timeConfiguration (node demo_net ''A''))) = 0 \<and>
   0 \<le> last_sent (node demo_net ''B'') \<and>
   last_sent (node demo_net ''B'') \<le> timePoint (myNextTask (timeConfiguration (node demo_net ''B'')))"
proof -
  have executed: "timePoint (currentTask (timeConfiguration (node demo_net ''A''))) = 0" by code_simp
  moreover have "timePoint (currentTask (timeConfiguration (node demo_net ''A'')))
      \<le> last_sent (node demo_net ''B'') \<and>
    last_sent (node demo_net ''B'') \<le> timePoint (myNextTask (timeConfiguration (node demo_net ''B'')))"
    by (rule no_participant_runs_ahead [OF demo_reachable]) (simp_all add: demo_setup_def demo_names_def)
  ultimately show ?thesis by simp
qed

section \<open>No deadlock\<close>

text \<open>
  A participant that takes part without disturbance: it runs, in lock step with its
  handler, is not coupled to the wall clock, and its handler only simulates.
\<close>

definition live :: "time_sync \<Rightarrow> bool" where
  "live s \<longleftrightarrow>
     view_state (view s) = PS_Running \<and> \<not> view_stopRequested (view s) \<and>
     \<not> view_pauseRequested (view s) \<and>
     \<not> (view_operationMode (view s) = OM_Coordinated \<and> view_systemState (view s) = SS_Error) \<and>
     \<not> isCoupledToWallClock s \<and> blocking (timeConfiguration s) \<and>
     (\<exists>f. simTask s = Some f \<and> (\<forall>t d. \<not> reaction_stop (f t d) \<and> \<not> reaction_pause (f t d) \<and>
        \<not> reaction_throws (f t d)))"

definition told :: "time_sync \<Rightarrow> bool" where
  "told s \<longleftrightarrow> last_sent s = next_time s"

definition awake :: "time_sync \<Rightarrow> bool" where
  "awake s \<longleftrightarrow> deferred s \<noteq> [] \<or> OtherParticipantHasLowerTimepoint (timeConfiguration s)"

definition sends_ok :: "time_sync \<Rightarrow> time_sync \<Rightarrow> bool" where
  "sends_ok s s' \<longleftrightarrow>
     (if sentTasks s' = [] then last_sent s' = last_sent s
      else timePoint (last (sentTasks s')) = last_sent s')"

lemma live_clear [simp]:
  "live (s\<lparr>sentTasks := ts\<rparr>) = live s" "told (s\<lparr>sentTasks := ts\<rparr>) = told s"
  "awake (s\<lparr>sentTasks := ts\<rparr>) = awake s"
  by (simp_all add: live_def told_def awake_def)

lemma live_deferred [simp]: "live (s\<lparr>deferred := q\<rparr>) = live s"
  by (simp add: live_def)

text \<open>Requesting the next step announces it, unless that was done, and looks at it later.\<close>

lemma live_request:
  assumes "live s" "synchronized s"
  shows "live (TimeSyncPolicy_RequestNextStep s) \<and> told (TimeSyncPolicy_RequestNextStep s) \<and>
    deferred (TimeSyncPolicy_RequestNextStep s) \<noteq> [] \<and>
    (sentTasks (TimeSyncPolicy_RequestNextStep s) = sentTasks s \<and>
       last_sent (TimeSyncPolicy_RequestNextStep s) = last_sent s \<or>
     sentTasks (TimeSyncPolicy_RequestNextStep s) = sentTasks s @ [myNextTask (timeConfiguration s)] \<and>
       last_sent (TimeSyncPolicy_RequestNextStep s) = next_time s)"
proof -
  obtain p where p: "timeSyncPolicy s = Some (SynchronizedPolicy p)"
    using assms(2) by (auto simp: synchronized_def)
  let ?n = "myNextTask (timeConfiguration s)"
  have "TimeSyncPolicy_RequestNextStep s = defer_task TT_ProcessSimulationTimeUpdate
      (if lastSentNextSimTask p \<noteq> timePoint ?n
       then SendNextSimTask ?n (set_policy (p\<lparr>lastSentNextSimTask := timePoint ?n\<rparr>) s) else s)"
    using assms(1) p
    by (simp add: TimeSyncPolicy_RequestNextStep_def policy_RequestNextStep_def live_def Let_def)
  then show ?thesis
    using assms(1) p
    by (simp add: live_def told_def last_sent_def defer_task_def SendNextSimTask_def set_policy_def)
qed

lemma live_execute:
  assumes "live s" "no_hop_on s" "synchronized s" "timeSyncPolicy s = Some (SynchronizedPolicy pol)"
    "hop_on_pending s \<Longrightarrow> \<not> hoppedOn (timeConfiguration s)"
  obtains s' where "AdvanceTimeAndExecuteSimStep pol s = Done s'" "live s'" "synchronized s'"
    "sentTasks s' = sentTasks s" "last_sent s' = last_sent s"
proof -
  obtain s1 where s1: "evaluate_hop_on pol s = (True, s1)"
    "timeConfiguration s1 = timeConfiguration s" "sentTasks s1 = sentTasks s"
    "isCoupledToWallClock s1 = isCoupledToWallClock s" "simTask s1 = simTask s" "view s1 = view s"
    "timeSyncPolicy s1 = Some (SynchronizedPolicy (pol\<lparr>hopOnEvaluated := True\<rparr>))"
    using evaluate_hop_on_no_hop [OF assms(4)] assms(2,4,5)
    unfolding no_hop_on_def hop_on_pending_def by auto
  obtain f where f: "simTask s = Some f" "\<And>t d. \<not> reaction_stop (f t d)"
    "\<And>t d. \<not> reaction_pause (f t d)" "\<And>t d. \<not> reaction_throws (f t d)"
    using assms(1) by (auto simp: live_def)
  have "view_state (view s) = PS_Running" using assms(1) by (simp add: live_def)
  then show thesis
    using that s1 f assms(1,4)
    by (simp add: AdvanceTimeAndExecuteSimStep_def ExecuteSimStep_def Let_def live_def
        synchronized_def last_sent_def record_effect_def defer_task_def AdvanceTimeStep_simps)
qed

lemma live_possible:
  "live s \<Longrightarrow> IsTimeAdvancePossible s = (\<not> OtherParticipantHasLowerTimepoint (timeConfiguration s))"
  by (simp add: live_def IsTimeAdvancePossible_def)

lemma live_process:
  assumes "live s" "no_hop_on s" "synchronized s" "sentTasks s = []"
    "hop_on_pending s \<Longrightarrow> \<not> hoppedOn (timeConfiguration s)"
  obtains s' where "TimeSyncPolicy_ProcessSimulationTimeUpdate s = Done s'" "live s'" "sends_ok s s'"
    "OtherParticipantHasLowerTimepoint (timeConfiguration s) \<Longrightarrow> s' = s"
    "\<not> OtherParticipantHasLowerTimepoint (timeConfiguration s) \<Longrightarrow> told s' \<and> deferred s' \<noteq> []"
proof -
  obtain pol where pol: "timeSyncPolicy s = Some (SynchronizedPolicy pol)"
    using assms(3) by (auto simp: synchronized_def)
  have blocking: "blocking (timeConfiguration s)" using assms(1) by (simp add: live_def)
  show thesis
  proof (cases "OtherParticipantHasLowerTimepoint (timeConfiguration s)")
    case True
    then show ?thesis
      using that [of s] assms(1,4) pol
      by (simp add: TimeSyncPolicy_ProcessSimulationTimeUpdate_def
          policy_ProcessSimulationTimeUpdate_def live_possible sends_ok_def)
  next
    case False
    obtain s1 where s1: "AdvanceTimeAndExecuteSimStep pol s = Done s1" "live s1" "synchronized s1"
      "sentTasks s1 = sentTasks s" "last_sent s1 = last_sent s"
      using live_execute [OF assms(1-3) pol assms(5)] by blast
    let ?s' = "TimeSyncPolicy_RequestNextStep s1"
    note req = live_request [OF s1(2,3)]
    have "TimeSyncPolicy_ProcessSimulationTimeUpdate s = Done ?s'"
      using False assms(1) pol blocking s1(1,2)
      by (simp add: TimeSyncPolicy_ProcessSimulationTimeUpdate_def
          policy_ProcessSimulationTimeUpdate_def live_possible AdvanceTimeSimStepSync_def live_def)
    moreover have "sends_ok s ?s'"
      using req s1(4,5) assms(4) by (auto simp: sends_ok_def)
    ultimately show ?thesis using that req False by blast
  qed
qed

text \<open>A participant that has not started yet, or one that announced its next step.\<close>

definition engaged :: "time_sync \<Rightarrow> bool" where
  "engaged s \<longleftrightarrow> live s \<and> (last_sent s = - 1 \<and> deferred s = [] \<or> told s \<and> awake s)"

inductive live_step :: "string list \<Rightarrow> network \<Rightarrow> network \<Rightarrow> bool" for names where
  live_io: "p \<in> set names \<Longrightarrow> deferred (node net p) \<noteq> [] \<Longrightarrow>
    live_step names net (update_node names p (ts_io_step (node net p)) net)"
| live_deliver: "p \<in> set names \<Longrightarrow> q \<in> set names \<Longrightarrow> p \<noteq> q \<Longrightarrow> channel net q p = task # rest \<Longrightarrow>
    live_step names net (update_node names p (ts_receive q task (node net p)) (pop_channel q p net))"
| live_start: "p \<in> set names \<Longrightarrow>
    live_step names net (update_node names p (StartTime (node net p)) net)"

lemma live_step_net_step: "live_step names net net' \<Longrightarrow> net_step names net net'"
  by (erule live_step.cases) (auto intro: net_step.intros)

inductive live_reachable :: "string list \<Rightarrow> (string \<Rightarrow> node_setup) \<Rightarrow> network \<Rightarrow> bool"
  for names cfg where
  "live_reachable names cfg (setup_network names cfg)"
| "live_reachable names cfg net \<Longrightarrow> live_step names net net' \<Longrightarrow> live_reachable names cfg net'"

lemma live_reachable_net: "live_reachable names cfg net \<Longrightarrow> net_reachable names cfg net"
  by (induction rule: live_reachable.induct) (auto intro: net_reachable.intros live_step_net_step)

text \<open>What a participant knows of another ends, with what is under way, in the truth.\<close>

definition heard :: "string \<Rightarrow> time_sync \<Rightarrow> time_sync \<Rightarrow> next_sim_task list \<Rightarrow> bool" where
  "heard q sp sq ch \<longleftrightarrow>
     (\<exists>k. map_of (others sp) q = Some k \<and> timePoint (last (k # ch)) = last_sent sq)"

definition heard_all :: "string list \<Rightarrow> network \<Rightarrow> bool" where
  "heard_all names net \<longleftrightarrow>
     (\<forall>p \<in> set names. \<forall>q \<in> set names. p \<noteq> q \<longrightarrow> heard q (node net p) (node net q) (channel net q p))"

lemma heard_update:
  assumes heard: "heard_all names net" and p: "p \<in> set names"
    and s': "others s' = others (node net p)" "sends_ok (node net p) s'"
  shows "heard_all names (update_node names p s' net)"
  unfolding heard_all_def
proof (intro ballI impI)
  fix a b
  assume ab: "a \<in> set names" "b \<in> set names" "a \<noteq> b"
  then have old: "heard b (node net a) (node net b) (channel net b a)"
    using heard by (simp add: heard_all_def)
  show "heard b (node (update_node names p s' net) a) (node (update_node names p s' net) b)
      (channel (update_node names p s' net) b a)"
  proof (cases "b = p")
    case True
    then show ?thesis
      using old ab s'(2) by (auto simp: heard_def sends_ok_def split: if_splits)
  next
    case False
    then show ?thesis using old ab s'(1) by (auto simp: heard_def)
  qed
qed

lemma heard_deliver:
  assumes inv: "net_inv names D net" and heard: "heard_all names net"
    and pq: "p \<in> set names" "q \<in> set names" "p \<noteq> q" and ch: "channel net q p = task # rest"
  shows "heard_all names (deliver_task q p net)"
  unfolding heard_all_def
proof (intro ballI impI)
  fix a b
  assume ab: "a \<in> set names" "b \<in> set names" "a \<noteq> b"
  then have old: "heard b (node net a) (node net b) (channel net b a)"
    using heard by (simp add: heard_all_def)
  have keys: "distinct (map fst (others (node net p)))" "q \<in> set (map fst (others (node net p)))"
    using net_invD(1) [OF inv pq(1)] pq unfolding node_ok_def by auto
  show "heard b (node (deliver_task q p net) a) (node (deliver_task q p net) b)
      (channel (deliver_task q p net) b a)"
    using old ch OnReceive_known(1) [OF keys, of task]
    by (auto simp: heard_def deliver_task_def pop_channel_def Let_def last_sent_def)
qed

lemma engaged_io:
  assumes "engaged s" "node_ok names D p s" "no_hop_on s" "sentTasks s = []" "deferred s \<noteq> []"
  shows "engaged (ts_io_step s) \<and> sends_ok s (ts_io_step s)"
proof -
  obtain task rest where d: "deferred s = task # rest" using assms(5) by (cases "deferred s") auto
  let ?t = "s\<lparr>deferred := rest\<rparr>"
  have told: "live s" "told s" using assms(1,5) by (auto simp: engaged_def)
  have t: "live ?t" "told ?t" "no_hop_on ?t" "synchronized ?t" "sentTasks ?t = []"
    "hop_on_pending ?t \<Longrightarrow> \<not> hoppedOn (timeConfiguration ?t)" "last_sent ?t = last_sent s"
    using told assms(2-4) same_time_ok [of ?t s]
    by (auto simp: node_ok_def told_def hop_on_pending_def)
  have step: "ts_io_step s = after_exception (run_ts_task task ?t) s"
    using d by (simp add: ts_io_step_def)
  have request: "engaged (TimeSyncPolicy_RequestNextStep u) \<and> sends_ok s (TimeSyncPolicy_RequestNextStep u)"
    if "live u" "synchronized u" "sentTasks u = []" "last_sent u = last_sent s" for u
    using live_request [OF that(1,2)] that(3,4) by (auto simp: engaged_def awake_def sends_ok_def)
  show ?thesis
  proof (cases task)
    case TT_ProcessSimulationTimeUpdate
    obtain s' where s': "TimeSyncPolicy_ProcessSimulationTimeUpdate ?t = Done s'" "live s'" "sends_ok ?t s'"
      "OtherParticipantHasLowerTimepoint (timeConfiguration ?t) \<Longrightarrow> s' = ?t"
      "\<not> OtherParticipantHasLowerTimepoint (timeConfiguration ?t) \<Longrightarrow> told s' \<and> deferred s' \<noteq> []"
      using live_process [OF t(1,3,4,5,6)] by blast
    then have "engaged s'" using t(2) by (cases "OtherParticipantHasLowerTimepoint (timeConfiguration ?t)")
      (auto simp: engaged_def awake_def)
    moreover have "sends_ok s s'" using s'(3) t(7) by (simp add: sends_ok_def)
    ultimately show ?thesis using step s'(1) TT_ProcessSimulationTimeUpdate by simp
  next
    case TT_RequestNextStep
    then show ?thesis using step request [OF t(1,4,5,7)] by simp
  next
    case TT_CompleteSimulationStep
    let ?u = "SetSimStepCompleted ?t\<lparr>wallClockReachedBeforeCompletion := False\<rparr>"
    have "complete_step ?t = TimeSyncPolicy_RequestNextStep ?u"
      using t(1,4) by (auto simp: complete_step_def live_def SetSimStepCompleted_def set_policy_def
          synchronized_def)
    moreover have "live ?u" "synchronized ?u" "sentTasks ?u = []" "last_sent ?u = last_sent s"
      using t(1,4,5,7) by (auto simp: live_def SetSimStepCompleted_def set_policy_def synchronized_def
          last_sent_def)
    ultimately show ?thesis using step request TT_CompleteSimulationStep by simp
  qed
qed

lemma engaged_deliver:
  assumes "engaged s" "node_ok names D p r" "no_hop_on r" "sentTasks s = []"
    "r = s\<lparr>timeConfiguration := OnReceiveNextSimStep q task (timeConfiguration s)\<rparr>"
  shows "engaged (ts_receive q task s) \<and> sends_ok r (ts_receive q task s)"
proof -
  have r: "live r" "synchronized r" "sentTasks r = []" "last_sent r = last_sent s"
    "next_time r = next_time s" "deferred r = deferred s"
    "hop_on_pending r \<Longrightarrow> \<not> hoppedOn (timeConfiguration r)"
    using assms by (auto simp: engaged_def live_def node_ok_def last_sent_def OnReceiveNextSimStep_def)
  obtain s' where s': "TimeSyncPolicy_ProcessSimulationTimeUpdate r = Done s'" "live s'" "sends_ok r s'"
    "OtherParticipantHasLowerTimepoint (timeConfiguration r) \<Longrightarrow> s' = r"
    "\<not> OtherParticipantHasLowerTimepoint (timeConfiguration r) \<Longrightarrow> told s' \<and> deferred s' \<noteq> []"
    using live_process [OF r(1) assms(3) r(2,3,7)] by blast
  obtain pol where "timeSyncPolicy s = Some (SynchronizedPolicy pol)"
    using r(2) assms(5) by (auto simp: synchronized_def)
  then have "ts_receive q task s = s'"
    using s'(1) assms(1,5)
    by (simp add: ts_receive_def TimeSyncService_ReceiveMsg_def policy_ReceiveNextSimTask_def
        TimeSyncPolicy_ProcessSimulationTimeUpdate_def engaged_def live_def)
  moreover have "engaged s'"
  proof (cases "OtherParticipantHasLowerTimepoint (timeConfiguration r)")
    case True
    then show ?thesis using s'(4) r assms(1) by (auto simp: engaged_def told_def awake_def)
  next
    case False
    then show ?thesis using s'(2,5) by (auto simp: engaged_def awake_def)
  qed
  ultimately show ?thesis using s'(3) by simp
qed

lemma engaged_start:
  assumes "engaged s" "node_ok names D p s" "sentTasks s = []"
  shows "engaged (StartTime s) \<and> sends_ok s (StartTime s)"
proof -
  have s: "live s" "synchronized s" using assms(1,2) by (simp_all add: engaged_def node_ok_def)
  have abort: "live (record_effect e s)" "synchronized (record_effect e s)"
    "sentTasks (record_effect e s) = []" "last_sent (record_effect e s) = last_sent s" for e
    using s assms(3) by (simp_all add: record_effect_def live_def synchronized_def last_sent_def)
  have request: "engaged (TimeSyncPolicy_RequestNextStep u) \<and> sends_ok s (TimeSyncPolicy_RequestNextStep u)"
    if "live u" "synchronized u" "sentTasks u = []" "last_sent u = last_sent s" for u
    using live_request [OF that(1,2)] that(3,4) by (auto simp: engaged_def awake_def sends_ok_def)
  show ?thesis
    using assms(1,3) request [OF s assms(3) refl] request [OF abort]
    by (auto simp: StartTime_def Let_def sends_ok_def)
qed

definition live_inv :: "string list \<Rightarrow> network \<Rightarrow> bool" where
  "live_inv names net \<longleftrightarrow> (\<forall>p \<in> set names. engaged (node net p)) \<and> heard_all names net"

lemma live_update:
  assumes "live_inv names net" "p \<in> set names" "engaged s'" "others s' = others (node net p)"
    "sends_ok (node net p) s'"
  shows "live_inv names (update_node names p s' net)"
  using assms heard_update [OF _ assms(2,4,5)] by (auto simp: live_inv_def engaged_def)

lemma live_step_inv:
  assumes "live_step names net net'" "live_inv names net" "net_inv names D net"
  shows "live_inv names net'"
  using assms
proof (induction rule: live_step.induct)
  case (live_io p net)
  note ok = net_invD(1,2) [OF live_io(4,1)] net_inv_no_hop_on [OF live_io(4,1)]
  have "engaged (node net p)" using live_io(1,3) by (simp add: live_inv_def)
  from engaged_io [OF this ok(1,3,2) live_io(2)] show ?case
    using time_moves_frame(2) [OF io_moves [OF ok(1,3) net_invD(3) [OF live_io(4,1)] live_io(2)]]
    by (intro live_update [OF live_io(3,1)]) auto
next
  case (live_start p net)
  note ok = net_invD(1,2) [OF live_start(3,1)]
  have "engaged (node net p)" using live_start by (simp add: live_inv_def)
  from engaged_start [OF this ok] show ?case
    using time_moves_frame(2) [OF StartTime_moves [OF ok(1)]]
    by (intro live_update [OF live_start(2,1)]) auto
next
  case (live_deliver p q net task rest)
  let ?net = "deliver_task q p net"
  let ?r = "(node net p)\<lparr>timeConfiguration :=
    OnReceiveNextSimStep q task (timeConfiguration (node net p))\<rparr>"
  have inv: "net_inv names D ?net" using deliver_inv live_deliver by blast
  have heard: "heard_all names ?net"
    using heard_deliver live_deliver by (auto simp: live_inv_def)
  have r: "node ?net p = ?r" "a \<noteq> p \<Longrightarrow> node ?net a = node net a" for a
    using live_deliver.hyps(4) by (simp_all add: deliver_task_def Let_def)
  note ok = net_invD(1) [OF inv live_deliver.hyps(1), unfolded r(1)]
    net_inv_no_hop_on [OF inv live_deliver.hyps(1), unfolded r(1)]
  have "engaged (node net p)" using live_deliver by (simp add: live_inv_def)
  note delivered = engaged_deliver [OF this ok net_invD(2) [OF live_deliver.prems(2) live_deliver.hyps(1)] refl]
  have "time_moves ?r (ts_receive q task (node net p))"
    using receive_moves [OF net_invD(1) [OF live_deliver.prems(2) live_deliver.hyps(1)]
        net_inv_no_hop_on [OF live_deliver.prems(2) live_deliver.hyps(1)]
        net_invD(3) [OF live_deliver.prems(2) live_deliver.hyps(1)] refl ok] .
  then have "heard_all names (update_node names p (ts_receive q task (node net p)) ?net)"
    using heard_update [OF heard live_deliver.hyps(1)] delivered r(1) time_moves_frame(2) by auto
  moreover have "update_node names p (ts_receive q task (node net p)) ?net =
      update_node names p (ts_receive q task (node net p)) (pop_channel q p net)"
    by (simp add: update_node_def deliver_task_def Let_def pop_channel_def cong: if_cong)
  moreover have "engaged (node (update_node names p (ts_receive q task (node net p)) (pop_channel q p net)) a)"
    if "a \<in> set names" for a
    using that delivered live_deliver.prems(1) by (auto simp: live_inv_def engaged_def pop_channel_def)
  ultimately show ?case by (simp add: live_inv_def)
qed

text \<open>The participants of a simulation that nothing disturbs.\<close>

definition undisturbed :: "node_setup \<Rightarrow> bool" where
  "undisturbed cfg \<longleftrightarrow>
     0 < setup_step cfg \<and> setup_blocking cfg \<and> \<not> setup_coupled cfg \<and>
     (\<forall>t d. \<not> reaction_stop (setup_handler cfg t d) \<and> \<not> reaction_pause (setup_handler cfg t d) \<and>
            \<not> reaction_throws (setup_handler cfg t d)) \<and>
     view_state (setup_view cfg) = PS_Running \<and> \<not> view_stopRequested (setup_view cfg) \<and>
     \<not> view_pauseRequested (setup_view cfg) \<and> view_systemState (setup_view cfg) \<noteq> SS_Error"

lemma setup_live_inv:
  assumes "\<forall>p \<in> set names. undisturbed (cfg p)"
  shows "live_inv names (setup_network names cfg)"
proof -
  have node: "engaged (setup_node names (cfg p) p)" "last_sent (setup_node names (cfg p) p) = - 1"
    if p: "p \<in> set names" for p
  proof -
    obtain s where s: "setup_node names (cfg p) p = s\<lparr>timeConfiguration :=
        fold AddSynchronizedParticipant (removeAll p names) (timeConfiguration s)\<rparr>"
      "simTask s = Some (setup_handler (cfg p))" "view s = setup_view (cfg p)"
      "isCoupledToWallClock s = setup_coupled (cfg p)" "deferred s = []"
      "blocking (timeConfiguration s) = setup_blocking (cfg p)" "otherNextTasks (timeConfiguration s) = []"
      "timeSyncPolicy s = Some (SynchronizedPolicy
        \<lparr>isExecutingSimStep = False, lastSentNextSimTask = - 1, hopOnEvaluated = False\<rparr>)"
      using assms p
      by (auto simp: setup_node_def Let_def undisturbed_def constructed_def ConfigureDynamicStepSize_def
          RecomputeDynamicStepEnabled_def SetSimulationStepHandler_def SetStepDuration_def SetBlockingMode_def
          SetDynamicStepSizeEnabled_def InitializeTimeSyncPolicy_def SetupTimeSyncPolicy_def
          ResetTime_def Initialize_def init_configuration_def)
    have "blocking (fold AddSynchronizedParticipant (removeAll p names) (timeConfiguration s))
        = setup_blocking (cfg p)"
      using fold_Add [of "timeConfiguration s" "removeAll p names"] s(6,7) by auto
    then show "engaged (setup_node names (cfg p) p)" "last_sent (setup_node names (cfg p) p) = - 1"
      using s assms p by (auto simp: engaged_def live_def last_sent_def undisturbed_def)
  qed
  have "heard q (setup_node names (cfg p) p) (setup_node names (cfg q) q) []"
    if pq: "p \<in> set names" "q \<in> set names" "p \<noteq> q" for p q
  proof -
    have pos: "\<forall>p \<in> set names. 0 < setup_step (cfg p)" using assms by (simp add: undisturbed_def)
    note inv = setup_network_inv [OF pos]
    have "q \<in> set (map fst (others (setup_node names (cfg p) p)))"
      using net_invD(1) [OF inv pq(1)] pq unfolding node_ok_def setup_network_def by auto
    then obtain k where k: "map_of (others (setup_node names (cfg p) p)) q = Some k"
      by (metis map_of_eq_None_iff not_None_eq set_map)
    have "timePoint k = - 1"
      using setup_node_time [OF pos pq(1)] map_of_SomeD [OF k] by fastforce
    then show ?thesis using k node(2) [OF pq(2)] by (simp add: heard_def)
  qed
  then show ?thesis using node by (auto simp: live_inv_def heard_all_def setup_network_def)
qed

lemma live_reachable_inv:
  assumes "live_reachable names cfg net" "\<forall>p \<in> set names. undisturbed (cfg p)"
  shows "live_inv names net"
  using assms
proof (induction rule: live_reachable.induct)
  case 1
  then show ?case by (rule setup_live_inv)
next
  case (2 net net')
  have "\<forall>p \<in> set names. 0 < setup_step (cfg p)" using 2(4) by (simp add: undisturbed_def)
  from net_reachable_inv [OF live_reachable_net [OF 2(1)] this] show ?case
    using 2 live_step_inv by blast
qed

text \<open>The participant with the least next time point can always go on.\<close>

lemma least_not_lower:
  assumes "live_inv names net" "net_inv names D net" "p \<in> set names"
    "\<And>q. q \<in> set names \<Longrightarrow> next_time (node net p) \<le> next_time (node net q)"
    "\<And>q. q \<in> set names \<Longrightarrow> q \<noteq> p \<Longrightarrow> channel net q p = [] \<and> told (node net q)"
  shows "\<not> OtherParticipantHasLowerTimepoint (timeConfiguration (node net p))"
proof
  assume "OtherParticipantHasLowerTimepoint (timeConfiguration (node net p))"
  then obtain q t where q: "(q, t) \<in> set (others (node net p))" "timePoint t < next_time (node net p)"
    by (auto simp: OtherParticipantHasLowerTimepoint_def list_ex_iff)
  have ok: "distinct (map fst (others (node net p)))" "set (map fst (others (node net p))) = set names - {p}"
    using net_invD(1) [OF assms(2,3)] by (simp_all add: node_ok_def)
  have "q \<in> set (map fst (others (node net p)))" using q(1) by force
  then have names: "q \<in> set names" "q \<noteq> p" using ok(2) by auto
  have "heard q (node net p) (node net q) []"
    using assms(1,3,5) names by (auto simp: live_inv_def heard_all_def)
  then have "timePoint t = last_sent (node net q)"
    using q(1) ok(1) by (simp add: heard_def)
  then show False
    using assms(4) [OF names(1)] assms(5) [OF names] q(2) by (simp add: told_def)
qed

text \<open>
  Claim C2. The synchronization never deadlocks. In a simulation that nothing disturbs
  (every participant runs in lock step with its handler, which neither stops, pauses nor
  throws, and is not coupled to the wall clock), once every participant has started, there
  is always a task to execute or a message to deliver, whatever has happened before and in
  whatever order.
\<close>

theorem synchronization_never_deadlocks:
  assumes "live_reachable names cfg net" "\<forall>p \<in> set names. undisturbed (cfg p)" "names \<noteq> []"
    "\<forall>p \<in> set names. last_sent (node net p) \<noteq> - 1"
  shows "(\<exists>p \<in> set names. deferred (node net p) \<noteq> []) \<or>
    (\<exists>p \<in> set names. \<exists>q \<in> set names. p \<noteq> q \<and> channel net q p \<noteq> [])"
proof (rule ccontr)
  assume "\<not> ?thesis"
  then have quiet: "\<And>p. p \<in> set names \<Longrightarrow> deferred (node net p) = []"
    "\<And>p q. p \<in> set names \<Longrightarrow> q \<in> set names \<Longrightarrow> q \<noteq> p \<Longrightarrow> channel net q p = []" by auto
  note live = live_reachable_inv [OF assms(1,2)]
  have "\<forall>p \<in> set names. 0 < setup_step (cfg p)" using assms(2) by (simp add: undisturbed_def)
  note inv = net_reachable_inv [OF live_reachable_net [OF assms(1)] this]
  have told: "told (node net p)" "OtherParticipantHasLowerTimepoint (timeConfiguration (node net p))"
    if "p \<in> set names" for p
    using live that assms(4) quiet(1) by (auto simp: live_inv_def engaged_def awake_def)
  let ?time = "\<lambda>p. next_time (node net p)"
  have "Min (?time ` set names) \<in> ?time ` set names" using assms(3) by (intro Min_in) auto
  then obtain p where p: "p \<in> set names" "?time p = Min (?time ` set names)" by auto
  have least: "\<And>q. q \<in> set names \<Longrightarrow> ?time p \<le> ?time q" unfolding p(2) by (intro Min_le) auto
  show False
    using least_not_lower [OF live inv p(1) least] told quiet(2) p(1) by blast
qed

lemma demo_live: "live_reachable demo_names (\<lambda>_. demo_setup) demo_started"
proof -
  have names: "''A'' \<in> set demo_names" "''B'' \<in> set demo_names" by (simp_all add: demo_names_def)
  show ?thesis
    unfolding demo_started_def Let_def
    by (rule live_reachable.intros(2) [OF live_reachable.intros(2) [OF live_reachable.intros(1)
        live_step.live_start [OF names(1)]] live_step.live_start [OF names(2)]])
qed

theorem synchronization_never_deadlocks_witness:
  "(\<exists>p \<in> set demo_names. deferred (node demo_started p) \<noteq> []) \<or>
   (\<exists>p \<in> set demo_names. \<exists>q \<in> set demo_names. p \<noteq> q \<and> channel demo_started q p \<noteq> [])"
proof (rule synchronization_never_deadlocks [OF demo_live])
  show "\<forall>p \<in> set demo_names. undisturbed demo_setup" by (simp add: undisturbed_def demo_setup_def)
  show "demo_names \<noteq> []" by (simp add: demo_names_def)
  have "last_sent (node demo_started ''A'') = 0" "last_sent (node demo_started ''B'') = 0" by code_simp+
  then show "\<forall>p \<in> set demo_names. last_sent (node demo_started p) \<noteq> - 1"
    by (simp add: demo_names_def)
qed

end
