(* ===== verification/MessageBuffer.thy ===== *)
theory MessageBuffer
  imports Bytes "HOL-Library.Signed_Division"
begin

text \<open>
  The buffer that messages are written to and read from (\<open>core/internal/MessageBuffer.hpp\<close>),
  its operators for the elementary types and the containers, and the contract that every
  pair of operators keeps: what has been written is read back, whatever follows it.

  A writer is a function from the buffer to the buffer or an exception, a reader yields the
  value beside the buffer. An enumeration is written as its underlying integer and read
  without a check, so it is a machine word in the messages; a duration is the 64 bit word of
  its count, a pointer a 64 bit word.
\<close>

section \<open>The buffer\<close>

type_synonym protocol_version = "nat \<times> nat"

record message_buffer =
  protocolVersion :: protocol_version
  storage :: "byte list"
  wPos :: nat
  rPos :: nat

type_synonym writer = "message_buffer \<Rightarrow> message_buffer result"
type_synonym 'a reader = "message_buffer \<Rightarrow> ('a \<times> message_buffer) result"

definition CurrentProtocolVersion :: protocol_version where
  "CurrentProtocolVersion = (3, 1)"

definition empty_buffer :: message_buffer where
  "empty_buffer = \<lparr>protocolVersion = CurrentProtocolVersion, storage = [], wPos = 0, rPos = 0\<rparr>"

definition buffer_of :: "byte list \<Rightarrow> message_buffer" where
  "buffer_of bytes = \<lparr>protocolVersion = CurrentProtocolVersion, storage = bytes, wPos = length bytes, rPos = 0\<rparr>"

definition RemainingBytesLeft :: "message_buffer \<Rightarrow> nat" where
  "RemainingBytesLeft b = (if rPos b > length (storage b) then 0 else length (storage b) - rPos b)"

definition ReleaseBuffer :: "message_buffer \<Rightarrow> byte list \<times> message_buffer" where
  "ReleaseBuffer b = (storage b, b\<lparr>storage := [], wPos := 0, rPos := 0\<rparr>)"

definition SetProtocolVersion :: "protocol_version \<Rightarrow> message_buffer \<Rightarrow> message_buffer" where
  "SetProtocolVersion v b = b\<lparr>protocolVersion := v\<rparr>"

definition ReadPos :: "message_buffer \<Rightarrow> nat" where
  "ReadPos b = rPos b"

definition SetReadPos :: "nat \<Rightarrow> message_buffer \<Rightarrow> message_buffer" where
  "SetReadPos n b = b\<lparr>rPos := n\<rparr>"

definition PeekData :: "message_buffer \<Rightarrow> byte list" where
  "PeekData b = storage b"

definition resize :: "nat \<Rightarrow> byte list \<Rightarrow> byte list" where
  "resize n xs = take n xs @ replicate (n - length xs) 0"

text \<open>\<open>memcpy\<close> or \<open>std::copy\<close> into the storage.\<close>

definition overwrite :: "nat \<Rightarrow> byte list \<Rightarrow> byte list \<Rightarrow> byte list" where
  "overwrite pos bytes xs = take pos xs @ bytes @ drop (pos + length bytes) xs"

text \<open>Integers and floating point numbers grow the storage by their own size.\<close>

definition put_scalar :: "byte list \<Rightarrow> writer" where
  "put_scalar bytes b =
     (let s = (if wPos b + length bytes > length (storage b)
               then resize (length (storage b) + length bytes) (storage b) else storage b)
      in Inr (b\<lparr>storage := overwrite (wPos b) bytes s, wPos := wPos b + length bytes\<rparr>))"

text \<open>Strings and blobs grow it up to the position they end at.\<close>

definition put_raw :: "byte list \<Rightarrow> writer" where
  "put_raw bytes b =
     (let s = (if wPos b + length bytes > length (storage b)
               then resize (wPos b + length bytes) (storage b) else storage b)
      in Inr (b\<lparr>storage := overwrite (wPos b) bytes s, wPos := wPos b + length bytes\<rparr>))"

definition get_raw :: "nat \<Rightarrow> byte list reader" where
  "get_raw n b =
     (if rPos b + n > length (storage b) then Inl EndOfBuffer
      else Inr (take n (drop (rPos b) (storage b)), b\<lparr>rPos := rPos b + n\<rparr>))"

section \<open>Chains of operators\<close>

text \<open>\<open>buffer << a << b << \<dots>\<close> and \<open>buffer >> a >> b >> \<dots>\<close>\<close>

fun puts :: "writer list \<Rightarrow> writer" where
  "puts [] b = Inr b"
| "puts (w # ws) b = bind_result (w b) (puts ws)"

definition then_get :: "'a reader \<Rightarrow> ('a \<Rightarrow> 'b reader) \<Rightarrow> 'b reader" where
  "then_get r k b = bind_result (r b) (\<lambda>(x, b). k x b)"

definition got :: "'a \<Rightarrow> 'a reader" where
  "got x b = Inr (x, b)"

section \<open>Elementary types\<close>

definition put_word :: "'a::len word \<Rightarrow> writer" where
  "put_word w = put_scalar (le_bytes (LENGTH('a) div 8) (unat w))"

definition get_word :: "'a::len word reader" where
  "get_word = then_get (get_raw (LENGTH('a) div 8)) (\<lambda>bytes. got (of_nat (le_nat bytes)))"

definition put_bool :: "bool \<Rightarrow> writer" where
  "put_bool x = put_scalar [if x then 1 else 0]"

definition get_bool :: "bool reader" where
  "get_bool = then_get (get_raw 1) (\<lambda>bytes. got (bytes \<noteq> [0]))"

definition max_size :: nat where
  "max_size = 2 ^ 32 - 1"

text \<open>A byte sequence with its length in front: \<open>vector<uint8_t>\<close>, \<open>Span\<close>, \<open>SharedVector\<close>.\<close>

definition put_blob :: "byte list \<Rightarrow> writer" where
  "put_blob bytes b =
     (if length bytes > max_size then Inl EndOfBuffer
      else puts [put_word (of_nat (length bytes) :: 32 word), put_raw bytes] b)"

definition get_blob :: "byte list reader" where
  "get_blob = then_get (get_word :: 32 word reader) (\<lambda>n. get_raw (unat n))"

definition char_byte :: "char \<Rightarrow> byte" where
  "char_byte c = of_nat (of_char c)"

definition byte_char :: "byte \<Rightarrow> char" where
  "byte_char w = char_of (unat w)"

definition put_string :: "string \<Rightarrow> writer" where
  "put_string str = put_blob (map char_byte str)"

definition get_string :: "string reader" where
  "get_string = then_get get_blob (\<lambda>bytes. got (map byte_char bytes))"

text \<open>\<open>std::array<uint8_t, SIZE>\<close>, without a length.\<close>

definition put_array :: "byte list \<Rightarrow> writer" where
  "put_array = put_raw"

definition get_array :: "nat \<Rightarrow> byte list reader" where
  "get_array = get_raw"

section \<open>Containers\<close>

definition put_vector :: "('a \<Rightarrow> writer) \<Rightarrow> 'a list \<Rightarrow> writer" where
  "put_vector put xs b =
     (if length xs > max_size then Inl EndOfBuffer
      else puts (put_word (of_nat (length xs) :: 32 word) # map put xs) b)"

fun get_times :: "nat \<Rightarrow> 'a reader \<Rightarrow> 'a list reader" where
  "get_times 0 get = got []"
| "get_times (Suc n) get = then_get get (\<lambda>x. then_get (get_times n get) (\<lambda>xs. got (x # xs)))"

text \<open>The check compares the number of elements with the number of bytes that are left.\<close>

definition get_vector :: "'a reader \<Rightarrow> 'a list reader" where
  "get_vector get = then_get (get_word :: 32 word reader) (\<lambda>n b.
     if rPos b + unat n > length (storage b) then Inl EndOfBuffer else get_times (unat n) get b)"

definition put_pair :: "('a \<Rightarrow> writer) \<Rightarrow> ('b \<Rightarrow> writer) \<Rightarrow> 'a \<times> 'b \<Rightarrow> writer" where
  "put_pair put1 put2 x = puts [put1 (fst x), put2 (snd x)]"

definition get_pair :: "'a reader \<Rightarrow> 'b reader \<Rightarrow> ('a \<times> 'b) reader" where
  "get_pair get1 get2 = then_get get1 (\<lambda>x. then_get get2 (\<lambda>y. got (x, y)))"

text \<open>
  \<open>std::map<string, string>\<close>: its entries in the order of iteration. Its size is cast to 32
  bits without a check. The reader builds a map and compares its size with the number of
  entries read, so repeated keys are refused; it yields the entries as they were read,
  which is the order of the map when they come from one.
\<close>

definition put_map :: "(string \<times> string) list \<Rightarrow> writer" where
  "put_map kvs = puts (put_word (of_nat (length kvs) :: 32 word) # map (put_pair put_string put_string) kvs)"

definition get_map :: "(string \<times> string) list reader" where
  "get_map = then_get (get_word :: 32 word reader)
     (\<lambda>n. then_get (get_times (unat n) (get_pair get_string get_string)) (\<lambda>kvs b.
        if card (fst ` set kvs) \<noteq> unat n then Inl SilKitError else Inr (kvs, b)))"

text \<open>\<open>Uuid\<close> and \<open>EndpointAddress\<close>: two 64 bit words.\<close>

definition put_word_pair :: "64 word \<times> 64 word \<Rightarrow> writer" where
  "put_word_pair = put_pair put_word put_word"

definition get_word_pair :: "(64 word \<times> 64 word) reader" where
  "get_word_pair = get_pair get_word get_word"

text \<open>
  \<open>system_clock::time_point\<close> in nanoseconds: it travels in microseconds, and C++ truncates
  the quotient towards zero.
\<close>

definition put_time :: "int \<Rightarrow> writer" where
  "put_time t = put_word (word_of_int (t sdiv 1000) :: 64 word)"

definition get_time :: "int reader" where
  "get_time = then_get (get_word :: 64 word reader) (\<lambda>us. got (sint us * 1000))"

section \<open>Writing appends, reading advances\<close>

text \<open>
  A buffer between two operators: the write position is at the end of the storage, and the
  read position divides the storage into what has been read and what is left.
\<close>

definition at :: "protocol_version \<Rightarrow> byte list \<Rightarrow> byte list \<Rightarrow> message_buffer" where
  "at v pre post = \<lparr>protocolVersion = v, storage = pre @ post, wPos = length (pre @ post), rPos = length pre\<rparr>"

named_theorems wire \<open>the writers append an encoding, and the readers take it off again\<close>

lemma at_simps [simp]:
  "protocolVersion (at v pre post) = v" "storage (at v pre post) = pre @ post"
  "SetProtocolVersion v' (at v pre post) = at v' pre post" "ReadPos (at v pre post) = length pre"
  "PeekData (at v pre post) = pre @ post"
  "RemainingBytesLeft (at v pre post) = length post"
  "rPos (at v pre post) = length pre"
  by (simp_all add: at_def RemainingBytesLeft_def SetProtocolVersion_def ReadPos_def PeekData_def)

lemma empty_buffer_at: "empty_buffer = at CurrentProtocolVersion [] []"
  by (simp add: empty_buffer_def at_def)

lemma buffer_of_at: "buffer_of bytes = at CurrentProtocolVersion [] bytes"
  by (simp add: buffer_of_def at_def)

lemma put_scalar_at [wire]: "put_scalar bytes (at v pre post) = Inr (at v pre (post @ bytes))"
  by (auto simp: put_scalar_def at_def resize_def overwrite_def Let_def)

lemma put_raw_at [wire]: "put_raw bytes (at v pre post) = Inr (at v pre (post @ bytes))"
  by (auto simp: put_raw_def at_def resize_def overwrite_def Let_def)

lemma get_raw_at: "n = length bytes \<Longrightarrow> get_raw n (at v pre (bytes @ rest)) = Inr (bytes, at v (pre @ bytes) rest)"
  by (simp add: get_raw_def at_def)

lemma get_raw_short: "length post < n \<Longrightarrow> get_raw n (at v pre post) = Inl EndOfBuffer"
  by (simp add: get_raw_def at_def)

lemma puts_Cons [wire]: "w b = Inr b' \<Longrightarrow> puts (w # ws) b = puts ws b'"
  by simp

lemma then_get_at [wire]: "r b = Inr (x, b') \<Longrightarrow> then_get r k b = k x b'"
  by (simp add: then_get_def)

lemma then_get_fails: "r b = Inl e \<Longrightarrow> then_get r k b = Inl e"
  by (simp add: then_get_def)

lemma got_at [wire]: "got x b = Inr (x, b)"
  by (simp add: got_def)

definition reads_back :: "('a \<Rightarrow> writer) \<Rightarrow> 'a reader \<Rightarrow> 'a \<Rightarrow> bool" where
  "reads_back put get x =
     (case put x empty_buffer of Inl _ \<Rightarrow> False
      | Inr b \<Rightarrow> (case get b of Inl _ \<Rightarrow> False | Inr (y, rest) \<Rightarrow> y = x \<and> RemainingBytesLeft rest = 0))"

section \<open>The contract of a pair of operators\<close>

text \<open>
  What the operators promise together, on the bytes that really travel: what is written is
  read back and nothing remains, and if the bytes are cut off anywhere, the reader notices.
\<close>

definition refuses_cut :: "('a \<Rightarrow> writer) \<Rightarrow> 'a reader \<Rightarrow> 'a \<Rightarrow> bool" where
  "refuses_cut put get x =
     (case put x empty_buffer of Inl _ \<Rightarrow> False
      | Inr b \<Rightarrow> list_all (\<lambda>n. get (buffer_of (take n (storage b))) = Inl EndOfBuffer)
                   [0..<length (storage b)])"

definition survives :: "('a \<Rightarrow> writer) \<Rightarrow> 'a reader \<Rightarrow> 'a \<Rightarrow> bool" where
  "survives put get x \<longleftrightarrow> reads_back put get x \<and> refuses_cut put get x"

text \<open>
  What a sender with an older version of a message leaves out at its end is filled with
  defaults: the message without its last \<open>n\<close> bytes is read as \<open>y\<close>.
\<close>

definition reads_without :: "nat \<Rightarrow> ('a \<Rightarrow> writer) \<Rightarrow> 'a reader \<Rightarrow> 'a \<Rightarrow> 'a \<Rightarrow> bool" where
  "reads_without n put get x y =
     (case put x empty_buffer of Inl _ \<Rightarrow> False
      | Inr b \<Rightarrow>
          (case get (buffer_of (take (length (storage b) - n) (storage b))) of Inl _ \<Rightarrow> False
           | Inr (z, rest) \<Rightarrow> z = y \<and> RemainingBytesLeft rest = 0))"

text \<open>
  A reader takes the encoding of a value off, whatever follows it, and refuses an encoding
  that has been cut off.
\<close>

definition reads :: "'a reader \<Rightarrow> 'a \<Rightarrow> byte list \<Rightarrow> bool" where
  "reads r x e \<longleftrightarrow>
     (\<forall>v pre rest. r (at v pre (e @ rest)) = Inr (x, at v (pre @ e) rest)) \<and>
     (\<forall>v pre bs c cs. e = bs @ c # cs \<longrightarrow> r (at v pre bs) = Inl EndOfBuffer)"

lemma reads_got: "x = y \<Longrightarrow> reads (got x) y []"
  by (simp add: reads_def got_def)

lemma reads_at: "reads r x e \<Longrightarrow> r (at v pre (e @ rest)) = Inr (x, at v (pre @ e) rest)"
  by (cases v) (simp add: reads_def)

lemma reads_cut: "reads r x (bs @ c # cs) \<Longrightarrow> r (at v pre bs) = Inl EndOfBuffer"
  by (cases v) (auto simp: reads_def)

lemma reads_then:
  assumes "reads r x e1" "reads (k x) y e2"
  shows "reads (then_get r k) y (e1 @ e2)"
proof -
  have "then_get r k (at v pre bs) = Inl EndOfBuffer" if cut: "e1 @ e2 = bs @ c # cs" for v pre bs c cs
  proof -
    from cut consider (first) c' cs' where "e1 = bs @ c' # cs'" | (second) us where "bs = e1 @ us" "e2 = us @ c # cs"
      by (auto simp: append_eq_append_conv2 append_eq_Cons_conv)
    then show ?thesis
    proof cases
      case first
      then show ?thesis using reads_cut [of r x bs] assms(1) by (simp add: then_get_def)
    next
      case second
      then show ?thesis
        using reads_at [OF assms(1), of v pre us] reads_cut [of "k x" y us] assms(2) by (simp add: then_get_def)
    qed
  qed
  moreover have "then_get r k (at v pre ((e1 @ e2) @ rest)) = Inr (y, at v (pre @ e1 @ e2) rest)" for v pre rest
    using reads_at [OF assms(1), of v pre "e2 @ rest"] reads_at [OF assms(2), of v "pre @ e1" rest]
    by (simp add: then_get_def)
  ultimately show ?thesis unfolding reads_def by blast
qed

lemma reads_last: "reads r x e \<Longrightarrow> reads (k x) y [] \<Longrightarrow> reads (then_get r k) y e"
  using reads_then [of r x e k y "[]"] by simp

lemma reads_raw: "reads (get_raw (length bytes)) bytes bytes"
  by (auto simp: reads_def get_raw_at get_raw_short)

text \<open>
  The contract: a value is written as its encoding at the end of the buffer, and read back
  from its encoding whatever follows; \<open>ok\<close> says which values can be written. A strict codec
  also notices when bytes are missing; its encodings are not empty, which the size check of
  the vector reader relies on.
\<close>

locale codec =
  fixes put :: "'a \<Rightarrow> writer" and get :: "'a reader" and enc :: "'a \<Rightarrow> byte list" and ok :: "'a \<Rightarrow> bool"
  assumes put_at: "ok x \<Longrightarrow> put x (at v pre post) = Inr (at v pre (post @ enc x))"
    and get_at: "ok x \<Longrightarrow> get (at v pre (enc x @ rest)) = Inr (x, at v (pre @ enc x) rest)"
begin

lemma round_trip:
  assumes "ok x"
  shows "reads_back put get x"
  using put_at [OF assms, of CurrentProtocolVersion "[]" "[]"]
    get_at [OF assms, of CurrentProtocolVersion "[]" "[]"]
  by (simp add: reads_back_def empty_buffer_at)

lemma prefix_free:
  assumes "ok x" "ok y" "enc x @ xs = enc y @ ys"
  shows "x = y \<and> xs = ys"
proof -
  have "get (at (0, 0) [] (enc x @ xs)) = get (at (0, 0) [] (enc y @ ys))" using assms(3) by simp
  then have xy: "x = y" using get_at [OF assms(1)] get_at [OF assms(2)] by simp
  then show ?thesis using assms(3) by simp
qed

end

locale strict_codec = codec +
  assumes nonempty: "ok x \<Longrightarrow> enc x \<noteq> []"
    and truncated: "ok x \<Longrightarrow> enc x = bs @ c # cs \<Longrightarrow> get (at v pre bs) = Inl EndOfBuffer"
begin

lemma get_reads: "ok x \<Longrightarrow> reads get x (enc x)"
  using get_at truncated by (auto simp: reads_def)

lemma sound:
  assumes "ok x"
  shows "survives put get x"
proof -
  have b: "put x empty_buffer = Inr (at CurrentProtocolVersion [] (enc x))"
    using put_at [OF assms, of CurrentProtocolVersion "[]" "[]"] by (simp add: empty_buffer_at)
  have "get (buffer_of (take n (enc x))) = Inl EndOfBuffer" if "n < length (enc x)" for n
    using truncated [OF assms id_take_nth_drop [OF that]] by (simp add: buffer_of_at)
  then show ?thesis using round_trip [OF assms] b by (simp add: survives_def refuses_cut_def list_all_iff)
qed

end

lemma strict_codecI:
  assumes "\<And>x v pre post. ok x \<Longrightarrow> put x (at v pre post) = Inr (at v pre (post @ enc x))"
    and "\<And>x. ok x \<Longrightarrow> reads get x (enc x)" "\<And>x. ok x \<Longrightarrow> enc x \<noteq> []"
  shows "strict_codec put get enc ok"
  using assms by unfold_locales (auto simp: reads_def)

named_theorems wire_reads \<open>the readers, each with the encoding that it takes off\<close>

lemmas [wire_reads] = reads_then reads_last reads_got

definition enc_word :: "'a::len word \<Rightarrow> byte list" where
  "enc_word w = le_bytes (LENGTH('a) div 8) (unat w)"

lemma reads_word [wire_reads]:
  fixes w :: "'a::len word"
  assumes "8 dvd LENGTH('a)"
  shows "reads get_word w (enc_word w)"
proof -
  obtain k where k: "LENGTH('a) = 8 * k" using assms by (rule dvdE)
  have "(256 :: nat) ^ k = 2 ^ (8 * k)" by (simp add: power_mult)
  then have "(256 :: nat) ^ (LENGTH('a) div 8) = 2 ^ LENGTH('a)" using k by simp
  then have "unat w < 256 ^ (LENGTH('a) div 8)" by (metis unsigned_less)
  then have "le_nat (enc_word w) = unat w" by (simp add: enc_word_def le_nat_le_bytes_id)
  then show ?thesis
    unfolding get_word_def using reads_raw [of "enc_word w"]
    by (intro reads_last [where x = "enc_word w"] reads_got) (simp_all add: enc_word_def)
qed

lemmas word_get_at = reads_at [OF reads_word]

lemma put_word_at [wire]: "put_word w (at v pre post) = Inr (at v pre (post @ enc_word w))"
  by (simp add: put_word_def put_scalar_at enc_word_def)

lemma length_enc_word [simp]: "length (enc_word (w :: 'a::len word)) = LENGTH('a) div 8"
  by (simp add: enc_word_def)

lemma enc_word_nonempty [simp]: "8 \<le> LENGTH('a) \<Longrightarrow> enc_word (w :: 'a::len word) \<noteq> []"
  by (simp add: enc_word_def flip: length_greater_0_conv)

definition enc_bool :: "bool \<Rightarrow> byte list" where
  "enc_bool x = [if x then 1 else 0]"

lemma put_bool_at [wire]: "put_bool x (at v pre post) = Inr (at v pre (post @ enc_bool x))"
  by (simp add: put_bool_def put_scalar_at enc_bool_def)

lemma reads_bool [wire_reads]: "reads get_bool x (enc_bool x)"
proof -
  have "reads (get_raw 1) (enc_bool x) (enc_bool x)" using reads_raw [of "enc_bool x"] by (simp add: enc_bool_def)
  then show ?thesis unfolding get_bool_def by (rule reads_last) (simp add: reads_got enc_bool_def)
qed

definition enc_blob :: "byte list \<Rightarrow> byte list" where
  "enc_blob bytes = enc_word (of_nat (length bytes) :: 32 word) @ bytes"

lemma size_word: "n \<le> max_size \<Longrightarrow> unat (of_nat n :: 32 word) = n"
  by (simp add: max_size_def unat_of_nat)

lemma enc_blob_nonempty [simp]: "enc_blob bytes \<noteq> []"
  by (simp add: enc_blob_def)

interpretation blob: strict_codec put_blob get_blob enc_blob "\<lambda>bytes. length bytes \<le> max_size"
proof (rule strict_codecI)
  show "reads get_blob bytes (enc_blob bytes)" if "length bytes \<le> max_size" for bytes
    unfolding get_blob_def enc_blob_def
    by (rule reads_then [OF reads_word]) (simp_all add: size_word [OF that] reads_raw)
qed (simp_all add: put_blob_def put_word_at put_raw_at enc_blob_def)

lemma byte_char_char_byte [simp]: "byte_char (char_byte c) = c"
proof -
  have "(of_char c :: nat) < 256" by (rule nat_of_char_less_256)
  then show ?thesis by (simp add: byte_char_def char_byte_def unat_of_nat)
qed

definition enc_string :: "string \<Rightarrow> byte list" where
  "enc_string str = enc_blob (map char_byte str)"

lemma enc_string_nonempty [simp]: "enc_string str \<noteq> []"
  by (simp add: enc_string_def)

definition ok_string :: "string \<Rightarrow> bool" where
  "ok_string str \<longleftrightarrow> length str \<le> max_size"

interpretation str: strict_codec put_string get_string enc_string ok_string
proof (rule strict_codecI)
  show "reads get_string s (enc_string s)" if "ok_string s" for s
    unfolding get_string_def enc_string_def using that
    by (intro reads_last [OF blob.get_reads]) (simp_all add: reads_got ok_string_def comp_def)
qed (simp_all add: put_string_def enc_string_def blob.put_at ok_string_def)

interpretation array4: strict_codec put_array "get_array 4" "\<lambda>bytes. bytes" "\<lambda>bytes. length bytes = 4"
proof (rule strict_codecI)
  show "reads (get_array 4) bytes bytes" if "length bytes = 4" for bytes
    using reads_raw [of bytes] that by (simp add: get_array_def)
qed (auto simp: put_array_def put_raw_at)

interpretation array8: strict_codec put_array "get_array 8" "\<lambda>bytes. bytes" "\<lambda>bytes. length bytes = 8"
proof (rule strict_codecI)
  show "reads (get_array 8) bytes bytes" if "length bytes = 8" for bytes
    using reads_raw [of bytes] that by (simp add: get_array_def)
qed (auto simp: put_array_def put_raw_at)

lemmas [wire] = blob.put_at str.put_at array4.put_at array8.put_at
lemmas [wire_reads] = blob.get_reads str.get_reads array4.get_reads array8.get_reads

section \<open>Containers of values that have a codec\<close>

definition enc_vector :: "('a \<Rightarrow> byte list) \<Rightarrow> 'a list \<Rightarrow> byte list" where
  "enc_vector enc xs = enc_word (of_nat (length xs) :: 32 word) @ concat (map enc xs)"

lemma enc_vector_nonempty [simp]: "enc_vector enc xs \<noteq> []"
  by (simp add: enc_vector_def)

definition ok_vector :: "('a \<Rightarrow> bool) \<Rightarrow> 'a list \<Rightarrow> bool" where
  "ok_vector ok xs \<longleftrightarrow> length xs \<le> max_size \<and> (\<forall>x\<in>set xs. ok x)"

context codec begin

lemma puts_each:
  "\<forall>x\<in>set xs. ok x \<Longrightarrow> puts (map put xs) (at v pre post) = Inr (at v pre (post @ concat (map enc xs)))"
  by (induction xs arbitrary: post) (simp_all add: put_at)

end

context strict_codec begin

lemma reads_each: "\<forall>x\<in>set xs. ok x \<Longrightarrow> reads (get_times (length xs) get) xs (concat (map enc xs))"
proof (induction xs)
  case (Cons x xs)
  then have "reads get x (enc x)" "reads (get_times (length xs) get) xs (concat (map enc xs))"
    by (simp_all add: get_reads)
  then show ?case by (simp, intro reads_then reads_last reads_got) auto
qed (simp add: reads_got)

lemma length_each: "\<forall>x\<in>set xs. ok x \<Longrightarrow> length xs \<le> length (concat (map enc xs))"
proof (induction xs)
  case (Cons x xs)
  then have "1 \<le> length (enc x)" using nonempty [of x] by (cases "enc x") auto
  then show ?case using Cons by simp
qed simp

lemma reads_counted:
  assumes "\<forall>x\<in>set xs. ok x"
  shows "reads (\<lambda>b. if rPos b + length xs > length (storage b) then Inl EndOfBuffer
      else get_times (length xs) get b) xs (concat (map enc xs))"
  using reads_each [OF assms] length_each [OF assms] by (auto simp: reads_def)

lemma vector: "strict_codec (put_vector put) (get_vector get) (enc_vector enc) (ok_vector ok)"
proof (rule strict_codecI)
  fix xs :: "'a list" and v pre post
  assume "ok_vector ok xs"
  then have xs: "length xs \<le> max_size" "\<forall>x\<in>set xs. ok x" by (auto simp: ok_vector_def)
  show "put_vector put xs (at v pre post) = Inr (at v pre (post @ enc_vector enc xs))"
    using xs by (simp add: put_vector_def put_word_at puts_each enc_vector_def)
  show "reads (get_vector get) xs (enc_vector enc xs)"
    unfolding get_vector_def enc_vector_def
    using reads_counted [OF xs(2)]
    by (intro reads_then [where x = "of_nat (length xs)"] reads_word) (simp_all add: size_word [OF xs(1)] cong: if_cong)
qed simp

end

interpretation strs: strict_codec "put_vector put_string" "get_vector get_string" "enc_vector enc_string"
    "ok_vector ok_string"
  by (rule str.vector)

definition enc_pair :: "('a \<Rightarrow> byte list) \<Rightarrow> ('b \<Rightarrow> byte list) \<Rightarrow> 'a \<times> 'b \<Rightarrow> byte list" where
  "enc_pair enc1 enc2 x = enc1 (fst x) @ enc2 (snd x)"

definition ok_pair :: "('a \<Rightarrow> bool) \<Rightarrow> ('b \<Rightarrow> bool) \<Rightarrow> 'a \<times> 'b \<Rightarrow> bool" where
  "ok_pair ok1 ok2 x \<longleftrightarrow> ok1 (fst x) \<and> ok2 (snd x)"

locale codec_pair = left: strict_codec put1 get1 enc1 ok1 + right: strict_codec put2 get2 enc2 ok2
  for put1 get1 enc1 ok1 put2 get2 enc2 ok2
begin

lemma reads_pair: "ok_pair ok1 ok2 x \<Longrightarrow> reads (get_pair get1 get2) x (enc_pair enc1 enc2 x)"
  unfolding get_pair_def enc_pair_def ok_pair_def
  by (rule reads_then [where x = "fst x"], simp add: left.get_reads,
      rule reads_last [where x = "snd x"]) (simp_all add: right.get_reads reads_got)

lemma put_pair_at:
  "ok_pair ok1 ok2 x \<Longrightarrow> put_pair put1 put2 x (at v pre post) = Inr (at v pre (post @ enc_pair enc1 enc2 x))"
  by (simp add: put_pair_def enc_pair_def ok_pair_def left.put_at right.put_at)

end

sublocale codec_pair \<subseteq> strict_codec "put_pair put1 put2" "get_pair get1 get2" "enc_pair enc1 enc2" "ok_pair ok1 ok2"
  by (rule strict_codecI) (simp_all add: put_pair_at reads_pair, simp add: enc_pair_def ok_pair_def left.nonempty)

interpretation str_pair: codec_pair put_string get_string enc_string ok_string
    put_string get_string enc_string ok_string
  by unfold_locales

interpretation str_pairs: strict_codec "put_vector (put_pair put_string put_string)"
    "get_vector (get_pair get_string get_string)" "enc_vector (enc_pair enc_string enc_string)"
    "ok_vector (ok_pair ok_string ok_string)"
  by (rule str_pair.vector)

definition enc_word_pair :: "64 word \<times> 64 word \<Rightarrow> byte list" where
  "enc_word_pair x = enc_word (fst x) @ enc_word (snd x)"

lemma put_word_pair_at [wire]: "put_word_pair x (at v pre post) = Inr (at v pre (post @ enc_word_pair x))"
  by (simp add: put_word_pair_def put_pair_def enc_word_pair_def wire)

lemma reads_word_pair [wire_reads]: "reads get_word_pair x (enc_word_pair x)"
  unfolding get_word_pair_def get_pair_def enc_word_pair_def
  by (rule wire_reads | simp)+

definition enc_map :: "(string \<times> string) list \<Rightarrow> byte list" where
  "enc_map = enc_vector (enc_pair enc_string enc_string)"

definition ok_map :: "(string \<times> string) list \<Rightarrow> bool" where
  "ok_map kvs \<longleftrightarrow> ok_vector (ok_pair ok_string ok_string) kvs \<and> distinct (map fst kvs)"

interpretation str_map: strict_codec put_map get_map enc_map ok_map
proof (rule strict_codecI)
  fix kvs v pre post
  assume "ok_map kvs"
  then have kvs: "length kvs \<le> max_size" "distinct (map fst kvs)" "\<forall>x\<in>set kvs. ok_pair ok_string ok_string x"
    by (auto simp: ok_map_def ok_vector_def)
  show "put_map kvs (at v pre post) = Inr (at v pre (post @ enc_map kvs))"
    using kvs by (simp add: put_map_def put_word_at str_pair.puts_each enc_map_def enc_vector_def)
  have "card (fst ` set kvs) = length kvs"
    using kvs(2) by (metis distinct_card length_map list.set_map)
  then have "reads (\<lambda>b. if card (fst ` set kvs) \<noteq> length kvs then Inl SilKitError else Inr (kvs, b)) kvs []"
    by (simp add: reads_def)
  then have "reads (then_get (get_times (length kvs) (get_pair get_string get_string)) (\<lambda>kvs' b.
      if card (fst ` set kvs') \<noteq> length kvs then Inl SilKitError else Inr (kvs', b))) kvs
      (concat (map (enc_pair enc_string enc_string) kvs))"
    by (rule reads_last [OF str_pair.reads_each [OF kvs(3)]])
  then show "reads get_map kvs (enc_map kvs)"
    unfolding get_map_def enc_map_def enc_vector_def
    by (intro reads_then [OF reads_word]) (simp_all add: size_word [OF kvs(1)])
qed (simp add: enc_map_def)

lemmas [wire] = strs.put_at str_pairs.put_at str_map.put_at
lemmas [wire_reads] = strs.get_reads str_pairs.get_reads str_map.get_reads

definition enc_time :: "int \<Rightarrow> byte list" where
  "enc_time t = enc_word (word_of_int (t sdiv 1000) :: 64 word)"

definition ok_time :: "int \<Rightarrow> bool" where
  "ok_time t \<longleftrightarrow> 1000 dvd t \<and> - (2 ^ 63) \<le> t \<and> t < 2 ^ 63"

lemma enc_time_nonempty [simp]: "enc_time t \<noteq> []"
  by (simp add: enc_time_def)

lemma put_time_at [wire]: "put_time t (at v pre post) = Inr (at v pre (post @ enc_time t))"
  by (simp add: put_time_def enc_time_def put_word_at)

lemma reads_time [wire_reads]:
  assumes "ok_time t"
  shows "reads get_time t (enc_time t)"
proof -
  obtain u where u: "t = 1000 * u" "- (2 ^ 63) \<le> 1000 * u" "1000 * u < 2 ^ 63"
    using assms by (auto simp: ok_time_def dvd_def)
  have "(1000 * u) sdiv 1000 = u" by (simp add: signed_divide_int_def sgn_mult abs_mult mult_sgn_abs)
  moreover have "sint (word_of_int u :: 64 word) = u"
    using u(2,3) by (simp add: signed_of_int signed_take_bit_int_eq_self)
  ultimately show ?thesis
    unfolding get_time_def enc_time_def u(1)
    by (intro reads_last [where x = "word_of_int u"] reads_got) (simp_all add: reads_word)
qed

end
