(* ===== verification/VAsioSerdes.thy ===== *)
theory VAsioSerdes
  imports MessageBuffer
begin

text \<open>
  The messages with which participants and the registry get to know each other
  (\<open>core/vasio/VAsioDatatypes.hpp\<close>, \<open>VAsioSerdes.cpp\<close>), and the same messages in the format
  of protocol version 3.0 (\<open>VAsioSerdes_Protocol30.cpp\<close>), which the operators fall back to
  when the buffer has that version. A field that the code leaves out keeps the default of
  its struct.
\<close>

section \<open>Protocol versions\<close>

record registry_msg_header =
  rh_preamble :: "32 word"
  rh_versionHigh :: "16 word"
  rh_versionLow :: "16 word"

definition put_RegistryMsgHeader :: "registry_msg_header \<Rightarrow> writer" where
  "put_RegistryMsgHeader msg =
     puts [put_word (rh_preamble msg), put_word (rh_versionHigh msg),
           put_word (rh_versionLow msg)]"

definition get_RegistryMsgHeader :: "registry_msg_header reader" where
  "get_RegistryMsgHeader =
     then_get get_word (\<lambda>preamble. then_get get_word (\<lambda>versionHigh.
     then_get get_word (\<lambda>versionLow.
     got \<lparr>rh_preamble = preamble, rh_versionHigh = versionHigh, rh_versionLow = versionLow\<rparr>)))"

definition enc_RegistryMsgHeader :: "registry_msg_header \<Rightarrow> byte list" where
  "enc_RegistryMsgHeader msg =
     enc_word (rh_preamble msg) @ enc_word (rh_versionHigh msg) @
     enc_word (rh_versionLow msg)"

interpretation RegistryMsgHeader: strict_codec put_RegistryMsgHeader get_RegistryMsgHeader
    enc_RegistryMsgHeader "\<lambda>_. True"
proof (rule strict_codecI)
  show "reads get_RegistryMsgHeader msg (enc_RegistryMsgHeader msg)" for msg
    by (cases msg; simp add: get_RegistryMsgHeader_def enc_RegistryMsgHeader_def; (rule wire_reads | simp)+)
qed (simp_all add: put_RegistryMsgHeader_def enc_RegistryMsgHeader_def wire)

lemmas [wire] = RegistryMsgHeader.put_at
lemmas [wire_reads] = RegistryMsgHeader.get_reads

definition registry_preamble :: "32 word" where
  "registry_preamble = 0x2d424956"

definition version_less :: "protocol_version \<Rightarrow> protocol_version \<Rightarrow> bool" where
  "version_less lhs rhs \<longleftrightarrow> fst lhs < fst rhs \<or> (fst lhs = fst rhs \<and> snd lhs < snd rhs)"

definition ExtractProtocolVersion :: "registry_msg_header \<Rightarrow> protocol_version" where
  "ExtractProtocolVersion header = (unat (rh_versionHigh header), unat (rh_versionLow header))"

definition MakeRegistryMsgHeader :: "protocol_version \<Rightarrow> registry_msg_header" where
  "MakeRegistryMsgHeader version =
     \<lparr>rh_preamble = registry_preamble, rh_versionHigh = of_nat (fst version), rh_versionLow = of_nat (snd version)\<rparr>"

text \<open>\<open>RegistryMsgHeader{}\<close>\<close>

definition default_header :: registry_msg_header where
  "default_header = MakeRegistryMsgHeader CurrentProtocolVersion"

definition ProtocolVersionSupported :: "registry_msg_header \<Rightarrow> bool" where
  "ProtocolVersionSupported header =
     (let version = ExtractProtocolVersion header
      in if version = (3, 0) then True else if version = (3, 1) then True else False)"

definition MapVersionToRelease :: "registry_msg_header \<Rightarrow> string" where
  "MapVersionToRelease header =
     (let version = ExtractProtocolVersion header
      in if fst version = 1 then ''< v2.0.0''
         else if version = (2, 0) then ''v2.0.0 - v3.4.0''
         else if version = (2, 1) then ''v3.4.1 - v3.99.21''
         else if version = (3, 0) then ''v3.99.22''
         else if version = (3, 1) then ''v3.99.23 - current''
         else ''Unknown version range'')"

section \<open>Messages with one format\<close>

record vasio_peer_info =
  pi_participantName :: "string"
  pi_participantId :: "64 word"
  pi_acceptorUris :: "string list"
  pi_capabilities :: "string"

definition put_VAsioPeerInfo :: "vasio_peer_info \<Rightarrow> writer" where
  "put_VAsioPeerInfo msg =
     puts [put_string (pi_participantName msg), put_word (pi_participantId msg),
           put_vector put_string (pi_acceptorUris msg), put_string (pi_capabilities msg)]"

definition get_VAsioPeerInfo :: "vasio_peer_info reader" where
  "get_VAsioPeerInfo =
     then_get get_string (\<lambda>participantName.
     then_get get_word (\<lambda>participantId.
     then_get (get_vector get_string) (\<lambda>acceptorUris.
     then_get get_string (\<lambda>capabilities.
     got \<lparr>pi_participantName = participantName, pi_participantId = participantId,
        pi_acceptorUris = acceptorUris, pi_capabilities = capabilities\<rparr>))))"

definition enc_VAsioPeerInfo :: "vasio_peer_info \<Rightarrow> byte list" where
  "enc_VAsioPeerInfo msg =
     enc_string (pi_participantName msg) @ enc_word (pi_participantId msg) @
     enc_vector enc_string (pi_acceptorUris msg) @ enc_string (pi_capabilities msg)"

definition ok_VAsioPeerInfo :: "vasio_peer_info \<Rightarrow> bool" where
  "ok_VAsioPeerInfo msg \<longleftrightarrow>
     ok_string (pi_participantName msg) \<and>
     ok_vector ok_string (pi_acceptorUris msg) \<and> ok_string (pi_capabilities msg)"

interpretation VAsioPeerInfo: strict_codec put_VAsioPeerInfo get_VAsioPeerInfo
    enc_VAsioPeerInfo ok_VAsioPeerInfo
proof (rule strict_codecI)
  show "ok_VAsioPeerInfo msg \<Longrightarrow> reads get_VAsioPeerInfo msg (enc_VAsioPeerInfo msg)" for msg
    by (cases msg; simp add: get_VAsioPeerInfo_def enc_VAsioPeerInfo_def ok_VAsioPeerInfo_def; (rule wire_reads | simp)+)
qed (simp_all add: put_VAsioPeerInfo_def enc_VAsioPeerInfo_def ok_VAsioPeerInfo_def wire)

lemmas [wire] = VAsioPeerInfo.put_at
lemmas [wire_reads] = VAsioPeerInfo.get_reads

interpretation VAsioPeerInfos: strict_codec "put_vector put_VAsioPeerInfo" "get_vector get_VAsioPeerInfo"
    "enc_vector enc_VAsioPeerInfo" "ok_vector ok_VAsioPeerInfo"
  by (rule VAsioPeerInfo.vector)

lemmas [wire] = VAsioPeerInfos.put_at
lemmas [wire_reads] = VAsioPeerInfos.get_reads

record vasio_msg_subscriber =
  ms_receiverIdx :: "64 word"
  ms_networkName :: "string"
  ms_msgTypeName :: "string"
  ms_version :: "32 word"

definition put_VAsioMsgSubscriber :: "vasio_msg_subscriber \<Rightarrow> writer" where
  "put_VAsioMsgSubscriber msg =
     puts [put_word (ms_receiverIdx msg), put_string (ms_networkName msg),
           put_string (ms_msgTypeName msg), put_word (ms_version msg)]"

definition get_VAsioMsgSubscriber :: "vasio_msg_subscriber reader" where
  "get_VAsioMsgSubscriber =
     then_get get_word (\<lambda>receiverIdx. then_get get_string (\<lambda>networkName.
     then_get get_string (\<lambda>msgTypeName. then_get get_word (\<lambda>version.
     got \<lparr>ms_receiverIdx = receiverIdx, ms_networkName = networkName,
        ms_msgTypeName = msgTypeName, ms_version = version\<rparr>))))"

definition enc_VAsioMsgSubscriber :: "vasio_msg_subscriber \<Rightarrow> byte list" where
  "enc_VAsioMsgSubscriber msg =
     enc_word (ms_receiverIdx msg) @ enc_string (ms_networkName msg) @
     enc_string (ms_msgTypeName msg) @ enc_word (ms_version msg)"

definition ok_VAsioMsgSubscriber :: "vasio_msg_subscriber \<Rightarrow> bool" where
  "ok_VAsioMsgSubscriber msg \<longleftrightarrow>
     ok_string (ms_networkName msg) \<and> ok_string (ms_msgTypeName msg)"

interpretation VAsioMsgSubscriber: strict_codec put_VAsioMsgSubscriber get_VAsioMsgSubscriber
    enc_VAsioMsgSubscriber ok_VAsioMsgSubscriber
proof (rule strict_codecI)
  show "ok_VAsioMsgSubscriber msg \<Longrightarrow> reads get_VAsioMsgSubscriber msg (enc_VAsioMsgSubscriber msg)" for msg
    by (cases msg; simp add: get_VAsioMsgSubscriber_def enc_VAsioMsgSubscriber_def ok_VAsioMsgSubscriber_def; (rule wire_reads | simp)+)
qed (simp_all add: put_VAsioMsgSubscriber_def enc_VAsioMsgSubscriber_def ok_VAsioMsgSubscriber_def wire)

lemmas [wire] = VAsioMsgSubscriber.put_at
lemmas [wire_reads] = VAsioMsgSubscriber.get_reads

interpretation VAsioMsgSubscribers: strict_codec "put_vector put_VAsioMsgSubscriber" "get_vector get_VAsioMsgSubscriber"
    "enc_vector enc_VAsioMsgSubscriber" "ok_vector ok_VAsioMsgSubscriber"
  by (rule VAsioMsgSubscriber.vector)

lemmas [wire] = VAsioMsgSubscribers.put_at
lemmas [wire_reads] = VAsioMsgSubscribers.get_reads

record subscription_acknowledge =
  sa_status :: "8 word"
  sa_subscriber :: "vasio_msg_subscriber"

definition put_SubscriptionAcknowledge :: "subscription_acknowledge \<Rightarrow> writer" where
  "put_SubscriptionAcknowledge msg =
     puts [put_word (sa_status msg), put_VAsioMsgSubscriber (sa_subscriber msg)]"

definition get_SubscriptionAcknowledge :: "subscription_acknowledge reader" where
  "get_SubscriptionAcknowledge =
     then_get get_word (\<lambda>status.
     then_get get_VAsioMsgSubscriber (\<lambda>subscriber.
     got \<lparr>sa_status = status, sa_subscriber = subscriber\<rparr>))"

definition enc_SubscriptionAcknowledge :: "subscription_acknowledge \<Rightarrow> byte list" where
  "enc_SubscriptionAcknowledge msg =
     enc_word (sa_status msg) @ enc_VAsioMsgSubscriber (sa_subscriber msg)"

definition ok_SubscriptionAcknowledge :: "subscription_acknowledge \<Rightarrow> bool" where
  "ok_SubscriptionAcknowledge msg \<longleftrightarrow>
     ok_VAsioMsgSubscriber (sa_subscriber msg)"

interpretation SubscriptionAcknowledge: strict_codec put_SubscriptionAcknowledge get_SubscriptionAcknowledge
    enc_SubscriptionAcknowledge ok_SubscriptionAcknowledge
proof (rule strict_codecI)
  show "ok_SubscriptionAcknowledge msg \<Longrightarrow> reads get_SubscriptionAcknowledge msg (enc_SubscriptionAcknowledge msg)" for msg
    by (cases msg; simp add: get_SubscriptionAcknowledge_def enc_SubscriptionAcknowledge_def ok_SubscriptionAcknowledge_def; (rule wire_reads | simp)+)
qed (simp_all add: put_SubscriptionAcknowledge_def enc_SubscriptionAcknowledge_def ok_SubscriptionAcknowledge_def wire)

lemmas [wire] = SubscriptionAcknowledge.put_at
lemmas [wire_reads] = SubscriptionAcknowledge.get_reads

record remote_participant_connect_request =
  rq_messageHeader :: "registry_msg_header"
  rq_requestOrigin :: "vasio_peer_info"
  rq_requestTarget :: "vasio_peer_info"
  rq_status :: "8 word"

definition put_RemoteParticipantConnectRequest :: "remote_participant_connect_request \<Rightarrow> writer" where
  "put_RemoteParticipantConnectRequest msg =
     puts [put_RegistryMsgHeader (rq_messageHeader msg),
           put_VAsioPeerInfo (rq_requestOrigin msg),
           put_VAsioPeerInfo (rq_requestTarget msg), put_word (rq_status msg)]"

definition get_RemoteParticipantConnectRequest :: "remote_participant_connect_request reader" where
  "get_RemoteParticipantConnectRequest =
     then_get get_RegistryMsgHeader (\<lambda>messageHeader.
     then_get get_VAsioPeerInfo (\<lambda>requestOrigin.
     then_get get_VAsioPeerInfo (\<lambda>requestTarget. then_get get_word (\<lambda>status.
     got \<lparr>rq_messageHeader = messageHeader, rq_requestOrigin = requestOrigin,
        rq_requestTarget = requestTarget, rq_status = status\<rparr>))))"

definition enc_RemoteParticipantConnectRequest :: "remote_participant_connect_request \<Rightarrow> byte list" where
  "enc_RemoteParticipantConnectRequest msg =
     enc_RegistryMsgHeader (rq_messageHeader msg) @
     enc_VAsioPeerInfo (rq_requestOrigin msg) @ enc_VAsioPeerInfo (rq_requestTarget msg) @
     enc_word (rq_status msg)"

definition ok_RemoteParticipantConnectRequest :: "remote_participant_connect_request \<Rightarrow> bool" where
  "ok_RemoteParticipantConnectRequest msg \<longleftrightarrow>
     ok_VAsioPeerInfo (rq_requestOrigin msg) \<and> ok_VAsioPeerInfo (rq_requestTarget msg)"

interpretation RemoteParticipantConnectRequest: strict_codec put_RemoteParticipantConnectRequest get_RemoteParticipantConnectRequest
    enc_RemoteParticipantConnectRequest ok_RemoteParticipantConnectRequest
proof (rule strict_codecI)
  show "ok_RemoteParticipantConnectRequest msg \<Longrightarrow> reads get_RemoteParticipantConnectRequest msg (enc_RemoteParticipantConnectRequest msg)" for msg
    by (cases msg; simp add: get_RemoteParticipantConnectRequest_def enc_RemoteParticipantConnectRequest_def ok_RemoteParticipantConnectRequest_def; (rule wire_reads | simp)+)
qed (simp_all add: put_RemoteParticipantConnectRequest_def enc_RemoteParticipantConnectRequest_def ok_RemoteParticipantConnectRequest_def wire)

lemmas [wire] = RemoteParticipantConnectRequest.put_at
lemmas [wire_reads] = RemoteParticipantConnectRequest.get_reads

section \<open>The structs of protocol version 3.0\<close>

record registry_msg_header_30 =
  rho_preambel :: "byte list"
  rho_versionHigh :: "16 word"
  rho_versionLow :: "16 word"

definition put_RegistryMsgHeader_30 :: "registry_msg_header_30 \<Rightarrow> writer" where
  "put_RegistryMsgHeader_30 msg =
     puts [put_array (rho_preambel msg), put_word (rho_versionHigh msg),
           put_word (rho_versionLow msg)]"

definition get_RegistryMsgHeader_30 :: "registry_msg_header_30 reader" where
  "get_RegistryMsgHeader_30 =
     then_get (get_array 4) (\<lambda>preambel. then_get get_word (\<lambda>versionHigh.
     then_get get_word (\<lambda>versionLow.
     got \<lparr>rho_preambel = preambel, rho_versionHigh = versionHigh, rho_versionLow = versionLow\<rparr>)))"

definition enc_RegistryMsgHeader_30 :: "registry_msg_header_30 \<Rightarrow> byte list" where
  "enc_RegistryMsgHeader_30 msg =
     rho_preambel msg @ enc_word (rho_versionHigh msg) @ enc_word (rho_versionLow msg)"

definition ok_RegistryMsgHeader_30 :: "registry_msg_header_30 \<Rightarrow> bool" where
  "ok_RegistryMsgHeader_30 msg \<longleftrightarrow>
     length (rho_preambel msg) = 4"

interpretation RegistryMsgHeader_30: strict_codec put_RegistryMsgHeader_30 get_RegistryMsgHeader_30
    enc_RegistryMsgHeader_30 ok_RegistryMsgHeader_30
proof (rule strict_codecI)
  show "ok_RegistryMsgHeader_30 msg \<Longrightarrow> reads get_RegistryMsgHeader_30 msg (enc_RegistryMsgHeader_30 msg)" for msg
    by (cases msg; simp add: get_RegistryMsgHeader_30_def enc_RegistryMsgHeader_30_def ok_RegistryMsgHeader_30_def; (rule wire_reads | simp)+)
qed (simp_all add: put_RegistryMsgHeader_30_def enc_RegistryMsgHeader_30_def ok_RegistryMsgHeader_30_def wire)

lemmas [wire] = RegistryMsgHeader_30.put_at
lemmas [wire_reads] = RegistryMsgHeader_30.get_reads

record vasio_msg_subscriber_30 =
  mso_receiverIdx :: "64 word"
  mso_networkName :: "string"
  mso_msgTypeName :: "string"

definition put_VAsioMsgSubscriber_30 :: "vasio_msg_subscriber_30 \<Rightarrow> writer" where
  "put_VAsioMsgSubscriber_30 msg =
     puts [put_word (mso_receiverIdx msg), put_string (mso_networkName msg),
           put_string (mso_msgTypeName msg)]"

definition get_VAsioMsgSubscriber_30 :: "vasio_msg_subscriber_30 reader" where
  "get_VAsioMsgSubscriber_30 =
     then_get get_word (\<lambda>receiverIdx. then_get get_string (\<lambda>networkName.
     then_get get_string (\<lambda>msgTypeName.
     got \<lparr>mso_receiverIdx = receiverIdx, mso_networkName = networkName,
        mso_msgTypeName = msgTypeName\<rparr>)))"

definition enc_VAsioMsgSubscriber_30 :: "vasio_msg_subscriber_30 \<Rightarrow> byte list" where
  "enc_VAsioMsgSubscriber_30 msg =
     enc_word (mso_receiverIdx msg) @ enc_string (mso_networkName msg) @
     enc_string (mso_msgTypeName msg)"

definition ok_VAsioMsgSubscriber_30 :: "vasio_msg_subscriber_30 \<Rightarrow> bool" where
  "ok_VAsioMsgSubscriber_30 msg \<longleftrightarrow>
     ok_string (mso_networkName msg) \<and> ok_string (mso_msgTypeName msg)"

interpretation VAsioMsgSubscriber_30: strict_codec put_VAsioMsgSubscriber_30 get_VAsioMsgSubscriber_30
    enc_VAsioMsgSubscriber_30 ok_VAsioMsgSubscriber_30
proof (rule strict_codecI)
  show "ok_VAsioMsgSubscriber_30 msg \<Longrightarrow> reads get_VAsioMsgSubscriber_30 msg (enc_VAsioMsgSubscriber_30 msg)" for msg
    by (cases msg; simp add: get_VAsioMsgSubscriber_30_def enc_VAsioMsgSubscriber_30_def ok_VAsioMsgSubscriber_30_def; (rule wire_reads | simp)+)
qed (simp_all add: put_VAsioMsgSubscriber_30_def enc_VAsioMsgSubscriber_30_def ok_VAsioMsgSubscriber_30_def wire)

lemmas [wire] = VAsioMsgSubscriber_30.put_at
lemmas [wire_reads] = VAsioMsgSubscriber_30.get_reads

interpretation VAsioMsgSubscriber_30s: strict_codec "put_vector put_VAsioMsgSubscriber_30" "get_vector get_VAsioMsgSubscriber_30"
    "enc_vector enc_VAsioMsgSubscriber_30" "ok_vector ok_VAsioMsgSubscriber_30"
  by (rule VAsioMsgSubscriber_30.vector)

lemmas [wire] = VAsioMsgSubscriber_30s.put_at
lemmas [wire_reads] = VAsioMsgSubscriber_30s.get_reads

record vasio_peer_info_30 =
  pio_participantName :: "string"
  pio_participantId :: "64 word"
  pio_acceptorHost :: "string"
  pio_acceptorPort :: "16 word"

definition put_VAsioPeerInfo_30 :: "vasio_peer_info_30 \<Rightarrow> writer" where
  "put_VAsioPeerInfo_30 msg =
     puts [put_string (pio_participantName msg), put_word (pio_participantId msg),
           put_string (pio_acceptorHost msg), put_word (pio_acceptorPort msg)]"

definition get_VAsioPeerInfo_30 :: "vasio_peer_info_30 reader" where
  "get_VAsioPeerInfo_30 =
     then_get get_string (\<lambda>participantName.
     then_get get_word (\<lambda>participantId. then_get get_string (\<lambda>acceptorHost.
     then_get get_word (\<lambda>acceptorPort.
     got \<lparr>pio_participantName = participantName, pio_participantId = participantId,
        pio_acceptorHost = acceptorHost, pio_acceptorPort = acceptorPort\<rparr>))))"

definition enc_VAsioPeerInfo_30 :: "vasio_peer_info_30 \<Rightarrow> byte list" where
  "enc_VAsioPeerInfo_30 msg =
     enc_string (pio_participantName msg) @ enc_word (pio_participantId msg) @
     enc_string (pio_acceptorHost msg) @ enc_word (pio_acceptorPort msg)"

definition ok_VAsioPeerInfo_30 :: "vasio_peer_info_30 \<Rightarrow> bool" where
  "ok_VAsioPeerInfo_30 msg \<longleftrightarrow>
     ok_string (pio_participantName msg) \<and> ok_string (pio_acceptorHost msg)"

interpretation VAsioPeerInfo_30: strict_codec put_VAsioPeerInfo_30 get_VAsioPeerInfo_30
    enc_VAsioPeerInfo_30 ok_VAsioPeerInfo_30
proof (rule strict_codecI)
  show "ok_VAsioPeerInfo_30 msg \<Longrightarrow> reads get_VAsioPeerInfo_30 msg (enc_VAsioPeerInfo_30 msg)" for msg
    by (cases msg; simp add: get_VAsioPeerInfo_30_def enc_VAsioPeerInfo_30_def ok_VAsioPeerInfo_30_def; (rule wire_reads | simp)+)
qed (simp_all add: put_VAsioPeerInfo_30_def enc_VAsioPeerInfo_30_def ok_VAsioPeerInfo_30_def wire)

lemmas [wire] = VAsioPeerInfo_30.put_at
lemmas [wire_reads] = VAsioPeerInfo_30.get_reads

interpretation VAsioPeerInfo_30s: strict_codec "put_vector put_VAsioPeerInfo_30" "get_vector get_VAsioPeerInfo_30"
    "enc_vector enc_VAsioPeerInfo_30" "ok_vector ok_VAsioPeerInfo_30"
  by (rule VAsioPeerInfo_30.vector)

lemmas [wire] = VAsioPeerInfo_30s.put_at
lemmas [wire_reads] = VAsioPeerInfo_30s.get_reads

record vasio_peer_uri_30 =
  puo_participantName :: "string"
  puo_participantId :: "64 word"
  puo_acceptorUris :: "string list"

definition put_VAsioPeerUri_30 :: "vasio_peer_uri_30 \<Rightarrow> writer" where
  "put_VAsioPeerUri_30 msg =
     puts [put_string (puo_participantName msg), put_word (puo_participantId msg),
           put_vector put_string (puo_acceptorUris msg)]"

definition get_VAsioPeerUri_30 :: "vasio_peer_uri_30 reader" where
  "get_VAsioPeerUri_30 =
     then_get get_string (\<lambda>participantName.
     then_get get_word (\<lambda>participantId.
     then_get (get_vector get_string) (\<lambda>acceptorUris.
     got \<lparr>puo_participantName = participantName, puo_participantId = participantId,
        puo_acceptorUris = acceptorUris\<rparr>)))"

definition enc_VAsioPeerUri_30 :: "vasio_peer_uri_30 \<Rightarrow> byte list" where
  "enc_VAsioPeerUri_30 msg =
     enc_string (puo_participantName msg) @ enc_word (puo_participantId msg) @
     enc_vector enc_string (puo_acceptorUris msg)"

definition ok_VAsioPeerUri_30 :: "vasio_peer_uri_30 \<Rightarrow> bool" where
  "ok_VAsioPeerUri_30 msg \<longleftrightarrow>
     ok_string (puo_participantName msg) \<and> ok_vector ok_string (puo_acceptorUris msg)"

interpretation VAsioPeerUri_30: strict_codec put_VAsioPeerUri_30 get_VAsioPeerUri_30
    enc_VAsioPeerUri_30 ok_VAsioPeerUri_30
proof (rule strict_codecI)
  show "ok_VAsioPeerUri_30 msg \<Longrightarrow> reads get_VAsioPeerUri_30 msg (enc_VAsioPeerUri_30 msg)" for msg
    by (cases msg; simp add: get_VAsioPeerUri_30_def enc_VAsioPeerUri_30_def ok_VAsioPeerUri_30_def; (rule wire_reads | simp)+)
qed (simp_all add: put_VAsioPeerUri_30_def enc_VAsioPeerUri_30_def ok_VAsioPeerUri_30_def wire)

lemmas [wire] = VAsioPeerUri_30.put_at
lemmas [wire_reads] = VAsioPeerUri_30.get_reads

interpretation VAsioPeerUri_30s: strict_codec "put_vector put_VAsioPeerUri_30" "get_vector get_VAsioPeerUri_30"
    "enc_vector enc_VAsioPeerUri_30" "ok_vector ok_VAsioPeerUri_30"
  by (rule VAsioPeerUri_30.vector)

lemmas [wire] = VAsioPeerUri_30s.put_at
lemmas [wire_reads] = VAsioPeerUri_30s.get_reads

lemmas [wire] = VAsioPeerUri_30.nonempty

record participant_announcement_30 =
  pao_messageHeader :: "registry_msg_header_30"
  pao_peerInfo :: "vasio_peer_info_30"
  pao_peerUri :: "vasio_peer_uri_30"

definition put_ParticipantAnnouncement_30 :: "participant_announcement_30 \<Rightarrow> writer" where
  "put_ParticipantAnnouncement_30 msg =
     puts [put_RegistryMsgHeader_30 (pao_messageHeader msg),
           put_VAsioPeerInfo_30 (pao_peerInfo msg), put_VAsioPeerUri_30 (pao_peerUri msg)]"

definition get_ParticipantAnnouncement_30 :: "participant_announcement_30 reader" where
  "get_ParticipantAnnouncement_30 =
     then_get get_RegistryMsgHeader_30 (\<lambda>messageHeader.
     then_get get_VAsioPeerInfo_30 (\<lambda>peerInfo.
     then_get get_VAsioPeerUri_30 (\<lambda>peerUri.
     got \<lparr>pao_messageHeader = messageHeader, pao_peerInfo = peerInfo, pao_peerUri = peerUri\<rparr>)))"

definition enc_ParticipantAnnouncement_30 :: "participant_announcement_30 \<Rightarrow> byte list" where
  "enc_ParticipantAnnouncement_30 msg =
     enc_RegistryMsgHeader_30 (pao_messageHeader msg) @
     enc_VAsioPeerInfo_30 (pao_peerInfo msg) @ enc_VAsioPeerUri_30 (pao_peerUri msg)"

definition ok_ParticipantAnnouncement_30 :: "participant_announcement_30 \<Rightarrow> bool" where
  "ok_ParticipantAnnouncement_30 msg \<longleftrightarrow>
     ok_RegistryMsgHeader_30 (pao_messageHeader msg) \<and>
     ok_VAsioPeerInfo_30 (pao_peerInfo msg) \<and> ok_VAsioPeerUri_30 (pao_peerUri msg)"

interpretation ParticipantAnnouncement_30: strict_codec put_ParticipantAnnouncement_30 get_ParticipantAnnouncement_30
    enc_ParticipantAnnouncement_30 ok_ParticipantAnnouncement_30
proof (rule strict_codecI)
  show "ok_ParticipantAnnouncement_30 msg \<Longrightarrow> reads get_ParticipantAnnouncement_30 msg (enc_ParticipantAnnouncement_30 msg)" for msg
    by (cases msg; simp add: get_ParticipantAnnouncement_30_def enc_ParticipantAnnouncement_30_def ok_ParticipantAnnouncement_30_def; (rule wire_reads | simp)+)
qed (simp_all add: put_ParticipantAnnouncement_30_def enc_ParticipantAnnouncement_30_def ok_ParticipantAnnouncement_30_def wire)

lemmas [wire] = ParticipantAnnouncement_30.put_at
lemmas [wire_reads] = ParticipantAnnouncement_30.get_reads

record participant_announcement_reply_30 =
  paro_subscribers :: "vasio_msg_subscriber_30 list"

definition put_ParticipantAnnouncementReply_30 :: "participant_announcement_reply_30 \<Rightarrow> writer" where
  "put_ParticipantAnnouncementReply_30 msg =
     puts [put_vector put_VAsioMsgSubscriber_30 (paro_subscribers msg)]"

definition get_ParticipantAnnouncementReply_30 :: "participant_announcement_reply_30 reader" where
  "get_ParticipantAnnouncementReply_30 =
     then_get (get_vector get_VAsioMsgSubscriber_30) (\<lambda>subscribers.
     got \<lparr>paro_subscribers = subscribers\<rparr>)"

definition enc_ParticipantAnnouncementReply_30 :: "participant_announcement_reply_30 \<Rightarrow> byte list" where
  "enc_ParticipantAnnouncementReply_30 msg =
     enc_vector enc_VAsioMsgSubscriber_30 (paro_subscribers msg)"

definition ok_ParticipantAnnouncementReply_30 :: "participant_announcement_reply_30 \<Rightarrow> bool" where
  "ok_ParticipantAnnouncementReply_30 msg \<longleftrightarrow>
     ok_vector ok_VAsioMsgSubscriber_30 (paro_subscribers msg)"

interpretation ParticipantAnnouncementReply_30: strict_codec put_ParticipantAnnouncementReply_30 get_ParticipantAnnouncementReply_30
    enc_ParticipantAnnouncementReply_30 ok_ParticipantAnnouncementReply_30
proof (rule strict_codecI)
  show "ok_ParticipantAnnouncementReply_30 msg \<Longrightarrow> reads get_ParticipantAnnouncementReply_30 msg (enc_ParticipantAnnouncementReply_30 msg)" for msg
    by (cases msg; simp add: get_ParticipantAnnouncementReply_30_def enc_ParticipantAnnouncementReply_30_def ok_ParticipantAnnouncementReply_30_def; (rule wire_reads | simp)+)
qed (simp_all add: put_ParticipantAnnouncementReply_30_def enc_ParticipantAnnouncementReply_30_def ok_ParticipantAnnouncementReply_30_def wire)

lemmas [wire] = ParticipantAnnouncementReply_30.put_at
lemmas [wire_reads] = ParticipantAnnouncementReply_30.get_reads

record known_participants_30 =
  kpo_messageHeader :: registry_msg_header_30
  kpo_peerInfos :: "vasio_peer_info_30 list"
  kpo_peerUris :: "vasio_peer_uri_30 list"

definition put_KnownParticipants_30 :: "known_participants_30 \<Rightarrow> writer" where
  "put_KnownParticipants_30 msg =
     puts [put_RegistryMsgHeader_30 (kpo_messageHeader msg),
           put_vector put_VAsioPeerInfo_30 (kpo_peerInfos msg),
           put_vector put_VAsioPeerUri_30 (kpo_peerUris msg)]"

text \<open>The last field was added in a later release and is read only if bytes are left.\<close>

definition get_KnownParticipants_30 :: "known_participants_30 reader" where
  "get_KnownParticipants_30 =
     then_get get_RegistryMsgHeader_30 (\<lambda>messageHeader.
     then_get (get_vector get_VAsioPeerInfo_30) (\<lambda>peerInfos.
     then_get (\<lambda>b. if RemainingBytesLeft b > 0 then get_vector get_VAsioPeerUri_30 b else Inr ([], b)) (\<lambda>peerUris.
     got \<lparr>kpo_messageHeader = messageHeader, kpo_peerInfos = peerInfos, kpo_peerUris = peerUris\<rparr>)))"

text \<open>\<open>RegistryMsgHeader{}\<close> of \<open>protocol_3_0\<close>: \<open>'V', 'I', 'B', '-'\<close> and version 3.0.\<close>

definition default_header_30 :: registry_msg_header_30 where
  "default_header_30 = \<lparr>rho_preambel = [0x56, 0x49, 0x42, 0x2d], rho_versionHigh = 3, rho_versionLow = 0\<rparr>"

section \<open>The handshake\<close>

record participant_announcement =
  pa_messageHeader :: registry_msg_header
  pa_peerInfo :: vasio_peer_info
  pa_simulationName :: string

record participant_announcement_reply =
  par_remoteHeader :: registry_msg_header
  par_status :: "8 word"
  par_subscribers :: "vasio_msg_subscriber list"
  par_diagnostic :: string

record known_participants =
  kp_messageHeader :: registry_msg_header
  kp_peerInfos :: "vasio_peer_info list"

abbreviation reply_Failed :: "8 word" where
  "reply_Failed \<equiv> 0"

abbreviation reply_Success :: "8 word" where
  "reply_Success \<equiv> 1"

subsection \<open>Conversions from and to version 3.0\<close>

definition announcement_to_30 :: "participant_announcement \<Rightarrow> participant_announcement_30" where
  "announcement_to_30 announcement =
     \<lparr>pao_messageHeader = default_header_30,
      pao_peerInfo = \<lparr>pio_participantName = [], pio_participantId = 0, pio_acceptorHost = [], pio_acceptorPort = 0\<rparr>,
      pao_peerUri =
        \<lparr>puo_participantName = pi_participantName (pa_peerInfo announcement),
         puo_participantId = pi_participantId (pa_peerInfo announcement),
         puo_acceptorUris = pi_acceptorUris (pa_peerInfo announcement)\<rparr>\<rparr>"

definition announcement_from_30 :: "participant_announcement_30 \<Rightarrow> participant_announcement" where
  "announcement_from_30 oldAnnouncement =
     \<lparr>pa_messageHeader =
        \<lparr>rh_preamble = registry_preamble,
         rh_versionHigh = rho_versionHigh (pao_messageHeader oldAnnouncement),
         rh_versionLow = rho_versionLow (pao_messageHeader oldAnnouncement)\<rparr>,
      pa_peerInfo =
        \<lparr>pi_participantName = puo_participantName (pao_peerUri oldAnnouncement),
         pi_participantId = puo_participantId (pao_peerUri oldAnnouncement),
         pi_acceptorUris = puo_acceptorUris (pao_peerUri oldAnnouncement), pi_capabilities = []\<rparr>,
      pa_simulationName = []\<rparr>"

definition subscriber_to_30 :: "vasio_msg_subscriber \<Rightarrow> vasio_msg_subscriber_30" where
  "subscriber_to_30 subscriber =
     \<lparr>mso_receiverIdx = ms_receiverIdx subscriber, mso_networkName = ms_networkName subscriber,
      mso_msgTypeName = ms_msgTypeName subscriber\<rparr>"

definition subscriber_from_30 :: "vasio_msg_subscriber_30 \<Rightarrow> vasio_msg_subscriber" where
  "subscriber_from_30 subscriber =
     \<lparr>ms_receiverIdx = mso_receiverIdx subscriber, ms_networkName = mso_networkName subscriber,
      ms_msgTypeName = mso_msgTypeName subscriber, ms_version = 0\<rparr>"

definition peer_to_30 :: "vasio_peer_info \<Rightarrow> vasio_peer_uri_30" where
  "peer_to_30 info =
     \<lparr>puo_participantName = pi_participantName info, puo_participantId = pi_participantId info,
      puo_acceptorUris = pi_acceptorUris info\<rparr>"

definition peer_from_30 :: "vasio_peer_uri_30 \<Rightarrow> vasio_peer_info" where
  "peer_from_30 peerUri =
     \<lparr>pi_participantName = puo_participantName peerUri, pi_participantId = puo_participantId peerUri,
      pi_acceptorUris = puo_acceptorUris peerUri, pi_capabilities = []\<rparr>"

subsection \<open>Operators\<close>

definition SerializeV30_announcement :: "participant_announcement \<Rightarrow> writer" where
  "SerializeV30_announcement announcement = put_ParticipantAnnouncement_30 (announcement_to_30 announcement)"

definition DeserializeV30_announcement :: "participant_announcement reader" where
  "DeserializeV30_announcement =
     then_get get_ParticipantAnnouncement_30 (\<lambda>oldAnnouncement. got (announcement_from_30 oldAnnouncement))"

definition SerializeV30_reply :: "participant_announcement_reply \<Rightarrow> writer" where
  "SerializeV30_reply reply =
     put_ParticipantAnnouncementReply_30 \<lparr>paro_subscribers = map subscriber_to_30 (par_subscribers reply)\<rparr>"

definition DeserializeV30_reply :: "participant_announcement_reply reader" where
  "DeserializeV30_reply =
     then_get get_ParticipantAnnouncementReply_30 (\<lambda>oldReply.
     got \<lparr>par_remoteHeader = MakeRegistryMsgHeader (3, 0), par_status = reply_Success,
        par_subscribers = map subscriber_from_30 (paro_subscribers oldReply), par_diagnostic = []\<rparr>)"

definition SerializeV30_known :: "known_participants \<Rightarrow> writer" where
  "SerializeV30_known participants =
     put_KnownParticipants_30
       \<lparr>kpo_messageHeader = default_header_30, kpo_peerInfos = [],
        kpo_peerUris = map peer_to_30 (kp_peerInfos participants)\<rparr>"

definition DeserializeV30_known :: "known_participants reader" where
  "DeserializeV30_known =
     then_get get_KnownParticipants_30 (\<lambda>oldParticipants.
     got \<lparr>kp_messageHeader = MakeRegistryMsgHeader (3, 0),
        kp_peerInfos = map peer_from_30 (kpo_peerUris oldParticipants)\<rparr>)"

text \<open>
  The announcement is the first message of a handshake, so the writer takes the version from
  its header.
\<close>

definition put_ParticipantAnnouncement :: "participant_announcement \<Rightarrow> writer" where
  "put_ParticipantAnnouncement announcement buffer =
     (let b = SetProtocolVersion (ExtractProtocolVersion (pa_messageHeader announcement)) buffer
      in if protocolVersion b = (3, 0) then SerializeV30_announcement announcement b
         else puts [put_RegistryMsgHeader (pa_messageHeader announcement),
                    put_VAsioPeerInfo (pa_peerInfo announcement),
                    put_string (pa_simulationName announcement)] b)"

definition get_ParticipantAnnouncement :: "participant_announcement reader" where
  "get_ParticipantAnnouncement buffer =
     (if protocolVersion buffer = (3, 0) then DeserializeV30_announcement buffer
      else then_get get_RegistryMsgHeader (\<lambda>messageHeader. then_get get_VAsioPeerInfo (\<lambda>peerInfo.
           then_get (\<lambda>b. if RemainingBytesLeft b = 0 then Inr ([], b) else get_string b) (\<lambda>simulationName.
           got \<lparr>pa_messageHeader = messageHeader, pa_peerInfo = peerInfo,
              pa_simulationName = simulationName\<rparr>))) buffer)"

definition put_ParticipantAnnouncementReply :: "participant_announcement_reply \<Rightarrow> writer" where
  "put_ParticipantAnnouncementReply reply buffer =
     (if protocolVersion buffer = (3, 0) then SerializeV30_reply reply buffer
      else puts [put_RegistryMsgHeader (par_remoteHeader reply), put_word (par_status reply),
                 put_vector put_VAsioMsgSubscriber (par_subscribers reply),
                 put_string (par_diagnostic reply)] buffer)"

definition get_ParticipantAnnouncementReply :: "participant_announcement_reply reader" where
  "get_ParticipantAnnouncementReply buffer =
     (if protocolVersion buffer = (3, 0) then DeserializeV30_reply buffer
      else then_get get_RegistryMsgHeader (\<lambda>remoteHeader. then_get get_word (\<lambda>status.
           then_get (get_vector get_VAsioMsgSubscriber) (\<lambda>subscribers.
           then_get (\<lambda>b. if RemainingBytesLeft b > 0 then get_string b else Inr ([], b)) (\<lambda>diagnostic.
           got \<lparr>par_remoteHeader = remoteHeader, par_status = status, par_subscribers = subscribers,
              par_diagnostic = diagnostic\<rparr>)))) buffer)"

definition put_KnownParticipants :: "known_participants \<Rightarrow> writer" where
  "put_KnownParticipants participants buffer =
     (if protocolVersion buffer = (3, 0) then SerializeV30_known participants buffer
      else puts [put_RegistryMsgHeader (kp_messageHeader participants),
                 put_vector put_VAsioPeerInfo (kp_peerInfos participants)] buffer)"

definition get_KnownParticipants :: "known_participants reader" where
  "get_KnownParticipants buffer =
     (if protocolVersion buffer = (3, 0) then DeserializeV30_known buffer
      else then_get get_RegistryMsgHeader (\<lambda>messageHeader.
           then_get (get_vector get_VAsioPeerInfo) (\<lambda>peerInfos.
           got \<lparr>kp_messageHeader = messageHeader, kp_peerInfos = peerInfos\<rparr>)) buffer)"

section \<open>Proxy messages\<close>

record proxy_message_header =
  ph_version :: "8 word"

record proxy_message =
  pm_header :: proxy_message_header
  pm_source :: string
  pm_destination :: string
  pm_payload :: "byte list"

definition put_ProxyMessageHeader :: "proxy_message_header \<Rightarrow> writer" where
  "put_ProxyMessageHeader msg buffer =
     (if version_less (protocolVersion buffer) (3, 1) then Inl ProtocolError
      else put_word (ph_version msg) buffer)"

definition get_ProxyMessageHeader :: "proxy_message_header reader" where
  "get_ProxyMessageHeader buffer =
     (if version_less (protocolVersion buffer) (3, 1) then Inl ProtocolError
      else then_get get_word (\<lambda>version. got \<lparr>ph_version = version\<rparr>) buffer)"

definition put_ProxyMessage :: "proxy_message \<Rightarrow> writer" where
  "put_ProxyMessage msg buffer =
     (if version_less (protocolVersion buffer) (3, 1) then Inl ProtocolError
      else puts [put_ProxyMessageHeader (pm_header msg), put_string (pm_source msg),
                 put_string (pm_destination msg), put_blob (pm_payload msg)] buffer)"

definition get_ProxyMessage :: "proxy_message reader" where
  "get_ProxyMessage buffer =
     (if version_less (protocolVersion buffer) (3, 1) then Inl ProtocolError
      else then_get get_ProxyMessageHeader (\<lambda>header. then_get get_string (\<lambda>source.
           then_get get_string (\<lambda>destination. then_get get_blob (\<lambda>payload.
           got \<lparr>pm_header = header, pm_source = source, pm_destination = destination,
              pm_payload = payload\<rparr>)))) buffer)"

section \<open>What arrives\<close>

text \<open>
  What the other side reads when both use version \<open>v\<close>, with the number of bytes it has not
  read.
\<close>

definition transmit :: "protocol_version \<Rightarrow> ('a \<Rightarrow> writer) \<Rightarrow> 'a reader \<Rightarrow> 'a \<Rightarrow> ('a \<times> nat) result" where
  "transmit v put get x =
     bind_result (put x (SetProtocolVersion v empty_buffer)) (\<lambda>b.
     bind_result (get (SetProtocolVersion v (buffer_of (storage b)))) (\<lambda>(y, rest).
     Inr (y, RemainingBytesLeft rest)))"

lemma transmit_encoded:
  assumes "\<And>pre post. put x (at v pre post) = Inr (at v pre (post @ bytes))"
    and "\<And>pre. get (at v pre bytes) = Inr (y, at v (pre @ bytes) [])"
  shows "transmit v put get x = Inr (y, 0)"
  using assms(1) [of "[]" "[]"] assms(2) [of "[]"]
  by (simp add: transmit_def empty_buffer_at buffer_of_at)

lemmas message_parts_at =
  word_get_at str.get_at str.get_at [where rest = "[]", simplified] strs.get_at
  RegistryMsgHeader.get_at VAsioPeerInfo.get_at VAsioMsgSubscribers.get_at
  VAsioPeerInfos.get_at VAsioPeerInfos.get_at [where rest = "[]", simplified]

lemmas old_parts_at =
  ParticipantAnnouncement_30.get_at [where rest = "[]", simplified]
  ParticipantAnnouncementReply_30.get_at [where rest = "[]", simplified]
  RegistryMsgHeader_30.get_at VAsioPeerInfo_30s.get_at VAsioPeerUri_30s.get_at [where rest = "[]", simplified]

definition ok_announcement :: "participant_announcement \<Rightarrow> bool" where
  "ok_announcement msg \<longleftrightarrow> ok_VAsioPeerInfo (pa_peerInfo msg) \<and> ok_string (pa_simulationName msg)"

definition ok_reply :: "participant_announcement_reply \<Rightarrow> bool" where
  "ok_reply msg \<longleftrightarrow> ok_vector ok_VAsioMsgSubscriber (par_subscribers msg) \<and> ok_string (par_diagnostic msg)"

definition ok_known :: "known_participants \<Rightarrow> bool" where
  "ok_known msg \<longleftrightarrow> ok_vector ok_VAsioPeerInfo (kp_peerInfos msg)"

definition enc_announcement :: "participant_announcement \<Rightarrow> byte list" where
  "enc_announcement msg =
     (if ExtractProtocolVersion (pa_messageHeader msg) = (3, 0)
      then enc_ParticipantAnnouncement_30 (announcement_to_30 msg)
      else enc_RegistryMsgHeader (pa_messageHeader msg) @ enc_VAsioPeerInfo (pa_peerInfo msg) @
        enc_string (pa_simulationName msg))"

lemma ok_announcement_to_30: "ok_announcement msg \<Longrightarrow> ok_ParticipantAnnouncement_30 (announcement_to_30 msg)"
  by (simp add: ok_announcement_def ok_ParticipantAnnouncement_30_def announcement_to_30_def
      ok_RegistryMsgHeader_30_def default_header_30_def ok_VAsioPeerInfo_30_def ok_VAsioPeerUri_30_def
      ok_VAsioPeerInfo_def ok_string_def)

lemma put_announcement_at:
  "ok_announcement msg \<Longrightarrow>
    put_ParticipantAnnouncement msg (at v pre post) =
      Inr (at (ExtractProtocolVersion (pa_messageHeader msg)) pre (post @ enc_announcement msg))"
  using ok_announcement_to_30 [of msg]
  by (auto simp: put_ParticipantAnnouncement_def SerializeV30_announcement_def enc_announcement_def
      ok_announcement_def wire Let_def)

text \<open>What is left of a message after it has been sent in the format of version 3.0.\<close>

definition legacy_announcement :: "participant_announcement \<Rightarrow> participant_announcement" where
  "legacy_announcement msg =
     \<lparr>pa_messageHeader = MakeRegistryMsgHeader (3, 0),
      pa_peerInfo = (pa_peerInfo msg)\<lparr>pi_capabilities := []\<rparr>, pa_simulationName = []\<rparr>"

lemma get_announcement_at:
  assumes "ok_announcement msg" "v = ExtractProtocolVersion (pa_messageHeader msg)"
  shows "get_ParticipantAnnouncement (at v pre (enc_announcement msg)) =
    Inr (if v = (3, 0) then legacy_announcement msg else msg, at v (pre @ enc_announcement msg) [])"
proof (cases "v = (3, 0)")
  case True
  have "announcement_from_30 (announcement_to_30 msg) = legacy_announcement msg"
    by (simp add: announcement_from_30_def announcement_to_30_def legacy_announcement_def
        MakeRegistryMsgHeader_def default_header_30_def)
  then show ?thesis
    using ok_announcement_to_30 [OF assms(1)] True assms(2)
    by (simp add: get_ParticipantAnnouncement_def DeserializeV30_announcement_def enc_announcement_def
        then_get_def got_def old_parts_at)
next
  case False
  then show ?thesis
    using assms
    by (simp add: get_ParticipantAnnouncement_def enc_announcement_def then_get_def got_def
        ok_announcement_def message_parts_at)
qed

definition legacy_reply :: "participant_announcement_reply \<Rightarrow> participant_announcement_reply" where
  "legacy_reply msg =
     \<lparr>par_remoteHeader = MakeRegistryMsgHeader (3, 0), par_status = reply_Success,
      par_subscribers = map (\<lambda>s. s\<lparr>ms_version := 0\<rparr>) (par_subscribers msg), par_diagnostic = []\<rparr>"

definition enc_reply :: "protocol_version \<Rightarrow> participant_announcement_reply \<Rightarrow> byte list" where
  "enc_reply v msg =
     (if v = (3, 0)
      then enc_ParticipantAnnouncementReply_30 \<lparr>paro_subscribers = map subscriber_to_30 (par_subscribers msg)\<rparr>
      else enc_RegistryMsgHeader (par_remoteHeader msg) @ enc_word (par_status msg) @
        enc_vector enc_VAsioMsgSubscriber (par_subscribers msg) @ enc_string (par_diagnostic msg))"

lemma ok_reply_to_30:
  "ok_reply msg \<Longrightarrow>
    ok_ParticipantAnnouncementReply_30 \<lparr>paro_subscribers = map subscriber_to_30 (par_subscribers msg)\<rparr>"
  by (auto simp: ok_reply_def ok_ParticipantAnnouncementReply_30_def ok_vector_def subscriber_to_30_def
      ok_VAsioMsgSubscriber_def ok_VAsioMsgSubscriber_30_def)

lemma put_reply_at:
  "ok_reply msg \<Longrightarrow>
    put_ParticipantAnnouncementReply msg (at v pre post) = Inr (at v pre (post @ enc_reply v msg))"
  using ok_reply_to_30 [of msg]
  by (auto simp: put_ParticipantAnnouncementReply_def SerializeV30_reply_def enc_reply_def ok_reply_def wire)

lemma get_reply_at:
  assumes "ok_reply msg"
  shows "get_ParticipantAnnouncementReply (at v pre (enc_reply v msg)) =
    Inr (if v = (3, 0) then legacy_reply msg else msg, at v (pre @ enc_reply v msg) [])"
proof (cases "v = (3, 0)")
  case True
  have "subscriber_from_30 (subscriber_to_30 s) = s\<lparr>ms_version := 0\<rparr>" for s
    by (simp add: subscriber_from_30_def subscriber_to_30_def)
  then show ?thesis
    using ok_reply_to_30 [OF assms] True
    by (simp add: get_ParticipantAnnouncementReply_def DeserializeV30_reply_def enc_reply_def
        then_get_def got_def old_parts_at legacy_reply_def comp_def)
next
  case False
  then show ?thesis
    using assms
    by (simp add: get_ParticipantAnnouncementReply_def enc_reply_def then_get_def got_def ok_reply_def
        message_parts_at)
qed

text \<open>A reply of a release before 4.0.8 has no diagnostic.\<close>

lemma reply_without_diagnostic:
  assumes "ok_reply msg" "v \<noteq> (3, 0)"
  shows "get_ParticipantAnnouncementReply
      (at v pre (enc_RegistryMsgHeader (par_remoteHeader msg) @ enc_word (par_status msg) @
         enc_vector enc_VAsioMsgSubscriber (par_subscribers msg))) =
    Inr (msg\<lparr>par_diagnostic := []\<rparr>, at v (pre @ enc_RegistryMsgHeader (par_remoteHeader msg) @
      enc_word (par_status msg) @ enc_vector enc_VAsioMsgSubscriber (par_subscribers msg)) [])"
  using assms VAsioMsgSubscribers.get_at [of "par_subscribers msg" v _ "[]"]
  by (simp add: get_ParticipantAnnouncementReply_def then_get_def got_def ok_reply_def message_parts_at)

definition legacy_known :: "known_participants \<Rightarrow> known_participants" where
  "legacy_known msg =
     \<lparr>kp_messageHeader = MakeRegistryMsgHeader (3, 0),
      kp_peerInfos = map (\<lambda>p. p\<lparr>pi_capabilities := []\<rparr>) (kp_peerInfos msg)\<rparr>"

definition enc_known :: "protocol_version \<Rightarrow> known_participants \<Rightarrow> byte list" where
  "enc_known v msg =
     (if v = (3, 0)
      then enc_RegistryMsgHeader_30 default_header_30 @ enc_vector enc_VAsioPeerInfo_30 [] @
        enc_vector enc_VAsioPeerUri_30 (map peer_to_30 (kp_peerInfos msg))
      else enc_RegistryMsgHeader (kp_messageHeader msg) @ enc_vector enc_VAsioPeerInfo (kp_peerInfos msg))"

lemma ok_default_header_30 [simp]: "ok_RegistryMsgHeader_30 default_header_30"
  by (simp add: ok_RegistryMsgHeader_30_def default_header_30_def)

lemma ok_peers_to_30:
  "ok_vector ok_VAsioPeerInfo ps \<Longrightarrow> ok_vector ok_VAsioPeerUri_30 (map peer_to_30 ps)"
  by (auto simp: ok_vector_def ok_VAsioPeerInfo_def ok_VAsioPeerUri_30_def peer_to_30_def)

lemma ok_vector_Nil [simp]: "ok_vector ok []"
  by (simp add: ok_vector_def)

lemma put_known_at:
  "ok_known msg \<Longrightarrow> put_KnownParticipants msg (at v pre post) = Inr (at v pre (post @ enc_known v msg))"
  using ok_peers_to_30 [of "kp_peerInfos msg"]
  by (auto simp: put_KnownParticipants_def SerializeV30_known_def put_KnownParticipants_30_def enc_known_def
      ok_known_def wire)

lemma get_known_at:
  assumes "ok_known msg"
  shows "get_KnownParticipants (at v pre (enc_known v msg)) =
    Inr (if v = (3, 0) then legacy_known msg else msg, at v (pre @ enc_known v msg) [])"
proof (cases "v = (3, 0)")
  case True
  have "peer_from_30 (peer_to_30 p) = p\<lparr>pi_capabilities := []\<rparr>" for p
    by (simp add: peer_from_30_def peer_to_30_def)
  moreover have "enc_vector enc_VAsioPeerUri_30 xs \<noteq> []" for xs by simp
  ultimately show ?thesis
    using ok_peers_to_30 [of "kp_peerInfos msg"] assms True
    by (simp add: get_KnownParticipants_def DeserializeV30_known_def get_KnownParticipants_30_def
        enc_known_def ok_known_def then_get_def got_def old_parts_at legacy_known_def comp_def)
next
  case False
  then show ?thesis
    using assms
    by (simp add: get_KnownParticipants_def enc_known_def then_get_def got_def ok_known_def message_parts_at)
qed

definition ok_proxy :: "proxy_message \<Rightarrow> bool" where
  "ok_proxy msg \<longleftrightarrow> ok_string (pm_source msg) \<and> ok_string (pm_destination msg) \<and> length (pm_payload msg) \<le> max_size"

definition enc_proxy :: "proxy_message \<Rightarrow> byte list" where
  "enc_proxy msg = enc_word (ph_version (pm_header msg)) @ enc_string (pm_source msg) @
     enc_string (pm_destination msg) @ enc_blob (pm_payload msg)"

lemma put_proxy_at:
  "ok_proxy msg \<Longrightarrow> \<not> version_less v (3, 1) \<Longrightarrow>
    put_ProxyMessage msg (at v pre post) = Inr (at v pre (post @ enc_proxy msg))"
  by (simp add: put_ProxyMessage_def put_ProxyMessageHeader_def ok_proxy_def enc_proxy_def wire)

lemma get_proxy_at:
  "ok_proxy msg \<Longrightarrow> \<not> version_less v (3, 1) \<Longrightarrow>
    get_ProxyMessage (at v pre (enc_proxy msg)) = Inr (msg, at v (pre @ enc_proxy msg) [])"
  by (simp add: get_ProxyMessage_def get_ProxyMessageHeader_def ok_proxy_def enc_proxy_def then_get_def got_def
      word_get_at str.get_at blob.get_at [where rest = "[]", simplified])

lemma proxy_needs_version:
  "version_less v (3, 1) \<Longrightarrow> transmit v put_ProxyMessage get_ProxyMessage msg = Inl ProtocolError"
  by (simp add: transmit_def put_ProxyMessage_def empty_buffer_at)

section \<open>Properties\<close>

text \<open>
  Claim C16. The handshake works between protocol versions: an announcement, a reply and a list
  of known participants that are sent in the version of the connection are read in that
  version, completely. In the current version nothing is lost; in version 3.0 exactly the
  capabilities, the simulation name, the versions of the subscribed message types and the
  status and diagnostic of the reply (which becomes a success) are. Proxy messages are
  refused below version 3.1.
\<close>

theorem handshake_works_across_versions:
  assumes "ok_announcement a" "ok_reply r" "ok_known k" "ok_proxy p"
    and "v \<in> {(3, 0), (3, 1)}" "pa_messageHeader a = MakeRegistryMsgHeader v"
  shows "transmit v put_ParticipantAnnouncement get_ParticipantAnnouncement a =
      Inr (if v = (3, 0) then legacy_announcement a else a, 0) \<and>
    transmit v put_ParticipantAnnouncementReply get_ParticipantAnnouncementReply r =
      Inr (if v = (3, 0) then legacy_reply r else r, 0) \<and>
    transmit v put_KnownParticipants get_KnownParticipants k =
      Inr (if v = (3, 0) then legacy_known k else k, 0) \<and>
    transmit v put_ProxyMessage get_ProxyMessage p =
      (if v = (3, 0) then Inl ProtocolError else Inr (p, 0))"
proof -
  have v: "ExtractProtocolVersion (pa_messageHeader a) = v"
    using assms(5,6) by (auto simp: ExtractProtocolVersion_def MakeRegistryMsgHeader_def)
  have "transmit v put_ParticipantAnnouncement get_ParticipantAnnouncement a =
      Inr (if v = (3, 0) then legacy_announcement a else a, 0)"
    using put_announcement_at [OF assms(1)] get_announcement_at [OF assms(1) v [symmetric]] v
    by (intro transmit_encoded) auto
  moreover have "transmit v put_ParticipantAnnouncementReply get_ParticipantAnnouncementReply r =
      Inr (if v = (3, 0) then legacy_reply r else r, 0)"
    using put_reply_at [OF assms(2), of v] get_reply_at [OF assms(2), of v] by (intro transmit_encoded) auto
  moreover have "transmit v put_KnownParticipants get_KnownParticipants k =
      Inr (if v = (3, 0) then legacy_known k else k, 0)"
    using put_known_at [OF assms(3), of v] get_known_at [OF assms(3), of v] by (intro transmit_encoded) auto
  moreover have "transmit v put_ProxyMessage get_ProxyMessage p =
      (if v = (3, 0) then Inl ProtocolError else Inr (p, 0))"
    using put_proxy_at [OF assms(4), of v] get_proxy_at [OF assms(4), of v] proxy_needs_version [of v p] assms(5)
    by (auto simp: version_less_def intro!: transmit_encoded)
  ultimately show ?thesis by blast
qed

definition example_peer :: vasio_peer_info where
  "example_peer = \<lparr>pi_participantName = ''A'', pi_participantId = 7, pi_acceptorUris = [''tcp://h:1''],
     pi_capabilities = ''[]''\<rparr>"

theorem handshake_works_across_versions_witness:
  "let a = \<lparr>pa_messageHeader = MakeRegistryMsgHeader (3, 0), pa_peerInfo = example_peer, pa_simulationName = ''sim''\<rparr>;
       r = \<lparr>par_remoteHeader = MakeRegistryMsgHeader (3, 0), par_status = reply_Failed, par_subscribers = [],
            par_diagnostic = ''no''\<rparr>;
       k = \<lparr>kp_messageHeader = MakeRegistryMsgHeader (3, 0), kp_peerInfos = [example_peer]\<rparr>;
       p = \<lparr>pm_header = \<lparr>ph_version = 0\<rparr>, pm_source = ''A'', pm_destination = ''B'', pm_payload = [1]\<rparr>
   in transmit (3, 0) put_ParticipantAnnouncement get_ParticipantAnnouncement a =
      Inr (if (3 :: nat, 0 :: nat) = (3, 0) then legacy_announcement a else a, 0) \<and>
    transmit (3, 0) put_ParticipantAnnouncementReply get_ParticipantAnnouncementReply r =
      Inr (if (3 :: nat, 0 :: nat) = (3, 0) then legacy_reply r else r, 0) \<and>
    transmit (3, 0) put_KnownParticipants get_KnownParticipants k =
      Inr (if (3 :: nat, 0 :: nat) = (3, 0) then legacy_known k else k, 0) \<and>
    transmit (3, 0) put_ProxyMessage get_ProxyMessage p =
      (if (3 :: nat, 0 :: nat) = (3, 0) then Inl ProtocolError else Inr (p, 0))"
  unfolding Let_def
  by (rule handshake_works_across_versions)
    (simp_all add: ok_announcement_def ok_reply_def ok_known_def ok_proxy_def ok_VAsioPeerInfo_def
      example_peer_def ok_vector_def ok_string_def max_size_def)


end
