(* ===== verification/RingBuffer.thy ===== *)
theory RingBuffer
  imports Bytes
begin

text \<open>
  The ring buffer that a connection receives into (\<open>core/vasio/RingBuffer.cpp\<close>): a byte
  array with read and write position. Sizes and positions are of type \<open>size_t\<close>; they are
  natural numbers here, with the wrap-around written out where the code subtracts. The
  socket fills the writing buffers, which are pairs of offset and length into the array.
\<close>

section \<open>State and operations\<close>

record ring_buffer =
  rb_buffer :: "byte list"
  rb_size :: nat
  wPos :: nat
  rPos :: nat

definition new_ring_buffer :: "nat \<Rightarrow> ring_buffer" where
  "new_ring_buffer n = \<lparr>rb_buffer = replicate n 0, rb_size = 0, wPos = 0, rPos = 0\<rparr>"

definition Capacity :: "ring_buffer \<Rightarrow> nat" where
  "Capacity rb = length (rb_buffer rb)"

definition SizeCheck :: "ring_buffer \<Rightarrow> ring_buffer outcome" where
  "SizeCheck rb = (if rb_size rb > Capacity rb then Raised SilKitError rb else Done rb)"

definition AdvanceWPos :: "nat \<Rightarrow> ring_buffer \<Rightarrow> ring_buffer outcome" where
  "AdvanceWPos n rb =
     SizeCheck (rb\<lparr>wPos := (wPos rb + n) mod Capacity rb, rb_size := rb_size rb + n\<rparr>)"

definition AdvanceRPos :: "nat \<Rightarrow> ring_buffer \<Rightarrow> ring_buffer outcome" where
  "AdvanceRPos n rb =
     SizeCheck (rb\<lparr>rPos := (rPos rb + n) mod Capacity rb,
                   rb_size := (if n \<le> rb_size rb then rb_size rb - n
                               else rb_size rb + 2 ^ 64 - n)\<rparr>)"

text \<open>\<open>Peek\<close> fills a vector of the given size, or reports that there is too little data.\<close>

definition Peek :: "nat \<Rightarrow> ring_buffer \<Rightarrow> byte list option" where
  "Peek n rb =
     (if n > rb_size rb then None
      else
        let numBytesArrayOne = min (Capacity rb - rPos rb) n;
            arrayOne = take numBytesArrayOne (drop (rPos rb) (rb_buffer rb))
        in if numBytesArrayOne < n
           then Some (arrayOne @ take (n - numBytesArrayOne) (rb_buffer rb))
           else Some arrayOne)"

definition Read :: "nat \<Rightarrow> ring_buffer \<Rightarrow> byte list option \<times> ring_buffer outcome" where
  "Read n rb =
     (case Peek n rb of
        None \<Rightarrow> (None, Done rb)
      | Some elem \<Rightarrow> (Some elem, AdvanceRPos n rb))"

definition GetFreeMemorySizeArrayOne :: "ring_buffer \<Rightarrow> nat" where
  "GetFreeMemorySizeArrayOne rb =
     (if rb_size rb = 0 then Capacity rb - wPos rb
      else min (Capacity rb - wPos rb) (Capacity rb - rb_size rb))"

definition GetFreeMemorySizeArrayTwo :: "ring_buffer \<Rightarrow> nat" where
  "GetFreeMemorySizeArrayTwo rb =
     (if rb_size rb = 0 then wPos rb
      else (Capacity rb - rb_size rb) - GetFreeMemorySizeArrayOne rb)"

definition GetWritingBuffers :: "ring_buffer \<Rightarrow> (nat \<times> nat) list" where
  "GetWritingBuffers rb =
     filter (\<lambda>b. snd b > 0)
       [(wPos rb, GetFreeMemorySizeArrayOne rb), (0, GetFreeMemorySizeArrayTwo rb)]"

definition Reserve :: "nat \<Rightarrow> ring_buffer \<Rightarrow> ring_buffer" where
  "Reserve newCapacity rb =
     (if newCapacity \<le> Capacity rb then rb
      else
        let newBuffer = (case Peek (rb_size rb) rb of
                           None \<Rightarrow> replicate (rb_size rb) 0 | Some elem \<Rightarrow> elem)
        in rb\<lparr>rb_buffer := newBuffer @ replicate (newCapacity - length newBuffer) 0,
              rPos := 0, wPos := rb_size rb\<rparr>)"

section \<open>Filling the writing buffers\<close>

definition overwrite :: "nat \<Rightarrow> byte list \<Rightarrow> byte list \<Rightarrow> byte list" where
  "overwrite offset bs xs = take offset xs @ bs @ drop (offset + length bs) xs"

text \<open>A read on the socket: the bytes go into the buffers of the sequence in turn.\<close>

fun fill_buffers :: "(nat \<times> nat) list \<Rightarrow> byte list \<Rightarrow> byte list \<Rightarrow> byte list" where
  "fill_buffers [] bs mem = mem"
| "fill_buffers ((offset, len) # bufs) bs mem =
     fill_buffers bufs (drop len bs) (overwrite offset (take len bs) mem)"

definition buffers_size :: "(nat \<times> nat) list \<Rightarrow> nat" where
  "buffers_size bufs = sum_list (map snd bufs)"

definition put_bytes :: "byte list \<Rightarrow> ring_buffer \<Rightarrow> ring_buffer outcome" where
  "put_bytes bs rb =
     AdvanceWPos (length bs) (rb\<lparr>rb_buffer := fill_buffers (GetWritingBuffers rb) bs (rb_buffer rb)\<rparr>)"

section \<open>The contents as a queue of bytes\<close>

definition ring_inv :: "ring_buffer \<Rightarrow> bool" where
  "ring_inv rb \<longleftrightarrow>
     0 < Capacity rb \<and> rb_size rb \<le> Capacity rb \<and> rPos rb < Capacity rb \<and>
     wPos rb = (rPos rb + rb_size rb) mod Capacity rb"

definition contents :: "ring_buffer \<Rightarrow> byte list" where
  "contents rb = map (\<lambda>i. rb_buffer rb ! ((rPos rb + i) mod Capacity rb)) [0..<rb_size rb]"

definition free :: "ring_buffer \<Rightarrow> nat" where
  "free rb = Capacity rb - rb_size rb"

lemma ring_invD:
  assumes "ring_inv rb"
  shows "0 < Capacity rb" "rb_size rb \<le> Capacity rb" "rPos rb < Capacity rb"
    "wPos rb = (rPos rb + rb_size rb) mod Capacity rb" "wPos rb < Capacity rb"
  using assms by (auto simp: ring_inv_def)

lemma length_contents [simp]: "length (contents rb) = rb_size rb"
  by (simp add: contents_def)

lemma nth_contents:
  "i < rb_size rb \<Longrightarrow> contents rb ! i = rb_buffer rb ! ((rPos rb + i) mod Capacity rb)"
  by (simp add: contents_def)

lemma new_ring_buffer_inv:
  "0 < n \<Longrightarrow> ring_inv (new_ring_buffer n)" "contents (new_ring_buffer n) = []"
  "Capacity (new_ring_buffer n) = n" "rb_size (new_ring_buffer n) = 0"
  by (simp_all add: ring_inv_def new_ring_buffer_def contents_def Capacity_def)

lemma wrap_index:
  "(r :: nat) < c \<Longrightarrow> i < c \<Longrightarrow> (r + i) mod c = (if r + i < c then r + i else r + i - c)"
  by (simp add: mod_if)

text \<open>Looking at the first bytes, across the end of the array.\<close>

lemma Peek_contents:
  assumes "ring_inv rb"
  shows "Peek n rb = (if n \<le> rb_size rb then Some (take n (contents rb)) else None)"
proof (cases "n \<le> rb_size rb")
  case True
  let ?b = "rb_buffer rb" and ?r = "rPos rb"
  have r: "?r < length ?b" "n \<le> length ?b"
    using ring_invD [OF assms] True by (auto simp: Capacity_def)
  show ?thesis
  proof (cases "n \<le> length ?b - ?r")
    case one: True
    have "take n (drop ?r ?b) = take n (contents rb)"
      using r True one by (intro nth_equalityI) (auto simp: nth_contents Capacity_def wrap_index)
    then show ?thesis using True one by (simp add: Peek_def Let_def Capacity_def min_def)
  next
    case two: False
    have "drop ?r ?b @ take (n - (length ?b - ?r)) ?b = take n (contents rb)"
      using r True two
      by (intro nth_equalityI) (auto simp: nth_append nth_contents Capacity_def wrap_index add.commute [of _ "rPos rb"])
    then show ?thesis using True two by (simp add: Peek_def Let_def Capacity_def min_def)
  qed
next
  case False
  then show ?thesis by (simp add: Peek_def)
qed

lemma Read_contents:
  assumes "ring_inv rb" "n \<le> rb_size rb"
  obtains rb' where "Read n rb = (Some (take n (contents rb)), Done rb')" "ring_inv rb'"
    "contents rb' = drop n (contents rb)" "rb_size rb' = rb_size rb - n" "Capacity rb' = Capacity rb"
proof -
  let ?rb = "rb\<lparr>rPos := (rPos rb + n) mod Capacity rb, rb_size := rb_size rb - n\<rparr>"
  note inv = ring_invD [OF assms(1)]
  have cap: "Capacity ?rb = Capacity rb" by (simp add: Capacity_def)
  have "AdvanceRPos n rb = Done ?rb"
    using assms(2) inv by (simp add: AdvanceRPos_def SizeCheck_def Capacity_def)
  moreover have "((rPos rb + n) mod Capacity rb + (rb_size rb - n)) mod Capacity rb = wPos rb"
    using assms(2) inv(4) mod_add_left_eq [of "rPos rb + n" "Capacity rb" "rb_size rb - n"] by simp
  then have "ring_inv ?rb"
    using assms(2) inv unfolding ring_inv_def cap by simp
  moreover have "contents ?rb = drop n (contents rb)"
    using assms(2)
    by (intro nth_equalityI) (auto simp: nth_contents cap mod_add_left_eq add.assoc)
  ultimately show thesis
    using that [of ?rb] assms by (simp add: Read_def Peek_contents cap)
qed

section \<open>Writing\<close>

lemma length_overwrite [simp]: "off + length bs \<le> length xs \<Longrightarrow> length (overwrite off bs xs) = length xs"
  by (simp add: overwrite_def)

lemma nth_overwrite:
  "off + length bs \<le> length xs \<Longrightarrow> i < length xs \<Longrightarrow>
    overwrite off bs xs ! i = (if off \<le> i \<and> i < off + length bs then bs ! (i - off) else xs ! i)"
  by (auto simp: overwrite_def nth_append min_def)

lemma overwrite_Nil [simp]: "overwrite off [] xs = xs"
  by (simp add: overwrite_def)

lemma free_parts:
  assumes "ring_inv rb"
  defines "k1 \<equiv> GetFreeMemorySizeArrayOne rb" and "k2 \<equiv> GetFreeMemorySizeArrayTwo rb"
  shows "k1 + k2 = free rb" "wPos rb + k1 \<le> Capacity rb"
    "k1 = free rb \<or> wPos rb + k1 = Capacity rb" "k2 \<le> wPos rb"
proof -
  note inv = ring_invD [OF assms(1)]
  have w: "wPos rb = (if rPos rb + rb_size rb < Capacity rb then rPos rb + rb_size rb
      else rPos rb + rb_size rb - Capacity rb)"
    using inv by (simp add: mod_if)
  show "k1 + k2 = free rb" "wPos rb + k1 \<le> Capacity rb"
    "k1 = free rb \<or> wPos rb + k1 = Capacity rb" "k2 \<le> wPos rb"
    using inv w unfolding k1_def k2_def GetFreeMemorySizeArrayOne_def GetFreeMemorySizeArrayTwo_def free_def
    by (auto simp: min_def split: if_splits)
qed

lemma buffers_size_free: "ring_inv rb \<Longrightarrow> buffers_size (GetWritingBuffers rb) = free rb"
  using free_parts(1) [of rb] by (auto simp: buffers_size_def GetWritingBuffers_def)

lemma fill_writing_buffers:
  assumes "ring_inv rb" "length bs \<le> free rb"
  defines "k1 \<equiv> GetFreeMemorySizeArrayOne rb"
  shows "fill_buffers (GetWritingBuffers rb) bs mem =
    overwrite 0 (drop k1 bs) (overwrite (wPos rb) (take k1 bs) mem)"
proof -
  note parts = free_parts [OF assms(1)]
  have "k1 = 0 \<or> 0 < k1" "GetFreeMemorySizeArrayTwo rb = 0 \<Longrightarrow> drop k1 bs = []"
    using parts(1) assms(2) by (auto simp: k1_def)
  moreover have "take (GetFreeMemorySizeArrayTwo rb) (drop k1 bs) = drop k1 bs"
    using parts(1) assms(2) by (simp add: k1_def)
  ultimately show ?thesis by (auto simp: GetWritingBuffers_def k1_def)
qed

lemma free_parts_cases:
  assumes "ring_inv rb" "0 < rb_size rb"
  obtains (straight) "wPos rb = rPos rb + rb_size rb" "wPos rb < Capacity rb"
      "GetFreeMemorySizeArrayOne rb = Capacity rb - wPos rb" "GetFreeMemorySizeArrayTwo rb = rPos rb"
    | (wrapped) "wPos rb + Capacity rb = rPos rb + rb_size rb"
      "GetFreeMemorySizeArrayOne rb = Capacity rb - rb_size rb" "GetFreeMemorySizeArrayTwo rb = 0"
proof (cases "rPos rb + rb_size rb < Capacity rb")
  case True
  then show thesis
    using ring_invD [OF assms(1)] assms(2)
    by (intro straight) (auto simp: GetFreeMemorySizeArrayOne_def GetFreeMemorySizeArrayTwo_def min_def)
next
  case False
  then have "wPos rb = rPos rb + rb_size rb - Capacity rb"
    using ring_invD [OF assms(1)] by (simp add: mod_if)
  then show thesis
    using False ring_invD [OF assms(1)] assms(2)
    by (intro wrapped) (auto simp: GetFreeMemorySizeArrayOne_def GetFreeMemorySizeArrayTwo_def min_def)
qed

lemma put_nth:
  assumes "ring_inv rb" "length bs \<le> free rb" "i < rb_size rb + length bs"
  shows "fill_buffers (GetWritingBuffers rb) bs (rb_buffer rb) ! ((rPos rb + i) mod Capacity rb) =
    (if i < rb_size rb then rb_buffer rb ! ((rPos rb + i) mod Capacity rb) else bs ! (i - rb_size rb))"
proof -
  let ?k1 = "GetFreeMemorySizeArrayOne rb" and ?k2 = "GetFreeMemorySizeArrayTwo rb"
  let ?c = "Capacity rb" and ?w = "wPos rb" and ?idx = "(rPos rb + i) mod Capacity rb"
  note inv = ring_invD [OF assms(1)] and parts = free_parts [OF assms(1)]
  have lens: "?w + length (take ?k1 bs) \<le> ?c" "length (drop ?k1 bs) \<le> ?c" "length (drop ?k1 bs) \<le> ?k2"
    using parts inv assms(2) by auto
  have idx: "?idx < ?c" using inv(1) by simp
  have mem: "fill_buffers (GetWritingBuffers rb) bs (rb_buffer rb) ! ?idx =
      (if ?idx < length bs - ?k1 then bs ! (?k1 + ?idx)
       else if ?w \<le> ?idx \<and> ?idx < ?w + min ?k1 (length bs) then bs ! (?idx - ?w)
       else rb_buffer rb ! ?idx)"
    unfolding fill_writing_buffers [OF assms(1,2)]
    using lens idx by (auto simp: nth_overwrite Capacity_def min_def)
  have c: "i < ?c" using assms(2,3) inv(2) by (simp add: free_def)
  show ?thesis
  proof (cases "i < rb_size rb")
    case True
    then have "0 < rb_size rb" by simp
    with assms(1) have kept: "\<not> ?idx < length bs - ?k1 \<and> \<not> (?w \<le> ?idx \<and> ?idx < ?w + min ?k1 (length bs))"
    proof (cases rule: free_parts_cases)
      case straight
      then have "?idx = rPos rb + i" using True by simp
      then show ?thesis using straight True lens(3) by auto
    next
      case wrapped
      then show ?thesis
        using True lens(3) wrap_index [OF inv(3) c] inv(2,3) by auto
    qed
    show ?thesis by (simp only: mem kept True if_True if_False simp_thms)
  next
    case False
    then obtain j where j: "i = rb_size rb + j" "j < length bs"
      using assms(3) by (metis add_less_cancel_left le_Suc_ex not_less)
    have "?idx = (?w + j) mod ?c" using inv(4) j(1) by (simp add: mod_add_left_eq add.assoc)
    then have i: "?idx = (if ?w + j < ?c then ?w + j else ?w + j - ?c)"
      using wrap_index [OF inv(5), of j] c j by simp
    show ?thesis
    proof (cases "j < ?k1")
      case True
      then have "?idx = ?w + j" "\<not> ?w + j < length bs - ?k1"
        using i parts assms(2) by auto
      then show ?thesis using mem True j by simp
    next
      case False
      then have "?w + ?k1 = ?c" using parts j assms(2) by auto
      then have "?idx = j - ?k1" using i False by auto
      then have "?idx < length bs - ?k1" "?k1 + ?idx = j" using False j(2) by linarith+
      moreover have "\<not> i < rb_size rb" "i - rb_size rb = j" using j(1) by simp_all
      ultimately show ?thesis by (simp only: mem if_True if_False)
    qed
  qed
qed

lemma put_bytes_contents:
  assumes "ring_inv rb" "length bs \<le> free rb"
  obtains rb' where "put_bytes bs rb = Done rb'" "ring_inv rb'" "contents rb' = contents rb @ bs"
    "rb_size rb' = rb_size rb + length bs" "Capacity rb' = Capacity rb"
proof -
  let ?k1 = "GetFreeMemorySizeArrayOne rb"
  let ?mem = "fill_buffers (GetWritingBuffers rb) bs (rb_buffer rb)"
  let ?rb = "rb\<lparr>rb_buffer := ?mem, wPos := (wPos rb + length bs) mod Capacity rb,
                rb_size := rb_size rb + length bs\<rparr>"
  note inv = ring_invD [OF assms(1)] and parts = free_parts [OF assms(1)]
  have mem: "?mem = overwrite 0 (drop ?k1 bs) (overwrite (wPos rb) (take ?k1 bs) (rb_buffer rb))"
    by (rule fill_writing_buffers [OF assms])
  have lens: "wPos rb + length (take ?k1 bs) \<le> length (rb_buffer rb)"
    "0 + length (drop ?k1 bs) \<le> length (overwrite (wPos rb) (take ?k1 bs) (rb_buffer rb))"
    using parts inv assms(2) by (auto simp: Capacity_def)
  have cap: "Capacity ?rb = Capacity rb" "length ?mem = Capacity rb"
    using lens unfolding mem by (simp_all add: Capacity_def)
  have "put_bytes bs rb = Done ?rb"
    using assms(2) inv cap by (simp add: put_bytes_def AdvanceWPos_def SizeCheck_def Capacity_def free_def)
  moreover have "ring_inv ?rb"
    using assms inv unfolding ring_inv_def cap
    by (simp add: free_def mod_add_left_eq add.assoc)
  moreover have "contents ?rb = contents rb @ bs"
  proof (rule nth_equalityI)
    fix i
    assume i: "i < length (contents ?rb)"
    have "?mem ! ((rPos rb + i) mod Capacity rb) =
        (if i < rb_size rb then rb_buffer rb ! ((rPos rb + i) mod Capacity rb) else bs ! (i - rb_size rb))"
      using i put_nth [OF assms, of i] by simp
    then show "contents ?rb ! i = (contents rb @ bs) ! i"
      using i by (simp add: nth_contents nth_append cap)
  qed simp
  ultimately show thesis using that [of ?rb] cap by simp
qed

lemma Reserve_contents:
  assumes "ring_inv rb"
  shows "ring_inv (Reserve n rb)" "contents (Reserve n rb) = contents rb"
    "rb_size (Reserve n rb) = rb_size rb" "Capacity (Reserve n rb) = max n (Capacity rb)"
proof -
  note inv = ring_invD [OF assms]
  let ?rb = "Reserve n rb"
  have "ring_inv ?rb \<and> contents ?rb = contents rb \<and> rb_size ?rb = rb_size rb \<and>
      Capacity ?rb = max n (Capacity rb)"
  proof (cases "n \<le> Capacity rb")
    case True
    then show ?thesis using assms by (simp add: Reserve_def)
  next
    case False
    then have r: "?rb = rb\<lparr>rb_buffer := contents rb @ replicate (n - rb_size rb) 0,
        rPos := 0, wPos := rb_size rb\<rparr>"
      using assms by (simp add: Reserve_def Let_def Peek_contents)
    have cap: "Capacity ?rb = n" "rb_size ?rb = rb_size rb"
      using False inv(2) by (simp_all add: r Capacity_def)
    moreover have "contents ?rb = contents rb"
      using False inv(2)
      by (intro nth_equalityI) (auto simp: nth_contents cap nth_append r Capacity_def)
    moreover have "ring_inv ?rb"
      using False inv(2) unfolding ring_inv_def cap by (simp add: r)
    ultimately show ?thesis using False by simp
  qed
  then show "ring_inv ?rb" "contents ?rb = contents rb" "rb_size ?rb = rb_size rb"
    "Capacity ?rb = max n (Capacity rb)" by simp_all
qed

section \<open>The interface of a byte queue\<close>

text \<open>
  What a connection relies on: bytes come out in the order they went in, as long as no more
  are written than fit. A client that only uses the operations sees a queue.
\<close>

datatype queue_op = Put "byte list" | Get nat | Enlarge nat

locale byte_queue =
  fixes inv :: "'s \<Rightarrow> bool" and queue :: "'s \<Rightarrow> byte list" and room :: "'s \<Rightarrow> nat"
    and put :: "byte list \<Rightarrow> 's \<Rightarrow> 's outcome" and get :: "nat \<Rightarrow> 's \<Rightarrow> byte list option \<times> 's outcome"
    and enlarge :: "nat \<Rightarrow> 's \<Rightarrow> 's"
  assumes put: "inv s \<Longrightarrow> length bs \<le> room s \<Longrightarrow>
      \<exists>s'. put bs s = Done s' \<and> inv s' \<and> queue s' = queue s @ bs"
    and get: "inv s \<Longrightarrow> n \<le> length (queue s) \<Longrightarrow>
      \<exists>s'. get n s = (Some (take n (queue s)), Done s') \<and> inv s' \<and> queue s' = drop n (queue s)"
    and get_too_much: "inv s \<Longrightarrow> length (queue s) < n \<Longrightarrow> get n s = (None, Done s)"
    and enlarge: "inv s \<Longrightarrow> inv (enlarge n s) \<and> queue (enlarge n s) = queue s"
begin

text \<open>A run of operations; it is stuck (\<open>None\<close>) where more is written than fits.\<close>

fun run :: "queue_op list \<Rightarrow> 's \<Rightarrow> (byte list \<times> 's) option" where
  "run [] s = Some ([], s)"
| "run (Put bs # ops) s =
     (if length bs \<le> room s
      then case put bs s of Done s' \<Rightarrow> run ops s' | _ \<Rightarrow> None
      else None)"
| "run (Get n # ops) s =
     (case get n s of
        (out, Done s') \<Rightarrow> map_option (\<lambda>(bs, t). ((case out of None \<Rightarrow> [] | Some b \<Rightarrow> b) @ bs, t)) (run ops s')
      | _ \<Rightarrow> None)"
| "run (Enlarge n # ops) s = run ops (enlarge n s)"

fun written :: "queue_op list \<Rightarrow> byte list" where
  "written [] = []"
| "written (Put bs # ops) = bs @ written ops"
| "written (_ # ops) = written ops"

lemma first_in_first_out:
  assumes "inv s" "run ops s = Some (out, s')"
  shows "inv s' \<and> queue s @ written ops = out @ queue s'"
  using assms
proof (induction ops arbitrary: s out)
  case (Cons op ops)
  show ?case
  proof (cases op)
    case (Put bs)
    then have fits: "length bs \<le> room s" using Cons.prems(2) by (auto split: if_splits)
    obtain t where t: "put bs s = Done t" "inv t" "queue t = queue s @ bs"
      using put [OF Cons.prems(1) fits] by blast
    then show ?thesis using Cons.IH [OF t(2)] Cons.prems(2) fits Put by simp
  next
    case (Get n)
    show ?thesis
    proof (cases "n \<le> length (queue s)")
      case True
      obtain t where t: "get n s = (Some (take n (queue s)), Done t)" "inv t" "queue t = drop n (queue s)"
        using get [OF Cons.prems(1) True] by blast
      then obtain bs where "run ops t = Some (bs, s')" "out = take n (queue s) @ bs"
        using Cons.prems(2) Get by auto
      then show ?thesis using Cons.IH [OF t(2)] t(3) Get
        by (metis append.assoc append_take_drop_id written.simps(3))
    next
      case False
      then have "get n s = (None, Done s)" using get_too_much [OF Cons.prems(1)] by simp
      then show ?thesis using Cons Get by auto
    qed
  next
    case (Enlarge n)
    then show ?thesis using Cons.IH [of "enlarge n s"] Cons.prems enlarge [OF Cons.prems(1)] by auto
  qed
qed simp

end

interpretation ring: byte_queue ring_inv contents free put_bytes Read Reserve
proof
  show "\<exists>s'. put_bytes bs s = Done s' \<and> ring_inv s' \<and> contents s' = contents s @ bs"
    if "ring_inv s" "length bs \<le> free s" for s bs
    using put_bytes_contents [OF that] by metis
  show "\<exists>s'. Read n s = (Some (take n (contents s)), Done s') \<and> ring_inv s' \<and>
      contents s' = drop n (contents s)" if "ring_inv s" "n \<le> length (contents s)" for s n
    using Read_contents [of s n] that by (metis length_contents)
  show "Read n s = (None, Done s)" if "ring_inv s" "length (contents s) < n" for s n
    using that by (simp add: Read_def Peek_contents)
  show "ring_inv (Reserve n s) \<and> contents (Reserve n s) = contents s" if "ring_inv s" for s n
    using Reserve_contents [OF that] by simp
qed

text \<open>
  Claim C7. The ring buffer is a byte queue: whatever sequence of writes, reads and
  enlargements is applied to it, wrapped around the end of the storage or not, it stays
  consistent, and what was in it followed by what is written is what is read followed by
  what remains in it.
\<close>

theorem ring_buffer_is_fifo:
  assumes "ring_inv rb" "ring.run ops rb = Some (out, rb')"
  shows "ring_inv rb' \<and> contents rb @ ring.written ops = out @ contents rb'"
  by (rule ring.first_in_first_out [OF assms])

definition example_queue_ops :: "queue_op list" where
  "example_queue_ops = [Put [1, 2, 3], Get 2, Put [4, 5, 6], Get 9, Enlarge 8, Put [7], Get 4]"

lemma example_queue_steps:
  "put_bytes [1, 2, 3] (new_ring_buffer 4) = Done \<lparr>rb_buffer = [1, 2, 3, 0], rb_size = 3, wPos = 3, rPos = 0\<rparr>"
  "free (new_ring_buffer 4) = 4"
  "Read 2 \<lparr>rb_buffer = [1, 2, 3, 0], rb_size = 3, wPos = 3, rPos = 0\<rparr> =
     (Some [1, 2], Done \<lparr>rb_buffer = [1, 2, 3, 0], rb_size = 1, wPos = 3, rPos = 2\<rparr>)"
  "put_bytes [4, 5, 6] \<lparr>rb_buffer = [1, 2, 3, 0], rb_size = 1, wPos = 3, rPos = 2\<rparr> =
     Done \<lparr>rb_buffer = [5, 6, 3, 4], rb_size = 4, wPos = 2, rPos = 2\<rparr>"
  "free \<lparr>rb_buffer = [1, 2, 3, 0], rb_size = 1, wPos = 3, rPos = 2\<rparr> = 3"
  "Read 9 \<lparr>rb_buffer = [5, 6, 3, 4], rb_size = 4, wPos = 2, rPos = 2\<rparr> =
     (None, Done \<lparr>rb_buffer = [5, 6, 3, 4], rb_size = 4, wPos = 2, rPos = 2\<rparr>)"
  "Reserve 8 \<lparr>rb_buffer = [5, 6, 3, 4], rb_size = 4, wPos = 2, rPos = 2\<rparr> =
     \<lparr>rb_buffer = [3, 4, 5, 6, 0, 0, 0, 0], rb_size = 4, wPos = 4, rPos = 0\<rparr>"
  "put_bytes [7] \<lparr>rb_buffer = [3, 4, 5, 6, 0, 0, 0, 0], rb_size = 4, wPos = 4, rPos = 0\<rparr> =
     Done \<lparr>rb_buffer = [3, 4, 5, 6, 7, 0, 0, 0], rb_size = 5, wPos = 5, rPos = 0\<rparr>"
  "free \<lparr>rb_buffer = [3, 4, 5, 6, 0, 0, 0, 0], rb_size = 4, wPos = 4, rPos = 0\<rparr> = 4"
  "Read 4 \<lparr>rb_buffer = [3, 4, 5, 6, 7, 0, 0, 0], rb_size = 5, wPos = 5, rPos = 0\<rparr> =
     (Some [3, 4, 5, 6], Done \<lparr>rb_buffer = [3, 4, 5, 6, 7, 0, 0, 0], rb_size = 1, wPos = 5, rPos = 4\<rparr>)"
  by code_simp+

lemma example_queue_run:
  "ring.run example_queue_ops (new_ring_buffer 4) =
     Some ([1, 2, 3, 4, 5, 6], \<lparr>rb_buffer = [3, 4, 5, 6, 7, 0, 0, 0], rb_size = 1, wPos = 5, rPos = 4\<rparr>)"
  by (simp add: example_queue_ops_def example_queue_steps del: One_nat_def)

theorem ring_buffer_is_fifo_witness:
  "ring_inv \<lparr>rb_buffer = [3, 4, 5, 6, 7, 0, 0, 0], rb_size = 1, wPos = 5, rPos = 4\<rparr> \<and>
   contents (new_ring_buffer 4) @ ring.written example_queue_ops =
     [1, 2, 3, 4, 5, 6] @ contents \<lparr>rb_buffer = [3, 4, 5, 6, 7, 0, 0, 0], rb_size = 1, wPos = 5, rPos = 4\<rparr>"
  by (rule ring_buffer_is_fifo [OF new_ring_buffer_inv(1) example_queue_run]) simp

end
