(* ===== verification/VAsioPeer.thy ===== *)
theory VAsioPeer
  imports RingBuffer
begin

text \<open>
  A connection to another participant (\<open>core/vasio/VAsioPeer.cpp\<close>): how a byte stream is
  cut into messages on the receiving side, and how messages are queued, aggregated and
  written on the sending side. The socket is the environment: it reports how many bytes it
  has read or written. Deserialization and the listener of the messages are the parameter
  \<open>on_data\<close>. Metrics, logging and the sending mutex are not modelled.
\<close>

section \<open>State\<close>

datatype data_reaction = Accept | AcceptAndShutdown | Throw

datatype aggregation_kind = UserDataMessage | FlushAggregationMessage | OtherMessage

record peer =
  msgBuffer :: ring_buffer
  currentMsgSize :: nat
  isShuttingDown :: bool
  useAggregation :: bool
  aggregatedMessages :: "byte list"
  sendingQueue :: "byte list list"
  sending :: bool
  currentSendingBuffer :: "byte list"
  initialTimerStarted :: bool
  dispatchedWrites :: nat
  readPending :: bool
  socketOpen :: bool
  received :: "byte list list"
  written :: "byte list"

definition aggregationBufferThreshold :: nat where
  "aggregationBufferThreshold = 100000"

definition new_peer :: peer where
  "new_peer =
     \<lparr>msgBuffer = new_ring_buffer 4096, currentMsgSize = 0, isShuttingDown = False,
      useAggregation = False, aggregatedMessages = [], sendingQueue = [], sending = False,
      currentSendingBuffer = [], initialTimerStarted = False, dispatchedWrites = 0,
      readPending = False, socketOpen = True, received = [], written = []\<rparr>"

definition Shutdown :: "peer \<Rightarrow> peer" where
  "Shutdown p = p\<lparr>isShuttingDown := True, sendingQueue := [], socketOpen := False\<rparr>"

section \<open>Sending\<close>

text \<open>
  \<open>SerializedMessage::ReleaseStorage\<close>: the size of the message replaces the placeholder
  that the network headers start with.
\<close>

definition ReleaseStorage :: "byte list \<Rightarrow> byte list result" where
  "ReleaseStorage buffer =
     (if length buffer > 2 ^ 32 - 1 then Inl SilKitError
      else Inr (le_bytes 4 (length buffer) @ drop 4 buffer))"

definition SendSilKitMsgInternal :: "byte list \<Rightarrow> peer \<Rightarrow> peer" where
  "SendSilKitMsgInternal blob p =
     (if isShuttingDown p then p
      else p\<lparr>sendingQueue := sendingQueue p @ [blob], dispatchedWrites := Suc (dispatchedWrites p)\<rparr>)"

definition Flush :: "peer \<Rightarrow> peer" where
  "Flush p = SendSilKitMsgInternal (aggregatedMessages p) (p\<lparr>aggregatedMessages := []\<rparr>)"

definition Aggregate :: "byte list \<Rightarrow> peer \<Rightarrow> peer" where
  "Aggregate blob p =
     (let p1 = p\<lparr>initialTimerStarted := True,
                 aggregatedMessages := aggregatedMessages p @ blob\<rparr>
      in if length (aggregatedMessages p1) > aggregationBufferThreshold then Flush p1 else p1)"

definition SendSilKitMsg :: "aggregation_kind \<Rightarrow> byte list \<Rightarrow> peer \<Rightarrow> peer" where
  "SendSilKitMsg kind blob p =
     (if useAggregation p \<and> kind = UserDataMessage then Aggregate blob p
      else if useAggregation p \<and> kind = FlushAggregationMessage then Flush (Aggregate blob p)
      else SendSilKitMsgInternal blob p)"

definition StartAsyncWrite :: "peer \<Rightarrow> peer" where
  "StartAsyncWrite p =
     (if sending p then p
      else case sendingQueue p of
             [] \<Rightarrow> p
           | blob # rest \<Rightarrow> p\<lparr>sending := True, currentSendingBuffer := blob, sendingQueue := rest\<rparr>)"

text \<open>The socket has written the first \<open>n\<close> bytes of the current buffer.\<close>

definition OnAsyncWriteSomeDone :: "nat \<Rightarrow> peer \<Rightarrow> peer" where
  "OnAsyncWriteSomeDone n p =
     (let p1 = p\<lparr>written := written p @ take n (currentSendingBuffer p),
                 currentSendingBuffer := drop n (currentSendingBuffer p)\<rparr>
      in if n < length (currentSendingBuffer p) then p1
         else StartAsyncWrite (p1\<lparr>sending := False\<rparr>))"

definition OnTimerExpired :: "peer \<Rightarrow> peer" where
  "OnTimerExpired p = (if aggregatedMessages p \<noteq> [] then Flush p else p)"

definition EnableAggregation :: "peer \<Rightarrow> peer" where
  "EnableAggregation p = p\<lparr>useAggregation := True\<rparr>"

section \<open>Receiving\<close>

definition ReadSomeAsync :: "peer \<Rightarrow> peer outcome" where
  "ReadSomeAsync p =
     (if Capacity (msgBuffer p) - rb_size (msgBuffer p) > 0
      then Done (p\<lparr>readPending := True\<rparr>)
      else Raised AssertionError p)"

definition StartAsyncRead :: "peer \<Rightarrow> peer outcome" where
  "StartAsyncRead p = ReadSomeAsync (p\<lparr>currentMsgSize := 0\<rparr>)"

definition max_message_size :: nat where
  "max_message_size = 1024 * 1024 * 1024"

text \<open>The size of the next message, if it was not determined before.\<close>

definition next_size :: "peer \<Rightarrow> nat option" where
  "next_size p =
     (if currentMsgSize p = 0 then map_option le_nat (Peek 4 (msgBuffer p))
      else Some (currentMsgSize p))"

function DispatchBuffer :: "(byte list \<Rightarrow> data_reaction) \<Rightarrow> peer \<Rightarrow> peer outcome" where
  "DispatchBuffer on_data p =
     (if currentMsgSize p = 0 \<and> isShuttingDown p then Done p
      else if currentMsgSize p = 0 \<and> rb_size (msgBuffer p) < 4 then ReadSomeAsync p
      else
        case next_size p of
          None \<Rightarrow> Raised SilKitError p
        | Some n \<Rightarrow>
            let p1 = p\<lparr>currentMsgSize := n\<rparr>
            in if n = 0 \<or> n > max_message_size then Done (Shutdown p1)
               else if rb_size (msgBuffer p1) < n
               then ReadSomeAsync (if Capacity (msgBuffer p1) < n
                                   then p1\<lparr>msgBuffer := Reserve n (msgBuffer p1)\<rparr> else p1)
               else
                 case Read n (msgBuffer p1) of
                   (Some currentMsg, Done rb) \<Rightarrow>
                     (let p2 = p1\<lparr>msgBuffer := rb\<rparr>
                      in case on_data currentMsg of
                           Throw \<Rightarrow> Raised UserException p2
                         | Accept \<Rightarrow>
                             DispatchBuffer on_data
                               (p2\<lparr>received := received p2 @ [currentMsg], currentMsgSize := 0\<rparr>)
                         | AcceptAndShutdown \<Rightarrow>
                             DispatchBuffer on_data
                               (Shutdown p2\<lparr>received := received p2 @ [currentMsg], currentMsgSize := 0\<rparr>))
                 | _ \<Rightarrow> Raised SilKitError p1)"
  by pat_completeness auto

lemma Read_smaller: "Read n rb = (Some bs, Done rb') \<Longrightarrow> 0 < n \<Longrightarrow> rb_size rb' < rb_size rb"
  by (auto simp: Read_def Peek_def AdvanceRPos_def SizeCheck_def split: option.splits if_splits)

termination DispatchBuffer
  by (relation "measure (\<lambda>(on_data, p). rb_size (msgBuffer p))")
    (auto simp: Shutdown_def dest: Read_smaller [OF sym])

text \<open>The socket has read some bytes into the writing buffers.\<close>

definition OnAsyncReadSomeDone :: "(byte list \<Rightarrow> data_reaction) \<Rightarrow> byte list \<Rightarrow> peer \<Rightarrow> peer outcome" where
  "OnAsyncReadSomeDone on_data bs p =
     (case put_bytes bs (msgBuffer p) of
        Done rb \<Rightarrow> DispatchBuffer on_data (p\<lparr>msgBuffer := rb, readPending := False\<rparr>)
      | Raised e rb \<Rightarrow> Raised e (p\<lparr>msgBuffer := rb, readPending := False\<rparr>)
      | OutOfFuel \<Rightarrow> OutOfFuel)"

section \<open>Receiving whatever the chunks\<close>

text \<open>A message as \<open>ReleaseStorage\<close> produces it: it starts with its own size.\<close>

definition valid_frame :: "byte list \<Rightarrow> bool" where
  "valid_frame m \<longleftrightarrow>
     4 \<le> length m \<and> length m \<le> max_message_size \<and> take 4 m = le_bytes 4 (length m)"

lemma ReleaseStorage_frame:
  assumes "4 \<le> length buffer" "length buffer \<le> max_message_size"
  shows "\<exists>m. ReleaseStorage buffer = Inr m \<and> valid_frame m \<and> drop 4 m = drop 4 buffer"
  using assms by (auto simp: ReleaseStorage_def valid_frame_def max_message_size_def)

lemma frame_size: "valid_frame m \<Longrightarrow> le_nat (take 4 m) = length m"
  by (simp add: valid_frame_def max_message_size_def le_nat_le_bytes_id)

definition receiving :: "peer \<Rightarrow> bool" where
  "receiving p \<longleftrightarrow>
     ring_inv (msgBuffer p) \<and> 4 \<le> Capacity (msgBuffer p) \<and> \<not> isShuttingDown p \<and>
     (currentMsgSize p = 0 \<or>
        4 \<le> rb_size (msgBuffer p) \<and> currentMsgSize p = le_nat (take 4 (contents (msgBuffer p))))"

declare DispatchBuffer.simps [simp del]

text \<open>What is left after all complete messages have been taken out.\<close>

definition cut :: "byte list list \<Rightarrow> byte list \<Rightarrow> byte list list \<Rightarrow> peer \<Rightarrow> peer \<Rightarrow> bool" where
  "cut ms tail ms' p p' \<longleftrightarrow>
     receiving p' \<and> readPending p' \<and> 0 < free (msgBuffer p') \<and>
     (\<exists>front. ms = front @ ms' \<and> received p' = received p @ front) \<and>
     contents (msgBuffer p') @ tail = concat ms' \<and>
     (ms' \<noteq> [] \<longrightarrow> rb_size (msgBuffer p') < length (hd ms'))"

lemma DispatchBuffer_cuts:
  assumes "receiving p" "\<forall>m\<in>set ms. valid_frame m \<and> on_data m = Accept"
    "contents (msgBuffer p) @ tail = concat ms"
  shows "\<exists>p' ms'. DispatchBuffer on_data p = Done p' \<and> cut ms tail ms' p p'"
  using assms
proof (induction ms arbitrary: p)
  case Nil
  then have empty: "rb_size (msgBuffer p) = 0" using length_contents [of "msgBuffer p"] by simp
  then have zero: "currentMsgSize p = 0" using Nil.prems(1) by (auto simp: receiving_def)
  have "DispatchBuffer on_data p = Done (p\<lparr>readPending := True\<rparr>)"
    using Nil.prems empty zero
    by (simp add: DispatchBuffer.simps receiving_def ReadSomeAsync_def)
  moreover have "cut [] tail [] p (p\<lparr>readPending := True\<rparr>)"
    using Nil.prems empty by (simp add: cut_def receiving_def free_def)
  ultimately show ?case by blast
next
  case (Cons m ms)
  let ?b = "msgBuffer p"
  have inv: "ring_inv ?b" "4 \<le> Capacity ?b" "\<not> isShuttingDown p" using Cons.prems(1) by (auto simp: receiving_def)
  have m: "valid_frame m" "on_data m = Accept" using Cons.prems(2) by auto
  have stream: "contents ?b @ tail = m @ concat ms" using Cons.prems(3) by simp
  show ?case
  proof (cases "rb_size ?b < 4")
    case True
    then have zero: "currentMsgSize p = 0" using Cons.prems(1) by (auto simp: receiving_def)
    have "DispatchBuffer on_data p = Done (p\<lparr>readPending := True\<rparr>)"
      using True zero inv by (simp add: DispatchBuffer.simps ReadSomeAsync_def)
    moreover have "cut (m # ms) tail (m # ms) p (p\<lparr>readPending := True\<rparr>)"
      using True Cons.prems inv m(1) by (simp add: cut_def receiving_def free_def valid_frame_def)
    ultimately show ?thesis by blast
  next
    case four: False
    have "take 4 (contents ?b) = take 4 (contents ?b @ tail)" using four by simp
    also have "\<dots> = take 4 m" using stream m(1) by (simp add: valid_frame_def)
    finally have "take 4 (contents ?b) = take 4 m" .
    then have size: "le_nat (take 4 (contents ?b)) = length m" using frame_size [OF m(1)] by simp
    have next_size: "next_size p = Some (length m)"
      using Cons.prems(1) four size inv(1) by (auto simp: next_size_def receiving_def Peek_contents)
    have len: "length m \<noteq> 0" "length m \<le> max_message_size" using m(1) by (auto simp: valid_frame_def)
    let ?p = "p\<lparr>currentMsgSize := length m\<rparr>"
    show ?thesis
    proof (cases "rb_size ?b < length m")
      case True
      let ?r = "Reserve (length m) ?b"
      let ?q = "?p\<lparr>msgBuffer := if Capacity ?b < length m then ?r else ?b\<rparr>"
      have res: "ring_inv ?r" "contents ?r = contents ?b" "rb_size ?r = rb_size ?b"
        "Capacity ?r = max (length m) (Capacity ?b)"
        using Reserve_contents [OF inv(1)] by auto
      have q: "ring_inv (msgBuffer ?q)" "contents (msgBuffer ?q) = contents ?b"
        "rb_size (msgBuffer ?q) = rb_size ?b" "rb_size (msgBuffer ?q) < Capacity (msgBuffer ?q)"
        "4 \<le> Capacity (msgBuffer ?q)"
        using res inv True by auto
      have "DispatchBuffer on_data p = ReadSomeAsync ?q"
        using True inv four next_size len by (simp add: DispatchBuffer.simps Let_def)
      also have "\<dots> = Done (?q\<lparr>readPending := True\<rparr>)" using q(4) by (simp add: ReadSomeAsync_def)
      finally have "DispatchBuffer on_data p = Done (?q\<lparr>readPending := True\<rparr>)" .
      moreover have "cut (m # ms) tail (m # ms) p (?q\<lparr>readPending := True\<rparr>)"
        using True q four inv(3) stream size by (simp add: cut_def receiving_def free_def)
      ultimately show ?thesis by blast
    next
      case False
      obtain rb where rb: "Read (length m) ?b = (Some (take (length m) (contents ?b)), Done rb)"
        "ring_inv rb" "contents rb = drop (length m) (contents ?b)" "Capacity rb = Capacity ?b"
        using Read_contents [OF inv(1), of "length m"] False by auto
      have split: "take (length m) (contents ?b) = m" "drop (length m) (contents ?b) @ tail = concat ms"
        using arg_cong [OF stream, of "take (length m)"] arg_cong [OF stream, of "drop (length m)"] False
        by simp_all
      let ?q = "p\<lparr>msgBuffer := rb, received := received p @ [m], currentMsgSize := 0\<rparr>"
      have step: "DispatchBuffer on_data p = DispatchBuffer on_data ?q"
        using False inv four next_size len rb(1) split(1) m(2)
        by (simp add: DispatchBuffer.simps [of on_data p] Let_def)
      have "receiving ?q" using rb inv by (simp add: receiving_def)
      then obtain p' ms' where p': "DispatchBuffer on_data ?q = Done p'" "cut ms tail ms' ?q p'"
        using Cons.IH [of ?q] Cons.prems(2) rb(3) split(2) by auto
      from p'(2) obtain front where front: "ms = front @ ms'" "received p' = received ?q @ front"
        by (auto simp: cut_def)
      then have "m # ms = (m # front) @ ms' \<and> received p' = received p @ m # front" by simp
      then have "cut (m # ms) tail ms' p p'" using p'(2) unfolding cut_def by blast
      then show ?thesis using step p'(1) by auto
    qed
  qed
qed

section \<open>Reads on the socket\<close>

text \<open>
  Successive reads of at most the given numbers of bytes from a stream; each is limited by
  the writing buffers and by what the stream holds.
\<close>

fun socket_reads ::
    "(byte list \<Rightarrow> data_reaction) \<Rightarrow> nat list \<Rightarrow> byte list \<Rightarrow> peer \<Rightarrow> (byte list \<times> peer) option" where
  "socket_reads on_data [] stream p = Some (stream, p)"
| "socket_reads on_data (k # ks) stream p =
     (let n = min k (buffers_size (GetWritingBuffers (msgBuffer p)))
      in case OnAsyncReadSomeDone on_data (take n stream) p of
           Done p' \<Rightarrow> socket_reads on_data ks (drop n stream) p'
         | _ \<Rightarrow> None)"

lemma socket_reads_cut:
  assumes "receiving p" "\<forall>m\<in>set ms. valid_frame m \<and> on_data m = Accept"
    "contents (msgBuffer p) @ stream @ tail = concat ms"
    "ms \<noteq> [] \<longrightarrow> rb_size (msgBuffer p) < length (hd ms)"
  shows "\<exists>rest p' front ms'. socket_reads on_data ks stream p = Some (rest, p') \<and> ms = front @ ms' \<and>
    received p' = received p @ front \<and> contents (msgBuffer p') @ rest @ tail = concat ms' \<and>
    (ms' \<noteq> [] \<longrightarrow> rb_size (msgBuffer p') < length (hd ms'))"
  using assms
proof (induction ks arbitrary: p stream ms)
  case Nil
  then show ?case by auto
next
  case (Cons k ks)
  let ?b = "msgBuffer p"
  let ?n = "min k (buffers_size (GetWritingBuffers ?b))"
  have inv: "ring_inv ?b" using Cons.prems(1) by (simp add: receiving_def)
  have "length (take ?n stream) \<le> free ?b" using buffers_size_free [OF inv] by simp
  from put_bytes_contents [OF inv this] obtain rb where
    rb: "put_bytes (take ?n stream) ?b = Done rb" "ring_inv rb" "contents rb = contents ?b @ take ?n stream"
      "rb_size rb = rb_size ?b + length (take ?n stream)" "Capacity rb = Capacity ?b" by blast
  let ?p = "p\<lparr>msgBuffer := rb, readPending := False\<rparr>"
  have "receiving ?p"
    using Cons.prems(1) rb by (auto simp: receiving_def)
  moreover have "contents (msgBuffer ?p) @ (drop ?n stream @ tail) = concat ms"
    using Cons.prems(3) rb(3) by (simp flip: append_assoc) (simp add: append_assoc)
  ultimately obtain p1 ms1 where p1: "DispatchBuffer on_data ?p = Done p1"
    "cut ms (drop ?n stream @ tail) ms1 ?p p1"
    using DispatchBuffer_cuts [of ?p ms on_data "drop ?n stream @ tail"] Cons.prems(2) by blast
  then obtain front1 where f1: "ms = front1 @ ms1" "received p1 = received p @ front1"
    by (auto simp: cut_def)
  have "\<forall>m\<in>set ms1. valid_frame m \<and> on_data m = Accept" using Cons.prems(2) f1(1) by simp
  with p1(2) Cons.IH [of p1 ms1 "drop ?n stream"] obtain rest p' front ms' where
    "socket_reads on_data ks (drop ?n stream) p1 = Some (rest, p')" "ms1 = front @ ms'"
    "received p' = received p1 @ front" "contents (msgBuffer p') @ rest @ tail = concat ms'"
    "ms' \<noteq> [] \<longrightarrow> rb_size (msgBuffer p') < length (hd ms')"
    by (auto simp: cut_def)
  moreover have "OnAsyncReadSomeDone on_data (take ?n stream) p = Done p1"
    using rb(1) p1(1) by (simp add: OnAsyncReadSomeDone_def)
  ultimately show ?case
    using f1 by (auto simp: Let_def intro!: exI [of _ "front1 @ front"])
qed

text \<open>Reading from a new connection.\<close>

lemma socket_reads_new_peer:
  assumes "\<forall>m\<in>set ms. valid_frame m \<and> on_data m = Accept" "stream @ tail = concat ms"
  shows "\<exists>rest p n. socket_reads on_data ks stream new_peer = Some (rest, p) \<and> n \<le> length ms \<and>
    received p = take n ms \<and> contents (msgBuffer p) @ rest @ tail = concat (drop n ms) \<and>
    (n < length ms \<longrightarrow> length (contents (msgBuffer p)) < length (ms ! n)) \<and>
    (rest = [] \<and> tail = [] \<longrightarrow> received p = ms)"
proof -
  have start: "receiving new_peer" "contents (msgBuffer new_peer) = []" "rb_size (msgBuffer new_peer) = 0"
    "received new_peer = []"
    by (simp_all add: receiving_def new_peer_def new_ring_buffer_inv)
  have bytes: "contents (msgBuffer new_peer) @ stream @ tail = concat ms" using start(2) assms(2) by simp
  have first: "ms \<noteq> [] \<longrightarrow> rb_size (msgBuffer new_peer) < length (hd ms)"
    using assms(1) start(3) by (cases ms) (auto simp: valid_frame_def)
  obtain rest p front ms' where r: "socket_reads on_data ks stream new_peer = Some (rest, p)"
    "ms = front @ ms'" "received p = received new_peer @ front"
    "contents (msgBuffer p) @ rest @ tail = concat ms'"
    "ms' \<noteq> [] \<longrightarrow> rb_size (msgBuffer p) < length (hd ms')"
    using socket_reads_cut [OF start(1) assms(1) bytes first, of ks] by blast
  have "ms' = []" if "rest = []" "tail = []"
    using r(4,5) that length_contents [of "msgBuffer p"] by (cases ms') auto
  then have "rest = [] \<and> tail = [] \<longrightarrow> received p = ms" using r(2,3) start(4) by simp
  moreover have "received p = take (length front) ms" "drop (length front) ms = ms'"
    "length front \<le> length ms" using r(2,3) start(4) by simp_all
  moreover have "length (contents (msgBuffer p)) < length (ms ! length front)" if "length front < length ms"
    using that r(2,5) by (cases ms') (auto simp: nth_append)
  ultimately show ?thesis using r(1,4) by metis
qed

section \<open>Sending\<close>

text \<open>What may happen on the sending side.\<close>

datatype send_op =
    S_Send aggregation_kind "byte list"
  | S_StartAsyncWrite
  | S_Written nat
  | S_TimerExpired
  | S_EnableAggregation

fun send_step :: "send_op \<Rightarrow> peer \<Rightarrow> peer" where
  "send_step (S_Send kind blob) p = SendSilKitMsg kind blob p"
| "send_step S_StartAsyncWrite p = StartAsyncWrite p"
| "send_step (S_Written n) p = (if sending p then OnAsyncWriteSomeDone n p else p)"
| "send_step S_TimerExpired p = OnTimerExpired p"
| "send_step S_EnableAggregation p = EnableAggregation p"

definition send_run :: "send_op list \<Rightarrow> peer \<Rightarrow> peer" where
  "send_run ops p = fold send_step ops p"

fun blobs :: "send_op list \<Rightarrow> byte list list" where
  "blobs [] = []"
| "blobs (S_Send kind blob # ops) = blob # blobs ops"
| "blobs (_ # ops) = blobs ops"

text \<open>
  With aggregation, messages of other kinds are not held back and so overtake the
  aggregated ones. In a run without that, everything is in order.
\<close>

definition keeps_order :: "send_op list \<Rightarrow> bool" where
  "keeps_order ops \<longleftrightarrow>
     S_EnableAggregation \<notin> set ops \<or> (\<forall>blob. S_Send OtherMessage blob \<notin> set ops)"

definition unwritten :: "peer \<Rightarrow> byte list" where
  "unwritten p = currentSendingBuffer p @ concat (sendingQueue p) @ aggregatedMessages p"

definition sender_ok :: "peer \<Rightarrow> bool" where
  "sender_ok p \<longleftrightarrow> \<not> isShuttingDown p \<and> (\<not> sending p \<longrightarrow> currentSendingBuffer p = []) \<and>
     (\<not> useAggregation p \<longrightarrow> aggregatedMessages p = [])"

lemma StartAsyncWrite_sender:
  assumes "sender_ok p"
  shows "sender_ok (StartAsyncWrite p)" "unwritten (StartAsyncWrite p) = unwritten p"
    "written (StartAsyncWrite p) = written p" "useAggregation (StartAsyncWrite p) = useAggregation p"
  using assms by (auto simp: StartAsyncWrite_def sender_ok_def unwritten_def split: list.split)

lemma Flush_sender:
  assumes "\<not> isShuttingDown p" "\<not> sending p \<longrightarrow> currentSendingBuffer p = []"
  shows "sender_ok (Flush p)" "unwritten (Flush p) = unwritten p" "written (Flush p) = written p"
    "useAggregation (Flush p) = useAggregation p"
  using assms by (simp_all add: Flush_def SendSilKitMsgInternal_def sender_ok_def unwritten_def)

lemma Aggregate_sender:
  assumes "sender_ok p" "useAggregation p"
  shows "sender_ok (Aggregate blob p)" "unwritten (Aggregate blob p) = unwritten p @ blob"
    "written (Aggregate blob p) = written p" "useAggregation (Aggregate blob p) = useAggregation p"
  using assms Flush_sender [of "p\<lparr>initialTimerStarted := True,
      aggregatedMessages := aggregatedMessages p @ blob\<rparr>"]
  by (auto simp: Aggregate_def Let_def sender_ok_def unwritten_def)

lemma Send_sender:
  assumes "sender_ok p" "useAggregation p \<longrightarrow> kind \<noteq> OtherMessage"
  shows "sender_ok (SendSilKitMsg kind blob p) \<and>
    unwritten (SendSilKitMsg kind blob p) = unwritten p @ blob \<and>
    written (SendSilKitMsg kind blob p) = written p \<and>
    useAggregation (SendSilKitMsg kind blob p) = useAggregation p"
proof (cases "useAggregation p")
  case True
  note a = Aggregate_sender [OF assms(1) True, of blob]
  then show ?thesis
    using True assms(2) Flush_sender [of "Aggregate blob p"]
    by (cases kind) (simp_all add: SendSilKitMsg_def sender_ok_def)
next
  case False
  then show ?thesis
    using assms(1)
    by (simp add: SendSilKitMsg_def SendSilKitMsgInternal_def sender_ok_def unwritten_def)
qed

lemma Written_sender:
  assumes "sender_ok p" "sending p"
  shows "sender_ok (OnAsyncWriteSomeDone n p)"
    "written (OnAsyncWriteSomeDone n p) @ unwritten (OnAsyncWriteSomeDone n p) = written p @ unwritten p"
    "useAggregation (OnAsyncWriteSomeDone n p) = useAggregation p"
  using assms StartAsyncWrite_sender [of "p\<lparr>written := written p @ take n (currentSendingBuffer p),
      currentSendingBuffer := drop n (currentSendingBuffer p), sending := False\<rparr>"]
  by (auto simp: OnAsyncWriteSomeDone_def Let_def sender_ok_def unwritten_def)

lemma send_run_order:
  assumes "sender_ok p"
    "\<not> useAggregation p \<and> S_EnableAggregation \<notin> set ops \<or> (\<forall>blob. S_Send OtherMessage blob \<notin> set ops)"
  shows "written (send_run ops p) @ unwritten (send_run ops p) = written p @ unwritten p @ concat (blobs ops)"
  using assms
proof (induction ops arbitrary: p)
  case Nil
  then show ?case by (simp add: send_run_def)
next
  case (Cons op ops)
  have run: "send_run (op # ops) p = send_run ops (send_step op p)" by (simp add: send_run_def)
  show ?case
  proof (cases op)
    case (S_Send kind blob)
    have "useAggregation p \<longrightarrow> kind \<noteq> OtherMessage" using Cons.prems(2) S_Send by auto
    from Send_sender [OF Cons.prems(1) this, of blob] show ?thesis
      using Cons.IH [of "SendSilKitMsg kind blob p"] Cons.prems(2) S_Send run by auto
  next
    case S_StartAsyncWrite
    then show ?thesis
      using Cons.IH [of "StartAsyncWrite p"] Cons.prems StartAsyncWrite_sender [OF Cons.prems(1)] run by auto
  next
    case (S_Written n)
    then show ?thesis
      using Cons.IH [of "OnAsyncWriteSomeDone n p"] Cons.IH [of p] Cons.prems
        Written_sender [OF Cons.prems(1), of n] run by (cases "sending p") auto
  next
    case S_TimerExpired
    then show ?thesis
      using Cons.IH [of "Flush p"] Cons.IH [of p] Cons.prems Flush_sender [of p] run
      by (auto simp: OnTimerExpired_def sender_ok_def)
  next
    case S_EnableAggregation
    have "sender_ok (EnableAggregation p)" "unwritten (EnableAggregation p) = unwritten p"
      "written (EnableAggregation p) = written p"
      using Cons.prems(1) by (simp_all add: EnableAggregation_def sender_ok_def unwritten_def)
    then show ?thesis
      using Cons.IH [of "EnableAggregation p"] Cons.prems(2) S_EnableAggregation run by auto
  qed
qed

definition example_frames :: "byte list list" where
  "example_frames = [le_bytes 4 6 @ [7, 8], le_bytes 4 5 @ [9], le_bytes 4 9 @ [1, 2, 3, 4, 5]]"

lemma example_frames_valid: "\<forall>m\<in>set example_frames. valid_frame m"
  by (simp add: example_frames_def valid_frame_def max_message_size_def)

section \<open>Properties\<close>

text \<open>
  The receiving side cuts the byte stream at the message boundaries, however the
  socket splits it into reads and however long the messages are: after any number of reads
  it has passed exactly the complete messages on, once each and in order, and holds a
  proper part of the next one; no read throws, and when the stream is used up every message
  has been delivered.
\<close>

theorem framing_independent_of_chunks:
  assumes "\<forall>m\<in>set ms. valid_frame m \<and> on_data m = Accept"
  shows "\<exists>rest p n. socket_reads on_data ks (concat ms) new_peer = Some (rest, p) \<and>
    n \<le> length ms \<and> received p = take n ms \<and>
    contents (msgBuffer p) @ rest = concat (drop n ms) \<and>
    (n < length ms \<longrightarrow> length (contents (msgBuffer p)) < length (ms ! n)) \<and>
    (rest = [] \<longrightarrow> received p = ms)"
  using socket_reads_new_peer [OF assms, of "concat ms" "[]" ks] by simp

theorem framing_independent_of_chunks_witness:
  "\<exists>rest p n. socket_reads (\<lambda>_. Accept) [3, 1, 70, 0, 9] (concat example_frames) new_peer = Some (rest, p) \<and>
    n \<le> length example_frames \<and> received p = take n example_frames \<and>
    contents (msgBuffer p) @ rest = concat (drop n example_frames) \<and>
    (n < length example_frames \<longrightarrow> length (contents (msgBuffer p)) < length (example_frames ! n)) \<and>
    (rest = [] \<longrightarrow> received p = example_frames)"
  by (rule framing_independent_of_chunks) (simp add: example_frames_valid)

text \<open>
  The sending side loses, repeats and reorders no byte, whatever is written at a
  time and whenever the aggregation is flushed, as long as no message of another kind
  overtakes aggregated ones: what has been written to the socket, followed by what is still
  held back, is the concatenation of the messages in the order they were sent.
\<close>

theorem sender_keeps_order:
  assumes "keeps_order ops"
  shows "written (send_run ops new_peer) @ unwritten (send_run ops new_peer) = concat (blobs ops)"
proof -
  have "sender_ok new_peer" "\<not> useAggregation new_peer" "written new_peer = []" "unwritten new_peer = []"
    by (simp_all add: sender_ok_def new_peer_def unwritten_def)
  then show ?thesis
    using send_run_order [of new_peer ops] assms by (auto simp: keeps_order_def)
qed

definition example_sends :: "send_op list" where
  "example_sends = [S_Send OtherMessage (example_frames ! 0), S_StartAsyncWrite, S_Written 3,
     S_Send UserDataMessage (example_frames ! 1), S_Written 20, S_StartAsyncWrite, S_Written 2,
     S_Send FlushAggregationMessage (example_frames ! 2), S_Written 100, S_Written 100]"

lemma example_sends_order: "keeps_order example_sends"
  by (simp add: keeps_order_def example_sends_def)

theorem sender_keeps_order_witness:
  "written (send_run example_sends new_peer) @ unwritten (send_run example_sends new_peer) =
    concat (blobs example_sends)"
  by (rule sender_keeps_order) (rule example_sends_order)

text \<open>
  The messages of a run with their kinds. Those that are held back are user data or time
  synchronization messages; an order in which the others overtake them, and nothing else
  changes, is \<open>overtaking\<close>.
\<close>

fun sent_kinds :: "send_op list \<Rightarrow> (aggregation_kind \<times> byte list) list" where
  "sent_kinds [] = []"
| "sent_kinds (S_Send kind blob # ops) = (kind, blob) # sent_kinds ops"
| "sent_kinds (_ # ops) = sent_kinds ops"

lemma blobs_sent_kinds: "blobs ops = map snd (sent_kinds ops)"
  by (induction ops rule: sent_kinds.induct) auto

lemma sent_kinds_append: "sent_kinds (ops @ ops') = sent_kinds ops @ sent_kinds ops'"
  by (induction ops rule: sent_kinds.induct) auto

definition aggregated_kind :: "aggregation_kind \<times> byte list \<Rightarrow> bool" where
  "aggregated_kind m \<longleftrightarrow> fst m \<noteq> OtherMessage"

definition overtaking :: "(aggregation_kind \<times> byte list) list \<Rightarrow> (aggregation_kind \<times> byte list) list \<Rightarrow> bool" where
  "overtaking order ms \<longleftrightarrow>
     filter aggregated_kind order = filter aggregated_kind ms \<and>
     filter (\<lambda>m. \<not> aggregated_kind m) order = filter (\<lambda>m. \<not> aggregated_kind m) ms"

text \<open>What was sent to the socket or waits for it, and what is held back, message by message.\<close>

definition in_order :: "peer \<Rightarrow> (aggregation_kind \<times> byte list) list \<Rightarrow> bool" where
  "in_order p ms \<longleftrightarrow> (\<exists>out held.
     written p @ currentSendingBuffer p @ concat (sendingQueue p) = concat (map snd out) \<and>
     aggregatedMessages p = concat (map snd held) \<and> (\<forall>m\<in>set held. aggregated_kind m) \<and>
     overtaking (out @ held) ms \<and> (\<not> useAggregation p \<longrightarrow> held = [] \<and> out = ms))"

lemma in_order_cong:
  assumes "in_order p ms" "written p' @ currentSendingBuffer p' @ concat (sendingQueue p') =
      written p @ currentSendingBuffer p @ concat (sendingQueue p)"
    "aggregatedMessages p' = aggregatedMessages p" "useAggregation p' = useAggregation p"
  shows "in_order p' ms"
  using assms by (simp add: in_order_def)

lemma StartAsyncWrite_in_order:
  assumes "sender_ok p" "in_order p ms"
  shows "in_order (StartAsyncWrite p) ms"
proof -
  have "written (StartAsyncWrite p) @ currentSendingBuffer (StartAsyncWrite p) @ concat (sendingQueue (StartAsyncWrite p)) =
      written p @ currentSendingBuffer p @ concat (sendingQueue p)"
    "aggregatedMessages (StartAsyncWrite p) = aggregatedMessages p" "useAggregation (StartAsyncWrite p) = useAggregation p"
    using assms(1) by (auto simp: StartAsyncWrite_def sender_ok_def split: list.split)
  then show ?thesis by (rule in_order_cong [OF assms(2)])
qed

lemma Flush_in_order:
  assumes "\<not> isShuttingDown p" "useAggregation p" "in_order p ms"
  shows "in_order (Flush p) ms"
proof -
  obtain out held where "written p @ currentSendingBuffer p @ concat (sendingQueue p) = concat (map snd out)"
    "aggregatedMessages p = concat (map snd held)" "overtaking (out @ held) ms"
    using assms(3) by (auto simp: in_order_def)
  then have "written (Flush p) @ currentSendingBuffer (Flush p) @ concat (sendingQueue (Flush p)) =
      concat (map snd (out @ held))" "aggregatedMessages (Flush p) = concat (map snd [])" "overtaking ((out @ held) @ []) ms"
    "useAggregation (Flush p)"
    using assms(1,2) by (simp_all add: Flush_def SendSilKitMsgInternal_def flip: append_assoc)
  then show ?thesis unfolding in_order_def by (metis empty_iff list.set(1))
qed

lemma Aggregate_in_order:
  assumes "sender_ok p" "useAggregation p" "in_order p ms" "kind \<noteq> OtherMessage"
  shows "in_order (Aggregate blob p) (ms @ [(kind, blob)])"
proof -
  let ?p = "p\<lparr>initialTimerStarted := True, aggregatedMessages := aggregatedMessages p @ blob\<rparr>"
  obtain out held where o: "written p @ currentSendingBuffer p @ concat (sendingQueue p) = concat (map snd out)"
    "aggregatedMessages p = concat (map snd held)" "\<forall>m\<in>set held. aggregated_kind m" "overtaking (out @ held) ms"
    using assms(3) by (auto simp: in_order_def)
  have "overtaking (out @ held @ [(kind, blob)]) (ms @ [(kind, blob)])"
    using o(4) by (simp add: overtaking_def)
  moreover have "\<forall>m\<in>set (held @ [(kind, blob)]). aggregated_kind m"
    using o(3) assms(4) by (simp add: aggregated_kind_def)
  moreover have "aggregatedMessages ?p = concat (map snd (held @ [(kind, blob)]))" using o(2) by simp
  moreover have "written ?p @ currentSendingBuffer ?p @ concat (sendingQueue ?p) = concat (map snd out)" "useAggregation ?p"
    using o(1) assms(2) by simp_all
  ultimately have p: "in_order ?p (ms @ [(kind, blob)])" unfolding in_order_def by blast
  have "\<not> isShuttingDown ?p" "useAggregation ?p" using assms(1,2) by (simp_all add: sender_ok_def)
  from Flush_in_order [OF this p] p show ?thesis by (simp add: Aggregate_def Let_def)
qed

lemma Internal_in_order:
  assumes "sender_ok p" "in_order p ms" "useAggregation p \<longrightarrow> kind = OtherMessage"
  shows "in_order (SendSilKitMsgInternal blob p) (ms @ [(kind, blob)])"
proof -
  obtain out held where o: "written p @ currentSendingBuffer p @ concat (sendingQueue p) = concat (map snd out)"
    "aggregatedMessages p = concat (map snd held)" "\<forall>m\<in>set held. aggregated_kind m" "overtaking (out @ held) ms"
    "\<not> useAggregation p \<longrightarrow> held = [] \<and> out = ms"
    using assms(2) by (auto simp: in_order_def)
  let ?q = "SendSilKitMsgInternal blob p" and ?out = "out @ [(kind, blob)]"
  have "filter aggregated_kind (?out @ held) = filter aggregated_kind (ms @ [(kind, blob)])"
    using o(4,5) assms(3) by (cases "useAggregation p") (auto simp: overtaking_def aggregated_kind_def)
  moreover have "filter (\<lambda>m. \<not> aggregated_kind m) held = []" using o(3) by (simp add: filter_empty_conv)
  ultimately have "overtaking (?out @ held) (ms @ [(kind, blob)])"
    using o(4) by (simp add: overtaking_def)
  moreover have "written ?q @ currentSendingBuffer ?q @ concat (sendingQueue ?q) = concat (map snd ?out)"
    "aggregatedMessages ?q = concat (map snd held)" "\<not> useAggregation ?q \<longrightarrow> held = [] \<and> ?out = ms @ [(kind, blob)]"
    using o(1,2,5) assms(1) by (simp_all add: SendSilKitMsgInternal_def sender_ok_def flip: append_assoc)
  ultimately show ?thesis using o(3) unfolding in_order_def by blast
qed

lemma Send_in_order:
  assumes "sender_ok p" "in_order p ms"
  shows "sender_ok (SendSilKitMsg kind blob p) \<and> in_order (SendSilKitMsg kind blob p) (ms @ [(kind, blob)])"
proof (cases "useAggregation p \<and> kind \<noteq> OtherMessage")
  case True
  then have a: "in_order (Aggregate blob p) (ms @ [(kind, blob)])" "sender_ok (Aggregate blob p)" "useAggregation (Aggregate blob p)"
    using Aggregate_in_order [OF assms(1) _ assms(2)] Aggregate_sender [OF assms(1)] by simp_all
  then have "in_order (Flush (Aggregate blob p)) (ms @ [(kind, blob)])" "sender_ok (Flush (Aggregate blob p))"
    using Flush_in_order Flush_sender(1) by (simp_all add: sender_ok_def)
  then show ?thesis using a True by (cases kind) (simp_all add: SendSilKitMsg_def)
next
  case False
  then have s: "SendSilKitMsg kind blob p = SendSilKitMsgInternal blob p" by (cases kind) (auto simp: SendSilKitMsg_def)
  have "sender_ok (SendSilKitMsgInternal blob p)"
    using assms(1) by (simp add: SendSilKitMsgInternal_def sender_ok_def)
  with Internal_in_order [OF assms, of kind blob] False show ?thesis by (simp add: s)
qed

lemma send_step_in_order:
  assumes "sender_ok p" "in_order p ms"
  shows "sender_ok (send_step op p) \<and> in_order (send_step op p) (ms @ sent_kinds [op])"
proof (cases op)
  case (S_Send kind blob)
  then show ?thesis using Send_in_order [OF assms] by simp
next
  case S_StartAsyncWrite
  then show ?thesis using StartAsyncWrite_in_order [OF assms] StartAsyncWrite_sender(1) [OF assms(1)] by simp
next
  case (S_Written n)
  let ?p = "p\<lparr>written := written p @ take n (currentSendingBuffer p),
      currentSendingBuffer := drop n (currentSendingBuffer p), sending := False\<rparr>"
  have "in_order (p\<lparr>written := written p @ take n (currentSendingBuffer p),
      currentSendingBuffer := drop n (currentSendingBuffer p)\<rparr>) ms"
    by (rule in_order_cong [OF assms(2)]) simp_all
  moreover have "in_order ?p ms" by (rule in_order_cong [OF assms(2)]) simp_all
  moreover have "sender_ok ?p" if "drop n (currentSendingBuffer p) = []" using assms(1) that by (simp add: sender_ok_def)
  ultimately have "in_order (OnAsyncWriteSomeDone n p) ms"
    using StartAsyncWrite_in_order [of ?p ms] by (auto simp: OnAsyncWriteSomeDone_def Let_def)
  then show ?thesis using assms Written_sender(1) [OF assms(1), of n] S_Written by simp
next
  case S_TimerExpired
  then show ?thesis
    using assms Flush_in_order [of p ms] Flush_sender(1) [of p] by (auto simp: OnTimerExpired_def sender_ok_def)
next
  case S_EnableAggregation
  have "in_order (EnableAggregation p) ms" using assms(2) by (auto simp: in_order_def EnableAggregation_def)
  then show ?thesis using assms(1) S_EnableAggregation by (simp add: EnableAggregation_def sender_ok_def)
qed

lemma send_run_in_order:
  "sender_ok p \<Longrightarrow> in_order p ms \<Longrightarrow> in_order (send_run ops p) (ms @ sent_kinds ops)"
proof (induction ops arbitrary: p ms)
  case (Cons op ops)
  from send_step_in_order [OF Cons.prems, of op] Cons.IH [of "send_step op p" "ms @ sent_kinds [op]"]
  show ?case by (simp add: send_run_def flip: sent_kinds_append)
qed (simp add: send_run_def)

lemma no_aggregation: "S_EnableAggregation \<notin> set ops \<Longrightarrow> useAggregation (send_run ops p) = useAggregation p"
proof (induction ops arbitrary: p)
  case (Cons op ops)
  have "useAggregation (send_step op p) = useAggregation p"
    using Cons.prems by (cases op) (auto simp: SendSilKitMsg_def SendSilKitMsgInternal_def Aggregate_def Flush_def
      StartAsyncWrite_def OnAsyncWriteSomeDone_def OnTimerExpired_def Let_def split: list.split)
  then show ?case using Cons by (simp add: send_run_def)
qed (simp add: send_run_def)

lemma overtaking_ordered:
  assumes "overtaking order ms" "\<forall>m\<in>set ms. aggregated_kind m"
  shows "order = ms"
proof -
  have "filter (\<lambda>m. \<not> aggregated_kind m) order = []" "filter aggregated_kind order = ms"
    using assms by (simp_all add: overtaking_def filter_empty_conv)
  moreover from this(1) have "filter aggregated_kind order = order" by (simp add: filter_empty_conv)
  ultimately show ?thesis by simp
qed

lemma sent_kinds_aggregated: "(\<forall>blob. S_Send OtherMessage blob \<notin> set ops) \<Longrightarrow> \<forall>m\<in>set (sent_kinds ops). aggregated_kind m"
  by (induction ops rule: sent_kinds.induct) (auto simp: aggregated_kind_def)

lemma send_run_stream:
  "\<exists>order. written (send_run ops new_peer) @ unwritten (send_run ops new_peer) = concat (map snd order) \<and>
     overtaking order (sent_kinds ops) \<and> (keeps_order ops \<longrightarrow> order = sent_kinds ops)"
proof -
  have start: "sender_ok new_peer" "in_order new_peer []"
    by (auto simp: sender_ok_def new_peer_def in_order_def overtaking_def)
  let ?p = "send_run ops new_peer"
  obtain out held where o: "written ?p @ currentSendingBuffer ?p @ concat (sendingQueue ?p) = concat (map snd out)"
    "aggregatedMessages ?p = concat (map snd held)" "overtaking (out @ held) (sent_kinds ops)"
    "\<not> useAggregation ?p \<longrightarrow> held = [] \<and> out = sent_kinds ops"
    using send_run_in_order [OF start, of ops] by (auto simp: in_order_def)
  have "out @ held = sent_kinds ops" if "keeps_order ops"
    using that o(3,4) no_aggregation [of ops new_peer] overtaking_ordered sent_kinds_aggregated [of ops]
    by (auto simp: keeps_order_def new_peer_def)
  moreover have "written ?p @ unwritten ?p = concat (map snd (out @ held))"
    using o(1,2) by (simp add: unwritten_def flip: append_assoc)
  ultimately show ?thesis using o(3) by blast
qed

lemma overtaking_set:
  assumes "overtaking order ms"
  shows "set order = set ms"
proof -
  have "set xs = set (filter aggregated_kind xs) \<union> set (filter (\<lambda>m. \<not> aggregated_kind m) xs)" for xs by auto
  with assms show ?thesis unfolding overtaking_def by metis
qed


definition example_overtaking :: "send_op list" where
  "example_overtaking = [S_EnableAggregation, S_Send UserDataMessage (example_frames ! 0),
     S_Send OtherMessage (example_frames ! 1), S_Send FlushAggregationMessage (example_frames ! 2),
     S_StartAsyncWrite, S_Written 3, S_Written 100, S_Written 100]"


end
