(* ===== verification/SerializedMessage.thy ===== *)
theory SerializedMessage
  imports VAsioSerdes VAsioPeer
begin

text \<open>
  The envelope of a message (\<open>core/vasio/SerializedMessage.cpp\<close>, \<open>SerializedMessage.hpp\<close>):
  the network headers in front of the body, how a blob is taken apart again, and the traits
  that give the type of a message its kind (\<open>SerializedMessageTraits.hpp\<close>,
  \<open>AggregationMessageTraits.hpp\<close>). The kinds are read from the wire without a check, so they
  are bytes here.
\<close>

section \<open>Kinds of messages\<close>

abbreviation SubscriptionAnnouncementKind :: "8 word" where "SubscriptionAnnouncementKind \<equiv> 1"
abbreviation SubscriptionAcknowledgeKind :: "8 word" where "SubscriptionAcknowledgeKind \<equiv> 2"
abbreviation SilKitMwMsgKind :: "8 word" where "SilKitMwMsgKind \<equiv> 3"
abbreviation SilKitSimMsgKind :: "8 word" where "SilKitSimMsgKind \<equiv> 4"
abbreviation SilKitRegistryMessageKind :: "8 word" where "SilKitRegistryMessageKind \<equiv> 5"
abbreviation SilKitProxyMessageKind :: "8 word" where "SilKitProxyMessageKind \<equiv> 6"

abbreviation InvalidRegistryKind :: "8 word" where "InvalidRegistryKind \<equiv> 0"
abbreviation AnnouncementKind :: "8 word" where "AnnouncementKind \<equiv> 1"
abbreviation AnnouncementReplyKind :: "8 word" where "AnnouncementReplyKind \<equiv> 2"
abbreviation KnownParticipantsKind :: "8 word" where "KnownParticipantsKind \<equiv> 3"
abbreviation ConnectRequestKind :: "8 word" where "ConnectRequestKind \<equiv> 4"

text \<open>The types that the traits single out; every other type has their defaults.\<close>

datatype message_type =
    TypeParticipantAnnouncement
  | TypeParticipantAnnouncementReply
  | TypeKnownParticipants
  | TypeRemoteParticipantConnectRequest
  | TypeSubscriptionAcknowledge
  | TypeVAsioMsgSubscriber
  | TypeProxyMessage
  | TypeNextSimTask
  | TypeParticipantStatus
  | TypeWireDataMessageEvent
  | TypeFunctionCall
  | TypeFunctionCallResponse
  | TypeWireCanFrameEvent
  | TypeWireEthernetFrameEvent
  | TypeOther

fun messageKind :: "message_type \<Rightarrow> 8 word" where
  "messageKind TypeParticipantAnnouncement = SilKitRegistryMessageKind"
| "messageKind TypeParticipantAnnouncementReply = SilKitRegistryMessageKind"
| "messageKind TypeKnownParticipants = SilKitRegistryMessageKind"
| "messageKind TypeRemoteParticipantConnectRequest = SilKitRegistryMessageKind"
| "messageKind TypeSubscriptionAcknowledge = SubscriptionAcknowledgeKind"
| "messageKind TypeVAsioMsgSubscriber = SubscriptionAnnouncementKind"
| "messageKind TypeProxyMessage = SilKitProxyMessageKind"
| "messageKind _ = SilKitMwMsgKind"

fun registryMessageKind :: "message_type \<Rightarrow> 8 word" where
  "registryMessageKind TypeParticipantAnnouncement = AnnouncementKind"
| "registryMessageKind TypeParticipantAnnouncementReply = AnnouncementReplyKind"
| "registryMessageKind TypeKnownParticipants = KnownParticipantsKind"
| "registryMessageKind TypeRemoteParticipantConnectRequest = ConnectRequestKind"
| "registryMessageKind _ = InvalidRegistryKind"

fun aggregationKind :: "message_type \<Rightarrow> aggregation_kind" where
  "aggregationKind TypeNextSimTask = FlushAggregationMessage"
| "aggregationKind TypeParticipantStatus = FlushAggregationMessage"
| "aggregationKind TypeWireDataMessageEvent = UserDataMessage"
| "aggregationKind TypeFunctionCall = UserDataMessage"
| "aggregationKind TypeFunctionCallResponse = UserDataMessage"
| "aggregationKind TypeWireCanFrameEvent = UserDataMessage"
| "aggregationKind TypeWireEthernetFrameEvent = UserDataMessage"
| "aggregationKind _ = OtherMessage"

definition IsMwOrSim :: "8 word \<Rightarrow> bool" where
  "IsMwOrSim kind \<longleftrightarrow> kind = SilKitMwMsgKind \<or> kind = SilKitSimMsgKind"

section \<open>State\<close>

text \<open>The header of a proxy message has no initial value in the code.\<close>

record serialized_message =
  messageSize :: "32 word"
  messageKindOf :: "8 word"
  registryKindOf :: "8 word"
  aggregationKindOf :: aggregation_kind
  endpointAddress :: "64 word \<times> 64 word"
  remoteIndex :: "64 word"
  registryMessageHeader :: registry_msg_header
  proxyMessageHeader :: "proxy_message_header option"
  messageBuffer :: message_buffer

definition empty_message :: serialized_message where
  "empty_message =
     \<lparr>messageSize = 0, messageKindOf = 0, registryKindOf = InvalidRegistryKind, aggregationKindOf = OtherMessage,
      endpointAddress = (0, 0), remoteIndex = 0, registryMessageHeader = default_header,
      proxyMessageHeader = None, messageBuffer = empty_buffer\<rparr>"

section \<open>Reading and writing the headers\<close>

text \<open>
  \<open>PeekRegistryMessageHeader\<close> copies eight bytes from the read position without looking at
  the size of the buffer: \<open>junk\<close> is the memory behind it.
\<close>

definition PeekRegistryMessageHeader :: "byte list \<Rightarrow> message_buffer \<Rightarrow> registry_msg_header result" where
  "PeekRegistryMessageHeader junk buffer =
     (let rawHeader = take 8 (drop (ReadPos buffer) (PeekData buffer @ junk))
      in map_sum id fst (get_RegistryMsgHeader (buffer_of rawHeader)))"

definition PeekProxyMessageHeader :: "message_buffer \<Rightarrow> (proxy_message_header \<times> message_buffer) result" where
  "PeekProxyMessageHeader buffer =
     bind_result (get_ProxyMessageHeader buffer) (\<lambda>(header, b).
     Inr (header, SetReadPos (ReadPos buffer) b))"

definition WriteNetworkHeaders :: "serialized_message \<Rightarrow> serialized_message result" where
  "WriteNetworkHeaders m =
     bind_result
       (puts ([put_word (messageSize m), put_word (messageKindOf m)]
          @ (if messageKindOf m = SilKitRegistryMessageKind then [put_word (registryKindOf m)] else [])
          @ (if IsMwOrSim (messageKindOf m) then [put_word (remoteIndex m), put_word_pair (endpointAddress m)]
             else [])) (messageBuffer m))
       (\<lambda>b. Inr (m\<lparr>messageBuffer := b\<rparr>))"

definition read_registry_headers :: "byte list \<Rightarrow> serialized_message \<Rightarrow> serialized_message result" where
  "read_registry_headers junk m =
     bind_result (get_word (messageBuffer m)) (\<lambda>(kind, b).
       let m = m\<lparr>registryKindOf := kind, messageBuffer := b\<rparr>;
           peek = map_sum id (\<lambda>h. m\<lparr>registryMessageHeader := h\<rparr>) (PeekRegistryMessageHeader junk b)
       in if kind = AnnouncementKind \<or> kind = KnownParticipantsKind \<or> kind = ConnectRequestKind then peek
          else if kind = AnnouncementReplyKind
          then (if protocolVersion b = (3, 1) then peek
                else if protocolVersion b = (3, 0)
                then Inr (m\<lparr>registryMessageHeader := MakeRegistryMsgHeader (3, 0)\<rparr>)
                else Inl ProtocolError)
          else if kind = InvalidRegistryKind then Inl ProtocolError
          else Inr m)"

definition ReadNetworkHeaders :: "byte list \<Rightarrow> serialized_message \<Rightarrow> serialized_message result" where
  "ReadNetworkHeaders junk m =
     bind_result (get_word (messageBuffer m)) (\<lambda>(size, b).
     bind_result (get_word b) (\<lambda>(kind, b).
     let m = m\<lparr>messageSize := size, messageKindOf := kind, messageBuffer := b\<rparr>
     in bind_result (if kind = SilKitRegistryMessageKind then read_registry_headers junk m else Inr m) (\<lambda>m.
        bind_result
          (if kind = SilKitProxyMessageKind
           then bind_result (PeekProxyMessageHeader (messageBuffer m)) (\<lambda>(header, b).
                Inr (m\<lparr>proxyMessageHeader := Some header, messageBuffer := b\<rparr>))
           else Inr m) (\<lambda>m.
        if IsMwOrSim kind
        then bind_result (get_word (messageBuffer m)) (\<lambda>(index, b).
             bind_result (get_word_pair b) (\<lambda>(address, b).
             Inr (m\<lparr>remoteIndex := index, endpointAddress := address, messageBuffer := b\<rparr>)))
        else Inr m))))"

text \<open>
  The constructors that serialize a message: \<open>body\<close> is the message's \<open>Serialize\<close>. The blob
  grows with the message, so no header is read beyond its end here.
\<close>

definition serialize :: "protocol_version \<Rightarrow> message_type \<Rightarrow> 64 word \<times> 64 word \<Rightarrow> 64 word \<Rightarrow> writer
    \<Rightarrow> serialized_message result" where
  "serialize version type address index body =
     bind_result
       (WriteNetworkHeaders (empty_message
          \<lparr>remoteIndex := index, endpointAddress := address, messageKindOf := messageKind type,
           registryKindOf := registryMessageKind type, aggregationKindOf := aggregationKind type,
           messageBuffer := SetProtocolVersion version empty_buffer\<rparr>)) (\<lambda>m.
     bind_result (body (messageBuffer m)) (\<lambda>b.
     ReadNetworkHeaders [] (m\<lparr>messageBuffer := b\<rparr>)))"

text \<open>The constructor that takes a received blob.\<close>

definition from_blob :: "byte list \<Rightarrow> byte list \<Rightarrow> serialized_message result" where
  "from_blob junk blob = ReadNetworkHeaders junk (empty_message\<lparr>messageBuffer := buffer_of blob\<rparr>)"

definition message_SetProtocolVersion :: "protocol_version \<Rightarrow> serialized_message \<Rightarrow> serialized_message" where
  "message_SetProtocolVersion v m = m\<lparr>messageBuffer := SetProtocolVersion v (messageBuffer m)\<rparr>"

definition GetRemoteIndex :: "serialized_message \<Rightarrow> 64 word result" where
  "GetRemoteIndex m = (if \<not> IsMwOrSim (messageKindOf m) then Inl SilKitError else Inr (remoteIndex m))"

definition GetEndpointAddress :: "serialized_message \<Rightarrow> (64 word \<times> 64 word) result" where
  "GetEndpointAddress m = (if \<not> IsMwOrSim (messageKindOf m) then Inl SilKitError else Inr (endpointAddress m))"

definition Deserialize :: "'a reader \<Rightarrow> serialized_message \<Rightarrow> 'a result" where
  "Deserialize get m = map_sum id fst (get (messageBuffer m))"

text \<open>The blob that goes to the peer.\<close>

definition release :: "serialized_message \<Rightarrow> byte list result" where
  "release m = ReleaseStorage (storage (messageBuffer m))"
section \<open>The headers come back\<close>

definition enc_kinds :: "message_type \<Rightarrow> 64 word \<times> 64 word \<Rightarrow> 64 word \<Rightarrow> byte list" where
  "enc_kinds type address index =
     enc_word (messageKind type) @
     (if messageKind type = SilKitRegistryMessageKind then enc_word (registryMessageKind type) else []) @
     (if IsMwOrSim (messageKind type) then enc_word index @ enc_word_pair address else [])"

definition enc_headers :: "32 word \<Rightarrow> message_type \<Rightarrow> 64 word \<times> 64 word \<Rightarrow> 64 word \<Rightarrow> byte list" where
  "enc_headers msgSize type address index = enc_word msgSize @ enc_kinds type address index"

lemma WriteNetworkHeaders_at:
  assumes "messageBuffer m = at v pre post" "messageKindOf m = messageKind type"
    "registryKindOf m = registryMessageKind type"
  shows "WriteNetworkHeaders m =
    Inr (m\<lparr>messageBuffer := at v pre (post @ enc_headers (messageSize m) type (endpointAddress m) (remoteIndex m))\<rparr>)"
  using assms by (auto simp: WriteNetworkHeaders_def enc_headers_def enc_kinds_def wire)

definition unread_message :: "message_type \<Rightarrow> 64 word \<times> 64 word \<Rightarrow> 64 word \<Rightarrow> message_buffer \<Rightarrow> serialized_message" where
  "unread_message type address index b = empty_message
     \<lparr>remoteIndex := index, endpointAddress := address, messageKindOf := messageKind type,
      registryKindOf := registryMessageKind type, aggregationKindOf := aggregationKind type, messageBuffer := b\<rparr>"

lemma serialize_at:
  "serialize v type address index body =
     bind_result (body (at v [] (enc_headers 0 type address index))) (\<lambda>b.
     ReadNetworkHeaders [] (unread_message type address index b))"
  by (simp add: serialize_def WriteNetworkHeaders_at [where pre = "[]" and post = "[]"] empty_buffer_at
      unread_message_def empty_message_def)

lemmas header_parts_at = word_get_at reads_at [OF reads_word_pair]

text \<open>A message of a service: its body is what remains after the headers.\<close>

lemma ReadNetworkHeaders_service:
  assumes "messageBuffer m = at v pre (enc_headers msgSize type address index @ body)"
    "messageKind type = SilKitMwMsgKind"
  shows "ReadNetworkHeaders junk m =
    Inr (m\<lparr>messageSize := msgSize, messageKindOf := SilKitMwMsgKind, remoteIndex := index, endpointAddress := address,
           messageBuffer := at v (pre @ enc_headers msgSize type address index) body\<rparr>)"
  using assms by (simp add: ReadNetworkHeaders_def enc_headers_def enc_kinds_def IsMwOrSim_def header_parts_at)

text \<open>A message of the handshake: the header of its body has been looked at.\<close>

lemma read_registry_headers_at:
  assumes "messageBuffer m = at v pre (enc_word kind @ rest)"
    "kind = AnnouncementKind \<or> kind = KnownParticipantsKind \<or> kind = ConnectRequestKind"
    "\<And>pre'. PeekRegistryMessageHeader junk (at v pre' rest) = Inr h"
  shows "read_registry_headers junk m =
    Inr (m\<lparr>registryKindOf := kind, registryMessageHeader := h, messageBuffer := at v (pre @ enc_word kind) rest\<rparr>)"
  using assms(2) by (auto simp: read_registry_headers_def assms(1,3) word_get_at)

lemma ReadNetworkHeaders_registry:
  assumes "messageBuffer m = at v pre (enc_headers msgSize type address index @ enc_RegistryMsgHeader h @ body)"
    "messageKind type = SilKitRegistryMessageKind" "registryMessageKind type \<noteq> AnnouncementReplyKind"
  shows "\<exists>m'. ReadNetworkHeaders junk m = Inr m' \<and> registryKindOf m' = registryMessageKind type \<and>
    registryMessageHeader m' = h \<and> messageKindOf m' = SilKitRegistryMessageKind \<and>
    messageBuffer m' = at v (pre @ enc_headers msgSize type address index) (enc_RegistryMsgHeader h @ body)"
proof -
  let ?kind = "registryMessageKind type"
  have "length (enc_RegistryMsgHeader h) = 8" by (simp add: enc_RegistryMsgHeader_def)
  then have peek: "PeekRegistryMessageHeader junk (at v pre' (enc_RegistryMsgHeader h @ body)) = Inr h" for pre'
    using RegistryMsgHeader.get_at [where x = h and v = CurrentProtocolVersion and pre = "[]" and rest = "[]"]
    by (simp add: PeekRegistryMessageHeader_def buffer_of_at)
  have kind: "?kind = AnnouncementKind \<or> ?kind = KnownParticipantsKind \<or> ?kind = ConnectRequestKind"
    using assms(2,3) by (cases type) simp_all
  have headers: "enc_headers msgSize type address index =
      enc_word msgSize @ enc_word SilKitRegistryMessageKind @ enc_word ?kind"
    using assms(2) by (simp add: enc_headers_def enc_kinds_def IsMwOrSim_def)
  define b where "b = at v (pre @ enc_word msgSize @ enc_word SilKitRegistryMessageKind)
      (enc_word ?kind @ enc_RegistryMsgHeader h @ body)"
  define m1 where "m1 = m\<lparr>messageSize := msgSize, messageKindOf := SilKitRegistryMessageKind, messageBuffer := b\<rparr>"
  have "messageBuffer m1 = b" "messageKindOf m1 = SilKitRegistryMessageKind" by (simp_all add: m1_def)
  moreover from read_registry_headers_at [OF this(1) [unfolded b_def] kind peek]
  have "\<exists>m2. read_registry_headers junk m1 = Inr m2 \<and> registryKindOf m2 = ?kind \<and> registryMessageHeader m2 = h \<and>
      messageKindOf m2 = messageKindOf m1 \<and>
      messageBuffer m2 = at v (pre @ enc_headers msgSize type address index) (enc_RegistryMsgHeader h @ body)"
    by (simp add: headers)
  moreover have "ReadNetworkHeaders junk m = read_registry_headers junk m1"
    using assms(1)
    by (cases "read_registry_headers junk m1") (simp_all add: ReadNetworkHeaders_def IsMwOrSim_def word_get_at headers m1_def b_def)
  ultimately show ?thesis by auto
qed

lemma le_bytes_numeral: "le_bytes (numeral k) n = of_nat (n mod 256) # le_bytes (pred_numeral k) (n div 256)"
  using le_bytes.simps(2) [of "pred_numeral k" n] by (simp only: numeral_eq_Suc [symmetric])

lemma enc_preamble: "enc_word registry_preamble = [0x56, 0x49, 0x42, 0x2d]"
  by (simp add: enc_word_def registry_preamble_def le_bytes_numeral)

lemma enc_default_header_30:
  "enc_RegistryMsgHeader_30 default_header_30 = enc_RegistryMsgHeader (MakeRegistryMsgHeader (3, 0))"
  by (simp add: enc_RegistryMsgHeader_30_def enc_RegistryMsgHeader_def default_header_30_def
      MakeRegistryMsgHeader_def enc_preamble)

text \<open>Both formats of the announcement start with the same header.\<close>

lemma enc_announcement_header:
  assumes "pa_messageHeader a = MakeRegistryMsgHeader v" "v \<in> {(3, 0), (3, 1)}"
  shows "\<exists>body. enc_announcement a = enc_RegistryMsgHeader (pa_messageHeader a) @ body"
  using assms
  by (auto simp: enc_announcement_def announcement_to_30_def enc_ParticipantAnnouncement_30_def
      enc_default_header_30 ExtractProtocolVersion_def MakeRegistryMsgHeader_def)

lemma le_bytes_size: "n < 2 ^ 32 \<Longrightarrow> le_bytes 4 n = enc_word (of_nat n :: 32 word)"
  by (simp add: enc_word_def unat_of_nat)

lemma release_blob:
  assumes "storage (messageBuffer m) = enc_headers msgSize type address index @ body"
    "length (enc_headers msgSize type address index @ body) \<le> max_message_size"
  shows "\<exists>blob. release m = Inr blob \<and> valid_frame blob \<and>
    blob = enc_headers (of_nat (length blob)) type address index @ body"
proof -
  define tail where "tail = enc_kinds type address index @ body"
  define n where "n = 4 + length tail"
  have s: "storage (messageBuffer m) = enc_word msgSize @ tail" using assms(1) by (simp add: enc_headers_def tail_def)
  have n: "n \<le> max_message_size" "n < 2 ^ 32"
    using assms(2) by (simp_all add: n_def tail_def enc_headers_def max_message_size_def)
  then have "release m = Inr (le_bytes 4 n @ tail)"
    using s by (simp add: release_def ReleaseStorage_def n_def)
  moreover have "valid_frame (le_bytes 4 n @ tail)"
    using n by (simp add: valid_frame_def n_def)
  moreover have "le_bytes 4 n @ tail = enc_headers (of_nat n) type address index @ body"
    using le_bytes_size [OF n(2)] by (simp add: enc_headers_def tail_def)
  moreover have "length (le_bytes 4 n @ tail) = n" by (simp add: n_def)
  ultimately show ?thesis by metis
qed

text \<open>
  A message of any service goes through: the envelope is taken apart to what it was put
  together from, and the body is left for the codec of the type.
\<close>

lemma service_message_arrives:
  assumes "codec put get enc ok" "ok x" "messageKind type = SilKitMwMsgKind"
    and "length (enc x) + 29 \<le> max_message_size"
  shows "\<exists>m blob m'. serialize (3, 1) type address index (put x) = Inr m \<and>
    aggregationKindOf m = aggregationKind type \<and> release m = Inr blob \<and> valid_frame blob \<and>
    from_blob junk blob = Inr m' \<and> messageKindOf m' = SilKitMwMsgKind \<and> GetRemoteIndex m' = Inr index \<and>
    GetEndpointAddress m' = Inr address \<and> Deserialize get m' = Inr x"
proof -
  note c = assms(1)
  have put: "put x (at v pre post) = Inr (at v pre (post @ enc x))" for v pre post
    by (rule codec.put_at [OF c assms(2)])
  have get: "get (at v pre (enc x)) = Inr (x, at v (pre @ enc x) [])" for v pre
    using codec.get_at [OF c assms(2), of v pre "[]"] by simp
  let ?h = "enc_headers 0 type address index"
  obtain m where m: "serialize (3, 1) type address index (put x) = Inr m" "aggregationKindOf m = aggregationKind type"
    "messageBuffer m = at (3, 1) ?h (enc x)"
    using put by (simp add: serialize_at unread_message_def ReadNetworkHeaders_service [where pre = "[]", OF _ assms(3)])
  have "length (?h @ enc x) \<le> max_message_size"
    using assms(3,4) by (simp add: enc_headers_def enc_kinds_def enc_word_pair_def IsMwOrSim_def)
  with m(3) obtain blob where blob: "release m = Inr blob" "valid_frame blob"
    "blob = enc_headers (of_nat (length blob)) type address index @ enc x"
    using release_blob [of m 0 type address index "enc x"] by auto
  have "from_blob junk blob = Inr (empty_message\<lparr>messageSize := of_nat (length blob),
      messageKindOf := SilKitMwMsgKind, remoteIndex := index, endpointAddress := address,
      messageBuffer := at CurrentProtocolVersion (enc_headers (of_nat (length blob)) type address index) (enc x)\<rparr>)"
    unfolding from_blob_def
    by (subst ReadNetworkHeaders_service [where pre = "[]", OF _ assms(3)]) (use blob(3) in \<open>simp_all add: buffer_of_at\<close>)
  then show ?thesis
    using m(1,2) blob(1,2) get by (auto simp: GetRemoteIndex_def GetEndpointAddress_def IsMwOrSim_def Deserialize_def)
qed

section \<open>Properties\<close>

text \<open>
  A message of any service arrives as it was sent: whatever its codec, the
  envelope that the receiver takes apart has the index and the address that the sender gave
  it, and its body is deserialized to the message. The blob in between is one that the
  framing of the connection accepts.
\<close>

theorem sent_message_arrives:
  assumes "strict_codec put get enc ok" "ok x" "messageKind type = SilKitMwMsgKind"
    and "length (enc x) + 29 \<le> max_message_size"
  shows "\<exists>m blob m'. serialize (3, 1) type address index (put x) = Inr m \<and>
    aggregationKindOf m = aggregationKind type \<and> release m = Inr blob \<and> valid_frame blob \<and>
    from_blob junk blob = Inr m' \<and> GetRemoteIndex m' = Inr index \<and>
    GetEndpointAddress m' = Inr address \<and> Deserialize get m' = Inr x"
  using service_message_arrives [OF strict_codec.axioms(1) [OF assms(1)] assms(2-4)] by blast

definition example_enc :: "64 word \<Rightarrow> byte list" where
  "example_enc = enc_word"

interpretation word64: strict_codec put_word get_word example_enc "\<lambda>_. True"
  by (rule strict_codecI) (simp_all add: example_enc_def put_word_at reads_word)

theorem sent_message_arrives_witness:
  "\<exists>m blob m'. serialize (3, 1) TypeOther (1, 2) 3 (put_word (7 :: 64 word)) = Inr m \<and>
    aggregationKindOf m = aggregationKind TypeOther \<and> release m = Inr blob \<and> valid_frame blob \<and>
    from_blob [] blob = Inr m' \<and> GetRemoteIndex m' = Inr 3 \<and>
    GetEndpointAddress m' = Inr (1, 2) \<and> Deserialize get_word m' = Inr (7 :: 64 word)"
  by (rule sent_message_arrives [OF word64.strict_codec_axioms])
    (simp_all add: example_enc_def max_message_size_def)

text \<open>
  The first message of a connection tells its version before anything else of it
  is decoded: whatever version the announcement has, and whatever the receiver's memory
  holds, the envelope shows its header; once the buffer has that version, the announcement
  is deserialized.
\<close>

theorem announcement_tells_its_version:
  assumes "ok_announcement a" "pa_messageHeader a = MakeRegistryMsgHeader v" "v \<in> {(3, 0), (3, 1)}"
    and "length (enc_announcement a) + 6 \<le> max_message_size"
  shows "\<exists>m blob m'. serialize (3, 1) TypeParticipantAnnouncement (0, 0) 0 (put_ParticipantAnnouncement a) = Inr m \<and>
    release m = Inr blob \<and> valid_frame blob \<and> from_blob junk blob = Inr m' \<and>
    registryKindOf m' = AnnouncementKind \<and> registryMessageHeader m' = pa_messageHeader a \<and>
    Deserialize get_ParticipantAnnouncement (message_SetProtocolVersion v m') =
      Inr (if v = (3, 0) then legacy_announcement a else a)"
proof -
  let ?type = TypeParticipantAnnouncement
  let ?h = "pa_messageHeader a"
  let ?headers = "\<lambda>n. enc_headers n ?type (0, 0) 0"
  have v: "ExtractProtocolVersion ?h = v"
    using assms(2,3) by (auto simp: ExtractProtocolVersion_def MakeRegistryMsgHeader_def)
  obtain body where body: "enc_announcement a = enc_RegistryMsgHeader ?h @ body"
    using enc_announcement_header [OF assms(2,3)] by blast
  obtain m where m: "serialize (3, 1) ?type (0, 0) 0 (put_ParticipantAnnouncement a) = Inr m"
    "messageBuffer m = at v (?headers 0) (enc_announcement a)"
  proof -
    let ?m0 = "unread_message ?type (0, 0) 0 (at v [] (?headers 0 @ enc_announcement a))"
    obtain m where "ReadNetworkHeaders [] ?m0 = Inr m" "messageBuffer m = at v (?headers 0) (enc_announcement a)"
      using ReadNetworkHeaders_registry [of ?m0 v "[]" 0 ?type "(0, 0)" 0 ?h body "[]"] body
      by (auto simp: unread_message_def)
    then show thesis
      using that put_announcement_at [OF assms(1)] v by (simp add: serialize_at)
  qed
  have "length (?headers 0 @ enc_announcement a) \<le> max_message_size"
    using assms(4) by (simp add: enc_headers_def enc_kinds_def IsMwOrSim_def)
  with m(2) obtain blob where blob: "release m = Inr blob" "valid_frame blob"
    "blob = ?headers (of_nat (length blob)) @ enc_announcement a"
    using release_blob [of m 0 ?type "(0, 0)" 0 "enc_announcement a"] by auto
  have "messageBuffer (empty_message\<lparr>messageBuffer := buffer_of blob\<rparr>) =
      at CurrentProtocolVersion [] (?headers (of_nat (length blob)) @ enc_RegistryMsgHeader ?h @ body)"
    using blob(3) body by (simp add: buffer_of_at)
  from ReadNetworkHeaders_registry [OF this] obtain m' where m': "from_blob junk blob = Inr m'"
    "registryKindOf m' = AnnouncementKind" "registryMessageHeader m' = ?h"
    "messageBuffer m' = at CurrentProtocolVersion (?headers (of_nat (length blob))) (enc_announcement a)"
    by (auto simp: from_blob_def body)
  then have "Deserialize get_ParticipantAnnouncement (message_SetProtocolVersion v m') =
      Inr (if v = (3, 0) then legacy_announcement a else a)"
    using get_announcement_at [OF assms(1) v [symmetric]] by (simp add: Deserialize_def message_SetProtocolVersion_def)
  then show ?thesis using m(1) blob(1,2) m'(1-3) by blast
qed

theorem announcement_tells_its_version_witness:
  "let a = \<lparr>pa_messageHeader = MakeRegistryMsgHeader (3, 0), pa_peerInfo = example_peer, pa_simulationName = ''s''\<rparr>
   in \<exists>m blob m'. serialize (3, 1) TypeParticipantAnnouncement (0, 0) 0 (put_ParticipantAnnouncement a) = Inr m \<and>
    release m = Inr blob \<and> valid_frame blob \<and> from_blob [1, 2] blob = Inr m' \<and>
    registryKindOf m' = AnnouncementKind \<and> registryMessageHeader m' = pa_messageHeader a \<and>
    Deserialize get_ParticipantAnnouncement (message_SetProtocolVersion (3, 0) m') =
      Inr (if (3 :: nat, 0 :: nat) = (3, 0) then legacy_announcement a else a)"
  unfolding Let_def
  by (rule announcement_tells_its_version)
    (simp_all add: ok_announcement_def ok_VAsioPeerInfo_def example_peer_def ok_vector_def ok_string_def
      max_size_def max_message_size_def enc_announcement_def ExtractProtocolVersion_def MakeRegistryMsgHeader_def
      enc_ParticipantAnnouncement_30_def announcement_to_30_def enc_default_header_30 enc_RegistryMsgHeader_def
      enc_VAsioPeerInfo_30_def enc_VAsioPeerUri_30_def enc_string_def enc_blob_def enc_vector_def)

lemma enc_word_byte: "enc_word (w :: 8 word) = [w]"
proof -
  have "unat w < 256" using unsigned_less [of w] by simp
  then show ?thesis by (simp add: enc_word_def)
qed

text \<open>The reply of a participant of protocol version 3.0 that subscribes to nothing.\<close>

definition legacy_reply_blob :: "byte list" where
  "legacy_reply_blob =
     enc_word (10 :: 32 word) @ [SilKitRegistryMessageKind, AnnouncementReplyKind] @ enc_word (0 :: 32 word)"

text \<open>
  The header of a short registry message is read from memory behind the message:
  the reply that a participant of protocol version 3.0 without subscriptions sends, ten
  bytes long, is constructed with whatever version numbers the four bytes after it hold,
  because the eight bytes of the header are copied without a look at the size of the buffer.
\<close>

theorem short_reply_is_read_beyond_its_end:
  "map_sum id release (serialize (3, 0) TypeParticipantAnnouncementReply (0, 0) 0
      (put_ParticipantAnnouncementReply
        \<lparr>par_remoteHeader = MakeRegistryMsgHeader (3, 0), par_status = reply_Success, par_subscribers = [],
         par_diagnostic = []\<rparr>)) = Inr (Inr legacy_reply_blob) \<and>
   map_sum id registryMessageHeader (from_blob (enc_word high @ enc_word low @ behind) legacy_reply_blob) =
     Inr \<lparr>rh_preamble = 0, rh_versionHigh = high, rh_versionLow = low\<rparr>"
proof
  have bytes: "legacy_reply_blob = enc_word (10 :: 32 word) @ enc_word SilKitRegistryMessageKind @
      enc_word AnnouncementReplyKind @ enc_word (0 :: 32 word)"
    by (simp add: legacy_reply_blob_def enc_word_byte)
  show "map_sum id release (serialize (3, 0) TypeParticipantAnnouncementReply (0, 0) 0
      (put_ParticipantAnnouncementReply
        \<lparr>par_remoteHeader = MakeRegistryMsgHeader (3, 0), par_status = reply_Success, par_subscribers = [],
         par_diagnostic = []\<rparr>)) = Inr (Inr legacy_reply_blob)"
    by (simp add: serialize_at put_reply_at ok_reply_def ok_string_def max_size_def unread_message_def
        ReadNetworkHeaders_def read_registry_headers_def enc_headers_def enc_kinds_def IsMwOrSim_def word_get_at
        release_def ReleaseStorage_def bytes enc_reply_def enc_ParticipantAnnouncementReply_30_def
        enc_vector_def le_bytes_size)
  have blob: "buffer_of legacy_reply_blob = at (3, 1) [] (enc_word (10 :: 32 word) @ enc_word SilKitRegistryMessageKind @
      enc_word AnnouncementReplyKind @ enc_word (0 :: 32 word) @ [])"
    by (simp add: bytes buffer_of_at CurrentProtocolVersion_def)
  have peek: "PeekRegistryMessageHeader (enc_word high @ enc_word low @ behind)
      (at v pre (enc_word (0 :: 32 word))) = Inr \<lparr>rh_preamble = 0, rh_versionHigh = high, rh_versionLow = low\<rparr>" for v pre
    using RegistryMsgHeader.get_at [where x = "\<lparr>rh_preamble = 0, rh_versionHigh = high, rh_versionLow = low\<rparr>"
        and v = CurrentProtocolVersion and pre = "[]" and rest = "[]"]
    by (simp add: PeekRegistryMessageHeader_def buffer_of_at enc_RegistryMsgHeader_def)
  show "map_sum id registryMessageHeader (from_blob (enc_word high @ enc_word low @ behind) legacy_reply_blob) =
     Inr \<lparr>rh_preamble = 0, rh_versionHigh = high, rh_versionLow = low\<rparr>"
    using word_get_at [where x = "0 :: 32 word"]
    by (simp add: from_blob_def blob ReadNetworkHeaders_def read_registry_headers_def IsMwOrSim_def word_get_at peek)
qed

end
