(* ===== verification/RequestReply.thy ===== *)
theory RequestReply
  imports ParticipantReplies Bytes
begin

text \<open>
  Remote calls between participants (\<open>core/requests/RequestReplyService.cpp\<close>): the service
  sends a call to every participant that listens, returns the answer of the local procedure
  to the initiator of a call, and remembers for every receiver which calls it still owes an
  answer, so that the answer can be made up when that participant disconnects.

  What leaves the service is the list of outputs of an operation; the names of the remote
  receivers, the random identifier of a call and the reaction of a procedure to a call are
  arguments. A \<open>Uuid\<close> is a natural number with the order that \<open>operator<\<close> gives it.
\<close>

section \<open>Data and state\<close>

datatype function_type = InvalidFunction | ParticipantRepliesFunction | UnlistedFunction "16 word"

datatype call_return_status = CallSuccess | UnknownFunctionType | ProcedureError | RecipientDisconnected

record call_msg =
  cm_callUuid :: nat
  cm_functionType :: function_type
  cm_callData :: "byte list"

record call_return_msg =
  cr_callUuid :: nat
  cr_functionType :: function_type
  cr_callReturnData :: "byte list"
  cr_callReturnStatus :: call_return_status

text \<open>Messages to the network and calls into the local procedures.\<close>

datatype rr_out =
    SentCall call_msg
  | SentReturn string call_return_msg
  | Delivered string nat "byte list" call_return_status

text \<open>
  A procedure reacts to a call with the returns it submits, and may throw after that. The
  procedure map gives the reaction for the function types it knows.
\<close>

type_synonym reaction = "byte list \<Rightarrow> (byte list \<times> call_return_status) list \<times> bool"
type_synonym procedure_map = "function_type \<Rightarrow> reaction option"

record rr_service =
  participantDisconnectCallReturns :: "(string \<times> (nat \<times> call_return_msg) list) list"
  initiatorByCallUuid :: "(nat \<times> string) list"

definition init_rr :: rr_service where
  "init_rr = \<lparr>participantDisconnectCallReturns = [], initiatorByCallUuid = []\<rparr>"

type_synonym rr_result = "rr_out list \<times> rr_service outcome"

text \<open>\<open>std::map::emplace\<close>: keys in order, an existing entry stays.\<close>

fun emplace :: "nat \<Rightarrow> 'v \<Rightarrow> (nat \<times> 'v) list \<Rightarrow> (nat \<times> 'v) list" where
  "emplace k v [] = [(k, v)]"
| "emplace k v ((k', v') # m) =
     (if k = k' then (k', v') # m else if k < k' then (k, v) # (k', v') # m
      else (k', v') # emplace k v m)"

section \<open>Operations\<close>

text \<open>\<open>_participantDisconnectCallReturns[name]\<close>: a missing entry is created empty.\<close>

definition pending :: "rr_service \<Rightarrow> string \<Rightarrow> (nat \<times> call_return_msg) list" where
  "pending s name =
     (case map_of (participantDisconnectCallReturns s) name of None \<Rightarrow> [] | Some m \<Rightarrow> m)"

definition add_disconnect_return :: "call_return_msg \<Rightarrow> string \<Rightarrow> rr_service \<Rightarrow> rr_service" where
  "add_disconnect_return msg name s =
     s\<lparr>participantDisconnectCallReturns :=
         AList.update name (emplace (cr_callUuid msg) msg (pending s name))
           (participantDisconnectCallReturns s)\<rparr>"

definition Call :: "function_type \<Rightarrow> byte list \<Rightarrow> nat \<Rightarrow> string list \<Rightarrow> rr_service \<Rightarrow> rr_result" where
  "Call functionType callData callUuid receivingParticipants s =
     (if functionType = InvalidFunction then ([], Raised SilKitError s)
      else
        let disconnectMsg = \<lparr>cr_callUuid = callUuid, cr_functionType = functionType,
              cr_callReturnData = [], cr_callReturnStatus = RecipientDisconnected\<rparr>;
            s = fold (add_disconnect_return disconnectMsg) receivingParticipants s
        in ([SentCall \<lparr>cm_callUuid = callUuid, cm_functionType = functionType, cm_callData = callData\<rparr>],
            Done s))"

definition SubmitCallReturn ::
    "nat \<Rightarrow> function_type \<Rightarrow> byte list \<Rightarrow> call_return_status \<Rightarrow> rr_service \<Rightarrow> rr_result" where
  "SubmitCallReturn callUuid functionType callReturnData callReturnStatus s =
     (if functionType = InvalidFunction then ([], Raised SilKitError s)
      else case map_of (initiatorByCallUuid s) callUuid of
        None \<Rightarrow> ([], Raised SilKitError s)
      | Some initiator \<Rightarrow>
          ([SentReturn initiator \<lparr>cr_callUuid = callUuid, cr_functionType = functionType,
              cr_callReturnData = callReturnData, cr_callReturnStatus = callReturnStatus\<rparr>], Done s))"

text \<open>The returns that a procedure submits while it handles a call.\<close>

fun submit_all ::
    "nat \<Rightarrow> function_type \<Rightarrow> (byte list \<times> call_return_status) list \<Rightarrow> rr_service \<Rightarrow> rr_result" where
  "submit_all callUuid functionType [] s = ([], Done s)"
| "submit_all callUuid functionType ((bytes, status) # rs) s =
     (case SubmitCallReturn callUuid functionType bytes status s of
        (out, Done s1) \<Rightarrow> let (outs, r) = submit_all callUuid functionType rs s1 in (out @ outs, r)
      | failed \<Rightarrow> failed)"

definition ForwardCallToProcedure :: "procedure_map \<Rightarrow> call_msg \<Rightarrow> rr_service \<Rightarrow> rr_result" where
  "ForwardCallToProcedure procedures msg s =
     (case procedures (cm_functionType msg) of
        None \<Rightarrow> SubmitCallReturn (cm_callUuid msg) (cm_functionType msg) [] UnknownFunctionType s
      | Some procedure \<Rightarrow>
          let (returns, throws) = procedure (cm_callData msg);
              (out, r) = submit_all (cm_callUuid msg) (cm_functionType msg) returns s
          in case r of
               Done s1 \<Rightarrow>
                 if throws then
                   let (out', r') = SubmitCallReturn (cm_callUuid msg) (cm_functionType msg) [] ProcedureError s1
                   in (out @ out', r')
                 else (out, Done s1)
             | Raised _ s1 \<Rightarrow>
                 let (out', r') = SubmitCallReturn (cm_callUuid msg) (cm_functionType msg) [] ProcedureError s1
                 in (out @ out', r')
             | OutOfFuel \<Rightarrow> (out, OutOfFuel))"

definition ForwardCallReturnToProcedure ::
    "procedure_map \<Rightarrow> string \<Rightarrow> call_return_msg \<Rightarrow> rr_service \<Rightarrow> rr_result" where
  "ForwardCallReturnToProcedure procedures fromParticipant msg s =
     (case procedures (cr_functionType msg) of
        None \<Rightarrow> ([], Raised SilKitError s)
      | Some _ \<Rightarrow>
          ([Delivered fromParticipant (cr_callUuid msg) (cr_callReturnData msg) (cr_callReturnStatus msg)],
           Done s))"

text \<open>
  \<open>auto callReturnMsgByCallUuid = (*itParticipant).second\<close> copies the inner map: the erased
  entry stays in the stored one, and only an inner map without any other call is removed.
\<close>

definition RemovePartcipantFromDisconnectLookup :: "nat \<Rightarrow> string \<Rightarrow> rr_service \<Rightarrow> rr_service" where
  "RemovePartcipantFromDisconnectLookup callUuid participantName s =
     (case map_of (participantDisconnectCallReturns s) participantName of
        None \<Rightarrow> s
      | Some stored \<Rightarrow>
          let callReturnMsgByCallUuid = AList.delete callUuid stored
          in if callReturnMsgByCallUuid = []
             then s\<lparr>participantDisconnectCallReturns :=
                      AList.delete participantName (participantDisconnectCallReturns s)\<rparr>
             else s)"

definition ReceiveCall :: "procedure_map \<Rightarrow> string \<Rightarrow> call_msg \<Rightarrow> rr_service \<Rightarrow> rr_result" where
  "ReceiveCall procedures from msg s =
     (case map_of (initiatorByCallUuid s) (cm_callUuid msg) of
        Some _ \<Rightarrow> ([], Raised SilKitError s)
      | None \<Rightarrow> ForwardCallToProcedure procedures msg
          (s\<lparr>initiatorByCallUuid := AList.update (cm_callUuid msg) from (initiatorByCallUuid s)\<rparr>))"

definition ReceiveReturn :: "procedure_map \<Rightarrow> string \<Rightarrow> call_return_msg \<Rightarrow> rr_service \<Rightarrow> rr_result" where
  "ReceiveReturn procedures from msg s =
     ForwardCallReturnToProcedure procedures from msg
       (RemovePartcipantFromDisconnectLookup (cr_callUuid msg) from s)"

fun forward_all ::
    "procedure_map \<Rightarrow> string \<Rightarrow> (nat \<times> call_return_msg) list \<Rightarrow> rr_service \<Rightarrow> rr_result" where
  "forward_all procedures name [] s = ([], Done s)"
| "forward_all procedures name ((_, msg) # ms) s =
     (case ForwardCallReturnToProcedure procedures name msg s of
        (out, Done s1) \<Rightarrow> let (outs, r) = forward_all procedures name ms s1 in (out @ outs, r)
      | failed \<Rightarrow> failed)"

definition OnParticpantRemoval :: "procedure_map \<Rightarrow> string \<Rightarrow> rr_service \<Rightarrow> rr_result" where
  "OnParticpantRemoval procedures participantName s =
     (case map_of (participantDisconnectCallReturns s) participantName of
        None \<Rightarrow> ([], Done s)
      | Some ms \<Rightarrow>
          case forward_all procedures participantName ms s of
            (out, Done s1) \<Rightarrow>
              (out, Done (s1\<lparr>participantDisconnectCallReturns :=
                 AList.delete participantName (participantDisconnectCallReturns s1)\<rparr>))
          | failed \<Rightarrow> failed)"

text \<open>
  The only procedure of the program, \<open>ParticipantReplies::ReceiveCall\<close>, answers every call
  directly.
\<close>

definition silkit_procedures :: procedure_map where
  "silkit_procedures functionType =
     (if functionType = ParticipantRepliesFunction then Some (\<lambda>_. ([([], CallSuccess)], False)) else None)"

section \<open>Runs\<close>

datatype rr_event =
    E_Call function_type "byte list" nat "string list"
  | E_ReceiveCall string call_msg
  | E_ReceiveReturn string call_return_msg
  | E_Removal string

fun rr_step :: "procedure_map \<Rightarrow> rr_event \<Rightarrow> rr_service \<Rightarrow> rr_result" where
  "rr_step ps (E_Call ft bytes uuid names) s = Call ft bytes uuid names s"
| "rr_step ps (E_ReceiveCall from msg) s = ReceiveCall ps from msg s"
| "rr_step ps (E_ReceiveReturn from msg) s = ReceiveReturn ps from msg s"
| "rr_step ps (E_Removal name) s = OnParticpantRemoval ps name s"

text \<open>A run collects the outputs; it goes on with the state that an exception leaves.\<close>

fun rr_run :: "procedure_map \<Rightarrow> rr_event list \<Rightarrow> rr_service \<Rightarrow> rr_out list \<times> rr_service" where
  "rr_run ps [] s = ([], s)"
| "rr_run ps (e # es) s =
     (let (out, r) = rr_step ps e s;
          s1 = (case r of Done t \<Rightarrow> t | Raised _ t \<Rightarrow> t | OutOfFuel \<Rightarrow> s);
          (outs, s2) = rr_run ps es s1
      in (out @ outs, s2))"

section \<open>Who still owes an answer\<close>

lemma emplace_keys: "fst ` set (emplace k v m) = insert k (fst ` set m)"
  by (induction m rule: emplace.induct) auto

lemma emplace_set: "set (emplace k v m) \<subseteq> insert (k, v) (set m)"
  by (induction m rule: emplace.induct) auto

definition answerable :: "procedure_map \<Rightarrow> rr_service \<Rightarrow> bool" where
  "answerable ps s \<longleftrightarrow> (\<forall>n. \<forall>(u, m)\<in>set (pending s n). cr_callUuid m = u \<and> ps (cr_functionType m) \<noteq> None)"

definition sane_event :: "procedure_map \<Rightarrow> rr_event \<Rightarrow> bool" where
  "sane_event ps e \<longleftrightarrow>
     (case e of
        E_Call ft _ _ _ \<Rightarrow> ps ft \<noteq> None
      | E_ReceiveReturn _ msg \<Rightarrow> ps (cr_functionType msg) \<noteq> None
      | _ \<Rightarrow> True)"

definition awaited :: "rr_service \<Rightarrow> string \<Rightarrow> nat \<Rightarrow> bool" where
  "awaited s n u \<longleftrightarrow> u \<in> fst ` set (pending s n)"

text \<open>The answers that the procedures have been given.\<close>

fun deliveries :: "rr_out list \<Rightarrow> (string \<times> nat) list" where
  "deliveries [] = []"
| "deliveries (Delivered n u _ _ # out) = (n, u) # deliveries out"
| "deliveries (_ # out) = deliveries out"

lemma deliveries_append [simp]: "deliveries (xs @ ys) = deliveries xs @ deliveries ys"
  by (induction xs rule: deliveries.induct) auto

lemma pending_add:
  "pending (add_disconnect_return msg name s) n =
     (if n = name then emplace (cr_callUuid msg) msg (pending s name) else pending s n)"
  by (simp add: add_disconnect_return_def pending_def)

lemma fold_add:
  assumes "answerable ps s" "ps (cr_functionType msg) \<noteq> None"
  shows "answerable ps (fold (add_disconnect_return msg) names s) \<and>
    (\<forall>n u. awaited (fold (add_disconnect_return msg) names s) n u \<longleftrightarrow>
       awaited s n u \<or> n \<in> set names \<and> u = cr_callUuid msg)"
  using assms
proof (induction names arbitrary: s)
  case (Cons name names)
  let ?s = "add_disconnect_return msg name s"
  have "answerable ps ?s"
    using Cons.prems
    by (auto simp: answerable_def pending_add split: if_splits dest!: subsetD [OF emplace_set])
  moreover have "awaited ?s n u \<longleftrightarrow> awaited s n u \<or> n = name \<and> u = cr_callUuid msg" for n u
    by (auto simp: awaited_def pending_add emplace_keys split: if_splits)
  ultimately show ?case using Cons.IH [of ?s] Cons.prems(2) by auto
qed simp

lemma pending_delete:
  "pending (s\<lparr>participantDisconnectCallReturns :=
      AList.delete name (participantDisconnectCallReturns s)\<rparr>) n = (if n = name then [] else pending s n)"
  by (simp add: pending_def)

lemma Remove_pending:
  "pending (RemovePartcipantFromDisconnectLookup u name s) n =
     (if n = name \<and> fst ` set (pending s name) \<subseteq> {u} then [] else pending s n)"
proof (cases "map_of (participantDisconnectCallReturns s) name")
  case None
  then show ?thesis by (auto simp: RemovePartcipantFromDisconnectLookup_def pending_def)
next
  case (Some stored)
  have "AList.delete u stored = [] \<longleftrightarrow> fst ` set stored \<subseteq> {u}"
    by (auto simp: AList.delete_eq filter_empty_conv)
  moreover have "pending s name = stored" by (simp add: pending_def Some)
  ultimately show ?thesis
    using Some by (auto simp: RemovePartcipantFromDisconnectLookup_def Let_def pending_delete)
qed

lemma forward_all_Done:
  "\<forall>(u, m)\<in>set ms. cr_callUuid m = u \<and> ps (cr_functionType m) \<noteq> None \<Longrightarrow>
    \<exists>out. forward_all ps name ms s = (out, Done s) \<and> deliveries out = map (\<lambda>(u, m). (name, u)) ms"
proof (induction ms)
  case (Cons um ms)
  obtain u m where um: "um = (u, m)" by (cases um)
  have m: "cr_callUuid m = u" "ps (cr_functionType m) \<noteq> None" using Cons.prems um by auto
  obtain out where "forward_all ps name ms s = (out, Done s)" "deliveries out = map (\<lambda>(u, m). (name, u)) ms"
    using Cons by auto
  then show ?case using m um by (auto simp: ForwardCallReturnToProcedure_def)
qed simp

text \<open>Operations for calls from elsewhere leave the bookkeeping alone.\<close>

lemma Submit_frame:
  "SubmitCallReturn u ft bytes status s = (out, r) \<Longrightarrow> (r = Done s \<or> (\<exists>e. r = Raised e s)) \<and> deliveries out = []"
  by (auto simp: SubmitCallReturn_def split: if_splits option.splits)

lemma submit_all_frame:
  "submit_all u ft rs s = (out, r) \<Longrightarrow> r = Done s \<or> (\<exists>e. r = Raised e s)"
  by (induction rs arbitrary: out r)
    (auto split: prod.splits outcome.splits dest!: Submit_frame)

definition out_state :: "rr_service \<Rightarrow> rr_service outcome \<Rightarrow> rr_service" where
  "out_state s r = (case r of Done t \<Rightarrow> t | Raised _ t \<Rightarrow> t | OutOfFuel \<Rightarrow> s)"

lemma Forward_frame:
  "ForwardCallToProcedure ps msg s = (out, r) \<Longrightarrow> r = Done s \<or> (\<exists>e. r = Raised e s)"
  by (auto simp: ForwardCallToProcedure_def Let_def split: prod.splits outcome.splits option.splits if_splits
      dest!: Submit_frame submit_all_frame)

lemma ReceiveCall_frame:
  "ReceiveCall ps from msg s = (out, r) \<Longrightarrow> pending (out_state s r) = pending s"
  by (auto simp: ReceiveCall_def pending_def fun_eq_iff out_state_def split: option.splits dest!: Forward_frame)

text \<open>What makes the service owe an answer no longer.\<close>

fun answers :: "string \<Rightarrow> nat \<Rightarrow> rr_event \<Rightarrow> bool" where
  "answers n u (E_ReceiveReturn from msg) \<longleftrightarrow> from = n \<and> cr_callUuid msg = u"
| "answers n u (E_Removal name) \<longleftrightarrow> name = n"
| "answers n u _ \<longleftrightarrow> False"

lemma rr_step_awaited:
  assumes "answerable ps s" "sane_event ps e" "rr_step ps e s = (out, r)"
  shows "answerable ps (out_state s r)"
    and "awaited s n u \<Longrightarrow> awaited (out_state s r) n u \<or> (n, u) \<in> set (deliveries out)"
    and "awaited s n u \<Longrightarrow> answers n u e \<Longrightarrow> (n, u) \<in> set (deliveries out)"
proof -
  have "answerable ps (out_state s r) \<and>
    (awaited s n u \<longrightarrow> awaited (out_state s r) n u \<or> (n, u) \<in> set (deliveries out)) \<and>
    (awaited s n u \<longrightarrow> answers n u e \<longrightarrow> (n, u) \<in> set (deliveries out))"
  proof (cases e)
    case (E_Call ft bytes uuid names)
    then have ft: "ps ft \<noteq> None" using assms(2) by (simp add: sane_event_def)
    let ?m = "\<lparr>cr_callUuid = uuid, cr_functionType = ft, cr_callReturnData = [],
      cr_callReturnStatus = RecipientDisconnected\<rparr>"
    show ?thesis
    proof (cases "ft = InvalidFunction")
      case True
      then show ?thesis using assms E_Call by (auto simp: Call_def out_state_def)
    next
      case False
      then have "out_state s r = fold (add_disconnect_return ?m) names s"
        using assms(3) E_Call by (auto simp: Call_def out_state_def Let_def)
      then show ?thesis using fold_add [of ps s ?m names] assms(1) ft E_Call by simp
    qed
  next
    case (E_ReceiveCall sender msg)
    then have "pending (out_state s r) = pending s" using assms(3) ReceiveCall_frame by auto
    then show ?thesis using assms(1) E_ReceiveCall by (simp add: answerable_def awaited_def)
  next
    case (E_ReceiveReturn sender msg)
    let ?s = "RemovePartcipantFromDisconnectLookup (cr_callUuid msg) sender s"
    have ft: "ps (cr_functionType msg) \<noteq> None" using assms(2) E_ReceiveReturn by (simp add: sane_event_def)
    then have out: "out_state s r = ?s" "deliveries out = [(sender, cr_callUuid msg)]"
      using assms(3) E_ReceiveReturn
      by (auto simp: ReceiveReturn_def ForwardCallReturnToProcedure_def out_state_def)
    have "answerable ps ?s" using assms(1) by (auto simp: answerable_def Remove_pending)
    moreover have "awaited ?s n u \<or> (n, u) = (sender, cr_callUuid msg)" if "awaited s n u"
      using that by (auto simp: awaited_def Remove_pending)
    ultimately show ?thesis using out E_ReceiveReturn by auto
  next
    case (E_Removal name)
    show ?thesis
    proof (cases "map_of (participantDisconnectCallReturns s) name")
      case None
      then have "out_state s r = s" "\<not> awaited s name u"
        using assms(3) E_Removal by (auto simp: OnParticpantRemoval_def out_state_def awaited_def pending_def)
      then show ?thesis using assms(1) E_Removal by auto
    next
      case (Some ms)
      then have ms: "pending s name = ms" by (simp add: pending_def)
      then have "\<forall>(u, m)\<in>set ms. cr_callUuid m = u \<and> ps (cr_functionType m) \<noteq> None"
        using assms(1) by (auto simp: answerable_def)
      from forward_all_Done [OF this, of name s] obtain o' where
        o': "forward_all ps name ms s = (o', Done s)" "deliveries o' = map (\<lambda>(u, m). (name, u)) ms" by blast
      let ?s = "s\<lparr>participantDisconnectCallReturns := AList.delete name (participantDisconnectCallReturns s)\<rparr>"
      have out: "out = o'" "out_state s r = ?s"
        using assms(3) E_Removal Some o'(1) by (auto simp: OnParticpantRemoval_def out_state_def)
      have "answerable ps ?s" using assms(1) by (auto simp: answerable_def pending_delete)
      moreover have "(name, u) \<in> set (deliveries out)" if "awaited s name u"
        using that o'(2) out(1) ms by (force simp: awaited_def)
      moreover have "awaited ?s n u" if "awaited s n u" "n \<noteq> name"
        using that by (simp add: awaited_def pending_delete)
      ultimately show ?thesis using out E_Removal by auto
    qed
  qed
  then show "answerable ps (out_state s r)"
    and "awaited s n u \<Longrightarrow> awaited (out_state s r) n u \<or> (n, u) \<in> set (deliveries out)"
    and "awaited s n u \<Longrightarrow> answers n u e \<Longrightarrow> (n, u) \<in> set (deliveries out)"
    by blast+
qed

lemma rr_run_Cons:
  "rr_step ps e s = (out, r) \<Longrightarrow> rr_run ps (e # es) s =
    (out @ fst (rr_run ps es (out_state s r)), snd (rr_run ps es (out_state s r)))"
  by (simp add: Let_def out_state_def split: prod.split)

lemma rr_run_awaited:
  assumes "answerable ps s" "\<forall>e\<in>set es. sane_event ps e" "awaited s n u" "\<exists>e\<in>set es. answers n u e"
  shows "(n, u) \<in> set (deliveries (fst (rr_run ps es s)))"
  using assms
proof (induction es arbitrary: s)
  case (Cons e es)
  obtain out r where step: "rr_step ps e s = (out, r)" by (cases "rr_step ps e s")
  have sane: "sane_event ps e" using Cons.prems(2) by simp
  note st = rr_step_awaited [OF Cons.prems(1) sane step]
  show ?case
  proof (cases "(n, u) \<in> set (deliveries out)")
    case True
    then show ?thesis by (simp add: rr_run_Cons [OF step] del: rr_run.simps)
  next
    case False
    then have "awaited (out_state s r) n u" "\<not> answers n u e" using st(2,3) [of n u] Cons.prems(3) by auto
    then have "(n, u) \<in> set (deliveries (fst (rr_run ps es (out_state s r))))"
      using Cons.IH [OF st(1)] Cons.prems(2,4) by simp
    then show ?thesis by (simp add: rr_run_Cons [OF step] del: rr_run.simps)
  qed
qed simp

lemma call_is_answered:
  assumes "answerable ps s" "ps ft \<noteq> None" "ft \<noteq> InvalidFunction" "n \<in> set receivers"
    "\<forall>e\<in>set es. sane_event ps e" "\<exists>e\<in>set es. answers n uuid e"
  shows "(n, uuid) \<in> set (deliveries (fst (rr_run ps (E_Call ft bytes uuid receivers # es) s)))"
proof -
  let ?m = "\<lparr>cr_callUuid = uuid, cr_functionType = ft, cr_callReturnData = [],
    cr_callReturnStatus = RecipientDisconnected\<rparr>"
  let ?s = "fold (add_disconnect_return ?m) receivers s"
  obtain out where step: "rr_step ps (E_Call ft bytes uuid receivers) s = (out, Done ?s)"
    using assms(3) by (simp add: Call_def Let_def)
  have "answerable ps ?s" "awaited ?s n uuid"
    using fold_add [OF assms(1), of ?m receivers] assms(2,4) by simp_all
  from rr_run_awaited [OF this(1) assms(5) this(2) assms(6)] show ?thesis
    by (simp add: rr_run_Cons [OF step] out_state_def del: rr_run.simps)
qed

section \<open>Properties\<close>

text \<open>
  No answer is lost: after a call has been sent, every participant that received
  it either answers or leaves, and in both cases the procedure is given an answer of that
  participant to that call, whatever other calls, answers and departures happen in between.
\<close>

theorem every_receiver_answers:
  assumes "answerable ps s" "ps ft \<noteq> None" "ft \<noteq> InvalidFunction" "n \<in> set receivers"
    "\<forall>e\<in>set es. sane_event ps e" "\<exists>e\<in>set es. answers n uuid e"
  shows "(n, uuid) \<in> set (deliveries (fst (rr_run ps (E_Call ft bytes uuid receivers # es) s)))"
  by (rule call_is_answered [OF assms])

theorem every_receiver_answers_witness:
  "(''B'', 7) \<in> set (deliveries (fst (rr_run silkit_procedures
     [E_Call ParticipantRepliesFunction [] 7 [''A'', ''B''], E_Removal ''A'', E_Removal ''B''] init_rr)))"
  by (rule every_receiver_answers)
    (simp_all add: answerable_def pending_def init_rr_def silkit_procedures_def sane_event_def)

text \<open>
  Claim C11. The barrier of the lifecycle survives crashes: the calls that the barrier makes
  go through this service, and its action runs, exactly once, as soon as every remote
  participant has answered the call or has left.
\<close>

theorem barrier_opens_despite_crashes:
  assumes "\<not> barrierActive p" "receivers \<noteq> []" "answerable silkit_procedures s"
    "\<forall>e\<in>set es. sane_event silkit_procedures e"
    "\<forall>n\<in>set receivers. \<exists>e\<in>set es. answers n uuid e"
  shows "fst (receive_all
      (deliveries (fst (rr_run silkit_procedures (E_Call ParticipantRepliesFunction [] uuid receivers # es) s)))
      (snd (CallAfterAllParticipantsReplied receivers uuid k p))) = [k]"
proof (rule replies.runs_when_all_replied [OF assms(1,2)], rule call_is_answered [OF assms(3)])
  show "\<And>n. n \<in> set receivers \<Longrightarrow> \<exists>e\<in>set es. answers n uuid e" using assms(5) by blast
qed (simp_all add: assms(4) silkit_procedures_def)

theorem barrier_opens_despite_crashes_witness:
  "fst (receive_all
      (deliveries (fst (rr_run silkit_procedures (E_Call ParticipantRepliesFunction [] 7 [''A'', ''B''] #
         [E_ReceiveReturn ''B'' \<lparr>cr_callUuid = 7, cr_functionType = ParticipantRepliesFunction,
            cr_callReturnData = [], cr_callReturnStatus = CallSuccess\<rparr>,
          E_Removal ''A'']) init_rr)))
      (snd (CallAfterAllParticipantsReplied [''A'', ''B''] 7 True init_replies))) = [True]"
  by (rule barrier_opens_despite_crashes)
    (simp_all add: init_replies_def answerable_def pending_def init_rr_def silkit_procedures_def sane_event_def)

text \<open>
  Every call that arrives is answered to its initiator, exactly once by the
  program's own procedure: with success where the function is known, and with
  \<open>UnknownFunctionType\<close> where it is not; a second call with the same identifier and a call
  of the invalid function are refused without an answer.
\<close>

theorem every_call_is_replied:
  "ReceiveCall silkit_procedures initiator msg s =
    (if map_of (initiatorByCallUuid s) (cm_callUuid msg) \<noteq> None then ([], Raised SilKitError s)
     else
       let s1 = s\<lparr>initiatorByCallUuid := AList.update (cm_callUuid msg) initiator (initiatorByCallUuid s)\<rparr>
       in if cm_functionType msg = InvalidFunction then ([], Raised SilKitError s1)
          else ([SentReturn initiator \<lparr>cr_callUuid = cm_callUuid msg, cr_functionType = cm_functionType msg,
                   cr_callReturnData = [],
                   cr_callReturnStatus =
                     (if cm_functionType msg = ParticipantRepliesFunction then CallSuccess
                      else UnknownFunctionType)\<rparr>], Done s1))"
  by (auto simp: ReceiveCall_def ForwardCallToProcedure_def silkit_procedures_def SubmitCallReturn_def Let_def
      split: option.split)

definition reply_of :: "string \<Rightarrow> nat \<Rightarrow> rr_event" where
  "reply_of name uuid = E_ReceiveReturn name \<lparr>cr_callUuid = uuid,
     cr_functionType = ParticipantRepliesFunction, cr_callReturnData = [], cr_callReturnStatus = CallSuccess\<rparr>"

text \<open>
  The reply of a participant does not settle its call when another call to it is
  outstanding: the entry is erased from a copy of the lookup only. When the participant
  leaves later, both of its calls are reported once more, as disconnected, although it
  answered both.
\<close>

theorem replied_calls_reported_disconnected:
  "fst (rr_run silkit_procedures
      [E_Call ParticipantRepliesFunction [] 1 [''B''], E_Call ParticipantRepliesFunction [] 2 [''B''],
       reply_of ''B'' 1, reply_of ''B'' 2, E_Removal ''B''] init_rr) =
    [SentCall \<lparr>cm_callUuid = 1, cm_functionType = ParticipantRepliesFunction, cm_callData = []\<rparr>,
     SentCall \<lparr>cm_callUuid = 2, cm_functionType = ParticipantRepliesFunction, cm_callData = []\<rparr>,
     Delivered ''B'' 1 [] CallSuccess, Delivered ''B'' 2 [] CallSuccess,
     Delivered ''B'' 1 [] RecipientDisconnected, Delivered ''B'' 2 [] RecipientDisconnected]"
  by code_simp

end
