(* ===== verification/BusSerdes.thy ===== *)
theory BusSerdes
  imports MessageBuffer
begin

text \<open>
  The messages of the CAN, Ethernet and LIN services on the wire: their structs
  (\<open>wire/*/Wire*Messages.hpp\<close> and the public data types), the operators that write and read
  them (\<open>CanSerdes.cpp\<close>, \<open>EthernetSerdes.cpp\<close>, \<open>LinSerdes.cpp\<close>), and the encoding that the
  two agree on. \<open>Serialize\<close> and \<open>Deserialize\<close> only call the operators.
\<close>

section \<open>CAN\<close>

record wire_can_frame =
  can_canId :: "32 word"
  can_flags :: "32 word"
  can_dlc :: "16 word"
  can_sdt :: "8 word"
  can_vcid :: "8 word"
  can_af :: "32 word"
  can_dataField :: "byte list"

record wire_can_frame_event =
  cfe_timestamp :: "64 word"
  cfe_frame :: wire_can_frame
  cfe_direction :: "8 word"
  cfe_userContext :: "64 word"

definition put_WireCanFrameEvent :: "wire_can_frame_event \<Rightarrow> writer" where
  "put_WireCanFrameEvent msg =
     (let frame = cfe_frame msg
      in puts [put_word (cfe_timestamp msg), put_word (can_canId frame), put_word (can_flags frame),
           put_word (can_dlc frame), put_word (can_sdt frame), put_word (can_vcid frame),
           put_word (can_af frame), put_blob (can_dataField frame), put_word (cfe_direction msg),
           put_word (cfe_userContext msg)])"

definition get_WireCanFrameEvent :: "wire_can_frame_event reader" where
  "get_WireCanFrameEvent =
     then_get get_word (\<lambda>timestamp. then_get get_word (\<lambda>canId. then_get get_word (\<lambda>flags.
     then_get get_word (\<lambda>dlc. then_get get_word (\<lambda>sdt. then_get get_word (\<lambda>vcid.
     then_get get_word (\<lambda>af. then_get get_blob (\<lambda>dataField. then_get get_word (\<lambda>direction.
     then_get get_word (\<lambda>userContext.
     got \<lparr>cfe_timestamp = timestamp,
        cfe_frame = \<lparr>can_canId = canId, can_flags = flags, can_dlc = dlc, can_sdt = sdt,
          can_vcid = vcid, can_af = af, can_dataField = dataField\<rparr>,
        cfe_direction = direction, cfe_userContext = userContext\<rparr>))))))))))"

definition enc_WireCanFrameEvent :: "wire_can_frame_event \<Rightarrow> byte list" where
  "enc_WireCanFrameEvent msg =
     enc_word (cfe_timestamp msg) @ enc_word (can_canId (cfe_frame msg)) @
     enc_word (can_flags (cfe_frame msg)) @ enc_word (can_dlc (cfe_frame msg)) @
     enc_word (can_sdt (cfe_frame msg)) @ enc_word (can_vcid (cfe_frame msg)) @
     enc_word (can_af (cfe_frame msg)) @ enc_blob (can_dataField (cfe_frame msg)) @
     enc_word (cfe_direction msg) @ enc_word (cfe_userContext msg)"

definition ok_WireCanFrameEvent :: "wire_can_frame_event \<Rightarrow> bool" where
  "ok_WireCanFrameEvent msg \<longleftrightarrow> length (can_dataField (cfe_frame msg)) \<le> max_size"

interpretation WireCanFrameEvent: strict_codec put_WireCanFrameEvent get_WireCanFrameEvent
    enc_WireCanFrameEvent ok_WireCanFrameEvent
proof (rule strict_codecI)
  show "ok_WireCanFrameEvent msg \<Longrightarrow> reads get_WireCanFrameEvent msg (enc_WireCanFrameEvent msg)" for msg
    by (cases msg; cases "cfe_frame msg"; simp add: get_WireCanFrameEvent_def enc_WireCanFrameEvent_def
        ok_WireCanFrameEvent_def; (rule wire_reads | simp)+)
qed (simp_all add: put_WireCanFrameEvent_def enc_WireCanFrameEvent_def ok_WireCanFrameEvent_def Let_def wire)

record can_frame_transmit_event =
  cft_canId :: "32 word"
  cft_timestamp :: "64 word"
  cft_status :: "32 word"
  cft_userContext :: "64 word"

definition put_CanFrameTransmitEvent :: "can_frame_transmit_event \<Rightarrow> writer" where
  "put_CanFrameTransmitEvent msg =
     puts [put_word (cft_canId msg), put_word (cft_timestamp msg),
           put_word (cft_status msg), put_word (cft_userContext msg)]"

definition get_CanFrameTransmitEvent :: "can_frame_transmit_event reader" where
  "get_CanFrameTransmitEvent =
     then_get get_word (\<lambda>canId. then_get get_word (\<lambda>timestamp.
     then_get get_word (\<lambda>status. then_get get_word (\<lambda>userContext.
     got \<lparr>cft_canId = canId, cft_timestamp = timestamp, cft_status = status,
        cft_userContext = userContext\<rparr>))))"

definition enc_CanFrameTransmitEvent :: "can_frame_transmit_event \<Rightarrow> byte list" where
  "enc_CanFrameTransmitEvent msg =
     enc_word (cft_canId msg) @ enc_word (cft_timestamp msg) @ enc_word (cft_status msg) @
     enc_word (cft_userContext msg)"

interpretation CanFrameTransmitEvent: strict_codec put_CanFrameTransmitEvent get_CanFrameTransmitEvent
    enc_CanFrameTransmitEvent "\<lambda>_. True"
proof (rule strict_codecI)
  show "reads get_CanFrameTransmitEvent msg (enc_CanFrameTransmitEvent msg)" for msg
    by (cases msg; simp add: get_CanFrameTransmitEvent_def enc_CanFrameTransmitEvent_def; (rule wire_reads | simp)+)
qed (simp_all add: put_CanFrameTransmitEvent_def enc_CanFrameTransmitEvent_def wire)

lemmas [wire] = CanFrameTransmitEvent.put_at
lemmas [wire_reads] = CanFrameTransmitEvent.get_reads

record can_controller_status =
  ccs_timestamp :: "64 word"
  ccs_controllerState :: "32 word"
  ccs_errorState :: "32 word"

definition put_CanControllerStatus :: "can_controller_status \<Rightarrow> writer" where
  "put_CanControllerStatus msg =
     puts [put_word (ccs_timestamp msg), put_word (ccs_controllerState msg),
           put_word (ccs_errorState msg)]"

definition get_CanControllerStatus :: "can_controller_status reader" where
  "get_CanControllerStatus =
     then_get get_word (\<lambda>timestamp. then_get get_word (\<lambda>controllerState.
     then_get get_word (\<lambda>errorState.
     got \<lparr>ccs_timestamp = timestamp, ccs_controllerState = controllerState,
        ccs_errorState = errorState\<rparr>)))"

definition enc_CanControllerStatus :: "can_controller_status \<Rightarrow> byte list" where
  "enc_CanControllerStatus msg =
     enc_word (ccs_timestamp msg) @ enc_word (ccs_controllerState msg) @
     enc_word (ccs_errorState msg)"

interpretation CanControllerStatus: strict_codec put_CanControllerStatus get_CanControllerStatus
    enc_CanControllerStatus "\<lambda>_. True"
proof (rule strict_codecI)
  show "reads get_CanControllerStatus msg (enc_CanControllerStatus msg)" for msg
    by (cases msg; simp add: get_CanControllerStatus_def enc_CanControllerStatus_def; (rule wire_reads | simp)+)
qed (simp_all add: put_CanControllerStatus_def enc_CanControllerStatus_def wire)

lemmas [wire] = CanControllerStatus.put_at
lemmas [wire_reads] = CanControllerStatus.get_reads

record can_configure_baudrate =
  ccb_baudRate :: "32 word"
  ccb_fdBaudRate :: "32 word"
  ccb_xlBaudRate :: "32 word"

definition put_CanConfigureBaudrate :: "can_configure_baudrate \<Rightarrow> writer" where
  "put_CanConfigureBaudrate msg =
     puts [put_word (ccb_baudRate msg), put_word (ccb_fdBaudRate msg),
           put_word (ccb_xlBaudRate msg)]"

definition get_CanConfigureBaudrate :: "can_configure_baudrate reader" where
  "get_CanConfigureBaudrate =
     then_get get_word (\<lambda>baudRate. then_get get_word (\<lambda>fdBaudRate.
     then_get get_word (\<lambda>xlBaudRate.
     got \<lparr>ccb_baudRate = baudRate, ccb_fdBaudRate = fdBaudRate, ccb_xlBaudRate = xlBaudRate\<rparr>)))"

definition enc_CanConfigureBaudrate :: "can_configure_baudrate \<Rightarrow> byte list" where
  "enc_CanConfigureBaudrate msg =
     enc_word (ccb_baudRate msg) @ enc_word (ccb_fdBaudRate msg) @
     enc_word (ccb_xlBaudRate msg)"

interpretation CanConfigureBaudrate: strict_codec put_CanConfigureBaudrate get_CanConfigureBaudrate
    enc_CanConfigureBaudrate "\<lambda>_. True"
proof (rule strict_codecI)
  show "reads get_CanConfigureBaudrate msg (enc_CanConfigureBaudrate msg)" for msg
    by (cases msg; simp add: get_CanConfigureBaudrate_def enc_CanConfigureBaudrate_def; (rule wire_reads | simp)+)
qed (simp_all add: put_CanConfigureBaudrate_def enc_CanConfigureBaudrate_def wire)

lemmas [wire] = CanConfigureBaudrate.put_at
lemmas [wire_reads] = CanConfigureBaudrate.get_reads

text \<open>The flags are a struct of bit fields in one byte.\<close>

record can_set_controller_mode =
  csm_flags :: "8 word"
  csm_mode :: "32 word"

definition put_CanSetControllerMode :: "can_set_controller_mode \<Rightarrow> writer" where
  "put_CanSetControllerMode msg =
     puts [put_word (csm_flags msg), put_word (csm_mode msg)]"

definition get_CanSetControllerMode :: "can_set_controller_mode reader" where
  "get_CanSetControllerMode =
     then_get get_word (\<lambda>flags. then_get get_word (\<lambda>mode.
     got \<lparr>csm_flags = flags, csm_mode = mode\<rparr>))"

definition enc_CanSetControllerMode :: "can_set_controller_mode \<Rightarrow> byte list" where
  "enc_CanSetControllerMode msg =
     enc_word (csm_flags msg) @ enc_word (csm_mode msg)"

interpretation CanSetControllerMode: strict_codec put_CanSetControllerMode get_CanSetControllerMode
    enc_CanSetControllerMode "\<lambda>_. True"
proof (rule strict_codecI)
  show "reads get_CanSetControllerMode msg (enc_CanSetControllerMode msg)" for msg
    by (cases msg; simp add: get_CanSetControllerMode_def enc_CanSetControllerMode_def; (rule wire_reads | simp)+)
qed (simp_all add: put_CanSetControllerMode_def enc_CanSetControllerMode_def wire)

lemmas [wire] = CanSetControllerMode.put_at
lemmas [wire_reads] = CanSetControllerMode.get_reads

section \<open>Ethernet\<close>

record wire_ethernet_frame =
  ef_raw :: "byte list"

definition put_WireEthernetFrame :: "wire_ethernet_frame \<Rightarrow> writer" where
  "put_WireEthernetFrame msg =
     puts [put_blob (ef_raw msg)]"

definition get_WireEthernetFrame :: "wire_ethernet_frame reader" where
  "get_WireEthernetFrame =
     then_get get_blob (\<lambda>raw.
     got \<lparr>ef_raw = raw\<rparr>)"

definition enc_WireEthernetFrame :: "wire_ethernet_frame \<Rightarrow> byte list" where
  "enc_WireEthernetFrame msg =
     enc_blob (ef_raw msg)"

definition ok_WireEthernetFrame :: "wire_ethernet_frame \<Rightarrow> bool" where
  "ok_WireEthernetFrame msg \<longleftrightarrow>
     length (ef_raw msg) \<le> max_size"

interpretation WireEthernetFrame: strict_codec put_WireEthernetFrame get_WireEthernetFrame
    enc_WireEthernetFrame ok_WireEthernetFrame
proof (rule strict_codecI)
  show "ok_WireEthernetFrame msg \<Longrightarrow> reads get_WireEthernetFrame msg (enc_WireEthernetFrame msg)" for msg
    by (cases msg; simp add: get_WireEthernetFrame_def enc_WireEthernetFrame_def ok_WireEthernetFrame_def; (rule wire_reads | simp)+)
qed (simp_all add: put_WireEthernetFrame_def enc_WireEthernetFrame_def ok_WireEthernetFrame_def wire)

lemmas [wire] = WireEthernetFrame.put_at
lemmas [wire_reads] = WireEthernetFrame.get_reads

record wire_ethernet_frame_event =
  efe_timestamp :: "64 word"
  efe_frame :: "wire_ethernet_frame"
  efe_direction :: "8 word"
  efe_userContext :: "64 word"

definition put_WireEthernetFrameEvent :: "wire_ethernet_frame_event \<Rightarrow> writer" where
  "put_WireEthernetFrameEvent msg =
     puts [put_word (efe_timestamp msg), put_WireEthernetFrame (efe_frame msg),
           put_word (efe_direction msg), put_word (efe_userContext msg)]"

definition get_WireEthernetFrameEvent :: "wire_ethernet_frame_event reader" where
  "get_WireEthernetFrameEvent =
     then_get get_word (\<lambda>timestamp. then_get get_WireEthernetFrame (\<lambda>frame.
     then_get get_word (\<lambda>direction. then_get get_word (\<lambda>userContext.
     got \<lparr>efe_timestamp = timestamp, efe_frame = frame, efe_direction = direction,
        efe_userContext = userContext\<rparr>))))"

definition enc_WireEthernetFrameEvent :: "wire_ethernet_frame_event \<Rightarrow> byte list" where
  "enc_WireEthernetFrameEvent msg =
     enc_word (efe_timestamp msg) @ enc_WireEthernetFrame (efe_frame msg) @
     enc_word (efe_direction msg) @ enc_word (efe_userContext msg)"

definition ok_WireEthernetFrameEvent :: "wire_ethernet_frame_event \<Rightarrow> bool" where
  "ok_WireEthernetFrameEvent msg \<longleftrightarrow>
     ok_WireEthernetFrame (efe_frame msg)"

interpretation WireEthernetFrameEvent: strict_codec put_WireEthernetFrameEvent get_WireEthernetFrameEvent
    enc_WireEthernetFrameEvent ok_WireEthernetFrameEvent
proof (rule strict_codecI)
  show "ok_WireEthernetFrameEvent msg \<Longrightarrow> reads get_WireEthernetFrameEvent msg (enc_WireEthernetFrameEvent msg)" for msg
    by (cases msg; simp add: get_WireEthernetFrameEvent_def enc_WireEthernetFrameEvent_def ok_WireEthernetFrameEvent_def; (rule wire_reads | simp)+)
qed (simp_all add: put_WireEthernetFrameEvent_def enc_WireEthernetFrameEvent_def ok_WireEthernetFrameEvent_def wire)

lemmas [wire] = WireEthernetFrameEvent.put_at
lemmas [wire_reads] = WireEthernetFrameEvent.get_reads

record ethernet_frame_transmit_event =
  eft_timestamp :: "64 word"
  eft_status :: "32 word"
  eft_userContext :: "64 word"

definition put_EthernetFrameTransmitEvent :: "ethernet_frame_transmit_event \<Rightarrow> writer" where
  "put_EthernetFrameTransmitEvent msg =
     puts [put_word (eft_timestamp msg), put_word (eft_status msg),
           put_word (eft_userContext msg)]"

definition get_EthernetFrameTransmitEvent :: "ethernet_frame_transmit_event reader" where
  "get_EthernetFrameTransmitEvent =
     then_get get_word (\<lambda>timestamp. then_get get_word (\<lambda>status.
     then_get get_word (\<lambda>userContext.
     got \<lparr>eft_timestamp = timestamp, eft_status = status, eft_userContext = userContext\<rparr>)))"

definition enc_EthernetFrameTransmitEvent :: "ethernet_frame_transmit_event \<Rightarrow> byte list" where
  "enc_EthernetFrameTransmitEvent msg =
     enc_word (eft_timestamp msg) @ enc_word (eft_status msg) @
     enc_word (eft_userContext msg)"

interpretation EthernetFrameTransmitEvent: strict_codec put_EthernetFrameTransmitEvent get_EthernetFrameTransmitEvent
    enc_EthernetFrameTransmitEvent "\<lambda>_. True"
proof (rule strict_codecI)
  show "reads get_EthernetFrameTransmitEvent msg (enc_EthernetFrameTransmitEvent msg)" for msg
    by (cases msg; simp add: get_EthernetFrameTransmitEvent_def enc_EthernetFrameTransmitEvent_def; (rule wire_reads | simp)+)
qed (simp_all add: put_EthernetFrameTransmitEvent_def enc_EthernetFrameTransmitEvent_def wire)

lemmas [wire] = EthernetFrameTransmitEvent.put_at
lemmas [wire_reads] = EthernetFrameTransmitEvent.get_reads

record ethernet_status =
  es_timestamp :: "64 word"
  es_state :: "32 word"
  es_bitrate :: "32 word"

definition put_EthernetStatus :: "ethernet_status \<Rightarrow> writer" where
  "put_EthernetStatus msg =
     puts [put_word (es_timestamp msg), put_word (es_state msg), put_word (es_bitrate msg)]"

definition get_EthernetStatus :: "ethernet_status reader" where
  "get_EthernetStatus =
     then_get get_word (\<lambda>timestamp. then_get get_word (\<lambda>state.
     then_get get_word (\<lambda>bitrate.
     got \<lparr>es_timestamp = timestamp, es_state = state, es_bitrate = bitrate\<rparr>)))"

definition enc_EthernetStatus :: "ethernet_status \<Rightarrow> byte list" where
  "enc_EthernetStatus msg =
     enc_word (es_timestamp msg) @ enc_word (es_state msg) @ enc_word (es_bitrate msg)"

interpretation EthernetStatus: strict_codec put_EthernetStatus get_EthernetStatus
    enc_EthernetStatus "\<lambda>_. True"
proof (rule strict_codecI)
  show "reads get_EthernetStatus msg (enc_EthernetStatus msg)" for msg
    by (cases msg; simp add: get_EthernetStatus_def enc_EthernetStatus_def; (rule wire_reads | simp)+)
qed (simp_all add: put_EthernetStatus_def enc_EthernetStatus_def wire)

lemmas [wire] = EthernetStatus.put_at
lemmas [wire_reads] = EthernetStatus.get_reads

record ethernet_set_mode =
  esm_mode :: "8 word"

definition put_EthernetSetMode :: "ethernet_set_mode \<Rightarrow> writer" where
  "put_EthernetSetMode msg =
     puts [put_word (esm_mode msg)]"

definition get_EthernetSetMode :: "ethernet_set_mode reader" where
  "get_EthernetSetMode =
     then_get get_word (\<lambda>mode.
     got \<lparr>esm_mode = mode\<rparr>)"

definition enc_EthernetSetMode :: "ethernet_set_mode \<Rightarrow> byte list" where
  "enc_EthernetSetMode msg =
     enc_word (esm_mode msg)"

interpretation EthernetSetMode: strict_codec put_EthernetSetMode get_EthernetSetMode
    enc_EthernetSetMode "\<lambda>_. True"
proof (rule strict_codecI)
  show "reads get_EthernetSetMode msg (enc_EthernetSetMode msg)" for msg
    by (cases msg; simp add: get_EthernetSetMode_def enc_EthernetSetMode_def; (rule wire_reads | simp)+)
qed (simp_all add: put_EthernetSetMode_def enc_EthernetSetMode_def wire)

lemmas [wire] = EthernetSetMode.put_at
lemmas [wire_reads] = EthernetSetMode.get_reads

section \<open>LIN\<close>

record lin_frame =
  lf_id :: "8 word"
  lf_checksumModel :: "8 word"
  lf_dataLength :: "8 word"
  lf_data :: "byte list"

definition put_LinFrame :: "lin_frame \<Rightarrow> writer" where
  "put_LinFrame msg =
     puts [put_word (lf_id msg), put_word (lf_checksumModel msg),
           put_word (lf_dataLength msg), put_array (lf_data msg)]"

definition get_LinFrame :: "lin_frame reader" where
  "get_LinFrame =
     then_get get_word (\<lambda>id. then_get get_word (\<lambda>checksumModel.
     then_get get_word (\<lambda>dataLength. then_get (get_array 8) (\<lambda>data.
     got \<lparr>lf_id = id, lf_checksumModel = checksumModel, lf_dataLength = dataLength,
        lf_data = data\<rparr>))))"

definition enc_LinFrame :: "lin_frame \<Rightarrow> byte list" where
  "enc_LinFrame msg =
     enc_word (lf_id msg) @ enc_word (lf_checksumModel msg) @ enc_word (lf_dataLength msg) @
     lf_data msg"

definition ok_LinFrame :: "lin_frame \<Rightarrow> bool" where
  "ok_LinFrame msg \<longleftrightarrow>
     length (lf_data msg) = 8"

interpretation LinFrame: strict_codec put_LinFrame get_LinFrame
    enc_LinFrame ok_LinFrame
proof (rule strict_codecI)
  show "ok_LinFrame msg \<Longrightarrow> reads get_LinFrame msg (enc_LinFrame msg)" for msg
    by (cases msg; simp add: get_LinFrame_def enc_LinFrame_def ok_LinFrame_def; (rule wire_reads | simp)+)
qed (simp_all add: put_LinFrame_def enc_LinFrame_def ok_LinFrame_def wire)

lemmas [wire] = LinFrame.put_at
lemmas [wire_reads] = LinFrame.get_reads

record lin_send_frame_request =
  lsf_frame :: "lin_frame"
  lsf_responseType :: "8 word"

definition put_LinSendFrameRequest :: "lin_send_frame_request \<Rightarrow> writer" where
  "put_LinSendFrameRequest msg =
     puts [put_LinFrame (lsf_frame msg), put_word (lsf_responseType msg)]"

definition get_LinSendFrameRequest :: "lin_send_frame_request reader" where
  "get_LinSendFrameRequest =
     then_get get_LinFrame (\<lambda>frame. then_get get_word (\<lambda>responseType.
     got \<lparr>lsf_frame = frame, lsf_responseType = responseType\<rparr>))"

definition enc_LinSendFrameRequest :: "lin_send_frame_request \<Rightarrow> byte list" where
  "enc_LinSendFrameRequest msg =
     enc_LinFrame (lsf_frame msg) @ enc_word (lsf_responseType msg)"

definition ok_LinSendFrameRequest :: "lin_send_frame_request \<Rightarrow> bool" where
  "ok_LinSendFrameRequest msg \<longleftrightarrow>
     ok_LinFrame (lsf_frame msg)"

interpretation LinSendFrameRequest: strict_codec put_LinSendFrameRequest get_LinSendFrameRequest
    enc_LinSendFrameRequest ok_LinSendFrameRequest
proof (rule strict_codecI)
  show "ok_LinSendFrameRequest msg \<Longrightarrow> reads get_LinSendFrameRequest msg (enc_LinSendFrameRequest msg)" for msg
    by (cases msg; simp add: get_LinSendFrameRequest_def enc_LinSendFrameRequest_def ok_LinSendFrameRequest_def; (rule wire_reads | simp)+)
qed (simp_all add: put_LinSendFrameRequest_def enc_LinSendFrameRequest_def ok_LinSendFrameRequest_def wire)

lemmas [wire] = LinSendFrameRequest.put_at
lemmas [wire_reads] = LinSendFrameRequest.get_reads

record lin_send_frame_header_request =
  lsh_timestamp :: "64 word"
  lsh_id :: "8 word"

definition put_LinSendFrameHeaderRequest :: "lin_send_frame_header_request \<Rightarrow> writer" where
  "put_LinSendFrameHeaderRequest msg =
     puts [put_word (lsh_timestamp msg), put_word (lsh_id msg)]"

definition get_LinSendFrameHeaderRequest :: "lin_send_frame_header_request reader" where
  "get_LinSendFrameHeaderRequest =
     then_get get_word (\<lambda>timestamp. then_get get_word (\<lambda>id.
     got \<lparr>lsh_timestamp = timestamp, lsh_id = id\<rparr>))"

definition enc_LinSendFrameHeaderRequest :: "lin_send_frame_header_request \<Rightarrow> byte list" where
  "enc_LinSendFrameHeaderRequest msg =
     enc_word (lsh_timestamp msg) @ enc_word (lsh_id msg)"

interpretation LinSendFrameHeaderRequest: strict_codec put_LinSendFrameHeaderRequest get_LinSendFrameHeaderRequest
    enc_LinSendFrameHeaderRequest "\<lambda>_. True"
proof (rule strict_codecI)
  show "reads get_LinSendFrameHeaderRequest msg (enc_LinSendFrameHeaderRequest msg)" for msg
    by (cases msg; simp add: get_LinSendFrameHeaderRequest_def enc_LinSendFrameHeaderRequest_def; (rule wire_reads | simp)+)
qed (simp_all add: put_LinSendFrameHeaderRequest_def enc_LinSendFrameHeaderRequest_def wire)

lemmas [wire] = LinSendFrameHeaderRequest.put_at
lemmas [wire_reads] = LinSendFrameHeaderRequest.get_reads

record lin_transmission =
  lt_timestamp :: "64 word"
  lt_frame :: "lin_frame"
  lt_status :: "8 word"

definition put_LinTransmission :: "lin_transmission \<Rightarrow> writer" where
  "put_LinTransmission msg =
     puts [put_word (lt_timestamp msg), put_LinFrame (lt_frame msg),
           put_word (lt_status msg)]"

definition get_LinTransmission :: "lin_transmission reader" where
  "get_LinTransmission =
     then_get get_word (\<lambda>timestamp. then_get get_LinFrame (\<lambda>frame.
     then_get get_word (\<lambda>status.
     got \<lparr>lt_timestamp = timestamp, lt_frame = frame, lt_status = status\<rparr>)))"

definition enc_LinTransmission :: "lin_transmission \<Rightarrow> byte list" where
  "enc_LinTransmission msg =
     enc_word (lt_timestamp msg) @ enc_LinFrame (lt_frame msg) @ enc_word (lt_status msg)"

definition ok_LinTransmission :: "lin_transmission \<Rightarrow> bool" where
  "ok_LinTransmission msg \<longleftrightarrow>
     ok_LinFrame (lt_frame msg)"

interpretation LinTransmission: strict_codec put_LinTransmission get_LinTransmission
    enc_LinTransmission ok_LinTransmission
proof (rule strict_codecI)
  show "ok_LinTransmission msg \<Longrightarrow> reads get_LinTransmission msg (enc_LinTransmission msg)" for msg
    by (cases msg; simp add: get_LinTransmission_def enc_LinTransmission_def ok_LinTransmission_def; (rule wire_reads | simp)+)
qed (simp_all add: put_LinTransmission_def enc_LinTransmission_def ok_LinTransmission_def wire)

lemmas [wire] = LinTransmission.put_at
lemmas [wire_reads] = LinTransmission.get_reads

record lin_wakeup_pulse =
  lwp_timestamp :: "64 word"
  lwp_direction :: "8 word"

definition put_LinWakeupPulse :: "lin_wakeup_pulse \<Rightarrow> writer" where
  "put_LinWakeupPulse msg =
     puts [put_word (lwp_timestamp msg), put_word (lwp_direction msg)]"

definition get_LinWakeupPulse :: "lin_wakeup_pulse reader" where
  "get_LinWakeupPulse =
     then_get get_word (\<lambda>timestamp. then_get get_word (\<lambda>direction.
     got \<lparr>lwp_timestamp = timestamp, lwp_direction = direction\<rparr>))"

definition enc_LinWakeupPulse :: "lin_wakeup_pulse \<Rightarrow> byte list" where
  "enc_LinWakeupPulse msg =
     enc_word (lwp_timestamp msg) @ enc_word (lwp_direction msg)"

interpretation LinWakeupPulse: strict_codec put_LinWakeupPulse get_LinWakeupPulse
    enc_LinWakeupPulse "\<lambda>_. True"
proof (rule strict_codecI)
  show "reads get_LinWakeupPulse msg (enc_LinWakeupPulse msg)" for msg
    by (cases msg; simp add: get_LinWakeupPulse_def enc_LinWakeupPulse_def; (rule wire_reads | simp)+)
qed (simp_all add: put_LinWakeupPulse_def enc_LinWakeupPulse_def wire)

lemmas [wire] = LinWakeupPulse.put_at
lemmas [wire_reads] = LinWakeupPulse.get_reads

record lin_frame_response =
  lfr_frame :: "lin_frame"
  lfr_responseMode :: "8 word"

definition put_LinFrameResponse :: "lin_frame_response \<Rightarrow> writer" where
  "put_LinFrameResponse msg =
     puts [put_LinFrame (lfr_frame msg), put_word (lfr_responseMode msg)]"

definition get_LinFrameResponse :: "lin_frame_response reader" where
  "get_LinFrameResponse =
     then_get get_LinFrame (\<lambda>frame. then_get get_word (\<lambda>responseMode.
     got \<lparr>lfr_frame = frame, lfr_responseMode = responseMode\<rparr>))"

definition enc_LinFrameResponse :: "lin_frame_response \<Rightarrow> byte list" where
  "enc_LinFrameResponse msg =
     enc_LinFrame (lfr_frame msg) @ enc_word (lfr_responseMode msg)"

definition ok_LinFrameResponse :: "lin_frame_response \<Rightarrow> bool" where
  "ok_LinFrameResponse msg \<longleftrightarrow>
     ok_LinFrame (lfr_frame msg)"

interpretation LinFrameResponse: strict_codec put_LinFrameResponse get_LinFrameResponse
    enc_LinFrameResponse ok_LinFrameResponse
proof (rule strict_codecI)
  show "ok_LinFrameResponse msg \<Longrightarrow> reads get_LinFrameResponse msg (enc_LinFrameResponse msg)" for msg
    by (cases msg; simp add: get_LinFrameResponse_def enc_LinFrameResponse_def ok_LinFrameResponse_def; (rule wire_reads | simp)+)
qed (simp_all add: put_LinFrameResponse_def enc_LinFrameResponse_def ok_LinFrameResponse_def wire)

lemmas [wire] = LinFrameResponse.put_at
lemmas [wire_reads] = LinFrameResponse.get_reads

interpretation LinFrameResponses: strict_codec "put_vector put_LinFrameResponse" "get_vector get_LinFrameResponse"
    "enc_vector enc_LinFrameResponse" "ok_vector ok_LinFrameResponse"
  by (rule LinFrameResponse.vector)

lemmas [wire] = LinFrameResponses.put_at
lemmas [wire_reads] = LinFrameResponses.get_reads

record lin_controller_status_update =
  lcs_timestamp :: "64 word"
  lcs_status :: "32 word"

definition put_LinControllerStatusUpdate :: "lin_controller_status_update \<Rightarrow> writer" where
  "put_LinControllerStatusUpdate msg =
     puts [put_word (lcs_timestamp msg), put_word (lcs_status msg)]"

definition get_LinControllerStatusUpdate :: "lin_controller_status_update reader" where
  "get_LinControllerStatusUpdate =
     then_get get_word (\<lambda>timestamp. then_get get_word (\<lambda>status.
     got \<lparr>lcs_timestamp = timestamp, lcs_status = status\<rparr>))"

definition enc_LinControllerStatusUpdate :: "lin_controller_status_update \<Rightarrow> byte list" where
  "enc_LinControllerStatusUpdate msg =
     enc_word (lcs_timestamp msg) @ enc_word (lcs_status msg)"

interpretation LinControllerStatusUpdate: strict_codec put_LinControllerStatusUpdate get_LinControllerStatusUpdate
    enc_LinControllerStatusUpdate "\<lambda>_. True"
proof (rule strict_codecI)
  show "reads get_LinControllerStatusUpdate msg (enc_LinControllerStatusUpdate msg)" for msg
    by (cases msg; simp add: get_LinControllerStatusUpdate_def enc_LinControllerStatusUpdate_def; (rule wire_reads | simp)+)
qed (simp_all add: put_LinControllerStatusUpdate_def enc_LinControllerStatusUpdate_def wire)

lemmas [wire] = LinControllerStatusUpdate.put_at
lemmas [wire_reads] = LinControllerStatusUpdate.get_reads

record lin_frame_response_update =
  lfu_frameResponses :: "lin_frame_response list"

definition put_LinFrameResponseUpdate :: "lin_frame_response_update \<Rightarrow> writer" where
  "put_LinFrameResponseUpdate msg =
     puts [put_vector put_LinFrameResponse (lfu_frameResponses msg)]"

definition get_LinFrameResponseUpdate :: "lin_frame_response_update reader" where
  "get_LinFrameResponseUpdate =
     then_get (get_vector get_LinFrameResponse) (\<lambda>frameResponses.
     got \<lparr>lfu_frameResponses = frameResponses\<rparr>)"

definition enc_LinFrameResponseUpdate :: "lin_frame_response_update \<Rightarrow> byte list" where
  "enc_LinFrameResponseUpdate msg =
     enc_vector enc_LinFrameResponse (lfu_frameResponses msg)"

definition ok_LinFrameResponseUpdate :: "lin_frame_response_update \<Rightarrow> bool" where
  "ok_LinFrameResponseUpdate msg \<longleftrightarrow>
     ok_vector ok_LinFrameResponse (lfu_frameResponses msg)"

interpretation LinFrameResponseUpdate: strict_codec put_LinFrameResponseUpdate get_LinFrameResponseUpdate
    enc_LinFrameResponseUpdate ok_LinFrameResponseUpdate
proof (rule strict_codecI)
  show "ok_LinFrameResponseUpdate msg \<Longrightarrow> reads get_LinFrameResponseUpdate msg (enc_LinFrameResponseUpdate msg)" for msg
    by (cases msg; simp add: get_LinFrameResponseUpdate_def enc_LinFrameResponseUpdate_def ok_LinFrameResponseUpdate_def; (rule wire_reads | simp)+)
qed (simp_all add: put_LinFrameResponseUpdate_def enc_LinFrameResponseUpdate_def ok_LinFrameResponseUpdate_def wire)

lemmas [wire] = LinFrameResponseUpdate.put_at
lemmas [wire_reads] = LinFrameResponseUpdate.get_reads

text \<open>
  Older participants do not send the simulation mode of a controller configuration: the
  reader leaves the default when no byte is left.
\<close>

record wire_lin_controller_config =
  lcc_controllerMode :: "8 word"
  lcc_baudRate :: "32 word"
  lcc_frameResponses :: "lin_frame_response list"
  lcc_simulationMode :: "8 word"

definition put_WireLinControllerConfig :: "wire_lin_controller_config \<Rightarrow> writer" where
  "put_WireLinControllerConfig msg =
     puts [put_word (lcc_controllerMode msg), put_word (lcc_baudRate msg),
           put_vector put_LinFrameResponse (lcc_frameResponses msg), put_word (lcc_simulationMode msg)]"

definition get_WireLinControllerConfig :: "wire_lin_controller_config reader" where
  "get_WireLinControllerConfig =
     then_get get_word (\<lambda>controllerMode. then_get get_word (\<lambda>baudRate.
     then_get (get_vector get_LinFrameResponse) (\<lambda>frameResponses b.
       if RemainingBytesLeft b \<ge> 1
       then then_get get_word (\<lambda>simulationMode.
              got \<lparr>lcc_controllerMode = controllerMode, lcc_baudRate = baudRate,
                lcc_frameResponses = frameResponses, lcc_simulationMode = simulationMode\<rparr>) b
       else got \<lparr>lcc_controllerMode = controllerMode, lcc_baudRate = baudRate,
              lcc_frameResponses = frameResponses, lcc_simulationMode = 0\<rparr> b)))"

definition enc_WireLinControllerConfig :: "wire_lin_controller_config \<Rightarrow> byte list" where
  "enc_WireLinControllerConfig msg =
     enc_word (lcc_controllerMode msg) @ enc_word (lcc_baudRate msg) @
     enc_vector enc_LinFrameResponse (lcc_frameResponses msg) @ enc_word (lcc_simulationMode msg)"

definition ok_WireLinControllerConfig :: "wire_lin_controller_config \<Rightarrow> bool" where
  "ok_WireLinControllerConfig msg \<longleftrightarrow> ok_vector ok_LinFrameResponse (lcc_frameResponses msg)"

interpretation WireLinControllerConfig: codec put_WireLinControllerConfig get_WireLinControllerConfig
    enc_WireLinControllerConfig ok_WireLinControllerConfig
  by unfold_locales
    (simp_all add: put_WireLinControllerConfig_def get_WireLinControllerConfig_def then_get_def got_def
      enc_WireLinControllerConfig_def ok_WireLinControllerConfig_def wire word_get_at LinFrameResponses.get_at
      Suc_le_eq)

section \<open>Properties\<close>

text \<open>
  CAN and Ethernet messages survive the wire: whatever a controller sends is read
  back unchanged on the other side with no byte left over, and a message that has been cut
  off anywhere is refused instead of being read as another message.
\<close>

theorem can_and_ethernet_messages_survive:
  assumes "ok_WireCanFrameEvent can" "ok_WireEthernetFrameEvent eth"
  shows "survives put_WireCanFrameEvent get_WireCanFrameEvent can \<and>
    survives put_CanFrameTransmitEvent get_CanFrameTransmitEvent can_ack \<and>
    survives put_CanControllerStatus get_CanControllerStatus can_status \<and>
    survives put_CanConfigureBaudrate get_CanConfigureBaudrate baudrate \<and>
    survives put_CanSetControllerMode get_CanSetControllerMode can_mode \<and>
    survives put_WireEthernetFrameEvent get_WireEthernetFrameEvent eth \<and>
    survives put_EthernetFrameTransmitEvent get_EthernetFrameTransmitEvent eth_ack \<and>
    survives put_EthernetStatus get_EthernetStatus eth_status \<and>
    survives put_EthernetSetMode get_EthernetSetMode eth_mode"
  using assms
  by (simp add: WireCanFrameEvent.sound CanFrameTransmitEvent.sound CanControllerStatus.sound
      CanConfigureBaudrate.sound CanSetControllerMode.sound WireEthernetFrameEvent.sound
      EthernetFrameTransmitEvent.sound EthernetStatus.sound EthernetSetMode.sound)

definition example_can_frame :: wire_can_frame_event where
  "example_can_frame = \<lparr>cfe_timestamp = 5,
     cfe_frame = \<lparr>can_canId = 17, can_flags = 0, can_dlc = 2, can_sdt = 0, can_vcid = 0, can_af = 0,
       can_dataField = [1, 2]\<rparr>, cfe_direction = 1, cfe_userContext = 0\<rparr>"

theorem can_and_ethernet_messages_survive_witness:
  "survives put_WireCanFrameEvent get_WireCanFrameEvent example_can_frame \<and>
   survives put_CanFrameTransmitEvent get_CanFrameTransmitEvent
     \<lparr>cft_canId = 17, cft_timestamp = 6, cft_status = 1, cft_userContext = 0\<rparr> \<and>
   survives put_CanControllerStatus get_CanControllerStatus
     \<lparr>ccs_timestamp = 6, ccs_controllerState = 2, ccs_errorState = 1\<rparr> \<and>
   survives put_CanConfigureBaudrate get_CanConfigureBaudrate
     \<lparr>ccb_baudRate = 500000, ccb_fdBaudRate = 0, ccb_xlBaudRate = 0\<rparr> \<and>
   survives put_CanSetControllerMode get_CanSetControllerMode \<lparr>csm_flags = 1, csm_mode = 2\<rparr> \<and>
   survives put_WireEthernetFrameEvent get_WireEthernetFrameEvent
     \<lparr>efe_timestamp = 7, efe_frame = \<lparr>ef_raw = replicate 60 0\<rparr>, efe_direction = 1, efe_userContext = 0\<rparr> \<and>
   survives put_EthernetFrameTransmitEvent get_EthernetFrameTransmitEvent
     \<lparr>eft_timestamp = 8, eft_status = 0, eft_userContext = 0\<rparr> \<and>
   survives put_EthernetStatus get_EthernetStatus \<lparr>es_timestamp = 8, es_state = 2, es_bitrate = 100000\<rparr> \<and>
   survives put_EthernetSetMode get_EthernetSetMode \<lparr>esm_mode = 1\<rparr>"
  by (rule can_and_ethernet_messages_survive)
    (simp_all add: ok_WireCanFrameEvent_def example_can_frame_def ok_WireEthernetFrameEvent_def
      ok_WireEthernetFrame_def max_size_def)

lemma lin_config_without_mode:
  assumes "ok_WireLinControllerConfig config"
  shows "reads_without 1 put_WireLinControllerConfig get_WireLinControllerConfig config
    (config\<lparr>lcc_simulationMode := 0\<rparr>)"
  using assms LinFrameResponses.get_at [of "lcc_frameResponses config" _ _ "[]"]
  by (simp add: reads_without_def empty_buffer_at WireLinControllerConfig.put_at buffer_of_at
      enc_WireLinControllerConfig_def get_WireLinControllerConfig_def then_get_def got_def
      ok_WireLinControllerConfig_def word_get_at)

text \<open>
  LIN messages survive the wire, and a controller configuration is understood
  across versions: it is read back unchanged, and the configuration of an older participant,
  which does not send the simulation mode, is read with the default mode.
\<close>

theorem lin_messages_survive:
  assumes "ok_LinFrame frame" "ok_vector ok_LinFrameResponse responses"
  shows "survives put_LinSendFrameRequest get_LinSendFrameRequest
      \<lparr>lsf_frame = frame, lsf_responseType = type\<rparr> \<and>
    survives put_LinSendFrameHeaderRequest get_LinSendFrameHeaderRequest header \<and>
    survives put_LinTransmission get_LinTransmission
      \<lparr>lt_timestamp = t, lt_frame = frame, lt_status = status\<rparr> \<and>
    survives put_LinWakeupPulse get_LinWakeupPulse pulse \<and>
    survives put_LinControllerStatusUpdate get_LinControllerStatusUpdate update \<and>
    survives put_LinFrameResponseUpdate get_LinFrameResponseUpdate \<lparr>lfu_frameResponses = responses\<rparr> \<and>
    reads_back put_WireLinControllerConfig get_WireLinControllerConfig
      \<lparr>lcc_controllerMode = m, lcc_baudRate = r, lcc_frameResponses = responses, lcc_simulationMode = s\<rparr> \<and>
    reads_without 1 put_WireLinControllerConfig get_WireLinControllerConfig
      \<lparr>lcc_controllerMode = m, lcc_baudRate = r, lcc_frameResponses = responses, lcc_simulationMode = s\<rparr>
      \<lparr>lcc_controllerMode = m, lcc_baudRate = r, lcc_frameResponses = responses, lcc_simulationMode = 0\<rparr>"
  using assms lin_config_without_mode [of "\<lparr>lcc_controllerMode = m, lcc_baudRate = r,
      lcc_frameResponses = responses, lcc_simulationMode = s\<rparr>"]
  by (simp add: LinSendFrameRequest.sound ok_LinSendFrameRequest_def LinSendFrameHeaderRequest.sound
      LinTransmission.sound ok_LinTransmission_def LinWakeupPulse.sound LinControllerStatusUpdate.sound
      LinFrameResponseUpdate.sound ok_LinFrameResponseUpdate_def WireLinControllerConfig.round_trip
      ok_WireLinControllerConfig_def)

definition example_lin_frame :: lin_frame where
  "example_lin_frame = \<lparr>lf_id = 13, lf_checksumModel = 1, lf_dataLength = 8, lf_data = [1, 2, 3, 4, 5, 6, 7, 8]\<rparr>"

definition example_lin_responses :: "lin_frame_response list" where
  "example_lin_responses = [\<lparr>lfr_frame = example_lin_frame, lfr_responseMode = 2\<rparr>]"

theorem lin_messages_survive_witness:
  "survives put_LinSendFrameRequest get_LinSendFrameRequest
     \<lparr>lsf_frame = example_lin_frame, lsf_responseType = 0\<rparr> \<and>
   survives put_LinSendFrameHeaderRequest get_LinSendFrameHeaderRequest \<lparr>lsh_timestamp = 1, lsh_id = 13\<rparr> \<and>
   survives put_LinTransmission get_LinTransmission
     \<lparr>lt_timestamp = 1, lt_frame = example_lin_frame, lt_status = 5\<rparr> \<and>
   survives put_LinWakeupPulse get_LinWakeupPulse \<lparr>lwp_timestamp = 1, lwp_direction = 1\<rparr> \<and>
   survives put_LinControllerStatusUpdate get_LinControllerStatusUpdate \<lparr>lcs_timestamp = 1, lcs_status = 1\<rparr> \<and>
   survives put_LinFrameResponseUpdate get_LinFrameResponseUpdate \<lparr>lfu_frameResponses = example_lin_responses\<rparr> \<and>
   reads_back put_WireLinControllerConfig get_WireLinControllerConfig
     \<lparr>lcc_controllerMode = 1, lcc_baudRate = 19200, lcc_frameResponses = example_lin_responses,
       lcc_simulationMode = 1\<rparr> \<and>
   reads_without 1 put_WireLinControllerConfig get_WireLinControllerConfig
     \<lparr>lcc_controllerMode = 1, lcc_baudRate = 19200, lcc_frameResponses = example_lin_responses,
       lcc_simulationMode = 1\<rparr>
     \<lparr>lcc_controllerMode = 1, lcc_baudRate = 19200, lcc_frameResponses = example_lin_responses,
       lcc_simulationMode = 0\<rparr>"
  by (rule lin_messages_survive)
    (simp_all add: ok_LinFrame_def example_lin_frame_def example_lin_responses_def ok_vector_def
      ok_LinFrameResponse_def max_size_def)

end
