(* ===== verification/FlexraySerdes.thy ===== *)
theory FlexraySerdes
  imports MessageBuffer
begin

text \<open>
  The messages of the FlexRay service on the wire (\<open>FlexraySerdes.cpp\<close>,
  \<open>wire/flexray/WireFlexrayMessages.hpp\<close>, \<open>FlexrayDatatypes.hpp\<close>), with the configuration
  that was extended in its second version.
\<close>

section \<open>Frames, symbols and cycles\<close>

record flexray_header =
  fh_flags :: "8 word"
  fh_frameId :: "16 word"
  fh_payloadLength :: "8 word"
  fh_headerCrc :: "16 word"
  fh_cycleCount :: "8 word"

definition put_FlexrayHeader :: "flexray_header \<Rightarrow> writer" where
  "put_FlexrayHeader msg =
     puts [put_word (fh_flags msg), put_word (fh_frameId msg),
           put_word (fh_payloadLength msg), put_word (fh_headerCrc msg),
           put_word (fh_cycleCount msg)]"

definition get_FlexrayHeader :: "flexray_header reader" where
  "get_FlexrayHeader =
     then_get get_word (\<lambda>flags. then_get get_word (\<lambda>frameId.
     then_get get_word (\<lambda>payloadLength. then_get get_word (\<lambda>headerCrc.
     then_get get_word (\<lambda>cycleCount.
     got \<lparr>fh_flags = flags, fh_frameId = frameId, fh_payloadLength = payloadLength,
        fh_headerCrc = headerCrc, fh_cycleCount = cycleCount\<rparr>)))))"

definition enc_FlexrayHeader :: "flexray_header \<Rightarrow> byte list" where
  "enc_FlexrayHeader msg =
     enc_word (fh_flags msg) @ enc_word (fh_frameId msg) @ enc_word (fh_payloadLength msg) @
     enc_word (fh_headerCrc msg) @ enc_word (fh_cycleCount msg)"

interpretation FlexrayHeader: strict_codec put_FlexrayHeader get_FlexrayHeader
    enc_FlexrayHeader "\<lambda>_. True"
proof (rule strict_codecI)
  show "reads get_FlexrayHeader msg (enc_FlexrayHeader msg)" for msg
    by (cases msg; simp add: get_FlexrayHeader_def enc_FlexrayHeader_def; (rule wire_reads | simp)+)
qed (simp_all add: put_FlexrayHeader_def enc_FlexrayHeader_def wire)

lemmas [wire] = FlexrayHeader.put_at
lemmas [wire_reads] = FlexrayHeader.get_reads

record wire_flexray_frame =
  ff_header :: "flexray_header"
  ff_payload :: "byte list"

definition put_WireFlexrayFrame :: "wire_flexray_frame \<Rightarrow> writer" where
  "put_WireFlexrayFrame msg =
     puts [put_FlexrayHeader (ff_header msg), put_blob (ff_payload msg)]"

definition get_WireFlexrayFrame :: "wire_flexray_frame reader" where
  "get_WireFlexrayFrame =
     then_get get_FlexrayHeader (\<lambda>header. then_get get_blob (\<lambda>payload.
     got \<lparr>ff_header = header, ff_payload = payload\<rparr>))"

definition enc_WireFlexrayFrame :: "wire_flexray_frame \<Rightarrow> byte list" where
  "enc_WireFlexrayFrame msg =
     enc_FlexrayHeader (ff_header msg) @ enc_blob (ff_payload msg)"

definition ok_WireFlexrayFrame :: "wire_flexray_frame \<Rightarrow> bool" where
  "ok_WireFlexrayFrame msg \<longleftrightarrow>
     length (ff_payload msg) \<le> max_size"

interpretation WireFlexrayFrame: strict_codec put_WireFlexrayFrame get_WireFlexrayFrame
    enc_WireFlexrayFrame ok_WireFlexrayFrame
proof (rule strict_codecI)
  show "ok_WireFlexrayFrame msg \<Longrightarrow> reads get_WireFlexrayFrame msg (enc_WireFlexrayFrame msg)" for msg
    by (cases msg; simp add: get_WireFlexrayFrame_def enc_WireFlexrayFrame_def ok_WireFlexrayFrame_def; (rule wire_reads | simp)+)
qed (simp_all add: put_WireFlexrayFrame_def enc_WireFlexrayFrame_def ok_WireFlexrayFrame_def wire)

lemmas [wire] = WireFlexrayFrame.put_at
lemmas [wire_reads] = WireFlexrayFrame.get_reads

record wire_flexray_frame_event =
  ffe_timestamp :: "64 word"
  ffe_channel :: "32 word"
  ffe_frame :: "wire_flexray_frame"

definition put_WireFlexrayFrameEvent :: "wire_flexray_frame_event \<Rightarrow> writer" where
  "put_WireFlexrayFrameEvent msg =
     puts [put_word (ffe_timestamp msg), put_word (ffe_channel msg),
           put_WireFlexrayFrame (ffe_frame msg)]"

definition get_WireFlexrayFrameEvent :: "wire_flexray_frame_event reader" where
  "get_WireFlexrayFrameEvent =
     then_get get_word (\<lambda>timestamp. then_get get_word (\<lambda>channel.
     then_get get_WireFlexrayFrame (\<lambda>frame.
     got \<lparr>ffe_timestamp = timestamp, ffe_channel = channel, ffe_frame = frame\<rparr>)))"

definition enc_WireFlexrayFrameEvent :: "wire_flexray_frame_event \<Rightarrow> byte list" where
  "enc_WireFlexrayFrameEvent msg =
     enc_word (ffe_timestamp msg) @ enc_word (ffe_channel msg) @
     enc_WireFlexrayFrame (ffe_frame msg)"

definition ok_WireFlexrayFrameEvent :: "wire_flexray_frame_event \<Rightarrow> bool" where
  "ok_WireFlexrayFrameEvent msg \<longleftrightarrow>
     ok_WireFlexrayFrame (ffe_frame msg)"

interpretation WireFlexrayFrameEvent: strict_codec put_WireFlexrayFrameEvent get_WireFlexrayFrameEvent
    enc_WireFlexrayFrameEvent ok_WireFlexrayFrameEvent
proof (rule strict_codecI)
  show "ok_WireFlexrayFrameEvent msg \<Longrightarrow> reads get_WireFlexrayFrameEvent msg (enc_WireFlexrayFrameEvent msg)" for msg
    by (cases msg; simp add: get_WireFlexrayFrameEvent_def enc_WireFlexrayFrameEvent_def ok_WireFlexrayFrameEvent_def; (rule wire_reads | simp)+)
qed (simp_all add: put_WireFlexrayFrameEvent_def enc_WireFlexrayFrameEvent_def ok_WireFlexrayFrameEvent_def wire)

lemmas [wire] = WireFlexrayFrameEvent.put_at
lemmas [wire_reads] = WireFlexrayFrameEvent.get_reads

record wire_flexray_frame_transmit_event =
  fft_timestamp :: "64 word"
  fft_txBufferIndex :: "16 word"
  fft_channel :: "32 word"
  fft_frame :: "wire_flexray_frame"

definition put_WireFlexrayFrameTransmitEvent :: "wire_flexray_frame_transmit_event \<Rightarrow> writer" where
  "put_WireFlexrayFrameTransmitEvent msg =
     puts [put_word (fft_timestamp msg), put_word (fft_txBufferIndex msg),
           put_word (fft_channel msg), put_WireFlexrayFrame (fft_frame msg)]"

definition get_WireFlexrayFrameTransmitEvent :: "wire_flexray_frame_transmit_event reader" where
  "get_WireFlexrayFrameTransmitEvent =
     then_get get_word (\<lambda>timestamp. then_get get_word (\<lambda>txBufferIndex.
     then_get get_word (\<lambda>channel. then_get get_WireFlexrayFrame (\<lambda>frame.
     got \<lparr>fft_timestamp = timestamp, fft_txBufferIndex = txBufferIndex, fft_channel = channel,
        fft_frame = frame\<rparr>))))"

definition enc_WireFlexrayFrameTransmitEvent :: "wire_flexray_frame_transmit_event \<Rightarrow> byte list" where
  "enc_WireFlexrayFrameTransmitEvent msg =
     enc_word (fft_timestamp msg) @ enc_word (fft_txBufferIndex msg) @
     enc_word (fft_channel msg) @ enc_WireFlexrayFrame (fft_frame msg)"

definition ok_WireFlexrayFrameTransmitEvent :: "wire_flexray_frame_transmit_event \<Rightarrow> bool" where
  "ok_WireFlexrayFrameTransmitEvent msg \<longleftrightarrow>
     ok_WireFlexrayFrame (fft_frame msg)"

interpretation WireFlexrayFrameTransmitEvent: strict_codec put_WireFlexrayFrameTransmitEvent get_WireFlexrayFrameTransmitEvent
    enc_WireFlexrayFrameTransmitEvent ok_WireFlexrayFrameTransmitEvent
proof (rule strict_codecI)
  show "ok_WireFlexrayFrameTransmitEvent msg \<Longrightarrow> reads get_WireFlexrayFrameTransmitEvent msg (enc_WireFlexrayFrameTransmitEvent msg)" for msg
    by (cases msg; simp add: get_WireFlexrayFrameTransmitEvent_def enc_WireFlexrayFrameTransmitEvent_def ok_WireFlexrayFrameTransmitEvent_def; (rule wire_reads | simp)+)
qed (simp_all add: put_WireFlexrayFrameTransmitEvent_def enc_WireFlexrayFrameTransmitEvent_def ok_WireFlexrayFrameTransmitEvent_def wire)

lemmas [wire] = WireFlexrayFrameTransmitEvent.put_at
lemmas [wire_reads] = WireFlexrayFrameTransmitEvent.get_reads

record flexray_symbol_event =
  fs_timestamp :: "64 word"
  fs_channel :: "32 word"
  fs_pattern :: "8 word"

definition put_FlexraySymbolEvent :: "flexray_symbol_event \<Rightarrow> writer" where
  "put_FlexraySymbolEvent msg =
     puts [put_word (fs_timestamp msg), put_word (fs_channel msg), put_word (fs_pattern msg)]"

definition get_FlexraySymbolEvent :: "flexray_symbol_event reader" where
  "get_FlexraySymbolEvent =
     then_get get_word (\<lambda>timestamp. then_get get_word (\<lambda>channel.
     then_get get_word (\<lambda>pattern.
     got \<lparr>fs_timestamp = timestamp, fs_channel = channel, fs_pattern = pattern\<rparr>)))"

definition enc_FlexraySymbolEvent :: "flexray_symbol_event \<Rightarrow> byte list" where
  "enc_FlexraySymbolEvent msg =
     enc_word (fs_timestamp msg) @ enc_word (fs_channel msg) @ enc_word (fs_pattern msg)"

interpretation FlexraySymbolEvent: strict_codec put_FlexraySymbolEvent get_FlexraySymbolEvent
    enc_FlexraySymbolEvent "\<lambda>_. True"
proof (rule strict_codecI)
  show "reads get_FlexraySymbolEvent msg (enc_FlexraySymbolEvent msg)" for msg
    by (cases msg; simp add: get_FlexraySymbolEvent_def enc_FlexraySymbolEvent_def; (rule wire_reads | simp)+)
qed (simp_all add: put_FlexraySymbolEvent_def enc_FlexraySymbolEvent_def wire)

lemmas [wire] = FlexraySymbolEvent.put_at
lemmas [wire_reads] = FlexraySymbolEvent.get_reads

text \<open>\<open>FlexraySymbolTransmitEvent\<close> derives from \<open>FlexraySymbolEvent\<close> without a field of its own.\<close>

type_synonym flexray_symbol_transmit_event = flexray_symbol_event

definition put_FlexraySymbolTransmitEvent :: "flexray_symbol_transmit_event \<Rightarrow> writer" where
  "put_FlexraySymbolTransmitEvent ack = put_FlexraySymbolEvent ack"

definition get_FlexraySymbolTransmitEvent :: "flexray_symbol_transmit_event reader" where
  "get_FlexraySymbolTransmitEvent = get_FlexraySymbolEvent"

interpretation FlexraySymbolTransmitEvent: strict_codec put_FlexraySymbolTransmitEvent
    get_FlexraySymbolTransmitEvent enc_FlexraySymbolEvent "\<lambda>_. True"
proof (rule strict_codecI)
  show "reads get_FlexraySymbolTransmitEvent msg (enc_FlexraySymbolEvent msg)" for msg
    unfolding get_FlexraySymbolTransmitEvent_def by (rule FlexraySymbolEvent.get_reads) simp
qed (simp_all add: put_FlexraySymbolTransmitEvent_def wire FlexraySymbolEvent.nonempty)

record flexray_cycle_start_event =
  fc_timestamp :: "64 word"
  fc_cycleCounter :: "8 word"

definition put_FlexrayCycleStartEvent :: "flexray_cycle_start_event \<Rightarrow> writer" where
  "put_FlexrayCycleStartEvent msg =
     puts [put_word (fc_timestamp msg), put_word (fc_cycleCounter msg)]"

definition get_FlexrayCycleStartEvent :: "flexray_cycle_start_event reader" where
  "get_FlexrayCycleStartEvent =
     then_get get_word (\<lambda>timestamp. then_get get_word (\<lambda>cycleCounter.
     got \<lparr>fc_timestamp = timestamp, fc_cycleCounter = cycleCounter\<rparr>))"

definition enc_FlexrayCycleStartEvent :: "flexray_cycle_start_event \<Rightarrow> byte list" where
  "enc_FlexrayCycleStartEvent msg =
     enc_word (fc_timestamp msg) @ enc_word (fc_cycleCounter msg)"

interpretation FlexrayCycleStartEvent: strict_codec put_FlexrayCycleStartEvent get_FlexrayCycleStartEvent
    enc_FlexrayCycleStartEvent "\<lambda>_. True"
proof (rule strict_codecI)
  show "reads get_FlexrayCycleStartEvent msg (enc_FlexrayCycleStartEvent msg)" for msg
    by (cases msg; simp add: get_FlexrayCycleStartEvent_def enc_FlexrayCycleStartEvent_def; (rule wire_reads | simp)+)
qed (simp_all add: put_FlexrayCycleStartEvent_def enc_FlexrayCycleStartEvent_def wire)

lemmas [wire] = FlexrayCycleStartEvent.put_at
lemmas [wire_reads] = FlexrayCycleStartEvent.get_reads

record flexray_host_command =
  fhc_command :: "8 word"

definition put_FlexrayHostCommand :: "flexray_host_command \<Rightarrow> writer" where
  "put_FlexrayHostCommand msg =
     puts [put_word (fhc_command msg)]"

definition get_FlexrayHostCommand :: "flexray_host_command reader" where
  "get_FlexrayHostCommand =
     then_get get_word (\<lambda>command.
     got \<lparr>fhc_command = command\<rparr>)"

definition enc_FlexrayHostCommand :: "flexray_host_command \<Rightarrow> byte list" where
  "enc_FlexrayHostCommand msg =
     enc_word (fhc_command msg)"

interpretation FlexrayHostCommand: strict_codec put_FlexrayHostCommand get_FlexrayHostCommand
    enc_FlexrayHostCommand "\<lambda>_. True"
proof (rule strict_codecI)
  show "reads get_FlexrayHostCommand msg (enc_FlexrayHostCommand msg)" for msg
    by (cases msg; simp add: get_FlexrayHostCommand_def enc_FlexrayHostCommand_def; (rule wire_reads | simp)+)
qed (simp_all add: put_FlexrayHostCommand_def enc_FlexrayHostCommand_def wire)

lemmas [wire] = FlexrayHostCommand.put_at
lemmas [wire_reads] = FlexrayHostCommand.get_reads

section \<open>Configuration\<close>

record flexray_cluster_parameters =
  cp_gColdstartAttempts :: "8 word"
  cp_gCycleCountMax :: "8 word"
  cp_gdActionPointOffset :: "16 word"
  cp_gdDynamicSlotIdlePhase :: "16 word"
  cp_gdMiniSlot :: "16 word"
  cp_gdMiniSlotActionPointOffset :: "16 word"
  cp_gdStaticSlot :: "16 word"
  cp_gdSymbolWindow :: "16 word"
  cp_gdSymbolWindowActionPointOffset :: "16 word"
  cp_gdTSSTransmitter :: "16 word"
  cp_gdWakeupTxActive :: "16 word"
  cp_gdWakeupTxIdle :: "16 word"
  cp_gListenNoise :: "8 word"
  cp_gMacroPerCycle :: "16 word"
  cp_gMaxWithoutClockCorrectionFatal :: "8 word"
  cp_gMaxWithoutClockCorrectionPassive :: "8 word"
  cp_gNumberOfMiniSlots :: "16 word"
  cp_gNumberOfStaticSlots :: "16 word"
  cp_gPayloadLengthStatic :: "16 word"
  cp_gSyncFrameIDCountMax :: "8 word"

definition put_FlexrayClusterParameters :: "flexray_cluster_parameters \<Rightarrow> writer" where
  "put_FlexrayClusterParameters msg =
     puts [put_word (cp_gColdstartAttempts msg), put_word (cp_gCycleCountMax msg),
           put_word (cp_gdActionPointOffset msg), put_word (cp_gdDynamicSlotIdlePhase msg),
           put_word (cp_gdMiniSlot msg), put_word (cp_gdMiniSlotActionPointOffset msg),
           put_word (cp_gdStaticSlot msg), put_word (cp_gdSymbolWindow msg),
           put_word (cp_gdSymbolWindowActionPointOffset msg),
           put_word (cp_gdTSSTransmitter msg), put_word (cp_gdWakeupTxActive msg),
           put_word (cp_gdWakeupTxIdle msg), put_word (cp_gListenNoise msg),
           put_word (cp_gMacroPerCycle msg),
           put_word (cp_gMaxWithoutClockCorrectionFatal msg),
           put_word (cp_gMaxWithoutClockCorrectionPassive msg),
           put_word (cp_gNumberOfMiniSlots msg), put_word (cp_gNumberOfStaticSlots msg),
           put_word (cp_gPayloadLengthStatic msg), put_word (cp_gSyncFrameIDCountMax msg)]"

definition get_FlexrayClusterParameters :: "flexray_cluster_parameters reader" where
  "get_FlexrayClusterParameters =
     then_get get_word (\<lambda>gColdstartAttempts.
     then_get get_word (\<lambda>gCycleCountMax.
     then_get get_word (\<lambda>gdActionPointOffset.
     then_get get_word (\<lambda>gdDynamicSlotIdlePhase.
     then_get get_word (\<lambda>gdMiniSlot.
     then_get get_word (\<lambda>gdMiniSlotActionPointOffset.
     then_get get_word (\<lambda>gdStaticSlot. then_get get_word (\<lambda>gdSymbolWindow.
     then_get get_word (\<lambda>gdSymbolWindowActionPointOffset.
     then_get get_word (\<lambda>gdTSSTransmitter.
     then_get get_word (\<lambda>gdWakeupTxActive.
     then_get get_word (\<lambda>gdWakeupTxIdle. then_get get_word (\<lambda>gListenNoise.
     then_get get_word (\<lambda>gMacroPerCycle.
     then_get get_word (\<lambda>gMaxWithoutClockCorrectionFatal.
     then_get get_word (\<lambda>gMaxWithoutClockCorrectionPassive.
     then_get get_word (\<lambda>gNumberOfMiniSlots.
     then_get get_word (\<lambda>gNumberOfStaticSlots.
     then_get get_word (\<lambda>gPayloadLengthStatic.
     then_get get_word (\<lambda>gSyncFrameIDCountMax.
     got \<lparr>cp_gColdstartAttempts = gColdstartAttempts, cp_gCycleCountMax = gCycleCountMax,
        cp_gdActionPointOffset = gdActionPointOffset,
        cp_gdDynamicSlotIdlePhase = gdDynamicSlotIdlePhase, cp_gdMiniSlot = gdMiniSlot,
        cp_gdMiniSlotActionPointOffset = gdMiniSlotActionPointOffset,
        cp_gdStaticSlot = gdStaticSlot, cp_gdSymbolWindow = gdSymbolWindow,
        cp_gdSymbolWindowActionPointOffset = gdSymbolWindowActionPointOffset,
        cp_gdTSSTransmitter = gdTSSTransmitter, cp_gdWakeupTxActive = gdWakeupTxActive,
        cp_gdWakeupTxIdle = gdWakeupTxIdle, cp_gListenNoise = gListenNoise,
        cp_gMacroPerCycle = gMacroPerCycle,
        cp_gMaxWithoutClockCorrectionFatal = gMaxWithoutClockCorrectionFatal,
        cp_gMaxWithoutClockCorrectionPassive = gMaxWithoutClockCorrectionPassive,
        cp_gNumberOfMiniSlots = gNumberOfMiniSlots,
        cp_gNumberOfStaticSlots = gNumberOfStaticSlots,
        cp_gPayloadLengthStatic = gPayloadLengthStatic,
        cp_gSyncFrameIDCountMax = gSyncFrameIDCountMax\<rparr>))))))))))))))))))))"

definition enc_FlexrayClusterParameters :: "flexray_cluster_parameters \<Rightarrow> byte list" where
  "enc_FlexrayClusterParameters msg =
     enc_word (cp_gColdstartAttempts msg) @ enc_word (cp_gCycleCountMax msg) @
     enc_word (cp_gdActionPointOffset msg) @ enc_word (cp_gdDynamicSlotIdlePhase msg) @
     enc_word (cp_gdMiniSlot msg) @ enc_word (cp_gdMiniSlotActionPointOffset msg) @
     enc_word (cp_gdStaticSlot msg) @ enc_word (cp_gdSymbolWindow msg) @
     enc_word (cp_gdSymbolWindowActionPointOffset msg) @
     enc_word (cp_gdTSSTransmitter msg) @ enc_word (cp_gdWakeupTxActive msg) @
     enc_word (cp_gdWakeupTxIdle msg) @ enc_word (cp_gListenNoise msg) @
     enc_word (cp_gMacroPerCycle msg) @ enc_word (cp_gMaxWithoutClockCorrectionFatal msg) @
     enc_word (cp_gMaxWithoutClockCorrectionPassive msg) @
     enc_word (cp_gNumberOfMiniSlots msg) @ enc_word (cp_gNumberOfStaticSlots msg) @
     enc_word (cp_gPayloadLengthStatic msg) @ enc_word (cp_gSyncFrameIDCountMax msg)"

interpretation FlexrayClusterParameters: strict_codec put_FlexrayClusterParameters get_FlexrayClusterParameters
    enc_FlexrayClusterParameters "\<lambda>_. True"
proof (rule strict_codecI)
  show "reads get_FlexrayClusterParameters msg (enc_FlexrayClusterParameters msg)" for msg
    by (cases msg; simp add: get_FlexrayClusterParameters_def enc_FlexrayClusterParameters_def; (rule wire_reads | simp)+)
qed (simp_all add: put_FlexrayClusterParameters_def enc_FlexrayClusterParameters_def wire)

lemmas [wire] = FlexrayClusterParameters.put_at
lemmas [wire_reads] = FlexrayClusterParameters.get_reads

text \<open>
  The operators of the node parameters leave the two fields of the second version out; the
  configuration writes them after the buffers. The target of the reader starts zeroed.
\<close>

record flexray_node_parameters =
  np_pAllowHaltDueToClock :: "8 word"
  np_pAllowPassiveToActive :: "8 word"
  np_pChannels :: "32 word"
  np_pClusterDriftDamping :: "8 word"
  np_pdAcceptedStartupRange :: "32 word"
  np_pdListenTimeout :: "32 word"
  np_pKeySlotId :: "16 word"
  np_pKeySlotOnlyEnabled :: "8 word"
  np_pKeySlotUsedForStartup :: "8 word"
  np_pKeySlotUsedForSync :: "8 word"
  np_pLatestTx :: "16 word"
  np_pMacroInitialOffsetA :: "8 word"
  np_pMacroInitialOffsetB :: "8 word"
  np_pMicroInitialOffsetA :: "32 word"
  np_pMicroInitialOffsetB :: "32 word"
  np_pMicroPerCycle :: "32 word"
  np_pOffsetCorrectionOut :: "32 word"
  np_pOffsetCorrectionStart :: "16 word"
  np_pRateCorrectionOut :: "32 word"
  np_pWakeupChannel :: "32 word"
  np_pWakeupPattern :: "8 word"
  np_pdMicrotick :: "32 word"
  np_pSamplesPerMicrotick :: "8 word"
  np_pSecondKeySlotId :: "16 word"
  np_pTwoKeySlotMode :: "8 word"

definition put_FlexrayNodeParameters :: "flexray_node_parameters \<Rightarrow> writer" where
  "put_FlexrayNodeParameters msg =
     puts [put_word (np_pAllowHaltDueToClock msg), put_word (np_pAllowPassiveToActive msg),
           put_word (np_pChannels msg), put_word (np_pClusterDriftDamping msg),
           put_word (np_pdAcceptedStartupRange msg), put_word (np_pdListenTimeout msg),
           put_word (np_pKeySlotId msg), put_word (np_pKeySlotOnlyEnabled msg),
           put_word (np_pKeySlotUsedForStartup msg), put_word (np_pKeySlotUsedForSync msg),
           put_word (np_pLatestTx msg), put_word (np_pMacroInitialOffsetA msg),
           put_word (np_pMacroInitialOffsetB msg), put_word (np_pMicroInitialOffsetA msg),
           put_word (np_pMicroInitialOffsetB msg), put_word (np_pMicroPerCycle msg),
           put_word (np_pOffsetCorrectionOut msg), put_word (np_pOffsetCorrectionStart msg),
           put_word (np_pRateCorrectionOut msg), put_word (np_pWakeupChannel msg),
           put_word (np_pWakeupPattern msg), put_word (np_pdMicrotick msg),
           put_word (np_pSamplesPerMicrotick msg)]"

definition get_FlexrayNodeParameters :: "flexray_node_parameters reader" where
  "get_FlexrayNodeParameters =
     then_get get_word (\<lambda>pAllowHaltDueToClock.
     then_get get_word (\<lambda>pAllowPassiveToActive.
     then_get get_word (\<lambda>pChannels.
     then_get get_word (\<lambda>pClusterDriftDamping.
     then_get get_word (\<lambda>pdAcceptedStartupRange.
     then_get get_word (\<lambda>pdListenTimeout. then_get get_word (\<lambda>pKeySlotId.
     then_get get_word (\<lambda>pKeySlotOnlyEnabled.
     then_get get_word (\<lambda>pKeySlotUsedForStartup.
     then_get get_word (\<lambda>pKeySlotUsedForSync. then_get get_word (\<lambda>pLatestTx.
     then_get get_word (\<lambda>pMacroInitialOffsetA.
     then_get get_word (\<lambda>pMacroInitialOffsetB.
     then_get get_word (\<lambda>pMicroInitialOffsetA.
     then_get get_word (\<lambda>pMicroInitialOffsetB.
     then_get get_word (\<lambda>pMicroPerCycle.
     then_get get_word (\<lambda>pOffsetCorrectionOut.
     then_get get_word (\<lambda>pOffsetCorrectionStart.
     then_get get_word (\<lambda>pRateCorrectionOut.
     then_get get_word (\<lambda>pWakeupChannel. then_get get_word (\<lambda>pWakeupPattern.
     then_get get_word (\<lambda>pdMicrotick.
     then_get get_word (\<lambda>pSamplesPerMicrotick.
     got \<lparr>np_pAllowHaltDueToClock = pAllowHaltDueToClock,
        np_pAllowPassiveToActive = pAllowPassiveToActive, np_pChannels = pChannels,
        np_pClusterDriftDamping = pClusterDriftDamping,
        np_pdAcceptedStartupRange = pdAcceptedStartupRange,
        np_pdListenTimeout = pdListenTimeout, np_pKeySlotId = pKeySlotId,
        np_pKeySlotOnlyEnabled = pKeySlotOnlyEnabled,
        np_pKeySlotUsedForStartup = pKeySlotUsedForStartup,
        np_pKeySlotUsedForSync = pKeySlotUsedForSync, np_pLatestTx = pLatestTx,
        np_pMacroInitialOffsetA = pMacroInitialOffsetA,
        np_pMacroInitialOffsetB = pMacroInitialOffsetB,
        np_pMicroInitialOffsetA = pMicroInitialOffsetA,
        np_pMicroInitialOffsetB = pMicroInitialOffsetB, np_pMicroPerCycle = pMicroPerCycle,
        np_pOffsetCorrectionOut = pOffsetCorrectionOut,
        np_pOffsetCorrectionStart = pOffsetCorrectionStart,
        np_pRateCorrectionOut = pRateCorrectionOut, np_pWakeupChannel = pWakeupChannel,
        np_pWakeupPattern = pWakeupPattern, np_pdMicrotick = pdMicrotick,
        np_pSamplesPerMicrotick = pSamplesPerMicrotick,
        np_pSecondKeySlotId = 0, np_pTwoKeySlotMode = 0\<rparr>)))))))))))))))))))))))"

definition enc_FlexrayNodeParameters :: "flexray_node_parameters \<Rightarrow> byte list" where
  "enc_FlexrayNodeParameters msg =
     enc_word (np_pAllowHaltDueToClock msg) @ enc_word (np_pAllowPassiveToActive msg) @
     enc_word (np_pChannels msg) @ enc_word (np_pClusterDriftDamping msg) @
     enc_word (np_pdAcceptedStartupRange msg) @ enc_word (np_pdListenTimeout msg) @
     enc_word (np_pKeySlotId msg) @ enc_word (np_pKeySlotOnlyEnabled msg) @
     enc_word (np_pKeySlotUsedForStartup msg) @ enc_word (np_pKeySlotUsedForSync msg) @
     enc_word (np_pLatestTx msg) @ enc_word (np_pMacroInitialOffsetA msg) @
     enc_word (np_pMacroInitialOffsetB msg) @ enc_word (np_pMicroInitialOffsetA msg) @
     enc_word (np_pMicroInitialOffsetB msg) @ enc_word (np_pMicroPerCycle msg) @
     enc_word (np_pOffsetCorrectionOut msg) @ enc_word (np_pOffsetCorrectionStart msg) @
     enc_word (np_pRateCorrectionOut msg) @ enc_word (np_pWakeupChannel msg) @
     enc_word (np_pWakeupPattern msg) @ enc_word (np_pdMicrotick msg) @
     enc_word (np_pSamplesPerMicrotick msg)"

lemma put_FlexrayNodeParameters_at [wire]:
  "put_FlexrayNodeParameters msg (at v pre post) = Inr (at v pre (post @ enc_FlexrayNodeParameters msg))"
  by (simp add: put_FlexrayNodeParameters_def enc_FlexrayNodeParameters_def wire)

lemma reads_FlexrayNodeParameters:
  "reads get_FlexrayNodeParameters (msg\<lparr>np_pSecondKeySlotId := 0, np_pTwoKeySlotMode := 0\<rparr>)
     (enc_FlexrayNodeParameters msg)"
  by (cases msg; simp add: get_FlexrayNodeParameters_def enc_FlexrayNodeParameters_def; (rule wire_reads | simp)+)

record flexray_tx_buffer_config =
  tb_channels :: "32 word"
  tb_slotId :: "16 word"
  tb_offset :: "8 word"
  tb_repetition :: "8 word"
  tb_hasPayloadPreambleIndicator :: "bool"
  tb_headerCrc :: "16 word"
  tb_transmissionMode :: "8 word"

definition put_FlexrayTxBufferConfig :: "flexray_tx_buffer_config \<Rightarrow> writer" where
  "put_FlexrayTxBufferConfig msg =
     puts [put_word (tb_channels msg), put_word (tb_slotId msg), put_word (tb_offset msg),
           put_word (tb_repetition msg), put_bool (tb_hasPayloadPreambleIndicator msg),
           put_word (tb_headerCrc msg), put_word (tb_transmissionMode msg)]"

definition get_FlexrayTxBufferConfig :: "flexray_tx_buffer_config reader" where
  "get_FlexrayTxBufferConfig =
     then_get get_word (\<lambda>channels. then_get get_word (\<lambda>slotId.
     then_get get_word (\<lambda>offset. then_get get_word (\<lambda>repetition.
     then_get get_bool (\<lambda>hasPayloadPreambleIndicator.
     then_get get_word (\<lambda>headerCrc. then_get get_word (\<lambda>transmissionMode.
     got \<lparr>tb_channels = channels, tb_slotId = slotId, tb_offset = offset,
        tb_repetition = repetition,
        tb_hasPayloadPreambleIndicator = hasPayloadPreambleIndicator,
        tb_headerCrc = headerCrc, tb_transmissionMode = transmissionMode\<rparr>)))))))"

definition enc_FlexrayTxBufferConfig :: "flexray_tx_buffer_config \<Rightarrow> byte list" where
  "enc_FlexrayTxBufferConfig msg =
     enc_word (tb_channels msg) @ enc_word (tb_slotId msg) @ enc_word (tb_offset msg) @
     enc_word (tb_repetition msg) @ enc_bool (tb_hasPayloadPreambleIndicator msg) @
     enc_word (tb_headerCrc msg) @ enc_word (tb_transmissionMode msg)"

interpretation FlexrayTxBufferConfig: strict_codec put_FlexrayTxBufferConfig get_FlexrayTxBufferConfig
    enc_FlexrayTxBufferConfig "\<lambda>_. True"
proof (rule strict_codecI)
  show "reads get_FlexrayTxBufferConfig msg (enc_FlexrayTxBufferConfig msg)" for msg
    by (cases msg; simp add: get_FlexrayTxBufferConfig_def enc_FlexrayTxBufferConfig_def; (rule wire_reads | simp)+)
qed (simp_all add: put_FlexrayTxBufferConfig_def enc_FlexrayTxBufferConfig_def wire)

lemmas [wire] = FlexrayTxBufferConfig.put_at
lemmas [wire_reads] = FlexrayTxBufferConfig.get_reads

interpretation FlexrayTxBufferConfigs: strict_codec "put_vector put_FlexrayTxBufferConfig" "get_vector get_FlexrayTxBufferConfig"
    "enc_vector enc_FlexrayTxBufferConfig" "ok_vector (\<lambda>_. True)"
  by (rule FlexrayTxBufferConfig.vector)

lemmas [wire] = FlexrayTxBufferConfigs.put_at
lemmas [wire_reads] = FlexrayTxBufferConfigs.get_reads

record flexray_controller_config =
  fcc_clusterParams :: flexray_cluster_parameters
  fcc_nodeParams :: flexray_node_parameters
  fcc_bufferConfigs :: "flexray_tx_buffer_config list"

definition put_FlexrayControllerConfig :: "flexray_controller_config \<Rightarrow> writer" where
  "put_FlexrayControllerConfig config =
     puts [put_FlexrayClusterParameters (fcc_clusterParams config),
           put_FlexrayNodeParameters (fcc_nodeParams config),
           put_vector put_FlexrayTxBufferConfig (fcc_bufferConfigs config),
           put_word (np_pSecondKeySlotId (fcc_nodeParams config)),
           put_word (np_pTwoKeySlotMode (fcc_nodeParams config))]"

definition get_FlexrayControllerConfig :: "flexray_controller_config reader" where
  "get_FlexrayControllerConfig =
     then_get get_FlexrayClusterParameters (\<lambda>clusterParams.
     then_get get_FlexrayNodeParameters (\<lambda>nodeParams.
     then_get (get_vector get_FlexrayTxBufferConfig) (\<lambda>bufferConfigs b.
       if RemainingBytesLeft b > 0
       then then_get get_word (\<lambda>pSecondKeySlotId. then_get get_word (\<lambda>pTwoKeySlotMode.
              got \<lparr>fcc_clusterParams = clusterParams,
                fcc_nodeParams = nodeParams\<lparr>np_pSecondKeySlotId := pSecondKeySlotId,
                  np_pTwoKeySlotMode := pTwoKeySlotMode\<rparr>,
                fcc_bufferConfigs = bufferConfigs\<rparr>)) b
       else got \<lparr>fcc_clusterParams = clusterParams, fcc_nodeParams = nodeParams,
              fcc_bufferConfigs = bufferConfigs\<rparr> b)))"

text \<open>What a participant with the first version of the configuration sends.\<close>

definition enc_FlexrayControllerConfig_v1 :: "flexray_controller_config \<Rightarrow> byte list" where
  "enc_FlexrayControllerConfig_v1 config =
     enc_FlexrayClusterParameters (fcc_clusterParams config) @
     enc_FlexrayNodeParameters (fcc_nodeParams config) @
     enc_vector enc_FlexrayTxBufferConfig (fcc_bufferConfigs config)"

definition enc_FlexrayControllerConfig :: "flexray_controller_config \<Rightarrow> byte list" where
  "enc_FlexrayControllerConfig config =
     enc_FlexrayControllerConfig_v1 config @ enc_word (np_pSecondKeySlotId (fcc_nodeParams config)) @
     enc_word (np_pTwoKeySlotMode (fcc_nodeParams config))"

definition ok_FlexrayControllerConfig :: "flexray_controller_config \<Rightarrow> bool" where
  "ok_FlexrayControllerConfig config \<longleftrightarrow> ok_vector (\<lambda>_. True) (fcc_bufferConfigs config)"

lemmas config_parts_at = reads_at [OF reads_FlexrayNodeParameters] FlexrayClusterParameters.get_at
  FlexrayTxBufferConfigs.get_at word_get_at

interpretation FlexrayControllerConfig: codec put_FlexrayControllerConfig get_FlexrayControllerConfig
    enc_FlexrayControllerConfig ok_FlexrayControllerConfig
  by unfold_locales
    (simp_all add: put_FlexrayControllerConfig_def get_FlexrayControllerConfig_def then_get_def got_def
      enc_FlexrayControllerConfig_def enc_FlexrayControllerConfig_v1_def ok_FlexrayControllerConfig_def
      wire config_parts_at)

lemma first_version_is_read:
  assumes "ok_FlexrayControllerConfig config"
  shows "get_FlexrayControllerConfig (at v pre (enc_FlexrayControllerConfig_v1 config)) =
    Inr (config\<lparr>fcc_nodeParams := (fcc_nodeParams config)
           \<lparr>np_pSecondKeySlotId := 0, np_pTwoKeySlotMode := 0\<rparr>\<rparr>,
         at v (pre @ enc_FlexrayControllerConfig_v1 config) [])"
  using assms FlexrayTxBufferConfigs.get_at [of "fcc_bufferConfigs config" v _ "[]"]
  by (simp add: get_FlexrayControllerConfig_def then_get_def got_def
      enc_FlexrayControllerConfig_v1_def ok_FlexrayControllerConfig_def config_parts_at)

section \<open>Updates and status\<close>

record flexray_tx_buffer_config_update =
  tcu_txBufferIndex :: "16 word"
  tcu_txBufferConfig :: "flexray_tx_buffer_config"

definition put_FlexrayTxBufferConfigUpdate :: "flexray_tx_buffer_config_update \<Rightarrow> writer" where
  "put_FlexrayTxBufferConfigUpdate msg =
     puts [put_word (tcu_txBufferIndex msg),
           put_FlexrayTxBufferConfig (tcu_txBufferConfig msg)]"

definition get_FlexrayTxBufferConfigUpdate :: "flexray_tx_buffer_config_update reader" where
  "get_FlexrayTxBufferConfigUpdate =
     then_get get_word (\<lambda>txBufferIndex.
     then_get get_FlexrayTxBufferConfig (\<lambda>txBufferConfig.
     got \<lparr>tcu_txBufferIndex = txBufferIndex, tcu_txBufferConfig = txBufferConfig\<rparr>))"

definition enc_FlexrayTxBufferConfigUpdate :: "flexray_tx_buffer_config_update \<Rightarrow> byte list" where
  "enc_FlexrayTxBufferConfigUpdate msg =
     enc_word (tcu_txBufferIndex msg) @ enc_FlexrayTxBufferConfig (tcu_txBufferConfig msg)"

interpretation FlexrayTxBufferConfigUpdate: strict_codec put_FlexrayTxBufferConfigUpdate get_FlexrayTxBufferConfigUpdate
    enc_FlexrayTxBufferConfigUpdate "\<lambda>_. True"
proof (rule strict_codecI)
  show "reads get_FlexrayTxBufferConfigUpdate msg (enc_FlexrayTxBufferConfigUpdate msg)" for msg
    by (cases msg; simp add: get_FlexrayTxBufferConfigUpdate_def enc_FlexrayTxBufferConfigUpdate_def; (rule wire_reads | simp)+)
qed (simp_all add: put_FlexrayTxBufferConfigUpdate_def enc_FlexrayTxBufferConfigUpdate_def wire)

lemmas [wire] = FlexrayTxBufferConfigUpdate.put_at
lemmas [wire_reads] = FlexrayTxBufferConfigUpdate.get_reads

record wire_flexray_tx_buffer_update =
  tbu_txBufferIndex :: "16 word"
  tbu_payloadDataValid :: "bool"
  tbu_payload :: "byte list"

definition put_WireFlexrayTxBufferUpdate :: "wire_flexray_tx_buffer_update \<Rightarrow> writer" where
  "put_WireFlexrayTxBufferUpdate msg =
     puts [put_word (tbu_txBufferIndex msg), put_bool (tbu_payloadDataValid msg),
           put_blob (tbu_payload msg)]"

definition get_WireFlexrayTxBufferUpdate :: "wire_flexray_tx_buffer_update reader" where
  "get_WireFlexrayTxBufferUpdate =
     then_get get_word (\<lambda>txBufferIndex.
     then_get get_bool (\<lambda>payloadDataValid. then_get get_blob (\<lambda>payload.
     got \<lparr>tbu_txBufferIndex = txBufferIndex, tbu_payloadDataValid = payloadDataValid,
        tbu_payload = payload\<rparr>)))"

definition enc_WireFlexrayTxBufferUpdate :: "wire_flexray_tx_buffer_update \<Rightarrow> byte list" where
  "enc_WireFlexrayTxBufferUpdate msg =
     enc_word (tbu_txBufferIndex msg) @ enc_bool (tbu_payloadDataValid msg) @
     enc_blob (tbu_payload msg)"

definition ok_WireFlexrayTxBufferUpdate :: "wire_flexray_tx_buffer_update \<Rightarrow> bool" where
  "ok_WireFlexrayTxBufferUpdate msg \<longleftrightarrow>
     length (tbu_payload msg) \<le> max_size"

interpretation WireFlexrayTxBufferUpdate: strict_codec put_WireFlexrayTxBufferUpdate get_WireFlexrayTxBufferUpdate
    enc_WireFlexrayTxBufferUpdate ok_WireFlexrayTxBufferUpdate
proof (rule strict_codecI)
  show "ok_WireFlexrayTxBufferUpdate msg \<Longrightarrow> reads get_WireFlexrayTxBufferUpdate msg (enc_WireFlexrayTxBufferUpdate msg)" for msg
    by (cases msg; simp add: get_WireFlexrayTxBufferUpdate_def enc_WireFlexrayTxBufferUpdate_def ok_WireFlexrayTxBufferUpdate_def; (rule wire_reads | simp)+)
qed (simp_all add: put_WireFlexrayTxBufferUpdate_def enc_WireFlexrayTxBufferUpdate_def ok_WireFlexrayTxBufferUpdate_def wire)

lemmas [wire] = WireFlexrayTxBufferUpdate.put_at
lemmas [wire_reads] = WireFlexrayTxBufferUpdate.get_reads

record flexray_poc_status_event =
  poc_timestamp :: "64 word"
  poc_chiHaltRequest :: "bool"
  poc_coldstartNoise :: "bool"
  poc_errorMode :: "8 word"
  poc_freeze :: "bool"
  poc_slotMode :: "8 word"
  poc_startupState :: "8 word"
  poc_state :: "8 word"
  poc_wakeupStatus :: "8 word"
  poc_chiReadyRequest :: "bool"

definition put_FlexrayPocStatusEvent :: "flexray_poc_status_event \<Rightarrow> writer" where
  "put_FlexrayPocStatusEvent msg =
     puts [put_word (poc_timestamp msg), put_bool (poc_chiHaltRequest msg),
           put_bool (poc_coldstartNoise msg), put_word (poc_errorMode msg),
           put_bool (poc_freeze msg), put_word (poc_slotMode msg),
           put_word (poc_startupState msg), put_word (poc_state msg),
           put_word (poc_wakeupStatus msg), put_bool (poc_chiReadyRequest msg)]"

definition get_FlexrayPocStatusEvent :: "flexray_poc_status_event reader" where
  "get_FlexrayPocStatusEvent =
     then_get get_word (\<lambda>timestamp. then_get get_bool (\<lambda>chiHaltRequest.
     then_get get_bool (\<lambda>coldstartNoise. then_get get_word (\<lambda>errorMode.
     then_get get_bool (\<lambda>freeze. then_get get_word (\<lambda>slotMode.
     then_get get_word (\<lambda>startupState. then_get get_word (\<lambda>state.
     then_get get_word (\<lambda>wakeupStatus. then_get get_bool (\<lambda>chiReadyRequest.
     got \<lparr>poc_timestamp = timestamp, poc_chiHaltRequest = chiHaltRequest,
        poc_coldstartNoise = coldstartNoise, poc_errorMode = errorMode, poc_freeze = freeze,
        poc_slotMode = slotMode, poc_startupState = startupState, poc_state = state,
        poc_wakeupStatus = wakeupStatus, poc_chiReadyRequest = chiReadyRequest\<rparr>))))))))))"

definition enc_FlexrayPocStatusEvent :: "flexray_poc_status_event \<Rightarrow> byte list" where
  "enc_FlexrayPocStatusEvent msg =
     enc_word (poc_timestamp msg) @ enc_bool (poc_chiHaltRequest msg) @
     enc_bool (poc_coldstartNoise msg) @ enc_word (poc_errorMode msg) @
     enc_bool (poc_freeze msg) @ enc_word (poc_slotMode msg) @
     enc_word (poc_startupState msg) @ enc_word (poc_state msg) @
     enc_word (poc_wakeupStatus msg) @ enc_bool (poc_chiReadyRequest msg)"

interpretation FlexrayPocStatusEvent: strict_codec put_FlexrayPocStatusEvent get_FlexrayPocStatusEvent
    enc_FlexrayPocStatusEvent "\<lambda>_. True"
proof (rule strict_codecI)
  show "reads get_FlexrayPocStatusEvent msg (enc_FlexrayPocStatusEvent msg)" for msg
    by (cases msg; simp add: get_FlexrayPocStatusEvent_def enc_FlexrayPocStatusEvent_def; (rule wire_reads | simp)+)
qed (simp_all add: put_FlexrayPocStatusEvent_def enc_FlexrayPocStatusEvent_def wire)

lemmas [wire] = FlexrayPocStatusEvent.put_at
lemmas [wire_reads] = FlexrayPocStatusEvent.get_reads

section \<open>Properties\<close>

lemma config_without_second_version:
  assumes "ok_FlexrayControllerConfig config"
  shows "reads_without 3 put_FlexrayControllerConfig get_FlexrayControllerConfig config
    (config\<lparr>fcc_nodeParams := (fcc_nodeParams config)\<lparr>np_pSecondKeySlotId := 0, np_pTwoKeySlotMode := 0\<rparr>\<rparr>)"
  using first_version_is_read [OF assms, of CurrentProtocolVersion "[]"] assms
  by (simp add: reads_without_def empty_buffer_at FlexrayControllerConfig.put_at buffer_of_at
      enc_FlexrayControllerConfig_def)

text \<open>
  Claim C14. FlexRay messages survive the wire, and the controller configuration is
  compatible in both directions: the fields of its second version come after everything
  else, so a configuration without them is read with those two fields zero and all others
  unchanged.
\<close>

theorem flexray_messages_survive:
  assumes "ok_WireFlexrayFrame frame" "ok_FlexrayControllerConfig config" "ok_WireFlexrayTxBufferUpdate update"
  shows "survives put_WireFlexrayFrameEvent get_WireFlexrayFrameEvent
      \<lparr>ffe_timestamp = t, ffe_channel = c, ffe_frame = frame\<rparr> \<and>
    survives put_WireFlexrayFrameTransmitEvent get_WireFlexrayFrameTransmitEvent
      \<lparr>fft_timestamp = t, fft_txBufferIndex = i, fft_channel = c, fft_frame = frame\<rparr> \<and>
    survives put_FlexraySymbolEvent get_FlexraySymbolEvent symbol \<and>
    survives put_FlexraySymbolTransmitEvent get_FlexraySymbolTransmitEvent symbol \<and>
    survives put_FlexrayCycleStartEvent get_FlexrayCycleStartEvent cycle \<and>
    survives put_FlexrayHostCommand get_FlexrayHostCommand command \<and>
    survives put_FlexrayTxBufferConfigUpdate get_FlexrayTxBufferConfigUpdate buffer \<and>
    survives put_WireFlexrayTxBufferUpdate get_WireFlexrayTxBufferUpdate update \<and>
    survives put_FlexrayPocStatusEvent get_FlexrayPocStatusEvent poc \<and>
    reads_back put_FlexrayControllerConfig get_FlexrayControllerConfig config \<and>
    reads_without 3 put_FlexrayControllerConfig get_FlexrayControllerConfig config
      (config\<lparr>fcc_nodeParams :=
         (fcc_nodeParams config)\<lparr>np_pSecondKeySlotId := 0, np_pTwoKeySlotMode := 0\<rparr>\<rparr>)"
  using assms
  by (simp add: WireFlexrayFrameEvent.sound ok_WireFlexrayFrameEvent_def WireFlexrayFrameTransmitEvent.sound
      ok_WireFlexrayFrameTransmitEvent_def FlexraySymbolEvent.sound FlexraySymbolTransmitEvent.sound
      FlexrayCycleStartEvent.sound FlexrayHostCommand.sound FlexrayTxBufferConfigUpdate.sound
      WireFlexrayTxBufferUpdate.sound FlexrayPocStatusEvent.sound FlexrayControllerConfig.round_trip
      config_without_second_version)

definition example_flexray_frame :: wire_flexray_frame where
  "example_flexray_frame = \<lparr>ff_header = \<lparr>fh_flags = 0, fh_frameId = 3, fh_payloadLength = 1, fh_headerCrc = 9,
     fh_cycleCount = 2\<rparr>, ff_payload = [1, 2]\<rparr>"

definition example_flexray_config :: flexray_controller_config where
  "example_flexray_config = \<lparr>
     fcc_clusterParams = \<lparr>cp_gColdstartAttempts = 1, cp_gCycleCountMax = 2, cp_gdActionPointOffset = 3,
        cp_gdDynamicSlotIdlePhase = 4, cp_gdMiniSlot = 5,
        cp_gdMiniSlotActionPointOffset = 6, cp_gdStaticSlot = 7, cp_gdSymbolWindow = 8,
        cp_gdSymbolWindowActionPointOffset = 9, cp_gdTSSTransmitter = 1,
        cp_gdWakeupTxActive = 2, cp_gdWakeupTxIdle = 3, cp_gListenNoise = 4,
        cp_gMacroPerCycle = 5, cp_gMaxWithoutClockCorrectionFatal = 6,
        cp_gMaxWithoutClockCorrectionPassive = 7, cp_gNumberOfMiniSlots = 8,
        cp_gNumberOfStaticSlots = 9, cp_gPayloadLengthStatic = 1,
        cp_gSyncFrameIDCountMax = 2\<rparr>,
     fcc_nodeParams = \<lparr>np_pAllowHaltDueToClock = 1, np_pAllowPassiveToActive = 2, np_pChannels = 3,
        np_pClusterDriftDamping = 4, np_pdAcceptedStartupRange = 5, np_pdListenTimeout = 6,
        np_pKeySlotId = 7, np_pKeySlotOnlyEnabled = 8, np_pKeySlotUsedForStartup = 9,
        np_pKeySlotUsedForSync = 1, np_pLatestTx = 2, np_pMacroInitialOffsetA = 3,
        np_pMacroInitialOffsetB = 4, np_pMicroInitialOffsetA = 5,
        np_pMicroInitialOffsetB = 6, np_pMicroPerCycle = 7, np_pOffsetCorrectionOut = 8,
        np_pOffsetCorrectionStart = 9, np_pRateCorrectionOut = 1, np_pWakeupChannel = 2,
        np_pWakeupPattern = 3, np_pdMicrotick = 4, np_pSamplesPerMicrotick = 5,
        np_pSecondKeySlotId = 6, np_pTwoKeySlotMode = 7\<rparr>,
     fcc_bufferConfigs = [\<lparr>tb_channels = 1, tb_slotId = 3, tb_offset = 0, tb_repetition = 1,
       tb_hasPayloadPreambleIndicator = False, tb_headerCrc = 5, tb_transmissionMode = 1\<rparr>]\<rparr>"

definition example_flexray_update :: wire_flexray_tx_buffer_update where
  "example_flexray_update = \<lparr>tbu_txBufferIndex = 0, tbu_payloadDataValid = True, tbu_payload = [7]\<rparr>"

definition example_flexray_poc :: flexray_poc_status_event where
  "example_flexray_poc = \<lparr>poc_timestamp = 1, poc_chiHaltRequest = False, poc_coldstartNoise = True,
     poc_errorMode = 0, poc_freeze = False, poc_slotMode = 0, poc_startupState = 0, poc_state = 2,
     poc_wakeupStatus = 0, poc_chiReadyRequest = True\<rparr>"

theorem flexray_messages_survive_witness:
  "survives put_WireFlexrayFrameEvent get_WireFlexrayFrameEvent
      \<lparr>ffe_timestamp = 1, ffe_channel = 2, ffe_frame = example_flexray_frame\<rparr> \<and>
    survives put_WireFlexrayFrameTransmitEvent get_WireFlexrayFrameTransmitEvent
      \<lparr>fft_timestamp = 1, fft_txBufferIndex = 3, fft_channel = 2, fft_frame = example_flexray_frame\<rparr> \<and>
    survives put_FlexraySymbolEvent get_FlexraySymbolEvent
      \<lparr>fs_timestamp = 1, fs_channel = 1, fs_pattern = 2\<rparr> \<and>
    survives put_FlexraySymbolTransmitEvent get_FlexraySymbolTransmitEvent
      \<lparr>fs_timestamp = 1, fs_channel = 1, fs_pattern = 2\<rparr> \<and>
    survives put_FlexrayCycleStartEvent get_FlexrayCycleStartEvent \<lparr>fc_timestamp = 1, fc_cycleCounter = 63\<rparr> \<and>
    survives put_FlexrayHostCommand get_FlexrayHostCommand \<lparr>fhc_command = 0\<rparr> \<and>
    survives put_FlexrayTxBufferConfigUpdate get_FlexrayTxBufferConfigUpdate
      \<lparr>tcu_txBufferIndex = 0, tcu_txBufferConfig = hd (fcc_bufferConfigs example_flexray_config)\<rparr> \<and>
    survives put_WireFlexrayTxBufferUpdate get_WireFlexrayTxBufferUpdate example_flexray_update \<and>
    survives put_FlexrayPocStatusEvent get_FlexrayPocStatusEvent example_flexray_poc \<and>
    reads_back put_FlexrayControllerConfig get_FlexrayControllerConfig example_flexray_config \<and>
    reads_without 3 put_FlexrayControllerConfig get_FlexrayControllerConfig example_flexray_config
      (example_flexray_config\<lparr>fcc_nodeParams :=
         (fcc_nodeParams example_flexray_config)\<lparr>np_pSecondKeySlotId := 0, np_pTwoKeySlotMode := 0\<rparr>\<rparr>)"
  by (rule flexray_messages_survive)
    (simp_all add: ok_WireFlexrayFrame_def example_flexray_frame_def ok_FlexrayControllerConfig_def
      example_flexray_config_def ok_vector_def ok_WireFlexrayTxBufferUpdate_def example_flexray_update_def
      max_size_def)

end
