(* ===== verification/ServiceSerdes.thy ===== *)
theory ServiceSerdes
  imports MessageBuffer RequestReply
begin

text \<open>
  The remaining services on the wire: publish and subscribe, remote procedure calls, the
  request and reply service, the orchestration messages, service discovery, metrics and log
  messages (their \<open>*Serdes.cpp\<close> files).
\<close>

section \<open>Publish and subscribe, remote procedure calls\<close>

record wire_data_message_event =
  wd_timestamp :: "64 word"
  wd_data :: "byte list"

definition put_WireDataMessageEvent :: "wire_data_message_event \<Rightarrow> writer" where
  "put_WireDataMessageEvent msg =
     puts [put_blob (wd_data msg), put_word (wd_timestamp msg)]"

definition get_WireDataMessageEvent :: "wire_data_message_event reader" where
  "get_WireDataMessageEvent =
     then_get get_blob (\<lambda>data. then_get get_word (\<lambda>timestamp.
     got \<lparr>wd_timestamp = timestamp, wd_data = data\<rparr>))"

definition enc_WireDataMessageEvent :: "wire_data_message_event \<Rightarrow> byte list" where
  "enc_WireDataMessageEvent msg =
     enc_blob (wd_data msg) @ enc_word (wd_timestamp msg)"

definition ok_WireDataMessageEvent :: "wire_data_message_event \<Rightarrow> bool" where
  "ok_WireDataMessageEvent msg \<longleftrightarrow>
     length (wd_data msg) \<le> max_size"

interpretation WireDataMessageEvent: strict_codec put_WireDataMessageEvent get_WireDataMessageEvent
    enc_WireDataMessageEvent ok_WireDataMessageEvent
proof (rule strict_codecI)
  show "ok_WireDataMessageEvent msg \<Longrightarrow> reads get_WireDataMessageEvent msg (enc_WireDataMessageEvent msg)" for msg
    by (cases msg; simp add: get_WireDataMessageEvent_def enc_WireDataMessageEvent_def ok_WireDataMessageEvent_def; (rule wire_reads | simp)+)
qed (simp_all add: put_WireDataMessageEvent_def enc_WireDataMessageEvent_def ok_WireDataMessageEvent_def wire)

lemmas [wire] = WireDataMessageEvent.put_at
lemmas [wire_reads] = WireDataMessageEvent.get_reads

record function_call =
  fca_timestamp :: "64 word"
  fca_callUuid :: "64 word \<times> 64 word"
  fca_data :: "byte list"

definition put_FunctionCall :: "function_call \<Rightarrow> writer" where
  "put_FunctionCall msg =
     puts [put_word (fca_timestamp msg), put_word_pair (fca_callUuid msg),
           put_blob (fca_data msg)]"

definition get_FunctionCall :: "function_call reader" where
  "get_FunctionCall =
     then_get get_word (\<lambda>timestamp. then_get get_word_pair (\<lambda>callUuid.
     then_get get_blob (\<lambda>data.
     got \<lparr>fca_timestamp = timestamp, fca_callUuid = callUuid, fca_data = data\<rparr>)))"

definition enc_FunctionCall :: "function_call \<Rightarrow> byte list" where
  "enc_FunctionCall msg =
     enc_word (fca_timestamp msg) @ enc_word_pair (fca_callUuid msg) @
     enc_blob (fca_data msg)"

definition ok_FunctionCall :: "function_call \<Rightarrow> bool" where
  "ok_FunctionCall msg \<longleftrightarrow>
     length (fca_data msg) \<le> max_size"

interpretation FunctionCall: strict_codec put_FunctionCall get_FunctionCall
    enc_FunctionCall ok_FunctionCall
proof (rule strict_codecI)
  show "ok_FunctionCall msg \<Longrightarrow> reads get_FunctionCall msg (enc_FunctionCall msg)" for msg
    by (cases msg; simp add: get_FunctionCall_def enc_FunctionCall_def ok_FunctionCall_def; (rule wire_reads | simp)+)
qed (simp_all add: put_FunctionCall_def enc_FunctionCall_def ok_FunctionCall_def wire)

lemmas [wire] = FunctionCall.put_at
lemmas [wire_reads] = FunctionCall.get_reads

record function_call_response =
  fcr_timestamp :: "64 word"
  fcr_callUuid :: "64 word \<times> 64 word"
  fcr_data :: "byte list"
  fcr_status :: "32 word"

definition put_FunctionCallResponse :: "function_call_response \<Rightarrow> writer" where
  "put_FunctionCallResponse msg =
     puts [put_word (fcr_timestamp msg), put_word_pair (fcr_callUuid msg),
           put_blob (fcr_data msg), put_word (fcr_status msg)]"

definition get_FunctionCallResponse :: "function_call_response reader" where
  "get_FunctionCallResponse =
     then_get get_word (\<lambda>timestamp. then_get get_word_pair (\<lambda>callUuid.
     then_get get_blob (\<lambda>data. then_get get_word (\<lambda>status.
     got \<lparr>fcr_timestamp = timestamp, fcr_callUuid = callUuid, fcr_data = data,
        fcr_status = status\<rparr>))))"

definition enc_FunctionCallResponse :: "function_call_response \<Rightarrow> byte list" where
  "enc_FunctionCallResponse msg =
     enc_word (fcr_timestamp msg) @ enc_word_pair (fcr_callUuid msg) @
     enc_blob (fcr_data msg) @ enc_word (fcr_status msg)"

definition ok_FunctionCallResponse :: "function_call_response \<Rightarrow> bool" where
  "ok_FunctionCallResponse msg \<longleftrightarrow>
     length (fcr_data msg) \<le> max_size"

interpretation FunctionCallResponse: strict_codec put_FunctionCallResponse get_FunctionCallResponse
    enc_FunctionCallResponse ok_FunctionCallResponse
proof (rule strict_codecI)
  show "ok_FunctionCallResponse msg \<Longrightarrow> reads get_FunctionCallResponse msg (enc_FunctionCallResponse msg)" for msg
    by (cases msg; simp add: get_FunctionCallResponse_def enc_FunctionCallResponse_def ok_FunctionCallResponse_def; (rule wire_reads | simp)+)
qed (simp_all add: put_FunctionCallResponse_def enc_FunctionCallResponse_def ok_FunctionCallResponse_def wire)

lemmas [wire] = FunctionCallResponse.put_at
lemmas [wire_reads] = FunctionCallResponse.get_reads

section \<open>Requests and replies\<close>

record request_reply_call =
  rc_callUuid :: "64 word \<times> 64 word"
  rc_functionType :: "16 word"
  rc_callData :: "byte list"

definition put_RequestReplyCall :: "request_reply_call \<Rightarrow> writer" where
  "put_RequestReplyCall msg =
     puts [put_word_pair (rc_callUuid msg), put_word (rc_functionType msg),
           put_blob (rc_callData msg)]"

definition get_RequestReplyCall :: "request_reply_call reader" where
  "get_RequestReplyCall =
     then_get get_word_pair (\<lambda>callUuid. then_get get_word (\<lambda>functionType.
     then_get get_blob (\<lambda>callData.
     got \<lparr>rc_callUuid = callUuid, rc_functionType = functionType, rc_callData = callData\<rparr>)))"

definition enc_RequestReplyCall :: "request_reply_call \<Rightarrow> byte list" where
  "enc_RequestReplyCall msg =
     enc_word_pair (rc_callUuid msg) @ enc_word (rc_functionType msg) @
     enc_blob (rc_callData msg)"

definition ok_RequestReplyCall :: "request_reply_call \<Rightarrow> bool" where
  "ok_RequestReplyCall msg \<longleftrightarrow>
     length (rc_callData msg) \<le> max_size"

interpretation RequestReplyCall: strict_codec put_RequestReplyCall get_RequestReplyCall
    enc_RequestReplyCall ok_RequestReplyCall
proof (rule strict_codecI)
  show "ok_RequestReplyCall msg \<Longrightarrow> reads get_RequestReplyCall msg (enc_RequestReplyCall msg)" for msg
    by (cases msg; simp add: get_RequestReplyCall_def enc_RequestReplyCall_def ok_RequestReplyCall_def; (rule wire_reads | simp)+)
qed (simp_all add: put_RequestReplyCall_def enc_RequestReplyCall_def ok_RequestReplyCall_def wire)

lemmas [wire] = RequestReplyCall.put_at
lemmas [wire_reads] = RequestReplyCall.get_reads

record request_reply_call_return =
  rr_callUuid :: "64 word \<times> 64 word"
  rr_functionType :: "16 word"
  rr_callReturnData :: "byte list"
  rr_callReturnStatus :: "16 word"

definition put_RequestReplyCallReturn :: "request_reply_call_return \<Rightarrow> writer" where
  "put_RequestReplyCallReturn msg =
     puts [put_word_pair (rr_callUuid msg), put_word (rr_functionType msg),
           put_blob (rr_callReturnData msg), put_word (rr_callReturnStatus msg)]"

definition get_RequestReplyCallReturn :: "request_reply_call_return reader" where
  "get_RequestReplyCallReturn =
     then_get get_word_pair (\<lambda>callUuid. then_get get_word (\<lambda>functionType.
     then_get get_blob (\<lambda>callReturnData.
     then_get get_word (\<lambda>callReturnStatus.
     got \<lparr>rr_callUuid = callUuid, rr_functionType = functionType,
        rr_callReturnData = callReturnData, rr_callReturnStatus = callReturnStatus\<rparr>))))"

definition enc_RequestReplyCallReturn :: "request_reply_call_return \<Rightarrow> byte list" where
  "enc_RequestReplyCallReturn msg =
     enc_word_pair (rr_callUuid msg) @ enc_word (rr_functionType msg) @
     enc_blob (rr_callReturnData msg) @ enc_word (rr_callReturnStatus msg)"

definition ok_RequestReplyCallReturn :: "request_reply_call_return \<Rightarrow> bool" where
  "ok_RequestReplyCallReturn msg \<longleftrightarrow>
     length (rr_callReturnData msg) \<le> max_size"

interpretation RequestReplyCallReturn: strict_codec put_RequestReplyCallReturn get_RequestReplyCallReturn
    enc_RequestReplyCallReturn ok_RequestReplyCallReturn
proof (rule strict_codecI)
  show "ok_RequestReplyCallReturn msg \<Longrightarrow> reads get_RequestReplyCallReturn msg (enc_RequestReplyCallReturn msg)" for msg
    by (cases msg; simp add: get_RequestReplyCallReturn_def enc_RequestReplyCallReturn_def ok_RequestReplyCallReturn_def; (rule wire_reads | simp)+)
qed (simp_all add: put_RequestReplyCallReturn_def enc_RequestReplyCallReturn_def ok_RequestReplyCallReturn_def wire)

lemmas [wire] = RequestReplyCallReturn.put_at
lemmas [wire_reads] = RequestReplyCallReturn.get_reads

section \<open>Orchestration\<close>

record next_sim_task_msg =
  nst_timePoint :: "64 word"
  nst_duration :: "64 word"

definition put_NextSimTask :: "next_sim_task_msg \<Rightarrow> writer" where
  "put_NextSimTask msg =
     puts [put_word (nst_timePoint msg), put_word (nst_duration msg)]"

definition get_NextSimTask :: "next_sim_task_msg reader" where
  "get_NextSimTask =
     then_get get_word (\<lambda>timePoint. then_get get_word (\<lambda>duration.
     got \<lparr>nst_timePoint = timePoint, nst_duration = duration\<rparr>))"

definition enc_NextSimTask :: "next_sim_task_msg \<Rightarrow> byte list" where
  "enc_NextSimTask msg =
     enc_word (nst_timePoint msg) @ enc_word (nst_duration msg)"

interpretation NextSimTask: strict_codec put_NextSimTask get_NextSimTask
    enc_NextSimTask "\<lambda>_. True"
proof (rule strict_codecI)
  show "reads get_NextSimTask msg (enc_NextSimTask msg)" for msg
    by (cases msg; simp add: get_NextSimTask_def enc_NextSimTask_def; (rule wire_reads | simp)+)
qed (simp_all add: put_NextSimTask_def enc_NextSimTask_def wire)

lemmas [wire] = NextSimTask.put_at
lemmas [wire_reads] = NextSimTask.get_reads

record system_command_msg =
  sc_kind :: "8 word"

definition put_SystemCommand :: "system_command_msg \<Rightarrow> writer" where
  "put_SystemCommand msg =
     puts [put_word (sc_kind msg)]"

definition get_SystemCommand :: "system_command_msg reader" where
  "get_SystemCommand =
     then_get get_word (\<lambda>kind.
     got \<lparr>sc_kind = kind\<rparr>)"

definition enc_SystemCommand :: "system_command_msg \<Rightarrow> byte list" where
  "enc_SystemCommand msg =
     enc_word (sc_kind msg)"

interpretation SystemCommand: strict_codec put_SystemCommand get_SystemCommand
    enc_SystemCommand "\<lambda>_. True"
proof (rule strict_codecI)
  show "reads get_SystemCommand msg (enc_SystemCommand msg)" for msg
    by (cases msg; simp add: get_SystemCommand_def enc_SystemCommand_def; (rule wire_reads | simp)+)
qed (simp_all add: put_SystemCommand_def enc_SystemCommand_def wire)

lemmas [wire] = SystemCommand.put_at
lemmas [wire_reads] = SystemCommand.get_reads

record participant_status_msg =
  ps_participantName :: "string"
  ps_state :: "16 word"
  ps_enterReason :: "string"
  ps_enterTime :: "int"
  ps_refreshTime :: "int"

definition put_ParticipantStatus :: "participant_status_msg \<Rightarrow> writer" where
  "put_ParticipantStatus msg =
     puts [put_string (ps_participantName msg), put_word (ps_state msg),
           put_string (ps_enterReason msg), put_time (ps_enterTime msg),
           put_time (ps_refreshTime msg)]"

definition get_ParticipantStatus :: "participant_status_msg reader" where
  "get_ParticipantStatus =
     then_get get_string (\<lambda>participantName. then_get get_word (\<lambda>state.
     then_get get_string (\<lambda>enterReason. then_get get_time (\<lambda>enterTime.
     then_get get_time (\<lambda>refreshTime.
     got \<lparr>ps_participantName = participantName, ps_state = state,
        ps_enterReason = enterReason, ps_enterTime = enterTime, ps_refreshTime = refreshTime\<rparr>)))))"

definition enc_ParticipantStatus :: "participant_status_msg \<Rightarrow> byte list" where
  "enc_ParticipantStatus msg =
     enc_string (ps_participantName msg) @ enc_word (ps_state msg) @
     enc_string (ps_enterReason msg) @ enc_time (ps_enterTime msg) @
     enc_time (ps_refreshTime msg)"

definition ok_ParticipantStatus :: "participant_status_msg \<Rightarrow> bool" where
  "ok_ParticipantStatus msg \<longleftrightarrow>
     ok_string (ps_participantName msg) \<and> ok_string (ps_enterReason msg) \<and>
     ok_time (ps_enterTime msg) \<and> ok_time (ps_refreshTime msg)"

interpretation ParticipantStatus: strict_codec put_ParticipantStatus get_ParticipantStatus
    enc_ParticipantStatus ok_ParticipantStatus
proof (rule strict_codecI)
  show "ok_ParticipantStatus msg \<Longrightarrow> reads get_ParticipantStatus msg (enc_ParticipantStatus msg)" for msg
    by (cases msg; simp add: get_ParticipantStatus_def enc_ParticipantStatus_def ok_ParticipantStatus_def; (rule wire_reads | simp)+)
qed (simp_all add: put_ParticipantStatus_def enc_ParticipantStatus_def ok_ParticipantStatus_def wire)

lemmas [wire] = ParticipantStatus.put_at
lemmas [wire_reads] = ParticipantStatus.get_reads

record workflow_configuration_msg =
  wc_requiredParticipantNames :: "string list"

definition put_WorkflowConfiguration :: "workflow_configuration_msg \<Rightarrow> writer" where
  "put_WorkflowConfiguration msg =
     puts [put_vector put_string (wc_requiredParticipantNames msg)]"

definition get_WorkflowConfiguration :: "workflow_configuration_msg reader" where
  "get_WorkflowConfiguration =
     then_get (get_vector get_string) (\<lambda>requiredParticipantNames.
     got \<lparr>wc_requiredParticipantNames = requiredParticipantNames\<rparr>)"

definition enc_WorkflowConfiguration :: "workflow_configuration_msg \<Rightarrow> byte list" where
  "enc_WorkflowConfiguration msg =
     enc_vector enc_string (wc_requiredParticipantNames msg)"

definition ok_WorkflowConfiguration :: "workflow_configuration_msg \<Rightarrow> bool" where
  "ok_WorkflowConfiguration msg \<longleftrightarrow>
     ok_vector ok_string (wc_requiredParticipantNames msg)"

interpretation WorkflowConfiguration: strict_codec put_WorkflowConfiguration get_WorkflowConfiguration
    enc_WorkflowConfiguration ok_WorkflowConfiguration
proof (rule strict_codecI)
  show "ok_WorkflowConfiguration msg \<Longrightarrow> reads get_WorkflowConfiguration msg (enc_WorkflowConfiguration msg)" for msg
    by (cases msg; simp add: get_WorkflowConfiguration_def enc_WorkflowConfiguration_def ok_WorkflowConfiguration_def; (rule wire_reads | simp)+)
qed (simp_all add: put_WorkflowConfiguration_def enc_WorkflowConfiguration_def ok_WorkflowConfiguration_def wire)

lemmas [wire] = WorkflowConfiguration.put_at
lemmas [wire_reads] = WorkflowConfiguration.get_reads

section \<open>Service discovery\<close>

record service_descriptor =
  sd_participantName :: "string"
  sd_participantId :: "64 word"
  sd_serviceType :: "8 word"
  sd_networkName :: "string"
  sd_networkType :: "32 word"
  sd_serviceName :: "string"
  sd_serviceId :: "64 word"
  sd_supplementalData :: "(string \<times> string) list"

definition put_ServiceDescriptor :: "service_descriptor \<Rightarrow> writer" where
  "put_ServiceDescriptor msg =
     puts [put_string (sd_participantName msg), put_word (sd_serviceType msg),
           put_string (sd_networkName msg), put_word (sd_networkType msg),
           put_string (sd_serviceName msg), put_word (sd_serviceId msg),
           put_map (sd_supplementalData msg), put_word (sd_participantId msg)]"

definition get_ServiceDescriptor :: "service_descriptor reader" where
  "get_ServiceDescriptor =
     then_get get_string (\<lambda>participantName. then_get get_word (\<lambda>serviceType.
     then_get get_string (\<lambda>networkName. then_get get_word (\<lambda>networkType.
     then_get get_string (\<lambda>serviceName. then_get get_word (\<lambda>serviceId.
     then_get get_map (\<lambda>supplementalData. then_get get_word (\<lambda>participantId.
     got \<lparr>sd_participantName = participantName, sd_participantId = participantId,
        sd_serviceType = serviceType, sd_networkName = networkName,
        sd_networkType = networkType, sd_serviceName = serviceName,
        sd_serviceId = serviceId, sd_supplementalData = supplementalData\<rparr>))))))))"

definition enc_ServiceDescriptor :: "service_descriptor \<Rightarrow> byte list" where
  "enc_ServiceDescriptor msg =
     enc_string (sd_participantName msg) @ enc_word (sd_serviceType msg) @
     enc_string (sd_networkName msg) @ enc_word (sd_networkType msg) @
     enc_string (sd_serviceName msg) @ enc_word (sd_serviceId msg) @
     enc_map (sd_supplementalData msg) @ enc_word (sd_participantId msg)"

definition ok_ServiceDescriptor :: "service_descriptor \<Rightarrow> bool" where
  "ok_ServiceDescriptor msg \<longleftrightarrow>
     ok_string (sd_participantName msg) \<and> ok_string (sd_networkName msg) \<and>
     ok_string (sd_serviceName msg) \<and> ok_map (sd_supplementalData msg)"

interpretation ServiceDescriptor: strict_codec put_ServiceDescriptor get_ServiceDescriptor
    enc_ServiceDescriptor ok_ServiceDescriptor
proof (rule strict_codecI)
  show "ok_ServiceDescriptor msg \<Longrightarrow> reads get_ServiceDescriptor msg (enc_ServiceDescriptor msg)" for msg
    by (cases msg; simp add: get_ServiceDescriptor_def enc_ServiceDescriptor_def ok_ServiceDescriptor_def; (rule wire_reads | simp)+)
qed (simp_all add: put_ServiceDescriptor_def enc_ServiceDescriptor_def ok_ServiceDescriptor_def wire)

lemmas [wire] = ServiceDescriptor.put_at
lemmas [wire_reads] = ServiceDescriptor.get_reads

interpretation ServiceDescriptors: strict_codec "put_vector put_ServiceDescriptor" "get_vector get_ServiceDescriptor"
    "enc_vector enc_ServiceDescriptor" "ok_vector ok_ServiceDescriptor"
  by (rule ServiceDescriptor.vector)

lemmas [wire] = ServiceDescriptors.put_at
lemmas [wire_reads] = ServiceDescriptors.get_reads

record participant_discovery_event =
  pd_participantName :: "string"
  pd_version :: "64 word"
  pd_services :: "service_descriptor list"

definition put_ParticipantDiscoveryEvent :: "participant_discovery_event \<Rightarrow> writer" where
  "put_ParticipantDiscoveryEvent msg =
     puts [put_string (pd_participantName msg), put_word (pd_version msg),
           put_vector put_ServiceDescriptor (pd_services msg)]"

definition get_ParticipantDiscoveryEvent :: "participant_discovery_event reader" where
  "get_ParticipantDiscoveryEvent =
     then_get get_string (\<lambda>participantName. then_get get_word (\<lambda>version.
     then_get (get_vector get_ServiceDescriptor) (\<lambda>services.
     got \<lparr>pd_participantName = participantName, pd_version = version, pd_services = services\<rparr>)))"

definition enc_ParticipantDiscoveryEvent :: "participant_discovery_event \<Rightarrow> byte list" where
  "enc_ParticipantDiscoveryEvent msg =
     enc_string (pd_participantName msg) @ enc_word (pd_version msg) @
     enc_vector enc_ServiceDescriptor (pd_services msg)"

definition ok_ParticipantDiscoveryEvent :: "participant_discovery_event \<Rightarrow> bool" where
  "ok_ParticipantDiscoveryEvent msg \<longleftrightarrow>
     ok_string (pd_participantName msg) \<and>
     ok_vector ok_ServiceDescriptor (pd_services msg)"

interpretation ParticipantDiscoveryEvent: strict_codec put_ParticipantDiscoveryEvent get_ParticipantDiscoveryEvent
    enc_ParticipantDiscoveryEvent ok_ParticipantDiscoveryEvent
proof (rule strict_codecI)
  show "ok_ParticipantDiscoveryEvent msg \<Longrightarrow> reads get_ParticipantDiscoveryEvent msg (enc_ParticipantDiscoveryEvent msg)" for msg
    by (cases msg; simp add: get_ParticipantDiscoveryEvent_def enc_ParticipantDiscoveryEvent_def ok_ParticipantDiscoveryEvent_def; (rule wire_reads | simp)+)
qed (simp_all add: put_ParticipantDiscoveryEvent_def enc_ParticipantDiscoveryEvent_def ok_ParticipantDiscoveryEvent_def wire)

lemmas [wire] = ParticipantDiscoveryEvent.put_at
lemmas [wire_reads] = ParticipantDiscoveryEvent.get_reads

record service_discovery_event =
  sde_type :: "32 word"
  sde_serviceDescriptor :: "service_descriptor"

definition put_ServiceDiscoveryEvent :: "service_discovery_event \<Rightarrow> writer" where
  "put_ServiceDiscoveryEvent msg =
     puts [put_word (sde_type msg), put_ServiceDescriptor (sde_serviceDescriptor msg)]"

definition get_ServiceDiscoveryEvent :: "service_discovery_event reader" where
  "get_ServiceDiscoveryEvent =
     then_get get_word (\<lambda>type.
     then_get get_ServiceDescriptor (\<lambda>serviceDescriptor.
     got \<lparr>sde_type = type, sde_serviceDescriptor = serviceDescriptor\<rparr>))"

definition enc_ServiceDiscoveryEvent :: "service_discovery_event \<Rightarrow> byte list" where
  "enc_ServiceDiscoveryEvent msg =
     enc_word (sde_type msg) @ enc_ServiceDescriptor (sde_serviceDescriptor msg)"

definition ok_ServiceDiscoveryEvent :: "service_discovery_event \<Rightarrow> bool" where
  "ok_ServiceDiscoveryEvent msg \<longleftrightarrow>
     ok_ServiceDescriptor (sde_serviceDescriptor msg)"

interpretation ServiceDiscoveryEvent: strict_codec put_ServiceDiscoveryEvent get_ServiceDiscoveryEvent
    enc_ServiceDiscoveryEvent ok_ServiceDiscoveryEvent
proof (rule strict_codecI)
  show "ok_ServiceDiscoveryEvent msg \<Longrightarrow> reads get_ServiceDiscoveryEvent msg (enc_ServiceDiscoveryEvent msg)" for msg
    by (cases msg; simp add: get_ServiceDiscoveryEvent_def enc_ServiceDiscoveryEvent_def ok_ServiceDiscoveryEvent_def; (rule wire_reads | simp)+)
qed (simp_all add: put_ServiceDiscoveryEvent_def enc_ServiceDiscoveryEvent_def ok_ServiceDiscoveryEvent_def wire)

lemmas [wire] = ServiceDiscoveryEvent.put_at
lemmas [wire_reads] = ServiceDiscoveryEvent.get_reads

section \<open>Metrics\<close>

record metric_data =
  md_timestamp :: "64 word"
  md_name :: "string"
  md_kind :: "32 word"
  md_value :: "string"

definition put_MetricData :: "metric_data \<Rightarrow> writer" where
  "put_MetricData msg =
     puts [put_word (md_timestamp msg), put_string (md_name msg), put_word (md_kind msg),
           put_string (md_value msg)]"

definition get_MetricData :: "metric_data reader" where
  "get_MetricData =
     then_get get_word (\<lambda>timestamp. then_get get_string (\<lambda>name.
     then_get get_word (\<lambda>kind. then_get get_string (\<lambda>value.
     got \<lparr>md_timestamp = timestamp, md_name = name, md_kind = kind, md_value = value\<rparr>))))"

definition enc_MetricData :: "metric_data \<Rightarrow> byte list" where
  "enc_MetricData msg =
     enc_word (md_timestamp msg) @ enc_string (md_name msg) @ enc_word (md_kind msg) @
     enc_string (md_value msg)"

definition ok_MetricData :: "metric_data \<Rightarrow> bool" where
  "ok_MetricData msg \<longleftrightarrow>
     ok_string (md_name msg) \<and> ok_string (md_value msg)"

interpretation MetricData: strict_codec put_MetricData get_MetricData
    enc_MetricData ok_MetricData
proof (rule strict_codecI)
  show "ok_MetricData msg \<Longrightarrow> reads get_MetricData msg (enc_MetricData msg)" for msg
    by (cases msg; simp add: get_MetricData_def enc_MetricData_def ok_MetricData_def; (rule wire_reads | simp)+)
qed (simp_all add: put_MetricData_def enc_MetricData_def ok_MetricData_def wire)

lemmas [wire] = MetricData.put_at
lemmas [wire_reads] = MetricData.get_reads

interpretation MetricDatas: strict_codec "put_vector put_MetricData" "get_vector get_MetricData"
    "enc_vector enc_MetricData" "ok_vector ok_MetricData"
  by (rule MetricData.vector)

lemmas [wire] = MetricDatas.put_at
lemmas [wire_reads] = MetricDatas.get_reads

record metrics_update =
  mu_metrics :: "metric_data list"

definition put_MetricsUpdate :: "metrics_update \<Rightarrow> writer" where
  "put_MetricsUpdate msg =
     puts [put_vector put_MetricData (mu_metrics msg)]"

definition get_MetricsUpdate :: "metrics_update reader" where
  "get_MetricsUpdate =
     then_get (get_vector get_MetricData) (\<lambda>metrics.
     got \<lparr>mu_metrics = metrics\<rparr>)"

definition enc_MetricsUpdate :: "metrics_update \<Rightarrow> byte list" where
  "enc_MetricsUpdate msg =
     enc_vector enc_MetricData (mu_metrics msg)"

definition ok_MetricsUpdate :: "metrics_update \<Rightarrow> bool" where
  "ok_MetricsUpdate msg \<longleftrightarrow>
     ok_vector ok_MetricData (mu_metrics msg)"

interpretation MetricsUpdate: strict_codec put_MetricsUpdate get_MetricsUpdate
    enc_MetricsUpdate ok_MetricsUpdate
proof (rule strict_codecI)
  show "ok_MetricsUpdate msg \<Longrightarrow> reads get_MetricsUpdate msg (enc_MetricsUpdate msg)" for msg
    by (cases msg; simp add: get_MetricsUpdate_def enc_MetricsUpdate_def ok_MetricsUpdate_def; (rule wire_reads | simp)+)
qed (simp_all add: put_MetricsUpdate_def enc_MetricsUpdate_def ok_MetricsUpdate_def wire)

lemmas [wire] = MetricsUpdate.put_at
lemmas [wire_reads] = MetricsUpdate.get_reads

section \<open>Log messages\<close>

datatype topic =
    TopicNone | TopicUser | TopicTimeSync | TopicLifeCycle | TopicSystemState |
    TopicMessageTracing | TopicServiceDiscovery | TopicParticipant | TopicTimeConfig |
    TopicAsio | TopicRequestReply | TopicSystemMonitor | TopicCan | TopicEthernet |
    TopicFlexray | TopicLin | TopicMetrics | TopicPubsub | TopicRpc | TopicTracing |
    TopicDashboard | TopicNetSim | TopicExtension | TopicInvalid

text \<open>\<open>operator<<\<close> of a topic, and its inverse, which ignores the case.\<close>

fun topic_string :: "topic \<Rightarrow> string" where
  "topic_string TopicNone = ''None''"
| "topic_string TopicUser = ''User''"
| "topic_string TopicTimeSync = ''TimeSync''"
| "topic_string TopicLifeCycle = ''LifeCycle''"
| "topic_string TopicSystemState = ''SystemState''"
| "topic_string TopicMessageTracing = ''MessageTracing''"
| "topic_string TopicServiceDiscovery = ''ServiceDiscovery''"
| "topic_string TopicParticipant = ''Participant''"
| "topic_string TopicTimeConfig = ''TimeConfig''"
| "topic_string TopicAsio = ''Asio''"
| "topic_string TopicRequestReply = ''RequestReply''"
| "topic_string TopicSystemMonitor = ''SystemMonitor''"
| "topic_string TopicCan = ''Can''"
| "topic_string TopicEthernet = ''Ethernet''"
| "topic_string TopicFlexray = ''Flexray''"
| "topic_string TopicLin = ''Lin''"
| "topic_string TopicMetrics = ''Metrics''"
| "topic_string TopicPubsub = ''Pubsub''"
| "topic_string TopicRpc = ''Rpc''"
| "topic_string TopicTracing = ''Tracing''"
| "topic_string TopicDashboard = ''Dashboard''"
| "topic_string TopicNetSim = ''NetSim''"
| "topic_string TopicExtension = ''Extension''"
| "topic_string TopicInvalid = ''Invalid''"

definition to_lower :: "char \<Rightarrow> char" where
  "to_lower c = (let n = of_char c :: nat in if 65 \<le> n \<and> n \<le> 90 then char_of (n + 32) else c)"

definition LowerCase :: "string \<Rightarrow> string" where
  "LowerCase = map to_lower"

definition from_topic_string :: "string \<Rightarrow> topic" where
  "from_topic_string topicStr =
     (let topic = LowerCase topicStr in
      if topic = ''none'' then TopicNone else
      if topic = ''user'' then TopicUser else
      if topic = ''timesync'' then TopicTimeSync else
      if topic = ''lifecycle'' then TopicLifeCycle else
      if topic = ''systemstate'' then TopicSystemState else
      if topic = ''messagetracing'' then TopicMessageTracing else
      if topic = ''servicediscovery'' then TopicServiceDiscovery else
      if topic = ''participant'' then TopicParticipant else
      if topic = ''timeconfig'' then TopicTimeConfig else
      if topic = ''asio'' then TopicAsio else
      if topic = ''requestreply'' then TopicRequestReply else
      if topic = ''systemmonitor'' then TopicSystemMonitor else
      if topic = ''can'' then TopicCan else
      if topic = ''ethernet'' then TopicEthernet else
      if topic = ''flexray'' then TopicFlexray else
      if topic = ''lin'' then TopicLin else
      if topic = ''metrics'' then TopicMetrics else
      if topic = ''pubsub'' then TopicPubsub else
      if topic = ''rpc'' then TopicRpc else
      if topic = ''tracing'' then TopicTracing else
      if topic = ''dashboard'' then TopicDashboard else
      if topic = ''netsim'' then TopicNetSim else
      if topic = ''extension'' then TopicExtension else
      TopicInvalid)"

lemma from_topic_string_topic_string: "from_topic_string (topic_string t) = t"
  by (induct t) code_simp+

lemma ok_topic_string [simp]: "ok_string (topic_string t)"
  by (cases t; simp add: ok_string_def max_size_def)

record source_loc =
  sl_filename :: "string"
  sl_line :: "32 word"
  sl_funcname :: "string"

definition put_SourceLoc :: "source_loc \<Rightarrow> writer" where
  "put_SourceLoc msg =
     puts [put_string (sl_filename msg), put_word (sl_line msg),
           put_string (sl_funcname msg)]"

definition get_SourceLoc :: "source_loc reader" where
  "get_SourceLoc =
     then_get get_string (\<lambda>filename. then_get get_word (\<lambda>line.
     then_get get_string (\<lambda>funcname.
     got \<lparr>sl_filename = filename, sl_line = line, sl_funcname = funcname\<rparr>)))"

definition enc_SourceLoc :: "source_loc \<Rightarrow> byte list" where
  "enc_SourceLoc msg =
     enc_string (sl_filename msg) @ enc_word (sl_line msg) @ enc_string (sl_funcname msg)"

definition ok_SourceLoc :: "source_loc \<Rightarrow> bool" where
  "ok_SourceLoc msg \<longleftrightarrow>
     ok_string (sl_filename msg) \<and> ok_string (sl_funcname msg)"

interpretation SourceLoc: strict_codec put_SourceLoc get_SourceLoc
    enc_SourceLoc ok_SourceLoc
proof (rule strict_codecI)
  show "ok_SourceLoc msg \<Longrightarrow> reads get_SourceLoc msg (enc_SourceLoc msg)" for msg
    by (cases msg; simp add: get_SourceLoc_def enc_SourceLoc_def ok_SourceLoc_def; (rule wire_reads | simp)+)
qed (simp_all add: put_SourceLoc_def enc_SourceLoc_def ok_SourceLoc_def wire)

lemmas [wire] = SourceLoc.put_at
lemmas [wire_reads] = SourceLoc.get_reads

record log_msg =
  lm_loggerName :: string
  lm_level :: "32 word"
  lm_topic :: topic
  lm_time :: int
  lm_source :: source_loc
  lm_payload :: string
  lm_keyValues :: "(string \<times> string) list"

definition put_LogMsg :: "log_msg \<Rightarrow> writer" where
  "put_LogMsg msg =
     puts [put_string (lm_loggerName msg), put_word (lm_level msg), put_time (lm_time msg),
           put_SourceLoc (lm_source msg), put_string (lm_payload msg),
           put_vector (put_pair put_string put_string) (lm_keyValues msg),
           put_string (topic_string (lm_topic msg))]"

text \<open>The key-value pairs and the topic were added later; each is read only if bytes are left.\<close>

definition get_LogMsg :: "log_msg reader" where
  "get_LogMsg =
     then_get get_string (\<lambda>loggerName. then_get get_word (\<lambda>level. then_get get_time (\<lambda>time.
     then_get get_SourceLoc (\<lambda>source. then_get get_string (\<lambda>payload.
     then_get (\<lambda>b. if RemainingBytesLeft b > 0
                   then get_vector (get_pair get_string get_string) b else Inr ([], b)) (\<lambda>keyValues.
     then_get (\<lambda>b. if RemainingBytesLeft b > 0
                   then then_get get_string (\<lambda>tempTopic. got (from_topic_string tempTopic)) b
                   else Inr (TopicNone, b)) (\<lambda>topic.
     got \<lparr>lm_loggerName = loggerName, lm_level = level, lm_topic = topic, lm_time = time,
        lm_source = source, lm_payload = payload, lm_keyValues = keyValues\<rparr>)))))))"

definition enc_LogMsg_v1 :: "log_msg \<Rightarrow> byte list" where
  "enc_LogMsg_v1 msg =
     enc_string (lm_loggerName msg) @ enc_word (lm_level msg) @ enc_time (lm_time msg) @
     enc_SourceLoc (lm_source msg) @ enc_string (lm_payload msg)"

definition enc_LogMsg :: "log_msg \<Rightarrow> byte list" where
  "enc_LogMsg msg =
     enc_LogMsg_v1 msg @ enc_vector (enc_pair enc_string enc_string) (lm_keyValues msg) @
     enc_string (topic_string (lm_topic msg))"

definition ok_LogMsg :: "log_msg \<Rightarrow> bool" where
  "ok_LogMsg msg \<longleftrightarrow>
     ok_string (lm_loggerName msg) \<and> ok_time (lm_time msg) \<and> ok_SourceLoc (lm_source msg) \<and>
     ok_string (lm_payload msg) \<and> ok_vector (ok_pair ok_string ok_string) (lm_keyValues msg)"

lemmas log_parts_at = word_get_at str.get_at reads_at [OF reads_time] SourceLoc.get_at str_pairs.get_at

interpretation LogMsg: codec put_LogMsg get_LogMsg enc_LogMsg ok_LogMsg
  by unfold_locales
    (simp_all add: put_LogMsg_def get_LogMsg_def then_get_def got_def enc_LogMsg_def enc_LogMsg_v1_def
      ok_LogMsg_def wire log_parts_at from_topic_string_topic_string)

lemma first_log_version_is_read:
  assumes "ok_LogMsg msg"
  shows "get_LogMsg (at v pre (enc_LogMsg_v1 msg)) =
    Inr (msg\<lparr>lm_topic := TopicNone, lm_keyValues := []\<rparr>, at v (pre @ enc_LogMsg_v1 msg) [])"
  using assms str.get_at [of "lm_payload msg" v _ "[]"]
  by (simp add: get_LogMsg_def then_get_def got_def enc_LogMsg_v1_def ok_LogMsg_def log_parts_at)

section \<open>Properties\<close>

text \<open>
  The orchestration messages that keep a simulation together survive the wire:
  simulation tasks, system commands, participant statuses with their wall clock times and
  the list of required participants are read back unchanged and never from a message that
  was cut off.
\<close>

theorem orchestration_messages_survive:
  assumes "ok_ParticipantStatus status" "ok_WorkflowConfiguration workflow"
  shows "survives put_NextSimTask get_NextSimTask task \<and>
    survives put_SystemCommand get_SystemCommand command \<and>
    survives put_ParticipantStatus get_ParticipantStatus status \<and>
    survives put_WorkflowConfiguration get_WorkflowConfiguration workflow"
  using assms
  by (simp add: NextSimTask.sound SystemCommand.sound ParticipantStatus.sound WorkflowConfiguration.sound)

theorem orchestration_messages_survive_witness:
  "survives put_NextSimTask get_NextSimTask \<lparr>nst_timePoint = 1000, nst_duration = 1000\<rparr> \<and>
   survives put_SystemCommand get_SystemCommand \<lparr>sc_kind = 1\<rparr> \<and>
   survives put_ParticipantStatus get_ParticipantStatus
     \<lparr>ps_participantName = ''A'', ps_state = 60, ps_enterReason = ''run'', ps_enterTime = 2000,
       ps_refreshTime = - 3000\<rparr> \<and>
   survives put_WorkflowConfiguration get_WorkflowConfiguration
     \<lparr>wc_requiredParticipantNames = [''A'', ''B'']\<rparr>"
  by (rule orchestration_messages_survive)
    (simp_all add: ok_ParticipantStatus_def ok_WorkflowConfiguration_def ok_vector_def ok_string_def
      ok_time_def max_size_def)

text \<open>
  The messages of publish and subscribe, of remote procedure calls, of the request
  and reply service, of service discovery (descriptors with their supplemental data
  included) and the metrics survive the wire.
\<close>

theorem service_messages_survive:
  assumes "ok_WireDataMessageEvent sample" "ok_FunctionCall call" "ok_FunctionCallResponse response"
    "ok_RequestReplyCall request" "ok_RequestReplyCallReturn reply"
    "ok_ParticipantDiscoveryEvent participant" "ok_ServiceDiscoveryEvent service" "ok_MetricsUpdate metrics"
  shows "survives put_WireDataMessageEvent get_WireDataMessageEvent sample \<and>
    survives put_FunctionCall get_FunctionCall call \<and>
    survives put_FunctionCallResponse get_FunctionCallResponse response \<and>
    survives put_RequestReplyCall get_RequestReplyCall request \<and>
    survives put_RequestReplyCallReturn get_RequestReplyCallReturn reply \<and>
    survives put_ParticipantDiscoveryEvent get_ParticipantDiscoveryEvent participant \<and>
    survives put_ServiceDiscoveryEvent get_ServiceDiscoveryEvent service \<and>
    survives put_MetricsUpdate get_MetricsUpdate metrics"
  using assms
  by (simp add: WireDataMessageEvent.sound FunctionCall.sound FunctionCallResponse.sound
      RequestReplyCall.sound RequestReplyCallReturn.sound ParticipantDiscoveryEvent.sound
      ServiceDiscoveryEvent.sound MetricsUpdate.sound)

definition example_descriptor :: service_descriptor where
  "example_descriptor = \<lparr>sd_participantName = ''A'', sd_participantId = 7, sd_serviceType = 2,
     sd_networkName = ''CAN1'', sd_networkType = 2, sd_serviceName = ''c'', sd_serviceId = 4,
     sd_supplementalData = [(''k'', ''v''), (''l'', ''w'')]\<rparr>"

lemma example_descriptor_ok: "ok_ServiceDescriptor example_descriptor"
  by (simp add: ok_ServiceDescriptor_def example_descriptor_def ok_string_def ok_map_def ok_vector_def
      ok_pair_def max_size_def)

theorem service_messages_survive_witness:
  "survives put_WireDataMessageEvent get_WireDataMessageEvent \<lparr>wd_timestamp = 1, wd_data = [1, 2]\<rparr> \<and>
   survives put_FunctionCall get_FunctionCall \<lparr>fca_timestamp = 1, fca_callUuid = (1, 2), fca_data = [3]\<rparr> \<and>
   survives put_FunctionCallResponse get_FunctionCallResponse
     \<lparr>fcr_timestamp = 2, fcr_callUuid = (1, 2), fcr_data = [4], fcr_status = 0\<rparr> \<and>
   survives put_RequestReplyCall get_RequestReplyCall
     \<lparr>rc_callUuid = (5, 6), rc_functionType = 1, rc_callData = []\<rparr> \<and>
   survives put_RequestReplyCallReturn get_RequestReplyCallReturn
     \<lparr>rr_callUuid = (5, 6), rr_functionType = 1, rr_callReturnData = [], rr_callReturnStatus = 0\<rparr> \<and>
   survives put_ParticipantDiscoveryEvent get_ParticipantDiscoveryEvent
     \<lparr>pd_participantName = ''A'', pd_version = 1, pd_services = [example_descriptor]\<rparr> \<and>
   survives put_ServiceDiscoveryEvent get_ServiceDiscoveryEvent
     \<lparr>sde_type = 1, sde_serviceDescriptor = example_descriptor\<rparr> \<and>
   survives put_MetricsUpdate get_MetricsUpdate
     \<lparr>mu_metrics = [\<lparr>md_timestamp = 1, md_name = ''m'', md_kind = 0, md_value = ''1''\<rparr>]\<rparr>"
  by (rule service_messages_survive)
    (simp_all add: ok_WireDataMessageEvent_def ok_FunctionCall_def ok_FunctionCallResponse_def
      ok_RequestReplyCall_def ok_RequestReplyCallReturn_def ok_ParticipantDiscoveryEvent_def
      ok_ServiceDiscoveryEvent_def ok_MetricsUpdate_def ok_MetricData_def example_descriptor_ok
      ok_vector_def ok_string_def max_size_def)

end
