(* ===== verification/SilKitMessages.thy ===== *)
theory SilKitMessages
  imports SerializedMessage BusSerdes FlexraySerdes ServiceSerdes
begin

text \<open>
  The messages that participants exchange through links: the tuple \<open>SilKitMessageTypes\<close> of
  \<open>core/vasio/VAsioConnection.hpp\<close> as one datatype, its traits
  (\<open>core/internal/traits/SilKitMsgTraits.hpp\<close>, \<open>SilKitMsgSerdesName.hpp\<close>,
  \<open>SilKitMsgVersion.hpp\<close>) as functions of the type, and \<open>Serialize\<close> and \<open>Deserialize\<close>, which
  the code chooses by overloading, by cases. The last three types exist for the
  integration tests (\<open>core/internal/TestDataTypes.hpp\<close>).
\<close>

section \<open>The test messages\<close>

record test_message_1 =
  tm1_str :: string
  tm1_integer :: "32 word"

definition put_TestMessage1 :: "test_message_1 \<Rightarrow> writer" where
  "put_TestMessage1 msg = puts [put_string (tm1_str msg), put_word (tm1_integer msg)]"

definition get_TestMessage1 :: "test_message_1 reader" where
  "get_TestMessage1 =
     then_get get_string (\<lambda>str. then_get get_word (\<lambda>integer.
     got \<lparr>tm1_str = str, tm1_integer = integer\<rparr>))"

definition enc_TestMessage1 :: "test_message_1 \<Rightarrow> byte list" where
  "enc_TestMessage1 msg = enc_string (tm1_str msg) @ enc_word (tm1_integer msg)"

definition ok_TestMessage1 :: "test_message_1 \<Rightarrow> bool" where
  "ok_TestMessage1 msg \<longleftrightarrow> ok_string (tm1_str msg)"

interpretation TestMessage1: strict_codec put_TestMessage1 get_TestMessage1 enc_TestMessage1 ok_TestMessage1
proof (rule strict_codecI)
  show "ok_TestMessage1 msg \<Longrightarrow> reads get_TestMessage1 msg (enc_TestMessage1 msg)" for msg
    by (cases msg; simp add: get_TestMessage1_def enc_TestMessage1_def ok_TestMessage1_def; (rule wire_reads | simp)+)
qed (simp_all add: put_TestMessage1_def enc_TestMessage1_def ok_TestMessage1_def wire)

record test_message_2 =
  tm2_integer :: "32 word"
  tm2_str :: string

definition put_TestMessage2 :: "test_message_2 \<Rightarrow> writer" where
  "put_TestMessage2 msg = puts [put_word (tm2_integer msg), put_string (tm2_str msg)]"

definition get_TestMessage2 :: "test_message_2 reader" where
  "get_TestMessage2 =
     then_get get_word (\<lambda>integer. then_get get_string (\<lambda>str.
     got \<lparr>tm2_integer = integer, tm2_str = str\<rparr>))"

definition enc_TestMessage2 :: "test_message_2 \<Rightarrow> byte list" where
  "enc_TestMessage2 msg = enc_word (tm2_integer msg) @ enc_string (tm2_str msg)"

definition ok_TestMessage2 :: "test_message_2 \<Rightarrow> bool" where
  "ok_TestMessage2 msg \<longleftrightarrow> ok_string (tm2_str msg)"

interpretation TestMessage2: strict_codec put_TestMessage2 get_TestMessage2 enc_TestMessage2 ok_TestMessage2
proof (rule strict_codecI)
  show "ok_TestMessage2 msg \<Longrightarrow> reads get_TestMessage2 msg (enc_TestMessage2 msg)" for msg
    by (cases msg; simp add: get_TestMessage2_def enc_TestMessage2_def ok_TestMessage2_def; (rule wire_reads | simp)+)
qed (simp_all add: put_TestMessage2_def enc_TestMessage2_def ok_TestMessage2_def wire)

record test_frame_event =
  tfe_integer :: "32 word"
  tfe_str :: string

definition put_TestFrameEvent :: "test_frame_event \<Rightarrow> writer" where
  "put_TestFrameEvent msg = puts [put_word (tfe_integer msg), put_string (tfe_str msg)]"

definition get_TestFrameEvent :: "test_frame_event reader" where
  "get_TestFrameEvent =
     then_get get_word (\<lambda>integer. then_get get_string (\<lambda>str.
     got \<lparr>tfe_integer = integer, tfe_str = str\<rparr>))"

definition enc_TestFrameEvent :: "test_frame_event \<Rightarrow> byte list" where
  "enc_TestFrameEvent msg = enc_word (tfe_integer msg) @ enc_string (tfe_str msg)"

definition ok_TestFrameEvent :: "test_frame_event \<Rightarrow> bool" where
  "ok_TestFrameEvent msg \<longleftrightarrow> ok_string (tfe_str msg)"

interpretation TestFrameEvent: strict_codec put_TestFrameEvent get_TestFrameEvent enc_TestFrameEvent ok_TestFrameEvent
proof (rule strict_codecI)
  show "ok_TestFrameEvent msg \<Longrightarrow> reads get_TestFrameEvent msg (enc_TestFrameEvent msg)" for msg
    by (cases msg; simp add: get_TestFrameEvent_def enc_TestFrameEvent_def ok_TestFrameEvent_def; (rule wire_reads | simp)+)
qed (simp_all add: put_TestFrameEvent_def enc_TestFrameEvent_def ok_TestFrameEvent_def wire)

section \<open>The types and their messages\<close>

datatype silkit_type =
    T_LogMsg | T_NextSimTask | T_SystemCommand
  | T_ParticipantStatus | T_WorkflowConfiguration | T_WireDataMessageEvent
  | T_FunctionCall | T_FunctionCallResponse | T_WireCanFrameEvent
  | T_CanFrameTransmitEvent | T_CanControllerStatus | T_CanConfigureBaudrate
  | T_CanSetControllerMode | T_WireEthernetFrameEvent | T_EthernetFrameTransmitEvent
  | T_EthernetStatus | T_EthernetSetMode | T_LinSendFrameRequest
  | T_LinSendFrameHeaderRequest | T_LinTransmission | T_LinWakeupPulse
  | T_WireLinControllerConfig | T_LinControllerStatusUpdate | T_LinFrameResponseUpdate
  | T_WireFlexrayFrameEvent | T_WireFlexrayFrameTransmitEvent | T_FlexraySymbolEvent
  | T_FlexraySymbolTransmitEvent | T_FlexrayCycleStartEvent | T_FlexrayHostCommand
  | T_FlexrayControllerConfig | T_FlexrayTxBufferConfigUpdate | T_WireFlexrayTxBufferUpdate
  | T_FlexrayPocStatusEvent | T_ParticipantDiscoveryEvent | T_ServiceDiscoveryEvent
  | T_RequestReplyCall | T_RequestReplyCallReturn | T_MetricsUpdate
  | T_TestMessage1 | T_TestMessage2 | T_TestFrameEvent

datatype silkit_message =
    M_LogMsg log_msg
  | M_NextSimTask next_sim_task_msg
  | M_SystemCommand system_command_msg
  | M_ParticipantStatus participant_status_msg
  | M_WorkflowConfiguration workflow_configuration_msg
  | M_WireDataMessageEvent wire_data_message_event
  | M_FunctionCall function_call
  | M_FunctionCallResponse function_call_response
  | M_WireCanFrameEvent wire_can_frame_event
  | M_CanFrameTransmitEvent can_frame_transmit_event
  | M_CanControllerStatus can_controller_status
  | M_CanConfigureBaudrate can_configure_baudrate
  | M_CanSetControllerMode can_set_controller_mode
  | M_WireEthernetFrameEvent wire_ethernet_frame_event
  | M_EthernetFrameTransmitEvent ethernet_frame_transmit_event
  | M_EthernetStatus ethernet_status
  | M_EthernetSetMode ethernet_set_mode
  | M_LinSendFrameRequest lin_send_frame_request
  | M_LinSendFrameHeaderRequest lin_send_frame_header_request
  | M_LinTransmission lin_transmission
  | M_LinWakeupPulse lin_wakeup_pulse
  | M_WireLinControllerConfig wire_lin_controller_config
  | M_LinControllerStatusUpdate lin_controller_status_update
  | M_LinFrameResponseUpdate lin_frame_response_update
  | M_WireFlexrayFrameEvent wire_flexray_frame_event
  | M_WireFlexrayFrameTransmitEvent wire_flexray_frame_transmit_event
  | M_FlexraySymbolEvent flexray_symbol_event
  | M_FlexraySymbolTransmitEvent flexray_symbol_transmit_event
  | M_FlexrayCycleStartEvent flexray_cycle_start_event
  | M_FlexrayHostCommand flexray_host_command
  | M_FlexrayControllerConfig flexray_controller_config
  | M_FlexrayTxBufferConfigUpdate flexray_tx_buffer_config_update
  | M_WireFlexrayTxBufferUpdate wire_flexray_tx_buffer_update
  | M_FlexrayPocStatusEvent flexray_poc_status_event
  | M_ParticipantDiscoveryEvent participant_discovery_event
  | M_ServiceDiscoveryEvent service_discovery_event
  | M_RequestReplyCall request_reply_call
  | M_RequestReplyCallReturn request_reply_call_return
  | M_MetricsUpdate metrics_update
  | M_TestMessage1 test_message_1
  | M_TestMessage2 test_message_2
  | M_TestFrameEvent test_frame_event

definition SilKitMessageTypes :: "silkit_type list" where
  "SilKitMessageTypes =
     [T_LogMsg, T_NextSimTask, T_SystemCommand,
      T_ParticipantStatus, T_WorkflowConfiguration, T_WireDataMessageEvent,
      T_FunctionCall, T_FunctionCallResponse, T_WireCanFrameEvent,
      T_CanFrameTransmitEvent, T_CanControllerStatus, T_CanConfigureBaudrate,
      T_CanSetControllerMode, T_WireEthernetFrameEvent, T_EthernetFrameTransmitEvent,
      T_EthernetStatus, T_EthernetSetMode, T_LinSendFrameRequest,
      T_LinSendFrameHeaderRequest, T_LinTransmission, T_LinWakeupPulse,
      T_WireLinControllerConfig, T_LinControllerStatusUpdate, T_LinFrameResponseUpdate,
      T_WireFlexrayFrameEvent, T_WireFlexrayFrameTransmitEvent, T_FlexraySymbolEvent,
      T_FlexraySymbolTransmitEvent, T_FlexrayCycleStartEvent, T_FlexrayHostCommand,
      T_FlexrayControllerConfig, T_FlexrayTxBufferConfigUpdate, T_WireFlexrayTxBufferUpdate,
      T_FlexrayPocStatusEvent, T_ParticipantDiscoveryEvent, T_ServiceDiscoveryEvent,
      T_RequestReplyCall, T_RequestReplyCallReturn, T_MetricsUpdate,
      T_TestMessage1, T_TestMessage2, T_TestFrameEvent]"

fun type_of :: "silkit_message \<Rightarrow> silkit_type" where
  "type_of (M_LogMsg _) = T_LogMsg"
| "type_of (M_NextSimTask _) = T_NextSimTask"
| "type_of (M_SystemCommand _) = T_SystemCommand"
| "type_of (M_ParticipantStatus _) = T_ParticipantStatus"
| "type_of (M_WorkflowConfiguration _) = T_WorkflowConfiguration"
| "type_of (M_WireDataMessageEvent _) = T_WireDataMessageEvent"
| "type_of (M_FunctionCall _) = T_FunctionCall"
| "type_of (M_FunctionCallResponse _) = T_FunctionCallResponse"
| "type_of (M_WireCanFrameEvent _) = T_WireCanFrameEvent"
| "type_of (M_CanFrameTransmitEvent _) = T_CanFrameTransmitEvent"
| "type_of (M_CanControllerStatus _) = T_CanControllerStatus"
| "type_of (M_CanConfigureBaudrate _) = T_CanConfigureBaudrate"
| "type_of (M_CanSetControllerMode _) = T_CanSetControllerMode"
| "type_of (M_WireEthernetFrameEvent _) = T_WireEthernetFrameEvent"
| "type_of (M_EthernetFrameTransmitEvent _) = T_EthernetFrameTransmitEvent"
| "type_of (M_EthernetStatus _) = T_EthernetStatus"
| "type_of (M_EthernetSetMode _) = T_EthernetSetMode"
| "type_of (M_LinSendFrameRequest _) = T_LinSendFrameRequest"
| "type_of (M_LinSendFrameHeaderRequest _) = T_LinSendFrameHeaderRequest"
| "type_of (M_LinTransmission _) = T_LinTransmission"
| "type_of (M_LinWakeupPulse _) = T_LinWakeupPulse"
| "type_of (M_WireLinControllerConfig _) = T_WireLinControllerConfig"
| "type_of (M_LinControllerStatusUpdate _) = T_LinControllerStatusUpdate"
| "type_of (M_LinFrameResponseUpdate _) = T_LinFrameResponseUpdate"
| "type_of (M_WireFlexrayFrameEvent _) = T_WireFlexrayFrameEvent"
| "type_of (M_WireFlexrayFrameTransmitEvent _) = T_WireFlexrayFrameTransmitEvent"
| "type_of (M_FlexraySymbolEvent _) = T_FlexraySymbolEvent"
| "type_of (M_FlexraySymbolTransmitEvent _) = T_FlexraySymbolTransmitEvent"
| "type_of (M_FlexrayCycleStartEvent _) = T_FlexrayCycleStartEvent"
| "type_of (M_FlexrayHostCommand _) = T_FlexrayHostCommand"
| "type_of (M_FlexrayControllerConfig _) = T_FlexrayControllerConfig"
| "type_of (M_FlexrayTxBufferConfigUpdate _) = T_FlexrayTxBufferConfigUpdate"
| "type_of (M_WireFlexrayTxBufferUpdate _) = T_WireFlexrayTxBufferUpdate"
| "type_of (M_FlexrayPocStatusEvent _) = T_FlexrayPocStatusEvent"
| "type_of (M_ParticipantDiscoveryEvent _) = T_ParticipantDiscoveryEvent"
| "type_of (M_ServiceDiscoveryEvent _) = T_ServiceDiscoveryEvent"
| "type_of (M_RequestReplyCall _) = T_RequestReplyCall"
| "type_of (M_RequestReplyCallReturn _) = T_RequestReplyCallReturn"
| "type_of (M_MetricsUpdate _) = T_MetricsUpdate"
| "type_of (M_TestMessage1 _) = T_TestMessage1"
| "type_of (M_TestMessage2 _) = T_TestMessage2"
| "type_of (M_TestFrameEvent _) = T_TestFrameEvent"

section \<open>Traits\<close>

fun SerdesName :: "silkit_type \<Rightarrow> string" where
  "SerdesName T_LogMsg = ''LOGMSG''"
| "SerdesName T_NextSimTask = ''NEXTSIMTASK''"
| "SerdesName T_SystemCommand = ''SYSTEMCOMMAND''"
| "SerdesName T_ParticipantStatus = ''PARTICIPANTSTATUS''"
| "SerdesName T_WorkflowConfiguration = ''WORKFLOWCONFIGURATION''"
| "SerdesName T_WireDataMessageEvent = ''DATAMESSAGEEVENT''"
| "SerdesName T_FunctionCall = ''FUNCTIONCALL''"
| "SerdesName T_FunctionCallResponse = ''FUNCTIONCALLRESPONSE''"
| "SerdesName T_WireCanFrameEvent = ''CANFRAMEEVENT''"
| "SerdesName T_CanFrameTransmitEvent = ''CANFRAMETRANSMITEVENT''"
| "SerdesName T_CanControllerStatus = ''CANCONTROLLERSTATUS''"
| "SerdesName T_CanConfigureBaudrate = ''CANCONFIGUREBAUDRATE''"
| "SerdesName T_CanSetControllerMode = ''CANSETCONTROLLERMODE''"
| "SerdesName T_WireEthernetFrameEvent = ''ETHERNETFRAMEEVENT''"
| "SerdesName T_EthernetFrameTransmitEvent = ''ETHERNETFRAMETRANSMITEVENT''"
| "SerdesName T_EthernetStatus = ''ETHERNETSTATUS''"
| "SerdesName T_EthernetSetMode = ''ETHERNETSETMODE''"
| "SerdesName T_LinSendFrameRequest = ''SENDFRAMEREQUEST''"
| "SerdesName T_LinSendFrameHeaderRequest = ''SENDFRAMEHEADERREQUEST''"
| "SerdesName T_LinTransmission = ''TRANSMISSION''"
| "SerdesName T_LinWakeupPulse = ''WAKEUPPULSE''"
| "SerdesName T_WireLinControllerConfig = ''CONTROLLERCONFIG''"
| "SerdesName T_LinControllerStatusUpdate = ''CONTROLLERSTATUSUPDATE''"
| "SerdesName T_LinFrameResponseUpdate = ''FRAMERESPONSEUPDATE''"
| "SerdesName T_WireFlexrayFrameEvent = ''FRMESSAGE''"
| "SerdesName T_WireFlexrayFrameTransmitEvent = ''FRMESSAGEACK''"
| "SerdesName T_FlexraySymbolEvent = ''FRSYMBOL''"
| "SerdesName T_FlexraySymbolTransmitEvent = ''FRSYMBOLACK''"
| "SerdesName T_FlexrayCycleStartEvent = ''CYCLESTART''"
| "SerdesName T_FlexrayHostCommand = ''HOSTCOMMAND''"
| "SerdesName T_FlexrayControllerConfig = ''CONTROLLERCONFIG''"
| "SerdesName T_FlexrayTxBufferConfigUpdate = ''TXBUFFERCONFIGUPDATE''"
| "SerdesName T_WireFlexrayTxBufferUpdate = ''TXBUFFERUPDATE''"
| "SerdesName T_FlexrayPocStatusEvent = ''POCSTATUS''"
| "SerdesName T_ParticipantDiscoveryEvent = ''SERVICEANNOUNCEMENT''"
| "SerdesName T_ServiceDiscoveryEvent = ''SERVICEDISCOVERYEVENT''"
| "SerdesName T_RequestReplyCall = ''REQUESTREPLYCALL''"
| "SerdesName T_RequestReplyCallReturn = ''REQUESTREPLYCALLRETURN''"
| "SerdesName T_MetricsUpdate = ''METRICSUPDATE''"
| "SerdesName T_TestMessage1 = ''TESTMESSAGE''"
| "SerdesName T_TestMessage2 = ''TESTMESSAGE''"
| "SerdesName T_TestFrameEvent = ''TESTMESSAGE''"

fun Version :: "silkit_type \<Rightarrow> 32 word" where
  "Version T_TestMessage1 = 1"
| "Version T_TestMessage2 = 2"
| "Version T_TestFrameEvent = 3"
| "Version _ = 1"

definition HistSize :: "silkit_type \<Rightarrow> nat" where
  "HistSize t =
     (if t \<in> {T_ParticipantStatus, T_ParticipantDiscoveryEvent, T_WireDataMessageEvent,
        T_WorkflowConfiguration, T_WireLinControllerConfig} then 1 else 0)"

definition IsSelfDeliveryEnforced :: "silkit_type \<Rightarrow> bool" where
  "IsSelfDeliveryEnforced t \<longleftrightarrow> t \<in> {T_ParticipantStatus, T_LinSendFrameHeaderRequest}"

definition IsSelfDeliveryForbidden :: "silkit_type \<Rightarrow> bool" where
  "IsSelfDeliveryForbidden t \<longleftrightarrow> t = T_SystemCommand"

text \<open>\<open>HasTimestamp\<close> and \<open>SetTimestamp\<close> (\<open>core/vasio/SilKitLink.hpp\<close>): the messages with a
  \<open>timestamp\<close>, which is replaced where it is \<open>nanoseconds::min()\<close>.\<close>

definition min_time :: "64 word" where
  "min_time = 2 ^ 63"

fun SetTimestamp :: "64 word \<Rightarrow> silkit_message \<Rightarrow> silkit_message" where
  "SetTimestamp t (M_WireDataMessageEvent msg) =
     M_WireDataMessageEvent (if wd_timestamp msg = min_time then msg\<lparr>wd_timestamp := t\<rparr> else msg)"
| "SetTimestamp t (M_FunctionCall msg) =
     M_FunctionCall (if fca_timestamp msg = min_time then msg\<lparr>fca_timestamp := t\<rparr> else msg)"
| "SetTimestamp t (M_FunctionCallResponse msg) =
     M_FunctionCallResponse (if fcr_timestamp msg = min_time then msg\<lparr>fcr_timestamp := t\<rparr> else msg)"
| "SetTimestamp t (M_WireCanFrameEvent msg) =
     M_WireCanFrameEvent (if cfe_timestamp msg = min_time then msg\<lparr>cfe_timestamp := t\<rparr> else msg)"
| "SetTimestamp t (M_CanFrameTransmitEvent msg) =
     M_CanFrameTransmitEvent (if cft_timestamp msg = min_time then msg\<lparr>cft_timestamp := t\<rparr> else msg)"
| "SetTimestamp t (M_CanControllerStatus msg) =
     M_CanControllerStatus (if ccs_timestamp msg = min_time then msg\<lparr>ccs_timestamp := t\<rparr> else msg)"
| "SetTimestamp t (M_WireEthernetFrameEvent msg) =
     M_WireEthernetFrameEvent (if efe_timestamp msg = min_time then msg\<lparr>efe_timestamp := t\<rparr> else msg)"
| "SetTimestamp t (M_EthernetFrameTransmitEvent msg) =
     M_EthernetFrameTransmitEvent (if eft_timestamp msg = min_time then msg\<lparr>eft_timestamp := t\<rparr> else msg)"
| "SetTimestamp t (M_EthernetStatus msg) =
     M_EthernetStatus (if es_timestamp msg = min_time then msg\<lparr>es_timestamp := t\<rparr> else msg)"
| "SetTimestamp t (M_LinSendFrameHeaderRequest msg) =
     M_LinSendFrameHeaderRequest (if lsh_timestamp msg = min_time then msg\<lparr>lsh_timestamp := t\<rparr> else msg)"
| "SetTimestamp t (M_LinTransmission msg) =
     M_LinTransmission (if lt_timestamp msg = min_time then msg\<lparr>lt_timestamp := t\<rparr> else msg)"
| "SetTimestamp t (M_LinWakeupPulse msg) =
     M_LinWakeupPulse (if lwp_timestamp msg = min_time then msg\<lparr>lwp_timestamp := t\<rparr> else msg)"
| "SetTimestamp t (M_LinControllerStatusUpdate msg) =
     M_LinControllerStatusUpdate (if lcs_timestamp msg = min_time then msg\<lparr>lcs_timestamp := t\<rparr> else msg)"
| "SetTimestamp t (M_WireFlexrayFrameEvent msg) =
     M_WireFlexrayFrameEvent (if ffe_timestamp msg = min_time then msg\<lparr>ffe_timestamp := t\<rparr> else msg)"
| "SetTimestamp t (M_WireFlexrayFrameTransmitEvent msg) =
     M_WireFlexrayFrameTransmitEvent (if fft_timestamp msg = min_time then msg\<lparr>fft_timestamp := t\<rparr> else msg)"
| "SetTimestamp t (M_FlexraySymbolEvent msg) =
     M_FlexraySymbolEvent (if fs_timestamp msg = min_time then msg\<lparr>fs_timestamp := t\<rparr> else msg)"
| "SetTimestamp t (M_FlexraySymbolTransmitEvent msg) =
     M_FlexraySymbolTransmitEvent (if fs_timestamp msg = min_time then msg\<lparr>fs_timestamp := t\<rparr> else msg)"
| "SetTimestamp t (M_FlexrayCycleStartEvent msg) =
     M_FlexrayCycleStartEvent (if fc_timestamp msg = min_time then msg\<lparr>fc_timestamp := t\<rparr> else msg)"
| "SetTimestamp t (M_FlexrayPocStatusEvent msg) =
     M_FlexrayPocStatusEvent (if poc_timestamp msg = min_time then msg\<lparr>poc_timestamp := t\<rparr> else msg)"
| "SetTimestamp t msg = msg"

text \<open>What the envelope needs of the type (\<open>SerializedMessageTraits.hpp\<close>, \<open>AggregationMessageTraits.hpp\<close>).\<close>

fun envelope_type :: "silkit_type \<Rightarrow> message_type" where
  "envelope_type T_NextSimTask = TypeNextSimTask"
| "envelope_type T_ParticipantStatus = TypeParticipantStatus"
| "envelope_type T_WireDataMessageEvent = TypeWireDataMessageEvent"
| "envelope_type T_FunctionCall = TypeFunctionCall"
| "envelope_type T_FunctionCallResponse = TypeFunctionCallResponse"
| "envelope_type T_WireCanFrameEvent = TypeWireCanFrameEvent"
| "envelope_type T_WireEthernetFrameEvent = TypeWireEthernetFrameEvent"
| "envelope_type _ = TypeOther"

section \<open>Serialization by type\<close>

fun put_message :: "silkit_message \<Rightarrow> writer" where
  "put_message (M_LogMsg msg) = put_LogMsg msg"
| "put_message (M_NextSimTask msg) = put_NextSimTask msg"
| "put_message (M_SystemCommand msg) = put_SystemCommand msg"
| "put_message (M_ParticipantStatus msg) = put_ParticipantStatus msg"
| "put_message (M_WorkflowConfiguration msg) = put_WorkflowConfiguration msg"
| "put_message (M_WireDataMessageEvent msg) = put_WireDataMessageEvent msg"
| "put_message (M_FunctionCall msg) = put_FunctionCall msg"
| "put_message (M_FunctionCallResponse msg) = put_FunctionCallResponse msg"
| "put_message (M_WireCanFrameEvent msg) = put_WireCanFrameEvent msg"
| "put_message (M_CanFrameTransmitEvent msg) = put_CanFrameTransmitEvent msg"
| "put_message (M_CanControllerStatus msg) = put_CanControllerStatus msg"
| "put_message (M_CanConfigureBaudrate msg) = put_CanConfigureBaudrate msg"
| "put_message (M_CanSetControllerMode msg) = put_CanSetControllerMode msg"
| "put_message (M_WireEthernetFrameEvent msg) = put_WireEthernetFrameEvent msg"
| "put_message (M_EthernetFrameTransmitEvent msg) = put_EthernetFrameTransmitEvent msg"
| "put_message (M_EthernetStatus msg) = put_EthernetStatus msg"
| "put_message (M_EthernetSetMode msg) = put_EthernetSetMode msg"
| "put_message (M_LinSendFrameRequest msg) = put_LinSendFrameRequest msg"
| "put_message (M_LinSendFrameHeaderRequest msg) = put_LinSendFrameHeaderRequest msg"
| "put_message (M_LinTransmission msg) = put_LinTransmission msg"
| "put_message (M_LinWakeupPulse msg) = put_LinWakeupPulse msg"
| "put_message (M_WireLinControllerConfig msg) = put_WireLinControllerConfig msg"
| "put_message (M_LinControllerStatusUpdate msg) = put_LinControllerStatusUpdate msg"
| "put_message (M_LinFrameResponseUpdate msg) = put_LinFrameResponseUpdate msg"
| "put_message (M_WireFlexrayFrameEvent msg) = put_WireFlexrayFrameEvent msg"
| "put_message (M_WireFlexrayFrameTransmitEvent msg) = put_WireFlexrayFrameTransmitEvent msg"
| "put_message (M_FlexraySymbolEvent msg) = put_FlexraySymbolEvent msg"
| "put_message (M_FlexraySymbolTransmitEvent msg) = put_FlexraySymbolTransmitEvent msg"
| "put_message (M_FlexrayCycleStartEvent msg) = put_FlexrayCycleStartEvent msg"
| "put_message (M_FlexrayHostCommand msg) = put_FlexrayHostCommand msg"
| "put_message (M_FlexrayControllerConfig msg) = put_FlexrayControllerConfig msg"
| "put_message (M_FlexrayTxBufferConfigUpdate msg) = put_FlexrayTxBufferConfigUpdate msg"
| "put_message (M_WireFlexrayTxBufferUpdate msg) = put_WireFlexrayTxBufferUpdate msg"
| "put_message (M_FlexrayPocStatusEvent msg) = put_FlexrayPocStatusEvent msg"
| "put_message (M_ParticipantDiscoveryEvent msg) = put_ParticipantDiscoveryEvent msg"
| "put_message (M_ServiceDiscoveryEvent msg) = put_ServiceDiscoveryEvent msg"
| "put_message (M_RequestReplyCall msg) = put_RequestReplyCall msg"
| "put_message (M_RequestReplyCallReturn msg) = put_RequestReplyCallReturn msg"
| "put_message (M_MetricsUpdate msg) = put_MetricsUpdate msg"
| "put_message (M_TestMessage1 msg) = put_TestMessage1 msg"
| "put_message (M_TestMessage2 msg) = put_TestMessage2 msg"
| "put_message (M_TestFrameEvent msg) = put_TestFrameEvent msg"

fun get_message :: "silkit_type \<Rightarrow> silkit_message reader" where
  "get_message T_LogMsg = then_get get_LogMsg (\<lambda>msg. got (M_LogMsg msg))"
| "get_message T_NextSimTask = then_get get_NextSimTask (\<lambda>msg. got (M_NextSimTask msg))"
| "get_message T_SystemCommand = then_get get_SystemCommand (\<lambda>msg. got (M_SystemCommand msg))"
| "get_message T_ParticipantStatus = then_get get_ParticipantStatus (\<lambda>msg. got (M_ParticipantStatus msg))"
| "get_message T_WorkflowConfiguration = then_get get_WorkflowConfiguration (\<lambda>msg. got (M_WorkflowConfiguration msg))"
| "get_message T_WireDataMessageEvent = then_get get_WireDataMessageEvent (\<lambda>msg. got (M_WireDataMessageEvent msg))"
| "get_message T_FunctionCall = then_get get_FunctionCall (\<lambda>msg. got (M_FunctionCall msg))"
| "get_message T_FunctionCallResponse = then_get get_FunctionCallResponse (\<lambda>msg. got (M_FunctionCallResponse msg))"
| "get_message T_WireCanFrameEvent = then_get get_WireCanFrameEvent (\<lambda>msg. got (M_WireCanFrameEvent msg))"
| "get_message T_CanFrameTransmitEvent = then_get get_CanFrameTransmitEvent (\<lambda>msg. got (M_CanFrameTransmitEvent msg))"
| "get_message T_CanControllerStatus = then_get get_CanControllerStatus (\<lambda>msg. got (M_CanControllerStatus msg))"
| "get_message T_CanConfigureBaudrate = then_get get_CanConfigureBaudrate (\<lambda>msg. got (M_CanConfigureBaudrate msg))"
| "get_message T_CanSetControllerMode = then_get get_CanSetControllerMode (\<lambda>msg. got (M_CanSetControllerMode msg))"
| "get_message T_WireEthernetFrameEvent = then_get get_WireEthernetFrameEvent (\<lambda>msg. got (M_WireEthernetFrameEvent msg))"
| "get_message T_EthernetFrameTransmitEvent = then_get get_EthernetFrameTransmitEvent (\<lambda>msg. got (M_EthernetFrameTransmitEvent msg))"
| "get_message T_EthernetStatus = then_get get_EthernetStatus (\<lambda>msg. got (M_EthernetStatus msg))"
| "get_message T_EthernetSetMode = then_get get_EthernetSetMode (\<lambda>msg. got (M_EthernetSetMode msg))"
| "get_message T_LinSendFrameRequest = then_get get_LinSendFrameRequest (\<lambda>msg. got (M_LinSendFrameRequest msg))"
| "get_message T_LinSendFrameHeaderRequest = then_get get_LinSendFrameHeaderRequest (\<lambda>msg. got (M_LinSendFrameHeaderRequest msg))"
| "get_message T_LinTransmission = then_get get_LinTransmission (\<lambda>msg. got (M_LinTransmission msg))"
| "get_message T_LinWakeupPulse = then_get get_LinWakeupPulse (\<lambda>msg. got (M_LinWakeupPulse msg))"
| "get_message T_WireLinControllerConfig = then_get get_WireLinControllerConfig (\<lambda>msg. got (M_WireLinControllerConfig msg))"
| "get_message T_LinControllerStatusUpdate = then_get get_LinControllerStatusUpdate (\<lambda>msg. got (M_LinControllerStatusUpdate msg))"
| "get_message T_LinFrameResponseUpdate = then_get get_LinFrameResponseUpdate (\<lambda>msg. got (M_LinFrameResponseUpdate msg))"
| "get_message T_WireFlexrayFrameEvent = then_get get_WireFlexrayFrameEvent (\<lambda>msg. got (M_WireFlexrayFrameEvent msg))"
| "get_message T_WireFlexrayFrameTransmitEvent = then_get get_WireFlexrayFrameTransmitEvent (\<lambda>msg. got (M_WireFlexrayFrameTransmitEvent msg))"
| "get_message T_FlexraySymbolEvent = then_get get_FlexraySymbolEvent (\<lambda>msg. got (M_FlexraySymbolEvent msg))"
| "get_message T_FlexraySymbolTransmitEvent = then_get get_FlexraySymbolTransmitEvent (\<lambda>msg. got (M_FlexraySymbolTransmitEvent msg))"
| "get_message T_FlexrayCycleStartEvent = then_get get_FlexrayCycleStartEvent (\<lambda>msg. got (M_FlexrayCycleStartEvent msg))"
| "get_message T_FlexrayHostCommand = then_get get_FlexrayHostCommand (\<lambda>msg. got (M_FlexrayHostCommand msg))"
| "get_message T_FlexrayControllerConfig = then_get get_FlexrayControllerConfig (\<lambda>msg. got (M_FlexrayControllerConfig msg))"
| "get_message T_FlexrayTxBufferConfigUpdate = then_get get_FlexrayTxBufferConfigUpdate (\<lambda>msg. got (M_FlexrayTxBufferConfigUpdate msg))"
| "get_message T_WireFlexrayTxBufferUpdate = then_get get_WireFlexrayTxBufferUpdate (\<lambda>msg. got (M_WireFlexrayTxBufferUpdate msg))"
| "get_message T_FlexrayPocStatusEvent = then_get get_FlexrayPocStatusEvent (\<lambda>msg. got (M_FlexrayPocStatusEvent msg))"
| "get_message T_ParticipantDiscoveryEvent = then_get get_ParticipantDiscoveryEvent (\<lambda>msg. got (M_ParticipantDiscoveryEvent msg))"
| "get_message T_ServiceDiscoveryEvent = then_get get_ServiceDiscoveryEvent (\<lambda>msg. got (M_ServiceDiscoveryEvent msg))"
| "get_message T_RequestReplyCall = then_get get_RequestReplyCall (\<lambda>msg. got (M_RequestReplyCall msg))"
| "get_message T_RequestReplyCallReturn = then_get get_RequestReplyCallReturn (\<lambda>msg. got (M_RequestReplyCallReturn msg))"
| "get_message T_MetricsUpdate = then_get get_MetricsUpdate (\<lambda>msg. got (M_MetricsUpdate msg))"
| "get_message T_TestMessage1 = then_get get_TestMessage1 (\<lambda>msg. got (M_TestMessage1 msg))"
| "get_message T_TestMessage2 = then_get get_TestMessage2 (\<lambda>msg. got (M_TestMessage2 msg))"
| "get_message T_TestFrameEvent = then_get get_TestFrameEvent (\<lambda>msg. got (M_TestFrameEvent msg))"

fun enc_message :: "silkit_message \<Rightarrow> byte list" where
  "enc_message (M_LogMsg msg) = enc_LogMsg msg"
| "enc_message (M_NextSimTask msg) = enc_NextSimTask msg"
| "enc_message (M_SystemCommand msg) = enc_SystemCommand msg"
| "enc_message (M_ParticipantStatus msg) = enc_ParticipantStatus msg"
| "enc_message (M_WorkflowConfiguration msg) = enc_WorkflowConfiguration msg"
| "enc_message (M_WireDataMessageEvent msg) = enc_WireDataMessageEvent msg"
| "enc_message (M_FunctionCall msg) = enc_FunctionCall msg"
| "enc_message (M_FunctionCallResponse msg) = enc_FunctionCallResponse msg"
| "enc_message (M_WireCanFrameEvent msg) = enc_WireCanFrameEvent msg"
| "enc_message (M_CanFrameTransmitEvent msg) = enc_CanFrameTransmitEvent msg"
| "enc_message (M_CanControllerStatus msg) = enc_CanControllerStatus msg"
| "enc_message (M_CanConfigureBaudrate msg) = enc_CanConfigureBaudrate msg"
| "enc_message (M_CanSetControllerMode msg) = enc_CanSetControllerMode msg"
| "enc_message (M_WireEthernetFrameEvent msg) = enc_WireEthernetFrameEvent msg"
| "enc_message (M_EthernetFrameTransmitEvent msg) = enc_EthernetFrameTransmitEvent msg"
| "enc_message (M_EthernetStatus msg) = enc_EthernetStatus msg"
| "enc_message (M_EthernetSetMode msg) = enc_EthernetSetMode msg"
| "enc_message (M_LinSendFrameRequest msg) = enc_LinSendFrameRequest msg"
| "enc_message (M_LinSendFrameHeaderRequest msg) = enc_LinSendFrameHeaderRequest msg"
| "enc_message (M_LinTransmission msg) = enc_LinTransmission msg"
| "enc_message (M_LinWakeupPulse msg) = enc_LinWakeupPulse msg"
| "enc_message (M_WireLinControllerConfig msg) = enc_WireLinControllerConfig msg"
| "enc_message (M_LinControllerStatusUpdate msg) = enc_LinControllerStatusUpdate msg"
| "enc_message (M_LinFrameResponseUpdate msg) = enc_LinFrameResponseUpdate msg"
| "enc_message (M_WireFlexrayFrameEvent msg) = enc_WireFlexrayFrameEvent msg"
| "enc_message (M_WireFlexrayFrameTransmitEvent msg) = enc_WireFlexrayFrameTransmitEvent msg"
| "enc_message (M_FlexraySymbolEvent msg) = enc_FlexraySymbolEvent msg"
| "enc_message (M_FlexraySymbolTransmitEvent msg) = enc_FlexraySymbolEvent msg"
| "enc_message (M_FlexrayCycleStartEvent msg) = enc_FlexrayCycleStartEvent msg"
| "enc_message (M_FlexrayHostCommand msg) = enc_FlexrayHostCommand msg"
| "enc_message (M_FlexrayControllerConfig msg) = enc_FlexrayControllerConfig msg"
| "enc_message (M_FlexrayTxBufferConfigUpdate msg) = enc_FlexrayTxBufferConfigUpdate msg"
| "enc_message (M_WireFlexrayTxBufferUpdate msg) = enc_WireFlexrayTxBufferUpdate msg"
| "enc_message (M_FlexrayPocStatusEvent msg) = enc_FlexrayPocStatusEvent msg"
| "enc_message (M_ParticipantDiscoveryEvent msg) = enc_ParticipantDiscoveryEvent msg"
| "enc_message (M_ServiceDiscoveryEvent msg) = enc_ServiceDiscoveryEvent msg"
| "enc_message (M_RequestReplyCall msg) = enc_RequestReplyCall msg"
| "enc_message (M_RequestReplyCallReturn msg) = enc_RequestReplyCallReturn msg"
| "enc_message (M_MetricsUpdate msg) = enc_MetricsUpdate msg"
| "enc_message (M_TestMessage1 msg) = enc_TestMessage1 msg"
| "enc_message (M_TestMessage2 msg) = enc_TestMessage2 msg"
| "enc_message (M_TestFrameEvent msg) = enc_TestFrameEvent msg"

fun ok_message :: "silkit_message \<Rightarrow> bool" where
  "ok_message (M_LogMsg msg) \<longleftrightarrow> ok_LogMsg msg"
| "ok_message (M_NextSimTask msg) \<longleftrightarrow> True"
| "ok_message (M_SystemCommand msg) \<longleftrightarrow> True"
| "ok_message (M_ParticipantStatus msg) \<longleftrightarrow> ok_ParticipantStatus msg"
| "ok_message (M_WorkflowConfiguration msg) \<longleftrightarrow> ok_WorkflowConfiguration msg"
| "ok_message (M_WireDataMessageEvent msg) \<longleftrightarrow> ok_WireDataMessageEvent msg"
| "ok_message (M_FunctionCall msg) \<longleftrightarrow> ok_FunctionCall msg"
| "ok_message (M_FunctionCallResponse msg) \<longleftrightarrow> ok_FunctionCallResponse msg"
| "ok_message (M_WireCanFrameEvent msg) \<longleftrightarrow> ok_WireCanFrameEvent msg"
| "ok_message (M_CanFrameTransmitEvent msg) \<longleftrightarrow> True"
| "ok_message (M_CanControllerStatus msg) \<longleftrightarrow> True"
| "ok_message (M_CanConfigureBaudrate msg) \<longleftrightarrow> True"
| "ok_message (M_CanSetControllerMode msg) \<longleftrightarrow> True"
| "ok_message (M_WireEthernetFrameEvent msg) \<longleftrightarrow> ok_WireEthernetFrameEvent msg"
| "ok_message (M_EthernetFrameTransmitEvent msg) \<longleftrightarrow> True"
| "ok_message (M_EthernetStatus msg) \<longleftrightarrow> True"
| "ok_message (M_EthernetSetMode msg) \<longleftrightarrow> True"
| "ok_message (M_LinSendFrameRequest msg) \<longleftrightarrow> ok_LinSendFrameRequest msg"
| "ok_message (M_LinSendFrameHeaderRequest msg) \<longleftrightarrow> True"
| "ok_message (M_LinTransmission msg) \<longleftrightarrow> ok_LinTransmission msg"
| "ok_message (M_LinWakeupPulse msg) \<longleftrightarrow> True"
| "ok_message (M_WireLinControllerConfig msg) \<longleftrightarrow> ok_WireLinControllerConfig msg"
| "ok_message (M_LinControllerStatusUpdate msg) \<longleftrightarrow> True"
| "ok_message (M_LinFrameResponseUpdate msg) \<longleftrightarrow> ok_LinFrameResponseUpdate msg"
| "ok_message (M_WireFlexrayFrameEvent msg) \<longleftrightarrow> ok_WireFlexrayFrameEvent msg"
| "ok_message (M_WireFlexrayFrameTransmitEvent msg) \<longleftrightarrow> ok_WireFlexrayFrameTransmitEvent msg"
| "ok_message (M_FlexraySymbolEvent msg) \<longleftrightarrow> True"
| "ok_message (M_FlexraySymbolTransmitEvent msg) \<longleftrightarrow> True"
| "ok_message (M_FlexrayCycleStartEvent msg) \<longleftrightarrow> True"
| "ok_message (M_FlexrayHostCommand msg) \<longleftrightarrow> True"
| "ok_message (M_FlexrayControllerConfig msg) \<longleftrightarrow> ok_FlexrayControllerConfig msg"
| "ok_message (M_FlexrayTxBufferConfigUpdate msg) \<longleftrightarrow> True"
| "ok_message (M_WireFlexrayTxBufferUpdate msg) \<longleftrightarrow> ok_WireFlexrayTxBufferUpdate msg"
| "ok_message (M_FlexrayPocStatusEvent msg) \<longleftrightarrow> True"
| "ok_message (M_ParticipantDiscoveryEvent msg) \<longleftrightarrow> ok_ParticipantDiscoveryEvent msg"
| "ok_message (M_ServiceDiscoveryEvent msg) \<longleftrightarrow> ok_ServiceDiscoveryEvent msg"
| "ok_message (M_RequestReplyCall msg) \<longleftrightarrow> ok_RequestReplyCall msg"
| "ok_message (M_RequestReplyCallReturn msg) \<longleftrightarrow> ok_RequestReplyCallReturn msg"
| "ok_message (M_MetricsUpdate msg) \<longleftrightarrow> ok_MetricsUpdate msg"
| "ok_message (M_TestMessage1 msg) \<longleftrightarrow> ok_TestMessage1 msg"
| "ok_message (M_TestMessage2 msg) \<longleftrightarrow> ok_TestMessage2 msg"
| "ok_message (M_TestFrameEvent msg) \<longleftrightarrow> ok_TestFrameEvent msg"

text \<open>A codec of the messages of one type, from the codec of its records.\<close>

lemma codec_of_type:
  assumes "codec put get enc ok"
    and "\<And>m. okm m \<Longrightarrow> \<exists>x. m = C x \<and> ok x" "\<And>x. putm (C x) = put x" "\<And>x. encm (C x) = enc x"
  shows "codec putm (then_get get (\<lambda>x. got (C x))) encm okm"
proof
  fix m assume "okm m"
  then obtain x where x: "m = C x" "ok x" using assms(2) by blast
  show "putm m (at v pre post) = Inr (at v pre (post @ encm m))" for v pre post
    using codec.put_at [OF assms(1) x(2)] x(1) assms(3,4) by simp
  show "then_get get (\<lambda>x. got (C x)) (at v pre (encm m @ rest)) = Inr (m, at v (pre @ encm m) rest)" for v pre rest
    using codec.get_at [OF assms(1) x(2)] x(1) assms(4) by (simp add: then_get_def got_def)
qed

lemma message_codec:
  "codec put_message (get_message t) enc_message (\<lambda>m. type_of m = t \<and> ok_message m)"
proof (cases t)
  case T_LogMsg
  then show ?thesis
    by (simp only: get_message.simps, intro codec_of_type [OF LogMsg.codec_axioms])
      (auto elim: type_of.elims)
next
  case T_NextSimTask
  then show ?thesis
    by (simp only: get_message.simps, intro codec_of_type [OF NextSimTask.codec_axioms])
      (auto elim: type_of.elims)
next
  case T_SystemCommand
  then show ?thesis
    by (simp only: get_message.simps, intro codec_of_type [OF SystemCommand.codec_axioms])
      (auto elim: type_of.elims)
next
  case T_ParticipantStatus
  then show ?thesis
    by (simp only: get_message.simps, intro codec_of_type [OF ParticipantStatus.codec_axioms])
      (auto elim: type_of.elims)
next
  case T_WorkflowConfiguration
  then show ?thesis
    by (simp only: get_message.simps, intro codec_of_type [OF WorkflowConfiguration.codec_axioms])
      (auto elim: type_of.elims)
next
  case T_WireDataMessageEvent
  then show ?thesis
    by (simp only: get_message.simps, intro codec_of_type [OF WireDataMessageEvent.codec_axioms])
      (auto elim: type_of.elims)
next
  case T_FunctionCall
  then show ?thesis
    by (simp only: get_message.simps, intro codec_of_type [OF FunctionCall.codec_axioms])
      (auto elim: type_of.elims)
next
  case T_FunctionCallResponse
  then show ?thesis
    by (simp only: get_message.simps, intro codec_of_type [OF FunctionCallResponse.codec_axioms])
      (auto elim: type_of.elims)
next
  case T_WireCanFrameEvent
  then show ?thesis
    by (simp only: get_message.simps, intro codec_of_type [OF WireCanFrameEvent.codec_axioms])
      (auto elim: type_of.elims)
next
  case T_CanFrameTransmitEvent
  then show ?thesis
    by (simp only: get_message.simps, intro codec_of_type [OF CanFrameTransmitEvent.codec_axioms])
      (auto elim: type_of.elims)
next
  case T_CanControllerStatus
  then show ?thesis
    by (simp only: get_message.simps, intro codec_of_type [OF CanControllerStatus.codec_axioms])
      (auto elim: type_of.elims)
next
  case T_CanConfigureBaudrate
  then show ?thesis
    by (simp only: get_message.simps, intro codec_of_type [OF CanConfigureBaudrate.codec_axioms])
      (auto elim: type_of.elims)
next
  case T_CanSetControllerMode
  then show ?thesis
    by (simp only: get_message.simps, intro codec_of_type [OF CanSetControllerMode.codec_axioms])
      (auto elim: type_of.elims)
next
  case T_WireEthernetFrameEvent
  then show ?thesis
    by (simp only: get_message.simps, intro codec_of_type [OF WireEthernetFrameEvent.codec_axioms])
      (auto elim: type_of.elims)
next
  case T_EthernetFrameTransmitEvent
  then show ?thesis
    by (simp only: get_message.simps, intro codec_of_type [OF EthernetFrameTransmitEvent.codec_axioms])
      (auto elim: type_of.elims)
next
  case T_EthernetStatus
  then show ?thesis
    by (simp only: get_message.simps, intro codec_of_type [OF EthernetStatus.codec_axioms])
      (auto elim: type_of.elims)
next
  case T_EthernetSetMode
  then show ?thesis
    by (simp only: get_message.simps, intro codec_of_type [OF EthernetSetMode.codec_axioms])
      (auto elim: type_of.elims)
next
  case T_LinSendFrameRequest
  then show ?thesis
    by (simp only: get_message.simps, intro codec_of_type [OF LinSendFrameRequest.codec_axioms])
      (auto elim: type_of.elims)
next
  case T_LinSendFrameHeaderRequest
  then show ?thesis
    by (simp only: get_message.simps, intro codec_of_type [OF LinSendFrameHeaderRequest.codec_axioms])
      (auto elim: type_of.elims)
next
  case T_LinTransmission
  then show ?thesis
    by (simp only: get_message.simps, intro codec_of_type [OF LinTransmission.codec_axioms])
      (auto elim: type_of.elims)
next
  case T_LinWakeupPulse
  then show ?thesis
    by (simp only: get_message.simps, intro codec_of_type [OF LinWakeupPulse.codec_axioms])
      (auto elim: type_of.elims)
next
  case T_WireLinControllerConfig
  then show ?thesis
    by (simp only: get_message.simps, intro codec_of_type [OF WireLinControllerConfig.codec_axioms])
      (auto elim: type_of.elims)
next
  case T_LinControllerStatusUpdate
  then show ?thesis
    by (simp only: get_message.simps, intro codec_of_type [OF LinControllerStatusUpdate.codec_axioms])
      (auto elim: type_of.elims)
next
  case T_LinFrameResponseUpdate
  then show ?thesis
    by (simp only: get_message.simps, intro codec_of_type [OF LinFrameResponseUpdate.codec_axioms])
      (auto elim: type_of.elims)
next
  case T_WireFlexrayFrameEvent
  then show ?thesis
    by (simp only: get_message.simps, intro codec_of_type [OF WireFlexrayFrameEvent.codec_axioms])
      (auto elim: type_of.elims)
next
  case T_WireFlexrayFrameTransmitEvent
  then show ?thesis
    by (simp only: get_message.simps, intro codec_of_type [OF WireFlexrayFrameTransmitEvent.codec_axioms])
      (auto elim: type_of.elims)
next
  case T_FlexraySymbolEvent
  then show ?thesis
    by (simp only: get_message.simps, intro codec_of_type [OF FlexraySymbolEvent.codec_axioms])
      (auto elim: type_of.elims)
next
  case T_FlexraySymbolTransmitEvent
  then show ?thesis
    by (simp only: get_message.simps, intro codec_of_type [OF FlexraySymbolTransmitEvent.codec_axioms])
      (auto elim: type_of.elims)
next
  case T_FlexrayCycleStartEvent
  then show ?thesis
    by (simp only: get_message.simps, intro codec_of_type [OF FlexrayCycleStartEvent.codec_axioms])
      (auto elim: type_of.elims)
next
  case T_FlexrayHostCommand
  then show ?thesis
    by (simp only: get_message.simps, intro codec_of_type [OF FlexrayHostCommand.codec_axioms])
      (auto elim: type_of.elims)
next
  case T_FlexrayControllerConfig
  then show ?thesis
    by (simp only: get_message.simps, intro codec_of_type [OF FlexrayControllerConfig.codec_axioms])
      (auto elim: type_of.elims)
next
  case T_FlexrayTxBufferConfigUpdate
  then show ?thesis
    by (simp only: get_message.simps, intro codec_of_type [OF FlexrayTxBufferConfigUpdate.codec_axioms])
      (auto elim: type_of.elims)
next
  case T_WireFlexrayTxBufferUpdate
  then show ?thesis
    by (simp only: get_message.simps, intro codec_of_type [OF WireFlexrayTxBufferUpdate.codec_axioms])
      (auto elim: type_of.elims)
next
  case T_FlexrayPocStatusEvent
  then show ?thesis
    by (simp only: get_message.simps, intro codec_of_type [OF FlexrayPocStatusEvent.codec_axioms])
      (auto elim: type_of.elims)
next
  case T_ParticipantDiscoveryEvent
  then show ?thesis
    by (simp only: get_message.simps, intro codec_of_type [OF ParticipantDiscoveryEvent.codec_axioms])
      (auto elim: type_of.elims)
next
  case T_ServiceDiscoveryEvent
  then show ?thesis
    by (simp only: get_message.simps, intro codec_of_type [OF ServiceDiscoveryEvent.codec_axioms])
      (auto elim: type_of.elims)
next
  case T_RequestReplyCall
  then show ?thesis
    by (simp only: get_message.simps, intro codec_of_type [OF RequestReplyCall.codec_axioms])
      (auto elim: type_of.elims)
next
  case T_RequestReplyCallReturn
  then show ?thesis
    by (simp only: get_message.simps, intro codec_of_type [OF RequestReplyCallReturn.codec_axioms])
      (auto elim: type_of.elims)
next
  case T_MetricsUpdate
  then show ?thesis
    by (simp only: get_message.simps, intro codec_of_type [OF MetricsUpdate.codec_axioms])
      (auto elim: type_of.elims)
next
  case T_TestMessage1
  then show ?thesis
    by (simp only: get_message.simps, intro codec_of_type [OF TestMessage1.codec_axioms])
      (auto elim: type_of.elims)
next
  case T_TestMessage2
  then show ?thesis
    by (simp only: get_message.simps, intro codec_of_type [OF TestMessage2.codec_axioms])
      (auto elim: type_of.elims)
next
  case T_TestFrameEvent
  then show ?thesis
    by (simp only: get_message.simps, intro codec_of_type [OF TestFrameEvent.codec_axioms])
      (auto elim: type_of.elims)
qed

end
