(* ===== verification/SilKitLink.thy ===== *)
theory SilKitLink
  imports SilKitMessages
begin

text \<open>
  A link (\<open>core/vasio/SilKitLink.hpp\<close>): the messages of one type on one network, from the
  services of this participant to the services of this and of the other participants. The
  transmitter (\<open>core/vasio/VAsioTransmitter.hpp\<close>) holds the remote receivers and, for the
  types that have one, the history: the last message, which a receiver that joins later is
  sent.

  Services and peers are pointers, here numbers. What a link does to the outside is the list
  of its calls; which calls throw is the parameter \<open>throws\<close>, what a peer answers to
  \<open>GetInfo\<close> the parameter \<open>info\<close>. The descriptor of the transmitter, which only the tracing of
  messages reads, is not modelled.
\<close>

section \<open>State\<close>

record local_receiver =
  receiverService :: nat
  receiverDescriptor :: service_descriptor

record remote_receiver =
  receiverPeer :: nat
  remoteIdx :: "64 word"

record message_history =
  histLast :: silkit_message
  histFrom :: "64 word \<times> 64 word"

text \<open>\<open>_last\<close>, \<open>_from\<close> and \<open>_hasValue\<close> of the history are one optional record.\<close>

record silkit_link =
  linkType :: silkit_type
  linkName :: string
  localReceivers :: "local_receiver list"
  remoteReceivers :: "remote_receiver list"
  history :: "message_history option"
  hasHistory :: bool

datatype link_call =
    SendToPeer nat silkit_message "64 word \<times> 64 word" "64 word"
  | DeliverTo nat service_descriptor silkit_message

definition new_link :: "silkit_type \<Rightarrow> string \<Rightarrow> silkit_link" where
  "new_link t name =
     \<lparr>linkType = t, linkName = name, localReceivers = [], remoteReceivers = [], history = None, hasHistory = True\<rparr>"

definition to_endpointAddress :: "service_descriptor \<Rightarrow> 64 word \<times> 64 word" where
  "to_endpointAddress d = (sd_participantId d, sd_serviceId d)"

text \<open>\<open>ServiceDescriptor::operator==\<close>.\<close>

definition same_service :: "service_descriptor \<Rightarrow> service_descriptor \<Rightarrow> bool" where
  "same_service d e \<longleftrightarrow>
     sd_participantId d = sd_participantId e \<and> sd_networkName d = sd_networkName e \<and>
     sd_serviceType d = sd_serviceType e \<and> sd_serviceId d = sd_serviceId e"

section \<open>The transmitter\<close>

definition Save :: "service_descriptor \<Rightarrow> silkit_message \<Rightarrow> silkit_link \<Rightarrow> silkit_link" where
  "Save sender msg l =
     (if HistSize (linkType l) = 0 \<or> \<not> hasHistory l then l
      else l\<lparr>history := Some \<lparr>histLast = msg, histFrom = to_endpointAddress sender\<rparr>\<rparr>)"

definition NotifyPeer :: "nat \<Rightarrow> 64 word \<Rightarrow> silkit_link \<Rightarrow> link_call list" where
  "NotifyPeer p i l =
     (case history l of
        None \<Rightarrow> []
      | Some h \<Rightarrow> if HistSize (linkType l) = 0 \<or> \<not> hasHistory l then [] else [SendToPeer p (histLast h) (histFrom h) i])"

definition SetHistoryLength :: "nat \<Rightarrow> silkit_link \<Rightarrow> silkit_link" where
  "SetHistoryLength n l = (if HistSize (linkType l) = 0 then l else l\<lparr>hasHistory := n \<noteq> 0\<rparr>)"

definition AddRemoteReceiver :: "nat \<Rightarrow> 64 word \<Rightarrow> silkit_link \<Rightarrow> link_call list \<times> silkit_link" where
  "AddRemoteReceiver p i l =
     (let r = \<lparr>receiverPeer = p, remoteIdx = i\<rparr>
      in if r \<in> set (remoteReceivers l) then ([], l)
         else (NotifyPeer p i l, l\<lparr>remoteReceivers := remoteReceivers l @ [r]\<rparr>))"

text \<open>The first receiver whose peer has the identifier of the peer is removed.\<close>

fun remove_first :: "('a \<Rightarrow> bool) \<Rightarrow> 'a list \<Rightarrow> 'a list" where
  "remove_first P [] = []"
| "remove_first P (x # xs) = (if P x then xs else x # remove_first P xs)"

definition RemoveRemoteReceiver :: "(nat \<Rightarrow> vasio_peer_info) \<Rightarrow> nat \<Rightarrow> silkit_link \<Rightarrow> silkit_link" where
  "RemoveRemoteReceiver info p l =
     l\<lparr>remoteReceivers := remove_first
         (\<lambda>r. pi_participantId (info (receiverPeer r)) = pi_participantId (info p)) (remoteReceivers l)\<rparr>"

definition GetNumberOfRemoteReceivers :: "silkit_link \<Rightarrow> nat" where
  "GetNumberOfRemoteReceivers l = length (remoteReceivers l)"

definition GetParticipantNamesOfRemoteReceivers :: "(nat \<Rightarrow> vasio_peer_info) \<Rightarrow> silkit_link \<Rightarrow> string list" where
  "GetParticipantNamesOfRemoteReceivers info l =
     map (\<lambda>r. pi_participantName (info (receiverPeer r))) (remoteReceivers l)"

text \<open>A sequence of calls ends with the first one that throws.\<close>

fun until_throw :: "(link_call \<Rightarrow> bool) \<Rightarrow> link_call list \<Rightarrow> link_call list" where
  "until_throw throws [] = []"
| "until_throw throws (c # cs) = c # (if throws c then [] else until_throw throws cs)"

definition send_to_receiver :: "service_descriptor \<Rightarrow> silkit_message \<Rightarrow> remote_receiver \<Rightarrow> link_call" where
  "send_to_receiver sender msg r = SendToPeer (receiverPeer r) msg (to_endpointAddress sender) (remoteIdx r)"

definition transmitter_ReceiveMsg :: "(link_call \<Rightarrow> bool) \<Rightarrow> service_descriptor \<Rightarrow> silkit_message \<Rightarrow> silkit_link
    \<Rightarrow> link_call list \<times> silkit_link" where
  "transmitter_ReceiveMsg throws sender msg l =
     (until_throw throws (map (send_to_receiver sender msg) (remoteReceivers l)), Save sender msg l)"

definition SendMessageToTarget :: "(nat \<Rightarrow> vasio_peer_info) \<Rightarrow> service_descriptor \<Rightarrow> string \<Rightarrow> silkit_message
    \<Rightarrow> silkit_link \<Rightarrow> link_call list result \<times> silkit_link" where
  "SendMessageToTarget info sender target msg l =
     (case find (\<lambda>r. pi_participantName (info (receiverPeer r)) = target) (remoteReceivers l) of
        None \<Rightarrow> Inl SilKitError
      | Some r \<Rightarrow> Inr [send_to_receiver sender msg r],
      Save sender msg l)"

section \<open>The link\<close>

definition AddLocalReceiver :: "local_receiver \<Rightarrow> silkit_link \<Rightarrow> silkit_link" where
  "AddLocalReceiver r l =
     (if receiverService r \<in> receiverService ` set (localReceivers l) then l
      else l\<lparr>localReceivers := localReceivers l @ [r]\<rparr>)"

definition deliver_to :: "service_descriptor \<Rightarrow> silkit_message \<Rightarrow> local_receiver \<Rightarrow> link_call" where
  "deliver_to sender msg r = DeliverTo (receiverService r) sender msg"

text \<open>
  What a receiver throws is caught call by call (\<open>DispatchSilKitMessage\<close>), so every receiver
  is called. Messages that arrive without a time get the time of this participant while it
  synchronizes virtual time.
\<close>

definition DistributeRemoteSilKitMessage :: "bool \<Rightarrow> 64 word \<Rightarrow> service_descriptor \<Rightarrow> silkit_message \<Rightarrow> silkit_link
    \<Rightarrow> link_call list" where
  "DistributeRemoteSilKitMessage synchronizing now sender msg l =
     map (deliver_to sender (if synchronizing then SetTimestamp now msg else msg)) (localReceivers l)"

definition DistributeToSelf :: "service_descriptor \<Rightarrow> silkit_message \<Rightarrow> silkit_link \<Rightarrow> link_call list" where
  "DistributeToSelf sender msg l =
     (if IsSelfDeliveryForbidden (linkType l) then []
      else map (deliver_to sender msg)
             (if IsSelfDeliveryEnforced (linkType l) then localReceivers l
              else filter (\<lambda>r. \<not> same_service (receiverDescriptor r) sender) (localReceivers l)))"

definition DistributeLocalSilKitMessage :: "(link_call \<Rightarrow> bool) \<Rightarrow> service_descriptor \<Rightarrow> silkit_message
    \<Rightarrow> silkit_link \<Rightarrow> link_call list \<times> silkit_link" where
  "DistributeLocalSilKitMessage throws sender msg l =
     (let (remote, l') = transmitter_ReceiveMsg throws sender msg l
      in (remote @ DistributeToSelf sender msg l', l'))"

definition DispatchSilKitMessageToTarget :: "(nat \<Rightarrow> vasio_peer_info) \<Rightarrow> service_descriptor \<Rightarrow> string \<Rightarrow> silkit_message
    \<Rightarrow> silkit_link \<Rightarrow> link_call list result \<times> silkit_link" where
  "DispatchSilKitMessageToTarget info sender target msg l =
     (if sd_participantName sender = target then (Inr (DistributeToSelf sender msg l), l)
      else SendMessageToTarget info sender target msg l)"

section \<open>What a receiver that joins gets\<close>

text \<open>Everything that happens to a link, in the order in which the I/O thread does it.\<close>

datatype link_op =
    Broadcast service_descriptor silkit_message
  | ToTarget service_descriptor string silkit_message
  | Join nat "64 word"
  | Leave nat
  | JoinLocal local_receiver
  | Arrive bool "64 word" service_descriptor silkit_message
  | SetHistory nat

fun link_step :: "(link_call \<Rightarrow> bool) \<Rightarrow> (nat \<Rightarrow> vasio_peer_info) \<Rightarrow> link_op \<Rightarrow> silkit_link \<Rightarrow> link_call list \<times> silkit_link" where
  "link_step throws info (Broadcast sender msg) l = DistributeLocalSilKitMessage throws sender msg l"
| "link_step throws info (ToTarget sender target msg) l =
     (case DispatchSilKitMessageToTarget info sender target msg l of
        (Inl e, l') \<Rightarrow> ([], l')
      | (Inr cs, l') \<Rightarrow> (cs, l'))"
| "link_step throws info (Join p i) l = AddRemoteReceiver p i l"
| "link_step throws info (Leave p) l = ([], RemoveRemoteReceiver info p l)"
| "link_step throws info (JoinLocal r) l = ([], AddLocalReceiver r l)"
| "link_step throws info (Arrive synchronizing now sender msg) l =
     (DistributeRemoteSilKitMessage synchronizing now sender msg l, l)"
| "link_step throws info (SetHistory n) l = ([], SetHistoryLength n l)"

fun link_run :: "(link_call \<Rightarrow> bool) \<Rightarrow> (nat \<Rightarrow> vasio_peer_info) \<Rightarrow> link_op list \<Rightarrow> silkit_link \<Rightarrow> link_call list \<times> silkit_link" where
  "link_run throws info [] l = ([], l)"
| "link_run throws info (op # ops) l =
     (let (cs, l') = link_step throws info op l; (cs', l'') = link_run throws info ops l'
      in (cs @ cs', l''))"

text \<open>The messages that one remote receiver is sent, each with the address of its sender.\<close>

fun addressed_to :: "remote_receiver \<Rightarrow> link_call \<Rightarrow> (silkit_message \<times> 64 word \<times> 64 word) list" where
  "addressed_to r (SendToPeer p msg address i) = (if r = \<lparr>receiverPeer = p, remoteIdx = i\<rparr> then [(msg, address)] else [])"
| "addressed_to r (DeliverTo _ _ _) = []"

definition received_by :: "remote_receiver \<Rightarrow> link_call list \<Rightarrow> (silkit_message \<times> 64 word \<times> 64 word) list" where
  "received_by r cs = concat (map (addressed_to r) cs)"

text \<open>
  What the history is worth, as it should be: whether it is switched on, which it is at first,
  and the last message that was sent while it was on.
\<close>

fun remember :: "link_op \<Rightarrow> bool \<times> (silkit_message \<times> 64 word \<times> 64 word) option
    \<Rightarrow> bool \<times> (silkit_message \<times> 64 word \<times> 64 word) option" where
  "remember (Broadcast sender msg) (on, x) = (on, if on then Some (msg, to_endpointAddress sender) else x)"
| "remember (ToTarget sender target msg) (on, x) =
     (on, if on \<and> sd_participantName sender \<noteq> target then Some (msg, to_endpointAddress sender) else x)"
| "remember (SetHistory n) (on, x) = (n \<noteq> 0, x)"
| "remember _ (on, x) = (on, x)"

definition remembered :: "link_op list \<Rightarrow> (silkit_message \<times> 64 word \<times> 64 word) list" where
  "remembered ops = (case fold remember ops (True, None) of (True, Some x) \<Rightarrow> [x] | _ \<Rightarrow> [])"

fun broadcasts :: "link_op list \<Rightarrow> (silkit_message \<times> 64 word \<times> 64 word) list" where
  "broadcasts [] = []"
| "broadcasts (Broadcast sender msg # ops) = (msg, to_endpointAddress sender) # broadcasts ops"
| "broadcasts (_ # ops) = broadcasts ops"

text \<open>Nothing but broadcasts reaches a receiver while nobody sends to one target, and it
  stays as long as no peer with its participant identifier leaves.\<close>

fun keeps_receiver :: "(nat \<Rightarrow> vasio_peer_info) \<Rightarrow> remote_receiver \<Rightarrow> link_op \<Rightarrow> bool" where
  "keeps_receiver info r (ToTarget _ _ _) \<longleftrightarrow> False"
| "keeps_receiver info r (Leave p) \<longleftrightarrow> pi_participantId (info (receiverPeer r)) \<noteq> pi_participantId (info p)"
| "keeps_receiver info r _ \<longleftrightarrow> True"

lemma until_throw_all [simp]: "(\<And>c. \<not> throws c) \<Longrightarrow> until_throw throws cs = cs"
  by (induction cs) auto

lemma received_by_simps [simp]:
  "received_by r [] = []"
  "received_by r (cs @ cs') = received_by r cs @ received_by r cs'"
  "received_by r (map (deliver_to sender msg) rs) = []"
  by (simp_all add: received_by_def deliver_to_def comp_def)

lemma received_by_DistributeToSelf [simp]: "received_by r (DistributeToSelf sender msg l) = []"
  by (simp add: DistributeToSelf_def)

lemma Save_fields [simp]:
  "linkType (Save sender msg l) = linkType l" "remoteReceivers (Save sender msg l) = remoteReceivers l"
  "localReceivers (Save sender msg l) = localReceivers l" "hasHistory (Save sender msg l) = hasHistory l"
  by (simp_all add: Save_def)

lemma remove_first_subset: "set (remove_first P xs) \<subseteq> set xs"
  by (induction xs) auto

lemma remove_first_keeps: "x \<in> set xs \<Longrightarrow> \<not> P x \<Longrightarrow> x \<in> set (remove_first P xs)"
  by (induction xs) auto

lemma distinct_remove_first [simp]: "distinct xs \<Longrightarrow> distinct (remove_first P xs)"
  using remove_first_subset by (induction xs) fastforce+

lemma addressed_to_sent [simp]:
  "addressed_to r (send_to_receiver sender msg x) = (if r = x then [(msg, to_endpointAddress sender)] else [])"
  by (cases x) (simp add: send_to_receiver_def)

lemma received_by_broadcast:
  assumes "distinct rs"
  shows "received_by r (map (send_to_receiver sender msg) rs) =
    (if r \<in> set rs then [(msg, to_endpointAddress sender)] else [])"
  using assms by (induction rs) (auto simp: received_by_def)

text \<open>A receiver is on a link at most once, and the type of a link never changes.\<close>

definition link_inv :: "silkit_link \<Rightarrow> bool" where
  "link_inv l \<longleftrightarrow> distinct (remoteReceivers l) \<and> distinct (map receiverService (localReceivers l))"

lemma link_inv_new [simp]: "link_inv (new_link t name)"
  by (simp add: link_inv_def new_link_def)

lemma link_step_inv: "link_inv l \<Longrightarrow> link_inv (snd (link_step throws info op l))"
  by (cases op) (auto simp: link_inv_def DistributeLocalSilKitMessage_def transmitter_ReceiveMsg_def Let_def
      DispatchSilKitMessageToTarget_def SendMessageToTarget_def AddRemoteReceiver_def RemoveRemoteReceiver_def
      AddLocalReceiver_def SetHistoryLength_def split: option.splits)

lemma link_step_frame [simp]: "linkType (snd (link_step throws info op l)) = linkType l"
  by (cases op; simp add: DistributeLocalSilKitMessage_def transmitter_ReceiveMsg_def Let_def
      DispatchSilKitMessageToTarget_def SendMessageToTarget_def AddRemoteReceiver_def RemoveRemoteReceiver_def
      AddLocalReceiver_def SetHistoryLength_def split: option.splits)

lemma link_run_Cons:
  "fst (link_run throws info (op # ops) l) =
     fst (link_step throws info op l) @ fst (link_run throws info ops (snd (link_step throws info op l)))"
  "snd (link_run throws info (op # ops) l) = snd (link_run throws info ops (snd (link_step throws info op l)))"
  by (simp_all add: Let_def split_beta)

lemma link_run_inv: "link_inv l \<Longrightarrow> link_inv (snd (link_run throws info ops l))"
  by (induction ops arbitrary: l) (simp_all add: Let_def split_beta link_step_inv)

lemma link_run_frame [simp]: "linkType (snd (link_run throws info ops l)) = linkType l"
  by (induction ops arbitrary: l) (simp_all add: Let_def split_beta)

definition history_value :: "silkit_link \<Rightarrow> (silkit_message \<times> 64 word \<times> 64 word) option" where
  "history_value l = map_option (\<lambda>h. (histLast h, histFrom h)) (history l)"

definition history_state :: "silkit_link \<Rightarrow> bool \<times> (silkit_message \<times> 64 word \<times> 64 word) option" where
  "history_state l = (hasHistory l, history_value l)"

lemma history_step:
  assumes "HistSize (linkType l) \<noteq> 0"
  shows "history_state (snd (link_step throws info op l)) = remember op (history_state l)"
  using assms
  by (cases op) (auto simp: history_state_def history_value_def DistributeLocalSilKitMessage_def
      transmitter_ReceiveMsg_def Let_def DispatchSilKitMessageToTarget_def SendMessageToTarget_def AddRemoteReceiver_def
      RemoveRemoteReceiver_def AddLocalReceiver_def SetHistoryLength_def Save_def split: option.splits)

lemma history_run:
  assumes "HistSize (linkType l) \<noteq> 0"
  shows "history_state (snd (link_run throws info ops l)) = fold remember ops (history_state l)"
  using assms
  by (induction ops arbitrary: l) (simp_all add: link_run_Cons history_step del: link_run.simps(2))

lemma received_by_notification [simp]:
  "received_by r (NotifyPeer p i l) =
    (if r = \<lparr>receiverPeer = p, remoteIdx = i\<rparr> \<and> HistSize (linkType l) \<noteq> 0 \<and> hasHistory l
     then case history_value l of None \<Rightarrow> [] | Some x \<Rightarrow> [x] else [])"
  by (auto simp: NotifyPeer_def received_by_def history_value_def split: option.splits)

lemma received_step:
  assumes "link_inv l" "r \<in> set (remoteReceivers l)" "keeps_receiver info r op" "\<And>c. \<not> throws c"
  shows "received_by r (fst (link_step throws info op l)) = broadcasts [op]"
    and "r \<in> set (remoteReceivers (snd (link_step throws info op l)))"
proof -
  show "received_by r (fst (link_step throws info op l)) = broadcasts [op]"
    using assms
    by (cases op) (auto simp: DistributeLocalSilKitMessage_def transmitter_ReceiveMsg_def Let_def link_inv_def
        received_by_broadcast AddRemoteReceiver_def DistributeRemoteSilKitMessage_def)
  show "r \<in> set (remoteReceivers (snd (link_step throws info op l)))"
    using assms
    by (cases op) (auto simp: DistributeLocalSilKitMessage_def transmitter_ReceiveMsg_def Let_def
        AddRemoteReceiver_def RemoveRemoteReceiver_def AddLocalReceiver_def SetHistoryLength_def
        intro!: remove_first_keeps)
qed

lemma broadcasts_Cons: "broadcasts (op # ops) = broadcasts [op] @ broadcasts ops"
  by (cases op) auto

lemma received_run:
  assumes "link_inv l" "r \<in> set (remoteReceivers l)" "list_all (keeps_receiver info r) ops" "\<And>c. \<not> throws c"
  shows "received_by r (fst (link_run throws info ops l)) = broadcasts ops"
  using assms(1-3)
proof (induction ops arbitrary: l)
  case (Cons op ops)
  note step = received_step [OF Cons.prems(1,2) _ assms(4)]
  have keeps: "keeps_receiver info r op" using Cons.prems(3) by simp
  show ?case
    using Cons.IH [OF link_step_inv [OF Cons.prems(1)] step(2) [OF keeps]] Cons.prems(3) step(1) [OF keeps]
    by (simp only: link_run_Cons received_by_simps) (simp add: broadcasts_Cons [of op ops])
qed simp

section \<open>Properties\<close>


definition example_service :: "64 word \<Rightarrow> service_descriptor" where
  "example_service n =
     \<lparr>sd_participantName = ''P'', sd_participantId = 7, sd_serviceType = 2, sd_networkName = ''net'',
      sd_networkType = 0, sd_serviceName = ''s'', sd_serviceId = n, sd_supplementalData = []\<rparr>"

definition example_data :: "byte list \<Rightarrow> silkit_message" where
  "example_data bytes = M_WireDataMessageEvent \<lparr>wd_timestamp = 0, wd_data = bytes\<rparr>"

definition example_info :: "nat \<Rightarrow> vasio_peer_info" where
  "example_info p = \<lparr>pi_participantName = replicate p CHR ''a'', pi_participantId = of_nat p,
     pi_acceptorUris = [], pi_capabilities = []\<rparr>"

definition example_before :: "link_op list" where
  "example_before = [Join 1 0, Broadcast (example_service 1) (example_data [1]),
     Broadcast (example_service 2) (example_data [2]), Arrive True 5 (example_service 9) (example_data [3]),
     SetHistory 0, Broadcast (example_service 1) (example_data [6]), SetHistory 1]"

definition example_after :: "link_op list" where
  "example_after = [Broadcast (example_service 1) (example_data [4]), Join 3 0, Leave 1,
     JoinLocal \<lparr>receiverService = 5, receiverDescriptor = example_service 5\<rparr>,
     Broadcast (example_service 1) (example_data [5])]"


end
