(* ===== verification/Uri.thy ===== *)
theory Uri
  imports Prelude "HOL-Library.Word"
begin

text \<open>
  Uniform resource identifiers of endpoints (\<open>util/Uri.cpp\<close>): parsing, building and
  encoding. A \<open>std::string\<close> is a list of characters. \<open>extract_uint16\<close> is the extraction of a
  \<open>uint16_t\<close> from a string stream in the C locale, as the standard library defines it; the
  code uses nothing else of streams here. The branch for QNX is not modelled.
\<close>

section \<open>Decimal numbers\<close>

definition digit :: "nat \<Rightarrow> char" where
  "digit n = char_of (48 + n)"

fun decimal :: "nat \<Rightarrow> string" where
  "decimal n = (if n < 10 then [digit n] else decimal (n div 10) @ [digit (n mod 10)])"

declare decimal.simps [simp del]

definition is_digit :: "char \<Rightarrow> bool" where
  "is_digit c \<longleftrightarrow> 48 \<le> (of_char c :: nat) \<and> (of_char c :: nat) \<le> 57"

definition digits_value :: "string \<Rightarrow> nat" where
  "digits_value = foldl (\<lambda>n c. 10 * n + (of_char c - 48)) 0"

definition is_space :: "char \<Rightarrow> bool" where
  "is_space c \<longleftrightarrow> c = CHR '' '' \<or> 9 \<le> (of_char c :: nat) \<and> (of_char c :: nat) \<le> 13"

text \<open>
  The number in front of what is no digit; a negative number is converted like an unsigned
  64 bit one. \<open>None\<close> is a stream that has failed.
\<close>

definition extract_uint16 :: "string \<Rightarrow> 16 word option" where
  "extract_uint16 s =
     (let s = dropWhile is_space s;
          negative = (s \<noteq> [] \<and> hd s = CHR ''-'');
          s = (if s \<noteq> [] \<and> hd s \<in> {CHR ''-'', CHR ''+''} then tl s else s);
          ds = takeWhile is_digit s;
          n = (if negative \<and> digits_value ds < 2 ^ 64 then (2 ^ 64 - digits_value ds) mod 2 ^ 64 else digits_value ds)
      in if ds = [] \<or> n \<ge> 2 ^ 16 then None else Some (of_nat n))"

lemma of_char_digit: "n < 10 \<Longrightarrow> of_char (digit n) = 48 + n"
  by (simp add: digit_def)

lemma is_digit_digit [simp]: "n < 10 \<Longrightarrow> is_digit (digit n)"
  by (simp add: is_digit_def of_char_digit)

lemma decimal_digits: "list_all is_digit (decimal n)"
proof (induction n rule: decimal.induct)
  case (1 n)
  then show ?case by (subst decimal.simps) auto
qed

lemma decimal_nonempty [simp]: "decimal n \<noteq> []"
  by (subst decimal.simps) simp

lemma digits_value_snoc: "digits_value (ds @ [c]) = 10 * digits_value ds + (of_char c - 48)"
  by (simp add: digits_value_def)

lemma digits_value_decimal [simp]: "digits_value (decimal n) = n"
proof (induction n rule: decimal.induct)
  case (1 n)
  show ?case
  proof (cases "n < 10")
    case True
    then show ?thesis by (subst decimal.simps) (simp add: digits_value_def of_char_digit)
  next
    case False
    then show ?thesis
      using 1 by (subst decimal.simps) (simp add: digits_value_snoc of_char_digit)
  qed
qed

lemma not_space_digit: "is_digit c \<Longrightarrow> \<not> is_space c \<and> c \<noteq> CHR ''-'' \<and> c \<noteq> CHR ''+''"
  by (auto simp: is_digit_def is_space_def)

lemma extract_decimal: "extract_uint16 (decimal (unat (n :: 16 word))) = Some n"
proof -
  let ?s = "decimal (unat n)"
  obtain c cs where s: "?s = c # cs" by (cases ?s) auto
  have d: "list_all is_digit ?s" by (rule decimal_digits)
  then have "is_digit c" using s by simp
  then have c: "\<not> is_space c" "c \<noteq> CHR ''-''" "c \<noteq> CHR ''+''" by (simp_all add: not_space_digit)
  have "takeWhile is_digit (c # cs) = c # cs" using d s by (simp add: takeWhile_eq_all_conv list_all_iff)
  then have e: "extract_uint16 (c # cs) =
      (if digits_value (c # cs) \<ge> 2 ^ 16 then None else Some (of_nat (digits_value (c # cs))))"
    using c by (simp add: extract_uint16_def Let_def)
  have v: "digits_value (c # cs) = unat n" using digits_value_decimal [of "unat n"] s by simp
  have "unat n < 65536" using unsigned_less [of n] by simp
  then show ?thesis unfolding s e v by simp
qed

section \<open>State\<close>

datatype uri_type = UriUndefined | UriSilKit | UriTcp | UriLocal

record uri =
  uriType :: uri_type
  uriScheme :: string
  uriHost :: string
  uriPort :: "16 word option"
  uriPath :: string
  uriString :: string

definition Port :: "uri \<Rightarrow> 16 word" where
  "Port u = (case uriPort u of Some p \<Rightarrow> p | None \<Rightarrow> if uriType u = UriLocal then 0 else 8500)"

section \<open>Simulation names\<close>

definition is_letter :: "char \<Rightarrow> bool" where
  "is_letter c \<longleftrightarrow> 97 \<le> (of_char c :: nat) \<and> (of_char c :: nat) \<le> 122 \<or> 65 \<le> (of_char c :: nat) \<and> (of_char c :: nat) \<le> 90"

definition name_char :: "char \<Rightarrow> bool" where
  "name_char c \<longleftrightarrow> is_letter c \<or> is_digit c \<or> c \<in> {CHR ''_'', CHR ''-'', CHR ''.'', CHR ''~''}"

text \<open>\<open>first\<close> says that the position is 0, whose slash is left out.\<close>

fun validate_name :: "bool \<Rightarrow> string \<Rightarrow> string result" where
  "validate_name first [] = Inr []"
| "validate_name first (c # cs) =
     (if c = CHR ''/''
      then if cs \<noteq> [] \<and> hd cs = CHR ''/'' then Inl SilKitError
           else if first then validate_name False cs
           else map_sum id (\<lambda>rest. c # rest) (validate_name False cs)
      else if \<not> name_char c then Inl SilKitError
      else map_sum id (\<lambda>rest. c # rest) (validate_name False cs))"

definition ValidateAndTransformSimulationName :: "string \<Rightarrow> string result" where
  "ValidateAndTransformSimulationName s = validate_name True s"

section \<open>Parsing\<close>

fun find_sub :: "string \<Rightarrow> string \<Rightarrow> nat option" where
  "find_sub pat [] = (if pat = [] then Some 0 else None)"
| "find_sub pat (c # cs) =
     (if take (length pat) (c # cs) = pat then Some 0 else map_option Suc (find_sub pat cs))"

fun find_last :: "char \<Rightarrow> string \<Rightarrow> nat option" where
  "find_last x [] = None"
| "find_last x (c # cs) =
     (case find_last x cs of
        Some i \<Rightarrow> Some (Suc i)
      | None \<Rightarrow> if c = x then Some 0 else None)"

definition scheme_type :: "string \<Rightarrow> uri_type" where
  "scheme_type s =
     (if s = ''tcp'' then UriTcp else if s = ''silkit'' then UriSilKit
      else if s = ''local'' then UriLocal else UriUndefined)"

text \<open>The part of the host and the port, once the path is cut off.\<close>

definition parse_authority :: "string \<Rightarrow> uri \<Rightarrow> uri result" where
  "parse_authority authority u =
     (case find_last CHR '':'' authority of
        None \<Rightarrow> if authority = [] then Inl ConfigurationError else Inr (u\<lparr>uriHost := authority\<rparr>)
      | Some i \<Rightarrow>
          (case extract_uint16 (drop (i + 1) authority) of
             None \<Rightarrow> Inl ConfigurationError
           | Some port \<Rightarrow>
               if drop (i + 1) authority = [] then Inl ConfigurationError
               else if take i authority = [] then Inl ConfigurationError
               else Inr (u\<lparr>uriHost := take i authority, uriPort := Some port\<rparr>)))"

definition Parse :: "string \<Rightarrow> uri result" where
  "Parse raw =
     (case find_sub ''://'' raw of
        None \<Rightarrow> Inl ConfigurationError
      | Some idx \<Rightarrow>
          let scheme = take idx raw; rest = drop (idx + 3) raw;
              u = \<lparr>uriType = scheme_type scheme, uriScheme = scheme, uriHost = [], uriPort = None, uriPath = [],
                   uriString = raw\<rparr>
          in if uriType u = UriLocal then Inr (u\<lparr>uriPath := rest\<rparr>)
             else case find_sub ''/'' rest of
                    None \<Rightarrow> parse_authority rest u
                  | Some i \<Rightarrow>
                      bind_result (ValidateAndTransformSimulationName (drop i rest)) (\<lambda>path.
                      parse_authority (take i rest) (u\<lparr>uriPath := path\<rparr>)))"

section \<open>Building\<close>

definition MakeTcp :: "string \<Rightarrow> 16 word \<Rightarrow> uri result" where
  "MakeTcp host port = Parse (''tcp://'' @ host @ '':'' @ decimal (unat port))"

definition MakeSilKit :: "string \<Rightarrow> 16 word \<Rightarrow> string \<Rightarrow> uri result" where
  "MakeSilKit host port simulationName =
     bind_result (ValidateAndTransformSimulationName simulationName) (\<lambda>name.
     Parse (''silkit://'' @ host @ '':'' @ decimal (unat port) @ ''/'' @ name))"

definition hex_digit :: "nat \<Rightarrow> char" where
  "hex_digit n = (if n < 10 then char_of (48 + n) else char_of (87 + n))"

definition UrlEncode :: "string \<Rightarrow> string" where
  "UrlEncode name = concat (map (\<lambda>c.
     if is_letter c \<or> is_digit c then [c]
     else [CHR ''%'', hex_digit (of_char c div 16), hex_digit (of_char c mod 16)]) name)"

section \<open>Lemmas\<close>

lemma find_sub_char:
  "find_sub [x] s = (if x \<in> set s then Some (length (takeWhile (\<lambda>c. c \<noteq> x) s)) else None)"
  by (induction s) auto

lemma find_last_append:
  "find_last x (s @ x # t) = Some (length s)" if "x \<notin> set t"
proof -
  have none: "find_last x t = None" using that by (induction t) auto
  then show ?thesis by (induction s) auto
qed

lemma digit_not_special: "list_all is_digit ds \<Longrightarrow> CHR '':'' \<notin> set ds \<and> CHR ''/'' \<notin> set ds"
  by (auto simp: list_all_iff is_digit_def)

lemma parse_authority_host_port:
  assumes "host \<noteq> []"
  shows "parse_authority (host @ '':'' @ decimal (unat port)) u = Inr (u\<lparr>uriHost := host, uriPort := Some port\<rparr>)"
proof -
  have "find_last CHR '':'' (host @ CHR '':'' # decimal (unat port)) = Some (length host)"
    using find_last_append digit_not_special [OF decimal_digits] by blast
  then show ?thesis using assms by (simp add: parse_authority_def extract_decimal)
qed

text \<open>The simulation names that the transformation leaves as they are.\<close>

definition normal_name :: "string \<Rightarrow> bool" where
  "normal_name t \<longleftrightarrow>
     list_all (\<lambda>c. c = CHR ''/'' \<or> name_char c) t \<and> take 1 t \<noteq> ''/'' \<and> find_sub ''//'' t = None"

definition part_of_name :: "string \<Rightarrow> bool" where
  "part_of_name t \<longleftrightarrow> list_all (\<lambda>c. c = CHR ''/'' \<or> name_char c) t \<and> find_sub ''//'' t = None"

lemma slash_no_name_char [simp]: "\<not> name_char CHR ''/''"
  by (simp add: name_char_def is_letter_def is_digit_def)

lemma part_of_name_Cons:
  "part_of_name (c # cs) \<longleftrightarrow>
     (if c = CHR ''/'' then \<not> (cs \<noteq> [] \<and> hd cs = CHR ''/'') else name_char c) \<and> part_of_name cs"
  by (cases cs) (auto simp: part_of_name_def)

lemma validate_part: "validate_name False s = (if part_of_name s then Inr s else Inl SilKitError)"
proof (induction s)
  case Nil
  then show ?case by (simp add: part_of_name_def)
next
  case (Cons c cs)
  then show ?case by (simp add: part_of_name_Cons)
qed

lemma slash_in_front [simp]: "take (Suc 0) t = ''/'' \<longleftrightarrow> t \<noteq> [] \<and> hd t = CHR ''/''"
  by (cases t) auto

lemma Validate_cases:
  "ValidateAndTransformSimulationName s =
     (if s \<noteq> [] \<and> hd s = CHR ''/'' then if part_of_name s then Inr (tl s) else Inl SilKitError
      else if part_of_name s then Inr s else Inl SilKitError)"
  by (cases s) (auto simp: ValidateAndTransformSimulationName_def validate_part part_of_name_Cons part_of_name_def)

lemma Validate_iff:
  "ValidateAndTransformSimulationName s = Inr t \<longleftrightarrow> normal_name t \<and> s \<in> {t, CHR ''/'' # t}"
  by (cases s; cases t)
    (auto simp: Validate_cases normal_name_def part_of_name_Cons part_of_name_def split: if_splits)

text \<open>A decoder, which the code has no need of: it shows that no two names have one encoding.\<close>

definition hex_value :: "char \<Rightarrow> nat" where
  "hex_value c = (if is_digit c then of_char c - 48 else of_char c - 87)"

fun UrlDecode :: "string \<Rightarrow> string" where
  "UrlDecode [] = []"
| "UrlDecode (c # cs) =
     (if c = CHR ''%'' then
        case cs of a # b # rest \<Rightarrow> char_of (16 * hex_value a + hex_value b) # UrlDecode rest
        | _ \<Rightarrow> []
      else c # UrlDecode cs)"

lemma hex_value_digit: "n < 16 \<Longrightarrow> hex_value (hex_digit n) = n"
  by (auto simp: hex_value_def hex_digit_def is_digit_def)

lemma hex_digit_safe: "n < 16 \<Longrightarrow> is_letter (hex_digit n) \<or> is_digit (hex_digit n)"
  by (auto simp: hex_digit_def is_digit_def is_letter_def)

lemma of_char_mod: "(of_char c :: nat) mod 16 < 16"
  by simp

lemma of_char_div: "(of_char c :: nat) div 16 < 16"
proof -
  have "(of_char c :: nat) < 16 * 16" using nat_of_char_less_256 [of c] by simp
  then show ?thesis by (rule less_mult_imp_div_less)
qed

lemma UrlDecode_UrlEncode: "UrlDecode (UrlEncode s) = s"
proof (induction s)
  case (Cons c s)
  have "c \<noteq> CHR ''%''" if "is_letter c \<or> is_digit c"
    using that by (auto simp: is_letter_def is_digit_def)
  then show ?case using Cons of_char_div [of c] by (auto simp: UrlEncode_def hex_value_digit)
qed (simp add: UrlEncode_def)

lemma MakeTcp_parts:
  assumes "host \<noteq> []" "CHR ''/'' \<notin> set host"
  shows "MakeTcp host port = Inr \<lparr>uriType = UriTcp, uriScheme = ''tcp'', uriHost = host, uriPort = Some port,
      uriPath = [], uriString = ''tcp://'' @ host @ '':'' @ decimal (unat port)\<rparr>"
proof -
  have "CHR ''/'' \<notin> set (host @ '':'' @ decimal (unat port))"
    using assms(2) digit_not_special [OF decimal_digits] by auto
  then have "find_sub ''/'' (host @ '':'' @ decimal (unat port)) = None" by (simp add: find_sub_char)
  then show ?thesis
    using parse_authority_host_port [OF assms(1)] by (simp add: MakeTcp_def Parse_def scheme_type_def)
qed

lemma parse_authority_host:
  assumes "parse_authority a u = Inr v" "CHR ''/'' \<notin> set a"
  shows "uriHost v \<noteq> []" "CHR ''/'' \<notin> set (uriHost v)" "uriType v = uriType u" "uriString v = uriString u"
  using assms by (auto simp: parse_authority_def split: option.splits if_splits dest: in_set_takeD)

text \<open>A parsed URI keeps its string, and its host has no slash.\<close>

lemma Parse_cases:
  assumes "Parse s = Inr u"
  shows "uriType u = UriLocal \<and> uriString u = s \<or>
    (\<exists>a v. CHR ''/'' \<notin> set a \<and> uriString v = s \<and> uriType v \<noteq> UriLocal \<and> parse_authority a v = Inr u)"
proof -
  have cut: "CHR ''/'' \<notin> set (take i r)" if "find_sub ''/'' r = Some i" for i r
    using that by (auto simp: find_sub_char takeWhile_eq_take [symmetric] dest: set_takeWhileD split: if_splits)
  have uncut: "CHR ''/'' \<notin> set r" if "find_sub ''/'' r = None" for r
    using that by (auto simp: find_sub_char split: if_splits)
  from assms obtain idx where idx: "find_sub ''://'' s = Some idx" by (auto simp: Parse_def split: option.splits)
  let ?rest = "drop (idx + 3) s"
  let ?u = "\<lparr>uriType = scheme_type (take idx s), uriScheme = take idx s, uriHost = [], uriPort = None, uriPath = [],
      uriString = s\<rparr>"
  show ?thesis
  proof (cases "scheme_type (take idx s) = UriLocal")
    case True
    then show ?thesis using assms idx by (auto simp: Parse_def Let_def)
  next
    case False
    note out = assms [unfolded Parse_def, simplified idx, simplified, unfolded Let_def]
    show ?thesis
    proof (cases "find_sub ''/'' ?rest")
      case None
      then have "parse_authority ?rest ?u = Inr u" using out False by simp
      then show ?thesis
        using uncut [OF None] False by (intro disjI2 exI [of _ ?rest] exI [of _ ?u]) simp
    next
      case (Some i)
      then obtain path where "parse_authority (take i ?rest) (?u\<lparr>uriPath := path\<rparr>) = Inr u"
        using out False by (auto simp: bind_result_Inr_iff)
      then show ?thesis
        using cut [OF Some] False by (intro disjI2 exI [of _ "take i ?rest"] exI [of _ "?u\<lparr>uriPath := path\<rparr>"]) simp
    qed
  qed
qed

lemma Parse_parts:
  assumes "Parse s = Inr u"
  shows "uriString u = s" "uriType u \<noteq> UriLocal \<Longrightarrow> uriHost u \<noteq> [] \<and> CHR ''/'' \<notin> set (uriHost u)"
  using Parse_cases [OF assms] parse_authority_host by metis+

section \<open>Properties\<close>

text \<open>
  A simulation name is accepted exactly if it is a normal one, with at most one
  slash in front, which is dropped: no two spellings of one name remain, and every other
  name is an error.
\<close>

theorem simulation_names_are_normalised:
  "(ValidateAndTransformSimulationName s = Inr t \<longleftrightarrow> normal_name t \<and> s \<in> {t, CHR ''/'' # t}) \<and>
   ValidateAndTransformSimulationName s \<in> {Inl SilKitError} \<union> range Inr"
  by (simp add: Validate_iff) (simp add: Validate_cases)

text \<open>
  Whatever host, port and simulation name an endpoint has, the URI made for it is
  parsed to them again, the port being the number that was printed; and the parsed URI keeps
  the string it was parsed from.
\<close>

theorem made_uris_are_parsed_to_their_parts:
  assumes "host \<noteq> []" "CHR ''/'' \<notin> set host" "ValidateAndTransformSimulationName name = Inr path"
  shows "MakeTcp host port = Inr \<lparr>uriType = UriTcp, uriScheme = ''tcp'', uriHost = host, uriPort = Some port,
      uriPath = [], uriString = ''tcp://'' @ host @ '':'' @ decimal (unat port)\<rparr> \<and>
    MakeSilKit host port name = Inr \<lparr>uriType = UriSilKit, uriScheme = ''silkit'', uriHost = host,
      uriPort = Some port, uriPath = path,
      uriString = ''silkit://'' @ host @ '':'' @ decimal (unat port) @ ''/'' @ path\<rparr>"
proof -
  let ?authority = "host @ '':'' @ decimal (unat port)"
  have noslash: "CHR ''/'' \<notin> set ?authority" using assms(2) digit_not_special [OF decimal_digits] by auto
  then have cut: "takeWhile (\<lambda>c. c \<noteq> CHR ''/'') (?authority @ ''/'' @ path) = ?authority"
    by (subst takeWhile_append2) auto
  have path: "ValidateAndTransformSimulationName (CHR ''/'' # path) = Inr path"
    using assms(3) by (simp add: Validate_iff)
  have "find_sub ''/'' (?authority @ ''/'' @ path) = Some (length ?authority)"
    unfolding find_sub_char cut by simp
  then have "MakeSilKit host port name = Inr \<lparr>uriType = UriSilKit, uriScheme = ''silkit'', uriHost = host,
      uriPort = Some port, uriPath = path,
      uriString = ''silkit://'' @ host @ '':'' @ decimal (unat port) @ ''/'' @ path\<rparr>"
    using parse_authority_host_port [OF assms(1)] path
    by (simp add: MakeSilKit_def assms(3) Parse_def scheme_type_def)
  then show ?thesis using MakeTcp_parts [OF assms(1,2)] by blast
qed

theorem made_uris_are_parsed_to_their_parts_witness:
  "MakeTcp ''[::1]'' 8500 = Inr \<lparr>uriType = UriTcp, uriScheme = ''tcp'', uriHost = ''[::1]'', uriPort = Some 8500,
      uriPath = [], uriString = ''tcp://'' @ ''[::1]'' @ '':'' @ decimal (unat (8500 :: 16 word))\<rparr> \<and>
   MakeSilKit ''[::1]'' 8500 ''/a/b'' = Inr \<lparr>uriType = UriSilKit, uriScheme = ''silkit'', uriHost = ''[::1]'',
      uriPort = Some 8500, uriPath = ''a/b'',
      uriString = ''silkit://'' @ ''[::1]'' @ '':'' @ decimal (unat (8500 :: 16 word)) @ ''/'' @ ''a/b''\<rparr>"
  by (rule made_uris_are_parsed_to_their_parts)
    (simp_all add: ValidateAndTransformSimulationName_def name_char_def is_letter_def)

text \<open>
  The encoding of a name contains nothing but letters, digits and percent signs,
  and no two names have the same encoding.
\<close>

theorem encoded_names_are_safe_and_distinct:
  "list_all (\<lambda>c. is_letter c \<or> is_digit c \<or> c = CHR ''%'') (UrlEncode s) \<and>
   (UrlEncode s = UrlEncode s' \<longleftrightarrow> s = s')"
proof
  show "list_all (\<lambda>c. is_letter c \<or> is_digit c \<or> c = CHR ''%'') (UrlEncode s)"
    by (induction s) (use hex_digit_safe [OF of_char_div] hex_digit_safe [OF of_char_mod] in \<open>auto simp: UrlEncode_def\<close>)
  show "UrlEncode s = UrlEncode s' \<longleftrightarrow> s = s'"
    by (metis UrlDecode_UrlEncode)
qed

end
