(* ===== verification/TransformAcceptorUris.thy ===== *)
theory TransformAcceptorUris
  imports Uri "HOL-Library.List_Lexorder" "HOL-Library.Char_ord"
begin

text \<open>
  What the registry makes of the acceptor URIs of one participant before it advertises them
  to another (\<open>core/vasio/TransformAcceptorUris.cpp\<close>). Addresses are read by the asio
  library: \<open>make_address\<close> is what \<open>asio::ip::make_address\<close> returns, \<open>None\<close> if it throws. The
  addresses of the two connections are those that the peers report.
\<close>

section \<open>What is known of an address\<close>

record ip_address =
  isV4 :: bool
  isUnspecified :: bool
  isLoopback :: bool

record uri_info =
  infoLocal :: bool
  infoIp4 :: bool
  infoIp6 :: bool
  catchallIp :: bool
  loopbackIp :: bool

definition no_uri_info :: uri_info where
  "no_uri_info = \<lparr>infoLocal = False, infoIp4 = False, infoIp6 = False, catchallIp = False, loopbackIp = False\<rparr>"

definition GetUriInfo :: "(string \<Rightarrow> ip_address option) \<Rightarrow> uri \<Rightarrow> uri_info" where
  "GetUriInfo make_address u =
     (let host = filter (\<lambda>c. c \<noteq> CHR ''['' \<and> c \<noteq> CHR '']'') (uriHost u)
      in if uriType u = UriLocal then no_uri_info\<lparr>infoLocal := True\<rparr>
         else if uriType u = UriTcp
         then case make_address host of
                None \<Rightarrow> no_uri_info
              | Some addr \<Rightarrow> \<lparr>infoLocal = isLoopback addr, infoIp4 = isV4 addr, infoIp6 = \<not> isV4 addr,
                  catchallIp = isUnspecified addr, loopbackIp = isLoopback addr\<rparr>
         else no_uri_info)"

section \<open>The transformation\<close>

text \<open>The hosts that take the place of a catch-all acceptor, in the order of the code.\<close>

definition replacement_hosts :: "uri \<Rightarrow> uri_info \<Rightarrow> uri \<Rightarrow> uri_info \<Rightarrow> uri_info \<Rightarrow> string list" where
  "replacement_hosts src srcInfo dst dstInfo info =
     (if infoLocal srcInfo
      then (if infoLocal dstInfo
            then (if infoIp4 info then [''127.0.0.1''] else []) @ (if infoIp6 info then [''[::1]''] else [])
            else []) @
           (if infoIp4 info \<and> infoIp4 dstInfo then [uriHost dst] else []) @
           (if infoIp6 info \<and> infoIp6 dstInfo then [uriHost dst] else [])
      else []) @
     (if infoIp4 info \<and> infoIp4 srcInfo then [uriHost src] else []) @
     (if infoIp6 info \<and> infoIp6 srcInfo then [uriHost src] else [])"

fun make_all :: "string list \<Rightarrow> 16 word \<Rightarrow> uri list result" where
  "make_all [] port = Inr []"
| "make_all (h # hs) port =
     bind_result (MakeTcp h port) (\<lambda>u. bind_result (make_all hs port) (\<lambda>us. Inr (u # us)))"

definition transform_one :: "(string \<Rightarrow> ip_address option) \<Rightarrow> uri \<Rightarrow> uri \<Rightarrow> uri \<Rightarrow> uri list result" where
  "transform_one make_address src dst u =
     (let info = GetUriInfo make_address u
      in if catchallIp info
         then make_all (replacement_hosts src (GetUriInfo make_address src) dst (GetUriInfo make_address dst) info) (Port u)
         else Inr [u])"

fun transform_all :: "(string \<Rightarrow> ip_address option) \<Rightarrow> uri \<Rightarrow> uri \<Rightarrow> string list \<Rightarrow> uri list result" where
  "transform_all make_address src dst [] = Inr []"
| "transform_all make_address src dst (s # ss) =
     bind_result (Parse s) (\<lambda>u.
     bind_result (transform_one make_address src dst u) (\<lambda>us.
     bind_result (transform_all make_address src dst ss) (\<lambda>us'. Inr (us @ us'))))"

text \<open>\<open>std::set\<close> of URIs ordered by their strings: the first one of equal strings stays.\<close>

definition emplace_uri :: "uri \<Rightarrow> uri list \<Rightarrow> uri list" where
  "emplace_uri u us = (if uriString u \<in> uriString ` set us then us else insort_key uriString u us)"

definition penalty :: "(string \<Rightarrow> ip_address option) \<Rightarrow> uri_info \<Rightarrow> uri \<Rightarrow> nat" where
  "penalty make_address dstInfo u =
     (if uriType u = UriLocal then 0
      else if loopbackIp (GetUriInfo make_address u) then if infoLocal dstInfo then 1000 else 2000
      else if infoLocal dstInfo then 2000 else 1000)"

text \<open>\<open>std::multimap\<close> keeps the elements of one key in the order of their insertion.\<close>

definition TransformAcceptorUris :: "(string \<Rightarrow> ip_address option) \<Rightarrow> string \<Rightarrow> string \<Rightarrow> string list
    \<Rightarrow> string list result" where
  "TransformAcceptorUris make_address advertisedRemoteAddress audienceLocalAddress uris =
     bind_result (Parse advertisedRemoteAddress) (\<lambda>src.
     bind_result (Parse audienceLocalAddress) (\<lambda>dst.
     if uriType src \<noteq> UriLocal \<and> uriType src \<noteq> UriTcp then Inl SilKitError
     else if uriType dst \<noteq> UriLocal \<and> uriType dst \<noteq> UriTcp then Inl SilKitError
     else bind_result (transform_all make_address src dst uris) (\<lambda>us.
          Inr (map uriString (sort_key (penalty make_address (GetUriInfo make_address dst)) (fold emplace_uri us []))))))"

section \<open>Lemmas\<close>

lemma MakeTcp_string: "MakeTcp h port = Inr u \<Longrightarrow> Parse (uriString u) = Inr u"
  using Parse_parts(1) by (auto simp: MakeTcp_def)

lemma make_all_set:
  "make_all hs port = Inr us \<Longrightarrow> v \<in> set us \<longleftrightarrow> (\<exists>h\<in>set hs. MakeTcp h port = Inr v)"
  by (induction hs arbitrary: us) (auto simp: bind_result_Inr_iff)

lemma set_fold_emplace:
  "uriString ` set (fold emplace_uri us acc) = uriString ` (set acc \<union> set us)"
  by (induction us arbitrary: acc) (auto simp: emplace_uri_def set_insort_key)

lemma set_fold_emplace_sub: "set (fold emplace_uri us acc) \<subseteq> set acc \<union> set us"
proof (induction us arbitrary: acc)
  case (Cons u us)
  have "set (emplace_uri u acc) \<subseteq> insert u (set acc)" by (auto simp: emplace_uri_def set_insort_key)
  then show ?case using Cons [of "emplace_uri u acc"] by auto
qed simp

lemma map_insort_key: "map f (insort_key f x xs) = insort (f x) (map f xs)"
  by (induction xs) auto

lemma distinct_fold_emplace: "distinct (map uriString acc) \<Longrightarrow> distinct (map uriString (fold emplace_uri us acc))"
  by (induction us arbitrary: acc) (auto simp: emplace_uri_def map_insort_key distinct_insort)

text \<open>Where an advertised URI comes from.\<close>

definition comes_from :: "(string \<Rightarrow> ip_address option) \<Rightarrow> uri \<Rightarrow> uri \<Rightarrow> string list \<Rightarrow> uri \<Rightarrow> bool" where
  "comes_from make_address src dst uris v \<longleftrightarrow>
     (\<exists>s\<in>set uris. \<exists>u. Parse s = Inr u \<and>
        (v = u \<and> \<not> catchallIp (GetUriInfo make_address u) \<or>
         catchallIp (GetUriInfo make_address u) \<and>
         (\<exists>h\<in>set (replacement_hosts src (GetUriInfo make_address src) dst (GetUriInfo make_address dst)
              (GetUriInfo make_address u)). MakeTcp h (Port u) = Inr v)))"

lemma transform_one_sources:
  "transform_one make_address src dst u = Inr us \<Longrightarrow> v \<in> set us \<longleftrightarrow>
     v = u \<and> \<not> catchallIp (GetUriInfo make_address u) \<or>
     catchallIp (GetUriInfo make_address u) \<and>
     (\<exists>h\<in>set (replacement_hosts src (GetUriInfo make_address src) dst (GetUriInfo make_address dst)
          (GetUriInfo make_address u)). MakeTcp h (Port u) = Inr v)"
  by (auto simp: transform_one_def Let_def make_all_set split: if_splits)

lemma transform_all_sources:
  assumes "transform_all make_address src dst uris = Inr us"
  shows "v \<in> set us \<longleftrightarrow> comes_from make_address src dst uris v"
  using assms
proof (induction uris arbitrary: us)
  case (Cons s ss)
  then obtain u us1 us2 where u: "Parse s = Inr u" "transform_one make_address src dst u = Inr us1"
    "transform_all make_address src dst ss = Inr us2" "us = us1 @ us2"
    by (auto simp: bind_result_Inr_iff)
  show ?case
    using Cons.IH [OF u(3)] transform_one_sources [OF u(2), of v] u(1,4)
    by (auto simp: comes_from_def)
qed (simp add: comes_from_def)

lemma result_sources:
  assumes "TransformAcceptorUris make_address remote loc uris = Inr result"
  obtains src dst us where "Parse remote = Inr src" "Parse loc = Inr dst"
    "uriType src \<in> {UriLocal, UriTcp}" "uriType dst \<in> {UriLocal, UriTcp}"
    "result = map uriString (sort_key (penalty make_address (GetUriInfo make_address dst)) us)"
    "distinct (map uriString us)" "\<And>v. v \<in> set us \<Longrightarrow> comes_from make_address src dst uris v"
    "\<And>v. comes_from make_address src dst uris v \<Longrightarrow> uriString v \<in> set result"
proof -
  from assms obtain src dst us where r: "Parse remote = Inr src" "Parse loc = Inr dst"
    "uriType src \<in> {UriLocal, UriTcp}" "uriType dst \<in> {UriLocal, UriTcp}"
    "transform_all make_address src dst uris = Inr us"
    "result = map uriString (sort_key (penalty make_address (GetUriInfo make_address dst)) (fold emplace_uri us []))"
    by (auto simp: TransformAcceptorUris_def bind_result_Inr_iff split: if_splits)
  show thesis
  proof (rule that [OF r(1-4,6)])
    show "distinct (map uriString (fold emplace_uri us []))" by (rule distinct_fold_emplace) simp
    show "comes_from make_address src dst uris v" if "v \<in> set (fold emplace_uri us [])" for v
      using that set_fold_emplace_sub [of us "[]"] transform_all_sources [OF r(5)] by auto
    show "uriString v \<in> set result" if "comes_from make_address src dst uris v" for v
      using that set_fold_emplace [of us "[]"] transform_all_sources [OF r(5), of v] r(6) by auto
  qed
qed

lemma comes_from_parses: "comes_from make_address src dst uris v \<Longrightarrow> Parse (uriString v) = Inr v"
  using Parse_parts(1) MakeTcp_string by (auto simp: comes_from_def)

lemma GetUriInfo_host:
  "uriType u = uriType v \<Longrightarrow> uriHost u = uriHost v \<Longrightarrow> GetUriInfo make_address u = GetUriInfo make_address v"
  by (simp add: GetUriInfo_def)

lemma ip_is_tcp:
  "infoIp4 (GetUriInfo make_address u) \<or> infoIp6 (GetUriInfo make_address u) \<or> catchallIp (GetUriInfo make_address u) \<Longrightarrow>
    uriType u = UriTcp"
  by (auto simp: GetUriInfo_def no_uri_info_def Let_def split: if_splits)

lemma replacement_host_cases:
  assumes "h \<in> set (replacement_hosts src (GetUriInfo make_address src) dst (GetUriInfo make_address dst) info)"
  shows "h \<in> {''127.0.0.1'', ''[::1]''} \<or> (\<exists>w\<in>{src, dst}. uriType w = UriTcp \<and> h = uriHost w)"
  using assms ip_is_tcp [of make_address src] ip_is_tcp [of make_address dst]
  by (auto simp: replacement_hosts_def split: if_splits)

definition example_make_address :: "string \<Rightarrow> ip_address option" where
  "example_make_address s =
     (if s = ''127.0.0.1'' then Some \<lparr>isV4 = True, isUnspecified = False, isLoopback = True\<rparr>
      else if s = ''::1'' then Some \<lparr>isV4 = False, isUnspecified = False, isLoopback = True\<rparr>
      else if s = ''0.0.0.0'' then Some \<lparr>isV4 = True, isUnspecified = True, isLoopback = False\<rparr>
      else if s = ''10.0.0.2'' then Some \<lparr>isV4 = True, isUnspecified = False, isLoopback = False\<rparr>
      else None)"

lemmas parse_simps = Parse_def Let_def scheme_type_def parse_authority_def extract_uint16_def is_space_def
  is_digit_def digits_value_def

abbreviation tcp_uri :: "string \<Rightarrow> 16 word \<Rightarrow> string \<Rightarrow> uri" where
  "tcp_uri host port s \<equiv> \<lparr>uriType = UriTcp, uriScheme = ''tcp'', uriHost = host, uriPort = Some port, uriPath = [],
     uriString = s\<rparr>"

lemma example_parses:
  "Parse ''tcp://127.0.0.1:5000'' = Inr (tcp_uri ''127.0.0.1'' 5000 ''tcp://127.0.0.1:5000'')"
  "Parse ''tcp://127.0.0.1:70'' = Inr (tcp_uri ''127.0.0.1'' 70 ''tcp://127.0.0.1:70'')"
  "Parse ''tcp://10.0.0.2:85'' = Inr (tcp_uri ''10.0.0.2'' 85 ''tcp://10.0.0.2:85'')"
  "Parse ''tcp://0.0.0.0:70'' = Inr (tcp_uri ''0.0.0.0'' 70 ''tcp://0.0.0.0:70'')"
  "Parse ''tcp://10.0.0.2:70'' = Inr (tcp_uri ''10.0.0.2'' 70 ''tcp://10.0.0.2:70'')"
  "Parse ''local:///x'' = Inr \<lparr>uriType = UriLocal, uriScheme = ''local'', uriHost = [], uriPort = None,
     uriPath = ''/x'', uriString = ''local:///x''\<rparr>"
  by (simp_all add: parse_simps)

lemma example_decimal: "decimal 70 = ''70''"
  by code_simp

lemma example_transformation:
  "TransformAcceptorUris example_make_address ''tcp://127.0.0.1:5000'' ''tcp://10.0.0.2:85''
     [''tcp://0.0.0.0:70'', ''local:///x'', ''tcp://10.0.0.2:70''] =
   Inr [''local:///x'', ''tcp://10.0.0.2:70'', ''tcp://127.0.0.1:70'']"
  by (simp add: TransformAcceptorUris_def example_parses transform_one_def GetUriInfo_def example_make_address_def
      no_uri_info_def replacement_hosts_def MakeTcp_parts Port_def Let_def emplace_uri_def penalty_def example_decimal)

section \<open>Properties\<close>

text \<open>
  No catch-all address is ever advertised: if the addresses of the two connections
  are none (those of connected sockets never are), every URI that the audience gets is one it
  can connect to, and it was announced by the participant or has the port of a catch-all
  acceptor that the participant announced.
\<close>

theorem no_catchall_is_advertised:
  assumes "TransformAcceptorUris make_address remote loc uris = Inr result" "s \<in> set result"
    and "\<And>u. Inr u \<in> {Parse remote, Parse loc} \<Longrightarrow> \<not> catchallIp (GetUriInfo make_address u)"
    and "make_address ''127.0.0.1'' = Some \<lparr>isV4 = True, isUnspecified = False, isLoopback = True\<rparr>"
    and "make_address ''::1'' = Some \<lparr>isV4 = False, isUnspecified = False, isLoopback = True\<rparr>"
  shows "\<exists>v. Parse s = Inr v \<and> \<not> catchallIp (GetUriInfo make_address v) \<and>
    (s \<in> set uris \<or> (\<exists>s'\<in>set uris. \<exists>u. Parse s' = Inr u \<and> catchallIp (GetUriInfo make_address u) \<and> Port v = Port u))"
proof -
  obtain src dst us where r: "Parse remote = Inr src" "Parse loc = Inr dst"
    "result = map uriString (sort_key (penalty make_address (GetUriInfo make_address dst)) us)"
    "\<And>v. v \<in> set us \<Longrightarrow> comes_from make_address src dst uris v"
    using result_sources [OF assms(1)] by metis
  from assms(2) r(3,4) obtain v where v: "s = uriString v" "comes_from make_address src dst uris v" by auto
  have p: "Parse s = Inr v" using v comes_from_parses by simp
  from v(2) obtain s' u where u: "s' \<in> set uris" "Parse s' = Inr u"
    "v = u \<and> \<not> catchallIp (GetUriInfo make_address u) \<or> catchallIp (GetUriInfo make_address u) \<and>
       (\<exists>h\<in>set (replacement_hosts src (GetUriInfo make_address src) dst (GetUriInfo make_address dst)
          (GetUriInfo make_address u)). MakeTcp h (Port u) = Inr v)"
    by (auto simp: comes_from_def)
  show ?thesis
  proof (cases "v = u \<and> \<not> catchallIp (GetUriInfo make_address u)")
    case True
    then show ?thesis using p u(1,2) v(1) Parse_parts(1) [OF u(2)] by auto
  next
    case False
    with u(3) obtain h where h: "catchallIp (GetUriInfo make_address u)" "MakeTcp h (Port u) = Inr v"
      "h \<in> {''127.0.0.1'', ''[::1]''} \<or> (\<exists>w\<in>{src, dst}. uriType w = UriTcp \<and> h = uriHost w)"
      using replacement_host_cases by blast
    have host: "h \<noteq> [] \<and> CHR ''/'' \<notin> set h"
      using h(3) Parse_parts(2) [OF r(1)] Parse_parts(2) [OF r(2)] by auto
    then have tcp: "uriType v = UriTcp" "uriHost v = h" "Port v = Port u"
      using h(2) MakeTcp_parts [of h "Port u"] by (auto simp: Port_def)
    have "\<not> catchallIp (GetUriInfo make_address v)"
      using h(3)
    proof (elim disjE bexE conjE)
      fix w assume w: "w \<in> {src, dst}" "uriType w = UriTcp" "h = uriHost w"
      have "\<not> catchallIp (GetUriInfo make_address w)" using w(1) assms(3) r(1,2) by auto
      then show ?thesis using tcp w GetUriInfo_host [of v w] by simp
    qed (use tcp assms(4,5) in \<open>auto simp: GetUriInfo_def\<close>)
    then show ?thesis using p u(1,2) h(1) tcp(3) by blast
  qed
qed

definition advertised_penalty :: "(string \<Rightarrow> ip_address option) \<Rightarrow> string \<Rightarrow> string \<Rightarrow> nat" where
  "advertised_penalty make_address loc s =
     (case (Parse loc, Parse s) of
        (Inr dst, Inr u) \<Rightarrow> penalty make_address (GetUriInfo make_address dst) u
      | _ \<Rightarrow> 0)"

text \<open>
  The audience tries the best addresses first: no URI is advertised twice, those
  of the local domain come before all others, and addresses of the loopback device come
  before the others exactly if the audience is on the same host.
\<close>

theorem advertised_uris_are_ordered:
  assumes "TransformAcceptorUris make_address remote loc uris = Inr result"
  shows "distinct result \<and> sorted (map (advertised_penalty make_address loc) result)"
proof -
  obtain src dst us where r: "Parse loc = Inr dst" "distinct (map uriString us)"
    "result = map uriString (sort_key (penalty make_address (GetUriInfo make_address dst)) us)"
    "\<And>v. v \<in> set us \<Longrightarrow> comes_from make_address src dst uris v"
    using result_sources [OF assms] by metis
  let ?key = "penalty make_address (GetUriInfo make_address dst)"
  have "map (advertised_penalty make_address loc) result = map ?key (sort_key ?key us)"
    using r(1,3) comes_from_parses [OF r(4)] by (simp add: advertised_penalty_def)
  moreover have "distinct result" using r(2) by (simp add: r(3) distinct_map)
  ultimately show ?thesis by simp
qed

theorem advertised_uris_are_ordered_witness:
  "distinct [''local:///x'', ''tcp://10.0.0.2:70'', ''tcp://127.0.0.1:70''] \<and>
   sorted (map (advertised_penalty example_make_address ''tcp://10.0.0.2:85'') [''local:///x'', ''tcp://10.0.0.2:70'', ''tcp://127.0.0.1:70''])"
  by (rule advertised_uris_are_ordered [OF example_transformation])

theorem no_catchall_is_advertised_witness:
  "\<exists>v. Parse ''tcp://10.0.0.2:70'' = Inr v \<and> \<not> catchallIp (GetUriInfo example_make_address v) \<and>
    (''tcp://10.0.0.2:70'' \<in> set [''tcp://0.0.0.0:70'', ''local:///x'', ''tcp://10.0.0.2:70''] \<or>
     (\<exists>s'\<in>set [''tcp://0.0.0.0:70'', ''local:///x'', ''tcp://10.0.0.2:70'']. \<exists>u. Parse s' = Inr u \<and>
        catchallIp (GetUriInfo example_make_address u) \<and> Port v = Port u))"
  by (rule no_catchall_is_advertised [OF example_transformation])
    (auto simp: example_parses GetUriInfo_def example_make_address_def)

end
