(* ===== verification/ConnectPeer.thy ===== *)
theory ConnectPeer
  imports Uri VAsioSerdes
begin

text \<open>
  Connecting to one participant (\<open>core/vasio/ConnectPeer.cpp\<close>): its acceptor URIs are
  resolved and ordered, then tried one after the other until one connects. The network is
  the environment: \<open>resolve\<close> is what the name resolution returns, \<open>starts\<close> tells whether a
  connector for a URI can be made and started. A call that is dispatched to the I/O thread
  by the thread itself is run at once. What the listener is told and what was tried is
  recorded.
\<close>

section \<open>The URIs of a participant\<close>

definition IsIp4 :: "string \<Rightarrow> bool" where
  "IsIp4 a \<longleftrightarrow> CHR ''.'' \<in> set a \<and> CHR '':'' \<notin> set a"

definition IsIp6 :: "string \<Rightarrow> bool" where
  "IsIp6 a \<longleftrightarrow> CHR ''.'' \<notin> set a \<and> CHR '':'' \<in> set a"

definition in_brackets :: "string \<Rightarrow> string" where
  "in_brackets a =
     (if IsIp6 a
      then let a = if hd a \<noteq> CHR ''['' then CHR ''['' # a else a
           in if last a \<noteq> CHR '']'' then a @ '']'' else a
      else a)"

text \<open>The addresses before one that makes no URI stay; the exception is only logged.\<close>

fun tcp_uris :: "string list \<Rightarrow> 16 word \<Rightarrow> uri list" where
  "tcp_uris [] port = []"
| "tcp_uris (a # as) port =
     (case MakeTcp (in_brackets a) port of
        Inl e \<Rightarrow> []
      | Inr u \<Rightarrow> u # tcp_uris as port)"

definition resolve_uri :: "(string \<Rightarrow> string list result) \<Rightarrow> string \<Rightarrow> uri list" where
  "resolve_uri resolve s =
     (case Parse s of
        Inl e \<Rightarrow> []
      | Inr u \<Rightarrow>
          if uriType u = UriTcp
          then case resolve (uriHost u) of Inl e \<Rightarrow> [] | Inr as \<Rightarrow> tcp_uris as (Port u)
          else [u])"

definition ComputePenalty :: "uri \<Rightarrow> nat" where
  "ComputePenalty u =
     (case uriType u of
        UriLocal \<Rightarrow> 100
      | UriTcp \<Rightarrow> if IsIp4 (uriHost u) then 200 else if IsIp6 (uriHost u) then 300 else 400
      | _ \<Rightarrow> 500)"

definition UpdateUris :: "(string \<Rightarrow> string list result) \<Rightarrow> vasio_peer_info \<Rightarrow> uri list" where
  "UpdateUris resolve info = sort_key ComputePenalty (concat (map (resolve_uri resolve) (pi_acceptorUris info)))"

section \<open>State\<close>

datatype connect_result = ConnectPeerSuccess uri | ConnectPeerFailure

record connect_peer =
  cpUris :: "uri list"
  enableDomainSockets :: bool
  remainingAttempts :: nat
  uriIndex :: nat
  connector :: "uri option"
  tried :: "uri list"
  told :: "connect_result list"

definition new_connect_peer :: "(string \<Rightarrow> string list result) \<Rightarrow> vasio_peer_info \<Rightarrow> bool \<Rightarrow> connect_peer result" where
  "new_connect_peer resolve info domainSockets =
     (if pi_participantName info = [] then Inl AssertionError
      else Inr \<lparr>cpUris = UpdateUris resolve info, enableDomainSockets = domainSockets, remainingAttempts = 0,
        uriIndex = 0, connector = None, tried = [], told = []\<rparr>)"

section \<open>Trying\<close>

definition HandleSuccess :: "uri \<Rightarrow> connect_peer \<Rightarrow> connect_peer" where
  "HandleSuccess u c = c\<lparr>connector := None, told := told c @ [ConnectPeerSuccess u]\<rparr>"

definition HandleFailure :: "connect_peer \<Rightarrow> connect_peer" where
  "HandleFailure c = c\<lparr>connector := None, told := told c @ [ConnectPeerFailure]\<rparr>"

text \<open>A connector that is made and started, or none: a local one only if it is enabled.\<close>

definition start_connector :: "(uri \<Rightarrow> bool) \<Rightarrow> uri \<Rightarrow> connect_peer \<Rightarrow> uri option" where
  "start_connector starts u c =
     (if (uriType u = UriTcp \<or> uriType u = UriLocal \<and> enableDomainSockets c) \<and> starts u then Some u else None)"

function TryNextUri :: "(uri \<Rightarrow> bool) \<Rightarrow> connect_peer \<Rightarrow> connect_peer" where
  "TryNextUri starts c =
     (if remainingAttempts c = 0 then HandleFailure c
      else if cpUris c = [] then HandleFailure c
      else if uriIndex c \<ge> length (cpUris c)
      then TryNextUri starts (c\<lparr>remainingAttempts := remainingAttempts c - 1, uriIndex := 0\<rparr>)
      else
        let u = cpUris c ! uriIndex c; c1 = c\<lparr>uriIndex := uriIndex c + 1\<rparr>
        in case start_connector starts u c1 of
             Some u \<Rightarrow> c1\<lparr>connector := Some u, tried := tried c @ [u]\<rparr>
           | None \<Rightarrow> TryNextUri starts c1)"
  by pat_completeness auto

termination TryNextUri
  by (relation "measures [\<lambda>(starts, c). remainingAttempts c, \<lambda>(starts, c). length (cpUris c) - uriIndex c]") auto

declare TryNextUri.simps [simp del]

definition AsyncConnect :: "(uri \<Rightarrow> bool) \<Rightarrow> nat \<Rightarrow> connect_peer \<Rightarrow> connect_peer" where
  "AsyncConnect starts numberOfAttempts c = TryNextUri starts (c\<lparr>remainingAttempts := max numberOfAttempts 1\<rparr>)"

definition OnAsyncConnectSuccess :: "connect_peer \<Rightarrow> connect_peer" where
  "OnAsyncConnectSuccess c = (case connector c of Some u \<Rightarrow> HandleSuccess u c | None \<Rightarrow> c)"

definition OnAsyncConnectFailure :: "(uri \<Rightarrow> bool) \<Rightarrow> connect_peer \<Rightarrow> connect_peer" where
  "OnAsyncConnectFailure starts c = TryNextUri starts (c\<lparr>connector := None\<rparr>)"

text \<open>The network answers every attempt: \<open>True\<close> if the URI connects.\<close>

fun answered :: "(uri \<Rightarrow> bool) \<Rightarrow> bool list \<Rightarrow> connect_peer \<Rightarrow> connect_peer" where
  "answered starts [] c = c"
| "answered starts (a # as) c =
     (if connector c = None then c
      else answered starts as (if a then OnAsyncConnectSuccess c else OnAsyncConnectFailure starts c))"

section \<open>What is still to be tried\<close>

definition usable :: "(uri \<Rightarrow> bool) \<Rightarrow> connect_peer \<Rightarrow> uri \<Rightarrow> bool" where
  "usable starts c u \<longleftrightarrow> (uriType u = UriTcp \<or> uriType u = UriLocal \<and> enableDomainSockets c) \<and> starts u"

definition to_try :: "(uri \<Rightarrow> bool) \<Rightarrow> connect_peer \<Rightarrow> uri list" where
  "to_try starts c =
     (if remainingAttempts c = 0 then []
      else filter (usable starts c) (drop (uriIndex c) (cpUris c)) @
           concat (replicate (remainingAttempts c - 1) (filter (usable starts c) (cpUris c))))"

lemma usable_fields [simp]:
  "usable starts (c\<lparr>remainingAttempts := n\<rparr>) = usable starts c" "usable starts (c\<lparr>uriIndex := i\<rparr>) = usable starts c"
  "usable starts (c\<lparr>connector := r\<rparr>) = usable starts c" "usable starts (c\<lparr>tried := us\<rparr>) = usable starts c"
  by (simp_all add: usable_def fun_eq_iff)

lemma start_connector_usable: "start_connector starts u c = (if usable starts c u then Some u else None)"
  by (auto simp: start_connector_def usable_def)

lemma TryNextUri_to_try:
  "(case to_try starts c of
      [] \<Rightarrow> connector (TryNextUri starts c) = None \<and> tried (TryNextUri starts c) = tried c \<and>
        told (TryNextUri starts c) = told c @ [ConnectPeerFailure]
    | u # us \<Rightarrow> connector (TryNextUri starts c) = Some u \<and> tried (TryNextUri starts c) = tried c @ [u] \<and>
        told (TryNextUri starts c) = told c \<and> to_try starts (TryNextUri starts c) = us) \<and>
   cpUris (TryNextUri starts c) = cpUris c \<and> enableDomainSockets (TryNextUri starts c) = enableDomainSockets c"
proof (induction starts c rule: TryNextUri.induct)
  case (1 starts c)
  consider (over) "remainingAttempts c = 0 \<or> cpUris c = []"
    | (wrap) "remainingAttempts c \<noteq> 0" "cpUris c \<noteq> []" "uriIndex c \<ge> length (cpUris c)"
    | (next_uri) "remainingAttempts c \<noteq> 0" "cpUris c \<noteq> []" "uriIndex c < length (cpUris c)" by linarith
  then show ?case
  proof cases
    case over
    then show ?thesis by (subst (1 2 3 4 5 6 7 8 9) TryNextUri.simps) (auto simp: to_try_def HandleFailure_def)
  next
    case wrap
    let ?c = "c\<lparr>remainingAttempts := remainingAttempts c - 1, uriIndex := 0\<rparr>"
    have "TryNextUri starts c = TryNextUri starts ?c" using wrap by (subst TryNextUri.simps) simp
    moreover have "to_try starts c = to_try starts ?c"
      using wrap by (cases "remainingAttempts c - 1") (auto simp: to_try_def usable_def)
    ultimately show ?thesis using 1(1) wrap by (simp split: list.splits)
  next
    case next_uri
    let ?u = "cpUris c ! uriIndex c" and ?c = "c\<lparr>uriIndex := uriIndex c + 1\<rparr>"
    have d: "drop (uriIndex c) (cpUris c) = ?u # drop (uriIndex c + 1) (cpUris c)"
      using next_uri(3) by (simp add: Cons_nth_drop_Suc)
    show ?thesis
    proof (cases "usable starts c ?u")
      case True
      then have "TryNextUri starts c = ?c\<lparr>connector := Some ?u, tried := tried c @ [?u]\<rparr>"
        using next_uri by (subst TryNextUri.simps) (simp add: start_connector_usable Let_def)
      moreover have "to_try starts c = ?u # to_try starts (?c\<lparr>connector := Some ?u, tried := tried c @ [?u]\<rparr>)"
        using True next_uri d by (simp add: to_try_def)
      ultimately show ?thesis by simp
    next
      case False
      then have "TryNextUri starts c = TryNextUri starts ?c"
        using next_uri by (subst TryNextUri.simps) (simp add: start_connector_usable Let_def)
      moreover have "to_try starts c = to_try starts ?c"
        using False next_uri d by (simp add: to_try_def)
      ultimately show ?thesis
        using 1(2) [OF _ _ _ refl refl] next_uri False by (simp add: start_connector_usable split: list.splits)
    qed
  qed
qed

section \<open>The plan\<close>

text \<open>
  The abstract view: a plan of URIs is tried from its front until an answer is positive; what
  was tried, and what the listener is told. Without an answer the last attempt is pending.
\<close>

fun follow_plan :: "uri list \<Rightarrow> bool list \<Rightarrow> uri list \<times> connect_result list" where
  "follow_plan [] answers = ([], [ConnectPeerFailure])"
| "follow_plan (u # us) [] = ([u], [])"
| "follow_plan (u # us) (True # answers) = ([u], [ConnectPeerSuccess u])"
| "follow_plan (u # us) (False # answers) =
     (let (ts, rs) = follow_plan us answers in (u # ts, rs))"

definition connection_plan :: "(uri \<Rightarrow> bool) \<Rightarrow> nat \<Rightarrow> connect_peer \<Rightarrow> uri list" where
  "connection_plan starts n c = concat (replicate (max n 1) (filter (usable starts c) (cpUris c)))"

lemma answered_without_connector: "connector c = None \<Longrightarrow> answered starts answers c = c"
  by (cases answers) simp_all

lemma answered_plan:
  assumes "told c = []"
  shows "tried (answered starts answers (TryNextUri starts c)) = tried c @ fst (follow_plan (to_try starts c) answers) \<and>
    told (answered starts answers (TryNextUri starts c)) = snd (follow_plan (to_try starts c) answers)"
  using assms
proof (induction answers arbitrary: c)
  case Nil
  then show ?case using TryNextUri_to_try [of starts c] by (cases "to_try starts c") auto
next
  case (Cons a as)
  let ?d = "TryNextUri starts c"
  note step = TryNextUri_to_try [of starts c]
  show ?case
  proof (cases "to_try starts c")
    case Nil
    then have "connector ?d = None" using step by simp
    then have "answered starts (a # as) ?d = ?d" by (rule answered_without_connector)
    then show ?thesis using Nil step Cons.prems by simp
  next
    case (Cons u us)
    with step have d: "connector ?d = Some u" "tried ?d = tried c @ [u]" "told ?d = []" "to_try starts ?d = us"
      using \<open>told c = []\<close> by auto
    show ?thesis
    proof (cases a)
      case True
      then have "answered starts (a # as) ?d = HandleSuccess u ?d"
        using d answered_without_connector [of "HandleSuccess u ?d"]
        by (simp add: OnAsyncConnectSuccess_def) (simp add: HandleSuccess_def)
      then show ?thesis using True d Cons by (simp add: HandleSuccess_def)
    next
      case False
      let ?e = "?d\<lparr>connector := None\<rparr>"
      have "to_try starts ?e = to_try starts ?d" by (simp add: to_try_def)
      then have "to_try starts ?e = us" using d(4) by simp
      then show ?thesis
        using Cons.IH [of ?e] False d Cons by (simp add: OnAsyncConnectFailure_def split_beta)
    qed
  qed
qed

section \<open>Properties\<close>

text \<open>
  Claim C18. A connection attempt follows its plan: the usable URIs of the participant, local
  ones first, then IPv4, then IPv6 addresses, and the whole list as often as attempts were
  asked for; they are tried in this order until one connects, and the listener is told the
  outcome exactly once: success with that URI, or failure when the plan is used up.
\<close>

theorem connection_attempts_follow_the_plan:
  assumes "new_connect_peer resolve info domainSockets = Inr c"
  shows "(tried (answered starts answers (AsyncConnect starts n c)),
      told (answered starts answers (AsyncConnect starts n c))) = follow_plan (connection_plan starts n c) answers \<and>
    sorted (map ComputePenalty (filter (usable starts c) (cpUris c)))"
proof -
  have c: "tried c = []" "told c = []" "uriIndex c = 0" "cpUris c = UpdateUris resolve info"
    using assms by (auto simp: new_connect_peer_def split: if_splits)
  let ?c = "c\<lparr>remainingAttempts := max n 1\<rparr>"
  have "to_try starts ?c = connection_plan starts n c"
    using c by (cases "max n 1") (auto simp: to_try_def connection_plan_def)
  moreover have "sorted (map ComputePenalty (filter (usable starts c) (cpUris c)))"
    unfolding c(4) UpdateUris_def by (rule sorted_filter [OF sorted_sort_key])
  ultimately show ?thesis
    using answered_plan [of ?c starts answers] c by (simp add: AsyncConnect_def prod_eq_iff)
qed

theorem connection_attempts_follow_the_plan_witness:
  "let info = \<lparr>pi_participantName = ''P'', pi_participantId = 1, pi_acceptorUris = [''local:a'', ''local://x''],
       pi_capabilities = []\<rparr>;
     u = \<lparr>uriType = UriLocal, uriScheme = ''local'', uriHost = [], uriPort = None, uriPath = ''x'', uriString = ''local://x''\<rparr>;
     c = \<lparr>cpUris = [u], enableDomainSockets = True, remainingAttempts = 0, uriIndex = 0, connector = None,
        tried = [], told = []\<rparr>
   in (tried (answered (\<lambda>_. True) [False, True] (AsyncConnect (\<lambda>_. True) 3 c)),
       told (answered (\<lambda>_. True) [False, True] (AsyncConnect (\<lambda>_. True) 3 c))) = ([u, u], [ConnectPeerSuccess u]) \<and>
     sorted (map ComputePenalty [u])"
proof -
  let ?info = "\<lparr>pi_participantName = ''P'', pi_participantId = 1, pi_acceptorUris = [''local:a'', ''local://x''],
       pi_capabilities = []\<rparr>"
  let ?u = "\<lparr>uriType = UriLocal, uriScheme = ''local'', uriHost = [], uriPort = None, uriPath = ''x'',
      uriString = ''local://x''\<rparr>"
  let ?c = "\<lparr>cpUris = [?u], enableDomainSockets = True, remainingAttempts = 0, uriIndex = 0, connector = None,
        tried = [], told = []\<rparr>"
  have "new_connect_peer (\<lambda>_. Inr []) ?info True = Inr ?c"
    by (simp add: new_connect_peer_def UpdateUris_def resolve_uri_def Parse_def scheme_type_def Let_def)
  from connection_attempts_follow_the_plan [OF this, of "\<lambda>_. True" "[False, True]" 3] show ?thesis
    by (simp add: Let_def connection_plan_def usable_def numeral_3_eq_3)
qed

end
