(* ===== verification/VAsioConnection.thy ===== *)
theory VAsioConnection
  imports SilKitLink Handlers TransformAcceptorUris
begin

text \<open>
  The connection of a participant to its simulation (\<open>core/vasio/VAsioConnection.cpp\<close>,
  \<open>VAsioConnection.hpp\<close>): its state, how a message reaches a peer directly or through a
  proxy (\<open>VAsioProxyPeer.cpp\<close>), how services are registered on links, and the
  subscriptions that the other participants have to acknowledge.

  Peers and services are pointers in the code and numbers here; \<open>peerObjects\<close> is the memory
  in which the peers live, so that the use of a peer that was destroyed is visible: it
  raises \<open>DanglingPointer\<close>. What the connection does to its surroundings is its \<open>trace\<close>: the
  calls of the peers' streams, the deliveries to local services (what a service does in turn
  is posted to the I/O thread, so it is a step of its own), the handlers that are called.
  The user's part of the state, of which the connection knows nothing, is \<open>userState\<close>.
\<close>

section \<open>Capabilities\<close>

abbreviation ProxyMessageCapability :: string where
  "ProxyMessageCapability \<equiv> ''proxy-message''"

abbreviation RequestParticipantConnection :: string where
  "RequestParticipantConnection \<equiv> ''request-participant-connection-v2''"

abbreviation AutonomousSynchronous :: string where
  "AutonomousSynchronous \<equiv> ''autonomous-synchronous''"

text \<open>
  A set of names. \<open>ParseCapabilities\<close>, which reads the string as YAML, is the parameter
  \<open>parse\<close>: the value of \<open>name\<close> of every item, if it has one; whatever it throws becomes a
  \<open>TypeConversionError\<close>.
\<close>

definition HasCapability :: "string \<Rightarrow> string list \<Rightarrow> bool" where
  "HasCapability name caps \<longleftrightarrow> name \<in> set caps"

definition AddCapability :: "string \<Rightarrow> string list \<Rightarrow> string list" where
  "AddCapability name caps = List.insert name caps"

fun add_all_capabilities :: "string option list \<Rightarrow> string list \<Rightarrow> string list result" where
  "add_all_capabilities [] caps = Inr caps"
| "add_all_capabilities (None # items) caps = Inl TypeConversionError"
| "add_all_capabilities (Some name # items) caps = add_all_capabilities items (AddCapability name caps)"

definition ParseCapabilityString :: "(string \<Rightarrow> string option list option) \<Rightarrow> string \<Rightarrow> string list result" where
  "ParseCapabilityString parse s =
     (if s = [] then Inr []
      else case parse s of None \<Rightarrow> Inl TypeConversionError | Some items \<Rightarrow> add_all_capabilities items [])"

text \<open>\<open>std::quoted\<close>\<close>

definition quoted :: "string \<Rightarrow> string" where
  "quoted s = [CHR 0x22] @ concat (map (\<lambda>c. if c = CHR 0x22 \<or> c = CHR 0x5C then [CHR 0x5C, c] else [c]) s) @ [CHR 0x22]"

definition capability_item :: "string \<Rightarrow> string" where
  "capability_item name = ''{'' @ quoted ''name'' @ '':'' @ quoted name @ ''}''"

fun comma_separated :: "string list \<Rightarrow> string" where
  "comma_separated [] = []"
| "comma_separated [s] = s"
| "comma_separated (s # ss) = s @ '','' @ comma_separated ss"

definition ToCapabilitiesString :: "string list \<Rightarrow> string" where
  "ToCapabilitiesString caps =
     (if caps = [] then [] else ''['' @ comma_separated (map capability_item caps) @ '']'')"

definition MakeCapabilitiesFromConfiguration :: "bool \<Rightarrow> bool \<Rightarrow> string list" where
  "MakeCapabilitiesFromConfiguration registryAsFallbackProxy experimentalRemoteParticipantConnection =
     (let caps = AddCapability AutonomousSynchronous [];
          caps = (if registryAsFallbackProxy then AddCapability ProxyMessageCapability caps else caps)
      in if experimentalRemoteParticipantConnection then AddCapability RequestParticipantConnection caps else caps)"

section \<open>Peers\<close>

text \<open>\<open>Util::Hash::Hash\<close>: a \<open>char\<close> is signed where it is converted.\<close>

definition Hash :: "string \<Rightarrow> 64 word" where
  "Hash s = foldl (\<lambda>h c. push_bit 5 h + h + scast (of_char c :: 8 word)) 5381 s"

definition default_descriptor :: service_descriptor where
  "default_descriptor =
     \<lparr>sd_participantName = [], sd_participantId = 0, sd_serviceType = 0, sd_networkName = [], sd_networkType = 0,
      sd_serviceName = [], sd_serviceId = 0, sd_supplementalData = []\<rparr>"

definition SetParticipantNameAndComputeId :: "string \<Rightarrow> service_descriptor \<Rightarrow> service_descriptor" where
  "SetParticipantNameAndComputeId name d = d\<lparr>sd_participantId := Hash name, sd_participantName := name\<rparr>"

abbreviation simulationName_key :: string where
  "simulationName_key \<equiv> ''participant.simulationName''"

text \<open>
  The part of \<open>VAsioPeer\<close> and \<open>VAsioProxyPeer\<close> that the connection reads and writes.
  \<open>proxyOf\<close> is the peer that a proxy peer sends through (\<open>GetPeer\<close>). The addresses are those
  of the stream.
\<close>

record vasio_peer =
  peerInfo :: vasio_peer_info
  peerVersion :: protocol_version
  peerSimulation :: string
  peerDescriptor :: service_descriptor
  proxyOf :: "nat option"
  localAddress :: string
  remoteAddress :: string

definition SetSimulationName :: "string \<Rightarrow> vasio_peer \<Rightarrow> vasio_peer" where
  "SetSimulationName name q =
     (let q' = q\<lparr>peerSimulation := name\<rparr>
      in if proxyOf q \<noteq> None then q'
         else q'\<lparr>peerDescriptor := (peerDescriptor q')\<lparr>sd_supplementalData :=
                   AList.update simulationName_key name (sd_supplementalData (peerDescriptor q'))\<rparr>\<rparr>)"

section \<open>State\<close>

datatype connection_event =
    StreamSend nat aggregation_kind "byte list"
  | StreamStartRead nat
  | StreamAggregate nat
  | Delivered nat service_descriptor silkit_message
  | SubscriptionHandler nat
  | StartConnectingTo vasio_peer_info

type_synonym pending_ack = "nat \<times> vasio_msg_subscriber"

text \<open>
  A link is a shared pointer, which is null after a look at an unknown network. A receiver
  (\<open>VAsioReceiver\<close>) belongs to the link of its type and network. The map
  \<open>_serviceToLinkMap\<close> always holds the link of \<open>_links\<close> with the same key, so its keys are
  enough. The acceptors are their local endpoints.
\<close>

record 'u connection =
  participantName :: string
  participantId :: "64 word"
  simulationName :: string
  allowAnySimulationName :: bool
  capabilities :: "string list"
  version :: protocol_version
  acceptors :: "string list"
  links :: "((silkit_type \<times> string) \<times> silkit_link option) list"
  serviceToLink :: "(silkit_type \<times> string) list"
  vasioReceivers :: "(silkit_type \<times> vasio_msg_subscriber) list"
  uniqueReceiverIds :: "string list"
  peerObjects :: "(nat \<times> vasio_peer) list"
  nextPeer :: nat
  registryPeer :: "nat option"
  peers :: "nat list"
  participantNameToPeer :: "((string \<times> string) \<times> nat) list"
  peerToProxyPeers :: "(nat \<times> nat list) list"
  proxySourceToDestinations :: "((string \<times> string) \<times> string list) list"
  pendingAcks :: "pending_ack list"
  pendingAsyncAcks :: "pending_ack list"
  allAcked :: "unit promise"
  completionHandlers :: "nat handlers"
  hasPendingAsync :: bool
  aggregating :: bool
  shuttingDown :: bool
  registryHandshake :: "unit promise"
  startWaiting :: "unit promise"
  allHandshakes :: "unit promise"
  trace :: "connection_event list"
  userState :: 'u

text \<open>
  What the connection is given: the callbacks that were registered, the clock, the memory
  behind a received message, the values that the code does not initialize, two functions of
  the libraries, and the texts of the exceptions.
\<close>

record 'u environment =
  announcementReceivers :: "(nat \<Rightarrow> participant_announcement \<Rightarrow> 'u connection \<Rightarrow> 'u connection outcome) list"
  peerShutdownCallbacks :: "(nat \<Rightarrow> vasio_peer \<Rightarrow> 'u \<Rightarrow> 'u outcome) list"
  synchronizing :: "'u \<Rightarrow> bool"
  currentTime :: "'u \<Rightarrow> 64 word"
  memoryBehind :: "byte list"
  uninitializedId :: "64 word"
  uninitializedVersion :: protocol_version
  streamAddresses :: "nat \<Rightarrow> string \<times> string"
  parseCapabilities :: "string \<Rightarrow> string option list option"
  makeAddress :: "string \<Rightarrow> ip_address option"
  errorText :: "silkit_error \<Rightarrow> string"

definition new_connection :: "string \<Rightarrow> 64 word \<Rightarrow> string list \<Rightarrow> protocol_version \<Rightarrow> 'u \<Rightarrow> 'u connection" where
  "new_connection name pid caps v u =
     \<lparr>participantName = name, participantId = pid, simulationName = [], allowAnySimulationName = True,
      capabilities = caps, version = v, acceptors = [], links = [], serviceToLink = [], vasioReceivers = [],
      uniqueReceiverIds = [], peerObjects = [], nextPeer = 0, registryPeer = None, peers = [],
      participantNameToPeer = [], peerToProxyPeers = [], proxySourceToDestinations = [], pendingAcks = [],
      pendingAsyncAcks = [], allAcked = Unset, completionHandlers = no_handlers, hasPendingAsync = False,
      aggregating = False, shuttingDown = False, registryHandshake = Unset, startWaiting = Unset,
      allHandshakes = Unset, trace = [], userState = u\<rparr>"

abbreviation find_object :: "'u connection \<Rightarrow> nat \<Rightarrow> vasio_peer option" where
  "find_object c p \<equiv> map_of (peerObjects c) p"

definition put_object :: "nat \<Rightarrow> vasio_peer \<Rightarrow> 'u connection \<Rightarrow> 'u connection" where
  "put_object p q c = c\<lparr>peerObjects := AList.update p q (peerObjects c)\<rparr>"

definition emit :: "connection_event \<Rightarrow> 'u connection \<Rightarrow> 'u connection" where
  "emit e c = c\<lparr>trace := trace c @ [e]\<rparr>"

text \<open>Following a pointer to a peer.\<close>

definition with_peer :: "nat \<Rightarrow> 'u connection \<Rightarrow> (vasio_peer \<Rightarrow> 'u connection outcome) \<Rightarrow> 'u connection outcome" where
  "with_peer p c k = (case find_object c p of None \<Rightarrow> Raised DanglingPointer c | Some q \<Rightarrow> k q)"

definition update_peer :: "nat \<Rightarrow> (vasio_peer \<Rightarrow> vasio_peer) \<Rightarrow> 'u connection \<Rightarrow> 'u connection outcome" where
  "update_peer p f c = with_peer p c (\<lambda>q. Done (put_object p (f q) c))"

section \<open>Sending to a peer\<close>

text \<open>
  A proxy peer wraps the message and sends it to its peer. Its peer is older, so the chain
  ends; there is no case for a chain that does not.
\<close>

function SendSilKitMsgTo :: "nat \<Rightarrow> serialized_message \<Rightarrow> 'u connection \<Rightarrow> 'u connection outcome" where
  "SendSilKitMsgTo p m c =
     with_peer p c (\<lambda>q.
       case release m of
         Inl e \<Rightarrow> Raised e c
       | Inr blob \<Rightarrow>
           (case proxyOf q of
              None \<Rightarrow> Done (emit (StreamSend p (aggregationKindOf m) blob) c)
            | Some u \<Rightarrow>
                (case serialize CurrentProtocolVersion TypeProxyMessage (0, 0) 0 (put_ProxyMessage
                    \<lparr>pm_header = \<lparr>ph_version = 0\<rparr>, pm_source = participantName c,
                     pm_destination = pi_participantName (peerInfo q), pm_payload = blob\<rparr>) of
                   Inl e \<Rightarrow> Raised e c
                 | Inr m' \<Rightarrow>
                     if u < p then SendSilKitMsgTo u (m'\<lparr>aggregationKindOf := aggregationKindOf m\<rparr>) c
                     else OutOfFuel)))"
  by pat_completeness auto

termination SendSilKitMsgTo
  by (relation "measure (\<lambda>(p, m, c). p)") auto

declare SendSilKitMsgTo.simps [simp del]

text \<open>A message of the connection itself, written for version \<open>v\<close>.\<close>

definition send_to :: "nat \<Rightarrow> protocol_version \<Rightarrow> message_type \<Rightarrow> writer \<Rightarrow> 'u connection \<Rightarrow> 'u connection outcome" where
  "send_to p v type body c =
     (case serialize v type (0, 0) 0 body of Inl e \<Rightarrow> Raised e c | Inr m \<Rightarrow> SendSilKitMsgTo p m c)"

definition SubscribeAt :: "nat \<Rightarrow> vasio_msg_subscriber \<Rightarrow> 'u connection \<Rightarrow> 'u connection outcome" where
  "SubscribeAt p subscriber c =
     send_to p CurrentProtocolVersion TypeVAsioMsgSubscriber (put_VAsioMsgSubscriber subscriber) c"

section \<open>Links\<close>

definition GetLinkByName :: "silkit_type \<Rightarrow> string \<Rightarrow> 'u connection \<Rightarrow> silkit_link" where
  "GetLinkByName t name c =
     (case map_of (links c) (t, name) of Some (Some l) \<Rightarrow> l | _ \<Rightarrow> new_link t name)"

definition put_link :: "silkit_type \<Rightarrow> string \<Rightarrow> silkit_link \<Rightarrow> 'u connection \<Rightarrow> 'u connection" where
  "put_link t name l c = c\<lparr>links := AList.update (t, name) (Some l) (links c)\<rparr>"

definition exec_call :: "link_call \<Rightarrow> 'u connection \<Rightarrow> 'u connection outcome" where
  "exec_call x c =
     (case x of
        SendToPeer p msg address i \<Rightarrow>
          (case serialize CurrentProtocolVersion (envelope_type (type_of msg)) address i (put_message msg) of
             Inl e \<Rightarrow> Raised e c
           | Inr m \<Rightarrow> SendSilKitMsgTo p m c)
      | DeliverTo s d msg \<Rightarrow> Done (emit (Delivered s d msg) c))"

definition call_throws :: "'u connection \<Rightarrow> link_call \<Rightarrow> bool" where
  "call_throws c x = (case exec_call x c of Done _ \<Rightarrow> False | _ \<Rightarrow> True)"

text \<open>Calls whose exceptions reach the caller, and calls whose exceptions are caught; a
  dangling pointer is no exception.\<close>

fun exec_calls :: "link_call list \<Rightarrow> 'u connection \<Rightarrow> 'u connection outcome" where
  "exec_calls [] c = Done c"
| "exec_calls (x # xs) c = bind_outcome (exec_call x c) (exec_calls xs)"

fun exec_calls_catching :: "link_call list \<Rightarrow> 'u connection \<Rightarrow> 'u connection outcome" where
  "exec_calls_catching [] c = Done c"
| "exec_calls_catching (x # xs) c =
     (case exec_call x c of
        Raised e c' \<Rightarrow> if e = DanglingPointer then Raised e c' else exec_calls_catching xs c'
      | r \<Rightarrow> bind_outcome r (exec_calls_catching xs))"

definition SendMsgImpl :: "service_descriptor \<Rightarrow> silkit_message \<Rightarrow> 'u connection \<Rightarrow> 'u connection outcome" where
  "SendMsgImpl sender msg c =
     (let t = type_of msg; key = sd_networkName sender
      in if (t, key) \<notin> set (serviceToLink c) then Raised SilKitError c
         else let (xs, l) = DistributeLocalSilKitMessage (call_throws c) sender msg (GetLinkByName t key c)
              in exec_calls_catching xs (put_link t key l c))"

text \<open>A dangling receiver that is looked at on the way to the target is no exception either.\<close>

definition peer_info :: "'u connection \<Rightarrow> nat \<Rightarrow> vasio_peer_info" where
  "peer_info c p = (case find_object c p of Some q \<Rightarrow> peerInfo q
     | None \<Rightarrow> \<lparr>pi_participantName = [], pi_participantId = 0, pi_acceptorUris = [], pi_capabilities = []\<rparr>)"

fun scan_dangles :: "'u connection \<Rightarrow> (vasio_peer_info \<Rightarrow> bool) \<Rightarrow> remote_receiver list \<Rightarrow> bool" where
  "scan_dangles c found [] = False"
| "scan_dangles c found (r # rs) =
     (case find_object c (receiverPeer r) of
        None \<Rightarrow> True
      | Some q \<Rightarrow> \<not> found (peerInfo q) \<and> scan_dangles c found rs)"

definition SendMsgToTargetImpl :: "service_descriptor \<Rightarrow> string \<Rightarrow> silkit_message \<Rightarrow> 'u connection
    \<Rightarrow> 'u connection outcome" where
  "SendMsgToTargetImpl sender target msg c =
     (let t = type_of msg; key = sd_networkName sender; l = GetLinkByName t key c
      in if target = [] then Raised SilKitError c
         else if (t, key) \<notin> set (serviceToLink c) then Raised SilKitError c
         else if sd_participantName sender \<noteq> target \<and>
           scan_dangles c (\<lambda>info. pi_participantName info = target) (remoteReceivers l) then Raised DanglingPointer c
         else case DispatchSilKitMessageToTarget (peer_info c) sender target msg l of
           (Inl e, l') \<Rightarrow> Raised e (put_link t key l' c)
         | (Inr xs, l') \<Rightarrow> exec_calls xs (put_link t key l' c))"

text \<open>
  The types with the name on the wire are asked until one has receivers. Looking for a link
  with \<open>operator[]\<close> leaves a null pointer where there was none.
\<close>

fun touch_links :: "(silkit_link \<Rightarrow> bool) \<Rightarrow> silkit_type list \<Rightarrow> string \<Rightarrow> 'u connection \<Rightarrow> silkit_link option \<times> 'u connection" where
  "touch_links found [] name c = (None, c)"
| "touch_links found (t # ts) name c =
     (case map_of (links c) (t, name) of
        Some (Some l) \<Rightarrow> if found l then (Some l, c) else touch_links found ts name c
      | Some None \<Rightarrow> touch_links found ts name c
      | None \<Rightarrow> touch_links found ts name (c\<lparr>links := links c @ [((t, name), None)]\<rparr>))"

definition subscribed_types :: "string \<Rightarrow> silkit_type list" where
  "subscribed_types name = filter (\<lambda>t. SerdesName t = name) SilKitMessageTypes"

definition GetNumberOfRemoteReceiversOf :: "service_descriptor \<Rightarrow> string \<Rightarrow> 'u connection \<Rightarrow> nat \<times> 'u connection" where
  "GetNumberOfRemoteReceiversOf d msgTypeName c =
     (let (l, c') = touch_links (\<lambda>l. GetNumberOfRemoteReceivers l \<noteq> 0) (subscribed_types msgTypeName) (sd_networkName d) c
      in (case l of None \<Rightarrow> 0 | Some l \<Rightarrow> GetNumberOfRemoteReceivers l, c'))"

definition GetParticipantNamesOfRemoteReceiversOf :: "service_descriptor \<Rightarrow> string \<Rightarrow> 'u connection
    \<Rightarrow> string list \<times> 'u connection" where
  "GetParticipantNamesOfRemoteReceiversOf d msgTypeName c =
     (let (l, c') = touch_links (\<lambda>l. GetParticipantNamesOfRemoteReceivers (peer_info c) l \<noteq> [])
            (subscribed_types msgTypeName) (sd_networkName d) c
      in (case l of None \<Rightarrow> [] | Some l \<Rightarrow> GetParticipantNamesOfRemoteReceivers (peer_info c) l, c'))"

definition SetHistoryLengthForLink :: "nat \<Rightarrow> service_descriptor \<Rightarrow> silkit_type list \<Rightarrow> 'u connection \<Rightarrow> 'u connection" where
  "SetHistoryLengthForLink n d sends c =
     fold (\<lambda>t c. put_link t (sd_networkName d) (SetHistoryLength n (GetLinkByName t (sd_networkName d) c)) c) sends c"

section \<open>Registering a service\<close>

text \<open>
  What the templates read off a service's class: the types it receives and sends, and whether
  it is registered from the I/O thread.
\<close>

record silkit_service =
  serviceNumber :: nat
  serviceDescriptor :: service_descriptor
  receivesTypes :: "silkit_type list"
  sendsTypes :: "silkit_type list"
  asyncRegistration :: bool

definition SyncSubscriptionsCompleted :: "'u connection \<Rightarrow> 'u connection outcome" where
  "SyncSubscriptionsCompleted c =
     (case set_value () (allAcked c) of
        Inl e \<Rightarrow> Raised e c
      | Inr p \<Rightarrow> Done (c\<lparr>allAcked := p\<rparr>))"

definition AsyncSubscriptionsCompleted :: "'u connection \<Rightarrow> 'u connection outcome" where
  "AsyncSubscriptionsCompleted c =
     Done (c\<lparr>trace := trace c @ map SubscriptionHandler (InvokeAll (completionHandlers c)),
             completionHandlers := ClearHandlers (completionHandlers c), hasPendingAsync := False\<rparr>)"

definition AddAsyncSubscriptionsCompletionHandler :: "nat \<Rightarrow> 'u connection \<Rightarrow> 'u connection" where
  "AddAsyncSubscriptionsCompletionHandler h c =
     (if hasPendingAsync c then c\<lparr>completionHandlers := snd (AddHandler h (completionHandlers c))\<rparr>
      else emit (SubscriptionHandler h) c)"

definition add_pending :: "bool \<Rightarrow> pending_ack \<Rightarrow> 'u connection \<Rightarrow> 'u connection" where
  "add_pending async ack c =
     (if async then c\<lparr>pendingAsyncAcks := pendingAsyncAcks c @ [ack]\<rparr>
      else c\<lparr>pendingAcks := pendingAcks c @ [ack]\<rparr>)"

fun subscribe_all :: "bool \<Rightarrow> vasio_msg_subscriber \<Rightarrow> nat list \<Rightarrow> 'u connection \<Rightarrow> 'u connection outcome" where
  "subscribe_all async subscriber [] c = Done c"
| "subscribe_all async subscriber (p # ps) c =
     bind_outcome (SubscribeAt p subscriber (add_pending async (p, subscriber) c)) (subscribe_all async subscriber ps)"

definition RegisterSilKitMsgReceiver :: "silkit_service \<Rightarrow> silkit_type \<Rightarrow> 'u connection \<Rightarrow> 'u connection outcome" where
  "RegisterSilKitMsgReceiver s t c =
     (let name = sd_networkName (serviceDescriptor s);
          l = AddLocalReceiver \<lparr>receiverService = serviceNumber s, receiverDescriptor = serviceDescriptor s\<rparr>
                (GetLinkByName t name c);
          c = put_link t name l c;
          uniqueReceiverId = name @ ''/'' @ SerdesName t
      in if uniqueReceiverId \<in> set (uniqueReceiverIds c) then Done c
         else let subscriptionInfo = \<lparr>ms_receiverIdx = of_nat (length (vasioReceivers c)), ms_networkName = name,
                    ms_msgTypeName = SerdesName t, ms_version = Version t\<rparr>
              in subscribe_all (asyncRegistration s) subscriptionInfo (peers c)
                   (c\<lparr>uniqueReceiverIds := uniqueReceiverIds c @ [uniqueReceiverId],
                      vasioReceivers := vasioReceivers c @ [(t, subscriptionInfo)]\<rparr>))"

definition RegisterSilKitMsgSender :: "string \<Rightarrow> silkit_type \<Rightarrow> 'u connection \<Rightarrow> 'u connection" where
  "RegisterSilKitMsgSender name t c =
     (let c = put_link t name (GetLinkByName t name c) c
      in c\<lparr>serviceToLink := List.insert (t, name) (serviceToLink c)\<rparr>)"

fun register_receivers :: "silkit_service \<Rightarrow> silkit_type list \<Rightarrow> 'u connection \<Rightarrow> 'u connection outcome" where
  "register_receivers s [] c = Done c"
| "register_receivers s (t # ts) c = bind_outcome (RegisterSilKitMsgReceiver s t c) (register_receivers s ts)"

definition RegisterSilKitServiceImpl :: "silkit_service \<Rightarrow> 'u connection \<Rightarrow> 'u connection outcome" where
  "RegisterSilKitServiceImpl s c =
     bind_outcome (register_receivers s (receivesTypes s) c) (\<lambda>c.
       let c = fold (RegisterSilKitMsgSender (sd_networkName (serviceDescriptor s))) (sendsTypes s) c
       in if \<not> asyncRegistration s
          then (if pendingAcks c = [] then SyncSubscriptionsCompleted c else Done c)
          else (if pendingAsyncAcks c = [] then AsyncSubscriptionsCompleted c else Done c))"

text \<open>
  The part of \<open>RegisterSilKitService\<close> that runs in the caller's thread, before the
  registration is posted to the I/O thread; afterwards a synchronous caller waits for
  \<open>allAcked\<close>.
\<close>

definition BeginRegistration :: "silkit_service \<Rightarrow> 'u connection \<Rightarrow> 'u connection outcome" where
  "BeginRegistration s c =
     (if \<not> asyncRegistration s
      then (if pendingAcks c \<noteq> [] then Raised AssertionError c else Done (c\<lparr>allAcked := Unset\<rparr>))
      else Done (c\<lparr>hasPendingAsync := True\<rparr>))"

section \<open>Subscriptions\<close>

text \<open>\<open>operator==\<close> of subscribers does not look at the version.\<close>

definition same_subscriber :: "vasio_msg_subscriber \<Rightarrow> vasio_msg_subscriber \<Rightarrow> bool" where
  "same_subscriber s s' \<longleftrightarrow>
     ms_receiverIdx s = ms_receiverIdx s' \<and> ms_networkName s = ms_networkName s' \<and> ms_msgTypeName s = ms_msgTypeName s'"

definition same_ack :: "pending_ack \<Rightarrow> pending_ack \<Rightarrow> bool" where
  "same_ack a b \<longleftrightarrow> fst a = fst b \<and> same_subscriber (snd a) (snd b)"

text \<open>The end of both ways in which pending acknowledges are removed.\<close>

definition settle_sync :: "pending_ack list \<Rightarrow> 'u connection \<Rightarrow> 'u connection outcome" where
  "settle_sync remaining c =
     (if length remaining = length (pendingAcks c) then Done c
      else let c = c\<lparr>pendingAcks := remaining\<rparr>
           in if remaining = [] then SyncSubscriptionsCompleted c else Done c)"

definition settle_async :: "pending_ack list \<Rightarrow> 'u connection \<Rightarrow> 'u connection outcome" where
  "settle_async remaining c =
     (if length remaining = length (pendingAsyncAcks c) then Done c
      else let c = c\<lparr>pendingAsyncAcks := remaining\<rparr>
           in if remaining = [] then AsyncSubscriptionsCompleted c else Done c)"

definition RemovePendingSubscription :: "pending_ack \<Rightarrow> 'u connection \<Rightarrow> 'u connection outcome" where
  "RemovePendingSubscription ack c =
     bind_outcome (settle_sync (remove_first (same_ack ack) (pendingAcks c)) c) (\<lambda>c.
     settle_async (remove_first (same_ack ack) (pendingAsyncAcks c)) c)"

definition RemovePeerFromPendingAcknowledges :: "nat \<Rightarrow> 'u connection \<Rightarrow> 'u connection outcome" where
  "RemovePeerFromPendingAcknowledges p c =
     bind_outcome (settle_sync (filter (\<lambda>a. fst a \<noteq> p) (pendingAcks c)) c) (\<lambda>c.
     settle_async (filter (\<lambda>a. fst a \<noteq> p) (pendingAsyncAcks c)) c)"

definition AddRemoteReceiverTo :: "nat \<Rightarrow> vasio_msg_subscriber \<Rightarrow> silkit_type \<Rightarrow> 'u connection \<Rightarrow> 'u connection outcome" where
  "AddRemoteReceiverTo p subscriber t c =
     (let (xs, l) = AddRemoteReceiver p (ms_receiverIdx subscriber) (GetLinkByName t (ms_networkName subscriber) c)
      in exec_calls xs (put_link t (ms_networkName subscriber) l c))"

text \<open>All types that share the name on the wire.\<close>

fun add_to_links :: "nat \<Rightarrow> vasio_msg_subscriber \<Rightarrow> silkit_type list \<Rightarrow> 'u connection \<Rightarrow> 'u connection outcome" where
  "add_to_links p subscriber [] c = Done c"
| "add_to_links p subscriber (t # ts) c =
     bind_outcome (AddRemoteReceiverTo p subscriber t c) (add_to_links p subscriber ts)"

definition TryAddRemoteSubscriber :: "nat \<Rightarrow> vasio_msg_subscriber \<Rightarrow> 'u connection \<Rightarrow> 'u connection outcome" where
  "TryAddRemoteSubscriber p subscriber c =
     with_peer p c (\<lambda>q. add_to_links p subscriber (subscribed_types (ms_msgTypeName subscriber)) c)"

definition wasAdded :: "vasio_msg_subscriber \<Rightarrow> bool" where
  "wasAdded subscriber \<longleftrightarrow> subscribed_types (ms_msgTypeName subscriber) \<noteq> []"

text \<open>The version of the last type with the name whose version is not newer; 0 when there is none.\<close>

definition getVersionForSerdes :: "string \<Rightarrow> 32 word \<Rightarrow> 32 word" where
  "getVersionForSerdes name remoteVersion =
     fold (\<lambda>t v. if SerdesName t = name \<and> Version t \<le> remoteVersion then Version t else v) SilKitMessageTypes 0"

abbreviation ack_Failed :: "8 word" where "ack_Failed \<equiv> 0"
abbreviation ack_Success :: "8 word" where "ack_Success \<equiv> 1"

definition ReceiveSubscriptionAnnouncement :: "nat \<Rightarrow> serialized_message \<Rightarrow> 'u connection \<Rightarrow> 'u connection outcome" where
  "ReceiveSubscriptionAnnouncement p m c =
     (case Deserialize get_VAsioMsgSubscriber m of
        Inl e \<Rightarrow> Raised e c
      | Inr subscriber \<Rightarrow>
          bind_outcome (TryAddRemoteSubscriber p subscriber c) (\<lambda>c.
            let myMessageVersion = getVersionForSerdes (ms_msgTypeName subscriber) (ms_version subscriber);
                subscriber' = (if myMessageVersion = 0 then subscriber else subscriber\<lparr>ms_version := myMessageVersion\<rparr>)
            in with_peer p c (\<lambda>q.
                 send_to p (peerVersion q) TypeSubscriptionAcknowledge (put_SubscriptionAcknowledge
                   \<lparr>sa_status = (if wasAdded subscriber then ack_Success else ack_Failed), sa_subscriber = subscriber'\<rparr>) c)))"

definition ReceiveSubscriptionAcknowledge :: "nat \<Rightarrow> serialized_message \<Rightarrow> 'u connection \<Rightarrow> 'u connection outcome" where
  "ReceiveSubscriptionAcknowledge p m c =
     (case Deserialize get_SubscriptionAcknowledge m of
        Inl e \<Rightarrow> Raised e c
      | Inr ack \<Rightarrow>
          if sa_status ack \<noteq> ack_Success \<and> find_object c p = None then Raised DanglingPointer c
          else RemovePendingSubscription (p, sa_subscriber ack) c)"

section \<open>Receiving a message of a service\<close>

definition ReceiveRawMsg :: "'u environment \<Rightarrow> silkit_type \<times> vasio_msg_subscriber \<Rightarrow> service_descriptor
    \<Rightarrow> serialized_message \<Rightarrow> 'u connection \<Rightarrow> 'u connection outcome" where
  "ReceiveRawMsg env r d m c =
     (case Deserialize (get_message (fst r)) m of
        Inl e \<Rightarrow> Raised e c
      | Inr msg \<Rightarrow> exec_calls_catching
          (DistributeRemoteSilKitMessage (synchronizing env (userState c)) (currentTime env (userState c)) d msg
             (GetLinkByName (fst r) (ms_networkName (snd r)) c)) c)"

definition ReceiveRawSilKitMessage :: "'u environment \<Rightarrow> nat \<Rightarrow> serialized_message \<Rightarrow> 'u connection \<Rightarrow> 'u connection outcome" where
  "ReceiveRawSilKitMessage env p m c =
     (case GetRemoteIndex m of
        Inl e \<Rightarrow> Raised e c
      | Inr i \<Rightarrow>
          if unat i \<ge> length (vasioReceivers c) then Done c
          else case GetEndpointAddress m of
            Inl e \<Rightarrow> Raised e c
          | Inr address \<Rightarrow>
              with_peer p c (\<lambda>q.
                ReceiveRawMsg env (vasioReceivers c ! unat i) ((peerDescriptor q)\<lparr>sd_serviceId := snd address\<rparr>) m c))"

section \<open>What the operations leave alone\<close>

text \<open>The parts of the state that sending, the links, and the subscriptions do not belong to.\<close>

definition ignores_trace :: "('u connection \<Rightarrow> 'a) \<Rightarrow> bool" where
  "ignores_trace f \<longleftrightarrow> (\<forall>c x. f (c\<lparr>trace := x\<rparr>) = f c)"

definition ignores_links :: "('u connection \<Rightarrow> 'a) \<Rightarrow> bool" where
  "ignores_links f \<longleftrightarrow> ignores_trace f \<and> (\<forall>c x. f (c\<lparr>links := x\<rparr>) = f c)"

definition ignores_acks :: "('u connection \<Rightarrow> 'a) \<Rightarrow> bool" where
  "ignores_acks f \<longleftrightarrow> ignores_trace f \<and> (\<forall>c x. f (c\<lparr>pendingAcks := x\<rparr>) = f c) \<and>
     (\<forall>c x. f (c\<lparr>pendingAsyncAcks := x\<rparr>) = f c) \<and> (\<forall>c x. f (c\<lparr>allAcked := x\<rparr>) = f c) \<and>
     (\<forall>c x. f (c\<lparr>completionHandlers := x\<rparr>) = f c) \<and> (\<forall>c x. f (c\<lparr>hasPendingAsync := x\<rparr>) = f c)"

definition ignores_objects :: "('u connection \<Rightarrow> 'a) \<Rightarrow> bool" where
  "ignores_objects f \<longleftrightarrow> (\<forall>c x. f (c\<lparr>peerObjects := x\<rparr>) = f c)"

definition ignores_registration :: "('u connection \<Rightarrow> 'a) \<Rightarrow> bool" where
  "ignores_registration f \<longleftrightarrow> ignores_links f \<and> ignores_acks f \<and> (\<forall>c x. f (c\<lparr>serviceToLink := x\<rparr>) = f c) \<and>
     (\<forall>c x. f (c\<lparr>vasioReceivers := x\<rparr>) = f c) \<and> (\<forall>c x. f (c\<lparr>uniqueReceiverIds := x\<rparr>) = f c)"

lemmas ignores_defs = ignores_trace_def ignores_links_def ignores_acks_def ignores_objects_def ignores_registration_def

lemma emit_same [simp]: "ignores_trace f \<Longrightarrow> f (emit e c) = f c"
  by (simp add: ignores_trace_def emit_def)

lemma put_object_same [simp]: "ignores_objects f \<Longrightarrow> f (put_object p q c) = f c"
  by (simp add: ignores_objects_def put_object_def)

lemma put_link_same [simp]: "ignores_links f \<Longrightarrow> f (put_link t name l c) = f c"
  by (simp add: ignores_links_def put_link_def)

lemma leaves_with_peer: "(\<And>q. find_object c p = Some q \<Longrightarrow> leaves f c (k q)) \<Longrightarrow> leaves f c (with_peer p c k)"
  by (simp add: with_peer_def split: option.split)

lemma leaves_update_peer: "ignores_objects f \<Longrightarrow> leaves f c (update_peer p g c)"
  by (auto simp: update_peer_def intro!: leaves_with_peer)

lemma SendSilKitMsgTo_leaves: "ignores_trace f \<Longrightarrow> leaves f c (SendSilKitMsgTo p m c)"
proof (induction p m c rule: SendSilKitMsgTo.induct)
  case (1 p m c)
  show ?case
    by (subst SendSilKitMsgTo.simps, rule leaves_with_peer) (auto simp: 1 split: sum.split option.split)
qed

lemma send_to_leaves: "ignores_trace f \<Longrightarrow> leaves f c (send_to p v type body c)"
  by (simp add: send_to_def SendSilKitMsgTo_leaves split: sum.split)

lemma SubscribeAt_leaves: "ignores_trace f \<Longrightarrow> leaves f c (SubscribeAt p s c)"
  by (simp add: SubscribeAt_def send_to_leaves)

lemma exec_call_leaves: "ignores_trace f \<Longrightarrow> leaves f c (exec_call x c)"
  by (simp add: exec_call_def SendSilKitMsgTo_leaves split: link_call.split sum.split)

lemma exec_calls_leaves: "ignores_trace f \<Longrightarrow> leaves f c (exec_calls xs c)"
proof (induction xs arbitrary: c)
  case (Cons x xs)
  then show ?case by (auto intro!: leaves_bind exec_call_leaves)
qed simp

lemma exec_calls_catching_leaves: "ignores_trace f \<Longrightarrow> leaves f c (exec_calls_catching xs c)"
proof (induction xs arbitrary: c)
  case (Cons x xs)
  have "leaves f c (exec_call x c)" using Cons.prems by (rule exec_call_leaves)
  moreover have "leaves f c (exec_calls_catching xs c')" if "f c' = f c" for c'
    using Cons.IH [OF Cons.prems, of c'] that by (simp add: leaves_def)
  ultimately show ?case by (cases "exec_call x c") auto
qed simp

lemma SendMsgImpl_leaves: "ignores_links f \<Longrightarrow> leaves f c (SendMsgImpl d msg c)"
  using exec_calls_catching_leaves [of f "put_link t n l c" for t n l c]
  by (fastforce simp: SendMsgImpl_def Let_def leaves_def ignores_links_def put_link_def split: prod.split)

lemma SendMsgToTargetImpl_leaves: "ignores_links f \<Longrightarrow> leaves f c (SendMsgToTargetImpl d target msg c)"
  using exec_calls_leaves [of f "put_link t n l c" for t n l c]
  by (fastforce simp: SendMsgToTargetImpl_def Let_def leaves_def ignores_links_def put_link_def split: prod.split sum.split)

lemma AddRemoteReceiverTo_leaves: "ignores_links f \<Longrightarrow> leaves f c (AddRemoteReceiverTo p s t c)"
  using exec_calls_leaves [of f "put_link t n l c" for t n l c]
  by (fastforce simp: AddRemoteReceiverTo_def Let_def leaves_def ignores_links_def put_link_def split: prod.split)

lemma add_to_links_leaves: "ignores_links f \<Longrightarrow> leaves f c (add_to_links p s ts c)"
proof (induction ts arbitrary: c)
  case (Cons t ts)
  then show ?case by (auto intro!: leaves_bind AddRemoteReceiverTo_leaves)
qed simp

lemma TryAddRemoteSubscriber_leaves: "ignores_links f \<Longrightarrow> leaves f c (TryAddRemoteSubscriber p s c)"
  by (auto simp: TryAddRemoteSubscriber_def intro!: leaves_with_peer add_to_links_leaves)

lemma SyncSubscriptionsCompleted_leaves: "ignores_acks f \<Longrightarrow> leaves f c (SyncSubscriptionsCompleted c)"
  by (simp add: SyncSubscriptionsCompleted_def ignores_acks_def split: sum.split)

lemma AsyncSubscriptionsCompleted_same: "ignores_acks f \<Longrightarrow> leaves f c (AsyncSubscriptionsCompleted c)"
proof -
  assume f: "ignores_acks f"
  then have "f (c\<lparr>trace := t, completionHandlers := h, hasPendingAsync := b\<rparr>) = f c" for t h b
    by (auto simp: ignores_acks_def ignores_trace_def)
  then show ?thesis by (simp add: AsyncSubscriptionsCompleted_def)
qed

lemma settle_sync_leaves: "ignores_acks f \<Longrightarrow> leaves f c (settle_sync r c)"
  using SyncSubscriptionsCompleted_leaves [of f "c\<lparr>pendingAcks := r\<rparr>"]
  by (auto simp: settle_sync_def Let_def leaves_def ignores_acks_def)

lemma settle_async_leaves: "ignores_acks f \<Longrightarrow> leaves f c (settle_async r c)"
  using AsyncSubscriptionsCompleted_same [of f "c\<lparr>pendingAsyncAcks := r\<rparr>"]
  by (auto simp: settle_async_def Let_def leaves_def ignores_acks_def)

lemma RemovePendingSubscription_leaves: "ignores_acks f \<Longrightarrow> leaves f c (RemovePendingSubscription a c)"
  unfolding RemovePendingSubscription_def by (intro leaves_bind settle_sync_leaves settle_async_leaves)

lemma RemovePeerFromPendingAcknowledges_leaves: "ignores_acks f \<Longrightarrow> leaves f c (RemovePeerFromPendingAcknowledges p c)"
  unfolding RemovePeerFromPendingAcknowledges_def by (intro leaves_bind settle_sync_leaves settle_async_leaves)

lemma ReceiveSubscriptionAnnouncement_leaves: "ignores_links f \<Longrightarrow> leaves f c (ReceiveSubscriptionAnnouncement p m c)"
  by (auto simp: ReceiveSubscriptionAnnouncement_def Let_def ignores_links_def split: sum.split
      intro!: leaves_bind TryAddRemoteSubscriber_leaves leaves_with_peer send_to_leaves)

lemma ReceiveSubscriptionAcknowledge_leaves: "ignores_acks f \<Longrightarrow> leaves f c (ReceiveSubscriptionAcknowledge p m c)"
  by (auto simp: ReceiveSubscriptionAcknowledge_def RemovePendingSubscription_leaves split: sum.split)

lemma ReceiveRawSilKitMessage_leaves: "ignores_trace f \<Longrightarrow> leaves f c (ReceiveRawSilKitMessage env p m c)"
  by (auto simp: ReceiveRawSilKitMessage_def ReceiveRawMsg_def split: sum.split
      intro!: leaves_with_peer exec_calls_catching_leaves)

lemma subscribe_all_leaves: "ignores_acks f \<Longrightarrow> leaves f c (subscribe_all async s ps c)"
proof (induction ps arbitrary: c)
  case (Cons p ps)
  have "f (add_pending async (p, s) c) = f c" using Cons.prems by (simp add: add_pending_def ignores_acks_def)
  then have "leaves f c (SubscribeAt p s (add_pending async (p, s) c))"
    using SubscribeAt_leaves [of f "add_pending async (p, s) c" p s] Cons.prems by (simp add: leaves_def ignores_acks_def)
  then show ?case using Cons by (auto intro!: leaves_bind)
qed simp

lemma RegisterSilKitMsgReceiver_leaves:
  assumes "ignores_registration f"
  shows "leaves f c (RegisterSilKitMsgReceiver s t c)"
proof -
  have "ignores_acks f" using assms by (simp add: ignores_registration_def)
  note sub = subscribe_all_leaves [OF this]
  have "f ((put_link t n l c)\<lparr>uniqueReceiverIds := x, vasioReceivers := y\<rparr>) = f c" for n l x y
    using assms by (simp add: ignores_registration_def)
  moreover have "f (put_link t n l c) = f c" for n l using assms by (simp add: ignores_registration_def)
  ultimately show ?thesis
    using sub by (auto simp: RegisterSilKitMsgReceiver_def Let_def leaves_def)
qed

lemma register_receivers_leaves: "ignores_registration f \<Longrightarrow> leaves f c (register_receivers s ts c)"
proof (induction ts arbitrary: c)
  case (Cons t ts)
  then show ?case by (auto intro!: leaves_bind RegisterSilKitMsgReceiver_leaves)
qed simp

lemma RegisterSilKitMsgSender_same: "ignores_registration f \<Longrightarrow> f (RegisterSilKitMsgSender n t c) = f c"
  by (simp add: RegisterSilKitMsgSender_def Let_def ignores_registration_def)

lemma fold_senders_same: "ignores_registration f \<Longrightarrow> f (fold (RegisterSilKitMsgSender n) ts c) = f c"
  by (induction ts arbitrary: c) (simp_all add: RegisterSilKitMsgSender_same)

lemma RegisterSilKitServiceImpl_leaves:
  fixes f :: "'u connection \<Rightarrow> 'a"
  assumes "ignores_registration f"
  shows "leaves f c (RegisterSilKitServiceImpl s c)"
  unfolding RegisterSilKitServiceImpl_def
proof (rule leaves_bind)
  fix c' :: "'u connection"
  let ?c = "fold (RegisterSilKitMsgSender (sd_networkName (serviceDescriptor s))) (sendsTypes s) c'"
  have "f ?c = f c'" using assms by (rule fold_senders_same)
  moreover have "leaves f ?c (SyncSubscriptionsCompleted ?c)" "leaves f ?c (AsyncSubscriptionsCompleted ?c)"
    using assms SyncSubscriptionsCompleted_leaves AsyncSubscriptionsCompleted_same by (auto simp: ignores_registration_def)
  ultimately show "leaves f c' (let c = ?c in if \<not> asyncRegistration s
      then (if pendingAcks c = [] then SyncSubscriptionsCompleted c else Done c)
      else (if pendingAsyncAcks c = [] then AsyncSubscriptionsCompleted c else Done c))"
    by (simp add: leaves_def Let_def)
qed (rule register_receivers_leaves [OF assms])

end
