(* ===== verification/ConnectKnownParticipants.thy ===== *)
theory ConnectKnownParticipants
  imports VAsioSerdes
begin

text \<open>
  How a participant that joins connects to those that are there already
  (\<open>core/vasio/ConnectKnownParticipants.cpp\<close>): one state machine per known participant, which
  tries a direct connection, then asks the other side to connect, then falls back to the
  registry as a proxy; and the stage of them all, which the thread that joins waits for.

  The connection is an interface: its methods are the record \<open>'s connection_methods\<close> over a
  state \<open>'s\<close> of which this component knows nothing. What comes from outside (the outcome of
  a connection attempt, the expiry of a timer, a message of the other side) is a step. The
  code starts all peers on one thread while the first of them may already answer on another;
  here starting them is one step.
\<close>

section \<open>State\<close>

datatype peer_stage =
    StageInvalid
  | StageFailure
  | StageDirect
  | StageRemoteConnectRequested
  | StageRemoteIsConnecting
  | StageWaitingForReply
  | StageReplyReceived

text \<open>The values of the enumeration, which the code compares.\<close>

fun stage_number :: "peer_stage \<Rightarrow> nat" where
  "stage_number StageInvalid = 0"
| "stage_number StageFailure = 1"
| "stage_number StageDirect = 2"
| "stage_number StageRemoteConnectRequested = 3"
| "stage_number StageRemoteIsConnecting = 4"
| "stage_number StageWaitingForReply = 5"
| "stage_number StageReplyReceived = 6"

datatype connect_stage =
    ConnectInvalid
  | Connecting
  | WaitingForAllReplies
  | AllRepliesReceived
  | ConnectFailure

datatype peer_event =
    RemoteParticipantIsConnecting
  | RemoteParticipantFailedToConnect
  | RemoteParticipantAnnouncement
  | ParticipantAnnouncementReply

text \<open>Whether there is a connection attempt and whether the timer runs.\<close>

record connecting_peer =
  ckInfo :: vasio_peer_info
  peerStage :: peer_stage
  directConnectPeer :: bool
  remoteConnectRequestTimer :: bool
  failureReason :: string

record 's connect_known =
  connectStage :: connect_stage
  connectingPeers :: "(string \<times> connecting_peer) list"
  knownParticipantsPromise :: "vasio_peer_info list promise"
  outer :: 's

definition new_connect_known :: "'s \<Rightarrow> 's connect_known" where
  "new_connect_known s =
     \<lparr>connectStage = ConnectInvalid, connectingPeers = [], knownParticipantsPromise = Unset, outer = s\<rparr>"

definition new_connecting_peer :: "vasio_peer_info \<Rightarrow> connecting_peer" where
  "new_connecting_peer info =
     \<lparr>ckInfo = info, peerStage = StageInvalid, directConnectPeer = False, remoteConnectRequestTimer = False,
      failureReason = []\<rparr>"

section \<open>The methods of the connection\<close>

text \<open>
  \<open>IConnectionMethods\<close> and \<open>IConnectKnownParticipantsListener\<close>. \<open>makeVAsioPeer\<close> makes the
  peer of a new stream and sets its information.
\<close>

record 's connection_methods =
  makeVAsioPeer :: "vasio_peer_info \<Rightarrow> 's \<Rightarrow> nat \<times> 's"
  handleConnectedPeer :: "nat \<Rightarrow> 's \<Rightarrow> 's outcome"
  addPeer :: "nat \<Rightarrow> 's \<Rightarrow> 's outcome"
  tryRemoteConnectRequest :: "vasio_peer_info \<Rightarrow> 's \<Rightarrow> bool result \<times> 's"
  tryProxyConnect :: "vasio_peer_info \<Rightarrow> 's \<Rightarrow> bool result \<times> 's"
  onFailure :: "'s \<Rightarrow> 's"
  onWaitingForAllReplies :: "'s \<Rightarrow> 's"
  onAllRepliesReceived :: "'s \<Rightarrow> 's"

definition on_outer :: "('s \<Rightarrow> 's outcome) \<Rightarrow> 's connect_known \<Rightarrow> 's connect_known outcome" where
  "on_outer f c =
     (case f (outer c) of
        Done s \<Rightarrow> Done (c\<lparr>outer := s\<rparr>)
      | Raised e s \<Rightarrow> Raised e (c\<lparr>outer := s\<rparr>)
      | OutOfFuel \<Rightarrow> OutOfFuel)"

definition set_peer :: "string \<Rightarrow> connecting_peer \<Rightarrow> 's connect_known \<Rightarrow> 's connect_known" where
  "set_peer n p c = c\<lparr>connectingPeers := AList.update n p (connectingPeers c)\<rparr>"

abbreviation find_peer :: "'s connect_known \<Rightarrow> string \<Rightarrow> connecting_peer option" where
  "find_peer c n \<equiv> map_of (connectingPeers c) n"

section \<open>The stage of all peers\<close>

definition all_at_least :: "peer_stage \<Rightarrow> 's connect_known \<Rightarrow> bool" where
  "all_at_least st c \<longleftrightarrow> list_all (\<lambda>(n, p). stage_number (peerStage p) \<ge> stage_number st) (connectingPeers c)"

definition any_failed :: "'s connect_known \<Rightarrow> bool" where
  "any_failed c \<longleftrightarrow> list_ex (\<lambda>(n, p). peerStage p = StageFailure) (connectingPeers c)"

definition UpdateStage :: "'s connection_methods \<Rightarrow> 's connect_known \<Rightarrow> 's connect_known" where
  "UpdateStage env c =
     (if connectStage c = ConnectInvalid then c
      else if connectStage c = AllRepliesReceived \<or> connectStage c = ConnectFailure then c
      else if any_failed c then c\<lparr>connectStage := ConnectFailure, outer := onFailure env (outer c)\<rparr>
      else
        let c1 = (if connectStage c = Connecting \<and> all_at_least StageWaitingForReply c
                  then c\<lparr>connectStage := WaitingForAllReplies, outer := onWaitingForAllReplies env (outer c)\<rparr>
                  else c)
        in if connectStage c1 = WaitingForAllReplies \<and> all_at_least StageReplyReceived c1
           then c1\<lparr>connectStage := AllRepliesReceived, outer := onAllRepliesReceived env (outer c1)\<rparr>
           else c1)"

section \<open>One peer\<close>

definition HasFailed :: "'s connection_methods \<Rightarrow> string \<Rightarrow> connecting_peer \<Rightarrow> string \<Rightarrow> 's connect_known \<Rightarrow> 's connect_known" where
  "HasFailed env n p reason c =
     UpdateStage env (set_peer n (p\<lparr>failureReason := '' '' @ reason, peerStage := StageFailure\<rparr>) c)"

text \<open>
  The end of three handlers: the peer waits for a reply through the proxy, or has failed.
\<close>

definition fall_back_to_proxy :: "'s connection_methods \<Rightarrow> string \<Rightarrow> connecting_peer \<Rightarrow> string \<Rightarrow> 's connect_known
    \<Rightarrow> 's connect_known outcome" where
  "fall_back_to_proxy env n p reason c =
     (let p = p\<lparr>peerStage := StageWaitingForReply\<rparr>; c = set_peer n p c
      in case tryProxyConnect env (ckInfo p) (outer c) of
           (Inl e, s) \<Rightarrow> Raised e (c\<lparr>outer := s\<rparr>)
         | (Inr True, s) \<Rightarrow> Done (UpdateStage env (c\<lparr>outer := s\<rparr>))
         | (Inr False, s) \<Rightarrow> Done (HasFailed env n p reason (c\<lparr>outer := s\<rparr>)))"

definition OnConnectPeerSuccess :: "'s connection_methods \<Rightarrow> string \<Rightarrow> connecting_peer \<Rightarrow> 's connect_known
    \<Rightarrow> 's connect_known outcome" where
  "OnConnectPeerSuccess env n p c =
     (let (q, s) = makeVAsioPeer env (ckInfo p) (outer c);
          p = p\<lparr>directConnectPeer := False, peerStage := StageWaitingForReply\<rparr>
      in bind_outcome (on_outer (handleConnectedPeer env q) (set_peer n p (c\<lparr>outer := s\<rparr>))) (\<lambda>c.
         bind_outcome (on_outer (addPeer env q) c) (\<lambda>c.
         Done (UpdateStage env c))))"

definition OnConnectPeerFailure :: "'s connection_methods \<Rightarrow> string \<Rightarrow> connecting_peer \<Rightarrow> 's connect_known
    \<Rightarrow> 's connect_known outcome" where
  "OnConnectPeerFailure env n p c =
     (let p = p\<lparr>directConnectPeer := False, peerStage := StageRemoteConnectRequested\<rparr>; c = set_peer n p c
      in case tryRemoteConnectRequest env (ckInfo p) (outer c) of
           (Inl e, s) \<Rightarrow> Raised e (c\<lparr>outer := s\<rparr>)
         | (Inr True, s) \<Rightarrow>
             Done (UpdateStage env (set_peer n (p\<lparr>remoteConnectRequestTimer := True\<rparr>) (c\<lparr>outer := s\<rparr>)))
         | (Inr False, s) \<Rightarrow>
             fall_back_to_proxy env n p
               ''because direct connection failed, and both remote-connect, as well as proxy-connection are not available''
               (c\<lparr>outer := s\<rparr>))"

text \<open>The timer fires once.\<close>

definition OnTimerExpired :: "'s connection_methods \<Rightarrow> string \<Rightarrow> connecting_peer \<Rightarrow> 's connect_known
    \<Rightarrow> 's connect_known outcome" where
  "OnTimerExpired env n p c =
     (let p = p\<lparr>remoteConnectRequestTimer := False\<rparr>; c = set_peer n p c
      in if peerStage p \<noteq> StageRemoteConnectRequested then Done c
         else fall_back_to_proxy env n p
                ''because direct connection failed, remote connections timed out, and proxy-connection is not available''
                c)"

definition HandleEvent :: "'s connection_methods \<Rightarrow> string \<Rightarrow> connecting_peer \<Rightarrow> peer_event \<Rightarrow> 's connect_known
    \<Rightarrow> 's connect_known outcome" where
  "HandleEvent env n p event c =
     (case event of
        RemoteParticipantIsConnecting \<Rightarrow>
          if peerStage p \<noteq> StageRemoteConnectRequested then Done c
          else Done (UpdateStage env (set_peer n (p\<lparr>peerStage := StageRemoteIsConnecting\<rparr>) c))
      | RemoteParticipantFailedToConnect \<Rightarrow>
          if peerStage p \<noteq> StageRemoteConnectRequested \<and> peerStage p \<noteq> StageRemoteIsConnecting then Done c
          else fall_back_to_proxy env n p
                 ''because direct connection failed, the remote was unable to connect, and proxy-connection is not available''
                 c
      | RemoteParticipantAnnouncement \<Rightarrow>
          if peerStage p \<noteq> StageRemoteConnectRequested \<and> peerStage p \<noteq> StageRemoteIsConnecting then Done c
          else Done (UpdateStage env (set_peer n (p\<lparr>peerStage := StageWaitingForReply\<rparr>) c))
      | ParticipantAnnouncementReply \<Rightarrow>
          if peerStage p \<noteq> StageWaitingForReply then Done c
          else Done (UpdateStage env (set_peer n (p\<lparr>peerStage := StageReplyReceived\<rparr>) c)))"

section \<open>All peers\<close>

definition SetKnownParticipants :: "vasio_peer_info list \<Rightarrow> 's connect_known \<Rightarrow> 's connect_known outcome" where
  "SetKnownParticipants infos c =
     (case set_value infos (knownParticipantsPromise c) of
        Inl e \<Rightarrow> Raised e c
      | Inr p \<Rightarrow> Done (c\<lparr>knownParticipantsPromise := p\<rparr>))"

text \<open>\<open>std::unordered_map::emplace\<close> keeps the entry of a key that is there.\<close>

fun emplace_peers :: "vasio_peer_info list \<Rightarrow> (string \<times> connecting_peer) list \<Rightarrow> (string \<times> connecting_peer) list" where
  "emplace_peers [] ps = ps"
| "emplace_peers (info # infos) ps =
     emplace_peers infos
       (if map_of ps (pi_participantName info) = None
        then ps @ [(pi_participantName info, new_connecting_peer info)] else ps)"

definition start_peer :: "connecting_peer \<Rightarrow> connecting_peer" where
  "start_peer p = p\<lparr>peerStage := StageDirect, directConnectPeer := True\<rparr>"

text \<open>The thread blocks until the known participants are set: it has no result before.\<close>

definition StartConnecting :: "'s connection_methods \<Rightarrow> 's connect_known \<Rightarrow> 's connect_known outcome option" where
  "StartConnecting env c =
     (if connectStage c \<noteq> ConnectInvalid then Some (Raised AssertionError c)
      else case knownParticipantsPromise c of
        Unset \<Rightarrow> None
      | Broken e \<Rightarrow> Some (Raised e (c\<lparr>connectStage := Connecting\<rparr>))
      | Fulfilled infos \<Rightarrow>
          Some (Done (UpdateStage env
            (c\<lparr>connectStage := Connecting,
               connectingPeers := map (map_prod id start_peer) (emplace_peers infos (connectingPeers c))\<rparr>))))"

definition HandlePeerEvent :: "'s connection_methods \<Rightarrow> string \<Rightarrow> peer_event \<Rightarrow> 's connect_known
    \<Rightarrow> 's connect_known outcome" where
  "HandlePeerEvent env n event c =
     (case find_peer c n of
        None \<Rightarrow> Done c
      | Some p \<Rightarrow> HandleEvent env n p event c)"

section \<open>Describe\<close>

fun join_strings :: "string \<Rightarrow> string list \<Rightarrow> string" where
  "join_strings sep [] = []"
| "join_strings sep [s] = s"
| "join_strings sep (s # ss) = s @ sep @ join_strings sep ss"

fun describe_stage :: "string \<Rightarrow> peer_stage \<Rightarrow> string" where
  "describe_stage reason StageInvalid = ''has not started connecting''"
| "describe_stage reason StageFailure = ''has failed'' @ reason"
| "describe_stage reason StageDirect = ''is connecting directly''"
| "describe_stage reason StageRemoteConnectRequested = ''has requested remote connection''"
| "describe_stage reason StageRemoteIsConnecting = ''is connecting remotely''"
| "describe_stage reason StageWaitingForReply = ''is waiting for reply''"
| "describe_stage reason StageReplyReceived = ''is connected''"

definition describe_peer :: "connecting_peer \<Rightarrow> string" where
  "describe_peer p =
     pi_participantName (ckInfo p) @ '' ('' @ join_strings '', '' (pi_acceptorUris (ckInfo p)) @ '') '' @
     describe_stage (failureReason p) (peerStage p)"

definition Describe :: "'s connect_known \<Rightarrow> string" where
  "Describe c =
     (if connectingPeers c = [] then ''no participants''
      else join_strings ''; '' (map (\<lambda>(n, p). describe_peer p) (connectingPeers c)))"

section \<open>Steps\<close>

text \<open>\<open>rest\<close> is what the rest of the program does to its own state in between.\<close>

inductive connect_step :: "'s connection_methods \<Rightarrow> ('s \<Rightarrow> 's \<Rightarrow> bool) \<Rightarrow> 's connect_known \<Rightarrow> 's connect_known \<Rightarrow> bool"
  for env rest where
  known: "state_after (SetKnownParticipants infos c) = Some c' \<Longrightarrow> connect_step env rest c c'"
| start: "StartConnecting env c = Some out \<Longrightarrow> state_after out = Some c' \<Longrightarrow> connect_step env rest c c'"
| connected: "find_peer c n = Some p \<Longrightarrow> directConnectPeer p \<Longrightarrow>
    state_after (OnConnectPeerSuccess env n p c) = Some c' \<Longrightarrow> connect_step env rest c c'"
| refused: "find_peer c n = Some p \<Longrightarrow> directConnectPeer p \<Longrightarrow>
    state_after (OnConnectPeerFailure env n p c) = Some c' \<Longrightarrow> connect_step env rest c c'"
| expired: "find_peer c n = Some p \<Longrightarrow> remoteConnectRequestTimer p \<Longrightarrow>
    state_after (OnTimerExpired env n p c) = Some c' \<Longrightarrow> connect_step env rest c c'"
| event: "state_after (HandlePeerEvent env n event c) = Some c' \<Longrightarrow> connect_step env rest c c'"
| outside: "rest (outer c) s \<Longrightarrow> connect_step env rest c (c\<lparr>outer := s\<rparr>)"

section \<open>The invariant of the stages\<close>

text \<open>What the stage says about the peers.\<close>

definition stage_ok :: "'s connect_known \<Rightarrow> bool" where
  "stage_ok c \<longleftrightarrow>
     (case connectStage c of
        ConnectInvalid \<Rightarrow> connectingPeers c = []
      | Connecting \<Rightarrow> \<not> any_failed c \<and> \<not> all_at_least StageReplyReceived c
      | WaitingForAllReplies \<Rightarrow> all_at_least StageWaitingForReply c \<and> \<not> all_at_least StageReplyReceived c
      | AllRepliesReceived \<Rightarrow> all_at_least StageReplyReceived c
      | ConnectFailure \<Rightarrow> any_failed c)"

text \<open>What it still says in the middle of a handler, before \<open>UpdateStage\<close> is called.\<close>

definition stage_old :: "'s connect_known \<Rightarrow> bool" where
  "stage_old c \<longleftrightarrow>
     (case connectStage c of
        ConnectInvalid \<Rightarrow> connectingPeers c = []
      | Connecting \<Rightarrow> True
      | WaitingForAllReplies \<Rightarrow> all_at_least StageWaitingForReply c
      | AllRepliesReceived \<Rightarrow> all_at_least StageReplyReceived c
      | ConnectFailure \<Rightarrow> any_failed c)"

definition peers_ok :: "'s connect_known \<Rightarrow> bool" where
  "peers_ok c \<longleftrightarrow> distinct (map fst (connectingPeers c)) \<and>
     list_all (\<lambda>(n, p). peerStage p \<noteq> StageInvalid \<and> directConnectPeer p = (peerStage p = StageDirect)) (connectingPeers c)"

lemma stage_ok_old: "stage_ok c \<Longrightarrow> stage_old c"
  by (auto simp: stage_ok_def stage_old_def split: connect_stage.splits)

lemma set_peer_fields [simp]:
  "connectStage (set_peer n p c) = connectStage c" "outer (set_peer n p c) = outer c"
  "knownParticipantsPromise (set_peer n p c) = knownParticipantsPromise c"
  "find_peer (set_peer n p c) n = Some p"
  by (simp_all add: set_peer_def)

lemma update_update [simp]: "AList.update k v (AList.update k v' al) = AList.update k v al"
  by (induction al) auto

lemma set_peer_set_peer [simp]: "set_peer n p (set_peer n q c) = set_peer n p c"
  by (simp add: set_peer_def)

lemma set_peer_outer [simp]: "set_peer n p (c\<lparr>outer := s\<rparr>) = (set_peer n p c)\<lparr>outer := s\<rparr>"
  by (simp add: set_peer_def)

lemma same_outer: "c\<lparr>outer := outer c\<rparr> = c"
  by simp

lemma stage_pred_outer [simp]:
  "any_failed (c\<lparr>outer := s\<rparr>) = any_failed c" "all_at_least st (c\<lparr>outer := s\<rparr>) = all_at_least st c"
  "stage_old (c\<lparr>outer := s\<rparr>) = stage_old c" "stage_ok (c\<lparr>outer := s\<rparr>) = stage_ok c"
  "peers_ok (c\<lparr>outer := s\<rparr>) = peers_ok c"
  by (simp_all add: any_failed_def all_at_least_def stage_old_def stage_ok_def peers_ok_def split: connect_stage.splits)

lemma stage_pred_stage [simp]:
  "any_failed (c\<lparr>connectStage := st\<rparr>) = any_failed c" "all_at_least x (c\<lparr>connectStage := st\<rparr>) = all_at_least x c"
  by (simp_all add: any_failed_def all_at_least_def)

lemma all_at_least_set_peer:
  assumes "all_at_least st c" "stage_number (peerStage p) \<ge> stage_number st"
  shows "all_at_least st (set_peer n p c)"
proof -
  have "list_all P (AList.update n p al)" if "list_all P al" "P (n, p)" for P and al :: "(string \<times> connecting_peer) list"
    using that by (induction al) auto
  then show ?thesis using assms by (simp add: all_at_least_def set_peer_def)
qed

lemma not_all_at_least:
  assumes "find_peer c n = Some p" "stage_number (peerStage p) < stage_number st"
  shows "\<not> all_at_least st c"
  using map_of_SomeD [OF assms(1)] assms(2) by (force simp: all_at_least_def list_all_iff)

lemma all_at_least_mono: "all_at_least a c \<Longrightarrow> stage_number b \<le> stage_number a \<Longrightarrow> all_at_least b c"
  by (force simp: all_at_least_def list_all_iff)

lemma all_at_least_not_failed: "all_at_least st c \<Longrightarrow> 2 \<le> stage_number st \<Longrightarrow> \<not> any_failed c"
  by (force simp: all_at_least_def any_failed_def list_all_iff list_ex_iff)

lemma any_failed_set_peer:
  assumes "distinct (map fst (connectingPeers c))"
  shows "any_failed (set_peer n p c) \<longleftrightarrow>
    peerStage p = StageFailure \<or> (\<exists>(m, q)\<in>set (connectingPeers c). m \<noteq> n \<and> peerStage q = StageFailure)"
  using assms by (auto simp: any_failed_def set_peer_def list_ex_iff in_set_update_iff)

lemma peers_ok_set_peer:
  assumes "peers_ok c" "peerStage p \<noteq> StageInvalid" "directConnectPeer p = (peerStage p = StageDirect)"
  shows "peers_ok (set_peer n p c)"
  using assms by (auto simp: peers_ok_def set_peer_def list_all_iff in_set_update_iff)

lemma peers_okD:
  assumes "peers_ok c" "find_peer c n = Some p"
  shows "directConnectPeer p = (peerStage p = StageDirect)" "peerStage p \<noteq> StageInvalid"
  using map_of_SomeD [OF assms(2)] assms(1) by (auto simp: peers_ok_def list_all_iff)

text \<open>A peer goes from a stage to a later one, or fails before it waits for a reply.\<close>

definition advances :: "peer_stage \<Rightarrow> peer_stage \<Rightarrow> bool" where
  "advances a b \<longleftrightarrow> a \<noteq> StageFailure \<and>
     (stage_number a < stage_number b \<or> b = StageFailure \<and> stage_number a < stage_number StageWaitingForReply)"

lemma stage_old_advance:
  assumes "peers_ok c" "stage_old c" "find_peer c n = Some p" "advances (peerStage p) (peerStage p')"
  shows "stage_old (set_peer n p' c)"
proof -
  have d: "distinct (map fst (connectingPeers c))" using assms(1) by (simp add: peers_ok_def)
  have p: "(n, p) \<in> set (connectingPeers c)" using assms(3) by (rule map_of_SomeD)
  have in_order: "stage_number (peerStage p) < stage_number (peerStage p')"
    if "stage_number (peerStage p) \<ge> stage_number StageWaitingForReply"
    using assms(4) that by (auto simp: advances_def)
  have least: "stage_number (peerStage p) \<ge> stage_number st" if "all_at_least st c" for st
    using p that by (auto simp: all_at_least_def list_all_iff)
  have le6: "stage_number (peerStage p') \<le> 6" by (cases "peerStage p'") simp_all
  show ?thesis
  proof (cases "connectStage c")
    case ConnectInvalid
    then show ?thesis using assms(2) p by (simp add: stage_old_def)
  next
    case WaitingForAllReplies
    then have a: "all_at_least StageWaitingForReply c" using assms(2) by (simp add: stage_old_def)
    from all_at_least_set_peer [OF a] show ?thesis
      using in_order least [OF a] WaitingForAllReplies by (simp add: stage_old_def)
  next
    case AllRepliesReceived
    then have "all_at_least StageReplyReceived c" using assms(2) by (simp add: stage_old_def)
    from least [OF this] show ?thesis using in_order le6 by simp
  next
    case ConnectFailure
    then have "any_failed c" using assms(2) by (simp add: stage_old_def)
    then obtain m q where "(m, q) \<in> set (connectingPeers c)" "peerStage q = StageFailure"
      by (auto simp: any_failed_def list_ex_iff)
    moreover from this have "m \<noteq> n"
      using assms(3,4) map_of_is_SomeI [OF d] by (force simp: advances_def)
    ultimately have "any_failed (set_peer n p' c)" using any_failed_set_peer [OF d] by blast
    then show ?thesis using ConnectFailure by (simp add: stage_old_def)
  qed (simp add: stage_old_def)
qed

lemma UpdateStage_frame [simp]:
  "connectingPeers (UpdateStage env c) = connectingPeers c"
  "knownParticipantsPromise (UpdateStage env c) = knownParticipantsPromise c"
  "peers_ok (UpdateStage env c) = peers_ok c"
  by (simp_all add: UpdateStage_def Let_def peers_ok_def)

lemma UpdateStage_ok: "stage_old c \<Longrightarrow> stage_ok (UpdateStage env c)"
  using all_at_least_mono [of StageReplyReceived c StageWaitingForReply]
  by (auto simp: UpdateStage_def stage_old_def stage_ok_def Let_def split: connect_stage.splits)

lemma stage_ok_advance:
  assumes "peers_ok c" "stage_ok c" "find_peer c n = Some p" "advances (peerStage p) (peerStage p')"
    and "peerStage p' \<noteq> StageFailure" "peerStage p' \<noteq> StageReplyReceived"
  shows "stage_ok (set_peer n p' c)"
proof -
  have "stage_number (peerStage p') < stage_number StageReplyReceived"
    using assms(6) by (cases "peerStage p'") simp_all
  then have "\<not> all_at_least StageReplyReceived (set_peer n p' c)"
    using not_all_at_least [of "set_peer n p' c" n p'] by simp
  moreover have "any_failed (set_peer n p' c) \<Longrightarrow> any_failed c"
    using any_failed_set_peer [of c n p'] assms(1,5) by (auto simp: peers_ok_def any_failed_def list_ex_iff)
  moreover have "stage_old (set_peer n p' c)"
    using stage_old_advance [OF assms(1) stage_ok_old [OF assms(2)] assms(3,4)] .
  ultimately show ?thesis using assms(2) by (auto simp: stage_ok_def stage_old_def split: connect_stage.splits)
qed

lemma stages_update:
  assumes "map_of al n = Some p" "peerStage p' = peerStage p"
  shows "map (peerStage \<circ> snd) (AList.update n p' al) = map (peerStage \<circ> snd) al"
  using assms by (induction al) (auto split: if_splits)

lemma all_at_least_stages:
  "all_at_least st c = list_all (\<lambda>x. stage_number x \<ge> stage_number st) (map (peerStage \<circ> snd) (connectingPeers c))"
  by (simp add: all_at_least_def list_all_iff split_beta)

lemma any_failed_stages: "any_failed c \<longleftrightarrow> StageFailure \<in> set (map (peerStage \<circ> snd) (connectingPeers c))"
  by (force simp: any_failed_def list_ex_iff)

lemma stage_ok_same:
  assumes "find_peer c n = Some p" "peerStage p' = peerStage p"
  shows "stage_ok (set_peer n p' c) = stage_ok c"
proof -
  note st = stages_update [OF assms]
  have "any_failed (set_peer n p' c) = any_failed c"
    unfolding any_failed_stages using st by (simp add: set_peer_def)
  moreover have "all_at_least st (set_peer n p' c) = all_at_least st c" for st
    unfolding all_at_least_stages using st by (simp add: set_peer_def)
  moreover have "connectingPeers (set_peer n p' c) \<noteq> []" "connectingPeers c \<noteq> []"
    using assms(1) by (auto simp: set_peer_def)
  ultimately show ?thesis by (simp add: stage_ok_def split: connect_stage.splits)
qed

lemma emplace_peers_keys:
  "distinct (map fst ps) \<Longrightarrow> distinct (map fst (emplace_peers infos ps))"
  by (induction infos arbitrary: ps) (auto simp: map_of_eq_None_iff)

section \<open>Progress\<close>

text \<open>How far a peer has come: its reply and its failure are the end.\<close>

definition progress :: "peer_stage \<Rightarrow> nat" where
  "progress st = (if st = StageFailure then 6 else stage_number st)"

definition remaining :: "'s connect_known \<Rightarrow> nat" where
  "remaining c = sum_list (map (\<lambda>st. 6 - progress st) (map (peerStage \<circ> snd) (connectingPeers c)))"

definition stages_of :: "'s connect_known \<Rightarrow> peer_stage list" where
  "stages_of c = map (peerStage \<circ> snd) (connectingPeers c)"

text \<open>One peer moves on, or none.\<close>

definition moves :: "'s connect_known \<Rightarrow> 's connect_known \<Rightarrow> bool" where
  "moves c c' \<longleftrightarrow> connectingPeers c' = connectingPeers c \<or>
     (\<exists>n p p'. find_peer c n = Some p \<and> connectingPeers c' = AList.update n p' (connectingPeers c) \<and>
        (peerStage p' = peerStage p \<or> advances (peerStage p) (peerStage p')))"

lemma advances_progress: "advances a b \<Longrightarrow> progress a < progress b \<and> progress b \<le> 6"
  by (cases a; cases b) (simp_all add: advances_def progress_def)

lemma remaining_update:
  assumes "map_of al n = Some p" "advances (peerStage p) (peerStage p')"
  shows "sum_list (map (\<lambda>st. 6 - progress st) (map (peerStage \<circ> snd) (AList.update n p' al)))
    < sum_list (map (\<lambda>st. 6 - progress st) (map (peerStage \<circ> snd) al))"
  using assms(1)
proof (induction al)
  case (Cons x al)
  then show ?case using advances_progress [OF assms(2)] by (auto split: if_splits)
qed simp

lemma moves_remaining:
  assumes "moves c c'" "stages_of c' \<noteq> stages_of c"
  shows "remaining c' < remaining c"
  using assms stages_update remaining_update unfolding moves_def remaining_def stages_of_def by metis

lemma moves_refl [simp]: "moves c c"
  by (simp add: moves_def)

lemma moves_set_peer:
  assumes "find_peer c n = Some p" "connectingPeers c' = connectingPeers (set_peer n p' c)"
    and "peerStage p' = peerStage p \<or> advances (peerStage p) (peerStage p')"
  shows "moves c c'"
  using assms unfolding moves_def by (auto simp: set_peer_def)

lemma moves_fall_back:
  assumes "find_peer c n = Some p" "peerStage p \<in> {StageDirect, StageRemoteConnectRequested, StageRemoteIsConnecting}"
    and "state_after (fall_back_to_proxy env n q reason c'') = Some c'"
    and "connectingPeers c'' = connectingPeers c \<or> connectingPeers c'' = connectingPeers (set_peer n p'' c)"
  shows "moves c c'"
proof -
  obtain p' where "connectingPeers c' = connectingPeers (set_peer n p' c'')"
    "peerStage p' \<in> {StageWaitingForReply, StageFailure}"
    using assms(3) that by (auto simp: fall_back_to_proxy_def HasFailed_def Let_def split: prod.splits sum.splits bool.splits)
  moreover have "connectingPeers (set_peer n p' c'') = connectingPeers (set_peer n p' c)" for p'
    using assms(4) by (auto simp: set_peer_def)
  moreover have "advances (peerStage p) StageWaitingForReply" "advances (peerStage p) StageFailure"
    using assms(2) by (auto simp: advances_def)
  ultimately show ?thesis using moves_set_peer [OF assms(1), of c' p'] by auto
qed

lemma moves_event:
  assumes "state_after (HandlePeerEvent env n event c) = Some c'"
  shows "moves c c'"
proof (cases "find_peer c n")
  case None
  then show ?thesis using assms by (simp add: HandlePeerEvent_def moves_def)
next
  case (Some p)
  note proxied = moves_fall_back [OF Some]
  have step: "moves c (UpdateStage env (set_peer n p' c))" if "advances (peerStage p) (peerStage p')" for p'
    using that by (intro moves_set_peer [OF Some, of _ p']) simp_all
  show ?thesis
    using assms Some proxied [of env p _ c c' p]
    by (cases event)
      (auto simp: HandlePeerEvent_def HandleEvent_def advances_def intro!: step split: if_splits)
qed

lemma UpdateStage_started: "connectStage c \<noteq> ConnectInvalid \<Longrightarrow> connectStage (UpdateStage env c) \<noteq> ConnectInvalid"
  by (simp add: UpdateStage_def Let_def)

lemma fall_back_started:
  "state_after (fall_back_to_proxy env n p reason c) = Some c' \<Longrightarrow> connectStage c \<noteq> ConnectInvalid \<Longrightarrow>
    connectStage c' \<noteq> ConnectInvalid"
  by (auto simp: fall_back_to_proxy_def HasFailed_def Let_def intro!: UpdateStage_started
      split: prod.splits sum.splits bool.splits)

lemma on_outer_stage: "state_after (on_outer f c) = Some c' \<Longrightarrow> connectStage c' = connectStage c"
  by (auto simp: on_outer_def split: outcome.splits)

lemma step_started:
  assumes "connect_step env rest c c'" "connectStage c \<noteq> ConnectInvalid"
  shows "connectStage c' \<noteq> ConnectInvalid"
  using assms
proof (induction rule: connect_step.induct)
  case (known infos c c')
  then show ?case by (auto simp: SetKnownParticipants_def split: sum.splits)
next
  case (start c out c')
  then show ?case by (auto simp: StartConnecting_def)
next
  case (connected c n p c')
  then show ?case
    by (auto simp: OnConnectPeerSuccess_def on_outer_def Let_def intro!: UpdateStage_started
        split: prod.splits outcome.splits)
next
  case (refused c n p c')
  then show ?case
    by (auto simp: OnConnectPeerFailure_def Let_def intro!: UpdateStage_started elim!: fall_back_started
        split: prod.splits sum.splits bool.splits)
next
  case (expired c n p c')
  then show ?case by (auto simp: OnTimerExpired_def Let_def elim!: fall_back_started split: if_splits)
next
  case (event n ev c c')
  then show ?case
    by (cases ev) (auto simp: HandlePeerEvent_def HandleEvent_def intro!: UpdateStage_started elim!: fall_back_started
        split: option.splits if_splits)
qed simp

section \<open>What the one who waits is told\<close>

text \<open>
  The two promises that \<open>JoinSimulation\<close> waits for (\<open>_startWaitingForParticipantHandshakes\<close>,
  \<open>_allKnownParticipantHandshakesComplete\<close>), in every stage.
\<close>

fun stage_promises :: "connect_stage \<Rightarrow> unit promise \<times> unit promise" where
  "stage_promises ConnectInvalid = (Unset, Unset)"
| "stage_promises Connecting = (Unset, Unset)"
| "stage_promises WaitingForAllReplies = (Fulfilled (), Unset)"
| "stage_promises AllRepliesReceived = (Fulfilled (), Fulfilled ())"
| "stage_promises ConnectFailure = (Broken ProtocolError, Broken ProtocolError)"

definition connect_inv :: "('s \<Rightarrow> unit promise \<times> unit promise) \<Rightarrow> 's connect_known \<Rightarrow> bool" where
  "connect_inv promises c \<longleftrightarrow>
     peers_ok c \<and> stage_ok c \<and> promises (outer c) = stage_promises (connectStage c) \<and>
     (\<forall>e. knownParticipantsPromise c \<noteq> Broken e)"

text \<open>
  What this component relies on: no method touches the promises but the three calls of the
  listener, which set them; a promise that is set stays as it is.
\<close>

locale connection_laws =
  fixes env :: "'s connection_methods"
    and promises :: "'s \<Rightarrow> unit promise \<times> unit promise"
    and rest :: "'s \<Rightarrow> 's \<Rightarrow> bool"
  assumes make: "promises (snd (makeVAsioPeer env info s)) = promises s"
    and handle: "state_after (handleConnectedPeer env q s) = Some s' \<Longrightarrow> promises s' = promises s"
    and add: "state_after (addPeer env q s) = Some s' \<Longrightarrow> promises s' = promises s"
    and remote: "promises (snd (tryRemoteConnectRequest env info s)) = promises s"
    and proxy: "promises (snd (tryProxyConnect env info s)) = promises s"
    and failure: "promises (onFailure env s) = map_prod (\<lambda>p. try_set (set_exception ProtocolError p) p)
        (\<lambda>p. try_set (set_exception ProtocolError p) p) (promises s)"
    and waiting: "promises (onWaitingForAllReplies env s) = map_prod (\<lambda>p. try_set (set_value () p) p) id (promises s)"
    and replies: "promises (onAllRepliesReceived env s) = map_prod id (\<lambda>p. try_set (set_value () p) p) (promises s)"
    and rest_promises: "rest s s' \<Longrightarrow> promises s' = promises s"
begin

lemma UpdateStage_promises:
  assumes "stage_old c" "promises (outer c) = stage_promises (connectStage c)"
  shows "promises (outer (UpdateStage env c)) = stage_promises (connectStage (UpdateStage env c))"
proof (cases "connectStage c")
  case WaitingForAllReplies
  then have "\<not> any_failed c"
    using assms(1) all_at_least_not_failed [of StageWaitingForReply c] by (simp add: stage_old_def)
  then show ?thesis using WaitingForAllReplies assms(2) by (simp add: UpdateStage_def replies)
qed (use assms(2) in \<open>simp_all add: UpdateStage_def Let_def failure waiting replies\<close>)

lemma updated:
  assumes "peers_ok c" "stage_old c" "promises (outer c) = stage_promises (connectStage c)"
    and "\<And>e. knownParticipantsPromise c \<noteq> Broken e"
  shows "connect_inv promises (UpdateStage env c)"
  using assms UpdateStage_ok UpdateStage_promises by (simp add: connect_inv_def)

lemma advanced:
  assumes "connect_inv promises c" "find_peer c n = Some p" "advances (peerStage p) (peerStage p')"
    and "directConnectPeer p' = (peerStage p' = StageDirect)" "promises s = promises (outer c)"
  shows "connect_inv promises (UpdateStage env ((set_peer n p' c)\<lparr>outer := s\<rparr>))"
proof (rule updated)
  have "peerStage p' \<noteq> StageInvalid" using assms(3) by (auto simp: advances_def)
  then show "peers_ok ((set_peer n p' c)\<lparr>outer := s\<rparr>)"
    using assms(1,4) by (simp add: connect_inv_def peers_ok_set_peer)
  show "stage_old ((set_peer n p' c)\<lparr>outer := s\<rparr>)"
    using assms(1-3) stage_ok_old [of c] stage_old_advance [of c n p p'] by (simp add: connect_inv_def)
qed (use assms in \<open>simp_all add: connect_inv_def\<close>)

lemma left:
  assumes "connect_inv promises c" "find_peer c n = Some p" "advances (peerStage p) (peerStage p')"
    and "directConnectPeer p' = (peerStage p' = StageDirect)" "promises s = promises (outer c)"
    and "peerStage p' \<noteq> StageFailure" "peerStage p' \<noteq> StageReplyReceived"
  shows "connect_inv promises ((set_peer n p' c)\<lparr>outer := s\<rparr>)"
proof -
  have "peerStage p' \<noteq> StageInvalid" using assms(3) by (auto simp: advances_def)
  then show ?thesis
    using assms stage_ok_advance [of c n p p'] peers_ok_set_peer [of c p' n] by (simp add: connect_inv_def)
qed

lemma fallen_back:
  assumes "connect_inv promises c" "find_peer c n = Some p"
    and "peerStage p = StageRemoteConnectRequested \<or> peerStage p = StageRemoteIsConnecting"
    and "state_after (fall_back_to_proxy env n p reason c) = Some c'"
  shows "connect_inv promises c'"
proof -
  let ?p = "p\<lparr>peerStage := StageWaitingForReply\<rparr>"
  obtain r s where r: "tryProxyConnect env (ckInfo p) (outer c) = (r, s)" by force
  then have s: "promises s = promises (outer c)" by (metis proxy snd_conv)
  have direct: "\<not> directConnectPeer p"
    using assms(1-3) peers_okD [of c n p] by (auto simp: connect_inv_def)
  have adv: "advances (peerStage p) StageWaitingForReply" "advances (peerStage p) StageFailure"
    using assms(3) by (auto simp: advances_def)
  note out = assms(4) [unfolded fall_back_to_proxy_def, simplified, unfolded r, simplified]
  show ?thesis
  proof (cases r)
    case (Inl e)
    then have "c' = (set_peer n ?p c)\<lparr>outer := s\<rparr>" using out by simp
    then show ?thesis using left [OF assms(1,2), of ?p s] adv(1) direct s by simp
  next
    case (Inr b)
    show ?thesis
    proof (cases b)
      case True
      then have "c' = UpdateStage env ((set_peer n ?p c)\<lparr>outer := s\<rparr>)" using out Inr by simp
      then show ?thesis using advanced [OF assms(1,2), of ?p s] adv(1) direct s by simp
    next
      case False
      let ?f = "?p\<lparr>failureReason := '' '' @ reason, peerStage := StageFailure\<rparr>"
      have "c' = UpdateStage env ((set_peer n ?f c)\<lparr>outer := s\<rparr>)"
        using out Inr False by (simp add: HasFailed_def)
      then show ?thesis using advanced [OF assms(1,2), of ?f s] adv(2) direct s by simp
    qed
  qed
qed

lemma refused_inv:
  assumes "connect_inv promises c" "find_peer c n = Some p" "directConnectPeer p"
    and "state_after (OnConnectPeerFailure env n p c) = Some c'"
  shows "connect_inv promises c'"
proof -
  let ?p = "p\<lparr>directConnectPeer := False, peerStage := StageRemoteConnectRequested\<rparr>"
  obtain r s where r: "tryRemoteConnectRequest env (ckInfo p) (outer c) = (r, s)" by force
  then have s: "promises s = promises (outer c)" by (metis remote snd_conv)
  have direct: "peerStage p = StageDirect"
    using assms(1-3) peers_okD [of c n p] by (auto simp: connect_inv_def)
  then have adv: "advances (peerStage p) StageRemoteConnectRequested" by (simp add: advances_def)
  have requested: "connect_inv promises ((set_peer n ?p c)\<lparr>outer := s\<rparr>)"
    using left [OF assms(1,2), of ?p s] adv s by simp
  note out = assms(4) [unfolded OnConnectPeerFailure_def Let_def, simplified, unfolded r, simplified]
  show ?thesis
  proof (cases r)
    case (Inl e)
    then show ?thesis using out requested by simp
  next
    case (Inr b)
    show ?thesis
    proof (cases b)
      case True
      then have "c' = UpdateStage env ((set_peer n (?p\<lparr>remoteConnectRequestTimer := True\<rparr>) c)\<lparr>outer := s\<rparr>)"
        using out Inr by simp
      then show ?thesis
        using advanced [OF assms(1,2), of "?p\<lparr>remoteConnectRequestTimer := True\<rparr>" s] adv s by simp
    next
      case False
      then show ?thesis using out Inr by (intro fallen_back [OF requested, of n ?p]) simp_all
    qed
  qed
qed

lemma connected_inv:
  assumes "connect_inv promises c" "find_peer c n = Some p" "directConnectPeer p"
    and "state_after (OnConnectPeerSuccess env n p c) = Some c'"
  shows "connect_inv promises c'"
proof -
  let ?p = "p\<lparr>directConnectPeer := False, peerStage := StageWaitingForReply\<rparr>"
  let ?left = "\<lambda>s. (set_peer n ?p c)\<lparr>outer := s\<rparr>"
  obtain q s where q: "makeVAsioPeer env (ckInfo p) (outer c) = (q, s)" by force
  then have s: "promises s = promises (outer c)" by (metis make snd_conv)
  have direct: "peerStage p = StageDirect"
    using assms(1-3) peers_okD [of c n p] by (auto simp: connect_inv_def)
  then have adv: "advances (peerStage p) StageWaitingForReply" by (simp add: advances_def)
  have waits: "connect_inv promises (?left s')" "connect_inv promises (UpdateStage env (?left s'))"
    if "promises s' = promises s" for s'
    using left [OF assms(1,2), of ?p s'] advanced [OF assms(1,2), of ?p s'] adv s that by simp_all
  have calls: "handleConnectedPeer env q s = Done s' \<Longrightarrow> promises s' = promises s"
    "handleConnectedPeer env q s = Raised e s' \<Longrightarrow> promises s' = promises s"
    "addPeer env q s'' = Done s' \<Longrightarrow> promises s' = promises s''"
    "addPeer env q s'' = Raised e s' \<Longrightarrow> promises s' = promises s''" for s' s'' e
    using handle [of q s] add [of q s''] by simp_all
  have out: "state_after (bind_outcome (on_outer (handleConnectedPeer env q) (?left s)) (\<lambda>c.
      bind_outcome (on_outer (addPeer env q) c) (\<lambda>c. Done (UpdateStage env c)))) = Some c'"
    using assms(4) by (simp add: OnConnectPeerSuccess_def q Let_def)
  show ?thesis
  proof (cases "handleConnectedPeer env q s")
    case handled: (Done s1)
    note s1 = calls(1) [OF handled]
    show ?thesis
    proof (cases "addPeer env q s1")
      case (Done s2)
      then have "c' = UpdateStage env (?left s2)" using out handled by (simp add: on_outer_def)
      moreover have "promises s2 = promises s" using calls(3) [OF Done] s1 by simp
      ultimately show ?thesis using waits(2) by blast
    next
      case (Raised e s2)
      then have "c' = ?left s2" using out handled by (simp add: on_outer_def)
      moreover have "promises s2 = promises s" using calls(4) [OF Raised] s1 by simp
      ultimately show ?thesis using waits(1) by blast
    qed (use out handled in \<open>simp add: on_outer_def\<close>)
  next
    case (Raised e s1)
    then have "c' = ?left s1" using out by (simp add: on_outer_def)
    then show ?thesis using waits(1) calls(2) [OF Raised] by blast
  qed (use out in \<open>simp add: on_outer_def\<close>)
qed

lemma expired_inv:
  assumes "connect_inv promises c" "find_peer c n = Some p"
    and "state_after (OnTimerExpired env n p c) = Some c'"
  shows "connect_inv promises c'"
proof -
  let ?p = "p\<lparr>remoteConnectRequestTimer := False\<rparr>"
  have same: "connect_inv promises (set_peer n ?p c)"
    using assms(1,2) peers_okD [of c n p] stage_ok_same [of c n p ?p] peers_ok_set_peer [of c ?p n]
    by (simp add: connect_inv_def)
  show ?thesis
  proof (cases "peerStage p = StageRemoteConnectRequested")
    case True
    then show ?thesis
      using assms(3) by (intro fallen_back [OF same, of n ?p]) (simp_all add: OnTimerExpired_def Let_def)
  next
    case False
    then show ?thesis using same assms(3) by (simp add: OnTimerExpired_def Let_def)
  qed
qed

lemma event_inv:
  assumes "connect_inv promises c" "state_after (HandlePeerEvent env n event c) = Some c'"
  shows "connect_inv promises c'"
proof (cases "find_peer c n")
  case (Some p)
  have direct: "directConnectPeer p = (peerStage p = StageDirect)"
    using assms(1) Some peers_okD [of c n p] by (simp add: connect_inv_def)
  have step: "connect_inv promises (UpdateStage env (set_peer n p' c))"
    if "advances (peerStage p) (peerStage p')" "directConnectPeer p' = (peerStage p' = StageDirect)" for p'
    using advanced [OF assms(1) Some that, of "outer c"] by (metis same_outer set_peer_fields(2))
  show ?thesis
    using assms Some direct fallen_back [OF assms(1) Some]
    by (cases event) (auto simp: HandlePeerEvent_def HandleEvent_def advances_def intro!: step split: if_splits)
qed (use assms in \<open>simp add: HandlePeerEvent_def\<close>)

lemma start_inv:
  assumes "connect_inv promises c" "StartConnecting env c = Some out" "state_after out = Some c'"
  shows "connect_inv promises c'"
proof (cases "connectStage c = ConnectInvalid")
  case True
  then have none: "connectingPeers c = []" using assms(1) by (simp add: connect_inv_def stage_ok_def)
  obtain infos where c': "c' = UpdateStage env
      (c\<lparr>connectStage := Connecting, connectingPeers := map (map_prod id start_peer) (emplace_peers infos [])\<rparr>)"
    using assms True none by (auto simp: StartConnecting_def connect_inv_def split: promise.splits)
  have "map fst (map (map_prod id start_peer) (emplace_peers infos [])) = map fst (emplace_peers infos [])" by simp
  then show ?thesis
    unfolding c' using assms(1) True emplace_peers_keys [of "[]" infos]
    by (intro updated) (auto simp: connect_inv_def peers_ok_def stage_old_def start_peer_def list_all_iff)
qed (use assms in \<open>auto simp: StartConnecting_def\<close>)

lemma refused_moves:
  assumes "connect_inv promises c" "find_peer c n = Some p" "directConnectPeer p"
    and "state_after (OnConnectPeerFailure env n p c) = Some c'"
  shows "moves c c'"
proof -
  let ?p = "p\<lparr>directConnectPeer := False, peerStage := StageRemoteConnectRequested\<rparr>"
  have direct: "peerStage p = StageDirect"
    using assms(1-3) peers_okD [of c n p] by (auto simp: connect_inv_def)
  obtain r s where r: "tryRemoteConnectRequest env (ckInfo p) (outer c) = (r, s)" by force
  note out = assms(4) [unfolded OnConnectPeerFailure_def Let_def, simplified, unfolded r, simplified]
  have requested: "moves c c'" if "connectingPeers c' = connectingPeers (set_peer n q c)"
    "peerStage q = StageRemoteConnectRequested" for q
    using moves_set_peer [OF assms(2) that(1)] that(2) direct by (simp add: advances_def)
  show ?thesis
  proof (cases "r = Inr False")
    case True
    then have "state_after (fall_back_to_proxy env n ?p
        ''because direct connection failed, and both remote-connect, as well as proxy-connection are not available''
        ((set_peer n ?p c)\<lparr>outer := s\<rparr>)) = Some c'"
      using out by simp
    then show ?thesis
      using direct by (intro moves_fall_back [OF assms(2), of env ?p _ _ c' ?p]) auto
  next
    case False
    then show ?thesis
      using out requested by (cases r) (auto simp: set_peer_def)
  qed
qed

lemma connected_moves:
  assumes "connect_inv promises c" "find_peer c n = Some p" "directConnectPeer p"
    and "state_after (OnConnectPeerSuccess env n p c) = Some c'"
  shows "moves c c'"
proof -
  let ?p = "p\<lparr>directConnectPeer := False, peerStage := StageWaitingForReply\<rparr>"
  have "peerStage p = StageDirect"
    using assms(1-3) peers_okD [of c n p] by (auto simp: connect_inv_def)
  moreover have "connectingPeers c' = connectingPeers (set_peer n ?p c)"
    using assms(4)
    by (auto simp: OnConnectPeerSuccess_def on_outer_def Let_def split: prod.splits outcome.splits)
  ultimately show ?thesis by (intro moves_set_peer [OF assms(2), of _ ?p]) (simp_all add: advances_def)
qed

lemma expired_moves:
  assumes "find_peer c n = Some p" "state_after (OnTimerExpired env n p c) = Some c'"
  shows "moves c c'"
proof -
  let ?p = "p\<lparr>remoteConnectRequestTimer := False\<rparr>"
  show ?thesis
  proof (cases "peerStage p = StageRemoteConnectRequested")
    case True
    then show ?thesis
      using assms by (intro moves_fall_back [OF assms(1), of env ?p _ _ c' ?p]) (auto simp: OnTimerExpired_def Let_def)
  next
    case False
    then show ?thesis
      using assms by (intro moves_set_peer [OF assms(1), of _ ?p]) (auto simp: OnTimerExpired_def Let_def)
  qed
qed

lemma step_moves:
  assumes "connect_step env rest c c'" "connect_inv promises c" "connectStage c \<noteq> ConnectInvalid"
  shows "moves c c'"
  using assms
proof (induction rule: connect_step.induct)
  case (known infos c c')
  then show ?case by (auto simp: SetKnownParticipants_def moves_def split: sum.splits)
next
  case (start c out c')
  then show ?case by (auto simp: StartConnecting_def)
next
  case (outside c s)
  then show ?case by (simp add: moves_def)
qed (use refused_moves connected_moves expired_moves moves_event in blast)+

theorem stages_settle:
  "wf {(c', c). connect_step env rest c c' \<and> connect_inv promises c \<and> connectStage c \<noteq> ConnectInvalid \<and>
     stages_of c' \<noteq> stages_of c}"
proof (rule wf_subset [OF wf_measure])
  show "{(c', c). connect_step env rest c c' \<and> connect_inv promises c \<and> connectStage c \<noteq> ConnectInvalid \<and>
     stages_of c' \<noteq> stages_of c} \<subseteq> measure remaining"
    by (auto intro: moves_remaining [OF step_moves])
qed

theorem step_inv:
  assumes "connect_step env rest c c'" "connect_inv promises c"
  shows "connect_inv promises c'"
  using assms
proof (induction rule: connect_step.induct)
  case (known infos c c')
  then show ?case
    by (auto simp: SetKnownParticipants_def set_value_def connect_inv_def peers_ok_def stage_ok_def
        any_failed_def all_at_least_def split: if_splits connect_stage.splits)
next
  case (outside c s)
  then show ?case using rest_promises by (simp add: connect_inv_def)
qed (use refused_inv connected_inv expired_inv event_inv start_inv in blast)+

theorem reachable_inv:
  assumes "(connect_step env rest)\<^sup>*\<^sup>* (new_connect_known s) c" "promises s = (Unset, Unset)"
  shows "connect_inv promises c"
  using assms(1)
proof (induction rule: rtranclp_induct)
  case base
  then show ?case
    using assms(2) by (simp add: connect_inv_def new_connect_known_def peers_ok_def stage_ok_def)
next
  case (step c c')
  then show ?case using step_inv by blast
qed

theorem run_settles:
  assumes "(connect_step env rest)\<^sup>*\<^sup>* c c'" "connect_inv promises c" "connectStage c \<noteq> ConnectInvalid"
  shows "connect_inv promises c' \<and> connectStage c' \<noteq> ConnectInvalid \<and>
    (stages_of c' = stages_of c \<or> remaining c' < remaining c)"
  using assms(1)
proof (induction rule: rtranclp_induct)
  case base
  then show ?case using assms(2,3) by simp
next
  case (step c1 c2)
  then have c1: "connect_inv promises c1" "connectStage c1 \<noteq> ConnectInvalid" by simp_all
  have "connect_inv promises c2" "connectStage c2 \<noteq> ConnectInvalid"
    using step_inv [OF step.hyps(2) c1(1)] step_started [OF step.hyps(2) c1(2)] .
  moreover have "stages_of c2 = stages_of c1 \<or> remaining c2 < remaining c1"
    using moves_remaining [OF step_moves [OF step.hyps(2) c1]] by blast
  moreover have "remaining a = remaining b" if "stages_of a = stages_of b" for a b :: "'s connect_known"
    using that by (simp add: remaining_def stages_of_def)
  ultimately show ?case using step.IH by (metis less_trans)
qed

end

section \<open>A wait without an end\<close>

text \<open>
  Once the other side has acknowledged the remote connection request, the timer of the
  request is ignored: no attempt and no timer is left that would end the wait.
\<close>

lemma acknowledged_request_waits:
  assumes "tryRemoteConnectRequest env info s = (Inr True, s')"
  shows "\<exists>c. (connect_step env rest)\<^sup>*\<^sup>* (new_connect_known s) c \<and> connectStage c = Connecting \<and> outer c = s' \<and>
    stages_of c = [StageRemoteIsConnecting] \<and>
    (\<forall>n p. find_peer c n = Some p \<longrightarrow> \<not> directConnectPeer p \<and> \<not> remoteConnectRequestTimer p)"
proof -
  let ?n = "pi_participantName info"
  let ?start = "new_connect_known s"
  let ?known = "?start\<lparr>knownParticipantsPromise := Fulfilled [info]\<rparr>"
  let ?p = "\<lambda>st direct timer. \<lparr>ckInfo = info, peerStage = st, directConnectPeer = direct,
      remoteConnectRequestTimer = timer, failureReason = []\<rparr>"
  let ?c = "\<lambda>st direct timer s. \<lparr>connectStage = Connecting, connectingPeers = [(?n, ?p st direct timer)],
      knownParticipantsPromise = Fulfilled [info], outer = s\<rparr>"
  note defs = UpdateStage_def any_failed_def all_at_least_def set_peer_def
  have 1: "connect_step env rest ?start ?known"
    by (rule connect_step.known [of "[info]"])
      (simp add: SetKnownParticipants_def set_value_def new_connect_known_def)
  have 2: "connect_step env rest ?known (?c StageDirect True False s)"
    by (rule connect_step.start [where out = "Done (?c StageDirect True False s)"])
      (simp_all add: StartConnecting_def new_connect_known_def new_connecting_peer_def start_peer_def defs)
  have 3: "connect_step env rest (?c StageDirect True False s) (?c StageRemoteConnectRequested False True s')"
    by (rule connect_step.refused [of _ ?n "?p StageDirect True False"])
      (simp_all add: OnConnectPeerFailure_def Let_def assms defs)
  have 4: "connect_step env rest (?c StageRemoteConnectRequested False True s') (?c StageRemoteIsConnecting False True s')"
    by (rule connect_step.event [of _ ?n RemoteParticipantIsConnecting])
      (simp_all add: HandlePeerEvent_def HandleEvent_def defs)
  have 5: "connect_step env rest (?c StageRemoteIsConnecting False True s') (?c StageRemoteIsConnecting False False s')"
    by (rule connect_step.expired [of _ ?n "?p StageRemoteIsConnecting False True"])
      (simp_all add: OnTimerExpired_def Let_def defs)
  have "(connect_step env rest)\<^sup>*\<^sup>* ?start (?c StageRemoteIsConnecting False False s')"
    using 1 2 3 4 5 by (meson converse_rtranclp_into_rtranclp rtranclp.rtrancl_refl)
  then show ?thesis by (intro exI [of _ "?c StageRemoteIsConnecting False False s'"]) (simp add: stages_of_def)
qed

end
