(* ===== verification/VAsioHandshake.thy ===== *)
theory VAsioHandshake
  imports VAsioConnection ConnectKnownParticipants
begin

text \<open>
  What a connection does with the messages of its peers (\<open>core/vasio/VAsioConnection.cpp\<close>):
  the handshake, the requests to connect, messages that are relayed for others, and the
  shutdown of a peer. The state of a participant is the state machine over the known
  participants (\<open>ConnectKnownParticipants\<close>) around the connection; the registry is a
  connection too and never starts that machine.
\<close>

section \<open>Peers and their names\<close>

definition FindPeerByName :: "string \<Rightarrow> string \<Rightarrow> 'u connection \<Rightarrow> nat option" where
  "FindPeerByName sim name c = map_of (participantNameToPeer c) (sim, name)"

text \<open>\<open>insert\<close> keeps the peer that has the name.\<close>

definition AssociateParticipantNameAndPeer :: "string \<Rightarrow> string \<Rightarrow> nat \<Rightarrow> 'u connection \<Rightarrow> 'u connection" where
  "AssociateParticipantNameAndPeer sim name p c =
     (if FindPeerByName sim name c = None
      then c\<lparr>participantNameToPeer := participantNameToPeer c @ [((sim, name), p)]\<rparr> else c)"

definition GetConnectedParticipantsNames :: "'u connection \<Rightarrow> string list" where
  "GetConnectedParticipantsNames c = map (snd \<circ> fst) (participantNameToPeer c)"

definition GetNumberOfConnectedParticipants :: "'u connection \<Rightarrow> nat" where
  "GetNumberOfConnectedParticipants c = length (peers c)"

definition ParticipantHasCapability :: "'u environment \<Rightarrow> string \<Rightarrow> string \<Rightarrow> 'u connection \<Rightarrow> bool result" where
  "ParticipantHasCapability env name capability c =
     (case FindPeerByName (simulationName c) name c of
        None \<Rightarrow> Inr False
      | Some p \<Rightarrow>
          (case find_object c p of
             None \<Rightarrow> Inl DanglingPointer
           | Some q \<Rightarrow> bind_result (ParseCapabilityString (parseCapabilities env) (pi_capabilities (peerInfo q)))
                         (\<lambda>caps. Inr (HasCapability capability caps))))"

definition new_peer_object :: "vasio_peer \<Rightarrow> 'u connection \<Rightarrow> nat \<times> 'u connection" where
  "new_peer_object q c =
     (nextPeer c, c\<lparr>peerObjects := peerObjects c @ [(nextPeer c, q)], nextPeer := nextPeer c + 1\<rparr>)"

text \<open>A peer for a new stream; its information is set by the caller, if at all.\<close>

definition MakeVAsioPeer :: "'u environment \<Rightarrow> 'u connection \<Rightarrow> nat \<times> 'u connection" where
  "MakeVAsioPeer env c =
     new_peer_object
       \<lparr>peerInfo = \<lparr>pi_participantName = [], pi_participantId = uninitializedId env, pi_acceptorUris = [],
          pi_capabilities = []\<rparr>,
        peerVersion = (0, 0), peerSimulation = [], peerDescriptor = default_descriptor, proxyOf = None,
        localAddress = fst (streamAddresses env (nextPeer c)), remoteAddress = snd (streamAddresses env (nextPeer c))\<rparr> c"

text \<open>A proxy peer asks its peer for the addresses, which never change.\<close>

definition MakeVAsioProxyPeer :: "'u environment \<Rightarrow> vasio_peer_info \<Rightarrow> nat \<Rightarrow> vasio_peer \<Rightarrow> 'u connection
    \<Rightarrow> nat \<times> 'u connection" where
  "MakeVAsioProxyPeer env info u q =
     new_peer_object
       \<lparr>peerInfo = info, peerVersion = uninitializedVersion env, peerSimulation = [],
        peerDescriptor = default_descriptor, proxyOf = Some u,
        localAddress = localAddress q, remoteAddress = remoteAddress q\<rparr>"

definition no_peer_info :: vasio_peer_info where
  "no_peer_info = \<lparr>pi_participantName = [], pi_participantId = 0, pi_acceptorUris = [], pi_capabilities = []\<rparr>"

fun insert_proxy :: "nat \<Rightarrow> nat \<Rightarrow> (nat \<times> nat list) list \<Rightarrow> (nat \<times> nat list) list" where
  "insert_proxy u p [] = [(u, [p])]"
| "insert_proxy u p ((v, ps) # m) = (if v = u then (v, List.insert p ps) # m else (v, ps) # insert_proxy u p m)"

definition AddPeer :: "nat \<Rightarrow> 'u connection \<Rightarrow> 'u connection outcome" where
  "AddPeer p c =
     with_peer p c (\<lambda>q.
       case proxyOf q of
         None \<Rightarrow>
           (let c = emit (StreamStartRead p) c;
                c = (if aggregating c then emit (StreamAggregate p) c else c)
            in Done (c\<lparr>peers := peers c @ [p]\<rparr>))
       | Some u \<Rightarrow> Done (c\<lparr>peerToProxyPeers := insert_proxy u p (peerToProxyPeers c), peers := peers c @ [p]\<rparr>))"

definition OnAsyncAcceptSuccess :: "'u environment \<Rightarrow> 'u connection \<Rightarrow> 'u connection outcome" where
  "OnAsyncAcceptSuccess env c = (let (p, c) = MakeVAsioPeer env c in AddPeer p c)"

definition EnableAggregationOfPeers :: "'u connection \<Rightarrow> 'u connection" where
  "EnableAggregationOfPeers c =
     c\<lparr>trace := trace c @ map StreamAggregate (filter (\<lambda>p. case find_object c p of Some q \<Rightarrow> proxyOf q = None | None \<Rightarrow> False)
          (peers c)),
       aggregating := True\<rparr>"

definition NotifyShutdown :: "'u connection \<Rightarrow> 'u connection" where
  "NotifyShutdown c = c\<lparr>shuttingDown := True\<rparr>"

section \<open>The announcement\<close>

abbreviation REGISTRY_PARTICIPANT_ID :: "64 word" where "REGISTRY_PARTICIPANT_ID \<equiv> 0"

fun endpoints_of_type :: "uri_type \<Rightarrow> string list \<Rightarrow> string list result" where
  "endpoints_of_type ty [] = Inr []"
| "endpoints_of_type ty (e # es) =
     bind_result (Parse e) (\<lambda>u. bind_result (endpoints_of_type ty es) (\<lambda>us.
     Inr (if uriType u = ty then uriString u # us else us)))"

definition MakePeerInfo :: "'u connection \<Rightarrow> vasio_peer_info result" where
  "MakePeerInfo c =
     bind_result (endpoints_of_type UriLocal (acceptors c)) (\<lambda>ls.
     bind_result (endpoints_of_type UriTcp (acceptors c)) (\<lambda>ts.
     Inr \<lparr>pi_participantName = participantName c, pi_participantId = participantId c, pi_acceptorUris = ls @ ts,
          pi_capabilities = ToCapabilitiesString (capabilities c)\<rparr>))"

definition SendParticipantAnnouncement :: "nat \<Rightarrow> 'u connection \<Rightarrow> 'u connection outcome" where
  "SendParticipantAnnouncement p c =
     (case MakePeerInfo c of
        Inl e \<Rightarrow> Raised e c
      | Inr info \<Rightarrow>
          if pi_acceptorUris info = [] then Raised SilKitError c
          else send_to p CurrentProtocolVersion TypeParticipantAnnouncement (put_ParticipantAnnouncement
                 \<lparr>pa_messageHeader = MakeRegistryMsgHeader (version c), pa_peerInfo = info,
                  pa_simulationName = simulationName c\<rparr>) c)"

text \<open>The simulation name that the peer's descriptor was given is overwritten with the rest of it.\<close>

definition HandleConnectedPeer :: "nat \<Rightarrow> 'u connection \<Rightarrow> 'u connection outcome" where
  "HandleConnectedPeer p c =
     bind_outcome (update_peer p (SetSimulationName (simulationName c)) c) (\<lambda>c.
     bind_outcome (SendParticipantAnnouncement p c) (\<lambda>c.
     with_peer p c (\<lambda>q.
       let name = pi_participantName (peerInfo q)
       in Done (AssociateParticipantNameAndPeer (simulationName c) name p
                  (put_object p (q\<lparr>peerDescriptor := SetParticipantNameAndComputeId name default_descriptor\<rparr>) c)))))"

definition send_reply :: "nat \<Rightarrow> participant_announcement_reply \<Rightarrow> 'u connection \<Rightarrow> 'u connection outcome" where
  "send_reply p reply c =
     with_peer p c (\<lambda>q.
       send_to p (peerVersion q) TypeParticipantAnnouncementReply (put_ParticipantAnnouncementReply reply) c)"

definition SendParticipantAnnouncementReply :: "nat \<Rightarrow> 'u connection \<Rightarrow> 'u connection outcome" where
  "SendParticipantAnnouncementReply p c =
     with_peer p c (\<lambda>q.
       send_reply p \<lparr>par_remoteHeader = MakeRegistryMsgHeader (peerVersion q), par_status = reply_Success,
         par_subscribers = map snd (vasioReceivers c), par_diagnostic = []\<rparr> c)"

definition SendFailedParticipantAnnouncementReply :: "nat \<Rightarrow> protocol_version \<Rightarrow> string \<Rightarrow> 'u connection
    \<Rightarrow> 'u connection outcome" where
  "SendFailedParticipantAnnouncementReply p v diagnostic c =
     send_reply p \<lparr>par_remoteHeader = MakeRegistryMsgHeader v, par_status = reply_Failed, par_subscribers = [],
       par_diagnostic = diagnostic\<rparr> c"

fun call_receivers :: "(nat \<Rightarrow> participant_announcement \<Rightarrow> 'u connection \<Rightarrow> 'u connection outcome) list \<Rightarrow> nat
    \<Rightarrow> participant_announcement \<Rightarrow> 'u connection \<Rightarrow> 'u connection outcome" where
  "call_receivers [] p a c = Done c"
| "call_receivers (f # fs) p a c = bind_outcome (f p a c) (call_receivers fs p a)"

text \<open>The exceptions that derive from \<open>SilKitError\<close>.\<close>

fun is_SilKitError :: "silkit_error \<Rightarrow> bool" where
  "is_SilKitError EndOfBuffer = False"
| "is_SilKitError FutureError = False"
| "is_SilKitError BadFunctionCall = False"
| "is_SilKitError DanglingPointer = False"
| "is_SilKitError UserException = False"
| "is_SilKitError _ = True"

text \<open>The diagnostic of a refused participant; for an exception it is the exception's own text.\<close>

definition unsupported_version_text :: "registry_msg_header \<Rightarrow> string" where
  "unsupported_version_text h =
     ''protocol version '' @ decimal (unat (rh_versionHigh h)) @ ''.'' @ decimal (unat (rh_versionLow h)) @
     '' is not supported''"

definition wrong_simulation_text :: "string \<Rightarrow> string \<Rightarrow> string" where
  "wrong_simulation_text announced mine =
     ''Announced simulation name '' @ [CHR 0x27] @ announced @ [CHR 0x27] @
     '' does not match this participants simulation name '' @ [CHR 0x27] @ mine @ [CHR 0x27]"

definition ReceiveParticipantAnnouncement :: "'u environment \<Rightarrow> nat \<Rightarrow> serialized_message
    \<Rightarrow> 'u connection \<Rightarrow> 'u connection outcome" where
  "ReceiveParticipantAnnouncement env p m c =
     (let h = registryMessageHeader m; v = ExtractProtocolVersion h
      in if \<not> ProtocolVersionSupported h
         then SendFailedParticipantAnnouncementReply p (version c) (unsupported_version_text h) c
         else
           bind_outcome (update_peer p (\<lambda>q. q\<lparr>peerVersion := v\<rparr>) c) (\<lambda>c.
             case Deserialize get_ParticipantAnnouncement (message_SetProtocolVersion v m) of
               Inl e \<Rightarrow> Raised e c
             | Inr a \<Rightarrow>
                 let sim = pa_simulationName a; name = pi_participantName (pa_peerInfo a)
                 in if \<not> allowAnySimulationName c \<and> sim \<noteq> simulationName c
                    then SendFailedParticipantAnnouncementReply p v (wrong_simulation_text sim (simulationName c)) c
                    else
                      bind_outcome (update_peer p (\<lambda>q. SetSimulationName sim (q\<lparr>peerInfo := pa_peerInfo a,
                        peerDescriptor := SetParticipantNameAndComputeId name (peerDescriptor q)\<rparr>)) c) (\<lambda>c.
                        case call_receivers (announcementReceivers env) p a c of
                          Raised e c \<Rightarrow>
                            if is_SilKitError e
                            then with_peer p c (\<lambda>q. SendFailedParticipantAnnouncementReply p (peerVersion q) (errorText env e) c)
                            else Raised e c
                        | r \<Rightarrow> bind_outcome r (\<lambda>c.
                            SendParticipantAnnouncementReply p (AssociateParticipantNameAndPeer sim name p c)))))"

section \<open>The shutdown of a peer\<close>

fun notify_destinations :: "string \<Rightarrow> string \<Rightarrow> string list \<Rightarrow> 'u connection \<Rightarrow> 'u connection outcome" where
  "notify_destinations sim source [] c = Done c"
| "notify_destinations sim source (d # ds) c =
     bind_outcome
       (case FindPeerByName sim d c of
          None \<Rightarrow> Done c
        | Some p \<Rightarrow>
            send_to p CurrentProtocolVersion TypeProxyMessage (put_ProxyMessage
              \<lparr>pm_header = \<lparr>ph_version = 0\<rparr>, pm_source = source, pm_destination = d, pm_payload = []\<rparr>) c)
       (notify_destinations sim source ds)"

definition SendProxyPeerShutdownNotification :: "nat \<Rightarrow> 'u connection \<Rightarrow> 'u connection outcome" where
  "SendProxyPeerShutdownNotification p c =
     with_peer p c (\<lambda>q.
       let sim = peerSimulation q; source = pi_participantName (peerInfo q)
       in case map_of (proxySourceToDestinations c) (sim, source) of
            None \<Rightarrow> Done c
          | Some ds \<Rightarrow> notify_destinations sim source ds c)"

fun call_shutdown_callbacks :: "(nat \<Rightarrow> vasio_peer \<Rightarrow> 'u \<Rightarrow> 'u outcome) list \<Rightarrow> nat \<Rightarrow> vasio_peer \<Rightarrow> 'u connection
    \<Rightarrow> 'u connection outcome" where
  "call_shutdown_callbacks [] p q c = Done c"
| "call_shutdown_callbacks (f # fs) p q c =
     (case f p q (userState c) of
        Done u \<Rightarrow> call_shutdown_callbacks fs p q (c\<lparr>userState := u\<rparr>)
      | Raised e u \<Rightarrow> Raised e (c\<lparr>userState := u\<rparr>)
      | OutOfFuel \<Rightarrow> OutOfFuel)"

text \<open>The receivers of a link are compared with the peer one by one, up to the first that has its identifier.\<close>

definition RemovePeerFromLinks :: "nat \<Rightarrow> 'u connection \<Rightarrow> 'u connection outcome" where
  "RemovePeerFromLinks p c =
     with_peer p c (\<lambda>q.
       if list_ex (\<lambda>(k, l). case l of None \<Rightarrow> True | Some l \<Rightarrow>
            scan_dangles c (\<lambda>info. pi_participantId info = pi_participantId (peerInfo q)) (remoteReceivers l)) (links c)
       then Raised DanglingPointer c
       else Done (c\<lparr>links := map (map_prod id (map_option (RemoveRemoteReceiver (peer_info c) p))) (links c)\<rparr>))"

text \<open>A peer that is taken out of the list is destroyed; the registry's is not in it.\<close>

definition RemovePeerFromConnection :: "nat \<Rightarrow> 'u connection \<Rightarrow> 'u connection outcome" where
  "RemovePeerFromConnection p c =
     with_peer p c (\<lambda>q.
       let c = c\<lparr>participantNameToPeer :=
                   AList.delete (peerSimulation q, pi_participantName (peerInfo q)) (participantNameToPeer c)\<rparr>
       in Done (if p \<in> set (peers c)
                then c\<lparr>peers := remove1 p (peers c), peerObjects := AList.delete p (peerObjects c)\<rparr> else c))"

definition finish_shutdown :: "'u environment \<Rightarrow> nat \<Rightarrow> 'u connection \<Rightarrow> 'u connection outcome" where
  "finish_shutdown env p c =
     with_peer p c (\<lambda>q.
       bind_outcome (SendProxyPeerShutdownNotification p c) (\<lambda>c.
       bind_outcome (call_shutdown_callbacks (peerShutdownCallbacks env) p q c) (\<lambda>c.
       bind_outcome (RemovePeerFromLinks p c) (\<lambda>c.
       bind_outcome (RemovePeerFromConnection p c) (\<lambda>c.
       RemovePeerFromPendingAcknowledges p c)))))"

text \<open>
  \<open>OnPeerShutdown\<close> calls itself for the proxy peers before it shuts the peer itself down. The
  calls that are still to be made are a list of work: \<open>Shut\<close> is a call, \<open>Finish\<close> the rest of
  one whose proxies are done.
\<close>

datatype shutdown_work = Shut nat | Finish nat

definition ignores_shutdown :: "('u connection \<Rightarrow> 'a) \<Rightarrow> bool" where
  "ignores_shutdown f \<longleftrightarrow> ignores_links f \<and> ignores_acks f \<and> ignores_objects f \<and>
     (\<forall>c x. f (c\<lparr>userState := x\<rparr>) = f c) \<and> (\<forall>c x. f (c\<lparr>participantNameToPeer := x\<rparr>) = f c) \<and>
     (\<forall>c x. f (c\<lparr>peers := x\<rparr>) = f c)"

lemma notify_destinations_leaves: "ignores_trace f \<Longrightarrow> leaves f c (notify_destinations sim source ds c)"
proof (induction ds arbitrary: c)
  case (Cons d ds)
  then show ?case by (auto intro!: leaves_bind send_to_leaves split: option.split)
qed simp

lemma SendProxyPeerShutdownNotification_leaves: "ignores_trace f \<Longrightarrow> leaves f c (SendProxyPeerShutdownNotification p c)"
  by (auto simp: SendProxyPeerShutdownNotification_def Let_def intro!: leaves_with_peer notify_destinations_leaves
      split: option.split)

lemma call_shutdown_callbacks_leaves:
  "(\<And>c x. f (c\<lparr>userState := x\<rparr>) = f c) \<Longrightarrow> leaves f c (call_shutdown_callbacks fs p q c)"
  by (induction fs arbitrary: c) (simp_all add: leaves_def split: outcome.split)

lemma RemovePeerFromLinks_leaves: "ignores_links f \<Longrightarrow> leaves f c (RemovePeerFromLinks p c)"
  by (auto simp: RemovePeerFromLinks_def ignores_links_def intro!: leaves_with_peer)

lemma RemovePeerFromConnection_leaves: "ignores_shutdown f \<Longrightarrow> leaves f c (RemovePeerFromConnection p c)"
  by (auto simp: RemovePeerFromConnection_def Let_def ignores_shutdown_def ignores_objects_def intro!: leaves_with_peer)

lemma finish_shutdown_leaves:
  assumes "ignores_shutdown f"
  shows "leaves f c (finish_shutdown env p c)"
proof -
  have f: "ignores_trace f" "ignores_links f" "ignores_acks f" "\<And>c x. f (c\<lparr>userState := x\<rparr>) = f c"
    using assms by (auto simp: ignores_shutdown_def ignores_links_def)
  show ?thesis
    unfolding finish_shutdown_def
    by (intro leaves_with_peer leaves_bind SendProxyPeerShutdownNotification_leaves call_shutdown_callbacks_leaves
        RemovePeerFromLinks_leaves RemovePeerFromConnection_leaves RemovePeerFromPendingAcknowledges_leaves f assms)
qed

lemma finish_shutdown_proxies: "finish_shutdown env p c = Done c' \<Longrightarrow> peerToProxyPeers c' = peerToProxyPeers c"
  by (rule leaves_Done [OF finish_shutdown_leaves]) (simp add: ignores_shutdown_def ignores_defs)

function shutdown_run :: "'u environment \<Rightarrow> shutdown_work list \<Rightarrow> 'u connection \<Rightarrow> 'u connection outcome" where
  "shutdown_run env [] c = Done c"
| "shutdown_run env (Shut p # work) c =
     (case map_of (peerToProxyPeers c) p of
        None \<Rightarrow> shutdown_run env (Finish p # work) c
      | Some ps \<Rightarrow> shutdown_run env (map Shut ps @ Finish p # work)
                    (c\<lparr>peerToProxyPeers := AList.delete p (peerToProxyPeers c)\<rparr>))"
| "shutdown_run env (Finish p # work) c =
     (case finish_shutdown env p c of
        Done c' \<Rightarrow> shutdown_run env work c'
      | r \<Rightarrow> r)"
  by pat_completeness auto

lemma length_delete_less: "map_of al k = Some v \<Longrightarrow> length (AList.delete k al) < length al"
proof (induction al)
  case (Cons x al)
  then show ?case by (auto simp: AList.delete_eq less_Suc_eq_le split: if_splits)
qed simp

termination shutdown_run
  by (relation "measures [\<lambda>(env, work, c). length (peerToProxyPeers c),
      \<lambda>(env, work, c). length (filter (\<lambda>w. case w of Shut p \<Rightarrow> True | Finish p \<Rightarrow> False) work),
      \<lambda>(env, work, c). length work]")
    (auto dest: finish_shutdown_proxies length_delete_less)

declare shutdown_run.simps [simp del]

definition OnPeerShutdown :: "'u environment \<Rightarrow> nat \<Rightarrow> 'u connection \<Rightarrow> 'u connection outcome" where
  "OnPeerShutdown env p c = (if shuttingDown c then Done c else shutdown_run env [Shut p] c)"

section \<open>Relayed messages\<close>

fun insert_destination :: "string \<times> string \<Rightarrow> string \<Rightarrow> ((string \<times> string) \<times> string list) list
    \<Rightarrow> ((string \<times> string) \<times> string list) list" where
  "insert_destination k d [] = [(k, [d])]"
| "insert_destination k d ((k', ds) # m) =
     (if k' = k then (k', List.insert d ds) # m else (k', ds) # insert_destination k d m)"

text \<open>This participant is the proxy: the sender is the source of the message.\<close>

definition relay_proxy_message :: "string \<Rightarrow> proxy_message \<Rightarrow> 'u connection \<Rightarrow> 'u connection outcome" where
  "relay_proxy_message sim pm c =
     (case FindPeerByName sim (pm_destination pm) c of
        None \<Rightarrow> Done c
      | Some d \<Rightarrow>
          bind_outcome (send_to d CurrentProtocolVersion TypeProxyMessage (put_ProxyMessage pm) c) (\<lambda>c.
          Done (c\<lparr>proxySourceToDestinations :=
                    insert_destination (sim, pm_source pm) (pm_destination pm) (proxySourceToDestinations c)\<rparr>)))"

text \<open>This participant is the destination: the peer that stands for the source.\<close>

definition proxied_peer :: "'u environment \<Rightarrow> nat \<Rightarrow> vasio_peer \<Rightarrow> string \<Rightarrow> 'u connection
    \<Rightarrow> nat \<times> 'u connection outcome" where
  "proxied_peer env u q source c =
     (case FindPeerByName (simulationName c) source c of
        Some p \<Rightarrow> (p, Done c)
      | None \<Rightarrow> (let (p, c) = MakeVAsioProxyPeer env no_peer_info u q c in (p, AddPeer p c)))"

section \<open>Requests to connect\<close>

abbreviation request_REQUEST :: "8 word" where "request_REQUEST \<equiv> 1"
abbreviation request_ANNOUNCEMENT :: "8 word" where "request_ANNOUNCEMENT \<equiv> 4"
abbreviation request_CONNECTING :: "8 word" where "request_CONNECTING \<equiv> 2"
abbreviation request_FAILED_TO_CONNECT :: "8 word" where "request_FAILED_TO_CONNECT \<equiv> 3"

definition send_request :: "nat \<Rightarrow> remote_participant_connect_request \<Rightarrow> 'u connection \<Rightarrow> 'u connection outcome" where
  "send_request p msg c =
     send_to p CurrentProtocolVersion TypeRemoteParticipantConnectRequest (put_RemoteParticipantConnectRequest msg) c"

text \<open>The registry passes a request on to its target, and what the target answers to the origin.\<close>

definition ReceiveRequest_Registry :: "'u environment \<Rightarrow> nat \<Rightarrow> remote_participant_connect_request
    \<Rightarrow> 'u connection \<Rightarrow> 'u connection outcome" where
  "ReceiveRequest_Registry env p msg c =
     with_peer p c (\<lambda>q.
       if rq_status msg = request_REQUEST
       then case FindPeerByName (peerSimulation q) (pi_participantName (rq_requestTarget msg)) c of
              None \<Rightarrow> Done c
            | Some d \<Rightarrow>
                with_peer d c (\<lambda>qd.
                  case TransformAcceptorUris (makeAddress env) (remoteAddress q) (localAddress qd) (pi_acceptorUris (peerInfo q)) of
                    Inl e \<Rightarrow> Raised e c
                  | Inr uris \<Rightarrow> send_request d (msg\<lparr>rq_requestOrigin := (peerInfo q)\<lparr>pi_acceptorUris := uris\<rparr>\<rparr>) c)
       else if rq_status msg = request_CONNECTING \<or> rq_status msg = request_FAILED_TO_CONNECT
       then case FindPeerByName (peerSimulation q) (pi_participantName (rq_requestOrigin msg)) c of
              None \<Rightarrow> Done c
            | Some d \<Rightarrow> send_request d msg c
       else Done c)"

text \<open>
  The target of a request starts to connect to its origin (\<open>RemoteConnectionManager\<close>), which
  asserts that the participant has a name, and says so.
\<close>

definition accept_request :: "nat \<Rightarrow> remote_participant_connect_request \<Rightarrow> 'u connection \<Rightarrow> 'u connection outcome" where
  "accept_request p msg c =
     (if pi_participantName (rq_requestOrigin msg) = [] then Raised AssertionError c
      else send_request p (msg\<lparr>rq_status := request_CONNECTING\<rparr>)
             (emit (StartConnectingTo (rq_requestOrigin msg)) c))"

definition OnRemoteConnectionSuccess :: "nat \<Rightarrow> 'u connection \<Rightarrow> 'u connection outcome" where
  "OnRemoteConnectionSuccess p c =
     with_peer p c (\<lambda>q.
       case MakePeerInfo c of
         Inl e \<Rightarrow> Raised e c
       | Inr info \<Rightarrow>
           bind_outcome (send_request p \<lparr>rq_messageHeader = MakeRegistryMsgHeader (version c),
             rq_requestOrigin = peerInfo q, rq_requestTarget = info, rq_status = request_ANNOUNCEMENT\<rparr> c) (AddPeer p))"

text \<open>\<open>RemoteConnectionManager::OnConnectPeerSuccess\<close> makes the peer first.\<close>

definition RemoteConnected :: "'u environment \<Rightarrow> vasio_peer_info \<Rightarrow> 'u connection \<Rightarrow> 'u connection outcome" where
  "RemoteConnected env info c =
     (let (p, c) = MakeVAsioPeer env c
      in bind_outcome (update_peer p (\<lambda>q. q\<lparr>peerInfo := info\<rparr>) c) (OnRemoteConnectionSuccess p))"

definition to_registry :: "'u connection \<Rightarrow> (nat \<Rightarrow> 'u connection outcome) \<Rightarrow> 'u connection outcome" where
  "to_registry c k = (case registryPeer c of None \<Rightarrow> Raised DanglingPointer c | Some r \<Rightarrow> k r)"

definition OnRemoteConnectionFailure :: "vasio_peer_info \<Rightarrow> 'u connection \<Rightarrow> 'u connection outcome" where
  "OnRemoteConnectionFailure info c =
     (case MakePeerInfo c of
        Inl e \<Rightarrow> Raised e c
      | Inr me \<Rightarrow>
          to_registry c (\<lambda>r. send_request r \<lparr>rq_messageHeader = MakeRegistryMsgHeader (version c),
            rq_requestOrigin = info, rq_requestTarget = me, rq_status = request_FAILED_TO_CONNECT\<rparr> c))"

definition peer_has_capability :: "'u environment \<Rightarrow> string \<Rightarrow> vasio_peer_info \<Rightarrow> bool result" where
  "peer_has_capability env capability info =
     bind_result (ParseCapabilityString (parseCapabilities env) (pi_capabilities info)) (\<lambda>caps.
     Inr (HasCapability capability caps))"

definition TryRemoteConnectRequest :: "'u environment \<Rightarrow> vasio_peer_info \<Rightarrow> 'u connection \<Rightarrow> bool \<times> 'u connection outcome" where
  "TryRemoteConnectRequest env info c =
     (if \<not> HasCapability RequestParticipantConnection (capabilities c) then (False, Done c)
      else case peer_has_capability env RequestParticipantConnection info of
        Inr True \<Rightarrow>
          (True, case MakePeerInfo c of
             Inl e \<Rightarrow> Raised e c
           | Inr me \<Rightarrow>
               to_registry c (\<lambda>r. send_request r \<lparr>rq_messageHeader = MakeRegistryMsgHeader (version c),
                 rq_requestOrigin = me, rq_requestTarget = info, rq_status = request_REQUEST\<rparr> c))
      | _ \<Rightarrow> (False, Done c))"

text \<open>
  What the capabilities of the other side fail to parse to is thrown here. A proxy peer that
  cannot be announced is destroyed again.
\<close>

definition destroy_on_throw :: "nat \<Rightarrow> 'u connection outcome \<Rightarrow> 'u connection outcome" where
  "destroy_on_throw p r =
     (case r of Raised e c \<Rightarrow> Raised e (c\<lparr>peerObjects := AList.delete p (peerObjects c)\<rparr>) | _ \<Rightarrow> r)"

definition TryProxyConnect :: "'u environment \<Rightarrow> vasio_peer_info \<Rightarrow> 'u connection \<Rightarrow> bool \<times> 'u connection outcome" where
  "TryProxyConnect env info c =
     (if \<not> HasCapability ProxyMessageCapability (capabilities c) then (False, Done c)
      else case peer_has_capability env ProxyMessageCapability info of
        Inl e \<Rightarrow> (False, Raised e c)
      | Inr False \<Rightarrow> (False, Done c)
      | Inr True \<Rightarrow>
          (True, to_registry c (\<lambda>r. with_peer r c (\<lambda>qr.
             let (p, c) = MakeVAsioProxyPeer env info r qr c
             in bind_outcome (destroy_on_throw p (HandleConnectedPeer p c)) (AddPeer p)))))"

section \<open>The methods that the state machine over the known participants calls\<close>

text \<open>The state after a call and what it returned or threw.\<close>

definition returned :: "bool \<times> 's outcome \<Rightarrow> 's \<Rightarrow> bool result \<times> 's" where
  "returned r s =
     (case snd r of
        Done s' \<Rightarrow> (Inr (fst r), s')
      | Raised e s' \<Rightarrow> (Inl e, s')
      | OutOfFuel \<Rightarrow> (Inl AssertionError, s))"

definition OnConnectKnownParticipantsFailure :: "'u connection \<Rightarrow> 'u connection" where
  "OnConnectKnownParticipantsFailure c =
     c\<lparr>startWaiting := try_set (set_exception ProtocolError (startWaiting c)) (startWaiting c),
       allHandshakes := try_set (set_exception ProtocolError (allHandshakes c)) (allHandshakes c)\<rparr>"

definition OnConnectKnownParticipantsWaitingForAllReplies :: "'u connection \<Rightarrow> 'u connection" where
  "OnConnectKnownParticipantsWaitingForAllReplies c =
     c\<lparr>startWaiting := try_set (set_value () (startWaiting c)) (startWaiting c)\<rparr>"

definition OnConnectKnownParticipantsAllRepliesReceived :: "'u connection \<Rightarrow> 'u connection" where
  "OnConnectKnownParticipantsAllRepliesReceived c =
     c\<lparr>allHandshakes := try_set (set_value () (allHandshakes c)) (allHandshakes c)\<rparr>"

definition vasio_methods :: "'u environment \<Rightarrow> 'u connection connection_methods" where
  "vasio_methods env =
     \<lparr>makeVAsioPeer = (\<lambda>info c. let (p, c) = MakeVAsioPeer env c
        in (p, case find_object c p of None \<Rightarrow> c | Some q \<Rightarrow> put_object p (q\<lparr>peerInfo := info\<rparr>) c)),
      handleConnectedPeer = (\<lambda>p c. destroy_on_throw p (HandleConnectedPeer p c)),
      addPeer = AddPeer,
      tryRemoteConnectRequest = (\<lambda>info c. returned (TryRemoteConnectRequest env info c) c),
      tryProxyConnect = (\<lambda>info c. returned (TryProxyConnect env info c) c),
      onFailure = OnConnectKnownParticipantsFailure,
      onWaitingForAllReplies = OnConnectKnownParticipantsWaitingForAllReplies,
      onAllRepliesReceived = OnConnectKnownParticipantsAllRepliesReceived\<rparr>"

type_synonym 'u vasio = "'u connection connect_known"

section \<open>Messages that reach the state machine\<close>

fun add_subscribers :: "nat \<Rightarrow> vasio_msg_subscriber list \<Rightarrow> 'u connection \<Rightarrow> 'u connection outcome" where
  "add_subscribers p [] c = Done c"
| "add_subscribers p (s # ss) c = bind_outcome (TryAddRemoteSubscriber p s c) (add_subscribers p ss)"

definition fail_registry_handshake :: "'u connection \<Rightarrow> 'u connection outcome" where
  "fail_registry_handshake c =
     (case set_exception ProtocolError (registryHandshake c) of
        Inl e \<Rightarrow> Raised e c
      | Inr pr \<Rightarrow> Raised ProtocolError (c\<lparr>registryHandshake := pr\<rparr>))"

definition complete_registry_handshake :: "'u connection \<Rightarrow> 'u connection outcome" where
  "complete_registry_handshake c =
     (case set_value () (registryHandshake c) of
        Inl e \<Rightarrow> Raised e c
      | Inr pr \<Rightarrow> Done (c\<lparr>registryHandshake := pr\<rparr>))"

definition ReceiveParticipantAnnouncementReply :: "'u environment \<Rightarrow> nat \<Rightarrow> serialized_message \<Rightarrow> 'u vasio \<Rightarrow> 'u vasio outcome" where
  "ReceiveParticipantAnnouncementReply env p m k =
     (case Deserialize get_ParticipantAnnouncementReply m of
        Inl e \<Rightarrow> Raised e k
      | Inr reply \<Rightarrow>
          (case find_object (outer k) p of
             None \<Rightarrow> Raised DanglingPointer k
           | Some q \<Rightarrow>
               let registry = (pi_participantId (peerInfo q) = REGISTRY_PARTICIPANT_ID)
               in if par_status reply = reply_Failed
                  then (if registry then on_outer fail_registry_handshake k else Done k)
                  else
                    bind_outcome (on_outer (\<lambda>c. add_subscribers p (par_subscribers reply)
                      (put_object p (q\<lparr>peerVersion := ExtractProtocolVersion (par_remoteHeader reply)\<rparr>) c)) k) (\<lambda>k.
                    if registry then on_outer complete_registry_handshake k
                    else HandlePeerEvent (vasio_methods env) (pi_participantName (peerInfo q))
                           peer_event.ParticipantAnnouncementReply k)))"

definition ReceiveKnownParticpants :: "nat \<Rightarrow> serialized_message \<Rightarrow> 'u vasio \<Rightarrow> 'u vasio outcome" where
  "ReceiveKnownParticpants p m k =
     (case Deserialize get_KnownParticipants m of
        Inl e \<Rightarrow> Raised e k
      | Inr msg \<Rightarrow>
          if \<not> ProtocolVersionSupported (kp_messageHeader msg)
          then on_outer (\<lambda>c. send_reply p \<lparr>par_remoteHeader = MakeRegistryMsgHeader (version c),
                 par_status = reply_Failed, par_subscribers = [], par_diagnostic = []\<rparr> c) k
          else bind_outcome (on_outer (update_peer p
                 (\<lambda>q. q\<lparr>peerVersion := ExtractProtocolVersion (kp_messageHeader msg)\<rparr>)) k)
                 (SetKnownParticipants (kp_peerInfos msg)))"

definition ReceiveRequest_Participant :: "'u environment \<Rightarrow> nat \<Rightarrow> remote_participant_connect_request \<Rightarrow> 'u vasio
    \<Rightarrow> 'u vasio outcome" where
  "ReceiveRequest_Participant env p msg k =
     (let me = participantName (outer k); target = pi_participantName (rq_requestTarget msg);
          isOrigin = (pi_participantName (rq_requestOrigin msg) = me); isTarget = (target = me)
      in if \<not> isOrigin \<and> isTarget \<and> rq_status msg = request_REQUEST then on_outer (accept_request p msg) k
         else if isOrigin \<and> \<not> isTarget \<and> rq_status msg = request_ANNOUNCEMENT
         then bind_outcome (on_outer (update_peer p (\<lambda>q. q\<lparr>peerInfo := rq_requestTarget msg\<rparr>)) k) (\<lambda>k.
              bind_outcome (HandlePeerEvent (vasio_methods env) target RemoteParticipantAnnouncement k) (\<lambda>k.
              on_outer (HandleConnectedPeer p) k))
         else if isOrigin \<and> \<not> isTarget \<and> rq_status msg = request_CONNECTING
         then HandlePeerEvent (vasio_methods env) target RemoteParticipantIsConnecting k
         else if isOrigin \<and> \<not> isTarget \<and> rq_status msg = request_FAILED_TO_CONNECT
         then HandlePeerEvent (vasio_methods env) target RemoteParticipantFailedToConnect k
         else Done k)"

text \<open>The version of the registry's peer stays as it is.\<close>

definition ReceiveRemoteParticipantConnectRequest :: "'u environment \<Rightarrow> nat
    \<Rightarrow> serialized_message \<Rightarrow> 'u vasio \<Rightarrow> 'u vasio outcome" where
  "ReceiveRemoteParticipantConnectRequest env p m k =
     (let h = registryMessageHeader m
      in if \<not> ProtocolVersionSupported h then Done k
         else bind_outcome (on_outer (update_peer p (\<lambda>q.
                if pi_participantId (peerInfo q) \<noteq> REGISTRY_PARTICIPANT_ID
                then q\<lparr>peerVersion := ExtractProtocolVersion h\<rparr> else q)) k) (\<lambda>k.
              case Deserialize get_RemoteParticipantConnectRequest m of
                Inl e \<Rightarrow> Raised e k
              | Inr msg \<Rightarrow>
                  if \<not> HasCapability RequestParticipantConnection (capabilities (outer k)) then Done k
                  else if participantId (outer k) = REGISTRY_PARTICIPANT_ID
                  then on_outer (ReceiveRequest_Registry env p msg) k
                  else ReceiveRequest_Participant env p msg k))"

text \<open>Which messages start with the preamble, by the version of the peer.\<close>

definition PreambleIsPresent :: "protocol_version \<Rightarrow> 8 word \<Rightarrow> bool" where
  "PreambleIsPresent v kind \<longleftrightarrow>
     \<not> (v = (3, 0) \<and> kind = AnnouncementReplyKind) \<and> \<not> (v = (3, 1) \<and> kind = ConnectRequestKind)"

definition ReceiveRegistryMessage :: "'u environment \<Rightarrow> nat
    \<Rightarrow> serialized_message \<Rightarrow> 'u vasio \<Rightarrow> 'u vasio outcome" where
  "ReceiveRegistryMessage env p m k =
     (case find_object (outer k) p of
        None \<Rightarrow> Raised DanglingPointer k
      | Some q \<Rightarrow>
          let kind = registryKindOf m
          in if PreambleIsPresent (peerVersion q) kind \<and> rh_preamble (registryMessageHeader m) \<noteq> registry_preamble
             then Done k
             else if kind = AnnouncementKind then on_outer (ReceiveParticipantAnnouncement env p m) k
             else if kind = AnnouncementReplyKind then ReceiveParticipantAnnouncementReply env p m k
             else if kind = KnownParticipantsKind then ReceiveKnownParticpants p m k
             else if kind = ConnectRequestKind then ReceiveRemoteParticipantConnectRequest env p m k
             else Done k)"

section \<open>Dispatching a message\<close>

text \<open>Reading leaves the bytes alone and goes forward.\<close>

definition reads_on :: "'a reader \<Rightarrow> bool" where
  "reads_on get \<longleftrightarrow> (\<forall>b x b'. get b = Inr (x, b') \<longrightarrow> storage b' = storage b \<and> message_buffer.rPos b \<le> message_buffer.rPos b')"

lemma reads_onD: "reads_on get \<Longrightarrow> get b = Inr (x, b') \<Longrightarrow> storage b' = storage b \<and> message_buffer.rPos b \<le> message_buffer.rPos b'"
  by (simp add: reads_on_def)

lemma reads_on_raw: "reads_on (get_raw n)"
  by (auto simp: reads_on_def get_raw_def split: if_splits)

lemma reads_on_then: "reads_on r \<Longrightarrow> (\<And>x. reads_on (k x)) \<Longrightarrow> reads_on (then_get r k)"
  unfolding reads_on_def then_get_def by (fastforce simp: bind_result_Inr_iff)

lemma reads_on_got: "reads_on (got x)"
  by (simp add: reads_on_def got_def)

lemma reads_on_word: "reads_on get_word"
  unfolding get_word_def by (intro reads_on_then reads_on_raw reads_on_got)

lemma reads_on_blob: "reads_on get_blob"
  unfolding get_blob_def by (intro reads_on_then reads_on_raw reads_on_word)

lemma reads_on_string: "reads_on get_string"
  unfolding get_string_def by (intro reads_on_then reads_on_blob reads_on_got)

lemma reads_on_proxy_header: "reads_on get_ProxyMessageHeader"
proof -
  have "reads_on (then_get get_word (\<lambda>v. got \<lparr>ph_version = v\<rparr>))"
    by (intro reads_on_then reads_on_word reads_on_got)
  then show ?thesis by (auto simp: get_ProxyMessageHeader_def reads_on_def split: if_splits)
qed

lemma reads_on_word_pair: "reads_on get_word_pair"
  unfolding get_word_pair_def get_pair_def by (intro reads_on_then reads_on_word reads_on_got)

lemma get_blob_length:
  assumes "get_blob b = Inr (bytes, b')"
  shows "length bytes < length (storage b)"
proof -
  obtain n :: "32 word" and b1 where b1: "get_word b = Inr (n, b1)" "get_raw (unat n) b1 = Inr (bytes, b')"
    using assms by (auto simp: get_blob_def then_get_def bind_result_Inr_iff)
  from b1(1) have "message_buffer.rPos b1 = message_buffer.rPos b + 4" "storage b1 = storage b"
    by (auto simp: get_word_def then_get_def got_def get_raw_def bind_result_Inr_iff split: if_splits)
  then show ?thesis using b1(2) by (auto simp: get_raw_def split: if_splits)
qed

lemma payload_shorter:
  assumes "Deserialize get_ProxyMessage m = Inr pm"
  shows "length (pm_payload pm) < length (storage (messageBuffer m))"
proof -
  let ?b = "messageBuffer m"
  obtain h b1 s b2 d b3 bytes b4 where "get_ProxyMessageHeader ?b = Inr (h, b1)" "get_string b1 = Inr (s, b2)"
    "get_string b2 = Inr (d, b3)" and blob: "get_blob b3 = Inr (bytes, b4)" "pm_payload pm = bytes"
    using assms
    by (auto simp: Deserialize_def get_ProxyMessage_def then_get_def got_def bind_result_Inr_iff map_sum_def
        split: if_splits sum.splits)
  then have "storage b3 = storage ?b"
    using reads_onD [OF reads_on_proxy_header] reads_onD [OF reads_on_string] by metis
  then show ?thesis using get_blob_length [OF blob(1)] blob(2) by simp
qed

lemma get_word_storage: "get_word b = Inr (x, b') \<Longrightarrow> storage b' = storage b"
  using reads_onD [OF reads_on_word] by blast

lemma read_registry_headers_storage:
  "read_registry_headers junk m = Inr m' \<Longrightarrow> storage (messageBuffer m') = storage (messageBuffer m)"
  by (auto simp: read_registry_headers_def Let_def bind_result_Inr_iff map_sum_def
      dest!: get_word_storage split: if_splits sum.splits)

lemma ReadNetworkHeaders_storage:
  assumes "ReadNetworkHeaders junk m = Inr m'"
  shows "storage (messageBuffer m') = storage (messageBuffer m)"
proof -
  obtain size :: "32 word" and b1 where b1: "get_word (messageBuffer m) = Inr (size, b1)"
    using assms by (auto simp: ReadNetworkHeaders_def bind_result_Inr_iff)
  obtain kind :: "8 word" and b2 where b2: "get_word b1 = Inr (kind, b2)"
    using assms b1 by (auto simp: ReadNetworkHeaders_def bind_result_Inr_iff)
  let ?m = "m\<lparr>messageSize := size, messageKindOf := kind, messageBuffer := b2\<rparr>"
  have m: "storage (messageBuffer ?m) = storage (messageBuffer m)"
    using get_word_storage [OF b1] get_word_storage [OF b2] by simp
  obtain m1 m2 where parts:
    "(if kind = SilKitRegistryMessageKind then read_registry_headers junk ?m else Inr ?m) = Inr m1"
    "(if kind = SilKitProxyMessageKind
      then bind_result (PeekProxyMessageHeader (messageBuffer m1)) (\<lambda>(header, b).
           Inr (m1\<lparr>proxyMessageHeader := Some header, messageBuffer := b\<rparr>))
      else Inr m1) = Inr m2"
    "(if IsMwOrSim kind
      then bind_result (get_word (messageBuffer m2)) (\<lambda>(index, b).
           bind_result (get_word_pair b) (\<lambda>(address, b).
           Inr (m2\<lparr>remoteIndex := index, endpointAddress := address, messageBuffer := b\<rparr>)))
      else Inr m2) = Inr m'"
    using assms unfolding ReadNetworkHeaders_def b1 bind_result_simps prod.case b2 Let_def bind_result_Inr_iff by blast
  have "storage (messageBuffer m1) = storage (messageBuffer ?m)"
    using parts(1) read_registry_headers_storage [of junk ?m m1] by (auto split: if_splits)
  moreover have "storage (messageBuffer m2) = storage (messageBuffer m1)"
    using parts(2) reads_onD [OF reads_on_proxy_header]
    by (auto simp: PeekProxyMessageHeader_def bind_result_Inr_iff SetReadPos_def split: if_splits)
  moreover have "storage (messageBuffer m') = storage (messageBuffer m2)"
    using parts(3) reads_onD [OF reads_on_word_pair]
    by (auto simp: bind_result_Inr_iff dest!: get_word_storage split: if_splits)
  ultimately show ?thesis using m by simp
qed

lemma from_blob_storage: "from_blob junk blob = Inr m \<Longrightarrow> storage (messageBuffer m) = blob"
  unfolding from_blob_def by (drule ReadNetworkHeaders_storage) (simp add: buffer_of_def)

text \<open>The header of a proxy message is always there: \<open>from_blob\<close> has read it.\<close>

function OnSocketData :: "'u environment \<Rightarrow> nat \<Rightarrow> serialized_message \<Rightarrow> 'u vasio \<Rightarrow> 'u vasio outcome" where
  "OnSocketData env p m k =
     (let kind = messageKindOf m
      in if kind = SubscriptionAnnouncementKind then on_outer (ReceiveSubscriptionAnnouncement p m) k
         else if kind = SubscriptionAcknowledgeKind then on_outer (ReceiveSubscriptionAcknowledge p m) k
         else if kind = SilKitMwMsgKind \<or> kind = SilKitSimMsgKind then on_outer (ReceiveRawSilKitMessage env p m) k
         else if kind = SilKitRegistryMessageKind then ReceiveRegistryMessage env p m k
         else if kind = SilKitProxyMessageKind
         then
           (if map_option ph_version (proxyMessageHeader m) \<noteq> Some 0 then Done k
            else case Deserialize get_ProxyMessage m of
              Inl e \<Rightarrow> Raised e k
            | Inr pm \<Rightarrow>
                if \<not> HasCapability ProxyMessageCapability (capabilities (outer k)) then Done k
                else case find_object (outer k) p of
                  None \<Rightarrow> Raised DanglingPointer k
                | Some q \<Rightarrow>
                    if pi_participantName (peerInfo q) = pm_source pm
                    then on_outer (relay_proxy_message (peerSimulation q) pm) k
                    else if participantName (outer k) = pm_destination pm
                    then
                      (case proxied_peer env p q (pm_source pm) (outer k) of
                         (p', Done c) \<Rightarrow>
                           if pm_payload pm = [] then on_outer (OnPeerShutdown env p') (k\<lparr>outer := c\<rparr>)
                           else (case from_blob (memoryBehind env) (pm_payload pm) of
                                   Inl e \<Rightarrow> Raised e (k\<lparr>outer := c\<rparr>)
                                 | Inr m' \<Rightarrow> OnSocketData env p' m' (k\<lparr>outer := c\<rparr>))
                       | (p', Raised e c) \<Rightarrow> Raised e (k\<lparr>outer := c\<rparr>)
                       | (p', OutOfFuel) \<Rightarrow> OutOfFuel)
                    else Done k)
         else Done k)"
  by pat_completeness auto

termination OnSocketData
  by (relation "measure (\<lambda>(env, p, m, k). length (storage (messageBuffer m)))")
    (auto dest!: from_blob_storage payload_shorter)

declare OnSocketData.simps [simp del]

text \<open>A message that a stream has cut out of its bytes (\<open>VAsioPeer::DispatchBuffer\<close>).\<close>

definition receive_blob :: "'u environment \<Rightarrow> nat \<Rightarrow> byte list \<Rightarrow> 'u vasio \<Rightarrow> 'u vasio outcome" where
  "receive_blob env p blob k =
     (case from_blob (memoryBehind env) blob of
        Inl e \<Rightarrow> Raised e k
      | Inr m \<Rightarrow>
          (case find_object (outer k) p of
             None \<Rightarrow> Raised DanglingPointer k
           | Some q \<Rightarrow> OnSocketData env p (message_SetProtocolVersion (peerVersion q) m) k))"

end
