(* ===== verification/VAsioJoin.thy ===== *)
theory VAsioJoin
  imports VAsioHandshake
begin

text \<open>
  Joining a simulation (\<open>VAsioConnection::JoinSimulation\<close>): everything that happens to a
  connection as a step relation, and what the thread that joins is told. The state machine
  over the known participants is an interface (\<open>connection_laws\<close>); here it is interpreted
  on the connection's own methods.
\<close>

section \<open>What the handshake leaves alone\<close>

definition ignores_handshake :: "('u connection \<Rightarrow> 'a) \<Rightarrow> bool" where
  "ignores_handshake f \<longleftrightarrow> ignores_shutdown f \<and> ignores_registration f \<and> (\<forall>c x. f (c\<lparr>nextPeer := x\<rparr>) = f c) \<and>
     (\<forall>c x. f (c\<lparr>peerToProxyPeers := x\<rparr>) = f c) \<and> (\<forall>c x. f (c\<lparr>proxySourceToDestinations := x\<rparr>) = f c) \<and>
     (\<forall>c x. f (c\<lparr>registryHandshake := x\<rparr>) = f c) \<and> (\<forall>c x. f (c\<lparr>aggregating := x\<rparr>) = f c) \<and>
     (\<forall>c x. f (c\<lparr>shuttingDown := x\<rparr>) = f c)"

lemma ignores_handshakeD:
  assumes "ignores_handshake f"
  shows "ignores_trace f" "ignores_links f" "ignores_acks f" "ignores_objects f" "ignores_registration f"
    "ignores_shutdown f"
  using assms by (auto simp: ignores_handshake_def ignores_shutdown_def ignores_registration_def ignores_links_def)

lemma Associate_same: "ignores_shutdown f \<Longrightarrow> f (AssociateParticipantNameAndPeer sim n p c) = f c"
  by (simp add: AssociateParticipantNameAndPeer_def ignores_shutdown_def)

lemma new_peer_object_same: "ignores_handshake f \<Longrightarrow> f (snd (new_peer_object q c)) = f c"
proof -
  assume f: "ignores_handshake f"
  then have "f (c\<lparr>peerObjects := x, nextPeer := y\<rparr>) = f c" for x y
    by (simp add: ignores_handshake_def ignores_shutdown_def ignores_objects_def)
  then show ?thesis by (simp add: new_peer_object_def)
qed

lemma MakeVAsioPeer_same: "ignores_handshake f \<Longrightarrow> f (snd (MakeVAsioPeer env c)) = f c"
  by (simp add: MakeVAsioPeer_def new_peer_object_same)

lemma MakeVAsioProxyPeer_same: "ignores_handshake f \<Longrightarrow> f (snd (MakeVAsioProxyPeer env info u q c)) = f c"
  by (simp add: MakeVAsioProxyPeer_def new_peer_object_same)

lemma AddPeer_leaves:
  assumes "ignores_handshake f"
  shows "leaves f c (AddPeer p c)"
proof -
  have "f (c\<lparr>trace := x, peers := y\<rparr>) = f c" "f (c\<lparr>peerToProxyPeers := z, peers := y\<rparr>) = f c" for x y z
    using assms by (simp_all add: ignores_handshake_def ignores_shutdown_def ignores_links_def ignores_trace_def)
  then show ?thesis
    by (auto simp: AddPeer_def emit_def Let_def intro!: leaves_with_peer split: option.split)
qed

lemma SendParticipantAnnouncement_leaves: "ignores_trace f \<Longrightarrow> leaves f c (SendParticipantAnnouncement p c)"
  by (auto simp: SendParticipantAnnouncement_def intro!: leaves_with_peer send_to_leaves split: sum.split)

lemma HandleConnectedPeer_leaves:
  assumes "ignores_handshake f"
  shows "leaves f c (HandleConnectedPeer p c)"
  unfolding HandleConnectedPeer_def Let_def
  by (intro leaves_bind leaves_update_peer SendParticipantAnnouncement_leaves leaves_with_peer
      ignores_handshakeD [OF assms])
    (simp add: Associate_same ignores_handshakeD [OF assms])

lemma send_reply_leaves: "ignores_trace f \<Longrightarrow> leaves f c (send_reply p r c)"
  by (auto simp: send_reply_def intro!: leaves_with_peer send_to_leaves)

lemma destroy_on_throw_leaves: "ignores_objects f \<Longrightarrow> leaves f c r \<Longrightarrow> leaves f c (destroy_on_throw p r)"
  by (auto simp: destroy_on_throw_def ignores_objects_def split: outcome.split)

lemma returned_leaves: "leaves f c (snd r) \<Longrightarrow> f (snd (returned r c)) = f c"
  by (auto simp: returned_def split: outcome.split)

lemma to_registry_leaves: "(\<And>r. leaves f c (k r)) \<Longrightarrow> leaves f c (to_registry c k)"
  by (simp add: to_registry_def split: option.split)

lemma send_request_leaves: "ignores_trace f \<Longrightarrow> leaves f c (send_request p msg c)"
  by (simp add: send_request_def send_to_leaves)

lemma TryRemoteConnectRequest_leaves:
  "ignores_trace f \<Longrightarrow> leaves f c (snd (TryRemoteConnectRequest env info c))"
  by (auto simp: TryRemoteConnectRequest_def split: sum.split bool.split intro!: to_registry_leaves send_request_leaves)

lemma TryProxyConnect_leaves:
  assumes "ignores_handshake f"
  shows "leaves f c (snd (TryProxyConnect env info c))"
proof -
  have "leaves f c (let (p, c) = MakeVAsioProxyPeer env info r qr c
      in bind_outcome (destroy_on_throw p (HandleConnectedPeer p c)) (AddPeer p))" for r qr
  proof -
    obtain p c' where c': "MakeVAsioProxyPeer env info r qr c = (p, c')" by force
    then have "f c' = f c" using MakeVAsioProxyPeer_same [OF assms, of env info r qr c] by simp
    moreover have "leaves f c' (bind_outcome (destroy_on_throw p (HandleConnectedPeer p c')) (AddPeer p))"
      by (intro leaves_bind destroy_on_throw_leaves HandleConnectedPeer_leaves AddPeer_leaves assms
          ignores_handshakeD [OF assms])
    ultimately show ?thesis using c' by (simp add: leaves_def)
  qed
  then show ?thesis
    by (auto simp: TryProxyConnect_def split: sum.split bool.split intro!: to_registry_leaves leaves_with_peer)
qed

lemma OnPeerShutdown_leaves:
  assumes "ignores_handshake f"
  shows "leaves f c (OnPeerShutdown env p c)"
proof -
  have "leaves f c (shutdown_run env work c)" for work
  proof (induction env work c rule: shutdown_run.induct)
    case (1 env c)
    then show ?case by (simp add: shutdown_run.simps)
  next
    case (2 env p work c)
    have "f (c\<lparr>peerToProxyPeers := AList.delete p (peerToProxyPeers c)\<rparr>) = f c"
      using assms by (simp add: ignores_handshake_def)
    then show ?case using 2 by (cases "map_of (peerToProxyPeers c) p") (simp_all add: shutdown_run.simps leaves_def)
  next
    case (3 env p work c)
    have "leaves f c (finish_shutdown env p c)" by (rule finish_shutdown_leaves [OF ignores_handshakeD(6) [OF assms]])
    then show ?case using 3 by (cases "finish_shutdown env p c") (simp_all add: shutdown_run.simps leaves_def)
  qed
  then show ?thesis by (simp add: OnPeerShutdown_def)
qed

section \<open>The state machine over the known participants\<close>

definition join_promises :: "'u connection \<Rightarrow> unit promise \<times> unit promise" where
  "join_promises c = (startWaiting c, allHandshakes c)"

lemma ignores_join_promises [simp]: "ignores_handshake join_promises"
  by (simp add: ignores_handshake_def ignores_shutdown_def ignores_defs join_promises_def)

definition keeps_promises :: "'u connection \<Rightarrow> 'u connection \<Rightarrow> bool" where
  "keeps_promises c c' \<longleftrightarrow> join_promises c' = join_promises c"

lemma vasio_methods_sel [simp]:
  "handleConnectedPeer (vasio_methods env) p c = destroy_on_throw p (HandleConnectedPeer p c)"
  "addPeer (vasio_methods env) = AddPeer"
  "tryRemoteConnectRequest (vasio_methods env) info c = returned (TryRemoteConnectRequest env info c) c"
  "tryProxyConnect (vasio_methods env) info c = returned (TryProxyConnect env info c) c"
  "onFailure (vasio_methods env) = OnConnectKnownParticipantsFailure"
  "onWaitingForAllReplies (vasio_methods env) = OnConnectKnownParticipantsWaitingForAllReplies"
  "onAllRepliesReceived (vasio_methods env) = OnConnectKnownParticipantsAllRepliesReceived"
  by (simp_all add: vasio_methods_def)

interpretation join: connection_laws "vasio_methods env" join_promises keeps_promises for env
proof unfold_locales
  note part = ignores_handshakeD [OF ignores_join_promises]
  fix c c' :: "'a connection" and p info
  show "join_promises (snd (makeVAsioPeer (vasio_methods env) info c)) = join_promises c"
    using MakeVAsioPeer_same [OF ignores_join_promises, of env c]
    by (auto simp: vasio_methods_def put_object_same [OF part(4)] split: prod.split option.split)
  show "join_promises c' = join_promises c" if "state_after (handleConnectedPeer (vasio_methods env) p c) = Some c'"
    using leavesD [OF destroy_on_throw_leaves [OF part(4) HandleConnectedPeer_leaves [OF ignores_join_promises]]] that
    by simp
  show "join_promises c' = join_promises c" if "state_after (addPeer (vasio_methods env) p c) = Some c'"
    using leavesD [OF AddPeer_leaves [OF ignores_join_promises]] that by simp
  show "join_promises (snd (tryRemoteConnectRequest (vasio_methods env) info c)) = join_promises c"
    by (simp add: returned_leaves TryRemoteConnectRequest_leaves part(1))
  show "join_promises (snd (tryProxyConnect (vasio_methods env) info c)) = join_promises c"
    by (simp add: returned_leaves TryProxyConnect_leaves)
qed (simp_all add: join_promises_def keeps_promises_def OnConnectKnownParticipantsFailure_def
    OnConnectKnownParticipantsWaitingForAllReplies_def OnConnectKnownParticipantsAllRepliesReceived_def)


section \<open>Everything that happens to a connection\<close>

text \<open>
  The registry's peer: its stream is read and it is announced to
  (\<open>ConnectParticipantToRegistryAndStartIoWorker\<close>, after the connection was made).
\<close>

definition ConnectToRegistry :: "'u environment \<Rightarrow> vasio_peer_info \<Rightarrow> 'u connection \<Rightarrow> 'u connection outcome" where
  "ConnectToRegistry env info c =
     (let (p, c) = MakeVAsioPeer env c;
          c = c\<lparr>registryPeer := Some p\<rparr>
      in bind_outcome (update_peer p (\<lambda>q. q\<lparr>peerInfo := info\<rparr>) c) (\<lambda>c.
         SendParticipantAnnouncement p (emit (StreamStartRead p) c)))"

text \<open>\<open>Uri{connectUri}.Path()\<close> and the acceptors, at the start of \<open>JoinSimulation\<close>.\<close>

definition begin_join :: "string \<Rightarrow> string list \<Rightarrow> 'u connection \<Rightarrow> 'u connection outcome" where
  "begin_join connectUri opened c =
     (case Parse connectUri of
        Inl e \<Rightarrow> Raised e c
      | Inr u \<Rightarrow>
          let c = c\<lparr>simulationName := uriPath u, allowAnySimulationName := False, acceptors := acceptors c @ opened\<rparr>
          in if acceptors c = [] then Raised SilKitError c else Done c)"

datatype 'u connection_input =
    Received nat "byte list"
  | StreamClosed nat
  | Accepted
  | JoinBegins string "string list"
  | RegistryConnected vasio_peer_info
  | RemoteConnectSucceeded vasio_peer_info
  | RemoteConnectFailed vasio_peer_info
  | RegistrationBegins silkit_service
  | Registration silkit_service
  | WhenSubscribed nat
  | Publish service_descriptor silkit_message
  | PublishTo service_descriptor string silkit_message
  | CountReceivers service_descriptor string
  | AggregationOn
  | ShutdownNotified
  | UserDoes 'u
  | StartsConnecting
  | DirectConnected string
  | DirectRefused string
  | RequestTimedOut string

text \<open>\<open>None\<close>: the input cannot happen now, or its thread blocks.\<close>

definition with_connecting :: "(connecting_peer \<Rightarrow> bool) \<Rightarrow> (string \<Rightarrow> connecting_peer \<Rightarrow> 'u vasio \<Rightarrow> 'u vasio outcome)
    \<Rightarrow> string \<Rightarrow> 'u vasio \<Rightarrow> 'u vasio outcome option" where
  "with_connecting enabled f n k =
     (case find_peer k n of
        None \<Rightarrow> None
      | Some p \<Rightarrow> if enabled p then Some (f n p k) else None)"

fun vasio_input :: "'u environment \<Rightarrow> 'u connection_input \<Rightarrow> 'u vasio \<Rightarrow> 'u vasio outcome option" where
  "vasio_input env (Received p blob) k = Some (receive_blob env p blob k)"
| "vasio_input env (StreamClosed p) k = Some (on_outer (OnPeerShutdown env p) k)"
| "vasio_input env Accepted k = Some (on_outer (OnAsyncAcceptSuccess env) k)"
| "vasio_input env (JoinBegins connectUri opened) k = Some (on_outer (begin_join connectUri opened) k)"
| "vasio_input env (RegistryConnected info) k = Some (on_outer (ConnectToRegistry env info) k)"
| "vasio_input env (RemoteConnectSucceeded info) k = Some (on_outer (RemoteConnected env info) k)"
| "vasio_input env (RemoteConnectFailed info) k = Some (on_outer (OnRemoteConnectionFailure info) k)"
| "vasio_input env (RegistrationBegins s) k = Some (on_outer (BeginRegistration s) k)"
| "vasio_input env (Registration s) k = Some (on_outer (RegisterSilKitServiceImpl s) k)"
| "vasio_input env (WhenSubscribed h) k = Some (on_outer (\<lambda>c. Done (AddAsyncSubscriptionsCompletionHandler h c)) k)"
| "vasio_input env (Publish d msg) k = Some (on_outer (SendMsgImpl d msg) k)"
| "vasio_input env (PublishTo d target msg) k = Some (on_outer (SendMsgToTargetImpl d target msg) k)"
| "vasio_input env (CountReceivers d name) k = Some (on_outer (\<lambda>c. Done (snd (GetNumberOfRemoteReceiversOf d name c))) k)"
| "vasio_input env AggregationOn k = Some (on_outer (\<lambda>c. Done (EnableAggregationOfPeers c)) k)"
| "vasio_input env ShutdownNotified k = Some (on_outer (\<lambda>c. Done (NotifyShutdown c)) k)"
| "vasio_input env (UserDoes u) k = Some (on_outer (\<lambda>c. Done (c\<lparr>userState := u\<rparr>)) k)"
| "vasio_input env StartsConnecting k = StartConnecting (vasio_methods env) k"
| "vasio_input env (DirectConnected n) k = with_connecting directConnectPeer (OnConnectPeerSuccess (vasio_methods env)) n k"
| "vasio_input env (DirectRefused n) k = with_connecting directConnectPeer (OnConnectPeerFailure (vasio_methods env)) n k"
| "vasio_input env (RequestTimedOut n) k = with_connecting remoteConnectRequestTimer (OnTimerExpired (vasio_methods env)) n k"

definition vasio_step :: "'u environment \<Rightarrow> 'u vasio \<Rightarrow> 'u vasio \<Rightarrow> bool" where
  "vasio_step env k k' \<longleftrightarrow> (\<exists>i out. vasio_input env i k = Some out \<and> state_after out = Some k')"

fun vasio_run :: "'u environment \<Rightarrow> 'u connection_input list \<Rightarrow> 'u vasio \<Rightarrow> 'u vasio option" where
  "vasio_run env [] k = Some k"
| "vasio_run env (i # is) k =
     (case vasio_input env i k of
        None \<Rightarrow> None
      | Some out \<Rightarrow> (case state_after out of None \<Rightarrow> None | Some k' \<Rightarrow> vasio_run env is k'))"

definition new_vasio :: "string \<Rightarrow> 64 word \<Rightarrow> string list \<Rightarrow> protocol_version \<Rightarrow> 'u \<Rightarrow> 'u vasio" where
  "new_vasio name pid caps v u = new_connect_known (new_connection name pid caps v u)"

section \<open>Waiting\<close>

text \<open>
  What a wait returns: nothing as long as it waits. The waits for the registry and for the
  replies have a timeout (\<open>timedOut\<close>), the one in \<open>ConnectToKnownParticipants\<close> has none.
\<close>

fun future_get :: "'a promise \<Rightarrow> 'a result option" where
  "future_get Unset = None"
| "future_get (Fulfilled a) = Some (Inr a)"
| "future_get (Broken e) = Some (Inl e)"

definition future_wait_for :: "bool \<Rightarrow> 'a promise \<Rightarrow> 'a result option" where
  "future_wait_for timedOut p = (if p = Unset \<and> timedOut then Some (Inl ProtocolError) else future_get p)"

definition WaitForRegistryHandshakeToComplete :: "bool \<Rightarrow> 'u vasio \<Rightarrow> unit result option" where
  "WaitForRegistryHandshakeToComplete timedOut k = future_wait_for timedOut (registryHandshake (outer k))"

definition ConnectToKnownParticipants :: "'u vasio \<Rightarrow> unit result option" where
  "ConnectToKnownParticipants k = future_get (startWaiting (outer k))"

definition WaitForAllReplies :: "bool \<Rightarrow> 'u vasio \<Rightarrow> unit result option" where
  "WaitForAllReplies timedOut k = future_wait_for timedOut (allHandshakes (outer k))"

section \<open>Every input is a sequence of steps of the state machine\<close>

definition reaches :: "'u environment \<Rightarrow> 'u vasio \<Rightarrow> 'u vasio outcome \<Rightarrow> bool" where
  "reaches env k out \<longleftrightarrow>
     (\<forall>k'. state_after out = Some k' \<longrightarrow> (connect_step (vasio_methods env) keeps_promises)\<^sup>*\<^sup>* k k')"

lemma reaches_refl [simp]: "reaches env k (Done k)" "reaches env k (Raised e k)" "reaches env k OutOfFuel"
  by (simp_all add: reaches_def)

lemma reaches_trans:
  "(connect_step (vasio_methods env) keeps_promises)\<^sup>*\<^sup>* k k1 \<Longrightarrow> reaches env k1 out \<Longrightarrow> reaches env k out"
  by (auto simp: reaches_def intro: rtranclp_trans)

lemma reaches_bind:
  assumes "reaches env k r" "\<And>k'. r = Done k' \<Longrightarrow> reaches env k' (f k')"
  shows "reaches env k (bind_outcome r f)"
  using assms by (cases r) (auto intro: reaches_trans simp: reaches_def)

lemma outside_step: "join_promises c = join_promises (outer k) \<Longrightarrow>
    (connect_step (vasio_methods env) keeps_promises)\<^sup>*\<^sup>* k (k\<lparr>outer := c\<rparr>)"
  by (rule r_into_rtranclp, rule connect_step.outside) (simp add: keeps_promises_def)

lemma reaches_outer: "leaves join_promises (outer k) (f (outer k)) \<Longrightarrow> reaches env k (on_outer f k)"
  by (auto simp: reaches_def on_outer_def intro!: outside_step split: outcome.split)

lemma reaches_event: "reaches env k (HandlePeerEvent (vasio_methods env) n ev k)"
  by (auto simp: reaches_def intro!: r_into_rtranclp connect_step.event)

lemma reaches_known: "reaches env k (SetKnownParticipants infos k)"
  by (auto simp: reaches_def intro!: r_into_rtranclp connect_step.known)

lemmas join_part [simp] = ignores_handshakeD [OF ignores_join_promises]

lemma fail_registry_handshake_leaves: "leaves join_promises c (fail_registry_handshake c)"
  by (simp add: fail_registry_handshake_def join_promises_def split: sum.split)

lemma complete_registry_handshake_leaves: "leaves join_promises c (complete_registry_handshake c)"
  by (simp add: complete_registry_handshake_def join_promises_def split: sum.split)

lemma add_subscribers_leaves: "ignores_links f \<Longrightarrow> leaves f c (add_subscribers p ss c)"
proof (induction ss arbitrary: c)
  case (Cons s ss)
  then show ?case by (auto intro!: leaves_bind TryAddRemoteSubscriber_leaves)
qed simp

lemma reaches_reply: "reaches env k (ReceiveParticipantAnnouncementReply env p m k)"
proof -
  have "leaves join_promises (outer k) (add_subscribers p ss (put_object p q (outer k)))" for q ss
    using add_subscribers_leaves [of join_promises "put_object p q (outer k)" p ss] by (simp add: leaves_def)
  then show ?thesis
    by (auto simp: ReceiveParticipantAnnouncementReply_def Let_def split: sum.split option.split
        intro!: reaches_bind reaches_event reaches_outer fail_registry_handshake_leaves complete_registry_handshake_leaves)
qed

lemma reaches_known_participants: "reaches env k (ReceiveKnownParticpants p m k)"
  by (auto simp: ReceiveKnownParticpants_def split: sum.split
      intro!: reaches_bind reaches_known reaches_outer send_reply_leaves leaves_update_peer)

lemma accept_request_leaves: "ignores_trace f \<Longrightarrow> leaves f c (accept_request p msg c)"
  using send_request_leaves [of f "emit e c" p m for e m] by (fastforce simp: accept_request_def leaves_def)

lemma reaches_request_participant: "reaches env k (ReceiveRequest_Participant env p msg k)"
  by (auto simp: ReceiveRequest_Participant_def Let_def
      intro!: reaches_bind reaches_event reaches_outer accept_request_leaves HandleConnectedPeer_leaves leaves_update_peer)

lemma ReceiveRequest_Registry_leaves: "ignores_trace f \<Longrightarrow> leaves f c (ReceiveRequest_Registry env p msg c)"
  by (auto simp: ReceiveRequest_Registry_def split: option.split sum.split
      intro!: leaves_with_peer send_request_leaves)

lemma reaches_request: "reaches env k (ReceiveRemoteParticipantConnectRequest env p m k)"
  by (auto simp: ReceiveRemoteParticipantConnectRequest_def Let_def split: sum.split
      intro!: reaches_bind reaches_outer reaches_request_participant ReceiveRequest_Registry_leaves leaves_update_peer)

text \<open>What the connection relies on: an announcement receiver does not touch the promises.\<close>

definition proper_receivers :: "'u environment \<Rightarrow> bool" where
  "proper_receivers env \<longleftrightarrow> (\<forall>f\<in>set (announcementReceivers env). \<forall>p a c. leaves join_promises c (f p a c))"

lemma SendFailed_leaves: "ignores_trace f \<Longrightarrow> leaves f c (SendFailedParticipantAnnouncementReply p v d c)"
  by (simp add: SendFailedParticipantAnnouncementReply_def send_reply_leaves)

lemma SendReply_leaves: "ignores_trace f \<Longrightarrow> leaves f c (SendParticipantAnnouncementReply p c)"
  by (auto simp: SendParticipantAnnouncementReply_def intro!: leaves_with_peer send_reply_leaves)

lemma call_receivers_leaves:
  "\<forall>g\<in>set fs. \<forall>p a c. leaves f c (g p a c) \<Longrightarrow> leaves f c (call_receivers fs p a c)"
proof (induction fs arbitrary: c)
  case (Cons g fs)
  then show ?case by (auto intro!: leaves_bind)
qed simp

lemma ReceiveParticipantAnnouncement_leaves:
  assumes "ignores_handshake f" "\<forall>g\<in>set (announcementReceivers env). \<forall>p a c. leaves f c (g p a c)"
  shows "leaves f c (ReceiveParticipantAnnouncement env p m c)"
proof -
  note part = ignores_handshakeD [OF assms(1)]
  have refused: "leaves f c (SendFailedParticipantAnnouncementReply p v d c)" for c v d
    by (rule SendFailed_leaves [OF part(1)])
  have replied: "leaves f c (SendParticipantAnnouncementReply p (AssociateParticipantNameAndPeer sim n p c))" for c sim n
    using SendReply_leaves [OF part(1), of "AssociateParticipantNameAndPeer sim n p c" p]
    by (simp add: leaves_def Associate_same [OF part(6)])
  have announced: "leaves f c (case call_receivers (announcementReceivers env) p a c of
      Raised e c \<Rightarrow> if is_SilKitError e
        then with_peer p c (\<lambda>q. SendFailedParticipantAnnouncementReply p (peerVersion q) (errorText env e) c)
        else Raised e c
    | r \<Rightarrow> bind_outcome r (\<lambda>c. SendParticipantAnnouncementReply p (AssociateParticipantNameAndPeer sim n p c)))"
    for c a sim n
  proof -
    have r: "leaves f c (call_receivers (announcementReceivers env) p a c)"
      by (rule call_receivers_leaves [OF assms(2)])
    show ?thesis
    proof (cases "call_receivers (announcementReceivers env) p a c")
      case (Done c')
      then show ?thesis using r replied [of c' sim n] by (simp add: leaves_def)
    next
      case (Raised e c')
      have "leaves f c' (with_peer p c' (\<lambda>q. SendFailedParticipantAnnouncementReply p (peerVersion q) (errorText env e) c'))"
        by (intro leaves_with_peer refused)
      then show ?thesis using r Raised by (simp add: leaves_def)
    qed simp
  qed
  show ?thesis
    by (auto simp: ReceiveParticipantAnnouncement_def Let_def split: sum.split
        intro!: leaves_bind leaves_update_peer part refused announced)
qed

lemma reaches_registry_message:
  assumes "proper_receivers env"
  shows "reaches env k (ReceiveRegistryMessage env p m k)"
proof -
  have "leaves join_promises (outer k) (ReceiveParticipantAnnouncement env p m (outer k))"
    using assms by (intro ReceiveParticipantAnnouncement_leaves) (simp_all add: proper_receivers_def)
  then show ?thesis
    by (auto simp: ReceiveRegistryMessage_def Let_def split: option.split
        intro!: reaches_reply reaches_known_participants reaches_request reaches_outer)
qed

lemma relay_leaves: "ignores_handshake f \<Longrightarrow> leaves f c (relay_proxy_message sim pm c)"
proof -
  assume f: "ignores_handshake f"
  then have "f (c\<lparr>proxySourceToDestinations := x\<rparr>) = f c" for c x by (simp add: ignores_handshake_def)
  then show ?thesis
    by (auto simp: relay_proxy_message_def intro!: leaves_bind send_to_leaves ignores_handshakeD [OF f] split: option.split)
qed

lemma proxied_peer_leaves:
  assumes "ignores_handshake f"
  shows "leaves f c (snd (proxied_peer env u q source c))"
proof -
  obtain p c' where c': "MakeVAsioProxyPeer env no_peer_info u q c = (p, c')" by force
  then have "f c' = f c" using MakeVAsioProxyPeer_same [OF assms, of env no_peer_info u q c] by simp
  moreover have "leaves f c' (AddPeer p c')" by (rule AddPeer_leaves [OF assms])
  ultimately show ?thesis using c' by (auto simp: proxied_peer_def leaves_def split: option.split)
qed

lemma reaches_socket_data:
  assumes "proper_receivers env"
  shows "reaches env k (OnSocketData env p m k)"
  using assms
proof (induction env p m k rule: OnSocketData.induct)
  case (1 env p m k)
  have proxied: "(connect_step (vasio_methods env) keeps_promises)\<^sup>*\<^sup>* k (k\<lparr>outer := c\<rparr>)"
    if "proxied_peer env p q source (outer k) = (p', Done c) \<or> proxied_peer env p q source (outer k) = (p', Raised e c)"
    for q source p' c e
    using proxied_peer_leaves [OF ignores_join_promises, of "outer k" env p q source] that
    by (intro outside_step) auto
  have raised: "reaches env k (Raised e (k\<lparr>outer := c\<rparr>))"
    if "proxied_peer env p q source (outer k) = (p', Done c) \<or> proxied_peer env p q source (outer k) = (p', Raised e' c)"
    for q source p' c e e'
    using proxied [OF that] by (simp add: reaches_def)
  have closed: "reaches env k (on_outer (OnPeerShutdown env p') (k\<lparr>outer := c\<rparr>))"
    if "proxied_peer env p q source (outer k) = (p', Done c)" for q source p' c
    by (rule reaches_trans [OF proxied]) (use that in \<open>auto intro!: reaches_outer OnPeerShutdown_leaves\<close>)
  have nested: "reaches env k (OnSocketData env p' m' (k\<lparr>outer := c\<rparr>))"
    if "proxied_peer env p q source (outer k) = (p', Done c)" "reaches env (k\<lparr>outer := c\<rparr>) (OnSocketData env p' m' (k\<lparr>outer := c\<rparr>))"
    for q source p' c m'
    using reaches_trans [OF proxied that(2)] that(1) by blast
  have IH: "reaches env k (OnSocketData env p' m' (k\<lparr>outer := c\<rparr>))"
    if "messageKindOf m = SilKitProxyMessageKind" "map_option ph_version (proxyMessageHeader m) = Some 0"
      "Deserialize get_ProxyMessage m = Inr pm" "HasCapability ProxyMessageCapability (capabilities (outer k))"
      "find_object (outer k) p = Some q" "pi_participantName (peerInfo q) \<noteq> pm_source pm"
      "participantName (outer k) = pm_destination pm" "proxied_peer env p q (pm_source pm) (outer k) = (p', Done c)"
      "pm_payload pm \<noteq> []" "from_blob (memoryBehind env) (pm_payload pm) = Inr m'"
    for pm q p' c m'
    by (rule nested [OF that(8)], rule "1.IH" [OF refl _ _ _ _ _ _ that(3) _ that(5-7) that(8) [symmetric] refl that(9,10)])
      (use that "1.prems" in simp_all)
  show ?case
    by (subst OnSocketData.simps)
      (auto simp: Let_def split: sum.split option.split prod.split outcome.split
        intro!: reaches_outer reaches_registry_message [OF "1.prems"] ReceiveSubscriptionAnnouncement_leaves
          ReceiveSubscriptionAcknowledge_leaves ReceiveRawSilKitMessage_leaves relay_leaves raised closed
        intro: IH)
qed

lemma RemoteConnected_leaves:
  assumes "ignores_handshake f"
  shows "leaves f c (RemoteConnected env info c)"
proof -
  note part = ignores_handshakeD [OF assms]
  obtain p c' where c': "MakeVAsioPeer env c = (p, c')" by force
  then have "f c' = f c" using MakeVAsioPeer_same [OF assms, of env c] by simp
  moreover have "leaves f c'' (OnRemoteConnectionSuccess p c'')" for c''
    by (auto simp: OnRemoteConnectionSuccess_def split: sum.split
        intro!: leaves_with_peer leaves_bind send_request_leaves AddPeer_leaves assms part)
  then have "leaves f c' (bind_outcome (update_peer p (\<lambda>q. q\<lparr>peerInfo := info\<rparr>) c') (OnRemoteConnectionSuccess p))"
    by (intro leaves_bind leaves_update_peer part)
  ultimately show ?thesis using c' by (simp add: RemoteConnected_def leaves_def)
qed

lemma touch_links_same: "ignores_links f \<Longrightarrow> f (snd (touch_links found ts n c)) = f c"
proof (induction ts arbitrary: c)
  case (Cons t ts)
  then show ?case by (auto simp: ignores_links_def split: option.split)
qed simp

lemma ConnectToRegistry_leaves: "leaves join_promises c (ConnectToRegistry env info c)"
proof -
  obtain p c' where c': "MakeVAsioPeer env c = (p, c')" by force
  then have "join_promises c' = join_promises c" using MakeVAsioPeer_same [OF ignores_join_promises, of env c] by simp
  then have "join_promises (c'\<lparr>registryPeer := Some p\<rparr>) = join_promises c" by (simp add: join_promises_def)
  moreover have "leaves join_promises c'' (SendParticipantAnnouncement p (emit e c''))" for c'' e
    using SendParticipantAnnouncement_leaves [of join_promises "emit e c''" p] by (simp add: leaves_def)
  then have "leaves join_promises (c'\<lparr>registryPeer := Some p\<rparr>) (bind_outcome
      (update_peer p (\<lambda>q. q\<lparr>peerInfo := info\<rparr>) (c'\<lparr>registryPeer := Some p\<rparr>)) (\<lambda>c.
      SendParticipantAnnouncement p (emit (StreamStartRead p) c)))"
    by (intro leaves_bind leaves_update_peer) simp_all
  ultimately show ?thesis using c' by (simp add: ConnectToRegistry_def leaves_def)
qed

lemma OnAsyncAcceptSuccess_leaves:
  assumes "ignores_handshake f"
  shows "leaves f c (OnAsyncAcceptSuccess env c)"
proof -
  obtain p c' where c': "MakeVAsioPeer env c = (p, c')" by force
  then have "f c' = f c" using MakeVAsioPeer_same [OF assms, of env c] by simp
  then show ?thesis using c' AddPeer_leaves [OF assms, of c' p] by (simp add: OnAsyncAcceptSuccess_def leaves_def)
qed

lemma BeginRegistration_leaves: "ignores_acks f \<Longrightarrow> leaves f c (BeginRegistration s c)"
  by (simp add: BeginRegistration_def ignores_acks_def)

lemma input_reaches:
  assumes "proper_receivers env" "vasio_input env i k = Some out"
  shows "reaches env k out"
proof (cases i)
  case (Received p blob)
  then show ?thesis
    using assms by (auto simp: receive_blob_def reaches_socket_data split: sum.split option.split)
next
  case (RemoteConnectFailed info)
  have "leaves join_promises c (OnRemoteConnectionFailure info c)" for c :: "'a connection"
    by (auto simp: OnRemoteConnectionFailure_def split: sum.split intro!: to_registry_leaves send_request_leaves)
  then show ?thesis using RemoteConnectFailed assms by (auto intro!: reaches_outer)
next
  case (CountReceivers d name)
  have "join_promises (snd (GetNumberOfRemoteReceiversOf d name c)) = join_promises c" for c :: "'a connection"
    by (simp add: GetNumberOfRemoteReceiversOf_def split_beta touch_links_same)
  then show ?thesis using CountReceivers assms by (auto intro!: reaches_outer)
next
  case (JoinBegins connectUri opened)
  have "leaves join_promises c (begin_join connectUri opened c)" for c :: "'a connection"
    by (simp add: begin_join_def join_promises_def leaves_def Let_def split: sum.split)
  then show ?thesis using JoinBegins assms by (auto intro!: reaches_outer)
next
  case StartsConnecting
  then show ?thesis using assms by (auto simp: reaches_def intro!: r_into_rtranclp connect_step.start)
next
  case (DirectConnected n)
  then show ?thesis
    using assms by (auto simp: reaches_def with_connecting_def intro!: r_into_rtranclp connect_step.connected
        split: option.splits if_splits)
next
  case (DirectRefused n)
  then show ?thesis
    using assms by (auto simp: reaches_def with_connecting_def intro!: r_into_rtranclp connect_step.refused
        split: option.splits if_splits)
next
  case (RequestTimedOut n)
  then show ?thesis
    using assms by (auto simp: reaches_def with_connecting_def intro!: r_into_rtranclp connect_step.expired
        split: option.splits if_splits)
qed (use assms in \<open>auto intro!: reaches_outer OnPeerShutdown_leaves OnAsyncAcceptSuccess_leaves ConnectToRegistry_leaves
    RemoteConnected_leaves BeginRegistration_leaves RegisterSilKitServiceImpl_leaves SendMsgImpl_leaves
    SendMsgToTargetImpl_leaves simp: join_promises_def AddAsyncSubscriptionsCompletionHandler_def emit_def
    EnableAggregationOfPeers_def NotifyShutdown_def\<close>)

lemma step_reaches:
  "proper_receivers env \<Longrightarrow> vasio_step env k k' \<Longrightarrow> (connect_step (vasio_methods env) keeps_promises)\<^sup>*\<^sup>* k k'"
  using input_reaches by (fastforce simp: vasio_step_def reaches_def)

lemma steps_reach:
  assumes "proper_receivers env" "(vasio_step env)\<^sup>*\<^sup>* k k'"
  shows "(connect_step (vasio_methods env) keeps_promises)\<^sup>*\<^sup>* k k'"
  using assms(2)
proof (induction rule: rtranclp_induct)
  case (step k1 k2)
  then show ?case using step_reaches [OF assms(1)] by (meson rtranclp_trans)
qed simp

end
