(* ===== verification/VAsioArrival.thy ===== *)
theory VAsioArrival
  imports VAsioJoin
begin

text \<open>
  What becomes of a message of the connection on its way from one participant to another:
  the sender hands its stream one frame, and the receiver's dispatcher calls the handler of
  the message with the message that was sent. Both sides speak protocol version 3.1.
\<close>

section \<open>From the writer to the reader\<close>

abbreviation V31 :: protocol_version where "V31 \<equiv> CurrentProtocolVersion"

lemma V31_simps [simp]:
  "V31 \<noteq> (3, 0)" "(V31 = (3, Suc 0)) = True" "\<not> version_less V31 (3, Suc 0)" "protocolVersion (at v pre post) = v"
  by (simp_all add: CurrentProtocolVersion_def version_less_def at_def)

definition writes :: "writer \<Rightarrow> byte list \<Rightarrow> bool" where
  "writes body bytes \<longleftrightarrow> (\<forall>pre post. body (at V31 pre post) = Inr (at V31 pre (post @ bytes)))"

text \<open>What a receiver makes of a frame, whatever the memory behind it.\<close>

definition opens_as :: "byte list \<Rightarrow> message_type \<Rightarrow> byte list \<Rightarrow> (serialized_message \<Rightarrow> bool) \<Rightarrow> bool" where
  "opens_as blob type bytes good \<longleftrightarrow>
     (\<forall>junk. \<exists>m pre. from_blob junk blob = Inr m \<and> messageKindOf m = messageKind type \<and>
        messageBuffer m = at V31 pre bytes \<and> good m)"

abbreviation good_registry :: "message_type \<Rightarrow> registry_msg_header \<Rightarrow> serialized_message \<Rightarrow> bool" where
  "good_registry type h m \<equiv> registryKindOf m = registryMessageKind type \<and> registryMessageHeader m = h"

lemma at_current: "buffer_of bytes = at V31 [] bytes"
  by (simp add: buffer_of_at)

lemma ReadNetworkHeaders_registry_31:
  assumes "messageBuffer m = at V31 pre (enc_headers msgSize type address index @ enc_RegistryMsgHeader h @ body)"
    "messageKind type = SilKitRegistryMessageKind"
  shows "\<exists>m'. ReadNetworkHeaders junk m = Inr m' \<and> registryKindOf m' = registryMessageKind type \<and>
    registryMessageHeader m' = h \<and> messageKindOf m' = SilKitRegistryMessageKind \<and>
    aggregationKindOf m' = aggregationKindOf m \<and>
    messageBuffer m' = at V31 (pre @ enc_headers msgSize type address index) (enc_RegistryMsgHeader h @ body)"
proof -
  let ?kind = "registryMessageKind type"
  have "length (enc_RegistryMsgHeader h) = 8" by (simp add: enc_RegistryMsgHeader_def)
  then have peek: "PeekRegistryMessageHeader junk (at V31 pre' (enc_RegistryMsgHeader h @ body)) = Inr h" for pre'
    using RegistryMsgHeader.get_at [where x = h and v = V31 and pre = "[]" and rest = "[]"]
    by (simp add: PeekRegistryMessageHeader_def at_current)
  have headers: "enc_headers msgSize type address index =
      enc_word msgSize @ enc_word SilKitRegistryMessageKind @ enc_word ?kind"
    using assms(2) by (simp add: enc_headers_def enc_kinds_def IsMwOrSim_def)
  have "?kind \<in> {AnnouncementKind, AnnouncementReplyKind, KnownParticipantsKind, ConnectRequestKind}"
    using assms(2) by (cases type) simp_all
  then show ?thesis
    using assms(1) by (auto simp: ReadNetworkHeaders_def read_registry_headers_def IsMwOrSim_def word_get_at headers peek)
qed

lemma ReadNetworkHeaders_subscription:
  assumes "messageBuffer m = at V31 pre (enc_headers msgSize type address index @ body)"
    "messageKind type \<in> {SubscriptionAnnouncementKind, SubscriptionAcknowledgeKind}"
  shows "\<exists>m'. ReadNetworkHeaders junk m = Inr m' \<and> messageKindOf m' = messageKind type \<and>
    aggregationKindOf m' = aggregationKindOf m \<and>
    messageBuffer m' = at V31 (pre @ enc_headers msgSize type address index) body"
  using assms by (auto simp: ReadNetworkHeaders_def enc_headers_def enc_kinds_def IsMwOrSim_def word_get_at)

lemma ReadNetworkHeaders_proxy:
  assumes "messageBuffer m = at V31 pre (enc_headers msgSize TypeProxyMessage address index @ enc_proxy msg)"
  shows "\<exists>m'. ReadNetworkHeaders junk m = Inr m' \<and> messageKindOf m' = SilKitProxyMessageKind \<and>
    aggregationKindOf m' = aggregationKindOf m \<and> proxyMessageHeader m' = Some (pm_header msg) \<and>
    messageBuffer m' = at V31 (pre @ enc_headers msgSize TypeProxyMessage address index) (enc_proxy msg)"
proof -
  have peek: "PeekProxyMessageHeader (at V31 pre' (enc_word (ph_version h) @ rest)) =
      Inr (h, at V31 pre' (enc_word (ph_version h) @ rest))" for pre' h rest
    by (simp add: PeekProxyMessageHeader_def get_ProxyMessageHeader_def then_get_def got_def word_get_at) (simp add: ReadPos_def SetReadPos_def at_def)
  have "enc_headers msgSize TypeProxyMessage address index = enc_word msgSize @ enc_word SilKitProxyMessageKind"
    by (simp add: enc_headers_def enc_kinds_def IsMwOrSim_def)
  then show ?thesis
    using assms by (simp add: ReadNetworkHeaders_def IsMwOrSim_def word_get_at enc_proxy_def peek)
qed

definition framed_as :: "message_type \<Rightarrow> 64 word \<times> 64 word \<Rightarrow> 64 word \<Rightarrow> writer \<Rightarrow> byte list \<Rightarrow> bool" where
  "framed_as type address index body blob \<longleftrightarrow>
     (\<exists>m. serialize V31 type address index body = Inr m \<and> aggregationKindOf m = aggregationKind type \<and>
        release m = Inr blob) \<and> valid_frame blob"

lemma frame_arrives:
  assumes "writes body bytes"
    and opens: "\<And>junk m (n :: 32 word). messageBuffer m = at V31 [] (enc_headers n type address index @ bytes) \<Longrightarrow>
      \<exists>m'. ReadNetworkHeaders junk m = Inr m' \<and> messageKindOf m' = messageKind type \<and> good m' \<and>
        aggregationKindOf m' = aggregationKindOf m \<and> messageBuffer m' = at V31 (enc_headers n type address index) bytes"
    and "length (enc_headers 0 type address index @ bytes) \<le> max_message_size"
  shows "\<exists>blob. framed_as type address index body blob \<and> opens_as blob type bytes good"
proof -
  have "body (at V31 [] (enc_headers 0 type address index)) = Inr (at V31 [] (enc_headers 0 type address index @ bytes))"
    using assms(1) by (simp add: writes_def)
  moreover obtain m where m: "ReadNetworkHeaders [] (unread_message type address index
      (at V31 [] (enc_headers 0 type address index @ bytes))) = Inr m" "aggregationKindOf m = aggregationKind type"
    "messageBuffer m = at V31 (enc_headers 0 type address index) bytes"
    using opens [of "unread_message type address index (at V31 [] (enc_headers 0 type address index @ bytes))" 0 "[]"]
    by (auto simp: unread_message_def)
  ultimately have "serialize V31 type address index body = Inr m" by (simp add: serialize_at)
  moreover obtain blob where blob: "release m = Inr blob" "valid_frame blob"
    "blob = enc_headers (of_nat (length blob)) type address index @ bytes"
    using release_blob [of m 0 type address index bytes] m(3) assms(3) by auto
  moreover have "opens_as blob type bytes good"
    unfolding opens_as_def
  proof
    fix junk
    have "messageBuffer (empty_message\<lparr>messageBuffer := buffer_of blob\<rparr>) =
        at V31 [] (enc_headers (of_nat (length blob)) type address index @ bytes)"
      using blob(3) by (simp add: at_current)
    from opens [OF this, of junk] show "\<exists>m pre. from_blob junk blob = Inr m \<and> messageKindOf m = messageKind type \<and>
        messageBuffer m = at V31 pre bytes \<and> good m"
      by (auto simp: from_blob_def)
  qed
  ultimately show ?thesis using m(2) by (auto simp: framed_as_def)
qed

text \<open>How long a message is.\<close>

lemma enc_lengths [simp]:
  "length (enc_RegistryMsgHeader h) = 8" "length (enc_blob bytes) = 4 + length bytes"
  "length (enc_string s) = 4 + length s"
  "length (enc_vector enc xs) = 4 + sum_list (map (\<lambda>x. length (enc x)) xs)"
  "length (enc_VAsioPeerInfo i) = 20 + length (pi_participantName i) + length (pi_capabilities i) +
     sum_list (map (\<lambda>s. 4 + length s) (pi_acceptorUris i))"
  by (simp_all add: enc_RegistryMsgHeader_def enc_blob_def enc_string_def enc_vector_def enc_VAsioPeerInfo_def
      length_concat comp_def)

section \<open>Through a stream\<close>

lemma send_direct:
  assumes "framed_as type (0, 0) 0 body blob" "find_object c p = Some q" "proxyOf q = None"
  shows "send_to p V31 type body c = Done (emit (StreamSend p (aggregationKind type) blob) c)"
  using assms by (auto simp: framed_as_def send_to_def SendSilKitMsgTo.simps with_peer_def)

lemma receive_opened:
  assumes "opens_as blob type bytes good" "find_object (outer k) p = Some q"
  shows "\<exists>m pre. messageKindOf m = messageKind type \<and> messageBuffer m = at V31 pre bytes \<and> good m \<and>
    receive_blob env p blob k = OnSocketData env p (message_SetProtocolVersion (peerVersion q) m) k"
proof -
  obtain m pre where "from_blob (memoryBehind env) blob = Inr m" "messageKindOf m = messageKind type"
    "messageBuffer m = at V31 pre bytes" "good m"
    using assms(1) unfolding opens_as_def by blast
  then show ?thesis using assms(2) by (auto simp: receive_blob_def)
qed

lemma message_version [simp]:
  "messageKindOf (message_SetProtocolVersion v m) = messageKindOf m"
  "registryKindOf (message_SetProtocolVersion v m) = registryKindOf m"
  "registryMessageHeader (message_SetProtocolVersion v m) = registryMessageHeader m"
  "message_SetProtocolVersion v (message_SetProtocolVersion w m) = message_SetProtocolVersion v m"
  by (simp_all add: message_SetProtocolVersion_def SetProtocolVersion_def)

lemma Deserialize_version:
  "messageBuffer m = at w pre bytes \<Longrightarrow>
    Deserialize get (message_SetProtocolVersion v m) = map_sum id fst (get (at v pre bytes))"
  by (simp add: Deserialize_def message_SetProtocolVersion_def)

text \<open>A message of the handshake reaches the dispatcher of these messages.\<close>

lemma registry_frame:
  assumes "writes body (enc_RegistryMsgHeader h @ bytes)" "messageKind type = SilKitRegistryMessageKind"
    and "length bytes + 14 \<le> max_message_size"
  shows "\<exists>blob. framed_as type (0, 0) 0 body blob \<and>
    (\<forall>env (k :: 'w vasio) p q. find_object (outer k) p = Some q \<longrightarrow>
       (\<exists>m pre. registryKindOf m = registryMessageKind type \<and> registryMessageHeader m = h \<and>
          messageBuffer m = at V31 pre (enc_RegistryMsgHeader h @ bytes) \<and>
          receive_blob env p blob k = ReceiveRegistryMessage env p (message_SetProtocolVersion (peerVersion q) m) k))"
proof -
  have "\<exists>blob. framed_as type (0, 0) 0 body blob \<and>
      opens_as blob type (enc_RegistryMsgHeader h @ bytes) (good_registry type h)"
  proof (rule frame_arrives [OF assms(1)])
    show "length (enc_headers 0 type (0, 0) 0 @ enc_RegistryMsgHeader h @ bytes) \<le> max_message_size"
      using assms(2,3) by (simp add: enc_headers_def enc_kinds_def enc_RegistryMsgHeader_def IsMwOrSim_def)
    show "\<exists>m'. ReadNetworkHeaders junk m = Inr m' \<and> messageKindOf m' = messageKind type \<and>
        good_registry type h m' \<and> aggregationKindOf m' = aggregationKindOf m \<and>
        messageBuffer m' = at V31 (enc_headers n type (0, 0) 0) (enc_RegistryMsgHeader h @ bytes)"
      if "messageBuffer m = at V31 [] (enc_headers n type (0, 0) 0 @ enc_RegistryMsgHeader h @ bytes)" for junk m n
      using ReadNetworkHeaders_registry_31 [OF that assms(2), of junk] assms(2) by auto
  qed
  then obtain blob where framed: "framed_as type (0, 0) 0 body blob"
    and opened: "opens_as blob type (enc_RegistryMsgHeader h @ bytes) (good_registry type h)"
    by auto
  have receive: "\<exists>m pre. registryKindOf m = registryMessageKind type \<and> registryMessageHeader m = h \<and>
      messageBuffer m = at V31 pre (enc_RegistryMsgHeader h @ bytes) \<and>
      receive_blob env p blob k = ReceiveRegistryMessage env p (message_SetProtocolVersion (peerVersion q) m) k"
    if "find_object (outer k) p = Some q" for env and k :: "'w vasio" and p q
    using receive_opened [OF opened that, of env] assms(2) by (auto simp: OnSocketData.simps)
  show ?thesis
    using framed receive by blast
qed

text \<open>The messages of the handshake, with what their handlers read.\<close>

lemma header_31 [simp]:
  "rh_preamble (MakeRegistryMsgHeader v) = registry_preamble"
  "ExtractProtocolVersion (MakeRegistryMsgHeader V31) = V31" "ProtocolVersionSupported (MakeRegistryMsgHeader V31)"
  by (simp_all add: MakeRegistryMsgHeader_def ExtractProtocolVersion_def ProtocolVersionSupported_def CurrentProtocolVersion_def)

lemma announcement_frame:
  assumes "ok_announcement a" "pa_messageHeader a = MakeRegistryMsgHeader V31"
    and "length (enc_announcement a) + 6 \<le> max_message_size"
  shows "\<exists>blob. framed_as TypeParticipantAnnouncement (0, 0) 0 (put_ParticipantAnnouncement a) blob \<and>
    (\<forall>env (k :: 'w vasio) p q. find_object (outer k) p = Some q \<longrightarrow>
       (\<exists>m. registryMessageHeader m = MakeRegistryMsgHeader V31 \<and>
          Deserialize get_ParticipantAnnouncement (message_SetProtocolVersion V31 m) = Inr a \<and>
          receive_blob env p blob k = on_outer (ReceiveParticipantAnnouncement env p m) k))"
proof -
  let ?h = "MakeRegistryMsgHeader V31"
  obtain bytes where bytes: "enc_announcement a = enc_RegistryMsgHeader ?h @ bytes"
    using enc_announcement_header [OF assms(2)] assms(2) by auto
  have "writes (put_ParticipantAnnouncement a) (enc_RegistryMsgHeader ?h @ bytes)"
    using put_announcement_at [OF assms(1)] assms(2) bytes by (simp add: writes_def)
  moreover have "length bytes + 14 \<le> max_message_size"
    using assms(3) bytes by (simp add: enc_RegistryMsgHeader_def)
  ultimately obtain blob where blob: "framed_as TypeParticipantAnnouncement (0, 0) 0 (put_ParticipantAnnouncement a) blob"
    "\<forall>env (k :: 'w vasio) p q. find_object (outer k) p = Some q \<longrightarrow>
       (\<exists>m pre. registryKindOf m = AnnouncementKind \<and> registryMessageHeader m = ?h \<and>
          messageBuffer m = at V31 pre (enc_RegistryMsgHeader ?h @ bytes) \<and>
          receive_blob env p blob k = ReceiveRegistryMessage env p (message_SetProtocolVersion (peerVersion q) m) k)"
    using registry_frame [of "put_ParticipantAnnouncement a" ?h bytes TypeParticipantAnnouncement,
        where ?'w = 'w] by auto
  have "\<exists>m. registryMessageHeader m = ?h \<and> Deserialize get_ParticipantAnnouncement (message_SetProtocolVersion V31 m) = Inr a \<and>
      receive_blob env p blob k = on_outer (ReceiveParticipantAnnouncement env p m) k"
    if q: "find_object (outer k) p = Some q" for env and k :: "'w vasio" and p q
  proof -
    obtain m pre where m: "registryKindOf m = AnnouncementKind" "registryMessageHeader m = ?h"
      "messageBuffer m = at V31 pre (enc_announcement a)"
      "receive_blob env p blob k = ReceiveRegistryMessage env p (message_SetProtocolVersion (peerVersion q) m) k"
      using blob(2) q bytes by metis
    let ?m = "message_SetProtocolVersion (peerVersion q) m"
    have "Deserialize get_ParticipantAnnouncement (message_SetProtocolVersion V31 ?m) = Inr a"
      using get_announcement_at [OF assms(1), of V31] assms(2) by (simp add: Deserialize_version [OF m(3)])
    moreover have "ReceiveRegistryMessage env p ?m k = on_outer (ReceiveParticipantAnnouncement env p ?m) k"
      using q m(1,2) by (simp add: ReceiveRegistryMessage_def)
    ultimately show ?thesis using m(2,4) by (intro exI [of _ ?m]) simp
  qed
  then show ?thesis using blob(1) by blast
qed

lemma reply_frame:
  assumes "ok_reply r" "par_remoteHeader r = MakeRegistryMsgHeader V31"
    and "length (enc_reply V31 r) + 6 \<le> max_message_size"
  shows "\<exists>blob. framed_as TypeParticipantAnnouncementReply (0, 0) 0 (put_ParticipantAnnouncementReply r) blob \<and>
    (\<forall>env (k :: 'w vasio) p q. find_object (outer k) p = Some q \<longrightarrow> peerVersion q \<noteq> (3, 0) \<longrightarrow>
       (\<exists>m. Deserialize get_ParticipantAnnouncementReply m = Inr r \<and>
          receive_blob env p blob k = ReceiveParticipantAnnouncementReply env p m k))"
proof -
  let ?h = "MakeRegistryMsgHeader V31"
  let ?bytes = "enc_word (par_status r) @ enc_vector enc_VAsioMsgSubscriber (par_subscribers r) @ enc_string (par_diagnostic r)"
  have bytes: "enc_reply v r = enc_RegistryMsgHeader ?h @ ?bytes" if "v \<noteq> (3, 0)" for v
    using that assms(2) by (simp add: enc_reply_def)
  have "writes (put_ParticipantAnnouncementReply r) (enc_RegistryMsgHeader ?h @ ?bytes)"
    using put_reply_at [OF assms(1)] bytes [of V31] by (simp add: writes_def)
  moreover have "length ?bytes + 14 \<le> max_message_size"
    using assms(3) by (simp add: bytes enc_RegistryMsgHeader_def)
  ultimately obtain blob where blob: "framed_as TypeParticipantAnnouncementReply (0, 0) 0 (put_ParticipantAnnouncementReply r) blob"
    "\<forall>env (k :: 'w vasio) p q. find_object (outer k) p = Some q \<longrightarrow>
       (\<exists>m pre. registryKindOf m = AnnouncementReplyKind \<and> registryMessageHeader m = ?h \<and>
          messageBuffer m = at V31 pre (enc_RegistryMsgHeader ?h @ ?bytes) \<and>
          receive_blob env p blob k = ReceiveRegistryMessage env p (message_SetProtocolVersion (peerVersion q) m) k)"
    using registry_frame [of "put_ParticipantAnnouncementReply r" ?h ?bytes TypeParticipantAnnouncementReply,
        where ?'w = 'w] by auto
  have "\<exists>m. Deserialize get_ParticipantAnnouncementReply m = Inr r \<and>
      receive_blob env p blob k = ReceiveParticipantAnnouncementReply env p m k"
    if q: "find_object (outer k) p = Some q" "peerVersion q \<noteq> (3, 0)" for env and k :: "'w vasio" and p q
  proof -
    obtain m pre where m: "registryKindOf m = AnnouncementReplyKind" "registryMessageHeader m = ?h"
      "messageBuffer m = at V31 pre (enc_reply (peerVersion q) r)"
      "receive_blob env p blob k = ReceiveRegistryMessage env p (message_SetProtocolVersion (peerVersion q) m) k"
      using blob(2) q(1) bytes [OF q(2)] by metis
    let ?m = "message_SetProtocolVersion (peerVersion q) m"
    have "Deserialize get_ParticipantAnnouncementReply ?m = Inr r"
      using get_reply_at [OF assms(1), of "peerVersion q"] q(2) by (simp add: Deserialize_version [OF m(3)])
    moreover have "ReceiveRegistryMessage env p ?m k = ReceiveParticipantAnnouncementReply env p ?m k"
      using q m(1,2) by (simp add: ReceiveRegistryMessage_def)
    ultimately show ?thesis using m(4) by (intro exI [of _ ?m]) simp
  qed
  then show ?thesis using blob(1) by blast
qed

lemma known_frame:
  assumes "ok_known msg" "kp_messageHeader msg = MakeRegistryMsgHeader V31"
    and "length (enc_known V31 msg) + 6 \<le> max_message_size"
  shows "\<exists>blob. framed_as TypeKnownParticipants (0, 0) 0 (put_KnownParticipants msg) blob \<and>
    (\<forall>env (k :: 'w vasio) p q. find_object (outer k) p = Some q \<longrightarrow> peerVersion q \<noteq> (3, 0) \<longrightarrow>
       (\<exists>m. Deserialize get_KnownParticipants m = Inr msg \<and> receive_blob env p blob k = ReceiveKnownParticpants p m k))"
proof -
  let ?h = "MakeRegistryMsgHeader V31"
  let ?bytes = "enc_vector enc_VAsioPeerInfo (kp_peerInfos msg)"
  have bytes: "enc_known v msg = enc_RegistryMsgHeader ?h @ ?bytes" if "v \<noteq> (3, 0)" for v
    using that assms(2) by (simp add: enc_known_def)
  have "writes (put_KnownParticipants msg) (enc_RegistryMsgHeader ?h @ ?bytes)"
    using put_known_at [OF assms(1)] bytes [of V31] by (simp add: writes_def)
  moreover have "length ?bytes + 14 \<le> max_message_size"
    using assms(3) by (simp add: bytes enc_RegistryMsgHeader_def)
  ultimately obtain blob where blob: "framed_as TypeKnownParticipants (0, 0) 0 (put_KnownParticipants msg) blob"
    "\<forall>env (k :: 'w vasio) p q. find_object (outer k) p = Some q \<longrightarrow>
       (\<exists>m pre. registryKindOf m = KnownParticipantsKind \<and> registryMessageHeader m = ?h \<and>
          messageBuffer m = at V31 pre (enc_RegistryMsgHeader ?h @ ?bytes) \<and>
          receive_blob env p blob k = ReceiveRegistryMessage env p (message_SetProtocolVersion (peerVersion q) m) k)"
    using registry_frame [of "put_KnownParticipants msg" ?h ?bytes TypeKnownParticipants, where ?'w = 'w] by auto
  have "\<exists>m. Deserialize get_KnownParticipants m = Inr msg \<and> receive_blob env p blob k = ReceiveKnownParticpants p m k"
    if q: "find_object (outer k) p = Some q" "peerVersion q \<noteq> (3, 0)" for env and k :: "'w vasio" and p q
  proof -
    obtain m pre where m: "registryKindOf m = KnownParticipantsKind" "registryMessageHeader m = ?h"
      "messageBuffer m = at V31 pre (enc_known (peerVersion q) msg)"
      "receive_blob env p blob k = ReceiveRegistryMessage env p (message_SetProtocolVersion (peerVersion q) m) k"
      using blob(2) q(1) bytes [OF q(2)] by metis
    let ?m = "message_SetProtocolVersion (peerVersion q) m"
    have "Deserialize get_KnownParticipants ?m = Inr msg"
      using get_known_at [OF assms(1), of "peerVersion q"] q(2) by (simp add: Deserialize_version [OF m(3)])
    moreover have "ReceiveRegistryMessage env p ?m k = ReceiveKnownParticpants p ?m k"
      using q m(1,2) by (simp add: ReceiveRegistryMessage_def)
    ultimately show ?thesis using m(4) by (intro exI [of _ ?m]) simp
  qed
  then show ?thesis using blob(1) by blast
qed

lemma request_frame:
  assumes "ok_RemoteParticipantConnectRequest msg" "rq_messageHeader msg = MakeRegistryMsgHeader V31"
    and "length (enc_RemoteParticipantConnectRequest msg) + 6 \<le> max_message_size"
  shows "\<exists>blob. framed_as TypeRemoteParticipantConnectRequest (0, 0) 0 (put_RemoteParticipantConnectRequest msg) blob \<and>
    (\<forall>env (k :: 'w vasio) p q. find_object (outer k) p = Some q \<longrightarrow>
       (\<exists>m. Deserialize get_RemoteParticipantConnectRequest m = Inr msg \<and>
          registryMessageHeader m = MakeRegistryMsgHeader V31 \<and>
          receive_blob env p blob k = ReceiveRemoteParticipantConnectRequest env p m k))"
proof -
  let ?h = "MakeRegistryMsgHeader V31"
  let ?bytes = "enc_VAsioPeerInfo (rq_requestOrigin msg) @ enc_VAsioPeerInfo (rq_requestTarget msg) @ enc_word (rq_status msg)"
  have bytes: "enc_RemoteParticipantConnectRequest msg = enc_RegistryMsgHeader ?h @ ?bytes"
    using assms(2) by (simp add: enc_RemoteParticipantConnectRequest_def)
  have "writes (put_RemoteParticipantConnectRequest msg) (enc_RegistryMsgHeader ?h @ ?bytes)"
    using RemoteParticipantConnectRequest.put_at [OF assms(1)] bytes by (simp add: writes_def)
  moreover have "length ?bytes + 14 \<le> max_message_size"
    using assms(3) by (simp add: bytes enc_RegistryMsgHeader_def)
  ultimately obtain blob where blob:
    "framed_as TypeRemoteParticipantConnectRequest (0, 0) 0 (put_RemoteParticipantConnectRequest msg) blob"
    "\<forall>env (k :: 'w vasio) p q. find_object (outer k) p = Some q \<longrightarrow>
       (\<exists>m pre. registryKindOf m = ConnectRequestKind \<and> registryMessageHeader m = ?h \<and>
          messageBuffer m = at V31 pre (enc_RegistryMsgHeader ?h @ ?bytes) \<and>
          receive_blob env p blob k = ReceiveRegistryMessage env p (message_SetProtocolVersion (peerVersion q) m) k)"
    using registry_frame [of "put_RemoteParticipantConnectRequest msg" ?h ?bytes TypeRemoteParticipantConnectRequest,
        where ?'w = 'w] by auto
  have "\<exists>m. Deserialize get_RemoteParticipantConnectRequest m = Inr msg \<and> registryMessageHeader m = ?h \<and>
      receive_blob env p blob k = ReceiveRemoteParticipantConnectRequest env p m k"
    if q: "find_object (outer k) p = Some q" for env and k :: "'w vasio" and p q
  proof -
    obtain m pre where m: "registryKindOf m = ConnectRequestKind" "registryMessageHeader m = ?h"
      "messageBuffer m = at V31 pre (enc_RemoteParticipantConnectRequest msg)"
      "receive_blob env p blob k = ReceiveRegistryMessage env p (message_SetProtocolVersion (peerVersion q) m) k"
      using blob(2) q bytes by metis
    let ?m = "message_SetProtocolVersion (peerVersion q) m"
    have "Deserialize get_RemoteParticipantConnectRequest ?m = Inr msg"
      using RemoteParticipantConnectRequest.get_at [OF assms(1), of "peerVersion q" pre "[]"]
      by (simp add: Deserialize_version [OF m(3)])
    moreover have "ReceiveRegistryMessage env p ?m k = ReceiveRemoteParticipantConnectRequest env p ?m k"
      using q m(1,2) by (simp add: ReceiveRegistryMessage_def)
    ultimately show ?thesis using m(2,4) by (intro exI [of _ ?m]) simp
  qed
  then show ?thesis using blob(1) by blast
qed

text \<open>A subscription, its acknowledgement, and a message of a service.\<close>

lemma subscription_frame:
  assumes "strict_codec put get enc ok" "ok x"
    and "messageKind type \<in> {SubscriptionAnnouncementKind, SubscriptionAcknowledgeKind}"
    and "length (enc x) + 5 \<le> max_message_size"
  shows "\<exists>blob. framed_as type (0, 0) 0 (put x) blob \<and>
    (\<forall>env (k :: 'w vasio) p q. find_object (outer k) p = Some q \<longrightarrow>
       (\<exists>m. messageKindOf m = messageKind type \<and> Deserialize get m = Inr x \<and>
          receive_blob env p blob k = OnSocketData env p m k))"
proof -
  note c = strict_codec.axioms(1) [OF assms(1)]
  have w: "writes (put x) (enc x)"
    using codec.put_at [OF c assms(2)] by (simp add: writes_def)
  have "\<exists>blob. framed_as type (0, 0) 0 (put x) blob \<and> opens_as blob type (enc x) (\<lambda>_. True)"
  proof (rule frame_arrives [OF w])
    show "length (enc_headers 0 type (0, 0) 0 @ enc x) \<le> max_message_size"
      using assms(3,4) by (auto simp: enc_headers_def enc_kinds_def IsMwOrSim_def)
    show "\<exists>m'. ReadNetworkHeaders junk m = Inr m' \<and> messageKindOf m' = messageKind type \<and> True \<and>
        aggregationKindOf m' = aggregationKindOf m \<and> messageBuffer m' = at V31 (enc_headers n type (0, 0) 0) (enc x)"
      if "messageBuffer m = at V31 [] (enc_headers n type (0, 0) 0 @ enc x)" for junk m n
      using ReadNetworkHeaders_subscription [OF that assms(3), of junk] by auto
  qed
  then obtain blob where blob: "framed_as type (0, 0) 0 (put x) blob" "opens_as blob type (enc x) (\<lambda>_. True)"
    by auto
  have "\<exists>m. messageKindOf m = messageKind type \<and> Deserialize get m = Inr x \<and>
      receive_blob env p blob k = OnSocketData env p m k"
    if q: "find_object (outer k) p = Some q" for env and k :: "'w vasio" and p q
  proof -
    obtain m pre where m: "messageKindOf m = messageKind type" "messageBuffer m = at V31 pre (enc x)"
      "receive_blob env p blob k = OnSocketData env p (message_SetProtocolVersion (peerVersion q) m) k"
      using receive_opened [OF blob(2) q, of env] by auto
    let ?m = "message_SetProtocolVersion (peerVersion q) m"
    have "Deserialize get ?m = Inr x"
      using codec.get_at [OF c assms(2), of "peerVersion q" pre "[]"] by (simp add: Deserialize_version [OF m(2)])
    then show ?thesis using m(1,3) by (intro exI [of _ ?m]) simp
  qed
  then show ?thesis using blob(1) by blast
qed

text \<open>A message of a service keeps the index of its receiver and the address of its sender.\<close>

lemma message_frame:
  assumes "ok_message msg" "length (enc_message msg) + 29 \<le> max_message_size"
  shows "\<exists>blob. framed_as (envelope_type (type_of msg)) address index (put_message msg) blob \<and>
    (\<forall>env (k :: 'w vasio) p q. find_object (outer k) p = Some q \<longrightarrow>
       (\<exists>m. GetRemoteIndex m = Inr index \<and> GetEndpointAddress m = Inr address \<and>
          Deserialize (get_message (type_of msg)) m = Inr msg \<and>
          receive_blob env p blob k = on_outer (ReceiveRawSilKitMessage env p m) k))"
proof -
  let ?type = "envelope_type (type_of msg)"
  have ok: "type_of msg = type_of msg \<and> ok_message msg" using assms(1) by simp
  note c = message_codec [of "type_of msg"]
  have kind: "messageKind ?type = SilKitMwMsgKind" by (cases "type_of msg") simp_all
  let ?good = "\<lambda>m. remoteIndex m = index \<and> endpointAddress m = address"
  have w: "writes (put_message msg) (enc_message msg)"
    using codec.put_at [OF c ok] by (simp add: writes_def)
  have "\<exists>blob. framed_as ?type address index (put_message msg) blob \<and> opens_as blob ?type (enc_message msg) ?good"
  proof (rule frame_arrives [OF w])
    show "length (enc_headers 0 ?type address index @ enc_message msg) \<le> max_message_size"
      using assms(2) kind by (simp add: enc_headers_def enc_kinds_def enc_word_pair_def IsMwOrSim_def)
    show "\<exists>m'. ReadNetworkHeaders junk m = Inr m' \<and> messageKindOf m' = messageKind ?type \<and> ?good m' \<and>
        aggregationKindOf m' = aggregationKindOf m \<and>
        messageBuffer m' = at V31 (enc_headers n ?type address index) (enc_message msg)"
      if "messageBuffer m = at V31 [] (enc_headers n ?type address index @ enc_message msg)" for junk m n
      using ReadNetworkHeaders_service [OF that kind, of junk] kind by simp
  qed
  then obtain blob where blob: "framed_as ?type address index (put_message msg) blob"
    "opens_as blob ?type (enc_message msg) ?good" by auto
  have "\<exists>m. GetRemoteIndex m = Inr index \<and> GetEndpointAddress m = Inr address \<and>
      Deserialize (get_message (type_of msg)) m = Inr msg \<and>
      receive_blob env p blob k = on_outer (ReceiveRawSilKitMessage env p m) k"
    if q: "find_object (outer k) p = Some q" for env and k :: "'w vasio" and p q
  proof -
    obtain m pre where m: "messageKindOf m = SilKitMwMsgKind" "messageBuffer m = at V31 pre (enc_message msg)" "?good m"
      "receive_blob env p blob k = OnSocketData env p (message_SetProtocolVersion (peerVersion q) m) k"
      using receive_opened [OF blob(2) q, of env] kind by auto
    let ?m = "message_SetProtocolVersion (peerVersion q) m"
    have "Deserialize (get_message (type_of msg)) ?m = Inr msg"
      using codec.get_at [OF c ok, of "peerVersion q" pre "[]"] by (simp add: Deserialize_version [OF m(2)])
    moreover have "remoteIndex ?m = index" "endpointAddress ?m = address"
      using m(3) by (simp_all add: message_SetProtocolVersion_def)
    ultimately show ?thesis
      using m(1,4) by (intro exI [of _ ?m]) (simp add: GetRemoteIndex_def GetEndpointAddress_def IsMwOrSim_def OnSocketData.simps)
  qed
  then show ?thesis using blob(1) by blast
qed

end
