(* ===== verification/JoinSimulation.thy ===== *)
theory JoinSimulation
  imports VAsioArrival
begin

text \<open>
  The properties of joining a simulation: what the thread that joins is told, that the
  handshake comes to rest, when it never does, and that two participants with a direct
  connection get to know each other.
\<close>

section \<open>What the thread that joins is told\<close>

lemma new_vasio_inv:
  assumes "proper_receivers env" "(vasio_step env)\<^sup>*\<^sup>* (new_vasio name pid caps v u) k"
  shows "connect_inv join_promises k"
  using join.reachable_inv [OF steps_reach [OF assms, unfolded new_vasio_def]]
  by (simp add: join_promises_def new_connection_def)

lemma all_at_least_replied: "all_at_least StageReplyReceived k \<longleftrightarrow> set (stages_of k) \<subseteq> {StageReplyReceived}"
proof -
  have "6 \<le> stage_number st \<longleftrightarrow> st = StageReplyReceived" for st by (cases st) simp_all
  then show ?thesis by (auto simp: all_at_least_def stages_of_def list_all_iff)
qed

lemma any_failed_stages_of: "any_failed k \<longleftrightarrow> StageFailure \<in> set (stages_of k)"
  by (simp add: any_failed_stages stages_of_def)

lemma stage_by_peers:
  assumes "connect_inv join_promises k"
  shows "connectStage k = AllRepliesReceived \<longleftrightarrow> connectStage k \<noteq> ConnectInvalid \<and> set (stages_of k) \<subseteq> {StageReplyReceived}"
    and "connectStage k = ConnectFailure \<longleftrightarrow> StageFailure \<in> set (stages_of k)"
    and "join_promises (outer k) = stage_promises (connectStage k)"
proof -
  have ok: "stage_ok k" using assms by (simp add: connect_inv_def)
  have "\<not> any_failed k" if "all_at_least StageWaitingForReply k \<or> all_at_least StageReplyReceived k"
    using that all_at_least_not_failed [of _ k] by force
  then show "connectStage k = AllRepliesReceived \<longleftrightarrow> connectStage k \<noteq> ConnectInvalid \<and> set (stages_of k) \<subseteq> {StageReplyReceived}"
    "connectStage k = ConnectFailure \<longleftrightarrow> StageFailure \<in> set (stages_of k)"
    using ok all_at_least_replied [of k] any_failed_stages_of [of k]
    by (auto simp: stage_ok_def stages_of_def split: connect_stage.splits)
qed (use assms in \<open>simp add: connect_inv_def\<close>)

text \<open>
  Claim C19. Whatever happens to a connection, the waits of the thread that joins tell it how
  the known participants fare: it is told that all of them are connected exactly when it has
  learned who they are and each has replied, and that the handshake failed exactly when one
  of them could not be reached; as long as neither is so, the wait for the replies goes on.
\<close>

theorem join_is_told_what_happened:
  assumes "proper_receivers env" "(vasio_step env)\<^sup>*\<^sup>* (new_vasio name pid caps v u) k"
  shows "(WaitForAllReplies False k = Some (Inr ()) \<longleftrightarrow>
      connectStage k \<noteq> ConnectInvalid \<and> set (stages_of k) \<subseteq> {StageReplyReceived}) \<and>
    (WaitForAllReplies False k = Some (Inl ProtocolError) \<longleftrightarrow> StageFailure \<in> set (stages_of k)) \<and>
    (ConnectToKnownParticipants k = Some (Inl ProtocolError) \<longleftrightarrow> StageFailure \<in> set (stages_of k)) \<and>
    (WaitForAllReplies False k = Some (Inr ()) \<longrightarrow> ConnectToKnownParticipants k = Some (Inr ()))"
proof -
  note st = stage_by_peers [OF new_vasio_inv [OF assms]]
  have p: "startWaiting (outer k) = fst (stage_promises (connectStage k))"
    "allHandshakes (outer k) = snd (stage_promises (connectStage k))"
    using st(3) by (auto simp: join_promises_def prod_eq_iff)
  have "WaitForAllReplies False k = Some (Inr ()) \<longleftrightarrow> connectStage k = AllRepliesReceived"
    "WaitForAllReplies False k = Some (Inl ProtocolError) \<longleftrightarrow> connectStage k = ConnectFailure"
    "ConnectToKnownParticipants k = Some (Inl ProtocolError) \<longleftrightarrow> connectStage k = ConnectFailure"
    "connectStage k = AllRepliesReceived \<longrightarrow> ConnectToKnownParticipants k = Some (Inr ())"
    by (cases "connectStage k"; simp add: WaitForAllReplies_def ConnectToKnownParticipants_def future_wait_for_def p)+
  then show ?thesis using st(1,2) by blast
qed

text \<open>A measure that never grows bounds how often the steps that make it smaller occur.\<close>

lemma rare_steps:
  fixes m :: "nat \<Rightarrow> nat"
  assumes "\<And>i. m (Suc i) \<le> m i" "\<And>i. i \<in> A \<Longrightarrow> m (Suc i) < m i"
  shows "finite A \<and> card A \<le> m 0"
proof (rule finite_if_finite_subsets_card_bdd)
  fix G assume "G \<subseteq> A" "finite G"
  then obtain n where n: "G \<subseteq> {..<n}" by (auto simp: finite_nat_set_iff_bounded)
  have "card (A \<inter> {..<n}) + m n \<le> m 0" for n
  proof (induction n)
    case (Suc n)
    have "A \<inter> {..<Suc n} = (if n \<in> A then insert n (A \<inter> {..<n}) else A \<inter> {..<n})" by (auto simp: less_Suc_eq)
    then have "card (A \<inter> {..<Suc n}) = (if n \<in> A then Suc (card (A \<inter> {..<n})) else card (A \<inter> {..<n}))" by simp
    then show ?case using Suc assms(1) [of n] assms(2) [of n] by (cases "n \<in> A") simp_all
  qed simp
  from this [of n] have "card (A \<inter> {..<n}) \<le> m 0" by simp
  moreover have "card G \<le> card (A \<inter> {..<n})" using n \<open>G \<subseteq> A\<close> by (intro card_mono) auto
  ultimately show "card G \<le> m 0" by simp
qed

lemma remaining_stages: "remaining k = sum_list (map (\<lambda>st. 6 - progress st) (stages_of k))"
  by (simp only: remaining_def stages_of_def)

lemma remaining_bound: "remaining k \<le> 6 * length (stages_of k)"
proof -
  have "sum_list (map (\<lambda>st. 6 - progress st) sts) \<le> 6 * length sts" for sts by (induction sts) auto
  then show ?thesis by (simp only: remaining_stages)
qed

text \<open>
  Claim C20. The handshake comes to rest: from the moment the participant starts to connect,
  whatever happens to it in a run without an end, and whatever else happens between, the
  stages of the known participants change only finitely often, at most six times for each.
\<close>

theorem handshake_comes_to_rest:
  assumes "proper_receivers env" "(vasio_step env)\<^sup>*\<^sup>* (new_vasio name pid caps v u) (k 0)"
    and "connectStage (k 0) \<noteq> ConnectInvalid" "\<And>i. vasio_step env (k i) (k (Suc i))"
  shows "finite {i. stages_of (k (Suc i)) \<noteq> stages_of (k i)} \<and>
    card {i. stages_of (k (Suc i)) \<noteq> stages_of (k i)} \<le> 6 * length (stages_of (k 0))"
proof -
  have inv: "connect_inv join_promises (k i) \<and> connectStage (k i) \<noteq> ConnectInvalid" for i
  proof (induction i)
    case (Suc i)
    then show ?case using join.run_settles [OF step_reaches [OF assms(1,4)]] by blast
  qed (use new_vasio_inv [OF assms(1,2)] assms(3) in blast)
  have step: "stages_of (k (Suc i)) = stages_of (k i) \<or> remaining (k (Suc i)) < remaining (k i)" for i
    using join.run_settles [OF step_reaches [OF assms(1,4)]] inv by blast
  have same: "remaining (k (Suc i)) \<le> remaining (k i)" for i
    using step [of i] by (auto simp only: remaining_stages)
  have "finite {i. stages_of (k (Suc i)) \<noteq> stages_of (k i)} \<and>
      card {i. stages_of (k (Suc i)) \<noteq> stages_of (k i)} \<le> remaining (k 0)"
    by (rule rare_steps [of "\<lambda>i. remaining (k i)", OF same]) (use step in auto)
  then show ?thesis using remaining_bound [of "k 0"] by linarith
qed

section \<open>A join without an end\<close>

definition stage_of :: "'s connect_known \<Rightarrow> string \<Rightarrow> peer_stage option" where
  "stage_of k n = map_option peerStage (find_peer k n)"

lemma stage_of_set_peer [simp]: "stage_of (set_peer m p k) n = (if n = m then Some (peerStage p) else stage_of k n)"
  by (simp add: stage_of_def set_peer_def update_conv')

lemma stage_of_outer [simp]: "stage_of (k\<lparr>outer := c\<rparr>) n = stage_of k n" "stage_of (UpdateStage env k) n = stage_of k n"
  by (simp_all add: stage_of_def)

lemma HasFailed_stage_of: "m \<noteq> n \<Longrightarrow> stage_of (HasFailed env m p reason k) n = stage_of k n"
  by (simp add: HasFailed_def)

lemma fall_back_stage_of:
  "m \<noteq> n \<Longrightarrow> state_after (fall_back_to_proxy env m p reason k) = Some k' \<Longrightarrow> stage_of k' n = stage_of k n"
  by (auto simp: fall_back_to_proxy_def Let_def HasFailed_stage_of split: prod.splits sum.splits bool.splits)

lemma on_outer_stage_of: "state_after (on_outer f k) = Some k' \<Longrightarrow> stage_of k' n = stage_of k n"
  by (auto simp: on_outer_def split: outcome.splits)

lemma direct_success_stage_of:
  "m \<noteq> n \<Longrightarrow> state_after (OnConnectPeerSuccess env m p k) = Some k' \<Longrightarrow> stage_of k' n = stage_of k n"
  by (auto simp: OnConnectPeerSuccess_def Let_def on_outer_def split: prod.splits outcome.splits)

lemma direct_failure_stage_of:
  assumes "m \<noteq> n" "state_after (OnConnectPeerFailure env m p k) = Some k'"
  shows "stage_of k' n = stage_of k n"
  using assms by (auto simp: OnConnectPeerFailure_def Let_def dest: fall_back_stage_of [OF assms(1)]
      split: prod.splits sum.splits bool.splits)

lemma expired_stage_of:
  assumes "find_peer k m = Some p" "state_after (OnTimerExpired env m p k) = Some k'"
    "m \<noteq> n \<or> peerStage p \<noteq> StageRemoteConnectRequested"
  shows "stage_of k' n = stage_of k n"
proof -
  have "stage_of k m = Some (peerStage p)" using assms(1) by (simp add: stage_of_def)
  then show ?thesis using assms(2,3) by (auto simp: OnTimerExpired_def Let_def dest: fall_back_stage_of split: if_splits)
qed

lemma waits_on:
  assumes "vasio_input env i k = Some out" "state_after out = Some k'" "connect_inv join_promises k"
    and "stage_of k n = Some StageRemoteIsConnecting" "\<And>p blob. i \<noteq> Received p blob"
  shows "stage_of k' n = Some StageRemoteIsConnecting"
proof -
  obtain x where x: "find_peer k n = Some x" "peerStage x = StageRemoteIsConnecting"
    using assms(4) by (auto simp: stage_of_def)
  have ok: "directConnectPeer y = (peerStage y = StageDirect)" if "find_peer k m = Some y" for m y
    using assms(3) that peers_okD by (auto simp: connect_inv_def)
  have started: "connectStage k \<noteq> ConnectInvalid"
    using assms(3) x(1) by (auto simp: connect_inv_def stage_ok_def)
  have other: "m \<noteq> n" if "find_peer k m = Some y" "directConnectPeer y" for m y
    using that ok [OF that(1)] x by auto
  have "stage_of k' n = stage_of k n"
  proof (cases i)
    case StartsConnecting
    then show ?thesis using assms(1,2) started by (auto simp: StartConnecting_def)
  next
    case (DirectConnected m)
    then obtain y where "find_peer k m = Some y" "directConnectPeer y"
      "state_after (OnConnectPeerSuccess (vasio_methods env) m y k) = Some k'"
      using assms(1,2) by (auto simp: with_connecting_def split: option.splits if_splits)
    then show ?thesis using direct_success_stage_of other by blast
  next
    case (DirectRefused m)
    then obtain y where "find_peer k m = Some y" "directConnectPeer y"
      "state_after (OnConnectPeerFailure (vasio_methods env) m y k) = Some k'"
      using assms(1,2) by (auto simp: with_connecting_def split: option.splits if_splits)
    then show ?thesis using direct_failure_stage_of other by blast
  next
    case (RequestTimedOut m)
    then obtain y where y: "find_peer k m = Some y" "state_after (OnTimerExpired (vasio_methods env) m y k) = Some k'"
      using assms(1,2) by (auto simp: with_connecting_def split: option.splits if_splits)
    have "m \<noteq> n \<or> peerStage y \<noteq> StageRemoteConnectRequested" using x y(1) by auto
    then show ?thesis using expired_stage_of [OF y] by blast
  qed (use assms(1,2,5) on_outer_stage_of in auto)
  then show ?thesis using assms(4) by simp
qed

text \<open>
  Claim C26. A remote connection request that the other side has acknowledged is waited for
  without an end. The timer of the request no longer counts and the wait has no timeout: if
  the connection never comes, then whatever else happens, short of a message from a peer,
  the participant stays in this stage and the join never succeeds; if it is the only known
  participant, the thread that joins is told nothing, neither a success nor a failure.
\<close>

theorem acknowledged_request_blocks_the_join:
  assumes "proper_receivers env" "(vasio_step env)\<^sup>*\<^sup>* (new_vasio name pid caps v u) k"
    and "stage_of k n = Some StageRemoteIsConnecting"
    and "vasio_run env is k = Some k'" "\<forall>i\<in>set is. \<forall>p blob. i \<noteq> Received p blob"
  shows "stage_of k' n = Some StageRemoteIsConnecting \<and> WaitForAllReplies False k' \<noteq> Some (Inr ()) \<and>
    ConnectToKnownParticipants k' \<noteq> Some (Inr ()) \<and>
    (map fst (connectingPeers k') = [n] \<longrightarrow> ConnectToKnownParticipants k' = None)"
proof -
  have "stage_of k' n = Some StageRemoteIsConnecting \<and> connect_inv join_promises k'"
    using assms(2-5)
  proof (induction "is" arbitrary: k)
    case Nil
    then show ?case using new_vasio_inv [OF assms(1)] by auto
  next
    case (Cons i "is")
    then obtain out k1 where k1: "vasio_input env i k = Some out" "state_after out = Some k1" "vasio_run env is k1 = Some k'"
      by (auto split: option.splits)
    have "vasio_step env k k1" using k1 by (auto simp: vasio_step_def)
    then have "(vasio_step env)\<^sup>*\<^sup>* (new_vasio name pid caps v u) k1" using Cons.prems(1) by simp
    moreover have "stage_of k1 n = Some StageRemoteIsConnecting"
      using waits_on [OF k1(1,2) new_vasio_inv [OF assms(1) Cons.prems(1)] Cons.prems(2)] Cons.prems(4) by simp
    ultimately show ?case using Cons.IH [OF _ _ k1(3)] Cons.prems(4) by simp
  qed
  then have inv: "connect_inv join_promises k'" and st: "stage_of k' n = Some StageRemoteIsConnecting" by simp_all
  obtain x where x: "find_peer k' n = Some x" "peerStage x = StageRemoteIsConnecting" using st by (auto simp: stage_of_def)
  have low: "\<not> all_at_least StageReplyReceived k'" "\<not> all_at_least StageWaitingForReply k'"
    using x not_all_at_least [of k' n x] by simp_all
  have "connectStage k' = Connecting \<or> connectStage k' = ConnectFailure"
    using inv low x(1) by (auto simp: connect_inv_def stage_ok_def split: connect_stage.splits)
  moreover have "connectStage k' \<noteq> ConnectFailure" if "map fst (connectingPeers k') = [n]"
    using that x inv by (auto simp: connect_inv_def stage_ok_def any_failed_def split: if_splits)
  moreover have "join_promises (outer k') = stage_promises (connectStage k')"
    using inv by (simp add: connect_inv_def)
  ultimately show ?thesis
    using st by (auto simp: join_promises_def WaitForAllReplies_def ConnectToKnownParticipants_def future_wait_for_def)
qed

section \<open>An example\<close>

definition example_env :: "unit environment" where
  "example_env =
     \<lparr>announcementReceivers = [], peerShutdownCallbacks = [], synchronizing = (\<lambda>_. False), currentTime = (\<lambda>_. 0),
      memoryBehind = [], uninitializedId = 1, uninitializedVersion = (0, 0), streamAddresses = (\<lambda>_. ([], [])),
      parseCapabilities = (\<lambda>s. if s = ToCapabilitiesString [RequestParticipantConnection]
        then Some [Some RequestParticipantConnection] else None),
      makeAddress = (\<lambda>_. None), errorText = (\<lambda>_. [])\<rparr>"

lemma proper_example [simp]: "proper_receivers example_env"
  by (simp add: proper_receivers_def example_env_def)

definition peer_example :: "string \<Rightarrow> 64 word \<Rightarrow> vasio_peer_info" where
  "peer_example name pid = \<lparr>pi_participantName = name, pi_participantId = pid, pi_acceptorUris = [''local:///'' @ name],
     pi_capabilities = ToCapabilitiesString [RequestParticipantConnection]\<rparr>"

lemma peer_example_sel [simp]:
  "pi_participantName (peer_example n i) = n" "pi_participantId (peer_example n i) = i"
  "pi_acceptorUris (peer_example n i) = [''local:///'' @ n]"
  "pi_capabilities (peer_example n i) = ToCapabilitiesString [RequestParticipantConnection]"
  by (simp_all add: peer_example_def)

definition example_start :: "unit vasio" where
  "example_start = new_vasio ''A'' 7 [RequestParticipantConnection] V31 ()"

definition example_joined :: "unit connection" where
  "example_joined = (new_connection ''A'' 7 [RequestParticipantConnection] V31 ())
     \<lparr>simulationName := ''s'', allowAnySimulationName := False, acceptors := [''local:///A'']\<rparr>"

lemma example_MakePeerInfo:
  assumes "participantName c = ''A''" "participantId c = 7" "acceptors c = [''local:///A'']"
    "capabilities c = [RequestParticipantConnection]"
  shows "MakePeerInfo c = Inr (peer_example ''A'' 7)"
  using assms by (simp add: MakePeerInfo_def Parse_def scheme_type_def peer_example_def Let_def)

lemma example_capabilities_length [simp]: "length (ToCapabilitiesString [RequestParticipantConnection]) = 46"
  by (simp add: ToCapabilitiesString_def capability_item_def quoted_def)

lemma ok_peer_example: "length n < 1000 \<Longrightarrow> ok_VAsioPeerInfo (peer_example n i)"
  by (simp add: ok_VAsioPeerInfo_def ok_string_def ok_vector_def max_size_def)

lemma example_joins:
  "vasio_input example_env (JoinBegins ''silkit://r/s'' [''local:///A'']) example_start =
     Some (Done (example_start\<lparr>outer := example_joined\<rparr>))"
  by (simp add: begin_join_def example_start_def new_vasio_def new_connect_known_def on_outer_def new_connection_def
      Parse_def scheme_type_def parse_authority_def ValidateAndTransformSimulationName_def name_char_def is_letter_def
      example_joined_def Let_def)


text \<open>What the example needs of the connection while it goes on.\<close>

definition example_ready :: "unit connection \<Rightarrow> bool" where
  "example_ready c \<longleftrightarrow> participantName c = ''A'' \<and> participantId c = 7 \<and> acceptors c = [''local:///A''] \<and>
     capabilities c = [RequestParticipantConnection] \<and> version c = V31 \<and> registryPeer c = Some 0 \<and>
     (\<exists>q. find_object c 0 = Some q \<and> proxyOf q = None \<and> peerVersion q \<noteq> (3, 0))"

lemma example_ready_emit [simp]: "example_ready (emit e c) = example_ready c"
  by (simp add: example_ready_def emit_def)

definition example_registry :: vasio_peer_info where
  "example_registry = \<lparr>pi_participantName = ''SilKitRegistry'', pi_participantId = 0, pi_acceptorUris = [], pi_capabilities = []\<rparr>"

lemma example_registry_connects:
  "\<exists>c. vasio_input example_env (RegistryConnected example_registry) (example_start\<lparr>outer := example_joined\<rparr>) =
     Some (Done (example_start\<lparr>outer := c\<rparr>)) \<and> example_ready c"
proof -
  let ?a = "\<lparr>pa_messageHeader = MakeRegistryMsgHeader V31, pa_peerInfo = peer_example ''A'' 7, pa_simulationName = ''s''\<rparr>"
  have "ok_announcement ?a" by (simp add: ok_announcement_def ok_peer_example ok_string_def max_size_def)
  moreover have "length (enc_announcement ?a) + 6 \<le> max_message_size"
    by (simp add: enc_announcement_def max_message_size_def)
  ultimately obtain blob where "framed_as TypeParticipantAnnouncement (0, 0) 0 (put_ParticipantAnnouncement ?a) blob"
    using announcement_frame [of ?a] by auto
  then show ?thesis
    by (simp add: send_direct on_outer_def ConnectToRegistry_def MakeVAsioPeer_def new_peer_object_def example_joined_def
        new_connection_def update_peer_def with_peer_def put_object_def emit_def SendParticipantAnnouncement_def
        example_MakePeerInfo example_ready_def) (rule exI, rule conjI [OF refl], simp)
qed


lemma example_knows_B:
  assumes "example_ready (outer k)" "knownParticipantsPromise k = Unset"
  shows "\<exists>blob c. vasio_input example_env (Received 0 blob) k =
    Some (Done (k\<lparr>outer := c, knownParticipantsPromise := Fulfilled [peer_example ''B'' 9]\<rparr>)) \<and> example_ready c"
proof -
  let ?msg = "\<lparr>kp_messageHeader = MakeRegistryMsgHeader V31, kp_peerInfos = [peer_example ''B'' 9]\<rparr>"
  obtain q where q: "find_object (outer k) 0 = Some q" "peerVersion q \<noteq> (3, 0)" "proxyOf q = None"
    using assms(1) by (auto simp: example_ready_def)
  have "ok_known ?msg" by (simp add: ok_known_def ok_vector_def ok_peer_example max_size_def)
  moreover have "length (enc_known V31 ?msg) + 6 \<le> max_message_size"
    by (simp add: enc_known_def max_message_size_def)
  ultimately have "\<exists>blob. \<forall>(env :: unit environment) k p q. find_object (outer k) p = Some q \<longrightarrow> peerVersion q \<noteq> (3, 0) \<longrightarrow>
      (\<exists>m. Deserialize get_KnownParticipants m = Inr ?msg \<and> receive_blob env p blob k = ReceiveKnownParticpants p m k)"
    using known_frame [of ?msg] by auto
  then obtain blob m where "Deserialize get_KnownParticipants m = Inr ?msg"
    "receive_blob example_env 0 blob k = ReceiveKnownParticpants 0 m k"
    using q(1,2) by blast
  then show ?thesis
    using q assms by (auto simp: ReceiveKnownParticpants_def on_outer_def update_peer_def with_peer_def
        SetKnownParticipants_def set_value_def example_ready_def put_object_def intro!: exI [of _ blob])
qed

definition example_connecting :: "peer_stage \<Rightarrow> bool \<Rightarrow> bool \<Rightarrow> unit connection \<Rightarrow> unit vasio" where
  "example_connecting st direct timer c =
     \<lparr>connectStage = Connecting, connectingPeers = [(''B'', \<lparr>ckInfo = peer_example ''B'' 9, peerStage = st,
        directConnectPeer = direct, remoteConnectRequestTimer = timer, failureReason = []\<rparr>)],
      knownParticipantsPromise = Fulfilled [peer_example ''B'' 9], outer = c\<rparr>"

lemma UpdateStage_example [simp]:
  "st \<in> {StageDirect, StageRemoteConnectRequested, StageRemoteIsConnecting} \<Longrightarrow>
    UpdateStage env (example_connecting st direct timer c) = example_connecting st direct timer c"
  by (auto simp: UpdateStage_def example_connecting_def any_failed_def all_at_least_def)

lemma example_starts:
  "vasio_input example_env StartsConnecting (example_start\<lparr>outer := c, knownParticipantsPromise := Fulfilled [peer_example ''B'' 9]\<rparr>)
     = Some (Done (example_connecting StageDirect True False c))"
proof -
  have "UpdateStage (vasio_methods example_env) (example_connecting StageDirect True False c) =
      example_connecting StageDirect True False c" by simp
  then show ?thesis
    by (simp add: StartConnecting_def example_start_def new_vasio_def new_connect_known_def new_connecting_peer_def
        start_peer_def example_connecting_def)
qed

lemma example_refused:
  assumes "example_ready c"
  shows "\<exists>c'. vasio_input example_env (DirectRefused ''B'') (example_connecting StageDirect True False c) =
    Some (Done (example_connecting StageRemoteConnectRequested False True c')) \<and> example_ready c'"
proof -
  let ?msg = "\<lparr>rq_messageHeader = MakeRegistryMsgHeader V31, rq_requestOrigin = peer_example ''A'' 7,
      rq_requestTarget = peer_example ''B'' 9, rq_status = request_REQUEST\<rparr>"
  have "ok_RemoteParticipantConnectRequest ?msg"
    by (simp add: ok_RemoteParticipantConnectRequest_def ok_peer_example)
  moreover have "length (enc_RemoteParticipantConnectRequest ?msg) + 6 \<le> max_message_size"
    by (simp add: enc_RemoteParticipantConnectRequest_def max_message_size_def)
  ultimately obtain blob where
    "framed_as TypeRemoteParticipantConnectRequest (0, 0) 0 (put_RemoteParticipantConnectRequest ?msg) blob"
    using request_frame [of ?msg] by auto
  then have "returned (TryRemoteConnectRequest example_env (peer_example ''B'' 9) c) c =
      (Inr True, emit (StreamSend 0 OtherMessage blob) c)"
    using assms by (auto simp: send_direct TryRemoteConnectRequest_def example_ready_def HasCapability_def AddCapability_def peer_has_capability_def
        ParseCapabilityString_def example_env_def ToCapabilitiesString_def to_registry_def send_request_def
        example_MakePeerInfo returned_def)
  moreover have "UpdateStage (vasio_methods example_env) (example_connecting StageRemoteConnectRequested False True c') =
      example_connecting StageRemoteConnectRequested False True c'" for c' by simp
  ultimately show ?thesis
    using assms by (intro exI [of _ "emit (StreamSend 0 OtherMessage blob) c"])
      (simp add: with_connecting_def OnConnectPeerFailure_def example_connecting_def Let_def set_peer_def)
qed


lemma example_acknowledged:
  assumes "example_ready c"
  shows "\<exists>blob c'. vasio_input example_env (Received 0 blob) (example_connecting StageRemoteConnectRequested False True c) =
    Some (Done (example_connecting StageRemoteIsConnecting False True c')) \<and> example_ready c'"
proof -
  let ?msg = "\<lparr>rq_messageHeader = MakeRegistryMsgHeader V31, rq_requestOrigin = peer_example ''A'' 7,
      rq_requestTarget = peer_example ''B'' 9, rq_status = request_CONNECTING\<rparr>"
  let ?k = "example_connecting StageRemoteConnectRequested False True c"
  obtain q where q: "find_object (outer ?k) 0 = Some q" "peerVersion q \<noteq> (3, 0)" "proxyOf q = None"
    using assms(1) by (auto simp: example_ready_def example_connecting_def)
  have "ok_RemoteParticipantConnectRequest ?msg"
    by (simp add: ok_RemoteParticipantConnectRequest_def ok_peer_example)
  moreover have "length (enc_RemoteParticipantConnectRequest ?msg) + 6 \<le> max_message_size"
    by (simp add: enc_RemoteParticipantConnectRequest_def max_message_size_def)
  ultimately have "\<exists>blob. \<forall>(env :: unit environment) k p q. find_object (outer k) p = Some q \<longrightarrow>
      (\<exists>m. Deserialize get_RemoteParticipantConnectRequest m = Inr ?msg \<and>
         registryMessageHeader m = MakeRegistryMsgHeader V31 \<and>
         receive_blob env p blob k = ReceiveRemoteParticipantConnectRequest env p m k)"
    using request_frame [of ?msg] by auto
  then obtain blob m where m: "Deserialize get_RemoteParticipantConnectRequest m = Inr ?msg"
    "registryMessageHeader m = MakeRegistryMsgHeader V31"
    "receive_blob example_env 0 blob ?k = ReceiveRemoteParticipantConnectRequest example_env 0 m ?k"
    using q(1) by blast
  have stay: "UpdateStage (vasio_methods example_env) (example_connecting StageRemoteIsConnecting False True c') =
      example_connecting StageRemoteIsConnecting False True c'" for c' by simp
  have "find_object c 0 = Some q" using q(1) by (simp add: example_connecting_def)
  then show ?thesis
    using m assms stay q(2) by (auto simp: ReceiveRemoteParticipantConnectRequest_def on_outer_def update_peer_def with_peer_def
        ReceiveRequest_Participant_def example_ready_def put_object_def HasCapability_def Let_def HandlePeerEvent_def
        HandleEvent_def set_peer_def example_connecting_def intro!: exI [of _ blob])
qed

text \<open>The registry names B, which refuses the connection and acknowledges the request to connect.\<close>

lemma example_run:
  "\<exists>is c. vasio_run example_env is example_start = Some (example_connecting StageRemoteIsConnecting False True c)"
proof -
  obtain c1 where c1: "vasio_input example_env (RegistryConnected example_registry) (example_start\<lparr>outer := example_joined\<rparr>) =
     Some (Done (example_start\<lparr>outer := c1\<rparr>))" "example_ready c1"
    using example_registry_connects by blast
  let ?k = "\<lambda>c. example_start\<lparr>outer := c\<rparr>"
  let ?known = "\<lambda>c. example_start\<lparr>outer := c, knownParticipantsPromise := Fulfilled [peer_example ''B'' 9]\<rparr>"
  obtain b2 c2 where c2: "vasio_input example_env (Received 0 b2) (?k c1) = Some (Done (?known c2))" "example_ready c2"
    using example_knows_B [of "?k c1"] c1(2) by (auto simp: example_start_def new_vasio_def new_connect_known_def)
  obtain c3 where c3: "vasio_input example_env (DirectRefused ''B'') (example_connecting StageDirect True False c2) =
    Some (Done (example_connecting StageRemoteConnectRequested False True c3))" "example_ready c3"
    using example_refused [OF c2(2)] by blast
  obtain b4 c4 where c4: "vasio_input example_env (Received 0 b4) (example_connecting StageRemoteConnectRequested False True c3) =
    Some (Done (example_connecting StageRemoteIsConnecting False True c4))"
    using example_acknowledged [OF c3(2)] by blast
  have "vasio_run example_env [JoinBegins ''silkit://r/s'' [''local:///A''], RegistryConnected example_registry,
      Received 0 b2, StartsConnecting, DirectRefused ''B'', Received 0 b4] example_start =
    Some (example_connecting StageRemoteIsConnecting False True c4)"
    by (simp only: vasio_run.simps example_joins c1(1) c2(1) example_starts c3(1) c4 option.case state_after.simps)
  then show ?thesis by blast
qed

lemma run_steps: "vasio_run env is k = Some k' \<Longrightarrow> (vasio_step env)\<^sup>*\<^sup>* k k'"
proof (induction "is" arbitrary: k)
  case (Cons i "is")
  then obtain out k1 where "vasio_input env i k = Some out" "state_after out = Some k1" "vasio_run env is k1 = Some k'"
    by (auto split: option.splits)
  then show ?case using Cons.IH by (auto simp: vasio_step_def intro: converse_rtranclp_into_rtranclp)
qed simp

lemma example_reached:
  "\<exists>c. (vasio_step example_env)\<^sup>*\<^sup>* example_start (example_connecting StageRemoteIsConnecting False True c)"
  using example_run run_steps by blast

lemma example_sel [simp]:
  "connectStage (example_connecting st d t c) = Connecting" "stages_of (example_connecting st d t c) = [st]"
  "stage_of (example_connecting st d t c) ''B'' = Some st" "outer (example_connecting st d t c) = c"
  "map fst (connectingPeers (example_connecting st d t c)) = [''B'']"
  by (simp_all add: example_connecting_def stages_of_def stage_of_def)

theorem join_is_told_what_happened_witness:
  "\<exists>k. (vasio_step example_env)\<^sup>*\<^sup>* (new_vasio ''A'' 7 [RequestParticipantConnection] V31 ()) k \<and>
    stages_of k = [StageRemoteIsConnecting] \<and> WaitForAllReplies False k \<noteq> Some (Inr ()) \<and>
    ConnectToKnownParticipants k \<noteq> Some (Inl ProtocolError)"
proof -
  obtain c where "(vasio_step example_env)\<^sup>*\<^sup>* (new_vasio ''A'' 7 [RequestParticipantConnection] V31 ())
      (example_connecting StageRemoteIsConnecting False True c)"
    using example_reached by (auto simp: example_start_def)
  from this join_is_told_what_happened [OF proper_example this] show ?thesis
    by (intro exI [of _ "example_connecting StageRemoteIsConnecting False True c"]) simp
qed

lemma input_step: "vasio_input env i k = Some (Done k') \<Longrightarrow> vasio_step env k k'"
  unfolding vasio_step_def by (intro exI conjI, assumption) simp

text \<open>The peer's request times out after it was acknowledged, and then nothing of interest happens any more.\<close>

theorem handshake_comes_to_rest_witness:
  "\<exists>k. (vasio_step example_env)\<^sup>*\<^sup>* (new_vasio ''A'' 7 [RequestParticipantConnection] V31 ()) (k 0) \<and>
    (\<forall>i. vasio_step example_env (k i) (k (Suc i))) \<and> stages_of (k 0) = [StageRemoteIsConnecting] \<and>
    finite {i. stages_of (k (Suc i)) \<noteq> stages_of (k i)} \<and> card {i. stages_of (k (Suc i)) \<noteq> stages_of (k i)} \<le> 6"
proof -
  obtain c where k: "(vasio_step example_env)\<^sup>*\<^sup>* (new_vasio ''A'' 7 [RequestParticipantConnection] V31 ())
      (example_connecting StageRemoteIsConnecting False True c)"
    using example_reached by (auto simp: example_start_def)
  define f where "f = (\<lambda>i :: nat. example_connecting StageRemoteIsConnecting False (i = 0) c)"
  have "vasio_input example_env (RequestTimedOut ''B'') (f 0) = Some (Done (f 1))"
    by (simp add: f_def with_connecting_def OnTimerExpired_def Let_def set_peer_def example_connecting_def)
  then have first: "vasio_step example_env (f 0) (f 1)"
    by (rule input_step)
  have "k\<lparr>outer := c\<lparr>userState := ()\<rparr>\<rparr> = k" if "outer k = c" for k :: "unit vasio" and c
    by (cases k; cases c) (use that in simp)
  then have "vasio_input example_env (UserDoes ()) (f (Suc i)) = Some (Done (f (Suc (Suc i))))" for i
    by (simp add: f_def on_outer_def)
  then have "vasio_step example_env (f (Suc i)) (f (Suc (Suc i)))" for i
    by (rule input_step)
  then have steps: "vasio_step example_env (f i) (f (Suc i))" for i using first by (cases i) simp_all
  have start: "(vasio_step example_env)\<^sup>*\<^sup>* (new_vasio ''A'' 7 [RequestParticipantConnection] V31 ()) (f 0)"
    "connectStage (f 0) \<noteq> ConnectInvalid" "stages_of (f 0) = [StageRemoteIsConnecting]"
    using k by (simp_all add: f_def)
  from handshake_comes_to_rest [OF proper_example start(1,2) steps] start(1,3) steps show ?thesis
    by (intro exI [of _ f]) simp
qed

theorem acknowledged_request_blocks_the_join_witness:
  "\<exists>k k'. (vasio_step example_env)\<^sup>*\<^sup>* (new_vasio ''A'' 7 [RequestParticipantConnection] V31 ()) k \<and>
    vasio_run example_env [RequestTimedOut ''B''] k = Some k' \<and>
    stage_of k' ''B'' = Some StageRemoteIsConnecting \<and> ConnectToKnownParticipants k' = None"
proof -
  obtain c where k: "(vasio_step example_env)\<^sup>*\<^sup>* (new_vasio ''A'' 7 [RequestParticipantConnection] V31 ())
      (example_connecting StageRemoteIsConnecting False True c)"
    using example_reached by (auto simp: example_start_def)
  have run: "vasio_run example_env [RequestTimedOut ''B''] (example_connecting StageRemoteIsConnecting False True c) =
      Some (example_connecting StageRemoteIsConnecting False False c)"
    by (simp add: with_connecting_def OnTimerExpired_def Let_def set_peer_def example_connecting_def)
  have "ConnectToKnownParticipants (example_connecting StageRemoteIsConnecting False False c) = None"
    using acknowledged_request_blocks_the_join [OF proper_example k _ run, of "''B''"] by simp
  then show ?thesis using k run by auto
qed

end
