(* ===== verification/DirectHandshake.thy ===== *)
theory DirectHandshake
  imports JoinSimulation
begin

text \<open>
  Two participants with a direct connection: the one that connects announces itself, the
  other one replies, and both know each other and what to send each other.
\<close>

section \<open>The one that connects\<close>

definition peers_fresh :: "'u connection \<Rightarrow> bool" where
  "peers_fresh c \<longleftrightarrow> (\<forall>p\<in>fst ` set (peerObjects c). p < nextPeer c)"

lemma fresh_peer [simp]: "peers_fresh c \<Longrightarrow> map_of (peerObjects c) (nextPeer c) = None"
  by (force simp: peers_fresh_def map_of_eq_None_iff)

text \<open>What \<open>UpdateStage\<close> does to the connection.\<close>

definition sets_promises :: "'u connection \<Rightarrow> 'u connection \<Rightarrow> bool" where
  "sets_promises c c' \<longleftrightarrow> c = c'\<lparr>startWaiting := startWaiting c, allHandshakes := allHandshakes c\<rparr>"

lemma UpdateStage_outer: "sets_promises (outer k) (outer (UpdateStage (vasio_methods env) k))"
  by (simp add: UpdateStage_def Let_def sets_promises_def OnConnectKnownParticipantsFailure_def
      OnConnectKnownParticipantsWaitingForAllReplies_def OnConnectKnownParticipantsAllRepliesReceived_def)

lemma sets_promises_frame:
  assumes "sets_promises c c'"
  shows "peerObjects c' = peerObjects c" "links c' = links c" "trace c' = trace c" "vasioReceivers c' = vasioReceivers c"
  using assms [unfolded sets_promises_def, THEN arg_cong, of peerObjects]
    assms [unfolded sets_promises_def, THEN arg_cong, of links]
    assms [unfolded sets_promises_def, THEN arg_cong, of trace]
    assms [unfolded sets_promises_def, THEN arg_cong, of vasioReceivers] by simp_all

lemma put_fresh:
  assumes "p \<notin> fst ` set (peerObjects c)"
  shows "put_object p q' (c\<lparr>peerObjects := peerObjects c @ [(p, q)], nextPeer := i\<rparr>) =
    c\<lparr>peerObjects := peerObjects c @ [(p, q')], nextPeer := i\<rparr>"
proof -
  have "AList.update p q' (al @ [(p, q)]) = al @ [(p, q')]" if "p \<notin> fst ` set al" for al
    using that by (induction al) auto
  then show ?thesis using assms by (simp add: put_object_def)
qed

lemma fresh_not_in: "peers_fresh c \<Longrightarrow> nextPeer c \<notin> fst ` set (peerObjects c)"
  by (auto simp: peers_fresh_def)

text \<open>The connection with one more peer.\<close>

definition with_new_peer :: "'u environment \<Rightarrow> vasio_peer_info \<Rightarrow> string \<Rightarrow> service_descriptor \<Rightarrow> 'u connection \<Rightarrow> 'u connection" where
  "with_new_peer env info sim d c =
     c\<lparr>peerObjects := peerObjects c @ [(nextPeer c,
         \<lparr>peerInfo = info, peerVersion = (0, 0), peerSimulation = sim, peerDescriptor = d, proxyOf = None,
          localAddress = fst (streamAddresses env (nextPeer c)), remoteAddress = snd (streamAddresses env (nextPeer c))\<rparr>)],
       nextPeer := nextPeer c + 1\<rparr>"

lemma makeVAsioPeer_fresh:
  assumes "peers_fresh c"
  shows "makeVAsioPeer (vasio_methods env) info c = (nextPeer c, with_new_peer env info [] default_descriptor c)"
  using put_fresh [OF fresh_not_in [OF assms]] fresh_peer [OF assms]
  by (simp add: vasio_methods_def MakeVAsioPeer_def new_peer_object_def with_new_peer_def map_add_def)

lemma HandleConnectedPeer_fresh:
  assumes "peers_fresh c" "MakePeerInfo c = Inr me" "pi_acceptorUris me \<noteq> []"
    and "framed_as TypeParticipantAnnouncement (0, 0) 0 (put_ParticipantAnnouncement
      \<lparr>pa_messageHeader = MakeRegistryMsgHeader (version c), pa_peerInfo = me, pa_simulationName = simulationName c\<rparr>) blob"
  shows "HandleConnectedPeer (nextPeer c) (with_new_peer env info [] default_descriptor c) =
    Done (AssociateParticipantNameAndPeer (simulationName c) (pi_participantName info) (nextPeer c)
      (emit (StreamSend (nextPeer c) OtherMessage blob)
        (with_new_peer env info (simulationName c)
          (SetParticipantNameAndComputeId (pi_participantName info) default_descriptor) c)))"
proof -
  let ?p = "nextPeer c"
  have find: "find_object (with_new_peer env i s d c) ?p = Some \<lparr>peerInfo = i, peerVersion = (0, 0), peerSimulation = s,
      peerDescriptor = d, proxyOf = None, localAddress = fst (streamAddresses env ?p),
      remoteAddress = snd (streamAddresses env ?p)\<rparr>" for i s d
    using fresh_peer [OF assms(1)] by (simp add: with_new_peer_def map_add_def)
  have put: "put_object ?p q (with_new_peer env i s d c) =
      c\<lparr>peerObjects := peerObjects c @ [(?p, q)], nextPeer := ?p + 1\<rparr>" for q i s d
    using put_fresh [OF fresh_not_in [OF assms(1)]] by (simp add: with_new_peer_def)
  have find_emit: "find_object (emit e c') = find_object c'" for e c'
    by (simp add: emit_def)
  have put_emit: "put_object ?p q (emit e c') = emit e (put_object ?p q c')" for q e c'
    by (simp add: put_object_def emit_def)
  have me: "MakePeerInfo (with_new_peer env i s d c) = Inr me" for i s d
    using assms(2) by (simp add: MakePeerInfo_def with_new_peer_def)
  have sel: "simulationName (with_new_peer env i s d c) = simulationName c" "version (with_new_peer env i s d c) = version c" for i s d
    by (simp_all add: with_new_peer_def)
  let ?d = "default_descriptor\<lparr>sd_supplementalData :=
      AList.update simulationName_key (simulationName c) (sd_supplementalData default_descriptor)\<rparr>"
  have d: "update_peer ?p (SetSimulationName (simulationName c)) (with_new_peer env info [] default_descriptor c) =
      Done (with_new_peer env info (simulationName c) ?d c)"
    using find by (simp add: update_peer_def with_peer_def put SetSimulationName_def Let_def)
      (simp add: with_new_peer_def)
  have "SendParticipantAnnouncement ?p (with_new_peer env info (simulationName c) ?d c) =
      Done (emit (StreamSend ?p OtherMessage blob) (with_new_peer env info (simulationName c) ?d c))"
    using assms(3,4) find by (simp add: SendParticipantAnnouncement_def me sel send_direct)
  then show ?thesis
    using find by (simp add: HandleConnectedPeer_def sel d with_peer_def put_emit put find_emit Let_def) (simp add: with_new_peer_def emit_def)
qed


text \<open>After the connection was made: the announcement is sent, and the peer is waited for.\<close>

lemma connect_direct:
  fixes k :: "'u vasio"
  defines "c \<equiv> outer k"
  defines "p \<equiv> nextPeer c"
  assumes "peers_fresh c" "MakePeerInfo c = Inr me" "pi_acceptorUris me \<noteq> []"
    and "framed_as TypeParticipantAnnouncement (0, 0) 0 (put_ParticipantAnnouncement
      \<lparr>pa_messageHeader = MakeRegistryMsgHeader (version c), pa_peerInfo = me, pa_simulationName = simulationName c\<rparr>) blob"
  shows "\<exists>k' q more. OnConnectPeerSuccess (vasio_methods env) n x k = Done k' \<and>
    find_peer k' n = Some (x\<lparr>directConnectPeer := False, peerStage := StageWaitingForReply\<rparr>) \<and>
    find_object (outer k') p = Some q \<and> peerInfo q = ckInfo x \<and> proxyOf q = None \<and> peerVersion q = (0, 0) \<and>
    peerDescriptor q = SetParticipantNameAndComputeId (pi_participantName (ckInfo x)) default_descriptor \<and>
    links (outer k') = links c \<and> trace (outer k') = trace c @ StreamSend p OtherMessage blob # more \<and>
    set more \<subseteq> {StreamStartRead p, StreamAggregate p}"
proof -
  let ?x = "x\<lparr>directConnectPeer := False, peerStage := StageWaitingForReply\<rparr>"
  let ?c1 = "with_new_peer env (ckInfo x) [] default_descriptor c"
  let ?q = "\<lparr>peerInfo = ckInfo x, peerVersion = (0, 0), peerSimulation = simulationName c,
      peerDescriptor = SetParticipantNameAndComputeId (pi_participantName (ckInfo x)) default_descriptor, proxyOf = None,
      localAddress = fst (streamAddresses env p), remoteAddress = snd (streamAddresses env p)\<rparr>"
  define c2 where "c2 = AssociateParticipantNameAndPeer (simulationName c) (pi_participantName (ckInfo x)) p
    (emit (StreamSend p OtherMessage blob) (with_new_peer env (ckInfo x) (simulationName c)
      (SetParticipantNameAndComputeId (pi_participantName (ckInfo x)) default_descriptor) c))"
  have c2: "find_object c2 p = Some ?q" "links c2 = links c" "trace c2 = trace c @ [StreamSend p OtherMessage blob]"
    using fresh_peer [OF assms(3)]
    by (simp_all add: c2_def p_def AssociateParticipantNameAndPeer_def with_new_peer_def emit_def map_add_def)
  obtain c3 more where c3: "AddPeer p c2 = Done c3" "peerObjects c3 = peerObjects c2" "links c3 = links c2"
    "trace c3 = trace c2 @ more" "set more \<subseteq> {StreamStartRead p, StreamAggregate p}"
    using c2(1) by (cases "aggregating c2") (auto simp: AddPeer_def with_peer_def emit_def Let_def)
  have "OnConnectPeerSuccess (vasio_methods env) n x k =
      Done (UpdateStage (vasio_methods env) ((set_peer n ?x k)\<lparr>outer := c3\<rparr>))"
    using HandleConnectedPeer_fresh [OF assms(3-6), of env "ckInfo x"] c3(1)
    by (simp add: OnConnectPeerSuccess_def Let_def on_outer_def c_def [symmetric] p_def [symmetric]
        makeVAsioPeer_fresh [OF assms(3)] destroy_on_throw_def c2_def)
  moreover note frame = sets_promises_frame [OF UpdateStage_outer [of "(set_peer n ?x k)\<lparr>outer := c3\<rparr>" env]]
  ultimately show ?thesis
    using c2 c3 by (intro exI [of _ "UpdateStage (vasio_methods env) ((set_peer n ?x k)\<lparr>outer := c3\<rparr>)"]
        exI [of _ ?q] exI [of _ more]) (simp add: set_peer_def frame)
qed

section \<open>The one that is connected to\<close>

text \<open>
  A receiver of announcements that returns and touches nothing but the services of the
  participant, as long as the peer exists.
\<close>

definition acts_on_user :: "(nat \<Rightarrow> participant_announcement \<Rightarrow> 'u connection \<Rightarrow> 'u connection outcome) \<Rightarrow> bool" where
  "acts_on_user f \<longleftrightarrow> (\<forall>p a c. find_object c p \<noteq> None \<longrightarrow> (\<exists>u. f p a c = Done (c\<lparr>userState := u\<rparr>)))"

lemma call_receivers_user:
  assumes "list_all acts_on_user fs" "find_object c p \<noteq> None"
  shows "\<exists>u. call_receivers fs p a c = Done (c\<lparr>userState := u\<rparr>)"
  using assms
proof (induction fs arbitrary: c)
  case (Cons f fs)
  have "acts_on_user f" using Cons.prems(1) by simp
  then obtain u where u: "f p a c = Done (c\<lparr>userState := u\<rparr>)"
    using Cons.prems(2) unfolding acts_on_user_def by blast
  with Cons.IH [of "c\<lparr>userState := u\<rparr>"] Cons.prems show ?case by auto
next
  case Nil
  have "call_receivers [] p a c = Done (c\<lparr>userState := userState c\<rparr>)" by simp
  then show ?case by blast
qed

lemma announcement_answered:
  assumes "list_all acts_on_user (announcementReceivers env)" "find_object c p = Some q" "proxyOf q = None"
    and "registryMessageHeader m = MakeRegistryMsgHeader V31"
    and "Deserialize get_ParticipantAnnouncement (message_SetProtocolVersion V31 m) = Inr a"
    and "allowAnySimulationName c \<or> pa_simulationName a = simulationName c"
    and "framed_as TypeParticipantAnnouncementReply (0, 0) 0 (put_ParticipantAnnouncementReply
      \<lparr>par_remoteHeader = MakeRegistryMsgHeader V31, par_status = reply_Success,
       par_subscribers = map snd (vasioReceivers c), par_diagnostic = []\<rparr>) blob"
  shows "\<exists>c' q'. ReceiveParticipantAnnouncement env p m c = Done c' \<and>
    trace c' = trace c @ [StreamSend p OtherMessage blob] \<and> links c' = links c \<and> vasioReceivers c' = vasioReceivers c \<and>
    find_object c' p = Some q' \<and> peerInfo q' = pa_peerInfo a \<and> peerVersion q' = V31 \<and> proxyOf q' = None \<and>
    sd_participantName (peerDescriptor q') = pi_participantName (pa_peerInfo a) \<and>
    sd_participantId (peerDescriptor q') = Hash (pi_participantName (pa_peerInfo a)) \<and>
    (FindPeerByName (pa_simulationName a) (pi_participantName (pa_peerInfo a)) c = None \<longrightarrow>
     FindPeerByName (pa_simulationName a) (pi_participantName (pa_peerInfo a)) c' = Some p)"
proof -
  let ?sim = "pa_simulationName a" and ?name = "pi_participantName (pa_peerInfo a)"
  define q1 where "q1 = SetSimulationName ?sim (q\<lparr>peerVersion := V31, peerInfo := pa_peerInfo a,
      peerDescriptor := SetParticipantNameAndComputeId ?name (peerDescriptor q)\<rparr>)"
  have q1: "proxyOf q1 = None" "peerVersion q1 = V31" "peerInfo q1 = pa_peerInfo a"
    "sd_participantName (peerDescriptor q1) = ?name" "sd_participantId (peerDescriptor q1) = Hash ?name"
    using assms(3) by (simp_all add: q1_def SetSimulationName_def SetParticipantNameAndComputeId_def Let_def)
  define c0 where "c0 = put_object p q1 (put_object p (q\<lparr>peerVersion := V31\<rparr>) c)"
  have "find_object c0 p \<noteq> None" by (simp add: c0_def put_object_def)
  from call_receivers_user [OF assms(1) this] obtain u where u:
    "call_receivers (announcementReceivers env) p a c0 = Done (c0\<lparr>userState := u\<rparr>)" by blast
  define c1 where "c1 = c0\<lparr>userState := u\<rparr>"
  define c2 where "c2 = AssociateParticipantNameAndPeer ?sim ?name p c1"
  have c2: "find_object c2 p = Some q1" "vasioReceivers c2 = vasioReceivers c" "trace c2 = trace c" "links c2 = links c"
    "FindPeerByName ?sim ?name c = None \<longrightarrow> FindPeerByName ?sim ?name c2 = Some p"
    by (auto simp: c2_def c1_def c0_def put_object_def AssociateParticipantNameAndPeer_def FindPeerByName_def map_add_def
        split: option.split)
  have "ReceiveParticipantAnnouncement env p m c = SendParticipantAnnouncementReply p c2"
    using assms(2-6) u by (auto simp: ReceiveParticipantAnnouncement_def Let_def update_peer_def with_peer_def
        c2_def c1_def c0_def q1_def put_object_def)
  also have "\<dots> = Done (emit (StreamSend p OtherMessage blob) c2)"
    using assms(7) q1 c2(1,2) by (simp add: SendParticipantAnnouncementReply_def send_reply_def with_peer_def send_direct)
  finally show ?thesis
    using c2 q1 by (intro exI [of _ "emit (StreamSend p OtherMessage blob) c2"] exI [of _ q1])
      (simp add: emit_def FindPeerByName_def)
qed

section \<open>The reply\<close>

definition no_history :: "'u connection \<Rightarrow> bool" where
  "no_history c \<longleftrightarrow> (\<forall>l. Some l \<in> snd ` set (links c) \<longrightarrow> history l = None)"

definition subscribed :: "'u connection \<Rightarrow> nat \<Rightarrow> vasio_msg_subscriber \<Rightarrow> bool" where
  "subscribed c p s \<longleftrightarrow>
     (\<forall>t\<in>set (subscribed_types (ms_msgTypeName s)).
        \<lparr>receiverPeer = p, remoteIdx = ms_receiverIdx s\<rparr> \<in> set (remoteReceivers (GetLinkByName t (ms_networkName s) c)))"

lemma GetLinkByName_put [simp]:
  "GetLinkByName t n (put_link t' n' l c) = (if t = t' \<and> n = n' then l else GetLinkByName t n c)"
  by (simp add: GetLinkByName_def put_link_def update_conv')

lemma no_history_link: "no_history c \<Longrightarrow> history (GetLinkByName t n c) = None"
  by (auto simp: GetLinkByName_def no_history_def new_link_def image_iff split: option.split dest!: map_of_SomeD) force

lemma update_values: "snd ` set (AList.update k v al) \<subseteq> insert v (snd ` set al)"
  by (induction al) auto

lemma no_history_put: "no_history c \<Longrightarrow> history l = None \<Longrightarrow> no_history (put_link t n l c)"
  using update_values [of "(t, n)" "Some l" "links c"] unfolding no_history_def put_link_def by simp blast

text \<open>What subscribing does to the links.\<close>

definition more_receivers :: "'u connection \<Rightarrow> 'u connection \<Rightarrow> bool" where
  "more_receivers c c' \<longleftrightarrow>
     c' = c\<lparr>links := links c'\<rparr> \<and> (no_history c \<longrightarrow> no_history c') \<and>
     (\<forall>t n. set (remoteReceivers (GetLinkByName t n c)) \<subseteq> set (remoteReceivers (GetLinkByName t n c')))"

lemma more_receivers_refl [simp]: "more_receivers c c"
  by (simp add: more_receivers_def)

lemma more_receivers_trans:
  assumes "more_receivers c c1" "more_receivers c1 c2"
  shows "more_receivers c c2"
proof -
  have "c2 = c\<lparr>links := links c2\<rparr>"
    using assms by (metis (no_types, lifting) more_receivers_def connection.update_convs(8) connection.surjective)
  moreover have "no_history c \<longrightarrow> no_history c2" using assms by (simp add: more_receivers_def)
  moreover have "\<forall>t n. set (remoteReceivers (GetLinkByName t n c)) \<subseteq> set (remoteReceivers (GetLinkByName t n c2))"
    using assms unfolding more_receivers_def by (meson subset_trans)
  ultimately show ?thesis unfolding more_receivers_def by blast
qed

lemma AddRemoteReceiverTo_added:
  assumes "no_history c"
  shows "\<exists>c'. AddRemoteReceiverTo p s t c = Done c' \<and> more_receivers c c' \<and>
    \<lparr>receiverPeer = p, remoteIdx = ms_receiverIdx s\<rparr> \<in> set (remoteReceivers (GetLinkByName t (ms_networkName s) c'))"
proof -
  let ?n = "ms_networkName s" and ?i = "ms_receiverIdx s"
  let ?l = "GetLinkByName t ?n c"
  obtain l where l: "AddRemoteReceiver p ?i ?l = ([], l)" "history l = None"
    "set (remoteReceivers l) = insert \<lparr>receiverPeer = p, remoteIdx = ?i\<rparr> (set (remoteReceivers ?l))"
    using no_history_link [OF assms, of t ?n]
    by (cases "\<lparr>receiverPeer = p, remoteIdx = ?i\<rparr> \<in> set (remoteReceivers ?l)")
      (auto simp: AddRemoteReceiver_def NotifyPeer_def Let_def)
  have "more_receivers c (put_link t ?n l c)"
    using no_history_put [OF assms l(2)] l(3) by (auto simp: more_receivers_def) (simp add: put_link_def)
  then show ?thesis using l by (auto simp: AddRemoteReceiverTo_def)
qed

lemma more_receivers_object: "more_receivers c c' \<Longrightarrow> find_object c' = find_object c"
  unfolding more_receivers_def by (metis connection.ext_inject connection.surjective connection.update_convs(8))

lemma add_to_links_added:
  "no_history c \<Longrightarrow> \<exists>c'. add_to_links p s ts c = Done c' \<and> more_receivers c c' \<and>
    (\<forall>t\<in>set ts. \<lparr>receiverPeer = p, remoteIdx = ms_receiverIdx s\<rparr> \<in> set (remoteReceivers (GetLinkByName t (ms_networkName s) c')))"
proof (induction ts arbitrary: c)
  case (Cons t ts)
  obtain c1 where c1: "AddRemoteReceiverTo p s t c = Done c1" "more_receivers c c1"
    "\<lparr>receiverPeer = p, remoteIdx = ms_receiverIdx s\<rparr> \<in> set (remoteReceivers (GetLinkByName t (ms_networkName s) c1))"
    using AddRemoteReceiverTo_added [OF Cons.prems] by blast
  then have "no_history c1" using Cons.prems by (simp add: more_receivers_def)
  from Cons.IH [OF this] obtain c2 where c2: "add_to_links p s ts c1 = Done c2" "more_receivers c1 c2"
    "\<forall>t\<in>set ts. \<lparr>receiverPeer = p, remoteIdx = ms_receiverIdx s\<rparr> \<in> set (remoteReceivers (GetLinkByName t (ms_networkName s) c2))"
    by blast
  have "\<lparr>receiverPeer = p, remoteIdx = ms_receiverIdx s\<rparr> \<in> set (remoteReceivers (GetLinkByName t (ms_networkName s) c2))"
    using c1(3) c2(2) unfolding more_receivers_def by blast
  then show ?case using c1(1) c2 more_receivers_trans [OF c1(2) c2(2)] by auto
qed auto

lemma add_subscribers_added:
  "no_history c \<Longrightarrow> find_object c p \<noteq> None \<Longrightarrow>
    \<exists>c'. add_subscribers p ss c = Done c' \<and> more_receivers c c' \<and> (\<forall>s\<in>set ss. subscribed c' p s)"
proof (induction ss arbitrary: c)
  case (Cons s ss)
  obtain c1 where c1: "TryAddRemoteSubscriber p s c = Done c1" "more_receivers c c1" "subscribed c1 p s"
    using add_to_links_added [OF Cons.prems(1)] Cons.prems(2) by (fastforce simp: TryAddRemoteSubscriber_def with_peer_def subscribed_def)
  then have "no_history c1" "find_object c1 p \<noteq> None"
    using Cons.prems more_receivers_object [of c c1] by (auto simp: more_receivers_def)
  from Cons.IH [OF this] obtain c2 where c2: "add_subscribers p ss c1 = Done c2" "more_receivers c1 c2"
    "\<forall>s\<in>set ss. subscribed c2 p s" by blast
  have "subscribed c2 p s"
    using c1(3) c2(2) unfolding more_receivers_def subscribed_def by blast
  then show ?case using c1(1) c2 more_receivers_trans [OF c1(2) c2(2)] by auto
qed auto

lemma reply_recorded:
  assumes "Deserialize get_ParticipantAnnouncementReply m = Inr r" "par_status r = reply_Success"
    and "find_object (outer k) p = Some q" "pi_participantId (peerInfo q) \<noteq> REGISTRY_PARTICIPANT_ID"
    and "no_history (outer k)" "stage_of k (pi_participantName (peerInfo q)) = Some StageWaitingForReply"
  shows "\<exists>k'. ReceiveParticipantAnnouncementReply env p m k = Done k' \<and>
    stage_of k' (pi_participantName (peerInfo q)) = Some StageReplyReceived \<and>
    (\<forall>s\<in>set (par_subscribers r). subscribed (outer k') p s)"
proof -
  let ?n = "pi_participantName (peerInfo q)"
  let ?c = "put_object p (q\<lparr>peerVersion := ExtractProtocolVersion (par_remoteHeader r)\<rparr>) (outer k)"
  have "no_history ?c" "find_object ?c p \<noteq> None"
    using assms(5) by (simp_all add: no_history_def put_object_def)
  from add_subscribers_added [OF this] obtain c' where c': "add_subscribers p (par_subscribers r) ?c = Done c'"
    "\<forall>s\<in>set (par_subscribers r). subscribed c' p s" by blast
  let ?k = "k\<lparr>outer := c'\<rparr>"
  obtain x where x: "find_peer ?k ?n = Some x" "peerStage x = StageWaitingForReply"
    using assms(6) by (auto simp: stage_of_def)
  let ?k' = "UpdateStage (vasio_methods env) (set_peer ?n (x\<lparr>peerStage := StageReplyReceived\<rparr>) ?k)"
  have "HandlePeerEvent (vasio_methods env) ?n peer_event.ParticipantAnnouncementReply ?k = Done ?k'"
    using x by (simp add: HandlePeerEvent_def HandleEvent_def)
  then have "ReceiveParticipantAnnouncementReply env p m k = Done ?k'"
    using assms(1-4) c'(1) by (simp add: ReceiveParticipantAnnouncementReply_def Let_def on_outer_def)
  moreover have "links (outer ?k') = links c'"
    by (simp add: sets_promises_frame(2) [OF UpdateStage_outer])
  ultimately show ?thesis
    using c'(2) by (auto simp: subscribed_def GetLinkByName_def)
qed

section \<open>Properties\<close>

text \<open>
  Claim C21. Two participants of the current protocol version that are connected directly
  establish the connection with two messages. The one that connects sends an announcement; the
  one that was connected to, which does not know its name yet, records who it is and answers
  with everything it has subscribed to; with the answer the first one has its reply, and from
  then on sends the second one all of it. The receivers of announcements of the second one
  (that of its system monitor) are called and return without an exception, the messages are
  within their sizes, and the first one holds no history that it would have to send.
\<close>

theorem direct_connection_is_established:
  fixes kA :: "'u vasio" and kB :: "'w vasio"
  assumes "find_peer kA n = Some x" "directConnectPeer x" "n = pi_participantName (ckInfo x)"
    and "pi_participantId (ckInfo x) \<noteq> REGISTRY_PARTICIPANT_ID"
    and "peers_fresh (outer kA)" "no_history (outer kA)" "version (outer kA) = V31"
    and "MakePeerInfo (outer kA) = Inr me" "pi_acceptorUris me \<noteq> []"
    and "announcement = \<lparr>pa_messageHeader = MakeRegistryMsgHeader V31, pa_peerInfo = me,
      pa_simulationName = simulationName (outer kA)\<rparr>"
    and "ok_announcement announcement" "length (enc_announcement announcement) + 6 \<le> max_message_size"
    and "list_all acts_on_user (announcementReceivers envB)" "find_object (outer kB) pB = Some qB" "proxyOf qB = None"
    and "allowAnySimulationName (outer kB) \<or> simulationName (outer kA) = simulationName (outer kB)"
    and "FindPeerByName (simulationName (outer kA)) (pi_participantName me) (outer kB) = None"
    and "reply = \<lparr>par_remoteHeader = MakeRegistryMsgHeader V31, par_status = reply_Success,
      par_subscribers = map snd (vasioReceivers (outer kB)), par_diagnostic = []\<rparr>"
    and "ok_reply reply" "length (enc_reply V31 reply) + 6 \<le> max_message_size"
  shows "\<exists>kA1 kA2 kB' blob blob'.
    vasio_input envA (DirectConnected n) kA = Some (Done kA1) \<and>
    StreamSend (nextPeer (outer kA)) OtherMessage blob \<in> set (trace (outer kA1)) \<and> valid_frame blob \<and>
    vasio_input envB (Received pB blob) kB = Some (Done kB') \<and>
    trace (outer kB') = trace (outer kB) @ [StreamSend pB OtherMessage blob'] \<and> valid_frame blob' \<and>
    vasio_input envA (Received (nextPeer (outer kA)) blob') kA1 = Some (Done kA2) \<and>
    FindPeerByName (simulationName (outer kA)) (pi_participantName me) (outer kB') = Some pB \<and>
    map_option peerInfo (find_object (outer kB') pB) = Some me \<and>
    stage_of kA2 n = Some StageReplyReceived \<and>
    (\<forall>s\<in>set (map snd (vasioReceivers (outer kB))). subscribed (outer kA2) (nextPeer (outer kA)) s)"
proof -
  let ?p = "nextPeer (outer kA)"
  have "pa_messageHeader announcement = MakeRegistryMsgHeader V31" by (simp add: assms(10))
  from announcement_frame [OF assms(11) this assms(12), where ?'w = 'w]
  obtain blob where blob: "framed_as TypeParticipantAnnouncement (0, 0) 0 (put_ParticipantAnnouncement announcement) blob"
    and there: "\<forall>env (k :: 'w vasio) p q. find_object (outer k) p = Some q \<longrightarrow>
       (\<exists>m. registryMessageHeader m = MakeRegistryMsgHeader V31 \<and>
          Deserialize get_ParticipantAnnouncement (message_SetProtocolVersion V31 m) = Inr announcement \<and>
          receive_blob env p blob k = on_outer (ReceiveParticipantAnnouncement env p m) k)" by blast
  have "par_remoteHeader reply = MakeRegistryMsgHeader V31" by (simp add: assms(18))
  from reply_frame [OF assms(19) this assms(20), where ?'w = 'u]
  obtain blob' where blob': "framed_as TypeParticipantAnnouncementReply (0, 0) 0 (put_ParticipantAnnouncementReply reply) blob'"
    and answers: "\<forall>env (k :: 'u vasio) p q. find_object (outer k) p = Some q \<longrightarrow> peerVersion q \<noteq> (3, 0) \<longrightarrow>
       (\<exists>m. Deserialize get_ParticipantAnnouncementReply m = Inr reply \<and>
          receive_blob env p blob' k = ReceiveParticipantAnnouncementReply env p m k)" by blast
  have framed: "framed_as TypeParticipantAnnouncement (0, 0) 0 (put_ParticipantAnnouncement
      \<lparr>pa_messageHeader = MakeRegistryMsgHeader (version (outer kA)), pa_peerInfo = me,
       pa_simulationName = simulationName (outer kA)\<rparr>) blob"
    using blob by (simp add: assms(7,10))
  obtain kA1 q more where kA1: "OnConnectPeerSuccess (vasio_methods envA) n x kA = Done kA1"
    "find_peer kA1 n = Some (x\<lparr>directConnectPeer := False, peerStage := StageWaitingForReply\<rparr>)"
    "find_object (outer kA1) ?p = Some q" "peerInfo q = ckInfo x" "peerVersion q = (0, 0)"
    "links (outer kA1) = links (outer kA)"
    "trace (outer kA1) = trace (outer kA) @ StreamSend ?p OtherMessage blob # more"
    using connect_direct [OF assms(5,8,9) framed, of envA n x] by blast
  obtain m where m: "registryMessageHeader m = MakeRegistryMsgHeader V31"
    "Deserialize get_ParticipantAnnouncement (message_SetProtocolVersion V31 m) = Inr announcement"
    "receive_blob envB pB blob kB = on_outer (ReceiveParticipantAnnouncement envB pB m) kB"
    using there assms(14) by blast
  have sim: "allowAnySimulationName (outer kB) \<or> pa_simulationName announcement = simulationName (outer kB)"
    using assms(16) by (simp add: assms(10))
  obtain cB q' where cB: "ReceiveParticipantAnnouncement envB pB m (outer kB) = Done cB"
    "trace cB = trace (outer kB) @ [StreamSend pB OtherMessage blob']" "find_object cB pB = Some q'" "peerInfo q' = me"
    "FindPeerByName (simulationName (outer kA)) (pi_participantName me) cB = Some pB"
    using announcement_answered [OF assms(13-15) m(1,2) sim blob' [unfolded assms(18)]] assms(17) by (auto simp: assms(10))
  have wait: "stage_of kA1 (pi_participantName (peerInfo q)) = Some StageWaitingForReply"
    using kA1(2,4) assms(3) by (simp add: stage_of_def)
  obtain m' where m': "Deserialize get_ParticipantAnnouncementReply m' = Inr reply"
    "receive_blob envA ?p blob' kA1 = ReceiveParticipantAnnouncementReply envA ?p m' kA1"
    using answers kA1(3,5) by (metis fst_conv old.prod.inject zero_neq_numeral)
  have "no_history (outer kA1)" using assms(6) kA1(6) by (simp add: no_history_def)
  from reply_recorded [OF m'(1) _ kA1(3) _ this wait] obtain kA2 where kA2:
    "ReceiveParticipantAnnouncementReply envA ?p m' kA1 = Done kA2" "stage_of kA2 n = Some StageReplyReceived"
    "\<forall>s\<in>set (par_subscribers reply). subscribed (outer kA2) ?p s"
    using assms(3,4) kA1(4) by (auto simp: assms(18))
  have "valid_frame blob" "valid_frame blob'" using blob blob' by (simp_all add: framed_as_def)
  then show ?thesis
    using assms(1,2) kA1(1,7) m(3) m'(2) cB kA2
    by (intro exI [of _ kA1] exI [of _ kA2] exI [of _ "kB\<lparr>outer := cB\<rparr>"] exI [of _ blob] exI [of _ blob'])
      (simp add: with_connecting_def on_outer_def assms(18))
qed

definition example_subscription :: vasio_msg_subscriber where
  "example_subscription = \<lparr>ms_receiverIdx = 0, ms_networkName = ''net'', ms_msgTypeName = SerdesName T_NextSimTask,
     ms_version = 1\<rparr>"

end
