(* ===== verification/ServiceDelivery.thy ===== *)
theory ServiceDelivery
  imports DirectHandshake
begin

text \<open>
  Subscribing and publishing between two participants that are connected directly, and the
  registration of a service, which waits until every peer has acknowledged what the service
  subscribes to.
\<close>

section \<open>Publishing\<close>

text \<open>The peers behind the remote receivers are there and no proxies.\<close>

definition direct_receivers :: "'u connection \<Rightarrow> silkit_link \<Rightarrow> bool" where
  "direct_receivers c l \<longleftrightarrow>
     (\<forall>r\<in>set (remoteReceivers l). \<exists>q. find_object c (receiverPeer r) = Some q \<and> proxyOf q = None)"

definition append_trace :: "connection_event list \<Rightarrow> 'u connection \<Rightarrow> 'u connection" where
  "append_trace es c = c\<lparr>trace := trace c @ es\<rparr>"

lemma append_trace_simps [simp]:
  "append_trace [] c = c" "append_trace es (emit e c) = append_trace (e # es) c"
  "find_object (append_trace es c) = find_object c" "find_object (emit e c) = find_object c"
  "trace (append_trace es c) = trace c @ es"
  by (simp_all add: append_trace_def emit_def)

lemma exec_send:
  assumes "framed_as (envelope_type (type_of msg)) (to_endpointAddress sender) (remoteIdx r) (put_message msg) blob"
    and "find_object c (receiverPeer r) = Some q" "proxyOf q = None"
  shows "exec_call (send_to_receiver sender msg r) c =
    Done (emit (StreamSend (receiverPeer r) (aggregationKind (envelope_type (type_of msg))) blob) c)"
  using assms by (auto simp: exec_call_def send_to_receiver_def framed_as_def SendSilKitMsgTo.simps with_peer_def)

lemma exec_deliveries:
  "exec_calls_catching (map (deliver_to d msg) rs) c =
    Done (append_trace (map (\<lambda>r. Delivered (receiverService r) d msg) rs) c)"
proof (induction rs arbitrary: c)
  case (Cons r rs)
  then show ?case by (simp add: exec_call_def deliver_to_def)
qed simp

lemma exec_sends:
  assumes "\<forall>r\<in>set rs. framed_as (envelope_type (type_of msg)) (to_endpointAddress sender) (remoteIdx r) (put_message msg)
      (blob (remoteIdx r))"
    and "\<forall>r\<in>set rs. \<exists>q. find_object c (receiverPeer r) = Some q \<and> proxyOf q = None"
  shows "exec_calls_catching (map (send_to_receiver sender msg) rs @ xs) c =
    exec_calls_catching xs (append_trace (map (\<lambda>r. StreamSend (receiverPeer r)
      (aggregationKind (envelope_type (type_of msg))) (blob (remoteIdx r))) rs) c)"
  using assms
proof (induction rs arbitrary: c)
  case (Cons r rs)
  then obtain q where q: "find_object c (receiverPeer r) = Some q" "proxyOf q = None" by auto
  then have "exec_call (send_to_receiver sender msg r) c =
      Done (emit (StreamSend (receiverPeer r) (aggregationKind (envelope_type (type_of msg))) (blob (remoteIdx r))) c)"
    using Cons.prems by (intro exec_send) auto
  then show ?case using Cons.IH [of "emit e c" for e] Cons.prems by simp
qed simp

lemma nothing_throws:
  assumes "\<forall>r\<in>set rs. framed_as (envelope_type (type_of msg)) (to_endpointAddress sender) (remoteIdx r) (put_message msg)
      (blob (remoteIdx r))"
    and "\<forall>r\<in>set rs. \<exists>q. find_object c (receiverPeer r) = Some q \<and> proxyOf q = None"
  shows "until_throw (call_throws c) (map (send_to_receiver sender msg) rs) = map (send_to_receiver sender msg) rs"
  using assms
proof (induction rs)
  case (Cons r rs)
  then obtain q where "find_object c (receiverPeer r) = Some q" "proxyOf q = None" by auto
  from exec_send [OF _ this, of msg sender "blob (remoteIdx r)"] Cons show ?case by (simp add: call_throws_def)
qed simp

text \<open>What the services of the sender's own participant get.\<close>

definition self_deliveries :: "service_descriptor \<Rightarrow> silkit_message \<Rightarrow> silkit_link \<Rightarrow> connection_event list" where
  "self_deliveries sender msg l = map (\<lambda>x. case x of DeliverTo s d m \<Rightarrow> Delivered s d m) (DistributeToSelf sender msg l)"

lemma DistributeToSelf_deliveries:
  "\<exists>rs. DistributeToSelf sender msg l = map (deliver_to sender msg) rs"
  by (simp add: DistributeToSelf_def) (metis list.map(1))

lemma message_published:
  assumes "(type_of msg, sd_networkName sender) \<in> set (serviceToLink c)"
    and "l = GetLinkByName (type_of msg) (sd_networkName sender) c" "direct_receivers c l"
    and "\<And>i. framed_as (envelope_type (type_of msg)) (to_endpointAddress sender) i (put_message msg) (blob i)"
  shows "\<exists>c'. SendMsgImpl sender msg c = Done c' \<and>
    trace c' = trace c @ map (\<lambda>r. StreamSend (receiverPeer r) (aggregationKind (envelope_type (type_of msg)))
      (blob (remoteIdx r))) (remoteReceivers l) @ self_deliveries sender msg l"
proof -
  let ?sends = "map (send_to_receiver sender msg) (remoteReceivers l)"
  have frames: "\<forall>r\<in>set (remoteReceivers l). framed_as (envelope_type (type_of msg)) (to_endpointAddress sender)
      (remoteIdx r) (put_message msg) (blob (remoteIdx r))"
    using assms(4) by blast
  have alive: "\<forall>r\<in>set (remoteReceivers l). \<exists>q. find_object c' (receiverPeer r) = Some q \<and> proxyOf q = None"
    if "find_object c' = find_object c" for c' :: "'a connection"
    using assms(3) that by (simp add: direct_receivers_def)
  have self: "DistributeToSelf sender msg (Save sender msg l) = DistributeToSelf sender msg l"
    by (simp add: DistributeToSelf_def)
  obtain rs where rs: "DistributeToSelf sender msg l = map (deliver_to sender msg) rs"
    using DistributeToSelf_deliveries by blast
  define c1 where "c1 = put_link (type_of msg) (sd_networkName sender) (Save sender msg l) c"
  have c1: "find_object c1 = find_object c" "trace c1 = trace c" by (simp_all add: c1_def put_link_def)
  have "SendMsgImpl sender msg c = exec_calls_catching (?sends @ map (deliver_to sender msg) rs) c1"
    using assms(1) by (simp add: SendMsgImpl_def Let_def DistributeLocalSilKitMessage_def transmitter_ReceiveMsg_def
        assms(2) [symmetric] nothing_throws [OF frames alive [OF refl]] self rs c1_def)
  then show ?thesis
    using exec_sends [OF frames alive [OF c1(1)]] c1(2)
    by (simp add: exec_deliveries self_deliveries_def rs deliver_to_def comp_def)
qed

section \<open>Receiving\<close>

lemma message_received:
  assumes "GetRemoteIndex m = Inr i" "GetEndpointAddress m = Inr address" "Deserialize (get_message t) m = Inr msg"
    and "unat i < length (vasioReceivers c)" "vasioReceivers c ! unat i = (t, s)" "find_object c p = Some q"
  shows "ReceiveRawSilKitMessage env p m c = Done (append_trace
    (map (\<lambda>r. Delivered (receiverService r) ((peerDescriptor q)\<lparr>sd_serviceId := snd address\<rparr>)
        (if synchronizing env (userState c) then SetTimestamp (currentTime env (userState c)) msg else msg))
      (localReceivers (GetLinkByName t (ms_networkName s) c))) c)"
  using assms by (simp add: ReceiveRawSilKitMessage_def with_peer_def ReceiveRawMsg_def DistributeRemoteSilKitMessage_def
      exec_deliveries)

text \<open>
  Claim C24. A message that a service publishes is delivered to every service that has
  subscribed to it. The sender hands one frame to the stream of each remote receiver of its
  link, in order, and delivers the message to its own services; each participant that
  receives the frame of one of its receivers calls all of its services on that link, once
  and in the order in which they registered, with the message that was sent (which bears
  the receiver's time if it synchronizes and the message had none) and the sender's service.
\<close>

theorem published_message_is_delivered:
  fixes cA :: "'u connection" and kB :: "'w vasio"
  assumes "(type_of msg, sd_networkName sender) \<in> set (serviceToLink cA)"
    and "l = GetLinkByName (type_of msg) (sd_networkName sender) cA" "direct_receivers cA l"
    and "ok_message msg" "length (enc_message msg) + 29 \<le> max_message_size"
    and "r \<in> set (remoteReceivers l)" "unat (remoteIdx r) < length (vasioReceivers (outer kB))"
    and "vasioReceivers (outer kB) ! unat (remoteIdx r) = (type_of msg, s)" "find_object (outer kB) p = Some q"
  shows "\<exists>cA' blob. SendMsgImpl sender msg cA = Done cA' \<and>
    trace cA' = trace cA @ map (\<lambda>r. StreamSend (receiverPeer r) (aggregationKind (envelope_type (type_of msg)))
      (blob (remoteIdx r))) (remoteReceivers l) @ self_deliveries sender msg l \<and>
    valid_frame (blob (remoteIdx r)) \<and>
    (\<exists>kB'. vasio_input envB (Received p (blob (remoteIdx r))) kB = Some (Done kB') \<and>
       trace (outer kB') = trace (outer kB) @ map (\<lambda>x. Delivered (receiverService x)
           ((peerDescriptor q)\<lparr>sd_serviceId := sd_serviceId sender\<rparr>)
           (if synchronizing envB (userState (outer kB)) then SetTimestamp (currentTime envB (userState (outer kB))) msg else msg))
         (localReceivers (GetLinkByName (type_of msg) (ms_networkName s) (outer kB))))"
proof -
  let ?type = "envelope_type (type_of msg)"
  let ?address = "to_endpointAddress sender"
  have "\<exists>blob. framed_as ?type ?address i (put_message msg) blob \<and>
      (\<exists>m. GetRemoteIndex m = Inr i \<and> GetEndpointAddress m = Inr ?address \<and>
         Deserialize (get_message (type_of msg)) m = Inr msg \<and>
         receive_blob envB p blob kB = on_outer (ReceiveRawSilKitMessage envB p m) kB)" for i
    using message_frame [OF assms(4,5), of ?address i] assms(9) by blast
  then obtain blob where blob: "framed_as ?type ?address i (put_message msg) (blob i)"
    "\<exists>m. GetRemoteIndex m = Inr i \<and> GetEndpointAddress m = Inr ?address \<and>
         Deserialize (get_message (type_of msg)) m = Inr msg \<and>
         receive_blob envB p (blob i) kB = on_outer (ReceiveRawSilKitMessage envB p m) kB" for i
    by metis
  obtain m where m: "GetRemoteIndex m = Inr (remoteIdx r)" "GetEndpointAddress m = Inr ?address"
    "Deserialize (get_message (type_of msg)) m = Inr msg"
    "receive_blob envB p (blob (remoteIdx r)) kB = on_outer (ReceiveRawSilKitMessage envB p m) kB"
    using blob(2) by blast
  note received = message_received [OF m(1-3) assms(7-9), of envB]
  have "valid_frame (blob (remoteIdx r))" using blob(1) by (simp add: framed_as_def)
  then show ?thesis
    using message_published [OF assms(1-3) blob(1)] received m(4)
    by (auto simp: on_outer_def to_endpointAddress_def intro!: exI [of _ blob])
qed

section \<open>Subscribing\<close>

text \<open>What settles a pending acknowledge: the acknowledge, whose version does not count, or that the peer leaves.\<close>

datatype settle_event = Acked pending_ack | Gone nat

fun settle_step :: "settle_event \<Rightarrow> 'u connection \<Rightarrow> 'u connection outcome" where
  "settle_step (Acked a) c = RemovePendingSubscription a c"
| "settle_step (Gone p) c = RemovePeerFromPendingAcknowledges p c"

fun settle_run :: "settle_event list \<Rightarrow> 'u connection \<Rightarrow> 'u connection outcome" where
  "settle_run [] c = Done c"
| "settle_run (e # es) c = bind_outcome (settle_step e c) (settle_run es)"

fun settles :: "settle_event \<Rightarrow> pending_ack \<Rightarrow> bool" where
  "settles (Acked b) a \<longleftrightarrow> same_ack b a"
| "settles (Gone p) a \<longleftrightarrow> fst a = p"

lemma more_receivers_trace: "more_receivers c c' \<Longrightarrow> trace c' = trace c"
  unfolding more_receivers_def by (metis connection.ext_inject connection.surjective connection.update_convs(8))

text \<open>
  A subscription takes one message there and one back: the peer that receives it
  sends what the subscription names to the subscriber from then on, and its acknowledge
  settles exactly this subscription, whatever version of the message type the two agree on
  and even if the peer does not know the type.
\<close>

theorem subscription_is_acknowledged:
  fixes cA :: "'u connection" and kB :: "'w vasio"
  assumes "find_object cA pB = Some qB" "proxyOf qB = None" "ok_VAsioMsgSubscriber s"
    and "length (enc_VAsioMsgSubscriber s) + 6 \<le> max_message_size"
    and "find_object (outer kB) pA = Some qA" "proxyOf qA = None" "peerVersion qA = V31" "no_history (outer kB)"
  shows "\<exists>blob blob' kB' s'. SubscribeAt pB s cA = Done (emit (StreamSend pB OtherMessage blob) cA) \<and> valid_frame blob \<and>
    vasio_input envB (Received pA blob) kB = Some (Done kB') \<and> subscribed (outer kB') pA s \<and>
    trace (outer kB') = trace (outer kB) @ [StreamSend pA OtherMessage blob'] \<and> valid_frame blob' \<and> same_subscriber s' s \<and>
    (\<forall>(kA :: 'u vasio) envA. find_object (outer kA) pB \<noteq> None \<longrightarrow>
       vasio_input envA (Received pB blob') kA = Some (on_outer (settle_step (Acked (pB, s'))) kA))"
proof -
  define s' where "s' = (let v = getVersionForSerdes (ms_msgTypeName s) (ms_version s)
      in if v = 0 then s else s\<lparr>ms_version := v\<rparr>)"
  let ?ack = "\<lparr>sa_status = (if wasAdded s then ack_Success else ack_Failed), sa_subscriber = s'\<rparr>"
  have same: "same_subscriber s' s" by (simp add: s'_def same_subscriber_def Let_def)
  have ok: "ok_SubscriptionAcknowledge ?ack" "length (enc_SubscriptionAcknowledge ?ack) + 5 \<le> max_message_size"
    using assms(3,4) by (auto simp: ok_SubscriptionAcknowledge_def ok_VAsioMsgSubscriber_def s'_def Let_def
        enc_SubscriptionAcknowledge_def enc_VAsioMsgSubscriber_def)
  obtain blob where blob: "framed_as TypeVAsioMsgSubscriber (0, 0) 0 (put_VAsioMsgSubscriber s) blob"
    "\<forall>env (k :: 'w vasio) p q. find_object (outer k) p = Some q \<longrightarrow>
       (\<exists>m. messageKindOf m = SubscriptionAnnouncementKind \<and> Deserialize get_VAsioMsgSubscriber m = Inr s \<and>
          receive_blob env p blob k = OnSocketData env p m k)"
    using subscription_frame [OF VAsioMsgSubscriber.strict_codec_axioms assms(3), of TypeVAsioMsgSubscriber, where ?'w = 'w]
      assms(4) by auto
  obtain blob' where blob': "framed_as TypeSubscriptionAcknowledge (0, 0) 0 (put_SubscriptionAcknowledge ?ack) blob'"
    "\<forall>env (k :: 'u vasio) p q. find_object (outer k) p = Some q \<longrightarrow>
       (\<exists>m. messageKindOf m = SubscriptionAcknowledgeKind \<and> Deserialize get_SubscriptionAcknowledge m = Inr ?ack \<and>
          receive_blob env p blob' k = OnSocketData env p m k)"
    using subscription_frame [OF SubscriptionAcknowledge.strict_codec_axioms ok(1), of TypeSubscriptionAcknowledge, where ?'w = 'u]
      ok(2) by auto
  have sent: "SubscribeAt pB s cA = Done (emit (StreamSend pB OtherMessage blob) cA)"
    using assms(1,2) by (simp add: SubscribeAt_def send_direct [OF blob(1)])
  obtain m where m: "messageKindOf m = SubscriptionAnnouncementKind" "Deserialize get_VAsioMsgSubscriber m = Inr s"
    "receive_blob envB pA blob kB = OnSocketData envB pA m kB"
    using blob(2) assms(5) by blast
  obtain c1 where c1: "add_subscribers pA [s] (outer kB) = Done c1" "more_receivers (outer kB) c1" "subscribed c1 pA s"
    using add_subscribers_added [OF assms(8), of pA "[s]"] assms(5) by auto
  have q: "find_object c1 pA = Some qA" using more_receivers_object [OF c1(2)] assms(5) by simp
  have "ReceiveSubscriptionAnnouncement pA m (outer kB) =
      send_to pA V31 TypeSubscriptionAcknowledge (put_SubscriptionAcknowledge ?ack) c1"
    using m(2) c1(1) q assms(7) by (auto simp: ReceiveSubscriptionAnnouncement_def bind_outcome_Done_iff with_peer_def s'_def Let_def)
  also have "\<dots> = Done (emit (StreamSend pA OtherMessage blob') c1)"
    using q assms(6) by (simp add: send_direct [OF blob'(1)])
  finally have received: "vasio_input envB (Received pA blob) kB =
      Some (Done (kB\<lparr>outer := emit (StreamSend pA OtherMessage blob') c1\<rparr>))"
    using m(1,3) by (simp add: OnSocketData.simps on_outer_def)
  have settled: "vasio_input envA (Received pB blob') kA = Some (on_outer (settle_step (Acked (pB, s'))) kA)"
    if alive: "find_object (outer kA) pB \<noteq> None" for envA and kA :: "'u vasio"
  proof -
    obtain m where m: "messageKindOf m = SubscriptionAcknowledgeKind" "Deserialize get_SubscriptionAcknowledge m = Inr ?ack"
      "receive_blob envA pB blob' kA = OnSocketData envA pB m kA"
      using blob'(2) alive by blast
    then show ?thesis
      using alive by (simp add: OnSocketData.simps on_outer_def ReceiveSubscriptionAcknowledge_def)
  qed
  have "subscribed (emit e c1) pA s" for e
    using c1(3) by (simp add: subscribed_def GetLinkByName_def emit_def)
  then show ?thesis
    using sent received settled same more_receivers_trace [OF c1(2)] blob(1) blob'(1)
    by (intro exI [of _ blob] exI [of _ blob'] exI [of _ "kB\<lparr>outer := emit (StreamSend pA OtherMessage blob') c1\<rparr>"]
        exI [of _ s']) (simp add: framed_as_def emit_def)
qed

section \<open>Registering a service\<close>

text \<open>The index that a subscription bears is where its receiver is.\<close>

definition receivers_inv :: "'u connection \<Rightarrow> bool" where
  "receivers_inv c \<longleftrightarrow>
     (\<forall>i<length (vasioReceivers c). ms_receiverIdx (snd (vasioReceivers c ! i)) = of_nat i)"

definition ack_key :: "pending_ack \<Rightarrow> nat \<times> 64 word \<times> string \<times> string" where
  "ack_key a = (fst a, ms_receiverIdx (snd a), ms_networkName (snd a), ms_msgTypeName (snd a))"

lemma same_ack_key: "same_ack a b \<longleftrightarrow> ack_key a = ack_key b"
  by (auto simp: same_ack_def same_subscriber_def ack_key_def)

definition acks_for :: "nat list \<Rightarrow> (silkit_type \<times> vasio_msg_subscriber) list \<Rightarrow> pending_ack list" where
  "acks_for ps new = concat (map (\<lambda>x. map (\<lambda>p. (p, snd x)) ps) new)"

lemma acks_for_append [simp]: "acks_for ps [] = []" "acks_for ps (x # xs) = map (\<lambda>p. (p, snd x)) ps @ acks_for ps xs"
  "set (acks_for ps new) = set ps \<times> snd ` set new"
  by (auto simp: acks_for_def)

text \<open>What registering changes, besides the links and the trace.\<close>

definition registers :: "'u connection \<Rightarrow> (silkit_type \<times> vasio_msg_subscriber) list \<Rightarrow> 'u connection \<Rightarrow> bool" where
  "registers c new c' \<longleftrightarrow> vasioReceivers c' = vasioReceivers c @ new \<and> pendingAcks c' = pendingAcks c @ acks_for (peers c) new \<and>
     peers c' = peers c \<and> allAcked c' = allAcked c \<and> (receivers_inv c \<longrightarrow> receivers_inv c')"

lemma subscribe_all_Done:
  "subscribe_all False s ps c = Done c' \<Longrightarrow> pendingAcks c' = pendingAcks c @ map (\<lambda>p. (p, s)) ps \<and>
    vasioReceivers c' = vasioReceivers c \<and> peers c' = peers c \<and> allAcked c' = allAcked c"
proof (induction ps arbitrary: c)
  case (Cons p ps)
  then obtain c1 where c1: "SubscribeAt p s (add_pending False (p, s) c) = Done c1" "subscribe_all False s ps c1 = Done c'"
    by (auto simp: bind_outcome_Done_iff)
  have "pendingAcks c1 = pendingAcks c @ [(p, s)]" "vasioReceivers c1 = vasioReceivers c" "peers c1 = peers c"
    "allAcked c1 = allAcked c"
    using leaves_Done [OF SubscribeAt_leaves c1(1), of pendingAcks] leaves_Done [OF SubscribeAt_leaves c1(1), of vasioReceivers]
      leaves_Done [OF SubscribeAt_leaves c1(1), of peers] leaves_Done [OF SubscribeAt_leaves c1(1), of allAcked]
    by (simp_all add: ignores_trace_def add_pending_def)
  then show ?case using Cons.IH [OF c1(2)] by simp
qed simp

lemma RegisterSilKitMsgReceiver_registers:
  assumes "RegisterSilKitMsgReceiver s t c = Done c'" "\<not> asyncRegistration s"
  shows "\<exists>new. registers c new c'"
proof (cases "sd_networkName (serviceDescriptor s) @ ''/'' @ SerdesName t \<in> set (uniqueReceiverIds c)")
  case True
  then have "registers c [] c'"
    using assms by (auto simp: RegisterSilKitMsgReceiver_def Let_def put_link_def registers_def receivers_inv_def)
  then show ?thesis by blast
next
  case False
  let ?n = "sd_networkName (serviceDescriptor s)"
  let ?sub = "\<lparr>ms_receiverIdx = of_nat (length (vasioReceivers c)), ms_networkName = ?n,
      ms_msgTypeName = SerdesName t, ms_version = Version t\<rparr>"
  obtain c1 where c1: "subscribe_all False ?sub (peers c) c1 = Done c'" "vasioReceivers c1 = vasioReceivers c @ [(t, ?sub)]"
    "pendingAcks c1 = pendingAcks c" "peers c1 = peers c" "allAcked c1 = allAcked c"
    using assms False by (auto simp: RegisterSilKitMsgReceiver_def Let_def put_link_def)
  have "registers c [(t, ?sub)] c'"
    using subscribe_all_Done [OF c1(1)] c1(2-5)
    by (auto simp: registers_def receivers_inv_def nth_append less_Suc_eq)
  then show ?thesis by blast
qed

lemma registers_trans: "registers c new c1 \<Longrightarrow> registers c1 new' c2 \<Longrightarrow> registers c (new @ new') c2"
  by (auto simp: registers_def acks_for_def)

lemma register_receivers_registers:
  "register_receivers s ts c = Done c' \<Longrightarrow> \<not> asyncRegistration s \<Longrightarrow> \<exists>new. registers c new c'"
proof (induction ts arbitrary: c)
  case Nil
  then have "registers c [] c'" by (simp add: registers_def)
  then show ?case by blast
next
  case (Cons t ts)
  then obtain c1 where c1: "RegisterSilKitMsgReceiver s t c = Done c1" "register_receivers s ts c1 = Done c'"
    by (auto simp: bind_outcome_Done_iff)
  then show ?case
    using RegisterSilKitMsgReceiver_registers [OF c1(1) Cons.prems(2)] Cons.IH [OF c1(2) Cons.prems(2)] registers_trans by blast
qed

lemma senders_same: "ignores_links f \<Longrightarrow> (\<And>c x. f (c\<lparr>serviceToLink := x\<rparr>) = f c) \<Longrightarrow>
    f (fold (RegisterSilKitMsgSender n) ts c) = f c"
  by (induction ts arbitrary: c) (simp_all add: RegisterSilKitMsgSender_def Let_def)

lemma senders_fields:
  "pendingAcks (fold (RegisterSilKitMsgSender n) ts c) = pendingAcks c"
  "vasioReceivers (fold (RegisterSilKitMsgSender n) ts c) = vasioReceivers c"
  "peers (fold (RegisterSilKitMsgSender n) ts c) = peers c" "allAcked (fold (RegisterSilKitMsgSender n) ts c) = allAcked c"
  by (rule senders_same; simp add: ignores_defs)+

lemma service_registers:
  assumes "RegisterSilKitServiceImpl s c = Done c'" "\<not> asyncRegistration s" "pendingAcks c = []" "allAcked c = Unset"
  shows "\<exists>new. vasioReceivers c' = vasioReceivers c @ new \<and> pendingAcks c' = acks_for (peers c) new \<and>
    (receivers_inv c \<longrightarrow> receivers_inv c') \<and> allAcked c' = (if pendingAcks c' = [] then Fulfilled () else Unset)"
proof -
  obtain c1 where c1: "register_receivers s (receivesTypes s) c = Done c1"
    and rest: "(let c = fold (RegisterSilKitMsgSender (sd_networkName (serviceDescriptor s))) (sendsTypes s) c1
       in if pendingAcks c = [] then SyncSubscriptionsCompleted c else Done c) = Done c'"
    using assms(1,2) by (auto simp: RegisterSilKitServiceImpl_def bind_outcome_Done_iff)
  obtain new where new: "registers c new c1" using register_receivers_registers [OF c1 assms(2)] by blast
  then have "allAcked c1 = Unset" using assms(4) by (simp add: registers_def)
  then show ?thesis
    using new rest assms(3)
    by (intro exI [of _ new]) (auto simp: registers_def Let_def senders_fields SyncSubscriptionsCompleted_def set_value_def
        receivers_inv_def split: if_splits)
qed

text \<open>Every acknowledge settles one subscription; the promise is set when the last one goes.\<close>

definition promise_ok :: "'u connection \<Rightarrow> bool" where
  "promise_ok c \<longleftrightarrow> allAcked c = (if pendingAcks c = [] then Fulfilled () else Unset)"

lemma remove_first_key:
  "distinct (map f xs) \<Longrightarrow> remove_first (\<lambda>x. k = f x) xs = filter (\<lambda>x. k \<noteq> f x) xs"
proof (induction xs)
  case (Cons x xs)
  then have "filter (\<lambda>y. f x \<noteq> f y) xs = xs" by (force simp: filter_id_conv)
  then show ?case using Cons by auto
qed simp

lemma settle_sync_ok:
  assumes "promise_ok c" "left = filter P (pendingAcks c)"
  shows "\<exists>c'. settle_sync left c = Done c' \<and> pendingAcks c' = left \<and> promise_ok c'"
proof (cases "length left = length (pendingAcks c)")
  case True
  then have "left = pendingAcks c"
    using assms(2) by (metis filter_True length_filter_less less_irrefl)
  then show ?thesis using assms(1) True by (auto simp: settle_sync_def)
next
  case False
  then have "pendingAcks c \<noteq> []" using assms(2) by auto
  then show ?thesis
    using assms(1) False by (auto simp: settle_sync_def SyncSubscriptionsCompleted_def set_value_def promise_ok_def Let_def)
qed

lemma settle_async_ok:
  "promise_ok c \<Longrightarrow> \<exists>c'. settle_async left c = Done c' \<and> pendingAcks c' = pendingAcks c \<and> promise_ok c'"
  by (auto simp: settle_async_def AsyncSubscriptionsCompleted_def promise_ok_def Let_def)

lemma settle_step_ok:
  assumes "distinct (map ack_key (pendingAcks c))" "promise_ok c"
  shows "\<exists>c'. settle_step e c = Done c' \<and> pendingAcks c' = filter (\<lambda>a. \<not> settles e a) (pendingAcks c) \<and> promise_ok c'"
proof (cases e)
  case (Acked b)
  have "remove_first (same_ack b) (pendingAcks c) = filter (\<lambda>a. \<not> same_ack b a) (pendingAcks c)"
    using remove_first_key [OF assms(1), of "ack_key b"] by (simp add: same_ack_key [abs_def])
  then obtain c1 where c1: "settle_sync (remove_first (same_ack b) (pendingAcks c)) c = Done c1"
    "pendingAcks c1 = filter (\<lambda>a. \<not> same_ack b a) (pendingAcks c)" "promise_ok c1"
    using settle_sync_ok [OF assms(2)] by metis
  then show ?thesis
    using settle_async_ok [OF c1(3), of "remove_first (same_ack b) (pendingAsyncAcks c1)"] Acked
    by (auto simp: RemovePendingSubscription_def)
next
  case (Gone p)
  obtain c1 where c1: "settle_sync (filter (\<lambda>a. fst a \<noteq> p) (pendingAcks c)) c = Done c1"
    "pendingAcks c1 = filter (\<lambda>a. fst a \<noteq> p) (pendingAcks c)" "promise_ok c1"
    using settle_sync_ok [OF assms(2) refl, of "\<lambda>a. fst a \<noteq> p"] by blast
  then show ?thesis
    using settle_async_ok [OF c1(3), of "filter (\<lambda>a. fst a \<noteq> p) (pendingAsyncAcks c1)"] Gone
    by (auto simp: RemovePeerFromPendingAcknowledges_def)
qed

lemma settle_run_ok:
  "distinct (map ack_key (pendingAcks c)) \<Longrightarrow> promise_ok c \<Longrightarrow>
    \<exists>c'. settle_run es c = Done c' \<and> pendingAcks c' = filter (\<lambda>a. \<not> (\<exists>e\<in>set es. settles e a)) (pendingAcks c) \<and> promise_ok c'"
proof (induction es arbitrary: c)
  case (Cons e es)
  obtain c1 where c1: "settle_step e c = Done c1" "pendingAcks c1 = filter (\<lambda>a. \<not> settles e a) (pendingAcks c)" "promise_ok c1"
    using settle_step_ok [OF Cons.prems] by blast
  have "distinct (map ack_key (pendingAcks c1))" using Cons.prems(1) c1(2) by (simp add: distinct_map_filter)
  from Cons.IH [OF this c1(3)] obtain c2 where "settle_run es c1 = Done c2"
    "pendingAcks c2 = filter (\<lambda>a. \<not> (\<exists>e\<in>set es. settles e a)) (pendingAcks c1)" "promise_ok c2" by blast
  moreover have "filter (\<lambda>a. \<not> (\<exists>e\<in>set es. settles e a)) (filter (\<lambda>a. \<not> settles e a) xs) =
      filter (\<lambda>a. \<not> (\<exists>e\<in>set (e # es). settles e a)) xs" for xs
    by (auto intro: filter_cong)
  ultimately show ?case using c1 by auto
qed simp

lemma acks_distinct:
  assumes "receivers_inv c'" "vasioReceivers c' = vasioReceivers c @ new" "length (vasioReceivers c') < 2 ^ 64"
    and "distinct ps"
  shows "distinct (map ack_key (acks_for ps new))"
proof -
  let ?idx = "\<lambda>x. ms_receiverIdx (snd x)"
  have "map ?idx new = map of_nat [length (vasioReceivers c)..<length (vasioReceivers c')]"
  proof (rule nth_equalityI)
    fix i assume "i < length (map ?idx new)"
    then show "map ?idx new ! i = map of_nat [length (vasioReceivers c)..<length (vasioReceivers c')] ! i"
      using assms(1) [unfolded receivers_inv_def, rule_format, of "length (vasioReceivers c) + i"] assms(2)
      by (simp add: nth_append)
  qed (simp add: assms(2))
  moreover have "inj_on (of_nat :: nat \<Rightarrow> 64 word) {..<2 ^ 64}"
  proof (rule inj_onI)
    fix m n :: nat assume mn: "m \<in> {..<2 ^ 64}" "n \<in> {..<2 ^ 64}" "(of_nat m :: 64 word) = of_nat n"
    have "unat (of_nat i :: 64 word) = i" if "i < 2 ^ 64" for i
      using that by (simp add: unat_of_nat)
    then show "m = n" using mn by (metis lessThan_iff)
  qed
  ultimately have "distinct (map ?idx new)"
    using assms(3) by (auto simp: distinct_map intro: inj_on_subset)
  then show ?thesis
  proof (induction new)
    case (Cons x new)
    have "distinct (map ack_key (map (\<lambda>p. (p, snd x)) ps))"
      using assms(4) by (auto simp: distinct_map inj_on_def ack_key_def)
    moreover have "ack_key ` set (map (\<lambda>p. (p, snd x)) ps) \<inter> ack_key ` set (acks_for ps new) = {}"
      using Cons.prems by (force simp: ack_key_def)
    moreover have "distinct (map ack_key (acks_for ps new))" using Cons by simp
    ultimately show ?case
      unfolding acks_for_append(2) map_append distinct_append set_map by blast
  qed simp
qed

text \<open>
  Claim C25. The thread that registers a service waits for every peer: for each type that
  the service is the first to receive on its network, the subscription is pending at every
  peer, and whatever acknowledges arrive and whichever peers leave meanwhile, the wait is
  over exactly when each of these has acknowledged or left; it ends at most once, and
  without an error. Without a peer or a new type it does not wait.
\<close>

theorem registration_waits_for_every_peer:
  assumes "BeginRegistration s c0 = Done c1" "RegisterSilKitServiceImpl s c1 = Done c2" "\<not> asyncRegistration s"
    and "receivers_inv c0" "distinct (peers c0)" "length (vasioReceivers c2) < 2 ^ 64"
  shows "\<exists>new c3. vasioReceivers c2 = vasioReceivers c0 @ new \<and> receivers_inv c2 \<and>
    set (pendingAcks c2) = set (peers c0) \<times> snd ` set new \<and> settle_run es c2 = Done c3 \<and>
    pendingAcks c3 = filter (\<lambda>a. \<not> (\<exists>e\<in>set es. settles e a)) (pendingAcks c2) \<and>
    allAcked c3 = (if \<forall>a\<in>set (peers c0) \<times> snd ` set new. \<exists>e\<in>set es. settles e a then Fulfilled () else Unset)"
proof -
  have c1: "pendingAcks c1 = []" "allAcked c1 = Unset" "vasioReceivers c1 = vasioReceivers c0" "peers c1 = peers c0"
    "receivers_inv c1"
    using assms(1,3,4) by (auto simp: BeginRegistration_def receivers_inv_def split: if_splits)
  obtain new where new: "vasioReceivers c2 = vasioReceivers c0 @ new" "pendingAcks c2 = acks_for (peers c0) new"
    "receivers_inv c2" "promise_ok c2"
    using service_registers [OF assms(2,3) c1(1,2)] c1 by (auto simp: promise_ok_def)
  have "distinct (map ack_key (pendingAcks c2))"
    using acks_distinct [OF new(3,1) assms(6,5)] new(2) by simp
  from settle_run_ok [OF this new(4)] obtain c3 where c3: "settle_run es c2 = Done c3"
    "pendingAcks c3 = filter (\<lambda>a. \<not> (\<exists>e\<in>set es. settles e a)) (pendingAcks c2)" "promise_ok c3" by blast
  have "pendingAcks c3 = [] \<longleftrightarrow> (\<forall>a\<in>set (peers c0) \<times> snd ` set new. \<exists>e\<in>set es. settles e a)"
    using c3(2) new(2) by (auto simp: filter_empty_conv)
  then show ?thesis
    using new c3 by (intro exI [of _ new] exI [of _ c3]) (simp add: promise_ok_def)
qed

section \<open>An example\<close>

abbreviation example_peer_object :: vasio_peer where
  "example_peer_object \<equiv> \<lparr>peerInfo = peer_example ''B'' 9, peerVersion = V31, peerSimulation = ''s'',
     peerDescriptor = default_descriptor, proxyOf = None, localAddress = [], remoteAddress = []\<rparr>"

abbreviation example_sender :: service_descriptor where
  "example_sender \<equiv> default_descriptor\<lparr>sd_networkName := ''net'', sd_serviceId := 3\<rparr>"

text \<open>A publisher with one remote receiver, and a participant with one local one.\<close>

definition example_publisher :: "unit connection" where
  "example_publisher = (new_connection ''A'' 7 [] V31 ())\<lparr>peerObjects := [(0, example_peer_object)], peers := [0],
     serviceToLink := [(T_NextSimTask, ''net'')],
     links := [((T_NextSimTask, ''net''), Some ((new_link T_NextSimTask ''net'')\<lparr>
       remoteReceivers := [\<lparr>receiverPeer = 0, remoteIdx = 0\<rparr>]\<rparr>))]\<rparr>"

definition example_subscriber :: "unit vasio" where
  "example_subscriber = new_connect_known ((new_connection ''B'' 9 [] V31 ())\<lparr>
     vasioReceivers := [(T_NextSimTask, example_subscription)], peerObjects := [(0, example_peer_object)],
     links := [((T_NextSimTask, ''net''), Some ((new_link T_NextSimTask ''net'')\<lparr>
       localReceivers := [\<lparr>receiverService = 5, receiverDescriptor = default_descriptor\<rparr>]\<rparr>))]\<rparr>)"

theorem published_message_is_delivered_witness:
  "\<exists>cA' blob kB'. SendMsgImpl example_sender (M_NextSimTask \<lparr>nst_timePoint = 1, nst_duration = 2\<rparr>) example_publisher = Done cA' \<and>
    trace cA' = [StreamSend 0 FlushAggregationMessage blob] \<and>
    vasio_input example_env (Received 0 blob) example_subscriber = Some (Done kB') \<and>
    trace (outer kB') = [Delivered 5 (default_descriptor\<lparr>sd_serviceId := 3\<rparr>)
      (M_NextSimTask \<lparr>nst_timePoint = 1, nst_duration = 2\<rparr>)]"
proof -
  let ?msg = "M_NextSimTask \<lparr>nst_timePoint = 1, nst_duration = 2\<rparr>"
  let ?l = "(new_link T_NextSimTask ''net'')\<lparr>remoteReceivers := [\<lparr>receiverPeer = 0, remoteIdx = 0\<rparr>]\<rparr>"
  let ?r = "\<lparr>receiverPeer = 0, remoteIdx = 0\<rparr>"
  have A: "(type_of ?msg, sd_networkName example_sender) \<in> set (serviceToLink example_publisher)"
    "?l = GetLinkByName (type_of ?msg) (sd_networkName example_sender) example_publisher"
    "direct_receivers example_publisher ?l" "trace example_publisher = []"
    by (simp_all add: example_publisher_def GetLinkByName_def direct_receivers_def new_connection_def)
  have msg: "ok_message ?msg" "length (enc_message ?msg) + 29 \<le> max_message_size" "?r \<in> set (remoteReceivers ?l)"
    by (simp_all add: enc_NextSimTask_def max_message_size_def)
  have B: "unat (remoteIdx ?r) < length (vasioReceivers (outer example_subscriber))"
    "vasioReceivers (outer example_subscriber) ! unat (remoteIdx ?r) = (type_of ?msg, example_subscription)"
    "find_object (outer example_subscriber) 0 = Some example_peer_object" "trace (outer example_subscriber) = []"
    "localReceivers (GetLinkByName T_NextSimTask (ms_networkName example_subscription) (outer example_subscriber)) =
      [\<lparr>receiverService = 5, receiverDescriptor = default_descriptor\<rparr>]" "synchronizing example_env = (\<lambda>_. False)"
    by (simp_all add: example_subscriber_def new_connect_known_def GetLinkByName_def example_subscription_def
        new_connection_def example_env_def)
  have "self_deliveries example_sender ?msg ?l = []"
    by (simp add: self_deliveries_def DistributeToSelf_def IsSelfDeliveryForbidden_def IsSelfDeliveryEnforced_def new_link_def)
  then show ?thesis
    using published_message_is_delivered [OF A(1-3) msg B(1-3), of example_env] A(4) B(4-6) by (auto simp del: vasio_input.simps)
qed

theorem subscription_is_acknowledged_witness:
  "\<exists>blob blob' kB' s'. SubscribeAt 0 example_subscription example_publisher =
      Done (emit (StreamSend 0 OtherMessage blob) example_publisher) \<and>
    vasio_input example_env (Received 0 blob) example_subscriber = Some (Done kB') \<and>
    subscribed (outer kB') 0 example_subscription \<and> trace (outer kB') = [StreamSend 0 OtherMessage blob'] \<and>
    same_subscriber s' example_subscription \<and>
    (\<forall>(kA :: unit vasio) envA. find_object (outer kA) 0 \<noteq> None \<longrightarrow>
       vasio_input envA (Received 0 blob') kA = Some (on_outer (settle_step (Acked (0, s'))) kA))"
proof -
  have B: "find_object (outer example_subscriber) 0 = Some example_peer_object" "no_history (outer example_subscriber)"
    "trace (outer example_subscriber) = []"
    by (simp_all add: example_subscriber_def new_connect_known_def no_history_def new_link_def new_connection_def)
  have A: "find_object example_publisher 0 = Some example_peer_object" by (simp add: example_publisher_def)
  have s: "ok_VAsioMsgSubscriber example_subscription"
    "length (enc_VAsioMsgSubscriber example_subscription) + 6 \<le> max_message_size"
    by (simp_all add: ok_VAsioMsgSubscriber_def example_subscription_def ok_string_def max_size_def
        enc_VAsioMsgSubscriber_def max_message_size_def)
  show ?thesis
    using subscription_is_acknowledged [OF A _ s B(1) _ _ B(2), of example_env] B(3)
    by (simp del: vasio_input.simps) blast
qed

abbreviation example_service :: silkit_service where
  "example_service \<equiv> \<lparr>serviceNumber = 5, serviceDescriptor = example_sender, receivesTypes = [T_NextSimTask],
     sendsTypes = [T_NextSimTask], asyncRegistration = False\<rparr>"

theorem registration_waits_for_every_peer_witness:
  "\<exists>c1 c2. BeginRegistration example_service example_publisher = Done c1 \<and>
    RegisterSilKitServiceImpl example_service c1 = Done c2 \<and> pendingAcks c2 \<noteq> [] \<and>
    (\<exists>c3. settle_run [Acked (0, example_subscription), Gone 0] c2 = Done c3 \<and> allAcked c3 = Fulfilled ())"
proof -
  let ?s = "\<lparr>ms_receiverIdx = 0, ms_networkName = ''net'', ms_msgTypeName = ''NEXTSIMTASK'', ms_version = 1\<rparr>"
  let ?c1 = "example_publisher\<lparr>allAcked := Unset\<rparr>"
  have "\<exists>blob. framed_as TypeVAsioMsgSubscriber (0, 0) 0 (put_VAsioMsgSubscriber ?s) blob"
    using subscription_frame [OF VAsioMsgSubscriber.strict_codec_axioms, of ?s TypeVAsioMsgSubscriber]
    by (auto simp: ok_VAsioMsgSubscriber_def ok_string_def max_size_def enc_VAsioMsgSubscriber_def max_message_size_def)
  then obtain blob where blob: "framed_as TypeVAsioMsgSubscriber (0, 0) 0 (put_VAsioMsgSubscriber ?s) blob" ..
  have begin_reg: "BeginRegistration example_service example_publisher = Done ?c1"
    by (simp add: BeginRegistration_def example_publisher_def new_connection_def)
  obtain c2 where c2: "RegisterSilKitServiceImpl example_service ?c1 = Done c2" "vasioReceivers c2 = [(T_NextSimTask, ?s)]"
    "pendingAcks c2 = [(0, ?s)]"
    by (simp add: RegisterSilKitServiceImpl_def RegisterSilKitMsgReceiver_def Let_def example_publisher_def new_connection_def
        put_link_def add_pending_def SubscribeAt_def send_direct [OF blob] senders_fields emit_def RegisterSilKitMsgSender_def)
  have fresh: "receivers_inv example_publisher" "distinct (peers example_publisher)" "peers example_publisher = [0]"
    "vasioReceivers example_publisher = []"
    by (simp_all add: receivers_inv_def example_publisher_def new_connection_def)
  have "\<exists>c3. settle_run [Acked (0, example_subscription), Gone 0] c2 = Done c3 \<and> allAcked c3 = Fulfilled ()"
    using registration_waits_for_every_peer [OF begin_reg c2(1) _ fresh(1,2), of "[Acked (0, example_subscription), Gone 0]"]
      c2(2) fresh(3,4) by (auto simp: same_ack_def same_subscriber_def example_subscription_def)
  then show ?thesis using begin_reg c2 by auto
qed

end
