(* ===== verification/VAsioRegistry.thy ===== *)
theory VAsioRegistry
  imports ServiceDelivery
begin

text \<open>
  The registry (\<open>core/vasio/VAsioRegistry.cpp\<close>): a connection of its own that everybody
  connects to first. It refuses a participant whose name is taken in its simulation and tells
  everybody else who is there. It is called back by its connection: for every announcement
  and for every peer that shuts down; its state is the user's part of the connection's.

  The participants of a simulation are an unordered map in the code; here they are in the
  order in which they came. Its metrics and its log are not modelled.
\<close>

section \<open>State\<close>

record connected_participant =
  cpPeer :: nat
  cpInfo :: vasio_peer_info

datatype registry_event =
    OnParticipantConnected string string
  | OnParticipantDisconnected string string
  | OnRequiredParticipantsUpdate string string "string list"
  | OnParticipantStatusUpdate string string participant_status_msg
  | OnServiceDiscoveryEvent string string service_discovery_event
  | AllParticipantsDisconnected

text \<open>The calls of the listener and of the handler that is called when the last participant has left.\<close>

record registry =
  connectedParticipants :: "(string \<times> (string \<times> connected_participant) list) list"
  hasEventListener :: bool
  hasDisconnectedHandler :: bool
  registryEvents :: "registry_event list"

definition new_registry :: "bool \<Rightarrow> bool \<Rightarrow> registry" where
  "new_registry listener handler =
     \<lparr>connectedParticipants = [], hasEventListener = listener, hasDisconnectedHandler = handler, registryEvents = []\<rparr>"

definition tell_listener :: "registry_event \<Rightarrow> registry \<Rightarrow> registry" where
  "tell_listener e r = (if hasEventListener r then r\<lparr>registryEvents := registryEvents r @ [e]\<rparr> else r)"

section \<open>Operations\<close>

definition participants_of :: "string \<Rightarrow> registry \<Rightarrow> (string \<times> connected_participant) list" where
  "participants_of sim r = (case map_of (connectedParticipants r) sim of None \<Rightarrow> [] | Some ps \<Rightarrow> ps)"

definition FindConnectedParticipant :: "string \<Rightarrow> string \<Rightarrow> registry \<Rightarrow> connected_participant option" where
  "FindConnectedParticipant name sim r = map_of (participants_of sim r) name"

text \<open>\<open>_connectedParticipants[simulationName]\<close>, which inserts an empty map where there is none.\<close>

definition touch_simulation :: "string \<Rightarrow> registry \<Rightarrow> registry" where
  "touch_simulation sim r =
     (if map_of (connectedParticipants r) sim = None
      then r\<lparr>connectedParticipants := connectedParticipants r @ [(sim, [])]\<rparr> else r)"

definition set_participants :: "string \<Rightarrow> (string \<times> connected_participant) list \<Rightarrow> registry \<Rightarrow> registry" where
  "set_participants sim ps r = r\<lparr>connectedParticipants := AList.update sim ps (connectedParticipants r)\<rparr>"

definition on_registry :: "(registry \<Rightarrow> registry) \<Rightarrow> registry connection \<Rightarrow> registry connection" where
  "on_registry f c = c\<lparr>userState := f (userState c)\<rparr>"

text \<open>What one peer is told about the participants of its simulation, itself left out.\<close>

fun known_infos :: "(string \<Rightarrow> ip_address option) \<Rightarrow> registry connection \<Rightarrow> nat \<Rightarrow> vasio_peer
    \<Rightarrow> (string \<times> connected_participant) list \<Rightarrow> vasio_peer_info list result" where
  "known_infos make_address c p q [] = Inr []"
| "known_infos make_address c p q ((n, cp) # ps) =
     (if cpPeer cp = p then known_infos make_address c p q ps
      else case find_object c (cpPeer cp) of
        None \<Rightarrow> Inl DanglingPointer
      | Some other \<Rightarrow>
          bind_result (TransformAcceptorUris make_address (remoteAddress other) (localAddress q)
            (pi_acceptorUris (peerInfo other))) (\<lambda>uris.
          bind_result (known_infos make_address c p q ps) (\<lambda>infos.
          Inr ((cpInfo cp)\<lparr>pi_acceptorUris := uris\<rparr> # infos))))"

definition SendKnownParticipants :: "registry environment \<Rightarrow> nat \<Rightarrow> string \<Rightarrow> registry connection
    \<Rightarrow> registry connection outcome" where
  "SendKnownParticipants env p sim c =
     with_peer p c (\<lambda>q.
       let c = on_registry (touch_simulation sim) c
       in case known_infos (makeAddress env) c p q (participants_of sim (userState c)) of
            Inl e \<Rightarrow> Raised e c
          | Inr infos \<Rightarrow>
              send_to p (peerVersion q) TypeKnownParticipants (put_KnownParticipants
                \<lparr>kp_messageHeader = MakeRegistryMsgHeader (peerVersion q), kp_peerInfos = infos\<rparr>) c)"

definition AllParticipantsAreConnected :: "registry \<Rightarrow> bool" where
  "AllParticipantsAreConnected r = False"

text \<open>The handler for the case that all are connected is never called.\<close>

definition OnParticipantAnnouncement :: "registry environment \<Rightarrow> nat \<Rightarrow> participant_announcement
    \<Rightarrow> registry connection \<Rightarrow> registry connection outcome" where
  "OnParticipantAnnouncement env p a c =
     (let info = pa_peerInfo a; name = pi_participantName info; sim = pa_simulationName a
      in if FindConnectedParticipant name sim (userState c) \<noteq> None then Raised SilKitError c
         else bind_outcome (SendKnownParticipants env p sim c) (\<lambda>c.
              Done (on_registry (\<lambda>r.
                tell_listener (OnParticipantConnected sim name)
                  (set_participants sim (AList.update name \<lparr>cpPeer = p, cpInfo = info\<rparr> (participants_of sim r)) r)) c)))"

text \<open>A peer that shuts down is forgotten, unless it was refused or never announced itself.\<close>

definition registry_OnPeerShutdown :: "nat \<Rightarrow> vasio_peer \<Rightarrow> registry \<Rightarrow> registry outcome" where
  "registry_OnPeerShutdown p q r =
     (let sim = peerSimulation q; name = pi_participantName (peerInfo q)
      in case FindConnectedParticipant name sim r of
           None \<Rightarrow> Done r
         | Some cp \<Rightarrow>
             if cpPeer cp \<noteq> p then Done r
             else let r = tell_listener (OnParticipantDisconnected sim name) r;
                      ps = AList.delete name (participants_of sim r);
                      r = (if ps = [] then r\<lparr>connectedParticipants := AList.delete sim (connectedParticipants r)\<rparr>
                           else set_participants sim ps r)
                  in Done (if connectedParticipants r = [] \<and> hasDisconnectedHandler r
                           then r\<lparr>registryEvents := registryEvents r @ [AllParticipantsDisconnected]\<rparr> else r))"

text \<open>\<open>ServiceDescriptor::GetSimulationName\<close>\<close>

definition GetSimulationName :: "service_descriptor \<Rightarrow> string" where
  "GetSimulationName d = (case map_of (sd_supplementalData d) simulationName_key of None \<Rightarrow> [] | Some s \<Rightarrow> s)"

text \<open>The messages that the registry receives as a service.\<close>

fun registry_ReceiveMsg :: "service_descriptor \<Rightarrow> silkit_message \<Rightarrow> registry \<Rightarrow> registry" where
  "registry_ReceiveMsg from (M_ParticipantStatus msg) r =
     tell_listener (OnParticipantStatusUpdate (GetSimulationName from) (sd_participantName from) msg) r"
| "registry_ReceiveMsg from (M_WorkflowConfiguration msg) r =
     tell_listener (OnRequiredParticipantsUpdate (GetSimulationName from) (sd_participantName from)
       (wc_requiredParticipantNames msg)) r"
| "registry_ReceiveMsg from (M_ServiceDiscoveryEvent msg) r =
     tell_listener (OnServiceDiscoveryEvent (GetSimulationName from) (sd_participantName from) msg) r"
| "registry_ReceiveMsg from _ r = r"

text \<open>
  The environment of the registry's connection, around the parts that the registry does not
  determine. Its announcement receiver refers to the addresses of that environment.
\<close>

definition registry_env :: "registry environment \<Rightarrow> registry environment" where
  "registry_env env = env\<lparr>announcementReceivers := [OnParticipantAnnouncement env], peerShutdownCallbacks := [registry_OnPeerShutdown]\<rparr>"

text \<open>The registry accepts participants of every simulation, and relays for them.\<close>

definition new_registry_connection :: "string list \<Rightarrow> protocol_version \<Rightarrow> registry \<Rightarrow> registry vasio" where
  "new_registry_connection caps v r = new_vasio ''SilKitRegistry'' REGISTRY_PARTICIPANT_ID caps v r"

section \<open>The participants of a simulation\<close>

lemma participants_of_touch [simp]: "participants_of sim' (touch_simulation sim r) = participants_of sim' r"
  by (auto simp: participants_of_def touch_simulation_def map_add_def split: option.splits)

lemma participants_of_set [simp]:
  "participants_of sim' (set_participants sim ps r) = (if sim' = sim then ps else participants_of sim' r)"
  by (simp add: participants_of_def set_participants_def update_conv')

lemma participants_of_tell [simp]: "participants_of sim (tell_listener e r) = participants_of sim r"
  by (simp add: participants_of_def tell_listener_def)

lemma participants_of_delete:
  "participants_of sim' (r\<lparr>connectedParticipants := AList.delete sim (connectedParticipants r)\<rparr>) =
    (if sim' = sim then [] else participants_of sim' r)"
  by (simp add: participants_of_def delete_conv')

lemma on_registry_sel [simp]:
  "userState (on_registry f c) = f (userState c)" "find_object (on_registry f c) = find_object c"
  "trace (on_registry f c) = trace c" "vasioReceivers (on_registry f c) = vasioReceivers c"
  by (simp_all add: on_registry_def)

lemma known_infos_cong:
  assumes "localAddress q' = localAddress q"
    and "\<And>n cp. (n, cp) \<in> set ps \<Longrightarrow> cpPeer cp \<noteq> p \<Longrightarrow> find_object c' (cpPeer cp) = find_object c (cpPeer cp)"
  shows "known_infos make_address c' p q' ps = known_infos make_address c p q ps"
  using assms(2)
proof (induction ps)
  case (Cons x ps)
  obtain n cp where x: "x = (n, cp)" by force
  have "known_infos make_address c' p q' ps = known_infos make_address c p q ps"
    by (rule Cons.IH) (use Cons.prems in auto)
  moreover have "cpPeer cp \<noteq> p \<Longrightarrow> find_object c' (cpPeer cp) = find_object c (cpPeer cp)"
    using Cons.prems [of n cp] x by simp
  ultimately show ?case using assms(1) x by (simp split: option.split)
qed simp

text \<open>Everybody else is named, in order.\<close>

lemma known_infos_names:
  "known_infos make_address c p q ps = Inr infos \<Longrightarrow> \<forall>(n, cp)\<in>set ps. pi_participantName (cpInfo cp) = n \<Longrightarrow>
    map pi_participantName infos = map fst (filter (\<lambda>(n, cp). cpPeer cp \<noteq> p) ps)"
  by (induction ps arbitrary: infos) (auto simp: bind_result_Inr_iff split: if_splits option.splits)

section \<open>An announcement\<close>

text \<open>The peer after its announcement was read.\<close>

definition announced :: "participant_announcement \<Rightarrow> vasio_peer \<Rightarrow> vasio_peer" where
  "announced a q = SetSimulationName (pa_simulationName a) (q\<lparr>peerVersion := V31, peerInfo := pa_peerInfo a,
     peerDescriptor := SetParticipantNameAndComputeId (pi_participantName (pa_peerInfo a)) (peerDescriptor q)\<rparr>)"

lemma announced_sel [simp]:
  "peerInfo (announced a q) = pa_peerInfo a" "peerVersion (announced a q) = V31" "proxyOf (announced a q) = proxyOf q"
  "peerSimulation (announced a q) = pa_simulationName a" "localAddress (announced a q) = localAddress q"
  "remoteAddress (announced a q) = remoteAddress q"
  by (simp_all add: announced_def SetSimulationName_def Let_def)

text \<open>What the connection does around the call of the registry.\<close>

lemma registry_reads_announcement:
  assumes "find_object c p = Some q" "registryMessageHeader m = MakeRegistryMsgHeader V31"
    and "Deserialize get_ParticipantAnnouncement (message_SetProtocolVersion V31 m) = Inr a" "allowAnySimulationName c"
  shows "ReceiveParticipantAnnouncement (registry_env env) p m c =
    (case OnParticipantAnnouncement env p a (put_object p (announced a q) (put_object p (q\<lparr>peerVersion := V31\<rparr>) c)) of
       Done c' \<Rightarrow> SendParticipantAnnouncementReply p
         (AssociateParticipantNameAndPeer (pa_simulationName a) (pi_participantName (pa_peerInfo a)) p c')
     | Raised e c' \<Rightarrow>
         if is_SilKitError e
         then with_peer p c' (\<lambda>q. SendFailedParticipantAnnouncementReply p (peerVersion q) (errorText env e) c')
         else Raised e c'
     | OutOfFuel \<Rightarrow> OutOfFuel)"
  using assms by (simp add: ReceiveParticipantAnnouncement_def Let_def registry_env_def update_peer_def with_peer_def
      put_object_def announced_def split: outcome.split)

lemma registry_accepts:
  assumes "find_object c p = Some q" "proxyOf q = None" "registryMessageHeader m = MakeRegistryMsgHeader V31"
    and "Deserialize get_ParticipantAnnouncement (message_SetProtocolVersion V31 m) = Inr a" "allowAnySimulationName c"
    and "FindConnectedParticipant (pi_participantName (pa_peerInfo a)) (pa_simulationName a) (userState c) = None"
    and "known_infos (makeAddress env) c p q (participants_of (pa_simulationName a) (userState c)) = Inr infos"
    and "framed_as TypeKnownParticipants (0, 0) 0 (put_KnownParticipants
      \<lparr>kp_messageHeader = MakeRegistryMsgHeader V31, kp_peerInfos = infos\<rparr>) blob"
    and "framed_as TypeParticipantAnnouncementReply (0, 0) 0 (put_ParticipantAnnouncementReply
      \<lparr>par_remoteHeader = MakeRegistryMsgHeader V31, par_status = reply_Success,
       par_subscribers = map snd (vasioReceivers c), par_diagnostic = []\<rparr>) blob'"
  shows "\<exists>c'. ReceiveParticipantAnnouncement (registry_env env) p m c = Done c' \<and>
    trace c' = trace c @ [StreamSend p OtherMessage blob, StreamSend p OtherMessage blob'] \<and>
    find_object c' = (find_object c)(p \<mapsto> announced a q) \<and> peerToProxyPeers c' = peerToProxyPeers c \<and>
    allowAnySimulationName c' = allowAnySimulationName c \<and>
    participants_of sim' (userState c') = (if sim' = pa_simulationName a
      then AList.update (pi_participantName (pa_peerInfo a)) \<lparr>cpPeer = p, cpInfo = pa_peerInfo a\<rparr>
        (participants_of sim' (userState c))
      else participants_of sim' (userState c))"
proof -
  let ?sim = "pa_simulationName a" and ?name = "pi_participantName (pa_peerInfo a)"
  define c1 where "c1 = put_object p (announced a q) (put_object p (q\<lparr>peerVersion := V31\<rparr>) c)"
  have c1: "find_object c1 = (find_object c)(p \<mapsto> announced a q)" "userState c1 = userState c"
    by (auto simp: c1_def put_object_def)
  have "known_infos (makeAddress env) (on_registry (touch_simulation ?sim) c1) p (announced a q)
      (participants_of ?sim (userState c)) = Inr infos"
    using known_infos_cong [of "announced a q" q _ p "on_registry (touch_simulation ?sim) c1" c] c1(1) assms(7) by auto
  then have "SendKnownParticipants env p ?sim c1 =
      Done (emit (StreamSend p OtherMessage blob) (on_registry (touch_simulation ?sim) c1))"
    using c1 assms(2,8) by (simp add: SendKnownParticipants_def with_peer_def Let_def send_direct)
  then obtain c2 where c2: "OnParticipantAnnouncement env p a c1 = Done c2" "trace c2 = trace c @ [StreamSend p OtherMessage blob]"
    "find_object c2 = find_object c1" "vasioReceivers c2 = vasioReceivers c" "peerToProxyPeers c2 = peerToProxyPeers c"
    "allowAnySimulationName c2 = allowAnySimulationName c"
    "userState c2 = tell_listener (OnParticipantConnected ?sim ?name) (set_participants ?sim
      (AList.update ?name \<lparr>cpPeer = p, cpInfo = pa_peerInfo a\<rparr> (participants_of ?sim (userState c))) (touch_simulation ?sim (userState c)))"
    using assms(6) by (simp add: OnParticipantAnnouncement_def Let_def c1(2) emit_def on_registry_def)
      (simp add: c1_def put_object_def)
  define c3 where "c3 = AssociateParticipantNameAndPeer ?sim ?name p c2"
  have c3: "find_object c3 = find_object c2" "vasioReceivers c3 = vasioReceivers c2" "trace c3 = trace c2"
    "userState c3 = userState c2" "peerToProxyPeers c3 = peerToProxyPeers c2"
    "allowAnySimulationName c3 = allowAnySimulationName c2"
    by (simp_all add: c3_def AssociateParticipantNameAndPeer_def)
  have "ReceiveParticipantAnnouncement (registry_env env) p m c = SendParticipantAnnouncementReply p c3"
    using registry_reads_announcement [OF assms(1,3-5), of env] c2(1) by (simp add: c1_def c3_def)
  also have "\<dots> = Done (emit (StreamSend p OtherMessage blob') c3)"
    using assms(2,9) c1(1) c2(3,4) c3(1,2)
    by (simp add: SendParticipantAnnouncementReply_def send_reply_def with_peer_def send_direct)
  finally show ?thesis
    using c1 c2 c3 by (intro exI [of _ "emit (StreamSend p OtherMessage blob') c3"]) (simp add: emit_def fun_upd_def)
qed

section \<open>What the registry looks at\<close>

definition registry_view :: "registry connection \<Rightarrow> (nat \<times> vasio_peer) list \<times> nat \<times> (nat \<times> nat list) list
    \<times> (string \<Rightarrow> (string \<times> connected_participant) list)" where
  "registry_view c = (peerObjects c, nextPeer c, peerToProxyPeers c, \<lambda>sim. participants_of sim (userState c))"

lemma view_ignores [simp]: "ignores_trace registry_view" "ignores_links registry_view" "ignores_acks registry_view"
  by (simp_all add: ignores_defs registry_view_def)

lemma view_update [simp]:
  "registry_view (c\<lparr>participantNameToPeer := x\<rparr>) = registry_view c" "registry_view (c\<lparr>peers := y\<rparr>) = registry_view c"
  "registry_view (AssociateParticipantNameAndPeer sim name p c) = registry_view c"
  by (simp_all add: registry_view_def AssociateParticipantNameAndPeer_def)

definition register :: "participant_announcement \<Rightarrow> nat \<Rightarrow> registry connection \<Rightarrow> registry connection" where
  "register a p = on_registry (\<lambda>r. set_participants (pa_simulationName a)
     (AList.update (pi_participantName (pa_peerInfo a)) \<lparr>cpPeer = p, cpInfo = pa_peerInfo a\<rparr>
       (participants_of (pa_simulationName a) r)) r)"

lemma SendKnownParticipants_leaves: "leaves registry_view c (SendKnownParticipants env p sim c)"
proof -
  have touch: "registry_view (on_registry (touch_simulation sim) c) = registry_view c" for c
    by (simp add: registry_view_def on_registry_def)
  have send: "leaves registry_view c (send_to p v t b (on_registry (touch_simulation sim) c))" for v t b
    using send_to_leaves [of registry_view "on_registry (touch_simulation sim) c" p v t b] by (simp add: leaves_def touch)
  show ?thesis
    unfolding SendKnownParticipants_def by (rule leaves_with_peer) (simp add: Let_def touch send split: sum.split)
qed

lemma register_view: "registry_view (register a p c) = (case registry_view c of (os, i, ps, f) \<Rightarrow>
    (os, i, ps, f(pa_simulationName a := AList.update (pi_participantName (pa_peerInfo a)) \<lparr>cpPeer = p, cpInfo = pa_peerInfo a\<rparr>
      (f (pa_simulationName a)))))"
  by (auto simp: register_def registry_view_def on_registry_def)

text \<open>An announcement changes the peer and adds at most one entry, under a name that is free.\<close>

lemma OnParticipantAnnouncement_view:
  assumes "state_after (OnParticipantAnnouncement env p a c) = Some c'"
  shows "registry_view c' = registry_view c \<or>
    registry_view c' = registry_view (register a p c) \<and>
    map_of (participants_of (pa_simulationName a) (userState c)) (pi_participantName (pa_peerInfo a)) = None"
proof (cases "FindConnectedParticipant (pi_participantName (pa_peerInfo a)) (pa_simulationName a) (userState c) = None")
  case True
  show ?thesis
  proof (cases "SendKnownParticipants env p (pa_simulationName a) c")
    case (Done c1)
    then have "registry_view c1 = registry_view c" by (rule leaves_Done [OF SendKnownParticipants_leaves])
    then have "registry_view (register a p c1) = registry_view (register a p c)" by (simp add: register_view)
    moreover have "registry_view c' = registry_view (register a p c1)"
      using assms True Done by (auto simp: OnParticipantAnnouncement_def Let_def registry_view_def register_def on_registry_def)
    ultimately show ?thesis using True by (simp add: FindConnectedParticipant_def)
  next
    case (Raised e c1)
    then show ?thesis
      using assms True leavesD [OF SendKnownParticipants_leaves, of env p "pa_simulationName a" c c1]
      by (simp add: OnParticipantAnnouncement_def Let_def)
  qed (use assms True in \<open>simp add: OnParticipantAnnouncement_def Let_def\<close>)
qed (use assms in \<open>simp add: OnParticipantAnnouncement_def Let_def\<close>)

lemma announcement_view:
  assumes "find_object c p = Some q" "state_after (ReceiveParticipantAnnouncement (registry_env env) p m c) = Some c'"
  shows "\<exists>q'. proxyOf q' = proxyOf q \<and>
    (registry_view c' = registry_view c \<or> registry_view c' = registry_view (put_object p q' c) \<or>
     (\<exists>a. peerInfo q' = pa_peerInfo a \<and> peerSimulation q' = pa_simulationName a \<and>
        map_of (participants_of (pa_simulationName a) (userState c)) (pi_participantName (pa_peerInfo a)) = None \<and>
        registry_view c' = registry_view (register a p (put_object p q' c))))"
proof -
  let ?h = "registryMessageHeader m"
  let ?v = "ExtractProtocolVersion ?h"
  let ?c1 = "put_object p (q\<lparr>peerVersion := ?v\<rparr>) c"
  have failed: "leaves registry_view c1 (SendFailedParticipantAnnouncementReply p v d c1)" for c1 v d
    by (rule SendFailed_leaves) simp
  have replied: "leaves registry_view c1 (SendParticipantAnnouncementReply p c1)" for c1
    by (rule SendReply_leaves) simp
  note out = assms(2) [unfolded ReceiveParticipantAnnouncement_def Let_def]
  show ?thesis
  proof (cases "ProtocolVersionSupported ?h")
    case False
    then show ?thesis using out leavesD [OF failed] by auto
  next
    case True
    show ?thesis
    proof (cases "Deserialize get_ParticipantAnnouncement (message_SetProtocolVersion ?v m)")
      case (Inl e)
      then have "c' = ?c1" using out True assms(1) by (simp add: update_peer_def with_peer_def)
      then show ?thesis by (intro exI [of _ "q\<lparr>peerVersion := ?v\<rparr>"]) simp
    next
      case (Inr a)
      let ?sim = "pa_simulationName a" and ?name = "pi_participantName (pa_peerInfo a)"
      let ?q2 = "SetSimulationName ?sim (q\<lparr>peerVersion := ?v, peerInfo := pa_peerInfo a,
          peerDescriptor := SetParticipantNameAndComputeId ?name (peerDescriptor q)\<rparr>)"
      let ?c2 = "put_object p ?q2 c"
      have q2: "proxyOf ?q2 = proxyOf q" "peerInfo ?q2 = pa_peerInfo a" "peerSimulation ?q2 = ?sim"
        by (simp_all add: SetSimulationName_def Let_def)
      have c2: "put_object p ?q2 ?c1 = ?c2" by (simp add: put_object_def)
      show ?thesis
      proof (cases "\<not> allowAnySimulationName c \<and> ?sim \<noteq> simulationName c")
        case refused: True
        then have "registry_view c' = registry_view ?c1"
          using out True assms(1) Inr leavesD [OF failed]
          by (auto simp: update_peer_def with_peer_def put_object_def)
        then show ?thesis by (intro exI [of _ "q\<lparr>peerVersion := ?v\<rparr>"]) simp
      next
        case False
        have called: "state_after (case OnParticipantAnnouncement env p a ?c2 of
            Raised e c \<Rightarrow> if is_SilKitError e
              then with_peer p c (\<lambda>q. SendFailedParticipantAnnouncementReply p (peerVersion q) (errorText env e) c)
              else Raised e c
          | r \<Rightarrow> bind_outcome r (\<lambda>c. SendParticipantAnnouncementReply p (AssociateParticipantNameAndPeer ?sim ?name p c))) = Some c'"
          using out True assms(1) Inr False c2
          by (auto simp: update_peer_def with_peer_def registry_env_def put_object_def split: outcome.splits)
        obtain c3 where "state_after (OnParticipantAnnouncement env p a ?c2) = Some c3" "registry_view c' = registry_view c3"
        proof (cases "OnParticipantAnnouncement env p a ?c2")
          case (Done c3)
          then show thesis
            using that [of c3] called leavesD [OF replied, of "AssociateParticipantNameAndPeer ?sim ?name p c3" c'] by simp
        next
          case (Raised e c3)
          then show thesis
            using that [of c3] called leavesD [OF leaves_with_peer [OF failed]] by (auto split: if_splits)
        qed (use called in simp)
        then show ?thesis
          using OnParticipantAnnouncement_view [of env p a ?c2 c3] q2
          by (intro exI [of _ ?q2]) (auto simp: put_object_def)
      qed
    qed
  qed
qed

end
