(* ===== verification/RegistryMembership.thy ===== *)
theory RegistryMembership
  imports VAsioRegistry
begin

text \<open>
  What the registry guarantees to the participants of a simulation: a newcomer is told who
  is there, names are unique, and who has left is forgotten. The steps of the registry are
  those of its connection, as far as they reach it or its peers. Nothing keeps a participant
  that is registered from announcing itself again under another name; then the registry lists
  it twice and forgets only the later name. So what holds in all runs is said first, and what
  holds when no registered peer announces itself again is said apart.
\<close>

section \<open>Membership\<close>

text \<open>
  Names are unique in a simulation, and whoever is registered has a peer that is connected
  and that carries the information that was registered.
\<close>

definition known_member :: "(nat \<times> vasio_peer) list \<Rightarrow> string \<Rightarrow> string \<Rightarrow> connected_participant \<Rightarrow> bool" where
  "known_member os sim n cp \<longleftrightarrow> pi_participantName (cpInfo cp) = n \<and>
     (\<exists>q. map_of os (cpPeer cp) = Some q \<and> peerInfo q = cpInfo cp \<and> peerSimulation q = sim)"

fun members_known :: "(nat \<times> vasio_peer) list \<times> nat \<times> (nat \<times> nat list) list
    \<times> (string \<Rightarrow> (string \<times> connected_participant) list) \<Rightarrow> bool" where
  "members_known (os, i, proxies, f) \<longleftrightarrow>
     distinct (map fst os) \<and> (\<forall>p\<in>fst ` set os. p < i) \<and> proxies = [] \<and> (\<forall>q\<in>snd ` set os. proxyOf q = None) \<and>
     (\<forall>sim. distinct (map fst (f sim)) \<and> (\<forall>n cp. (n, cp) \<in> set (f sim) \<longrightarrow> known_member os sim n cp))"

definition registry_inv :: "registry connection \<Rightarrow> bool" where
  "registry_inv c \<longleftrightarrow> members_known (registry_view c)"

definition registered_peer :: "nat \<Rightarrow> registry connection \<Rightarrow> bool" where
  "registered_peer p c \<longleftrightarrow> (\<exists>sim. \<exists>(n, cp)\<in>set (participants_of sim (userState c)). cpPeer cp = p)"

lemma registry_inv_view: "registry_view c' = registry_view c \<Longrightarrow> registry_inv c' = registry_inv c"
  by (simp add: registry_inv_def)

lemma registry_invD:
  assumes "registry_inv c"
  shows "distinct (map fst (peerObjects c))" "peers_fresh c" "peerToProxyPeers c = []"
    "find_object c p = Some q \<Longrightarrow> proxyOf q = None" "distinct (map fst (participants_of sim (userState c)))"
    "(n, cp) \<in> set (participants_of sim (userState c)) \<Longrightarrow> known_member (peerObjects c) sim n cp"
  using assms by (auto simp: registry_inv_def registry_view_def peers_fresh_def dest!: map_of_SomeD; fastforce)+

lemma update_in: "distinct (map fst al) \<Longrightarrow> (k', v') \<in> set (AList.update k v al) \<longleftrightarrow>
    (if k' = k then v' = v else (k', v') \<in> set al)"
proof -
  assume d: "distinct (map fst al)"
  then have "distinct (map fst (AList.update k v al))" by (rule distinct_update)
  from map_of_eq_Some_iff [OF this, of k' v'] map_of_eq_Some_iff [OF d, of k' v'] show ?thesis
    by (auto simp: update_conv')
qed

text \<open>A peer's object may be replaced unless it is registered with other information.\<close>

lemma put_object_inv:
  assumes "registry_inv c" "find_object c p = Some q" "proxyOf q' = proxyOf q"
    and "\<not> registered_peer p c \<or> peerInfo q' = peerInfo q \<and> peerSimulation q' = peerSimulation q"
  shows "registry_inv (put_object p q' c)"
proof -
  let ?os = "peerObjects c"
  note inv = registry_invD [OF assms(1)]
  have d: "distinct (map fst (AList.update p q' ?os))" using inv(1) by (rule distinct_update)
  have fst: "fst ` set (AList.update p q' ?os) = fst ` set ?os"
    using assms(2) by (force simp: dom_update dom_map_of_conv_image_fst [symmetric] update_conv')
  have direct: "proxyOf q1 = None" if "q1 \<in> snd ` set (AList.update p q' ?os)" for q1
    using that assms(3) inv(4) [OF assms(2)] inv(4) map_of_eq_Some_iff [OF inv(1)]
    by (auto simp: update_in [OF inv(1)] split: if_splits)
  have "known_member (AList.update p q' ?os) sim n cp"
    if "(n, cp) \<in> set (participants_of sim (userState c))" for sim n cp
  proof (cases "cpPeer cp = p")
    case True
    then have "registered_peer p c" using that by (auto simp: registered_peer_def)
    then show ?thesis using assms(2,4) inv(6) [OF that] True by (auto simp: known_member_def update_conv')
  next
    case False
    then show ?thesis using inv(6) [OF that] by (simp add: known_member_def update_conv')
  qed
  then show ?thesis
    using d fst direct inv(2,3,5,6)
    by (auto simp: registry_inv_def registry_view_def put_object_def peers_fresh_def)
qed

section \<open>Steps\<close>

text \<open>A step is labelled with the peer that announces itself or whose stream closes.\<close>

datatype registry_label = AnnouncementOf nat | ClosingOf nat | OtherStep

inductive registry_step :: "registry environment \<Rightarrow> registry_label \<Rightarrow> registry connection \<Rightarrow> registry connection \<Rightarrow> bool"
  for env where
  accepted: "state_after (OnAsyncAcceptSuccess (registry_env env) c) = Some c' \<Longrightarrow> registry_step env OtherStep c c'"
| announces: "find_object c p = Some q \<Longrightarrow>
    state_after (ReceiveParticipantAnnouncement (registry_env env) p m c) = Some c' \<Longrightarrow>
    registry_step env (AnnouncementOf p) c c'"
| closed: "state_after (OnPeerShutdown (registry_env env) p c) = Some c' \<Longrightarrow> registry_step env (ClosingOf p) c c'"
| requests: "find_object c p = Some q \<Longrightarrow>
    state_after (ReceiveRequest_Registry (registry_env env) p msg (put_object p (q\<lparr>peerVersion := v\<rparr>) c)) = Some c' \<Longrightarrow>
    registry_step env OtherStep c c'"
| relays: "state_after (relay_proxy_message sim pm c) = Some c' \<Longrightarrow> registry_step env OtherStep c c'"
| subscribes: "state_after (ReceiveSubscriptionAnnouncement p m c) = Some c' \<Longrightarrow> registry_step env OtherStep c c'"
| acknowledges: "state_after (ReceiveSubscriptionAcknowledge p m c) = Some c' \<Longrightarrow> registry_step env OtherStep c c'"
| receives: "state_after (ReceiveRawSilKitMessage (registry_env env) p m c) = Some c' \<Longrightarrow> registry_step env OtherStep c c'"
| serves: "registry_step env OtherStep c (on_registry (registry_ReceiveMsg d msg) c)"

text \<open>Any step, one that is not the closing of a peer, and one in which no registered peer announces itself.\<close>

definition registry_moves :: "registry environment \<Rightarrow> registry connection \<Rightarrow> registry connection \<Rightarrow> bool" where
  "registry_moves env c c' \<longleftrightarrow> (\<exists>l. registry_step env l c c')"

definition moves_with :: "registry environment \<Rightarrow> nat \<Rightarrow> registry connection \<Rightarrow> registry connection \<Rightarrow> bool" where
  "moves_with env p c c' \<longleftrightarrow> (\<exists>l. l \<noteq> ClosingOf p \<and> registry_step env l c c')"

definition orderly_moves :: "registry environment \<Rightarrow> registry connection \<Rightarrow> registry connection \<Rightarrow> bool" where
  "orderly_moves env c c' \<longleftrightarrow> (\<exists>l. (\<forall>p. l = AnnouncementOf p \<longrightarrow> \<not> registered_peer p c) \<and> registry_step env l c c')"

text \<open>A new peer.\<close>

lemma OnAsyncAcceptSuccess_view:
  assumes "peers_fresh c" "state_after (OnAsyncAcceptSuccess env c) = Some c'"
  shows "\<exists>q. proxyOf q = None \<and> registry_view c' = registry_view (snd (new_peer_object q c))"
proof -
  obtain p c1 q where c1: "MakeVAsioPeer env c = (p, c1)" "proxyOf q = None" "c1 = snd (new_peer_object q c)" "p = nextPeer c"
    by (auto simp: MakeVAsioPeer_def new_peer_object_def)
  have "find_object c1 p = Some q"
    using c1(3,4) fresh_peer [OF assms(1)] by (simp add: new_peer_object_def map_add_def)
  then have "registry_view c' = registry_view c1"
    using assms(2) c1(1,2) by (auto simp: OnAsyncAcceptSuccess_def AddPeer_def with_peer_def emit_def Let_def registry_view_def)
  then show ?thesis using c1(2,3) by blast
qed

lemma new_peer_inv: "registry_inv c \<Longrightarrow> proxyOf q = None \<Longrightarrow> registry_inv (snd (new_peer_object q c))"
proof -
  assume inv: "registry_inv c" and q: "proxyOf q = None"
  have "known_member (peerObjects c @ [(nextPeer c, q)]) sim n cp" if "known_member (peerObjects c) sim n cp" for sim n cp
    using that by (auto simp: known_member_def map_add_def)
  moreover have "nextPeer c \<notin> fst ` set (peerObjects c)" using fresh_not_in [OF registry_invD(2) [OF inv]] .
  ultimately show ?thesis
    using inv q by (auto simp: registry_inv_def registry_view_def new_peer_object_def less_Suc_eq)
qed

text \<open>An announcement.\<close>

lemma register_inv:
  assumes "registry_inv c" "find_object c p = Some q" "peerInfo q = pa_peerInfo a" "peerSimulation q = pa_simulationName a"
  shows "registry_inv (register a p c)"
proof -
  note inv = registry_invD [OF assms(1)]
  let ?sim = "pa_simulationName a" and ?name = "pi_participantName (pa_peerInfo a)"
  let ?ps = "AList.update ?name \<lparr>cpPeer = p, cpInfo = pa_peerInfo a\<rparr> (participants_of ?sim (userState c))"
  have "distinct (map fst ?ps)" using inv(5) by (rule distinct_update)
  moreover have "known_member (peerObjects c) ?sim n cp" if "(n, cp) \<in> set ?ps" for n cp
  proof (cases "n = ?name")
    case True
    then show ?thesis using that assms(2-4) by (simp add: update_in [OF inv(5)] known_member_def)
  next
    case False
    then show ?thesis using that inv(6) by (simp add: update_in [OF inv(5)])
  qed
  ultimately show ?thesis
    using assms(1) by (simp add: registry_inv_def register_view) (simp add: registry_view_def)
qed

lemma announcement_inv:
  assumes "registry_inv c" "find_object c p = Some q" "\<not> registered_peer p c"
    and "state_after (ReceiveParticipantAnnouncement (registry_env env) p m c) = Some c'"
  shows "registry_inv c'"
proof -
  obtain q' where q': "proxyOf q' = proxyOf q"
    "registry_view c' = registry_view c \<or> registry_view c' = registry_view (put_object p q' c) \<or>
     (\<exists>a. peerInfo q' = pa_peerInfo a \<and> peerSimulation q' = pa_simulationName a \<and>
        registry_view c' = registry_view (register a p (put_object p q' c)))"
    using announcement_view [OF assms(2,4)] by blast
  have put: "registry_inv (put_object p q' c)"
    using put_object_inv [OF assms(1,2) q'(1)] assms(3) by blast
  have "find_object (put_object p q' c) p = Some q'" by (simp add: put_object_def)
  then show ?thesis
    using q'(2) assms(1) put register_inv [OF put] registry_inv_view by blast
qed

text \<open>A peer that shuts down.\<close>

definition forget :: "nat \<Rightarrow> vasio_peer \<Rightarrow> registry connection \<Rightarrow> registry connection" where
  "forget p q c = c\<lparr>userState := (case registry_OnPeerShutdown p q (userState c) of Done r \<Rightarrow> r | _ \<Rightarrow> userState c)\<rparr>"

lemma participants_of_event [simp]: "participants_of sim (r\<lparr>registryEvents := e\<rparr>) = participants_of sim r"
  by (simp add: participants_of_def)

lemma participants_of_if_event:
  "participants_of sim (if b then r\<lparr>registryEvents := e\<rparr> else r) = participants_of sim r"
  by simp

lemma registry_OnPeerShutdown_total:
  "\<exists>r'. registry_OnPeerShutdown p q r = Done r' \<and> (\<forall>sim. participants_of sim r' =
      (if sim = peerSimulation q \<and>
         map_option cpPeer (FindConnectedParticipant (pi_participantName (peerInfo q)) sim r) = Some p
       then AList.delete (pi_participantName (peerInfo q)) (participants_of sim r) else participants_of sim r))"
proof (cases "map_option cpPeer (FindConnectedParticipant (pi_participantName (peerInfo q)) (peerSimulation q) r) = Some p")
  case True
  let ?sim = "peerSimulation q" and ?name = "pi_participantName (peerInfo q)"
  let ?r1 = "tell_listener (OnParticipantDisconnected ?sim ?name) r"
  let ?ps = "AList.delete ?name (participants_of ?sim r)"
  let ?r2 = "if ?ps = [] then ?r1\<lparr>connectedParticipants := AList.delete ?sim (connectedParticipants ?r1)\<rparr>
    else set_participants ?sim ?ps ?r1"
  let ?b = "connectedParticipants ?r2 = [] \<and> hasDisconnectedHandler ?r2"
  have "registry_OnPeerShutdown p q r =
      Done (if ?b then ?r2\<lparr>registryEvents := registryEvents ?r2 @ [AllParticipantsDisconnected]\<rparr> else ?r2)"
    using True by (auto simp: registry_OnPeerShutdown_def Let_def)
  moreover have "participants_of sim (if ?b then ?r2\<lparr>registryEvents := e\<rparr> else ?r2) = participants_of sim ?r2" for sim e
    by (rule participants_of_if_event)
  moreover have "participants_of sim ?r2 = (if sim = ?sim then ?ps else participants_of sim r)" for sim
    by (simp add: participants_of_delete)
  ultimately show ?thesis using True by auto
next
  case False
  then have "registry_OnPeerShutdown p q r = Done r"
    by (cases "FindConnectedParticipant (pi_participantName (peerInfo q)) (peerSimulation q) r")
      (simp_all add: registry_OnPeerShutdown_def Let_def)
  then show ?thesis using False by auto
qed

lemma forget_sel [simp]:
  "peerObjects (forget p q c) = peerObjects c" "nextPeer (forget p q c) = nextPeer c"
  "peerToProxyPeers (forget p q c) = peerToProxyPeers c" "find_object (forget p q c) = find_object c"
  by (simp_all add: forget_def)

lemma participants_of_forget:
  "participants_of sim (userState (forget p q c)) =
    (if sim = peerSimulation q \<and>
       map_option cpPeer (FindConnectedParticipant (pi_participantName (peerInfo q)) sim (userState c)) = Some p
     then AList.delete (pi_participantName (peerInfo q)) (participants_of sim (userState c))
     else participants_of sim (userState c))"
  using registry_OnPeerShutdown_total [of p q "userState c"] by (auto simp: forget_def)

lemma forget_view_cong:
  "registry_view c' = registry_view c \<Longrightarrow> registry_view (forget p q c') = registry_view (forget p q c)"
  by (auto simp: registry_view_def participants_of_forget FindConnectedParticipant_def fun_eq_iff)

definition without_peer :: "nat \<Rightarrow> registry connection \<Rightarrow> registry connection" where
  "without_peer p c = c\<lparr>peerObjects := AList.delete p (peerObjects c)\<rparr>"

lemma without_view_cong: "registry_view c' = registry_view c \<Longrightarrow> registry_view (without_peer p c') = registry_view (without_peer p c)"
  by (auto simp: registry_view_def without_peer_def)

lemma RemovePeerFromConnection_view:
  assumes "find_object c p = Some q"
  shows "\<exists>c'. RemovePeerFromConnection p c = Done c' \<and>
    (registry_view c' = registry_view c \<or> registry_view c' = registry_view (without_peer p c))"
  using assms by (simp add: RemovePeerFromConnection_def with_peer_def Let_def registry_view_def without_peer_def)

text \<open>How far a shutdown comes.\<close>

lemma finish_shutdown_view:
  assumes "find_object c p = Some q" "state_after (finish_shutdown (registry_env env) p c) = Some c'"
  shows "registry_view c' = registry_view c \<or> registry_view c' = registry_view (forget p q c) \<or>
    registry_view c' = registry_view (without_peer p (forget p q c))"
proof -
  note out = assms(2) [unfolded finish_shutdown_def with_peer_def assms(1) option.case]
  have told: "leaves registry_view c (SendProxyPeerShutdownNotification p c)"
    by (rule SendProxyPeerShutdownNotification_leaves) simp
  show ?thesis
  proof (cases "SendProxyPeerShutdownNotification p c")
    case (Done c1)
    then have c1: "registry_view c1 = registry_view c" by (rule leaves_Done [OF told])
    have called: "call_shutdown_callbacks (peerShutdownCallbacks (registry_env env)) p q c1 = Done (forget p q c1)"
      using registry_OnPeerShutdown_total [of p q "userState c1"] by (auto simp: registry_env_def forget_def)
    let ?c2 = "forget p q c1"
    have c2: "registry_view ?c2 = registry_view (forget p q c)" using c1 by (rule forget_view_cong)
    have unlinked: "leaves registry_view ?c2 (RemovePeerFromLinks p ?c2)" by (rule RemovePeerFromLinks_leaves) simp
    show ?thesis
    proof (cases "RemovePeerFromLinks p ?c2")
      case c3: (Done c3)
      then have v3: "registry_view c3 = registry_view ?c2" by (rule leaves_Done [OF unlinked])
      have "registry_view ?c2 = registry_view (forget p q c)" by (rule c2)
      then have "find_object c3 p = Some q" using v3 assms(1) by (simp add: registry_view_def)
      from RemovePeerFromConnection_view [OF this] obtain c4 where c4: "RemovePeerFromConnection p c3 = Done c4"
        "registry_view c4 = registry_view c3 \<or> registry_view c4 = registry_view (without_peer p c3)" by blast
      have settled: "leaves registry_view c4 (RemovePeerFromPendingAcknowledges p c4)"
        by (rule RemovePeerFromPendingAcknowledges_leaves) simp
      have "registry_view c' = registry_view c4"
        using out Done called c3 c4 leavesD [OF settled] by auto
      then show ?thesis using c4 v3 c2 without_view_cong [OF v3] without_view_cong [OF c2] by metis
    next
      case (Raised e c3)
      then show ?thesis using out Done called leavesD [OF unlinked, of c3] c2 by simp
    qed (use out Done called in simp)
  next
    case (Raised e c1)
    then show ?thesis using out leavesD [OF told, of c1] by simp
  qed (use out in simp)
qed

lemma forget_inv:
  assumes "registry_inv c"
  shows "registry_inv (forget p q c)"
proof -
  note inv = registry_invD [OF assms]
  have "distinct (map fst (participants_of sim (userState (forget p q c))))" for sim
    using inv(5) by (simp add: participants_of_forget distinct_delete)
  moreover have "known_member (peerObjects c) sim n cp"
    if "(n, cp) \<in> set (participants_of sim (userState (forget p q c)))" for sim n cp
    using that inv(6) by (fastforce simp: participants_of_forget AList.delete_eq split: if_splits)
  ultimately show ?thesis
    using assms by (simp add: registry_inv_def registry_view_def)
qed

lemma forget_unregisters:
  assumes "registry_inv c" "find_object c p = Some q"
  shows "\<not> registered_peer p (forget p q c)"
proof
  assume "registered_peer p (forget p q c)"
  then obtain sim n cp where cp: "(n, cp) \<in> set (participants_of sim (userState (forget p q c)))" "cpPeer cp = p"
    by (auto simp: registered_peer_def)
  note inv = registry_invD [OF assms(1)]
  have "known_member (peerObjects c) sim n cp" using registry_invD(6) [OF forget_inv [OF assms(1)] cp(1)] by simp
  then have q: "pi_participantName (peerInfo q) = n" "peerSimulation q = sim"
    using assms(2) cp(2) by (auto simp: known_member_def)
  have there: "(n, cp) \<in> set (participants_of sim (userState c))"
    using cp(1) by (auto simp: participants_of_forget AList.delete_eq split: if_splits)
  then have "FindConnectedParticipant n sim (userState c) = Some cp"
    using inv(5) by (simp add: FindConnectedParticipant_def)
  then show False using cp q by (simp add: participants_of_forget AList.delete_eq)
qed

lemma without_inv:
  assumes "registry_inv c" "\<not> registered_peer p c"
  shows "registry_inv (without_peer p c)"
proof -
  note inv = registry_invD [OF assms(1)]
  have "known_member (AList.delete p (peerObjects c)) sim n cp"
    if "(n, cp) \<in> set (participants_of sim (userState c))" for sim n cp
    using inv(6) [OF that] assms(2) that by (auto simp: known_member_def registered_peer_def delete_conv')
  moreover have "set (AList.delete p (peerObjects c)) \<subseteq> set (peerObjects c)" by (auto simp: AList.delete_eq)
  ultimately show ?thesis
    using assms(1) by (auto simp: registry_inv_def registry_view_def without_peer_def distinct_delete)
qed

lemma closed_inv:
  assumes "registry_inv c" "state_after (OnPeerShutdown (registry_env env) p c) = Some c'"
  shows "registry_inv c'"
proof (cases "shuttingDown c")
  case False
  have out: "state_after (finish_shutdown (registry_env env) p c) = Some c'"
    using assms(2) False registry_invD(3) [OF assms(1)]
    by (auto simp: OnPeerShutdown_def shutdown_run.simps split: outcome.splits)
  show ?thesis
  proof (cases "find_object c p")
    case None
    then show ?thesis using out assms(1) by (simp add: finish_shutdown_def with_peer_def)
  next
    case (Some q)
    note f = forget_inv [OF assms(1), of p q]
    show ?thesis
      using finish_shutdown_view [OF Some out] assms(1) f without_inv [OF f forget_unregisters [OF assms(1) Some]]
        registry_inv_view by metis
  qed
qed (use assms in \<open>simp add: OnPeerShutdown_def\<close>)

text \<open>The other steps do not touch what the registry looks at.\<close>

lemma ReceiveRequest_RegistrySide_leaves: "ignores_trace f \<Longrightarrow> leaves f c (ReceiveRequest_Registry env p msg c)"
  by (auto simp: ReceiveRequest_Registry_def intro!: leaves_with_peer send_request_leaves split: option.split sum.split)

lemma relay_view: "leaves registry_view c (relay_proxy_message sim pm c)"
proof -
  have "registry_view (c\<lparr>proxySourceToDestinations := x\<rparr>) = registry_view c" for c x by (simp add: registry_view_def)
  then show ?thesis
    by (auto simp: relay_proxy_message_def intro!: leaves_bind send_to_leaves split: option.split)
qed

lemma serves_view: "registry_view (on_registry (registry_ReceiveMsg d msg) c) = registry_view c"
  by (cases msg) (simp_all add: registry_view_def on_registry_def)

lemma registry_step_inv:
  "registry_step env l c c' \<Longrightarrow> registry_inv c \<Longrightarrow> (\<And>p. l = AnnouncementOf p \<Longrightarrow> \<not> registered_peer p c) \<Longrightarrow>
    registry_inv c'"
proof (induction rule: registry_step.induct)
  case (accepted c c')
  then show ?case using OnAsyncAcceptSuccess_view [OF registry_invD(2)] new_peer_inv registry_inv_view by metis
next
  case (announces c p q m c')
  then show ?case using announcement_inv by blast
next
  case (closed p c c')
  then show ?case using closed_inv by blast
next
  case (requests c p q msg v c')
  let ?c = "put_object p (q\<lparr>peerVersion := v\<rparr>) c"
  have "registry_inv ?c" using put_object_inv [OF requests(3,1)] by simp
  moreover have "registry_view c' = registry_view ?c"
    by (rule leavesD [OF ReceiveRequest_RegistrySide_leaves requests(2)]) simp
  ultimately show ?case using registry_inv_view by blast
next
  case (relays sim pm c c')
  then show ?case using leavesD [OF relay_view] registry_inv_view by blast
next
  case (subscribes p m c c')
  then show ?case using leavesD [OF ReceiveSubscriptionAnnouncement_leaves] registry_inv_view view_ignores by blast
next
  case (acknowledges p m c c')
  then show ?case using leavesD [OF ReceiveSubscriptionAcknowledge_leaves] registry_inv_view view_ignores by blast
next
  case (receives p m c c')
  then show ?case using leavesD [OF ReceiveRawSilKitMessage_leaves] registry_inv_view view_ignores by blast
next
  case (serves c d msg)
  then show ?case using serves_view registry_inv_view by blast
qed

lemma registry_steps_inv: "(orderly_moves env)\<^sup>*\<^sup>* c c' \<Longrightarrow> registry_inv c \<Longrightarrow> registry_inv c'"
  by (induction rule: rtranclp_induct) (auto simp: orderly_moves_def intro: registry_step_inv)

section \<open>What holds in every run\<close>

text \<open>The peers and the names that are listed, without the information of the peers.\<close>

fun names_listed :: "(nat \<times> vasio_peer) list \<times> nat \<times> (nat \<times> nat list) list
    \<times> (string \<Rightarrow> (string \<times> connected_participant) list) \<Rightarrow> bool" where
  "names_listed (os, i, proxies, f) \<longleftrightarrow>
     (\<forall>p\<in>fst ` set os. p < i) \<and> proxies = [] \<and>
     (\<forall>sim. distinct (map fst (f sim)) \<and> (\<forall>(n, cp)\<in>set (f sim). pi_participantName (cpInfo cp) = n))"

definition registry_names :: "registry connection \<Rightarrow> bool" where
  "registry_names c \<longleftrightarrow> names_listed (registry_view c)"

lemma registry_names_view: "registry_view c' = registry_view c \<Longrightarrow> registry_names c' = registry_names c"
  by (simp add: registry_names_def)

lemma registry_namesD:
  assumes "registry_names c"
  shows "peers_fresh c" "peerToProxyPeers c = []" "distinct (map fst (participants_of sim (userState c)))"
    "\<forall>(n, cp)\<in>set (participants_of sim (userState c)). pi_participantName (cpInfo cp) = n"
  using assms by (simp_all add: registry_names_def registry_view_def peers_fresh_def)

lemma new_peer_names: "registry_names c \<Longrightarrow> registry_names (snd (new_peer_object q c))"
  by (auto simp: registry_names_def registry_view_def new_peer_object_def less_Suc_eq)

lemma put_object_names:
  assumes "registry_names c" "find_object c p = Some q"
  shows "registry_names (put_object p q' c)"
proof -
  have "fst ` set (AList.update p q' (peerObjects c)) = fst ` set (peerObjects c)"
    using assms(2) by (force simp: dom_update dom_map_of_conv_image_fst [symmetric] update_conv')
  then show ?thesis using assms(1) by (simp add: registry_names_def registry_view_def put_object_def)
qed

lemma register_names:
  assumes "registry_names c"
  shows "registry_names (register a p c)"
proof -
  note names = registry_namesD [OF assms]
  let ?sim = "pa_simulationName a"
  let ?ps = "AList.update (pi_participantName (pa_peerInfo a)) \<lparr>cpPeer = p, cpInfo = pa_peerInfo a\<rparr>
      (participants_of ?sim (userState c))"
  have "distinct (map fst ?ps)" using names(3) by (rule distinct_update)
  moreover have "\<forall>(n, cp)\<in>set ?ps. pi_participantName (cpInfo cp) = n"
    using names(4) [of ?sim] by (fastforce simp: update_in [OF names(3)] split: if_splits)
  ultimately have "\<forall>sim. distinct (map fst (if sim = ?sim then ?ps else participants_of sim (userState c))) \<and>
      (\<forall>(n, cp)\<in>set (if sim = ?sim then ?ps else participants_of sim (userState c)). pi_participantName (cpInfo cp) = n)"
    using names(3,4) by simp
  moreover have "(\<forall>p\<in>fst ` set (peerObjects c). p < nextPeer c) \<and> peerToProxyPeers c = []"
    using names(1,2) by (simp add: peers_fresh_def)
  ultimately show ?thesis
    unfolding registry_names_def register_view
    unfolding registry_view_def by (simp only: prod.case names_listed.simps fun_upd_apply) simp
qed

lemma forget_names:
  assumes "registry_names c"
  shows "registry_names (forget p q c)"
proof -
  note names = registry_namesD [OF assms]
  have "set (participants_of sim (userState (forget p q c))) \<subseteq> set (participants_of sim (userState c))" for sim
    by (auto simp: participants_of_forget AList.delete_eq)
  then have "\<forall>(n, cp)\<in>set (participants_of sim (userState (forget p q c))). pi_participantName (cpInfo cp) = n" for sim
    using names(4) [of sim] by blast
  moreover have "distinct (map fst (participants_of sim (userState (forget p q c))))" for sim
    using names(3) by (simp add: participants_of_forget distinct_delete)
  moreover have "(\<forall>p\<in>fst ` set (peerObjects c). p < nextPeer c) \<and> peerToProxyPeers c = []"
    using names(1,2) by (simp add: peers_fresh_def)
  ultimately show ?thesis by (simp add: registry_names_def registry_view_def)
qed

lemma without_names: "registry_names c \<Longrightarrow> registry_names (without_peer p c)"
  by (auto simp: registry_names_def registry_view_def without_peer_def AList.delete_eq)

text \<open>What a name is listed for, and that nothing but the closing of its peer changes that.\<close>

definition listed_as :: "string \<Rightarrow> string \<Rightarrow> connected_participant \<Rightarrow> registry connection \<Rightarrow> bool" where
  "listed_as n sim cp c \<longleftrightarrow> map_of (participants_of sim (userState c)) n = Some cp"

lemma listed_as_view: "registry_view c' = registry_view c \<Longrightarrow> listed_as n sim cp c' = listed_as n sim cp c"
  by (auto simp: listed_as_def registry_view_def fun_eq_iff)

lemma listed_as_ignores:
  "listed_as n sim cp (snd (new_peer_object q c)) = listed_as n sim cp c"
  "listed_as n sim cp (put_object p q c) = listed_as n sim cp c"
  "listed_as n sim cp (without_peer p c) = listed_as n sim cp c"
  by (simp_all add: listed_as_def new_peer_object_def put_object_def without_peer_def)

lemma listed_as_register:
  assumes "listed_as n sim cp c"
    "map_of (participants_of (pa_simulationName a) (userState c)) (pi_participantName (pa_peerInfo a)) = None"
  shows "listed_as n sim cp (register a p c)"
proof -
  have "participants_of sim (userState (register a p c)) = (if sim = pa_simulationName a
      then AList.update (pi_participantName (pa_peerInfo a)) \<lparr>cpPeer = p, cpInfo = pa_peerInfo a\<rparr>
        (participants_of sim (userState c)) else participants_of sim (userState c))"
    by (auto simp: register_def on_registry_def)
  then show ?thesis using assms by (auto simp: listed_as_def update_conv')
qed

lemma listed_as_forget: "listed_as n sim cp c \<Longrightarrow> cpPeer cp \<noteq> p \<Longrightarrow> listed_as n sim cp (forget p q c)"
  by (auto simp: listed_as_def participants_of_forget delete_conv' FindConnectedParticipant_def)

definition keeps_names :: "registry connection \<Rightarrow> nat option \<Rightarrow> registry connection \<Rightarrow> bool" where
  "keeps_names c gone c' \<longleftrightarrow> registry_names c' \<and>
     (\<forall>n sim cp. listed_as n sim cp c \<and> gone \<noteq> Some (cpPeer cp) \<longrightarrow> listed_as n sim cp c')"

lemma keeps_names_view: "registry_names c \<Longrightarrow> registry_view c' = registry_view c \<Longrightarrow> keeps_names c gone c'"
  using registry_names_view listed_as_view unfolding keeps_names_def by blast

lemma keeps_names_cong: "registry_view c' = registry_view c'' \<Longrightarrow> keeps_names c gone c'' \<Longrightarrow> keeps_names c gone c'"
  using registry_names_view [of c' c''] listed_as_view [of c' c''] by (simp add: keeps_names_def)

lemma announcement_keeps_names:
  assumes "registry_names c" "find_object c p = Some q"
    and "state_after (ReceiveParticipantAnnouncement (registry_env env) p m c) = Some c'"
  shows "keeps_names c None c'"
proof -
  obtain q' where q':
    "registry_view c' = registry_view c \<or> registry_view c' = registry_view (put_object p q' c) \<or>
     (\<exists>a. map_of (participants_of (pa_simulationName a) (userState c)) (pi_participantName (pa_peerInfo a)) = None \<and>
        registry_view c' = registry_view (register a p (put_object p q' c)))"
    using announcement_view [OF assms(2,3)] by blast
  note put = put_object_names [OF assms(1,2), of q']
  have "keeps_names c None (put_object p q' c)" using put by (simp add: keeps_names_def listed_as_ignores)
  moreover have "keeps_names c None (register a p (put_object p q' c))"
    if free: "map_of (participants_of (pa_simulationName a) (userState c)) (pi_participantName (pa_peerInfo a)) = None" for a
  proof -
    have same: "userState (put_object p q' c) = userState c" by (simp add: put_object_def)
    have "listed_as n sim cp (register a p (put_object p q' c))" if n: "listed_as n sim cp c" for n sim cp
    proof (rule listed_as_register)
      show "listed_as n sim cp (put_object p q' c)" using n by (simp only: listed_as_ignores)
    qed (use free same in simp)
    then show ?thesis using register_names [OF put] unfolding keeps_names_def by blast
  qed
  ultimately show ?thesis
    using q' keeps_names_view [OF assms(1)] keeps_names_cong by blast
qed

lemma closed_keeps_names:
  assumes "registry_names c" "state_after (OnPeerShutdown (registry_env env) p c) = Some c'"
  shows "keeps_names c (Some p) c'"
proof (cases "shuttingDown c")
  case False
  have out: "state_after (finish_shutdown (registry_env env) p c) = Some c'"
    using assms(2) False registry_namesD(2) [OF assms(1)]
    by (auto simp: OnPeerShutdown_def shutdown_run.simps split: outcome.splits)
  show ?thesis
  proof (cases "find_object c p")
    case None
    then show ?thesis using out assms(1) by (simp add: finish_shutdown_def with_peer_def keeps_names_def)
  next
    case (Some q)
    have "keeps_names c (Some p) c" "keeps_names c (Some p) (forget p q c)" "keeps_names c (Some p) (without_peer p (forget p q c))"
      using assms(1) forget_names [OF assms(1)] without_names [OF forget_names [OF assms(1)]] listed_as_forget
      by (simp_all add: keeps_names_def listed_as_ignores)
    then show ?thesis
      using finish_shutdown_view [OF Some out] keeps_names_cong by blast
  qed
qed (use assms in \<open>simp add: OnPeerShutdown_def keeps_names_def\<close>)

lemma registry_step_keeps_names:
  "registry_step env l c c' \<Longrightarrow> registry_names c \<Longrightarrow> keeps_names c (case l of ClosingOf p \<Rightarrow> Some p | _ \<Rightarrow> None) c'"
proof (induction rule: registry_step.induct)
  case (accepted c c')
  from OnAsyncAcceptSuccess_view [OF registry_namesD(1) [OF accepted(2)] accepted(1)]
  obtain q where "registry_view c' = registry_view (snd (new_peer_object q c))" by blast
  moreover have "keeps_names c None (snd (new_peer_object q c))"
    using new_peer_names [OF accepted(2)] by (simp add: keeps_names_def listed_as_ignores)
  ultimately show ?case using keeps_names_cong by simp
next
  case (announces c p q m c')
  then show ?case using announcement_keeps_names by simp
next
  case (closed p c c')
  then show ?case using closed_keeps_names by simp
next
  case (requests c p q msg v c')
  let ?c = "put_object p (q\<lparr>peerVersion := v\<rparr>) c"
  have "keeps_names c None ?c"
    using put_object_names [OF requests(3,1)] by (simp add: keeps_names_def listed_as_ignores)
  moreover have "registry_view c' = registry_view ?c"
    by (rule leavesD [OF ReceiveRequest_RegistrySide_leaves requests(2)]) simp
  ultimately show ?case using keeps_names_cong by simp
next
  case (relays sim pm c c')
  then show ?case using leavesD [OF relay_view] keeps_names_view by blast
next
  case (subscribes p m c c')
  then show ?case using leavesD [OF ReceiveSubscriptionAnnouncement_leaves] keeps_names_view view_ignores by blast
next
  case (acknowledges p m c c')
  then show ?case using leavesD [OF ReceiveSubscriptionAcknowledge_leaves] keeps_names_view view_ignores by blast
next
  case (receives p m c c')
  then show ?case using leavesD [OF ReceiveRawSilKitMessage_leaves] keeps_names_view view_ignores by blast
next
  case (serves c d msg)
  then show ?case using serves_view keeps_names_view by blast
qed

lemma registry_moves_names: "(registry_moves env)\<^sup>*\<^sup>* c c' \<Longrightarrow> registry_names c \<Longrightarrow> registry_names c'"
  by (induction rule: rtranclp_induct) (use registry_step_keeps_names in \<open>auto simp: registry_moves_def keeps_names_def\<close>)

lemma moves_with_names:
  "(moves_with env (cpPeer cp))\<^sup>*\<^sup>* c c' \<Longrightarrow> registry_names c \<Longrightarrow> listed_as n sim cp c \<Longrightarrow>
    registry_names c' \<and> listed_as n sim cp c'"
proof (induction rule: rtranclp_induct)
  case (step c1 c2)
  then obtain l where "l \<noteq> ClosingOf (cpPeer cp)" "registry_step env l c1 c2" by (auto simp: moves_with_def)
  with registry_step_keeps_names [OF this(2)] step.IH step.prems show ?case
    by (auto simp: keeps_names_def split: registry_label.splits)
qed simp

lemma new_registry_names: "registry_names (outer (new_registry_connection caps v (new_registry l h)))"
  by (simp add: registry_names_def registry_view_def new_registry_connection_def new_vasio_def new_connect_known_def
      new_connection_def participants_of_def new_registry_def)

lemma new_registry_inv: "registry_inv (outer (new_registry_connection caps v (new_registry l h)))"
  by (simp add: registry_inv_def registry_view_def new_registry_connection_def new_vasio_def new_connect_known_def
      new_connection_def participants_of_def new_registry_def)

end
