(* ===== verification/RegistryService.thy ===== *)
theory RegistryService
  imports RegistryMembership
begin

text \<open>
  The handshake of a participant with the registry, from the announcement to what the
  participant is told, and what becomes of a name that two participants wanted.
\<close>

section \<open>A newcomer\<close>

lemma known_infos_unregistered:
  assumes "registry_inv c" "\<not> registered_peer p c"
    "known_infos make_address c p q (participants_of sim (userState c)) = Inr infos"
  shows "map pi_participantName infos = map fst (participants_of sim (userState c))"
proof -
  have "\<forall>(n, cp)\<in>set (participants_of sim (userState c)). pi_participantName (cpInfo cp) = n"
    using registry_invD(6) [OF assms(1)] by (auto simp: known_member_def)
  from known_infos_names [OF assms(3) this]
  have "map pi_participantName infos = map fst (filter (\<lambda>(n, cp). cpPeer cp \<noteq> p) (participants_of sim (userState c)))" .
  also have "filter (\<lambda>(n, cp). cpPeer cp \<noteq> p) (participants_of sim (userState c)) = participants_of sim (userState c)"
    using assms(2) by (auto simp: registered_peer_def filter_id_conv)
  finally show ?thesis .
qed

text \<open>What the two answers of the registry do at the newcomer.\<close>

lemma told_who_is_there:
  assumes "Deserialize get_KnownParticipants m = Inr \<lparr>kp_messageHeader = MakeRegistryMsgHeader V31, kp_peerInfos = infos\<rparr>"
    and "find_object (outer k) p = Some q" "knownParticipantsPromise k = Unset"
  shows "ReceiveKnownParticpants p m k =
    Done (k\<lparr>outer := put_object p (q\<lparr>peerVersion := V31\<rparr>) (outer k), knownParticipantsPromise := Fulfilled infos\<rparr>)"
  using assms by (simp add: ReceiveKnownParticpants_def on_outer_def update_peer_def with_peer_def SetKnownParticipants_def
      set_value_def)

lemma told_welcome:
  assumes "Deserialize get_ParticipantAnnouncementReply m = Inr r" "par_status r = reply_Success"
    and "find_object (outer k) p = Some q" "pi_participantId (peerInfo q) = REGISTRY_PARTICIPANT_ID"
    and "no_history (outer k)" "registryHandshake (outer k) = Unset"
  shows "\<exists>k'. ReceiveParticipantAnnouncementReply env p m k = Done k' \<and> registryHandshake (outer k') = Fulfilled () \<and>
    knownParticipantsPromise k' = knownParticipantsPromise k \<and> (\<forall>s\<in>set (par_subscribers r). subscribed (outer k') p s)"
proof -
  let ?c = "put_object p (q\<lparr>peerVersion := ExtractProtocolVersion (par_remoteHeader r)\<rparr>) (outer k)"
  have "no_history ?c" "find_object ?c p \<noteq> None" using assms(5) by (simp_all add: no_history_def put_object_def)
  from add_subscribers_added [OF this] obtain c' where c': "add_subscribers p (par_subscribers r) ?c = Done c'"
    "more_receivers ?c c'" "\<forall>s\<in>set (par_subscribers r). subscribed c' p s" by blast
  have "registryHandshake c' = Unset"
    using c'(2) [unfolded more_receivers_def, THEN conjunct1, THEN arg_cong, of registryHandshake] assms(6)
    by (simp add: put_object_def)
  then show ?thesis
    using assms(1-4) c'(1,3)
    by (intro exI [of _ "k\<lparr>outer := c'\<lparr>registryHandshake := Fulfilled ()\<rparr>\<rparr>"])
      (simp add: ReceiveParticipantAnnouncementReply_def Let_def on_outer_def complete_registry_handshake_def set_value_def
        subscribed_def GetLinkByName_def)
qed

text \<open>
  Claim C22. The registry introduces a newcomer. When a participant announces a name that is
  free in its simulation, the registry answers with two messages and registers it. The first
  names exactly the participants that are there; the second is the introduction, with what the
  registry has subscribed to. The newcomer gets both in this order: the first one is the list
  that it goes on to connect to, the second one ends its wait for the registry.
\<close>

theorem registry_introduces_newcomers:
  fixes kR :: "registry vasio" and kA :: "'u vasio"
  assumes "registry_inv (outer kR)" "find_object (outer kR) p = Some q" "\<not> registered_peer p (outer kR)"
    and "allowAnySimulationName (outer kR)"
    and "pa_messageHeader a = MakeRegistryMsgHeader V31" "ok_announcement a" "length (enc_announcement a) + 6 \<le> max_message_size"
    and "FindConnectedParticipant (pi_participantName (pa_peerInfo a)) (pa_simulationName a) (userState (outer kR)) = None"
    and "known_infos (makeAddress env) (outer kR) p q (participants_of (pa_simulationName a) (userState (outer kR))) = Inr infos"
    and "known = \<lparr>kp_messageHeader = MakeRegistryMsgHeader V31, kp_peerInfos = infos\<rparr>"
    and "ok_known known" "length (enc_known V31 known) + 6 \<le> max_message_size"
    and "introduction = \<lparr>par_remoteHeader = MakeRegistryMsgHeader V31, par_status = reply_Success,
      par_subscribers = map snd (vasioReceivers (outer kR)), par_diagnostic = []\<rparr>"
    and "ok_reply introduction" "length (enc_reply V31 introduction) + 6 \<le> max_message_size"
    and "find_object (outer kA) r = Some qA" "peerVersion qA \<noteq> (3, 0)"
    and "pi_participantId (peerInfo qA) = REGISTRY_PARTICIPANT_ID"
    and "knownParticipantsPromise kA = Unset" "registryHandshake (outer kA) = Unset" "no_history (outer kA)"
  shows "\<exists>announcement kR' told1 told2 kA1 kA2.
    framed_as TypeParticipantAnnouncement (0, 0) 0 (put_ParticipantAnnouncement a) announcement \<and>
    receive_blob (registry_env env) p announcement kR = Done kR' \<and>
    trace (outer kR') = trace (outer kR) @ [StreamSend p OtherMessage told1, StreamSend p OtherMessage told2] \<and>
    FindConnectedParticipant (pi_participantName (pa_peerInfo a)) (pa_simulationName a) (userState (outer kR')) =
      Some \<lparr>cpPeer = p, cpInfo = pa_peerInfo a\<rparr> \<and>
    receive_blob envA r told1 kA = Done kA1 \<and> knownParticipantsPromise kA1 = Fulfilled infos \<and>
    map pi_participantName infos = map fst (participants_of (pa_simulationName a) (userState (outer kR))) \<and>
    receive_blob envA r told2 kA1 = Done kA2 \<and> registryHandshake (outer kA2) = Fulfilled () \<and>
    knownParticipantsPromise kA2 = Fulfilled infos \<and>
    (\<forall>s\<in>set (map snd (vasioReceivers (outer kR))). subscribed (outer kA2) r s)"
proof -
  obtain announcement where a: "framed_as TypeParticipantAnnouncement (0, 0) 0 (put_ParticipantAnnouncement a) announcement"
    and there: "\<forall>env (k :: registry vasio) p q. find_object (outer k) p = Some q \<longrightarrow>
       (\<exists>m. registryMessageHeader m = MakeRegistryMsgHeader V31 \<and>
          Deserialize get_ParticipantAnnouncement (message_SetProtocolVersion V31 m) = Inr a \<and>
          receive_blob env p announcement k = on_outer (ReceiveParticipantAnnouncement env p m) k)"
    using announcement_frame [OF assms(6,5,7), where ?'w = registry] by blast
  have "kp_messageHeader known = MakeRegistryMsgHeader V31" by (simp add: assms(10))
  from known_frame [OF assms(11) this assms(12), where ?'w = 'u]
  obtain told1 where told1: "framed_as TypeKnownParticipants (0, 0) 0 (put_KnownParticipants known) told1"
    and reads1: "\<forall>env (k :: 'u vasio) p q. find_object (outer k) p = Some q \<longrightarrow> peerVersion q \<noteq> (3, 0) \<longrightarrow>
       (\<exists>m. Deserialize get_KnownParticipants m = Inr known \<and> receive_blob env p told1 k = ReceiveKnownParticpants p m k)"
    by blast
  have "par_remoteHeader introduction = MakeRegistryMsgHeader V31" by (simp add: assms(13))
  from reply_frame [OF assms(14) this assms(15), where ?'w = 'u]
  obtain told2 where told2: "framed_as TypeParticipantAnnouncementReply (0, 0) 0 (put_ParticipantAnnouncementReply introduction) told2"
    and reads2: "\<forall>env (k :: 'u vasio) p q. find_object (outer k) p = Some q \<longrightarrow> peerVersion q \<noteq> (3, 0) \<longrightarrow>
       (\<exists>m. Deserialize get_ParticipantAnnouncementReply m = Inr introduction \<and>
          receive_blob env p told2 k = ReceiveParticipantAnnouncementReply env p m k)"
    by blast
  obtain m where m: "registryMessageHeader m = MakeRegistryMsgHeader V31"
    "Deserialize get_ParticipantAnnouncement (message_SetProtocolVersion V31 m) = Inr a"
    "receive_blob (registry_env env) p announcement kR = on_outer (ReceiveParticipantAnnouncement (registry_env env) p m) kR"
    using there assms(2) by blast
  have direct: "proxyOf q = None" using registry_invD(4) [OF assms(1,2)] .
  obtain c' where c': "ReceiveParticipantAnnouncement (registry_env env) p m (outer kR) = Done c'"
    "trace c' = trace (outer kR) @ [StreamSend p OtherMessage told1, StreamSend p OtherMessage told2]"
    "participants_of (pa_simulationName a) (userState c') =
      AList.update (pi_participantName (pa_peerInfo a)) \<lparr>cpPeer = p, cpInfo = pa_peerInfo a\<rparr>
        (participants_of (pa_simulationName a) (userState (outer kR)))"
    using registry_accepts [OF assms(2) direct m(1,2) assms(4,8,9) told1 [unfolded assms(10)] told2 [unfolded assms(13)],
        of "pa_simulationName a"] by auto
  obtain m1 where m1: "Deserialize get_KnownParticipants m1 = Inr known" "receive_blob envA r told1 kA = ReceiveKnownParticpants r m1 kA"
    using reads1 assms(16,17) by blast
  let ?kA1 = "kA\<lparr>outer := put_object r (qA\<lparr>peerVersion := V31\<rparr>) (outer kA), knownParticipantsPromise := Fulfilled infos\<rparr>"
  have kA1: "receive_blob envA r told1 kA = Done ?kA1"
    using told_who_is_there [OF m1(1) [unfolded assms(10)] assms(16,19)] m1(2) by simp
  have q1: "find_object (outer ?kA1) r = Some (qA\<lparr>peerVersion := V31\<rparr>)" "peerVersion (qA\<lparr>peerVersion := V31\<rparr>) \<noteq> (3, 0)"
    "no_history (outer ?kA1)" "registryHandshake (outer ?kA1) = Unset"
    using assms(20,21) by (simp_all add: put_object_def no_history_def)
  obtain m2 where m2: "Deserialize get_ParticipantAnnouncementReply m2 = Inr introduction"
    "receive_blob envA r told2 ?kA1 = ReceiveParticipantAnnouncementReply envA r m2 ?kA1"
    using reads2 q1(1,2) by blast
  obtain kA2 where kA2: "ReceiveParticipantAnnouncementReply envA r m2 ?kA1 = Done kA2"
    "registryHandshake (outer kA2) = Fulfilled ()" "knownParticipantsPromise kA2 = Fulfilled infos"
    "\<forall>s\<in>set (par_subscribers introduction). subscribed (outer kA2) r s"
    using told_welcome [OF m2(1) _ q1(1) _ q1(3,4), of envA] assms(13,18) by auto
  show ?thesis
    using a m(3) c' kA1 kA2 m2(2) known_infos_unregistered [OF assms(1,3,9)]
    by (intro exI [of _ announcement] exI [of _ "kR\<lparr>outer := c'\<rparr>"] exI [of _ told1] exI [of _ told2] exI [of _ ?kA1] exI [of _ kA2])
      (simp add: on_outer_def FindConnectedParticipant_def update_conv' assms(13))
qed

section \<open>A name that is taken\<close>

lemma registry_refuses:
  assumes "find_object c p = Some q" "proxyOf q = None" "registryMessageHeader m = MakeRegistryMsgHeader V31"
    and "Deserialize get_ParticipantAnnouncement (message_SetProtocolVersion V31 m) = Inr a" "allowAnySimulationName c"
    and "FindConnectedParticipant (pi_participantName (pa_peerInfo a)) (pa_simulationName a) (userState c) \<noteq> None"
    and "framed_as TypeParticipantAnnouncementReply (0, 0) 0 (put_ParticipantAnnouncementReply
      \<lparr>par_remoteHeader = MakeRegistryMsgHeader V31, par_status = reply_Failed, par_subscribers = [],
       par_diagnostic = errorText env SilKitError\<rparr>) blob"
  shows "\<exists>c'. ReceiveParticipantAnnouncement (registry_env env) p m c = Done c' \<and>
    trace c' = trace c @ [StreamSend p OtherMessage blob] \<and> userState c' = userState c \<and>
    participantNameToPeer c' = participantNameToPeer c \<and> find_object c' = (find_object c)(p \<mapsto> announced a q)"
proof -
  define c1 where "c1 = put_object p (announced a q) (put_object p (q\<lparr>peerVersion := V31\<rparr>) c)"
  have c1: "find_object c1 = (find_object c)(p \<mapsto> announced a q)" "userState c1 = userState c" "trace c1 = trace c"
    "participantNameToPeer c1 = participantNameToPeer c"
    by (auto simp: c1_def put_object_def)
  have "OnParticipantAnnouncement env p a c1 = Raised SilKitError c1"
    using assms(6) by (simp add: OnParticipantAnnouncement_def Let_def c1(2))
  then have "ReceiveParticipantAnnouncement (registry_env env) p m c = Done (emit (StreamSend p OtherMessage blob) c1)"
    using registry_reads_announcement [OF assms(1,3-5), of env] c1(1) assms(2,7)
    by (simp add: c1_def [symmetric] with_peer_def SendFailedParticipantAnnouncementReply_def send_reply_def send_direct)
  then show ?thesis using c1 by (simp add: emit_def)
qed

text \<open>
  A name that is taken is refused. When a participant announces a name that
  another one has in the same simulation, the registry answers with a failure and its lists
  stay as they are; the participant that was refused throws, and its wait for the registry
  ends with an error.
\<close>

theorem taken_names_are_refused:
  fixes kR :: "registry vasio" and kA :: "'u vasio"
  assumes "find_object (outer kR) p = Some q" "proxyOf q = None" "allowAnySimulationName (outer kR)"
    and "pa_messageHeader a = MakeRegistryMsgHeader V31" "ok_announcement a" "length (enc_announcement a) + 6 \<le> max_message_size"
    and "FindConnectedParticipant (pi_participantName (pa_peerInfo a)) (pa_simulationName a) (userState (outer kR)) \<noteq> None"
    and "length (errorText env SilKitError) < 1000"
    and "find_object (outer kA) r = Some qA" "peerVersion qA \<noteq> (3, 0)"
    and "pi_participantId (peerInfo qA) = REGISTRY_PARTICIPANT_ID" "registryHandshake (outer kA) = Unset"
  shows "\<exists>announcement kR' refusal kA'.
    framed_as TypeParticipantAnnouncement (0, 0) 0 (put_ParticipantAnnouncement a) announcement \<and>
    receive_blob (registry_env env) p announcement kR = Done kR' \<and>
    trace (outer kR') = trace (outer kR) @ [StreamSend p OtherMessage refusal] \<and>
    userState (outer kR') = userState (outer kR) \<and> participantNameToPeer (outer kR') = participantNameToPeer (outer kR) \<and>
    receive_blob envA r refusal kA = Raised ProtocolError kA' \<and>
    WaitForRegistryHandshakeToComplete False kA' = Some (Inl ProtocolError)"
proof -
  let ?r = "\<lparr>par_remoteHeader = MakeRegistryMsgHeader V31, par_status = reply_Failed, par_subscribers = [],
       par_diagnostic = errorText env SilKitError\<rparr>"
  obtain announcement where a: "framed_as TypeParticipantAnnouncement (0, 0) 0 (put_ParticipantAnnouncement a) announcement"
    and there: "\<forall>env (k :: registry vasio) p q. find_object (outer k) p = Some q \<longrightarrow>
       (\<exists>m. registryMessageHeader m = MakeRegistryMsgHeader V31 \<and>
          Deserialize get_ParticipantAnnouncement (message_SetProtocolVersion V31 m) = Inr a \<and>
          receive_blob env p announcement k = on_outer (ReceiveParticipantAnnouncement env p m) k)"
    using announcement_frame [OF assms(5,4,6), where ?'w = registry] by blast
  have "ok_reply ?r" using assms(8) by (simp add: ok_reply_def ok_vector_def ok_string_def max_size_def)
  moreover have "length (enc_reply V31 ?r) + 6 \<le> max_message_size"
    using assms(8) by (simp add: enc_reply_def max_message_size_def)
  ultimately obtain refusal where refusal: "framed_as TypeParticipantAnnouncementReply (0, 0) 0 (put_ParticipantAnnouncementReply ?r) refusal"
    and reads: "\<forall>env (k :: 'u vasio) p q. find_object (outer k) p = Some q \<longrightarrow> peerVersion q \<noteq> (3, 0) \<longrightarrow>
       (\<exists>m. Deserialize get_ParticipantAnnouncementReply m = Inr ?r \<and>
          receive_blob env p refusal k = ReceiveParticipantAnnouncementReply env p m k)"
    using reply_frame [of ?r, where ?'w = 'u] by auto
  obtain m where m: "registryMessageHeader m = MakeRegistryMsgHeader V31"
    "Deserialize get_ParticipantAnnouncement (message_SetProtocolVersion V31 m) = Inr a"
    "receive_blob (registry_env env) p announcement kR = on_outer (ReceiveParticipantAnnouncement (registry_env env) p m) kR"
    using there assms(1) by blast
  obtain c' where c': "ReceiveParticipantAnnouncement (registry_env env) p m (outer kR) = Done c'"
    "trace c' = trace (outer kR) @ [StreamSend p OtherMessage refusal]" "userState c' = userState (outer kR)"
    "participantNameToPeer c' = participantNameToPeer (outer kR)"
    using registry_refuses [OF assms(1,2) m(1,2) assms(3,7) refusal] by blast
  obtain m' where m': "Deserialize get_ParticipantAnnouncementReply m' = Inr ?r"
    "receive_blob envA r refusal kA = ReceiveParticipantAnnouncementReply envA r m' kA"
    using reads assms(9,10) by blast
  let ?kA' = "kA\<lparr>outer := (outer kA)\<lparr>registryHandshake := Broken ProtocolError\<rparr>\<rparr>"
  have "receive_blob envA r refusal kA = Raised ProtocolError ?kA'"
    using m' assms(9,11,12)
    by (simp add: ReceiveParticipantAnnouncementReply_def Let_def on_outer_def fail_registry_handshake_def set_exception_def)
  then show ?thesis
    using a m(3) c'
    by (intro exI [of _ announcement] exI [of _ "kR\<lparr>outer := c'\<rparr>"] exI [of _ refusal] exI [of _ ?kA'])
      (simp add: on_outer_def WaitForRegistryHandshakeToComplete_def future_wait_for_def)
qed

section \<open>Who is there\<close>

text \<open>
  Claim C23. A name stays with the participant that has it. In any run of the registry, once
  a participant is listed under a name it remains listed with its own peer and its own
  information until the stream of that peer closes, whoever else announces the same name,
  connects, leaves or is refused meanwhile (the participant itself may even announce itself
  again); and all the time everybody else that asks for the participants of the simulation
  is told of it.
\<close>

theorem names_stay_with_their_owners:
  assumes "(registry_moves env)\<^sup>*\<^sup>* (outer (new_registry_connection caps v (new_registry l h))) c"
    and "FindConnectedParticipant n sim (userState c) = Some cp" "(moves_with env (cpPeer cp))\<^sup>*\<^sup>* c c'"
  shows "FindConnectedParticipant n sim (userState c') = Some cp \<and>
    (\<forall>make_address p q infos. p \<noteq> cpPeer cp \<and>
       known_infos make_address c' p q (participants_of sim (userState c')) = Inr infos \<longrightarrow>
       n \<in> pi_participantName ` set infos)"
proof -
  have "registry_names c" using registry_moves_names [OF assms(1) new_registry_names] .
  moreover have "listed_as n sim cp c" using assms(2) by (simp add: listed_as_def FindConnectedParticipant_def)
  ultimately have names: "registry_names c'" "map_of (participants_of sim (userState c')) n = Some cp"
    using moves_with_names [OF assms(3)] by (simp_all add: listed_as_def)
  have "n \<in> pi_participantName ` set infos"
    if "p \<noteq> cpPeer cp" "known_infos make_address c' p q (participants_of sim (userState c')) = Inr infos"
    for make_address p q infos
  proof -
    have "map pi_participantName infos = map fst (filter (\<lambda>(n, cp). cpPeer cp \<noteq> p) (participants_of sim (userState c')))"
      using known_infos_names [OF that(2) registry_namesD(4) [OF names(1)]] .
    moreover have "(n, cp) \<in> set (participants_of sim (userState c'))" using names(2) by (rule map_of_SomeD)
    then have "n \<in> set (map fst (filter (\<lambda>(n, cp). cpPeer cp \<noteq> p) (participants_of sim (userState c'))))"
      using that(1) by force
    ultimately show ?thesis by (metis list.set_map)
  qed
  then show ?thesis using names(2) unfolding FindConnectedParticipant_def by blast
qed

text \<open>
  As long as no registered participant announces itself again, whoever the registry lists is
  there: it has a peer that is connected, that carries the information that is handed out,
  and that is not registered under any other name.
\<close>

theorem registry_knows_who_is_there:
  assumes "(orderly_moves env)\<^sup>*\<^sup>* (outer (new_registry_connection caps v (new_registry l h))) c"
  shows "distinct (map fst (participants_of sim (userState c))) \<and>
    (\<forall>(n, cp)\<in>set (participants_of sim (userState c)).
       pi_participantName (cpInfo cp) = n \<and> map_option peerInfo (find_object c (cpPeer cp)) = Some (cpInfo cp) \<and>
       (\<forall>sim'. \<forall>(n', cp')\<in>set (participants_of sim' (userState c)). cpPeer cp' = cpPeer cp \<longrightarrow> sim' = sim \<and> n' = n))"
proof -
  have inv: "registry_inv c" using registry_steps_inv [OF assms new_registry_inv] .
  have there: "pi_participantName (cpInfo cp) = n \<and> map_option peerInfo (find_object c (cpPeer cp)) = Some (cpInfo cp) \<and>
      (\<forall>sim'. \<forall>(n', cp')\<in>set (participants_of sim' (userState c)). cpPeer cp' = cpPeer cp \<longrightarrow> sim' = sim \<and> n' = n)"
    if "(n, cp) \<in> set (participants_of sim (userState c))" for n cp
    using registry_invD(6) [OF inv that] registry_invD(6) [OF inv] by (fastforce simp: known_member_def)
  show ?thesis
    using registry_invD(5) [OF inv] there by blast
qed

section \<open>A peer that leaves\<close>

text \<open>Nothing that a shutdown looks at is dangling, and nothing waits for the peer.\<close>

definition links_alive :: "'u connection \<Rightarrow> bool" where
  "links_alive c \<longleftrightarrow> (\<forall>(k, lo)\<in>set (links c). \<exists>l. lo = Some l \<and>
     (\<forall>r\<in>set (remoteReceivers l). find_object c (receiverPeer r) \<noteq> None))"

definition not_awaited :: "nat \<Rightarrow> 'u connection \<Rightarrow> bool" where
  "not_awaited p c \<longleftrightarrow> (\<forall>a\<in>set (pendingAcks c) \<union> set (pendingAsyncAcks c). fst a \<noteq> p)"

lemma scan_alive: "(\<forall>r\<in>set rs. find_object c (receiverPeer r) \<noteq> None) \<Longrightarrow> \<not> scan_dangles c found rs"
  by (induction rs) (auto split: option.split)

lemma not_awaited_settles: "not_awaited p c \<Longrightarrow> RemovePeerFromPendingAcknowledges p c = Done c"
  by (simp add: not_awaited_def RemovePeerFromPendingAcknowledges_def settle_sync_def settle_async_def filter_True)

lemma shutdown_returns:
  assumes "registry_inv c" "find_object c p = Some q" "\<not> shuttingDown c" "links_alive c" "not_awaited p c"
    and "map_of (proxySourceToDestinations c) (peerSimulation q, pi_participantName (peerInfo q)) = None"
  shows "\<exists>c'. OnPeerShutdown (registry_env env) p c = Done c' \<and> userState c' = userState (forget p q c) \<and>
    participantNameToPeer c' =
      AList.delete (peerSimulation q, pi_participantName (peerInfo q)) (participantNameToPeer c) \<and>
    trace c' = trace c \<and> find_object c' = (if p \<in> set (peers c) then (find_object c)(p := None) else find_object c)"
proof -
  let ?f = "forget p q c"
  let ?c3 = "?f\<lparr>links := map (map_prod id (map_option (RemoveRemoteReceiver (peer_info ?f) p))) (links ?f)\<rparr>"
  let ?c4 = "let c = ?c3\<lparr>participantNameToPeer :=
      AList.delete (peerSimulation q, pi_participantName (peerInfo q)) (participantNameToPeer ?c3)\<rparr>
    in if p \<in> set (peers c) then c\<lparr>peers := remove1 p (peers c), peerObjects := AList.delete p (peerObjects c)\<rparr> else c"
  have told: "SendProxyPeerShutdownNotification p c = Done c"
    using assms(2,6) by (simp add: SendProxyPeerShutdownNotification_def with_peer_def Let_def)
  have called: "call_shutdown_callbacks (peerShutdownCallbacks (registry_env env)) p q c = Done ?f"
    using registry_OnPeerShutdown_total [of p q "userState c"] by (auto simp: registry_env_def forget_def)
  have f: "links ?f = links c" "peers ?f = peers c" "participantNameToPeer ?f = participantNameToPeer c"
    "trace ?f = trace c" "pendingAcks ?f = pendingAcks c" "pendingAsyncAcks ?f = pendingAsyncAcks c"
    by (simp_all add: forget_def)
  have dangling: "scan_dangles ?f found rs = scan_dangles c found rs" for found rs
    by (induction rs) (simp_all split: option.split)
  have "\<not> list_ex (\<lambda>(k, l). case l of None \<Rightarrow> True | Some l \<Rightarrow>
            scan_dangles ?f (\<lambda>info. pi_participantId info = pi_participantId (peerInfo q)) (remoteReceivers l)) (links ?f)"
  proof
    assume "list_ex (\<lambda>(k, l). case l of None \<Rightarrow> True | Some l \<Rightarrow>
            scan_dangles ?f (\<lambda>info. pi_participantId info = pi_participantId (peerInfo q)) (remoteReceivers l)) (links ?f)"
    then obtain k lo where lo: "(k, lo) \<in> set (links c)" "case lo of None \<Rightarrow> True | Some l \<Rightarrow>
        scan_dangles c (\<lambda>info. pi_participantId info = pi_participantId (peerInfo q)) (remoteReceivers l)"
      using f(1) by (auto simp: list_ex_iff dangling)
    then obtain l where "lo = Some l" "\<forall>r\<in>set (remoteReceivers l). find_object c (receiverPeer r) \<noteq> None"
      using assms(4) unfolding links_alive_def by fast
    then show False using lo(2) scan_alive by auto
  qed
  then have unlinked: "RemovePeerFromLinks p ?f = Done ?c3"
    using assms(2) by (simp add: RemovePeerFromLinks_def with_peer_def)
  have removed: "RemovePeerFromConnection p ?c3 = Done ?c4"
    using assms(2) by (simp add: RemovePeerFromConnection_def with_peer_def Let_def)
  have "not_awaited p ?c4" using assms(5) f by (simp add: not_awaited_def Let_def)
  then have "finish_shutdown (registry_env env) p c = Done ?c4"
    using not_awaited_settles assms(2) by (simp only: finish_shutdown_def with_peer_def option.case told called unlinked
        removed bind_outcome.simps)
  then have "OnPeerShutdown (registry_env env) p c = Done ?c4"
    using assms(3) registry_invD(3) [OF assms(1)] by (simp add: OnPeerShutdown_def shutdown_run.simps)
  moreover have "userState ?c4 = userState ?f" "trace ?c4 = trace c" "participantNameToPeer ?c4 =
      AList.delete (peerSimulation q, pi_participantName (peerInfo q)) (participantNameToPeer c)"
    "find_object ?c4 = (if p \<in> set (peers c) then (find_object c)(p := None) else find_object c)"
    using f by (simp_all add: Let_def delete_conv' fun_upd_def)
  ultimately show ?thesis by blast
qed

text \<open>
  A participant that leaves is forgotten. When its stream closes, the shutdown of
  its peer returns; the name is free again, the others stay registered, the listener of the
  registry is told, and nobody that asks later is introduced to it.
\<close>

theorem departed_participants_are_forgotten:
  assumes "registry_inv c" "find_object c p = Some q" "\<not> shuttingDown c" "links_alive c" "not_awaited p c"
    and "map_of (proxySourceToDestinations c) (peerSimulation q, pi_participantName (peerInfo q)) = None"
    and "registered_peer p c" "sim = peerSimulation q" "name = pi_participantName (peerInfo q)"
  shows "\<exists>c'. OnPeerShutdown (registry_env env) p c = Done c' \<and>
    FindConnectedParticipant name sim (userState c') = None \<and> FindPeerByName sim name c' = None \<and>
    (\<forall>sim' name'. (sim', name') \<noteq> (sim, name) \<longrightarrow>
       FindConnectedParticipant name' sim' (userState c') = FindConnectedParticipant name' sim' (userState c)) \<and>
    (hasEventListener (userState c) \<longrightarrow> OnParticipantDisconnected sim name \<in> set (registryEvents (userState c'))) \<and>
    (\<forall>make_address p' q' infos. known_infos make_address c' p' q' (participants_of sim (userState c')) = Inr infos \<longrightarrow>
       name \<notin> pi_participantName ` set infos)"
proof -
  obtain c' where c': "OnPeerShutdown (registry_env env) p c = Done c'" "userState c' = userState (forget p q c)"
    "participantNameToPeer c' = AList.delete (sim, name) (participantNameToPeer c)"
    using shutdown_returns [OF assms(1-6), of env] assms(8,9) by auto
  obtain sim1 n1 cp where cp: "(n1, cp) \<in> set (participants_of sim1 (userState c))" "cpPeer cp = p"
    using assms(7) by (auto simp: registered_peer_def)
  have "known_member (peerObjects c) sim1 n1 cp" using registry_invD(6) [OF assms(1) cp(1)] .
  then have q: "sim1 = sim" "n1 = name" using assms(2,8,9) cp(2) by (auto simp: known_member_def)
  then have found: "FindConnectedParticipant name sim (userState c) = Some cp"
    using cp(1) registry_invD(5) [OF assms(1)] by (simp add: FindConnectedParticipant_def)
  have rest: "participants_of sim' (userState c') =
      (if sim' = sim then AList.delete name (participants_of sim' (userState c)) else participants_of sim' (userState c))" for sim'
    using found cp(2) by (simp add: c'(2) participants_of_forget assms(8,9))
  have told: "hasEventListener (userState c) \<longrightarrow> OnParticipantDisconnected sim name \<in> set (registryEvents (userState c'))"
    using found cp(2) by (simp add: c'(2) forget_def registry_OnPeerShutdown_def Let_def tell_listener_def assms(8,9) set_participants_def)
  have "pi_participantName ` set infos \<subseteq> fst ` set (participants_of sim (userState c'))"
    if "known_infos make_address c' p' q' (participants_of sim (userState c')) = Inr infos" for make_address p' q' infos
  proof -
    have "registry_inv (forget p q c)" by (rule forget_inv [OF assms(1)])
    then have "\<forall>(n, cp)\<in>set (participants_of sim (userState c')). pi_participantName (cpInfo cp) = n"
      using registry_invD(6) by (force simp: c'(2) known_member_def)
    from known_infos_names [OF that this] have "pi_participantName ` set infos =
        fst ` set (filter (\<lambda>(n, cp). cpPeer cp \<noteq> p') (participants_of sim (userState c')))"
      by (metis list.set_map)
    then show ?thesis by auto
  qed
  moreover have "name \<notin> fst ` set (participants_of sim (userState c'))"
    by (auto simp: rest AList.delete_eq)
  ultimately have unknown: "\<forall>make_address p' q' infos. known_infos make_address c' p' q' (participants_of sim (userState c')) =
      Inr infos \<longrightarrow> name \<notin> pi_participantName ` set infos" by blast
  have "FindConnectedParticipant name' sim' (userState c') =
      (if (sim', name') = (sim, name) then None else FindConnectedParticipant name' sim' (userState c))" for sim' name'
    by (auto simp: FindConnectedParticipant_def rest delete_conv')
  moreover have "FindPeerByName sim name c' = None" by (simp add: FindPeerByName_def c'(3) delete_conv')
  ultimately show ?thesis
    using c'(1) told unknown by (intro exI [of _ c']) simp
qed

text \<open>
  Claim C27. A refused duplicate takes the name of the participant that has it. When the
  stream of a participant that was refused closes, its name is erased from the names of the
  connection, whoever it belongs to: the first participant stays registered, but requests to
  connect to it, which the registry should pass on, are dropped.
\<close>

theorem refused_duplicate_erases_the_name:
  assumes "registry_inv c" "find_object c p = Some q" "\<not> shuttingDown c" "links_alive c" "not_awaited p c"
    and "map_of (proxySourceToDestinations c) (peerSimulation q, pi_participantName (peerInfo q)) = None"
    and "FindConnectedParticipant name sim (userState c) = Some cp" "cpPeer cp \<noteq> p"
    and "sim = peerSimulation q" "name = pi_participantName (peerInfo q)"
    and "find_object c origin = Some qo" "origin \<noteq> p" "peerSimulation qo = sim"
    and "rq_status request = request_REQUEST" "pi_participantName (rq_requestTarget request) = name"
  shows "\<exists>c'. OnPeerShutdown (registry_env env) p c = Done c' \<and>
    FindConnectedParticipant name sim (userState c') = Some cp \<and> FindPeerByName sim name c' = None \<and>
    ReceiveRequest_Registry (registry_env env) origin request c' = Done c'"
proof -
  obtain c' where c': "OnPeerShutdown (registry_env env) p c = Done c'" "userState c' = userState (forget p q c)"
    "participantNameToPeer c' = AList.delete (sim, name) (participantNameToPeer c)"
    "find_object c' = (if p \<in> set (peers c) then (find_object c)(p := None) else find_object c)"
    using shutdown_returns [OF assms(1-6), of env] assms(9,10) by auto
  have "FindPeerByName sim name c' = None" by (simp add: FindPeerByName_def c'(3) delete_conv')
  moreover have "find_object c' origin = Some qo" using assms(11,12) by (simp add: c'(4))
  moreover have "FindConnectedParticipant name sim (userState c') = Some cp"
    using assms(7,8) by (simp add: c'(2) participants_of_forget FindConnectedParticipant_def assms(10))
  ultimately show ?thesis
    using c'(1) assms(13-15) by (simp add: ReceiveRequest_Registry_def with_peer_def)
qed

section \<open>An example\<close>

definition example_registry_env :: "registry environment" where
  "example_registry_env =
     \<lparr>announcementReceivers = [], peerShutdownCallbacks = [], synchronizing = (\<lambda>_. False), currentTime = (\<lambda>_. 0),
      memoryBehind = [], uninitializedId = 1, uninitializedVersion = (0, 0), streamAddresses = (\<lambda>_. (''local:///R'', ''local:///P'')),
      parseCapabilities = (\<lambda>_. None), makeAddress = (\<lambda>_. None), errorText = (\<lambda>_. ''taken'')\<rparr>"

definition example_member :: "vasio_peer_info \<Rightarrow> string \<Rightarrow> vasio_peer" where
  "example_member info sim =
     \<lparr>peerInfo = info, peerVersion = V31, peerSimulation = sim, peerDescriptor = default_descriptor, proxyOf = None,
      localAddress = ''local:///R'', remoteAddress = ''local:///P''\<rparr>"

text \<open>A and C are there, the second A was refused, and somebody has connected.\<close>

definition example_members :: "registry connection" where
  "example_members = (new_connection ''SilKitRegistry'' 0 [RequestParticipantConnection] V31
       ((new_registry True False)\<lparr>connectedParticipants := [(''s'',
         [(''A'', \<lparr>cpPeer = 0, cpInfo = peer_example ''A'' 7\<rparr>), (''C'', \<lparr>cpPeer = 1, cpInfo = peer_example ''C'' 8\<rparr>)])]\<rparr>))
     \<lparr>peerObjects := [(0, example_member (peer_example ''A'' 7) ''s''), (1, example_member (peer_example ''C'' 8) ''s''),
        (2, example_member (peer_example ''A'' 7) ''s''), (3, example_member no_peer_info [])],
      nextPeer := 4, peers := [0, 1, 2, 3], participantNameToPeer := [((''s'', ''A''), 0), ((''s'', ''C''), 1)]\<rparr>"

lemma example_participants:
  "participants_of sim (userState example_members) = (if sim = ''s'' then
     [(''A'', \<lparr>cpPeer = 0, cpInfo = peer_example ''A'' 7\<rparr>), (''C'', \<lparr>cpPeer = 1, cpInfo = peer_example ''C'' 8\<rparr>)] else [])"
  by (simp add: example_members_def new_connection_def participants_of_def)

lemma example_objects:
  "peerObjects example_members = [(0, example_member (peer_example ''A'' 7) ''s''), (1, example_member (peer_example ''C'' 8) ''s''),
        (2, example_member (peer_example ''A'' 7) ''s''), (3, example_member no_peer_info [])]"
  by (simp add: example_members_def)

lemma example_member_sel [simp]:
  "peerInfo (example_member info sim) = info" "peerSimulation (example_member info sim) = sim"
  "proxyOf (example_member info sim) = None" "peerVersion (example_member info sim) = V31"
  "localAddress (example_member info sim) = ''local:///R''" "remoteAddress (example_member info sim) = ''local:///P''"
  by (simp_all add: example_member_def)

lemma example_members_inv: "registry_inv example_members"
proof -
  have "nextPeer example_members = 4" "peerToProxyPeers example_members = []"
    by (simp_all add: example_members_def new_connection_def)
  then show ?thesis
    by (simp add: registry_inv_def registry_view_def example_participants example_objects known_member_def)
qed

lemma example_members_sel:
  "\<not> shuttingDown example_members" "links_alive example_members" "not_awaited p example_members"
  "proxySourceToDestinations example_members = []" "allowAnySimulationName example_members"
  "vasioReceivers example_members = []" "hasEventListener (userState example_members)"
  by (simp_all add: example_members_def new_connection_def links_alive_def not_awaited_def new_registry_def)

lemma registered_peerI: "(n, cp) \<in> set (participants_of sim (userState c)) \<Longrightarrow> registered_peer (cpPeer cp) c"
  by (auto simp: registered_peer_def)

lemma example_registered: "registered_peer 0 example_members" "\<not> registered_peer 3 example_members"
proof -
  have "(''A'', \<lparr>cpPeer = 0, cpInfo = peer_example ''A'' 7\<rparr>) \<in> set (participants_of ''s'' (userState example_members))"
    by (simp add: example_participants)
  from registered_peerI [OF this] show "registered_peer 0 example_members" by simp
  show "\<not> registered_peer 3 example_members" by (auto simp: registered_peer_def example_participants split: if_splits)
qed

definition example_registry_node :: "registry vasio" where
  "example_registry_node = new_connect_known example_members"

text \<open>A participant that has a connection to the registry.\<close>

definition example_newcomer :: "unit vasio" where
  "example_newcomer = new_connect_known ((new_connection ''B'' 9 [] V31 ())\<lparr>nextPeer := 1, registryPeer := Some 0,
     peerObjects := [(0, example_member example_registry [])]\<rparr>)"

lemma example_newcomer_sel:
  "find_object (outer example_newcomer) 0 = Some (example_member example_registry [])"
  "pi_participantId (peerInfo (example_member example_registry [])) = REGISTRY_PARTICIPANT_ID"
  "knownParticipantsPromise example_newcomer = Unset" "registryHandshake (outer example_newcomer) = Unset"
  "no_history (outer example_newcomer)"
  by (simp_all add: example_newcomer_def new_connect_known_def new_connection_def example_registry_def no_history_def)

lemma example_node_sel: "outer example_registry_node = example_members"
  by (simp add: example_registry_node_def new_connect_known_def)

abbreviation example_announcement :: "string \<Rightarrow> participant_announcement" where
  "example_announcement name \<equiv> \<lparr>pa_messageHeader = MakeRegistryMsgHeader V31, pa_peerInfo = peer_example name 7,
     pa_simulationName = ''s''\<rparr>"

lemma example_announcement_ok:
  "length name < 1000 \<Longrightarrow> ok_announcement (example_announcement name)"
  "length name < 1000 \<Longrightarrow> length (enc_announcement (example_announcement name)) + 6 \<le> max_message_size"
  by (simp_all add: ok_announcement_def ok_peer_example ok_string_def max_size_def enc_announcement_def max_message_size_def)

lemma example_transform:
  "TransformAcceptorUris (\<lambda>_. None) ''local:///P'' ''local:///R'' [''local:///A''] = Inr [''local:///A'']"
  "TransformAcceptorUris (\<lambda>_. None) ''local:///P'' ''local:///R'' [''local:///C''] = Inr [''local:///C'']"
  by (simp_all add: TransformAcceptorUris_def Parse_def scheme_type_def transform_one_def emplace_uri_def Let_def GetUriInfo_def no_uri_info_def)

lemma example_known:
  "known_infos (makeAddress example_registry_env) example_members 3 (example_member no_peer_info [])
     (participants_of ''s'' (userState example_members)) = Inr [peer_example ''A'' 7, peer_example ''C'' 8]"
  by (simp add: example_participants example_objects example_registry_env_def example_transform)

theorem registry_introduces_newcomers_witness:
  "\<exists>announcement kR' told1 told2 kA1 kA2.
    receive_blob (registry_env example_registry_env) 3 announcement example_registry_node = Done kR' \<and>
    receive_blob example_env 0 told1 example_newcomer = Done kA1 \<and>
    knownParticipantsPromise kA1 = Fulfilled [peer_example ''A'' 7, peer_example ''C'' 8] \<and>
    receive_blob example_env 0 told2 kA1 = Done kA2 \<and> registryHandshake (outer kA2) = Fulfilled ()"
proof -
  let ?known = "\<lparr>kp_messageHeader = MakeRegistryMsgHeader V31, kp_peerInfos = [peer_example ''A'' 7, peer_example ''C'' 8]\<rparr>"
  let ?introduction = "\<lparr>par_remoteHeader = MakeRegistryMsgHeader V31, par_status = reply_Success,
      par_subscribers = map snd (vasioReceivers (outer example_registry_node)), par_diagnostic = []\<rparr>"
  have ok: "ok_known ?known" "length (enc_known V31 ?known) + 6 \<le> max_message_size"
    "ok_reply ?introduction" "length (enc_reply V31 ?introduction) + 6 \<le> max_message_size"
    by (simp_all add: ok_known_def ok_vector_def ok_peer_example max_size_def enc_known_def max_message_size_def
        ok_reply_def ok_string_def enc_reply_def example_node_sel example_members_sel)
  have at: "find_object (outer example_registry_node) 3 = Some (example_member no_peer_info [])"
    "registry_inv (outer example_registry_node)" "\<not> registered_peer 3 (outer example_registry_node)"
    "allowAnySimulationName (outer example_registry_node)"
    "FindConnectedParticipant (pi_participantName (pa_peerInfo (example_announcement ''B'')))
      (pa_simulationName (example_announcement ''B'')) (userState (outer example_registry_node)) = None"
    by (simp_all add: example_node_sel example_objects example_members_inv example_registered example_members_sel
        FindConnectedParticipant_def example_participants)
  have known: "known_infos (makeAddress example_registry_env) (outer example_registry_node) 3 (example_member no_peer_info [])
      (participants_of (pa_simulationName (example_announcement ''B'')) (userState (outer example_registry_node))) =
      Inr [peer_example ''A'' 7, peer_example ''C'' 8]"
    by (simp add: example_node_sel example_known)
  have v: "peerVersion (example_member example_registry []) \<noteq> (3, 0)"
    by (simp add: CurrentProtocolVersion_def)
  have "length ''B'' < 1000" by simp
  note ok_a = example_announcement_ok [OF this]
  show ?thesis
    using registry_introduces_newcomers [OF at(2,1,3,4) _ ok_a at(5) known refl ok(1,2) refl ok(3,4)
        example_newcomer_sel(1) v example_newcomer_sel(2-5), of example_env] by fastforce
qed

theorem taken_names_are_refused_witness:
  "\<exists>announcement kR' refusal kA'.
    receive_blob (registry_env example_registry_env) 3 announcement example_registry_node = Done kR' \<and>
    userState (outer kR') = userState example_members \<and>
    receive_blob example_env 0 refusal example_newcomer = Raised ProtocolError kA' \<and>
    WaitForRegistryHandshakeToComplete False kA' = Some (Inl ProtocolError)"
proof -
  have at: "find_object (outer example_registry_node) 3 = Some (example_member no_peer_info [])"
    "proxyOf (example_member no_peer_info []) = None" "allowAnySimulationName (outer example_registry_node)"
    "FindConnectedParticipant (pi_participantName (pa_peerInfo (example_announcement ''A'')))
      (pa_simulationName (example_announcement ''A'')) (userState (outer example_registry_node)) \<noteq> None"
    "length (errorText example_registry_env SilKitError) < 1000"
    by (simp_all add: example_node_sel example_objects example_members_sel FindConnectedParticipant_def
        example_participants example_registry_env_def)
  have v: "peerVersion (example_member example_registry []) \<noteq> (3, 0)"
    by (simp add: CurrentProtocolVersion_def)
  have "length ''A'' < 1000" by simp
  note ok_a = example_announcement_ok [OF this]
  show ?thesis
    using taken_names_are_refused [OF at(1-3) _ ok_a at(4,5) example_newcomer_sel(1) v example_newcomer_sel(2,4), of example_env]
    unfolding example_node_sel by fastforce
qed

theorem departed_participants_are_forgotten_witness:
  "\<exists>c'. OnPeerShutdown (registry_env example_registry_env) 0 example_members = Done c' \<and>
    FindConnectedParticipant ''A'' ''s'' (userState c') = None \<and>
    map_option cpPeer (FindConnectedParticipant ''C'' ''s'' (userState c')) = Some 1"
proof -
  have at: "find_object example_members 0 = Some (example_member (peer_example ''A'' 7) ''s'')"
    by (simp add: example_objects)
  show ?thesis
    using departed_participants_are_forgotten [OF example_members_inv at example_members_sel(1-3) _ _ refl refl, of example_registry_env]
    by (auto simp: example_members_sel example_registered) (auto simp: FindConnectedParticipant_def example_participants)
qed

theorem refused_duplicate_erases_the_name_witness:
  "\<exists>c'. OnPeerShutdown (registry_env example_registry_env) 2 example_members = Done c' \<and>
    map_option cpPeer (FindConnectedParticipant ''A'' ''s'' (userState c')) = Some 0 \<and> FindPeerByName ''s'' ''A'' c' = None"
proof -
  have at: "find_object example_members 2 = Some (example_member (peer_example ''A'' 7) ''s'')"
    "find_object example_members 1 = Some (example_member (peer_example ''C'' 8) ''s'')"
    "FindConnectedParticipant ''A'' ''s'' (userState example_members) = Some \<lparr>cpPeer = 0, cpInfo = peer_example ''A'' 7\<rparr>"
    by (simp_all add: example_objects FindConnectedParticipant_def example_participants)
  let ?request = "\<lparr>rq_messageHeader = MakeRegistryMsgHeader V31, rq_requestOrigin = peer_example ''C'' 8,
      rq_requestTarget = peer_example ''A'' 7, rq_status = request_REQUEST\<rparr>"
  show ?thesis
    using refused_duplicate_erases_the_name [OF example_members_inv at(1) example_members_sel(1-3) _ at(3) _ _ _ at(2),
        of ?request example_registry_env]
    by (auto simp: example_members_sel)
qed

text \<open>
  A run: two connect and the first announces itself as A; then the second announces the same
  name and is refused.
\<close>

lemma example_reaches_A:
  "\<exists>c c'. (orderly_moves example_registry_env)\<^sup>*\<^sup>* (outer (new_registry_connection [] V31 (new_registry True False))) c \<and>
    participants_of ''s'' (userState c) = [(''A'', \<lparr>cpPeer = 0, cpInfo = peer_example ''A'' 7\<rparr>)] \<and>
    registry_step example_registry_env (AnnouncementOf 1) c c'"
proof -
  let ?c0 = "outer (new_registry_connection [] V31 (new_registry True False))"
  let ?env = "registry_env example_registry_env"
  let ?a = "example_announcement ''A''"
  define q where "q = \<lparr>peerInfo = \<lparr>pi_participantName = [], pi_participantId = 1, pi_acceptorUris = [], pi_capabilities = []\<rparr>,
      peerVersion = (0, 0), peerSimulation = [], peerDescriptor = default_descriptor, proxyOf = None,
      localAddress = ''local:///R'', remoteAddress = ''local:///P''\<rparr>"
  define cb where "cb = ?c0\<lparr>peerObjects := [(0, q)], nextPeer := 1, trace := [StreamStartRead 0], peers := [0]\<rparr>"
  define c1 where "c1 = ?c0\<lparr>peerObjects := [(0, q), (1, q)], nextPeer := 2,
      trace := [StreamStartRead 0, StreamStartRead 1], peers := [0, 1]\<rparr>"
  note accepting = OnAsyncAcceptSuccess_def MakeVAsioPeer_def new_peer_object_def new_registry_connection_def
    new_vasio_def new_connect_known_def new_connection_def AddPeer_def with_peer_def registry_env_def
    example_registry_env_def emit_def Let_def
  have "OnAsyncAcceptSuccess ?env ?c0 = Done cb" "OnAsyncAcceptSuccess ?env cb = Done c1"
    by (simp_all add: accepting c1_def cb_def q_def)
  then have "registry_step example_registry_env OtherStep ?c0 cb" "registry_step example_registry_env OtherStep cb c1"
    by (auto intro: accepted)
  then have "orderly_moves example_registry_env ?c0 cb" "orderly_moves example_registry_env cb c1"
    by (auto simp: orderly_moves_def)
  then have step1: "(orderly_moves example_registry_env)\<^sup>*\<^sup>* ?c0 c1"
    by (meson converse_rtranclp_into_rtranclp r_into_rtranclp)
  have c1: "find_object c1 0 = Some q" "find_object c1 1 = Some q" "\<not> registered_peer 0 c1" "allowAnySimulationName c1" "proxyOf q = None"
    "FindConnectedParticipant ''A'' ''s'' (userState c1) = None" "participants_of ''s'' (userState c1) = []" "vasioReceivers c1 = []"
    by (simp_all add: c1_def registered_peer_def new_registry_connection_def new_vasio_def new_connect_known_def
        new_connection_def participants_of_def new_registry_def FindConnectedParticipant_def q_def)
  have "length ''A'' < 1000" by simp
  note ok_a = example_announcement_ok [OF this]
  obtain blob m where m: "registryMessageHeader m = MakeRegistryMsgHeader V31"
    "Deserialize get_ParticipantAnnouncement (message_SetProtocolVersion V31 m) = Inr ?a"
    using announcement_frame [OF ok_a(1) _ ok_a(2), where ?'w = registry] c1(1)
    by simp (metis new_connect_known_def connect_known.select_convs(4))
  let ?known = "\<lparr>kp_messageHeader = MakeRegistryMsgHeader V31, kp_peerInfos = []\<rparr>"
  let ?introduction = "\<lparr>par_remoteHeader = MakeRegistryMsgHeader V31, par_status = reply_Success,
      par_subscribers = map snd (vasioReceivers c1), par_diagnostic = []\<rparr>"
  have "ok_known ?known" "length (enc_known V31 ?known) + 6 \<le> max_message_size"
    "ok_reply ?introduction" "length (enc_reply V31 ?introduction) + 6 \<le> max_message_size"
    by (simp_all add: ok_known_def ok_vector_def max_size_def enc_known_def max_message_size_def
        ok_reply_def ok_string_def enc_reply_def c1(8))
  then obtain b1 b2 where frames: "framed_as TypeKnownParticipants (0, 0) 0 (put_KnownParticipants ?known) b1"
    "framed_as TypeParticipantAnnouncementReply (0, 0) 0 (put_ParticipantAnnouncementReply ?introduction) b2"
    using known_frame [of ?known] reply_frame [of ?introduction] by auto
  obtain c2 where c2: "ReceiveParticipantAnnouncement ?env 0 m c1 = Done c2" "allowAnySimulationName c2"
    "find_object c2 1 = Some q" "participants_of ''s'' (userState c2) = [(''A'', \<lparr>cpPeer = 0, cpInfo = peer_example ''A'' 7\<rparr>)]"
    using registry_accepts [OF c1(1,5) m c1(4) _ _ frames, of example_registry_env "''s''"] c1(2,4,6,7) by auto
  have "registry_step example_registry_env (AnnouncementOf 0) c1 c2"
    by (rule announces [OF c1(1), where m = m]) (simp add: c2(1))
  then have "orderly_moves example_registry_env c1 c2" using c1(3) by (auto simp: orderly_moves_def)
  with step1 have run: "(orderly_moves example_registry_env)\<^sup>*\<^sup>* ?c0 c2" by (rule rtranclp.rtrancl_into_rtrancl)
  let ?refusal = "\<lparr>par_remoteHeader = MakeRegistryMsgHeader V31, par_status = reply_Failed, par_subscribers = [],
      par_diagnostic = errorText example_registry_env SilKitError\<rparr>"
  have "ok_reply ?refusal" "length (enc_reply V31 ?refusal) + 6 \<le> max_message_size"
    by (simp_all add: ok_reply_def ok_vector_def ok_string_def max_size_def enc_reply_def max_message_size_def
        example_registry_env_def)
  then obtain b3 where refusal: "framed_as TypeParticipantAnnouncementReply (0, 0) 0 (put_ParticipantAnnouncementReply ?refusal) b3"
    using reply_frame [of ?refusal] by auto
  have taken: "FindConnectedParticipant (pi_participantName (pa_peerInfo ?a)) (pa_simulationName ?a) (userState c2) \<noteq> None"
    using c2(4) by (simp add: FindConnectedParticipant_def)
  obtain c3 where "ReceiveParticipantAnnouncement ?env 1 m c2 = Done c3"
    using registry_refuses [OF c2(3) c1(5) m c2(2) taken refusal] by blast
  then have "registry_step example_registry_env (AnnouncementOf 1) c2 c3"
    by (intro announces [OF c2(3), where m = m]) simp
  then show ?thesis using run c2(4) by blast
qed

lemma orderly_run: "(orderly_moves env)\<^sup>*\<^sup>* c c' \<Longrightarrow> (registry_moves env)\<^sup>*\<^sup>* c c'"
  by (erule mono_rtranclp [rule_format, rotated]) (auto simp: orderly_moves_def registry_moves_def)

theorem names_stay_with_their_owners_witness:
  "\<exists>c c'. (registry_moves example_registry_env)\<^sup>*\<^sup>* (outer (new_registry_connection [] V31 (new_registry True False))) c \<and>
    registry_step example_registry_env (AnnouncementOf 1) c c' \<and>
    FindConnectedParticipant ''A'' ''s'' (userState c') = Some \<lparr>cpPeer = 0, cpInfo = peer_example ''A'' 7\<rparr>"
proof -
  let ?cp = "\<lparr>cpPeer = 0, cpInfo = peer_example ''A'' 7\<rparr>"
  obtain c c' where c: "(orderly_moves example_registry_env)\<^sup>*\<^sup>* (outer (new_registry_connection [] V31 (new_registry True False))) c"
    "participants_of ''s'' (userState c) = [(''A'', ?cp)]" "registry_step example_registry_env (AnnouncementOf 1) c c'"
    using example_reaches_A by blast
  note run = orderly_run [OF c(1)]
  have "FindConnectedParticipant ''A'' ''s'' (userState c) = Some ?cp" using c(2) by (simp add: FindConnectedParticipant_def)
  moreover have "(moves_with example_registry_env (cpPeer ?cp))\<^sup>*\<^sup>* c c'"
    using c(3) by (intro r_into_rtranclp) (auto simp: moves_with_def)
  ultimately show ?thesis using names_stay_with_their_owners [OF run] run c(3) by blast
qed

theorem registry_knows_who_is_there_witness:
  "\<exists>c. (orderly_moves example_registry_env)\<^sup>*\<^sup>* (outer (new_registry_connection [] V31 (new_registry True False))) c \<and>
    map fst (participants_of ''s'' (userState c)) = [''A''] \<and>
    map_option peerInfo (find_object c 0) = Some (peer_example ''A'' 7)"
proof -
  obtain c where c: "(orderly_moves example_registry_env)\<^sup>*\<^sup>* (outer (new_registry_connection [] V31 (new_registry True False))) c"
    "participants_of ''s'' (userState c) = [(''A'', \<lparr>cpPeer = 0, cpInfo = peer_example ''A'' 7\<rparr>)]"
    using example_reaches_A by blast
  show ?thesis
    using registry_knows_who_is_there [OF c(1), of "''s''"] c by (intro exI [of _ c]) simp
qed

end
