(* ===== verification/MonitorConnection.thy ===== *)
theory MonitorConnection
  imports DirectHandshake SystemMonitor
begin

text \<open>
  How the system monitor learns of a participant: the receiver of announcements that the
  creation of the monitor registers at the connection (\<open>GetSystemMonitor\<close>,
  \<open>core/participant/Participant_impl.hpp\<close>). The services of the participant are the monitor and
  the calls that it makes.
\<close>

definition monitor_receiver :: "nat \<Rightarrow> participant_announcement \<Rightarrow> ('c system_monitor \<times> 'c monitor_call list) connection
    \<Rightarrow> ('c system_monitor \<times> 'c monitor_call list) connection outcome" where
  "monitor_receiver p a c =
     with_peer p c (\<lambda>q.
       let (calls, m) = SystemMonitor.OnParticipantConnected (pi_participantName (peerInfo q)) (fst (userState c))
       in Done (c\<lparr>userState := (m, snd (userState c) @ calls)\<rparr>))"

lemma monitor_acts_on_user: "acts_on_user monitor_receiver"
  unfolding acts_on_user_def
proof (intro allI impI)
  fix p a and c :: "('c system_monitor \<times> 'c monitor_call list) connection"
  assume "find_object c p \<noteq> None"
  then obtain q where "find_object c p = Some q" by blast
  then show "\<exists>u. monitor_receiver p a c = Done (c\<lparr>userState := u\<rparr>)"
    by (simp add: monitor_receiver_def with_peer_def case_prod_beta Let_def) (intro exI, rule refl)
qed

text \<open>B has a system monitor, has accepted a connection and has one subscription.\<close>

definition example_monitored_env :: "(nat system_monitor \<times> nat monitor_call list) environment" where
  "example_monitored_env =
     \<lparr>announcementReceivers = [monitor_receiver], peerShutdownCallbacks = [], synchronizing = (\<lambda>_. False),
      currentTime = (\<lambda>_. 0), memoryBehind = [], uninitializedId = 1, uninitializedVersion = (0, 0),
      streamAddresses = (\<lambda>_. ([], [])), parseCapabilities = (\<lambda>_. None), makeAddress = (\<lambda>_. None), errorText = (\<lambda>_. [])\<rparr>"

definition example_B :: "(nat system_monitor \<times> nat monitor_call list) vasio" where
  "example_B = new_connect_known ((new_connection ''B'' 9 [] V31 (init_monitor, []))\<lparr>
     vasioReceivers := [(T_NextSimTask, example_subscription)], nextPeer := 1,
     peerObjects := [(0, \<lparr>peerInfo = no_peer_info, peerVersion = (0, 0), peerSimulation = [],
       peerDescriptor = default_descriptor, proxyOf = None, localAddress = [], remoteAddress = []\<rparr>)]\<rparr>)"

theorem direct_connection_is_established_witness:
  "\<exists>kA1 kA2 kB' blob blob'.
    vasio_input example_env (DirectConnected ''B'') (example_connecting StageDirect True False example_joined) =
      Some (Done kA1) \<and>
    StreamSend 0 OtherMessage blob \<in> set (trace (outer kA1)) \<and>
    vasio_input example_monitored_env (Received 0 blob) example_B = Some (Done kB') \<and>
    trace (outer kB') = [StreamSend 0 OtherMessage blob'] \<and>
    vasio_input example_env (Received 0 blob') kA1 = Some (Done kA2) \<and>
    FindPeerByName ''s'' ''A'' (outer kB') = Some 0 \<and> stage_of kA2 ''B'' = Some StageReplyReceived \<and>
    subscribed (outer kA2) 0 example_subscription"
proof -
  let ?kA = "example_connecting StageDirect True False example_joined"
  let ?a = "\<lparr>pa_messageHeader = MakeRegistryMsgHeader V31, pa_peerInfo = peer_example ''A'' 7,
      pa_simulationName = simulationName (outer ?kA)\<rparr>"
  let ?r = "\<lparr>par_remoteHeader = MakeRegistryMsgHeader V31, par_status = reply_Success,
      par_subscribers = map snd (vasioReceivers (outer example_B)), par_diagnostic = []\<rparr>"
  have sim: "simulationName example_joined = ''s''" by (simp add: example_joined_def)
  have ok: "ok_announcement ?a" "ok_reply ?r"
    by (simp_all add: ok_announcement_def ok_peer_example ok_string_def max_size_def sim ok_reply_def ok_vector_def
        example_B_def new_connect_known_def ok_VAsioMsgSubscriber_def example_subscription_def)
  have short: "length (enc_announcement ?a) + 6 \<le> max_message_size" "length (enc_reply V31 ?r) + 6 \<le> max_message_size"
    by (simp_all add: enc_announcement_def sim max_message_size_def enc_reply_def example_B_def new_connect_known_def
        enc_VAsioMsgSubscriber_def example_subscription_def)
  have me: "MakePeerInfo (outer ?kA) = Inr (peer_example ''A'' 7)"
    by (rule example_MakePeerInfo) (simp_all add: example_joined_def new_connection_def)
  let ?x = "\<lparr>ckInfo = peer_example ''B'' 9, peerStage = StageDirect, directConnectPeer = True,
      remoteConnectRequestTimer = False, failureReason = []\<rparr>"
  let ?q = "\<lparr>peerInfo = no_peer_info, peerVersion = (0, 0), peerSimulation = [],
       peerDescriptor = default_descriptor, proxyOf = None, localAddress = [], remoteAddress = []\<rparr>"
  have A: "find_peer ?kA ''B'' = Some ?x" "peers_fresh (outer ?kA)" "no_history (outer ?kA)" "version (outer ?kA) = V31"
    by (simp_all add: example_connecting_def example_joined_def new_connection_def peers_fresh_def no_history_def)
  have B: "list_all acts_on_user (announcementReceivers example_monitored_env)" "find_object (outer example_B) 0 = Some ?q"
    "allowAnySimulationName (outer example_B)" "FindPeerByName sim name (outer example_B) = None"
    "map snd (vasioReceivers (outer example_B)) = [example_subscription]" "trace (outer example_B) = []" for sim name
    by (simp_all add: example_monitored_env_def monitor_acts_on_user example_B_def new_connect_known_def FindPeerByName_def new_connection_def)
  have p: "nextPeer (outer ?kA) = 0" "simulationName (outer ?kA) = ''s''"
    by (simp_all add: example_joined_def new_connection_def)
  note established = direct_connection_is_established [OF A(1) _ _ _ A(2-4) me _ refl ok(1) short(1) B(1,2) _ disjI1 [OF B(3)]
      B(4) refl ok(2) short(2), of example_env]
  show ?thesis
    using established unfolding B(5,6) p
    by (simp only: peer_example_sel connecting_peer.simps vasio_peer.simps append_Nil list.set ball_simps) force
qed

end
