(* ===== verification/LabelMatching.thy ===== *)
theory LabelMatching
  imports Prelude
begin

text \<open>
  The matching of labels (\<open>util/LabelMatching.cpp\<close>), which decides whether a publisher and a
  subscriber, or a client and a server, talk to each other, with its meaning independent of
  the two loops.
\<close>

section \<open>Labels\<close>

datatype label_kind = Optional | Mandatory

record matching_label =
  label_key :: string
  label_value :: string
  label_kind :: label_kind

definition TryFindLabelByKey :: "string \<Rightarrow> matching_label list \<Rightarrow> matching_label option" where
  "TryFindLabelByKey key labels = find (\<lambda>l. label_key l = key) labels"

definition LabelMatchesLabelList :: "matching_label \<Rightarrow> matching_label list \<Rightarrow> bool" where
  "LabelMatchesLabelList label labels =
     (case TryFindLabelByKey (label_key label) labels of
        None \<Rightarrow> label_kind label \<noteq> Mandatory
      | Some found \<Rightarrow> label_value label = label_value found)"

definition MatchLabels :: "matching_label list \<Rightarrow> matching_label list \<Rightarrow> bool" where
  "MatchLabels labels1 labels2 \<longleftrightarrow>
     list_all (\<lambda>l. LabelMatchesLabelList l labels2) labels1 \<and>
     list_all (\<lambda>l. LabelMatchesLabelList l labels1) labels2"

section \<open>Their meaning\<close>

text \<open>The value that a list of labels gives to a key: that of the first label with the key.\<close>

definition value_of :: "string \<Rightarrow> matching_label list \<Rightarrow> string option" where
  "value_of key labels = map_option label_value (TryFindLabelByKey key labels)"

abbreviation all_mandatory :: "matching_label list \<Rightarrow> bool" where
  "all_mandatory labels \<equiv> list_all (\<lambda>l. label_kind l = Mandatory) labels"

lemma not_Mandatory_iff [simp]: "k \<noteq> Mandatory \<longleftrightarrow> k = Optional"
  by (cases k) auto

lemma TryFindLabelByKey_simps [simp]:
  "TryFindLabelByKey k [] = None"
  "TryFindLabelByKey k (l # ls) = (if label_key l = k then Some l else TryFindLabelByKey k ls)"
  by (simp_all add: TryFindLabelByKey_def)

lemma value_of_simps [simp]:
  "value_of k [] = None"
  "value_of k (l # ls) = (if label_key l = k then Some (label_value l) else value_of k ls)"
  by (simp_all add: value_of_def)

lemma value_of_None_iff: "value_of k ls = None \<longleftrightarrow> k \<notin> label_key ` set ls"
  by (induction ls) auto

lemma value_of_SomeD: "value_of k ls = Some v \<Longrightarrow> k \<in> label_key ` set ls"
  by (metis option.discI value_of_None_iff)

lemma LabelMatchesLabelList_iff:
  "LabelMatchesLabelList l ls \<longleftrightarrow>
     (case value_of (label_key l) ls of None \<Rightarrow> label_kind l \<noteq> Mandatory | Some v \<Rightarrow> label_value l = v)"
  by (simp add: LabelMatchesLabelList_def value_of_def split: option.split)

lemma MatchLabels_sym: "MatchLabels ls ms \<longleftrightarrow> MatchLabels ms ls"
  by (auto simp: MatchLabels_def)

lemma MatchLabels_Nil [simp]: "MatchLabels ls [] \<longleftrightarrow> list_all (\<lambda>l. label_kind l = Optional) ls"
  by (simp add: MatchLabels_def LabelMatchesLabelList_iff)

lemma MatchLabels_value:
  assumes "MatchLabels ls ms" "l \<in> set ms"
  shows "value_of (label_key l) ls = Some (label_value l) \<or>
    value_of (label_key l) ls = None \<and> label_kind l = Optional"
proof -
  have "LabelMatchesLabelList l ls" using assms by (simp add: MatchLabels_def list_all_iff)
  then show ?thesis by (simp add: LabelMatchesLabelList_iff split: option.splits)
qed

text \<open>
  What the two loops decide, when no list gives a key two values: whether every mandatory label
  of either side is present on the other, and the sides agree on the keys they share.
\<close>

definition single_valued_labels :: "matching_label list \<Rightarrow> bool" where
  "single_valued_labels ls \<longleftrightarrow>
     list_all (\<lambda>l. value_of (label_key l) ls = Some (label_value l)) ls"

definition mandatory_keys :: "matching_label list \<Rightarrow> string list" where
  "mandatory_keys ls = map label_key (filter (\<lambda>l. label_kind l = Mandatory) ls)"

definition labels_agree :: "matching_label list \<Rightarrow> matching_label list \<Rightarrow> bool" where
  "labels_agree ls ms \<longleftrightarrow>
     set (mandatory_keys ls) \<subseteq> label_key ` set ms \<and> set (mandatory_keys ms) \<subseteq> label_key ` set ls \<and>
     (\<forall>k\<in>label_key ` set ls \<inter> label_key ` set ms. value_of k ls = value_of k ms)"

lemma single_valued_labelsD:
  "single_valued_labels ls \<Longrightarrow> l \<in> set ls \<Longrightarrow> value_of (label_key l) ls = Some (label_value l)"
  by (auto simp: single_valued_labels_def list_all_iff)

lemma one_side_matches:
  assumes "single_valued_labels ls"
  shows "list_all (\<lambda>l. LabelMatchesLabelList l ms) ls \<longleftrightarrow>
    set (mandatory_keys ls) \<subseteq> label_key ` set ms \<and>
    (\<forall>k\<in>label_key ` set ls \<inter> label_key ` set ms. value_of k ls = value_of k ms)" (is "?A \<longleftrightarrow> ?B \<and> ?C")
proof
  assume A: ?A
  have ?B
  proof
    fix k assume "k \<in> set (mandatory_keys ls)"
    then obtain l where "l \<in> set ls" "label_key l = k" "label_kind l = Mandatory"
      by (auto simp: mandatory_keys_def)
    with A show "k \<in> label_key ` set ms"
      by (auto simp: list_all_iff LabelMatchesLabelList_iff split: option.splits dest!: value_of_SomeD)
  qed
  moreover have ?C
  proof
    fix k assume "k \<in> label_key ` set ls \<inter> label_key ` set ms"
    then obtain l where l: "l \<in> set ls" "label_key l = k" and k: "value_of k ms \<noteq> None"
      by (auto simp: value_of_None_iff)
    with A have "value_of k ms = Some (label_value l)"
      by (auto simp: list_all_iff LabelMatchesLabelList_iff)
    with single_valued_labelsD [OF assms l(1)] l(2) show "value_of k ls = value_of k ms" by simp
  qed
  ultimately show "?B \<and> ?C" ..
next
  assume BC: "?B \<and> ?C"
  show ?A unfolding list_all_iff
  proof
    fix l assume l: "l \<in> set ls"
    show "LabelMatchesLabelList l ms"
    proof (cases "value_of (label_key l) ms")
      case None
      then have "label_key l \<notin> label_key ` set ms" by (simp add: value_of_None_iff)
      with BC have "label_key l \<notin> set (mandatory_keys ls)" by blast
      with l have "label_kind l \<noteq> Mandatory" by (auto simp: mandatory_keys_def simp del: not_Mandatory_iff)
      with None show ?thesis by (simp add: LabelMatchesLabelList_iff)
    next
      case (Some v)
      with BC l have "value_of (label_key l) ls = Some v" by (metis IntI image_eqI value_of_SomeD)
      with Some single_valued_labelsD [OF assms l] show ?thesis by (simp add: LabelMatchesLabelList_iff)
    qed
  qed
qed

lemma MatchLabels_iff:
  assumes "single_valued_labels ls" "single_valued_labels ms"
  shows "MatchLabels ls ms \<longleftrightarrow> labels_agree ls ms"
  unfolding MatchLabels_def labels_agree_def one_side_matches [OF assms(1)] one_side_matches [OF assms(2)]
  by (metis Int_commute)

end
