(* ===== verification/DiscoveryStore.thy ===== *)
theory DiscoveryStore
  imports LabelMatching SilKitLink
begin

text \<open>
  The store that service discovery asks which handlers a service concerns
  (\<open>core/service/SpecificDiscoveryStore.cpp\<close>). It keeps, for each controller type and key, an
  index of the services and of the handlers by the labels they carry, and picks the label
  whose index entries are fewest instead of comparing with everything.

  A handler is a function the code calls; here it is a value of any type, and the result of an
  operation is the list of the calls it makes. The handlers are never empty functions: the
  publish/subscribe and RPC services register lambdas. How labels are written as a string is
  the parameter \<open>parse_labels\<close> (\<open>Config::Deserialize\<close>), which may throw.

  The maps are functions into options. The index operator of the C++ maps creates an entry
  where there is none, which the code depends on (it asks later whether there is one), so
  \<open>touch\<close> is part of every access. A loop over a map whose steps change different entries is
  written entry by entry.
\<close>

section \<open>Keys\<close>

definition controllerType_key :: string where "controllerType_key = ''controller.type''"
definition controllerTypeDataPublisher :: string where "controllerTypeDataPublisher = ''DataPublisher''"
definition controllerTypeRpcClient :: string where "controllerTypeRpcClient = ''RpcClient''"
definition controllerTypeRpcServerInternal :: string where "controllerTypeRpcServerInternal = ''RpcServerInternal''"
definition supplKeyDataPublisherTopic :: string where "supplKeyDataPublisherTopic = ''PubSub::topic''"
definition supplKeyDataPublisherPubLabels :: string where "supplKeyDataPublisherPubLabels = ''PubSub::pubLabels''"
definition supplKeyRpcClientFunctionName :: string where "supplKeyRpcClientFunctionName = ''Rpc::client::functionName''"
definition supplKeyRpcClientLabels :: string where "supplKeyRpcClientLabels = ''Rpc::client::labels''"
definition supplKeyRpcServerInternalClientUUID :: string where
  "supplKeyRpcServerInternalClientUUID = ''Rpc::serverinternal::clientUUID''"

lemmas discovery_keys = controllerType_key_def controllerTypeDataPublisher_def controllerTypeRpcClient_def
  controllerTypeRpcServerInternal_def supplKeyDataPublisherTopic_def supplKeyDataPublisherPubLabels_def
  supplKeyRpcClientFunctionName_def supplKeyRpcClientLabels_def supplKeyRpcServerInternalClientUUID_def

definition GetSupplementalDataItem :: "string \<Rightarrow> service_descriptor \<Rightarrow> string option" where
  "GetSupplementalDataItem key d = map_of (sd_supplementalData d) key"

definition GetSupplementalDataValue :: "string \<Rightarrow> service_descriptor \<Rightarrow> string result" where
  "GetSupplementalDataValue key d =
     (case GetSupplementalDataItem key d of None \<Rightarrow> Inl StateError | Some v \<Rightarrow> Inr v)"

text \<open>A string that an unsuccessful lookup leaves empty.\<close>

definition item_or_empty :: "string \<Rightarrow> service_descriptor \<Rightarrow> string" where
  "item_or_empty key d = (case GetSupplementalDataItem key d of None \<Rightarrow> [] | Some v \<Rightarrow> v)"

section \<open>State\<close>

record 'h controller_cluster =
  cc_handler :: 'h
  cc_labels :: "matching_label list"

record 'h discovery_cluster =
  cluster_nodes :: "service_descriptor list"
  controllerInfo :: "'h controller_cluster list"

record 'h discovery_key_node =
  labelMap :: "string \<times> string \<Rightarrow> 'h discovery_cluster option"
  notLabelMap :: "string \<Rightarrow> 'h discovery_cluster option"
  noLabelCluster :: "'h discovery_cluster"
  allCluster :: "'h discovery_cluster"

type_synonym 'h discovery_store = "string \<times> string \<Rightarrow> 'h discovery_key_node option"

datatype discovery_type = Invalid | ServiceCreated | ServiceRemoved

datatype 'h handler_call = CallHandler 'h discovery_type service_descriptor

definition empty_cluster :: "'h discovery_cluster" where
  "empty_cluster = \<lparr>cluster_nodes = [], controllerInfo = []\<rparr>"

definition empty_key_node :: "'h discovery_key_node" where
  "empty_key_node = \<lparr>labelMap = Map.empty, notLabelMap = Map.empty,
     noLabelCluster = empty_cluster, allCluster = empty_cluster\<rparr>"

definition new_store :: "'h discovery_store" where
  "new_store = Map.empty"

text \<open>The index operator: the entry, created when it is not there.\<close>

definition at_key :: "'v \<Rightarrow> ('k \<Rightarrow> 'v option) \<Rightarrow> 'k \<Rightarrow> 'v" where
  "at_key d m k = (case m k of None \<Rightarrow> d | Some v \<Rightarrow> v)"

definition touch :: "'v \<Rightarrow> 'k \<Rightarrow> ('k \<Rightarrow> 'v option) \<Rightarrow> ('k \<Rightarrow> 'v option)" where
  "touch d k m = m(k \<mapsto> at_key d m k)"

abbreviation cluster_at :: "('k \<Rightarrow> 'h discovery_cluster option) \<Rightarrow> 'k \<Rightarrow> 'h discovery_cluster" where
  "cluster_at \<equiv> at_key empty_cluster"

abbreviation entry_at :: "'h discovery_store \<Rightarrow> string \<times> string \<Rightarrow> 'h discovery_key_node" where
  "entry_at \<equiv> at_key empty_key_node"

definition touch_label :: "matching_label \<Rightarrow> 'h discovery_key_node \<Rightarrow> 'h discovery_key_node" where
  "touch_label l e = e\<lparr>labelMap := touch empty_cluster (label_key l, label_value l) (labelMap e)\<rparr>"

definition touch_not_label :: "matching_label \<Rightarrow> 'h discovery_key_node \<Rightarrow> 'h discovery_key_node" where
  "touch_not_label l e = e\<lparr>notLabelMap := touch empty_cluster (label_key l) (notLabelMap e)\<rparr>"

section \<open>The label with the fewest candidates\<close>

text \<open>
  The loop that \<open>GetLabelWithMinimalHandlerSet\<close> and \<open>GetLabelWithMinimalNodeSet\<close> share: \<open>size_of\<close>
  counts the handlers or the services of a cluster.
\<close>

fun minimal_label :: "('h discovery_cluster \<Rightarrow> nat) \<Rightarrow> matching_label list \<Rightarrow> nat \<Rightarrow> matching_label option
    \<Rightarrow> 'h discovery_key_node \<Rightarrow> matching_label option \<times> 'h discovery_key_node" where
  "minimal_label size_of [] matchCount greedy e = (greedy, e)"
| "minimal_label size_of (l # ls) matchCount greedy e =
     (if matchCount \<le> 1 then (greedy, e)
      else case label_kind l of
        Mandatory \<Rightarrow>
          (let e = touch_label l e;
               count = size_of (cluster_at (labelMap e) (label_key l, label_value l))
           in if count < matchCount then minimal_label size_of ls count (Some l) e
              else minimal_label size_of ls matchCount greedy e)
      | Optional \<Rightarrow>
          (let e = touch_not_label l (touch_label l e);
               count = size_of (cluster_at (labelMap e) (label_key l, label_value l)) +
                 size_of (cluster_at (notLabelMap e) (label_key l))
           in if 0 < count \<and> count < matchCount then minimal_label size_of ls count (Some l) e
              else minimal_label size_of ls matchCount greedy e))"

definition GetLabelWithMinimalHandlerSet :: "matching_label list \<Rightarrow> 'h discovery_key_node
    \<Rightarrow> matching_label option \<times> 'h discovery_key_node" where
  "GetLabelWithMinimalHandlerSet labels e =
     minimal_label (\<lambda>c. length (controllerInfo c)) labels (length (controllerInfo (allCluster e))) None e"

definition GetLabelWithMinimalNodeSet :: "matching_label list \<Rightarrow> 'h discovery_key_node
    \<Rightarrow> matching_label option \<times> 'h discovery_key_node" where
  "GetLabelWithMinimalNodeSet labels e =
     minimal_label (\<lambda>c. length (cluster_nodes c)) labels (length (cluster_nodes (allCluster e))) None e"

text \<open>What is compared with, in the order of the loops that follow the choice of the label.\<close>

definition candidates :: "('h discovery_cluster \<Rightarrow> 'x list) \<Rightarrow> matching_label option \<Rightarrow> 'h discovery_key_node
    \<Rightarrow> 'x list" where
  "candidates part_of greedy e =
     (case greedy of
        None \<Rightarrow> part_of (allCluster e)
      | Some l \<Rightarrow>
          (if label_kind l = Optional
           then part_of (cluster_at (notLabelMap e) (label_key l)) @ part_of (noLabelCluster e) else []) @
          part_of (cluster_at (labelMap e) (label_key l, label_value l)))"

section \<open>Inserting and removing\<close>

definition represent_label :: "matching_label \<Rightarrow> 'h discovery_key_node \<Rightarrow> 'h discovery_key_node" where
  "represent_label l e =
     (let e = touch_label l e
      in case notLabelMap e (label_key l) of
           Some _ \<Rightarrow> e
         | None \<Rightarrow> e\<lparr>notLabelMap := (notLabelMap e)(label_key l \<mapsto>
             \<lparr>cluster_nodes = cluster_nodes (allCluster e), controllerInfo = controllerInfo (allCluster e)\<rparr>)\<rparr>)"

definition insert_for_every_label :: "matching_label list \<Rightarrow> ('h discovery_cluster \<Rightarrow> 'h discovery_cluster)
    \<Rightarrow> 'h discovery_key_node \<Rightarrow> 'h discovery_key_node" where
  "insert_for_every_label labels updater e =
     e\<lparr>labelMap := (\<lambda>(k, v).
          if notLabelMap e k \<noteq> None \<and> map_option label_value (TryFindLabelByKey k labels) = Some v
          then Some (updater (cluster_at (labelMap e) (k, v))) else labelMap e (k, v)),
       notLabelMap := (\<lambda>k.
          case notLabelMap e k of None \<Rightarrow> None
          | Some c \<Rightarrow> if TryFindLabelByKey k labels = None then Some (updater c) else Some c)\<rparr>"

definition update_key_node :: "matching_label list \<Rightarrow> ('h discovery_cluster \<Rightarrow> 'h discovery_cluster)
    \<Rightarrow> 'h discovery_key_node \<Rightarrow> 'h discovery_key_node" where
  "update_key_node labels updater e =
     (let e = e\<lparr>allCluster := updater (allCluster e)\<rparr>
      in if labels = [] then e\<lparr>noLabelCluster := updater (noLabelCluster e)\<rparr>
         else insert_for_every_label labels updater (fold represent_label labels e))"

definition UpdateDiscoveryClusters :: "string \<Rightarrow> string \<Rightarrow> matching_label list
    \<Rightarrow> ('h discovery_cluster \<Rightarrow> 'h discovery_cluster) \<Rightarrow> 'h discovery_store \<Rightarrow> 'h discovery_store" where
  "UpdateDiscoveryClusters controllerType key labels updater s =
     s((controllerType, key) \<mapsto> update_key_node labels updater (entry_at s (controllerType, key)))"

definition push_node :: "service_descriptor \<Rightarrow> 'h discovery_cluster \<Rightarrow> 'h discovery_cluster" where
  "push_node d c = c\<lparr>cluster_nodes := cluster_nodes c @ [d]\<rparr>"

definition push_controller :: "'h controller_cluster \<Rightarrow> 'h discovery_cluster \<Rightarrow> 'h discovery_cluster" where
  "push_controller i c = c\<lparr>controllerInfo := controllerInfo c @ [i]\<rparr>"

definition remove_node :: "service_descriptor \<Rightarrow> 'h discovery_cluster \<Rightarrow> 'h discovery_cluster" where
  "remove_node d c = c\<lparr>cluster_nodes := filter (\<lambda>n. \<not> same_service n d) (cluster_nodes c)\<rparr>"

definition InsertLookupNode :: "string \<Rightarrow> string \<Rightarrow> matching_label list \<Rightarrow> service_descriptor
    \<Rightarrow> 'h discovery_store \<Rightarrow> 'h discovery_store" where
  "InsertLookupNode controllerType key labels d = UpdateDiscoveryClusters controllerType key labels (push_node d)"

definition remove_from_key_node :: "service_descriptor \<Rightarrow> 'h discovery_key_node \<Rightarrow> 'h discovery_key_node" where
  "remove_from_key_node d e =
     \<lparr>labelMap = (\<lambda>kv. map_option (remove_node d) (labelMap e kv)),
      notLabelMap = (\<lambda>k. map_option (remove_node d) (notLabelMap e k)),
      noLabelCluster = remove_node d (noLabelCluster e), allCluster = remove_node d (allCluster e)\<rparr>"

definition RemoveLookupNode :: "string \<Rightarrow> string \<Rightarrow> service_descriptor \<Rightarrow> 'h discovery_store \<Rightarrow> 'h discovery_store" where
  "RemoveLookupNode controllerType key d s =
     s((controllerType, key) \<mapsto> remove_from_key_node d (entry_at s (controllerType, key)))"

definition InsertLookupHandler :: "string \<Rightarrow> string \<Rightarrow> matching_label list \<Rightarrow> 'h
    \<Rightarrow> 'h discovery_store \<Rightarrow> 'h discovery_store" where
  "InsertLookupHandler controllerType key labels h =
     UpdateDiscoveryClusters controllerType key labels (push_controller \<lparr>cc_handler = h, cc_labels = labels\<rparr>)"

section \<open>A service is created or removed\<close>

definition CallHandlersOnServiceChange :: "discovery_type \<Rightarrow> string \<Rightarrow> string \<Rightarrow> matching_label list
    \<Rightarrow> service_descriptor \<Rightarrow> 'h discovery_store \<Rightarrow> 'h handler_call list \<times> 'h discovery_store" where
  "CallHandlersOnServiceChange eventType controllerType key labels d s =
     (let (greedy, e) = GetLabelWithMinimalHandlerSet labels (entry_at s (controllerType, key));
          skipLabelCheck = (greedy = None \<and> controllerType = controllerTypeRpcServerInternal);
          called = filter (\<lambda>i. skipLabelCheck \<or> MatchLabels (cc_labels i) labels) (candidates controllerInfo greedy e)
      in (map (\<lambda>i. CallHandler (cc_handler i) eventType d) called, s((controllerType, key) \<mapsto> e)))"

text \<open>The key and the labels of a service, by the type of its controller.\<close>

definition service_key :: "string \<Rightarrow> service_descriptor \<Rightarrow> string" where
  "service_key controllerType d =
     (if controllerType = controllerTypeRpcServerInternal then item_or_empty supplKeyRpcServerInternalClientUUID d
      else if controllerType = controllerTypeRpcClient then item_or_empty supplKeyRpcClientFunctionName d
      else if controllerType = controllerTypeDataPublisher then item_or_empty supplKeyDataPublisherTopic d
      else [])"

definition labels_item :: "string \<Rightarrow> service_descriptor \<Rightarrow> string option" where
  "labels_item controllerType d =
     (if controllerType = controllerTypeRpcClient then GetSupplementalDataItem supplKeyRpcClientLabels d
      else if controllerType = controllerTypeDataPublisher then GetSupplementalDataItem supplKeyDataPublisherPubLabels d
      else None)"

definition service_labels :: "(string \<Rightarrow> matching_label list result) \<Rightarrow> string \<Rightarrow> service_descriptor
    \<Rightarrow> matching_label list result" where
  "service_labels parse_labels controllerType d =
     (case labels_item controllerType d of None \<Rightarrow> Inr [] | Some s \<Rightarrow> parse_labels s)"

definition allowed_controller :: "string \<Rightarrow> bool" where
  "allowed_controller t \<longleftrightarrow> t \<in> {controllerTypeDataPublisher, controllerTypeRpcServerInternal, controllerTypeRpcClient}"

definition ServiceChange :: "(string \<Rightarrow> matching_label list result) \<Rightarrow> discovery_type \<Rightarrow> service_descriptor
    \<Rightarrow> 'h discovery_store \<Rightarrow> 'h handler_call list result \<times> 'h discovery_store" where
  "ServiceChange parse_labels changeType d s =
     (case GetSupplementalDataItem controllerType_key d of
        None \<Rightarrow> (Inr [], s)
      | Some t \<Rightarrow>
          if \<not> allowed_controller t then (Inr [], s)
          else case service_labels parse_labels t d of
            Inl err \<Rightarrow> (Inl err, s)
          | Inr labels \<Rightarrow>
              let key = service_key t d;
                  (calls, s) = CallHandlersOnServiceChange changeType t key labels d s
              in (Inr calls,
                  case changeType of
                    ServiceCreated \<Rightarrow> InsertLookupNode t key labels d s
                  | ServiceRemoved \<Rightarrow> RemoveLookupNode t key d s
                  | Invalid \<Rightarrow> s))"

section \<open>A handler is registered\<close>

definition GetLabels :: "(string \<Rightarrow> matching_label list result) \<Rightarrow> service_descriptor \<Rightarrow> matching_label list result" where
  "GetLabels parse_labels d =
     bind_result (GetSupplementalDataValue controllerType_key d) (\<lambda>t.
       if t = controllerTypeDataPublisher
       then bind_result (GetSupplementalDataValue supplKeyDataPublisherPubLabels d) parse_labels
       else if t = controllerTypeRpcClient
       then bind_result (GetSupplementalDataValue supplKeyRpcClientLabels d) parse_labels
       else Inr [])"

text \<open>The loop over the candidates ends with the first service whose labels cannot be read.\<close>

fun call_for_nodes :: "(string \<Rightarrow> matching_label list result) \<Rightarrow> 'h \<Rightarrow> matching_label list \<Rightarrow> service_descriptor list
    \<Rightarrow> 'h handler_call list \<times> silkit_error option" where
  "call_for_nodes parse_labels h labels [] = ([], None)"
| "call_for_nodes parse_labels h labels (d # ds) =
     (case GetLabels parse_labels d of
        Inl err \<Rightarrow> ([], Some err)
      | Inr descriptorLabels \<Rightarrow>
          let (calls, err) = call_for_nodes parse_labels h labels ds
          in (if MatchLabels labels descriptorLabels then CallHandler h ServiceCreated d # calls else calls, err))"

definition CallHandlerOnHandlerRegistration :: "(string \<Rightarrow> matching_label list result) \<Rightarrow> 'h \<Rightarrow> string \<Rightarrow> string
    \<Rightarrow> matching_label list \<Rightarrow> 'h discovery_store
    \<Rightarrow> ('h handler_call list \<times> silkit_error option) \<times> 'h discovery_store" where
  "CallHandlerOnHandlerRegistration parse_labels h controllerType key labels s =
     (let (greedy, e) = GetLabelWithMinimalNodeSet labels (entry_at s (controllerType, key))
      in (call_for_nodes parse_labels h labels (candidates cluster_nodes greedy e), s((controllerType, key) \<mapsto> e)))"

definition store_RegisterHandler :: "(string \<Rightarrow> matching_label list result) \<Rightarrow> 'h \<Rightarrow> string \<Rightarrow> string
    \<Rightarrow> matching_label list \<Rightarrow> 'h discovery_store
    \<Rightarrow> ('h handler_call list \<times> silkit_error option) \<times> 'h discovery_store" where
  "store_RegisterHandler parse_labels h controllerType key labels s =
     (let ((calls, err), s) = CallHandlerOnHandlerRegistration parse_labels h controllerType key labels s
      in ((calls, err), if err = None then InsertLookupHandler controllerType key labels h s else s))"

end
