(* ===== verification/DiscoveryIndex.thy ===== *)
theory DiscoveryIndex
  imports DiscoveryStore
begin

text \<open>
  The index of the store: what each entry of the label maps holds, that the operations keep it
  so, and what the choice of the label with the fewest candidates loses and what not. The
  handlers and the services are indexed in the same way, so the lemmas are stated for either
  part of a cluster, with the function that yields the labels of an element.
\<close>

section \<open>Entries created by a lookup\<close>

lemma at_key_touch [simp]: "at_key d (touch d k m) k' = at_key d m k'"
  by (simp add: touch_def at_key_def)

lemma dom_touch [simp]: "dom (touch d k m) = insert k (dom m)"
  by (simp add: touch_def)

lemma at_key_upd [simp]: "at_key d (m(k \<mapsto> v)) k' = (if k' = k then v else at_key d m k')"
  by (simp add: at_key_def)

lemma at_key_empty [simp]: "at_key d Map.empty k = d"
  by (simp add: at_key_def)

lemma empty_cluster_simps [simp]:
  "cluster_nodes empty_cluster = []" "controllerInfo empty_cluster = []"
  by (simp_all add: empty_cluster_def)

lemma empty_key_node_simps [simp]:
  "labelMap empty_key_node = Map.empty" "notLabelMap empty_key_node = Map.empty"
  "noLabelCluster empty_key_node = empty_cluster" "allCluster empty_key_node = empty_cluster"
  by (simp_all add: empty_key_node_def)

text \<open>A lookup changes nothing but which empty entries exist.\<close>

definition extends :: "'h discovery_key_node \<Rightarrow> 'h discovery_key_node \<Rightarrow> bool" where
  "extends e e' \<longleftrightarrow>
     cluster_at (labelMap e') = cluster_at (labelMap e) \<and>
     cluster_at (notLabelMap e') = cluster_at (notLabelMap e) \<and>
     dom (notLabelMap e) \<subseteq> dom (notLabelMap e') \<and>
     noLabelCluster e' = noLabelCluster e \<and> allCluster e' = allCluster e"

lemma extends_refl [simp]: "extends e e"
  by (simp add: extends_def)

lemma extends_trans: "extends e f \<Longrightarrow> extends f g \<Longrightarrow> extends e g"
  by (auto simp: extends_def)

lemma extends_touch [simp]:
  "extends e (touch_label l e)" "extends e (touch_not_label l e)"
  by (auto simp: extends_def touch_label_def touch_not_label_def)

lemma minimal_label_extends:
  "minimal_label size_of ls n g e = (g', e') \<Longrightarrow> extends e e'"
proof (induction size_of ls n g e arbitrary: g' e' rule: minimal_label.induct)
  case (2 size_of l ls n g e)
  show ?case
  proof (cases "n \<le> 1")
    case False
    let ?t = "case label_kind l of Mandatory \<Rightarrow> touch_label l e | Optional \<Rightarrow> touch_not_label l (touch_label l e)"
    have "extends ?t e'"
      using 2 False by (cases "label_kind l") (auto simp: Let_def split: if_splits)
    moreover have "extends e ?t"
      by (cases "label_kind l") (auto intro: extends_trans [OF extends_touch(1) extends_touch(2)])
    ultimately show ?thesis using extends_trans by blast
  qed (use 2 in simp)
qed simp

lemma minimal_label_choice:
  "minimal_label size_of ls n g e = (g', e') \<Longrightarrow> g' = g \<or> (\<exists>l\<in>set ls. g' = Some l)"
proof (induction size_of ls n g e arbitrary: g' e' rule: minimal_label.induct)
  case (2 size_of l ls n g e)
  then show ?case
    by (cases "n \<le> 1"; cases "label_kind l") (fastforce simp: Let_def split: if_splits)+
qed simp

lemma candidates_extends: "extends e e' \<Longrightarrow> candidates p g e' = candidates p g e"
  by (auto simp: candidates_def extends_def split: option.split)

section \<open>What the index holds\<close>

definition indexed :: "('h discovery_cluster \<Rightarrow> 'x list) \<Rightarrow> ('x \<Rightarrow> matching_label list) \<Rightarrow> 'h discovery_key_node
    \<Rightarrow> bool" where
  "indexed part_of labels_of e \<longleftrightarrow>
     (\<forall>k v. part_of (cluster_at (labelMap e) (k, v)) =
        filter (\<lambda>x. value_of k (labels_of x) = Some v) (part_of (allCluster e))) \<and>
     part_of (noLabelCluster e) = filter (\<lambda>x. labels_of x = []) (part_of (allCluster e)) \<and>
     (\<forall>k. set (part_of (cluster_at (notLabelMap e) k)) \<subseteq> set (part_of (allCluster e))) \<and>
     (\<forall>x\<in>set (part_of (allCluster e)). label_key ` set (labels_of x) \<subseteq> dom (notLabelMap e))"

lemma indexedI:
  assumes "\<And>k v. p (cluster_at (labelMap e) (k, v)) = filter (\<lambda>x. value_of k (lab x) = Some v) (p (allCluster e))"
    and "p (noLabelCluster e) = filter (\<lambda>x. lab x = []) (p (allCluster e))"
    and "\<And>k. set (p (cluster_at (notLabelMap e) k)) \<subseteq> set (p (allCluster e))"
    and "\<And>x. x \<in> set (p (allCluster e)) \<Longrightarrow> label_key ` set (lab x) \<subseteq> dom (notLabelMap e)"
  shows "indexed p lab e"
  using assms by (simp add: indexed_def)

lemma indexedD:
  assumes "indexed p lab e"
  shows "p (cluster_at (labelMap e) (k, v)) = filter (\<lambda>x. value_of k (lab x) = Some v) (p (allCluster e))"
    and "p (noLabelCluster e) = filter (\<lambda>x. lab x = []) (p (allCluster e))"
    and "set (p (cluster_at (notLabelMap e) k)) \<subseteq> set (p (allCluster e))"
    and "x \<in> set (p (allCluster e)) \<Longrightarrow> label_key ` set (lab x) \<subseteq> dom (notLabelMap e)"
  using assms by (simp_all add: indexed_def)

lemma indexed_extends: "extends e e' \<Longrightarrow> indexed p lab e \<Longrightarrow> indexed p lab e'"
  by (simp add: indexed_def extends_def) (meson subset_trans)

lemma indexed_empty: "p empty_cluster = [] \<Longrightarrow> indexed p lab empty_key_node"
  by (simp add: indexed_def)

text \<open>Candidates are among the elements there are.\<close>

lemma candidates_sound:
  assumes "indexed p lab e"
  shows "set (candidates p g e) \<subseteq> set (p (allCluster e))"
  using assms by (auto simp: candidates_def indexed_def split: option.splits if_splits)

lemma filter_filter_imp: "(\<And>x. P x \<Longrightarrow> Q x) \<Longrightarrow> filter (\<lambda>x. Q x \<and> P x) xs = filter P xs"
  by (rule filter_cong) auto

text \<open>With a mandatory label, or none, the candidates that match are all that match, in order.\<close>

lemma candidates_exact:
  assumes "indexed p lab e" and "g = None \<or> (\<exists>l\<in>set labels. g = Some l \<and> label_kind l = Mandatory)"
  shows "filter (\<lambda>x. MatchLabels (lab x) labels) (candidates p g e) =
    filter (\<lambda>x. MatchLabels (lab x) labels) (p (allCluster e))"
proof (cases g)
  case (Some l)
  with assms(2) have l: "l \<in> set labels" "label_kind l = Mandatory" by auto
  have "value_of (label_key l) (lab x) = Some (label_value l)" if "MatchLabels (lab x) labels" for x
    using MatchLabels_value [OF that l(1)] l(2) by simp
  then have "filter (\<lambda>x. value_of (label_key l) (lab x) = Some (label_value l) \<and> MatchLabels (lab x) labels) (p (allCluster e)) =
      filter (\<lambda>x. MatchLabels (lab x) labels) (p (allCluster e))"
    by (rule filter_filter_imp)
  with Some l show ?thesis by (simp add: candidates_def indexedD(1) [OF assms(1)])
qed (simp add: candidates_def)

section \<open>Updates keep the index\<close>

lemma fold_represent_label:
  "cluster_at (labelMap (fold represent_label ls e)) = cluster_at (labelMap e)"
  "noLabelCluster (fold represent_label ls e) = noLabelCluster e"
  "allCluster (fold represent_label ls e) = allCluster e"
  "notLabelMap (fold represent_label ls e) k =
     (case notLabelMap e k of Some c \<Rightarrow> Some c
      | None \<Rightarrow> if k \<in> label_key ` set ls then Some (allCluster e) else None)"
proof (induction ls arbitrary: e)
  case (Cons l ls)
  {
    case 1 then show ?case using Cons.IH(1) [of "represent_label l e"]
      by (auto simp: represent_label_def Let_def touch_label_def split: option.splits)
  next
    case 2 then show ?case using Cons.IH(2) [of "represent_label l e"]
      by (simp add: represent_label_def Let_def touch_label_def split: option.splits)
  next
    case 3 then show ?case using Cons.IH(3) [of "represent_label l e"]
      by (simp add: represent_label_def Let_def touch_label_def split: option.splits)
  next
    case 4 then show ?case using Cons.IH(4) [of "represent_label l e"]
      by (auto simp: represent_label_def Let_def touch_label_def split: option.splits)
  }
qed (simp_all split: option.split)

lemma update_key_node_maps:
  fixes e :: "'h discovery_key_node" and u :: "'h discovery_cluster \<Rightarrow> 'h discovery_cluster"
  assumes "labels \<noteq> []"
  defines "e' \<equiv> update_key_node labels u e"
  shows "cluster_at (labelMap e') (k, v) =
      (if value_of k labels = Some v then u (cluster_at (labelMap e) (k, v)) else cluster_at (labelMap e) (k, v))"
    and "notLabelMap e' k =
      (case notLabelMap e k of
         Some c \<Rightarrow> Some (if value_of k labels = None then u c else c)
       | None \<Rightarrow> if value_of k labels = None then None else Some (u (allCluster e)))"
    and "noLabelCluster e' = noLabelCluster e" and "allCluster e' = u (allCluster e)"
proof -
  let ?e = "e\<lparr>allCluster := u (allCluster e)\<rparr>"
  have e': "e' = insert_for_every_label labels u (fold represent_label labels ?e)"
    using assms(1) by (simp add: e'_def update_key_node_def Let_def)
  have dom: "notLabelMap (fold represent_label labels ?e) k \<noteq> None" if "value_of k labels = Some v" for k v
    using value_of_SomeD [OF that] by (simp add: fold_represent_label split: option.split)
  have found: "TryFindLabelByKey k labels = None \<longleftrightarrow> value_of k labels = None" for k
    by (simp add: value_of_def)
  show "cluster_at (labelMap e') (k, v) =
      (if value_of k labels = Some v then u (cluster_at (labelMap e) (k, v)) else cluster_at (labelMap e) (k, v))"
  proof (cases "value_of k labels = Some v")
    case True
    with dom [of k v] have "labelMap e' (k, v) = Some (u (cluster_at (labelMap (fold represent_label labels ?e)) (k, v)))"
      by (auto simp: e' insert_for_every_label_def value_of_def)
    then have "cluster_at (labelMap e') (k, v) = u (cluster_at (labelMap (fold represent_label labels ?e)) (k, v))"
      by (simp add: at_key_def)
    with True show ?thesis by (simp add: fold_represent_label(1))
  next
    case False
    then have "labelMap e' (k, v) = labelMap (fold represent_label labels ?e) (k, v)"
      by (auto simp: e' insert_for_every_label_def value_of_def)
    then have "cluster_at (labelMap e') (k, v) = cluster_at (labelMap (fold represent_label labels ?e)) (k, v)"
      by (simp add: at_key_def)
    with False show ?thesis by (simp add: fold_represent_label(1))
  qed
  show "notLabelMap e' k = (case notLabelMap e k of
         Some c \<Rightarrow> Some (if value_of k labels = None then u c else c)
       | None \<Rightarrow> if value_of k labels = None then None else Some (u (allCluster e)))"
    by (auto simp: e' insert_for_every_label_def fold_represent_label found value_of_None_iff split: option.splits)
  show "noLabelCluster e' = noLabelCluster e" "allCluster e' = u (allCluster e)"
    by (simp_all add: e' insert_for_every_label_def fold_represent_label)
qed

lemma update_key_node_no_labels:
  "update_key_node [] u e = e\<lparr>allCluster := u (allCluster e), noLabelCluster := u (noLabelCluster e)\<rparr>"
  by (simp add: update_key_node_def)

lemma update_key_node_all [simp]: "allCluster (update_key_node labels u e) = u (allCluster e)"
  by (cases "labels = []") (simp_all add: update_key_node_no_labels update_key_node_maps)

lemma update_key_node_dom: "dom (notLabelMap (update_key_node labels u e)) = dom (notLabelMap e) \<union> label_key ` set labels"
proof (cases "labels = []")
  case False
  then show ?thesis
    by (auto simp: update_key_node_maps value_of_None_iff dom_def split: option.splits if_splits)
qed (simp add: update_key_node_no_labels)

lemma update_key_node_not_label:
  assumes "labels \<noteq> []"
  shows "cluster_at (notLabelMap (update_key_node labels u e)) k =
    (case notLabelMap e k of
       Some c \<Rightarrow> (if value_of k labels = None then u c else c)
     | None \<Rightarrow> if value_of k labels = None then empty_cluster else u (allCluster e))"
  using update_key_node_maps(2) [OF assms, of u e k] by (simp add: at_key_def split: option.split)

text \<open>An update that appends an element with the labels it is inserted under.\<close>

lemma indexed_append:
  assumes "indexed p lab e" and "\<And>c. p (u c) = p c @ [x]" and "lab x = labels" and "p empty_cluster = []"
  shows "indexed p lab (update_key_node labels u e)"
proof (cases "labels = []")
  case True
  show ?thesis
  proof (rule indexedI)
    fix k y assume "y \<in> set (p (allCluster (update_key_node labels u e)))"
    then show "label_key ` set (lab y) \<subseteq> dom (notLabelMap (update_key_node labels u e))"
      using indexedD(4) [OF assms(1), of y] assms(2,3) True by (auto simp: update_key_node_no_labels)
  next
    show "set (p (cluster_at (notLabelMap (update_key_node labels u e)) k)) \<subseteq>
        set (p (allCluster (update_key_node labels u e)))" for k
      using indexedD(3) [OF assms(1), of k] assms(2) True by (auto simp: update_key_node_no_labels)
  qed (use True assms(2,3) indexedD(1,2) [OF assms(1)] in \<open>simp_all add: update_key_node_no_labels\<close>)
next
  case False
  have "set (p (cluster_at (notLabelMap (update_key_node labels u e)) k)) \<subseteq> insert x (set (p (allCluster e)))" for k
  proof (cases "notLabelMap e k")
    case (Some c)
    then have "cluster_at (notLabelMap e) k = c" by (simp add: at_key_def)
    then have "set (p c) \<subseteq> set (p (allCluster e))" using assms(1) by (auto simp: indexed_def)
    with Some False assms(2) show ?thesis by (auto simp: update_key_node_not_label)
  qed (use False assms in \<open>simp add: update_key_node_not_label\<close>)
  note not_label = this
  show ?thesis
  proof (rule indexedI)
    fix y assume "y \<in> set (p (allCluster (update_key_node labels u e)))"
    then show "label_key ` set (lab y) \<subseteq> dom (notLabelMap (update_key_node labels u e))"
      using indexedD(4) [OF assms(1), of y] assms(2,3) by (auto simp: update_key_node_dom)
  qed (use False assms indexedD(1,2) [OF assms(1)] not_label in \<open>simp_all add: update_key_node_maps(1,3)\<close>)
qed

text \<open>An update of the other part.\<close>

lemma indexed_unchanged:
  assumes "indexed p lab e" and "\<And>c. p (u c) = p c" and "p empty_cluster = []"
  shows "indexed p lab (update_key_node labels u e)"
proof (cases "labels = []")
  case True
  with assms show ?thesis by (simp add: indexed_def update_key_node_no_labels)
next
  case False
  have "set (p (cluster_at (notLabelMap (update_key_node labels u e)) k)) \<subseteq> set (p (allCluster e))" for k
  proof (cases "notLabelMap e k")
    case (Some c)
    then have "cluster_at (notLabelMap e) k = c" by (simp add: at_key_def)
    then have "set (p c) \<subseteq> set (p (allCluster e))" using assms(1) by (auto simp: indexed_def)
    with Some False assms(2) show ?thesis by (auto simp: update_key_node_not_label)
  qed (use False assms in \<open>simp add: update_key_node_not_label\<close>)
  note not_label = this
  show ?thesis
  proof (rule indexedI)
    fix y assume "y \<in> set (p (allCluster (update_key_node labels u e)))"
    then show "label_key ` set (lab y) \<subseteq> dom (notLabelMap (update_key_node labels u e))"
      using indexedD(4) [OF assms(1), of y] assms(2) by (auto simp: update_key_node_dom)
  qed (use False assms indexedD(1,2) [OF assms(1)] not_label in \<open>simp_all add: update_key_node_maps(1,3)\<close>)
qed

text \<open>The removal of the elements that satisfy a predicate, everywhere.\<close>

lemma remove_from_key_node_at:
  "cluster_at (labelMap (remove_from_key_node d e)) kv = remove_node d (cluster_at (labelMap e) kv)"
  "cluster_at (notLabelMap (remove_from_key_node d e)) k = remove_node d (cluster_at (notLabelMap e) k)"
  "noLabelCluster (remove_from_key_node d e) = remove_node d (noLabelCluster e)"
  "allCluster (remove_from_key_node d e) = remove_node d (allCluster e)"
  "dom (notLabelMap (remove_from_key_node d e)) = dom (notLabelMap e)"
  by (auto simp: remove_from_key_node_def at_key_def remove_node_def dom_def split: option.split)

lemma remove_node_parts [simp]:
  "controllerInfo (remove_node d c) = controllerInfo c"
  "cluster_nodes (remove_node d c) = filter (\<lambda>n. \<not> same_service n d) (cluster_nodes c)"
  by (simp_all add: remove_node_def)

lemma push_parts [simp]:
  "controllerInfo (push_node d c) = controllerInfo c" "cluster_nodes (push_node d c) = cluster_nodes c @ [d]"
  "controllerInfo (push_controller i c) = controllerInfo c @ [i]" "cluster_nodes (push_controller i c) = cluster_nodes c"
  by (simp_all add: push_node_def push_controller_def)

lemma indexed_remove:
  "indexed controllerInfo lab e \<Longrightarrow> indexed controllerInfo lab (remove_from_key_node d e)"
  "indexed cluster_nodes lab' e \<Longrightarrow> indexed cluster_nodes lab' (remove_from_key_node d e)"
  by (fastforce simp: indexed_def remove_from_key_node_at conj_commute)+

end
