(* ===== verification/ServiceMatching.thy ===== *)
theory ServiceMatching
  imports DiscoveryIndex
begin

text \<open>
  What the store promises: that it calls the handlers that a comparison with every registered
  handler would call. The comparison is the specification; the store refines it for services
  whose labels are all mandatory, and in any case calls no handler that does not match. With
  optional labels it may miss handlers that match: not when all handlers were registered
  before the first service, but otherwise.
\<close>

section \<open>The specification: compare with everything\<close>

record 'h service_view =
  view_handlers :: "'h controller_cluster list"
  view_services :: "service_descriptor list"

type_synonym 'h linear_store = "string \<times> string \<Rightarrow> 'h service_view"

definition view_of :: "'h discovery_store \<Rightarrow> 'h linear_store" where
  "view_of s tk =
     \<lparr>view_handlers = controllerInfo (allCluster (entry_at s tk)),
      view_services = cluster_nodes (allCluster (entry_at s tk))\<rparr>"

definition change_services :: "discovery_type \<Rightarrow> service_descriptor \<Rightarrow> service_descriptor list \<Rightarrow> service_descriptor list" where
  "change_services changeType d ds =
     (case changeType of
        ServiceCreated \<Rightarrow> ds @ [d]
      | ServiceRemoved \<Rightarrow> filter (\<lambda>n. \<not> same_service n d) ds
      | Invalid \<Rightarrow> ds)"

definition linear_ServiceChange :: "(string \<Rightarrow> matching_label list result) \<Rightarrow> discovery_type \<Rightarrow> service_descriptor
    \<Rightarrow> 'h linear_store \<Rightarrow> 'h handler_call list result \<times> 'h linear_store" where
  "linear_ServiceChange parse_labels changeType d v =
     (case GetSupplementalDataItem controllerType_key d of
        None \<Rightarrow> (Inr [], v)
      | Some t \<Rightarrow>
          if \<not> allowed_controller t then (Inr [], v)
          else case service_labels parse_labels t d of
            Inl err \<Rightarrow> (Inl err, v)
          | Inr labels \<Rightarrow>
              let tk = (t, service_key t d);
                  called = filter (\<lambda>i. t = controllerTypeRpcServerInternal \<or> MatchLabels (cc_labels i) labels)
                    (view_handlers (v tk))
              in (Inr (map (\<lambda>i. CallHandler (cc_handler i) changeType d) called),
                  v(tk := (v tk)\<lparr>view_services := change_services changeType d (view_services (v tk))\<rparr>)))"

text \<open>The labels of a service that is in the store; they could be read.\<close>

definition known_labels :: "(string \<Rightarrow> matching_label list result) \<Rightarrow> string \<Rightarrow> service_descriptor \<Rightarrow> matching_label list" where
  "known_labels parse_labels t d = (case service_labels parse_labels t d of Inl _ \<Rightarrow> [] | Inr ls \<Rightarrow> ls)"

section \<open>The states the store reaches\<close>

inductive store_reachable :: "(string \<Rightarrow> matching_label list result) \<Rightarrow> 'h discovery_store \<Rightarrow> bool"
  for parse_labels where
  store_new: "store_reachable parse_labels new_store"
| store_change: "store_reachable parse_labels s \<Longrightarrow> ServiceChange parse_labels ev d s = (r, s') \<Longrightarrow>
    store_reachable parse_labels s'"
| store_register: "store_reachable parse_labels s \<Longrightarrow> store_RegisterHandler parse_labels h t k labels s = (r, s') \<Longrightarrow>
    store_reachable parse_labels s'"

definition entry_inv :: "(string \<Rightarrow> matching_label list result) \<Rightarrow> string \<Rightarrow> string \<Rightarrow> 'h discovery_key_node \<Rightarrow> bool" where
  "entry_inv parse_labels t k e \<longleftrightarrow>
     indexed controllerInfo cc_labels e \<and> indexed cluster_nodes (known_labels parse_labels t) e \<and>
     (\<forall>d\<in>set (cluster_nodes (allCluster e)).
        GetSupplementalDataItem controllerType_key d = Some t \<and> service_key t d = k \<and>
        service_labels parse_labels t d = Inr (known_labels parse_labels t d))"

definition store_inv :: "(string \<Rightarrow> matching_label list result) \<Rightarrow> 'h discovery_store \<Rightarrow> bool" where
  "store_inv parse_labels s \<longleftrightarrow> (\<forall>t k. entry_inv parse_labels t k (entry_at s (t, k)))"

lemma store_invI_upd:
  "store_inv parse_labels s \<Longrightarrow> entry_inv parse_labels t k e \<Longrightarrow> store_inv parse_labels (s((t, k) \<mapsto> e))"
  by (simp add: store_inv_def)

lemma store_invD: "store_inv parse_labels s \<Longrightarrow> entry_inv parse_labels t k (entry_at s (t, k))"
  by (simp add: store_inv_def)

lemma entry_inv_extends: "entry_inv parse_labels t k e \<Longrightarrow> extends e e' \<Longrightarrow> entry_inv parse_labels t k e'"
  using indexed_extends [of e e' controllerInfo cc_labels] indexed_extends [of e e' cluster_nodes "known_labels parse_labels t"]
  by (simp add: entry_inv_def extends_def)

lemma new_store_inv: "store_inv parse_labels new_store"
  by (simp add: store_inv_def entry_inv_def new_store_def indexed_empty)

lemma entry_inv_push_node:
  assumes "entry_inv parse_labels t k e" and "service_labels parse_labels t d = Inr labels"
    and "GetSupplementalDataItem controllerType_key d = Some t" "service_key t d = k"
  shows "entry_inv parse_labels t k (update_key_node labels (push_node d) e)"
  using assms unfolding entry_inv_def by (auto simp: known_labels_def intro: indexed_append indexed_unchanged)

lemma entry_inv_push_controller:
  assumes "entry_inv parse_labels t k e"
  shows "entry_inv parse_labels t k (update_key_node labels (push_controller \<lparr>cc_handler = h, cc_labels = labels\<rparr>) e)"
  using assms unfolding entry_inv_def
  by (auto intro!: indexed_append [where x = "\<lparr>cc_handler = h, cc_labels = labels\<rparr>"] intro: indexed_unchanged)

lemma entry_inv_remove:
  assumes "entry_inv parse_labels t k e"
  shows "entry_inv parse_labels t k (remove_from_key_node d e)"
  using assms unfolding entry_inv_def by (auto intro: indexed_remove simp: remove_from_key_node_at(4))

text \<open>An operation on the store is one on the entry of its type and key.\<close>

definition change_entry :: "discovery_type \<Rightarrow> matching_label list \<Rightarrow> service_descriptor \<Rightarrow> 'h discovery_key_node
    \<Rightarrow> 'h discovery_key_node" where
  "change_entry changeType labels d e =
     (case changeType of
        ServiceCreated \<Rightarrow> update_key_node labels (push_node d) e
      | ServiceRemoved \<Rightarrow> remove_from_key_node d e
      | Invalid \<Rightarrow> e)"

lemma ServiceChange_entry:
  assumes "GetSupplementalDataItem controllerType_key d = Some t" "allowed_controller t"
    and "service_labels parse_labels t d = Inr labels"
    and "GetLabelWithMinimalHandlerSet labels (entry_at s (t, service_key t d)) = (greedy, e)"
  shows "ServiceChange parse_labels ev d s =
    (Inr (map (\<lambda>i. CallHandler (cc_handler i) ev d)
       (filter (\<lambda>i. greedy = None \<and> t = controllerTypeRpcServerInternal \<or> MatchLabels (cc_labels i) labels)
         (candidates controllerInfo greedy e))),
     s((t, service_key t d) \<mapsto> change_entry ev labels d e))"
  using assms
  by (cases ev) (simp_all add: ServiceChange_def CallHandlersOnServiceChange_def Let_def InsertLookupNode_def
    UpdateDiscoveryClusters_def RemoveLookupNode_def change_entry_def)

lemma ServiceChange_ignores:
  assumes "\<And>t labels. GetSupplementalDataItem controllerType_key d = Some t \<Longrightarrow> allowed_controller t \<Longrightarrow>
    service_labels parse_labels t d = Inr labels \<Longrightarrow> False"
  shows "\<exists>r. ServiceChange parse_labels ev d s = (r, s) \<and>
    linear_ServiceChange parse_labels ev d v = (r, v)"
  using assms by (auto simp: ServiceChange_def linear_ServiceChange_def split: option.split sum.split)

text \<open>Either the service is of no concern to the store, or it has a type, a key and labels.\<close>

lemma service_cases:
  obtains (ignored) "\<And>t labels. GetSupplementalDataItem controllerType_key d = Some t \<Longrightarrow> allowed_controller t \<Longrightarrow>
    service_labels parse_labels t d = Inr labels \<Longrightarrow> False"
  | (stored) t labels where "GetSupplementalDataItem controllerType_key d = Some t" "allowed_controller t"
    "service_labels parse_labels t d = Inr labels"
  by blast

lemma entry_inv_change:
  assumes "entry_inv parse_labels t k e" and "service_labels parse_labels t d = Inr labels"
    and "GetSupplementalDataItem controllerType_key d = Some t" "service_key t d = k"
  shows "entry_inv parse_labels t k (change_entry ev labels d e)"
  using assms by (cases ev) (auto simp: change_entry_def intro!: entry_inv_push_node entry_inv_remove)

lemma ServiceChange_inv:
  assumes "store_inv parse_labels s"
  shows "store_inv parse_labels (snd (ServiceChange parse_labels ev d s))"
proof (cases rule: service_cases [of d parse_labels])
  case ignored
  then show ?thesis using ServiceChange_ignores [of d parse_labels ev s] assms by fastforce
next
  case (stored t labels)
  obtain g e where ge: "GetLabelWithMinimalHandlerSet labels (entry_at s (t, service_key t d)) = (g, e)" by fastforce
  then have "extends (entry_at s (t, service_key t d)) e"
    unfolding GetLabelWithMinimalHandlerSet_def by (rule minimal_label_extends)
  with store_invD [OF assms] have "entry_inv parse_labels t (service_key t d) e" by (rule entry_inv_extends)
  then show ?thesis
    using stored by (simp add: ServiceChange_entry [OF stored ge] store_invI_upd [OF assms] entry_inv_change)
qed

lemma store_RegisterHandler_entry:
  assumes "GetLabelWithMinimalNodeSet labels (entry_at s (t, k)) = (greedy, e)"
    and "call_for_nodes parse_labels h labels (candidates cluster_nodes greedy e) = (calls, err)"
  shows "store_RegisterHandler parse_labels h t k labels s =
    ((calls, err), s((t, k) \<mapsto> (if err = None
       then update_key_node labels (push_controller \<lparr>cc_handler = h, cc_labels = labels\<rparr>) e else e)))"
  using assms by (simp add: store_RegisterHandler_def CallHandlerOnHandlerRegistration_def InsertLookupHandler_def
    UpdateDiscoveryClusters_def Let_def)

lemma store_RegisterHandler_inv:
  assumes "store_inv parse_labels s"
  shows "store_inv parse_labels (snd (store_RegisterHandler parse_labels h t k labels s))"
proof -
  obtain g e where ge: "GetLabelWithMinimalNodeSet labels (entry_at s (t, k)) = (g, e)" by fastforce
  obtain calls err where ce: "call_for_nodes parse_labels h labels (candidates cluster_nodes g e) = (calls, err)" by fastforce
  from ge have "extends (entry_at s (t, k)) e"
    unfolding GetLabelWithMinimalNodeSet_def by (rule minimal_label_extends)
  with store_invD [OF assms] have "entry_inv parse_labels t k e" by (rule entry_inv_extends)
  then show ?thesis
    by (simp add: store_RegisterHandler_entry [OF ge ce] store_invI_upd [OF assms] entry_inv_push_controller)
qed

lemma store_reachable_inv: "store_reachable parse_labels s \<Longrightarrow> store_inv parse_labels s"
proof (induction rule: store_reachable.induct)
  case (store_change s ev d r s')
  then show ?case using ServiceChange_inv [of parse_labels s ev d] by simp
next
  case (store_register s h t k labels r s')
  then show ?case using store_RegisterHandler_inv [of parse_labels s h t k labels] by simp
qed (rule new_store_inv)

section \<open>Services are compared with the handlers that matter\<close>

lemma view_of_upd: "view_of (s(tk \<mapsto> e)) = (view_of s)(tk :=
    \<lparr>view_handlers = controllerInfo (allCluster e), view_services = cluster_nodes (allCluster e)\<rparr>)"
  by (simp add: view_of_def fun_eq_iff)

lemma change_entry_all:
  "controllerInfo (allCluster (change_entry ev labels d e)) = controllerInfo (allCluster e)"
  "cluster_nodes (allCluster (change_entry ev labels d e)) = change_services ev d (cluster_nodes (allCluster e))"
  by (cases ev; simp add: change_entry_def change_services_def remove_from_key_node_at)+

lemma view_of_ServiceChange:
  "view_of (snd (ServiceChange parse_labels ev d s)) = snd (linear_ServiceChange parse_labels ev d (view_of s))"
proof (cases rule: service_cases [of d parse_labels])
  case ignored
  then show ?thesis using ServiceChange_ignores [of d parse_labels ev s "view_of s"] by fastforce
next
  case (stored t labels)
  obtain g e where ge: "GetLabelWithMinimalHandlerSet labels (entry_at s (t, service_key t d)) = (g, e)" by fastforce
  then have "extends (entry_at s (t, service_key t d)) e"
    unfolding GetLabelWithMinimalHandlerSet_def by (rule minimal_label_extends)
  then have "allCluster e = allCluster (entry_at s (t, service_key t d))" by (simp add: extends_def)
  then show ?thesis
    by (simp add: ServiceChange_entry [OF stored ge] view_of_upd change_entry_all linear_ServiceChange_def
      stored Let_def) (simp add: view_of_def)
qed

text \<open>The handlers that are called, by the label that was chosen.\<close>

lemma called_are_registered:
  assumes "entry_inv parse_labels t k e0" "GetLabelWithMinimalHandlerSet labels e0 = (g, e)"
  shows "set (filter P (candidates controllerInfo g e)) \<subseteq> set (filter P (controllerInfo (allCluster e0)))"
proof -
  have x: "extends e0 e" using assms(2) unfolding GetLabelWithMinimalHandlerSet_def by (rule minimal_label_extends)
  then show ?thesis
    using candidates_sound [of controllerInfo cc_labels e0 g] assms(1)
    by (auto simp: entry_inv_def candidates_extends [OF x])
qed

lemma minimal_handler_choice:
  assumes "GetLabelWithMinimalHandlerSet labels e0 = (g, e)"
  shows "g = None \<or> (\<exists>l\<in>set labels. g = Some l)"
  using minimal_label_choice assms unfolding GetLabelWithMinimalHandlerSet_def by blast

lemma mandatory_handlers_called:
  assumes "entry_inv parse_labels t k e0" "GetLabelWithMinimalHandlerSet labels e0 = (g, e)" "all_mandatory labels"
  shows "filter (\<lambda>i. MatchLabels (cc_labels i) labels) (candidates controllerInfo g e) =
    filter (\<lambda>i. MatchLabels (cc_labels i) labels) (controllerInfo (allCluster e0))"
proof -
  have x: "extends e0 e" using assms(2) unfolding GetLabelWithMinimalHandlerSet_def by (rule minimal_label_extends)
  have "g = None \<or> (\<exists>l\<in>set labels. g = Some l \<and> label_kind l = Mandatory)"
    using minimal_handler_choice [OF assms(2)] assms(3) by (auto simp: list_all_iff)
  then show ?thesis
    using candidates_exact [of controllerInfo cc_labels e0 g labels] assms(1)
    by (simp add: entry_inv_def candidates_extends [OF x])
qed

lemma RpcServerInternal_has_no_labels:
  "service_labels parse_labels controllerTypeRpcServerInternal d = Inr []"
  by (simp add: service_labels_def labels_item_def discovery_keys)

definition mandatory_service :: "(string \<Rightarrow> matching_label list result) \<Rightarrow> service_descriptor \<Rightarrow> bool" where
  "mandatory_service parse_labels d \<longleftrightarrow>
     (case GetSupplementalDataItem controllerType_key d of
        None \<Rightarrow> True
      | Some t \<Rightarrow> (case service_labels parse_labels t d of Inl _ \<Rightarrow> True | Inr labels \<Rightarrow> all_mandatory labels))"

lemma store_refines:
  assumes "store_reachable parse_labels s" and "mandatory_service parse_labels d"
  shows "fst (ServiceChange parse_labels ev d s) = fst (linear_ServiceChange parse_labels ev d (view_of s)) \<and>
    view_of (snd (ServiceChange parse_labels ev d s)) = snd (linear_ServiceChange parse_labels ev d (view_of s))"
proof (intro conjI view_of_ServiceChange, cases rule: service_cases [of d parse_labels])
  case ignored
  then show "fst (ServiceChange parse_labels ev d s) = fst (linear_ServiceChange parse_labels ev d (view_of s))"
    using ServiceChange_ignores [of d parse_labels ev s "view_of s"] by fastforce
next
  case (stored t labels)
  let ?tk = "(t, service_key t d)"
  obtain g e where ge: "GetLabelWithMinimalHandlerSet labels (entry_at s ?tk) = (g, e)" by fastforce
  note inv = store_invD [OF store_reachable_inv [OF assms(1)]]
  have "filter (\<lambda>i. g = None \<and> t = controllerTypeRpcServerInternal \<or> MatchLabels (cc_labels i) labels) (candidates controllerInfo g e) =
      filter (\<lambda>i. t = controllerTypeRpcServerInternal \<or> MatchLabels (cc_labels i) labels) (view_handlers (view_of s ?tk))"
  proof (cases "t = controllerTypeRpcServerInternal")
    case True
    with stored(3) have "labels = []" by (simp add: RpcServerInternal_has_no_labels)
    with ge have "g = None \<and> e = entry_at s ?tk" by (simp add: GetLabelWithMinimalHandlerSet_def)
    with True show ?thesis by (simp add: candidates_def view_of_def)
  next
    case False
    have "all_mandatory labels" using assms(2) stored by (simp add: mandatory_service_def)
    from mandatory_handlers_called [OF inv ge this] False show ?thesis by (simp add: view_of_def)
  qed
  then show "fst (ServiceChange parse_labels ev d s) = fst (linear_ServiceChange parse_labels ev d (view_of s))"
    by (simp add: ServiceChange_entry [OF stored ge] linear_ServiceChange_def stored Let_def)
qed

text \<open>
  Claim C28: in every state that the store reaches, the creation or removal of a service whose
  labels, if any, are mandatory calls exactly the handlers that a comparison with every
  registered handler of its type and key calls, each once and in the order of registration,
  and throws when that throws; and the handlers and services the store then knows are those
  of the comparison. The index is an optimisation.
\<close>

theorem store_refines_comparison:
  assumes "store_reachable parse_labels s" and "mandatory_service parse_labels d"
  shows "fst (ServiceChange parse_labels ev d s) = fst (linear_ServiceChange parse_labels ev d (view_of s)) \<and>
    view_of (snd (ServiceChange parse_labels ev d s)) = snd (linear_ServiceChange parse_labels ev d (view_of s))"
  using store_refines [OF assms] .

text \<open>
  Whatever the labels, no handler is called that a comparison with every registered
  handler would not call, and the same services make both throw.
\<close>

theorem called_handlers_match:
  assumes "store_reachable parse_labels s" and "ServiceChange parse_labels ev d s = (Inr calls, s')"
  shows "\<exists>calls'. fst (linear_ServiceChange parse_labels ev d (view_of s)) = Inr calls' \<and> set calls \<subseteq> set calls'"
proof (cases rule: service_cases [of d parse_labels])
  case ignored
  then show ?thesis
    using ServiceChange_ignores [of d parse_labels ev s "view_of s"] assms(2) by fastforce
next
  case (stored t labels)
  let ?tk = "(t, service_key t d)"
  obtain g e where ge: "GetLabelWithMinimalHandlerSet labels (entry_at s ?tk) = (g, e)" by fastforce
  note inv = store_invD [OF store_reachable_inv [OF assms(1)]]
  have "set calls \<subseteq> (\<lambda>i. CallHandler (cc_handler i) ev d) ` set (filter (\<lambda>i. t = controllerTypeRpcServerInternal \<or>
      MatchLabels (cc_labels i) labels) (candidates controllerInfo g e))"
    using assms(2) by (auto simp: ServiceChange_entry [OF stored ge])
  also have "\<dots> \<subseteq> (\<lambda>i. CallHandler (cc_handler i) ev d) ` set (filter (\<lambda>i. t = controllerTypeRpcServerInternal \<or>
      MatchLabels (cc_labels i) labels) (controllerInfo (allCluster (entry_at s ?tk))))"
    by (intro image_mono called_are_registered [OF inv ge])
  finally show ?thesis by (simp add: linear_ServiceChange_def stored Let_def view_of_def)
qed

section \<open>A handler is told of the services there are\<close>

text \<open>The services say which labels they have: the code that creates them always does.\<close>

definition labelled_service :: "string \<Rightarrow> service_descriptor \<Rightarrow> bool" where
  "labelled_service t d \<longleftrightarrow>
     (t = controllerTypeDataPublisher \<longrightarrow> GetSupplementalDataItem supplKeyDataPublisherPubLabels d \<noteq> None) \<and>
     (t = controllerTypeRpcClient \<longrightarrow> GetSupplementalDataItem supplKeyRpcClientLabels d \<noteq> None)"

lemma GetLabels_known:
  assumes "GetSupplementalDataItem controllerType_key d = Some t" "labelled_service t d"
    and "service_labels parse_labels t d = Inr labels"
  shows "GetLabels parse_labels d = Inr labels"
  using assms
  by (auto simp: GetLabels_def GetSupplementalDataValue_def labelled_service_def service_labels_def labels_item_def
    discovery_keys split: option.splits if_splits)

lemma call_for_nodes_known:
  assumes "\<forall>d\<in>set ds. GetLabels parse_labels d = Inr (known_labels parse_labels t d)"
  shows "call_for_nodes parse_labels h labels ds =
    (map (CallHandler h ServiceCreated) (filter (\<lambda>d. MatchLabels (known_labels parse_labels t d) labels) ds), None)"
  using assms by (induction ds) (auto simp: MatchLabels_sym)

lemma told_services:
  assumes "store_reachable parse_labels s" and "all_mandatory labels"
    and "list_all (labelled_service t) (view_services (view_of s (t, k)))"
  shows "fst (store_RegisterHandler parse_labels h t k labels s) =
      (map (CallHandler h ServiceCreated)
         (filter (\<lambda>d. MatchLabels (known_labels parse_labels t d) labels) (view_services (view_of s (t, k)))), None) \<and>
    view_handlers (view_of (snd (store_RegisterHandler parse_labels h t k labels s)) (t, k)) =
      view_handlers (view_of s (t, k)) @ [\<lparr>cc_handler = h, cc_labels = labels\<rparr>]"
proof -
  let ?known = "known_labels parse_labels t" and ?e0 = "entry_at s (t, k)"
  obtain g e where ge: "GetLabelWithMinimalNodeSet labels ?e0 = (g, e)" by fastforce
  have x: "extends ?e0 e" using ge unfolding GetLabelWithMinimalNodeSet_def by (rule minimal_label_extends)
  have inv: "entry_inv parse_labels t k ?e0" by (rule store_invD [OF store_reachable_inv [OF assms(1)]])
  have "g = None \<or> (\<exists>l\<in>set labels. g = Some l)"
    using minimal_label_choice ge unfolding GetLabelWithMinimalNodeSet_def by blast
  with assms(2) have "g = None \<or> (\<exists>l\<in>set labels. g = Some l \<and> label_kind l = Mandatory)" by (auto simp: list_all_iff)
  with candidates_exact [of cluster_nodes ?known ?e0 g labels] inv
  have exact: "filter (\<lambda>d. MatchLabels (?known d) labels) (candidates cluster_nodes g e) =
      filter (\<lambda>d. MatchLabels (?known d) labels) (cluster_nodes (allCluster ?e0))"
    by (simp add: entry_inv_def candidates_extends [OF x])
  have "set (candidates cluster_nodes g e) \<subseteq> set (cluster_nodes (allCluster ?e0))"
    using candidates_sound [of cluster_nodes ?known ?e0 g] inv by (simp add: entry_inv_def candidates_extends [OF x])
  moreover have "GetLabels parse_labels d = Inr (?known d)" if "d \<in> set (cluster_nodes (allCluster ?e0))" for d
    using that inv assms(3) by (intro GetLabels_known) (auto simp: entry_inv_def view_of_def list_all_iff)
  ultimately have "call_for_nodes parse_labels h labels (candidates cluster_nodes g e) =
      (map (CallHandler h ServiceCreated) (filter (\<lambda>d. MatchLabels (?known d) labels) (cluster_nodes (allCluster ?e0))), None)"
    by (subst exact [symmetric], intro call_for_nodes_known) auto
  from store_RegisterHandler_entry [OF ge this] x show ?thesis
    by (simp add: view_of_def extends_def)
qed

text \<open>
  A handler whose labels, if any, are mandatory is called, when it is registered,
  for exactly the services of its type and key that match, each once and in the order in
  which they were created, and is registered then.
\<close>

theorem registered_handler_learns_the_services:
  assumes "store_reachable parse_labels s" and "all_mandatory labels"
    and "list_all (labelled_service t) (view_services (view_of s (t, k)))"
  shows "fst (store_RegisterHandler parse_labels h t k labels s) =
      (map (CallHandler h ServiceCreated)
         (filter (\<lambda>d. MatchLabels (known_labels parse_labels t d) labels) (view_services (view_of s (t, k)))), None) \<and>
    view_handlers (view_of (snd (store_RegisterHandler parse_labels h t k labels s)) (t, k)) =
      view_handlers (view_of s (t, k)) @ [\<lparr>cc_handler = h, cc_labels = labels\<rparr>]"
  using told_services [OF assms] .

end
