(* ===== verification/EarlyHandlers.thy ===== *)
theory EarlyHandlers
  imports ServiceMatching
begin

text \<open>
  Optional labels and the order in which handlers and services appear: handlers that are
  registered before the first service are told of every service that matches; a handler that
  is registered later, with a label that an earlier service had, hides the earlier ones.
\<close>

section \<open>Handlers that are registered first miss nothing\<close>

text \<open>
  An entry for the services without a label either lists every handler that has labels but not
  this one, or was made by a lookup, is empty and belongs to a label that no handler has.
\<close>

definition complete_for :: "string \<Rightarrow> 'h discovery_key_node \<Rightarrow> bool" where
  "complete_for k e \<longleftrightarrow>
     (\<forall>c. notLabelMap e k = Some c \<longrightarrow>
        (\<forall>i\<in>set (controllerInfo (allCluster e)). cc_labels i \<noteq> [] \<and> value_of k (cc_labels i) = None \<longrightarrow>
           i \<in> set (controllerInfo c)))"

definition looked_up_only :: "string \<Rightarrow> 'h discovery_key_node \<Rightarrow> bool" where
  "looked_up_only k e \<longleftrightarrow>
     controllerInfo (cluster_at (notLabelMap e) k) = [] \<and>
     (\<forall>i\<in>set (controllerInfo (allCluster e)). value_of k (cc_labels i) = None)"

definition early_entry :: "'h discovery_key_node \<Rightarrow> bool" where
  "early_entry e \<longleftrightarrow> (\<forall>k. complete_for k e \<or> looked_up_only k e)"

lemma early_touch:
  assumes "early_entry e" "indexed controllerInfo cc_labels e"
  shows "early_entry (touch_label l e)" "early_entry (touch_not_label l e)"
proof -
  show "early_entry (touch_label l e)"
    using assms(1) by (simp add: early_entry_def complete_for_def looked_up_only_def touch_label_def)
  have "looked_up_only (label_key l) (touch_not_label l e)" if "notLabelMap e (label_key l) = None"
    using indexedD(4) [OF assms(2)] that
    by (fastforce simp: looked_up_only_def touch_not_label_def at_key_def touch_def value_of_None_iff)
  moreover have "touch_not_label l e = e" if "notLabelMap e (label_key l) = Some c" for c
    using that by (simp add: touch_not_label_def touch_def at_key_def fun_upd_idem)
  moreover have "complete_for k (touch_not_label l e) \<longleftrightarrow> complete_for k e"
    "looked_up_only k (touch_not_label l e) \<longleftrightarrow> looked_up_only k e" if "k \<noteq> label_key l" for k
    using that by (simp_all add: complete_for_def looked_up_only_def touch_not_label_def touch_def at_key_def)
  ultimately show "early_entry (touch_not_label l e)"
    using assms(1) unfolding early_entry_def by (metis option.exhaust)
qed

lemma minimal_label_early:
  assumes "minimal_label size_of ls n g e = (g', e')" "early_entry e" "indexed controllerInfo cc_labels e"
  shows "early_entry e'"
  using assms
proof (induction size_of ls n g e arbitrary: g' e' rule: minimal_label.induct)
  case (2 size_of l ls n g e)
  let ?t = "case label_kind l of Mandatory \<Rightarrow> touch_label l e | Optional \<Rightarrow> touch_not_label l (touch_label l e)"
  have "indexed controllerInfo cc_labels (touch_label l e)"
    using "2.prems"(3) by (rule indexed_extends [OF extends_touch(1)])
  then have "early_entry ?t" "indexed controllerInfo cc_labels ?t"
    using early_touch [OF "2.prems"(2,3)] early_touch(2) [of "touch_label l e"] 
      indexed_extends [OF extends_touch(2), of controllerInfo cc_labels "touch_label l e" l]
      indexed_extends [OF extends_touch(1), of controllerInfo cc_labels e l] "2.prems"(3)
    by (auto split: label_kind.split)
  with 2 show ?case
    by (cases "n \<le> 1"; cases "label_kind l") (auto simp: Let_def split: if_splits)
qed simp

lemma minimal_label_chosen:
  assumes "minimal_label size_of ls n g e = (g', e')"
  shows "g' = g \<or> (\<exists>l. g' = Some l \<and> (label_kind l = Optional \<longrightarrow>
    0 < size_of (cluster_at (labelMap e') (label_key l, label_value l)) + size_of (cluster_at (notLabelMap e') (label_key l))))"
  using assms
proof (induction size_of ls n g e arbitrary: g' e' rule: minimal_label.induct)
  case (2 size_of l ls n g e)
  show ?case
  proof (cases "n \<le> 1")
    case False
    let ?t = "case label_kind l of Mandatory \<Rightarrow> touch_label l e | Optional \<Rightarrow> touch_not_label l (touch_label l e)"
    have "extends ?t e'" using 2 False
      by (cases "label_kind l") (auto simp: Let_def split: if_splits dest: minimal_label_extends)
    then have same: "cluster_at (labelMap e') = cluster_at (labelMap ?t)" "cluster_at (notLabelMap e') = cluster_at (notLabelMap ?t)"
      by (simp_all add: extends_def)
    show ?thesis
    proof (cases "label_kind l")
      case Optional
      with 2 False show ?thesis unfolding same by (fastforce simp: Let_def same split: if_splits)
    next
      case Mandatory
      with 2 False show ?thesis by (fastforce simp: Let_def split: if_splits)
    qed
  qed (use 2 in simp)
qed simp

lemma matching_handlers_are_candidates:
  assumes "entry_inv parse_labels t k e0" "early_entry e0" "GetLabelWithMinimalHandlerSet labels e0 = (g, e)"
    and "i \<in> set (controllerInfo (allCluster e0))" "MatchLabels (cc_labels i) labels"
  shows "i \<in> set (candidates controllerInfo g e)"
proof (cases g)
  case None
  have "extends e0 e" using assms(3) unfolding GetLabelWithMinimalHandlerSet_def by (rule minimal_label_extends)
  with None assms(4) show ?thesis by (simp add: candidates_def extends_def)
next
  case (Some l)
  have x: "extends e0 e" using assms(3) unfolding GetLabelWithMinimalHandlerSet_def by (rule minimal_label_extends)
  have ix: "indexed controllerInfo cc_labels e0" using assms(1) by (simp add: entry_inv_def)
  have l: "l \<in> set labels" using minimal_handler_choice [OF assms(3)] Some by simp
  let ?k = "label_key l" and ?v = "label_value l"
  have labelled: "controllerInfo (cluster_at (labelMap e0) (?k, ?v)) =
      filter (\<lambda>x. value_of ?k (cc_labels x) = Some ?v) (controllerInfo (allCluster e0))"
    by (rule indexedD(1) [OF ix])
  show ?thesis
  proof (cases "value_of ?k (cc_labels i)")
    case (Some v)
    with MatchLabels_value [OF assms(5) l] have "value_of ?k (cc_labels i) = Some ?v" by simp
    with labelled assms(4) \<open>g = Some l\<close> show ?thesis
      unfolding candidates_extends [OF x] by (simp add: candidates_def)
  next
    case None
    with MatchLabels_value [OF assms(5) l] have opt: "label_kind l = Optional" by simp
    have "0 < length (controllerInfo (cluster_at (labelMap e0) (?k, ?v))) + length (controllerInfo (cluster_at (notLabelMap e0) ?k))"
      using minimal_label_chosen [of "\<lambda>c. length (controllerInfo c)" labels _ None e0 g e] assms(3) \<open>g = Some l\<close> opt x
      by (simp add: GetLabelWithMinimalHandlerSet_def extends_def)
    then have "\<not> looked_up_only ?k e0"
      by (auto simp: looked_up_only_def labelled filter_empty_conv)
    with assms(2) have complete: "complete_for ?k e0" by (auto simp: early_entry_def)
    have "notLabelMap e0 ?k \<noteq> None"
    proof
      assume none: "notLabelMap e0 ?k = None"
      then have "value_of ?k (cc_labels j) = None" if "j \<in> set (controllerInfo (allCluster e0))" for j
        using indexedD(4) [OF ix that] by (auto simp: value_of_None_iff dom_def)
      with none \<open>\<not> looked_up_only ?k e0\<close> show False by (simp add: looked_up_only_def at_key_def)
    qed
    then obtain c where c: "notLabelMap e0 ?k = Some c" by auto
    then have "cc_labels i \<noteq> [] \<Longrightarrow> i \<in> set (controllerInfo (cluster_at (notLabelMap e0) ?k))"
      using complete assms(4) None by (auto simp: complete_for_def at_key_def)
    moreover have "cc_labels i = [] \<Longrightarrow> i \<in> set (controllerInfo (noLabelCluster e0))"
      using indexedD(2) [OF ix] assms(4) by simp
    ultimately show ?thesis
      using \<open>g = Some l\<close> opt unfolding candidates_extends [OF x] by (auto simp: candidates_def)
  qed
qed

text \<open>What the updates of the store do to such an entry.\<close>

lemma update_not_label_cases:
  assumes "labels \<noteq> []"
  obtains (known) c where "notLabelMap e k = Some c"
      "notLabelMap (update_key_node labels u e) k = Some (if value_of k labels = None then u c else c)"
  | (new) "notLabelMap e k = None" "value_of k labels \<noteq> None"
      "notLabelMap (update_key_node labels u e) k = Some (u (allCluster e))"
  | (unknown) "notLabelMap e k = None" "value_of k labels = None"
      "notLabelMap (update_key_node labels u e) k = None"
  using update_key_node_maps(2) [OF assms, of u e k]
  by (cases "notLabelMap e k"; cases "value_of k labels = None") simp_all

lemma early_push_node:
  assumes "early_entry e"
  shows "early_entry (update_key_node labels (push_node d) e)"
proof (cases "labels = []")
  case True
  with assms show ?thesis
    by (simp add: early_entry_def complete_for_def looked_up_only_def update_key_node_no_labels)
next
  case False
  show ?thesis unfolding early_entry_def
  proof
    fix k
    have "complete_for k e \<or> looked_up_only k e" using assms by (simp add: early_entry_def)
    then show "complete_for k (update_key_node labels (push_node d) e) \<or> looked_up_only k (update_key_node labels (push_node d) e)"
      by (cases rule: update_not_label_cases [OF False, of e k "push_node d"])
        (auto simp: complete_for_def looked_up_only_def at_key_def)
  qed
qed

lemma early_remove:
  assumes "early_entry e"
  shows "early_entry (remove_from_key_node d e)"
  unfolding early_entry_def
proof
  fix k
  have "complete_for k e \<or> looked_up_only k e" using assms by (simp add: early_entry_def)
  then show "complete_for k (remove_from_key_node d e) \<or> looked_up_only k (remove_from_key_node d e)"
    by (auto simp: complete_for_def looked_up_only_def remove_from_key_node_def at_key_def)
qed

lemma early_change_entry: "early_entry e \<Longrightarrow> early_entry (change_entry ev labels d e)"
  by (cases ev) (simp_all add: change_entry_def early_push_node early_remove)

lemma complete_push_controller:
  assumes "complete_for k e" and "cc_labels i = labels"
  shows "complete_for k (update_key_node labels (push_controller i) e)"
proof (cases "labels = []")
  case True
  with assms show ?thesis by (auto simp: complete_for_def update_key_node_no_labels)
next
  case False
  with assms show ?thesis
    by (cases rule: update_not_label_cases [OF False, of e k "push_controller i"])
      (auto simp: complete_for_def)
qed

text \<open>First the handlers are registered, then the services come and go.\<close>

definition register_handlers :: "(string \<Rightarrow> matching_label list result)
    \<Rightarrow> ('h \<times> string \<times> string \<times> matching_label list) list \<Rightarrow> 'h discovery_store \<Rightarrow> 'h discovery_store" where
  "register_handlers parse_labels hs s =
     fold (\<lambda>(h, t, k, labels) s. snd (store_RegisterHandler parse_labels h t k labels s)) hs s"

definition change_all :: "(string \<Rightarrow> matching_label list result) \<Rightarrow> (discovery_type \<times> service_descriptor) list
    \<Rightarrow> 'h discovery_store \<Rightarrow> 'h discovery_store" where
  "change_all parse_labels evs s = fold (\<lambda>(ev, d) s. snd (ServiceChange parse_labels ev d s)) evs s"

definition only_handlers :: "'h discovery_store \<Rightarrow> bool" where
  "only_handlers s \<longleftrightarrow> (\<forall>tk. cluster_nodes (allCluster (entry_at s tk)) = [] \<and> (\<forall>k. complete_for k (entry_at s tk)))"

definition early_store :: "'h discovery_store \<Rightarrow> bool" where
  "early_store s \<longleftrightarrow> (\<forall>tk. early_entry (entry_at s tk))"

lemma store_reachable_register: "store_reachable parse_labels s \<Longrightarrow> store_reachable parse_labels (register_handlers parse_labels hs s)"
proof (induction hs arbitrary: s)
  case (Cons a hs)
  obtain h t k labels where a: "a = (h, t, k, labels)" by (cases a)
  have "store_reachable parse_labels (snd (store_RegisterHandler parse_labels h t k labels s))"
    by (rule store_register [OF Cons.prems, of h t k labels "fst (store_RegisterHandler parse_labels h t k labels s)"]) simp
  from Cons.IH [OF this] show ?case by (simp add: register_handlers_def a)
qed (simp add: register_handlers_def)

lemma store_reachable_change: "store_reachable parse_labels s \<Longrightarrow> store_reachable parse_labels (change_all parse_labels evs s)"
proof (induction evs arbitrary: s)
  case (Cons a evs)
  obtain ev d where a: "a = (ev, d)" by (cases a)
  have "store_reachable parse_labels (snd (ServiceChange parse_labels ev d s))"
    by (rule store_change [OF Cons.prems, of ev d "fst (ServiceChange parse_labels ev d s)"]) simp
  from Cons.IH [OF this] show ?case by (simp add: change_all_def a)
qed (simp add: change_all_def)

lemma only_handlers_step:
  assumes "only_handlers s" "store_inv parse_labels s"
  shows "only_handlers (snd (store_RegisterHandler parse_labels h t k labels s))"
proof -
  let ?e = "entry_at s (t, k)"
  have ge: "GetLabelWithMinimalNodeSet labels ?e = (None, ?e)"
    using assms(1) by (cases labels) (simp_all add: GetLabelWithMinimalNodeSet_def only_handlers_def)
  have "call_for_nodes parse_labels h labels (candidates cluster_nodes None ?e) = ([], None)"
    using assms(1) by (simp add: candidates_def only_handlers_def)
  from store_RegisterHandler_entry [OF ge this] show ?thesis
    using assms(1) by (simp add: only_handlers_def complete_push_controller)
qed

lemma only_handlers_register:
  "only_handlers s \<Longrightarrow> store_inv parse_labels s \<Longrightarrow> only_handlers (register_handlers parse_labels hs s)"
proof (induction hs arbitrary: s)
  case (Cons a hs)
  obtain h t k labels where a: "a = (h, t, k, labels)" by (cases a)
  from Cons.IH [OF only_handlers_step [OF Cons.prems] store_RegisterHandler_inv [OF Cons.prems(2)]]
  show ?case by (simp add: register_handlers_def a)
qed (simp add: register_handlers_def)

lemma early_store_step:
  assumes "early_store s" "store_inv parse_labels s"
  shows "early_store (snd (ServiceChange parse_labels ev d s))"
proof (cases rule: service_cases [of d parse_labels])
  case ignored
  then show ?thesis using ServiceChange_ignores [of d parse_labels ev s] assms by fastforce
next
  case (stored t labels)
  let ?e0 = "entry_at s (t, service_key t d)"
  obtain g e where ge: "GetLabelWithMinimalHandlerSet labels ?e0 = (g, e)" by fastforce
  have "early_entry ?e0" "indexed controllerInfo cc_labels ?e0"
    using assms store_invD [OF assms(2)] by (simp_all add: early_store_def entry_inv_def)
  with ge have "early_entry e" unfolding GetLabelWithMinimalHandlerSet_def by (rule minimal_label_early)
  then show ?thesis
    using assms(1) by (simp add: ServiceChange_entry [OF stored ge] early_store_def early_change_entry)
qed

lemma early_store_change:
  "early_store s \<Longrightarrow> store_inv parse_labels s \<Longrightarrow> early_store (change_all parse_labels evs s)"
proof (induction evs arbitrary: s)
  case (Cons a evs)
  obtain ev d where a: "a = (ev, d)" by (cases a)
  from Cons.IH [OF early_store_step [OF Cons.prems] ServiceChange_inv [OF Cons.prems(2)]]
  show ?case by (simp add: change_all_def a)
qed (simp add: change_all_def)

text \<open>
  Claim C29: when all handlers were registered before the first service, every creation or
  removal of a service calls the handlers that a comparison with every registered handler
  calls, and no others, also where labels are optional (but possibly more than once).
\<close>

theorem early_handlers_miss_nothing:
  assumes "s = change_all parse_labels evs (register_handlers parse_labels hs new_store)"
    and "ServiceChange parse_labels ev d s = (Inr calls, s')"
  shows "\<exists>calls'. fst (linear_ServiceChange parse_labels ev d (view_of s)) = Inr calls' \<and> set calls = set calls'"
proof (cases rule: service_cases [of d parse_labels])
  case ignored
  then show ?thesis
    using ServiceChange_ignores [of d parse_labels ev s "view_of s"] assms(2) by fastforce
next
  case (stored t labels)
  let ?tk = "(t, service_key t d)" and ?r = "register_handlers parse_labels hs new_store"
  let ?P = "\<lambda>i. t = controllerTypeRpcServerInternal \<or> MatchLabels (cc_labels i) labels"
  obtain g e where ge: "GetLabelWithMinimalHandlerSet labels (entry_at s ?tk) = (g, e)" by fastforce
  have inv_r: "store_inv parse_labels ?r"
    by (intro store_reachable_inv store_reachable_register store_reachable.store_new)
  have inv: "store_inv parse_labels s" unfolding assms(1)
    by (intro store_reachable_inv store_reachable_change store_reachable_register store_reachable.store_new)
  have "only_handlers ?r"
    by (rule only_handlers_register [OF _ new_store_inv])
      (simp add: only_handlers_def new_store_def complete_for_def)
  then have "early_store ?r" by (simp add: early_store_def only_handlers_def early_entry_def)
  with inv_r have early: "early_entry (entry_at s tk)" for tk
    using early_store_change [of ?r parse_labels evs] unfolding early_store_def assms(1) by blast
  have all: "i \<in> set (candidates controllerInfo g e)" if "i \<in> set (controllerInfo (allCluster (entry_at s ?tk)))" "?P i" for i
  proof (cases "t = controllerTypeRpcServerInternal")
    case True
    with stored(3) have "labels = []" by (simp add: RpcServerInternal_has_no_labels)
    with ge that(1) show ?thesis by (auto simp: GetLabelWithMinimalHandlerSet_def candidates_def)
  next
    case False
    with that show ?thesis
      using matching_handlers_are_candidates [OF store_invD [OF inv] early ge] by simp
  qed
  have "g = None" if "t = controllerTypeRpcServerInternal"
    using ge stored(3) that by (simp add: RpcServerInternal_has_no_labels GetLabelWithMinimalHandlerSet_def)
  then have calls: "calls = map (\<lambda>i. CallHandler (cc_handler i) ev d) (filter ?P (candidates controllerInfo g e))"
    using assms(2) by (cases "t = controllerTypeRpcServerInternal") (auto simp: ServiceChange_entry [OF stored ge])
  have "set (filter ?P (candidates controllerInfo g e)) = set (filter ?P (controllerInfo (allCluster (entry_at s ?tk))))"
    using called_are_registered [OF store_invD [OF inv] ge, of ?P] all by auto
  then show ?thesis
    by (simp add: linear_ServiceChange_def stored Let_def view_of_def calls)
qed

section \<open>Examples\<close>

definition example_parse :: "string \<Rightarrow> matching_label list result" where
  "example_parse text =
     (if text = ''optional'' then Inr [\<lparr>label_key = ''k'', label_value = ''v'', label_kind = Optional\<rparr>]
      else if text = ''mandatory'' then Inr [\<lparr>label_key = ''k'', label_value = ''v'', label_kind = Mandatory\<rparr>]
      else if text = [] then Inr [] else Inl TypeConversionError)"

definition example_publisher :: "64 word \<Rightarrow> string \<Rightarrow> service_descriptor" where
  "example_publisher n text =
     \<lparr>sd_participantName = ''P'', sd_participantId = 7, sd_serviceType = 2, sd_networkName = ''N'', sd_networkType = 6,
      sd_serviceName = ''S'', sd_serviceId = n,
      sd_supplementalData = [(controllerType_key, controllerTypeDataPublisher), (supplKeyDataPublisherTopic, ''T''),
        (supplKeyDataPublisherPubLabels, text)]\<rparr>"

definition opt_label :: "string \<Rightarrow> string \<Rightarrow> matching_label" where
  "opt_label k v = \<lparr>label_key = k, label_value = v, label_kind = Optional\<rparr>"

definition mand_label :: "string \<Rightarrow> string \<Rightarrow> matching_label" where
  "mand_label k v = \<lparr>label_key = k, label_value = v, label_kind = Mandatory\<rparr>"

text \<open>Looking up in an updated entry, without computing the entry.\<close>

lemma touched_maps [simp]:
  "cluster_at (labelMap (touch_label l e)) kv = cluster_at (labelMap e) kv"
  "notLabelMap (touch_label l e) = notLabelMap e"
  "noLabelCluster (touch_label l e) = noLabelCluster e" "allCluster (touch_label l e) = allCluster e"
  "cluster_at (labelMap (touch_not_label l e)) kv = cluster_at (labelMap e) kv"
  "notLabelMap (touch_not_label l e) k =
     (if k = label_key l then Some (cluster_at (notLabelMap e) k) else notLabelMap e k)"
  "noLabelCluster (touch_not_label l e) = noLabelCluster e" "allCluster (touch_not_label l e) = allCluster e"
  by (simp_all add: touch_label_def touch_not_label_def touch_def)

lemma touched_not_label:
  "cluster_at (notLabelMap (touch_not_label l e)) k = cluster_at (notLabelMap e) k"
  by (simp add: touch_not_label_def)

lemma update_no_labels_maps:
  "labelMap (update_key_node [] u e) = labelMap e" "notLabelMap (update_key_node [] u e) = notLabelMap e"
  "noLabelCluster (update_key_node [] u e) = u (noLabelCluster e)"
  by (simp_all add: update_key_node_no_labels)

lemmas store_eval = ServiceChange_def CallHandlersOnServiceChange_def GetLabelWithMinimalHandlerSet_def
  store_RegisterHandler_def CallHandlerOnHandlerRegistration_def GetLabelWithMinimalNodeSet_def
  InsertLookupHandler_def InsertLookupNode_def UpdateDiscoveryClusters_def
  update_key_node_maps update_no_labels_maps update_key_node_not_label touched_not_label
  candidates_def service_labels_def labels_item_def GetSupplementalDataItem_def GetSupplementalDataValue_def
  GetLabels_def item_or_empty_def service_key_def allowed_controller_def MatchLabels_def LabelMatchesLabelList_def
  Let_def new_store_def discovery_keys example_publisher_def example_parse_def opt_label_def mand_label_def

text \<open>
  A handler can hide others. The state of the entry is followed through two lookups: the first
  finds no handler with the label and leaves an empty entry for the handlers without its key,
  so a handler that is registered then has no reason to enter the others there.
\<close>

definition service_at :: "(string \<Rightarrow> matching_label list result) \<Rightarrow> string \<Rightarrow> string \<Rightarrow> matching_label list
    \<Rightarrow> service_descriptor \<Rightarrow> bool" where
  "service_at parse_labels t k labels d \<longleftrightarrow>
     GetSupplementalDataItem controllerType_key d = Some t \<and> allowed_controller t \<and>
     service_labels parse_labels t d = Inr labels \<and> service_key t d = k \<and> labelled_service t d"

definition optional_other_than :: "string \<Rightarrow> matching_label list \<Rightarrow> bool" where
  "optional_other_than key labels \<longleftrightarrow>
     labels \<noteq> [] \<and> list_all (\<lambda>l. label_kind l = Optional \<and> label_key l \<noteq> key) labels"

definition handlers_at :: "string \<Rightarrow> string \<Rightarrow> ('h \<times> matching_label list) list
    \<Rightarrow> ('h \<times> string \<times> string \<times> matching_label list) list" where
  "handlers_at t k hs = map (\<lambda>(h, labels). (h, t, k, labels)) hs"

definition infos :: "('h \<times> matching_label list) list \<Rightarrow> 'h controller_cluster list" where
  "infos hs = map (\<lambda>(h, labels). \<lparr>cc_handler = h, cc_labels = labels\<rparr>) hs"

definition called_in :: "('h handler_call list result) \<Rightarrow> 'h list \<Rightarrow> service_descriptor \<Rightarrow> bool" where
  "called_in r hs d \<longleftrightarrow> r = Inr (map (\<lambda>h. CallHandler h ServiceCreated d) hs)"

lemma optional_other_than_value: "optional_other_than key labels \<Longrightarrow> value_of key labels = None"
  by (auto simp: optional_other_than_def value_of_None_iff list_all_iff)

lemma optional_other_than_matches:
  assumes "optional_other_than (label_key l) labels" "label_kind l = Optional"
  shows "MatchLabels labels [l]"
  using assms optional_other_than_value [OF assms(1)]
  by (fastforce simp: MatchLabels_def LabelMatchesLabelList_iff optional_other_than_def list_all_iff)

lemma registered_others:
  assumes "only_handlers s" "store_inv parse_labels s" "notLabelMap (entry_at s (t, k)) key = None"
    and "\<forall>h\<in>set hs. optional_other_than key (snd h)"
  shows "let e = entry_at (register_handlers parse_labels (handlers_at t k hs) s) (t, k) in
    controllerInfo (allCluster e) = controllerInfo (allCluster (entry_at s (t, k))) @ infos hs \<and>
    notLabelMap e key = None"
  using assms
proof (induction hs arbitrary: s)
  case Nil
  then show ?case by (simp add: register_handlers_def handlers_at_def infos_def)
next
  case (Cons a hs)
  obtain h labels where a: "a = (h, labels)" by (cases a)
  let ?e = "entry_at s (t, k)" and ?s = "snd (store_RegisterHandler parse_labels h t k labels s)"
  have labels: "labels \<noteq> []" "value_of key labels = None"
    using Cons.prems(4) a optional_other_than_value by (auto simp: optional_other_than_def)
  have ge: "GetLabelWithMinimalNodeSet labels ?e = (None, ?e)"
    using Cons.prems(1) by (cases labels) (simp_all add: GetLabelWithMinimalNodeSet_def only_handlers_def)
  have "call_for_nodes parse_labels h labels (candidates cluster_nodes None ?e) = ([], None)"
    using Cons.prems(1) by (simp add: candidates_def only_handlers_def)
  then have s: "entry_at ?s (t, k) = update_key_node labels (push_controller \<lparr>cc_handler = h, cc_labels = labels\<rparr>) ?e"
    by (simp add: store_RegisterHandler_entry [OF ge])
  have "notLabelMap (entry_at ?s (t, k)) key = None"
    using Cons.prems(3) labels by (simp add: s update_key_node_maps)
  from Cons.IH [OF only_handlers_step [OF Cons.prems(1,2)] store_RegisterHandler_inv [OF Cons.prems(2)] this] Cons.prems(4)
  show ?case by (simp add: register_handlers_def handlers_at_def infos_def a s Let_def)
qed

text \<open>What the first lookup leaves behind, and what the late handler makes of it.\<close>

definition hiding_entry :: "matching_label \<Rightarrow> 'h controller_cluster list \<Rightarrow> service_descriptor
    \<Rightarrow> 'h discovery_key_node \<Rightarrow> bool" where
  "hiding_entry l is d e \<longleftrightarrow>
     cluster_nodes (allCluster e) = [d] \<and> controllerInfo (allCluster e) = is \<and>
     notLabelMap e (label_key l) = Some empty_cluster \<and>
     controllerInfo (cluster_at (labelMap e) (label_key l, label_value l)) = [] \<and>
     controllerInfo (noLabelCluster e) = []"

lemma infos_others:
  assumes "label_kind l = Optional" and "\<forall>h\<in>set hs. optional_other_than (label_key l) (snd h)"
  shows "\<forall>i\<in>set (infos hs). value_of (label_key l) (cc_labels i) = None \<and> cc_labels i \<noteq> [] \<and> MatchLabels (cc_labels i) [l]"
    and "filter (\<lambda>i. MatchLabels (cc_labels i) [l]) (infos hs) = infos hs"
proof -
  show "\<forall>i\<in>set (infos hs). value_of (label_key l) (cc_labels i) = None \<and> cc_labels i \<noteq> [] \<and> MatchLabels (cc_labels i) [l]"
    using assms by (auto simp: infos_def optional_other_than_value optional_other_than_matches)
      (auto simp: optional_other_than_def)
  then show "filter (\<lambda>i. MatchLabels (cc_labels i) [l]) (infos hs) = infos hs" by (simp add: filter_id_conv)
qed

lemma infos_calls:
  "map (\<lambda>i. CallHandler (cc_handler i) ServiceCreated d) (infos hs) = map (\<lambda>h. CallHandler h ServiceCreated d) (map fst hs)"
  by (simp add: infos_def split_def)

lemma labelled_not_internal:
  "service_at parse_labels t k [l] d \<Longrightarrow> t \<noteq> controllerTypeRpcServerInternal"
  by (auto simp: service_at_def RpcServerInternal_has_no_labels)

lemma first_lookup_leaves_an_empty_entry:
  fixes hs :: "('h \<times> matching_label list) list"
  assumes "label_kind l = Optional" and "\<forall>h\<in>set hs. optional_other_than (label_key l) (snd h)" and "2 \<le> length hs"
    and "service_at parse_labels t k [l] d"
  defines "s \<equiv> register_handlers parse_labels (handlers_at t k hs) new_store"
  shows "\<exists>e. ServiceChange parse_labels ServiceCreated d s =
      (Inr (map (\<lambda>i. CallHandler (cc_handler i) ServiceCreated d) (infos hs)), s((t, k) \<mapsto> e)) \<and> hiding_entry l (infos hs) d e"
proof -
  let ?e = "entry_at s (t, k)" and ?key = "label_key l"
  let ?e1 = "touch_not_label l (touch_label l ?e)"
  let ?e2 = "change_entry ServiceCreated [l] d ?e1"
  have new: "only_handlers (new_store :: 'h discovery_store)" by (simp add: only_handlers_def new_store_def complete_for_def)
  have inv: "store_inv parse_labels s" unfolding s_def
    by (intro store_reachable_inv store_reachable_register store_reachable.store_new)
  have nodes: "cluster_nodes (allCluster ?e) = []"
    using only_handlers_register [OF new new_store_inv] by (simp add: only_handlers_def s_def)
  have e: "controllerInfo (allCluster ?e) = infos hs" "notLabelMap ?e ?key = None"
    using registered_others [OF new new_store_inv, of t k ?key hs] assms(2) by (simp_all add: new_store_def Let_def s_def)
  note others = infos_others [OF assms(1,2)]
  have ix: "indexed controllerInfo cc_labels ?e" using store_invD [OF inv, of t k] by (simp add: entry_inv_def)
  have none: "controllerInfo (cluster_at (labelMap ?e) (?key, label_value l)) = []" "controllerInfo (noLabelCluster ?e) = []"
    using indexedD(1,2) [OF ix] others(1) by (auto simp: e filter_empty_conv)
  have nl: "cluster_at (notLabelMap ?e) ?key = empty_cluster" using e(2) by (simp add: at_key_def)
  have len: "length (infos hs) = length hs" by (simp add: infos_def)
  have g: "GetLabelWithMinimalHandlerSet [l] ?e = (None, ?e1)"
    using assms(1,3) by (simp add: GetLabelWithMinimalHandlerSet_def Let_def touched_not_label e len none nl)
  have "ServiceChange parse_labels ServiceCreated d s =
      (Inr (map (\<lambda>i. CallHandler (cc_handler i) ServiceCreated d) (infos hs)), s((t, k) \<mapsto> ?e2))"
    using ServiceChange_entry [of d t parse_labels "[l]" s None ?e1 ServiceCreated] assms(4) g labelled_not_internal [OF assms(4)]
    by (simp add: candidates_def e others(2) service_at_def)
  moreover have "hiding_entry l (infos hs) d ?e2"
    by (simp add: hiding_entry_def change_entry_def nodes e none nl update_key_node_maps)
  ultimately show ?thesis by blast
qed

lemma late_handler_is_alone:
  assumes "hiding_entry l is d1 (entry_at s (t, k))" and "label_kind l = Optional" "2 \<le> length is"
    and "service_at parse_labels t k [l] d1" "service_at parse_labels t k [l] d2"
    and "value_of (label_key l) labels = Some (label_value l)" "MatchLabels labels [l]"
    and "store_RegisterHandler parse_labels h t k labels s = (r, s2)"
  shows "r = ([CallHandler h ServiceCreated d1], None) \<and>
    fst (ServiceChange parse_labels ServiceCreated d2 s2) = Inr [CallHandler h ServiceCreated d2] \<and>
    view_handlers (view_of s2 (t, k)) = is @ [\<lparr>cc_handler = h, cc_labels = labels\<rparr>]"
proof -
  let ?e = "entry_at s (t, k)" and ?key = "label_key l" and ?i = "\<lparr>cc_handler = h, cc_labels = labels\<rparr>"
  let ?e3 = "update_key_node labels (push_controller ?i) ?e"
  let ?e4 = "touch_not_label l (touch_label l ?e3)"
  have ne: "labels \<noteq> []" using assms(6) by auto
  note e = assms(1) [unfolded hiding_entry_def]
  have g: "GetLabelWithMinimalNodeSet labels ?e = (None, ?e)"
    by (cases labels) (simp_all add: GetLabelWithMinimalNodeSet_def e)
  have "GetLabels parse_labels d1 = Inr [l]" using assms(4) by (auto simp: service_at_def intro: GetLabels_known)
  then have "call_for_nodes parse_labels h labels (candidates cluster_nodes None ?e) = ([CallHandler h ServiceCreated d1], None)"
    using assms(7) by (simp add: candidates_def e)
  from store_RegisterHandler_entry [OF g this] assms(8)
  have s2: "s2 = s((t, k) \<mapsto> ?e3)" and r: "r = ([CallHandler h ServiceCreated d1], None)" by simp_all
  have e3: "controllerInfo (allCluster ?e3) = is @ [?i]" "cluster_at (notLabelMap ?e3) ?key = empty_cluster"
      "controllerInfo (cluster_at (labelMap ?e3) (?key, label_value l)) = [?i]" "controllerInfo (noLabelCluster ?e3) = []"
    using ne assms(6) e by (simp_all add: update_key_node_maps update_key_node_not_label)
  have "GetLabelWithMinimalHandlerSet [l] ?e3 = (Some l, ?e4)"
    using assms(2,3) by (auto simp: GetLabelWithMinimalHandlerSet_def Let_def touched_not_label e e3)
  then have "fst (ServiceChange parse_labels ServiceCreated d2 s2) = Inr [CallHandler h ServiceCreated d2]"
    using ServiceChange_entry [of d2 t parse_labels "[l]" s2 "Some l" ?e4 ServiceCreated] assms(2,5,7)
    by (simp add: s2 candidates_def touched_not_label e3 service_at_def)
  then show ?thesis using r e by (simp add: view_of_def s2)
qed

text \<open>
  Claim C30: two handlers or more are registered for a topic (or for an RPC function), with
  optional labels that do not use the key of the optional label \<open>l\<close>. A service with the label \<open>l\<close> appears,
  and all of them are called. Then a handler that has the label's value, too, is registered,
  and is called for that service. When the next service with the label \<open>l\<close> appears, only this
  handler is called, though a comparison with every registered handler calls all of them.
\<close>

theorem late_handler_hides_earlier_ones:
  assumes "label_kind l = Optional" and "\<forall>h\<in>set hs. optional_other_than (label_key l) (snd h)" and "2 \<le> length hs"
    and "service_at parse_labels t k [l] d1" "service_at parse_labels t k [l] d2"
    and "value_of (label_key l) labels = Some (label_value l)" "MatchLabels labels [l]"
    and "ServiceChange parse_labels ServiceCreated d1 (register_handlers parse_labels (handlers_at t k hs) new_store) = (r1, s1)"
    and "store_RegisterHandler parse_labels h t k labels s1 = (r, s2)"
  shows "called_in r1 (map fst hs) d1 \<and> r = ([CallHandler h ServiceCreated d1], None) \<and>
    called_in (fst (ServiceChange parse_labels ServiceCreated d2 s2)) [h] d2 \<and>
    called_in (fst (linear_ServiceChange parse_labels ServiceCreated d2 (view_of s2))) (map fst hs @ [h]) d2"
proof -
  obtain e where e: "r1 = Inr (map (\<lambda>i. CallHandler (cc_handler i) ServiceCreated d1) (infos hs))"
      "hiding_entry l (infos hs) d1 (entry_at s1 (t, k))"
    using first_lookup_leaves_an_empty_entry [OF assms(1-4)] assms(8) by auto
  have "2 \<le> length (infos hs)" using assms(3) by (simp add: infos_def)
  from late_handler_is_alone [OF e(2) assms(1) this assms(4-7,9)] infos_others [OF assms(1,2)] assms(5,7)
  show ?thesis
    using labelled_not_internal [OF assms(5)] e(1) unfolding infos_calls
    by (simp add: called_in_def linear_ServiceChange_def service_at_def Let_def infos_calls del: map_map)
qed

lemma example_publisher_at:
  "service_at example_parse controllerTypeDataPublisher ''T'' [opt_label ''k'' ''v''] (example_publisher n ''optional'')"
  by (simp add: service_at_def labelled_service_def store_eval)

theorem late_handler_hides_earlier_ones_witness:
  "\<exists>s1 r2 s2. ServiceChange example_parse ServiceCreated (example_publisher 1 ''optional'')
       (register_handlers example_parse (handlers_at controllerTypeDataPublisher ''T''
          [(1::nat, [opt_label ''b'' ''x'']), (2, [opt_label ''b'' ''x''])]) new_store) = (Inr (map (\<lambda>h.
            CallHandler h ServiceCreated (example_publisher 1 ''optional'')) [1, 2]), s1) \<and>
     store_RegisterHandler example_parse 3 controllerTypeDataPublisher ''T'' [opt_label ''k'' ''v''] s1 = (r2, s2) \<and>
     called_in (fst (ServiceChange example_parse ServiceCreated (example_publisher 2 ''optional'') s2)) [3]
       (example_publisher 2 ''optional'')"
proof -
  let ?hs = "[(1::nat, [opt_label ''b'' ''x'']), (2, [opt_label ''b'' ''x''])]"
  obtain r1 s1 where c: "ServiceChange example_parse ServiceCreated (example_publisher 1 ''optional'')
      (register_handlers example_parse (handlers_at controllerTypeDataPublisher ''T'' ?hs) new_store) = (r1, s1)" by fastforce
  obtain r2 s2 where r: "store_RegisterHandler example_parse 3 controllerTypeDataPublisher ''T'' [opt_label ''k'' ''v''] s1 = (r2, s2)"
    by fastforce
  have "label_kind (opt_label ''k'' ''v'') = Optional"
    "\<forall>h\<in>set ?hs. optional_other_than (label_key (opt_label ''k'' ''v'')) (snd h)" "2 \<le> length ?hs"
    "value_of (label_key (opt_label ''k'' ''v'')) [opt_label ''k'' ''v''] = Some (label_value (opt_label ''k'' ''v''))"
    "MatchLabels [opt_label ''k'' ''v''] [opt_label ''k'' ''v'']"
    by (simp_all add: opt_label_def optional_other_than_def MatchLabels_def LabelMatchesLabelList_def)
  from late_handler_hides_earlier_ones [OF this(1-3) example_publisher_at [of 1] example_publisher_at [of 2] this(4,5) c r] c r
  show ?thesis by (simp add: called_in_def)
qed

text \<open>
  The first handler with a label is entered among those without it, too, since it is added to
  all handlers before the entry is made: it may be called twice.
\<close>

lemma first_labelled_handler_is_called_twice:
  "fst (ServiceChange example_parse ServiceCreated (example_publisher 1 ''optional'')
     (register_handlers example_parse
       [((1::nat), controllerTypeDataPublisher, ''T'', [opt_label ''k'' ''v'']),
        ((2::nat), controllerTypeDataPublisher, ''T'', [opt_label ''k'' ''v'']),
        ((3::nat), controllerTypeDataPublisher, ''T'', [mand_label ''k'' ''w'']),
        ((4::nat), controllerTypeDataPublisher, ''T'', [mand_label ''k'' ''w''])] new_store)) =
   Inr (map (\<lambda>h. CallHandler h ServiceCreated (example_publisher 1 ''optional'')) [(1::nat), (1::nat), (2::nat)])"
  by (simp add: register_handlers_def store_eval)

section \<open>The properties at concrete inputs\<close>

definition example_store :: "nat discovery_store" where
  "example_store = register_handlers example_parse
     [(1, controllerTypeDataPublisher, ''T'', [mand_label ''k'' ''v'']),
      (2, controllerTypeDataPublisher, ''T'', []),
      (3, controllerTypeDataPublisher, ''T'', [mand_label ''k'' ''w'']),
      (4, controllerTypeDataPublisher, ''T'', [opt_label ''k'' ''v''])] new_store"

lemma example_store_reachable: "store_reachable example_parse example_store"
  unfolding example_store_def by (intro store_reachable_register store_reachable.store_new)

lemma example_mandatory: "mandatory_service example_parse (example_publisher 1 ''mandatory'')"
  by (simp add: mandatory_service_def store_eval)

lemma example_called:
  "fst (ServiceChange example_parse ServiceCreated (example_publisher 1 ''mandatory'') example_store) =
   Inr (map (\<lambda>h. CallHandler h ServiceCreated (example_publisher 1 ''mandatory'')) [1, 4])"
  by (simp add: example_store_def register_handlers_def store_eval)

lemma example_change:
  "ServiceChange example_parse ServiceCreated (example_publisher 1 ''mandatory'') example_store =
   (Inr (map (\<lambda>h. CallHandler h ServiceCreated (example_publisher 1 ''mandatory'')) [1, 4]),
    snd (ServiceChange example_parse ServiceCreated (example_publisher 1 ''mandatory'') example_store))"
  by (rule prod_eqI) (simp_all add: example_called)

lemma publisher_created:
  assumes "example_parse text = Inr labels"
  shows "view_services (view_of (snd (ServiceChange example_parse ServiceCreated (example_publisher n text) s))
      (controllerTypeDataPublisher, ''T'')) =
    view_services (view_of s (controllerTypeDataPublisher, ''T'')) @ [example_publisher n text]"
proof -
  have "GetSupplementalDataItem controllerType_key (example_publisher n text) = Some controllerTypeDataPublisher"
    "allowed_controller controllerTypeDataPublisher"
    "service_labels example_parse controllerTypeDataPublisher (example_publisher n text) = Inr labels"
    "service_key controllerTypeDataPublisher (example_publisher n text) = ''T''"
    by (simp_all add: assms GetSupplementalDataItem_def allowed_controller_def service_labels_def labels_item_def
      service_key_def item_or_empty_def discovery_keys example_publisher_def)
  then show ?thesis by (simp add: view_of_ServiceChange linear_ServiceChange_def change_services_def Let_def)
qed

theorem store_refines_comparison_witness:
  "fst (linear_ServiceChange example_parse ServiceCreated (example_publisher 1 ''mandatory'') (view_of example_store)) =
   Inr (map (\<lambda>h. CallHandler h ServiceCreated (example_publisher 1 ''mandatory'')) [1, 4])"
  using store_refines_comparison [OF example_store_reachable example_mandatory, of ServiceCreated] example_called by simp

theorem called_handlers_match_witness:
  "\<exists>calls'. fst (linear_ServiceChange example_parse ServiceCreated (example_publisher 1 ''mandatory'') (view_of example_store)) = Inr calls' \<and>
     CallHandler 4 ServiceCreated (example_publisher 1 ''mandatory'') \<in> set calls'"
  using called_handlers_match [OF example_store_reachable example_change]
  by fastforce

theorem early_handlers_miss_nothing_witness:
  "\<exists>calls'. fst (linear_ServiceChange example_parse ServiceCreated (example_publisher 1 ''mandatory'') (view_of example_store)) = Inr calls' \<and>
     set (map (\<lambda>h. CallHandler h ServiceCreated (example_publisher 1 ''mandatory'')) [1, 4]) = set calls'"
  using early_handlers_miss_nothing [of example_store example_parse "[]",
    OF _ example_change]
  by (simp add: example_store_def change_all_def)

lemma no_example_services: "view_services (view_of example_store (controllerTypeDataPublisher, ''T'')) = []"
  by (simp add: view_of_def example_store_def register_handlers_def store_eval)

theorem registered_handler_learns_the_services_witness:
  "fst (store_RegisterHandler example_parse 5 controllerTypeDataPublisher ''T'' [mand_label ''k'' ''v'']
     (change_all example_parse [(ServiceCreated, example_publisher 1 ''mandatory''), (ServiceCreated, example_publisher 2 []),
        (ServiceCreated, example_publisher 3 ''optional'')] example_store)) =
   (map (CallHandler 5 ServiceCreated) [example_publisher 1 ''mandatory'', example_publisher 3 ''optional''], None)"
proof -
  let ?evs = "[(ServiceCreated, example_publisher 1 ''mandatory''), (ServiceCreated, example_publisher 2 []),
    (ServiceCreated, example_publisher 3 ''optional'')]"
  have r: "store_reachable example_parse (change_all example_parse ?evs example_store)"
    by (intro store_reachable_change example_store_reachable)
  have v: "view_services (view_of (change_all example_parse ?evs example_store) (controllerTypeDataPublisher, ''T'')) = map snd ?evs"
    by (simp add: change_all_def publisher_created example_parse_def no_example_services)
  have m: "all_mandatory [mand_label ''k'' ''v'']" by (simp add: mand_label_def)
  have l: "list_all (labelled_service controllerTypeDataPublisher) (map snd ?evs)"
    by (simp add: labelled_service_def store_eval)
  show ?thesis
    using registered_handler_learns_the_services [OF r m l [folded v], of 5]
    unfolding v by (simp add: known_labels_def store_eval)
qed

end
