(* ===== verification/Rpc.thy ===== *)
theory Rpc
  imports DiscoveryStore
begin

text \<open>
  Remote procedure calls (\<open>services/rpc\<close>): the client, which sends a call to all the internal
  servers that were made for it and passes their answers on; the server, which makes an
  internal server for every client that matches; and the internal server, which keeps the
  calls that its user has still to answer.

  What a service does to the outside is appended to its trace: messages sent, and the calls
  of the user's handler. A handler that answers within the call is the call followed by the
  answer. The user context of a call is a pointer, here a number; the identifier of a call
  and the current time are arguments, which the code takes from a random generator and from
  the time provider. Times are integers as in the time synchronization; time stamps are the
  words that are sent.
\<close>

type_synonym uuid = "64 word \<times> 64 word"

definition supplKeyRpcClientMediaType :: string where "supplKeyRpcClientMediaType = ''Rpc::client::mediaType''"
definition supplKeyRpcClientUUID :: string where "supplKeyRpcClientUUID = ''Rpc::client::UUID''"

text \<open>A client without a media type accepts every server.\<close>

definition rpc_MatchMediaType :: "string \<Rightarrow> string \<Rightarrow> bool" where
  "rpc_MatchMediaType clientMediaType serverMediaType \<longleftrightarrow> clientMediaType = [] \<or> clientMediaType = serverMediaType"

section \<open>The client\<close>

datatype rpc_call_status = Success | ServerNotReachable | UndefinedError | InternalServerError | Timeout

definition ToRpcCallStatus :: "32 word \<Rightarrow> rpc_call_status" where
  "ToRpcCallStatus s = (if s = 0 then Success else if s = 1 then InternalServerError else UndefinedError)"

record rpc_call_info =
  remainingReturnCount :: "32 word"
  userContext :: nat

record timeout_entry =
  timeLeft :: int
  timeoutUuid :: uuid

datatype rpc_client_output =
    CallResult "64 word" nat rpc_call_status "8 word list"
  | SentCall function_call
  | AddedNextSimStepHandler

record rpc_client =
  clientUUID :: string
  resultHandlerSet :: bool
  numCounterparts :: "32 word"
  activeCalls :: "(uuid \<times> rpc_call_info) list"
  timeoutEntries :: "timeout_entry list"
  isTimeoutHandlerSet :: bool
  clientTrace :: "rpc_client_output list"

definition new_rpc_client :: "string \<Rightarrow> bool \<Rightarrow> rpc_client" where
  "new_rpc_client uid hasHandler =
     \<lparr>clientUUID = uid, resultHandlerSet = hasHandler, numCounterparts = 0, activeCalls = [], timeoutEntries = [],
      isTimeoutHandlerSet = False, clientTrace = []\<rparr>"

definition client_emit :: "rpc_client_output \<Rightarrow> rpc_client \<Rightarrow> rpc_client" where
  "client_emit x c = c\<lparr>clientTrace := clientTrace c @ [x]\<rparr>"

text \<open>The handler that the client registers with service discovery.\<close>

definition client_match_handler :: "discovery_type \<Rightarrow> service_descriptor \<Rightarrow> rpc_client \<Rightarrow> rpc_client outcome" where
  "client_match_handler ev d c =
     (case GetSupplementalDataValue supplKeyRpcServerInternalClientUUID d of
        Inl err \<Rightarrow> Raised err c
      | Inr uid \<Rightarrow>
          Done (if uid = clientUUID c
                then (case ev of
                        ServiceCreated \<Rightarrow> c\<lparr>numCounterparts := numCounterparts c + 1\<rparr>
                      | ServiceRemoved \<Rightarrow> c\<lparr>numCounterparts := numCounterparts c - 1\<rparr>
                      | Invalid \<Rightarrow> c)
                else c))"

text \<open>The map of calls keeps an entry whose key is already there; timeouts are given in nanoseconds.\<close>

definition TriggerCall :: "uuid \<Rightarrow> 64 word \<Rightarrow> 8 word list \<Rightarrow> int option \<Rightarrow> nat \<Rightarrow> rpc_client \<Rightarrow> rpc_client" where
  "TriggerCall callUuid now data timeout ctx c =
     (if numCounterparts c = 0
      then (if resultHandlerSet c then client_emit (CallResult now ctx ServerNotReachable []) c else c)
      else let c = (if map_of (activeCalls c) callUuid \<noteq> None then c
                    else c\<lparr>activeCalls := activeCalls c @
                      [(callUuid, \<lparr>remainingReturnCount = numCounterparts c, userContext = ctx\<rparr>)]\<rparr>);
               c = (case timeout of
                      None \<Rightarrow> c
                    | Some t \<Rightarrow>
                        let c = c\<lparr>timeoutEntries := timeoutEntries c @ [\<lparr>timeLeft = t, timeoutUuid = callUuid\<rparr>]\<rparr>
                        in if isTimeoutHandlerSet c then c
                           else (client_emit AddedNextSimStepHandler c)\<lparr>isTimeoutHandlerSet := True\<rparr>)
           in client_emit (SentCall \<lparr>fca_timestamp = now, fca_callUuid = callUuid, fca_data = data\<rparr>) c)"

definition Call :: "uuid \<Rightarrow> 64 word \<Rightarrow> 8 word list \<Rightarrow> nat \<Rightarrow> rpc_client \<Rightarrow> rpc_client" where
  "Call callUuid now data ctx = TriggerCall callUuid now data None ctx"

definition CallWithTimeout :: "uuid \<Rightarrow> 64 word \<Rightarrow> 8 word list \<Rightarrow> int \<Rightarrow> nat \<Rightarrow> rpc_client \<Rightarrow> rpc_client" where
  "CallWithTimeout callUuid now data timeout ctx = TriggerCall callUuid now data (Some timeout) ctx"

definition SetCallResultHandler :: "bool \<Rightarrow> rpc_client \<Rightarrow> rpc_client" where
  "SetCallResultHandler hasHandler c = c\<lparr>resultHandlerSet := hasHandler\<rparr>"

text \<open>
  The calls whose time is over, in order. The user context is read before the code looks
  whether the call is still there; the handler is called without looking whether there is one.
\<close>

fun expire :: "64 word \<Rightarrow> timeout_entry list \<Rightarrow> rpc_client \<Rightarrow> rpc_client outcome" where
  "expire now [] c = Done c"
| "expire now (entry # entries) c =
     (case map_of (activeCalls c) (timeoutUuid entry) of
        None \<Rightarrow> Raised DanglingPointer c
      | Some call \<Rightarrow>
          let c = c\<lparr>activeCalls := AList.delete (timeoutUuid entry) (activeCalls c)\<rparr>
          in if resultHandlerSet c
             then expire now entries (client_emit (CallResult now (userContext call) Timeout []) c)
             else Raised BadFunctionCall c)"

definition TimeHandler :: "64 word \<Rightarrow> int \<Rightarrow> rpc_client \<Rightarrow> rpc_client outcome" where
  "TimeHandler now duration c =
     (let entries = map (\<lambda>e. e\<lparr>timeLeft := timeLeft e - duration\<rparr>) (timeoutEntries c)
      in expire now (filter (\<lambda>e. timeLeft e \<le> 0) entries)
           (c\<lparr>timeoutEntries := filter (\<lambda>e. \<not> timeLeft e \<le> 0) entries\<rparr>))"

definition client_ReceiveMessage :: "function_call_response \<Rightarrow> rpc_client \<Rightarrow> rpc_client" where
  "client_ReceiveMessage msg c =
     (case map_of (activeCalls c) (fcr_callUuid msg) of
        None \<Rightarrow> c
      | Some call \<Rightarrow>
          let c = (if resultHandlerSet c
                   then client_emit (CallResult (fcr_timestamp msg) (userContext call)
                          (ToRpcCallStatus (fcr_status msg)) (fcr_data msg)) c else c);
              remaining = remainingReturnCount call - 1
          in if sint remaining \<le> 0
             then c\<lparr>activeCalls := AList.delete (fcr_callUuid msg) (activeCalls c)\<rparr>
             else c\<lparr>activeCalls := AList.update (fcr_callUuid msg) (call\<lparr>remainingReturnCount := remaining\<rparr>) (activeCalls c)\<rparr>)"

section \<open>The internal server\<close>

datatype rpc_server_output =
    SentResponse function_call_response
  | CallEvent "64 word" uuid "8 word list"

text \<open>\<open>_activeCalls\<close> maps an identifier to a handle that holds the same identifier.\<close>

record rpc_server_internal =
  callHandlerSet :: bool
  openCalls :: "uuid list"
  serverTrace :: "rpc_server_output list"

definition new_internal_server :: "bool \<Rightarrow> rpc_server_internal" where
  "new_internal_server hasHandler = \<lparr>callHandlerSet = hasHandler, openCalls = [], serverTrace = []\<rparr>"

definition server_emit :: "rpc_server_output \<Rightarrow> rpc_server_internal \<Rightarrow> rpc_server_internal" where
  "server_emit x s = s\<lparr>serverTrace := serverTrace s @ [x]\<rparr>"

definition server_ReceiveMessage :: "64 word \<Rightarrow> function_call \<Rightarrow> rpc_server_internal \<Rightarrow> rpc_server_internal" where
  "server_ReceiveMessage now msg s =
     (if \<not> callHandlerSet s \<or> fca_callUuid msg \<in> set (openCalls s)
      then server_emit (SentResponse \<lparr>fcr_timestamp = now, fcr_callUuid = fca_callUuid msg, fcr_data = [], fcr_status = 1\<rparr>) s
      else server_emit (CallEvent (fca_timestamp msg) (fca_callUuid msg) (fca_data msg))
             (s\<lparr>openCalls := openCalls s @ [fca_callUuid msg]\<rparr>))"

definition internal_SubmitResult :: "64 word \<Rightarrow> uuid \<Rightarrow> 8 word list \<Rightarrow> rpc_server_internal \<Rightarrow> bool \<times> rpc_server_internal" where
  "internal_SubmitResult now handle result s =
     (if handle \<notin> set (openCalls s) then (False, s)
      else (True, server_emit (SentResponse \<lparr>fcr_timestamp = now, fcr_callUuid = handle, fcr_data = result, fcr_status = 0\<rparr>)
        (s\<lparr>openCalls := removeAll handle (openCalls s)\<rparr>)))"

definition SetRpcHandler :: "bool \<Rightarrow> rpc_server_internal \<Rightarrow> rpc_server_internal" where
  "SetRpcHandler hasHandler s = s\<lparr>callHandlerSet := hasHandler\<rparr>"

section \<open>The server\<close>

record rpc_server =
  serverMediaType :: string
  serverHandlerSet :: bool
  internalServers :: "(string \<times> rpc_server_internal) list"

definition AddInternalRpcServer :: "string \<Rightarrow> rpc_server \<Rightarrow> rpc_server" where
  "AddInternalRpcServer uid s =
     s\<lparr>internalServers := internalServers s @ [(uid, new_internal_server (serverHandlerSet s))]\<rparr>"

text \<open>The handler that the server registers with service discovery.\<close>

definition server_match_handler :: "(string \<Rightarrow> matching_label list result) \<Rightarrow> discovery_type \<Rightarrow> service_descriptor
    \<Rightarrow> rpc_server \<Rightarrow> rpc_server outcome" where
  "server_match_handler parse_labels ev d s =
     (if ev \<noteq> ServiceCreated then Done s
      else case GetSupplementalDataValue supplKeyRpcClientUUID d of
        Inl err \<Rightarrow> Raised err s
      | Inr uid \<Rightarrow>
          if map_of (internalServers s) uid \<noteq> None then Done s
          else case bind_result (GetSupplementalDataValue supplKeyRpcClientFunctionName d) (\<lambda>_.
                 bind_result (GetSupplementalDataValue supplKeyRpcClientMediaType d) (\<lambda>media.
                 bind_result (GetSupplementalDataValue supplKeyRpcClientLabels d) (\<lambda>text.
                 bind_result (parse_labels text) (\<lambda>_. Inr media)))) of
            Inl err \<Rightarrow> Raised err s
          | Inr media \<Rightarrow>
              Done (if rpc_MatchMediaType media (serverMediaType s) then AddInternalRpcServer uid s else s))"

text \<open>All internal servers are asked; the answer must have been open at exactly one of them.\<close>

fun submit_to :: "64 word \<Rightarrow> uuid \<Rightarrow> 8 word list \<Rightarrow> (string \<times> rpc_server_internal) list
    \<Rightarrow> nat \<times> (string \<times> rpc_server_internal) list" where
  "submit_to now handle result [] = (0, [])"
| "submit_to now handle result ((uid, i) # rest) =
     (let (handled, i) = internal_SubmitResult now handle result i;
          (count, rest) = submit_to now handle result rest
      in ((if handled then 1 else 0) + count, (uid, i) # rest))"

definition SubmitResult :: "64 word \<Rightarrow> uuid option \<Rightarrow> 8 word list \<Rightarrow> rpc_server \<Rightarrow> rpc_server outcome" where
  "SubmitResult now handle result s =
     (case handle of
        None \<Rightarrow> Raised StateError s
      | Some h \<Rightarrow>
          let (count, internals) = submit_to now h result (internalServers s);
              s = s\<lparr>internalServers := internals\<rparr>
          in if count \<noteq> 1 then Raised StateError s else Done s)"

definition SetCallHandler :: "bool \<Rightarrow> rpc_server \<Rightarrow> rpc_server" where
  "SetCallHandler hasHandler s =
     s\<lparr>serverHandlerSet := hasHandler,
       internalServers := map (\<lambda>(uid, i). (uid, SetRpcHandler hasHandler i)) (internalServers s)\<rparr>"

end
