(* ===== verification/RpcCalls.thy ===== *)
theory RpcCalls
  imports Rpc
begin

text \<open>
  A call from end to end: every server's answer reaches the user with the context of the call,
  a server answers a call once, and what goes wrong: a call with a timeout that was answered
  in time.
\<close>

section \<open>Collecting the answers\<close>

lemma client_emit_frame [simp]:
  "activeCalls (client_emit x c) = activeCalls c" "resultHandlerSet (client_emit x c) = resultHandlerSet c"
  "clientTrace (client_emit x c) = clientTrace c @ [x]" "timeoutEntries (client_emit x c) = timeoutEntries c"
  "numCounterparts (client_emit x c) = numCounterparts c"
  by (simp_all add: client_emit_def)

definition result_of :: "nat \<Rightarrow> function_call_response \<Rightarrow> rpc_client_output" where
  "result_of ctx r = CallResult (fcr_timestamp r) ctx (ToRpcCallStatus (fcr_status r)) (fcr_data r)"

lemma client_ReceiveMessage_active:
  assumes "map_of (activeCalls c) (fcr_callUuid r) = Some call" "resultHandlerSet c"
  shows "clientTrace (client_ReceiveMessage r c) = clientTrace c @ [result_of (userContext call) r]"
    and "resultHandlerSet (client_ReceiveMessage r c)"
    and "timeoutEntries (client_ReceiveMessage r c) = timeoutEntries c"
    and "map_of (activeCalls (client_ReceiveMessage r c)) (fcr_callUuid r) =
      (if sint (remainingReturnCount call - 1) \<le> 0 then None
       else Some (call\<lparr>remainingReturnCount := remainingReturnCount call - 1\<rparr>))"
  using assms by (simp_all add: client_ReceiveMessage_def Let_def result_of_def)

lemma client_ReceiveMessage_unknown:
  "map_of (activeCalls c) (fcr_callUuid r) = None \<Longrightarrow> client_ReceiveMessage r c = c"
  by (simp add: client_ReceiveMessage_def)

lemma sint_minus_1: "0 < sint (n :: 32 word) \<Longrightarrow> sint (n - 1) = sint n - 1"
proof -
  assume n: "0 < sint n"
  have "sint (n - 1) = signed_take_bit 31 (sint n - 1)" by (simp add: sint_word_ariths)
  also have "\<dots> = sint n - 1"
    using n sint_lt [of n] by (intro signed_take_bit_int_eq_self) simp_all
  finally show ?thesis .
qed

lemma sint_unat: "0 < sint (n :: 32 word) \<Longrightarrow> sint n = int (unat n)"
proof -
  assume n: "0 < sint n"
  have "uint n = take_bit 32 (sint n)" by (simp add: uint_sint)
  also have "\<dots> = sint n" using n sint_lt [of n] by (intro take_bit_int_eq_self) simp_all
  finally show ?thesis by simp
qed

lemma answers_collected:
  assumes "map_of (activeCalls c) u = Some call" "resultHandlerSet c" "\<forall>r\<in>set rs. fcr_callUuid r = u"
    and "sint (remainingReturnCount call) = int (length rs)" "rs \<noteq> []"
  shows "clientTrace (fold client_ReceiveMessage rs c) = clientTrace c @ map (result_of (userContext call)) rs \<and>
    map_of (activeCalls (fold client_ReceiveMessage rs c)) u = None \<and>
    timeoutEntries (fold client_ReceiveMessage rs c) = timeoutEntries c"
  using assms
proof (induction rs arbitrary: c call)
  case (Cons r rs)
  then have r: "fcr_callUuid r = u" by simp
  have "0 < sint (remainingReturnCount call)" using Cons.prems(4) by simp
  then have left: "sint (remainingReturnCount call - 1) = int (length rs)"
    using Cons.prems(4) by (simp add: sint_minus_1)
  note step = client_ReceiveMessage_active [of c r, unfolded r, OF Cons.prems(1,2)]
  show ?case
  proof (cases "rs = []")
    case True
    with step left show ?thesis by simp
  next
    case False
    with left have "map_of (activeCalls (client_ReceiveMessage r c)) u =
        Some (call\<lparr>remainingReturnCount := remainingReturnCount call - 1\<rparr>)"
      using step(4) by (cases rs) simp_all
    from Cons.IH [OF this step(2)] Cons.prems(3) left False step(1,3) show ?thesis by simp
  qed
qed simp

lemma TriggerCall_active:
  assumes "numCounterparts c \<noteq> 0" "map_of (activeCalls c) u = None"
  shows "map_of (activeCalls (TriggerCall u now data t ctx c)) u = Some \<lparr>remainingReturnCount = numCounterparts c, userContext = ctx\<rparr>"
    and "resultHandlerSet (TriggerCall u now data t ctx c) = resultHandlerSet c"
    and "timeoutEntries (TriggerCall u now data t ctx c) =
      timeoutEntries c @ (case t of None \<Rightarrow> [] | Some d \<Rightarrow> [\<lparr>timeLeft = d, timeoutUuid = u\<rparr>])"
    and "\<exists>xs. clientTrace (TriggerCall u now data t ctx c) = clientTrace c @ xs @ [SentCall \<lparr>fca_timestamp = now, fca_callUuid = u, fca_data = data\<rparr>]"
  using assms by (auto simp: TriggerCall_def Let_def map_add_def split: option.split)

lemma call_collects:
  assumes "0 < sint (numCounterparts c)" "map_of (activeCalls c) u = None" "resultHandlerSet c"
    and "length rs = unat (numCounterparts c)" "\<forall>r\<in>set rs. fcr_callUuid r = u"
    and "c' = fold client_ReceiveMessage rs (Call u now data ctx c)"
  shows "clientTrace c' = clientTrace c @ [SentCall \<lparr>fca_timestamp = now, fca_callUuid = u, fca_data = data\<rparr>] @ map (result_of ctx) rs \<and>
    map_of (activeCalls c') u = None \<and> (fcr_callUuid r = u \<longrightarrow> client_ReceiveMessage r c' = c')"
proof -
  have n: "numCounterparts c \<noteq> 0" using assms(1) by auto
  have len: "sint (numCounterparts c) = int (length rs)"
    using sint_unat [OF assms(1)] assms(4) by simp
  then have "rs \<noteq> []" using assms(1) by auto
  note active = TriggerCall_active [OF n assms(2), of now data None ctx]
  have "clientTrace (Call u now data ctx c) = clientTrace c @ [SentCall \<lparr>fca_timestamp = now, fca_callUuid = u, fca_data = data\<rparr>]"
    using n by (simp add: Call_def TriggerCall_def Let_def)
  with answers_collected [OF active(1) _ assms(5) _ \<open>rs \<noteq> []\<close>] active(2) assms(3) len show ?thesis
    by (simp add: assms(6) Call_def client_ReceiveMessage_unknown)
qed

text \<open>
  Claim C34: a call is sent once; when each of the servers the client counted has answered, the
  handler has been called with each answer, in the order of arrival and with the context of
  the call, the call is forgotten, and a further answer changes nothing.
\<close>

theorem call_collects_all_answers:
  assumes "0 < sint (numCounterparts c)" "map_of (activeCalls c) u = None" "resultHandlerSet c"
    and "length rs = unat (numCounterparts c)" "\<forall>r\<in>set rs. fcr_callUuid r = u"
    and "c' = fold client_ReceiveMessage rs (Call u now data ctx c)"
  shows "clientTrace c' = clientTrace c @ [SentCall \<lparr>fca_timestamp = now, fca_callUuid = u, fca_data = data\<rparr>] @ map (result_of ctx) rs \<and>
    map_of (activeCalls c') u = None \<and> (fcr_callUuid r = u \<longrightarrow> client_ReceiveMessage r c' = c')"
  using call_collects [OF assms] .

section \<open>A server answers once\<close>

lemma submit_to_nowhere:
  "\<forall>(k, i)\<in>set is. u \<notin> set (openCalls i) \<Longrightarrow> submit_to now u result is = (0, is)"
  by (induction "is") (auto simp: internal_SubmitResult_def)

lemma submit_to_one:
  assumes "u \<in> set (openCalls i)" "\<forall>(k, j)\<in>set (as @ bs). u \<notin> set (openCalls j)"
  shows "submit_to now u result (as @ (k, i) # bs) = (1, as @ (k, snd (internal_SubmitResult now u result i)) # bs)"
  using assms
proof (induction as)
  case Nil
  then show ?case by (simp add: submit_to_nowhere internal_SubmitResult_def)
next
  case (Cons a as)
  then show ?case by (cases a) (auto simp: internal_SubmitResult_def)
qed

text \<open>
  Claim C35: a call of a client that has one server comes back with the result. The internal
  server calls its user with the time, the identifier and the data of the call; when the user
  submits the result, that internal server, and no other, answers, once, so that submitting it
  again throws and sends nothing; and the client's handler is called with success, the context
  of the call and the result, after which the call is forgotten.
\<close>

theorem call_returns_the_result:
  assumes "numCounterparts c = 1" "map_of (activeCalls c) u = None" "resultHandlerSet c"
    and "internalServers s = as @ (clientUUID c, i) # bs" "callHandlerSet i"
    and "\<forall>(k, j)\<in>set ((clientUUID c, i) # as @ bs). u \<notin> set (openCalls j)"
    and "msg = \<lparr>fca_timestamp = now, fca_callUuid = u, fca_data = data\<rparr>"
    and "answer = \<lparr>fcr_timestamp = later, fcr_callUuid = u, fcr_data = result, fcr_status = 0\<rparr>"
  shows "\<exists>s'. clientTrace (Call u now data ctx c) = clientTrace c @ [SentCall msg] \<and>
    serverTrace (server_ReceiveMessage t msg i) = serverTrace i @ [CallEvent now u data] \<and>
    SubmitResult later (Some u) result (s\<lparr>internalServers := as @ (clientUUID c, server_ReceiveMessage t msg i) # bs\<rparr>) = Done s' \<and>
    (\<exists>i'. internalServers s' = as @ (clientUUID c, i') # bs \<and> openCalls i' = openCalls i \<and>
       serverTrace i' = serverTrace i @ [CallEvent now u data, SentResponse answer]) \<and>
    SubmitResult again (Some u) result' s' = Raised StateError s' \<and>
    clientTrace (client_ReceiveMessage answer (Call u now data ctx c)) =
      clientTrace c @ [SentCall msg, CallResult later ctx Success result] \<and>
    map_of (activeCalls (client_ReceiveMessage answer (Call u now data ctx c))) u = None"
proof -
  let ?i = "server_ReceiveMessage t msg i"
  have new: "u \<notin> set (openCalls i)" and others: "\<forall>(k, j)\<in>set (as @ bs). u \<notin> set (openCalls j)"
    using assms(6) by auto
  have i: "openCalls ?i = openCalls i @ [u]" "serverTrace ?i = serverTrace i @ [CallEvent now u data]"
    using assms(5) new by (simp_all add: server_ReceiveMessage_def server_emit_def assms(7))
  let ?i' = "snd (internal_SubmitResult later u result ?i)"
  have i': "openCalls ?i' = openCalls i" "serverTrace ?i' = serverTrace i @ [CallEvent now u data, SentResponse answer]"
    using new by (simp_all add: internal_SubmitResult_def server_emit_def i assms(8))
  let ?s' = "s\<lparr>internalServers := as @ (clientUUID c, ?i') # bs\<rparr>"
  have submitted: "SubmitResult later (Some u) result (s\<lparr>internalServers := as @ (clientUUID c, ?i) # bs\<rparr>) = Done ?s'"
    using submit_to_one [OF _ others, of ?i later result "clientUUID c"] by (simp add: SubmitResult_def i)
  have refused: "SubmitResult again (Some u) result' ?s' = Raised StateError ?s'"
    using submit_to_nowhere [of "as @ (clientUUID c, ?i') # bs" u again result'] others new
    by (auto simp: SubmitResult_def i')
  have returned: "clientTrace (client_ReceiveMessage answer (Call u now data ctx c)) =
      clientTrace c @ [SentCall msg, CallResult later ctx Success result]"
    "map_of (activeCalls (client_ReceiveMessage answer (Call u now data ctx c))) u = None"
  proof -
    have one: "0 < sint (numCounterparts c)" "length [answer] = unat (numCounterparts c)" by (simp_all add: assms(1))
    have "\<forall>r\<in>set [answer]. fcr_callUuid r = u" by (simp add: assms(8))
    from call_collects [OF one(1) assms(2,3) one(2) this refl, of now data ctx undefined]
    have "clientTrace (client_ReceiveMessage answer (Call u now data ctx c)) = clientTrace c @ [SentCall msg] @ [result_of ctx answer]"
      and last: "map_of (activeCalls (client_ReceiveMessage answer (Call u now data ctx c))) u = None"
      unfolding assms(7) by simp_all
    then show "clientTrace (client_ReceiveMessage answer (Call u now data ctx c)) =
        clientTrace c @ [SentCall msg, CallResult later ctx Success result]"
      by (simp add: result_of_def ToRpcCallStatus_def assms(8))
    show "map_of (activeCalls (client_ReceiveMessage answer (Call u now data ctx c))) u = None" by (rule last)
  qed
  have called: "clientTrace (Call u now data ctx c) = clientTrace c @ [SentCall msg]"
    using assms(1) by (simp add: Call_def TriggerCall_def Let_def assms(7))
  have internals: "\<exists>i'. internalServers ?s' = as @ (clientUUID c, i') # bs \<and> openCalls i' = openCalls i \<and>
      serverTrace i' = serverTrace i @ [CallEvent now u data, SentResponse answer]"
    using i' by (intro exI [of _ ?i']) simp
  show ?thesis
    by (rule exI [of _ ?s'], intro conjI called i(2) submitted internals refused returned)
qed

section \<open>What goes wrong\<close>

text \<open>
  Claim C36: a call with a timeout that was answered in time brings the client down when its
  timeout is over: the entry of the timeout outlives the call, and the code reads the context
  of the call through the end iterator before it looks whether the call was found.
\<close>

theorem answered_call_crashes_at_timeout:
  assumes "0 < sint (numCounterparts c)" "map_of (activeCalls c) u = None" "resultHandlerSet c" "timeoutEntries c = []"
    and "length rs = unat (numCounterparts c)" "\<forall>r\<in>set rs. fcr_callUuid r = u" "timeout \<le> elapsed"
  shows "\<exists>c'. TimeHandler later elapsed (fold client_ReceiveMessage rs (CallWithTimeout u now data timeout ctx c)) =
    Raised DanglingPointer c'"
proof -
  have n: "numCounterparts c \<noteq> 0" using assms(1) by auto
  have len: "sint (numCounterparts c) = int (length rs)" using sint_unat [OF assms(1)] assms(5) by simp
  then have "rs \<noteq> []" using assms(1) by auto
  note active = TriggerCall_active [OF n assms(2), of now data "Some timeout" ctx]
  from answers_collected [OF active(1) _ assms(6) _ \<open>rs \<noteq> []\<close>] active(2,3) assms(3,4) len
  have "timeoutEntries (fold client_ReceiveMessage rs (CallWithTimeout u now data timeout ctx c)) = [\<lparr>timeLeft = timeout, timeoutUuid = u\<rparr>]"
    "map_of (activeCalls (fold client_ReceiveMessage rs (CallWithTimeout u now data timeout ctx c))) u = None"
    by (simp_all add: CallWithTimeout_def)
  with assms(7) show ?thesis by (simp add: TimeHandler_def Let_def)
qed

section \<open>The properties at concrete inputs\<close>

definition example_client :: rpc_client where
  "example_client = (new_rpc_client ''c1'' True)\<lparr>numCounterparts := 2\<rparr>"

definition example_answer :: "8 word list \<Rightarrow> function_call_response" where
  "example_answer result = \<lparr>fcr_timestamp = 30, fcr_callUuid = (1, 2), fcr_data = result, fcr_status = 0\<rparr>"

lemma example_client_simps:
  "numCounterparts example_client = 2" "activeCalls example_client = []" "resultHandlerSet example_client"
  "timeoutEntries example_client = []" "clientTrace example_client = []"
  by (simp_all add: example_client_def new_rpc_client_def)

theorem call_collects_all_answers_witness:
  "clientTrace (fold client_ReceiveMessage [example_answer [7], example_answer [8]] (Call (1, 2) 10 [5] 99 example_client)) =
     [SentCall \<lparr>fca_timestamp = 10, fca_callUuid = (1, 2), fca_data = [5]\<rparr>,
      CallResult 30 99 Success [7], CallResult 30 99 Success [8]]"
proof -
  have "0 < sint (numCounterparts example_client)" "map_of (activeCalls example_client) (1, 2) = None" "resultHandlerSet example_client"
    "length [example_answer [7], example_answer [8]] = unat (numCounterparts example_client)"
    "\<forall>r\<in>set [example_answer [7], example_answer [8]]. fcr_callUuid r = (1, 2)"
    by (simp_all add: example_client_simps example_answer_def)
  from call_collects_all_answers [where now = 10 and data = "[5]" and ctx = 99, OF this refl]
  show ?thesis
    by (simp only: example_client_simps append_Nil list.map)
      (simp add: result_of_def ToRpcCallStatus_def example_answer_def)
qed

theorem call_returns_the_result_witness:
  "\<exists>s'. SubmitResult 30 (Some (1, 2)) [7]
      \<lparr>serverMediaType = [], serverHandlerSet = True, internalServers = [(''c1'', server_ReceiveMessage 20
        \<lparr>fca_timestamp = 10, fca_callUuid = (1, 2), fca_data = [5]\<rparr> (new_internal_server True))]\<rparr> = Done s' \<and>
    SubmitResult 40 (Some (1, 2)) [8] s' = Raised StateError s'"
proof -
  let ?c = "(new_rpc_client ''c1'' True)\<lparr>numCounterparts := 1\<rparr>" and ?i = "new_internal_server True"
  let ?s = "\<lparr>serverMediaType = [], serverHandlerSet = True, internalServers = [(''c1'', ?i)]\<rparr>"
  have c: "numCounterparts ?c = 1" "map_of (activeCalls ?c) (1, 2) = None" "resultHandlerSet ?c" and id: "clientUUID ?c = ''c1''"
    by (simp_all add: new_rpc_client_def)
  have s: "internalServers ?s = [] @ (clientUUID ?c, ?i) # []" "callHandlerSet ?i"
    "\<forall>(k, j)\<in>set ((clientUUID ?c, ?i) # [] @ []). (1, 2) \<notin> set (openCalls j)"
    by (simp_all add: id new_internal_server_def)
  from call_returns_the_result [where later = 30 and result = "[7]" and now = 10 and data = "[5]" and ctx = 99 and
      t = 20 and again = 40 and result' = "[8]", OF c s refl refl]
  obtain s' where
    "SubmitResult 30 (Some (1, 2)) [7] (?s\<lparr>internalServers := [] @ (clientUUID ?c, server_ReceiveMessage 20
        \<lparr>fca_timestamp = 10, fca_callUuid = (1, 2), fca_data = [5]\<rparr> ?i) # []\<rparr>) = Done s'"
    "SubmitResult 40 (Some (1, 2)) [8] s' = Raised StateError s'" by blast
  then show ?thesis by (simp only: id append_Nil rpc_server.simps) blast
qed

theorem answered_call_crashes_at_timeout_witness:
  "\<exists>c'. TimeHandler 1000 500 (fold client_ReceiveMessage [example_answer [7], example_answer [8]]
     (CallWithTimeout (1, 2) 10 [5] 400 99 example_client)) = Raised DanglingPointer c'"
  by (rule answered_call_crashes_at_timeout) (simp_all add: example_client_simps example_answer_def)

end
