(* ===== verification/ServiceDiscovery.thy ===== *)
theory ServiceDiscovery
  imports DiscoveryStore
begin

text \<open>
  Service discovery (\<open>core/service/ServiceDiscovery.cpp\<close>): every participant keeps a cache of
  the services of all participants, tells the others about its own, and calls the handlers
  that were registered: the general ones for every service, the specific ones by way of the
  store. What an operation does to the outside is appended to a trace. Sending a message is
  assumed to return, and what a handler does when it is called is not part of the operation
  that calls it: a handler that creates a service is a further operation.

  The unordered maps of the cache are association lists in the order of insertion.
\<close>

section \<open>Names of services\<close>

text \<open>\<open>to_string\<close> of the service types and of the network types.\<close>

definition ServiceType_string :: "8 word \<Rightarrow> string" where
  "ServiceType_string t =
     (if t = 0 then ''Undefined'' else if t = 1 then ''Link'' else if t = 2 then ''Controller''
      else if t = 3 then ''SimulatedController'' else if t = 4 then ''InternalController'' else ''Unknown'')"

definition NetworkType_string :: "32 word \<Rightarrow> string" where
  "NetworkType_string t =
     (if t = 0 then ''Undefined'' else if t = 1 then ''Invalid'' else if t = 2 then ''CAN'' else if t = 3 then ''LIN''
      else if t = 4 then ''Ethernet'' else if t = 5 then ''FlexRay'' else if t = 6 then ''Data''
      else if t = 7 then ''RPC'' else ''Unknown'')"

text \<open>\<open>ServiceDescriptor::to_string\<close>\<close>

definition descriptor_string :: "service_descriptor \<Rightarrow> string result" where
  "descriptor_string d =
     (let common = sd_participantName d @ ''/'' @ ServiceType_string (sd_serviceType d)
      in if sd_serviceType d = 1
         then Inr (common @ ''/'' @ NetworkType_string (sd_networkType d) @ ''/'' @ sd_networkName d)
         else if sd_serviceType d = 2 \<or> sd_serviceType d = 3
         then (case GetSupplementalDataItem controllerType_key d of
                 None \<Rightarrow> Inl LogicError
               | Some t \<Rightarrow> Inr (common @ ''/'' @ t @ ''/'' @ sd_networkName d @ ''/'' @ sd_serviceName d))
         else if sd_serviceType d = 4 then Inr (common @ ''/'' @ sd_serviceName d)
         else if sd_serviceType d = 0 then Inr (common @ ''/'' @ sd_networkName d @ ''/'' @ sd_serviceName d)
         else Inr common)"

section \<open>State\<close>

datatype 'h discovery_output =
    GeneralCall "'h handler_call"
  | SpecificCall "'h handler_call"
  | SentServiceEvent service_discovery_event
  | SentServicesTo string participant_discovery_event

record 'h service_discovery =
  discName :: string
  discHandlers :: "'h list"
  servicesByParticipant :: "(string \<times> (string \<times> service_descriptor) list) list"
  specificStore :: "'h discovery_store"
  discShuttingDown :: bool
  discTrace :: "'h discovery_output list"

definition new_service_discovery :: "string \<Rightarrow> 'h service_discovery" where
  "new_service_discovery name =
     \<lparr>discName = name, discHandlers = [], servicesByParticipant = [], specificStore = new_store,
      discShuttingDown = False, discTrace = []\<rparr>"

definition controllerTypeServiceDiscovery :: string where "controllerTypeServiceDiscovery = ''ServiceDiscovery''"

definition services_of :: "string \<Rightarrow> 'h service_discovery \<Rightarrow> (string \<times> service_descriptor) list" where
  "services_of p s = (case map_of (servicesByParticipant s) p of None \<Rightarrow> [] | Some m \<Rightarrow> m)"

definition set_services :: "string \<Rightarrow> (string \<times> service_descriptor) list \<Rightarrow> 'h service_discovery \<Rightarrow> 'h service_discovery" where
  "set_services p m s = s\<lparr>servicesByParticipant := AList.update p m (servicesByParticipant s)\<rparr>"

text \<open>The index operator makes an empty map for a participant that has none.\<close>

definition touch_participant :: "string \<Rightarrow> 'h service_discovery \<Rightarrow> 'h service_discovery" where
  "touch_participant p s = set_services p (services_of p s) s"

definition emit_output :: "'h discovery_output \<Rightarrow> 'h service_discovery \<Rightarrow> 'h service_discovery" where
  "emit_output x s = s\<lparr>discTrace := discTrace s @ [x]\<rparr>"

section \<open>Single services\<close>

definition general_calls :: "discovery_type \<Rightarrow> service_descriptor \<Rightarrow> 'h list \<Rightarrow> 'h discovery_output list" where
  "general_calls ev d hs = map (\<lambda>h. GeneralCall (CallHandler h ev d)) hs"

definition CallHandlers :: "discovery_type \<Rightarrow> service_descriptor \<Rightarrow> 'h service_discovery \<Rightarrow> 'h service_discovery" where
  "CallHandlers ev d s = s\<lparr>discTrace := discTrace s @ general_calls ev d (discHandlers s)\<rparr>"

definition change_store :: "(string \<Rightarrow> matching_label list result) \<Rightarrow> discovery_type \<Rightarrow> service_descriptor
    \<Rightarrow> 'h service_discovery \<Rightarrow> 'h service_discovery outcome" where
  "change_store parse_labels ev d s =
     (case ServiceChange parse_labels ev d (specificStore s) of
        (Inl err, st) \<Rightarrow> Raised err (s\<lparr>specificStore := st\<rparr>)
      | (Inr calls, st) \<Rightarrow> Done (s\<lparr>specificStore := st, discTrace := discTrace s @ map SpecificCall calls\<rparr>))"

definition AnnounceLocalParticipantTo :: "string \<Rightarrow> 'h service_discovery \<Rightarrow> 'h service_discovery" where
  "AnnounceLocalParticipantTo other s =
     (let s = touch_participant (discName s) s
      in emit_output (SentServicesTo other
           \<lparr>pd_participantName = discName s, pd_version = 1, pd_services = map snd (services_of (discName s) s)\<rparr>) s)"

definition OnServiceAddition :: "(string \<Rightarrow> matching_label list result) \<Rightarrow> service_descriptor
    \<Rightarrow> 'h service_discovery \<Rightarrow> 'h service_discovery outcome" where
  "OnServiceAddition parse_labels d s =
     (let origin = sd_participantName d;
          s = touch_participant origin s
      in case descriptor_string d of
           Inl err \<Rightarrow> Raised err s
         | Inr key \<Rightarrow>
             if map_of (services_of origin s) key \<noteq> None then Done s
             else let s = (if origin \<noteq> discName s \<and> item_or_empty controllerType_key d = controllerTypeServiceDiscovery
                           then AnnounceLocalParticipantTo origin s else s);
                      s = set_services origin (AList.update key d (services_of origin s)) s
                  in bind_outcome (change_store parse_labels ServiceCreated d s)
                       (\<lambda>s. Done (CallHandlers ServiceCreated d s)))"

definition OnServiceRemoval :: "(string \<Rightarrow> matching_label list result) \<Rightarrow> service_descriptor
    \<Rightarrow> 'h service_discovery \<Rightarrow> 'h service_discovery outcome" where
  "OnServiceRemoval parse_labels d s =
     (let origin = sd_participantName d;
          s = touch_participant origin s
      in case descriptor_string d of
           Inl err \<Rightarrow> Raised err s
         | Inr key \<Rightarrow>
             if map_of (services_of origin s) key = None then Done s
             else let s = set_services origin (AList.delete key (services_of origin s)) s
                  in bind_outcome (change_store parse_labels ServiceRemoved d s)
                       (\<lambda>s. Done (CallHandlers ServiceRemoved d s)))"

section \<open>The services of a participant\<close>

text \<open>The loop of \<open>OnParticpantAddition\<close>: the store first, then the cache, then the handlers.\<close>

fun add_announced :: "(string \<Rightarrow> matching_label list result) \<Rightarrow> string \<Rightarrow> service_descriptor list
    \<Rightarrow> 'h service_discovery \<Rightarrow> 'h service_discovery outcome" where
  "add_announced parse_labels p [] s = Done s"
| "add_announced parse_labels p (d # ds) s =
     (case descriptor_string d of
        Inl err \<Rightarrow> Raised err s
      | Inr key \<Rightarrow>
          if map_of (services_of p s) key \<noteq> None then add_announced parse_labels p ds s
          else bind_outcome (change_store parse_labels ServiceCreated d s) (\<lambda>s.
            add_announced parse_labels p ds
              (CallHandlers ServiceCreated d (set_services p (AList.update key d (services_of p s)) s))))"

definition OnParticpantAddition :: "(string \<Rightarrow> matching_label list result) \<Rightarrow> participant_discovery_event
    \<Rightarrow> 'h service_discovery \<Rightarrow> 'h service_discovery outcome" where
  "OnParticpantAddition parse_labels msg s =
     add_announced parse_labels (pd_participantName msg) (pd_services msg) (touch_participant (pd_participantName msg) s)"

fun remove_announced :: "(string \<Rightarrow> matching_label list result) \<Rightarrow> service_descriptor list
    \<Rightarrow> 'h service_discovery \<Rightarrow> 'h service_discovery outcome" where
  "remove_announced parse_labels [] s = Done s"
| "remove_announced parse_labels (d # ds) s =
     bind_outcome (change_store parse_labels ServiceRemoved d s) (\<lambda>s.
       remove_announced parse_labels ds (CallHandlers ServiceRemoved d s))"

definition OnParticpantRemoval :: "(string \<Rightarrow> matching_label list result) \<Rightarrow> string
    \<Rightarrow> 'h service_discovery \<Rightarrow> 'h service_discovery outcome" where
  "OnParticpantRemoval parse_labels p s =
     (if p = discName s then Done s
      else case map_of (servicesByParticipant s) p of
             None \<Rightarrow> Done s
           | Some m \<Rightarrow> bind_outcome (remove_announced parse_labels (map snd m) s)
               (\<lambda>s. Done (s\<lparr>servicesByParticipant := AList.delete p (servicesByParticipant s)\<rparr>)))"

section \<open>The interface\<close>

text \<open>The destructor sets the guard.\<close>

definition shut_down_discovery :: "'h service_discovery \<Rightarrow> 'h service_discovery" where
  "shut_down_discovery s = s\<lparr>discShuttingDown := True\<rparr>"

definition ReceiveParticipantDiscoveryEvent :: "(string \<Rightarrow> matching_label list result) \<Rightarrow> participant_discovery_event
    \<Rightarrow> 'h service_discovery \<Rightarrow> 'h service_discovery outcome" where
  "ReceiveParticipantDiscoveryEvent parse_labels msg s =
     (if discShuttingDown s then Done s else OnParticpantAddition parse_labels msg s)"

definition ReceiveServiceDiscoveryEvent :: "(string \<Rightarrow> matching_label list result) \<Rightarrow> service_discovery_event
    \<Rightarrow> 'h service_discovery \<Rightarrow> 'h service_discovery outcome" where
  "ReceiveServiceDiscoveryEvent parse_labels msg s =
     (if discShuttingDown s then Done s
      else if sde_type msg = 1 then OnServiceAddition parse_labels (sde_serviceDescriptor msg) s
      else OnServiceRemoval parse_labels (sde_serviceDescriptor msg) s)"

definition NotifyServiceCreated :: "(string \<Rightarrow> matching_label list result) \<Rightarrow> service_descriptor
    \<Rightarrow> 'h service_discovery \<Rightarrow> 'h service_discovery outcome" where
  "NotifyServiceCreated parse_labels d s =
     (if discShuttingDown s then Done s
      else bind_outcome (OnServiceAddition parse_labels d s) (\<lambda>s.
        Done (emit_output (SentServiceEvent \<lparr>sde_type = 1, sde_serviceDescriptor = d\<rparr>) s)))"

definition NotifyServiceRemoved :: "(string \<Rightarrow> matching_label list result) \<Rightarrow> service_descriptor
    \<Rightarrow> 'h service_discovery \<Rightarrow> 'h service_discovery outcome" where
  "NotifyServiceRemoved parse_labels d s =
     (if discShuttingDown s then Done s
      else bind_outcome (OnServiceRemoval parse_labels d s) (\<lambda>s.
        Done (emit_output (SentServiceEvent \<lparr>sde_type = 2, sde_serviceDescriptor = d\<rparr>) s)))"

definition GetServices :: "'h service_discovery \<Rightarrow> service_descriptor list" where
  "GetServices s = concat (map (\<lambda>(p, m). map snd m) (servicesByParticipant s))"

definition RegisterServiceDiscoveryHandler :: "'h \<Rightarrow> 'h service_discovery \<Rightarrow> 'h service_discovery" where
  "RegisterServiceDiscoveryHandler h s =
     (if discShuttingDown s then s
      else s\<lparr>discTrace := discTrace s @ map (\<lambda>d. GeneralCall (CallHandler h ServiceCreated d)) (GetServices s),
             discHandlers := discHandlers s @ [h]\<rparr>)"

definition RegisterSpecificServiceDiscoveryHandler :: "(string \<Rightarrow> matching_label list result) \<Rightarrow> 'h \<Rightarrow> string \<Rightarrow> string
    \<Rightarrow> matching_label list \<Rightarrow> 'h service_discovery \<Rightarrow> 'h service_discovery outcome" where
  "RegisterSpecificServiceDiscoveryHandler parse_labels h controllerType topic labels s =
     (if discShuttingDown s then Done s
      else case store_RegisterHandler parse_labels h controllerType topic labels (specificStore s) of
        ((calls, err), st) \<Rightarrow>
          let s = s\<lparr>specificStore := st, discTrace := discTrace s @ map SpecificCall calls\<rparr>
          in case err of None \<Rightarrow> Done s | Some e \<Rightarrow> Raised e s)"

end
