(* ===== verification/DiscoveryView.thy ===== *)
theory DiscoveryView
  imports ServiceDiscovery ServiceMatching
begin

text \<open>
  What service discovery promises: the events that a handler is called with add up to the
  services that are known, the store for the specific handlers holds the same services, and a
  participant that joins learns the services of those that are there.
\<close>

section \<open>The cache and what a handler has been told\<close>

text \<open>The participant and the name under which a service is cached.\<close>

definition ident :: "service_descriptor \<Rightarrow> (string \<times> string) option" where
  "ident d = (case descriptor_string d of Inl _ \<Rightarrow> None | Inr key \<Rightarrow> Some (sd_participantName d, key))"

definition cache :: "'h service_discovery \<Rightarrow> string \<times> string \<Rightarrow> service_descriptor option" where
  "cache s = (\<lambda>(p, key). map_of (services_of p s) key)"

definition apply_event :: "discovery_type \<Rightarrow> service_descriptor \<Rightarrow> (string \<times> string \<Rightarrow> service_descriptor option)
    \<Rightarrow> (string \<times> string \<Rightarrow> service_descriptor option)" where
  "apply_event ev d v =
     (case ident d of
        None \<Rightarrow> v
      | Some pk \<Rightarrow> (case ev of ServiceCreated \<Rightarrow> v(pk \<mapsto> d) | ServiceRemoved \<Rightarrow> v(pk := None) | Invalid \<Rightarrow> v))"

fun view_step :: "'h \<Rightarrow> 'h discovery_output \<Rightarrow> (string \<times> string \<Rightarrow> service_descriptor option)
    \<Rightarrow> (string \<times> string \<Rightarrow> service_descriptor option)" where
  "view_step h (GeneralCall (CallHandler h' ev d)) v = (if h' = h then apply_event ev d v else v)"
| "view_step h _ v = v"

definition known_to :: "'h \<Rightarrow> 'h discovery_output list \<Rightarrow> string \<times> string \<Rightarrow> service_descriptor option" where
  "known_to h tr = fold (view_step h) tr Map.empty"

lemma known_to_Nil [simp]: "known_to h [] = Map.empty"
  by (simp add: known_to_def)

lemma known_to_append: "known_to h (tr @ xs) = fold (view_step h) xs (known_to h tr)"
  by (simp add: known_to_def)

lemma view_specific [simp]: "fold (view_step h) (map SpecificCall cs) v = v"
  by (induction cs arbitrary: v) auto

lemma apply_event_idem: "apply_event ev d (apply_event ev d v) = apply_event ev d v"
  by (auto simp: apply_event_def split: option.split discovery_type.split)

lemma view_general: "fold (view_step h) (general_calls ev d hs) v = (if h \<in> set hs then apply_event ev d v else v)"
  by (induction hs arbitrary: v) (auto simp: general_calls_def apply_event_idem)

section \<open>The invariant\<close>

text \<open>
  No two of the services that occur have the same name or the same address: a participant
  refuses to create a second service of a name, and numbers its services.
\<close>

definition well_identified :: "service_descriptor set \<Rightarrow> bool" where
  "well_identified U \<longleftrightarrow>
     (\<forall>d\<in>U. \<forall>e\<in>U. ident d \<noteq> None \<and> ident d = ident e \<or> same_service d e \<longrightarrow> d = e)"

definition concerns :: "string \<Rightarrow> string \<Rightarrow> service_descriptor \<Rightarrow> bool" where
  "concerns t k d \<longleftrightarrow> GetSupplementalDataItem controllerType_key d = Some t \<and> allowed_controller t \<and> service_key t d = k"

definition agree :: "(string \<Rightarrow> matching_label list result) \<Rightarrow> service_descriptor set
    \<Rightarrow> (string \<times> string \<Rightarrow> service_descriptor option) \<Rightarrow> 'h service_discovery \<Rightarrow> bool" where
  "agree parse_labels U c s \<longleftrightarrow>
     (\<forall>pk d. c pk = Some d \<longrightarrow> ident d = Some pk \<and> d \<in> U) \<and>
     (\<forall>h. known_to h (discTrace s) = (if h \<in> set (discHandlers s) then c else Map.empty)) \<and>
     store_reachable parse_labels (specificStore s) \<and>
     (\<forall>t k. distinct (view_services (view_of (specificStore s) (t, k))) \<and>
        set (view_services (view_of (specificStore s) (t, k))) = {d \<in> ran c. concerns t k d})"

definition keys_distinct :: "'h service_discovery \<Rightarrow> bool" where
  "keys_distinct s \<longleftrightarrow>
     distinct (map fst (servicesByParticipant s)) \<and> (\<forall>(p, m)\<in>set (servicesByParticipant s). distinct (map fst m))"

definition discovery_inv :: "(string \<Rightarrow> matching_label list result) \<Rightarrow> service_descriptor set \<Rightarrow> 'h service_discovery \<Rightarrow> bool" where
  "discovery_inv parse_labels U s \<longleftrightarrow> keys_distinct s \<and> agree parse_labels U (cache s) s"

lemma agree_cong:
  assumes "discHandlers s' = discHandlers s" "specificStore s' = specificStore s"
    and "\<And>h. known_to h (discTrace s') = known_to h (discTrace s)"
  shows "agree parse_labels U c s' = agree parse_labels U c s"
  by (simp add: agree_def assms)

lemma set_services_frame [simp]:
  "discHandlers (set_services p m s) = discHandlers s" "specificStore (set_services p m s) = specificStore s"
  "discTrace (set_services p m s) = discTrace s" "discName (set_services p m s) = discName s"
  "discShuttingDown (set_services p m s) = discShuttingDown s"
  by (simp_all add: set_services_def)

lemma services_of_set [simp]: "services_of q (set_services p m s) = (if q = p then m else services_of q s)"
  by (simp add: services_of_def set_services_def)

lemma cache_set_services: "cache (set_services p m s) = (\<lambda>(q, k). if q = p then map_of m k else cache s (q, k))"
  by (auto simp: cache_def fun_eq_iff)

lemma cache_add [simp]: "cache (set_services p (AList.update k d (services_of p s)) s) = (cache s)((p, k) \<mapsto> d)"
  by (auto simp: cache_set_services cache_def fun_eq_iff)

lemma cache_remove [simp]: "cache (set_services p (AList.delete k (services_of p s)) s) = (cache s)((p, k) := None)"
  by (auto simp: cache_set_services cache_def fun_eq_iff)

lemma touch_participant_frame [simp]:
  "cache (touch_participant p s) = cache s" "discHandlers (touch_participant p s) = discHandlers s"
  "specificStore (touch_participant p s) = specificStore s" "discTrace (touch_participant p s) = discTrace s"
  "discName (touch_participant p s) = discName s" "services_of q (touch_participant p s) = services_of q s"
  "discShuttingDown (touch_participant p s) = discShuttingDown s"
  by (auto simp: touch_participant_def cache_def fun_eq_iff)

lemma services_of_distinct: "keys_distinct s \<Longrightarrow> distinct (map fst (services_of p s))"
  by (auto simp: keys_distinct_def services_of_def split: option.split dest: map_of_Some_in_set)

lemma keys_distinct_set_services:
  "keys_distinct s \<Longrightarrow> distinct (map fst m) \<Longrightarrow> keys_distinct (set_services p m s)"
  by (auto simp: keys_distinct_def set_services_def in_set_update_iff)

lemma keys_distinct_touch [simp]: "keys_distinct s \<Longrightarrow> keys_distinct (touch_participant p s)"
  by (simp add: touch_participant_def keys_distinct_set_services services_of_distinct)

lemma keys_distinct_cong: "servicesByParticipant s' = servicesByParticipant s \<Longrightarrow> keys_distinct s' = keys_distinct s"
  by (simp add: keys_distinct_def)

lemma cache_cong: "servicesByParticipant s' = servicesByParticipant s \<Longrightarrow> cache s' = cache s"
  by (simp add: cache_def services_of_def)

lemma services_of_cong: "servicesByParticipant s' = servicesByParticipant s \<Longrightarrow> services_of p s' = services_of p s"
  by (simp add: services_of_def)

lemma CallHandlers_frame [simp]:
  "servicesByParticipant (CallHandlers ev d s) = servicesByParticipant s" "discHandlers (CallHandlers ev d s) = discHandlers s"
  "specificStore (CallHandlers ev d s) = specificStore s" "discName (CallHandlers ev d s) = discName s"
  "discTrace (CallHandlers ev d s) = discTrace s @ general_calls ev d (discHandlers s)"
  by (simp_all add: CallHandlers_def)

lemma emit_output_frame [simp]:
  "servicesByParticipant (emit_output x s) = servicesByParticipant s" "discHandlers (emit_output x s) = discHandlers s"
  "specificStore (emit_output x s) = specificStore s" "discName (emit_output x s) = discName s"
  "discTrace (emit_output x s) = discTrace s @ [x]"
  by (simp_all add: emit_output_def)

lemma derived_frame [simp]:
  "cache (CallHandlers ev d s) = cache s" "keys_distinct (CallHandlers ev d s) = keys_distinct s"
  "services_of p (CallHandlers ev d s) = services_of p s"
  "cache (emit_output x s) = cache s" "keys_distinct (emit_output x s) = keys_distinct s"
  "services_of p (emit_output x s) = services_of p s"
  by (simp_all only: cache_def services_of_def keys_distinct_def CallHandlers_frame emit_output_frame)

text \<open>An update of the store that returns has told the specific handlers, and nothing else changed.\<close>

lemma change_storeE:
  assumes "change_store parse_labels ev d s = Done s'"
  obtains calls where "ServiceChange parse_labels ev d (specificStore s) = (Inr calls, specificStore s')"
    "discTrace s' = discTrace s @ map SpecificCall calls" "servicesByParticipant s' = servicesByParticipant s"
    "discHandlers s' = discHandlers s" "discName s' = discName s" "discShuttingDown s' = discShuttingDown s"
  using assms by (auto simp: change_store_def split: prod.splits sum.splits)

lemma linear_services:
  assumes "fst (ServiceChange parse_labels ev d st) = Inr calls"
  shows "view_services (view_of (snd (ServiceChange parse_labels ev d st)) (t, k)) =
    (if concerns t k d then change_services ev d (view_services (view_of st (t, k))) else view_services (view_of st (t, k)))"
  using assms unfolding view_of_ServiceChange
  by (auto simp: linear_ServiceChange_def ServiceChange_def concerns_def Let_def split: option.splits sum.splits prod.splits)

section \<open>A service comes or goes\<close>

lemma agreeD:
  assumes "agree parse_labels U c s"
  shows "c pk = Some d \<Longrightarrow> ident d = Some pk \<and> d \<in> U"
    and "known_to h (discTrace s) = (if h \<in> set (discHandlers s) then c else Map.empty)"
    and "store_reachable parse_labels (specificStore s)"
    and "distinct (view_services (view_of (specificStore s) (t, k)))"
    and "set (view_services (view_of (specificStore s) (t, k))) = {d \<in> ran c. concerns t k d}"
  using assms unfolding agree_def by blast+

lemma agree_change:
  assumes "agree parse_labels U c s" "change_store parse_labels ev d s = Done s'"
    and "c' = apply_event ev d c" "\<And>pk d. c' pk = Some d \<Longrightarrow> ident d = Some pk \<and> d \<in> U"
    and "\<And>t k. concerns t k d \<Longrightarrow> distinct (change_services ev d (view_services (view_of (specificStore s) (t, k))))"
    and "\<And>t k. concerns t k d \<Longrightarrow> set (change_services ev d (view_services (view_of (specificStore s) (t, k)))) = {d \<in> ran c'. concerns t k d}"
    and "\<And>t k. \<not> concerns t k d \<Longrightarrow> {d \<in> ran c'. concerns t k d} = {d \<in> ran c. concerns t k d}"
  shows "agree parse_labels U c' (CallHandlers ev d s')"
proof -
  obtain calls where calls: "ServiceChange parse_labels ev d (specificStore s) = (Inr calls, specificStore s')"
    and same: "discTrace s' = discTrace s @ map SpecificCall calls" "discHandlers s' = discHandlers s"
    using assms(2) by (rule change_storeE)
  have reach: "store_reachable parse_labels (specificStore s')"
    by (rule store_change [OF agreeD(3) [OF assms(1)] calls])
  have views: "view_services (view_of (specificStore s') (t, k)) =
      (if concerns t k d then change_services ev d (view_services (view_of (specificStore s) (t, k)))
       else view_services (view_of (specificStore s) (t, k)))" for t k
    using linear_services [of parse_labels ev d "specificStore s"] calls by simp
  have "known_to h (discTrace (CallHandlers ev d s')) = (if h \<in> set (discHandlers s) then c' else Map.empty)" for h
    using agreeD(2) [OF assms(1), of h] by (simp add: same known_to_append view_general assms(3))
  with reach views assms(4-7) agreeD(4,5) [OF assms(1)] show ?thesis
    unfolding agree_def CallHandlers_frame same(2) by simp
qed

lemma agree_add:
  assumes "agree parse_labels U c s" "change_store parse_labels ServiceCreated d s = Done s'"
    and "well_identified U" "d \<in> U" "ident d = Some pk" "c pk = None"
  shows "agree parse_labels U (c(pk \<mapsto> d)) (CallHandlers ServiceCreated d s')"
proof (rule agree_change [OF assms(1,2)])
  have new: "d \<notin> ran c" using agreeD(1) [OF assms(1)] assms(5,6) by (auto simp: ran_def)
  have ran: "ran (c(pk \<mapsto> d)) = insert d (ran c)" using assms(6) by simp
  show "c(pk \<mapsto> d) = apply_event ServiceCreated d c" using assms(5) by (simp add: apply_event_def)
  show "ident d' = Some pk' \<and> d' \<in> U" if "(c(pk \<mapsto> d)) pk' = Some d'" for pk' d'
    using that assms(4,5) agreeD(1) [OF assms(1)] by (auto split: if_splits)
  fix t k
  show "distinct (change_services ServiceCreated d (view_services (view_of (specificStore s) (t, k))))"
    using agreeD(4,5) [OF assms(1), of t k] new by (simp add: change_services_def)
  show "set (change_services ServiceCreated d (view_services (view_of (specificStore s) (t, k)))) =
      {d' \<in> ran (c(pk \<mapsto> d)). concerns t k d'}" if "concerns t k d"
    using agreeD(5) [OF assms(1), of t k] that unfolding ran by (auto simp: change_services_def)
  show "{d' \<in> ran (c(pk \<mapsto> d)). concerns t k d'} = {d' \<in> ran c. concerns t k d'}" if "\<not> concerns t k d"
    using that unfolding ran by auto
qed

lemma ran_remove:
  assumes "\<And>pk d. c pk = Some d \<Longrightarrow> ident d = Some pk" "ident d = Some pk" "c pk = Some d"
  shows "ran (c(pk := None)) = ran c - {d}"
proof -
  have only: "k = pk" if "c k = Some d" for k using assms(1) [OF that] assms(2) by simp
  show ?thesis
  proof (rule set_eqI)
    fix x
    have "x \<in> ran (c(pk := None)) \<longleftrightarrow> (\<exists>k. k \<noteq> pk \<and> c k = Some x)" by (auto simp: ran_def)
    also have "\<dots> \<longleftrightarrow> (\<exists>k. c k = Some x) \<and> x \<noteq> d" using only assms(3) by (metis option.inject)
    finally show "x \<in> ran (c(pk := None)) \<longleftrightarrow> x \<in> ran c - {d}" by (simp add: ran_def)
  qed
qed

lemma agree_remove:
  assumes "agree parse_labels U c s" "change_store parse_labels ServiceRemoved d s = Done s'"
    and "well_identified U" "d \<in> U" "ident d = Some pk" "c pk = Some d"
  shows "agree parse_labels U (c(pk := None)) (CallHandlers ServiceRemoved d s')"
proof (rule agree_change [OF assms(1,2)])
  have ran: "ran (c(pk := None)) = ran c - {d}"
    using agreeD(1) [OF assms(1)] assms(5,6) by (intro ran_remove) auto
  have only: "same_service n d \<longleftrightarrow> n = d" if "n \<in> ran c" for n
  proof -
    from that have "n \<in> U" using agreeD(1) [OF assms(1)] by (auto simp: ran_def)
    with assms(3,4) show ?thesis by (auto simp: well_identified_def same_service_def)
  qed
  show "c(pk := None) = apply_event ServiceRemoved d c" using assms(5) by (simp add: apply_event_def)
  show "ident d' = Some pk' \<and> d' \<in> U" if "(c(pk := None)) pk' = Some d'" for pk' d'
    using that agreeD(1) [OF assms(1)] by (auto split: if_splits)
  fix t k
  show "distinct (change_services ServiceRemoved d (view_services (view_of (specificStore s) (t, k))))"
    using agreeD(4) [OF assms(1), of t k] by (simp add: change_services_def)
  show "set (change_services ServiceRemoved d (view_services (view_of (specificStore s) (t, k)))) =
      {d' \<in> ran (c(pk := None)). concerns t k d'}" if "concerns t k d"
    using agreeD(5) [OF assms(1), of t k] only unfolding ran by (auto simp: change_services_def)
  show "{d' \<in> ran (c(pk := None)). concerns t k d'} = {d' \<in> ran c. concerns t k d'}" if "\<not> concerns t k d"
    using that unfolding ran by auto
qed

section \<open>The operations keep the invariant\<close>

lemma discovery_invD:
  "discovery_inv parse_labels U s \<Longrightarrow> keys_distinct s" "discovery_inv parse_labels U s \<Longrightarrow> agree parse_labels U (cache s) s"
  by (simp_all add: discovery_inv_def)

lemma agree_set_services [simp]: "agree parse_labels U c (set_services p m s) = agree parse_labels U c s"
  by (rule agree_cong) simp_all

lemma agree_touch [simp]: "agree parse_labels U c (touch_participant p s) = agree parse_labels U c s"
  by (rule agree_cong) simp_all

lemma agree_sent [simp]:
  "agree parse_labels U c (emit_output (SentServiceEvent e) s) = agree parse_labels U c s"
  "agree parse_labels U c (emit_output (SentServicesTo p m) s) = agree parse_labels U c s"
  by (rule agree_cong; simp add: known_to_append)+

lemma inv_touch [simp]: "discovery_inv parse_labels U s \<Longrightarrow> discovery_inv parse_labels U (touch_participant p s)"
  by (simp add: discovery_inv_def)

lemma inv_sent [simp]:
  "discovery_inv parse_labels U s \<Longrightarrow> discovery_inv parse_labels U (emit_output (SentServiceEvent e) s)"
  "discovery_inv parse_labels U s \<Longrightarrow> discovery_inv parse_labels U (emit_output (SentServicesTo p m) s)"
  by (simp_all add: discovery_inv_def)

lemma inv_announce [simp]:
  "discovery_inv parse_labels U s \<Longrightarrow> discovery_inv parse_labels U (AnnounceLocalParticipantTo p s)"
  by (simp add: AnnounceLocalParticipantTo_def Let_def)

lemma announce_frame [simp]:
  "cache (AnnounceLocalParticipantTo p s) = cache s" "discName (AnnounceLocalParticipantTo p s) = discName s"
  by (simp_all add: AnnounceLocalParticipantTo_def Let_def)

lemma cache_at: "cache s (p, key) = map_of (services_of p s) key"
  by (simp add: cache_def)

lemma ident_of: "descriptor_string d = Inr key \<Longrightarrow> ident d = Some (sd_participantName d, key)"
  by (simp add: ident_def)

text \<open>The cache is changed before the store, or after it.\<close>

lemma inv_add_before:
  assumes "discovery_inv parse_labels U s" "well_identified U" "d \<in> U" "descriptor_string d = Inr key"
    and "sd_participantName d = p" "map_of (services_of p s) key = None"
    and "change_store parse_labels ServiceCreated d (set_services p (AList.update key d (services_of p s)) s) = Done s'"
  shows "discovery_inv parse_labels U (CallHandlers ServiceCreated d s')"
proof -
  let ?s = "set_services p (AList.update key d (services_of p s)) s"
  have same: "servicesByParticipant s' = servicesByParticipant ?s" using assms(7) by (rule change_storeE)
  have "agree parse_labels U ((cache s)((p, key) \<mapsto> d)) (CallHandlers ServiceCreated d s')"
    using assms discovery_invD(2) [OF assms(1)]
    by (intro agree_add [OF _ assms(7)]) (simp_all add: ident_of cache_at)
  moreover have "cache (CallHandlers ServiceCreated d s') = (cache s)((p, key) \<mapsto> d)"
    using cache_cong [OF same] by simp
  moreover have "keys_distinct ?s"
    using discovery_invD(1) [OF assms(1)] by (simp add: keys_distinct_set_services services_of_distinct)
  ultimately show ?thesis
    using keys_distinct_cong [OF same] by (simp add: discovery_inv_def)
qed

lemma inv_add_after:
  assumes "discovery_inv parse_labels U s" "well_identified U" "d \<in> U" "descriptor_string d = Inr key"
    and "sd_participantName d = p" "map_of (services_of p s) key = None"
    and "change_store parse_labels ServiceCreated d s = Done s'"
  shows "discovery_inv parse_labels U (CallHandlers ServiceCreated d (set_services p (AList.update key d (services_of p s')) s'))"
proof -
  have same: "servicesByParticipant s' = servicesByParticipant s" using assms(7) by (rule change_storeE)
  let ?s = "CallHandlers ServiceCreated d (set_services p (AList.update key d (services_of p s')) s')"
  have "agree parse_labels U ((cache s)((p, key) \<mapsto> d)) (CallHandlers ServiceCreated d s')"
    using assms discovery_invD(2) [OF assms(1)]
    by (intro agree_add [OF _ assms(7)]) (simp_all add: ident_of cache_at)
  moreover have "agree parse_labels U c ?s = agree parse_labels U c (CallHandlers ServiceCreated d s')" for c
    by (rule agree_cong) simp_all
  moreover have "cache ?s = (cache s)((p, key) \<mapsto> d)"
    using cache_cong [OF same] by simp
  moreover have "keys_distinct ?s"
    using discovery_invD(1) [OF assms(1)] keys_distinct_cong [OF same]
    by (simp add: keys_distinct_set_services services_of_distinct)
  ultimately show ?thesis by (simp add: discovery_inv_def)
qed

lemma OnServiceAddition_inv:
  assumes "discovery_inv parse_labels U s" "well_identified U" "d \<in> U" "OnServiceAddition parse_labels d s = Done s'"
  shows "discovery_inv parse_labels U s'"
proof -
  let ?p = "sd_participantName d"
  let ?s = "touch_participant ?p s"
  obtain key where key: "descriptor_string d = Inr key"
    using assms(4) by (auto simp: OnServiceAddition_def Let_def split: sum.splits)
  show ?thesis
  proof (cases "map_of (services_of ?p s) key")
    case None
    define s1 where "s1 = (if ?p \<noteq> discName s \<and> item_or_empty controllerType_key d = controllerTypeServiceDiscovery
        then AnnounceLocalParticipantTo ?p ?s else ?s)"
    have inv1: "discovery_inv parse_labels U s1" using assms(1) by (simp add: s1_def)
    have "cache s1 = cache s" by (simp add: s1_def)
    then have none: "map_of (services_of ?p s1) key = None" using None by (metis cache_at)
    obtain s2 where s2: "change_store parse_labels ServiceCreated d (set_services ?p (AList.update key d (services_of ?p s1)) s1) = Done s2"
      and "s' = CallHandlers ServiceCreated d s2"
      using assms(4) None key by (auto simp: OnServiceAddition_def Let_def bind_outcome_Done_iff s1_def)
    then show ?thesis using inv_add_before [OF inv1 assms(2,3) key refl none s2] by simp
  qed (use assms(1,4) key in \<open>auto simp: OnServiceAddition_def Let_def\<close>)
qed

lemma OnServiceRemoval_inv:
  assumes "discovery_inv parse_labels U s" "well_identified U" "d \<in> U" "OnServiceRemoval parse_labels d s = Done s'"
  shows "discovery_inv parse_labels U s'"
proof -
  let ?p = "sd_participantName d"
  let ?s = "touch_participant ?p s"
  obtain key where key: "descriptor_string d = Inr key"
    using assms(4) by (auto simp: OnServiceRemoval_def Let_def split: sum.splits)
  show ?thesis
  proof (cases "map_of (services_of ?p s) key")
    case (Some d')
    let ?r = "set_services ?p (AList.delete key (services_of ?p s)) ?s"
    have r: "?r = set_services ?p (AList.delete key (services_of ?p ?s)) ?s" by simp
    have "ident d' = ident d" "d' \<in> U"
      using agreeD(1) [OF discovery_invD(2) [OF assms(1)], of "(?p, key)" d'] Some key by (simp_all add: cache_at ident_of)
    with assms(2,3) key have d': "d' = d" by (auto simp: well_identified_def ident_def)
    obtain s2 where s2: "change_store parse_labels ServiceRemoved d ?r = Done s2" and s': "s' = CallHandlers ServiceRemoved d s2"
      using assms(4) Some key by (auto simp: OnServiceRemoval_def Let_def bind_outcome_Done_iff)
    have same: "servicesByParticipant s2 = servicesByParticipant ?r" using s2 by (rule change_storeE)
    have c: "cache ?r = (cache s)((?p, key) := None)" unfolding r cache_remove by simp
    have "agree parse_labels U ((cache s)((?p, key) := None)) s'" unfolding s'
      using discovery_invD(2) [OF assms(1)] Some d'
      by (intro agree_remove [OF _ s2 assms(2,3)]) (simp_all add: ident_of key cache_at)
    moreover have "cache s' = (cache s)((?p, key) := None)"
      using cache_cong [OF same] c by (simp add: s')
    moreover have "keys_distinct ?r"
      using discovery_invD(1) [OF assms(1)] by (simp add: keys_distinct_set_services services_of_distinct)
    then have "keys_distinct s'" using keys_distinct_cong [OF same] by (simp add: s')
    ultimately show ?thesis by (simp add: discovery_inv_def)
  qed (use assms(1,4) key in \<open>auto simp: OnServiceRemoval_def Let_def\<close>)
qed

lemma add_announced_inv:
  assumes "discovery_inv parse_labels U s" "well_identified U" "\<forall>d\<in>set ds. d \<in> U \<and> sd_participantName d = p"
    and "add_announced parse_labels p ds s = Done s'"
  shows "discovery_inv parse_labels U s'"
  using assms
proof (induction ds arbitrary: s)
  case (Cons d ds)
  from Cons.prems(4) obtain key where key: "descriptor_string d = Inr key" by (auto split: sum.splits)
  show ?case
  proof (cases "map_of (services_of p s) key")
    case None
    with Cons.prems(4) key obtain s1 where s1: "change_store parse_labels ServiceCreated d s = Done s1"
      and rest: "add_announced parse_labels p ds (CallHandlers ServiceCreated d (set_services p (AList.update key d (services_of p s1)) s1)) = Done s'"
      by (auto simp: bind_outcome_Done_iff)
    have "discovery_inv parse_labels U (CallHandlers ServiceCreated d (set_services p (AList.update key d (services_of p s1)) s1))"
      using Cons.prems(3) by (intro inv_add_after [OF Cons.prems(1,2) _ key _ None s1]) auto
    from Cons.IH [OF this Cons.prems(2) _ rest] Cons.prems(3) show ?thesis by simp
  qed (use Cons key in auto)
qed simp

lemma add_announced_handlers:
  "add_announced parse_labels p ds s = Done s' \<Longrightarrow> discHandlers s' = discHandlers s"
proof (induction ds arbitrary: s)
  case (Cons d ds)
  then obtain key where key: "descriptor_string d = Inr key" by (auto split: sum.splits)
  show ?case
  proof (cases "map_of (services_of p s) key")
    case None
    with Cons.prems key obtain s1 where s1: "change_store parse_labels ServiceCreated d s = Done s1"
      and rest: "add_announced parse_labels p ds (CallHandlers ServiceCreated d (set_services p (AList.update key d (services_of p s1)) s1)) = Done s'"
      by (auto simp: bind_outcome_Done_iff)
    obtain calls where "discHandlers s1 = discHandlers s" using s1 by (rule change_storeE)
    with Cons.IH [OF rest] show ?thesis by simp
  qed (use Cons key in auto)
qed simp

text \<open>The services of a participant that leaves are removed one after the other.\<close>

definition without_services :: "service_descriptor list \<Rightarrow> (string \<times> string \<Rightarrow> service_descriptor option)
    \<Rightarrow> (string \<times> string \<Rightarrow> service_descriptor option)" where
  "without_services ds c = (\<lambda>pk. if \<exists>d\<in>set ds. ident d = Some pk then None else c pk)"

lemma without_services_simps:
  "without_services [] c = c"
  "ident d = Some pk \<Longrightarrow> without_services (d # ds) c = without_services ds (c(pk := None))"
  by (auto simp: without_services_def fun_eq_iff)

lemma remove_announced_agree:
  assumes "agree parse_labels U c s" "well_identified U" "distinct ds"
    and "\<forall>d\<in>set ds. d \<in> U \<and> (\<exists>pk. ident d = Some pk \<and> c pk = Some d)"
    and "remove_announced parse_labels ds s = Done s'"
  shows "agree parse_labels U (without_services ds c) s' \<and> servicesByParticipant s' = servicesByParticipant s"
  using assms
proof (induction ds arbitrary: s c)
  case (Cons d ds)
  obtain s1 where s1: "change_store parse_labels ServiceRemoved d s = Done s1"
    and rest: "remove_announced parse_labels ds (CallHandlers ServiceRemoved d s1) = Done s'"
    using Cons.prems(5) by (auto simp: bind_outcome_Done_iff)
  have same: "servicesByParticipant s1 = servicesByParticipant s" using s1 by (rule change_storeE)
  obtain pk where pk: "ident d = Some pk" "c pk = Some d" and d: "d \<in> U" using Cons.prems(4) by auto
  have "agree parse_labels U (c(pk := None)) (CallHandlers ServiceRemoved d s1)"
    by (rule agree_remove [OF Cons.prems(1) s1 Cons.prems(2) d pk])
  moreover have "\<forall>e\<in>set ds. e \<in> U \<and> (\<exists>pk'. ident e = Some pk' \<and> (c(pk := None)) pk' = Some e)"
  proof
    fix e assume e: "e \<in> set ds"
    with Cons.prems(4) obtain pk' where "e \<in> U" "ident e = Some pk'" "c pk' = Some e" by auto
    moreover have "pk' \<noteq> pk" using e Cons.prems(3) \<open>c pk' = Some e\<close> pk(2) by auto
    ultimately show "e \<in> U \<and> (\<exists>pk'. ident e = Some pk' \<and> (c(pk := None)) pk' = Some e)" by auto
  qed
  moreover have "distinct ds" using Cons.prems(3) by simp
  ultimately have "agree parse_labels U (without_services ds (c(pk := None))) s' \<and>
      servicesByParticipant s' = servicesByParticipant (CallHandlers ServiceRemoved d s1)"
    using Cons.IH [OF _ Cons.prems(2) _ _ rest] by blast
  then show ?case unfolding without_services_simps(2) [OF pk(1)] CallHandlers_frame(1) same .
qed (simp add: without_services_simps)

lemma OnParticpantRemoval_inv:
  assumes "discovery_inv parse_labels U s" "well_identified U" "OnParticpantRemoval parse_labels p s = Done s'"
  shows "discovery_inv parse_labels U s'"
proof (cases "p = discName s \<or> map_of (servicesByParticipant s) p = None")
  case False
  then obtain m where m: "map_of (servicesByParticipant s) p = Some m" and p: "p \<noteq> discName s" by auto
  then obtain s1 where s1: "remove_announced parse_labels (map snd m) s = Done s1"
    and s': "s' = s1\<lparr>servicesByParticipant := AList.delete p (servicesByParticipant s1)\<rparr>"
    using assms(3) by (auto simp: OnParticpantRemoval_def bind_outcome_Done_iff)
  note agree = discovery_invD(2) [OF assms(1)] and keys = discovery_invD(1) [OF assms(1)]
  have at: "cache s (p, k) = map_of m k" for k using m by (simp add: cache_at services_of_def)
  have dm: "distinct (map fst m)" using services_of_distinct [OF keys, of p] m by (simp add: services_of_def)
  have known: "ident d = Some (p, k) \<and> d \<in> U \<and> cache s (p, k) = Some d" if "(k, d) \<in> set m" for k d
    using agreeD(1) [OF agree, of "(p, k)" d] that dm by (simp add: at)
  have "distinct (map snd m)"
  proof -
    have "inj_on snd (set m)"
    proof (rule inj_onI)
      fix x y assume xy: "x \<in> set m" "y \<in> set m" "snd x = snd y"
      then have "ident (snd x) = Some (p, fst x)" "ident (snd y) = Some (p, fst y)"
        using known [of "fst x" "snd x"] known [of "fst y" "snd y"] by (metis prod.collapse)+
      with xy(3) show "x = y" by (simp add: prod_eq_iff)
    qed
    with dm show ?thesis by (simp add: distinct_map)
  qed
  moreover have "\<forall>d\<in>set (map snd m). d \<in> U \<and> (\<exists>pk. ident d = Some pk \<and> cache s pk = Some d)"
    using known by fastforce
  ultimately have a: "agree parse_labels U (without_services (map snd m) (cache s)) s1"
    and same: "servicesByParticipant s1 = servicesByParticipant s"
    using remove_announced_agree [OF agree assms(2) _ _ s1] by blast+
  have "cache s' = without_services (map snd m) (cache s)"
  proof
    fix qk :: "string \<times> string"
    obtain q k where qk: "qk = (q, k)" by (cases qk)
    have "cache s' (q, k) = (if q = p then None else cache s (q, k))"
      by (simp add: s' cache_at services_of_def same)
    moreover have "(\<exists>d\<in>set (map snd m). ident d = Some (q, k)) \<longleftrightarrow> q = p \<and> map_of m k \<noteq> None"
      using known dm by (force simp: map_of_eq_None_iff image_iff)
    ultimately show "cache s' qk = without_services (map snd m) (cache s) qk"
      using at by (auto simp: without_services_def qk)
  qed
  moreover have "agree parse_labels U c s' = agree parse_labels U c s1" for c
    by (rule agree_cong) (simp_all add: s')
  moreover have "keys_distinct s'" using keys by (auto simp: s' same keys_distinct_def in_set_delete_iff)
  ultimately show ?thesis using a by (simp add: discovery_inv_def)
qed (use assms in \<open>auto simp: OnParticpantRemoval_def split: if_splits option.splits\<close>)

section \<open>Handlers are registered\<close>

lemma GetServices_cache:
  assumes "discovery_inv parse_labels U s"
  shows "set (GetServices s) = ran (cache s)"
proof -
  note keys = discovery_invD(1) [OF assms]
  have "d \<in> set (GetServices s) \<longleftrightarrow> (\<exists>p k. cache s (p, k) = Some d)" for d
  proof -
    have "d \<in> set (GetServices s) \<longleftrightarrow> (\<exists>p m k. (p, m) \<in> set (servicesByParticipant s) \<and> (k, d) \<in> set m)"
      by (force simp: GetServices_def)
    also have "\<dots> \<longleftrightarrow> (\<exists>p m k. map_of (servicesByParticipant s) p = Some m \<and> map_of m k = Some d)"
    proof -
      have "(p, m) \<in> set (servicesByParticipant s) \<longleftrightarrow> map_of (servicesByParticipant s) p = Some m" for p m
        using keys by (simp add: keys_distinct_def)
      moreover have "(k, d) \<in> set m \<longleftrightarrow> map_of m k = Some d" if "map_of (servicesByParticipant s) p = Some m" for p m k
        using services_of_distinct [OF keys, of p] that by (simp add: services_of_def)
      ultimately show ?thesis by metis
    qed
    also have "\<dots> \<longleftrightarrow> (\<exists>p k. cache s (p, k) = Some d)"
      by (simp add: cache_at services_of_def) (metis (no_types, lifting) map_of.simps(1) option.case_eq_if option.collapse option.distinct(1) option.simps(5))
    finally show ?thesis .
  qed
  then show ?thesis by (auto simp: ran_def)
qed

lemma fold_created:
  "fold (view_step h) (map (\<lambda>d. GeneralCall (CallHandler h ServiceCreated d)) ds) v pk =
   (case find (\<lambda>d. ident d = Some pk) (rev ds) of Some d \<Rightarrow> Some d | None \<Rightarrow> v pk)"
proof (induction ds rule: rev_induct)
  case (snoc d ds)
  then show ?case by (auto simp: apply_event_def split: option.split)
qed simp

lemma other_handler: "h \<noteq> h' \<Longrightarrow> fold (view_step h') (map (\<lambda>d. GeneralCall (CallHandler h ServiceCreated d)) ds) v = v"
  by (induction ds arbitrary: v) auto

lemma replayed_cache:
  assumes "discovery_inv parse_labels U s"
  shows "fold (view_step h) (map (\<lambda>d. GeneralCall (CallHandler h ServiceCreated d)) (GetServices s)) Map.empty = cache s"
proof
  fix pk
  note agree = discovery_invD(2) [OF assms]
  show "fold (view_step h) (map (\<lambda>d. GeneralCall (CallHandler h ServiceCreated d)) (GetServices s)) Map.empty pk = cache s pk"
  proof (cases "find (\<lambda>d. ident d = Some pk) (rev (GetServices s))")
    case None
    then have "d \<in> ran (cache s) \<Longrightarrow> ident d \<noteq> Some pk" for d
      using GetServices_cache [OF assms] by (auto simp: find_None_iff)
    with agreeD(1) [OF agree, of pk] have "cache s pk = None" by (metis option.exhaust ranI)
    with None show ?thesis by (simp add: fold_created)
  next
    case (Some d)
    then have "d \<in> set (rev (GetServices s))" "ident d = Some pk"
      by (auto simp: find_Some_iff simp del: set_rev)
    then have "d \<in> ran (cache s)" "ident d = Some pk" using GetServices_cache [OF assms] by auto
    then obtain pk' where "cache s pk' = Some d" by (auto simp: ran_def)
    with agreeD(1) [OF agree this] \<open>ident d = Some pk\<close> Some show ?thesis by (simp add: fold_created)
  qed
qed

lemma RegisterServiceDiscoveryHandler_inv:
  assumes "discovery_inv parse_labels U s" "h \<notin> set (discHandlers s)"
  shows "discovery_inv parse_labels U (RegisterServiceDiscoveryHandler h s)"
proof (cases "discShuttingDown s")
  case False
  let ?s = "RegisterServiceDiscoveryHandler h s"
  have s: "discHandlers ?s = discHandlers s @ [h]" "specificStore ?s = specificStore s"
    "discTrace ?s = discTrace s @ map (\<lambda>d. GeneralCall (CallHandler h ServiceCreated d)) (GetServices s)"
    "servicesByParticipant ?s = servicesByParticipant s"
    using False by (simp_all add: RegisterServiceDiscoveryHandler_def)
  note agree = discovery_invD(2) [OF assms(1)]
  have "known_to h' (discTrace ?s) = (if h' \<in> set (discHandlers ?s) then cache s else Map.empty)" for h'
  proof (cases "h' = h")
    case True
    then show ?thesis
      using agreeD(2) [OF agree, of h] assms(2) replayed_cache [OF assms(1)] by (simp add: s known_to_append)
  next
    case False
    then show ?thesis using agreeD(2) [OF agree, of h'] by (simp add: s known_to_append other_handler)
  qed
  with agree have "agree parse_labels U (cache s) ?s" unfolding agree_def s(2) by blast
  then show ?thesis
    using discovery_invD(1) [OF assms(1)] by (simp add: discovery_inv_def cache_cong [OF s(4)] keys_distinct_cong [OF s(4)])
qed (use assms in \<open>simp add: RegisterServiceDiscoveryHandler_def\<close>)

lemma registering_keeps_services:
  assumes "store_RegisterHandler parse_labels h t k labels st = ((calls, err), st')"
  shows "view_services (view_of st' tk) = view_services (view_of st tk)"
proof -
  obtain g e where ge: "GetLabelWithMinimalNodeSet labels (entry_at st (t, k)) = (g, e)" by fastforce
  then have "extends (entry_at st (t, k)) e"
    unfolding GetLabelWithMinimalNodeSet_def by (rule minimal_label_extends)
  then have all: "allCluster e = allCluster (entry_at st (t, k))" by (simp add: extends_def)
  have "call_for_nodes parse_labels h labels (candidates cluster_nodes g e) = (calls, err)"
    using assms ge by (simp add: store_RegisterHandler_def CallHandlerOnHandlerRegistration_def Let_def split: prod.splits)
  from store_RegisterHandler_entry [OF ge this] assms all show ?thesis
    by (auto simp: view_of_def)
qed

lemma RegisterSpecific_inv:
  assumes "discovery_inv parse_labels U s" "RegisterSpecificServiceDiscoveryHandler parse_labels h t k labels s = Done s'"
  shows "discovery_inv parse_labels U s'"
proof (cases "discShuttingDown s")
  case False
  then obtain calls st where st: "store_RegisterHandler parse_labels h t k labels (specificStore s) = ((calls, None), st)"
    and s': "s' = s\<lparr>specificStore := st, discTrace := discTrace s @ map SpecificCall calls\<rparr>"
    using assms(2) by (auto simp: RegisterSpecificServiceDiscoveryHandler_def Let_def split: prod.splits option.splits)
  note agree = discovery_invD(2) [OF assms(1)]
  have "store_reachable parse_labels st" by (rule store_register [OF agreeD(3) [OF agree] st])
  moreover have "view_services (view_of st tk) = view_services (view_of (specificStore s) tk)" for tk
    using st by (rule registering_keeps_services)
  ultimately have "agree parse_labels U (cache s) s'"
    using agree unfolding agree_def s' by (simp add: known_to_append)
  then show ?thesis
    using discovery_invD(1) [OF assms(1)] by (simp add: discovery_inv_def s' cache_cong keys_distinct_cong cache_def services_of_def keys_distinct_def)
qed (use assms in \<open>simp add: RegisterSpecificServiceDiscoveryHandler_def\<close>)

section \<open>All that can happen\<close>

text \<open>
  The services that occur are among U; a call that throws ends the participant's part in the
  run. A general handler is registered once.
\<close>

inductive discovery_reachable :: "(string \<Rightarrow> matching_label list result) \<Rightarrow> service_descriptor set \<Rightarrow> 'h service_discovery \<Rightarrow> bool"
  for parse_labels U where
  discovery_new: "discovery_reachable parse_labels U (new_service_discovery name)"
| discovery_created: "discovery_reachable parse_labels U s \<Longrightarrow> d \<in> U \<Longrightarrow> NotifyServiceCreated parse_labels d s = Done s' \<Longrightarrow>
    discovery_reachable parse_labels U s'"
| discovery_removed: "discovery_reachable parse_labels U s \<Longrightarrow> d \<in> U \<Longrightarrow> NotifyServiceRemoved parse_labels d s = Done s' \<Longrightarrow>
    discovery_reachable parse_labels U s'"
| discovery_event: "discovery_reachable parse_labels U s \<Longrightarrow> sde_serviceDescriptor e \<in> U \<Longrightarrow>
    ReceiveServiceDiscoveryEvent parse_labels e s = Done s' \<Longrightarrow> discovery_reachable parse_labels U s'"
| discovery_announced: "discovery_reachable parse_labels U s \<Longrightarrow>
    \<forall>d\<in>set (pd_services msg). d \<in> U \<and> sd_participantName d = pd_participantName msg \<Longrightarrow>
    ReceiveParticipantDiscoveryEvent parse_labels msg s = Done s' \<Longrightarrow> discovery_reachable parse_labels U s'"
| discovery_left: "discovery_reachable parse_labels U s \<Longrightarrow> OnParticpantRemoval parse_labels p s = Done s' \<Longrightarrow>
    discovery_reachable parse_labels U s'"
| discovery_registered: "discovery_reachable parse_labels U s \<Longrightarrow> h \<notin> set (discHandlers s) \<Longrightarrow>
    discovery_reachable parse_labels U (RegisterServiceDiscoveryHandler h s)"
| discovery_specific: "discovery_reachable parse_labels U s \<Longrightarrow>
    RegisterSpecificServiceDiscoveryHandler parse_labels h t k labels s = Done s' \<Longrightarrow> discovery_reachable parse_labels U s'"
| discovery_shut: "discovery_reachable parse_labels U s \<Longrightarrow> discovery_reachable parse_labels U (shut_down_discovery s)"

lemma new_discovery_inv: "discovery_inv parse_labels U (new_service_discovery name)"
  by (simp add: discovery_inv_def keys_distinct_def agree_def new_service_discovery_def cache_def services_of_def
    store_reachable.store_new [unfolded new_store_def] view_of_def new_store_def fun_eq_iff ran_def)

lemma shut_down_inv: "discovery_inv parse_labels U s \<Longrightarrow> discovery_inv parse_labels U (shut_down_discovery s)"
  by (simp add: discovery_inv_def shut_down_discovery_def agree_def keys_distinct_def cache_def services_of_def)

lemma discovery_reachable_inv:
  assumes "discovery_reachable parse_labels U s" "well_identified U"
  shows "discovery_inv parse_labels U s"
  using assms(1)
proof (induction rule: discovery_reachable.induct)
  case (discovery_created s d s')
  then show ?case
    using OnServiceAddition_inv [OF discovery_created.IH assms(2)]
    by (auto simp: NotifyServiceCreated_def bind_outcome_Done_iff split: if_splits)
next
  case (discovery_removed s d s')
  then show ?case
    using OnServiceRemoval_inv [OF discovery_removed.IH assms(2)]
    by (auto simp: NotifyServiceRemoved_def bind_outcome_Done_iff split: if_splits)
next
  case (discovery_event s e s')
  then show ?case
    using OnServiceAddition_inv [OF discovery_event.IH assms(2)] OnServiceRemoval_inv [OF discovery_event.IH assms(2)]
    by (auto simp: ReceiveServiceDiscoveryEvent_def split: if_splits)
next
  case (discovery_announced s msg s')
  then show ?case
    using add_announced_inv [OF inv_touch [OF discovery_announced.IH] assms(2)]
    by (auto simp: ReceiveParticipantDiscoveryEvent_def OnParticpantAddition_def split: if_splits)
next
  case (discovery_left s p s')
  then show ?case using OnParticpantRemoval_inv assms(2) by blast
next
  case (discovery_specific s h t k labels s')
  show ?case by (rule RegisterSpecific_inv [OF discovery_specific.IH discovery_specific.hyps(2)])
qed (auto intro: new_discovery_inv shut_down_inv RegisterServiceDiscoveryHandler_inv)

text \<open>
  Claim C31: at every moment, what a handler has been told adds up to the truth: taking the
  created and removed events that it was called with, in order, gives exactly the cache of
  services, under the participants and names they have; and \<open>GetServices\<close> lists the same.
\<close>

theorem handlers_know_the_services:
  assumes "discovery_reachable parse_labels U s" "well_identified U" "h \<in> set (discHandlers s)"
  shows "known_to h (discTrace s) = cache s \<and> set (GetServices s) = ran (cache s)"
proof -
  have inv: "discovery_inv parse_labels U s" by (rule discovery_reachable_inv [OF assms(1,2)])
  with agreeD(2) [OF discovery_invD(2) [OF inv], of h] GetServices_cache assms(3) show ?thesis by simp
qed

lemma specific_handler_told:
  assumes "discovery_reachable parse_labels U s" "well_identified U" "\<And>d. d \<in> U \<Longrightarrow> GetSupplementalDataItem controllerType_key d = Some t \<Longrightarrow> labelled_service t d"
    and "\<not> discShuttingDown s" "all_mandatory labels"
  shows "\<exists>s' ds. RegisterSpecificServiceDiscoveryHandler parse_labels h t k labels s = Done s' \<and>
    discTrace s' = discTrace s @ map (\<lambda>d. SpecificCall (CallHandler h ServiceCreated d)) ds \<and> distinct ds \<and>
    set ds = {d \<in> set (GetServices s). concerns t k d \<and> MatchLabels (known_labels parse_labels t d) labels}"
proof -
  note inv = discovery_reachable_inv [OF assms(1,2)]
  note agree = discovery_invD(2) [OF inv]
  let ?st = "specificStore s"
  let ?ds = "filter (\<lambda>d. MatchLabels (known_labels parse_labels t d) labels) (view_services (view_of ?st (t, k)))"
  have "list_all (labelled_service t) (view_services (view_of ?st (t, k)))"
    using agreeD(1,5) [OF agree] assms(3) by (auto simp: list_all_iff ran_def concerns_def)
  then have "fst (store_RegisterHandler parse_labels h t k labels ?st) = (map (CallHandler h ServiceCreated) ?ds, None)"
    using told_services [OF agreeD(3) [OF agree] assms(5)] by simp
  then obtain st where "store_RegisterHandler parse_labels h t k labels ?st = ((map (CallHandler h ServiceCreated) ?ds, None), st)"
    by (metis prod.collapse)
  then have "RegisterSpecificServiceDiscoveryHandler parse_labels h t k labels s =
      Done (s\<lparr>specificStore := st, discTrace := discTrace s @ map (\<lambda>d. SpecificCall (CallHandler h ServiceCreated d)) ?ds\<rparr>)"
    using assms(4) by (simp add: RegisterSpecificServiceDiscoveryHandler_def comp_def)
  moreover have "distinct ?ds" using agreeD(4) [OF agree] by simp
  moreover have "set ?ds = {d \<in> set (GetServices s). concerns t k d \<and> MatchLabels (known_labels parse_labels t d) labels}"
    using agreeD(5) [OF agree, of t k] by (auto simp: GetServices_cache [OF inv])
  ultimately show ?thesis by fastforce
qed

text \<open>
  Claim C32: a specific handler whose labels, if any, are mandatory is told, when it is
  registered, of exactly the services among those that \<open>GetServices\<close> lists that have its
  controller type and key and whose labels match, each once.
\<close>

theorem specific_handler_learns_the_services:
  assumes "discovery_reachable parse_labels U s" "well_identified U" "\<And>d. d \<in> U \<Longrightarrow> GetSupplementalDataItem controllerType_key d = Some t \<Longrightarrow> labelled_service t d"
    and "\<not> discShuttingDown s" "all_mandatory labels"
  shows "\<exists>s' ds. RegisterSpecificServiceDiscoveryHandler parse_labels h t k labels s = Done s' \<and>
    discTrace s' = discTrace s @ map (\<lambda>d. SpecificCall (CallHandler h ServiceCreated d)) ds \<and> distinct ds \<and>
    set ds = {d \<in> set (GetServices s). concerns t k d \<and> MatchLabels (known_labels parse_labels t d) labels}"
  using specific_handler_told [OF assms] .

section \<open>A participant joins\<close>

definition readable :: "(string \<Rightarrow> matching_label list result) \<Rightarrow> service_descriptor \<Rightarrow> bool" where
  "readable parse_labels d \<longleftrightarrow> ident d \<noteq> None \<and>
     (case GetSupplementalDataItem controllerType_key d of
        None \<Rightarrow> True
      | Some t \<Rightarrow> allowed_controller t \<longrightarrow> (case service_labels parse_labels t d of Inl _ \<Rightarrow> False | Inr _ \<Rightarrow> True))"

lemma change_store_returns:
  assumes "readable parse_labels d"
  shows "\<exists>s'. change_store parse_labels ev d s = Done s'"
proof -
  have "\<exists>calls st. ServiceChange parse_labels ev d (specificStore s) = (Inr calls, st)"
    using assms by (auto simp: readable_def ServiceChange_def Let_def split: option.splits sum.splits prod.split)
  then show ?thesis by (auto simp: change_store_def)
qed

lemma readable_name: "readable parse_labels d \<Longrightarrow> \<exists>key. descriptor_string d = Inr key"
  by (auto simp: readable_def ident_def split: sum.splits)

lemma change_store_cache: "change_store parse_labels ev d s = Done s' \<Longrightarrow> cache s' = cache s \<and> services_of p s' = services_of p s"
  by (metis change_storeE cache_cong services_of_cong)

lemma add_announced_returns:
  assumes "\<forall>d\<in>set ds. readable parse_labels d \<and> sd_participantName d = p"
  shows "\<exists>s'. add_announced parse_labels p ds s = Done s' \<and>
    (\<forall>pk. cache s pk \<noteq> None \<longrightarrow> cache s' pk \<noteq> None) \<and> (\<forall>d\<in>set ds. cache s' (the (ident d)) \<noteq> None)"
  using assms
proof (induction ds arbitrary: s)
  case (Cons d ds)
  from Cons.prems have d: "readable parse_labels d" "sd_participantName d = p" by auto
  then obtain key where key: "descriptor_string d = Inr key" using readable_name by blast
  then have id: "ident d = Some (p, key)" using d(2) by (simp add: ident_of)
  obtain s1 where s1: "change_store parse_labels ServiceCreated d s = Done s1" using change_store_returns [OF d(1)] by blast
  define s2 where "s2 = (if map_of (services_of p s) key \<noteq> None then s
      else CallHandlers ServiceCreated d (set_services p (AList.update key d (services_of p s1)) s1))"
  have step: "add_announced parse_labels p (d # ds) s = add_announced parse_labels p ds s2"
    using s1 key by (simp add: s2_def)
  have c2: "cache s2 = (if cache s (p, key) \<noteq> None then cache s else (cache s)((p, key) \<mapsto> d))"
    using change_store_cache [OF s1] cache_add [of p key d s1] by (simp add: s2_def cache_at)
  obtain s' where "add_announced parse_labels p ds s2 = Done s'" "\<forall>pk. cache s2 pk \<noteq> None \<longrightarrow> cache s' pk \<noteq> None"
    "\<forall>d\<in>set ds. cache s' (the (ident d)) \<noteq> None"
    using Cons.IH [of s2] Cons.prems by auto
  moreover have "cache s2 pk \<noteq> None" if "cache s pk \<noteq> None" for pk using that c2 by simp
  moreover have "cache s2 (p, key) \<noteq> None" using c2 by simp
  ultimately show ?case unfolding step using id by auto
qed simp

lemma announcement_sent:
  "discTrace (AnnounceLocalParticipantTo q s) = discTrace s @ [SentServicesTo q
     \<lparr>pd_participantName = discName s, pd_version = 1, pd_services = map snd (services_of (discName s) s)\<rparr>]"
  by (simp add: AnnounceLocalParticipantTo_def Let_def)

text \<open>The message with which a participant answers, and what sending and receiving it does.\<close>

definition own_services :: "'h service_discovery \<Rightarrow> participant_discovery_event" where
  "own_services s = \<lparr>pd_participantName = discName s, pd_version = 1, pd_services = map snd (services_of (discName s) s)\<rparr>"

lemma newcomer_is_answered:
  assumes "readable parse_labels d" "\<not> discShuttingDown s"
    and "sd_participantName d = q" "q \<noteq> discName s"
    and "GetSupplementalDataItem controllerType_key d = Some controllerTypeServiceDiscovery" "cache s (the (ident d)) = None"
  shows "\<exists>s'. ReceiveServiceDiscoveryEvent parse_labels \<lparr>sde_type = 1, sde_serviceDescriptor = d\<rparr> s = Done s' \<and>
    SentServicesTo q (own_services s) \<in> set (discTrace s')"
proof -
  obtain key where key: "descriptor_string d = Inr key" using readable_name [OF assms(1)] by blast
  define s1 where "s1 = AnnounceLocalParticipantTo q (touch_participant q s)"
  obtain s2 where s2: "change_store parse_labels ServiceCreated d
      (set_services q (AList.update key d (services_of q s1)) s1) = Done s2"
    using change_store_returns [OF assms(1)] by blast
  have "map_of (services_of q s) key = None" using assms(3,6) key by (simp add: ident_of cache_at)
  then have s': "ReceiveServiceDiscoveryEvent parse_labels \<lparr>sde_type = 1, sde_serviceDescriptor = d\<rparr> s =
      Done (CallHandlers ServiceCreated d s2)"
    using assms(2-5) key s2
    by (simp add: ReceiveServiceDiscoveryEvent_def OnServiceAddition_def Let_def item_or_empty_def s1_def)
  have "discTrace s1 = discTrace s @ [SentServicesTo q (own_services s)]"
    by (simp add: s1_def announcement_sent own_services_def)
  moreover obtain calls where "discTrace s2 = discTrace s1 @ map SpecificCall calls"
    using change_storeE [OF s2] by (metis set_services_frame(3))
  ultimately show ?thesis using s' by simp
qed

lemma own_services_named:
  assumes "discovery_inv parse_labels U s"
  shows "\<forall>e\<in>set (pd_services (own_services s)). e \<in> U \<and> sd_participantName e = discName s"
    and "cache s (discName s, key) = Some e \<Longrightarrow>
      e \<in> set (pd_services (own_services s)) \<and> e \<in> U \<and> ident e = Some (discName s, key)"
proof -
  note known = agreeD(1) [OF discovery_invD(2) [OF assms]]
  show "\<forall>e\<in>set (pd_services (own_services s)). e \<in> U \<and> sd_participantName e = discName s"
  proof
    fix e assume "e \<in> set (pd_services (own_services s))"
    then obtain k where "(k, e) \<in> set (services_of (discName s) s)" by (auto simp: own_services_def)
    then have "cache s (discName s, k) = Some e"
      using services_of_distinct [OF discovery_invD(1) [OF assms]] by (simp add: cache_at)
    from known [OF this] show "e \<in> U \<and> sd_participantName e = discName s"
      by (simp add: ident_def split: sum.splits)
  qed
  show "cache s (discName s, key) = Some e \<Longrightarrow>
      e \<in> set (pd_services (own_services s)) \<and> e \<in> U \<and> ident e = Some (discName s, key)"
    using known [of "(discName s, key)" e] by (force simp: own_services_def cache_at dest: map_of_SomeD)
qed

lemma newcomer_receives:
  assumes "discovery_inv parse_labels U n" "well_identified U" "\<not> discShuttingDown n"
    and "\<forall>e\<in>set (pd_services msg). readable parse_labels e \<and> e \<in> U \<and> sd_participantName e = pd_participantName msg"
  shows "\<exists>n'. ReceiveParticipantDiscoveryEvent parse_labels msg n = Done n' \<and> discovery_inv parse_labels U n' \<and>
    discHandlers n' = discHandlers n \<and>
    (\<forall>e\<in>set (pd_services msg). cache n' (the (ident e)) = Some e)"
proof -
  let ?p = "pd_participantName msg"
  have "\<forall>e\<in>set (pd_services msg). readable parse_labels e \<and> sd_participantName e = ?p" using assms(4) by blast
  from add_announced_returns [OF this, of "touch_participant ?p n"] obtain n' where
    n': "add_announced parse_labels ?p (pd_services msg) (touch_participant ?p n) = Done n'"
    and known: "\<forall>e\<in>set (pd_services msg). cache n' (the (ident e)) \<noteq> None" by blast
  have inv: "discovery_inv parse_labels U n'"
    using add_announced_inv [OF inv_touch [OF assms(1)] assms(2) _ n'] assms(4) by blast
  have "cache n' (the (ident e)) = Some e" if e: "e \<in> set (pd_services msg)" for e
  proof -
    obtain e' where e': "cache n' (the (ident e)) = Some e'" using known e by blast
    have "ident e \<noteq> None" using assms(4) e by (auto simp: readable_def)
    with agreeD(1) [OF discovery_invD(2) [OF inv] e'] have "ident e' = ident e" "e' \<in> U" by auto
    moreover have "e \<in> U" using assms(4) e by blast
    ultimately have "e' = e" using \<open>ident e \<noteq> None\<close> assms(2) unfolding well_identified_def by metis
    with e' show ?thesis by simp
  qed
  then show ?thesis
    using n' inv assms(3) add_announced_handlers [OF n']
    by (simp add: ReceiveParticipantDiscoveryEvent_def OnParticpantAddition_def)
qed

text \<open>
  Claim C33: when a participant that is not known yet announces its service discovery, a
  participant that is there answers with all its own services, and when the newcomer has
  received the answer it knows each of them under its name, and each of its general handlers
  has been told of each of them.
\<close>

theorem newcomer_learns_the_services:
  assumes "discovery_reachable parse_labels U s" "discovery_reachable parse_labels U n" "well_identified U"
    and "\<And>d. d \<in> U \<Longrightarrow> readable parse_labels d" "\<not> discShuttingDown s" "\<not> discShuttingDown n"
    and "d \<in> U" "sd_participantName d = discName n" "discName n \<noteq> discName s"
    and "GetSupplementalDataItem controllerType_key d = Some controllerTypeServiceDiscovery"
    and "cache s (the (ident d)) = None"
  shows "\<exists>s' msg n'. ReceiveServiceDiscoveryEvent parse_labels \<lparr>sde_type = 1, sde_serviceDescriptor = d\<rparr> s = Done s' \<and>
    SentServicesTo (discName n) msg \<in> set (discTrace s') \<and>
    ReceiveParticipantDiscoveryEvent parse_labels msg n = Done n' \<and>
    (\<forall>key e. cache s (discName s, key) = Some e \<longrightarrow> cache n' (discName s, key) = Some e \<and>
       (\<forall>h\<in>set (discHandlers n). known_to h (discTrace n') (discName s, key) = Some e))"
proof -
  note inv = discovery_reachable_inv [OF assms(1,3)] and invn = discovery_reachable_inv [OF assms(2,3)]
  note own = own_services_named [OF inv]
  obtain s' where s': "ReceiveServiceDiscoveryEvent parse_labels \<lparr>sde_type = 1, sde_serviceDescriptor = d\<rparr> s = Done s'"
    "SentServicesTo (discName n) (own_services s) \<in> set (discTrace s')"
    using newcomer_is_answered [OF assms(4) [OF assms(7)] assms(5,8-11)] by blast
  have "\<forall>e\<in>set (pd_services (own_services s)). readable parse_labels e \<and> e \<in> U \<and>
      sd_participantName e = pd_participantName (own_services s)"
    using own(1) assms(4) by (metis own_services_def participant_discovery_event.select_convs(1))
  from newcomer_receives [OF invn assms(3,6) this] obtain n' where
    n': "ReceiveParticipantDiscoveryEvent parse_labels (own_services s) n = Done n'" "discovery_inv parse_labels U n'"
      "discHandlers n' = discHandlers n" "\<forall>e\<in>set (pd_services (own_services s)). cache n' (the (ident e)) = Some e"
    by blast
  have "known_to h (discTrace n') = cache n'" if "h \<in> set (discHandlers n)" for h
    using agreeD(2) [OF discovery_invD(2) [OF n'(2)], of h] n'(3) that by simp
  moreover have "cache n' (discName s, key) = Some e" if "cache s (discName s, key) = Some e" for key e
    using own(2) [OF that] n'(4) by auto
  ultimately show ?thesis using s' n'(1) by (intro exI conjI) auto
qed

section \<open>The properties at concrete inputs\<close>

definition example_service :: "string \<Rightarrow> 64 word \<Rightarrow> 64 word \<Rightarrow> string \<Rightarrow> (string \<times> string) list \<Rightarrow> service_descriptor" where
  "example_service p p_id n name items =
     \<lparr>sd_participantName = p, sd_participantId = p_id, sd_serviceType = 2, sd_networkName = ''N'', sd_networkType = 6,
      sd_serviceName = name, sd_serviceId = n, sd_supplementalData = items\<rparr>"

definition example_pub :: service_descriptor where
  "example_pub = example_service ''A'' 1 5 ''pub'' [(controllerType_key, controllerTypeDataPublisher),
     (supplKeyDataPublisherTopic, ''T''), (supplKeyDataPublisherPubLabels, [])]"

definition example_joins :: service_descriptor where
  "example_joins = example_service ''B'' 2 6 ''sd'' [(controllerType_key, controllerTypeServiceDiscovery)]"

definition no_labels :: "string \<Rightarrow> matching_label list result" where
  "no_labels text = Inr []"

abbreviation example_U :: "service_descriptor set" where
  "example_U \<equiv> {example_pub, example_joins}"

lemma example_idents:
  "ident example_pub = Some (''A'', ''A/Controller/DataPublisher/N/pub'')"
  "ident example_joins = Some (''B'', ''B/Controller/ServiceDiscovery/N/sd'')"
  by (simp_all add: ident_def descriptor_string_def example_pub_def example_joins_def example_service_def
    GetSupplementalDataItem_def discovery_keys ServiceType_string_def controllerTypeServiceDiscovery_def Let_def)

lemma example_identified: "well_identified example_U"
  by (simp add: well_identified_def example_idents same_service_def)
    (simp add: example_pub_def example_joins_def example_service_def)

lemma example_labelled:
  assumes "d \<in> example_U" "GetSupplementalDataItem controllerType_key d = Some controllerTypeDataPublisher"
  shows "labelled_service controllerTypeDataPublisher d"
  using assms by (auto simp: labelled_service_def example_pub_def example_joins_def example_service_def
    GetSupplementalDataItem_def discovery_keys controllerTypeServiceDiscovery_def)

lemma example_readable: "d \<in> example_U \<Longrightarrow> readable no_labels d"
  by (auto simp: readable_def example_idents no_labels_def service_labels_def split: option.split)

definition example_A :: "nat service_discovery" where
  "example_A = (case NotifyServiceCreated no_labels example_pub (RegisterServiceDiscoveryHandler 7 (new_service_discovery ''A'')) of
     Done s \<Rightarrow> s | _ \<Rightarrow> new_service_discovery ''A'')"

lemma example_A_created:
  "NotifyServiceCreated no_labels example_pub (RegisterServiceDiscoveryHandler (7::nat) (new_service_discovery ''A'')) = Done example_A"
proof -
  have "\<exists>s. NotifyServiceCreated no_labels example_pub (RegisterServiceDiscoveryHandler (7::nat) (new_service_discovery ''A'')) = Done s"
  proof -
    let ?s = "touch_participant ''A'' (RegisterServiceDiscoveryHandler (7::nat) (new_service_discovery ''A''))"
    have k: "descriptor_string example_pub = Inr ''A/Controller/DataPublisher/N/pub''" "sd_participantName example_pub = ''A''"
      using example_idents(1) by (auto simp: ident_def split: sum.splits)
    obtain s where "change_store no_labels ServiceCreated example_pub
        (set_services ''A'' (AList.update ''A/Controller/DataPublisher/N/pub'' example_pub (services_of ''A'' ?s)) ?s) = Done s"
      using change_store_returns [OF example_readable] by blast
    then show ?thesis
      by (simp add: NotifyServiceCreated_def OnServiceAddition_def k Let_def RegisterServiceDiscoveryHandler_def
        new_service_discovery_def services_of_def)
  qed
  then show ?thesis by (auto simp: example_A_def)
qed

lemma example_A_reachable: "discovery_reachable no_labels example_U example_A"
  by (rule discovery_created [OF discovery_registered [OF discovery_new] _ example_A_created])
    (simp_all add: new_service_discovery_def)

lemma example_A_handlers: "set (discHandlers example_A) = {7}" "discName example_A = ''A''" "\<not> discShuttingDown example_A"
    "cache example_A = [(''A'', ''A/Controller/DataPublisher/N/pub'') \<mapsto> example_pub]"
proof -
  let ?s = "touch_participant ''A'' (RegisterServiceDiscoveryHandler (7::nat) (new_service_discovery ''A''))"
  have k: "descriptor_string example_pub = Inr ''A/Controller/DataPublisher/N/pub''" "sd_participantName example_pub = ''A''"
    using example_idents(1) by (auto simp: ident_def split: sum.splits)
  let ?t = "set_services ''A'' (AList.update ''A/Controller/DataPublisher/N/pub'' example_pub (services_of ''A'' ?s)) ?s"
  have none: "services_of ''A'' (RegisterServiceDiscoveryHandler (7::nat) (new_service_discovery ''A'')) = []"
    "discName (RegisterServiceDiscoveryHandler (7::nat) (new_service_discovery ''A'')) = ''A''"
    "\<not> discShuttingDown (RegisterServiceDiscoveryHandler (7::nat) (new_service_discovery ''A''))"
    "discHandlers (RegisterServiceDiscoveryHandler (7::nat) (new_service_discovery ''A'')) = [7]"
    "cache (RegisterServiceDiscoveryHandler (7::nat) (new_service_discovery ''A'')) = Map.empty"
    by (auto simp: RegisterServiceDiscoveryHandler_def new_service_discovery_def services_of_def cache_def)
  obtain s1 where s1: "change_store no_labels ServiceCreated example_pub ?t = Done s1"
    and A: "example_A = emit_output (SentServiceEvent \<lparr>sde_type = 1, sde_serviceDescriptor = example_pub\<rparr>)
      (CallHandlers ServiceCreated example_pub s1)"
    using example_A_created by (auto simp: NotifyServiceCreated_def OnServiceAddition_def k Let_def none bind_outcome_Done_iff)
  obtain calls where same: "discHandlers s1 = discHandlers ?t" "discName s1 = discName ?t" "discShuttingDown s1 = discShuttingDown ?t"
    "servicesByParticipant s1 = servicesByParticipant ?t"
    using s1 by (rule change_storeE)
  have "cache ?t = [(''A'', ''A/Controller/DataPublisher/N/pub'') \<mapsto> example_pub]"
    unfolding cache_set_services by (auto simp: none fun_eq_iff cache_set_services)
  with same show "set (discHandlers example_A) = {7}" "discName example_A = ''A''" "\<not> discShuttingDown example_A"
    "cache example_A = [(''A'', ''A/Controller/DataPublisher/N/pub'') \<mapsto> example_pub]"
    by (simp_all add: A none emit_output_def CallHandlers_def cache_def services_of_def)
qed

theorem handlers_know_the_services_witness:
  "known_to 7 (discTrace example_A) (''A'', ''A/Controller/DataPublisher/N/pub'') = Some example_pub"
  using handlers_know_the_services [OF example_A_reachable example_identified, of 7] by (simp add: example_A_handlers)

theorem specific_handler_learns_the_services_witness:
  "\<exists>s'. RegisterSpecificServiceDiscoveryHandler no_labels 2 controllerTypeDataPublisher ''T'' [] example_A = Done s' \<and>
     discTrace s' = discTrace example_A @ [SpecificCall (CallHandler 2 ServiceCreated example_pub)]"
proof -
  obtain s' ds where s': "RegisterSpecificServiceDiscoveryHandler no_labels 2 controllerTypeDataPublisher ''T'' [] example_A = Done s'"
    "discTrace s' = discTrace example_A @ map (\<lambda>d. SpecificCall (CallHandler 2 ServiceCreated d)) ds" "distinct ds"
    "set ds = {d \<in> set (GetServices example_A). concerns controllerTypeDataPublisher ''T'' d \<and>
       MatchLabels (known_labels no_labels controllerTypeDataPublisher d) []}"
    using specific_handler_learns_the_services [OF example_A_reachable example_identified example_labelled
        example_A_handlers(3), of "[]" 2 "''T''"] by auto
  have "concerns controllerTypeDataPublisher ''T'' example_pub"
    by (simp add: concerns_def example_pub_def example_service_def GetSupplementalDataItem_def discovery_keys
      allowed_controller_def service_key_def item_or_empty_def)
  moreover have "set (GetServices example_A) = {example_pub}"
    using GetServices_cache [OF discovery_reachable_inv [OF example_A_reachable example_identified]]
    by (simp add: example_A_handlers)
  moreover have "known_labels no_labels controllerTypeDataPublisher example_pub = []"
    by (simp add: known_labels_def service_labels_def no_labels_def split: option.split)
  ultimately have "set ds = {example_pub}" using s'(4) by auto
  with s'(3) have "ds = [example_pub]" by (cases ds; cases "tl ds") (auto simp: subset_singleton_iff)
  with s'(1,2) show ?thesis by simp
qed

theorem newcomer_learns_the_services_witness:
  "\<exists>msg n'. ReceiveParticipantDiscoveryEvent no_labels msg
       (RegisterServiceDiscoveryHandler 8 (new_service_discovery ''B'' :: nat service_discovery)) = Done n' \<and>
     cache n' (''A'', ''A/Controller/DataPublisher/N/pub'') = Some example_pub \<and>
     known_to 8 (discTrace n') (''A'', ''A/Controller/DataPublisher/N/pub'') = Some example_pub"
proof -
  let ?B = "RegisterServiceDiscoveryHandler 8 (new_service_discovery ''B'' :: nat service_discovery)"
  have B: "discName ?B = ''B''" "\<not> discShuttingDown ?B" "set (discHandlers ?B) = {8}"
    by (simp_all add: new_service_discovery_def RegisterServiceDiscoveryHandler_def)
  have r: "discovery_reachable no_labels example_U ?B"
    by (rule discovery_registered [OF discovery_new]) (simp add: new_service_discovery_def)
  have "sd_participantName example_joins = discName ?B"
    "GetSupplementalDataItem controllerType_key example_joins = Some controllerTypeServiceDiscovery"
    "discName ?B \<noteq> discName example_A"
    "cache example_A (the (ident example_joins)) = None" "example_joins \<in> example_U"
    by (simp_all add: B example_A_handlers example_idents)
      (simp_all add: example_joins_def example_service_def GetSupplementalDataItem_def)
  from newcomer_learns_the_services [OF example_A_reachable r example_identified example_readable
      example_A_handlers(3) B(2) this(5,1,3,2,4)]
  obtain msg n' where n': "ReceiveParticipantDiscoveryEvent no_labels msg ?B = Done n'"
    and k: "\<forall>key e. cache example_A (discName example_A, key) = Some e \<longrightarrow> cache n' (discName example_A, key) = Some e \<and>
       (\<forall>h\<in>set (discHandlers ?B). known_to h (discTrace n') (discName example_A, key) = Some e)" by blast
  from k [rule_format, of "''A/Controller/DataPublisher/N/pub''" example_pub] n' show ?thesis
    by (auto simp: example_A_handlers B(3))
qed

end
