(* ===== verification/PubSub.thy ===== *)
theory PubSub
  imports DiscoveryView "HOL-Library.List_Lexorder" "HOL-Library.Char_ord"
begin

text \<open>
  Publish and subscribe (\<open>services/pubsub\<close>): a publisher sends its data on a network of its own;
  a subscriber makes an internal subscriber for every publisher that service discovery reports
  and whose media type fits, and these deliver what they receive to the user's handler.

  A handler is a value of any type, which may be missing; what a service does is appended to a
  trace. Whether a service replays recorded messages instead of taking part is a flag.
\<close>

definition supplKeyDataPublisherPubUUID :: string where "supplKeyDataPublisherPubUUID = ''PubSub::pubUUID''"
definition supplKeyDataPublisherMediaType :: string where "supplKeyDataPublisherMediaType = ''PubSub::pubMediaType''"

lemmas pubsub_keys = supplKeyDataPublisherPubUUID_def supplKeyDataPublisherMediaType_def

text \<open>A subscriber without a media type accepts every publisher.\<close>

definition pub_MatchMediaType :: "string \<Rightarrow> string \<Rightarrow> bool" where
  "pub_MatchMediaType subMediaType pubMediaType \<longleftrightarrow> subMediaType = [] \<or> subMediaType = pubMediaType"

section \<open>The internal subscriber\<close>

text \<open>The user's handler, wrapped so that the message is traced first; the wrapper is never empty.\<close>

datatype 'c wrapped_handler = WrapTracingCallback "'c option"

record 'c data_subscriber_internal =
  intTopic :: string
  intMediaType :: string
  intLabels :: "matching_label list"
  intHandler :: "'c wrapped_handler option"
  intReplaysReceive :: bool

datatype 'c pubsub_output =
    TracedRX wire_data_message_event
  | HandlerCalled 'c wire_data_message_event
  | WarnedNoHandler
  | CreatedInternal string
  | NotifiedRemoval string

fun call_wrapped :: "'c wrapped_handler \<Rightarrow> wire_data_message_event \<Rightarrow> 'c pubsub_output list" where
  "call_wrapped (WrapTracingCallback None) msg = [TracedRX msg]"
| "call_wrapped (WrapTracingCallback (Some h)) msg = [TracedRX msg, HandlerCalled h msg]"

definition subscriber_ReceiveInternal :: "wire_data_message_event \<Rightarrow> 'c data_subscriber_internal \<Rightarrow> 'c pubsub_output list" where
  "subscriber_ReceiveInternal msg i =
     (case intHandler i of None \<Rightarrow> [WarnedNoHandler] | Some w \<Rightarrow> call_wrapped w msg)"

definition subscriber_ReceiveMsg :: "wire_data_message_event \<Rightarrow> 'c data_subscriber_internal \<Rightarrow> 'c pubsub_output list" where
  "subscriber_ReceiveMsg msg i = (if intReplaysReceive i then [] else subscriber_ReceiveInternal msg i)"

text \<open>The directions of a recorded message, and its replay on either side.\<close>

datatype transmit_direction = UndefinedDirection | TX | RX | TXRX

fun subscriber_ReplayMessage :: "transmit_direction \<Rightarrow> wire_data_message_event \<Rightarrow> 'c data_subscriber_internal
    \<Rightarrow> 'c pubsub_output list result" where
  "subscriber_ReplayMessage RX msg i = Inr (if intReplaysReceive i then subscriber_ReceiveInternal msg i else [])"
| "subscriber_ReplayMessage TX msg i = Inr []"
| "subscriber_ReplayMessage _ msg i = Inl SilKitError"

section \<open>The subscriber\<close>

record 'c data_subscriber =
  subTopic :: string
  subMediaType :: string
  subLabels :: "matching_label list"
  subHandler :: "'c wrapped_handler"
  subReplaysReceive :: bool
  internalSubscribers :: "(string \<times> 'c data_subscriber_internal) list"
  subTrace :: "'c pubsub_output list"

definition new_data_subscriber :: "string \<Rightarrow> string \<Rightarrow> matching_label list \<Rightarrow> 'c option \<Rightarrow> bool \<Rightarrow> 'c data_subscriber" where
  "new_data_subscriber topic mediaType labels h replays =
     \<lparr>subTopic = topic, subMediaType = mediaType, subLabels = labels, subHandler = WrapTracingCallback h,
      subReplaysReceive = replays, internalSubscribers = [], subTrace = []\<rparr>"

definition AddInternalSubscriber :: "string \<Rightarrow> string \<Rightarrow> matching_label list \<Rightarrow> 'c data_subscriber \<Rightarrow> 'c data_subscriber" where
  "AddInternalSubscriber pubUUID joinedMediaType publisherLabels s =
     s\<lparr>internalSubscribers :=
         (if map_of (internalSubscribers s) pubUUID \<noteq> None then internalSubscribers s
          else internalSubscribers s @
            [(pubUUID, \<lparr>intTopic = subTopic s, intMediaType = joinedMediaType, intLabels = publisherLabels,
               intHandler = Some (subHandler s), intReplaysReceive = subReplaysReceive s\<rparr>)]),
       subTrace := subTrace s @ [CreatedInternal pubUUID]\<rparr>"

text \<open>
  The internal subscriber is announced as removed; \<open>NotifyServiceRemoved\<close> is taken to return, as it
  does for a service that was announced.
\<close>

definition RemoveInternalSubscriber :: "string \<Rightarrow> 'c data_subscriber \<Rightarrow> 'c data_subscriber" where
  "RemoveInternalSubscriber pubUUID s =
     (if map_of (internalSubscribers s) pubUUID = None then s
      else s\<lparr>internalSubscribers := AList.delete pubUUID (internalSubscribers s),
             subTrace := subTrace s @ [NotifiedRemoval pubUUID]\<rparr>)"

text \<open>The handler that the subscriber registers with service discovery.\<close>

definition subscriber_match_handler :: "(string \<Rightarrow> matching_label list result) \<Rightarrow> discovery_type \<Rightarrow> service_descriptor
    \<Rightarrow> 'c data_subscriber \<Rightarrow> 'c data_subscriber outcome" where
  "subscriber_match_handler parse_labels ev d s =
     (case GetSupplementalDataValue supplKeyDataPublisherPubUUID d of
        Inl err \<Rightarrow> Raised err s
      | Inr pubUUID \<Rightarrow>
          if ev = ServiceCreated \<and> map_of (internalSubscribers s) pubUUID \<noteq> None then Done s
          else case bind_result (GetSupplementalDataValue supplKeyDataPublisherTopic d) (\<lambda>_.
                 GetSupplementalDataValue supplKeyDataPublisherMediaType d) of
            Inl err \<Rightarrow> Raised err s
          | Inr pubMediaType \<Rightarrow>
              if \<not> pub_MatchMediaType (subMediaType s) pubMediaType then Done s
              else case ev of
                ServiceCreated \<Rightarrow>
                  (case bind_result (GetSupplementalDataValue supplKeyDataPublisherPubLabels d) parse_labels of
                     Inl err \<Rightarrow> Raised err s
                   | Inr labels \<Rightarrow> Done (AddInternalSubscriber pubUUID pubMediaType labels s))
              | ServiceRemoved \<Rightarrow> Done (RemoveInternalSubscriber pubUUID s)
              | Invalid \<Rightarrow> Done s)"

definition SetDataMessageHandler :: "'c option \<Rightarrow> 'c data_subscriber \<Rightarrow> 'c data_subscriber" where
  "SetDataMessageHandler h s =
     s\<lparr>subHandler := WrapTracingCallback h,
       internalSubscribers := map (\<lambda>(k, i). (k, i\<lparr>intHandler := Some (WrapTracingCallback h)\<rparr>)) (internalSubscribers s)\<rparr>"

section \<open>The publisher\<close>

datatype publisher_output = TracedTX wire_data_message_event | SentData wire_data_message_event

definition PublishInternal :: "64 word \<Rightarrow> 8 word list \<Rightarrow> publisher_output list" where
  "PublishInternal now data =
     (let msg = \<lparr>wd_timestamp = now, wd_data = data\<rparr> in [TracedTX msg, SentData msg])"

definition Publish :: "bool \<Rightarrow> 64 word \<Rightarrow> 8 word list \<Rightarrow> publisher_output list" where
  "Publish replaysSend now data = (if replaysSend then [] else PublishInternal now data)"

fun publisher_ReplayMessage :: "bool \<Rightarrow> transmit_direction \<Rightarrow> 64 word \<Rightarrow> wire_data_message_event \<Rightarrow> publisher_output list result" where
  "publisher_ReplayMessage replaysSend TX now msg = Inr (if replaysSend then PublishInternal now (wd_data msg) else [])"
| "publisher_ReplayMessage replaysSend RX now msg = Inr []"
| "publisher_ReplayMessage replaysSend _ now msg = Inl SilKitError"

text \<open>
  What a new publisher announces (\<open>Participant::CreateDataPublisher\<close>), for the topic and the
  labels after the configuration has been applied, sorted by key; the random identifier is also
  the network. How labels are written is the parameter \<open>write_labels\<close>.
\<close>

definition publisher_data :: "(matching_label list \<Rightarrow> string) \<Rightarrow> string \<Rightarrow> string \<Rightarrow> matching_label list \<Rightarrow> string
    \<Rightarrow> (string \<times> string) list" where
  "publisher_data write_labels topic mediaType labels network =
     [(controllerType_key, controllerTypeDataPublisher), (supplKeyDataPublisherTopic, topic),
      (supplKeyDataPublisherPubUUID, network), (supplKeyDataPublisherMediaType, mediaType),
      (supplKeyDataPublisherPubLabels, write_labels labels)]"

definition UpdateOptionalConfigValue :: "'v option \<Rightarrow> 'v \<Rightarrow> 'v" where
  "UpdateOptionalConfigValue configuredValue passedValue =
     (case configuredValue of None \<Rightarrow> passedValue | Some v \<Rightarrow> v)"

record publisher_config =
  configuredTopic :: "string option"
  configuredLabels :: "matching_label list option"
  configuredHistory :: "nat option"

text \<open>\<open>std::sort\<close> leaves the order of labels with the same key open; here it is kept.\<close>

definition CreateDataPublisher :: "(matching_label list \<Rightarrow> string) \<Rightarrow> publisher_config \<Rightarrow> string \<Rightarrow> string
    \<Rightarrow> matching_label list \<Rightarrow> nat \<Rightarrow> string \<Rightarrow> (string \<times> string) list result" where
  "CreateDataPublisher write_labels config topic mediaType labels hist network =
     (if hist > 1 then Inl ConfigurationError
      else if UpdateOptionalConfigValue (configuredHistory config) hist > 1 then Inl ConfigurationError
      else Inr (publisher_data write_labels (UpdateOptionalConfigValue (configuredTopic config) topic) mediaType
        (sort_key label_key (UpdateOptionalConfigValue (configuredLabels config) labels)) network))"

end
