(* ===== verification/RpcCreation.thy ===== *)
theory RpcCreation
  imports RpcCalls ServiceMatching PubSub
begin

text \<open>
  How a client and its servers find each other when the client is created: the participant
  announces the client, its own servers make their internal servers while they are told of it,
  and then the client registers for internal servers. The internal servers of other participants
  appear later. A mandatory label of the client makes a difference.
\<close>

section \<open>What is announced\<close>

definition supplKeyRpcServerInternalParentServiceID :: string where
  "supplKeyRpcServerInternalParentServiceID = ''Rpc::serverinternal::parentServiceId''"

lemmas rpc_keys = discovery_keys supplKeyRpcClientMediaType_def supplKeyRpcClientUUID_def
  supplKeyRpcServerInternalParentServiceID_def

text \<open>
  The descriptor that \<open>Participant::CreateController\<close> makes for a service of the type
  \<open>Controller\<close>, and those of the clients and the internal servers, whose network is the
  identifier of the client. The participant's number is a hash of its name, so it is an argument.
\<close>

definition controller_descriptor :: "string \<Rightarrow> 64 word \<Rightarrow> string \<Rightarrow> 32 word \<Rightarrow> string \<Rightarrow> 64 word
    \<Rightarrow> (string \<times> string) list \<Rightarrow> service_descriptor" where
  "controller_descriptor participant participantId network networkType name serviceId items =
     \<lparr>sd_participantName = participant, sd_participantId = participantId, sd_serviceType = 2, sd_networkName = network,
      sd_networkType = networkType, sd_serviceName = name, sd_serviceId = serviceId, sd_supplementalData = items\<rparr>"

definition rpc_client_data :: "(matching_label list \<Rightarrow> string) \<Rightarrow> string \<Rightarrow> string \<Rightarrow> matching_label list \<Rightarrow> string
    \<Rightarrow> (string \<times> string) list" where
  "rpc_client_data write_labels functionName mediaType labels network =
     [(controllerType_key, controllerTypeRpcClient), (supplKeyRpcClientFunctionName, functionName),
      (supplKeyRpcClientMediaType, mediaType), (supplKeyRpcClientLabels, write_labels labels),
      (supplKeyRpcClientUUID, network)]"

definition internal_server_data :: "string option \<Rightarrow> string \<Rightarrow> (string \<times> string) list" where
  "internal_server_data parentServiceId uid =
     [(controllerType_key, controllerTypeRpcServerInternal), (supplKeyRpcServerInternalClientUUID, uid)] @
     (case parentServiceId of None \<Rightarrow> [] | Some p \<Rightarrow> [(supplKeyRpcServerInternalParentServiceID, p)])"

definition internal_server_descriptor :: "string \<Rightarrow> string \<times> 64 word \<times> string \<times> 64 word \<times> string option \<Rightarrow> service_descriptor" where
  "internal_server_descriptor uid = (\<lambda>(participant, participantId, name, serviceId, parent).
     controller_descriptor participant participantId uid 7 name serviceId (internal_server_data parent uid))"

record rpc_client_config =
  configuredFunctionName :: "string option"
  configuredClientLabels :: "matching_label list option"

definition configured_function :: "rpc_client_config \<Rightarrow> string \<Rightarrow> string" where
  "configured_function config functionName = UpdateOptionalConfigValue (configuredFunctionName config) functionName"

definition configured_labels :: "rpc_client_config \<Rightarrow> matching_label list \<Rightarrow> matching_label list" where
  "configured_labels config labels =
     sort_key label_key (UpdateOptionalConfigValue (configuredClientLabels config) labels)"

section \<open>The client is created\<close>

text \<open>Services that appear one after the other, with the handlers that are called.\<close>

fun announce_services :: "(string \<Rightarrow> matching_label list result) \<Rightarrow> service_descriptor list \<Rightarrow> 'h discovery_store
    \<Rightarrow> 'h handler_call list result \<times> 'h discovery_store" where
  "announce_services parse_labels [] s = (Inr [], s)"
| "announce_services parse_labels (d # ds) s =
     (case ServiceChange parse_labels ServiceCreated d s of
        (Inl err, s) \<Rightarrow> (Inl err, s)
      | (Inr calls, s) \<Rightarrow>
          (case announce_services parse_labels ds s of
             (Inl err, s) \<Rightarrow> (Inl err, s)
           | (Inr calls', s) \<Rightarrow> (Inr (calls @ calls'), s)))"

text \<open>What a client makes of the calls of its handler \<open>h\<close>.\<close>

fun client_told :: "'h \<Rightarrow> 'h handler_call list \<Rightarrow> rpc_client \<Rightarrow> rpc_client outcome" where
  "client_told h [] c = Done c"
| "client_told h (CallHandler h' ev d # calls) c =
     (if h' = h then bind_outcome (client_match_handler ev d c) (client_told h calls) else client_told h calls c)"

text \<open>
  \<open>Participant::CreateRpcClient\<close>, as far as the store is concerned: the client is announced; the
  servers of its participant that are told of it announce the internal servers \<open>own\<close>; then the
  client registers. The calls that the announcements cause are those of the servers' handlers;
  nobody is registered for internal servers with the client's new identifier.
\<close>

definition CreateRpcClient :: "(string \<Rightarrow> matching_label list result) \<Rightarrow> (matching_label list \<Rightarrow> string)
    \<Rightarrow> rpc_client_config \<Rightarrow> string \<times> 64 word \<times> string \<times> 64 word \<Rightarrow> string \<Rightarrow> 'h \<Rightarrow> string \<Rightarrow> string \<Rightarrow> matching_label list
    \<Rightarrow> bool \<Rightarrow> service_descriptor list \<Rightarrow> 'h discovery_store \<Rightarrow> (rpc_client outcome \<times> 'h discovery_store) result" where
  "CreateRpcClient parse_labels write_labels config who network h functionName mediaType labels hasHandler own s =
     (let (participant, participantId, name, serviceId) = who;
          f = configured_function config functionName;
          ls = configured_labels config labels;
          d = controller_descriptor participant participantId network 7 name serviceId
                (rpc_client_data write_labels f mediaType ls network)
      in case announce_services parse_labels (d # own) s of
           (Inl err, s) \<Rightarrow> Inl err
         | (Inr _, s) \<Rightarrow>
             (case store_RegisterHandler parse_labels h controllerTypeRpcServerInternal network ls s of
                ((calls, Some err), s) \<Rightarrow> Inl err
              | ((calls, None), s) \<Rightarrow> Inr (client_told h calls (new_rpc_client network hasHandler), s)))"

section \<open>Which servers the client counts\<close>

lemma internal_server_items:
  "GetSupplementalDataItem controllerType_key (internal_server_descriptor uid x) = Some controllerTypeRpcServerInternal"
  "GetSupplementalDataItem supplKeyRpcServerInternalClientUUID (internal_server_descriptor uid x) = Some uid"
  "service_key controllerTypeRpcServerInternal (internal_server_descriptor uid x) = uid"
  by (cases x; simp add: internal_server_descriptor_def controller_descriptor_def internal_server_data_def
    GetSupplementalDataItem_def service_key_def item_or_empty_def rpc_keys)+

lemma internal_server_appears:
  assumes "store_reachable parse_labels s" and "d = internal_server_descriptor uid x"
    and "is = view_handlers (view_of s (controllerTypeRpcServerInternal, uid))"
  shows "\<exists>s'. ServiceChange parse_labels ServiceCreated d s = (Inr (map (\<lambda>i. CallHandler (cc_handler i) ServiceCreated d) is), s') \<and>
    store_reachable parse_labels s' \<and> view_handlers (view_of s' (controllerTypeRpcServerInternal, uid)) = is"
proof -
  obtain r s' where s': "ServiceChange parse_labels ServiceCreated d s = (r, s')" by fastforce
  have "mandatory_service parse_labels d"
    by (simp add: mandatory_service_def assms(2) internal_server_items RpcServerInternal_has_no_labels)
  from store_refines [OF assms(1) this, of ServiceCreated] s' store_change [OF assms(1) s'] show ?thesis
    by (simp add: linear_ServiceChange_def assms(2,3) internal_server_items RpcServerInternal_has_no_labels allowed_controller_def Let_def)
qed

lemma internal_servers_appear:
  assumes "store_reachable parse_labels s" and "is = view_handlers (view_of s (controllerTypeRpcServerInternal, uid))"
  shows "\<exists>s'. announce_services parse_labels (map (internal_server_descriptor uid) xs) s =
      (Inr (concat (map (\<lambda>x. map (\<lambda>i. CallHandler (cc_handler i) ServiceCreated (internal_server_descriptor uid x)) is) xs)), s') \<and>
    store_reachable parse_labels s' \<and> view_handlers (view_of s' (controllerTypeRpcServerInternal, uid)) = is"
  using assms
proof (induction xs arbitrary: s)
  case (Cons x xs)
  from internal_server_appears [OF Cons.prems(1) refl Cons.prems(2), of x] obtain s1 where
    s1: "ServiceChange parse_labels ServiceCreated (internal_server_descriptor uid x) s =
      (Inr (map (\<lambda>i. CallHandler (cc_handler i) ServiceCreated (internal_server_descriptor uid x)) is), s1)"
      "store_reachable parse_labels s1" "is = view_handlers (view_of s1 (controllerTypeRpcServerInternal, uid))" by auto
  from Cons.IH [OF s1(2,3)] s1(1) show ?case by auto
qed simp

lemma client_counts:
  assumes "clientUUID c = uid"
  shows "client_told h (map (\<lambda>x. CallHandler h ServiceCreated (internal_server_descriptor uid x)) xs) c =
    Done (c\<lparr>numCounterparts := numCounterparts c + of_nat (length xs)\<rparr>)"
  using assms
proof (induction xs arbitrary: c)
  case (Cons x xs)
  then show ?case
    by (simp add: client_match_handler_def GetSupplementalDataValue_def internal_server_items algebra_simps)
qed simp

lemma client_items:
  fixes d :: service_descriptor
  assumes "d = controller_descriptor p pid network n name sid (rpc_client_data write_labels f media ls network)"
  shows "GetSupplementalDataItem controllerType_key d = Some controllerTypeRpcClient"
    "GetSupplementalDataItem supplKeyRpcClientFunctionName d = Some f"
    "GetSupplementalDataItem supplKeyRpcClientMediaType d = Some media"
    "GetSupplementalDataItem supplKeyRpcClientLabels d = Some (write_labels ls)"
    "GetSupplementalDataItem supplKeyRpcClientUUID d = Some network"
    "service_key controllerTypeRpcClient d = f"
  by (simp_all add: assms controller_descriptor_def rpc_client_data_def GetSupplementalDataItem_def service_key_def
    item_or_empty_def rpc_keys)

lemma client_appears:
  assumes "store_reachable parse_labels s" "parse_labels (write_labels ls) = Inr ls" "all_mandatory ls"
    and d: "d = controller_descriptor p pid network n name sid (rpc_client_data write_labels f media ls network)"
  shows "\<exists>s'. ServiceChange parse_labels ServiceCreated d s =
      (Inr (map (\<lambda>i. CallHandler (cc_handler i) ServiceCreated d)
         (filter (\<lambda>i. MatchLabels (cc_labels i) ls) (view_handlers (view_of s (controllerTypeRpcClient, f))))), s') \<and>
    store_reachable parse_labels s' \<and>
    view_of s' (controllerTypeRpcServerInternal, uid) = view_of s (controllerTypeRpcServerInternal, uid)"
proof -
  obtain r s' where s': "ServiceChange parse_labels ServiceCreated d s = (r, s')" by fastforce
  note items = client_items [OF d]
  have ls: "service_labels parse_labels controllerTypeRpcClient d = Inr ls"
    using assms(2) by (simp add: service_labels_def labels_item_def items)
  have ne: "controllerTypeRpcClient \<noteq> controllerTypeRpcServerInternal" by (simp add: discovery_keys)
  have "mandatory_service parse_labels d" by (simp add: mandatory_service_def items ls assms(3))
  from store_refines [OF assms(1) this, of ServiceCreated] s' store_change [OF assms(1) s'] ne show ?thesis
    by (simp add: linear_ServiceChange_def items ls allowed_controller_def Let_def)
qed

lemma mandatory_client_registers:
  assumes "store_reachable parse_labels s" "all_mandatory ls" "ls \<noteq> []"
  shows "\<exists>s'. store_RegisterHandler parse_labels h controllerTypeRpcServerInternal uid ls s = (([], None), s') \<and>
    store_reachable parse_labels s' \<and> view_handlers (view_of s' (controllerTypeRpcServerInternal, uid)) =
      view_handlers (view_of s (controllerTypeRpcServerInternal, uid)) @ [\<lparr>cc_handler = h, cc_labels = ls\<rparr>]"
proof -
  let ?T = controllerTypeRpcServerInternal
  obtain r s' where s': "store_RegisterHandler parse_labels h ?T uid ls s = (r, s')" by fastforce
  have "known_labels parse_labels ?T e = []" for e by (simp add: known_labels_def RpcServerInternal_has_no_labels)
  moreover have "\<not> MatchLabels [] ls"
    using assms(2,3) by (cases ls) (auto simp: MatchLabels_sym [of "[]"])
  moreover have "list_all (labelled_service ?T) (view_services (view_of s (?T, uid)))"
    by (simp add: list_all_iff labelled_service_def discovery_keys)
  ultimately show ?thesis
    using told_services [OF assms(1,2), of ?T uid h] s' store_register [OF assms(1) s'] by simp
qed

text \<open>
  Claim C37: a client with a mandatory label does not reach the servers of its own participant,
  even if they match. A server of the participant with the client's function, labels and media
  type is told of the client and makes an internal server for it; but the participant
  announces it before the client registers for internal servers, and internal servers have no
  labels, so that it does not match then. Of the internal servers \<open>later\<close> that appear after the
  client has registered, like those of other participants, each is counted, as no labels
  are compared then. If there are none, a call comes back as not reachable, and otherwise it is
  sent.
\<close>

theorem mandatory_client_misses_local_servers:
  assumes "store_reachable parse_labels s" and "who = (p, pid, name, sid)"
    and "f = configured_function config functionName" "ls = configured_labels config labels"
    and "all_mandatory ls" "ls \<noteq> []" "parse_labels (write_labels ls) = Inr ls"
    and "d = controller_descriptor p pid uid 7 name sid (rpc_client_data write_labels f media ls uid)"
    and "i \<in> set (view_handlers (view_of s (controllerTypeRpcClient, f)))" "MatchLabels (cc_labels i) ls"
    and "map_of (internalServers srv) uid = None" "rpc_MatchMediaType media (serverMediaType srv)"
    and "view_handlers (view_of s (controllerTypeRpcServerInternal, uid)) = []" "length later < 2 ^ 32"
  shows "(\<exists>calls. fst (ServiceChange parse_labels ServiceCreated d s) = Inr calls \<and> CallHandler (cc_handler i) ServiceCreated d \<in> set calls) \<and>
    server_match_handler parse_labels ServiceCreated d srv = Done (AddInternalRpcServer uid srv) \<and>
    (\<exists>c s1 calls s2 c'.
       CreateRpcClient parse_labels write_labels config who uid h functionName media labels True
         (map (internal_server_descriptor uid) own) s = Inr (Done c, s1) \<and>
       announce_services parse_labels (map (internal_server_descriptor uid) later) s1 = (Inr calls, s2) \<and>
       client_told h calls c = Done c' \<and> unat (numCounterparts c') = length later \<and>
       clientTrace (Call u now data ctx c') =
         (if later = [] then [CallResult now ctx ServerNotReachable []]
          else [SentCall \<lparr>fca_timestamp = now, fca_callUuid = u, fca_data = data\<rparr>]))"
proof -
  let ?T = controllerTypeRpcServerInternal and ?is = "[\<lparr>cc_handler = h, cc_labels = ls\<rparr>]"
  note items = client_items [OF assms(8)]
  obtain s0 calls0 where s0: "ServiceChange parse_labels ServiceCreated d s = (Inr calls0, s0)" "store_reachable parse_labels s0"
    "view_handlers (view_of s0 (?T, uid)) = []" "CallHandler (cc_handler i) ServiceCreated d \<in> set calls0"
    using client_appears [OF assms(1) assms(7) assms(5) assms(8), of uid] assms(9,10,13) by auto
  have served: "server_match_handler parse_labels ServiceCreated d srv = Done (AddInternalRpcServer uid srv)"
    using assms(7,11,12) by (simp add: server_match_handler_def GetSupplementalDataValue_def items)
  obtain s1 calls1 where s1: "announce_services parse_labels (map (internal_server_descriptor uid) own) s0 = (Inr calls1, s1)"
    "store_reachable parse_labels s1" "view_handlers (view_of s1 (?T, uid)) = []"
    using internal_servers_appear [OF s0(2) s0(3) [symmetric], of own] by auto
  obtain s2 where s2: "store_RegisterHandler parse_labels h ?T uid ls s1 = (([], None), s2)"
    "store_reachable parse_labels s2" "?is = view_handlers (view_of s2 (?T, uid))"
    using mandatory_client_registers [OF s1(2) assms(5,6), of h uid] s1(3) by auto
  have "CreateRpcClient parse_labels write_labels config who uid h functionName media labels True
      (map (internal_server_descriptor uid) own) s = Inr (Done (new_rpc_client uid True), s2)"
    using s0(1) s1(1) s2(1) by (simp add: CreateRpcClient_def Let_def assms(2) assms(3,4,8) [symmetric])
  moreover obtain s3 where "announce_services parse_labels (map (internal_server_descriptor uid) later) s2 =
      (Inr (map (\<lambda>x. CallHandler h ServiceCreated (internal_server_descriptor uid x)) later), s3)"
    using internal_servers_appear [OF s2(2,3), of later] by (auto simp: concat_map_singleton)
  moreover let ?c = "(new_rpc_client uid True)\<lparr>numCounterparts := of_nat (length later)\<rparr>"
  have "client_told h (map (\<lambda>x. CallHandler h ServiceCreated (internal_server_descriptor uid x)) later) (new_rpc_client uid True) = Done ?c"
    using client_counts [of "new_rpc_client uid True" uid h later] by (simp add: new_rpc_client_def)
  moreover have n: "unat (numCounterparts ?c) = length later" using assms(14) by (simp add: unat_of_nat take_bit_nat_eq_self)
  moreover have "numCounterparts ?c = 0 \<longleftrightarrow> later = []" using n by (metis length_0_conv unat_eq_zero)
  then have "clientTrace (Call u now data ctx ?c) = (if later = [] then [CallResult now ctx ServerNotReachable []]
      else [SentCall \<lparr>fca_timestamp = now, fca_callUuid = u, fca_data = data\<rparr>])"
    by (simp add: Call_def TriggerCall_def Let_def new_rpc_client_def client_emit_def)
  ultimately show ?thesis using s0(1,4) served by (intro conjI exI) auto
qed

section \<open>The property at a concrete input\<close>

definition example_label :: matching_label where
  "example_label = \<lparr>label_key = ''k'', label_value = ''v'', label_kind = Mandatory\<rparr>"

text \<open>A participant that has a server for the function \<open>f\<close> with that label.\<close>

definition server_store :: "nat discovery_store" where
  "server_store = snd (store_RegisterHandler (\<lambda>_. Inr [example_label]) 1 controllerTypeRpcClient ''f'' [example_label] new_store)"

lemma server_store_reachable: "store_reachable (\<lambda>_. Inr [example_label]) server_store"
  unfolding server_store_def by (rule store_register [OF store_reachable.store_new prod.collapse [symmetric]])

lemma server_store_handlers:
  "view_handlers (view_of server_store (controllerTypeRpcClient, ''f'')) = [\<lparr>cc_handler = 1, cc_labels = [example_label]\<rparr>]"
  "view_handlers (view_of server_store (controllerTypeRpcServerInternal, uid)) = []"
proof -
  have empty: "view_handlers (view_of new_store tk) = []" "view_services (view_of new_store tk) = []" for tk
    by (simp_all add: view_of_def new_store_def)
  show "view_handlers (view_of server_store (controllerTypeRpcClient, ''f'')) = [\<lparr>cc_handler = 1, cc_labels = [example_label]\<rparr>]"
    using told_services [OF store_reachable.store_new, of "[example_label]" controllerTypeRpcClient "''f''" "\<lambda>_. Inr [example_label]" "1::nat"]
    by (simp add: server_store_def empty example_label_def)
  have "\<exists>e. server_store = new_store((controllerTypeRpcClient, ''f'') \<mapsto> e)"
    using store_RegisterHandler_entry [OF prod.collapse [symmetric] prod.collapse [symmetric],
      where s = new_store and t = controllerTypeRpcClient and k = "''f''" and labels = "[example_label]" and
        parse_labels = "\<lambda>_. Inr [example_label]" and h = "1::nat"]
    unfolding server_store_def by (metis snd_conv)
  then obtain e where "server_store = new_store((controllerTypeRpcClient, ''f'') \<mapsto> e)" ..
  then have "entry_at server_store (controllerTypeRpcServerInternal, uid) =
      entry_at (new_store((controllerTypeRpcClient, ''f'') \<mapsto> e)) (controllerTypeRpcServerInternal, uid)"
    by (rule arg_cong)
  then have "entry_at server_store (controllerTypeRpcServerInternal, uid) = empty_key_node"
    unfolding at_key_upd by (simp add: new_store_def discovery_keys)
  then show "view_handlers (view_of server_store (controllerTypeRpcServerInternal, uid)) = []"
    by (simp add: view_of_def)
qed

abbreviation example_creation :: "(rpc_client outcome \<times> nat discovery_store) result" where
  "example_creation \<equiv> CreateRpcClient (\<lambda>_. Inr [example_label]) (\<lambda>_. ''l'') \<lparr>configuredFunctionName = None, configuredClientLabels = None\<rparr>
     (''A'', 1, ''c'', 5) ''u1'' 2 ''f'' [] [example_label] True
     (map (internal_server_descriptor ''u1'') [(''A'', 1, ''i1'', 6, None)]) server_store"

theorem mandatory_client_misses_local_servers_witness:
  "(\<exists>c s. example_creation = Inr (Done c, s) \<and>
      clientTrace (Call (1, 2) 10 [5] 99 c) = [CallResult 10 99 ServerNotReachable []]) \<and>
   (\<exists>c s calls s' c'. example_creation = Inr (Done c, s) \<and>
      announce_services (\<lambda>_. Inr [example_label]) (map (internal_server_descriptor ''u1'') [(''B'', 2, ''i2'', 3, None)]) s = (Inr calls, s') \<and>
      client_told 2 calls c = Done c' \<and>
      clientTrace (Call (1, 2) 10 [5] 99 c') = [SentCall \<lparr>fca_timestamp = 10, fca_callUuid = (1, 2), fca_data = [5]\<rparr>])"
proof -
  let ?config = "\<lparr>configuredFunctionName = None, configuredClientLabels = None\<rparr>"
  have config: "''f'' = configured_function ?config ''f''" "[example_label] = configured_labels ?config [example_label]"
    by (simp_all add: configured_function_def configured_labels_def UpdateOptionalConfigValue_def)
  have label: "all_mandatory [example_label]" "[example_label] \<noteq> []" "(\<lambda>_. Inr [example_label] :: matching_label list result) ((\<lambda>_. ''l'') [example_label]) = Inr [example_label]"
    "MatchLabels (cc_labels \<lparr>cc_handler = 1::nat, cc_labels = [example_label]\<rparr>) [example_label]"
    by (simp_all add: example_label_def MatchLabels_def LabelMatchesLabelList_def)
  have server: "\<lparr>cc_handler = 1::nat, cc_labels = [example_label]\<rparr> \<in> set (view_handlers (view_of server_store (controllerTypeRpcClient, ''f'')))"
    by (simp add: server_store_handlers)
  have srv: "map_of (internalServers \<lparr>serverMediaType = [], serverHandlerSet = True, internalServers = []\<rparr>) ''u1'' = None"
    "rpc_MatchMediaType [] (serverMediaType \<lparr>serverMediaType = [], serverHandlerSet = True, internalServers = []\<rparr>)"
    by (simp_all add: rpc_MatchMediaType_def)
  note applied = mandatory_client_misses_local_servers [where who = "(''A'', 1, ''c'', 5)", OF server_store_reachable refl config
    label(1-3) refl server label(4) srv server_store_handlers(2), where h = 2 and u = "(1, 2)" and now = 10 and data = "[5]" and ctx = 99 and
    own = "[(''A'', 1, ''i1'', 6, None)]"]
  from applied [of "[]"] applied [of "[(''B'', 2, ''i2'', 3, None)]"] show ?thesis
    by simp blast
qed

end
