(* ===== verification/PubSubConnections.thy ===== *)
theory PubSubConnections
  imports PubSub
begin

text \<open>
  A subscriber is connected to the publishers it should be connected to, each connection hands
  what it receives to the user's current handler, and a subscriber that is created late is
  connected to the matching publishers there are: the subscriber, service discovery and the
  store together.
\<close>

section \<open>What the connections look like\<close>

definition well_connected :: "'c data_subscriber \<Rightarrow> bool" where
  "well_connected s \<longleftrightarrow> distinct (map fst (internalSubscribers s)) \<and>
     (\<forall>(k, i)\<in>set (internalSubscribers s).
        intTopic i = subTopic s \<and> pub_MatchMediaType (subMediaType s) (intMediaType i) \<and>
        intHandler i = Some (subHandler s) \<and> intReplaysReceive i = subReplaysReceive s)"

inductive subscriber_reachable :: "(string \<Rightarrow> matching_label list result) \<Rightarrow> 'c data_subscriber \<Rightarrow> bool" for parse_labels where
  subscriber_new: "subscriber_reachable parse_labels (new_data_subscriber topic mediaType labels h replays)"
| subscriber_event: "subscriber_reachable parse_labels s \<Longrightarrow> state_after (subscriber_match_handler parse_labels ev d s) = Some s' \<Longrightarrow>
    subscriber_reachable parse_labels s'"
| subscriber_handler: "subscriber_reachable parse_labels s \<Longrightarrow> subscriber_reachable parse_labels (SetDataMessageHandler h s)"

lemma well_connected_add:
  assumes "well_connected s" "pub_MatchMediaType (subMediaType s) m"
  shows "well_connected (AddInternalSubscriber k m labels s)"
proof (cases "map_of (internalSubscribers s) k")
  case None
  then have "k \<notin> fst ` set (internalSubscribers s)" by (simp add: map_of_eq_None_iff)
  with assms show ?thesis by (auto simp: well_connected_def AddInternalSubscriber_def)
qed (use assms in \<open>auto simp: well_connected_def AddInternalSubscriber_def\<close>)

lemma well_connected_remove: "well_connected s \<Longrightarrow> well_connected (RemoveInternalSubscriber k s)"
  by (auto simp: well_connected_def RemoveInternalSubscriber_def in_set_delete_iff)

text \<open>A step of the handler leaves the subscriber alone, adds a connection or removes one.\<close>

lemma match_handler_cases:
  assumes "state_after (subscriber_match_handler parse_labels ev d s) = Some s'"
  obtains "s' = s"
  | k m labels where "s' = AddInternalSubscriber k m labels s" "pub_MatchMediaType (subMediaType s) m"
  | k where "s' = RemoveInternalSubscriber k s"
  using assms
  by (auto simp: subscriber_match_handler_def split: sum.splits if_splits discovery_type.splits)

lemma subscriber_reachable_well_connected: "subscriber_reachable parse_labels s \<Longrightarrow> well_connected s"
proof (induction rule: subscriber_reachable.induct)
  case (subscriber_event s ev d s')
  show ?case
    using match_handler_cases [OF subscriber_event.hyps(2)] subscriber_event.IH well_connected_add well_connected_remove
    by metis
qed (auto simp: well_connected_def new_data_subscriber_def SetDataMessageHandler_def comp_def case_prod_beta)

text \<open>
  Claim C38: whatever is discovered and however often the user sets a handler, a subscriber has
  at most one connection for each publisher, for its own topic and a media type that fits, and
  a message that any of them receives goes once to the handler that was set last, unless the
  subscriber replays a recording.
\<close>

theorem connections_deliver_to_the_current_handler:
  assumes "subscriber_reachable parse_labels s"
  shows "distinct (map fst (internalSubscribers s)) \<and>
    list_all (\<lambda>(k, i). intTopic i = subTopic s \<and> pub_MatchMediaType (subMediaType s) (intMediaType i) \<and>
      subscriber_ReceiveMsg msg i = (if subReplaysReceive s then [] else call_wrapped (subHandler s) msg))
      (internalSubscribers s)"
  using subscriber_reachable_well_connected [OF assms]
  by (fastforce simp: well_connected_def list_all_iff subscriber_ReceiveMsg_def subscriber_ReceiveInternal_def)

section \<open>Which publishers\<close>

definition described :: "(string \<Rightarrow> matching_label list result) \<Rightarrow> service_descriptor \<Rightarrow> bool" where
  "described parse_labels d \<longleftrightarrow>
     GetSupplementalDataItem supplKeyDataPublisherPubUUID d \<noteq> None \<and>
     GetSupplementalDataItem supplKeyDataPublisherTopic d \<noteq> None \<and>
     GetSupplementalDataItem supplKeyDataPublisherMediaType d \<noteq> None \<and>
     (case GetSupplementalDataItem supplKeyDataPublisherPubLabels d of
        None \<Rightarrow> False | Some ltext \<Rightarrow> (case parse_labels ltext of Inl _ \<Rightarrow> False | Inr _ \<Rightarrow> True))"

definition publisher_uuid :: "service_descriptor \<Rightarrow> string" where
  "publisher_uuid d = item_or_empty supplKeyDataPublisherPubUUID d"

definition publisher_media :: "service_descriptor \<Rightarrow> string" where
  "publisher_media d = item_or_empty supplKeyDataPublisherMediaType d"

definition connected :: "'c data_subscriber \<Rightarrow> string set" where
  "connected s = fst ` set (internalSubscribers s)"

text \<open>The publishers that an event leaves a subscriber of a media type connected to.\<close>

definition connected_after :: "string \<Rightarrow> discovery_type \<times> service_descriptor \<Rightarrow> string set \<Rightarrow> string set" where
  "connected_after mediaType = (\<lambda>(ev, d) c.
     if \<not> pub_MatchMediaType mediaType (publisher_media d) then c
     else case ev of
       ServiceCreated \<Rightarrow> insert (publisher_uuid d) c
     | ServiceRemoved \<Rightarrow> c - {publisher_uuid d}
     | Invalid \<Rightarrow> c)"

fun subscriber_run :: "(string \<Rightarrow> matching_label list result) \<Rightarrow> (discovery_type \<times> service_descriptor) list
    \<Rightarrow> 'c data_subscriber \<Rightarrow> 'c data_subscriber outcome" where
  "subscriber_run parse_labels [] s = Done s"
| "subscriber_run parse_labels ((ev, d) # evs) s =
     bind_outcome (subscriber_match_handler parse_labels ev d s) (subscriber_run parse_labels evs)"

lemma connected_add: "connected (AddInternalSubscriber k m labels s) = insert k (connected s)"
  by (force simp: connected_def AddInternalSubscriber_def dest: map_of_SomeD)

lemma connected_remove: "connected (RemoveInternalSubscriber k s) = connected s - {k}"
  by (auto simp: connected_def RemoveInternalSubscriber_def in_set_delete_iff image_iff map_of_eq_None_iff)

lemma subscriber_frame:
  "subMediaType (AddInternalSubscriber k m labels s) = subMediaType s"
  "subMediaType (RemoveInternalSubscriber k s) = subMediaType s"
  by (simp_all add: AddInternalSubscriber_def RemoveInternalSubscriber_def)

text \<open>The publishers carry different identifiers, so one that is connected has a media type that fits.\<close>

lemma match_handler_described:
  assumes "described parse_labels d"
    and "publisher_uuid d \<in> connected s \<Longrightarrow> pub_MatchMediaType (subMediaType s) (publisher_media d)"
  shows "\<exists>s'. subscriber_match_handler parse_labels ev d s = Done s' \<and>
    connected s' = connected_after (subMediaType s) (ev, d) (connected s) \<and> subMediaType s' = subMediaType s"
proof -
  obtain k topic m ltext labels where items: "GetSupplementalDataItem supplKeyDataPublisherPubUUID d = Some k"
    "GetSupplementalDataItem supplKeyDataPublisherTopic d = Some topic"
    "GetSupplementalDataItem supplKeyDataPublisherMediaType d = Some m"
    "GetSupplementalDataItem supplKeyDataPublisherPubLabels d = Some ltext" "parse_labels ltext = Inr labels"
    using assms(1) by (auto simp: described_def split: option.splits sum.splits)
  have km: "publisher_uuid d = k" "publisher_media d = m"
    by (simp_all add: publisher_uuid_def publisher_media_def item_or_empty_def items)
  have known: "map_of (internalSubscribers s) k = None \<longleftrightarrow> k \<notin> connected s"
    by (auto simp: connected_def map_of_eq_None_iff)
  have step: "subscriber_match_handler parse_labels ev d s = Done
      (if ev = ServiceCreated \<and> k \<in> connected s \<or> \<not> pub_MatchMediaType (subMediaType s) m \<or> ev = Invalid then s
       else if ev = ServiceCreated then AddInternalSubscriber k m labels s else RemoveInternalSubscriber k s)"
    by (cases ev) (simp_all add: subscriber_match_handler_def GetSupplementalDataValue_def items known del: not_None_eq)
  show ?thesis unfolding step
    using assms(2) by (cases ev) (auto simp: connected_after_def km connected_add connected_remove subscriber_frame)
qed

definition media_by_uuid :: "service_descriptor set \<Rightarrow> bool" where
  "media_by_uuid U \<longleftrightarrow> (\<forall>d\<in>U. \<forall>e\<in>U. publisher_uuid d = publisher_uuid e \<longrightarrow> publisher_media d = publisher_media e)"

lemma subscriber_run_connected:
  assumes "\<forall>(ev, d)\<in>set evs. described parse_labels d \<and> d \<in> U" "media_by_uuid U"
    and "connected s \<subseteq> publisher_uuid ` {d \<in> U. pub_MatchMediaType (subMediaType s) (publisher_media d)}"
  shows "\<exists>s'. subscriber_run parse_labels evs s = Done s' \<and>
    connected s' = fold (connected_after (subMediaType s)) evs (connected s)"
  using assms
proof (induction evs arbitrary: s)
  case (Cons x evs)
  obtain ev d where x: "x = (ev, d)" by (cases x)
  have d: "described parse_labels d" "d \<in> U" using Cons.prems(1) by (auto simp: x)
  have "pub_MatchMediaType (subMediaType s) (publisher_media d)" if "publisher_uuid d \<in> connected s"
  proof -
    from that Cons.prems(3) have "publisher_uuid d \<in> publisher_uuid ` {d \<in> U. pub_MatchMediaType (subMediaType s) (publisher_media d)}"
      by blast
    then obtain e where e: "e \<in> U" "publisher_uuid d = publisher_uuid e"
      "pub_MatchMediaType (subMediaType s) (publisher_media e)" by blast
    with Cons.prems(2) d(2) have "publisher_media d = publisher_media e" unfolding media_by_uuid_def by blast
    with e(3) show ?thesis by simp
  qed
  from match_handler_described [OF d(1) this, of ev] obtain s1 where s1: "subscriber_match_handler parse_labels ev d s = Done s1"
    "connected s1 = connected_after (subMediaType s) (ev, d) (connected s)" "subMediaType s1 = subMediaType s" by blast
  have "connected s1 \<subseteq> publisher_uuid ` {d \<in> U. pub_MatchMediaType (subMediaType s1) (publisher_media d)}"
  proof -
    let ?R = "publisher_uuid ` {d \<in> U. pub_MatchMediaType (subMediaType s) (publisher_media d)}"
    have "publisher_uuid d \<in> ?R" if "pub_MatchMediaType (subMediaType s) (publisher_media d)" using that d(2) by simp
    with Cons.prems(3) have "connected_after (subMediaType s) (ev, d) (connected s) \<subseteq> ?R"
      unfolding connected_after_def by (cases ev) (simp_all, blast+)
    then show ?thesis by (simp only: s1(2,3))
  qed
  with Cons.IH [OF _ Cons.prems(2), of s1] Cons.prems(1) s1 show ?case by (auto simp: x)
qed simp

text \<open>
  Claim C39: a subscriber whose handler is called with a sequence of events, in whatever order
  and however often, is connected to exactly the publishers whose media type fits and whose
  last event was their creation.
\<close>

theorem connections_follow_the_events:
  assumes "\<forall>(ev, d)\<in>set evs. described parse_labels d \<and> d \<in> U" "media_by_uuid U"
  shows "\<exists>s. subscriber_run parse_labels evs (new_data_subscriber topic mediaType labels h replays) = Done s \<and>
    connected s = fold (connected_after mediaType) evs {}"
  using subscriber_run_connected [OF assms, of "new_data_subscriber topic mediaType labels h replays"]
  by (simp add: new_data_subscriber_def connected_def)

lemma fold_created_connections:
  "fold (connected_after mediaType) (map (Pair ServiceCreated) ds) c =
   c \<union> publisher_uuid ` {d \<in> set ds. pub_MatchMediaType mediaType (publisher_media d)}"
  by (induction ds arbitrary: c) (auto simp: connected_after_def)

text \<open>
  Claim C40: a subscriber whose labels, if any, are mandatory and that is created when
  publishers are there already is connected at once to exactly the publishers in the cache of
  service discovery that have its topic, match its labels and have a media type that fits.
\<close>

theorem late_subscriber_is_connected:
  assumes "discovery_reachable parse_labels U s" "well_identified U" "media_by_uuid U" "\<not> discShuttingDown s"
    and "\<And>d. d \<in> U \<Longrightarrow> GetSupplementalDataItem controllerType_key d = Some controllerTypeDataPublisher \<Longrightarrow> described parse_labels d"
    and "all_mandatory labels"
  shows "\<exists>s' ds sub. RegisterSpecificServiceDiscoveryHandler parse_labels h controllerTypeDataPublisher topic labels s = Done s' \<and>
    discTrace s' = discTrace s @ map (\<lambda>d. SpecificCall (CallHandler h ServiceCreated d)) ds \<and>
    subscriber_run parse_labels (map (Pair ServiceCreated) ds) (new_data_subscriber topic mediaType labels callback replays) = Done sub \<and>
    connected sub = publisher_uuid ` {d \<in> set (GetServices s). concerns controllerTypeDataPublisher topic d \<and>
      MatchLabels (known_labels parse_labels controllerTypeDataPublisher d) labels \<and>
      pub_MatchMediaType mediaType (publisher_media d)}"
proof -
  let ?T = controllerTypeDataPublisher
  have labelled: "labelled_service ?T d" if "d \<in> U" "GetSupplementalDataItem controllerType_key d = Some ?T" for d
    using assms(5) [OF that] by (auto simp: described_def labelled_service_def discovery_keys split: option.splits)
  obtain s' ds where reg: "RegisterSpecificServiceDiscoveryHandler parse_labels h ?T topic labels s = Done s'"
    "discTrace s' = discTrace s @ map (\<lambda>d. SpecificCall (CallHandler h ServiceCreated d)) ds"
    and ds: "set ds = {d \<in> set (GetServices s). concerns ?T topic d \<and> MatchLabels (known_labels parse_labels ?T d) labels}"
    using specific_handler_told [OF assms(1,2) labelled assms(4,6), of h topic] by blast
  have "set (GetServices s) \<subseteq> U"
    using GetServices_cache agreeD(1) [OF discovery_invD(2)] discovery_reachable_inv [OF assms(1,2)]
    by (fastforce simp: ran_def)
  then have "\<forall>(ev, d)\<in>set (map (Pair ServiceCreated) ds). described parse_labels d \<and> d \<in> U"
    using assms(5) by (auto simp: ds concerns_def)
  from subscriber_run_connected [OF this assms(3), of "new_data_subscriber topic mediaType labels callback replays"]
  obtain sub where "subscriber_run parse_labels (map (Pair ServiceCreated) ds) (new_data_subscriber topic mediaType labels callback replays) = Done sub"
    "connected sub = publisher_uuid ` {d \<in> set ds. pub_MatchMediaType mediaType (publisher_media d)}"
    by (auto simp: new_data_subscriber_def connected_def fold_created_connections)
  with reg show ?thesis by (intro exI [of _ s'] exI [of _ ds] exI [of _ sub]) (auto simp: ds)
qed

section \<open>What a publisher announces is understood\<close>

text \<open>
  When labels survive being written and read, the descriptor of a publisher that the
  participant has created is understood as it was meant: it concerns the publisher's topic,
  and its labels, its identifier and its media type are read back.
\<close>

theorem announced_publisher_is_understood:
  assumes "CreateDataPublisher write_labels config topic mediaType labels hist network = Inr items"
    and "sd_supplementalData d = items" and "parse_labels (write_labels ls) = Inr ls"
    and "t = UpdateOptionalConfigValue (configuredTopic config) topic"
    and "ls = sort_key label_key (UpdateOptionalConfigValue (configuredLabels config) labels)"
  shows "concerns controllerTypeDataPublisher t d \<and> described parse_labels d \<and>
    service_labels parse_labels controllerTypeDataPublisher d = Inr ls \<and>
    publisher_uuid d = network \<and> publisher_media d = mediaType \<and> hist \<le> 1"
proof -
  have items: "items = publisher_data write_labels t mediaType ls network" and "hist \<le> 1"
    using assms(1) by (auto simp: CreateDataPublisher_def assms(4,5) split: if_splits)
  have "GetSupplementalDataItem key d = map_of (publisher_data write_labels t mediaType ls network) key" for key
    by (simp add: GetSupplementalDataItem_def assms(2) items)
  then show ?thesis using \<open>hist \<le> 1\<close> assms(3)
    by (simp add: concerns_def described_def service_labels_def labels_item_def publisher_uuid_def publisher_media_def
      service_key_def item_or_empty_def allowed_controller_def publisher_data_def discovery_keys pubsub_keys)
qed

section \<open>The properties at concrete inputs\<close>

definition example_data :: "string \<Rightarrow> (string \<times> string) list" where
  "example_data m = publisher_data (\<lambda>_. []) ''T'' m [] ''u1''"

definition example_publisher_service :: service_descriptor where
  "example_publisher_service = example_service ''A'' 1 5 ''pub'' (example_data ''json'')"

lemma example_publisher_items:
  "GetSupplementalDataItem key example_publisher_service = map_of (example_data ''json'') key"
  by (simp add: GetSupplementalDataItem_def example_publisher_service_def example_service_def)

lemma example_publisher_facts:
  "described no_labels example_publisher_service" "publisher_uuid example_publisher_service = ''u1''"
  "publisher_media example_publisher_service = ''json''" "concerns controllerTypeDataPublisher ''T'' example_publisher_service"
  "known_labels no_labels controllerTypeDataPublisher example_publisher_service = []"
  "ident example_publisher_service = Some (''A'', ''A/Controller/DataPublisher/N/pub'')"
  "readable no_labels example_publisher_service"
proof -
  show id: "ident example_publisher_service = Some (''A'', ''A/Controller/DataPublisher/N/pub'')"
    unfolding ident_def descriptor_string_def example_publisher_items
    by (simp add: example_data_def publisher_data_def example_publisher_service_def example_service_def ServiceType_string_def
      Let_def discovery_keys)
  show "readable no_labels example_publisher_service"
    by (simp add: readable_def id no_labels_def service_labels_def split: option.split)
qed (simp_all add: described_def publisher_uuid_def publisher_media_def item_or_empty_def concerns_def service_key_def
    known_labels_def service_labels_def labels_item_def allowed_controller_def no_labels_def
    example_publisher_items example_data_def publisher_data_def discovery_keys pubsub_keys)

theorem connections_follow_the_events_witness:
  "\<exists>s. subscriber_run no_labels [(ServiceCreated, example_publisher_service), (ServiceCreated, example_publisher_service)]
     (new_data_subscriber ''T'' [] [] (Some (3::nat)) False) = Done s \<and> connected s = {''u1''}"
  using connections_follow_the_events [of "[(ServiceCreated, example_publisher_service), (ServiceCreated, example_publisher_service)]"
      no_labels "{example_publisher_service}" "''T''" "[]" "[]" "Some (3::nat)" False]
  by (simp add: example_publisher_facts media_by_uuid_def connected_after_def pub_MatchMediaType_def)

lemma example_subscriber_reachable:
  "subscriber_reachable no_labels (SetDataMessageHandler (Some (4::nat)) (AddInternalSubscriber ''u1'' ''json'' []
     (new_data_subscriber ''T'' [] [] (Some 3) False)))"
proof (rule subscriber_handler, rule subscriber_event [OF subscriber_new])
  show "state_after (subscriber_match_handler no_labels ServiceCreated example_publisher_service
      (new_data_subscriber ''T'' [] [] (Some 3) False)) =
    Some (AddInternalSubscriber ''u1'' ''json'' [] (new_data_subscriber ''T'' [] [] (Some 3) False))"
    by (simp add: subscriber_match_handler_def GetSupplementalDataValue_def example_publisher_items example_data_def
      publisher_data_def discovery_keys pubsub_keys no_labels_def new_data_subscriber_def pub_MatchMediaType_def)
qed

theorem connections_deliver_to_the_current_handler_witness:
  "list_all (\<lambda>(k, i). subscriber_ReceiveMsg \<lparr>wd_timestamp = 5, wd_data = [1]\<rparr> i =
      [TracedRX \<lparr>wd_timestamp = 5, wd_data = [1]\<rparr>, HandlerCalled (4::nat) \<lparr>wd_timestamp = 5, wd_data = [1]\<rparr>])
     (internalSubscribers (SetDataMessageHandler (Some 4) (AddInternalSubscriber ''u1'' ''json'' []
       (new_data_subscriber ''T'' [] [] (Some 3) False))))"
  using connections_deliver_to_the_current_handler [OF example_subscriber_reachable, of "\<lparr>wd_timestamp = 5, wd_data = [1]\<rparr>"]
  by (simp add: SetDataMessageHandler_def AddInternalSubscriber_def new_data_subscriber_def)

theorem announced_publisher_is_understood_witness:
  "concerns controllerTypeDataPublisher ''T'' (example_service ''A'' 1 5 ''pub''
     (publisher_data (\<lambda>_. ''l'') ''T'' ''json'' [\<lparr>label_key = ''k'', label_value = ''v'', label_kind = Optional\<rparr>] ''u1''))"
  using announced_publisher_is_understood [of "\<lambda>_. ''l''"
      "\<lparr>configuredTopic = Some ''T'', configuredLabels = None, configuredHistory = None\<rparr>" "''other''" "''json''"
      "[\<lparr>label_key = ''k'', label_value = ''v'', label_kind = Optional\<rparr>]" 1 "''u1''"
      "publisher_data (\<lambda>_. ''l'') ''T'' ''json'' [\<lparr>label_key = ''k'', label_value = ''v'', label_kind = Optional\<rparr>] ''u1''"
      "example_service ''A'' 1 5 ''pub''
        (publisher_data (\<lambda>_. ''l'') ''T'' ''json'' [\<lparr>label_key = ''k'', label_value = ''v'', label_kind = Optional\<rparr>] ''u1'')"
      "\<lambda>_. Inr [\<lparr>label_key = ''k'', label_value = ''v'', label_kind = Optional\<rparr>]"
      "[\<lparr>label_key = ''k'', label_value = ''v'', label_kind = Optional\<rparr>]" "''T''"]
  by (simp add: CreateDataPublisher_def UpdateOptionalConfigValue_def example_service_def)

text \<open>A service of the participant's own that is new and readable is added.\<close>

lemma NotifyServiceCreated_own:
  assumes "\<not> discShuttingDown s" "readable parse_labels d" "sd_participantName d = discName s" "cache s (the (ident d)) = None"
  shows "\<exists>s'. NotifyServiceCreated parse_labels d s = Done s' \<and> cache s' = (cache s)(the (ident d) \<mapsto> d) \<and>
    \<not> discShuttingDown s' \<and> discName s' = discName s"
proof -
  let ?p = "discName s" and ?s = "touch_participant (discName s) s"
  obtain key where key: "descriptor_string d = Inr key" using readable_name [OF assms(2)] by blast
  then have id: "ident d = Some (?p, key)" using assms(3) by (simp add: ident_of)
  have none: "map_of (services_of ?p s) key = None" using assms(4) by (simp add: id cache_at)
  let ?t = "set_services ?p (AList.update key d (services_of ?p ?s)) ?s"
  obtain s1 where s1: "change_store parse_labels ServiceCreated d ?t = Done s1" using change_store_returns [OF assms(2)] by blast
  obtain same: "servicesByParticipant s1 = servicesByParticipant ?t" "discName s1 = discName ?t" "discShuttingDown s1 = discShuttingDown ?t"
    using s1 by (rule change_storeE)
  have "NotifyServiceCreated parse_labels d s = Done (emit_output (SentServiceEvent \<lparr>sde_type = 1, sde_serviceDescriptor = d\<rparr>)
      (CallHandlers ServiceCreated d s1))"
    using s1 none assms(1,3) key by (simp add: NotifyServiceCreated_def OnServiceAddition_def Let_def)
  moreover have "cache s1 = (cache s)(the (ident d) \<mapsto> d)"
    unfolding cache_cong [OF same(1)] cache_add by (simp add: id)
  ultimately show ?thesis using same(2,3) assms(1) by (simp add: emit_output_def CallHandlers_def cache_def services_of_def)
qed

lemma example_publisher_identified: "well_identified {example_publisher_service}"
  by (simp add: well_identified_def)

lemma only_element: "P x \<Longrightarrow> {y \<in> {x}. P y} = {x}"
  by blast

theorem late_subscriber_is_connected_witness:
  "\<exists>s' sub. discovery_reachable no_labels {example_publisher_service} (s' :: nat service_discovery) \<and>
     connected (sub :: nat data_subscriber) = {''u1''} \<and>
     (\<exists>ds. subscriber_run no_labels (map (Pair ServiceCreated) ds) (new_data_subscriber ''T'' ''json'' [] (Some 3) False) = Done sub)"
proof -
  have new: "discName (new_service_discovery ''A'' :: nat service_discovery) = ''A''"
    "\<not> discShuttingDown (new_service_discovery ''A'' :: nat service_discovery)"
    "cache (new_service_discovery ''A'' :: nat service_discovery) = Map.empty"
    by (auto simp: new_service_discovery_def cache_def services_of_def)
  have own: "sd_participantName example_publisher_service = discName (new_service_discovery ''A'' :: nat service_discovery)"
    by (simp add: new example_publisher_service_def example_service_def)
  obtain s :: "nat service_discovery" where
      s: "NotifyServiceCreated no_labels example_publisher_service (new_service_discovery ''A'') = Done s"
    and c: "cache s = [(''A'', ''A/Controller/DataPublisher/N/pub'') \<mapsto> example_publisher_service]" and up: "\<not> discShuttingDown s"
    using NotifyServiceCreated_own [OF new(2) example_publisher_facts(7) own] by (auto simp: new example_publisher_facts(6))
  have r: "discovery_reachable no_labels {example_publisher_service} s"
    by (rule discovery_created [OF discovery_new _ s]) simp
  have services: "set (GetServices s) = {example_publisher_service}"
    using GetServices_cache [OF discovery_reachable_inv [OF r example_publisher_identified]] by (simp add: c)
  have media: "media_by_uuid {example_publisher_service}" by (simp add: media_by_uuid_def)
  have late: "\<exists>s' ds sub. RegisterSpecificServiceDiscoveryHandler no_labels 1 controllerTypeDataPublisher ''T'' [] s = Done s' \<and>
    discTrace s' = discTrace s @ map (\<lambda>d. SpecificCall (CallHandler 1 ServiceCreated d)) ds \<and>
    subscriber_run no_labels (map (Pair ServiceCreated) ds) (new_data_subscriber ''T'' ''json'' [] (Some (3::nat)) False) = Done sub \<and>
    connected sub = publisher_uuid ` {d \<in> set (GetServices s). concerns controllerTypeDataPublisher ''T'' d \<and>
      MatchLabels (known_labels no_labels controllerTypeDataPublisher d) [] \<and> pub_MatchMediaType ''json'' (publisher_media d)}"
    by (rule late_subscriber_is_connected [OF r example_publisher_identified media up])
      (simp_all only: singleton_iff example_publisher_facts list.pred_inject)
  then obtain ds sub where run: "subscriber_run no_labels (map (Pair ServiceCreated) ds) (new_data_subscriber ''T'' ''json'' [] (Some (3::nat)) False) = Done sub"
    and conn: "connected sub = publisher_uuid ` {d \<in> set (GetServices s). concerns controllerTypeDataPublisher ''T'' d \<and>
      MatchLabels (known_labels no_labels controllerTypeDataPublisher d) [] \<and> pub_MatchMediaType ''json'' (publisher_media d)}"
    by (elim exE conjE) (rule that)
  have one: "publisher_uuid ` {d \<in> set (GetServices s). concerns controllerTypeDataPublisher ''T'' d \<and>
      MatchLabels (known_labels no_labels controllerTypeDataPublisher d) [] \<and> pub_MatchMediaType ''json'' (publisher_media d)} = {''u1''}"
  proof -
    have "{d \<in> {example_publisher_service}. concerns controllerTypeDataPublisher ''T'' d \<and>
        MatchLabels (known_labels no_labels controllerTypeDataPublisher d) [] \<and> pub_MatchMediaType ''json'' (publisher_media d)} =
        {example_publisher_service}"
      by (rule only_element)
        (simp add: example_publisher_facts(3-5) pub_MatchMediaType_def)
    then show ?thesis unfolding services by (simp only: image_insert image_empty example_publisher_facts(2))
  qed
  show ?thesis
    by (rule exI [of _ s], rule exI [of _ sub], intro conjI r exI [of _ ds] run) (simp only: conn one)
qed

end
