(* ===== verification/Spec2Isabelle.thy ===== *)
theory Spec2Isabelle
  imports SystemMonitor LifecycleService TimeSyncNetwork SerializedMessage RequestReply
    BusSerdes FlexraySerdes ServiceSerdes SilKitLink TransformAcceptorUris ConnectPeer
    ServiceDelivery RegistryService MonitorConnection EarlyHandlers RpcCreation PubSubConnections
begin

text \<open>
  Verification library for the SIL Kit middleware (C++, under
  \<open>src/sil-kit/SilKit/source/\<close>), which couples the participants of a distributed simulation:
  they exchange messages over TCP or local sockets, keep a common life cycle, advance a
  common virtual time, and talk over simulated CAN, Ethernet, FlexRay and LIN networks,
  publish/subscribe and remote procedure calls.

  \<^bold>\<open>Parts and how they interact.\<close> The user of a participant calls its services. A service
  sends messages through the connection (\<open>core/vasio\<close>), which serializes them, sends them to
  the peers and passes received messages to the services. Everything that changes a service
  runs on the IO thread of the participant: sending a message and \<open>ExecuteDeferred\<close> post to
  it. The lifecycle service drives the state objects of a participant, the system monitor
  collects the states of all participants into the system state, the time synchronization
  service lets a participant execute its next step when no other is behind, and the reply
  barrier uses remote calls to wait until messages sent before have been seen by all.

  \<^bold>\<open>Theories and sources.\<close>
  \<^item> \<open>Prelude\<close>, \<open>Handlers\<close>, \<open>Bytes\<close>: exceptions as values, association lists, the handler
    registry (\<open>util/SynchronizedHandlers.hpp\<close>), integers as little-endian bytes.
  \<^item> \<open>OrchestrationTypes\<close>, \<open>SystemStateTracker\<close>, \<open>SystemMonitor\<close>
    (\<open>services/orchestration\<close>): the state machine over all participants. A participant's
    report is \<open>UpdateParticipantStatus\<close>; the table of \<open>ComputeSystemState\<close> is a list.
  \<^item> \<open>ParticipantReplies\<close>, \<open>RequestReply\<close> (\<open>core/requests\<close>): the barrier, and the calls
    between participants it rests on.
  \<^item> \<open>LifecycleManagement\<close>, \<open>LifecycleStates\<close>, \<open>LifecycleDispatch\<close>, \<open>LifecycleService\<close>:
    the record of a participant's lifecycle, one function per state class, the virtual
    dispatch between them, and the service with its deferred tasks as a queue. Every input
    (user call, message, reply, turn of the IO thread) is a step \<open>lc_input_step\<close>.
  \<^item> \<open>TimeConfiguration\<close>, \<open>TimeSync\<close>, \<open>TimeSyncNetwork\<close>: the virtual time of one
    participant, its service, and the interleaving of all participants with their channels
    as a step relation.
  \<^item> \<open>RingBuffer\<close>, \<open>VAsioPeer\<close> (\<open>core/vasio\<close>): the receive buffer and a connection to a peer;
    how the byte stream is cut into messages again, and how sent messages are aggregated.
  \<^item> \<open>MessageBuffer\<close> (\<open>core/internal/MessageBuffer.hpp\<close>), \<open>BusSerdes\<close>, \<open>FlexraySerdes\<close>,
    \<open>ServiceSerdes\<close> (the \<open>*Serdes.cpp\<close> of the services): writers and readers of every
    message. A locale \<open>codec\<close> states what a pair of operators promises; it is interpreted for
    every type of the wire.
  \<^item> \<open>VAsioSerdes\<close>, \<open>SerializedMessage\<close>: the messages of the handshake in both protocol
    versions, and the envelope around every message.
  \<^item> \<open>SilKitMessages\<close> (\<open>core/internal/traits\<close>): the types of messages, one sum type over all of
    them and its codec. \<open>SilKitLink\<close> (\<open>SilKitLink.hpp\<close>, \<open>VAsioTransmitter.hpp\<close>): who receives
    the messages of one type on one network.
  \<^item> \<open>Uri\<close>, \<open>TransformAcceptorUris\<close>, \<open>ConnectPeer\<close>: addresses, what the registry tells of them,
    and the order in which they are tried.
  \<^item> \<open>ConnectKnownParticipants\<close> (the file of that name): the state machine over the participants
    that the registry has told of. \<open>VAsioConnection\<close>, \<open>VAsioHandshake\<close> (\<open>VAsioConnection.cpp\<close>):
    the connection with its peers, links and pending subscriptions, and every message of the
    handshake on both sides. \<open>VAsioJoin\<close>, \<open>VAsioArrival\<close>: all inputs of a connection as the one
    function \<open>vasio_input\<close>, and what holds of them. The properties of the connection are in
    \<open>JoinSimulation\<close> (the thread that joins and the end of the handshake), \<open>DirectHandshake\<close>
    (two participants), \<open>MonitorConnection\<close> (the same with a system monitor) and
    \<open>ServiceDelivery\<close> (from the call of a service to its receivers).
  \<^item> \<open>VAsioRegistry\<close>, \<open>RegistryMembership\<close>, \<open>RegistryService\<close> (\<open>VAsioRegistry.cpp\<close>): the registry as the
    services of a connection, its runs as the labelled steps \<open>registry_step\<close>, and who is listed.
  \<^item> \<open>LabelMatching\<close> (\<open>util\<close>), \<open>DiscoveryStore\<close>, \<open>DiscoveryIndex\<close>, \<open>ServiceMatching\<close>, \<open>EarlyHandlers\<close>
    (\<open>core/service/SpecificDiscoveryStore.cpp\<close>): the matching of labels, the store with its index
    over them, and its refinement of a comparison with everything, where it holds and where it
    does not. \<open>ServiceDiscovery\<close>, \<open>DiscoveryView\<close>: the cache of services and what the handlers know.
  \<^item> \<open>Rpc\<close>, \<open>RpcCalls\<close>, \<open>RpcCreation\<close> (\<open>services/rpc\<close>), \<open>PubSub\<close>, \<open>PubSubConnections\<close>
    (\<open>services/pubsub\<close>): clients and servers, publishers and subscribers, and how service
    discovery brings them together.

  \<^bold>\<open>What the lemmas show.\<close> For each component an invariant and its preservation by every
  operation, then its behaviour: the barriers at the start, crash detection, the abort and
  the shutdown of a lifecycle, conservative synchronization and freedom from deadlock,
  exact framing of the byte stream, round trips of all messages and refusal of messages
  that were cut off; an orderly end of the handshake, the delivery of messages to who has
  subscribed, unique owners of names at the registry, handlers that know the services there
  are, calls that are answered once, and connections that follow the publishers. Where the
  code does not do what it means to, a theorem states when.

  \<^bold>\<open>Bounds and fuel.\<close> Virtual calls between state objects run with \<open>call_fuel = 104\<close> levels;
  \<open>lifecycle_call_contract\<close> shows that no call ever uses them up: the states are ranked, and
  each nested call moves to a state of lower rank or to a method with a smaller depth. All
  other recursions are structural or terminate by a measure. Time points are integers with
  the sentinel \<open>nanoseconds_max\<close>; sizes are natural numbers, with the wrap-around written out
  where the code subtracts; all fields of messages are machine words of their width.

  \<^bold>\<open>Not modelled.\<close> Logging, metrics and the dashboard (no effect on a simulation), the C
  interface (conversions), the configuration reader (it maps the nodes of a vendored parser),
  tracing and replay (file formats), operating system calls, the extension loader, and
  vendored third-party code; the bus controllers (their frames go through the modelled links,
  their modes and LIN schedules are left out) and the interface for network simulators (whose
  decisions are the user's code). Of the connection: the destructor, opening acceptors,
  resolving names (an argument) and the worker thread; of the registry: listening, metrics
  and the log. Mutexes are not modelled: operations are atomic steps on the thread that
  executes them. Further assumptions: known participants have names; unordered maps are
  iterated in the order of insertion, and the loops over the maps of the store are written entry
  by entry; reading and writing labels as text are arguments; what a handler does itself is a
  further operation; sending a message returns.
\<close>

end
